(* ===== verification/Prelude.thy ===== *)
theory Prelude
  imports Main "HOL-Library.Multiset" "HOL-Library.Word"
begin

text \<open>
  The vocabulary every component shares: the outcome of a Rust call (\<open>Ok\<close>, \<open>Err\<close>
  or a panic), the \<open>?\<close> operator and the fallible traversals of iterators, machine
  integers as \<open>int\<close> with their ranges, hash maps and their unspecified iteration
  order, and the parts of the string library the sources use.
\<close>

named_theorems model_simps \<open>unfolding of the small accessors of the model\<close>

section \<open>Outcomes of Rust calls\<close>

text \<open>
  A call returns \<open>Ok\<close> or \<open>Err\<close>, or it does not return because it panics
  (\<open>unwrap\<close> on \<open>None\<close>, \<open>unimplemented!\<close>, an index out of range).
\<close>

datatype ('a, 'e) outcome = Ok 'a | Err 'e | Panic string

text \<open>The \<open>?\<close> operator: go on with the value, or return the error.\<close>

fun rbind :: "('a, 'e) outcome \<Rightarrow> ('a \<Rightarrow> ('b, 'e) outcome) \<Rightarrow> ('b, 'e) outcome" where
  "rbind (Ok x) f = f x"
| "rbind (Err e) f = Err e"
| "rbind (Panic s) f = Panic s"

fun map_err :: "('e \<Rightarrow> 'f) \<Rightarrow> ('a, 'e) outcome \<Rightarrow> ('a, 'f) outcome" where
  "map_err f (Ok x) = Ok x"
| "map_err f (Err e) = Err (f e)"
| "map_err f (Panic s) = Panic s"

text \<open>\<open>Option::ok_or\<close> and \<open>Option::unwrap\<close>.\<close>

definition ok_or :: "'e \<Rightarrow> 'a option \<Rightarrow> ('a, 'e) outcome" where
  "ok_or e x = (case x of Some v \<Rightarrow> Ok v | None \<Rightarrow> Err e)"

definition unwrap :: "'a option \<Rightarrow> ('a, 'e) outcome" where
  "unwrap x = (case x of Some v \<Rightarrow> Ok v
     | None \<Rightarrow> Panic ''called Option::unwrap() on a None value'')"

text \<open>\<open>iter().map(f).collect::<Result<Vec<_>, _>>()\<close>: the first error ends the traversal.\<close>

fun try_map :: "('a \<Rightarrow> ('b, 'e) outcome) \<Rightarrow> 'a list \<Rightarrow> ('b list, 'e) outcome" where
  "try_map f [] = Ok []"
| "try_map f (x # xs) = rbind (f x) (\<lambda>y. rbind (try_map f xs) (\<lambda>ys. Ok (y # ys)))"

text \<open>A \<open>for\<close> loop with \<open>?\<close> in its body, and \<open>Iterator::try_fold\<close>.\<close>

fun try_fold :: "('s \<Rightarrow> 'a \<Rightarrow> ('s, 'e) outcome) \<Rightarrow> 's \<Rightarrow> 'a list \<Rightarrow> ('s, 'e) outcome" where
  "try_fold f s [] = Ok s"
| "try_fold f s (x # xs) = rbind (f s x) (\<lambda>s'. try_fold f s' xs)"

lemma rbind_eq_Ok [simp]:
  "rbind m f = Ok y \<longleftrightarrow> (\<exists>x. m = Ok x \<and> f x = Ok y)"
  by (cases m) auto

lemma Ok_eq_rbind [simp]:
  "Ok y = rbind m f \<longleftrightarrow> (\<exists>x. m = Ok x \<and> f x = Ok y)"
  by (cases m) auto

lemma rbind_Ok_right [simp]: "rbind m Ok = m"
  by (cases m) auto

lemma rbind_assoc: "rbind (rbind m f) g = rbind m (\<lambda>x. rbind (f x) g)"
  by (cases m) auto

lemma rbind_cong [fundef_cong]:
  "m = m' \<Longrightarrow> (\<And>x. m' = Ok x \<Longrightarrow> f x = f' x) \<Longrightarrow> rbind m f = rbind m' f'"
  by (cases m') auto

lemma map_err_eq_Ok [simp]: "map_err f m = Ok x \<longleftrightarrow> m = Ok x"
  by (cases m) auto

lemma ok_or_simps [simp]:
  "ok_or e (Some v) = Ok v" "ok_or e None = Err e"
  by (simp_all add: ok_or_def)

lemma ok_or_eq_Ok [simp]: "ok_or e x = Ok v \<longleftrightarrow> x = Some v"
  by (cases x) auto

lemma unwrap_simps [simp]: "unwrap (Some v) = Ok v"
  by (simp add: unwrap_def)

lemma unwrap_eq_Ok [simp]: "unwrap x = Ok v \<longleftrightarrow> x = Some v"
  by (cases x) (auto simp: unwrap_def)

lemma try_map_eq_Ok:
  "try_map f xs = Ok ys \<longleftrightarrow> list_all2 (\<lambda>x y. f x = Ok y) xs ys"
proof (induction xs arbitrary: ys)
  case Nil
  then show ?case by auto
next
  case (Cons x xs)
  then show ?case by (cases ys) auto
qed

lemma try_map_Ok: "(\<And>x. x \<in> set xs \<Longrightarrow> f x = Ok (g x)) \<Longrightarrow> try_map f xs = Ok (map g xs)"
  by (induction xs) auto

lemma try_map_length: "try_map f xs = Ok ys \<Longrightarrow> length ys = length xs"
  by (auto simp: try_map_eq_Ok dest: list_all2_lengthD)

text \<open>\<open>Result::ok\<close>.\<close>

fun ok :: "('a, 'e) outcome \<Rightarrow> 'a option" where
  "ok (Ok x) = Some x"
| "ok _ = None"

lemma try_map_ok: "try_map f xs = Ok ys \<longleftrightarrow> map (\<lambda>x. ok (f x)) xs = map Some ys"
proof (induction xs arbitrary: ys)
  case (Cons x xs)
  then show ?case by (cases ys; cases "f x") auto
qed auto

lemma try_fold_append:
  "try_fold f s (xs @ ys) = rbind (try_fold f s xs) (\<lambda>s'. try_fold f s' ys)"
  by (induction xs arbitrary: s) (auto simp: rbind_assoc)

text \<open>The loop rule: an invariant kept by every step that succeeds holds at the end.\<close>

lemma try_fold_inv:
  assumes "try_fold f s xs = Ok t" and "I s"
    and "\<And>s x s'. x \<in> set xs \<Longrightarrow> I s \<Longrightarrow> f s x = Ok s' \<Longrightarrow> I s'"
  shows "I t"
  using assms
proof (induction xs arbitrary: s)
  case Nil
  then show ?case by simp
next
  case (Cons x xs)
  from Cons.prems(1) obtain s' where s': "f s x = Ok s'" "try_fold f s' xs = Ok t"
    by auto
  have "I s'"
    using Cons.prems(2,3) s'(1) by auto
  then show ?case
    using Cons.IH [OF s'(2)] Cons.prems(3) by auto
qed

section \<open>Machine integers\<close>

text \<open>
  Fixed-width signed integers are \<open>int\<close>s; the width shows in the range predicates and
  in the operations that can leave the range. The plain operators wrap around (a build
  without overflow checks); \<open>checked_add\<close> and \<open>checked_sub\<close> are written out.
\<close>

type_synonym i32 = int
type_synonym i64 = int

definition in_i32 :: "int \<Rightarrow> bool" where
  "in_i32 x \<longleftrightarrow> - (2 ^ 31) \<le> x \<and> x < 2 ^ 31"

definition in_i64 :: "int \<Rightarrow> bool" where
  "in_i64 x \<longleftrightarrow> - (2 ^ 63) \<le> x \<and> x < 2 ^ 63"

definition wrap32 :: "int \<Rightarrow> i32" where
  "wrap32 x = (x + 2 ^ 31) mod 2 ^ 32 - 2 ^ 31"

definition wrap64 :: "int \<Rightarrow> i64" where
  "wrap64 x = (x + 2 ^ 63) mod 2 ^ 64 - 2 ^ 63"

definition checked_add_i64 :: "i64 \<Rightarrow> i64 \<Rightarrow> i64 option" where
  "checked_add_i64 a b = (if in_i64 (a + b) then Some (a + b) else None)"

definition checked_sub_i64 :: "i64 \<Rightarrow> i64 \<Rightarrow> i64 option" where
  "checked_sub_i64 a b = (if in_i64 (a - b) then Some (a - b) else None)"

definition checked_add_i32 :: "i32 \<Rightarrow> i32 \<Rightarrow> i32 option" where
  "checked_add_i32 a b = (if in_i32 (a + b) then Some (a + b) else None)"

text \<open>\<open>x as usize\<close> and \<open>x as i32\<close> between a signed 32-bit and a 64-bit unsigned value.\<close>

definition i32_as_usize :: "i32 \<Rightarrow> nat" where
  "i32_as_usize x = nat (x mod 2 ^ 64)"

definition usize_as_i32 :: "nat \<Rightarrow> i32" where
  "usize_as_i32 n = wrap32 (int n)"

lemma wrap64_id [simp]: "in_i64 x \<Longrightarrow> wrap64 x = x"
  by (simp add: wrap64_def in_i64_def)

lemma wrap32_id [simp]: "in_i32 x \<Longrightarrow> wrap32 x = x"
  by (simp add: wrap32_def in_i32_def)

lemma wrap64_range [simp]: "in_i64 (wrap64 x)"
  using pos_mod_sign [of "2 ^ 64" "x + 2 ^ 63"] pos_mod_bound [of "2 ^ 64" "x + 2 ^ 63"]
  by (simp add: wrap64_def in_i64_def)

lemma wrap32_range [simp]: "in_i32 (wrap32 x)"
  using pos_mod_sign [of "2 ^ 32" "x + 2 ^ 31"] pos_mod_bound [of "2 ^ 32" "x + 2 ^ 31"]
  by (simp add: wrap32_def in_i32_def)

lemma usize_as_i32_of_i32 [simp]: "in_i32 x \<Longrightarrow> usize_as_i32 (i32_as_usize x) = x"
proof -
  assume x: "in_i32 x"
  have "x mod 2 ^ 64 mod 2 ^ 32 = x mod 2 ^ 32"
    by (rule mod_mod_cancel) simp
  then have "(x mod 2 ^ 64 + 2 ^ 31) mod 2 ^ 32 = (x + 2 ^ 31) mod (2 ^ 32 :: int)"
    by (metis mod_add_left_eq)
  then show ?thesis
    using x by (simp add: usize_as_i32_def i32_as_usize_def wrap32_def in_i32_def)
qed

lemma checked_add_i64_Some:
  "checked_add_i64 a b = Some c \<longleftrightarrow> in_i64 (a + b) \<and> c = a + b"
  by (auto simp: checked_add_i64_def)

lemma checked_sub_i64_Some:
  "checked_sub_i64 a b = Some c \<longleftrightarrow> in_i64 (a - b) \<and> c = a - b"
  by (auto simp: checked_sub_i64_def)

section \<open>Hash maps\<close>

text \<open>
  A \<open>HashMap\<close> is a map; \<open>HashMap::from_iter\<close> keeps the last pair of a key. The
  order in which a hash map is traversed is not specified: code that traverses one takes
  the order as an argument, and its properties hold for every admissible order.
\<close>

definition hm_from_iter :: "('k \<times> 'v) list \<Rightarrow> ('k \<rightharpoonup> 'v)" where
  "hm_from_iter kvs = map_of (rev kvs)"

definition traversal :: "'k list \<Rightarrow> ('k \<rightharpoonup> 'v) \<Rightarrow> bool" where
  "traversal ks m \<longleftrightarrow> distinct ks \<and> set ks = dom m"

definition hm_values :: "'k list \<Rightarrow> ('k \<rightharpoonup> 'v) \<Rightarrow> 'v list" where
  "hm_values ks m = List.map_filter m ks"

definition hm_entries :: "'k list \<Rightarrow> ('k \<rightharpoonup> 'v) \<Rightarrow> ('k \<times> 'v) list" where
  "hm_entries ks m = List.map_filter (\<lambda>k. map_option (Pair k) (m k)) ks"

lemma hm_from_iter_distinct: "distinct (map fst kvs) \<Longrightarrow> hm_from_iter kvs = map_of kvs"
  unfolding hm_from_iter_def by (rule map_of_inject_set [THEN iffD2]) (simp_all flip: rev_map)

lemma traversal_finite: "traversal ks m \<Longrightarrow> finite (dom m)"
  by (metis traversal_def List.finite_set)

lemma hm_values_traversal:
  "traversal ks m \<Longrightarrow> hm_values ks m = map (\<lambda>k. the (m k)) ks"
  unfolding hm_values_def traversal_def List.map_filter_def
  by (auto intro!: map_cong simp: filter_id_conv)

lemma set_hm_values: "traversal ks m \<Longrightarrow> set (hm_values ks m) = ran m"
  by (auto simp: hm_values_traversal traversal_def ran_def dom_def) force

text \<open>
  Values that carry their own key are put back under it: the round trip of a map that is
  stored as the list of its values.
\<close>

lemma hm_from_values:
  assumes tr: "traversal ks m" and key: "\<And>k v. m k = Some v \<Longrightarrow> key v = k"
  shows "hm_from_iter (map (\<lambda>v. (key v, v)) (hm_values ks m)) = m"
proof -
  have 1: "map (\<lambda>v. (key v, v)) (hm_values ks m) = map (\<lambda>k. (k, the (m k))) ks"
    using tr key by (auto simp: hm_values_traversal traversal_def dom_def)
  have "map fst (map (\<lambda>k. (k, the (m k))) ks) = ks"
    by (induction ks) auto
  with tr have "distinct (map fst (map (\<lambda>k. (k, the (m k))) ks))"
    by (simp add: traversal_def)
  then have "hm_from_iter (map (\<lambda>k. (k, the (m k))) ks) = map_of (map (\<lambda>k. (k, the (m k))) ks)"
    by (rule hm_from_iter_distinct)
  also have "\<dots> = m"
    using tr by (auto simp: map_of_map_restrict traversal_def restrict_map_def fun_eq_iff dom_def)
  finally show ?thesis using 1 by simp
qed

text \<open>
  A hash map rebuilt from its entries by a fallible function of the value: on success the
  result does not depend on the order.
\<close>

definition hm_try_map ::
  "'k list \<Rightarrow> ('v \<Rightarrow> ('w, 'e) outcome) \<Rightarrow> ('k \<rightharpoonup> 'v) \<Rightarrow> ('k \<rightharpoonup> 'w, 'e) outcome" where
  "hm_try_map ks f m =
     rbind (try_map (\<lambda>(k, v). rbind (f v) (\<lambda>w. Ok (k, w))) (hm_entries ks m))
       (\<lambda>kvs. Ok (hm_from_iter kvs))"

text \<open>The same under an \<open>Option\<close>: \<open>map(..).transpose()\<close>.\<close>

definition opt_try_map :: "('a \<Rightarrow> ('b, 'e) outcome) \<Rightarrow> 'a option \<Rightarrow> ('b option, 'e) outcome" where
  "opt_try_map f o' = (case o' of None \<Rightarrow> Ok None | Some x \<Rightarrow> rbind (f x) (\<lambda>y. Ok (Some y)))"

lemma opt_try_map_simps [simp]:
  "opt_try_map f None = Ok None" "opt_try_map f (Some x) = rbind (f x) (\<lambda>y. Ok (Some y))"
  by (simp_all add: opt_try_map_def)

lemma hm_entries_traversal:
  "traversal ks m \<Longrightarrow> hm_entries ks m = map (\<lambda>k. (k, the (m k))) ks"
  unfolding hm_entries_def traversal_def List.map_filter_def
  by (auto intro!: map_cong simp: filter_id_conv)

lemma hm_try_map_Ok:
  assumes tr: "traversal ks m" and f: "\<And>k v. m k = Some v \<Longrightarrow> f v = Ok (g v)"
  shows "hm_try_map ks f m = Ok (map_option g \<circ> m)"
proof -
  have "try_map (\<lambda>(k, v). rbind (f v) (\<lambda>w. Ok (k, w))) (hm_entries ks m)
      = Ok (map (\<lambda>(k, v). (k, g v)) (hm_entries ks m))"
    using tr f by (intro try_map_Ok) (auto simp: hm_entries_traversal traversal_def dom_def)
  moreover have "hm_from_iter (map (\<lambda>(k, v). (k, g v)) (hm_entries ks m)) = map_option g \<circ> m"
  proof -
    have "distinct (map fst (map (\<lambda>k. (k, g (the (m k)))) ks))"
      using tr by (simp add: traversal_def comp_def)
    then have "hm_from_iter (map (\<lambda>k. (k, g (the (m k)))) ks) = map_of (map (\<lambda>k. (k, g (the (m k)))) ks)"
      by (rule hm_from_iter_distinct)
    also have "\<dots> = map_option g \<circ> m"
      using tr by (auto simp: map_of_map_restrict traversal_def restrict_map_def fun_eq_iff dom_def)
    finally show ?thesis
      using tr by (simp add: hm_entries_traversal comp_def)
  qed
  ultimately show ?thesis by (simp add: hm_try_map_def)
qed

text \<open>
  A hash map rebuilt from the entries that a fallible function keeps (\<open>filter_map\<close> and
  \<open>collect\<close>, or \<open>retain\<close>).
\<close>

definition hm_try_filter_map ::
  "'k list \<Rightarrow> ('k \<Rightarrow> 'v \<Rightarrow> ('w option, 'e) outcome) \<Rightarrow> ('k \<rightharpoonup> 'v) \<Rightarrow> ('k \<rightharpoonup> 'w, 'e) outcome" where
  "hm_try_filter_map ks f m =
     rbind (try_map (\<lambda>(k, v). rbind (f k v) (\<lambda>r. Ok (map_option (Pair k) r))) (hm_entries ks m))
       (\<lambda>os. Ok (hm_from_iter (List.map_filter (\<lambda>x. x) os)))"

lemma map_of_map_filter:
  "distinct ks \<Longrightarrow>
   map_of (List.map_filter (\<lambda>k. map_option (Pair k) (g k)) ks) = (\<lambda>k. if k \<in> set ks then g k else None)"
  by (induction ks) (auto simp: List.map_filter_simps fun_eq_iff split: option.splits)

lemma distinct_map_filter:
  "distinct ks \<Longrightarrow> distinct (map fst (List.map_filter (\<lambda>k. map_option (Pair k) (g k)) ks))"
  by (induction ks) (auto simp: List.map_filter_simps List.map_filter_def split: option.splits)

lemma map_filter_map: "List.map_filter (\<lambda>x. x) (map g xs) = List.map_filter g xs"
  by (induction xs) (simp_all add: List.map_filter_simps split: option.split)

lemma hm_try_filter_map_Ok:
  assumes tr: "traversal ks m" and f: "\<And>k v. m k = Some v \<Longrightarrow> f k v = Ok (g k v)"
  shows "hm_try_filter_map ks f m = Ok (\<lambda>k. case m k of None \<Rightarrow> None | Some v \<Rightarrow> g k v)"
proof -
  let ?g = "\<lambda>k. g k (the (m k))"
  have "try_map (\<lambda>(k, v). rbind (f k v) (\<lambda>r. Ok (map_option (Pair k) r))) (hm_entries ks m)
      = Ok (map (\<lambda>(k, v). map_option (Pair k) (g k v)) (hm_entries ks m))"
    using tr f by (intro try_map_Ok) (auto simp: hm_entries_traversal traversal_def dom_def)
  moreover have "map (\<lambda>(k, v). map_option (Pair k) (g k v)) (hm_entries ks m)
      = map (\<lambda>k. map_option (Pair k) (?g k)) ks"
    using tr by (simp add: hm_entries_traversal comp_def)
  moreover have "hm_from_iter (List.map_filter (\<lambda>k. map_option (Pair k) (?g k)) ks)
      = (\<lambda>k. case m k of None \<Rightarrow> None | Some v \<Rightarrow> g k v)"
    using tr
    by (subst hm_from_iter_distinct)
      (auto simp: distinct_map_filter map_of_map_filter traversal_def fun_eq_iff split: option.splits)
  ultimately show ?thesis
    by (simp add: hm_try_filter_map_def map_filter_map)
qed

lemma hm_try_filter_map_eq_Ok:
  assumes tr: "traversal ks m" and r: "hm_try_filter_map ks f m = Ok m'"
  shows "m' = (\<lambda>k. case m k of None \<Rightarrow> None | Some v \<Rightarrow> (case f k v of Ok r \<Rightarrow> r | _ \<Rightarrow> None))"
    and "m k = Some v \<Longrightarrow> \<exists>r. f k v = Ok r"
proof -
  from r obtain os where os: "try_map (\<lambda>(k, v). rbind (f k v) (\<lambda>r. Ok (map_option (Pair k) r))) (hm_entries ks m) = Ok os"
    by (auto simp: hm_try_filter_map_def)
  have ex: "\<exists>r. f k v = Ok r" if "m k = Some v" for k v
  proof -
    have "(k, v) \<in> set (hm_entries ks m)"
      using tr that by (force simp: hm_entries_traversal traversal_def)
    then have "(case (k, v) of (k, v) \<Rightarrow> rbind (f k v) (\<lambda>r. Ok (map_option (Pair k) r))) \<noteq> Err e"
      "(\<exists>y. (case (k, v) of (k, v) \<Rightarrow> rbind (f k v) (\<lambda>r. Ok (map_option (Pair k) r))) = Ok y)" for e
      using os by (fastforce simp: try_map_eq_Ok list_all2_conv_all_nth in_set_conv_nth)+
    then show ?thesis by auto
  qed
  then show "m k = Some v \<Longrightarrow> \<exists>r. f k v = Ok r" .
  have "hm_try_filter_map ks f m = Ok (\<lambda>k. case m k of None \<Rightarrow> None | Some v \<Rightarrow> (case f k v of Ok r \<Rightarrow> r | _ \<Rightarrow> None))"
    by (rule hm_try_filter_map_Ok [OF tr]) (use ex in \<open>fastforce split: outcome.splits\<close>)
  with r show "m' = (\<lambda>k. case m k of None \<Rightarrow> None | Some v \<Rightarrow> (case f k v of Ok r \<Rightarrow> r | _ \<Rightarrow> None))"
    by simp
qed

end
