(* ===== verification/Rust_String.thy ===== *)
theory Rust_String
  imports Prelude
begin

text \<open>
  The parts of Rust's string library the sources use: decimal printing and parsing of
  integers, \<open>split\<close>, \<open>trim_start_matches\<close> and their kin. A \<open>string\<close> is the list of
  the bytes of the UTF-8 text, as \<open>str\<close> is.
\<close>

section \<open>Decimal numbers\<close>

definition digit_char :: "nat \<Rightarrow> char" where
  "digit_char d = char_of (48 + d)"

definition digit_value :: "char \<Rightarrow> nat option" where
  "digit_value c = (let k = (of_char c :: nat) in if 48 \<le> k \<and> k \<le> 57 then Some (k - 48) else None)"

fun show_nat :: "nat \<Rightarrow> string" where
  "show_nat n = (if n < 10 then [digit_char n] else show_nat (n div 10) @ [digit_char (n mod 10)])"

declare show_nat.simps [simp del]

definition show_int :: "int \<Rightarrow> string" where
  "show_int x = (if x < 0 then CHR ''-'' # show_nat (nat (- x)) else show_nat (nat x))"

fun parse_digits :: "nat \<Rightarrow> string \<Rightarrow> nat option" where
  "parse_digits acc [] = Some acc"
| "parse_digits acc (c # cs) =
     (case digit_value c of None \<Rightarrow> None | Some d \<Rightarrow> parse_digits (acc * 10 + d) cs)"

text \<open>
  \<open>str::parse\<close> for unsigned integers below a bound: an optional plus sign, at least one
  digit, and no overflow. For signed integers a minus sign is accepted too.
\<close>

definition parse_unsigned :: "nat \<Rightarrow> string \<Rightarrow> nat option" where
  "parse_unsigned bound s =
     (let ds = (if s \<noteq> [] \<and> hd s = CHR ''+'' then tl s else s)
      in if ds = [] then None
         else case parse_digits 0 ds of
                Some n \<Rightarrow> if n < bound then Some n else None
              | None \<Rightarrow> None)"

definition parse_u32 :: "string \<Rightarrow> nat option" where
  "parse_u32 = parse_unsigned (2 ^ 32)"

definition parse_u64 :: "string \<Rightarrow> nat option" where
  "parse_u64 = parse_unsigned (2 ^ 64)"

definition parse_i64 :: "string \<Rightarrow> i64 option" where
  "parse_i64 s =
     (if s \<noteq> [] \<and> hd s = CHR ''-''
      then (if tl s = [] then None
            else case parse_digits 0 (tl s) of
                   Some n \<Rightarrow> if n \<le> 2 ^ 63 then Some (- int n) else None
                 | None \<Rightarrow> None)
      else map_option int (parse_unsigned (2 ^ 63) s))"

lemma digit_value_char [simp]: "d < 10 \<Longrightarrow> digit_value (digit_char d) = Some d"
proof -
  assume "d < 10"
  then have "(of_char (char_of (48 + d)) :: nat) = 48 + d"
    by (simp add: of_char_of)
  with \<open>d < 10\<close> show ?thesis
    by (simp add: digit_value_def digit_char_def)
qed

lemma digit_char_not_sign:
  assumes "d < 10" shows "digit_char d \<noteq> CHR ''-''" and "digit_char d \<noteq> CHR ''+''"
proof -
  have "digit_value (CHR ''-'') = None" "digit_value (CHR ''+'') = None"
    by (simp_all add: digit_value_def)
  with assms show "digit_char d \<noteq> CHR ''-''" and "digit_char d \<noteq> CHR ''+''"
    by (metis digit_value_char option.distinct(1))+
qed

lemma parse_digits_append:
  "parse_digits acc (xs @ ys) =
     (case parse_digits acc xs of None \<Rightarrow> None | Some a \<Rightarrow> parse_digits a ys)"
  by (induction xs arbitrary: acc) (auto split: option.splits)

lemma parse_digits_show: "parse_digits 0 (show_nat n) = Some n"
proof (induction n rule: show_nat.induct)
  case (1 n)
  show ?case
  proof (cases "n < 10")
    case True
    then show ?thesis by (subst show_nat.simps) simp
  next
    case False
    with 1 show ?thesis by (subst show_nat.simps) (simp add: parse_digits_append)
  qed
qed

lemma show_nat_nonempty [simp]: "show_nat n \<noteq> []"
  by (subst show_nat.simps) simp

definition is_digit_string :: "string \<Rightarrow> bool" where
  "is_digit_string s \<longleftrightarrow> s \<noteq> [] \<and> (\<forall>c \<in> set s. digit_value c \<noteq> None)"

lemma show_nat_digits: "is_digit_string (show_nat n)"
proof (induction n rule: show_nat.induct)
  case (1 n)
  show ?case
  proof (cases "n < 10")
    case True
    then show ?thesis by (subst show_nat.simps) (simp add: is_digit_string_def)
  next
    case False
    with 1 have "is_digit_string (show_nat (n div 10))" by simp
    with False show ?thesis
      by (subst show_nat.simps) (auto simp: is_digit_string_def)
  qed
qed

lemma digits_not:
  assumes "digit_value c = None" shows "c \<notin> set (show_nat n)"
  using assms show_nat_digits [of n] by (auto simp: is_digit_string_def)

lemma show_nat_Cons: "\<exists>d ds. show_nat n = d # ds \<and> d \<noteq> CHR ''-'' \<and> d \<noteq> CHR ''+''"
proof -
  obtain d ds where d: "show_nat n = d # ds"
    by (cases "show_nat n") auto
  have "digit_value (CHR ''-'') = None" "digit_value (CHR ''+'') = None"
    by (simp_all add: digit_value_def)
  then have "CHR ''-'' \<notin> set (show_nat n)" "CHR ''+'' \<notin> set (show_nat n)"
    by (auto dest: digits_not)
  with d show ?thesis by auto
qed

lemma parse_unsigned_show: "n < bound \<Longrightarrow> parse_unsigned bound (show_nat n) = Some n"
proof -
  assume n: "n < bound"
  obtain d ds where d: "show_nat n = d # ds" "d \<noteq> CHR ''+''"
    using show_nat_Cons by blast
  then have "hd (show_nat n) \<noteq> CHR ''+''"
    by simp
  with n show ?thesis
    by (simp add: parse_unsigned_def parse_digits_show Let_def)
qed

lemma parse_i64_show [simp]:
  assumes "in_i64 x" shows "parse_i64 (show_int x) = Some x"
proof (cases "x < 0")
  case True
  have "nat (- x) \<le> 2 ^ 63"
    using assms by (simp add: in_i64_def nat_le_iff)
  with True show ?thesis
    by (simp add: parse_i64_def show_int_def parse_digits_show)
next
  case False
  obtain d ds where d: "show_nat (nat x) = d # ds" "d \<noteq> CHR ''-''"
    using show_nat_Cons by blast
  have "nat x < 2 ^ 63"
    using assms False by (simp add: in_i64_def nat_less_iff)
  then have "map_option int (parse_unsigned (2 ^ 63) (show_nat (nat x))) = Some x"
    using False by (simp add: parse_unsigned_show)
  with False d show ?thesis
    by (simp add: parse_i64_def show_int_def)
qed

section \<open>Splitting and trimming\<close>

text \<open>\<open>str::split\<close> on one byte: always at least one part.\<close>

fun split_on :: "char \<Rightarrow> string \<Rightarrow> string list" where
  "split_on c [] = [[]]"
| "split_on c (x # xs) =
     (if x = c then [] # split_on c xs
      else case split_on c xs of p # ps \<Rightarrow> (x # p) # ps | [] \<Rightarrow> [[x]])"

text \<open>\<open>Itertools::intersperse\<close> and \<open>join\<close>.\<close>

fun join_with :: "string \<Rightarrow> string list \<Rightarrow> string" where
  "join_with sep [] = []"
| "join_with sep [p] = p"
| "join_with sep (p # q # ps) = p @ sep @ join_with sep (q # ps)"

definition starts_with :: "string \<Rightarrow> string \<Rightarrow> bool" where
  "starts_with pat s \<longleftrightarrow> take (length pat) s = pat"

text \<open>\<open>str::strip_prefix\<close> and \<open>str::strip_suffix\<close>.\<close>

definition str_strip_prefix :: "string \<Rightarrow> string \<Rightarrow> string option" where
  "str_strip_prefix pat s = (if starts_with pat s then Some (drop (length pat) s) else None)"

definition str_strip_suffix :: "string \<Rightarrow> string \<Rightarrow> string option" where
  "str_strip_suffix pat s = map_option rev (str_strip_prefix (rev pat) (rev s))"

text \<open>\<open>trim_start_matches\<close> removes the pattern as often as it occurs at the start.\<close>

function trim_start_matches :: "string \<Rightarrow> string \<Rightarrow> string" where
  "trim_start_matches pat s =
     (if pat \<noteq> [] \<and> s \<noteq> [] \<and> starts_with pat s
      then trim_start_matches pat (drop (length pat) s) else s)"
  by pat_completeness auto
termination
  by (relation "measure (\<lambda>(pat, s). length s)") auto

declare trim_start_matches.simps [simp del]

definition trim_end_matches :: "string \<Rightarrow> string \<Rightarrow> string" where
  "trim_end_matches pat s = rev (trim_start_matches (rev pat) (rev s))"

lemma split_on_nonempty [simp]: "split_on c s \<noteq> []"
  by (induction s) (auto split: list.splits)

lemma split_on_no_sep: "c \<notin> set s \<Longrightarrow> split_on c s = [s]"
  by (induction s) auto

lemma split_on_append:
  "c \<notin> set p \<Longrightarrow> split_on c (p @ c # s) = p # split_on c s"
  by (induction p) auto

lemma split_on_parts: "p \<in> set (split_on c s) \<Longrightarrow> c \<notin> set p"
  by (induction s arbitrary: p) (force split: list.splits if_splits)+

lemma join_split: "join_with [c] (split_on c s) = s"
proof (induction s)
  case Nil
  then show ?case by simp
next
  case (Cons x s)
  obtain p ps where p: "split_on c s = p # ps"
    using split_on_nonempty by (metis neq_Nil_conv)
  with Cons show ?case
    by (cases ps) auto
qed

lemma split_join:
  "ps \<noteq> [] \<Longrightarrow> \<forall>p \<in> set ps. c \<notin> set p \<Longrightarrow> split_on c (join_with [c] ps) = ps"
  by (induction "[c]" ps rule: join_with.induct) (auto simp: split_on_no_sep split_on_append)

lemma starts_with_append [simp]: "starts_with pat (pat @ s)"
  by (simp add: starts_with_def)

lemma str_strip_prefix_append [simp]: "str_strip_prefix pat (pat @ s) = Some s"
  by (simp add: str_strip_prefix_def)

lemma str_strip_suffix_append [simp]: "str_strip_suffix pat (s @ pat) = Some s"
  by (simp add: str_strip_suffix_def)

lemma trim_start_append:
  "pat \<noteq> [] \<Longrightarrow> trim_start_matches pat (pat @ s) = trim_start_matches pat s"
  by (subst trim_start_matches.simps) simp

lemma trim_start_none: "\<not> starts_with pat s \<Longrightarrow> trim_start_matches pat s = s"
  by (subst trim_start_matches.simps) simp

lemma trim_end_char:
  "(s = [] \<or> last s \<noteq> c) \<Longrightarrow> trim_end_matches [c] (s @ [c]) = s"
proof -
  assume "s = [] \<or> last s \<noteq> c"
  then have "s = [] \<or> \<not> starts_with [c] (rev s)"
    by (cases s rule: rev_cases) (auto simp: starts_with_def)
  moreover have "trim_end_matches [c] (s @ [c]) = rev (trim_start_matches [c] ([c] @ rev s))"
    by (simp add: trim_end_matches_def)
  ultimately show ?thesis
    by (auto simp: trim_start_append trim_start_none simp del: append_Cons append_Nil)
      (simp add: trim_start_matches.simps)
qed

section \<open>White space, case and pairs\<close>

text \<open>
  \<open>str::trim\<close> on texts whose white space is ASCII, the ASCII case folding, and
  \<open>str::split_once\<close> on one byte.
\<close>

definition is_ascii_space :: "char \<Rightarrow> bool" where
  "is_ascii_space c \<longleftrightarrow> (let k = (of_char c :: nat) in (9 \<le> k \<and> k \<le> 13) \<or> k = 32)"

definition str_trim :: "string \<Rightarrow> string" where
  "str_trim s = rev (dropWhile is_ascii_space (rev (dropWhile is_ascii_space s)))"

definition char_lower :: "char \<Rightarrow> char" where
  "char_lower c = (let k = (of_char c :: nat) in if 65 \<le> k \<and> k \<le> 90 then char_of (k + 32) else c)"

definition to_ascii_lowercase :: "string \<Rightarrow> string" where
  "to_ascii_lowercase s = map char_lower s"

definition eq_ignore_ascii_case :: "string \<Rightarrow> string \<Rightarrow> bool" where
  "eq_ignore_ascii_case a b \<longleftrightarrow> to_ascii_lowercase a = to_ascii_lowercase b"

fun split_once :: "char \<Rightarrow> string \<Rightarrow> (string \<times> string) option" where
  "split_once c [] = None"
| "split_once c (x # xs) =
     (if x = c then Some ([], xs)
      else map_option (\<lambda>(a, b). (x # a, b)) (split_once c xs))"

definition trimmed :: "string \<Rightarrow> bool" where
  "trimmed s \<longleftrightarrow> (s = [] \<or> \<not> is_ascii_space (hd s) \<and> \<not> is_ascii_space (last s))"

lemma str_trim_trimmed [simp]: "trimmed s \<Longrightarrow> str_trim s = s"
proof (cases "s = []")
  case False
  assume "trimmed s"
  with False have "\<not> is_ascii_space (hd s)" "\<not> is_ascii_space (hd (rev s))"
    by (auto simp: trimmed_def hd_rev)
  then have "dropWhile is_ascii_space s = s" "dropWhile is_ascii_space (rev s) = rev s"
    by (simp_all add: dropWhile_eq_self_iff)
  then show ?thesis
    by (simp add: str_trim_def)
qed (simp add: str_trim_def)

lemma split_once_append [simp]: "c \<notin> set a \<Longrightarrow> split_once c (a @ c # b) = Some (a, b)"
  by (induction a) auto

lemma split_once_none [simp]: "c \<notin> set a \<Longrightarrow> split_once c a = None"
  by (induction a) auto

lemma digit_not_space: "digit_value c \<noteq> None \<Longrightarrow> \<not> is_ascii_space c"
  by (auto simp: digit_value_def is_ascii_space_def Let_def split: if_splits)

lemma trimmed_show_nat [simp]: "trimmed (show_nat n)"
proof -
  have "digit_value (hd (show_nat n)) \<noteq> None" "digit_value (last (show_nat n)) \<noteq> None"
    using show_nat_digits [of n] by (simp_all add: is_digit_string_def)
  then show ?thesis by (simp add: trimmed_def digit_not_space)
qed

lemma show_nat_no_sign [simp]:
  "CHR '','' \<notin> set (show_nat n)" "CHR '']'' \<notin> set (show_nat n)" "CHR '')'' \<notin> set (show_nat n)"
  "CHR ''['' \<notin> set (show_nat n)" "CHR ''('' \<notin> set (show_nat n)" "CHR ''-'' \<notin> set (show_nat n)"
  "CHR ''.'' \<notin> set (show_nat n)" "CHR ''/'' \<notin> set (show_nat n)" "CHR ''d'' \<notin> set (show_nat n)"
  "CHR ''f'' \<notin> set (show_nat n)"
  by (rule digits_not, simp add: digit_value_def)+

lemma starts_with_iff: "starts_with pat s \<longleftrightarrow> (\<exists>r. s = pat @ r)"
  by (metis append_take_drop_id starts_with_append starts_with_def)

end
