(* ===== verification/Iceberg_Types.thy ===== *)
theory Iceberg_Types
  imports Rust_String
begin

text \<open>
  The type language (\<open>iceberg-rust-spec/src/spec/types.rs\<close>): primitive types with their
  textual form, and the nested types with their field lookups. The constructors of
  \<open>PrimitiveType\<close> carry the prefix \<open>P\<close> (those of \<open>Value\<close> will carry \<open>V\<close>). The strings of
  the JSON form are read and written by the serde functions modelled here; serde's own
  object framing is not.
\<close>

section \<open>Primitive types\<close>

definition DEFAULT_GEO_CRS :: string where
  "DEFAULT_GEO_CRS = ''OGC:CRS84''"

datatype edge_algorithm = Spherical | Vincenty | Andoyer | Karney

datatype primitive_type =
    PBoolean | PInt | PLong | PFloat | PDouble
  | PDecimal nat nat
  | PDate | PTime | PTimestamp | PTimestamptz | PTimestampNs | PTimestamptzNs
  | PString | PUuid | PFixed nat | PBinary
  | PUnknown | PVariant | PGeometry "string option"
  | PGeography "string option" "edge_algorithm option"

text \<open>The errors of a serde deserializer that the functions below raise.\<close>

datatype de_error = Custom string | UnknownVariant string | ParseIntFailed string

definition EdgeAlgorithm_to_string :: "edge_algorithm \<Rightarrow> string" where
  "EdgeAlgorithm_to_string a =
     (case a of Spherical \<Rightarrow> ''spherical'' | Vincenty \<Rightarrow> ''vincenty''
        | Andoyer \<Rightarrow> ''andoyer'' | Karney \<Rightarrow> ''karney'')"

definition EdgeAlgorithm_from_str :: "string \<Rightarrow> edge_algorithm option" where
  "EdgeAlgorithm_from_str s =
     (let t = to_ascii_lowercase s
      in if t = ''spherical'' then Some Spherical
         else if t = ''vincenty'' then Some Vincenty
         else if t = ''andoyer'' then Some Andoyer
         else if t = ''karney'' then Some Karney
         else None)"

definition serialize_geometry :: "string option \<Rightarrow> string" where
  "serialize_geometry crs =
     (case crs of None \<Rightarrow> ''geometry'' | Some c \<Rightarrow> ''geometry('' @ c @ '')'')"

definition deserialize_geometry :: "string \<Rightarrow> (primitive_type, de_error) outcome" where
  "deserialize_geometry s =
     (if s = ''geometry'' then Ok (PGeometry None)
      else rbind (ok_or (Custom (''invalid geometry type: '' @ s))
                   (Option.bind (str_strip_prefix ''geometry('' s) (str_strip_suffix '')'')))
        (\<lambda>rest. let inner = str_trim rest
           in if inner = [] then Err (Custom ''geometry type requires non-empty CRS'')
              else Ok (PGeometry (if eq_ignore_ascii_case inner DEFAULT_GEO_CRS then None
                                  else Some inner))))"

definition serialize_geography :: "string option \<Rightarrow> edge_algorithm option \<Rightarrow> string" where
  "serialize_geography crs algorithm =
     (case (crs, algorithm) of
        (None, None) \<Rightarrow> ''geography''
      | (Some c, None) \<Rightarrow> ''geography('' @ c @ '')''
      | (c, Some a) \<Rightarrow>
          ''geography('' @ (case c of Some c' \<Rightarrow> c' | None \<Rightarrow> DEFAULT_GEO_CRS) @ '', ''
            @ EdgeAlgorithm_to_string a @ '')'')"

definition deserialize_geography :: "string \<Rightarrow> (primitive_type, de_error) outcome" where
  "deserialize_geography s =
     (if s = ''geography'' then Ok (PGeography None None)
      else rbind (ok_or (Custom (''invalid geography type: '' @ s))
                   (Option.bind (str_strip_prefix ''geography('' s) (str_strip_suffix '')'')))
        (\<lambda>rest. let inner = str_trim rest
           in if inner = [] then Err (Custom ''geography type requires non-empty CRS'')
              else
                let parts = split_once (CHR '','') inner;
                    crs_part = str_trim (case parts of Some (a, _) \<Rightarrow> a | None \<Rightarrow> inner);
                    algorithm_part =
                      (case parts of
                         Some (_, b) \<Rightarrow> if str_trim b = [] then None else Some (str_trim b)
                       | None \<Rightarrow> None);
                    crs = (if eq_ignore_ascii_case crs_part DEFAULT_GEO_CRS then None
                           else Some crs_part)
                in case algorithm_part of
                     None \<Rightarrow> Ok (PGeography crs None)
                   | Some x \<Rightarrow>
                       (case EdgeAlgorithm_from_str x of
                          Some a \<Rightarrow> Ok (PGeography crs (Some a))
                        | None \<Rightarrow> Err (Custom ''Conversion string EdgeAlgorithm''))))"

definition serialize_decimal :: "nat \<Rightarrow> nat \<Rightarrow> string" where
  "serialize_decimal precision scale =
     ''decimal('' @ show_nat precision @ '','' @ show_nat scale @ '')''"

definition deserialize_decimal :: "string \<Rightarrow> (primitive_type, de_error) outcome" where
  "deserialize_decimal s =
     rbind (ok_or (Custom ''Decimal requires precision and scale: {s}'')
              (split_once (CHR '','')
                 (trim_end_matches '')'' (trim_start_matches ''decimal('' s))))
       (\<lambda>(precision, scale).
          rbind (ok_or (ParseIntFailed precision) (parse_u32 precision)) (\<lambda>p.
          rbind (ok_or (ParseIntFailed scale) (parse_u32 (str_trim scale))) (\<lambda>q.
          Ok (PDecimal p q))))"

definition serialize_fixed :: "nat \<Rightarrow> string" where
  "serialize_fixed value = ''fixed['' @ show_nat value @ '']''"

definition deserialize_fixed :: "string \<Rightarrow> (primitive_type, de_error) outcome" where
  "deserialize_fixed s =
     (let fixed = trim_end_matches '']'' (trim_start_matches ''fixed['' s)
      in case parse_u64 fixed of
           Some n \<Rightarrow> Ok (PFixed n)
         | None \<Rightarrow> Err (ParseIntFailed fixed))"

text \<open>The names serde derives for the remaining constructors.\<close>

definition plain_names :: "(string \<times> primitive_type) list" where
  "plain_names =
     [(''boolean'', PBoolean), (''int'', PInt), (''long'', PLong), (''float'', PFloat),
      (''double'', PDouble), (''date'', PDate), (''time'', PTime),
      (''timestamp'', PTimestamp), (''timestamptz'', PTimestamptz),
      (''timestamp_ns'', PTimestampNs), (''timestamptz_ns'', PTimestamptzNs),
      (''string'', PString), (''uuid'', PUuid), (''binary'', PBinary),
      (''unknown'', PUnknown), (''variant'', PVariant)]"

definition PrimitiveType_serialize :: "primitive_type \<Rightarrow> string" where
  "PrimitiveType_serialize t =
     (case t of
        PDecimal p q \<Rightarrow> serialize_decimal p q
      | PFixed l \<Rightarrow> serialize_fixed l
      | PGeometry crs \<Rightarrow> serialize_geometry crs
      | PGeography crs a \<Rightarrow> serialize_geography crs a
      | PBoolean \<Rightarrow> ''boolean'' | PInt \<Rightarrow> ''int'' | PLong \<Rightarrow> ''long''
      | PFloat \<Rightarrow> ''float'' | PDouble \<Rightarrow> ''double'' | PDate \<Rightarrow> ''date'' | PTime \<Rightarrow> ''time''
      | PTimestamp \<Rightarrow> ''timestamp'' | PTimestamptz \<Rightarrow> ''timestamptz''
      | PTimestampNs \<Rightarrow> ''timestamp_ns'' | PTimestamptzNs \<Rightarrow> ''timestamptz_ns''
      | PString \<Rightarrow> ''string'' | PUuid \<Rightarrow> ''uuid'' | PBinary \<Rightarrow> ''binary''
      | PUnknown \<Rightarrow> ''unknown'' | PVariant \<Rightarrow> ''variant'')"

definition PrimitiveType_deserialize :: "string \<Rightarrow> (primitive_type, de_error) outcome" where
  "PrimitiveType_deserialize s =
     (if starts_with ''decimal'' s then deserialize_decimal s
      else if starts_with ''fixed'' s then deserialize_fixed s
      else if s = ''geometry'' \<or> starts_with ''geometry('' s then deserialize_geometry s
      else if s = ''geography'' \<or> starts_with ''geography('' s then deserialize_geography s
      else case map_of plain_names s of Some t \<Rightarrow> Ok t | None \<Rightarrow> Err (UnknownVariant s))"

definition PrimitiveType_to_string :: "primitive_type \<Rightarrow> string" where
  "PrimitiveType_to_string t =
     (case t of
        PDecimal _ _ \<Rightarrow> ''decimal'' | PFixed _ \<Rightarrow> ''fixed''
      | _ \<Rightarrow> PrimitiveType_serialize t)"

text \<open>The types whose textual form is read back as the same type.\<close>

fun wf_primitive :: "primitive_type \<Rightarrow> bool" where
  "wf_primitive (PDecimal p q) \<longleftrightarrow> p < 2 ^ 32 \<and> q < 2 ^ 32"
| "wf_primitive (PFixed l) \<longleftrightarrow> l < 2 ^ 64"
| "wf_primitive (PGeometry (Some c)) \<longleftrightarrow>
     c \<noteq> [] \<and> trimmed c \<and> \<not> eq_ignore_ascii_case c DEFAULT_GEO_CRS"
| "wf_primitive (PGeography (Some c) a) \<longleftrightarrow>
     c \<noteq> [] \<and> trimmed c \<and> \<not> eq_ignore_ascii_case c DEFAULT_GEO_CRS \<and> CHR '','' \<notin> set c"
| "wf_primitive _ \<longleftrightarrow> True"

lemma decimal_roundtrip:
  assumes "p < 2 ^ 32" "q < 2 ^ 32"
  shows "deserialize_decimal (serialize_decimal p q) = Ok (PDecimal p q)"
proof -
  have hd: "\<not> starts_with ''decimal('' (show_nat p @ r)" for r
    using show_nat_no_sign(9) [of p] by (cases "show_nat p") (auto simp: starts_with_iff)
  have "trim_start_matches ''decimal('' (''decimal('' @ show_nat p @ '','' @ show_nat q @ '')'')
        = show_nat p @ '','' @ show_nat q @ '')''"
    by (subst trim_start_append) (simp_all only: trim_start_none [OF hd] list.distinct not_False_eq_True)
  moreover have "trim_end_matches '')'' ((show_nat p @ '','' @ show_nat q) @ '')'')
        = show_nat p @ '','' @ show_nat q"
  proof (rule trim_end_char)
    have "last (show_nat q) \<noteq> CHR '')''"
      using show_nat_no_sign(3) [of q] last_in_set [OF show_nat_nonempty [of q]] by metis
    then show "show_nat p @ '','' @ show_nat q = [] \<or> last (show_nat p @ '','' @ show_nat q) \<noteq> CHR '')''"
      by simp
  qed
  moreover have "split_once (CHR '','') (show_nat p @ '','' @ show_nat q) = Some (show_nat p, show_nat q)"
    using split_once_append [of "CHR '',''" "show_nat p" "show_nat q"] by simp
  ultimately show ?thesis
    using assms
    by (simp add: deserialize_decimal_def serialize_decimal_def parse_u32_def parse_unsigned_show)
qed

lemma fixed_roundtrip:
  assumes "l < 2 ^ 64" shows "deserialize_fixed (serialize_fixed l) = Ok (PFixed l)"
proof -
  have hd: "\<not> starts_with ''fixed['' (show_nat l @ r)" for r
    using show_nat_no_sign(10) [of l] by (cases "show_nat l") (auto simp: starts_with_iff)
  have "trim_start_matches ''fixed['' (''fixed['' @ show_nat l @ '']'') = show_nat l @ '']''"
    by (subst trim_start_append) (simp_all only: trim_start_none [OF hd] list.distinct not_False_eq_True)
  moreover have "trim_end_matches '']'' (show_nat l @ '']'') = show_nat l"
    using show_nat_no_sign(2) [of l] last_in_set [OF show_nat_nonempty [of l]]
    by (intro trim_end_char) metis
  ultimately show ?thesis
    using assms by (simp add: deserialize_fixed_def serialize_fixed_def parse_u64_def parse_unsigned_show)
qed

lemma geometry_roundtrip:
  assumes "wf_primitive (PGeometry crs)"
  shows "deserialize_geometry (serialize_geometry crs) = Ok (PGeometry crs)"
proof (cases crs)
  case None
  then show ?thesis by (simp add: deserialize_geometry_def serialize_geometry_def)
next
  case (Some c)
  have "str_strip_suffix '')'' (c @ '')'') = Some c" by simp
  moreover have "str_strip_prefix ''geometry('' (''geometry('' @ c @ '')'') = Some (c @ '')'')"
    by (rule str_strip_prefix_append)
  ultimately show ?thesis
    using assms Some by (simp add: deserialize_geometry_def serialize_geometry_def Let_def)
qed

lemma edge_algorithm_from_to [simp]:
  "EdgeAlgorithm_from_str (EdgeAlgorithm_to_string a) = Some a"
  by (cases a) (simp_all add: EdgeAlgorithm_from_str_def EdgeAlgorithm_to_string_def
      to_ascii_lowercase_def char_lower_def)

lemma edge_algorithm_trimmed [simp]:
  "trimmed (EdgeAlgorithm_to_string a)" "EdgeAlgorithm_to_string a \<noteq> []"
  "\<not> is_ascii_space (last (EdgeAlgorithm_to_string a))"
  by (cases a; simp add: EdgeAlgorithm_to_string_def trimmed_def is_ascii_space_def)+

lemma str_trim_space [simp]: "str_trim (CHR '' '' # s) = str_trim s"
  by (simp add: str_trim_def is_ascii_space_def)

lemma geography_roundtrip_none:
  assumes "wf_primitive (PGeography crs None)"
  shows "deserialize_geography (serialize_geography crs None) = Ok (PGeography crs None)"
proof (cases crs)
  case None
  then show ?thesis by (simp add: deserialize_geography_def serialize_geography_def)
next
  case (Some c)
  have "str_strip_suffix '')'' (c @ '')'') = Some c" by simp
  moreover have "str_strip_prefix ''geography('' (''geography('' @ c @ '')'') = Some (c @ '')'')"
    by (rule str_strip_prefix_append)
  ultimately show ?thesis
    using assms Some by (simp add: deserialize_geography_def serialize_geography_def Let_def)
qed

lemma geography_inner:
  assumes c: "c \<noteq> []" "trimmed c" "CHR '','' \<notin> set c"
  shows "deserialize_geography (''geography('' @ c @ '', '' @ EdgeAlgorithm_to_string a @ '')'') =
           Ok (PGeography (if eq_ignore_ascii_case c DEFAULT_GEO_CRS then None else Some c) (Some a))"
proof -
  define i where "i = c @ '', '' @ EdgeAlgorithm_to_string a"
  have "str_strip_suffix '')'' (i @ '')'') = Some i" by simp
  moreover have "str_strip_prefix ''geography('' (''geography('' @ i @ '')'') = Some (i @ '')'')"
    by (rule str_strip_prefix_append)
  moreover have "str_trim i = i"
    using c by (intro str_trim_trimmed) (auto simp: i_def trimmed_def)
  moreover have "split_once (CHR '','') i = Some (c, CHR '' '' # EdgeAlgorithm_to_string a)"
    using split_once_append [OF c(3), of "CHR '' '' # EdgeAlgorithm_to_string a"] by (simp add: i_def)
  moreover have "i \<noteq> []" using c by (simp add: i_def)
  ultimately have "deserialize_geography (''geography('' @ i @ '')'') =
           Ok (PGeography (if eq_ignore_ascii_case c DEFAULT_GEO_CRS then None else Some c) (Some a))"
    using c by (simp add: deserialize_geography_def Let_def)
  then show ?thesis by (simp add: i_def)
qed

lemma geography_roundtrip:
  assumes "wf_primitive (PGeography crs a)"
  shows "deserialize_geography (serialize_geography crs a) = Ok (PGeography crs a)"
proof (cases a)
  case None
  with assms show ?thesis by (simp add: geography_roundtrip_none)
next
  case (Some b)
  have d: "DEFAULT_GEO_CRS \<noteq> []" "trimmed DEFAULT_GEO_CRS" "CHR '','' \<notin> set DEFAULT_GEO_CRS"
    "eq_ignore_ascii_case DEFAULT_GEO_CRS DEFAULT_GEO_CRS"
    by (simp_all add: DEFAULT_GEO_CRS_def trimmed_def is_ascii_space_def eq_ignore_ascii_case_def)
  show ?thesis
    using assms Some d geography_inner [OF d(1-3), of b] geography_inner [of "the crs" b]
    by (cases crs) (simp_all add: serialize_geography_def)
qed

text \<open>
  The textual form of a primitive type is read back as that type, for every type whose
  numbers fit their width and whose CRS, where it has one, is a trimmed non-empty text other
  than the default (and free of commas for a geography).
\<close>

theorem primitive_type_roundtrip:
  assumes "wf_primitive t"
  shows "PrimitiveType_deserialize (PrimitiveType_serialize t) = Ok t"
proof (cases t)
  case (PDecimal p q)
  then show ?thesis
    using assms decimal_roundtrip [of p q]
    by (simp add: PrimitiveType_deserialize_def PrimitiveType_serialize_def
        serialize_decimal_def starts_with_def)
next
  case (PFixed l)
  then show ?thesis
    using assms fixed_roundtrip [of l]
    by (simp add: PrimitiveType_deserialize_def PrimitiveType_serialize_def
        serialize_fixed_def starts_with_def)
next
  case (PGeometry c)
  then show ?thesis
    using assms geometry_roundtrip [of c]
    by (cases c) (simp_all add: PrimitiveType_deserialize_def PrimitiveType_serialize_def
        serialize_geometry_def starts_with_def)
next
  case (PGeography c a)
  then show ?thesis
    using assms geography_roundtrip [of c a]
    by (cases c; cases a) (simp_all add: PrimitiveType_deserialize_def PrimitiveType_serialize_def
        serialize_geography_def starts_with_def)
qed (simp_all add: PrimitiveType_deserialize_def PrimitiveType_serialize_def starts_with_def
    plain_names_def)

theorem primitive_type_roundtrip_witness:
  "PrimitiveType_deserialize (PrimitiveType_serialize (PGeography (Some ''EPSG:4326'') (Some Karney)))
     = Ok (PGeography (Some ''EPSG:4326'') (Some Karney))"
  by (rule primitive_type_roundtrip)
    (simp add: trimmed_def is_ascii_space_def eq_ignore_ascii_case_def to_ascii_lowercase_def
      DEFAULT_GEO_CRS_def char_lower_def)


section \<open>Nested types\<close>

text \<open>\<open>serde_json::Value\<close>, the raw JSON of a default value: only copied, never looked into.\<close>

typedecl json_value

datatype ice_type =
    Primitive primitive_type
  | Struct struct_type
  | List list_type
  | Map map_type
and struct_type =
    StructType (st_fields: "struct_field list") (st_lookup: "i32 \<rightharpoonup> nat")
and struct_field =
    StructField (fid: i32) (fname: string) (frequired: bool) (ftype: ice_type)
      (fdoc: "string option") (finitial_default: "json_value option")
      (fwrite_default: "json_value option")
and list_type =
    ListType (lt_element_id: i32) (lt_element_required: bool) (lt_element: ice_type)
and map_type =
    MapType (mt_key_id: i32) (mt_key: ice_type) (mt_value_id: i32) (mt_value_required: bool)
      (mt_value: ice_type)

definition Type_to_string :: "ice_type \<Rightarrow> string" where
  "Type_to_string t =
     (case t of Primitive p \<Rightarrow> PrimitiveType_to_string p | Struct _ \<Rightarrow> ''struct''
        | List _ \<Rightarrow> ''list'' | Map _ \<Rightarrow> ''map'')"

definition StructType_new :: "struct_field list \<Rightarrow> struct_type" where
  "StructType_new fields =
     StructType fields (hm_from_iter (map (\<lambda>(idx, f). (fid f, idx)) (enumerate 0 fields)))"

text \<open>The builder: the lookup is computed unless the caller sets one.\<close>

definition StructTypeBuilder_build ::
  "struct_field list option \<Rightarrow> (i32 \<rightharpoonup> nat) option \<Rightarrow> (struct_type, string) outcome" where
  "StructTypeBuilder_build fields lookup =
     (case (fields, lookup) of
        (Some fs, None) \<Rightarrow> Ok (StructType_new fs)
      | (Some fs, Some l) \<Rightarrow> Ok (StructType fs l)
      | (None, _) \<Rightarrow> Err ''fields'')"

text \<open>
  \<open>get\<close> takes a field id as \<open>usize\<close> and casts it back to \<open>i32\<close>; the fields are indexed
  without a check.
\<close>

definition StructType_get :: "struct_type \<Rightarrow> nat \<Rightarrow> (struct_field option, 'e) outcome" where
  "StructType_get st index =
     (case st_lookup st (usize_as_i32 index) of
        None \<Rightarrow> Ok None
      | Some idx \<Rightarrow> if idx < length (st_fields st) then Ok (Some (st_fields st ! idx))
                    else Panic ''index out of bounds'')"

fun get_name_loop :: "struct_type \<Rightarrow> string list \<Rightarrow> struct_field option" where
  "get_name_loop current_struct [] = None"
| "get_name_loop current_struct (part # parts) =
     (let current_field = find (\<lambda>f. fname f = part) (st_fields current_struct)
      in if parts = [] \<or> current_field \<noteq> None then current_field
         else case current_field of
                Some field \<Rightarrow>
                  (case ftype field of Struct s \<Rightarrow> get_name_loop s parts | _ \<Rightarrow> None)
              | None \<Rightarrow> get_name_loop current_struct parts)"

definition StructType_get_name :: "struct_type \<Rightarrow> string \<Rightarrow> struct_field option" where
  "StructType_get_name st name =
     (case find (\<lambda>f. fname f = name) (st_fields st) of
        Some f \<Rightarrow> Some f
      | None \<Rightarrow> get_name_loop st (split_on (CHR ''.'') name))"

definition StructType_len :: "struct_type \<Rightarrow> nat" where
  "StructType_len st = length (st_fields st)"

text \<open>The ids, in ascending order.\<close>

definition StructType_field_ids :: "i32 list \<Rightarrow> struct_type \<Rightarrow> i32 list" where
  "StructType_field_ids ks st = sort (map fst (hm_entries ks (st_lookup st)))"

definition StructType_primitive_field_ids :: "i32 list \<Rightarrow> struct_type \<Rightarrow> i32 list" where
  "StructType_primitive_field_ids ks st =
     sort (map fst (filter (\<lambda>(_, x). case ftype (st_fields st ! x) of Primitive _ \<Rightarrow> True | _ \<Rightarrow> False)
       (hm_entries ks (st_lookup st))))"

text \<open>\<open>Iterator::max\<close>.\<close>

fun iter_max :: "int list \<Rightarrow> int option" where
  "iter_max [] = None"
| "iter_max (x # xs) = Some (case iter_max xs of None \<Rightarrow> x | Some m \<Rightarrow> max x m)"

text \<open>\<open>o.map_or(m, |n| m.max(n))\<close>.\<close>

definition max_opt :: "int \<Rightarrow> int option \<Rightarrow> int" where
  "max_opt m o' = (case o' of None \<Rightarrow> m | Some n \<Rightarrow> max m n)"

fun max_nested_field_id :: "ice_type \<Rightarrow> i32 option"
  and StructType_max_field_id :: "struct_type \<Rightarrow> i32 option"
  and StructField_max_field_id :: "struct_field \<Rightarrow> i32" where
  "max_nested_field_id (Primitive p) = None"
| "max_nested_field_id (Struct s) = StructType_max_field_id s"
| "max_nested_field_id (List (ListType i r t)) =
     Some (max_opt i (max_nested_field_id t))"
| "max_nested_field_id (Map (MapType ki k vi r v)) =
     Some (max_opt (max_opt (max ki vi) (max_nested_field_id k)) (max_nested_field_id v))"
| "StructType_max_field_id (StructType fs l) = iter_max (map StructField_max_field_id fs)"
| "StructField_max_field_id (StructField i n r t d a b) =
     max_opt i (max_nested_field_id t)"

text \<open>All field ids a type mentions: the specification of the recursion above.\<close>

fun type_ids :: "ice_type \<Rightarrow> i32 list"
  and struct_ids :: "struct_type \<Rightarrow> i32 list"
  and field_ids :: "struct_field \<Rightarrow> i32 list" where
  "type_ids (Primitive p) = []"
| "type_ids (Struct s) = struct_ids s"
| "type_ids (List (ListType i r t)) = i # type_ids t"
| "type_ids (Map (MapType ki k vi r v)) = ki # vi # type_ids k @ type_ids v"
| "struct_ids (StructType fs l) = concat (map field_ids fs)"
| "field_ids (StructField i n r t d a b) = i # type_ids t"

definition max_of :: "int list \<Rightarrow> int option" where
  "max_of xs = (if xs = [] then None else Some (Max (set xs)))"

lemma iter_max_max_of: "iter_max xs = max_of xs"
  by (induction xs) (auto simp: max_of_def max_def)

lemma max_of_Cons: "max_of (x # xs) = Some (case max_of xs of None \<Rightarrow> x | Some m \<Rightarrow> max x m)"
  by (auto simp: max_of_def)

lemma max_of_append:
  "max_of (xs @ ys) = (case max_of xs of None \<Rightarrow> max_of ys
     | Some m \<Rightarrow> Some (case max_of ys of None \<Rightarrow> m | Some n \<Rightarrow> max m n))"
  by (auto simp: max_of_def Max_Un)

lemma max_of_concat:
  "(\<And>x. x \<in> set xs \<Longrightarrow> max_of (f x) = Some (g x)) \<Longrightarrow>
     max_of (concat (map f xs)) = max_of (map g xs)"
proof (induction xs)
  case Nil
  then show ?case by simp
next
  case (Cons x xs)
  then have "max_of (f x) = Some (g x)" "max_of (concat (map f xs)) = max_of (map g xs)"
    by auto
  then show ?case by (simp add: max_of_append max_of_Cons split: option.splits)
qed

text \<open>
  The largest field id of a type, a struct and a field is the maximum over all ids the
  type mentions at any depth, and a struct has none exactly when it has no fields.
\<close>

theorem max_field_id_is_max:
  "max_nested_field_id t = max_of (type_ids t)
   \<and> StructType_max_field_id s = max_of (struct_ids s)
   \<and> Some (StructField_max_field_id f) = max_of (field_ids f)"
proof -
  have "max_nested_field_id t = max_of (type_ids t)"
    and "StructType_max_field_id s = max_of (struct_ids s)"
    and "max_of (field_ids f) = Some (StructField_max_field_id f)" for t s f
  proof (induction t and s and f rule: max_nested_field_id_StructType_max_field_id_StructField_max_field_id.induct)
    case (4 ki k vi r v)
    then show ?case
      by (auto simp: max_of_Cons max_of_append max_opt_def split: option.splits)
  next
    case (5 fs l)
    then show ?case by (simp add: iter_max_max_of max_of_concat)
  qed (auto simp: max_of_Cons max_opt_def max_of_def [of "[]"] split: option.splits)
  then show ?thesis by simp
qed

section \<open>Lookups\<close>

lemma lookup_new_Nil [simp]: "st_lookup (StructType_new []) k = None"
  by (simp add: StructType_new_def hm_from_iter_def)

lemma lookup_new_snoc [simp]:
  "st_lookup (StructType_new (fs @ [f])) k =
     (if fid f = k then Some (length fs) else st_lookup (StructType_new fs) k)"
  by (simp add: StructType_new_def hm_from_iter_def enumerate_append_eq)

lemma fields_new [simp]: "st_fields (StructType_new fs) = fs"
  by (simp add: StructType_new_def)

lemma lookup_new_Some:
  "st_lookup (StructType_new fs) k = Some i \<longleftrightarrow>
     i < length fs \<and> fid (fs ! i) = k \<and> (\<forall>j. i < j \<and> j < length fs \<longrightarrow> fid (fs ! j) \<noteq> k)"
proof (induction fs rule: rev_induct)
  case Nil
  then show ?case by simp
next
  case (snoc f fs)
  then show ?case
    by (auto simp: nth_append less_Suc_eq split: if_splits)
qed

lemma lookup_new_None:
  "st_lookup (StructType_new fs) k = None \<longleftrightarrow> k \<notin> fid ` set fs"
  by (induction fs rule: rev_induct) auto

lemma StructType_get_new:
  assumes "in_i32 k"
  shows "StructType_get (StructType_new fs) (i32_as_usize k) = Ok (find (\<lambda>f. fid f = k) (rev fs))"
proof (induction fs rule: rev_induct)
  case Nil
  then show ?case using assms by (simp add: StructType_get_def)
next
  case (snoc f fs)
  have "i < length fs" if "st_lookup (StructType_new fs) k = Some i" for i
    using that by (simp add: lookup_new_Some)
  with snoc assms show ?case
    by (auto simp: StructType_get_def nth_append split: option.splits if_splits)
qed

text \<open>
  For a struct built by \<open>new\<close>, a lookup by field id never panics; it returns the last
  field with that id, and \<open>None\<close> exactly when no field has it, negative ids included.
\<close>

theorem StructType_get_by_id:
  assumes "in_i32 k"
  shows "StructType_get (StructType_new fs) (i32_as_usize k) = Ok (find (\<lambda>f. fid f = k) (rev fs))"
  using assms by (rule StructType_get_new)

theorem StructType_get_by_id_witness:
  "StructType_get (StructType_new [StructField (- 1) ''a'' True (Primitive PInt) None None None])
     (i32_as_usize (- 1))
   = Ok (Some (StructField (- 1) ''a'' True (Primitive PInt) None None None))"
  using StructType_get_by_id [of "- 1" "[StructField (- 1) ''a'' True (Primitive PInt) None None None]"]
  by (simp add: in_i32_def)

text \<open>
  Finding (\<open>get_name\<close>): a dotted name never reaches a nested field. The result is the
  first field of the struct itself whose name is the whole name or, failing that, any one of
  its dot-separated parts, tried in order.
\<close>

theorem get_name_stays_on_top_level:
  "StructType_get_name st name =
     (case List.map_filter (\<lambda>n. find (\<lambda>f. fname f = n) (st_fields st))
             (name # split_on (CHR ''.'') name) of
        [] \<Rightarrow> None | f # _ \<Rightarrow> Some f)"
proof -
  have "get_name_loop st ps =
     (case List.map_filter (\<lambda>n. find (\<lambda>f. fname f = n) (st_fields st)) ps of
        [] \<Rightarrow> None | f # _ \<Rightarrow> Some f)" for ps
    by (induction ps) (auto simp: List.map_filter_simps Let_def split: option.splits list.splits)
  then show ?thesis
    by (simp add: StructType_get_name_def List.map_filter_simps split: option.splits)
qed

end
