(* ===== verification/Errors.thy ===== *)
theory Errors
  imports Prelude
begin

text \<open>
  The error enums of the two library crates: \<open>spec_error\<close> is the one of
  \<open>iceberg-rust-spec/src/error.rs\<close> (constructors prefixed \<open>S\<close>), \<open>error\<close> the one of
  \<open>iceberg-rust/src/error.rs\<close>, which wraps the former. The error of another library is
  represented by its message.
\<close>

datatype spec_error =
    SInvalidFormat string
  | SType string string
  | SConversion string string
  | SNotFound string
  | SNotSupported string
  | SAvro string
  | SJSONSerde string
  | SChrono string
  | SUuid string
  | SIO string
  | STryFromSlice string
  | STryFromInt string
  | SUTF8 string
  | SFromUTF8 string
  | SParseInt string
  | SDeriveBuilder string

datatype error =
    InvalidFormat string
  | TypeError string string
  | SchemaError string string
  | Conversion string string
  | Decompress string
  | NotFound string
  | NotSupported string
  | CatalogNotFound
  | CommitConflict string
  | External string
  | Iceberg spec_error
  | ArrowError string
  | ParquetError string
  | Avro string
  | Thrift string
  | SQLParser string
  | JSONSerde string
  | UuidError string
  | Url string
  | IO string
  | FuturesChannel string
  | TokioJoinError string
  | ObjectStore string
  | TryFromSlice string
  | TryFromInt string
  | UTF8 string
  | FromUTF8 string
  | ParseInt string
  | DeriveBuilder string

end
