(* ===== verification/Bytes.thy ===== *)
theory Bytes
  imports Errors
begin

text \<open>
  Byte encodings of numbers as the standard library and the decimal helpers of
  \<open>iceberg-rust-spec/src/spec/decimal.rs\<close> and \<open>values.rs\<close> have them: little and big endian,
  two's complement of any length, minimal encodings, sign extension and UTF-8.
\<close>

unbundle bit_operations_syntax

type_synonym byte = "8 word"

section \<open>Bytes\<close>

text \<open>\<open>to_le_bytes\<close>, \<open>to_be_bytes\<close> and their inverses on \<open>n\<close> bytes.\<close>

definition to_le_bytes :: "nat \<Rightarrow> int \<Rightarrow> byte list" where
  "to_le_bytes n x = map (\<lambda>i. word_of_int (x div 2 ^ (8 * i))) [0..<n]"

definition to_be_bytes :: "nat \<Rightarrow> int \<Rightarrow> byte list" where
  "to_be_bytes n x = rev (to_le_bytes n x)"

fun uint_le :: "byte list \<Rightarrow> int" where
  "uint_le [] = 0"
| "uint_le (b # bs) = uint b + 256 * uint_le bs"

text \<open>Two's complement on as many bytes as there are.\<close>

definition sint_le :: "byte list \<Rightarrow> int" where
  "sint_le bs = (let u = uint_le bs; m = 2 ^ (8 * length bs)
     in if 2 * u < m then u else u - m)"

definition sint_be :: "byte list \<Rightarrow> int" where
  "sint_be bs = sint_le (rev bs)"

definition string_bytes :: "string \<Rightarrow> byte list" where
  "string_bytes s = map (\<lambda>c. of_char c) s"

definition bytes_string :: "byte list \<Rightarrow> string" where
  "bytes_string bs = map (\<lambda>b. char_of (unat b)) bs"

text \<open>\<open>std::str::from_utf8\<close>: the well-formed byte sequences.\<close>

definition cont :: "nat \<Rightarrow> bool" where
  "cont b \<longleftrightarrow> 128 \<le> b \<and> b \<le> 191"

fun utf8_valid :: "nat list \<Rightarrow> bool" where
  "utf8_valid [] = True"
| "utf8_valid (a # bs) =
     (if a < 128 then utf8_valid bs
      else case bs of
        [] \<Rightarrow> False
      | b # cs \<Rightarrow>
          if 194 \<le> a \<and> a \<le> 223 then cont b \<and> utf8_valid cs
          else case cs of
            [] \<Rightarrow> False
          | c # ds \<Rightarrow>
              if 224 \<le> a \<and> a \<le> 239
              then cont b \<and> (a = 224 \<longrightarrow> 160 \<le> b) \<and> (a = 237 \<longrightarrow> b \<le> 159) \<and> cont c \<and> utf8_valid ds
              else case ds of
                [] \<Rightarrow> False
              | d # es \<Rightarrow>
                  240 \<le> a \<and> a \<le> 244 \<and> cont b \<and> (a = 240 \<longrightarrow> 144 \<le> b) \<and> (a = 244 \<longrightarrow> b \<le> 143)
                  \<and> cont c \<and> cont d \<and> utf8_valid es)"

definition from_utf8 :: "byte list \<Rightarrow> (string, spec_error) outcome" where
  "from_utf8 bs = (if utf8_valid (map unat bs) then Ok (bytes_string bs) else Err (SUTF8 ''utf8''))"

text \<open>\<open>bytes.try_into::<[u8; n]>()\<close>.\<close>

definition array_of :: "nat \<Rightarrow> byte list \<Rightarrow> (byte list, spec_error) outcome" where
  "array_of n bs = (if length bs = n then Ok bs else Err (STryFromSlice ''slice''))"

text \<open>The loop skips leading padding bytes while the sign stays readable.\<close>

fun strip_padding :: "byte \<Rightarrow> bool \<Rightarrow> byte list \<Rightarrow> byte list" where
  "strip_padding padding negative (b # c # bs) =
     (if b = padding \<and> bit c 7 = negative then strip_padding padding negative (c # bs)
      else b # c # bs)"
| "strip_padding padding negative bs = bs"

definition i128_to_be_bytes_min :: "int \<Rightarrow> byte list" where
  "i128_to_be_bytes_min v =
     strip_padding (if v < 0 then 255 else 0) (v < 0) (to_be_bytes 16 v)"

text \<open>\<open>sign_extend_be\<close> to 16 bytes: panics on too many bytes and on none.\<close>

definition sign_extend_be :: "nat \<Rightarrow> byte list \<Rightarrow> (byte list, 'e) outcome" where
  "sign_extend_be n b =
     (if length b > n then Panic ''Array too large''
      else if b = [] then Panic ''index out of bounds''
      else Ok (replicate (n - length b) (if bit (hd b) 7 then 255 else 0) @ b))"

text \<open>The increment with carry, on the least significant byte first.\<close>

fun increment_le :: "byte list \<Rightarrow> byte list" where
  "increment_le [] = []"
| "increment_le (b # bs) = (if b = - 1 then 0 # increment_le bs else (b + 1) # bs)"

section \<open>Two's complement\<close>

lemma to_le_bytes_Suc:
  "to_le_bytes (Suc n) x = word_of_int x # to_le_bytes n (x div 256)"
proof -
  have "x div 2 ^ (8 * Suc i) = x div 256 div 2 ^ (8 * i)" for i
    by (simp add: power_add zdiv_zmult2_eq)
  then show ?thesis
    by (simp add: to_le_bytes_def upt_conv_Cons map_Suc_upt [symmetric] comp_def del: upt_Suc)
qed

lemma to_le_bytes_0 [simp]: "to_le_bytes 0 x = []"
  by (simp add: to_le_bytes_def)

lemma length_to_le_bytes [simp]: "length (to_le_bytes n x) = n"
  by (simp add: to_le_bytes_def)

lemma uint_byte: "uint (word_of_int x :: byte) = x mod 256"
  by (simp add: uint_word_of_int take_bit_eq_mod)

lemma uint_le_to_le_bytes [simp]: "uint_le (to_le_bytes n x) = x mod 256 ^ n"
proof (induction n arbitrary: x)
  case (Suc n)
  have "x mod (256 * 256 ^ n) = 256 * (x div 256 mod 256 ^ n) + x mod 256"
    by (rule zmod_zmult2_eq) simp
  then show ?case
    by (simp add: to_le_bytes_Suc uint_byte Suc.IH)
qed simp

lemma uint_le_bounds: "0 \<le> uint_le bs \<and> uint_le bs < 256 ^ length bs"
proof (induction bs)
  case (Cons b bs)
  have "uint b < 256" using uint_lt2p [of b] by simp
  with Cons show ?case by (auto simp: add_nonneg_nonneg)
qed simp

lemma uint_le_append: "uint_le (xs @ ys) = uint_le xs + 256 ^ length xs * uint_le ys"
  by (induction xs) (auto simp: algebra_simps)

lemma pow256: "2 ^ (8 * n) = (256 :: int) ^ n"
  by (simp add: power_mult)

lemma sint_le_alt:
  "sint_le bs = (if 2 * uint_le bs < 256 ^ length bs then uint_le bs else uint_le bs - 256 ^ length bs)"
  by (simp add: sint_le_def Let_def pow256)

lemma sint_le_to_le_bytes:
  assumes "- (256 ^ n) \<le> 2 * x" "2 * x < 256 ^ n"
  shows "sint_le (to_le_bytes n x) = x"
proof (cases "0 \<le> x")
  case True
  with assms have "x mod 256 ^ n = x" by simp
  with assms show ?thesis by (simp add: sint_le_alt)
next
  case False
  have "(x + 256 ^ n) mod 256 ^ n = x + 256 ^ n"
    using False assms by (intro mod_pos_pos_trivial) auto
  then have "x mod 256 ^ n = x + 256 ^ n" by simp
  with assms False show ?thesis by (simp add: sint_le_alt)
qed

text \<open>The sign is the top bit of the last byte.\<close>

lemma byte_top_bit: "bit (b :: byte) 7 \<longleftrightarrow> 128 \<le> uint b"
proof -
  have "bit b 7 \<longleftrightarrow> bit (uint b) 7" by (simp add: bit_uint_iff)
  also have "\<dots> \<longleftrightarrow> odd (uint b div 2 ^ 7)" by (rule bit_iff_odd)
  finally have "bit b 7 \<longleftrightarrow> odd (uint b div 128)" by simp
  moreover have b: "0 \<le> uint b" "uint b < 256" using uint_lt2p [of b] by simp_all
  have "uint b div 128 = (if 128 \<le> uint b then 1 else 0)"
  proof (cases "128 \<le> uint b")
    case True
    have "(uint b - 128 + 128) div 128 = (uint b - 128) div 128 + 1" by (rule div_add_self2) simp
    also have "(uint b - 128) div 128 = 0" using True b by (intro div_pos_pos_trivial) simp_all
    finally show ?thesis using True by simp
  next
    case False
    with b show ?thesis by (simp add: div_pos_pos_trivial)
  qed
  ultimately show ?thesis by simp
qed

lemma negative_iff_top_bit:
  assumes "bs \<noteq> []"
  shows "256 ^ length bs \<le> 2 * uint_le bs \<longleftrightarrow> bit (last bs) 7"
proof -
  obtain xs b where bs: "bs = xs @ [b]" using assms by (cases bs rule: rev_cases) auto
  let ?P = "256 ^ length xs :: int"
  have u: "uint_le bs = uint_le xs + ?P * uint b"
    by (simp add: bs uint_le_append)
  have x: "0 \<le> uint_le xs" "uint_le xs < ?P"
    using uint_le_bounds by auto
  have len: "256 ^ length bs = 256 * ?P" by (simp add: bs)
  have top: "bit (last bs) 7 \<longleftrightarrow> 128 \<le> uint b" by (simp add: bs byte_top_bit)
  show ?thesis
  proof (cases "128 \<le> uint b")
    case True
    then have "?P * 128 \<le> ?P * uint b" by (rule mult_left_mono) simp
    then have "256 * ?P \<le> 2 * uint_le bs" using u x by linarith
    with top True len show ?thesis by simp
  next
    case False
    then have "?P * uint b \<le> ?P * 127" by (intro mult_left_mono) simp_all
    then have "\<not> 256 * ?P \<le> 2 * uint_le bs" using u x by linarith
    with top False len show ?thesis by simp
  qed
qed

definition sign_byte :: "byte list \<Rightarrow> byte" where
  "sign_byte bs = (if bit (last bs) 7 then 255 else 0)"

lemma uint_255 [simp]: "uint (255 :: byte) = 255"
  by simp

lemma sint_le_snoc_sign:
  assumes "bs \<noteq> []" shows "sint_le (bs @ [sign_byte bs]) = sint_le bs"
proof -
  have b: "0 \<le> uint_le bs" "uint_le bs < 256 ^ length bs"
    using uint_le_bounds [of bs] by auto
  show ?thesis
  proof (cases "bit (last bs) 7")
    case True
    then have "uint_le (bs @ [sign_byte bs]) = uint_le bs + 256 ^ length bs * 255"
      by (simp only: uint_le_append sign_byte_def if_True uint_le.simps uint_255) simp
    with True b negative_iff_top_bit [OF assms] show ?thesis
      by (simp add: sint_le_alt)
  next
    case False
    then have "uint_le (bs @ [sign_byte bs]) = uint_le bs"
      by (simp add: uint_le_append sign_byte_def)
    with False b negative_iff_top_bit [OF assms] show ?thesis
      by (simp add: sint_le_alt)
  qed
qed

lemma sign_byte_top: "bit (sign_byte bs) 7 \<longleftrightarrow> bit (last bs) 7"
  by (simp only: byte_top_bit sign_byte_def) simp

lemma sint_le_sign_extend:
  assumes "bs \<noteq> []" shows "sint_le (bs @ replicate k (sign_byte bs)) = sint_le bs"
proof (induction k)
  case (Suc k)
  have "bit (last (bs @ replicate k (sign_byte bs))) 7 = bit (last bs) 7"
    by (cases k) (simp_all add: sign_byte_top)
  then have "sign_byte (bs @ replicate k (sign_byte bs)) = sign_byte bs"
    by (simp only: sign_byte_def)
  then have "sint_le (bs @ replicate (Suc k) (sign_byte bs)) = sint_le (bs @ replicate k (sign_byte bs))"
    using sint_le_snoc_sign [of "bs @ replicate k (sign_byte bs)"] assms
    by (simp flip: replicate_append_same)
  with Suc show ?case by simp
qed simp

lemma sign_extend_be_Ok:
  assumes "b \<noteq> []" "length b \<le> n"
  shows "\<exists>a. sign_extend_be n b = Ok a \<and> length a = n \<and> sint_be a = sint_be b"
proof -
  have "sint_le (rev b @ replicate (n - length b) (sign_byte (rev b))) = sint_le (rev b)"
    using assms(1) by (intro sint_le_sign_extend) simp
  then show ?thesis
    using assms by (auto simp: sign_extend_be_def sint_be_def sign_byte_def last_rev)
qed

text \<open>Stripping the padding keeps the number, and no shorter encoding is left.\<close>

lemma strip_padding_sint:
  assumes "padding = (if negative then 255 else 0)"
  shows "sint_be (strip_padding padding negative bs) = sint_be bs"
  using assms
proof (induction padding negative bs rule: strip_padding.induct)
  case (1 padding negative b c bs)
  have "sint_le (rev bs @ [c, b]) = sint_le (rev bs @ [c])" if "b = padding" "bit c 7 = negative"
    using that 1(2) sint_le_snoc_sign [of "rev bs @ [c]"] by (cases negative) (simp_all add: sign_byte_def)
  with 1 show ?case by (auto simp: sint_be_def)
qed simp_all

lemma strip_padding_nonempty: "bs \<noteq> [] \<Longrightarrow> strip_padding p n bs \<noteq> []"
  by (induction p n bs rule: strip_padding.induct) auto

lemma strip_padding_length: "length (strip_padding p n bs) \<le> length bs"
  by (induction p n bs rule: strip_padding.induct) auto

section \<open>Negation\<close>

lemma uint_minus1_byte: "uint (-1 :: byte) = 255"
  by (simp add: unsigned_minus_1_eq_mask mask_eq_exp_minus_1)

lemma uint_not_byte: "uint (NOT b :: byte) = 255 - uint b"
proof -
  have "uint (NOT b) = (- uint b - 1) mod 256"
    by (simp add: not_eq_complement uint_word_ariths mod_simps)
  also have "\<dots> = (255 - uint b) mod 256"
    using mod_add_self2 [of "- uint b - 1" 256] by simp
  also have "\<dots> = 255 - uint b"
  proof (rule mod_pos_pos_trivial)
    show "0 \<le> 255 - uint b" using uint_lt2p [of b] by simp
    show "255 - uint b < 256" using uint_ge_0 [of b] by linarith
  qed
  finally show ?thesis .
qed
lemma byte_not_minus1: "b \<noteq> (- 1 :: byte) \<longleftrightarrow> uint b < 255"
proof -
  have "uint b < 256" using uint_lt2p [of b] by simp
  then show ?thesis using uint_minus1_byte word_uint_eq_iff [of b "-1"] by auto
qed

lemma uint_le_not: "uint_le (map (\<lambda>b. NOT b) bs) = 256 ^ length bs - 1 - uint_le bs"
  by (induction bs) (simp_all add: uint_not_byte)

lemma length_increment_le [simp]: "length (increment_le bs) = length bs"
  by (induction bs) auto

lemma uint_le_increment:
  "uint_le bs + 1 < 256 ^ length bs \<Longrightarrow> uint_le (increment_le bs) = uint_le bs + 1"
proof (induction bs)
  case (Cons b bs)
  show ?case
  proof (cases "b = - 1")
    case True
    with Cons show ?thesis by (simp add: uint_minus1_byte)
  next
    case False
    then have "uint b < 255" by (simp add: byte_not_minus1)
    then have "uint (b + 1) = uint b + 1"
      by (simp add: uint_word_ariths)
    with False show ?thesis by simp
  qed
qed simp

lemma uint_le_last:
  assumes "bs \<noteq> []" "last bs \<noteq> 0"
  shows "256 ^ (length bs - 1) \<le> uint_le bs"
proof -
  obtain xs b where bs: "bs = xs @ [b]" using assms(1) by (cases bs rule: rev_cases) auto
  have "uint b \<noteq> 0" using assms(2) bs by (simp add: uint_0_iff)
  moreover have "0 \<le> uint b" by simp
  ultimately have "1 \<le> uint b" by linarith
  then have "256 ^ length xs * 1 \<le> 256 ^ length xs * uint b" by (intro mult_left_mono) simp_all
  then have "256 ^ length xs \<le> uint_le xs + 256 ^ length xs * uint b"
    using uint_le_bounds [of xs] by linarith
  then show ?thesis by (simp add: bs uint_le_append)
qed

lemma length_bound:
  assumes "bs \<noteq> []" "last bs \<noteq> 0" "uint_le bs < 256 ^ n"
  shows "length bs \<le> n"
proof (rule ccontr)
  assume "\<not> length bs \<le> n"
  then have "(256 :: int) ^ n \<le> 256 ^ (length bs - 1)" by (intro power_increasing) auto
  with uint_le_last [OF assms(1,2)] assms(3) show False by linarith
qed
text \<open>The two's complement of a magnitude, on one byte more than its digits.\<close>

lemma negate_le:
  assumes "0 < uint_le r" 
  defines "c \<equiv> increment_le (map (\<lambda>b. NOT b) (r @ [0]))"
  shows "uint_le c = 256 ^ Suc (length r) - uint_le r" "length c = Suc (length r)"
    "sint_le c = - uint_le r"
proof -
  let ?m = "map (\<lambda>b. NOT b) (r @ [0])"
  have u: "uint_le ?m = 256 ^ Suc (length r) - 1 - uint_le r"
    unfolding uint_le_not by (simp add: uint_le_append)
  have b: "uint_le r < 256 ^ length r" using uint_le_bounds by auto
  show l: "length c = Suc (length r)" by (simp add: c_def)
  show uc: "uint_le c = 256 ^ Suc (length r) - uint_le r"
    unfolding c_def using u assms(1) by (subst uint_le_increment) auto
  show "sint_le c = - uint_le r"
    unfolding sint_le_alt uc l using b assms(1) by (simp add: not_less)
qed

lemma drop_sign_le:
  assumes "c \<noteq> []" "last c = 255" "butlast c \<noteq> []" "bit (last (butlast c)) 7"
  shows "sint_le (butlast c) = sint_le c"
proof -
  have "c = butlast c @ [sign_byte (butlast c)]"
    using assms(2,4) append_butlast_last_id [OF assms(1)] by (simp add: sign_byte_def)
  with sint_le_snoc_sign [OF assms(3)] show ?thesis by simp
qed

end
