(* ===== verification/Partition_Spec.thy ===== *)
theory Partition_Spec
  imports Iceberg_Types Errors
begin

text \<open>
  Partition transforms and partition specs (\<open>iceberg-rust-spec/src/spec/partition.rs\<close>),
  with the result type of a transform (\<open>Type::tranform\<close> of \<open>types.rs\<close>).
\<close>

section \<open>Transforms\<close>

datatype transform =
    Identity | Bucket nat | Truncate nat | Year | Month | Day | Hour | Void

definition serialize_bucket :: "nat \<Rightarrow> string" where
  "serialize_bucket value = ''bucket['' @ show_nat value @ '']''"

definition deserialize_bucket :: "string \<Rightarrow> (transform, de_error) outcome" where
  "deserialize_bucket s =
     (let bucket = trim_end_matches '']'' (trim_start_matches ''bucket['' s)
      in case parse_u32 bucket of
           Some n \<Rightarrow> Ok (Bucket n)
         | None \<Rightarrow> Err (ParseIntFailed bucket))"

definition serialize_truncate :: "nat \<Rightarrow> string" where
  "serialize_truncate value = ''truncate['' @ show_nat value @ '']''"

definition deserialize_truncate :: "string \<Rightarrow> (transform, de_error) outcome" where
  "deserialize_truncate s =
     (let truncate = trim_end_matches '']'' (trim_start_matches ''truncate['' s)
      in case parse_u32 truncate of
           Some n \<Rightarrow> Ok (Truncate n)
         | None \<Rightarrow> Err (ParseIntFailed truncate))"

text \<open>The names serde derives for the constructors without a parameter.\<close>

definition transform_names :: "(string \<times> transform) list" where
  "transform_names =
     [(''identity'', Identity), (''year'', Year), (''month'', Month), (''day'', Day),
      (''hour'', Hour), (''void'', Void)]"

definition Transform_serialize :: "transform \<Rightarrow> string" where
  "Transform_serialize t =
     (case t of
        Bucket n \<Rightarrow> serialize_bucket n
      | Truncate n \<Rightarrow> serialize_truncate n
      | Identity \<Rightarrow> ''identity'' | Year \<Rightarrow> ''year'' | Month \<Rightarrow> ''month'' | Day \<Rightarrow> ''day''
      | Hour \<Rightarrow> ''hour'' | Void \<Rightarrow> ''void'')"

definition Transform_deserialize :: "string \<Rightarrow> (transform, de_error) outcome" where
  "Transform_deserialize s =
     (if starts_with ''bucket'' s then deserialize_bucket s
      else if starts_with ''truncate'' s then deserialize_truncate s
      else case map_of transform_names s of Some t \<Rightarrow> Ok t | None \<Rightarrow> Err (UnknownVariant s))"

definition Transform_to_string :: "transform \<Rightarrow> string" where
  "Transform_to_string t =
     (case t of
        Identity \<Rightarrow> ''identity'' | Year \<Rightarrow> ''year'' | Month \<Rightarrow> ''month'' | Day \<Rightarrow> ''day''
      | Hour \<Rightarrow> ''hour'' | Bucket i \<Rightarrow> ''bucket['' @ show_nat i @ '']''
      | Truncate i \<Rightarrow> ''truncate['' @ show_nat i @ '']'' | Void \<Rightarrow> ''void'')"

definition tranform :: "ice_type \<Rightarrow> transform \<Rightarrow> (ice_type, spec_error) outcome" where
  "tranform t tr =
     (case tr of
        Identity \<Rightarrow> Ok t
      | Bucket _ \<Rightarrow> Ok (Primitive PInt)
      | Truncate _ \<Rightarrow> Ok t
      | Year \<Rightarrow> Ok (Primitive PInt)
      | Month \<Rightarrow> Ok (Primitive PInt)
      | Day \<Rightarrow> Ok (Primitive PInt)
      | Hour \<Rightarrow> Ok (Primitive PInt)
      | Void \<Rightarrow> Err (SNotSupported ''void transform''))"

fun wf_transform :: "transform \<Rightarrow> bool" where
  "wf_transform (Bucket n) \<longleftrightarrow> n < 2 ^ 32"
| "wf_transform (Truncate n) \<longleftrightarrow> n < 2 ^ 32"
| "wf_transform _ \<longleftrightarrow> True"

lemma trim_bracketed:
  assumes "pat \<noteq> []" "digit_value (hd pat) = None"
  shows "trim_end_matches '']'' (trim_start_matches pat (pat @ show_nat n @ '']'')) = show_nat n"
proof -
  have hd: "\<not> starts_with pat (show_nat n @ r)" for r
  proof
    assume "starts_with pat (show_nat n @ r)"
    then have "hd (show_nat n) = hd pat"
      using assms(1) by (auto simp: starts_with_iff) (metis hd_append show_nat_nonempty)
    then show False
      using assms(2) digits_not [OF assms(2)] hd_in_set [OF show_nat_nonempty] by metis
  qed
  have "trim_start_matches pat (pat @ show_nat n @ '']'') = show_nat n @ '']''"
    by (subst trim_start_append [OF assms(1)]) (rule trim_start_none [OF hd])
  moreover have "trim_end_matches '']'' (show_nat n @ '']'') = show_nat n"
    using show_nat_no_sign(2) [of n] last_in_set [OF show_nat_nonempty [of n]]
    by (intro trim_end_char) metis
  ultimately show ?thesis by simp
qed

text \<open>
  The textual form of a transform is read back as that transform, and \<open>Display\<close> prints
  the same text as the JSON form.
\<close>

theorem transform_roundtrip:
  assumes "wf_transform t"
  shows "Transform_deserialize (Transform_serialize t) = Ok t
         \<and> Transform_to_string t = Transform_serialize t"
proof (cases t)
  case (Bucket n)
  then show ?thesis
    using assms trim_bracketed [of "''bucket[''" n]
    by (simp add: Transform_deserialize_def Transform_serialize_def serialize_bucket_def
        deserialize_bucket_def starts_with_def parse_u32_def parse_unsigned_show digit_value_def
        Transform_to_string_def)
next
  case (Truncate n)
  then show ?thesis
    using assms trim_bracketed [of "''truncate[''" n]
    by (simp add: Transform_deserialize_def Transform_serialize_def serialize_truncate_def
        deserialize_truncate_def starts_with_def parse_u32_def parse_unsigned_show digit_value_def
        Transform_to_string_def)
qed (simp_all add: Transform_deserialize_def Transform_serialize_def starts_with_def
    transform_names_def Transform_to_string_def)

theorem transform_roundtrip_witness:
  "Transform_deserialize (Transform_serialize (Bucket 16)) = Ok (Bucket 16)
   \<and> Transform_to_string (Bucket 16) = Transform_serialize (Bucket 16)"
  by (rule transform_roundtrip) simp

section \<open>Partition specs\<close>

definition DEFAULT_PARTITION_SPEC_ID :: i32 where
  "DEFAULT_PARTITION_SPEC_ID = 0"

record partition_field =
  pf_source_id :: i32
  pf_field_id :: i32
  pf_name :: string
  pf_transform :: transform

record partition_spec =
  ps_spec_id :: i32
  ps_fields :: "partition_field list"

definition PartitionField_new :: "i32 \<Rightarrow> i32 \<Rightarrow> string \<Rightarrow> transform \<Rightarrow> partition_field" where
  "PartitionField_new source_id field_id name transform =
     \<lparr>pf_source_id = source_id, pf_field_id = field_id, pf_name = name, pf_transform = transform\<rparr>"

definition PartitionSpecBuilder_build ::
  "i32 option \<Rightarrow> partition_field list option \<Rightarrow> (partition_spec, spec_error) outcome" where
  "PartitionSpecBuilder_build spec_id pfs =
     rbind (ok_or (SDeriveBuilder ''fields'') pfs)
       (\<lambda>fs. Ok \<lparr>ps_spec_id = (case spec_id of Some i \<Rightarrow> i | None \<Rightarrow> DEFAULT_PARTITION_SPEC_ID),
                 ps_fields = fs\<rparr>)"

definition data_types :: "partition_spec \<Rightarrow> struct_type \<Rightarrow> (ice_type list, spec_error) outcome" where
  "data_types spec schema =
     try_map (\<lambda>field.
        rbind (StructType_get schema (i32_as_usize (pf_source_id field))) (\<lambda>f.
        rbind (ok_or (SNotFound (''Schema field '' @ pf_name field)) f) (\<lambda>x.
        tranform (ftype x) (pf_transform field))))
      (ps_fields spec)"

definition data_types_lenient ::
  "partition_spec \<Rightarrow> struct_type \<Rightarrow> (ice_type option list, spec_error) outcome" where
  "data_types_lenient spec schema =
     try_map (\<lambda>field.
        rbind (StructType_get schema (i32_as_usize (pf_source_id field))) (\<lambda>f.
        Ok (case f of
              None \<Rightarrow> None
            | Some x \<Rightarrow> ok (tranform (ftype x) (pf_transform field)))))
      (ps_fields spec)"

text \<open>A partition field bound to its source field.\<close>

record bound_partition_field =
  bf_partition_field :: partition_field
  bf_struct_field :: struct_field

definition BoundPartitionField_new ::
  "partition_field \<Rightarrow> struct_field \<Rightarrow> bound_partition_field" where
  "BoundPartitionField_new pf sf = \<lparr>bf_partition_field = pf, bf_struct_field = sf\<rparr>"

definition bf_name :: "bound_partition_field \<Rightarrow> string" where
  "bf_name b = pf_name (bf_partition_field b)"

definition bf_source_name :: "bound_partition_field \<Rightarrow> string" where
  "bf_source_name b = fname (bf_struct_field b)"

definition bf_field_type :: "bound_partition_field \<Rightarrow> ice_type" where
  "bf_field_type b = ftype (bf_struct_field b)"

definition bf_transform :: "bound_partition_field \<Rightarrow> transform" where
  "bf_transform b = pf_transform (bf_partition_field b)"

definition bf_field_id :: "bound_partition_field \<Rightarrow> i32" where
  "bf_field_id b = pf_field_id (bf_partition_field b)"

definition bf_source_id :: "bound_partition_field \<Rightarrow> i32" where
  "bf_source_id b = pf_source_id (bf_partition_field b)"

definition bf_required :: "bound_partition_field \<Rightarrow> bool" where
  "bf_required b = frequired (bf_struct_field b)"

text \<open>
  On a struct built by \<open>new\<close>, the strict and the lenient data types of a spec agree:
  whenever the strict ones exist, the lenient ones are the same types, and the lenient ones
  always exist, with one entry per partition field.
\<close>

theorem data_types_lenient_agrees:
  assumes "\<forall>f \<in> set (ps_fields spec). in_i32 (pf_source_id f)"
  shows "(\<exists>os. data_types_lenient spec (StructType_new fs) = Ok os
            \<and> length os = length (ps_fields spec)
            \<and> (\<forall>ts. data_types spec (StructType_new fs) = Ok ts \<longleftrightarrow> os = map Some ts))"
proof -
  let ?st = "StructType_new fs"
  let ?strict = "\<lambda>field.
        rbind (StructType_get ?st (i32_as_usize (pf_source_id field))) (\<lambda>f.
        rbind (ok_or (SNotFound (''Schema field '' @ pf_name field)) f) (\<lambda>x.
        tranform (ftype x) (pf_transform field)))"
  have "data_types_lenient spec ?st = Ok (map (\<lambda>f. ok (?strict f)) (ps_fields spec))"
    unfolding data_types_lenient_def
    using assms by (intro try_map_Ok) (simp add: StructType_get_new split: option.split)
  then show ?thesis
    by (simp add: data_types_def try_map_ok)
qed

theorem data_types_lenient_agrees_witness:
  "\<exists>os. data_types_lenient
          \<lparr>ps_spec_id = 0, ps_fields = [PartitionField_new 1 1000 ''p'' Day]\<rparr>
          (StructType_new [StructField 1 ''d'' True (Primitive PDate) None None None]) = Ok os
        \<and> length os = 1"
  using data_types_lenient_agrees
    [of "\<lparr>ps_spec_id = 0, ps_fields = [PartitionField_new 1 1000 ''p'' Day]\<rparr>"
        "[StructField 1 ''d'' True (Primitive PDate) None None None]"]
  by (auto simp: PartitionField_new_def in_i32_def)

end
