(* ===== verification/Values.thy ===== *)
theory Values
  imports Bytes Partition_Spec Complex_Main "HOL-Library.List_Lexorder"
begin

text \<open>
  Values (\<open>iceberg-rust-spec/src/spec/values.rs\<close>) and decimals (\<open>decimal.rs\<close>): single-value
  serialization and its inverse, partition transforms, casts and promotions, subtraction.
  Floats are their bits. A decimal is the sign, digits and exponent it was built from. What
  comes from other libraries (murmur3, chrono, the hasher, IEEE arithmetic, the radix
  conversion of the decimal library, UUID parsing) is the record \<open>value_lib\<close>.
\<close>

section \<open>Data\<close>

record decimal =
  dec_negative :: bool
  dec_digits :: nat
  dec_exponent :: int

datatype physical_type_hint = NativeLittleEndian | ByteArray

datatype ice_value =
    VBoolean bool
  | VInt i32
  | VLongInt i64
  | VFloat "32 word"
  | VDouble "64 word"
  | VDate i32
  | VTime i64
  | VTimestamp i64
  | VTimestampTZ i64
  | VTimestampNano i64
  | VTimestampTZNano i64
  | VString string
  | VUUID "128 word"
  | VFixed nat "byte list"
  | VBinary "byte list"
  | VDecimal decimal
  | VStruct struct_value
  | VList "ice_value option list"
  | VMap "(ice_value \<times> ice_value option) list"
and struct_value =
    StructValue (sv_fields: "ice_value option list") (sv_lookup: "(string \<times> nat) list")

text \<open>Dates and datetimes as far as the code looks at them.\<close>

record naive_date =
  nd_year :: int
  nd_month0 :: int

record naive_datetime =
  dt_year :: int
  dt_month0 :: int
  dt_timestamp_micros :: i64

record value_lib =
  vl_murmur3_32 :: "byte list \<Rightarrow> 32 word"
  vl_date_from_timestamp :: "i64 \<Rightarrow> naive_date option"
  vl_datetime_from_micros :: "i64 \<Rightarrow> naive_datetime option"
  vl_datetime_from_nanos :: "i64 \<Rightarrow> naive_datetime"
  vl_parse_uuid :: "string \<Rightarrow> 128 word option"
  vl_f64_from_f32 :: "32 word \<Rightarrow> 64 word"
  vl_sub_f32 :: "32 word \<Rightarrow> 32 word \<Rightarrow> 32 word"
  vl_sub_f64 :: "64 word \<Rightarrow> 64 word \<Rightarrow> 64 word"
  vl_to_radix_be :: "nat \<Rightarrow> byte list"
  vl_hash :: "byte list \<Rightarrow> 64 word"

section \<open>Decimals\<close>

definition in_i128 :: "int \<Rightarrow> bool" where
  "in_i128 x \<longleftrightarrow> - (2 ^ 127) \<le> x \<and> x < 2 ^ 127"

definition decimal_from_i128_with_scale :: "int \<Rightarrow> nat \<Rightarrow> (decimal, spec_error) outcome" where
  "decimal_from_i128_with_scale mantissa scale =
     (if scale < 2 ^ 31
      then Ok \<lparr>dec_negative = mantissa < 0, dec_digits = nat \<bar>mantissa\<bar>, dec_exponent = - int scale\<rparr>
      else Err (STryFromInt ''scale''))"

definition decimal_mantissa :: "decimal \<Rightarrow> (int, spec_error) outcome" where
  "decimal_mantissa d =
     (if dec_digits d < 2 ^ 128 then
        if dec_negative d then
          (if dec_digits d = 2 ^ 127 then Ok (- (2 ^ 127))
           else if dec_digits d < 2 ^ 127 then Ok (- int (dec_digits d))
           else Err (STryFromInt ''mantissa''))
        else if dec_digits d < 2 ^ 127 then Ok (int (dec_digits d))
        else Err (STryFromInt ''mantissa'')
      else Err (SConversion ''decimal'' ''i128 decimal mantissa''))"

definition decimal_to_be_bytes_min :: "value_lib \<Rightarrow> decimal \<Rightarrow> byte list" where
  "decimal_to_be_bytes_min lib d =
     (let bs = vl_to_radix_be lib (dec_digits d)
      in if bs = [] \<or> list_all (\<lambda>b. b = 0) bs then [0]
         else if dec_negative d then
           let cs = rev (increment_le (rev (map (\<lambda>b. NOT b) (0 # bs))))
           in if hd cs = 255 \<and> bit (cs ! 1) 7 then tl cs else cs
         else if bit (hd bs) 7 then 0 # bs else bs)"

definition decimal_scale :: "decimal \<Rightarrow> nat" where
  "decimal_scale d = nat (max (- dec_exponent d) 0)"

section \<open>Structs\<close>

text \<open>A \<open>BTreeMap\<close> is its sorted list of entries; \<open>insert\<close> replaces the entry of a key.\<close>

definition string_key :: "string \<Rightarrow> nat list" where
  "string_key s = map of_char s"

fun lex_less :: "nat list \<Rightarrow> nat list \<Rightarrow> bool" where
  "lex_less [] [] = False"
| "lex_less [] (y # ys) = True"
| "lex_less (x # xs) [] = False"
| "lex_less (x # xs) (y # ys) = (x < y \<or> (x = y \<and> lex_less xs ys))"

fun btree_insert :: "string \<Rightarrow> 'v \<Rightarrow> (string \<times> 'v) list \<Rightarrow> (string \<times> 'v) list" where
  "btree_insert k v [] = [(k, v)]"
| "btree_insert k v ((k', v') # m) =
     (if k = k' then (k, v) # m
      else if lex_less (string_key k) (string_key k') then (k, v) # (k', v') # m
      else (k', v') # btree_insert k v m)"

definition Struct_from_iter :: "(string \<times> ice_value option) list \<Rightarrow> struct_value" where
  "Struct_from_iter kvs =
     StructValue (map snd kvs)
       (fold (\<lambda>(i, k, _). btree_insert k i) (enumerate 0 kvs) [])"

definition Struct_get :: "struct_value \<Rightarrow> string \<Rightarrow> ice_value option option" where
  "Struct_get s name =
     (case map_of (sv_lookup s) name of
        None \<Rightarrow> None
      | Some i \<Rightarrow> if i < length (sv_fields s) then Some (sv_fields s ! i) else None)"

definition Struct_keys :: "struct_value \<Rightarrow> string list" where
  "Struct_keys s = map fst (sv_lookup s)"

text \<open>Equality of structs, given the equality of values: only the keys of the left operand.\<close>

definition Struct_eq :: "(ice_value \<Rightarrow> ice_value \<Rightarrow> bool) \<Rightarrow> struct_value \<Rightarrow> struct_value \<Rightarrow> bool" where
  "Struct_eq veq a b \<longleftrightarrow>
     list_all (\<lambda>k. rel_option (rel_option veq) (Struct_get a k) (Struct_get b k)) (Struct_keys a)"

section \<open>Bytes of values\<close>

definition value_to_bytes :: "value_lib \<Rightarrow> ice_value \<Rightarrow> (byte list, spec_error) outcome" where
  "value_to_bytes lib v =
     (case v of
        VBoolean b \<Rightarrow> Ok [if b then 1 else 0]
      | VInt x \<Rightarrow> Ok (to_le_bytes 4 x)
      | VLongInt x \<Rightarrow> Ok (to_le_bytes 8 x)
      | VFloat x \<Rightarrow> Ok (to_le_bytes 4 (uint x))
      | VDouble x \<Rightarrow> Ok (to_le_bytes 8 (uint x))
      | VDate x \<Rightarrow> Ok (to_le_bytes 4 x)
      | VTime x \<Rightarrow> Ok (to_le_bytes 8 x)
      | VTimestamp x \<Rightarrow> Ok (to_le_bytes 8 x)
      | VTimestampTZ x \<Rightarrow> Ok (to_le_bytes 8 x)
      | VTimestampNano x \<Rightarrow> Ok (to_le_bytes 8 x)
      | VTimestampTZNano x \<Rightarrow> Ok (to_le_bytes 8 x)
      | VString s \<Rightarrow> Ok (string_bytes s)
      | VUUID u \<Rightarrow> Ok (to_be_bytes 16 (uint u))
      | VFixed _ bs \<Rightarrow> Ok bs
      | VBinary bs \<Rightarrow> Ok bs
      | VDecimal d \<Rightarrow> Ok (decimal_to_be_bytes_min lib d)
      | VStruct _ \<Rightarrow> Panic ''not yet implemented''
      | VList _ \<Rightarrow> Panic ''not yet implemented''
      | VMap _ \<Rightarrow> Panic ''not yet implemented'')"

definition value_datatype :: "ice_value \<Rightarrow> (ice_type, spec_error) outcome" where
  "value_datatype v =
     (case v of
        VBoolean _ \<Rightarrow> Ok (Primitive PBoolean)
      | VInt _ \<Rightarrow> Ok (Primitive PInt)
      | VLongInt _ \<Rightarrow> Ok (Primitive PLong)
      | VFloat _ \<Rightarrow> Ok (Primitive PFloat)
      | VDouble _ \<Rightarrow> Ok (Primitive PDouble)
      | VDate _ \<Rightarrow> Ok (Primitive PDate)
      | VTime _ \<Rightarrow> Ok (Primitive PTime)
      | VTimestamp _ \<Rightarrow> Ok (Primitive PTimestamp)
      | VTimestampTZ _ \<Rightarrow> Ok (Primitive PTimestamptz)
      | VTimestampNano _ \<Rightarrow> Ok (Primitive PTimestampNs)
      | VTimestampTZNano _ \<Rightarrow> Ok (Primitive PTimestamptzNs)
      | VFixed n _ \<Rightarrow> Ok (Primitive (PFixed n))
      | VBinary _ \<Rightarrow> Ok (Primitive PBinary)
      | VString _ \<Rightarrow> Ok (Primitive PString)
      | VUUID _ \<Rightarrow> Ok (Primitive PUuid)
      | VDecimal d \<Rightarrow> Ok (Primitive (PDecimal 38 (decimal_scale d)))
      | VStruct _ \<Rightarrow> Panic ''not implemented''
      | VList _ \<Rightarrow> Panic ''not implemented''
      | VMap _ \<Rightarrow> Panic ''not implemented'')"

definition try_from_bytes_with_hint ::
  "value_lib \<Rightarrow> byte list \<Rightarrow> ice_type \<Rightarrow> physical_type_hint option \<Rightarrow> (ice_value, spec_error) outcome" where
  "try_from_bytes_with_hint lib bs data_type hint =
     (case data_type of
        Primitive primitive \<Rightarrow>
          (case primitive of
             PBoolean \<Rightarrow> Ok (VBoolean (\<not> (length bs = 1 \<and> hd bs = 0)))
           | PInt \<Rightarrow> rbind (array_of 4 bs) (\<lambda>a. Ok (VInt (sint_le a)))
           | PLong \<Rightarrow> rbind (array_of 8 bs) (\<lambda>a. Ok (VLongInt (sint_le a)))
           | PFloat \<Rightarrow> rbind (array_of 4 bs) (\<lambda>a. Ok (VFloat (word_of_int (uint_le a))))
           | PDouble \<Rightarrow> rbind (array_of 8 bs) (\<lambda>a. Ok (VDouble (word_of_int (uint_le a))))
           | PDate \<Rightarrow> rbind (array_of 4 bs) (\<lambda>a. Ok (VDate (sint_le a)))
           | PTime \<Rightarrow> rbind (array_of 8 bs) (\<lambda>a. Ok (VTime (sint_le a)))
           | PTimestamp \<Rightarrow> rbind (array_of 8 bs) (\<lambda>a. Ok (VTimestamp (sint_le a)))
           | PTimestamptz \<Rightarrow> rbind (array_of 8 bs) (\<lambda>a. Ok (VTimestampTZ (sint_le a)))
           | PTimestampNs \<Rightarrow> rbind (array_of 8 bs) (\<lambda>a. Ok (VTimestampNano (sint_le a)))
           | PTimestamptzNs \<Rightarrow> rbind (array_of 8 bs) (\<lambda>a. Ok (VTimestampTZNano (sint_le a)))
           | PString \<Rightarrow> rbind (from_utf8 bs) (\<lambda>s. Ok (VString s))
           | PUuid \<Rightarrow>
               (if hint = Some ByteArray
                then rbind (from_utf8 bs) (\<lambda>s.
                     rbind (ok_or (SUuid s) (vl_parse_uuid lib s)) (\<lambda>u. Ok (VUUID u)))
                else rbind (array_of 16 bs) (\<lambda>a. Ok (VUUID (word_of_int (uint_le (rev a))))))
           | PFixed n \<Rightarrow> Ok (VFixed n bs)
           | PBinary \<Rightarrow> Ok (VBinary bs)
           | PDecimal _ scale \<Rightarrow>
               (if length bs \<le> 16
                then rbind (sign_extend_be 16 (if hint = Some NativeLittleEndian then rev bs else bs)) (\<lambda>a.
                     rbind (decimal_from_i128_with_scale (sint_be a) scale) (\<lambda>d. Ok (VDecimal d)))
                else Err (SType ''decimal'' ''bytes''))
           | PUnknown \<Rightarrow> Err (SNotSupported (''Value::try_from_bytes for '' @ PrimitiveType_to_string primitive))
           | PVariant \<Rightarrow> Err (SNotSupported (''Value::try_from_bytes for '' @ PrimitiveType_to_string primitive))
           | PGeometry _ \<Rightarrow> Err (SNotSupported (''Value::try_from_bytes for '' @ PrimitiveType_to_string primitive))
           | PGeography _ _ \<Rightarrow> Err (SNotSupported (''Value::try_from_bytes for '' @ PrimitiveType_to_string primitive)))
      | _ \<Rightarrow> Err (SNotSupported ''Complex types as bytes''))"

definition try_from_bytes :: "value_lib \<Rightarrow> byte list \<Rightarrow> ice_type \<Rightarrow> (ice_value, spec_error) outcome" where
  "try_from_bytes lib bs data_type = try_from_bytes_with_hint lib bs data_type None"

section \<open>Partition transforms\<close>

text \<open>
  \<open>i.rem_euclid(w)\<close> panics on zero and on \<open>MIN.rem_euclid(-1)\<close>; the subtraction after it
  wraps. \<open>w as i32\<close> and \<open>w as i64\<close> are the casts of the \<open>u32\<close> width.
\<close>

definition rem_euclid :: "int \<Rightarrow> int \<Rightarrow> int \<Rightarrow> (int, 'e) outcome" where
  "rem_euclid min_value i w =
     (if w = 0 then Panic ''attempt to calculate the remainder with a divisor of zero''
      else if i = min_value \<and> w = -1 then Panic ''attempt to calculate the remainder with overflow''
      else Ok (i mod \<bar>w\<bar>))"

definition is_char_boundary :: "byte list \<Rightarrow> nat \<Rightarrow> bool" where
  "is_char_boundary bs i \<longleftrightarrow> i = 0 \<or> i \<ge> length bs \<or> \<not> cont (unat (bs ! i))"

definition string_truncate :: "string \<Rightarrow> nat \<Rightarrow> (string, 'e) outcome" where
  "string_truncate s w =
     (if w \<ge> length s then Ok s
      else if is_char_boundary (string_bytes s) w then Ok (take w s)
      else Panic ''assertion failed: self.is_char_boundary(new_len)'')"

definition YEARS_BEFORE_UNIX_EPOCH :: i32 where
  "YEARS_BEFORE_UNIX_EPOCH = 1970"

definition date_to_years :: "naive_date \<Rightarrow> i32" where
  "date_to_years d = nd_year d - YEARS_BEFORE_UNIX_EPOCH"

definition date_to_months :: "naive_date \<Rightarrow> i32" where
  "date_to_months d = (nd_year d - YEARS_BEFORE_UNIX_EPOCH) * 12 + nd_month0 d"

definition datetime_to_months :: "naive_datetime \<Rightarrow> i32" where
  "datetime_to_months d = (dt_year d - YEARS_BEFORE_UNIX_EPOCH) * 12 + dt_month0 d"

definition days_to_date :: "value_lib \<Rightarrow> i32 \<Rightarrow> (naive_date, spec_error) outcome" where
  "days_to_date lib days = unwrap (vl_date_from_timestamp lib (days * 86400))"

definition micros_to_datetime :: "value_lib \<Rightarrow> i64 \<Rightarrow> (naive_datetime, spec_error) outcome" where
  "micros_to_datetime lib t = unwrap (vl_datetime_from_micros lib t)"

definition datetime_to_days :: "naive_datetime \<Rightarrow> i64" where
  "datetime_to_days d = dt_timestamp_micros d div 86400000000"

definition datetime_to_hours :: "naive_datetime \<Rightarrow> i64" where
  "datetime_to_hours d = dt_timestamp_micros d div 3600000000"

definition bucket_bytes :: "value_lib \<Rightarrow> ice_value \<Rightarrow> (byte list, spec_error) outcome" where
  "bucket_bytes lib v =
     (case v of
        VInt x \<Rightarrow> Ok (to_le_bytes 8 x)
      | VDate x \<Rightarrow> Ok (to_le_bytes 8 x)
      | VTimestampNano x \<Rightarrow> Ok (to_le_bytes 8 (x div 1000))
      | VTimestampTZNano x \<Rightarrow> Ok (to_le_bytes 8 (x div 1000))
      | _ \<Rightarrow> value_to_bytes lib v)"

definition value_transform :: "value_lib \<Rightarrow> ice_value \<Rightarrow> transform \<Rightarrow> (ice_value, spec_error) outcome" where
  "value_transform lib v tr =
     (case tr of
        Identity \<Rightarrow> Ok v
      | Bucket n \<Rightarrow>
          (if n = 0 \<or> n > 2 ^ 31 - 1 then Err (SInvalidFormat ''bucket width'')
           else rbind (bucket_bytes lib v) (\<lambda>bs.
             let hash = uint (vl_murmur3_32 lib bs)
             in Ok (VInt ((hash mod 2 ^ 31) mod int n))))
      | Truncate w \<Rightarrow>
          (case v of
             VInt i \<Rightarrow> rbind (rem_euclid (- (2 ^ 31)) i (wrap32 (int w))) (\<lambda>r. Ok (VInt (wrap32 (i - r))))
           | VLongInt i \<Rightarrow> rbind (rem_euclid (- (2 ^ 63)) i (int w)) (\<lambda>r. Ok (VLongInt (wrap64 (i - r))))
           | VString s \<Rightarrow> rbind (string_truncate s w) (\<lambda>t. Ok (VString t))
           | _ \<Rightarrow> Err (SNotSupported ''Datatype for truncate partition transform.''))
      | Year \<Rightarrow>
          (case v of
             VDate d \<Rightarrow> rbind (days_to_date lib d) (\<lambda>x. Ok (VInt (date_to_years x)))
           | VTimestamp t \<Rightarrow> rbind (micros_to_datetime lib t) (\<lambda>x. Ok (VInt (dt_year x - YEARS_BEFORE_UNIX_EPOCH)))
           | VTimestampTZ t \<Rightarrow> rbind (micros_to_datetime lib t) (\<lambda>x. Ok (VInt (dt_year x - YEARS_BEFORE_UNIX_EPOCH)))
           | VTimestampNano t \<Rightarrow> Ok (VInt (dt_year (vl_datetime_from_nanos lib t) - YEARS_BEFORE_UNIX_EPOCH))
           | VTimestampTZNano t \<Rightarrow> Ok (VInt (dt_year (vl_datetime_from_nanos lib t) - YEARS_BEFORE_UNIX_EPOCH))
           | _ \<Rightarrow> Err (SNotSupported ''Datatype for year partition transform.''))
      | Month \<Rightarrow>
          (case v of
             VDate d \<Rightarrow> rbind (days_to_date lib d) (\<lambda>x. Ok (VInt (date_to_months x)))
           | VTimestamp t \<Rightarrow> rbind (micros_to_datetime lib t) (\<lambda>x. Ok (VInt (datetime_to_months x)))
           | VTimestampTZ t \<Rightarrow> rbind (micros_to_datetime lib t) (\<lambda>x. Ok (VInt (datetime_to_months x)))
           | VTimestampNano t \<Rightarrow> Ok (VInt (datetime_to_months (vl_datetime_from_nanos lib t)))
           | VTimestampTZNano t \<Rightarrow> Ok (VInt (datetime_to_months (vl_datetime_from_nanos lib t)))
           | _ \<Rightarrow> Err (SNotSupported ''Datatype for month partition transform.''))
      | Day \<Rightarrow>
          (case v of
             VDate d \<Rightarrow> Ok (VInt d)
           | VTimestamp t \<Rightarrow> rbind (micros_to_datetime lib t) (\<lambda>x. Ok (VInt (wrap32 (datetime_to_days x))))
           | VTimestampTZ t \<Rightarrow> rbind (micros_to_datetime lib t) (\<lambda>x. Ok (VInt (wrap32 (datetime_to_days x))))
           | VTimestampNano t \<Rightarrow> Ok (VInt (wrap32 (t div 86400000000000)))
           | VTimestampTZNano t \<Rightarrow> Ok (VInt (wrap32 (t div 86400000000000)))
           | _ \<Rightarrow> Err (SNotSupported ''Datatype for day partition transform.''))
      | Hour \<Rightarrow>
          (case v of
             VTimestamp t \<Rightarrow> rbind (micros_to_datetime lib t) (\<lambda>x. Ok (VInt (wrap32 (datetime_to_hours x))))
           | VTimestampTZ t \<Rightarrow> rbind (micros_to_datetime lib t) (\<lambda>x. Ok (VInt (wrap32 (datetime_to_hours x))))
           | VTimestampNano t \<Rightarrow> Ok (VInt (wrap32 (t div 3600000000000)))
           | VTimestampTZNano t \<Rightarrow> Ok (VInt (wrap32 (t div 3600000000000)))
           | _ \<Rightarrow> Err (SNotSupported ''Datatype for hour partition transform.''))
      | Void \<Rightarrow> Err (SNotSupported ''Partition transform operation''))"

section \<open>Casts\<close>

definition checked_mul_i64 :: "i64 \<Rightarrow> i64 \<Rightarrow> i64 option" where
  "checked_mul_i64 a b = (if in_i64 (a * b) then Some (a * b) else None)"

text \<open>\<open>checked_ilog10().unwrap_or(0)\<close>.\<close>

fun ilog10 :: "nat \<Rightarrow> nat" where
  "ilog10 n = (if n < 10 then 0 else Suc (ilog10 (n div 10)))"

declare ilog10.simps [simp del]

definition cast_decimal :: "decimal \<Rightarrow> nat \<Rightarrow> nat \<Rightarrow> (ice_value, spec_error) outcome" where
  "cast_decimal input precision scale =
     (if decimal_scale input = scale
      then rbind (decimal_mantissa input) (\<lambda>m.
           if ilog10 (nat \<bar>m\<bar>) < precision then Ok (VDecimal input)
           else Err (SNotSupported ''cast''))
      else Err (SNotSupported ''cast''))"

definition value_cast_other :: "value_lib \<Rightarrow> ice_value \<Rightarrow> ice_type \<Rightarrow> (ice_value, spec_error) outcome" where
  "value_cast_other lib v t =
     (case (v, t) of
        (VInt x, Primitive PLong) \<Rightarrow> Ok (VLongInt x)
      | (VFloat x, Primitive PDouble) \<Rightarrow> Ok (VDouble (vl_f64_from_f32 lib x))
      | (VDecimal x, Primitive (PDecimal p s)) \<Rightarrow> cast_decimal x p s
      | (VDate x, Primitive PTimestamp) \<Rightarrow>
          map_err SInvalidFormat (rbind (ok_or ''date exceeds timestamp range''
            (checked_mul_i64 x 86400000000)) (\<lambda>y. Ok (VTimestamp y)))
      | (VDate x, Primitive PTimestampNs) \<Rightarrow>
          map_err SInvalidFormat (rbind (ok_or ''date exceeds timestamp_ns range''
            (checked_mul_i64 x 86400000000000)) (\<lambda>y. Ok (VTimestampNano y)))
      | (VTimestamp x, Primitive PTimestampNs) \<Rightarrow>
          map_err SInvalidFormat (rbind (ok_or ''timestamp exceeds timestamp_ns range''
            (checked_mul_i64 x 1000)) (\<lambda>y. Ok (VTimestampNano y)))
      | (VTimestampTZ x, Primitive PTimestamptzNs) \<Rightarrow>
          map_err SInvalidFormat (rbind (ok_or ''timestamptz exceeds timestamptz_ns range''
            (checked_mul_i64 x 1000)) (\<lambda>y. Ok (VTimestampTZNano y)))
      | (VTimestampNano x, Primitive PTimestamp) \<Rightarrow> Ok (VTimestamp (x div 1000))
      | (VTimestampTZNano x, Primitive PTimestamptz) \<Rightarrow> Ok (VTimestampTZ (x div 1000))
      | (VTimestampNano x, Primitive PDate) \<Rightarrow> Ok (VDate (wrap32 (x div 86400000000000)))
      | (VTimestampTZNano x, Primitive PDate) \<Rightarrow> Ok (VDate (wrap32 (x div 86400000000000)))
      | (VInt x, Primitive PDate) \<Rightarrow> Ok (VDate x)
      | (VLongInt x, Primitive PTime) \<Rightarrow> Ok (VTime x)
      | (VLongInt x, Primitive PTimestamp) \<Rightarrow> Ok (VTimestamp x)
      | (VLongInt x, Primitive PTimestamptz) \<Rightarrow> Ok (VTimestampTZ x)
      | (VLongInt x, Primitive PTimestampNs) \<Rightarrow> Ok (VTimestampNano x)
      | (VLongInt x, Primitive PTimestamptzNs) \<Rightarrow> Ok (VTimestampTZNano x)
      | _ \<Rightarrow> Err (SNotSupported ''cast''))"

definition value_cast :: "value_lib \<Rightarrow> ice_value \<Rightarrow> ice_type \<Rightarrow> (ice_value, spec_error) outcome" where
  "value_cast lib v t =
     rbind (value_datatype v) (\<lambda>own. if own = t then Ok v else value_cast_other lib v t)"

definition promote_iceberg ::
  "value_lib \<Rightarrow> ice_value \<Rightarrow> ice_type \<Rightarrow> ice_type \<Rightarrow> (ice_value, spec_error) outcome" where
  "promote_iceberg lib v source_type target_type =
     (if source_type = target_type then Ok v
      else let refuse = Err (SNotSupported (''Iceberg schema promotion from ''
             @ Type_to_string source_type @ '' to '' @ Type_to_string target_type))
      in case (v, source_type, target_type) of
        (VInt x, Primitive PInt, Primitive PLong) \<Rightarrow> Ok (VLongInt x)
      | (VFloat x, Primitive PFloat, Primitive PDouble) \<Rightarrow> Ok (VDouble (vl_f64_from_f32 lib x))
      | (VDate x, Primitive PDate, Primitive PTimestamp) \<Rightarrow> value_cast lib (VDate x) target_type
      | (VDate x, Primitive PDate, Primitive PTimestampNs) \<Rightarrow> value_cast lib (VDate x) target_type
      | (VDecimal d, Primitive (PDecimal p1 s1), Primitive (PDecimal p2 s2)) \<Rightarrow>
          if s1 = s2 \<and> p1 \<le> p2 then Ok (VDecimal d) else refuse
      | _ \<Rightarrow> refuse)"

text \<open>
  \<open>Struct::cast\<close>: the values of a partition struct follow the partition fields of the same
  names. The error of a missing name or column names it.
\<close>

definition cast_field ::
  "value_lib \<Rightarrow> ice_value \<Rightarrow> ice_type \<Rightarrow> (ice_value, spec_error) outcome" where
  "cast_field lib v t =
     (case (v, t) of
        (VInt x, Primitive PTimestamp) \<Rightarrow> Ok (VTimestamp x)
      | (VInt x, Primitive PTimestamptz) \<Rightarrow> Ok (VTimestampTZ x)
      | (VInt x, Primitive PTimestampNs) \<Rightarrow> Ok (VTimestampNano x)
      | (VInt x, Primitive PTimestamptzNs) \<Rightarrow> Ok (VTimestampTZNano x)
      | _ \<Rightarrow> rbind (value_datatype v) (\<lambda>source.
          case (source, t) of
            (Primitive PInt, Primitive PLong) \<Rightarrow> promote_iceberg lib v source t
          | (Primitive PFloat, Primitive PDouble) \<Rightarrow> promote_iceberg lib v source t
          | _ \<Rightarrow> value_cast lib v t))"

definition Struct_cast ::
  "value_lib \<Rightarrow> struct_value \<Rightarrow> struct_type \<Rightarrow> partition_field list \<Rightarrow> (struct_value, spec_error) outcome" where
  "Struct_cast lib s schema spec =
     (if sv_fields s = [] then Ok s
      else rbind (try_map (\<lambda>pf.
             rbind (StructType_get schema (i32_as_usize (pf_source_id pf))) (\<lambda>f.
             rbind (ok_or (SInvalidFormat (''partition spec references unknown column id ''
                      @ show_int (pf_source_id pf))) f) (\<lambda>field.
             rbind (tranform (ftype field) (pf_transform pf)) (\<lambda>t. Ok (pf_name pf, t))))) spec)
        (\<lambda>kvs. let types = hm_from_iter kvs in
           rbind (try_map (\<lambda>(idx, field).
               rbind (ok_or (SInvalidFormat ''partition struct'')
                        (find (\<lambda>(_, v). v = idx) (sv_lookup s))) (\<lambda>(name, _).
               rbind (ok_or (SInvalidFormat ''partition_struct'') (types name)) (\<lambda>t.
               case field of
                 None \<Rightarrow> Ok (name, None)
               | Some v \<Rightarrow> rbind (cast_field lib v t) (\<lambda>v'. Ok (name, Some v')))))
             (enumerate 0 (sv_fields s)))
           (\<lambda>entries. Ok (Struct_from_iter entries))))"

section \<open>Subtraction\<close>

text \<open>The characters of a string, as their bytes; \<open>to_digit(36)\<close> of a character.\<close>

function utf8_chars :: "byte list \<Rightarrow> byte list list" where
  "utf8_chars [] = []"
| "utf8_chars (b # bs) =
     (b # takeWhile (\<lambda>x. cont (unat x)) bs) # utf8_chars (dropWhile (\<lambda>x. cont (unat x)) bs)"
  by pat_completeness auto
termination
  by (relation "measure length") (auto simp: le_imp_less_Suc length_dropWhile_le)

definition to_digit36 :: "byte list \<Rightarrow> nat option" where
  "to_digit36 c =
     (case c of
        [b] \<Rightarrow> let k = unat b in
          if 48 \<le> k \<and> k \<le> 57 then Some (k - 48)
          else if 97 \<le> k \<and> k \<le> 122 then Some (k - 87)
          else if 65 \<le> k \<and> k \<le> 90 then Some (k - 55)
          else None
      | _ \<Rightarrow> None)"

fun digit_distance :: "(byte list \<times> byte list) list \<Rightarrow> nat option" where
  "digit_distance [] = Some 0"
| "digit_distance ((l, r) # xs) =
     (case (to_digit36 l, to_digit36 r) of
        (Some a, Some b) \<Rightarrow> map_option ((+) ((max a b - min a b) ^ 2)) (digit_distance xs)
      | _ \<Rightarrow> None)"

definition sub_string :: "value_lib \<Rightarrow> string \<Rightarrow> string \<Rightarrow> nat" where
  "sub_string lib left right =
     (let l = string_bytes left; r = string_bytes right
      in case digit_distance (dropWhile (\<lambda>(a, b). a = b)
                (take 256 (zip (utf8_chars l) (utf8_chars r)))) of
           Some d \<Rightarrow> d
         | None \<Rightarrow>
             let hl = unat (vl_hash lib l); hr = unat (vl_hash lib (l @ r))
             in max hl hr - min hl hr)"

text \<open>
  A UUID subtracts field by field in little-endian order: 4, 2 and 2 bytes, then 8 single
  bytes, each wrapping.
\<close>

definition sub_le :: "byte list \<Rightarrow> byte list \<Rightarrow> byte list" where
  "sub_le a b = to_le_bytes (length a) (uint_le a - uint_le b)"

definition uuid_sub :: "128 word \<Rightarrow> 128 word \<Rightarrow> 128 word" where
  "uuid_sub x y =
     (let a = to_be_bytes 16 (uint x); b = to_be_bytes 16 (uint y);
          part = (\<lambda>i n. sub_le (take n (drop i a)) (take n (drop i b)))
      in word_of_int (uint_le (rev (part 0 4 @ part 4 2 @ part 6 2
           @ map2 (-) (drop 8 a) (drop 8 b)))))"

definition try_sub :: "value_lib \<Rightarrow> ice_value \<Rightarrow> ice_value \<Rightarrow> (ice_value, spec_error) outcome" where
  "try_sub lib x y =
     (case (x, y) of
        (VInt a, VInt b) \<Rightarrow> Ok (VInt (wrap32 (a - b)))
      | (VLongInt a, VLongInt b) \<Rightarrow> Ok (VLongInt (wrap64 (a - b)))
      | (VFloat a, VFloat b) \<Rightarrow> Ok (VFloat (vl_sub_f32 lib a b))
      | (VDouble a, VDouble b) \<Rightarrow> Ok (VDouble (vl_sub_f64 lib a b))
      | (VDate a, VDate b) \<Rightarrow> Ok (VDate (wrap32 (a - b)))
      | (VTime a, VTime b) \<Rightarrow> Ok (VTime (wrap64 (a - b)))
      | (VTimestamp a, VTimestamp b) \<Rightarrow> Ok (VTimestamp (wrap64 (a - b)))
      | (VTimestampTZ a, VTimestampTZ b) \<Rightarrow> Ok (VTimestampTZ (wrap64 (a - b)))
      | (VTimestampNano a, VTimestampNano b) \<Rightarrow>
          rbind (decimal_from_i128_with_scale (a - b) 0) (\<lambda>d. Ok (VDecimal d))
      | (VTimestampTZNano a, VTimestampTZNano b) \<Rightarrow>
          rbind (decimal_from_i128_with_scale (a - b) 0) (\<lambda>d. Ok (VDecimal d))
      | (VString a, VString b) \<Rightarrow> Ok (VLongInt (wrap64 (int (sub_string lib a b))))
      | (VUUID a, VUUID b) \<Rightarrow> Ok (VUUID (uuid_sub a b))
      | (VFixed n a, VFixed m b) \<Rightarrow> Ok (VFixed (min n m) (map2 (-) a b))
      | _ \<Rightarrow>
          rbind (value_datatype x) (\<lambda>tx.
          rbind (value_datatype y) (\<lambda>ty.
          Err (SType (Type_to_string tx) (Type_to_string ty)))))"

section \<open>The order of values\<close>

text \<open>
  The derived \<open>Ord\<close> compares the variant first and then the payload, lists and maps
  lexicographically; \<open>OrderedFloat\<close> puts NaN above everything and identifies the zeros.
  It is the lexicographic order of an encoding: a number per scalar, and for a sequence its
  elements, each marked, and an end mark below every element mark.
\<close>

definition float_key :: "nat \<Rightarrow> nat \<Rightarrow> int \<Rightarrow> rat" where
  "float_key width mantissa bits =
     (let m = bits mod 2 ^ (width - 1); inf = 2 ^ (width - 1) - 2 ^ mantissa
      in if m > inf then of_int (2 ^ width)
         else if bits \<ge> 2 ^ (width - 1) then - of_int m else of_int m)"

definition decimal_key :: "decimal \<Rightarrow> rat" where
  "decimal_key d =
     (let m = (if dec_negative d then -1 else 1) * of_nat (dec_digits d)
      in if dec_exponent d < 0 then m / 10 ^ nat (- dec_exponent d) else m * 10 ^ nat (dec_exponent d))"

definition bytes_enc :: "nat list \<Rightarrow> rat list" where
  "bytes_enc bs = map (\<lambda>b. of_nat (Suc b)) bs @ [0]"

fun value_enc :: "ice_value \<Rightarrow> rat list"
  and struct_enc :: "struct_value \<Rightarrow> rat list" where
  "value_enc (VBoolean b) = [0, if b then 1 else 0]"
| "value_enc (VInt x) = [1, of_int x]"
| "value_enc (VLongInt x) = [2, of_int x]"
| "value_enc (VFloat x) = [3, float_key 32 23 (uint x)]"
| "value_enc (VDouble x) = [4, float_key 64 52 (uint x)]"
| "value_enc (VDate x) = [5, of_int x]"
| "value_enc (VTime x) = [6, of_int x]"
| "value_enc (VTimestamp x) = [7, of_int x]"
| "value_enc (VTimestampTZ x) = [8, of_int x]"
| "value_enc (VTimestampNano x) = [9, of_int x]"
| "value_enc (VTimestampTZNano x) = [10, of_int x]"
| "value_enc (VString s) = 11 # bytes_enc (map of_char s)"
| "value_enc (VUUID u) = [12, of_int (uint u)]"
| "value_enc (VFixed n bs) = 13 # of_nat n # bytes_enc (map unat bs)"
| "value_enc (VBinary bs) = 14 # bytes_enc (map unat bs)"
| "value_enc (VDecimal d) = [15, decimal_key d]"
| "value_enc (VStruct s) = 16 # struct_enc s"
| "value_enc (VList xs) =
     17 # concat (map (\<lambda>x. case x of None \<Rightarrow> [1] | Some v \<Rightarrow> 2 # value_enc v) xs) @ [0]"
| "value_enc (VMap kvs) =
     18 # concat (map (\<lambda>(k, x). 1 # value_enc k @
                  (case x of None \<Rightarrow> [1] | Some v \<Rightarrow> 2 # value_enc v)) kvs) @ [0]"
| "struct_enc (StructValue xs lookup) =
     concat (map (\<lambda>x. case x of None \<Rightarrow> [1] | Some v \<Rightarrow> 2 # value_enc v) xs) @ [0]
       @ concat (map (\<lambda>(k, i). 1 # bytes_enc (map of_char k) @ [of_nat i]) lookup) @ [0]"

definition value_less :: "ice_value \<Rightarrow> ice_value \<Rightarrow> bool" where
  "value_less a b \<longleftrightarrow> value_enc a < value_enc b"

definition value_le :: "ice_value \<Rightarrow> ice_value \<Rightarrow> bool" where
  "value_le a b \<longleftrightarrow> value_enc a \<le> value_enc b"

lemma value_le_refl [simp]: "value_le a a"
  by (simp add: value_le_def)

lemma value_le_trans [trans]: "value_le a b \<Longrightarrow> value_le b c \<Longrightarrow> value_le a c"
  by (simp add: value_le_def)

lemma value_le_total: "value_le a b \<or> value_le b a"
  by (auto simp: value_le_def)

lemma not_value_less: "\<not> value_less a b \<longleftrightarrow> value_le b a"
  by (auto simp: value_le_def value_less_def)

lemma value_less_imp_le: "value_less a b \<Longrightarrow> value_le a b"
  by (simp add: value_le_def value_less_def)

section \<open>Decimals as bytes\<close>

text \<open>
  The documented behaviour of the radix conversion the decimal library supplies: the base-256
  digits of the number, the most significant one first and not zero.
\<close>

definition radix_spec :: "(nat \<Rightarrow> byte list) \<Rightarrow> bool" where
  "radix_spec radix \<longleftrightarrow>
     (\<forall>n. uint_le (rev (radix n)) = int n \<and> (0 < n \<longrightarrow> hd (radix n) \<noteq> 0))"

lemma uint_le_zeros: "list_all (\<lambda>b. b = 0) bs \<Longrightarrow> uint_le bs = 0"
  by (induction bs) auto

lemma zeros_uint_le: "uint_le bs = 0 \<Longrightarrow> list_all (\<lambda>b. b = 0) bs"
proof (induction bs)
  case (Cons b bs)
  have "0 \<le> uint b" "0 \<le> uint_le bs" using uint_le_bounds by auto
  with Cons show ?case by (simp add: add_nonneg_eq_0_iff uint_0_iff)
qed simp

lemma radix_facts:
  assumes "radix_spec radix" "0 < n"
  shows "uint_le (rev (radix n)) = int n" "radix n \<noteq> []" "last (rev (radix n)) \<noteq> 0"
    "\<not> list_all (\<lambda>b. b = 0) (radix n)"
proof -
  show u: "uint_le (rev (radix n)) = int n" using assms(1) by (simp add: radix_spec_def)
  with assms(2) show ne: "radix n \<noteq> []" by auto
  show "last (rev (radix n)) \<noteq> 0" using assms ne by (simp add: radix_spec_def last_rev)
  show "\<not> list_all (\<lambda>b. b = 0) (radix n)"
    using u assms(2) uint_le_zeros [of "rev (radix n)"] by (auto simp: list_all_iff)
qed

lemma decimal_bytes_positive:
  assumes "radix_spec (vl_to_radix_be lib)" "\<not> dec_negative d" "dec_digits d < 2 ^ 127"
  defines "bs \<equiv> decimal_to_be_bytes_min lib d"
  shows "bs \<noteq> []" "length bs \<le> 16" "sint_be bs = int (dec_digits d)"
proof -
  have "bs \<noteq> [] \<and> length bs \<le> 16 \<and> sint_be bs = int (dec_digits d)"
  proof (cases "dec_digits d = 0")
    case True
    have "list_all (\<lambda>b. b = 0) (vl_to_radix_be lib 0)"
      using zeros_uint_le [of "rev (vl_to_radix_be lib 0)"] assms(1) by (simp add: radix_spec_def list_all_iff)
    with True show ?thesis
      by (simp add: bs_def decimal_to_be_bytes_min_def sint_be_def sint_le_alt)
  next
    case False
    define r where "r = rev (vl_to_radix_be lib (dec_digits d))"
    have r: "uint_le r = int (dec_digits d)" "r \<noteq> []" "last r \<noteq> 0"
      using radix_facts [OF assms(1), of "dec_digits d"] False by (simp_all add: r_def)
    have small: "2 * uint_le r < 256 ^ 16" using assms(3) r(1) by simp
    have len: "length r \<le> 16" by (rule length_bound [OF r(2,3)]) (use small r(1) in simp)
    have bs: "bs = (if bit (last r) 7 then 0 # rev r else rev r)"
      using False radix_facts [OF assms(1), of "dec_digits d"] assms(2)
      by (simp add: bs_def decimal_to_be_bytes_min_def r_def last_rev Let_def)
    have b: "uint_le r < 256 ^ length r" using uint_le_bounds by auto
    show ?thesis
    proof (cases "bit (last r) 7")
      case True
      then have "256 ^ length r \<le> 2 * uint_le r" using negative_iff_top_bit [OF r(2)] by simp
      with small have "(256 :: int) ^ length r < 256 ^ 16" by linarith
      then have "length r < 16" by (rule power_less_imp_less_exp [rotated]) simp
      have "2 * uint_le r < 256 * 256 ^ length r" using b r(1) by linarith
      then have "sint_le (r @ [0]) = uint_le r"
        by (simp add: sint_le_alt uint_le_append)
      with True \<open>length r < 16\<close> r(1) show ?thesis
        by (simp add: bs sint_be_def)
    next
      case False
      then have "\<not> 256 ^ length r \<le> 2 * uint_le r" using negative_iff_top_bit [OF r(2)] by simp
      with False len r show ?thesis by (simp add: bs sint_be_def sint_le_alt)
    qed
  qed
  then show "bs \<noteq> []" "length bs \<le> 16" "sint_be bs = int (dec_digits d)" by auto
qed

lemma decimal_bytes_negative:
  assumes "radix_spec (vl_to_radix_be lib)" "dec_negative d" "0 < dec_digits d" "dec_digits d \<le> 2 ^ 127"
  defines "bs \<equiv> decimal_to_be_bytes_min lib d"
  shows "bs \<noteq> []" "length bs \<le> 16" "sint_be bs = - int (dec_digits d)"
proof -
  define r where "r = rev (vl_to_radix_be lib (dec_digits d))"
  have r: "uint_le r = int (dec_digits d)" "r \<noteq> []" "last r \<noteq> 0"
    using radix_facts [OF assms(1,3)] by (simp_all add: r_def)
  have small: "2 * uint_le r \<le> 256 ^ 16" using assms(4) r(1) by simp
  have len: "length r \<le> 16" by (rule length_bound [OF r(2,3)]) (use assms(4) r(1) in simp)
  define c where "c = increment_le (map (\<lambda>b. NOT b) (r @ [0]))"
  have c: "uint_le c = 256 ^ Suc (length r) - uint_le r" "length c = Suc (length r)" "sint_le c = - uint_le r"
    using negate_le [of r] assms(3) r(1) by (simp_all add: c_def)
  have cne: "c \<noteq> []" "butlast c \<noteq> []"
    using c(2) r(2) by (auto simp: length_Suc_conv split: if_splits)
  have "rev (increment_le (rev (map (\<lambda>b. NOT b) (0 # vl_to_radix_be lib (dec_digits d))))) = rev c"
    by (simp add: c_def r_def rev_map)
  moreover have "rev c ! 1 = last (butlast c)"
    using cne by (cases c rule: rev_cases; cases "butlast c" rule: rev_cases) (auto simp: butlast_append)
  ultimately have bs: "bs = (if last c = 255 \<and> bit (last (butlast c)) 7 then rev (butlast c) else rev c)"
    using radix_facts [OF assms(1,3)] assms(2) cne
    by (simp add: bs_def decimal_to_be_bytes_min_def Let_def hd_rev butlast_rev [symmetric])
      (metis butlast_rev rev_rev_ident)
  have "last c = 255 \<and> bit (last (butlast c)) 7" if "length r = 16"
  proof -
    have u: "uint_le c = uint_le (butlast c) + 256 ^ 16 * uint (last c)"
      using uint_le_append [of "butlast c" "[last c]"] cne c(2) that by simp
    have l: "length (butlast c) = 16" using c(2) that by simp
    have b: "0 \<le> uint_le (butlast c)" "uint_le (butlast c) < 256 ^ 16"
      using uint_le_bounds [of "butlast c"] l by auto
    have v: "uint_le c = 256 ^ 17 - uint_le r" using c(1) that by simp
    have "uint (last c) < 256" using uint_lt2p [of "last c"] by simp
    then have l255: "uint (last c) = 255" using u v b small by simp
    then have "last c = 255" by (metis uint_255 word_uint_eq_iff)
    moreover have "256 ^ length (butlast c) \<le> 2 * uint_le (butlast c)"
      using u v l l255 small by simp
    ultimately show ?thesis using negative_iff_top_bit [OF cne(2)] by blast
  qed
  then have "length bs \<le> 16" using len c(2) by (cases "length r = 16") (auto simp: bs)
  moreover have "sint_be bs = - int (dec_digits d)"
    using drop_sign_le [OF cne(1)] cne c(3) r(1) by (auto simp: bs sint_be_def)
  moreover have "bs \<noteq> []" using cne by (simp add: bs)
  ultimately show "bs \<noteq> []" "length bs \<le> 16" "sint_be bs = - int (dec_digits d)" by auto
qed

section \<open>Properties\<close>

text \<open>The values a type can hold: numbers in their range, text in UTF-8, decimals that fit.\<close>

fun wf_value :: "ice_value \<Rightarrow> bool" where
  "wf_value (VInt x) \<longleftrightarrow> in_i32 x"
| "wf_value (VDate x) \<longleftrightarrow> in_i32 x"
| "wf_value (VLongInt x) \<longleftrightarrow> in_i64 x"
| "wf_value (VTime x) \<longleftrightarrow> in_i64 x"
| "wf_value (VTimestamp x) \<longleftrightarrow> in_i64 x"
| "wf_value (VTimestampTZ x) \<longleftrightarrow> in_i64 x"
| "wf_value (VTimestampNano x) \<longleftrightarrow> in_i64 x"
| "wf_value (VTimestampTZNano x) \<longleftrightarrow> in_i64 x"
| "wf_value (VString s) \<longleftrightarrow> utf8_valid (map of_char s)"
| "wf_value (VDecimal d) \<longleftrightarrow>
     - (2 ^ 31) < dec_exponent d \<and> dec_exponent d \<le> 0 \<and> (dec_negative d \<longrightarrow> 0 < dec_digits d)
     \<and> dec_digits d \<le> 2 ^ 127 \<and> (\<not> dec_negative d \<longrightarrow> dec_digits d < 2 ^ 127)"
| "wf_value (VStruct _) \<longleftrightarrow> False"
| "wf_value (VList _) \<longleftrightarrow> False"
| "wf_value (VMap _) \<longleftrightarrow> False"
| "wf_value _ \<longleftrightarrow> True"

lemma unat_of_char [simp]: "unat (of_char c :: byte) = of_char c"
  by (simp add: of_char_def unat_of_nat)

lemma string_bytes_roundtrip:
  assumes "utf8_valid (map of_char s)" shows "from_utf8 (string_bytes s) = Ok s"
proof -
  have "map unat (string_bytes s) = map of_char s" "bytes_string (string_bytes s) = s"
    by (simp_all add: string_bytes_def bytes_string_def comp_def)
  with assms show ?thesis by (simp add: from_utf8_def)
qed

lemma sint_le_i32: "in_i32 x \<Longrightarrow> sint_le (to_le_bytes 4 x) = x"
  by (rule sint_le_to_le_bytes) (simp_all add: in_i32_def)

lemma sint_le_i64: "in_i64 x \<Longrightarrow> sint_le (to_le_bytes 8 x) = x"
  by (rule sint_le_to_le_bytes) (simp_all add: in_i64_def)

lemma decimal_value_roundtrip:
  assumes "radix_spec (vl_to_radix_be lib)" "wf_value (VDecimal d)"
  shows "try_from_bytes lib (decimal_to_be_bytes_min lib d) (Primitive (PDecimal 38 (decimal_scale d)))
    = Ok (VDecimal d)"
proof -
  let ?bs = "decimal_to_be_bytes_min lib d"
  have bs: "?bs \<noteq> []" "length ?bs \<le> 16"
    "sint_be ?bs = (if dec_negative d then - int (dec_digits d) else int (dec_digits d))"
    using decimal_bytes_negative [OF assms(1), of d] decimal_bytes_positive [OF assms(1), of d] assms(2)
    by (cases "dec_negative d"; simp)+
  obtain a where a: "(sign_extend_be 16 ?bs :: (byte list, spec_error) outcome) = Ok a" "sint_be a = sint_be ?bs"
    using sign_extend_be_Ok [OF bs(1,2)] by (metis (no_types))
  have "decimal_from_i128_with_scale (sint_be ?bs) (decimal_scale d) = Ok d"
    using assms(2) bs(3)
    by (cases d) (auto simp: decimal_from_i128_with_scale_def decimal_scale_def)
  then show ?thesis
    using bs(2) a by (simp add: try_from_bytes_def try_from_bytes_with_hint_def)
qed

lemma value_bytes_roundtrip_lemma:
  assumes "radix_spec (vl_to_radix_be lib)" "wf_value v"
  shows "\<exists>bs t. value_to_bytes lib v = Ok bs \<and> value_datatype v = Ok t \<and> try_from_bytes lib bs t = Ok v"
proof (cases v)
  case (VDecimal d)
  with assms decimal_value_roundtrip [OF assms(1), of d] show ?thesis
    by (simp add: value_to_bytes_def value_datatype_def)
next
  case (VFloat x)
  have "uint x mod 256 ^ 4 = uint x" using uint_lt2p [of x] by (intro mod_pos_pos_trivial) simp_all
  with VFloat show ?thesis
    by (simp add: value_to_bytes_def value_datatype_def try_from_bytes_def try_from_bytes_with_hint_def
        array_of_def)
next
  case (VDouble x)
  have "uint x mod 256 ^ 8 = uint x" using uint_lt2p [of x] by (intro mod_pos_pos_trivial) simp_all
  with VDouble show ?thesis
    by (simp add: value_to_bytes_def value_datatype_def try_from_bytes_def try_from_bytes_with_hint_def
        array_of_def)
next
  case (VUUID x)
  have "uint x mod 256 ^ 16 = uint x" using uint_lt2p [of x] by (intro mod_pos_pos_trivial) simp_all
  with VUUID show ?thesis
    by (simp add: value_to_bytes_def value_datatype_def try_from_bytes_def try_from_bytes_with_hint_def
        array_of_def to_be_bytes_def)
qed (use assms(2) in \<open>simp_all add: value_to_bytes_def value_datatype_def try_from_bytes_def
      try_from_bytes_with_hint_def array_of_def sint_le_i32 sint_le_i64 string_bytes_roundtrip\<close>)

text \<open>
  The single-value bytes of a primitive value are read back as that value at its own type,
  for every value in range, given the documented radix conversion of the decimal library.
\<close>

theorem value_bytes_roundtrip:
  assumes "radix_spec (vl_to_radix_be lib)" "wf_value v"
  shows "\<exists>bs t. value_to_bytes lib v = Ok bs \<and> value_datatype v = Ok t \<and> try_from_bytes lib bs t = Ok v"
  by (rule value_bytes_roundtrip_lemma [OF assms])

text \<open>A concrete library for the witnesses: digits by repeated division, an arbitrary hash.\<close>

fun radix_le :: "nat \<Rightarrow> byte list" where
  "radix_le n = (if n = 0 then [] else of_nat (n mod 256) # radix_le (n div 256))"

declare radix_le.simps [simp del]

lemma radix_le_value: "uint_le (radix_le n) = int n \<and> (0 < n \<longrightarrow> radix_le n \<noteq> [] \<and> last (radix_le n) \<noteq> 0)"
proof (induction n rule: radix_le.induct)
  case (1 n)
  have b: "uint (of_nat (n mod 256) :: byte) = int (n mod 256)"
    by (simp add: uint_nat unat_of_nat)
  have m: "(of_nat (n mod 256) :: byte) = 0 \<longleftrightarrow> n mod 256 = 0"
    using uint_0_iff [of "of_nat (n mod 256) :: byte"] unfolding b by linarith
  show ?case
  proof (cases "n div 256 = 0")
    case True
    then show ?thesis
      using b m by (subst (1 2 3) radix_le.simps) (auto simp: radix_le.simps [of 0] radix_le.simps)
  next
    case False
    then have "0 < n" "n \<noteq> 0" by auto
    have "int (n mod 256 + 256 * (n div 256)) = int n" by simp
    then have e: "int (n mod 256) + 256 * int (n div 256) = int n"
      by (simp only: of_nat_add of_nat_mult of_nat_numeral)
    from \<open>0 < n\<close> \<open>n \<noteq> 0\<close> False 1 b e show ?thesis
      by (subst (1 2 3) radix_le.simps) simp
  qed
qed

definition sample_lib :: value_lib where
  "sample_lib =
     \<lparr>vl_murmur3_32 = (\<lambda>bs. of_nat (length bs)), vl_date_from_timestamp = (\<lambda>_. None),
      vl_datetime_from_micros = (\<lambda>t. Some \<lparr>dt_year = 1970, dt_month0 = 0, dt_timestamp_micros = t\<rparr>),
      vl_datetime_from_nanos = (\<lambda>t. \<lparr>dt_year = 1970, dt_month0 = 0, dt_timestamp_micros = t div 1000\<rparr>),
      vl_parse_uuid = (\<lambda>_. None), vl_f64_from_f32 = (\<lambda>x. ucast x), vl_sub_f32 = (-), vl_sub_f64 = (-),
      vl_to_radix_be = (\<lambda>n. rev (radix_le n)), vl_hash = (\<lambda>bs. of_nat (length bs))\<rparr>"

lemma sample_radix: "radix_spec (vl_to_radix_be sample_lib)"
  using radix_le_value by (auto simp: radix_spec_def sample_lib_def hd_rev)

theorem value_bytes_roundtrip_witness:
  "\<exists>bs t. value_to_bytes sample_lib (VDecimal \<lparr>dec_negative = True, dec_digits = 1234, dec_exponent = -2\<rparr>) = Ok bs
     \<and> value_datatype (VDecimal \<lparr>dec_negative = True, dec_digits = 1234, dec_exponent = -2\<rparr>) = Ok t
     \<and> try_from_bytes sample_lib bs t = Ok (VDecimal \<lparr>dec_negative = True, dec_digits = 1234, dec_exponent = -2\<rparr>)"
  by (rule value_bytes_roundtrip [OF sample_radix]) simp


text \<open>
  A bucket number is in range, it does not change when an int column is promoted to long,
  and a nanosecond timestamp falls in the bucket of its microseconds; a width that is zero or
  too large for an i32 is an error.
\<close>

theorem bucket_is_stable:
  "value_transform lib (VInt x) (Bucket n) = value_transform lib (VLongInt x) (Bucket n)
   \<and> value_transform lib (VTimestampNano t) (Bucket n) = value_transform lib (VTimestamp (t div 1000)) (Bucket n)
   \<and> (value_transform lib v (Bucket n) = Ok r \<longrightarrow>
        (\<exists>k. r = VInt k \<and> 0 \<le> k \<and> k < int n) \<and> 0 < n \<and> n < 2 ^ 31)
   \<and> (n = 0 \<or> 2 ^ 31 \<le> n \<longrightarrow> value_transform lib v (Bucket n) = Err (SInvalidFormat ''bucket width''))"
  by (auto simp: value_transform_def bucket_bytes_def value_to_bytes_def Let_def split: if_splits)

theorem bucket_is_stable_witness:
  "\<exists>k. value_transform sample_lib (VInt 5) (Bucket 16) = Ok (VInt k) \<and> 0 \<le> k \<and> k < 16"
proof -
  obtain r where "value_transform sample_lib (VInt 5) (Bucket 16) = Ok r"
    by (simp add: value_transform_def bucket_bytes_def Let_def)
  then show ?thesis
    using bucket_is_stable [of sample_lib 5 16 0 "VInt 5" r] by auto
qed

text \<open>
  Truncating an integer to a positive width that the cast to i32 keeps gives the largest
  multiple of the width that is not above it, unless that multiple is below the type's range,
  where it wraps to the top; a zero width panics.
\<close>

theorem truncate_integers:
  assumes "0 < w" "w < 2 ^ 31" "in_i32 i" "in_i64 j"
  shows "value_transform lib (VInt i) (Truncate w) =
           Ok (VInt (if in_i32 (i div int w * int w) then i div int w * int w
                     else i div int w * int w + 2 ^ 32))
     \<and> value_transform lib (VLongInt j) (Truncate w) =
           Ok (VLongInt (if in_i64 (j div int w * int w) then j div int w * int w
                     else j div int w * int w + 2 ^ 64))
     \<and> (\<exists>m. value_transform lib (VInt i) (Truncate 0) = Panic m)"
proof -
  have w32: "wrap32 (int w) = int w"
    using assms(1,2) by (intro wrap32_id) (simp add: in_i32_def)
  have q: "x - x mod int w = x div int w * int w" for x
    by (simp add: minus_mod_eq_div_mult)
  have r: "0 \<le> x mod int w" "x mod int w < int w" for x
    using assms(1) by simp_all
  have le: "x div int w * int w \<le> x" "x - int w < x div int w * int w" for x
    using q [of x] r [of x] by linarith+
  have a: "wrap32 (i div int w * int w) =
      (if in_i32 (i div int w * int w) then i div int w * int w else i div int w * int w + 2 ^ 32)"
  proof (cases "in_i32 (i div int w * int w)")
    case False
    then have "(i div int w * int w + 2 ^ 31) mod 2 ^ 32 = i div int w * int w + 2 ^ 31 + 2 ^ 32"
      using assms(2,3) le [of i]
      by (subst mod_add_self2 [symmetric], intro mod_pos_pos_trivial) (simp_all add: in_i32_def)
    with False show ?thesis by (simp add: wrap32_def)
  qed simp
  have b: "wrap64 (j div int w * int w) =
      (if in_i64 (j div int w * int w) then j div int w * int w else j div int w * int w + 2 ^ 64)"
  proof (cases "in_i64 (j div int w * int w)")
    case False
    then have "(j div int w * int w + 2 ^ 63) mod 2 ^ 64 = j div int w * int w + 2 ^ 63 + 2 ^ 64"
      using assms(2,4) le [of j]
      by (subst mod_add_self2 [symmetric], intro mod_pos_pos_trivial) (simp_all add: in_i64_def)
    with False show ?thesis by (simp add: wrap64_def)
  qed simp
  show ?thesis
    using assms(1) w32 a b q by (simp add: value_transform_def rem_euclid_def wrap32_def [of 0])
qed

theorem truncate_integers_witness:
  "value_transform sample_lib (VInt (- (2 ^ 31))) (Truncate 10) = Ok (VInt (2 ^ 31 - 2))"
  using truncate_integers [of 10 "- (2 ^ 31)" 0 sample_lib] by (simp add: in_i32_def in_i64_def)

text \<open>
  Finding: truncating a string counts bytes, not characters, and panics when the width
  falls inside a character: no error is returned for the two-byte letter e-acute cut to
  one byte, while its text is valid UTF-8.
\<close>

theorem truncate_inside_character:
  "utf8_valid (map of_char [char_of (195 :: nat), char_of (169 :: nat)])
   \<and> value_transform lib (VString [char_of (195 :: nat), char_of (169 :: nat)]) (Truncate 1)
     = Panic ''assertion failed: self.is_char_boundary(new_len)''"
  by (simp add: value_transform_def string_truncate_def is_char_boundary_def string_bytes_def
      cont_def of_char_of)

text \<open>
  Finding: equality of partition structs is not symmetric. It compares only the keys of
  the left operand, so an empty struct equals every struct while the converse fails.
\<close>

theorem struct_equality_asymmetric:
  "Struct_eq veq (Struct_from_iter []) s
   \<and> \<not> Struct_eq veq (Struct_from_iter [(''a'', Some (VInt 1))]) (Struct_from_iter [])"
  by (simp add: Struct_eq_def Struct_from_iter_def Struct_keys_def Struct_get_def)

text \<open>
  The minimal encoding of an i128 is never empty, at most 16 bytes, and sign extension to
  16 bytes reads it back.
\<close>

theorem i128_min_bytes_roundtrip:
  assumes "in_i128 x"
  shows "i128_to_be_bytes_min x \<noteq> [] \<and> length (i128_to_be_bytes_min x) \<le> 16
    \<and> (\<exists>a. (sign_extend_be 16 (i128_to_be_bytes_min x) :: (byte list, spec_error) outcome) = Ok a
          \<and> sint_be a = x)"
proof -
  have ne: "i128_to_be_bytes_min x \<noteq> []"
    unfolding i128_to_be_bytes_min_def
    by (rule strip_padding_nonempty) (simp add: to_be_bytes_def flip: length_0_conv)
  have len: "length (i128_to_be_bytes_min x) \<le> 16"
    unfolding i128_to_be_bytes_min_def
    using strip_padding_length [of _ _ "to_be_bytes 16 x"] by (simp add: to_be_bytes_def)
  have "sint_be (i128_to_be_bytes_min x) = sint_be (to_be_bytes 16 x)"
    unfolding i128_to_be_bytes_min_def by (rule strip_padding_sint) simp
  also have "\<dots> = x"
    using assms unfolding sint_be_def to_be_bytes_def rev_rev_ident
    by (intro sint_le_to_le_bytes) (simp_all add: in_i128_def)
  finally show ?thesis
    using sign_extend_be_Ok [OF ne len] ne len by auto
qed

theorem i128_min_bytes_roundtrip_witness:
  "\<exists>a. (sign_extend_be 16 (i128_to_be_bytes_min (- 200)) :: (byte list, spec_error) outcome) = Ok a
     \<and> sint_be a = - 200"
  using i128_min_bytes_roundtrip [of "- 200"] by (simp add: in_i128_def)

end
