(* ===== verification/Arrow_Transform.thy ===== *)
theory Arrow_Transform
  imports Values
begin

text \<open>
  Partition transforms of Arrow arrays (\<open>arrow/transform.rs\<close>): what a writer computes for the rows
  of a batch, beside the transforms of single values in \<^theory_text>\<open>Values\<close>. The types of Arrow that
  the source names are constructors; the slot of a null holds zero, as Arrow's builders leave it.
\<close>

section \<open>Arrays\<close>

datatype time_unit = Second | Millisecond | Microsecond | Nanosecond

datatype arrow_type =
    ABoolean | AInt16 | AInt32 | AInt64 | AFloat32 | AFloat64
  | ADate32 | ADate64 | ATime32 time_unit | ATime64 time_unit
  | ATimestamp time_unit "string option"
  | AUtf8 | ABinary | AFixedSizeBinary nat | ADecimal128 nat int
  | AOtherType string

datatype arrow_array =
    PrimitiveArray arrow_type "int option list"
  | StringArray "string option list"
  | OpaqueArray arrow_type nat

fun array_type :: "arrow_array \<Rightarrow> arrow_type" where
  "array_type (PrimitiveArray t xs) = t"
| "array_type (StringArray xs) = AUtf8"
| "array_type (OpaqueArray t n) = t"

fun array_length :: "arrow_array \<Rightarrow> nat" where
  "array_length (PrimitiveArray t xs) = length xs"
| "array_length (StringArray xs) = length xs"
| "array_length (OpaqueArray t n) = n"

datatype date_part = YearPart | MonthPart

text \<open>
  \<open>date_part\<close> is Arrow's: for every value the part of its date, null where the date is out of
  range, and an error for a time zone that it cannot read.
\<close>

record arrow_lib =
  al_date_part :: "arrow_type \<Rightarrow> date_part \<Rightarrow> int \<Rightarrow> int option"
  al_time_zone :: "string \<Rightarrow> bool"
  al_murmur3_32 :: "byte list \<Rightarrow> 32 word"

definition compute_error :: error where
  "compute_error = ArrowError ''Failed to perform transform for datatype''"

definition date_part_of :: "arrow_lib \<Rightarrow> arrow_type \<Rightarrow> date_part \<Rightarrow> int option list \<Rightarrow> (int option list, error) outcome" where
  "date_part_of al t part xs =
     (case t of
        ATimestamp _ (Some tz) \<Rightarrow>
          if al_time_zone al tz then Ok (map (\<lambda>x. Option.bind x (al_date_part al t part)) xs)
          else Err (ArrowError ''Invalid timezone'')
      | _ \<Rightarrow> Ok (map (\<lambda>x. Option.bind x (al_date_part al t part)) xs))"

text \<open>The kernels \<open>unary\<close> and \<open>binary\<close>. An operation of \<open>unary\<close> runs on the slots of nulls too.\<close>

definition unary :: "(int \<Rightarrow> (int, error) outcome) \<Rightarrow> int option list \<Rightarrow> (int option list, error) outcome" where
  "unary f = try_map (\<lambda>x. case x of
     Some v \<Rightarrow> rbind (f v) (\<lambda>y. Ok (Some y)) | None \<Rightarrow> rbind (f 0) (\<lambda>y. Ok None))"

definition binary :: "(int \<Rightarrow> int \<Rightarrow> int) \<Rightarrow> int option list \<Rightarrow> int option list \<Rightarrow> (int option list, error) outcome" where
  "binary f xs ys =
     (if length xs \<noteq> length ys then Err compute_error
      else Ok (map (\<lambda>(x, y). Option.bind x (\<lambda>a. map_option (f a) y)) (zip xs ys)))"

section \<open>Transforms\<close>

definition MICROS_IN_HOUR :: i64 where "MICROS_IN_HOUR = 3600000000"
definition MICROS_IN_DAY :: i64 where "MICROS_IN_DAY = 86400000000"
definition NANOS_IN_HOUR :: i64 where "NANOS_IN_HOUR = 3600000000000"
definition NANOS_IN_DAY :: i64 where "NANOS_IN_DAY = 86400000000000"

definition micros_to_days :: "i64 \<Rightarrow> i32" where
  "micros_to_days a = wrap32 (a div MICROS_IN_DAY)"

definition micros_to_hours :: "i64 \<Rightarrow> i32" where
  "micros_to_hours a = wrap32 (a div MICROS_IN_HOUR)"

definition datepart_to_years :: "i32 \<Rightarrow> i32" where
  "datepart_to_years year = year - YEARS_BEFORE_UNIX_EPOCH"

definition datepart_to_months :: "i32 \<Rightarrow> i32 \<Rightarrow> i32" where
  "datepart_to_months year month = 12 * (year - YEARS_BEFORE_UNIX_EPOCH) + month - 1"

definition bucket_of :: "arrow_lib \<Rightarrow> byte list \<Rightarrow> nat \<Rightarrow> i32" where
  "bucket_of al bytes width = wrap32 ((uint (al_murmur3_32 al bytes) mod 2 ^ 31) mod int width)"

text \<open>\<open>i - i.rem_euclid(m)\<close> at the width of the integer; \<open>wrap\<close> is the cast of the \<open>u32\<close> to it.\<close>

definition wrap16 :: "int \<Rightarrow> int" where
  "wrap16 x = (x + 2 ^ 15) mod 2 ^ 16 - 2 ^ 15"

definition truncate_at :: "(int \<Rightarrow> int) \<Rightarrow> int \<Rightarrow> nat \<Rightarrow> int \<Rightarrow> (int, error) outcome" where
  "truncate_at wrap min_value m i = rbind (rem_euclid min_value i (wrap (int m))) (\<lambda>r. Ok (wrap (i - r)))"

definition int32_array :: "(int option list, error) outcome \<Rightarrow> (arrow_array, error) outcome" where
  "int32_array r = rbind r (\<lambda>ys. Ok (PrimitiveArray AInt32 ys))"

definition years_of :: "arrow_lib \<Rightarrow> arrow_type \<Rightarrow> int option list \<Rightarrow> (arrow_array, error) outcome" where
  "years_of al t xs =
     int32_array (rbind (date_part_of al t YearPart xs) (unary (\<lambda>y. Ok (datepart_to_years y))))"

definition months_of :: "arrow_lib \<Rightarrow> arrow_type \<Rightarrow> int option list \<Rightarrow> (arrow_array, error) outcome" where
  "months_of al t xs =
     int32_array (rbind (date_part_of al t YearPart xs) (\<lambda>year.
       rbind (date_part_of al t MonthPart xs) (\<lambda>month. binary datepart_to_months year month)))"

definition buckets_of :: "arrow_lib \<Rightarrow> nat \<Rightarrow> (int \<Rightarrow> int) \<Rightarrow> int option list \<Rightarrow> (arrow_array, error) outcome" where
  "buckets_of al m long xs = int32_array (unary (\<lambda>x. Ok (bucket_of al (to_le_bytes 8 (long x)) m)) xs)"

text \<open>
  The transforms of the arrays of one primitive type. The date parts of nanosecond timestamps are
  taken after their time zone is dropped.
\<close>

definition transform_primitive :: "arrow_lib \<Rightarrow> arrow_type \<Rightarrow> int option list \<Rightarrow> transform \<Rightarrow> (arrow_array, error) outcome" where
  "transform_primitive al t xs tr =
     (case tr of
        Identity \<Rightarrow> Ok (PrimitiveArray t xs)
      | Day \<Rightarrow>
          (case t of
             ADate32 \<Rightarrow> Ok (PrimitiveArray AInt32 xs)
           | ATimestamp Microsecond tz \<Rightarrow> int32_array (unary (\<lambda>x. Ok (micros_to_days x)) xs)
           | ATimestamp Nanosecond tz \<Rightarrow> int32_array (unary (\<lambda>x. Ok (wrap32 (x div NANOS_IN_DAY))) xs)
           | _ \<Rightarrow> Err compute_error)
      | Hour \<Rightarrow>
          (case t of
             ATimestamp Microsecond tz \<Rightarrow> int32_array (unary (\<lambda>x. Ok (micros_to_hours x)) xs)
           | ATimestamp Nanosecond tz \<Rightarrow> int32_array (unary (\<lambda>x. Ok (wrap32 (x div NANOS_IN_HOUR))) xs)
           | _ \<Rightarrow> Err compute_error)
      | Month \<Rightarrow>
          (case t of
             ADate32 \<Rightarrow> months_of al t xs
           | ATimestamp Microsecond tz \<Rightarrow> months_of al t xs
           | ATimestamp Nanosecond tz \<Rightarrow> months_of al (ATimestamp Nanosecond None) xs
           | _ \<Rightarrow> Err compute_error)
      | Year \<Rightarrow>
          (case t of
             ADate32 \<Rightarrow> years_of al t xs
           | ATimestamp Microsecond tz \<Rightarrow> years_of al t xs
           | ATimestamp Nanosecond tz \<Rightarrow> years_of al (ATimestamp Nanosecond None) xs
           | _ \<Rightarrow> Err compute_error)
      | Truncate m \<Rightarrow>
          (case t of
             AInt16 \<Rightarrow> rbind (unary (truncate_at wrap16 (- (2 ^ 15)) m) xs) (\<lambda>ys. Ok (PrimitiveArray t ys))
           | AInt32 \<Rightarrow> rbind (unary (truncate_at wrap32 (- (2 ^ 31)) m) xs) (\<lambda>ys. Ok (PrimitiveArray t ys))
           | AInt64 \<Rightarrow> rbind (unary (truncate_at wrap64 (- (2 ^ 63)) m) xs) (\<lambda>ys. Ok (PrimitiveArray t ys))
           | _ \<Rightarrow> Err compute_error)
      | Bucket m \<Rightarrow>
          (case t of
             ATimestamp Nanosecond tz \<Rightarrow> buckets_of al m (\<lambda>x. x div 1000) xs
           | ATimestamp Microsecond tz \<Rightarrow> buckets_of al m (\<lambda>x. x) xs
           | AInt32 \<Rightarrow> buckets_of al m (\<lambda>x. x) xs
           | AInt64 \<Rightarrow> buckets_of al m (\<lambda>x. x) xs
           | ADate32 \<Rightarrow> buckets_of al m (\<lambda>x. x) xs
           | ATime32 Millisecond \<Rightarrow> buckets_of al m (\<lambda>x. x) xs
           | ATime64 Microsecond \<Rightarrow> buckets_of al m (\<lambda>x. x) xs
           | _ \<Rightarrow> Err compute_error)
      | Void \<Rightarrow> Err compute_error)"

definition transform_typed :: "arrow_lib \<Rightarrow> arrow_array \<Rightarrow> transform \<Rightarrow> (arrow_array, error) outcome" where
  "transform_typed al a tr =
     (case a of
        PrimitiveArray t xs \<Rightarrow> transform_primitive al t xs tr
      | StringArray xs \<Rightarrow>
          (case tr of
             Identity \<Rightarrow> Ok a
           | Bucket m \<Rightarrow> Ok (PrimitiveArray AInt32 (map (map_option (\<lambda>s. bucket_of al (string_bytes s) m)) xs))
           | _ \<Rightarrow> Err compute_error)
      | OpaqueArray t n \<Rightarrow> if tr = Identity then Ok a else Err compute_error)"

definition transform_arrow :: "arrow_lib \<Rightarrow> arrow_array \<Rightarrow> transform \<Rightarrow> (arrow_array, error) outcome" where
  "transform_arrow al a tr =
     (case tr of
        Bucket width \<Rightarrow>
          if width = 0 \<or> width > 2 ^ 31 - 1 then Err (ArrowError ''Invalid bucket width'') else transform_typed al a tr
      | _ \<Rightarrow> transform_typed al a tr)"

section \<open>Agreement with the transforms of values\<close>

text \<open>The value of a slot of an array, for the types whose values are values of Iceberg.\<close>

fun slot_value :: "arrow_type \<Rightarrow> int \<Rightarrow> ice_value option" where
  "slot_value AInt32 x = Some (VInt x)"
| "slot_value AInt64 x = Some (VLongInt x)"
| "slot_value ADate32 x = Some (VDate x)"
| "slot_value (ATime64 Microsecond) x = Some (VTime x)"
| "slot_value (ATimestamp Microsecond None) x = Some (VTimestamp x)"
| "slot_value (ATimestamp Microsecond (Some tz)) x = Some (VTimestampTZ x)"
| "slot_value (ATimestamp Nanosecond None) x = Some (VTimestampNano x)"
| "slot_value (ATimestamp Nanosecond (Some tz)) x = Some (VTimestampTZNano x)"
| "slot_value t x = None"

fun array_values :: "arrow_array \<Rightarrow> ice_value option list" where
  "array_values (PrimitiveArray t xs) = map (\<lambda>x. Option.bind x (slot_value t)) xs"
| "array_values (StringArray xs) = map (map_option VString) xs"
| "array_values (OpaqueArray t n) = replicate n None"

text \<open>
  The two date libraries agree: where Arrow has a year or a month, it is the one of chrono. Arrow's
  months begin with 1 and chrono's, here, with 0. The hash functions are the same.
\<close>

definition same_part :: "int option \<Rightarrow> int option \<Rightarrow> (int \<times> int) option \<Rightarrow> bool" where
  "same_part y m d \<longleftrightarrow>
     (case d of Some (year, month0) \<Rightarrow> y = Some year \<and> m = Some (month0 + 1) | None \<Rightarrow> y = None \<and> m = None)"

definition same_dates :: "arrow_lib \<Rightarrow> value_lib \<Rightarrow> bool" where
  "same_dates al lib \<longleftrightarrow>
     al_murmur3_32 al = vl_murmur3_32 lib \<and>
     (\<forall>x. same_part (al_date_part al ADate32 YearPart x) (al_date_part al ADate32 MonthPart x)
        (map_option (\<lambda>d. (nd_year d, nd_month0 d)) (vl_date_from_timestamp lib (x * 86400)))) \<and>
     (\<forall>x tz. same_part (al_date_part al (ATimestamp Microsecond tz) YearPart x)
        (al_date_part al (ATimestamp Microsecond tz) MonthPart x)
        (map_option (\<lambda>d. (dt_year d, dt_month0 d)) (vl_datetime_from_micros lib x))) \<and>
     (\<forall>x. same_part (al_date_part al (ATimestamp Nanosecond None) YearPart x)
        (al_date_part al (ATimestamp Nanosecond None) MonthPart x)
        (Some (dt_year (vl_datetime_from_nanos lib x), dt_month0 (vl_datetime_from_nanos lib x)))) \<and>
     (\<forall>x d. vl_datetime_from_micros lib x = Some d \<longrightarrow> dt_timestamp_micros d = x)"

definition agrees :: "value_lib \<Rightarrow> transform \<Rightarrow> ice_value option \<Rightarrow> ice_value option \<Rightarrow> bool" where
  "agrees lib tr x y \<longleftrightarrow>
     (case x of None \<Rightarrow> y = None | Some v \<Rightarrow> \<forall>w. value_transform lib v tr = Ok w \<longrightarrow> y = Some w)"

definition iceberg_array :: "arrow_array \<Rightarrow> bool" where
  "iceberg_array a \<longleftrightarrow> (case a of PrimitiveArray t xs \<Rightarrow> slot_value t 0 \<noteq> None | StringArray xs \<Rightarrow> True | OpaqueArray t n \<Rightarrow> False)"

lemma unary_slots:
  "unary f xs = Ok ys \<Longrightarrow> list_all2 (\<lambda>x y. (x = None \<longrightarrow> y = None) \<and> (\<forall>v. x = Some v \<longrightarrow> (\<exists>z. f v = Ok z \<and> y = Some z))) xs ys"
  unfolding unary_def
  by (induction xs arbitrary: ys) (auto split: option.splits)

lemma unary_agrees:
  assumes "unary f xs = Ok ys" "\<And>x. slot_value t x \<noteq> None"
    and "\<And>x z v w. f x = Ok z \<Longrightarrow> slot_value t x = Some v \<Longrightarrow> value_transform lib v tr = Ok w \<Longrightarrow> slot_value t' z = Some w"
  shows "list_all2 (agrees lib tr) (map (\<lambda>x. Option.bind x (slot_value t)) xs) (map (\<lambda>y. Option.bind y (slot_value t')) ys)"
  unfolding list_all2_map1 list_all2_map2
proof (rule list_all2_mono [OF unary_slots [OF assms(1)]])
  fix x y
  assume xy: "(x = None \<longrightarrow> y = None) \<and> (\<forall>v. x = Some v \<longrightarrow> (\<exists>z. f v = Ok z \<and> y = Some z))"
  show "agrees lib tr (Option.bind x (slot_value t)) (Option.bind y (slot_value t'))"
  proof (cases x)
    case (Some v)
    then obtain z where "f v = Ok z" "y = Some z" using xy by blast
    then show ?thesis using assms(2) [of v] assms(3) Some by (auto simp: agrees_def)
  qed (use xy in \<open>simp add: agrees_def\<close>)
qed

lemma unary_total: "(\<And>x. f x = Ok (g x)) \<Longrightarrow> unary f xs = Ok (map (map_option g) xs)"
  unfolding unary_def by (induction xs) (auto split: option.splits)

lemma date_part_of_Ok: "date_part_of al t part xs = Ok ys \<Longrightarrow> ys = map (\<lambda>x. Option.bind x (al_date_part al t part)) xs"
  by (auto simp: date_part_of_def split: arrow_type.splits option.splits if_splits)

lemma years_of_Ok:
  assumes "years_of al t xs = Ok b"
  shows "b = PrimitiveArray AInt32
    (map (\<lambda>x. Option.bind x (\<lambda>v. map_option datepart_to_years (al_date_part al t YearPart v))) xs)"
proof -
  from assms obtain ys where "date_part_of al t YearPart xs = Ok ys"
    "b = PrimitiveArray AInt32 (map (map_option datepart_to_years) ys)"
    using unary_total [of "\<lambda>y. Ok (datepart_to_years y)" datepart_to_years]
    by (auto simp: years_of_def int32_array_def)
  then show ?thesis using date_part_of_Ok by (fastforce split: bind_split)
qed

lemma months_of_Ok:
  assumes "months_of al t xs = Ok b"
  shows "b = PrimitiveArray AInt32 (map (\<lambda>x. Option.bind x (\<lambda>v. Option.bind (al_date_part al t YearPart v)
    (\<lambda>year. map_option (datepart_to_months year) (al_date_part al t MonthPart v)))) xs)"
proof -
  from assms obtain ys ms where "date_part_of al t YearPart xs = Ok ys" "date_part_of al t MonthPart xs = Ok ms"
    "int32_array (binary datepart_to_months ys ms) = Ok b"
    by (auto simp: months_of_def int32_array_def)
  then show ?thesis
    using date_part_of_Ok [of al t YearPart xs ys] date_part_of_Ok [of al t MonthPart xs ms]
    by (auto simp: int32_array_def binary_def zip_map_map zip_same_conv_map comp_def split: bind_splits if_splits)
qed

text \<open>An array of parts of dates agrees with a transform of values that takes the same parts.\<close>

lemma parts_agree:
  assumes "\<And>x v w. slot_value t x = Some v \<Longrightarrow> value_transform lib v tr = Ok w \<Longrightarrow> \<exists>z. g x = Some z \<and> w = VInt z"
    and "\<And>x. slot_value t x \<noteq> None"
  shows "list_all2 (agrees lib tr) (map (\<lambda>x. Option.bind x (slot_value t)) xs)
    (map (\<lambda>y. Option.bind y (slot_value AInt32)) (map (\<lambda>x. Option.bind x g) xs))"
proof -
  have "agrees lib tr (Option.bind x (slot_value t)) (Option.bind (Option.bind x g) (slot_value AInt32))" for x
  proof (cases x)
    case (Some v)
    then show ?thesis using assms(1) [of v] assms(2) [of v] by (fastforce simp: agrees_def)
  qed (simp add: agrees_def)
  then show ?thesis by (simp add: list_all2_map1 list_all2_map2 list.rel_refl)
qed


lemma slot_value_total: "slot_value t 0 \<noteq> None \<Longrightarrow> slot_value t x \<noteq> None"
  by (cases "(t, x)" rule: slot_value.cases) simp_all

lemma array_values_of:
  "array_values (PrimitiveArray t xs) = map (\<lambda>x. Option.bind x (slot_value t)) xs"
  by simp

lemma bucket_of_value:
  assumes "al_murmur3_32 al = vl_murmur3_32 lib" "0 < n" "n \<le> 2 ^ 31 - 1"
    "bucket_bytes lib v = Ok bs" "value_transform lib v (Bucket n) = Ok w"
  shows "w = VInt (bucket_of al bs n)"
proof -
  have b: "0 \<le> k mod int n" "k mod int n < int n" for k using assms(2) by simp_all
  have "int n < 2 ^ 31" using assms(3) by auto
  then have "in_i32 (k mod int n)" for k using b [of k] unfolding in_i32_def by linarith
  then have "wrap32 (uint (vl_murmur3_32 lib bs) mod 2 ^ 31 mod int n) = uint (vl_murmur3_32 lib bs) mod 2 ^ 31 mod int n"
    by (rule wrap32_id)
  then show ?thesis using assms by (simp add: bucket_of_def value_transform_def)
qed


text \<open>The types whose slots are values; the two kinds of timestamps do not differ in what follows.\<close>

lemma slot_value_Timestamp [simp]:
  "slot_value (ATimestamp Microsecond tz) x = Some (if tz = None then VTimestamp x else VTimestampTZ x)"
  "slot_value (ATimestamp Nanosecond tz) x = Some (if tz = None then VTimestampNano x else VTimestampTZNano x)"
  by (cases tz; simp)+

lemma value_type_cases:
  assumes "slot_value t 0 \<noteq> None"
  obtains "t = AInt32" | "t = AInt64" | "t = ADate32" | "t = ATime64 Microsecond"
    | tz where "t = ATimestamp Microsecond tz" | tz where "t = ATimestamp Nanosecond tz"
  using assms by (cases "(t, 0 :: int)" rule: slot_value.cases) auto

lemma unary_int32:
  assumes "int32_array (unary (\<lambda>x. Ok (f x)) xs) = Ok b" "slot_value t 0 \<noteq> None"
    "\<And>x v w. slot_value t x = Some v \<Longrightarrow> value_transform lib v tr = Ok w \<Longrightarrow> w = VInt (f x)"
  shows "list_all2 (agrees lib tr) (array_values (PrimitiveArray t xs)) (array_values b)"
proof -
  obtain ys where ys: "unary (\<lambda>x. Ok (f x)) xs = Ok ys" "b = PrimitiveArray AInt32 ys"
    using assms(1) by (auto simp: int32_array_def)
  show ?thesis unfolding ys(2) array_values_of
    by (rule unary_agrees [OF ys(1)]) (rule slot_value_total [OF assms(2)], use assms(3) in fastforce)
qed

text \<open>Each transform, on the arrays of a value type.\<close>

lemma bucket_agrees:
  assumes "al_murmur3_32 al = vl_murmur3_32 lib" "slot_value t 0 \<noteq> None" "0 < n" "n \<le> 2 ^ 31 - 1"
    "transform_primitive al t xs (Bucket n) = Ok b"
  shows "list_all2 (agrees lib (Bucket n)) (array_values (PrimitiveArray t xs)) (array_values b)"
proof -
  define f where "f = (\<lambda>x :: int. case t of ATimestamp Nanosecond tz \<Rightarrow> x div 1000 | _ \<Rightarrow> x)"
  have "buckets_of al n f xs = Ok b"
    using assms(2,5) by (cases rule: value_type_cases) (simp_all add: transform_primitive_def f_def)
  moreover have "bucket_bytes lib v = Ok (to_le_bytes 8 (f x))" if "slot_value t x = Some v" for x v
    using assms(2) that
    by (cases rule: value_type_cases) (auto simp: bucket_bytes_def value_to_bytes_def f_def split: if_splits)
  ultimately show ?thesis
    unfolding buckets_of_def
    by (intro unary_int32 [of _ _ _ t] assms(2)) (assumption, blast intro: bucket_of_value [OF assms(1,3,4)])
qed

lemma truncate_agrees:
  assumes "slot_value t 0 \<noteq> None" "int m < 2 ^ 32" "transform_primitive al t xs (Truncate m) = Ok b"
  shows "list_all2 (agrees lib (Truncate m)) (array_values (PrimitiveArray t xs)) (array_values b)"
proof -
  have w: "wrap64 (int m) = int m" using assms(2) by (intro wrap64_id) (auto simp: in_i64_def)
  have t32: "list_all2 (agrees lib (Truncate m)) (array_values (PrimitiveArray AInt32 xs)) (array_values (PrimitiveArray AInt32 ys))"
    if u: "unary (truncate_at wrap32 (- (2 ^ 31)) m) xs = Ok ys" for ys
    unfolding array_values_of by (rule unary_agrees [OF u]) (auto simp: truncate_at_def value_transform_def rem_euclid_def split: if_splits)
  have t64: "list_all2 (agrees lib (Truncate m)) (array_values (PrimitiveArray AInt64 xs)) (array_values (PrimitiveArray AInt64 ys))"
    if u: "unary (truncate_at wrap64 (- (2 ^ 63)) m) xs = Ok ys" for ys
    unfolding array_values_of by (rule unary_agrees [OF u]) (auto simp: truncate_at_def value_transform_def rem_euclid_def w split: if_splits)
  show ?thesis
    using assms(1)
  proof (cases rule: value_type_cases)
    case 1
    then show ?thesis using assms(3) t32 by (auto simp: transform_primitive_def)
  next
    case 2
    then show ?thesis using assms(3) t64 by (auto simp: transform_primitive_def)
  qed (use assms(3) in \<open>simp_all add: transform_primitive_def\<close>)
qed

lemma day_hour_agrees:
  assumes "\<forall>x d. vl_datetime_from_micros lib x = Some d \<longrightarrow> dt_timestamp_micros d = x"
    "slot_value t 0 \<noteq> None" "tr = Day \<or> tr = Hour" "transform_primitive al t xs tr = Ok b"
  shows "list_all2 (agrees lib tr) (array_values (PrimitiveArray t xs)) (array_values b)"
proof -
  define f where "f = (\<lambda>x. case t of
      ATimestamp Microsecond tz \<Rightarrow> if tr = Day then micros_to_days x else micros_to_hours x
    | ATimestamp Nanosecond tz \<Rightarrow> wrap32 (x div (if tr = Day then NANOS_IN_DAY else NANOS_IN_HOUR)) | _ \<Rightarrow> x)"
  have u: "unary (\<lambda>x. Ok x) xs = Ok xs" for xs :: "int option list"
    using unary_total [of "\<lambda>x. Ok x" "\<lambda>x. x" xs] by (simp add: option.map_ident map_idI)
  have "int32_array (unary (\<lambda>x. Ok (f x)) xs) = Ok b"
    using assms(2,3,4) by (cases rule: value_type_cases)
      (auto simp: transform_primitive_def f_def u int32_array_def)
  moreover have "w = VInt (f x)" if "slot_value t x = Some v" "value_transform lib v tr = Ok w" for x v w
    using assms(2,3) that assms(1)
    by (cases rule: value_type_cases)
       (auto simp: value_transform_def f_def micros_to_days_def micros_to_hours_def MICROS_IN_DAY_def MICROS_IN_HOUR_def
          NANOS_IN_DAY_def NANOS_IN_HOUR_def micros_to_datetime_def datetime_to_days_def datetime_to_hours_def
          unwrap_def split: if_splits option.splits)
  ultimately show ?thesis by (rule unary_int32 [OF _ assms(2)])
qed

text \<open>The year and the month, from 0, of a value, as chrono has them.\<close>

definition chrono_parts :: "value_lib \<Rightarrow> arrow_type \<Rightarrow> int \<Rightarrow> (int \<times> int) option" where
  "chrono_parts lib t x =
     (case t of
        ADate32 \<Rightarrow> map_option (\<lambda>d. (nd_year d, nd_month0 d)) (vl_date_from_timestamp lib (x * 86400))
      | ATimestamp Microsecond tz \<Rightarrow> map_option (\<lambda>d. (dt_year d, dt_month0 d)) (vl_datetime_from_micros lib x)
      | ATimestamp Nanosecond tz \<Rightarrow> Some (dt_year (vl_datetime_from_nanos lib x), dt_month0 (vl_datetime_from_nanos lib x))
      | _ \<Rightarrow> None)"

text \<open>The type whose parts \<open>transform_arrow\<close> takes.\<close>

definition parts_type :: "arrow_type \<Rightarrow> arrow_type" where
  "parts_type t = (case t of ATimestamp Nanosecond tz \<Rightarrow> ATimestamp Nanosecond None | _ \<Rightarrow> t)"

lemma transform_Year:
  assumes "slot_value t 0 \<noteq> None" "slot_value t x = Some v" "value_transform lib v Year = Ok w"
  shows "\<exists>y m. chrono_parts lib t x = Some (y, m) \<and> w = VInt (datepart_to_years y)"
  using assms(1)
proof (cases rule: value_type_cases)
  case 3
  then show ?thesis using assms
    by (auto simp: value_transform_def chrono_parts_def datepart_to_years_def date_to_years_def days_to_date_def unwrap_eq_Ok)
next
  case (5 tz)
  then show ?thesis using assms
    by (auto simp: value_transform_def chrono_parts_def datepart_to_years_def micros_to_datetime_def unwrap_eq_Ok split: if_splits)
next
  case (6 tz)
  then show ?thesis using assms
    by (auto simp: value_transform_def chrono_parts_def datepart_to_years_def split: if_splits)
qed (use assms in \<open>auto simp: value_transform_def\<close>)

lemma transform_Month:
  assumes "slot_value t 0 \<noteq> None" "slot_value t x = Some v" "value_transform lib v Month = Ok w"
  shows "\<exists>y m. chrono_parts lib t x = Some (y, m) \<and> w = VInt (datepart_to_months y (m + 1))"
  using assms(1)
proof (cases rule: value_type_cases)
  case 3
  then show ?thesis using assms
    by (auto simp: value_transform_def chrono_parts_def datepart_to_months_def date_to_months_def days_to_date_def unwrap_eq_Ok)
next
  case (5 tz)
  then show ?thesis using assms
    by (auto simp: value_transform_def chrono_parts_def datepart_to_months_def datetime_to_months_def micros_to_datetime_def
        unwrap_eq_Ok split: if_splits)
next
  case (6 tz)
  then show ?thesis using assms
    by (auto simp: value_transform_def chrono_parts_def datepart_to_months_def datetime_to_months_def split: if_splits)
qed (use assms in \<open>auto simp: value_transform_def\<close>)

lemma arrow_parts:
  assumes "same_dates al lib" "slot_value t 0 \<noteq> None" "chrono_parts lib t x = Some (y, m)"
  shows "al_date_part al (parts_type t) YearPart x = Some y"
    and "al_date_part al (parts_type t) MonthPart x = Some (m + 1)"
proof -
  have "same_part (al_date_part al (parts_type t) YearPart x) (al_date_part al (parts_type t) MonthPart x) (Some (y, m))"
    using assms(2)
  proof (cases rule: value_type_cases)
    case 3
    then show ?thesis using assms(1) assms(3) [symmetric] by (simp add: same_dates_def parts_type_def chrono_parts_def)
  next
    case (5 tz)
    then show ?thesis using assms(1) assms(3) [symmetric] by (simp add: same_dates_def parts_type_def chrono_parts_def)
  next
    case (6 tz)
    then show ?thesis using assms(1) assms(3) [symmetric] by (simp add: same_dates_def parts_type_def chrono_parts_def)
  qed (use assms(3) in \<open>simp_all add: chrono_parts_def\<close>)
  then show "al_date_part al (parts_type t) YearPart x = Some y" "al_date_part al (parts_type t) MonthPart x = Some (m + 1)"
    by (simp_all add: same_part_def)
qed

lemma year_agrees:
  assumes "same_dates al lib" "slot_value t 0 \<noteq> None" "transform_primitive al t xs Year = Ok b"
  shows "list_all2 (agrees lib Year) (array_values (PrimitiveArray t xs)) (array_values b)"
proof -
  have y: "years_of al (parts_type t) xs = Ok b"
    using assms(2,3) by (cases rule: value_type_cases) (simp_all add: transform_primitive_def parts_type_def)
  show ?thesis
    unfolding years_of_Ok [OF y] array_values_of
  proof (rule parts_agree)
    fix x v w
    assume "slot_value t x = Some v" "value_transform lib v Year = Ok w"
    from transform_Year [OF assms(2) this]
    show "\<exists>z. map_option datepart_to_years (al_date_part al (parts_type t) YearPart x) = Some z \<and> w = VInt z"
      using arrow_parts(1) [OF assms(1,2)] by fastforce
  qed (rule slot_value_total [OF assms(2)])
qed

lemma month_agrees:
  assumes "same_dates al lib" "slot_value t 0 \<noteq> None" "transform_primitive al t xs Month = Ok b"
  shows "list_all2 (agrees lib Month) (array_values (PrimitiveArray t xs)) (array_values b)"
proof -
  have m: "months_of al (parts_type t) xs = Ok b"
    using assms(2,3) by (cases rule: value_type_cases) (simp_all add: transform_primitive_def parts_type_def)
  show ?thesis
    unfolding months_of_Ok [OF m] array_values_of
  proof (rule parts_agree)
    fix x v w
    assume "slot_value t x = Some v" "value_transform lib v Month = Ok w"
    from transform_Month [OF assms(2) this]
    show "\<exists>z. Option.bind (al_date_part al (parts_type t) YearPart x)
        (\<lambda>year. map_option (datepart_to_months year) (al_date_part al (parts_type t) MonthPart x)) = Some z \<and> w = VInt z"
      using arrow_parts [OF assms(1,2)] by fastforce
  qed (rule slot_value_total [OF assms(2)])
qed

lemma strings_agree:
  assumes "al_murmur3_32 al = vl_murmur3_32 lib" "transform_arrow al (StringArray xs) tr = Ok b"
  shows "list_all2 (agrees lib tr) (array_values (StringArray xs)) (array_values b)"
proof (cases tr)
  case (Bucket n)
  then have n: "0 < n" "n \<le> 2 ^ 31 - 1" and b: "b = PrimitiveArray AInt32 (map (map_option (\<lambda>s. bucket_of al (string_bytes s) n)) xs)"
    using assms(2) by (auto simp: transform_arrow_def transform_typed_def split: if_splits)
  have "agrees lib (Bucket n) (map_option VString x) (Option.bind (map_option (\<lambda>s. bucket_of al (string_bytes s) n) x) (slot_value AInt32))" for x
    using bucket_of_value [OF assms(1) n, of "VString _"]
    by (cases x) (auto simp: agrees_def bucket_bytes_def value_to_bytes_def)
  then show ?thesis by (simp add: b Bucket list_all2_map1 list_all2_map2 list.rel_refl)
qed (use assms(2) in \<open>auto simp: transform_arrow_def transform_typed_def list_all2_map1 list_all2_map2 agrees_def
    value_transform_def intro!: list.rel_refl split: option.splits\<close>)


definition sample_arrow :: arrow_lib where
  "sample_arrow =
     \<lparr>al_date_part = (\<lambda>t part x.
        if t = ADate32 then None else Some (case part of YearPart \<Rightarrow> 1970 | MonthPart \<Rightarrow> 1)),
      al_time_zone = (\<lambda>tz. tz = ''UTC''), al_murmur3_32 = vl_murmur3_32 sample_lib\<rparr>"


end
