(* ===== verification/Arrow_Schema.thy ===== *)
theory Arrow_Schema
  imports Iceberg_Types Arrow_Transform
begin

text \<open>
  Arrow schemas (\<open>iceberg-rust-spec/src/arrow/schema.rs\<close>): the conversion of Iceberg types to Arrow
  data types and back, and the assignment of field ids to the fields of an Arrow schema.
  A field is its name, data type, nullability and metadata.
\<close>

section \<open>Data types\<close>

datatype data_type =
    DNull | DBoolean | DInt8 | DInt16 | DInt32 | DInt64 | DFloat32 | DFloat64
  | DDecimal128 nat int
  | DDate32 | DTime64 time_unit | DTimestamp time_unit "string option"
  | DUtf8 | DUtf8View | DBinary | DBinaryView | DFixedSizeBinary i32
  | DStruct "afield list" | DList afield | DLargeList afield | DListView afield | DLargeListView afield
  | DFixedSizeList afield i32 | DMap afield bool
  | DOtherType string
and afield =
    AField (af_name: string) (af_type: data_type) (af_nullable: bool) (af_metadata: "string \<rightharpoonup> string")

definition PARQUET_FIELD_ID_META_KEY :: string where "PARQUET_FIELD_ID_META_KEY = ''PARQUET:field_id''"
definition ARROW_EXTENSION_TYPE_NAME_KEY :: string where "ARROW_EXTENSION_TYPE_NAME_KEY = ''ARROW:extension:name''"
definition PARQUET_VARIANT_EXTENSION_NAME :: string where "PARQUET_VARIANT_EXTENSION_NAME = ''arrow.parquet.variant''"

definition is_variant :: "ice_type \<Rightarrow> bool" where
  "is_variant t \<longleftrightarrow> t = Primitive PVariant"

text \<open>\<open>precision as u8\<close>, \<open>scale as i8\<close> and \<open>scale as u32\<close>.\<close>

definition as_u8 :: "nat \<Rightarrow> nat" where "as_u8 n = n mod 256"
definition as_i8 :: "nat \<Rightarrow> int" where "as_i8 n = (int n + 128) mod 256 - 128"
definition as_u32 :: "int \<Rightarrow> nat" where "as_u32 x = nat (x mod 2 ^ 32)"
definition as_u64 :: "int \<Rightarrow> nat" where "as_u64 x = nat (x mod 2 ^ 64)"

definition id_metadata :: "i32 \<Rightarrow> string \<rightharpoonup> string" where
  "id_metadata i = [PARQUET_FIELD_ID_META_KEY \<mapsto> show_int i]"

text \<open>\<open>arrow_field\<close>; its last argument is the converted type.\<close>

definition arrow_field ::
  "string \<Rightarrow> ice_type \<Rightarrow> bool \<Rightarrow> (string \<rightharpoonup> string) \<Rightarrow> (data_type, spec_error) outcome \<Rightarrow> (afield, spec_error) outcome" where
  "arrow_field name t nullable metadata converted =
     rbind converted (\<lambda>d.
     Ok (AField name d nullable
       (if is_variant t then metadata(ARROW_EXTENSION_TYPE_NAME_KEY \<mapsto> PARQUET_VARIANT_EXTENSION_NAME) else metadata)))"

definition primitive_data_type :: "primitive_type \<Rightarrow> data_type" where
  "primitive_data_type p =
     (case p of
        PBoolean \<Rightarrow> DBoolean | PInt \<Rightarrow> DInt32 | PLong \<Rightarrow> DInt64 | PFloat \<Rightarrow> DFloat32 | PDouble \<Rightarrow> DFloat64
      | PDecimal precision scale \<Rightarrow> DDecimal128 (as_u8 precision) (as_i8 scale)
      | PDate \<Rightarrow> DDate32 | PTime \<Rightarrow> DTime64 Microsecond
      | PTimestamp \<Rightarrow> DTimestamp Microsecond None | PTimestamptz \<Rightarrow> DTimestamp Microsecond (Some ''UTC'')
      | PTimestampNs \<Rightarrow> DTimestamp Nanosecond None | PTimestamptzNs \<Rightarrow> DTimestamp Nanosecond (Some ''UTC'')
      | PString \<Rightarrow> DUtf8 | PUuid \<Rightarrow> DUtf8 | PFixed n \<Rightarrow> DFixedSizeBinary (wrap32 (int n)) | PBinary \<Rightarrow> DBinary
      | PVariant \<Rightarrow> DStruct [AField ''metadata'' DBinaryView False Map.empty, AField ''value'' DBinaryView True Map.empty]
      | PGeometry _ \<Rightarrow> DBinary | PGeography _ _ \<Rightarrow> DBinary | PUnknown \<Rightarrow> DNull)"

fun arrow_data_type :: "ice_type \<Rightarrow> (data_type, spec_error) outcome"
  and arrow_fields :: "struct_field list \<Rightarrow> (afield list, spec_error) outcome" where
  "arrow_data_type (Primitive p) = Ok (primitive_data_type p)"
| "arrow_data_type (List (ListType i required t)) =
     rbind (arrow_field ''item'' t (\<not> required) (id_metadata i) (arrow_data_type t)) (\<lambda>f. Ok (DList f))"
| "arrow_data_type (Struct (StructType fs m)) = rbind (arrow_fields fs) (\<lambda>fs'. Ok (DStruct fs'))"
| "arrow_data_type (Map (MapType ki k vi required v)) =
     rbind (arrow_field ''key'' k False (id_metadata ki) (arrow_data_type k)) (\<lambda>key.
     rbind (arrow_field ''value'' v (\<not> required) (id_metadata vi) (arrow_data_type v)) (\<lambda>val.
     Ok (DMap (AField ''entries'' (DStruct [key, val]) False Map.empty) False)))"
| "arrow_fields [] = Ok []"
| "arrow_fields (StructField i name required t doc initial_default write_default # fs) =
     rbind (arrow_field name t (\<not> required) (id_metadata i) (arrow_data_type t)) (\<lambda>f.
     rbind (arrow_fields fs) (\<lambda>fs'. Ok (f # fs')))"

definition struct_arrow_schema :: "struct_type \<Rightarrow> (afield list, spec_error) outcome" where
  "struct_arrow_schema s = arrow_fields (st_fields s)"

section \<open>Types of data types\<close>

definition parse_id :: "string \<Rightarrow> i32 option" where
  "parse_id s = (case parse_i64 s of Some x \<Rightarrow> if in_i32 x then Some x else None | None \<Rightarrow> None)"

definition get_field_id :: "afield \<Rightarrow> (i32, spec_error) outcome" where
  "get_field_id f =
     rbind (ok_or (SNotFound ''Parquet field id of field'') (af_metadata f PARQUET_FIELD_ID_META_KEY)) (\<lambda>x.
     ok_or (SParseInt x) (parse_id x))"

definition extension_type_name :: "afield \<Rightarrow> string option" where
  "extension_type_name f = af_metadata f ARROW_EXTENSION_TYPE_NAME_KEY"

abbreviation is_utc :: "string \<Rightarrow> bool" where
  "is_utc tz \<equiv> tz = ''UTC'' \<or> tz = ''+00:00''"

fun type_of_arrow :: "data_type \<Rightarrow> (ice_type, spec_error) outcome"
  and iceberg_type :: "afield \<Rightarrow> (ice_type, spec_error) outcome"
  and struct_fields :: "afield list \<Rightarrow> (struct_field list, spec_error) outcome" where
  "type_of_arrow DBoolean = Ok (Primitive PBoolean)"
| "type_of_arrow DInt8 = Ok (Primitive PInt)"
| "type_of_arrow DInt16 = Ok (Primitive PInt)"
| "type_of_arrow DInt32 = Ok (Primitive PInt)"
| "type_of_arrow DInt64 = Ok (Primitive PLong)"
| "type_of_arrow DFloat32 = Ok (Primitive PFloat)"
| "type_of_arrow DFloat64 = Ok (Primitive PDouble)"
| "type_of_arrow (DDecimal128 precision scale) = Ok (Primitive (PDecimal precision (as_u32 scale)))"
| "type_of_arrow DDate32 = Ok (Primitive PDate)"
| "type_of_arrow (DTime64 unit) = Ok (Primitive PTime)"
| "type_of_arrow (DTimestamp unit tz) =
     (case tz of
        None \<Rightarrow> Ok (Primitive (if unit = Nanosecond then PTimestampNs else PTimestamp))
      | Some tz \<Rightarrow>
          if is_utc tz then Ok (Primitive (if unit = Nanosecond then PTimestamptzNs else PTimestamptz))
          else Err (SNotSupported ''Arrow timestamp with non-UTC timezone''))"
| "type_of_arrow DUtf8 = Ok (Primitive PString)"
| "type_of_arrow DUtf8View = Ok (Primitive PString)"
| "type_of_arrow (DFixedSizeBinary len) = Ok (Primitive (PFixed (as_u64 len)))"
| "type_of_arrow DBinary = Ok (Primitive PBinary)"
| "type_of_arrow (DStruct fs) = rbind (struct_fields fs) (\<lambda>fs'. Ok (Struct (StructType_new fs')))"
| "type_of_arrow (DList f) =
     rbind (get_field_id f) (\<lambda>i. rbind (iceberg_type f) (\<lambda>t. Ok (List (ListType i (\<not> af_nullable f) t))))"
| "type_of_arrow (DMap (AField name d nullable metadata) keys_sorted) =
     (case d of
        DStruct fs \<Rightarrow>
          (case fs of
             [key, val] \<Rightarrow>
               if af_nullable key then Err (SNotSupported ''Arrow Map keys must be non-nullable'')
               else rbind (get_field_id key) (\<lambda>ki. rbind (get_field_id val) (\<lambda>vi.
                    rbind (iceberg_type key) (\<lambda>k. rbind (iceberg_type val) (\<lambda>v.
                    Ok (Map (MapType ki k vi (\<not> af_nullable val) v))))))
           | _ \<Rightarrow> Err (SNotSupported ''Arrow Map entries must contain key and value fields''))
      | _ \<Rightarrow> Err (SNotSupported ''Arrow Map entries must be a Struct''))"
| "type_of_arrow _ = Err (SNotSupported ''Arrow datatype is not supported'')"
| "iceberg_type (AField name d nullable metadata) =
     (if metadata ARROW_EXTENSION_TYPE_NAME_KEY = Some PARQUET_VARIANT_EXTENSION_NAME
      then (case d of
              DStruct _ \<Rightarrow> Ok (Primitive PVariant)
            | _ \<Rightarrow> Err (SNotSupported ''Arrow arrow.parquet.variant extension requires Struct storage''))
      else type_of_arrow d)"
| "struct_fields [] = Ok []"
| "struct_fields (f # fs) =
     rbind (get_field_id f) (\<lambda>i. rbind (iceberg_type f) (\<lambda>t. rbind (struct_fields fs) (\<lambda>fs'.
     Ok (StructField i (af_name f) (\<not> af_nullable f) t None None None # fs'))))"

definition struct_of_arrow_schema :: "afield list \<Rightarrow> (struct_type, spec_error) outcome" where
  "struct_of_arrow_schema fs = rbind (struct_fields fs) (\<lambda>fs'. Ok (StructType_new fs'))"

section \<open>Field ids\<close>

definition existing_id :: "afield \<Rightarrow> i32 option" where
  "existing_id f = Option.bind (af_metadata f PARQUET_FIELD_ID_META_KEY) parse_id"

abbreviation is_variant_field :: "afield \<Rightarrow> bool" where
  "is_variant_field f \<equiv> extension_type_name f = Some PARQUET_VARIANT_EXTENSION_NAME"

fun reserve_existing_field_ids :: "afield \<Rightarrow> i32 set \<Rightarrow> i32 set"
  and reserve_all :: "afield list \<Rightarrow> i32 set \<Rightarrow> i32 set" where
  "reserve_existing_field_ids (AField name d nullable metadata) reserved =
     (let f = AField name d nullable metadata;
          reserved = (case existing_id f of Some i \<Rightarrow> insert i reserved | None \<Rightarrow> reserved)
      in if is_variant_field f then reserved
         else (case d of
                 DStruct fs \<Rightarrow> reserve_all fs reserved
               | DList g \<Rightarrow> reserve_existing_field_ids g reserved
               | DLargeList g \<Rightarrow> reserve_existing_field_ids g reserved
               | DListView g \<Rightarrow> reserve_existing_field_ids g reserved
               | DLargeListView g \<Rightarrow> reserve_existing_field_ids g reserved
               | DFixedSizeList g _ \<Rightarrow> reserve_existing_field_ids g reserved
               | DMap g _ \<Rightarrow> reserve_existing_field_ids g reserved
               | _ \<Rightarrow> reserved))"
| "reserve_all [] reserved = reserved"
| "reserve_all (f # fs) reserved = reserve_all fs (reserve_existing_field_ids f reserved)"

definition ids_exhausted :: spec_error where
  "ids_exhausted = SNotSupported ''Iceberg field ID space is exhausted''"

text \<open>The search for a free id ends because every step is a checked addition.\<close>

function next_free :: "i32 \<Rightarrow> i32 set \<Rightarrow> (i32, spec_error) outcome" where
  "next_free candidate reserved =
     (if candidate \<notin> reserved then Ok candidate
      else case checked_add_i32 candidate 1 of
             None \<Rightarrow> Err ids_exhausted
           | Some c \<Rightarrow> next_free c reserved)"
  by pat_completeness auto
termination
  by (relation "measure (\<lambda>(c, _). nat (2 ^ 31 - c))") (auto simp: checked_add_i32_def in_i32_def split: if_splits)

declare next_free.simps [simp del]

definition resolve_field_id :: "afield \<Rightarrow> i32 \<Rightarrow> i32 set \<Rightarrow> (i32 \<times> i32 \<times> i32 set, spec_error) outcome" where
  "resolve_field_id f index reserved =
     (case existing_id f of
        Some existing \<Rightarrow> Ok (existing, max index existing, reserved)
      | None \<Rightarrow>
          rbind (ok_or ids_exhausted (checked_add_i32 index 1)) (\<lambda>candidate.
          rbind (next_free candidate reserved) (\<lambda>candidate.
          Ok (candidate, candidate, insert candidate reserved))))"

text \<open>The closure \<open>with_field_id\<close>: the field with the metadata of its source and an id.\<close>

definition with_field_id :: "string \<Rightarrow> data_type \<Rightarrow> bool \<Rightarrow> (string \<rightharpoonup> string) \<Rightarrow> i32 \<Rightarrow> afield" where
  "with_field_id name d nullable metadata i = AField name d nullable (metadata(PARQUET_FIELD_ID_META_KEY \<mapsto> show_int i))"

fun assign_fields_with_ids ::
    "afield list \<Rightarrow> i32 \<Rightarrow> i32 set \<Rightarrow> (afield list \<times> i32 \<times> i32 set, spec_error) outcome"
  and assign_field :: "afield \<Rightarrow> i32 \<Rightarrow> i32 set \<Rightarrow> (afield \<times> i32 \<times> i32 set, spec_error) outcome" where
  "assign_fields_with_ids [] index reserved = Ok ([], index, reserved)"
| "assign_fields_with_ids (f # fs) index reserved =
     rbind (assign_field f index reserved) (\<lambda>(f', index, reserved).
     rbind (assign_fields_with_ids fs index reserved) (\<lambda>(fs', index, reserved). Ok (f' # fs', index, reserved)))"
| "assign_field (AField name d nullable metadata) index reserved =
     rbind (resolve_field_id (AField name d nullable metadata) index reserved) (\<lambda>(i, index, reserved).
     if is_variant_field (AField name d nullable metadata)
     then Ok (with_field_id name d nullable metadata i, index, reserved)
     else (case d of
         DStruct fs \<Rightarrow>
           rbind (assign_fields_with_ids fs index reserved) (\<lambda>(fs', index, reserved).
           Ok (with_field_id name (DStruct fs') nullable metadata i, index, reserved))
       | DList g \<Rightarrow>
           rbind (assign_fields_with_ids [g] index reserved) (\<lambda>(gs, index, reserved).
           Ok (with_field_id name (DList (hd gs)) nullable metadata i, index, reserved))
       | DMap (AField ename ed enullable emetadata) keys_sorted \<Rightarrow>
           (case ed of
              DStruct es \<Rightarrow>
                rbind (assign_fields_with_ids es index reserved) (\<lambda>(es', index, reserved).
                Ok (with_field_id name (DMap (AField ename (DStruct es') enullable emetadata) keys_sorted) nullable metadata i,
                    index, reserved))
            | _ \<Rightarrow> Ok (with_field_id name d nullable metadata i, index, reserved))
       | _ \<Rightarrow> Ok (with_field_id name d nullable metadata i, index, reserved)))"

definition new_fields_with_ids :: "afield list \<Rightarrow> i32 \<Rightarrow> (afield list \<times> i32, spec_error) outcome" where
  "new_fields_with_ids fs index =
     rbind (assign_fields_with_ids fs index (reserve_all fs {})) (\<lambda>(fs', index, reserved). Ok (fs', index))"

section \<open>The ids that are assigned\<close>

text \<open>The fields that the assignment reaches, in its order.\<close>

fun reached :: "afield list \<Rightarrow> afield list"
  and reached_field :: "afield \<Rightarrow> afield list" where
  "reached [] = []"
| "reached (f # fs) = reached_field f @ reached fs"
| "reached_field (AField name d nullable metadata) =
     AField name d nullable metadata #
     (if is_variant_field (AField name d nullable metadata) then []
      else (case d of
          DStruct fs \<Rightarrow> reached fs
        | DList g \<Rightarrow> reached [g]
        | DMap (AField ename ed enullable emetadata) keys_sorted \<Rightarrow> (case ed of DStruct es \<Rightarrow> reached es | _ \<Rightarrow> [])
        | _ \<Rightarrow> []))"

text \<open>The same field but for its type and its id, which an existing id fixes.\<close>

definition identified :: "afield \<Rightarrow> afield \<Rightarrow> bool" where
  "identified f g \<longleftrightarrow>
     af_name g = af_name f \<and> af_nullable g = af_nullable f
     \<and> (af_metadata g)(PARQUET_FIELD_ID_META_KEY := None) = (af_metadata f)(PARQUET_FIELD_ID_META_KEY := None)
     \<and> existing_id g \<noteq> None \<and> (existing_id f \<noteq> None \<longrightarrow> existing_id g = existing_id f)"

definition new_ids :: "afield list \<Rightarrow> afield list \<Rightarrow> i32 list" where
  "new_ids fs gs = map (\<lambda>(f, g). the (existing_id g)) (filter (\<lambda>(f, g). existing_id f = None) (zip fs gs))"

lemma new_ids_simps [simp]:
  "new_ids [] [] = []"
  "new_ids (f # fs) (g # gs) = (if existing_id f = None then [the (existing_id g)] else []) @ new_ids fs gs"
  by (simp_all add: new_ids_def)

lemma new_ids_append: "length fs = length gs \<Longrightarrow> new_ids (fs @ fs') (gs @ gs') = new_ids fs gs @ new_ids fs' gs'"
  by (simp add: new_ids_def)

lemma parse_id_show: "in_i32 i \<Longrightarrow> parse_id (show_int i) = Some i"
  by (simp add: parse_id_def in_i32_def in_i64_def)

lemma parse_id_range: "parse_id s = Some i \<Longrightarrow> in_i32 i"
  by (auto simp: parse_id_def split: option.splits if_splits)

lemma next_free_spec: "next_free c R = Ok i \<Longrightarrow> in_i32 c \<Longrightarrow> c \<le> i \<and> i \<notin> R \<and> in_i32 i"
proof (induction c R rule: next_free.induct)
  case (1 c R)
  show ?case
  proof (cases "c \<in> R")
    case True
    then obtain c' where c': "checked_add_i32 c 1 = Some c'" "next_free c' R = Ok i"
      using "1.prems"(1) by (subst (asm) next_free.simps) (auto split: option.splits)
    then have "c' = c + 1" "in_i32 c'" by (auto simp: checked_add_i32_def split: if_splits)
    then show ?thesis using "1.IH" [OF _ c'(1) c'(2)] True by auto
  next
    case False
    then show ?thesis using "1.prems" by (subst (asm) next_free.simps) auto
  qed
qed

text \<open>What one call does to the ids that are taken.\<close>

definition takes :: "afield list \<Rightarrow> afield list \<Rightarrow> i32 \<Rightarrow> i32 set \<Rightarrow> i32 \<Rightarrow> i32 set \<Rightarrow> bool" where
  "takes fs gs index R index' R' \<longleftrightarrow>
     list_all2 identified fs gs \<and> distinct (new_ids fs gs) \<and> set (new_ids fs gs) \<inter> R = {}
     \<and> R' = R \<union> set (new_ids fs gs) \<and> index \<le> index' \<and> (\<forall>g \<in> set gs. the (existing_id g) \<le> index')
     \<and> (\<forall>i \<in> set (new_ids fs gs). index < i)"

lemma takes_Nil [simp]: "takes [] [] index R index' R' \<longleftrightarrow> R' = R \<and> index \<le> index'"
  by (auto simp: takes_def)

lemma takes_append:
  assumes "takes fs gs index R index1 R1" "takes fs' gs' index1 R1 index' R'"
  shows "takes (fs @ fs') (gs @ gs') index R index' R'"
proof -
  have all: "list_all2 identified fs gs" "list_all2 identified fs' gs'"
    using assms by (simp_all add: takes_def)
  note ids = new_ids_append [OF list_all2_lengthD [OF all(1)], of fs' gs']
  have "index1 < i" if "i \<in> set (new_ids fs' gs')" for i using assms(2) that by (simp add: takes_def)
  moreover have "index \<le> index1" "index1 \<le> index'" using assms by (simp_all add: takes_def)
  ultimately have range: "index \<le> index'" "\<forall>i \<in> set (new_ids (fs @ fs') (gs @ gs')). index < i"
    "\<forall>g \<in> set (gs @ gs'). the (existing_id g) \<le> index'"
    using assms unfolding ids by (fastforce simp: takes_def)+
  moreover have "distinct (new_ids (fs @ fs') (gs @ gs'))" "set (new_ids (fs @ fs') (gs @ gs')) \<inter> R = {}"
    "R' = R \<union> set (new_ids (fs @ fs') (gs @ gs'))"
    using assms unfolding ids by (auto simp: takes_def)
  ultimately show ?thesis using list_all2_appendI [OF all] unfolding takes_def by blast
qed

lemma resolve_takes:
  assumes "resolve_field_id (AField name d nullable metadata) index R = Ok (i, index', R')"
  shows "takes [AField name d nullable metadata] [with_field_id name d' nullable metadata i] index R index' R'"
    "is_variant_field (with_field_id name d' nullable metadata i) \<longleftrightarrow> is_variant_field (AField name d nullable metadata)"
proof -
  let ?f = "AField name d nullable metadata"
  have i: "in_i32 i \<and> (case existing_id ?f of
        Some e \<Rightarrow> i = e \<and> index' = max index e \<and> R' = R
      | None \<Rightarrow> i \<notin> R \<and> index < i \<and> index' = i \<and> R' = insert i R)"
  proof (cases "existing_id ?f")
    case None
    then have "rbind (ok_or ids_exhausted (checked_add_i32 index 1)) (\<lambda>candidate. rbind (next_free candidate R) (\<lambda>candidate.
        Ok (candidate, candidate, insert candidate R))) = Ok (i, index', R')"
      using assms by (simp only: resolve_field_id_def option.case)
    then obtain c j where "ok_or ids_exhausted (checked_add_i32 index 1) = Ok c" and j: "next_free c R = Ok j"
        "Ok (j, j, insert j R) = (Ok (i, index', R') :: (_, spec_error) outcome)"
      unfolding rbind_eq_Ok by blast
    then have c: "checked_add_i32 index 1 = Some c" by (simp add: ok_or_def split: option.splits)
    have eqs: "j = i" "index' = i" "R' = insert i R" using j(2) by auto
    have "c = index + 1" "in_i32 c" using c by (auto simp: checked_add_i32_def split: if_splits)
    then show ?thesis using next_free_spec [OF j(1)] eqs None by simp
  next
    case (Some e)
    then show ?thesis using assms parse_id_range by (auto simp: resolve_field_id_def existing_id_def bind_eq_Some_conv)
  qed
  then have id: "existing_id (with_field_id name d' nullable metadata i) = Some i"
    by (simp add: existing_id_def with_field_id_def parse_id_show)
  show "takes [?f] [with_field_id name d' nullable metadata i] index R index' R'"
    using i id by (auto simp: takes_def identified_def with_field_id_def split: option.splits)
  show "is_variant_field (with_field_id name d' nullable metadata i) \<longleftrightarrow> is_variant_field ?f"
    by (simp add: extension_type_name_def with_field_id_def ARROW_EXTENSION_TYPE_NAME_KEY_def PARQUET_FIELD_ID_META_KEY_def)
qed

lemma reached_with_id:
  assumes "is_variant_field (with_field_id name d nullable metadata i) \<longleftrightarrow> is_variant_field (AField name d' nullable metadata)"
  shows "reached_field (with_field_id name d nullable metadata i) =
    with_field_id name d nullable metadata i #
     (if is_variant_field (AField name d' nullable metadata) then []
      else (case d of
          DStruct fs \<Rightarrow> reached fs
        | DList g \<Rightarrow> reached [g]
        | DMap (AField ename ed enullable emetadata) keys_sorted \<Rightarrow> (case ed of DStruct es \<Rightarrow> reached es | _ \<Rightarrow> [])
        | _ \<Rightarrow> []))"
  using assms by (simp add: with_field_id_def)

lemma takes_Cons:
  "takes [f] [g] index R index1 R1 \<Longrightarrow> takes fs gs index1 R1 index' R' \<Longrightarrow> takes (f # fs) (g # gs) index R index' R'"
  using takes_append [of "[f]" "[g]"] by simp

lemma assign_fields_length: "assign_fields_with_ids fs index R = Ok (fs', index', R') \<Longrightarrow> length fs' = length fs"
  by (induction fs arbitrary: index R fs' index' R') fastforce+

lemma assign_takes:
  "assign_fields_with_ids fs index R = Ok (fs', index', R') \<Longrightarrow> takes (reached fs) (reached fs') index R index' R'"
  "assign_field f index R = Ok (f', index', R') \<Longrightarrow> takes (reached_field f) (reached_field f') index R index' R'"
proof (induction fs index R and f index R arbitrary: fs' index' R' and f' index' R' rule: assign_fields_with_ids_assign_field.induct)
  case (1 index R)
  then show ?case by simp
next
  case (2 f fs index R)
  then obtain f1 index1 R1 fs1 where "assign_field f index R = Ok (f1, index1, R1)"
      "assign_fields_with_ids fs index1 R1 = Ok (fs1, index', R')" "fs' = f1 # fs1" by auto
  then show ?case using "2.IH" takes_append by simp
next
  case (3 name d nullable metadata index R)
  let ?f = "AField name d nullable metadata"
  obtain i index1 R1 where r: "resolve_field_id ?f index R = Ok (i, index1, R1)" using "3.prems" by auto
  note head = resolve_takes(1) [OF r] and var = resolve_takes(2) [OF r] and shape = reached_with_id [OF resolve_takes(2) [OF r]]
  show ?case
  proof (cases "is_variant_field ?f")
    case True
    then show ?thesis using "3.prems" r head [of d] shape [of d] by simp
  next
    case var: False
    consider (rec) fs fs1 d' where "assign_fields_with_ids fs index1 R1 = Ok (fs1, index', R')"
          "f' = with_field_id name d' nullable metadata i" "reached_field ?f = ?f # reached fs" "reached_field f' = f' # reached fs1"
          "takes (reached fs) (reached fs1) index1 R1 index' R'"
      | (leaf) "f' = with_field_id name d nullable metadata i" "index' = index1" "R' = R1"
          "reached_field ?f = [?f]" "reached_field f' = [f']"
    proof (cases d)
      case (DStruct fs)
      then obtain fs1 where fs1: "assign_fields_with_ids fs index1 R1 = Ok (fs1, index', R')"
          "f' = with_field_id name (DStruct fs1) nullable metadata i" using "3.prems" r var by auto
      show ?thesis
        using fs1 "3.IH"(1) [OF r refl refl var DStruct fs1(1)] var shape [of "DStruct fs1"] DStruct by (intro rec [of fs fs1 "DStruct fs1"]) simp_all
    next
      case (DList g)
      then obtain fs1 where fs1: "assign_fields_with_ids [g] index1 R1 = Ok (fs1, index', R')"
          "f' = with_field_id name (DList (hd fs1)) nullable metadata i" using "3.prems" r var by auto
      then obtain g1 where one: "fs1 = [g1]" using assign_fields_length [OF fs1(1)] by (cases fs1) simp_all
      show ?thesis
        using fs1 "3.IH"(2) [OF r refl refl var DList fs1(1)] var shape [of "DList g1"] DList unfolding one
        by (intro rec [of "[g]" "[g1]" "DList g1"]) simp_all
    next
      case (DMap e keys_sorted)
      obtain ename ed enullable emetadata where e: "e = AField ename ed enullable emetadata" by (cases e)
      show ?thesis
      proof (cases "\<exists>es. ed = DStruct es")
        case True
        then obtain es where es: "ed = DStruct es" by blast
        let ?d = "\<lambda>es. DMap (AField ename (DStruct es) enullable emetadata) keys_sorted"
        obtain fs1 where fs1: "assign_fields_with_ids es index1 R1 = Ok (fs1, index', R')"
            "f' = with_field_id name (?d fs1) nullable metadata i" using "3.prems" r var by (auto simp: DMap e es)
        show ?thesis
          using fs1 "3.IH"(3) [OF r refl refl var DMap e es fs1(1)] var shape [of "?d fs1"] DMap e es by (intro rec [of es fs1 "?d fs1"]) simp_all
      next
        case False
        then show ?thesis
          using "3.prems" r var shape [of d] by (intro leaf) (auto simp: DMap e split: data_type.splits)
      qed
    qed (use "3.prems" r var shape [of d] in \<open>auto intro: leaf\<close>)
    then show ?thesis
    proof cases
      case rec
      show ?thesis unfolding rec(3,4) using takes_Cons [OF head [of d'] rec(5)] by (simp add: rec(2))
    next
      case leaf
      then show ?thesis using head [of d] by simp
    qed
  qed
qed

lemma reserve_grows:
  "R \<subseteq> reserve_existing_field_ids f R" "R \<subseteq> reserve_all fs R"
proof (induction f R and fs R rule: reserve_existing_field_ids_reserve_all.induct)
  case (1 name d nullable metadata R)
  let ?f = "AField name d nullable metadata"
  let ?R = "case existing_id ?f of Some i \<Rightarrow> insert i R | None \<Rightarrow> R"
  have "R \<subseteq> ?R" by (auto split: option.split)
  moreover have "?R \<subseteq> reserve_existing_field_ids ?f R"
    using "1.IH" by (cases d; simp add: Let_def del: option.case)
  ultimately show ?case by blast
qed auto

text \<open>The entries of a map are no variant, as in the schemas that Arrow writes.\<close>

definition plain_entries :: "afield list \<Rightarrow> bool" where
  "plain_entries fs \<longleftrightarrow> list_all (\<lambda>f. case af_type f of DMap e _ \<Rightarrow> \<not> is_variant_field e | _ \<Rightarrow> True) fs"

lemma plain_entries_simps [simp]:
  "plain_entries []"
  "plain_entries (f # fs) \<longleftrightarrow> (case af_type f of DMap e _ \<Rightarrow> \<not> is_variant_field e | _ \<Rightarrow> True) \<and> plain_entries fs"
  "plain_entries (fs @ gs) \<longleftrightarrow> plain_entries fs \<and> plain_entries gs"
  by (simp_all add: plain_entries_def)

definition taken_ids :: "afield list \<Rightarrow> i32 set" where
  "taken_ids fs = {i. \<exists>f \<in> set fs. existing_id f = Some i}"

lemma taken_ids_simps [simp]:
  "taken_ids [] = {}" "taken_ids (fs @ gs) = taken_ids fs \<union> taken_ids gs"
  "taken_ids (f # fs) = (case existing_id f of Some i \<Rightarrow> {i} | None \<Rightarrow> {}) \<union> taken_ids fs"
  by (auto simp: taken_ids_def split: option.splits)

lemma reserve_reached:
  "plain_entries (reached fs) \<Longrightarrow> taken_ids (reached fs) \<subseteq> reserve_all fs R"
  "plain_entries (reached_field f) \<Longrightarrow> taken_ids (reached_field f) \<subseteq> reserve_existing_field_ids f R"
proof (induction fs and f arbitrary: R and R rule: reached_reached_field.induct)
  case (2 f fs)
  have "taken_ids (reached_field f) \<subseteq> reserve_all fs (reserve_existing_field_ids f R)"
    using "2.IH"(1) "2.prems" reserve_grows(2) by fastforce
  then show ?case using "2.IH"(2) "2.prems" by simp
next
  case (3 name d nullable metadata)
  let ?f = "AField name d nullable metadata"
  define R1 where "R1 = (case existing_id ?f of Some i \<Rightarrow> insert i R | None \<Rightarrow> R)"
  have here: "(case existing_id ?f of Some i \<Rightarrow> {i} | None \<Rightarrow> {}) \<subseteq> R1" by (simp add: R1_def split: option.split)
  have def: "reserve_existing_field_ids ?f R =
    (if is_variant_field ?f then R1
     else (case d of
             DStruct fs \<Rightarrow> reserve_all fs R1 | DList g \<Rightarrow> reserve_existing_field_ids g R1
           | DLargeList g \<Rightarrow> reserve_existing_field_ids g R1 | DListView g \<Rightarrow> reserve_existing_field_ids g R1
           | DLargeListView g \<Rightarrow> reserve_existing_field_ids g R1 | DFixedSizeList g _ \<Rightarrow> reserve_existing_field_ids g R1
           | DMap g _ \<Rightarrow> reserve_existing_field_ids g R1 | _ \<Rightarrow> R1))"
    by (simp only: reserve_existing_field_ids.simps Let_def R1_def)
  have grows: "R1 \<subseteq> reserve_existing_field_ids ?f R"
    unfolding def using reserve_grows by (simp split: data_type.split)
  have rest: "taken_ids (tl (reached_field ?f)) \<subseteq> reserve_existing_field_ids ?f R"
  proof (cases "is_variant_field ?f")
    case var: False
    show ?thesis
    proof (cases d)
      case (DStruct fs)
      then show ?thesis unfolding def using "3.IH"(1) [OF var DStruct] "3.prems" var by simp
    next
      case (DList g)
      then show ?thesis unfolding def using "3.IH"(2) [OF var DList] "3.prems" var by simp
    next
      case (DMap e keys_sorted)
      obtain ename ed enullable emetadata where e: "e = AField ename ed enullable emetadata" by (cases e)
      show ?thesis
      proof (cases "\<exists>es. ed = DStruct es")
        case True
        then obtain es where es: "ed = DStruct es" by blast
        have "\<not> is_variant_field e" using "3.prems" DMap by simp
        then have "reserve_existing_field_ids ?f R = reserve_all es
            (case existing_id e of Some i \<Rightarrow> insert i R1 | None \<Rightarrow> R1)" unfolding def using DMap var by (simp add: e es Let_def)
        then show ?thesis using "3.IH"(3) [OF var DMap e es] "3.prems" var DMap by (simp add: e es)
      next
        case False
        then show ?thesis using DMap var by (simp add: e split: data_type.splits)
      qed
    qed (use var in simp_all)
  qed simp
  have "reached_field ?f = ?f # tl (reached_field ?f)" by simp
  then have "taken_ids (reached_field ?f) = (case existing_id ?f of Some i \<Rightarrow> {i} | None \<Rightarrow> {}) \<union> taken_ids (tl (reached_field ?f))"
    by (metis taken_ids_simps(3))
  then show ?case using here grows rest by blast
qed simp

lemma distinct_ids:
  "list_all2 identified fs gs \<Longrightarrow> distinct (new_ids fs gs) \<Longrightarrow> set (new_ids fs gs) \<inter> taken_ids fs = {} \<Longrightarrow>
     distinct (filter (\<lambda>i. i \<noteq> None) (map existing_id fs)) \<Longrightarrow> distinct (map existing_id gs)
       \<and> set (map existing_id gs) = Some ` (set (new_ids fs gs) \<union> taken_ids fs)"
proof (induction rule: list_all2_induct)
  case (Cons f fs g gs)
  from Cons.hyps(1) obtain i where i: "existing_id g = Some i" "existing_id f = None \<or> existing_id f = Some i"
    by (auto simp: identified_def)
  have IH: "distinct (map existing_id gs) \<and> set (map existing_id gs) = Some ` (set (new_ids fs gs) \<union> taken_ids fs)"
    using Cons.IH Cons.prems by (auto split: if_splits)
  have old: "Some i \<in> set (filter (\<lambda>i. i \<noteq> None) (map existing_id fs)) \<longleftrightarrow> i \<in> taken_ids fs"
    by (auto simp: taken_ids_def image_iff eq_commute)
  show ?case
  proof (cases "existing_id f")
    case None
    then have "i \<notin> set (new_ids fs gs)" "i \<notin> taken_ids fs" using Cons.prems i by auto
    then show ?thesis using IH None i(1) by auto
  next
    case (Some j)
    then have "i \<notin> set (new_ids fs gs)" "i \<notin> taken_ids fs" using Cons.prems i old by auto
    then show ?thesis using IH Some i by auto
  qed
qed simp

text \<open>
  C16. Field ids stay unique: when the ids are assigned, every field that the assignment reaches gets
  an id, with its name, nullability and other metadata as before, and keeps the one it had; a new id
  is greater than the given index, and if no two reached fields had the same id then none have it
  afterwards. The returned index bounds all ids, so that it can be passed to the next call.
\<close>

theorem assigned_field_ids_are_unique:
  assumes "new_fields_with_ids fs index = Ok (gs, index')" "plain_entries (reached fs)"
    "distinct (filter (\<lambda>i. i \<noteq> None) (map existing_id (reached fs)))"
  shows "list_all2 identified (reached fs) (reached gs) \<and> distinct (map existing_id (reached gs))
    \<and> (\<forall>i \<in> set (new_ids (reached fs) (reached gs)). index < i) \<and> (\<forall>g \<in> set (reached gs). the (existing_id g) \<le> index')"
proof -
  obtain R' where "assign_fields_with_ids fs index (reserve_all fs {}) = Ok (gs, index', R')"
    using assms(1) by (auto simp: new_fields_with_ids_def)
  note t = assign_takes(1) [OF this, unfolded takes_def]
  have "set (new_ids (reached fs) (reached gs)) \<inter> taken_ids (reached fs) = {}"
    using t reserve_reached(1) [OF assms(2), of "{}"] by blast
  then show ?thesis using t distinct_ids assms(3) by blast
qed

definition sample_fields :: "afield list" where
  "sample_fields =
     [AField ''a'' (DList (AField ''item'' DUtf8 True Map.empty)) False (id_metadata 1),
      AField ''b'' DInt32 True Map.empty, AField ''c'' DInt64 True (id_metadata 2)]"

lemma sample_next: "next_free 2 {2, 1} = Ok 3" "next_free 4 {3, 2, 1} = Ok 4"
  by (simp_all add: next_free.simps checked_add_i32_def in_i32_def)

lemma sample_ids: "existing_id (AField n d b (id_metadata 1)) = Some 1" "existing_id (AField n d b (id_metadata 2)) = Some 2"
  "existing_id (AField n d b Map.empty) = None"
  by (simp_all add: existing_id_def id_metadata_def parse_id_show in_i32_def)

lemma sample_plain: "\<not> is_variant_field (AField n d b (id_metadata i))" "\<not> is_variant_field (AField n d b Map.empty)"
  by (simp_all add: extension_type_name_def id_metadata_def ARROW_EXTENSION_TYPE_NAME_KEY_def PARQUET_FIELD_ID_META_KEY_def)

lemma sample_reached:
  "reached sample_fields = [AField ''a'' (DList (AField ''item'' DUtf8 True Map.empty)) False (id_metadata 1),
     AField ''item'' DUtf8 True Map.empty, AField ''b'' DInt32 True Map.empty, AField ''c'' DInt64 True (id_metadata 2)]"
  by (simp add: sample_fields_def sample_plain)

lemma sample_assigned:
  "new_fields_with_ids sample_fields 0 =
     Ok ([with_field_id ''a'' (DList (with_field_id ''item'' DUtf8 True Map.empty 3)) False (id_metadata 1) 1,
          with_field_id ''b'' DInt32 True Map.empty 4, with_field_id ''c'' DInt64 True (id_metadata 2) 2], 4)"
  by (simp add: new_fields_with_ids_def sample_fields_def resolve_field_id_def sample_ids sample_plain sample_next ok_or_def
      checked_add_i32_def in_i32_def)

theorem assigned_field_ids_are_unique_witness:
  "distinct (map existing_id (reached
     [with_field_id ''a'' (DList (with_field_id ''item'' DUtf8 True Map.empty 3)) False (id_metadata 1) 1,
      with_field_id ''b'' DInt32 True Map.empty 4, with_field_id ''c'' DInt64 True (id_metadata 2) 2]))"
  using assigned_field_ids_are_unique [OF sample_assigned] by (simp add: sample_reached sample_ids)

section \<open>Round trip of types\<close>

text \<open>
  What a type becomes: Arrow has no UUID or geometry, and the schemas carry no documentation and no
  defaults. The unknown type has an Arrow type, null, that is not read back.
\<close>

definition arrow_normal_primitive :: "primitive_type \<Rightarrow> primitive_type" where
  "arrow_normal_primitive p = (case p of PUuid \<Rightarrow> PString | PGeometry _ \<Rightarrow> PBinary | PGeography _ _ \<Rightarrow> PBinary | _ \<Rightarrow> p)"

fun arrow_normal :: "ice_type \<Rightarrow> ice_type"
  and arrow_normal_fields :: "struct_field list \<Rightarrow> struct_field list" where
  "arrow_normal (Primitive p) = Primitive (arrow_normal_primitive p)"
| "arrow_normal (List (ListType i required t)) = List (ListType i required (arrow_normal t))"
| "arrow_normal (Struct (StructType fs m)) = Struct (StructType_new (arrow_normal_fields fs))"
| "arrow_normal (Map (MapType ki k vi required v)) = Map (MapType ki (arrow_normal k) vi required (arrow_normal v))"
| "arrow_normal_fields [] = []"
| "arrow_normal_fields (StructField i name required t doc initial_default write_default # fs) =
     StructField i name required (arrow_normal t) None None None # arrow_normal_fields fs"

fun convertible :: "ice_type \<Rightarrow> bool"
  and convertible_fields :: "struct_field list \<Rightarrow> bool" where
  "convertible (Primitive p) \<longleftrightarrow>
     (case p of PUnknown \<Rightarrow> False | PDecimal precision scale \<Rightarrow> precision < 256 \<and> scale < 128 | PFixed n \<Rightarrow> n < 2 ^ 31 | _ \<Rightarrow> True)"
| "convertible (List (ListType i required t)) \<longleftrightarrow> in_i32 i \<and> convertible t"
| "convertible (Struct (StructType fs m)) \<longleftrightarrow> convertible_fields fs"
| "convertible (Map (MapType ki k vi required v)) \<longleftrightarrow> in_i32 ki \<and> in_i32 vi \<and> convertible k \<and> convertible v"
| "convertible_fields [] \<longleftrightarrow> True"
| "convertible_fields (StructField i name required t doc initial_default write_default # fs) \<longleftrightarrow>
     in_i32 i \<and> convertible t \<and> convertible_fields fs"

lemma primitive_back:
  "convertible (Primitive p) \<Longrightarrow> p \<noteq> PVariant \<Longrightarrow> type_of_arrow (primitive_data_type p) = Ok (Primitive (arrow_normal_primitive p))"
  by (cases p) (simp_all add: primitive_data_type_def arrow_normal_primitive_def as_u8_def as_i8_def as_u32_def as_u64_def wrap32_def)

text \<open>The field that a converted type is put in, read back.\<close>

definition comes_back :: "ice_type \<Rightarrow> data_type \<Rightarrow> bool" where
  "comes_back t d \<longleftrightarrow>
     (\<forall>name nullable i. in_i32 i \<longrightarrow>
        (\<exists>md. arrow_field name t nullable (id_metadata i) (Ok d) = Ok (AField name d nullable md)
          \<and> get_field_id (AField name d nullable md) = Ok i \<and> iceberg_type (AField name d nullable md) = Ok (arrow_normal t)))"

lemma comes_backI:
  assumes "if is_variant t then \<exists>fs. d = DStruct fs else type_of_arrow d = Ok (arrow_normal t)"
  shows "comes_back t d"
  using assms
  by (auto simp: comes_back_def arrow_field_def get_field_id_def id_metadata_def ok_or_def parse_id_show is_variant_def
      arrow_normal_primitive_def PARQUET_FIELD_ID_META_KEY_def ARROW_EXTENSION_TYPE_NAME_KEY_def split: if_splits)

lemma arrow_types_come_back:
  "convertible t \<Longrightarrow> \<exists>d. arrow_data_type t = Ok d \<and> comes_back t d"
  "convertible_fields fs \<Longrightarrow> \<exists>gs. arrow_fields fs = Ok gs \<and> struct_fields gs = Ok (arrow_normal_fields fs)"
proof (induction t and fs rule: arrow_data_type_arrow_fields.induct)
  case (1 p)
  then show ?case using primitive_back [of p]
    by (auto intro!: comes_backI simp: is_variant_def primitive_data_type_def)
next
  case (2 i required t)
  then obtain d where d: "arrow_data_type t = Ok d" "comes_back t d" by auto
  obtain md where "arrow_field ''item'' t (\<not> required) (id_metadata i) (Ok d) = Ok (AField ''item'' d (\<not> required) md)"
      "get_field_id (AField ''item'' d (\<not> required) md) = Ok i" "iceberg_type (AField ''item'' d (\<not> required) md) = Ok (arrow_normal t)"
    using d(2) "2.prems" by (fastforce simp: comes_back_def)
  then show ?case by (auto simp: d(1) is_variant_def simp del: iceberg_type.simps intro!: comes_backI)
next
  case (3 fs m)
  then show ?case by (auto simp: is_variant_def intro!: comes_backI)
next
  case (4 ki k vi required v)
  then obtain dk where k: "arrow_data_type k = Ok dk" "comes_back k dk" by auto
  obtain mk where mk: "arrow_field ''key'' k False (id_metadata ki) (Ok dk) = Ok (AField ''key'' dk False mk)"
      "get_field_id (AField ''key'' dk False mk) = Ok ki" "iceberg_type (AField ''key'' dk False mk) = Ok (arrow_normal k)"
    using k(2) "4.prems" by (fastforce simp: comes_back_def)
  then obtain dv where v: "arrow_data_type v = Ok dv" "comes_back v dv" using "4.IH"(2) "4.prems" k(1) by auto
  obtain mv where "arrow_field ''value'' v (\<not> required) (id_metadata vi) (Ok dv) = Ok (AField ''value'' dv (\<not> required) mv)"
      "get_field_id (AField ''value'' dv (\<not> required) mv) = Ok vi" "iceberg_type (AField ''value'' dv (\<not> required) mv) = Ok (arrow_normal v)"
    using v(2) "4.prems" by (fastforce simp: comes_back_def)
  with mk show ?case by (auto simp: k(1) v(1) is_variant_def simp del: iceberg_type.simps intro!: comes_backI)
next
  case 5
  then show ?case by simp
next
  case (6 i name required t doc initial_default write_default fs)
  then obtain d where d: "arrow_data_type t = Ok d" "comes_back t d" by auto
  obtain md where md: "arrow_field name t (\<not> required) (id_metadata i) (Ok d) = Ok (AField name d (\<not> required) md)"
      "get_field_id (AField name d (\<not> required) md) = Ok i" "iceberg_type (AField name d (\<not> required) md) = Ok (arrow_normal t)"
    using d(2) "6.prems" by (fastforce simp: comes_back_def)
  then obtain gs where gs: "arrow_fields fs = Ok gs" "struct_fields gs = Ok (arrow_normal_fields fs)"
    using "6.IH"(2) "6.prems" d(1) by auto
  with md show ?case by (auto simp: d(1) gs simp del: iceberg_type.simps)
qed

text \<open>
  C17. A schema survives Arrow: a struct type without the unknown type, with ids, precisions and
  lengths in range, is converted to Arrow fields, and these are read back as the same struct type,
  with the same ids, names and required fields at every depth, up to the types that Arrow lacks and
  the documentation and defaults.
\<close>

theorem arrow_schema_roundtrip:
  assumes "convertible_fields fs"
  shows "\<exists>gs. struct_arrow_schema (StructType fs m) = Ok gs \<and> struct_of_arrow_schema gs = Ok (StructType_new (arrow_normal_fields fs))"
  using arrow_types_come_back(2) [OF assms] by (auto simp: struct_arrow_schema_def struct_of_arrow_schema_def)

theorem arrow_schema_roundtrip_witness:
  "\<exists>gs. struct_arrow_schema (StructType [StructField 1 ''v'' True (List (ListType 2 False (Primitive PVariant))) None None None] Map.empty) = Ok gs
     \<and> struct_of_arrow_schema gs = Ok (StructType_new [StructField 1 ''v'' True (List (ListType 2 False (Primitive PVariant))) None None None])"
  using arrow_schema_roundtrip [of "[StructField 1 ''v'' True (List (ListType 2 False (Primitive PVariant))) None None None]" Map.empty]
  by (simp add: in_i32_def arrow_normal_primitive_def)

lemma unknown_is_not_read_back: "rbind (arrow_data_type (Primitive PUnknown)) type_of_arrow = Err (SNotSupported ''Arrow datatype is not supported'')"
  by (simp add: primitive_data_type_def)

end
