(* ===== verification/Schema_Sort.thy ===== *)
theory Schema_Sort
  imports Partition_Spec
begin

text \<open>
  Schemas (\<open>iceberg-rust-spec/src/spec/schema.rs\<close>) with their V1 and V2 forms, and sort
  orders (\<open>iceberg-rust-spec/src/spec/sort.rs\<close>).
\<close>

section \<open>Schemas\<close>

definition DEFAULT_SCHEMA_ID :: i32 where
  "DEFAULT_SCHEMA_ID = 0"

record schema =
  sch_schema_id :: i32
  sch_identifier_field_ids :: "i32 list option"
  sch_fields :: struct_type

record schema_v2 =
  sch2_schema_id :: i32
  sch2_identifier_field_ids :: "i32 list option"
  sch2_fields :: struct_type

record schema_v1 =
  sch1_schema_id :: "i32 option"
  sch1_identifier_field_ids :: "i32 list option"
  sch1_fields :: struct_type

definition Schema_from_struct_type :: "struct_type \<Rightarrow> i32 \<Rightarrow> i32 list option \<Rightarrow> schema" where
  "Schema_from_struct_type st sid ids =
     \<lparr>sch_schema_id = sid, sch_identifier_field_ids = ids, sch_fields = st\<rparr>"

definition Schema_project :: "schema \<Rightarrow> i32 list \<Rightarrow> schema" where
  "Schema_project s ids =
     \<lparr>sch_schema_id = sch_schema_id s,
      sch_identifier_field_ids =
        map_option (filter (\<lambda>x. x \<in> set ids)) (sch_identifier_field_ids s),
      sch_fields = StructType_new (filter (\<lambda>f. fid f \<in> set ids) (st_fields (sch_fields s)))\<rparr>"

text \<open>The builder and its calls.\<close>

record schema_builder =
  sb_schema_id :: "i32 option"
  sb_identifier_field_ids :: "i32 list option"
  sb_fields :: "struct_field list option"

definition SchemaBuilder_default :: schema_builder where
  "SchemaBuilder_default = \<lparr>sb_schema_id = None, sb_identifier_field_ids = None, sb_fields = None\<rparr>"

definition with_schema_id :: "i32 \<Rightarrow> schema_builder \<Rightarrow> schema_builder" where
  "with_schema_id sid b = b\<lparr>sb_schema_id := Some sid\<rparr>"

definition with_identifier_field_ids :: "i32 list \<Rightarrow> schema_builder \<Rightarrow> schema_builder" where
  "with_identifier_field_ids ids b = b\<lparr>sb_identifier_field_ids := Some ids\<rparr>"

definition with_struct_field :: "struct_field \<Rightarrow> schema_builder \<Rightarrow> schema_builder" where
  "with_struct_field f b =
     b\<lparr>sb_fields := Some ((case sb_fields b of Some fs \<Rightarrow> fs | None \<Rightarrow> []) @ [f])\<rparr>"

text \<open>\<open>build\<close> takes the identifier ids out of the builder.\<close>

definition SchemaBuilder_build ::
  "schema_builder \<Rightarrow> (schema, spec_error) outcome \<times> schema_builder" where
  "SchemaBuilder_build b =
     (case StructTypeBuilder_build (sb_fields b) None of
        Ok st \<Rightarrow>
          (Ok \<lparr>sch_schema_id = (case sb_schema_id b of Some i \<Rightarrow> i | None \<Rightarrow> DEFAULT_SCHEMA_ID),
               sch_identifier_field_ids = sb_identifier_field_ids b, sch_fields = st\<rparr>,
           b\<lparr>sb_identifier_field_ids := None\<rparr>)
      | Err e \<Rightarrow> (Err (SDeriveBuilder e), b)
      | Panic s \<Rightarrow> (Panic s, b))"

definition Schema_from_V2 :: "schema_v2 \<Rightarrow> (schema, spec_error) outcome" where
  "Schema_from_V2 v =
     Ok \<lparr>sch_schema_id = sch2_schema_id v,
         sch_identifier_field_ids = sch2_identifier_field_ids v, sch_fields = sch2_fields v\<rparr>"

definition Schema_from_V1 :: "schema_v1 \<Rightarrow> (schema, spec_error) outcome" where
  "Schema_from_V1 v =
     Ok \<lparr>sch_schema_id = (case sch1_schema_id v of Some i \<Rightarrow> i | None \<Rightarrow> 0),
         sch_identifier_field_ids = sch1_identifier_field_ids v, sch_fields = sch1_fields v\<rparr>"

definition SchemaV2_from :: "schema \<Rightarrow> schema_v2" where
  "SchemaV2_from s =
     \<lparr>sch2_schema_id = sch_schema_id s,
      sch2_identifier_field_ids = sch_identifier_field_ids s, sch2_fields = sch_fields s\<rparr>"

definition SchemaV1_from :: "schema \<Rightarrow> schema_v1" where
  "SchemaV1_from s =
     \<lparr>sch1_schema_id = Some (sch_schema_id s),
      sch1_identifier_field_ids = sch_identifier_field_ids s, sch1_fields = sch_fields s\<rparr>"

definition SchemaV2_from_V1 :: "schema_v1 \<Rightarrow> schema_v2" where
  "SchemaV2_from_V1 v =
     \<lparr>sch2_schema_id = (case sch1_schema_id v of Some i \<Rightarrow> i | None \<Rightarrow> 0),
      sch2_identifier_field_ids = sch1_identifier_field_ids v, sch2_fields = sch1_fields v\<rparr>"

lemma schema_v2_roundtrip [simp]: "Schema_from_V2 (SchemaV2_from s) = Ok s"
  by (simp add: Schema_from_V2_def SchemaV2_from_def)

lemma schema_v1_roundtrip [simp]: "Schema_from_V1 (SchemaV1_from s) = Ok s"
  by (simp add: Schema_from_V1_def SchemaV1_from_def)

lemma schema_id_from [simp]:
  "sch2_schema_id (SchemaV2_from s) = sch_schema_id s"
  "Schema_from_V2 v = Ok s \<Longrightarrow> sch_schema_id s = sch2_schema_id v"
  by (auto simp: SchemaV2_from_def Schema_from_V2_def)

text \<open>The two ways from a V1 schema to a schema agree.\<close>

lemma schema_v1_via_v2: "Schema_from_V2 (SchemaV2_from_V1 v) = Schema_from_V1 v"
  by (simp add: Schema_from_V2_def SchemaV2_from_V1_def Schema_from_V1_def)

lemma project_lookup:
  assumes "in_i32 k"
  shows "StructType_get (sch_fields (Schema_project s ids)) (i32_as_usize k) =
     Ok (if k \<in> set ids then find (\<lambda>f. fid f = k) (rev (st_fields (sch_fields s))) else None)"
proof -
  have "find (\<lambda>f. fid f = k) (filter (\<lambda>f. fid f \<in> set ids) xs) =
      (if k \<in> set ids then find (\<lambda>f. fid f = k) xs else None)" for xs
    by (induction xs) auto
  then show ?thesis
    using assms by (simp add: Schema_project_def StructType_get_new rev_filter)
qed

text \<open>
  A projection answers a lookup like the schema it was taken from when the id is among
  the projected ids, and with \<open>None\<close> otherwise; projecting twice is projecting on the
  common ids.
\<close>

theorem project_is_restriction:
  assumes "sch_fields s = StructType_new fs" "in_i32 k"
  shows "StructType_get (sch_fields (Schema_project s ids)) (i32_as_usize k) =
           (if k \<in> set ids then StructType_get (sch_fields s) (i32_as_usize k)
            else (Ok None :: (struct_field option, spec_error) outcome))
         \<and> Schema_project (Schema_project s ids) ids' =
           Schema_project s (filter (\<lambda>i. i \<in> set ids') ids)"
proof
  show "StructType_get (sch_fields (Schema_project s ids)) (i32_as_usize k) =
           (if k \<in> set ids then StructType_get (sch_fields s) (i32_as_usize k)
            else (Ok None :: (struct_field option, spec_error) outcome))"
    using assms by (simp add: project_lookup StructType_get_new)
  show "Schema_project (Schema_project s ids) ids' =
           Schema_project s (filter (\<lambda>i. i \<in> set ids') ids)"
    by (simp add: Schema_project_def option.map_comp comp_def conj_commute)
qed

theorem project_is_restriction_witness:
  "StructType_get (sch_fields (Schema_project
       (Schema_from_struct_type (StructType_new
          [StructField 1 ''a'' True (Primitive PInt) None None None,
           StructField 2 ''b'' True (Primitive PLong) None None None]) 0 (Some [1])) [2]))
     (i32_as_usize 1) = (Ok None :: (struct_field option, spec_error) outcome)"
  using project_is_restriction
    [of "Schema_from_struct_type (StructType_new
          [StructField 1 ''a'' True (Primitive PInt) None None None,
           StructField 2 ''b'' True (Primitive PLong) None None None]) 0 (Some [1])"
        "[StructField 1 ''a'' True (Primitive PInt) None None None,
           StructField 2 ''b'' True (Primitive PLong) None None None]" 1 "[2]"]
  by (simp add: Schema_from_struct_type_def in_i32_def)

section \<open>Sort orders\<close>

definition DEFAULT_SORT_ORDER_ID :: i32 where
  "DEFAULT_SORT_ORDER_ID = 0"

datatype sort_direction = Ascending | Descending

datatype null_order = First | Last

record sort_field =
  so_source_id :: i32
  so_transform :: transform
  so_direction :: sort_direction
  so_null_order :: null_order

record sort_order =
  so_order_id :: i32
  so_fields :: "sort_field list"

end
