(* ===== verification/Snapshot.thy ===== *)
theory Snapshot
  imports Schema_Sort
begin

text \<open>
  Snapshots (\<open>iceberg-rust-spec/src/spec/snapshot.rs\<close>): the record itself, its V1, V2 and
  V3 serial forms, the choice among them on both sides of serialization, summaries and
  snapshot references.
\<close>

section \<open>Data\<close>

datatype operation_kind = Append | Replace | Overwrite | Delete

record summary =
  su_operation :: operation_kind
  su_other :: "string \<rightharpoonup> string"

definition Summary_default :: summary where
  "Summary_default = \<lparr>su_operation = Append, su_other = Map.empty\<rparr>"

record snapshot =
  sn_snapshot_id :: i64
  sn_parent_snapshot_id :: "i64 option"
  sn_sequence_number :: i64
  sn_timestamp_ms :: i64
  sn_manifest_list :: string
  sn_summary :: summary
  sn_schema_id :: "i32 option"
  sn_first_row_id :: "i64 option"
  sn_added_rows :: "i64 option"

record snapshot_v3 =
  s3_snapshot_id :: i64
  s3_parent_snapshot_id :: "i64 option"
  s3_sequence_number :: i64
  s3_timestamp_ms :: i64
  s3_manifest_list :: string
  s3_summary :: summary
  s3_schema_id :: "i32 option"
  s3_first_row_id :: "i64 option"
  s3_added_rows :: "i64 option"

record snapshot_v2 =
  s2_snapshot_id :: i64
  s2_parent_snapshot_id :: "i64 option"
  s2_sequence_number :: i64
  s2_timestamp_ms :: i64
  s2_manifest_list :: string
  s2_summary :: summary
  s2_schema_id :: "i32 option"

record snapshot_v1 =
  s1_snapshot_id :: i64
  s1_parent_snapshot_id :: "i64 option"
  s1_timestamp_ms :: i64
  s1_manifest_list :: "string option"
  s1_manifests :: "string list option"
  s1_summary :: "summary option"
  s1_schema_id :: "i32 option"

datatype snapshot_enum = SE_V3 snapshot_v3 | SE_V2 snapshot_v2 | SE_V1 snapshot_v1

datatype snapshot_retention =
    Branch (min_snapshots_to_keep: "i32 option") (max_snapshot_age_ms: "i64 option")
      (max_ref_age_ms: "i64 option")
  | Tag (tag_max_ref_age_ms: i64)

definition SnapshotRetention_default :: snapshot_retention where
  "SnapshotRetention_default = Branch None None None"

record snapshot_reference =
  sr_snapshot_id :: i64
  sr_retention :: snapshot_retention

text \<open>
  \<open>generate_snapshot_id\<close> on the 8 random bytes, read as a word: \<open>i64::abs\<close> wraps on
  \<open>i64::MIN\<close> in a build without overflow checks.
\<close>

definition generate_snapshot_id :: "64 word \<Rightarrow> i64" where
  "generate_snapshot_id bytes = wrap64 \<bar>sint bytes\<bar>"

text \<open>The builder, with the clock and the random bytes as arguments.\<close>

record snapshot_builder =
  snb_snapshot_id :: "i64 option"
  snb_parent_snapshot_id :: "i64 option"
  snb_sequence_number :: "i64 option"
  snb_timestamp_ms :: "i64 option"
  snb_manifest_list :: "string option"
  snb_summary :: "summary option"
  snb_schema_id :: "i32 option"
  snb_first_row_id :: "i64 option"
  snb_added_rows :: "i64 option"

definition SnapshotBuilder_build ::
  "64 word \<Rightarrow> i64 \<Rightarrow> snapshot_builder \<Rightarrow> (snapshot, spec_error) outcome" where
  "SnapshotBuilder_build random now b =
     rbind (ok_or (SDeriveBuilder ''sequence_number'') (snb_sequence_number b)) (\<lambda>seq.
     rbind (ok_or (SDeriveBuilder ''manifest_list'') (snb_manifest_list b)) (\<lambda>ml.
     Ok \<lparr>sn_snapshot_id = (case snb_snapshot_id b of Some i \<Rightarrow> i
                             | None \<Rightarrow> generate_snapshot_id random),
         sn_parent_snapshot_id = snb_parent_snapshot_id b,
         sn_sequence_number = seq,
         sn_timestamp_ms = (case snb_timestamp_ms b of Some t \<Rightarrow> t | None \<Rightarrow> now),
         sn_manifest_list = ml,
         sn_summary = (case snb_summary b of Some s \<Rightarrow> s | None \<Rightarrow> Summary_default),
         sn_schema_id = snb_schema_id b,
         sn_first_row_id = snb_first_row_id b,
         sn_added_rows = snb_added_rows b\<rparr>))"

section \<open>Conversions\<close>

definition Snapshot_from_V3 :: "snapshot_v3 \<Rightarrow> snapshot" where
  "Snapshot_from_V3 v =
     \<lparr>sn_snapshot_id = s3_snapshot_id v, sn_parent_snapshot_id = s3_parent_snapshot_id v,
      sn_sequence_number = s3_sequence_number v, sn_timestamp_ms = s3_timestamp_ms v,
      sn_manifest_list = s3_manifest_list v, sn_summary = s3_summary v,
      sn_schema_id = s3_schema_id v, sn_first_row_id = s3_first_row_id v,
      sn_added_rows = s3_added_rows v\<rparr>"

definition SnapshotV3_from :: "snapshot \<Rightarrow> snapshot_v3" where
  "SnapshotV3_from v =
     \<lparr>s3_snapshot_id = sn_snapshot_id v, s3_parent_snapshot_id = sn_parent_snapshot_id v,
      s3_sequence_number = sn_sequence_number v, s3_timestamp_ms = sn_timestamp_ms v,
      s3_manifest_list = sn_manifest_list v, s3_summary = sn_summary v,
      s3_schema_id = sn_schema_id v, s3_first_row_id = sn_first_row_id v,
      s3_added_rows = sn_added_rows v\<rparr>"

definition Snapshot_from_V1 :: "snapshot_v1 \<Rightarrow> snapshot" where
  "Snapshot_from_V1 v1 =
     \<lparr>sn_snapshot_id = s1_snapshot_id v1, sn_parent_snapshot_id = s1_parent_snapshot_id v1,
      sn_sequence_number = 0, sn_timestamp_ms = s1_timestamp_ms v1,
      sn_manifest_list = (case s1_manifest_list v1 of Some m \<Rightarrow> m | None \<Rightarrow> []),
      sn_summary = (case s1_summary v1 of Some s \<Rightarrow> s | None \<Rightarrow> Summary_default),
      sn_schema_id = s1_schema_id v1, sn_first_row_id = None, sn_added_rows = None\<rparr>"

definition SnapshotV1_from :: "snapshot \<Rightarrow> snapshot_v1" where
  "SnapshotV1_from v1 =
     \<lparr>s1_snapshot_id = sn_snapshot_id v1, s1_parent_snapshot_id = sn_parent_snapshot_id v1,
      s1_timestamp_ms = sn_timestamp_ms v1, s1_manifest_list = Some (sn_manifest_list v1),
      s1_manifests = None, s1_summary = Some (sn_summary v1), s1_schema_id = sn_schema_id v1\<rparr>"

definition Snapshot_from_V2 :: "snapshot_v2 \<Rightarrow> snapshot" where
  "Snapshot_from_V2 v =
     \<lparr>sn_snapshot_id = s2_snapshot_id v, sn_parent_snapshot_id = s2_parent_snapshot_id v,
      sn_sequence_number = s2_sequence_number v, sn_timestamp_ms = s2_timestamp_ms v,
      sn_manifest_list = s2_manifest_list v, sn_summary = s2_summary v,
      sn_schema_id = s2_schema_id v, sn_first_row_id = None, sn_added_rows = None\<rparr>"

definition SnapshotV2_from :: "snapshot \<Rightarrow> snapshot_v2" where
  "SnapshotV2_from v =
     \<lparr>s2_snapshot_id = sn_snapshot_id v, s2_parent_snapshot_id = sn_parent_snapshot_id v,
      s2_sequence_number = sn_sequence_number v, s2_timestamp_ms = sn_timestamp_ms v,
      s2_manifest_list = sn_manifest_list v, s2_summary = sn_summary v,
      s2_schema_id = sn_schema_id v\<rparr>"

definition Snapshot_from_enum :: "snapshot_enum \<Rightarrow> snapshot" where
  "Snapshot_from_enum e =
     (case e of SE_V3 v \<Rightarrow> Snapshot_from_V3 v | SE_V2 v \<Rightarrow> Snapshot_from_V2 v
        | SE_V1 v \<Rightarrow> Snapshot_from_V1 v)"

definition SnapshotEnum_from :: "snapshot \<Rightarrow> snapshot_enum" where
  "SnapshotEnum_from v =
     (if sn_first_row_id v \<noteq> None \<and> sn_added_rows v \<noteq> None then SE_V3 (SnapshotV3_from v)
      else SE_V2 (SnapshotV2_from v))"

section \<open>The JSON form\<close>

text \<open>
  The members a JSON snapshot may have, each with the value serde reads for it. An untagged
  enum is read as the first variant whose required members are there: V3 before V2 before V1.
\<close>

record snapshot_object =
  jo_snapshot_id :: "i64 option"
  jo_parent_snapshot_id :: "i64 option"
  jo_sequence_number :: "i64 option"
  jo_timestamp_ms :: "i64 option"
  jo_manifest_list :: "string option"
  jo_manifests :: "string list option"
  jo_summary :: "summary option"
  jo_schema_id :: "i32 option"
  jo_first_row_id :: "i64 option"
  jo_added_rows :: "i64 option"

definition SnapshotEnum_serialize :: "snapshot_enum \<Rightarrow> snapshot_object" where
  "SnapshotEnum_serialize e =
     (case e of
        SE_V3 v \<Rightarrow>
          \<lparr>jo_snapshot_id = Some (s3_snapshot_id v), jo_parent_snapshot_id = s3_parent_snapshot_id v,
           jo_sequence_number = Some (s3_sequence_number v),
           jo_timestamp_ms = Some (s3_timestamp_ms v),
           jo_manifest_list = Some (s3_manifest_list v), jo_manifests = None,
           jo_summary = Some (s3_summary v), jo_schema_id = s3_schema_id v,
           jo_first_row_id = s3_first_row_id v, jo_added_rows = s3_added_rows v\<rparr>
      | SE_V2 v \<Rightarrow>
          \<lparr>jo_snapshot_id = Some (s2_snapshot_id v), jo_parent_snapshot_id = s2_parent_snapshot_id v,
           jo_sequence_number = Some (s2_sequence_number v),
           jo_timestamp_ms = Some (s2_timestamp_ms v),
           jo_manifest_list = Some (s2_manifest_list v), jo_manifests = None,
           jo_summary = Some (s2_summary v), jo_schema_id = s2_schema_id v,
           jo_first_row_id = None, jo_added_rows = None\<rparr>
      | SE_V1 v \<Rightarrow>
          \<lparr>jo_snapshot_id = Some (s1_snapshot_id v), jo_parent_snapshot_id = s1_parent_snapshot_id v,
           jo_sequence_number = None, jo_timestamp_ms = Some (s1_timestamp_ms v),
           jo_manifest_list = s1_manifest_list v, jo_manifests = s1_manifests v,
           jo_summary = s1_summary v, jo_schema_id = s1_schema_id v,
           jo_first_row_id = None, jo_added_rows = None\<rparr>)"

definition SnapshotEnum_deserialize :: "snapshot_object \<Rightarrow> snapshot_enum option" where
  "SnapshotEnum_deserialize j =
     (case (jo_snapshot_id j, jo_timestamp_ms j) of
        (Some i, Some t) \<Rightarrow>
          Some (case (jo_sequence_number j, jo_manifest_list j, jo_summary j) of
                  (Some q, Some ml, Some s) \<Rightarrow>
                    SE_V3 \<lparr>s3_snapshot_id = i, s3_parent_snapshot_id = jo_parent_snapshot_id j,
                           s3_sequence_number = q, s3_timestamp_ms = t, s3_manifest_list = ml,
                           s3_summary = s, s3_schema_id = jo_schema_id j,
                           s3_first_row_id = jo_first_row_id j, s3_added_rows = jo_added_rows j\<rparr>
                | _ \<Rightarrow>
                    SE_V1 \<lparr>s1_snapshot_id = i, s1_parent_snapshot_id = jo_parent_snapshot_id j,
                           s1_timestamp_ms = t, s1_manifest_list = jo_manifest_list j,
                           s1_manifests = jo_manifests j, s1_summary = jo_summary j,
                           s1_schema_id = jo_schema_id j\<rparr>)
      | _ \<Rightarrow> None)"

lemmas snapshot_conversions =
  Snapshot_from_V3_def SnapshotV3_from_def Snapshot_from_V2_def SnapshotV2_from_def
  Snapshot_from_V1_def SnapshotV1_from_def

lemma snapshot_v3_roundtrip [simp]: "Snapshot_from_V3 (SnapshotV3_from s) = s"
  by (simp add: snapshot_conversions)

lemma snapshot_id_V3 [simp]:
  "s3_snapshot_id (SnapshotV3_from s) = sn_snapshot_id s"
  "sn_snapshot_id (Snapshot_from_V3 v) = s3_snapshot_id v"
  by (simp_all add: snapshot_conversions)

lemma snapshot_id_V2 [simp]:
  "s2_snapshot_id (SnapshotV2_from s) = sn_snapshot_id s"
  "sn_snapshot_id (Snapshot_from_V2 v) = s2_snapshot_id v"
  by (simp_all add: snapshot_conversions)

lemma snapshot_id_V1 [simp]:
  "s1_snapshot_id (SnapshotV1_from s) = sn_snapshot_id s"
  "sn_snapshot_id (Snapshot_from_V1 v) = s1_snapshot_id v"
  by (simp_all add: snapshot_conversions)

lemma snapshot_v2_roundtrip:
  "Snapshot_from_V2 (SnapshotV2_from s) = s\<lparr>sn_first_row_id := None, sn_added_rows := None\<rparr>"
  by (simp add: snapshot_conversions)

lemma snapshot_v1_roundtrip:
  "Snapshot_from_V1 (SnapshotV1_from s) =
     s\<lparr>sn_sequence_number := 0, sn_first_row_id := None, sn_added_rows := None\<rparr>"
  by (simp add: snapshot_conversions)

text \<open>
  A snapshot written as JSON is read back unchanged exactly when it has both or neither
  of its row-lineage bounds; with only one of them, that one is lost.
\<close>

theorem snapshot_json_roundtrip:
  "map_option Snapshot_from_enum (SnapshotEnum_deserialize (SnapshotEnum_serialize (SnapshotEnum_from s)))
     = Some (if sn_first_row_id s \<noteq> None \<and> sn_added_rows s \<noteq> None then s
             else s\<lparr>sn_first_row_id := None, sn_added_rows := None\<rparr>)
   \<and> (map_option Snapshot_from_enum
         (SnapshotEnum_deserialize (SnapshotEnum_serialize (SnapshotEnum_from s))) = Some s
      \<longleftrightarrow> (sn_first_row_id s = None \<longleftrightarrow> sn_added_rows s = None))"
  by (cases "sn_first_row_id s"; cases "sn_added_rows s"; cases s)
    (simp_all add: SnapshotEnum_from_def SnapshotEnum_serialize_def SnapshotEnum_deserialize_def
      Snapshot_from_enum_def snapshot_conversions)

text \<open>
  A generated snapshot id is a non-negative \<open>i64\<close> for every choice of the random bytes
  except one: the bytes of \<open>i64::MIN\<close> give \<open>i64::MIN\<close> itself, which is negative.
\<close>

theorem generate_snapshot_id_sign:
  "in_i64 (generate_snapshot_id r)
   \<and> (generate_snapshot_id r < 0 \<longleftrightarrow> sint r = - (2 ^ 63))
   \<and> (sint r = - (2 ^ 63) \<longrightarrow> generate_snapshot_id r = - (2 ^ 63))"
proof -
  have r: "- (2 ^ 63) \<le> sint r" "sint r < 2 ^ 63"
    using sint_greater_eq [of r] sint_less [of r] by simp_all
  show ?thesis
  proof (cases "sint r = - (2 ^ 63)")
    case True
    then show ?thesis by (simp add: generate_snapshot_id_def wrap64_def in_i64_def)
  next
    case False
    with r have "in_i64 \<bar>sint r\<bar>" by (auto simp: in_i64_def)
    with False show ?thesis
      by (simp add: generate_snapshot_id_def)
  qed
qed

theorem generate_snapshot_id_sign_witness:
  "generate_snapshot_id (2 ^ 63) = - (2 ^ 63)"
  using generate_snapshot_id_sign [of "2 ^ 63"] by simp

end
