(* ===== verification/Table_Metadata.thy ===== *)
theory Table_Metadata
  imports Snapshot
begin

text \<open>
  Table metadata (\<open>iceberg-rust-spec/src/spec/table_metadata.rs\<close>): the record with its
  accessors, the three serial forms, the conversions between them and the record, and
  format versions. \<open>into_values\<close> on a hash map has an unspecified order, so the
  conversions to a serial form take the four orders as an argument.
\<close>

section \<open>Data\<close>

type_synonym uuid = "128 word"

definition MAIN_BRANCH :: string where
  "MAIN_BRANCH = ''main''"

definition DEFAULT_SPEC_ID :: i32 where
  "DEFAULT_SPEC_ID = 0"

definition TM_DEFAULT_SORT_ORDER_ID :: i32 where
  "TM_DEFAULT_SORT_ORDER_ID = 0"

definition WRITE_METADATA_COMPRESSION_CODEC :: string where
  "WRITE_METADATA_COMPRESSION_CODEC = ''write.metadata.compression-codec''"

datatype format_version = V1 | V2 | V3

record metadata_log_entry =
  mlg_metadata_file :: string
  mlg_timestamp_ms :: i64

record snapshot_log_entry =
  slg_snapshot_id :: i64
  slg_timestamp_ms :: i64

record table_metadata =
  tm_format_version :: format_version
  tm_table_uuid :: uuid
  tm_location :: string
  tm_last_sequence_number :: i64
  tm_last_updated_ms :: i64
  tm_last_column_id :: i32
  tm_schemas :: "i32 \<rightharpoonup> schema"
  tm_current_schema_id :: i32
  tm_partition_specs :: "i32 \<rightharpoonup> partition_spec"
  tm_default_spec_id :: i32
  tm_last_partition_id :: i32
  tm_properties :: "string \<rightharpoonup> string"
  tm_current_snapshot_id :: "i64 option"
  tm_snapshots :: "i64 \<rightharpoonup> snapshot"
  tm_snapshot_log :: "snapshot_log_entry list"
  tm_metadata_log :: "metadata_log_entry list"
  tm_sort_orders :: "i32 \<rightharpoonup> sort_order"
  tm_default_sort_order_id :: i32
  tm_refs :: "string \<rightharpoonup> snapshot_reference"
  tm_next_row_id :: i64

section \<open>Accessors\<close>

definition current_schema :: "table_metadata \<Rightarrow> (schema, spec_error) outcome" where
  "current_schema tm =
     ok_or (SInvalidFormat ''schema'') (tm_schemas tm (tm_current_schema_id tm))"

definition schema_of :: "table_metadata \<Rightarrow> i64 \<Rightarrow> (schema, spec_error) outcome" where
  "schema_of tm snapshot_id =
     (let schema_id = (case Option.bind (tm_snapshots tm snapshot_id) sn_schema_id of
                         Some i \<Rightarrow> i | None \<Rightarrow> tm_current_schema_id tm)
      in ok_or (SInvalidFormat ''schema'') (tm_schemas tm schema_id))"

definition default_partition_spec :: "table_metadata \<Rightarrow> (partition_spec, spec_error) outcome" where
  "default_partition_spec tm =
     ok_or (SInvalidFormat ''partition spec'') (tm_partition_specs tm (tm_default_spec_id tm))"

definition default_sort_order :: "table_metadata \<Rightarrow> (sort_order, spec_error) outcome" where
  "default_sort_order tm =
     ok_or (SInvalidFormat ''sort order'') (tm_sort_orders tm (tm_default_sort_order_id tm))"

definition partition_fields ::
  "partition_spec \<Rightarrow> schema \<Rightarrow> (bound_partition_field list, spec_error) outcome" where
  "partition_fields spec sch =
     try_map (\<lambda>pf.
        rbind (StructType_get (sch_fields sch) (i32_as_usize (pf_source_id pf))) (\<lambda>f.
        rbind (ok_or (SNotFound (''Schema field with id '' @ show_int (pf_source_id pf))) f)
          (\<lambda>field. Ok (BoundPartitionField_new pf field))))
      (ps_fields spec)"

definition current_partition_fields ::
  "table_metadata \<Rightarrow> (bound_partition_field list, spec_error) outcome" where
  "current_partition_fields tm =
     rbind (current_schema tm) (\<lambda>sch.
     rbind (default_partition_spec tm) (\<lambda>spec.
     partition_fields spec sch))"

definition partition_fields_of ::
  "table_metadata \<Rightarrow> i64 \<Rightarrow> (bound_partition_field list, spec_error) outcome" where
  "partition_fields_of tm snapshot_id =
     rbind (schema_of tm snapshot_id) (\<lambda>sch.
     rbind (default_partition_spec tm) (\<lambda>spec.
     try_map (\<lambda>pf.
        rbind (StructType_get (sch_fields sch) (i32_as_usize (pf_source_id pf))) (\<lambda>f.
        rbind (ok_or (SNotFound (''Schema field with id '' @ show_int (pf_source_id pf))) f)
          (\<lambda>field. Ok (BoundPartitionField_new pf field))))
      (ps_fields spec)))"

definition ref_snapshot_id :: "table_metadata \<Rightarrow> string option \<Rightarrow> i64 option" where
  "ref_snapshot_id tm snapshot_ref =
     (case snapshot_ref of
        None \<Rightarrow> (case tm_refs tm ''main'' of
                   Some r \<Rightarrow> Some (sr_snapshot_id r)
                 | None \<Rightarrow> tm_current_snapshot_id tm)
      | Some reference \<Rightarrow> map_option sr_snapshot_id (tm_refs tm reference))"

definition hm_is_empty :: "('k \<rightharpoonup> 'v) \<Rightarrow> bool" where
  "hm_is_empty m \<longleftrightarrow> m = Map.empty"

definition current_snapshot ::
  "table_metadata \<Rightarrow> string option \<Rightarrow> (snapshot option, spec_error) outcome" where
  "current_snapshot tm snapshot_ref =
     (case ref_snapshot_id tm snapshot_ref of
        Some snapshot_id \<Rightarrow> Ok (tm_snapshots tm snapshot_id)
      | None \<Rightarrow>
          if hm_is_empty (tm_snapshots tm)
             \<or> (snapshot_ref \<noteq> None \<and> snapshot_ref \<noteq> Some ''main'')
          then Ok None else Err (SInvalidFormat ''snapshots''))"

text \<open>
  The mutable variant returns the slot of the snapshot, here the key under which the caller
  updates it.
\<close>

definition current_snapshot_mut ::
  "table_metadata \<Rightarrow> string option \<Rightarrow> (i64 option, spec_error) outcome" where
  "current_snapshot_mut tm snapshot_ref =
     (let none = (if hm_is_empty (tm_snapshots tm)
                     \<or> (snapshot_ref \<noteq> None \<and> snapshot_ref \<noteq> Some ''main'')
                  then Ok None else Err (SInvalidFormat ''snapshots''))
      in case ref_snapshot_id tm snapshot_ref of
           Some i \<Rightarrow> if i = -1 then none
                     else Ok (if tm_snapshots tm i = None then None else Some i)
         | None \<Rightarrow> none)"

definition sequence_number :: "table_metadata \<Rightarrow> i64 \<Rightarrow> i64 option" where
  "sequence_number tm snapshot_id = map_option sn_sequence_number (tm_snapshots tm snapshot_id)"

definition metadata_is_gzipped :: "(string \<rightharpoonup> string) \<Rightarrow> bool" where
  "metadata_is_gzipped properties =
     (case properties WRITE_METADATA_COMPRESSION_CODEC of
        None \<Rightarrow> False
      | Some codec \<Rightarrow> eq_ignore_ascii_case (str_trim codec) ''gzip'')"

text \<open>\<open>{:05}\<close>: padded with zeros to five characters, the sign first.\<close>

definition pad_left :: "nat \<Rightarrow> string \<Rightarrow> string" where
  "pad_left n s = replicate (n - length s) (CHR ''0'') @ s"

definition show_pad5 :: "int \<Rightarrow> string" where
  "show_pad5 x = (if x < 0 then CHR ''-'' # pad_left 4 (show_nat (nat (- x)))
                  else pad_left 5 (show_nat (nat x)))"

text \<open>
  \<open>new_metadata_location\<close> on a location, a sequence number and properties (what the
  borrowed tabular metadata supplies), the fresh UUID given as its text.
\<close>

definition new_metadata_location ::
  "string \<Rightarrow> string \<Rightarrow> i64 \<Rightarrow> (string \<rightharpoonup> string) \<Rightarrow> string" where
  "new_metadata_location transaction_uuid location version properties =
     location @ ''/metadata/'' @ show_pad5 version @ ''-'' @ transaction_uuid @ ''.''
       @ (if metadata_is_gzipped properties then ''gz.metadata.json'' else ''metadata.json'')"

section \<open>Serial forms\<close>

record table_metadata_v2 =
  m2_table_uuid :: uuid
  m2_location :: string
  m2_last_sequence_number :: i64
  m2_last_updated_ms :: i64
  m2_last_column_id :: i32
  m2_schemas :: "schema_v2 list"
  m2_current_schema_id :: i32
  m2_partition_specs :: "partition_spec list"
  m2_default_spec_id :: i32
  m2_last_partition_id :: i32
  m2_properties :: "string \<rightharpoonup> string"
  m2_current_snapshot_id :: "i64 option"
  m2_snapshots :: "snapshot_v2 list option"
  m2_snapshot_log :: "snapshot_log_entry list"
  m2_metadata_log :: "metadata_log_entry list"
  m2_sort_orders :: "sort_order list"
  m2_default_sort_order_id :: i32
  m2_refs :: "string \<rightharpoonup> snapshot_reference"

record table_metadata_v3 =
  m3_table_uuid :: uuid
  m3_location :: string
  m3_next_row_id :: i64
  m3_last_sequence_number :: i64
  m3_last_updated_ms :: i64
  m3_last_column_id :: i32
  m3_schemas :: "schema_v2 list"
  m3_current_schema_id :: i32
  m3_partition_specs :: "partition_spec list"
  m3_default_spec_id :: i32
  m3_last_partition_id :: i32
  m3_properties :: "string \<rightharpoonup> string"
  m3_current_snapshot_id :: "i64 option"
  m3_snapshots :: "snapshot_v3 list option"
  m3_snapshot_log :: "snapshot_log_entry list"
  m3_metadata_log :: "metadata_log_entry list"
  m3_sort_orders :: "sort_order list"
  m3_default_sort_order_id :: i32
  m3_refs :: "string \<rightharpoonup> snapshot_reference"

record table_metadata_v1 =
  m1_table_uuid :: "uuid option"
  m1_location :: string
  m1_last_updated_ms :: i64
  m1_last_column_id :: i32
  m1_schema :: schema_v1
  m1_schemas :: "schema_v1 list option"
  m1_current_schema_id :: "i32 option"
  m1_partition_spec :: "partition_field list"
  m1_partition_specs :: "partition_spec list option"
  m1_default_spec_id :: "i32 option"
  m1_last_partition_id :: "i32 option"
  m1_properties :: "string \<rightharpoonup> string"
  m1_current_snapshot_id :: "i64 option"
  m1_snapshots :: "snapshot_v1 list option"
  m1_snapshot_log :: "snapshot_log_entry list"
  m1_metadata_log :: "metadata_log_entry list"
  m1_sort_orders :: "sort_order list option"
  m1_default_sort_order_id :: "i32 option"

text \<open>
  The version number is a member of the JSON object that accepts one value only; it is the
  constructor here.
\<close>

datatype table_metadata_enum =
    TE_V3 table_metadata_v3 | TE_V2 table_metadata_v2 | TE_V1 table_metadata_v1

definition VersionNumber_deserialize :: "nat \<Rightarrow> nat \<Rightarrow> (unit, de_error) outcome" where
  "VersionNumber_deserialize v found =
     (if found = v then Ok () else Err (Custom ''Invalid Version''))"

text \<open>\<open>entry(k).or_insert(v)\<close>.\<close>

definition or_insert :: "'k \<Rightarrow> 'v \<Rightarrow> ('k \<rightharpoonup> 'v) \<Rightarrow> ('k \<rightharpoonup> 'v)" where
  "or_insert k v m = (case m k of Some _ \<Rightarrow> m | None \<Rightarrow> m(k \<mapsto> v))"

definition TableMetadata_from_V3 :: "table_metadata_v3 \<Rightarrow> (table_metadata, spec_error) outcome" where
  "TableMetadata_from_V3 value =
     (let current_snapshot_id =
            (if m3_current_snapshot_id value = Some (-1) then None
             else m3_current_snapshot_id value)
      in rbind (try_map (\<lambda>s. rbind (Schema_from_V2 s) (\<lambda>x. Ok (sch2_schema_id s, x)))
                 (m3_schemas value)) (\<lambda>kvs.
         let schemas = hm_from_iter kvs;
             refs = (case current_snapshot_id of
                       Some i \<Rightarrow> or_insert MAIN_BRANCH
                         \<lparr>sr_snapshot_id = i, sr_retention = SnapshotRetention_default\<rparr>
                         (m3_refs value)
                     | None \<Rightarrow> m3_refs value)
         in rbind (if schemas (m3_current_schema_id value) \<noteq> None
                   then Ok (m3_current_schema_id value)
                   else Err (SInvalidFormat ''schema'')) (\<lambda>current_schema_id.
         Ok \<lparr>tm_format_version = V3,
             tm_table_uuid = m3_table_uuid value,
             tm_location = m3_location value,
             tm_last_sequence_number = m3_last_sequence_number value,
             tm_last_updated_ms = m3_last_updated_ms value,
             tm_last_column_id = m3_last_column_id value,
             tm_schemas = schemas,
             tm_current_schema_id = current_schema_id,
             tm_partition_specs =
               hm_from_iter (map (\<lambda>x. (ps_spec_id x, x)) (m3_partition_specs value)),
             tm_default_spec_id = m3_default_spec_id value,
             tm_last_partition_id = m3_last_partition_id value,
             tm_properties = m3_properties value,
             tm_current_snapshot_id = current_snapshot_id,
             tm_snapshots =
               (case m3_snapshots value of
                  Some snapshots \<Rightarrow>
                    hm_from_iter (map (\<lambda>x. (s3_snapshot_id x, Snapshot_from_V3 x)) snapshots)
                | None \<Rightarrow> Map.empty),
             tm_snapshot_log = m3_snapshot_log value,
             tm_metadata_log = m3_metadata_log value,
             tm_sort_orders =
               hm_from_iter (map (\<lambda>x. (so_order_id x, x)) (m3_sort_orders value)),
             tm_default_sort_order_id = m3_default_sort_order_id value,
             tm_refs = refs,
             tm_next_row_id = m3_next_row_id value\<rparr>)))"

definition TableMetadata_from_V2 :: "table_metadata_v2 \<Rightarrow> (table_metadata, spec_error) outcome" where
  "TableMetadata_from_V2 value =
     (let current_snapshot_id =
            (if m2_current_snapshot_id value = Some (-1) then None
             else m2_current_snapshot_id value)
      in rbind (try_map (\<lambda>s. rbind (Schema_from_V2 s) (\<lambda>x. Ok (sch2_schema_id s, x)))
                 (m2_schemas value)) (\<lambda>kvs.
         let schemas = hm_from_iter kvs;
             refs = (case current_snapshot_id of
                       Some i \<Rightarrow> or_insert MAIN_BRANCH
                         \<lparr>sr_snapshot_id = i, sr_retention = SnapshotRetention_default\<rparr>
                         (m2_refs value)
                     | None \<Rightarrow> m2_refs value)
         in rbind (if schemas (m2_current_schema_id value) \<noteq> None
                   then Ok (m2_current_schema_id value)
                   else Err (SInvalidFormat ''schema'')) (\<lambda>current_schema_id.
         Ok \<lparr>tm_format_version = V2,
             tm_table_uuid = m2_table_uuid value,
             tm_location = m2_location value,
             tm_last_sequence_number = m2_last_sequence_number value,
             tm_last_updated_ms = m2_last_updated_ms value,
             tm_last_column_id = m2_last_column_id value,
             tm_schemas = schemas,
             tm_current_schema_id = current_schema_id,
             tm_partition_specs =
               hm_from_iter (map (\<lambda>x. (ps_spec_id x, x)) (m2_partition_specs value)),
             tm_default_spec_id = m2_default_spec_id value,
             tm_last_partition_id = m2_last_partition_id value,
             tm_properties = m2_properties value,
             tm_current_snapshot_id = current_snapshot_id,
             tm_snapshots =
               (case m2_snapshots value of
                  Some snapshots \<Rightarrow>
                    hm_from_iter (map (\<lambda>x. (s2_snapshot_id x, Snapshot_from_V2 x)) snapshots)
                | None \<Rightarrow> Map.empty),
             tm_snapshot_log = m2_snapshot_log value,
             tm_metadata_log = m2_metadata_log value,
             tm_sort_orders =
               hm_from_iter (map (\<lambda>x. (so_order_id x, x)) (m2_sort_orders value)),
             tm_default_sort_order_id = m2_default_sort_order_id value,
             tm_refs = refs,
             tm_next_row_id = 0\<rparr>)))"

text \<open>
  The V1 form: the ids that may be missing are the position in the list, or the largest
  key. A V1 schema without an id keeps \<open>0\<close> as its own id whatever key it gets.
\<close>

definition TableMetadata_from_V1 :: "table_metadata_v1 \<Rightarrow> (table_metadata, spec_error) outcome" where
  "TableMetadata_from_V1 value =
     rbind (case m1_schemas value of
              Some schemas \<Rightarrow>
                try_map (\<lambda>(i, s). rbind (Schema_from_V1 s) (\<lambda>x.
                     Ok ((case sch1_schema_id s of Some k \<Rightarrow> k | None \<Rightarrow> usize_as_i32 i), x)))
                  (enumerate 0 schemas)
            | None \<Rightarrow>
                Ok (case Schema_from_V1 (m1_schema value) of
                      Ok x \<Rightarrow> [((case sch1_schema_id (m1_schema value) of
                                  Some k \<Rightarrow> k | None \<Rightarrow> 0), x)]
                    | _ \<Rightarrow> [])) (\<lambda>skvs.
     let specs = (case m1_partition_specs value of
                    Some ss \<Rightarrow> ss
                  | None \<Rightarrow> [\<lparr>ps_spec_id = DEFAULT_SPEC_ID, ps_fields = m1_partition_spec value\<rparr>]);
         pkvs = map (\<lambda>x. (ps_spec_id x, x)) specs;
         max_spec = (case iter_max (map fst pkvs) of Some k \<Rightarrow> k | None \<Rightarrow> 0)
     in Ok \<lparr>tm_format_version = V1,
            tm_table_uuid = (case m1_table_uuid value of Some u \<Rightarrow> u | None \<Rightarrow> 0),
            tm_location = m1_location value,
            tm_last_sequence_number = 0,
            tm_last_updated_ms = m1_last_updated_ms value,
            tm_last_column_id = m1_last_column_id value,
            tm_schemas = hm_from_iter skvs,
            tm_current_schema_id =
              (case m1_current_schema_id value of
                 Some k \<Rightarrow> k
               | None \<Rightarrow> (case iter_max (map fst skvs) of Some k \<Rightarrow> k | None \<Rightarrow> 0)),
            tm_partition_specs = hm_from_iter pkvs,
            tm_default_spec_id =
              (case m1_default_spec_id value of Some k \<Rightarrow> k | None \<Rightarrow> max_spec),
            tm_last_partition_id =
              (case m1_last_partition_id value of Some k \<Rightarrow> k | None \<Rightarrow> max_spec),
            tm_properties = m1_properties value,
            tm_current_snapshot_id =
              (case m1_current_snapshot_id value of
                 Some i \<Rightarrow> if i = -1 then None else Some i
               | None \<Rightarrow> None),
            tm_snapshots =
              (case m1_snapshots value of
                 Some snapshots \<Rightarrow>
                   hm_from_iter (map (\<lambda>x. (s1_snapshot_id x, Snapshot_from_V1 x)) snapshots)
               | None \<Rightarrow> Map.empty),
            tm_snapshot_log = m1_snapshot_log value,
            tm_metadata_log = m1_metadata_log value,
            tm_sort_orders =
              (case m1_sort_orders value of
                 Some sort_orders \<Rightarrow> hm_from_iter (map (\<lambda>x. (so_order_id x, x)) sort_orders)
               | None \<Rightarrow> Map.empty),
            tm_default_sort_order_id =
              (case m1_default_sort_order_id value of
                 Some k \<Rightarrow> k | None \<Rightarrow> TM_DEFAULT_SORT_ORDER_ID),
            tm_refs =
              (case m1_current_snapshot_id value of
                 Some i \<Rightarrow> if i \<noteq> -1
                   then [MAIN_BRANCH \<mapsto> \<lparr>sr_snapshot_id = i, sr_retention = Branch None None None\<rparr>]
                   else Map.empty
               | None \<Rightarrow> Map.empty),
            tm_next_row_id = 0\<rparr>)"

definition TableMetadata_from_enum :: "table_metadata_enum \<Rightarrow> (table_metadata, spec_error) outcome" where
  "TableMetadata_from_enum e =
     (case e of TE_V3 v \<Rightarrow> TableMetadata_from_V3 v | TE_V2 v \<Rightarrow> TableMetadata_from_V2 v
        | TE_V1 v \<Rightarrow> TableMetadata_from_V1 v)"

text \<open>The orders in which the four hash maps of one metadata value are traversed.\<close>

record tm_orders =
  ord_schemas :: "i32 list"
  ord_specs :: "i32 list"
  ord_snapshots :: "i64 list"
  ord_sort_orders :: "i32 list"

definition admissible :: "tm_orders \<Rightarrow> table_metadata \<Rightarrow> bool" where
  "admissible ks tm \<longleftrightarrow>
     traversal (ord_schemas ks) (tm_schemas tm) \<and> traversal (ord_specs ks) (tm_partition_specs tm)
     \<and> traversal (ord_snapshots ks) (tm_snapshots tm)
     \<and> traversal (ord_sort_orders ks) (tm_sort_orders tm)"

definition snapshot_id_or_minus_one :: "i64 option \<Rightarrow> i64 option" where
  "snapshot_id_or_minus_one i = (case i of Some x \<Rightarrow> Some x | None \<Rightarrow> Some (-1))"

definition TableMetadataV3_from :: "tm_orders \<Rightarrow> table_metadata \<Rightarrow> table_metadata_v3" where
  "TableMetadataV3_from ks v =
     \<lparr>m3_table_uuid = tm_table_uuid v,
      m3_location = tm_location v,
      m3_next_row_id = tm_next_row_id v,
      m3_last_sequence_number = tm_last_sequence_number v,
      m3_last_updated_ms = tm_last_updated_ms v,
      m3_last_column_id = tm_last_column_id v,
      m3_schemas = map SchemaV2_from (hm_values (ord_schemas ks) (tm_schemas v)),
      m3_current_schema_id = tm_current_schema_id v,
      m3_partition_specs = hm_values (ord_specs ks) (tm_partition_specs v),
      m3_default_spec_id = tm_default_spec_id v,
      m3_last_partition_id = tm_last_partition_id v,
      m3_properties = tm_properties v,
      m3_current_snapshot_id = snapshot_id_or_minus_one (tm_current_snapshot_id v),
      m3_snapshots = Some (map SnapshotV3_from (hm_values (ord_snapshots ks) (tm_snapshots v))),
      m3_snapshot_log = tm_snapshot_log v,
      m3_metadata_log = tm_metadata_log v,
      m3_sort_orders = hm_values (ord_sort_orders ks) (tm_sort_orders v),
      m3_default_sort_order_id = tm_default_sort_order_id v,
      m3_refs = tm_refs v\<rparr>"

definition TableMetadataV2_from :: "tm_orders \<Rightarrow> table_metadata \<Rightarrow> table_metadata_v2" where
  "TableMetadataV2_from ks v =
     \<lparr>m2_table_uuid = tm_table_uuid v,
      m2_location = tm_location v,
      m2_last_sequence_number = tm_last_sequence_number v,
      m2_last_updated_ms = tm_last_updated_ms v,
      m2_last_column_id = tm_last_column_id v,
      m2_schemas = map SchemaV2_from (hm_values (ord_schemas ks) (tm_schemas v)),
      m2_current_schema_id = tm_current_schema_id v,
      m2_partition_specs = hm_values (ord_specs ks) (tm_partition_specs v),
      m2_default_spec_id = tm_default_spec_id v,
      m2_last_partition_id = tm_last_partition_id v,
      m2_properties = tm_properties v,
      m2_current_snapshot_id = snapshot_id_or_minus_one (tm_current_snapshot_id v),
      m2_snapshots = Some (map SnapshotV2_from (hm_values (ord_snapshots ks) (tm_snapshots v))),
      m2_snapshot_log = tm_snapshot_log v,
      m2_metadata_log = tm_metadata_log v,
      m2_sort_orders = hm_values (ord_sort_orders ks) (tm_sort_orders v),
      m2_default_sort_order_id = tm_default_sort_order_id v,
      m2_refs = tm_refs v\<rparr>"

definition TableMetadataV1_from ::
  "tm_orders \<Rightarrow> table_metadata \<Rightarrow> (table_metadata_v1, spec_error) outcome" where
  "TableMetadataV1_from ks v =
     rbind (unwrap (tm_schemas v (tm_current_schema_id v))) (\<lambda>sch.
     Ok \<lparr>m1_table_uuid = Some (tm_table_uuid v),
         m1_location = tm_location v,
         m1_last_updated_ms = tm_last_updated_ms v,
         m1_last_column_id = tm_last_column_id v,
         m1_schema = SchemaV1_from sch,
         m1_schemas = Some (map SchemaV1_from (hm_values (ord_schemas ks) (tm_schemas v))),
         m1_current_schema_id = Some (tm_current_schema_id v),
         m1_partition_spec =
           (case tm_partition_specs v (tm_default_spec_id v) of
              Some x \<Rightarrow> ps_fields x | None \<Rightarrow> []),
         m1_partition_specs = Some (hm_values (ord_specs ks) (tm_partition_specs v)),
         m1_default_spec_id = Some (tm_default_spec_id v),
         m1_last_partition_id = Some (tm_last_partition_id v),
         m1_properties = tm_properties v,
         m1_current_snapshot_id = snapshot_id_or_minus_one (tm_current_snapshot_id v),
         m1_snapshots = Some (map SnapshotV1_from (hm_values (ord_snapshots ks) (tm_snapshots v))),
         m1_snapshot_log = tm_snapshot_log v,
         m1_metadata_log = tm_metadata_log v,
         m1_sort_orders = Some (hm_values (ord_sort_orders ks) (tm_sort_orders v)),
         m1_default_sort_order_id = Some (tm_default_sort_order_id v)\<rparr>)"

definition TableMetadataEnum_from ::
  "tm_orders \<Rightarrow> table_metadata \<Rightarrow> (table_metadata_enum, spec_error) outcome" where
  "TableMetadataEnum_from ks v =
     (case tm_format_version v of
        V3 \<Rightarrow> Ok (TE_V3 (TableMetadataV3_from ks v))
      | V2 \<Rightarrow> Ok (TE_V2 (TableMetadataV2_from ks v))
      | V1 \<Rightarrow> rbind (TableMetadataV1_from ks v) (\<lambda>x. Ok (TE_V1 x)))"

section \<open>Format versions\<close>

definition FormatVersion_try_from_u8 :: "nat \<Rightarrow> (format_version, spec_error) outcome" where
  "FormatVersion_try_from_u8 value =
     (if value = 1 then Ok V1 else if value = 2 then Ok V2 else if value = 3 then Ok V3
      else Err (SConversion ''u8'' ''format version''))"

definition u8_from_FormatVersion :: "format_version \<Rightarrow> nat" where
  "u8_from_FormatVersion value =
     (case value of V1 \<Rightarrow> of_char (CHR ''1'') | V2 \<Rightarrow> of_char (CHR ''2'') | V3 \<Rightarrow> of_char (CHR ''3''))"

definition i32_from_FormatVersion :: "format_version \<Rightarrow> i32" where
  "i32_from_FormatVersion value = (case value of V1 \<Rightarrow> 1 | V2 \<Rightarrow> 2 | V3 \<Rightarrow> 3)"

text \<open>
  Finding: converting a format version to \<open>u8\<close> and back always fails, because one
  direction uses the ASCII digit and the other the number; through \<open>i32\<close> it round-trips.
\<close>

theorem format_version_u8_no_roundtrip:
  "FormatVersion_try_from_u8 (u8_from_FormatVersion v) = Err (SConversion ''u8'' ''format version'')
   \<and> FormatVersion_try_from_u8 (nat (i32_from_FormatVersion v)) = Ok v"
  by (cases v) (simp_all add: FormatVersion_try_from_u8_def u8_from_FormatVersion_def
      i32_from_FormatVersion_def)

section \<open>Round trips\<close>

text \<open>
  The invariant of a metadata record: each map holds its values under their own ids, and
  the current schema exists.
\<close>

definition keyed :: "('v \<Rightarrow> 'k) \<Rightarrow> ('k \<rightharpoonup> 'v) \<Rightarrow> bool" where
  "keyed key m \<longleftrightarrow> (\<forall>k v. m k = Some v \<longrightarrow> key v = k)"

definition tm_keyed :: "table_metadata \<Rightarrow> bool" where
  "tm_keyed tm \<longleftrightarrow>
     keyed sch_schema_id (tm_schemas tm) \<and> keyed ps_spec_id (tm_partition_specs tm)
     \<and> keyed sn_snapshot_id (tm_snapshots tm) \<and> keyed so_order_id (tm_sort_orders tm)"

definition main_ref_present :: "table_metadata \<Rightarrow> bool" where
  "main_ref_present tm \<longleftrightarrow>
     tm_current_snapshot_id tm \<noteq> Some (-1)
     \<and> (tm_current_snapshot_id tm \<noteq> None \<longrightarrow> tm_refs tm MAIN_BRANCH \<noteq> None)"

lemma keyed_roundtrip:
  "traversal ks m \<Longrightarrow> keyed key m \<Longrightarrow> hm_from_iter (map (\<lambda>v. (key v, v)) (hm_values ks m)) = m"
  by (rule hm_from_values) (auto simp: keyed_def)

lemma keyed_empty [simp]: "keyed key Map.empty"
  by (simp add: keyed_def)

lemma keyed_update [simp]: "keyed key m \<Longrightarrow> key v = k \<Longrightarrow> keyed key (m(k \<mapsto> v))"
  by (auto simp: keyed_def)

lemma keyed_delete [simp]: "keyed key m \<Longrightarrow> keyed key (m(k := None))"
  by (auto simp: keyed_def)

lemma hm_from_iter_mem: "hm_from_iter kvs k = Some v \<Longrightarrow> (k, v) \<in> set kvs"
  unfolding hm_from_iter_def by (drule map_of_SomeD) simp

lemma keyed_from_iter: "keyed key (hm_from_iter (map (\<lambda>v. (key v, v)) vs))"
  by (auto simp: keyed_def dest: hm_from_iter_mem)

text \<open>A map whose values are changed in passing, their keys not.\<close>

lemma keyed_map_roundtrip:
  assumes "traversal ks m" "keyed key m" "\<And>v. key' (f v) = key v" "\<And>v. g (f v) = h v"
  shows "hm_from_iter (map (\<lambda>v. (key' v, g v)) (map f (hm_values ks m))) = map_option h \<circ> m"
proof -
  let ?kvs = "map (\<lambda>v. (key v, v)) (hm_values ks m)"
  have 1: "map (\<lambda>v. (key' v, g v)) (map f (hm_values ks m)) = map (\<lambda>(k, v). (k, h v)) ?kvs"
    using assms(3,4) by simp
  have 2: "hm_from_iter (map (\<lambda>(k, v). (k, h v)) kvs) = map_option h \<circ> hm_from_iter kvs"
    for kvs :: "('a \<times> 'b) list"
    by (simp add: hm_from_iter_def rev_map map_of_map)
  show ?thesis
    unfolding 1 2 keyed_roundtrip [OF assms(1,2)] ..
qed

lemma schemas_roundtrip:
  "try_map (\<lambda>s. rbind (Schema_from_V2 s) (\<lambda>x. Ok (sch2_schema_id s, x))) (map SchemaV2_from ss)
     = Ok (map (\<lambda>s. (sch_schema_id s, s)) ss)"
  by (induction ss) auto

lemma map_option_id [simp]: "map_option (\<lambda>x. x) \<circ> m = m"
  by (rule ext) (simp add: option.map_ident)

lemma table_metadata_v3_roundtrip_lemma:
  assumes "admissible ks tm" "tm_keyed tm" "main_ref_present tm"
    "tm_schemas tm (tm_current_schema_id tm) \<noteq> None" "tm_format_version tm = V3"
  shows "rbind (TableMetadataEnum_from ks tm) TableMetadata_from_enum = Ok tm"
proof -
  have m: "hm_from_iter (map (\<lambda>s. (sch_schema_id s, s)) (hm_values (ord_schemas ks) (tm_schemas tm))) = tm_schemas tm"
    "hm_from_iter (map (\<lambda>x. (ps_spec_id x, x)) (hm_values (ord_specs ks) (tm_partition_specs tm))) = tm_partition_specs tm"
    "hm_from_iter (map (\<lambda>x. (so_order_id x, x)) (hm_values (ord_sort_orders ks) (tm_sort_orders tm))) = tm_sort_orders tm"
    "hm_from_iter (map (\<lambda>x. (s3_snapshot_id x, Snapshot_from_V3 x))
        (map SnapshotV3_from (hm_values (ord_snapshots ks) (tm_snapshots tm)))) = tm_snapshots tm"
    using assms(1,2) keyed_map_roundtrip [of "ord_snapshots ks" "tm_snapshots tm" sn_snapshot_id
        s3_snapshot_id SnapshotV3_from Snapshot_from_V3 "\<lambda>x. x"]
    by (simp_all add: admissible_def tm_keyed_def keyed_roundtrip)
  show ?thesis
    using assms m
    by (cases tm)
      (auto simp: TableMetadataEnum_from_def TableMetadata_from_enum_def TableMetadata_from_V3_def
        TableMetadataV3_from_def schemas_roundtrip Let_def snapshot_id_or_minus_one_def
        main_ref_present_def or_insert_def split: option.splits)
qed

text \<open>
  C38. V3 metadata written and read again is the same metadata, for every order in which its
  hash maps are traversed, when its maps are keyed by the ids of their values, the current
  schema exists, and a current snapshot comes with a main reference.
\<close>

theorem table_metadata_v3_roundtrip:
  assumes "admissible ks tm" "tm_keyed tm" "main_ref_present tm"
    "tm_schemas tm (tm_current_schema_id tm) \<noteq> None" "tm_format_version tm = V3"
  shows "rbind (TableMetadataEnum_from ks tm) TableMetadata_from_enum = Ok tm"
  using assms by (rule table_metadata_v3_roundtrip_lemma)


text \<open>A concrete table for the witnesses: one schema, one snapshot, a main reference.\<close>

definition sample_snapshot :: snapshot where
  "sample_snapshot =
     \<lparr>sn_snapshot_id = 7, sn_parent_snapshot_id = None, sn_sequence_number = 1,
      sn_timestamp_ms = 100, sn_manifest_list = ''ml'', sn_summary = Summary_default,
      sn_schema_id = Some 0, sn_first_row_id = Some 0, sn_added_rows = Some 5\<rparr>"

definition sample_table :: "format_version \<Rightarrow> table_metadata" where
  "sample_table v =
     \<lparr>tm_format_version = v, tm_table_uuid = 1, tm_location = ''s3://t'',
      tm_last_sequence_number = 1, tm_last_updated_ms = 100, tm_last_column_id = 1,
      tm_schemas = [0 \<mapsto> Schema_from_struct_type (StructType_new []) 0 None],
      tm_current_schema_id = 0,
      tm_partition_specs = [0 \<mapsto> \<lparr>ps_spec_id = 0, ps_fields = []\<rparr>],
      tm_default_spec_id = 0, tm_last_partition_id = 0, tm_properties = Map.empty,
      tm_current_snapshot_id = Some 7, tm_snapshots = [7 \<mapsto> sample_snapshot],
      tm_snapshot_log = [\<lparr>slg_snapshot_id = 7, slg_timestamp_ms = 100\<rparr>], tm_metadata_log = [],
      tm_sort_orders = [0 \<mapsto> \<lparr>so_order_id = 0, so_fields = []\<rparr>], tm_default_sort_order_id = 0,
      tm_refs = [''main'' \<mapsto> \<lparr>sr_snapshot_id = 7, sr_retention = SnapshotRetention_default\<rparr>],
      tm_next_row_id = 5\<rparr>"

definition sample_orders :: tm_orders where
  "sample_orders = \<lparr>ord_schemas = [0], ord_specs = [0], ord_snapshots = [7], ord_sort_orders = [0]\<rparr>"

lemma sample_facts:
  "admissible sample_orders (sample_table v)" "tm_keyed (sample_table v)"
  "main_ref_present (sample_table v)"
  "tm_schemas (sample_table v) (tm_current_schema_id (sample_table v)) \<noteq> None"
  "tm_format_version (sample_table v) = v"
  by (simp_all add: admissible_def sample_orders_def sample_table_def traversal_def tm_keyed_def
      keyed_def main_ref_present_def sample_snapshot_def Schema_from_struct_type_def MAIN_BRANCH_def)

theorem table_metadata_v3_roundtrip_witness:
  "rbind (TableMetadataEnum_from sample_orders (sample_table V3)) TableMetadata_from_enum
     = Ok (sample_table V3)"
  by (rule table_metadata_v3_roundtrip) (simp_all add: sample_facts)

lemma table_metadata_v2_roundtrip_lemma:
  assumes "admissible ks tm" "tm_keyed tm" "main_ref_present tm"
    "tm_schemas tm (tm_current_schema_id tm) \<noteq> None" "tm_format_version tm = V2"
  shows "rbind (TableMetadataEnum_from ks tm) TableMetadata_from_enum =
    Ok (tm\<lparr>tm_next_row_id := 0,
           tm_snapshots := map_option (\<lambda>s. s\<lparr>sn_first_row_id := None, sn_added_rows := None\<rparr>)
             \<circ> tm_snapshots tm\<rparr>)"
proof -
  have m: "hm_from_iter (map (\<lambda>s. (sch_schema_id s, s)) (hm_values (ord_schemas ks) (tm_schemas tm))) = tm_schemas tm"
    "hm_from_iter (map (\<lambda>x. (ps_spec_id x, x)) (hm_values (ord_specs ks) (tm_partition_specs tm))) = tm_partition_specs tm"
    "hm_from_iter (map (\<lambda>x. (so_order_id x, x)) (hm_values (ord_sort_orders ks) (tm_sort_orders tm))) = tm_sort_orders tm"
    "hm_from_iter (map (\<lambda>x. (s2_snapshot_id x, Snapshot_from_V2 x))
        (map SnapshotV2_from (hm_values (ord_snapshots ks) (tm_snapshots tm)))) =
      map_option (\<lambda>s. s\<lparr>sn_first_row_id := None, sn_added_rows := None\<rparr>) \<circ> tm_snapshots tm"
    using assms(1,2) keyed_map_roundtrip [of "ord_snapshots ks" "tm_snapshots tm" sn_snapshot_id
        s2_snapshot_id SnapshotV2_from Snapshot_from_V2, OF _ _ _ snapshot_v2_roundtrip]
    by (simp_all add: admissible_def tm_keyed_def keyed_roundtrip)
  show ?thesis
    using assms m
    by (cases tm)
      (auto simp: TableMetadataEnum_from_def TableMetadata_from_enum_def TableMetadata_from_V2_def
        TableMetadataV2_from_def schemas_roundtrip Let_def snapshot_id_or_minus_one_def
        main_ref_present_def or_insert_def split: option.splits)
qed

text \<open>
  V2 metadata written and read again keeps everything but the row lineage: the next row
  id becomes 0, and the row bounds of every snapshot are dropped.
\<close>

theorem table_metadata_v2_roundtrip:
  assumes "admissible ks tm" "tm_keyed tm" "main_ref_present tm"
    "tm_schemas tm (tm_current_schema_id tm) \<noteq> None" "tm_format_version tm = V2"
  shows "rbind (TableMetadataEnum_from ks tm) TableMetadata_from_enum =
    Ok (tm\<lparr>tm_next_row_id := 0,
           tm_snapshots := map_option (\<lambda>s. s\<lparr>sn_first_row_id := None, sn_added_rows := None\<rparr>)
             \<circ> tm_snapshots tm\<rparr>)"
  using assms by (rule table_metadata_v2_roundtrip_lemma)

theorem table_metadata_v2_roundtrip_witness:
  "rbind (TableMetadataEnum_from sample_orders (sample_table V2)) TableMetadata_from_enum
     = Ok ((sample_table V2)\<lparr>tm_next_row_id := 0,
         tm_snapshots := map_option (\<lambda>s. s\<lparr>sn_first_row_id := None, sn_added_rows := None\<rparr>)
           \<circ> tm_snapshots (sample_table V2)\<rparr>)"
  by (rule table_metadata_v2_roundtrip) (simp_all add: sample_facts)

lemma try_map_enumerate_v1:
  "try_map (\<lambda>(i, s). rbind (Schema_from_V1 s) (\<lambda>x.
       Ok ((case sch1_schema_id s of Some k \<Rightarrow> k | None \<Rightarrow> usize_as_i32 i), x)))
     (enumerate n (map SchemaV1_from ss)) = Ok (map (\<lambda>s. (sch_schema_id s, s)) ss)"
  by (induction ss arbitrary: n) (auto simp: SchemaV1_from_def Schema_from_V1_def)

text \<open>
  V1 metadata written and read again loses the sequence numbers, the row lineage and
  every reference but main, which is rebuilt from the current snapshot; writing panics
  exactly when the current schema is missing.
\<close>

theorem table_metadata_v1_roundtrip:
  assumes "admissible ks tm" "tm_keyed tm" "tm_current_snapshot_id tm \<noteq> Some (-1)"
    "tm_format_version tm = V1"
  shows "rbind (TableMetadataEnum_from ks tm) TableMetadata_from_enum =
    (if tm_schemas tm (tm_current_schema_id tm) = None
     then Panic ''called Option::unwrap() on a None value''
     else Ok (tm\<lparr>tm_next_row_id := 0, tm_last_sequence_number := 0,
           tm_snapshots :=
             map_option (\<lambda>s. s\<lparr>sn_sequence_number := 0, sn_first_row_id := None, sn_added_rows := None\<rparr>)
             \<circ> tm_snapshots tm,
           tm_refs := (case tm_current_snapshot_id tm of
               None \<Rightarrow> Map.empty
             | Some i \<Rightarrow> [MAIN_BRANCH \<mapsto>
                 \<lparr>sr_snapshot_id = i, sr_retention = SnapshotRetention_default\<rparr>])\<rparr>))"
proof -
  have m: "hm_from_iter (map (\<lambda>s. (sch_schema_id s, s)) (hm_values (ord_schemas ks) (tm_schemas tm))) = tm_schemas tm"
    "hm_from_iter (map (\<lambda>x. (ps_spec_id x, x)) (hm_values (ord_specs ks) (tm_partition_specs tm))) = tm_partition_specs tm"
    "hm_from_iter (map (\<lambda>x. (so_order_id x, x)) (hm_values (ord_sort_orders ks) (tm_sort_orders tm))) = tm_sort_orders tm"
    "hm_from_iter (map (\<lambda>x. (s1_snapshot_id x, Snapshot_from_V1 x))
        (map SnapshotV1_from (hm_values (ord_snapshots ks) (tm_snapshots tm)))) =
      map_option (\<lambda>s. s\<lparr>sn_sequence_number := 0, sn_first_row_id := None, sn_added_rows := None\<rparr>)
        \<circ> tm_snapshots tm"
    using assms(1,2) keyed_map_roundtrip [of "ord_snapshots ks" "tm_snapshots tm" sn_snapshot_id
        s1_snapshot_id SnapshotV1_from Snapshot_from_V1, OF _ _ _ snapshot_v1_roundtrip]
    by (simp_all add: admissible_def tm_keyed_def keyed_roundtrip)
  show ?thesis
  proof (cases "tm_schemas tm (tm_current_schema_id tm)")
    case None
    with assms(4) show ?thesis
      by (simp add: TableMetadataEnum_from_def TableMetadataV1_from_def unwrap_def)
  next
    case (Some sch)
    with assms m show ?thesis
      by (cases tm)
        (auto simp: TableMetadataEnum_from_def TableMetadata_from_enum_def TableMetadata_from_V1_def
          TableMetadataV1_from_def try_map_enumerate_v1 Let_def snapshot_id_or_minus_one_def
          SnapshotRetention_default_def split: option.splits)
  qed
qed

theorem table_metadata_v1_roundtrip_witness:
  "rbind (TableMetadataEnum_from sample_orders (sample_table V1)) TableMetadata_from_enum \<noteq>
     Ok (sample_table V1)"
  by (subst table_metadata_v1_roundtrip [OF sample_facts(1,2) _ sample_facts(5)])
    (simp_all add: sample_table_def)

section \<open>What reading establishes\<close>

definition tm_wf :: "table_metadata \<Rightarrow> bool" where
  "tm_wf tm \<longleftrightarrow> tm_keyed tm \<and> main_ref_present tm \<and> tm_schemas tm (tm_current_schema_id tm) \<noteq> None"

lemma schemas_read_keyed:
  assumes "try_map (\<lambda>s. rbind (Schema_from_V2 s) (\<lambda>x. Ok (sch2_schema_id s, x))) ss = Ok kvs"
  shows "keyed sch_schema_id (hm_from_iter kvs)"
proof -
  have "kvs = map (\<lambda>s. (sch_schema_id s, s)) (map snd kvs)"
    using assms
  proof (induction ss arbitrary: kvs)
    case (Cons s ss)
    then show ?case by fastforce
  qed simp
  then show ?thesis by (metis keyed_from_iter)
qed

lemma keyed_snapshots_V3: "keyed sn_snapshot_id (hm_from_iter (map (\<lambda>x. (s3_snapshot_id x, Snapshot_from_V3 x)) xs))"
  by (auto simp: keyed_def dest!: hm_from_iter_mem)

lemma keyed_snapshots_V2: "keyed sn_snapshot_id (hm_from_iter (map (\<lambda>x. (s2_snapshot_id x, Snapshot_from_V2 x)) xs))"
  by (auto simp: keyed_def dest!: hm_from_iter_mem)

lemma snapshots_V2_no_lineage:
  "hm_from_iter (map (\<lambda>x. (s2_snapshot_id x, Snapshot_from_V2 x)) xs) i = Some s \<Longrightarrow>
     sn_first_row_id s = None \<and> sn_added_rows s = None"
  by (auto simp: Snapshot_from_V2_def dest!: hm_from_iter_mem)

lemma or_insert_present [simp]: "or_insert k v m k \<noteq> None" "or_insert k v m k = None \<longleftrightarrow> False"
  "\<exists>y. or_insert k v m k = Some y"
  by (auto simp: or_insert_def split: option.splits)

lemma from_V3_wf:
  assumes "TableMetadata_from_V3 v = Ok tm" shows "tm_wf tm \<and> tm_format_version tm = V3"
  using assms schemas_read_keyed [of "m3_schemas v"]
  by (auto simp: TableMetadata_from_V3_def Let_def tm_wf_def tm_keyed_def main_ref_present_def
      keyed_from_iter keyed_snapshots_V3 split: option.splits if_splits)

lemma from_V2_wf:
  assumes "TableMetadata_from_V2 v = Ok tm"
  shows "tm_wf tm \<and> tm_format_version tm = V2 \<and> tm_next_row_id tm = 0
    \<and> (\<forall>i s. tm_snapshots tm i = Some s \<longrightarrow> sn_first_row_id s = None \<and> sn_added_rows s = None)"
  using assms schemas_read_keyed [of "m2_schemas v"]
  by (auto simp: TableMetadata_from_V2_def Let_def tm_wf_def tm_keyed_def main_ref_present_def
      keyed_from_iter keyed_snapshots_V2 dest: snapshots_V2_no_lineage
      split: option.splits if_splits)

text \<open>
  Whatever V2 or V3 document is read successfully, writing the result and reading it again
  gives the same metadata, for every traversal order of the hash maps.
\<close>

theorem read_write_read:
  assumes "TableMetadata_from_enum e = Ok tm" "\<forall>v. e \<noteq> TE_V1 v" "admissible ks tm"
  shows "rbind (TableMetadataEnum_from ks tm) TableMetadata_from_enum = Ok tm"
proof (cases e)
  case (TE_V3 v)
  then show ?thesis
    using assms from_V3_wf [of v tm]
    by (intro table_metadata_v3_roundtrip_lemma) (simp_all add: TableMetadata_from_enum_def tm_wf_def)
next
  case (TE_V2 v)
  with assms have wf: "tm_wf tm" "tm_format_version tm = V2" "tm_next_row_id tm = 0"
    and lin: "\<And>i s. tm_snapshots tm i = Some s \<Longrightarrow> sn_first_row_id s = None \<and> sn_added_rows s = None"
    using from_V2_wf [of v tm] by (auto simp: TableMetadata_from_enum_def)
  have "map_option (\<lambda>s. s\<lparr>sn_first_row_id := None, sn_added_rows := None\<rparr>) \<circ> tm_snapshots tm
      = tm_snapshots tm"
  proof
    fix i
    show "(map_option (\<lambda>s. s\<lparr>sn_first_row_id := None, sn_added_rows := None\<rparr>) \<circ> tm_snapshots tm) i
      = tm_snapshots tm i"
      using lin [of i] by (cases "tm_snapshots tm i") auto
  qed
  with wf assms(3) show ?thesis
    by (subst table_metadata_v2_roundtrip_lemma) (simp_all add: tm_wf_def)
next
  case (TE_V1 v)
  with assms(2) show ?thesis by simp
qed

theorem read_write_read_witness:
  "\<exists>v. TableMetadata_from_enum (TE_V2 v) = Ok (sample_table V2\<lparr>tm_next_row_id := 0, tm_snapshots := Map.empty\<rparr>)
     \<and> rbind (TableMetadataEnum_from (sample_orders\<lparr>ord_snapshots := []\<rparr>)
               (sample_table V2\<lparr>tm_next_row_id := 0, tm_snapshots := Map.empty\<rparr>)) TableMetadata_from_enum
        = Ok (sample_table V2\<lparr>tm_next_row_id := 0, tm_snapshots := Map.empty\<rparr>)"
proof -
  let ?t = "sample_table V2\<lparr>tm_next_row_id := 0, tm_snapshots := Map.empty\<rparr>"
  let ?ks = "sample_orders\<lparr>ord_snapshots := []\<rparr>"
  have a: "admissible ?ks ?t"
    using sample_facts(1) [of V2] by (simp add: admissible_def traversal_def)
  have r: "TableMetadata_from_enum (TE_V2 (TableMetadataV2_from ?ks ?t)) = Ok ?t"
    by (simp add: TableMetadata_from_enum_def TableMetadata_from_V2_def TableMetadataV2_from_def
        sample_table_def sample_orders_def hm_values_def List.map_filter_simps Let_def
        snapshot_id_or_minus_one_def or_insert_def MAIN_BRANCH_def hm_from_iter_def
        Schema_from_V2_def SchemaV2_from_def Schema_from_struct_type_def)
  show ?thesis
    using read_write_read [OF r _ a] r by blast
qed

text \<open>
  Finding: two V1 schemas without ids are read under the keys 0 and 1 but both keep
  \<open>0\<close> as their own id, so the table is not keyed by schema ids; when it is then written in
  the V2 form and read again, one of the two schemas is lost.
\<close>

theorem v1_schemas_without_id:
  assumes "m1_schemas v = Some [a, b]" "sch1_schema_id a = None" "sch1_schema_id b = None"
  shows "\<exists>tm. TableMetadata_from_V1 v = Ok tm
           \<and> map_option sch_schema_id (tm_schemas tm 1) = Some 0 \<and> \<not> tm_keyed tm
           \<and> (\<forall>ks tm'. traversal (ord_schemas ks) (tm_schemas tm)
                 \<longrightarrow> TableMetadata_from_V2 (TableMetadataV2_from ks tm) = Ok tm'
                 \<longrightarrow> dom (tm_schemas tm') = {0})"
proof -
  have u: "usize_as_i32 0 = 0" "usize_as_i32 1 = 1"
    by (simp_all add: usize_as_i32_def wrap32_def)
  obtain tm where tm: "TableMetadata_from_V1 v = Ok tm"
    "tm_schemas tm = hm_from_iter [(0, the (ok (Schema_from_V1 a))), (1, the (ok (Schema_from_V1 b)))]"
    using assms u by (auto simp: TableMetadata_from_V1_def Let_def Schema_from_V1_def)
  then have s: "tm_schemas tm 1 = Some (the (ok (Schema_from_V1 b)))"
    by (simp add: hm_from_iter_def)
  have ids: "sch_schema_id (the (ok (Schema_from_V1 b))) = 0"
    "sch_schema_id (the (ok (Schema_from_V1 a))) = 0"
    using assms by (simp_all add: Schema_from_V1_def)
  have all0: "\<forall>s \<in> ran (tm_schemas tm). sch_schema_id s = 0"
    using tm(2) ids by (auto simp: ran_def hm_from_iter_def split: if_splits)
  have "dom (tm_schemas tm') = {0}"
    if tr: "traversal (ord_schemas ks) (tm_schemas tm)"
      and rd: "TableMetadata_from_V2 (TableMetadataV2_from ks tm) = Ok tm'" for ks tm'
  proof -
    let ?vs = "hm_values (ord_schemas ks) (tm_schemas tm)"
    have "tm_schemas tm' = hm_from_iter (map (\<lambda>s. (sch_schema_id s, s)) ?vs)"
      using rd by (auto simp: TableMetadata_from_V2_def TableMetadataV2_from_def Let_def schemas_roundtrip)
    moreover have "set ?vs = ran (tm_schemas tm)" by (rule set_hm_values [OF tr])
    moreover have "ran (tm_schemas tm) \<noteq> {}" using s by (auto simp: ran_def)
    ultimately show ?thesis
      using all0 by (auto simp: hm_from_iter_def dom_map_of_conv_image_fst image_image)
  qed
  moreover have "\<not> tm_keyed tm"
    using s ids by (auto simp: tm_keyed_def keyed_def)
  ultimately show ?thesis
    using tm(1) s ids by auto
qed

theorem v1_schemas_without_id_witness:
  "\<exists>tm v. TableMetadata_from_V1 v = Ok tm \<and> \<not> tm_keyed tm"
proof -
  obtain t where t: "TableMetadataV1_from sample_orders (sample_table V1) = Ok t"
    using sample_facts(4) [of V1] by (auto simp: TableMetadataV1_from_def)
  let ?s = "\<lparr>sch1_schema_id = None, sch1_identifier_field_ids = None, sch1_fields = StructType_new []\<rparr>"
  show ?thesis
    using v1_schemas_without_id [of "t\<lparr>m1_schemas := Some [?s, ?s]\<rparr>" ?s ?s] by auto
qed

end
