(* ===== verification/Identifier.thy ===== *)
theory Identifier
  imports Rust_String Errors
begin

text \<open>
  Table identifiers and namespaces (\<open>iceberg-rust-spec/src/spec/identifier.rs\<close> and
  \<open>namespace.rs\<close>): construction, parsing and printing. The URL encoding of namespaces
  belongs to another library and is not modelled.
\<close>

definition SEPARATOR :: char where
  "SEPARATOR = CHR ''.''"

type_synonym namespace = "string list"

record table_identifier =
  id_namespace :: namespace
  id_name :: string

definition Namespace_try_new :: "string list \<Rightarrow> (namespace, spec_error) outcome" where
  "Namespace_try_new levels =
     (if list_ex (\<lambda>x. x = []) levels then Err (SInvalidFormat ''namespace sequence'') else Ok levels)"

definition Namespace_empty :: namespace where
  "Namespace_empty = []"

definition Namespace_to_string :: "namespace \<Rightarrow> string" where
  "Namespace_to_string ns = join_with [SEPARATOR] ns"

definition Identifier_new :: "string list \<Rightarrow> string \<Rightarrow> table_identifier" where
  "Identifier_new ns name = \<lparr>id_namespace = ns, id_name = name\<rparr>"

text \<open>\<open>{:?}\<close> of the list of names is left to the argument \<open>dbg\<close>; it shows in messages only.\<close>

definition Identifier_try_new ::
  "(string list \<Rightarrow> string) \<Rightarrow> string list \<Rightarrow> string list option \<Rightarrow> (table_identifier, spec_error) outcome" where
  "Identifier_try_new dbg names default_namespace =
     (case rev names of
        [] \<Rightarrow> Err (SInvalidFormat (''Identifier '' @ dbg names @ '' is empty''))
      | table_name # parts \<Rightarrow>
          if table_name = []
          then Err (SInvalidFormat (''Table name '' @ dbg [table_name] @ '' is empty''))
          else let ns = rev parts
               in rbind (if ns = []
                         then ok_or (SNotFound ''Default namespace'') default_namespace
                         else Ok ns)
                    (\<lambda>ns'. Ok \<lparr>id_namespace = ns', id_name = table_name\<rparr>))"

definition Identifier_parse ::
  "(string list \<Rightarrow> string) \<Rightarrow> string \<Rightarrow> string list option \<Rightarrow> (table_identifier, spec_error) outcome" where
  "Identifier_parse dbg identifier default_namespace =
     Identifier_try_new dbg (split_on SEPARATOR identifier) default_namespace"

definition Identifier_to_string :: "table_identifier \<Rightarrow> string" where
  "Identifier_to_string i = Namespace_to_string (id_namespace i) @ [SEPARATOR] @ id_name i"

record full_identifier =
  fi_catalog :: "string option"
  fi_namespace :: namespace
  fi_name :: string

definition FullIdentifier_new :: "string option \<Rightarrow> string list \<Rightarrow> string \<Rightarrow> full_identifier" where
  "FullIdentifier_new catalog ns name =
     \<lparr>fi_catalog = catalog, fi_namespace = ns, fi_name = name\<rparr>"

definition Identifier_from_full :: "full_identifier \<Rightarrow> table_identifier" where
  "Identifier_from_full v = \<lparr>id_namespace = fi_namespace v, id_name = fi_name v\<rparr>"

lemma join_snoc: "ps \<noteq> [] \<Longrightarrow> join_with sep (ps @ [p]) = join_with sep ps @ sep @ p"
  by (induction sep ps rule: join_with.induct) auto

lemma parse_to_string:
  assumes "ns \<noteq> []" "\<forall>p \<in> set ns. SEPARATOR \<notin> set p" "SEPARATOR \<notin> set name" "name \<noteq> []"
  shows "Identifier_parse dbg (Identifier_to_string \<lparr>id_namespace = ns, id_name = name\<rparr>) dn =
    Ok \<lparr>id_namespace = ns, id_name = name\<rparr>"
proof -
  have "Identifier_to_string \<lparr>id_namespace = ns, id_name = name\<rparr> = join_with [SEPARATOR] (ns @ [name])"
    using assms(1) by (simp add: Identifier_to_string_def Namespace_to_string_def join_snoc)
  moreover have "split_on SEPARATOR (join_with [SEPARATOR] (ns @ [name])) = ns @ [name]"
    using assms by (intro split_join) auto
  ultimately show ?thesis
    using assms(1,4) by (simp add: Identifier_parse_def Identifier_try_new_def)
qed

text \<open>
  An identifier with a non-empty namespace whose parts and name are free of dots is read
  back from its printed form, whatever the default namespace; one with the empty namespace is
  not: it comes back with the namespace that has one empty level.
\<close>

theorem identifier_roundtrip:
  assumes "\<forall>p \<in> set (id_namespace i). SEPARATOR \<notin> set p" "SEPARATOR \<notin> set (id_name i)" "id_name i \<noteq> []"
  shows "Identifier_parse dbg (Identifier_to_string i) dn =
    Ok (if id_namespace i = [] then i\<lparr>id_namespace := [[]]\<rparr> else i)"
proof (cases "id_namespace i = []")
  case True
  then have "Identifier_to_string i = Identifier_to_string \<lparr>id_namespace = [[]], id_name = id_name i\<rparr>"
    by (simp add: Identifier_to_string_def Namespace_to_string_def)
  with True assms show ?thesis by (cases i) (simp add: parse_to_string)
next
  case False
  with assms show ?thesis by (cases i) (simp add: parse_to_string)
qed

theorem identifier_roundtrip_witness:
  "Identifier_parse concat (Identifier_to_string (Identifier_new [''a'', ''b''] ''t'')) None
     = Ok (Identifier_new [''a'', ''b''] ''t'')
   \<and> Identifier_parse concat (Identifier_to_string (Identifier_new Namespace_empty ''t'')) None
     \<noteq> Ok (Identifier_new Namespace_empty ''t'')"
  using identifier_roundtrip [of "Identifier_new [''a'', ''b''] ''t''" concat None]
    identifier_roundtrip [of "Identifier_new Namespace_empty ''t''" concat None]
  by (simp add: Identifier_new_def Namespace_empty_def SEPARATOR_def)

text \<open>A string that parses prints as itself, when it needed no default namespace.\<close>

lemma to_string_parse:
  assumes "Identifier_parse dbg s None = Ok i"
  shows "Identifier_to_string i = s"
proof -
  from assms obtain name parts where p: "rev (split_on SEPARATOR s) = name # parts" "parts \<noteq> []"
    "i = \<lparr>id_namespace = rev parts, id_name = name\<rparr>"
    by (auto simp: Identifier_parse_def Identifier_try_new_def Let_def split: list.splits if_splits)
  then have "split_on SEPARATOR s = rev parts @ [name]"
    by (metis rev.simps(2) rev_swap)
  then show ?thesis
    using p join_split [of SEPARATOR s]
    by (simp add: Identifier_to_string_def Namespace_to_string_def join_snoc)
qed

end
