(* ===== verification/View_Metadata.thy ===== *)
theory View_Metadata
  imports Table_Metadata Identifier
begin

text \<open>
  View metadata (\<open>iceberg-rust-spec/src/spec/view_metadata.rs\<close>): versions, the current
  version of a branch, and the V1 serial form. The type parameter is the storage table of a
  materialized view (\<open>Identifier\<close>) or nothing (\<open>Option<()>\<close>).
\<close>

definition REF_PREFIX :: string where
  "REF_PREFIX = ''ref-''"

datatype view_operation = Create | ReplaceView

record view_summary =
  vsu_operation :: view_operation
  vsu_engine_name :: "string option"
  vsu_engine_version :: "string option"

datatype view_representation = Sql (sql: string) (dialect: string)

definition ViewRepresentation_sql :: "string \<Rightarrow> string option \<Rightarrow> view_representation" where
  "ViewRepresentation_sql q d = Sql q (case d of Some x \<Rightarrow> x | None \<Rightarrow> ''ansi'')"

definition view_operation_serialize :: "view_operation \<Rightarrow> string" where
  "view_operation_serialize v = (case v of Create \<Rightarrow> ''create'' | ReplaceView \<Rightarrow> ''replace'')"

definition view_operation_deserialize :: "string \<Rightarrow> (view_operation, de_error) outcome" where
  "view_operation_deserialize s =
     (if s = ''create'' then Ok Create
      else if s = ''replace'' then Ok ReplaceView
      else Err (Custom ''Invalid view operation.''))"

record 't view_version =
  vv_version_id :: i64
  vv_schema_id :: i32
  vv_timestamp_ms :: i64
  vv_summary :: view_summary
  vv_representations :: "view_representation list"
  vv_default_catalog :: "string option"
  vv_default_namespace :: "string list"
  vv_storage_table :: 't

record version_log_entry =
  vlg_timestamp_ms :: i64
  vlg_version_id :: i64

datatype view_format_version = ViewV1

definition i32_from_ViewFormatVersion :: "view_format_version \<Rightarrow> i32" where
  "i32_from_ViewFormatVersion v = (case v of ViewV1 \<Rightarrow> 1)"

definition u8_from_ViewFormatVersion :: "view_format_version \<Rightarrow> nat" where
  "u8_from_ViewFormatVersion v = (case v of ViewV1 \<Rightarrow> of_char (CHR ''1''))"

definition ViewFormatVersion_try_from_u8 :: "nat \<Rightarrow> (view_format_version, spec_error) outcome" where
  "ViewFormatVersion_try_from_u8 v =
     (if v = 1 then Ok ViewV1 else Err (SConversion ''u8'' ''format version''))"

record 't view_metadata =
  vm_view_uuid :: uuid
  vm_format_version :: view_format_version
  vm_location :: string
  vm_current_version_id :: i64
  vm_versions :: "i64 \<rightharpoonup> 't view_version"
  vm_version_log :: "version_log_entry list"
  vm_schemas :: "i32 \<rightharpoonup> schema"
  vm_properties :: "string \<rightharpoonup> string"

definition view_current_version ::
  "'t view_metadata \<Rightarrow> string option \<Rightarrow> ('t view_version, spec_error) outcome" where
  "view_current_version vm snapshot_ref =
     (let version_id =
            (case snapshot_ref of
               None \<Rightarrow> vm_current_version_id vm
             | Some reference \<Rightarrow>
                 (case Option.bind (vm_properties vm (REF_PREFIX @ reference)) parse_i64 of
                    Some i \<Rightarrow> i | None \<Rightarrow> vm_current_version_id vm))
      in ok_or (SInvalidFormat ''view metadata'') (vm_versions vm version_id))"

definition view_current_schema ::
  "'t view_metadata \<Rightarrow> string option \<Rightarrow> (schema, spec_error) outcome" where
  "view_current_schema vm branch =
     rbind (view_current_version vm branch) (\<lambda>v.
     ok_or (SInvalidFormat ''view metadata'') (vm_schemas vm (vv_schema_id v)))"

definition view_schema :: "'t view_metadata \<Rightarrow> i64 \<Rightarrow> (schema, spec_error) outcome" where
  "view_schema vm version_id =
     rbind (ok_or (SNotFound (''View version '' @ show_int version_id)) (vm_versions vm version_id)) (\<lambda>v.
     ok_or (SInvalidFormat ''view metadata'') (vm_schemas vm (vv_schema_id v)))"

definition view_add_schema :: "schema \<Rightarrow> 't view_metadata \<Rightarrow> 't view_metadata" where
  "view_add_schema s vm = vm\<lparr>vm_schemas := (vm_schemas vm)(sch_schema_id s \<mapsto> s)\<rparr>"

record 't view_metadata_v1 =
  vm1_view_uuid :: uuid
  vm1_location :: string
  vm1_current_version_id :: i64
  vm1_versions :: "'t view_version list"
  vm1_version_log :: "version_log_entry list"
  vm1_schemas :: "schema_v2 list"
  vm1_properties :: "(string \<rightharpoonup> string) option"

definition ViewMetadata_from_V1 :: "'t view_metadata_v1 \<Rightarrow> ('t view_metadata, spec_error) outcome" where
  "ViewMetadata_from_V1 value =
     rbind (try_map (\<lambda>s. rbind (Schema_from_V2 s) (\<lambda>x. Ok (sch2_schema_id s, x))) (vm1_schemas value))
       (\<lambda>kvs.
     Ok \<lparr>vm_view_uuid = vm1_view_uuid value,
         vm_format_version = ViewV1,
         vm_location = vm1_location value,
         vm_current_version_id = vm1_current_version_id value,
         vm_versions = hm_from_iter (map (\<lambda>x. (vv_version_id x, x)) (vm1_versions value)),
         vm_version_log = vm1_version_log value,
         vm_schemas = hm_from_iter kvs,
         vm_properties = (case vm1_properties value of Some p \<Rightarrow> p | None \<Rightarrow> Map.empty)\<rparr>)"

definition ViewMetadataV1_from :: "i64 list \<Rightarrow> i32 list \<Rightarrow> 't view_metadata \<Rightarrow> 't view_metadata_v1" where
  "ViewMetadataV1_from version_order schema_order value =
     \<lparr>vm1_view_uuid = vm_view_uuid value,
      vm1_location = vm_location value,
      vm1_current_version_id = vm_current_version_id value,
      vm1_versions = hm_values version_order (vm_versions value),
      vm1_version_log = vm_version_log value,
      vm1_schemas = map SchemaV2_from (hm_values schema_order (vm_schemas value)),
      vm1_properties = (if hm_is_empty (vm_properties value) then None else Some (vm_properties value))\<rparr>"

lemma view_operation_roundtrip [simp]:
  "view_operation_deserialize (view_operation_serialize v) = Ok v"
  by (cases v) (simp_all add: view_operation_deserialize_def view_operation_serialize_def)

text \<open>
  View metadata written in its V1 form and read again is the same metadata, for every
  traversal order, when its versions and schemas are stored under their own ids.
\<close>

theorem view_metadata_roundtrip:
  fixes vm :: "'t view_metadata"
  assumes "traversal vo (vm_versions vm)" "traversal so (vm_schemas vm)"
    "keyed vv_version_id (vm_versions vm)" "keyed sch_schema_id (vm_schemas vm)"
  shows "ViewMetadata_from_V1 (ViewMetadataV1_from vo so vm) = Ok vm"
proof -
  have "vm_format_version vm = ViewV1"
    by (cases "vm_format_version vm")
  then show ?thesis
    using assms
    by (cases vm)
      (simp add: ViewMetadata_from_V1_def ViewMetadataV1_from_def schemas_roundtrip keyed_roundtrip
        hm_is_empty_def)
qed

definition sample_version :: "unit option view_version" where
  "sample_version =
     \<lparr>vv_version_id = 1, vv_schema_id = 0, vv_timestamp_ms = 5,
      vv_summary = \<lparr>vsu_operation = Create, vsu_engine_name = None, vsu_engine_version = None\<rparr>,
      vv_representations = [ViewRepresentation_sql ''SELECT 1'' None], vv_default_catalog = None,
      vv_default_namespace = [], vv_storage_table = None\<rparr>"

definition sample_view :: "unit option view_metadata" where
  "sample_view =
     \<lparr>vm_view_uuid = 2, vm_format_version = ViewV1, vm_location = ''s3://v'',
      vm_current_version_id = 1, vm_versions = [1 \<mapsto> sample_version], vm_version_log = [],
      vm_schemas = [0 \<mapsto> Schema_from_struct_type (StructType_new []) 0 None],
      vm_properties = [''ref-dev'' \<mapsto> ''1'']\<rparr>"

theorem view_metadata_roundtrip_witness:
  "ViewMetadata_from_V1 (ViewMetadataV1_from [1] [0] sample_view) = Ok sample_view"
  by (rule view_metadata_roundtrip)
    (simp_all add: sample_view_def sample_version_def traversal_def keyed_def
      Schema_from_struct_type_def)

end
