(* ===== verification/Row_Ids.thy ===== *)
theory Row_Ids
  imports Prelude
begin

text \<open>
  The interface of the code that hands out row ids. Row ids are handed out at four places: to
  the data files of a manifest when it is read, to the files of a manifest that is rewritten,
  to the manifests of a manifest list, and to the snapshots of a table. Each of them keeps the
  next free id and moves it past the range that it gives away. The two locales state this
  contract; their lemmas say what it gives for a whole sequence.
\<close>

section \<open>A sequence of requests\<close>

fun give_all :: "('s \<Rightarrow> 'x \<Rightarrow> ('s \<times> 'x, 'e) outcome) \<Rightarrow> 's \<Rightarrow> 'x list \<Rightarrow> ('s \<times> 'x list, 'e) outcome" where
  "give_all give s [] = Ok (s, [])"
| "give_all give s (x # xs) =
     rbind (give s x) (\<lambda>(s', y). rbind (give_all give s' xs) (\<lambda>(t, ys). Ok (t, y # ys)))"

section \<open>Sources of row ids\<close>

text \<open>
  \<open>needs s x\<close>: in state \<open>s\<close> the request \<open>x\<close> takes a range, of \<open>size x\<close> ids. The range starts at
  the id that the answer carries, not below the next free id.
\<close>

locale row_ids =
  fixes give :: "'s \<Rightarrow> 'x \<Rightarrow> ('s \<times> 'x, 'e) outcome"
    and next_id :: "'s \<Rightarrow> int"
    and needs :: "'s \<Rightarrow> 'x \<Rightarrow> bool"
    and size_of :: "'x \<Rightarrow> int"
    and first_id :: "'x \<Rightarrow> int option"
  assumes needs_stable: "give s x = Ok (s', y) \<Longrightarrow> needs s' z = needs s z"
    and takes_range: "give s x = Ok (s', y) \<Longrightarrow> needs s x \<Longrightarrow>
      \<exists>a. first_id y = Some a \<and> next_id s \<le> a \<and> 0 \<le> size_of x \<and> next_id s' = a + size_of x"
    and takes_nothing: "give s x = Ok (s', y) \<Longrightarrow> \<not> needs s x \<Longrightarrow> next_id s' = next_id s"
begin

lemma next_mono: "give s x = Ok (s', y) \<Longrightarrow> next_id s \<le> next_id s'"
  using takes_range [of s x s' y] takes_nothing [of s x s' y] by (cases "needs s x") auto

lemma all_mono: "give_all give s xs = Ok (t, ys) \<Longrightarrow> next_id s \<le> next_id t \<and> length ys = length xs"
proof (induction xs arbitrary: s ys)
  case (Cons x xs)
  then show ?case by (fastforce dest: next_mono)
qed simp

lemma all_needs: "give_all give s xs = Ok (t, ys) \<Longrightarrow> needs t z = needs s z"
proof (induction xs arbitrary: s ys)
  case (Cons x xs)
  then show ?case using needs_stable by fastforce
qed simp

lemma all_in_range:
  "give_all give s xs = Ok (t, ys) \<Longrightarrow> i < length xs \<Longrightarrow> needs s (xs ! i) \<Longrightarrow>
   \<exists>a. first_id (ys ! i) = Some a \<and> next_id s \<le> a \<and> 0 \<le> size_of (xs ! i) \<and> a + size_of (xs ! i) \<le> next_id t"
proof (induction xs arbitrary: s ys i)
  case (Cons x xs)
  obtain s' y ys' where st: "give s x = Ok (s', y)" "give_all give s' xs = Ok (t, ys')" "ys = y # ys'"
    using Cons.prems(1) by auto
  show ?case
  proof (cases i)
    case 0
    then show ?thesis
      using takes_range [OF st(1)] all_mono [OF st(2)] Cons.prems(3) st(3) by auto
  next
    case (Suc k)
    with Cons.prems(2,3) needs_stable [OF st(1)] have "k < length xs" "needs s' (xs ! k)"
      by auto
    from Cons.IH [OF st(2) this] next_mono [OF st(1)] Suc st(3) show ?thesis
      by fastforce
  qed
qed simp

text \<open>Two ranges of one sequence do not overlap, the earlier one lies below.\<close>

lemma all_disjoint:
  "give_all give s xs = Ok (t, ys) \<Longrightarrow> i < j \<Longrightarrow> j < length xs \<Longrightarrow> needs s (xs ! i) \<Longrightarrow> needs s (xs ! j) \<Longrightarrow>
   first_id (ys ! i) = Some a \<Longrightarrow> first_id (ys ! j) = Some b \<Longrightarrow> a + size_of (xs ! i) \<le> b"
proof (induction xs arbitrary: s ys i j)
  case (Cons x xs)
  obtain s' y ys' where st: "give s x = Ok (s', y)" "give_all give s' xs = Ok (t, ys')" "ys = y # ys'"
    using Cons.prems(1) by auto
  obtain k where k: "j = Suc k" "k < length xs" using Cons.prems(2,3) by (cases j) auto
  have needs: "needs s' z = needs s z" for z using needs_stable [OF st(1)] .
  show ?case
  proof (cases i)
    case 0
    then have "next_id s' = a + size_of x"
      using takes_range [OF st(1)] Cons.prems(4,6) st(3) by auto
    moreover have "next_id s' \<le> b"
      using all_in_range [OF st(2) k(2)] Cons.prems(5,7) needs st(3) k(1) by auto
    ultimately show ?thesis using 0 by simp
  next
    case (Suc l)
    then show ?thesis
      using Cons.IH [OF st(2), of l k] Cons.prems needs st(3) k by auto
  qed
qed simp

end

text \<open>A source that leaves no gap.\<close>

locale contiguous_row_ids = row_ids +
  assumes no_gap: "give s x = Ok (s', y) \<Longrightarrow> needs s x \<Longrightarrow> first_id y = Some (next_id s)"
begin

lemma all_next:
  "give_all give s xs = Ok (t, ys) \<Longrightarrow> next_id t = next_id s + sum_list (map size_of (filter (needs s) xs))"
proof (induction xs arbitrary: s ys)
  case (Cons x xs)
  obtain s' y ys' where st: "give s x = Ok (s', y)" "give_all give s' xs = Ok (t, ys')"
    using Cons.prems by auto
  have needs: "needs s' = needs s" using needs_stable [OF st(1)] by auto
  show ?case
    using Cons.IH [OF st(2)] takes_range [OF st(1)] no_gap [OF st(1)] takes_nothing [OF st(1)] needs
    by (cases "needs s x") auto
qed simp

lemma all_first:
  "give_all give s xs = Ok (t, ys) \<Longrightarrow> i < length xs \<Longrightarrow> needs s (xs ! i) \<Longrightarrow>
   first_id (ys ! i) = Some (next_id s + sum_list (map size_of (filter (needs s) (take i xs))))"
proof (induction xs arbitrary: s ys i)
  case (Cons x xs)
  obtain s' y ys' where st: "give s x = Ok (s', y)" "give_all give s' xs = Ok (t, ys')" "ys = y # ys'"
    using Cons.prems(1) by auto
  have needs: "needs s' = needs s" using needs_stable [OF st(1)] by auto
  show ?case
  proof (cases i)
    case 0
    then show ?thesis using no_gap [OF st(1)] Cons.prems(3) st(3) by simp
  next
    case (Suc k)
    with Cons.prems(2,3) needs have "k < length xs" "needs s' (xs ! k)" by auto
    from Cons.IH [OF st(2) this] Suc st(3) needs show ?thesis
      using takes_range [OF st(1)] no_gap [OF st(1)] takes_nothing [OF st(1)]
      by (cases "needs s x") auto
  qed
qed simp

end

end
