(* ===== verification/Commit.thy ===== *)
theory Commit
  imports View_Metadata Row_Ids
begin

text \<open>
  Commits (\<open>iceberg-rust/src/catalog/commit.rs\<close>): the updates and requirements of a commit,
  the check of requirements against metadata, and the loop that applies updates. A caller
  applies updates to its own copy and drops it on an error, so only the \<open>Ok\<close> result carries
  metadata.
\<close>

section \<open>Data\<close>

text \<open>The libraries and the clock a commit calls: UUID text and \<open>SystemTime::now\<close>.\<close>

record env =
  env_parse_uuid :: "string \<Rightarrow> uuid option"
  env_uuid_to_string :: "uuid \<Rightarrow> string"
  env_now_ms :: i64

datatype table_update =
    AssignUuid string
  | UpgradeFormatVersion i32
  | AddSchema schema "i32 option"
  | SetCurrentSchema i32
  | AddSpec partition_spec
  | SetDefaultSpec i32
  | AddSortOrder sort_order
  | SetDefaultSortOrder i32
  | AddSnapshot snapshot
  | SetSnapshotRef string snapshot_reference
  | RemoveSnapshots "i64 list"
  | RemoveSnapshotRef string
  | SetLocation string
  | SetProperties "string \<rightharpoonup> string"
  | RemoveProperties "string list"

datatype table_requirement =
    AssertCreate
  | AssertTableUuid uuid
  | AssertRefSnapshotId string "i64 option"
  | AssertLastAssignedFieldId i32
  | AssertCurrentSchemaId i32
  | AssertLastAssignedPartitionId i32
  | AssertDefaultSpecId i32
  | AssertDefaultSortOrderId i32

datatype 't view_update =
    ViewAssignUuid string
  | ViewUpgradeFormatVersion i32
  | ViewAddSchema schema "i32 option"
  | ViewSetLocation string
  | ViewSetProperties "string \<rightharpoonup> string"
  | ViewRemoveProperties "string list"
  | AddViewVersion "'t view_version"
  | SetCurrentViewVersion i64

datatype view_requirement = AssertViewUuid uuid

record commit_table =
  ct_identifier :: table_identifier
  ct_requirements :: "table_requirement list"
  ct_updates :: "table_update list"

record 't commit_view =
  cv_identifier :: table_identifier
  cv_requirements :: "view_requirement list"
  cv_updates :: "'t view_update list"

section \<open>Requirements\<close>

definition table_requirement_holds :: "table_metadata \<Rightarrow> table_requirement \<Rightarrow> bool" where
  "table_requirement_holds metadata x =
     (case x of
        AssertCreate \<Rightarrow> True
      | AssertTableUuid uuid \<Rightarrow> tm_table_uuid metadata = uuid
      | AssertRefSnapshotId r snapshot_id \<Rightarrow>
          map_option sr_snapshot_id (tm_refs metadata r) = snapshot_id
      | AssertLastAssignedFieldId i \<Rightarrow> tm_last_column_id metadata = i
      | AssertCurrentSchemaId i \<Rightarrow> tm_current_schema_id metadata = i
      | AssertLastAssignedPartitionId i \<Rightarrow> tm_last_partition_id metadata = i
      | AssertDefaultSpecId i \<Rightarrow> tm_default_spec_id metadata = i
      | AssertDefaultSortOrderId i \<Rightarrow> tm_default_sort_order_id metadata = i)"

definition check_table_requirements :: "table_requirement list \<Rightarrow> table_metadata \<Rightarrow> bool" where
  "check_table_requirements requirements metadata \<longleftrightarrow>
     list_all (table_requirement_holds metadata) requirements"

definition check_view_requirements :: "view_requirement list \<Rightarrow> 't view_metadata \<Rightarrow> bool" where
  "check_view_requirements requirements metadata \<longleftrightarrow>
     list_all (\<lambda>x. case x of AssertViewUuid uuid \<Rightarrow> vm_view_uuid metadata = uuid) requirements"

section \<open>Applying updates\<close>

text \<open>The local variables of the loop.\<close>

record apply_state =
  ap_metadata :: table_metadata
  ap_added_schema_id :: "i32 option"
  ap_added_spec_id :: "i32 option"
  ap_added_sort_order_id :: "i32 option"

definition apply_init :: "table_metadata \<Rightarrow> apply_state" where
  "apply_init metadata =
     \<lparr>ap_metadata = metadata, ap_added_schema_id = None, ap_added_spec_id = None,
      ap_added_sort_order_id = None\<rparr>"

text \<open>An id \<open>-1\<close> names the one added last.\<close>

definition resolve_last :: "string \<Rightarrow> i32 \<Rightarrow> i32 option \<Rightarrow> (i32, error) outcome" where
  "resolve_last msg i added = (if i = -1 then ok_or (InvalidFormat msg) added else Ok i)"

text \<open>The row-lineage part of \<open>AddSnapshot\<close>: the new next row id.\<close>

definition next_row_id_after :: "table_metadata \<Rightarrow> snapshot \<Rightarrow> (i64, error) outcome" where
  "next_row_id_after metadata snapshot =
     (if tm_format_version metadata = V3 then
        rbind (ok_or (InvalidFormat ''v3 snapshot first-row-id'') (sn_first_row_id snapshot)) (\<lambda>first.
        rbind (ok_or (InvalidFormat ''v3 snapshot added-rows'') (sn_added_rows snapshot)) (\<lambda>added.
        if first < 0 \<or> added < 0
        then Err (InvalidFormat ''v3 row lineage values must be non-negative'')
        else if first < tm_next_row_id metadata
        then Err (InvalidFormat ''v3 snapshot first-row-id is lower than next-row-id'')
        else ok_or (InvalidFormat ''next row id overflow'') (checked_add_i64 first added)))
      else Ok (tm_next_row_id metadata))"

definition add_snapshot ::
  "env \<Rightarrow> snapshot \<Rightarrow> table_metadata \<Rightarrow> (table_metadata, error) outcome" where
  "add_snapshot env snapshot metadata =
     (if tm_format_version metadata \<noteq> V1
         \<and> sn_sequence_number snapshot \<le> tm_last_sequence_number metadata
      then Err (CommitConflict (env_uuid_to_string env (tm_table_uuid metadata)))
      else rbind (next_row_id_after metadata snapshot) (\<lambda>next.
        Ok (metadata\<lparr>
          tm_next_row_id := next,
          tm_snapshot_log := tm_snapshot_log metadata @
            [\<lparr>slg_snapshot_id = sn_snapshot_id snapshot, slg_timestamp_ms = sn_timestamp_ms snapshot\<rparr>],
          tm_last_sequence_number := sn_sequence_number snapshot,
          tm_snapshots := (tm_snapshots metadata)(sn_snapshot_id snapshot \<mapsto> snapshot)\<rparr>)))"

definition remove_keys :: "'k list \<Rightarrow> ('k \<rightharpoonup> 'v) \<Rightarrow> ('k \<rightharpoonup> 'v)" where
  "remove_keys ks m = fold (\<lambda>k m. m(k := None)) ks m"

definition remove_snapshots :: "i64 list \<Rightarrow> table_metadata \<Rightarrow> table_metadata" where
  "remove_snapshots ids metadata =
     (let snapshots = remove_keys ids (tm_snapshots metadata)
      in metadata\<lparr>tm_snapshots := snapshots,
           tm_snapshot_log :=
             filter (\<lambda>e. snapshots (slg_snapshot_id e) \<noteq> None) (tm_snapshot_log metadata)\<rparr>)"

definition set_snapshot_ref :: "string \<Rightarrow> snapshot_reference \<Rightarrow> table_metadata \<Rightarrow> table_metadata" where
  "set_snapshot_ref ref_name r metadata =
     (let m = (if ref_name = ''main''
               then metadata\<lparr>tm_current_snapshot_id := Some (sr_snapshot_id r)\<rparr> else metadata)
      in m\<lparr>tm_refs := (tm_refs m)(ref_name \<mapsto> r)\<rparr>)"

fun apply_table_update :: "env \<Rightarrow> apply_state \<Rightarrow> table_update \<Rightarrow> (apply_state, error) outcome" where
  "apply_table_update env st (UpgradeFormatVersion v) =
     (if i32_from_FormatVersion (tm_format_version (ap_metadata st)) \<noteq> v
      then Panic ''not implemented: Table format upgrade'' else Ok st)"
| "apply_table_update env st (AssignUuid uuid) =
     rbind (ok_or (UuidError uuid) (env_parse_uuid env uuid)) (\<lambda>u.
     Ok (st\<lparr>ap_metadata := (ap_metadata st)\<lparr>tm_table_uuid := u\<rparr>\<rparr>))"
| "apply_table_update env st (AddSchema schema last_column_id) =
     (let m = (ap_metadata st)\<lparr>tm_schemas :=
                (tm_schemas (ap_metadata st))(sch_schema_id schema \<mapsto> schema)\<rparr>;
          m' = (case last_column_id of Some i \<Rightarrow> m\<lparr>tm_last_column_id := i\<rparr> | None \<Rightarrow> m)
      in Ok (st\<lparr>ap_metadata := m', ap_added_schema_id := Some (sch_schema_id schema)\<rparr>))"
| "apply_table_update env st (SetCurrentSchema schema_id) =
     rbind (resolve_last ''Cannot set current schema to -1 without adding a schema first''
              schema_id (ap_added_schema_id st)) (\<lambda>i.
     Ok (st\<lparr>ap_metadata := (ap_metadata st)\<lparr>tm_current_schema_id := i\<rparr>\<rparr>))"
| "apply_table_update env st (AddSpec spec) =
     Ok (st\<lparr>ap_metadata := (ap_metadata st)\<lparr>tm_partition_specs :=
              (tm_partition_specs (ap_metadata st))(ps_spec_id spec \<mapsto> spec)\<rparr>,
            ap_added_spec_id := Some (ps_spec_id spec)\<rparr>)"
| "apply_table_update env st (SetDefaultSpec spec_id) =
     rbind (resolve_last ''Cannot set default spec to -1 without adding a spec first''
              spec_id (ap_added_spec_id st)) (\<lambda>i.
     Ok (st\<lparr>ap_metadata := (ap_metadata st)\<lparr>tm_default_spec_id := i\<rparr>\<rparr>))"
| "apply_table_update env st (AddSortOrder sort_order) =
     Ok (st\<lparr>ap_metadata := (ap_metadata st)\<lparr>tm_sort_orders :=
              (tm_sort_orders (ap_metadata st))(so_order_id sort_order \<mapsto> sort_order)\<rparr>,
            ap_added_sort_order_id := Some (so_order_id sort_order)\<rparr>)"
| "apply_table_update env st (SetDefaultSortOrder sort_order_id) =
     rbind (resolve_last ''Cannot set default sort order to -1 without adding a sort order first''
              sort_order_id (ap_added_sort_order_id st)) (\<lambda>i.
     Ok (st\<lparr>ap_metadata := (ap_metadata st)\<lparr>tm_default_sort_order_id := i\<rparr>\<rparr>))"
| "apply_table_update env st (AddSnapshot snapshot) =
     rbind (add_snapshot env snapshot (ap_metadata st)) (\<lambda>m. Ok (st\<lparr>ap_metadata := m\<rparr>))"
| "apply_table_update env st (SetSnapshotRef ref_name r) =
     Ok (st\<lparr>ap_metadata := set_snapshot_ref ref_name r (ap_metadata st)\<rparr>)"
| "apply_table_update env st (RemoveSnapshots snapshot_ids) =
     Ok (st\<lparr>ap_metadata := remove_snapshots snapshot_ids (ap_metadata st)\<rparr>)"
| "apply_table_update env st (RemoveSnapshotRef ref_name) =
     Ok (st\<lparr>ap_metadata := (ap_metadata st)\<lparr>tm_refs := (tm_refs (ap_metadata st))(ref_name := None)\<rparr>\<rparr>)"
| "apply_table_update env st (SetLocation location) =
     Ok (st\<lparr>ap_metadata := (ap_metadata st)\<lparr>tm_location := location\<rparr>\<rparr>)"
| "apply_table_update env st (SetProperties updates) =
     Ok (st\<lparr>ap_metadata := (ap_metadata st)\<lparr>tm_properties := tm_properties (ap_metadata st) ++ updates\<rparr>\<rparr>)"
| "apply_table_update env st (RemoveProperties removals) =
     Ok (st\<lparr>ap_metadata := (ap_metadata st)\<lparr>tm_properties :=
              remove_keys removals (tm_properties (ap_metadata st))\<rparr>\<rparr>)"

definition apply_table_updates ::
  "env \<Rightarrow> table_metadata \<Rightarrow> table_update list \<Rightarrow> (table_metadata, error) outcome" where
  "apply_table_updates env metadata updates =
     rbind (try_fold (apply_table_update env) (apply_init metadata) updates) (\<lambda>st.
     Ok ((ap_metadata st)\<lparr>tm_last_updated_ms := env_now_ms env\<rparr>))"

fun apply_view_update ::
  "env \<Rightarrow> 't view_metadata \<Rightarrow> 't view_update \<Rightarrow> ('t view_metadata, error) outcome" where
  "apply_view_update env vm (ViewUpgradeFormatVersion v) =
     (if i32_from_ViewFormatVersion (vm_format_version vm) \<noteq> v
      then Panic ''not implemented: Upgrade of format version'' else Ok vm)"
| "apply_view_update env vm (ViewAssignUuid uuid) =
     rbind (ok_or (UuidError uuid) (env_parse_uuid env uuid)) (\<lambda>u. Ok (vm\<lparr>vm_view_uuid := u\<rparr>))"
| "apply_view_update env vm (ViewAddSchema schema _) =
     Ok (vm\<lparr>vm_schemas := (vm_schemas vm)(sch_schema_id schema \<mapsto> schema)\<rparr>)"
| "apply_view_update env vm (ViewSetLocation location) = Ok (vm\<lparr>vm_location := location\<rparr>)"
| "apply_view_update env vm (ViewSetProperties updates) =
     Ok (vm\<lparr>vm_properties := vm_properties vm ++ updates\<rparr>)"
| "apply_view_update env vm (ViewRemoveProperties removals) =
     Ok (vm\<lparr>vm_properties := remove_keys removals (vm_properties vm)\<rparr>)"
| "apply_view_update env vm (AddViewVersion version) =
     Ok (vm\<lparr>vm_versions := (vm_versions vm)(vv_version_id version \<mapsto> version)\<rparr>)"
| "apply_view_update env vm (SetCurrentViewVersion i) = Ok (vm\<lparr>vm_current_version_id := i\<rparr>)"

definition apply_view_updates ::
  "env \<Rightarrow> 't view_metadata \<Rightarrow> 't view_update list \<Rightarrow> ('t view_metadata, error) outcome" where
  "apply_view_updates env metadata updates = try_fold (apply_view_update env) metadata updates"

section \<open>Invariants of table metadata\<close>

text \<open>The snapshot log names only snapshots the table still has.\<close>

definition log_live :: "table_metadata \<Rightarrow> bool" where
  "log_live tm \<longleftrightarrow> (\<forall>e \<in> set (tm_snapshot_log tm). tm_snapshots tm (slg_snapshot_id e) \<noteq> None)"

text \<open>
  From format version 2 on, sequence numbers are distinct and bounded by the last one.
\<close>

definition seq_ok :: "table_metadata \<Rightarrow> bool" where
  "seq_ok tm \<longleftrightarrow> tm_format_version tm \<noteq> V1 \<longrightarrow>
     (\<forall>i s. tm_snapshots tm i = Some s \<longrightarrow> sn_sequence_number s \<le> tm_last_sequence_number tm)
     \<and> (\<forall>i j s t. tm_snapshots tm i = Some s \<longrightarrow> tm_snapshots tm j = Some t \<longrightarrow>
          sn_sequence_number s = sn_sequence_number t \<longrightarrow> i = j)"

text \<open>The row ids a snapshot assigns, and that no two snapshots of a V3 table share one.\<close>

definition row_range :: "snapshot \<Rightarrow> int set" where
  "row_range s = (case (sn_first_row_id s, sn_added_rows s) of
     (Some f, Some a) \<Rightarrow> {f ..< f + a} | _ \<Rightarrow> {})"

definition lineage_ok :: "table_metadata \<Rightarrow> bool" where
  "lineage_ok tm \<longleftrightarrow> tm_format_version tm = V3 \<longrightarrow>
     (\<forall>i s. tm_snapshots tm i = Some s \<longrightarrow> row_range s \<subseteq> {..< tm_next_row_id tm})
     \<and> (\<forall>i j s t. tm_snapshots tm i = Some s \<longrightarrow> tm_snapshots tm j = Some t \<longrightarrow> i \<noteq> j \<longrightarrow>
          row_range s \<inter> row_range t = {})"

text \<open>Where there is a main reference, it is the current snapshot.\<close>

definition main_is_current :: "table_metadata \<Rightarrow> bool" where
  "main_is_current tm \<longleftrightarrow> (\<forall>r. tm_refs tm ''main'' = Some r \<longrightarrow>
     tm_current_snapshot_id tm = Some (sr_snapshot_id r))"

definition tm_inv :: "table_metadata \<Rightarrow> bool" where
  "tm_inv tm \<longleftrightarrow> tm_keyed tm \<and> log_live tm \<and> seq_ok tm \<and> lineage_ok tm \<and> main_is_current tm"

lemmas tm_inv_defs =
  tm_inv_def tm_keyed_def log_live_def seq_ok_def lineage_ok_def main_is_current_def

lemma remove_keys_apply: "remove_keys ks m k = (if k \<in> set ks then None else m k)"
  unfolding remove_keys_def by (induction ks arbitrary: m) auto

lemma remove_keys_Some [simp]: "remove_keys ks m k = Some v \<longleftrightarrow> k \<notin> set ks \<and> m k = Some v"
  by (simp add: remove_keys_apply)

lemma keyed_remove_keys [simp]: "keyed key m \<Longrightarrow> keyed key (remove_keys ks m)"
  by (auto simp: keyed_def)

text \<open>When adding a snapshot succeeds, and with what.\<close>

lemma next_row_id_after_Ok:
  "next_row_id_after tm s = Ok n \<longleftrightarrow>
     (if tm_format_version tm = V3
      then \<exists>f a. sn_first_row_id s = Some f \<and> sn_added_rows s = Some a \<and> 0 \<le> f \<and> 0 \<le> a
             \<and> tm_next_row_id tm \<le> f \<and> in_i64 (f + a) \<and> n = f + a
      else n = tm_next_row_id tm)"
  by (cases "sn_first_row_id s"; cases "sn_added_rows s")
    (auto simp: next_row_id_after_def checked_add_i64_Some)

lemma add_snapshot_Ok:
  "add_snapshot env s tm = Ok tm' \<longleftrightarrow>
     (tm_format_version tm \<noteq> V1 \<longrightarrow> tm_last_sequence_number tm < sn_sequence_number s)
     \<and> (\<exists>n. next_row_id_after tm s = Ok n
         \<and> tm' = tm\<lparr>tm_next_row_id := n,
              tm_snapshot_log := tm_snapshot_log tm @
                [\<lparr>slg_snapshot_id = sn_snapshot_id s, slg_timestamp_ms = sn_timestamp_ms s\<rparr>],
              tm_last_sequence_number := sn_sequence_number s,
              tm_snapshots := (tm_snapshots tm)(sn_snapshot_id s \<mapsto> s)\<rparr>)"
  by (auto simp: add_snapshot_def)

lemma next_row_id_after_grows:
  assumes "next_row_id_after tm s = Ok n"
  shows "tm_next_row_id tm \<le> n"
    and "tm_format_version tm = V3 \<Longrightarrow> row_range s \<subseteq> {tm_next_row_id tm ..< n}"
  using assms by (auto simp: next_row_id_after_Ok row_range_def split: if_splits)

lemma seq_ok_add:
  assumes inv: "seq_ok tm"
    and seq: "tm_format_version tm \<noteq> V1 \<Longrightarrow> tm_last_sequence_number tm < sn_sequence_number s"
    and tm': "tm_format_version tm' = tm_format_version tm"
      "tm_snapshots tm' = (tm_snapshots tm)(k \<mapsto> s)"
      "tm_last_sequence_number tm' = sn_sequence_number s"
  shows "seq_ok tm'"
proof (cases "tm_format_version tm = V1")
  case False
  have old: "\<And>i t. tm_snapshots tm i = Some t \<Longrightarrow> sn_sequence_number t < sn_sequence_number s"
    "\<And>i j t u. tm_snapshots tm i = Some t \<Longrightarrow> tm_snapshots tm j = Some u \<Longrightarrow>
       sn_sequence_number t = sn_sequence_number u \<Longrightarrow> i = j"
    using inv seq [OF False] False unfolding seq_ok_def by force+
  have "sn_sequence_number t \<le> sn_sequence_number s" if "tm_snapshots tm' i = Some t" for i t
    using that old(1) [of i t] by (auto simp: tm' split: if_splits)
  moreover have "i = j" if "tm_snapshots tm' i = Some t" "tm_snapshots tm' j = Some u"
    "sn_sequence_number t = sn_sequence_number u" for i j t u
    using that old(1) [of i t] old(1) [of j u] old(2) [of i t j u] by (auto simp: tm' split: if_splits)
  ultimately show ?thesis
    by (simp add: seq_ok_def tm'(3))
qed (simp add: seq_ok_def tm')

lemma lineage_ok_add:
  assumes "lineage_ok tm" "next_row_id_after tm s = Ok n"
    and tm': "tm_format_version tm' = tm_format_version tm" "tm_next_row_id tm' = n"
      "tm_snapshots tm' = (tm_snapshots tm)(k \<mapsto> s)"
  shows "lineage_ok tm'"
proof (cases "tm_format_version tm = V3")
  case True
  have n: "tm_next_row_id tm \<le> n" "row_range s \<subseteq> {tm_next_row_id tm ..< n}"
    using next_row_id_after_grows [OF assms(2)] True by auto
  have old: "\<And>i t. tm_snapshots tm i = Some t \<Longrightarrow> row_range t \<subseteq> {..< tm_next_row_id tm}"
    "\<And>i j t u. tm_snapshots tm i = Some t \<Longrightarrow> tm_snapshots tm j = Some u \<Longrightarrow> i \<noteq> j \<Longrightarrow>
       row_range t \<inter> row_range u = {}"
    using assms(1) True unfolding lineage_ok_def by auto
  have 1: "row_range t \<subseteq> {..< n}" if "((tm_snapshots tm)(k \<mapsto> s)) i = Some t" for i t
    using that n old(1) [of i t] by (auto split: if_splits)
  have d: "row_range t \<inter> row_range s = {}" if "tm_snapshots tm i = Some t" for i t
    using n(2) old(1) [OF that] by force
  have 2: "row_range t \<inter> row_range u = {}"
    if "((tm_snapshots tm)(k \<mapsto> s)) i = Some t" "((tm_snapshots tm)(k \<mapsto> s)) j = Some u" "i \<noteq> j" for i j t u
    using that d [of i t] d [of j u] old(2) [of i t j u] by (auto split: if_splits)
  show ?thesis
    unfolding lineage_ok_def tm' using 1 2 by blast
qed (simp add: lineage_ok_def tm')

lemma tm_inv_add_snapshot:
  assumes "tm_inv tm" "add_snapshot env s tm = Ok tm'"
  shows "tm_inv tm'"
proof -
  from assms(2) obtain n where n: "next_row_id_after tm s = Ok n"
    and seq: "tm_format_version tm \<noteq> V1 \<Longrightarrow> tm_last_sequence_number tm < sn_sequence_number s"
    and tm': "tm' = tm\<lparr>tm_next_row_id := n,
              tm_snapshot_log := tm_snapshot_log tm @
                [\<lparr>slg_snapshot_id = sn_snapshot_id s, slg_timestamp_ms = sn_timestamp_ms s\<rparr>],
              tm_last_sequence_number := sn_sequence_number s,
              tm_snapshots := (tm_snapshots tm)(sn_snapshot_id s \<mapsto> s)\<rparr>"
    by (auto simp: add_snapshot_Ok)
  have inv: "seq_ok tm" "lineage_ok tm"
    using assms(1) by (simp_all add: tm_inv_def)
  have "seq_ok tm'"
    by (rule seq_ok_add [OF inv(1) seq]) (simp_all add: tm')
  moreover have "lineage_ok tm'"
    by (rule lineage_ok_add [OF inv(2) n]) (simp_all add: tm')
  ultimately show ?thesis
    using assms(1) by (auto simp: tm_inv_def tm' tm_keyed_def log_live_def main_is_current_def)
qed

text \<open>
  The rest of the invariant only looks at a few fields and is kept when the snapshots
  become fewer.
\<close>

lemma tm_inv_frame:
  assumes "tm_inv tm" "tm_format_version tm' = tm_format_version tm"
    "\<And>i s. tm_snapshots tm' i = Some s \<Longrightarrow> tm_snapshots tm i = Some s"
    "tm_last_sequence_number tm' = tm_last_sequence_number tm"
    "tm_next_row_id tm' = tm_next_row_id tm"
    "log_live tm'" "main_is_current tm'"
    "keyed sch_schema_id (tm_schemas tm')" "keyed ps_spec_id (tm_partition_specs tm')"
    "keyed so_order_id (tm_sort_orders tm')"
  shows "tm_inv tm'"
proof -
  have "seq_ok tm'"
    using assms(1-5) unfolding tm_inv_def seq_ok_def by metis
  moreover have "lineage_ok tm'"
    using assms(1-5) unfolding tm_inv_def lineage_ok_def by metis
  moreover have "keyed sn_snapshot_id (tm_snapshots tm')"
    using assms(1,3) unfolding tm_inv_def tm_keyed_def keyed_def by metis
  ultimately show ?thesis
    using assms by (simp add: tm_inv_def tm_keyed_def)
qed

lemma tm_inv_parts:
  assumes "tm_inv tm"
  shows "log_live tm" "main_is_current tm" "keyed sch_schema_id (tm_schemas tm)"
    "keyed ps_spec_id (tm_partition_specs tm)" "keyed so_order_id (tm_sort_orders tm)"
  using assms by (simp_all add: tm_inv_def tm_keyed_def)

lemma tm_inv_remove_snapshots:
  assumes "tm_inv tm" shows "tm_inv (remove_snapshots ids tm)"
  by (rule tm_inv_frame [OF assms]; use tm_inv_parts [OF assms] in
    \<open>auto simp: remove_snapshots_def Let_def log_live_def main_is_current_def\<close>)

lemma tm_inv_set_snapshot_ref:
  assumes "tm_inv tm" shows "tm_inv (set_snapshot_ref n r tm)"
  by (rule tm_inv_frame [OF assms]; use tm_inv_parts [OF assms] in
    \<open>auto simp: set_snapshot_ref_def Let_def log_live_def main_is_current_def split: if_splits\<close>)

lemma tm_inv_step:
  assumes "tm_inv (ap_metadata st)" "apply_table_update env st u = Ok st'"
  shows "tm_inv (ap_metadata st')"
proof (cases u)
  case (AddSnapshot s)
  with assms show ?thesis by (auto intro: tm_inv_add_snapshot)
next
  case (RemoveSnapshots ids)
  with assms show ?thesis by (auto intro: tm_inv_remove_snapshots)
next
  case (SetSnapshotRef n r)
  with assms show ?thesis by (auto intro: tm_inv_set_snapshot_ref)
qed (rule tm_inv_frame [OF assms(1)]; use assms(2) tm_inv_parts [OF assms(1)] in
       \<open>auto simp: log_live_def main_is_current_def Let_def split: option.splits if_splits\<close>)+

text \<open>What no update list changes or lowers.\<close>

lemma monotone_step:
  assumes "apply_table_update env st u = Ok st'"
  shows "tm_format_version (ap_metadata st') = tm_format_version (ap_metadata st)
    \<and> tm_next_row_id (ap_metadata st) \<le> tm_next_row_id (ap_metadata st')
    \<and> (tm_format_version (ap_metadata st) \<noteq> V1 \<longrightarrow>
         tm_last_sequence_number (ap_metadata st) \<le> tm_last_sequence_number (ap_metadata st'))"
proof (cases u)
  case (AddSnapshot s)
  with assms show ?thesis by (auto simp: add_snapshot_Ok dest: next_row_id_after_grows)
qed (use assms in \<open>auto simp: remove_snapshots_def set_snapshot_ref_def Let_def
       split: option.splits if_splits\<close>)

lemma apply_updates_inv:
  assumes "tm_inv tm" "apply_table_updates env tm us = Ok tm'"
  shows "tm_inv tm' \<and> tm_format_version tm' = tm_format_version tm
    \<and> tm_next_row_id tm \<le> tm_next_row_id tm'
    \<and> (tm_format_version tm \<noteq> V1 \<longrightarrow> tm_last_sequence_number tm \<le> tm_last_sequence_number tm')"
proof -
  obtain st where st: "try_fold (apply_table_update env) (apply_init tm) us = Ok st"
    "tm' = (ap_metadata st)\<lparr>tm_last_updated_ms := env_now_ms env\<rparr>"
    using assms(2) by (auto simp: apply_table_updates_def)
  let ?I = "\<lambda>st. tm_inv (ap_metadata st)
    \<and> tm_format_version (ap_metadata st) = tm_format_version tm
    \<and> tm_next_row_id tm \<le> tm_next_row_id (ap_metadata st)
    \<and> (tm_format_version tm \<noteq> V1 \<longrightarrow>
         tm_last_sequence_number tm \<le> tm_last_sequence_number (ap_metadata st))"
  have "?I st"
  proof (rule try_fold_inv [OF st(1)])
    show "?I (apply_init tm)" using assms(1) by (simp add: apply_init_def)
    show "?I s'" if "?I s" "apply_table_update env s u = Ok s'" for s u s'
      using that tm_inv_step [OF _ that(2)] monotone_step [OF that(2)] by (simp, linarith?)
  qed
  then have inv: "tm_inv (ap_metadata st)" and rest: "?I st" by simp_all
  have "tm_inv tm'"
    by (rule tm_inv_frame [OF inv]; use tm_inv_parts [OF inv] in
      \<open>simp add: st(2) log_live_def main_is_current_def\<close>)
  with rest show ?thesis
    by (simp add: st(2))
qed

text \<open>
  C1. Applying any list of updates keeps the invariant of table metadata: maps keyed by the
  ids of their values, a snapshot log that names only existing snapshots, distinct sequence
  numbers below the last one, disjoint row-id ranges below the next row id, and a main
  reference that agrees with the current snapshot. The format version stays, and neither the
  next row id nor (from V2 on) the last sequence number ever decreases.
\<close>

theorem apply_table_updates_invariant:
  assumes "tm_inv tm" "apply_table_updates env tm us = Ok tm'"
  shows "tm_inv tm' \<and> tm_format_version tm' = tm_format_version tm
    \<and> tm_next_row_id tm \<le> tm_next_row_id tm'
    \<and> (tm_format_version tm \<noteq> V1 \<longrightarrow> tm_last_sequence_number tm \<le> tm_last_sequence_number tm')"
  using assms by (rule apply_updates_inv)

lemma tm_inv_sample: "tm_inv (sample_table v)"
proof -
  have "tm_keyed (sample_table v)" by (rule sample_facts)
  then show ?thesis
    by (auto simp: tm_inv_def log_live_def seq_ok_def lineage_ok_def main_is_current_def
        sample_table_def sample_snapshot_def row_range_def split: if_splits)
qed

definition sample_env :: env where
  "sample_env =
     \<lparr>env_parse_uuid = (\<lambda>s. if s = ''u'' then Some 3 else None),
      env_uuid_to_string = (\<lambda>u. ''uuid''), env_now_ms = 200\<rparr>"

definition sample_next_snapshot :: snapshot where
  "sample_next_snapshot = sample_snapshot\<lparr>sn_snapshot_id := 8, sn_parent_snapshot_id := Some 7,
     sn_sequence_number := 2, sn_first_row_id := Some 5, sn_added_rows := Some 10\<rparr>"

theorem apply_table_updates_invariant_witness:
  "\<exists>tm'. apply_table_updates sample_env (sample_table V3)
      [AddSnapshot sample_next_snapshot,
       SetSnapshotRef ''main'' \<lparr>sr_snapshot_id = 8, sr_retention = SnapshotRetention_default\<rparr>] = Ok tm'
    \<and> tm_inv tm' \<and> tm_next_row_id tm' = 15"
proof -
  let ?us = "[AddSnapshot sample_next_snapshot,
       SetSnapshotRef ''main'' \<lparr>sr_snapshot_id = 8, sr_retention = SnapshotRetention_default\<rparr>]"
  obtain tm' where tm': "apply_table_updates sample_env (sample_table V3) ?us = Ok tm'"
    "tm_next_row_id tm' = 15"
    by (simp add: apply_table_updates_def apply_init_def add_snapshot_def next_row_id_after_def
        sample_next_snapshot_def sample_snapshot_def sample_table_def checked_add_i64_def in_i64_def
        set_snapshot_ref_def)
  with apply_table_updates_invariant [OF tm_inv_sample tm'(1)] show ?thesis by blast
qed



section \<open>References and conflicts\<close>

text \<open>How one update changes the reference \<open>n\<close>; the other updates leave references alone.\<close>

fun ref_effect :: "string \<Rightarrow> table_update \<Rightarrow> snapshot_reference option \<Rightarrow> snapshot_reference option" where
  "ref_effect n (SetSnapshotRef m r) old = (if m = n then Some r else old)"
| "ref_effect n (RemoveSnapshotRef m) old = (if m = n then None else old)"
| "ref_effect n _ old = old"

lemma ref_effect_step:
  assumes "apply_table_update env st u = Ok st'"
  shows "tm_refs (ap_metadata st') n = ref_effect n u (tm_refs (ap_metadata st) n)"
proof (cases u)
  case (SetSnapshotRef m r)
  with assms show ?thesis by (auto simp: set_snapshot_ref_def Let_def)
qed (use assms in \<open>auto simp: add_snapshot_Ok remove_snapshots_def Let_def split: option.splits if_splits\<close>)

lemma refs_after:
  assumes "apply_table_updates env tm us = Ok tm'"
  shows "tm_refs tm' n = fold (ref_effect n) us (tm_refs tm n)"
proof -
  have "tm_refs (ap_metadata st') n = fold (ref_effect n) us (tm_refs (ap_metadata st) n)"
    if "try_fold (apply_table_update env) st us = Ok st'" for st st'
    using that by (induction us arbitrary: st) (auto dest: ref_effect_step [where n = n])
  then show ?thesis
    using assms by (force simp: apply_table_updates_def apply_init_def)
qed

lemma fold_ref_effect_moves:
  assumes "\<forall>r. SetSnapshotRef n r \<in> set us \<longrightarrow> P r" "RemoveSnapshotRef n \<notin> set us"
    and "(\<exists>r. SetSnapshotRef n r \<in> set us) \<or> (\<exists>r. x = Some r \<and> P r)"
  shows "\<exists>r. fold (ref_effect n) us x = Some r \<and> P r"
  using assms
proof (induction us arbitrary: x)
  case (Cons u us)
  have "ref_effect n u x = x \<and> (\<forall>r. u \<noteq> SetSnapshotRef n r)
     \<or> (\<exists>r. u = SetSnapshotRef n r \<and> ref_effect n u x = Some r \<and> P r)"
    using Cons.prems(1,2) by (cases u) auto
  then show ?case
    using Cons.IH [of "ref_effect n u x"] Cons.prems by auto
qed auto

text \<open>
  C3. A commit that moves a reference away from the snapshot it was built on makes every other
  commit built on that snapshot fail its requirement: after the updates succeed, the
  requirement that the reference still names the old snapshot no longer holds.
\<close>

theorem moved_reference_is_detected:
  assumes "apply_table_updates env tm us = Ok tm'"
    "SetSnapshotRef n r \<in> set us"
    "\<forall>r'. SetSnapshotRef n r' \<in> set us \<longrightarrow> Some (sr_snapshot_id r') \<noteq> base"
    "RemoveSnapshotRef n \<notin> set us"
    "AssertRefSnapshotId n base \<in> set reqs"
  shows "\<not> check_table_requirements reqs tm'"
proof -
  have "\<exists>r. tm_refs tm' n = Some r \<and> Some (sr_snapshot_id r) \<noteq> base"
    unfolding refs_after [OF assms(1)]
    using assms(2-4) by (intro fold_ref_effect_moves) auto
  then show ?thesis
    using assms(5) by (auto simp: check_table_requirements_def list_all_iff table_requirement_holds_def
        intro!: bexI [of _ "AssertRefSnapshotId n base"])
qed

theorem moved_reference_is_detected_witness:
  "\<exists>tm'. apply_table_updates sample_env (sample_table V3)
      [AddSnapshot sample_next_snapshot,
       SetSnapshotRef ''main'' \<lparr>sr_snapshot_id = 8, sr_retention = SnapshotRetention_default\<rparr>] = Ok tm'
    \<and> check_table_requirements [AssertRefSnapshotId ''main'' (Some 7)] (sample_table V3)
    \<and> \<not> check_table_requirements [AssertRefSnapshotId ''main'' (Some 7)] tm'"
proof -
  let ?r = "\<lparr>sr_snapshot_id = 8, sr_retention = SnapshotRetention_default\<rparr>"
  let ?us = "[AddSnapshot sample_next_snapshot, SetSnapshotRef ''main'' ?r]"
  obtain tm' where tm': "apply_table_updates sample_env (sample_table V3) ?us = Ok tm'"
    by (simp add: apply_table_updates_def apply_init_def add_snapshot_def next_row_id_after_def
        sample_next_snapshot_def sample_snapshot_def sample_table_def checked_add_i64_def in_i64_def
        set_snapshot_ref_def)
  have "\<not> check_table_requirements [AssertRefSnapshotId ''main'' (Some 7)] tm'"
    by (rule moved_reference_is_detected [OF tm', of "''main''" ?r]) auto
  with tm' show ?thesis
    by (auto simp: check_table_requirements_def table_requirement_holds_def sample_table_def)
qed

text \<open>
  Finding: removing the main reference does not remove the current snapshot. The branch is
  gone from the references, the table still answers with the old snapshot, and a write and a
  read bring the reference back.
\<close>

theorem removed_main_comes_back:
  assumes "tm_inv tm" "admissible ks tm" "tm_schemas tm (tm_current_schema_id tm) \<noteq> None"
    "tm_current_snapshot_id tm = Some i" "i \<noteq> -1" "tm_format_version tm \<noteq> V1"
  shows "\<exists>tm' tm''. apply_table_updates env tm [RemoveSnapshotRef ''main''] = Ok tm'
     \<and> tm_refs tm' ''main'' = None
     \<and> current_snapshot tm' None = Ok (tm_snapshots tm i)
     \<and> rbind (TableMetadataEnum_from ks tm') TableMetadata_from_enum = Ok tm''
     \<and> map_option sr_snapshot_id (tm_refs tm'' ''main'') = Some i"
proof -
  let ?tm' = "tm\<lparr>tm_refs := (tm_refs tm)(''main'' := None), tm_last_updated_ms := env_now_ms env\<rparr>"
  have k: "tm_keyed tm" using assms(1) by (simp add: tm_inv_def)
  obtain tm'' where r: "rbind (TableMetadataEnum_from ks ?tm') TableMetadata_from_enum = Ok tm''"
     "map_option sr_snapshot_id (tm_refs tm'' ''main'') = Some i"
    using assms(2-6) k
    by atomize_elim (cases "tm_format_version tm"; auto simp: TableMetadataEnum_from_def TableMetadata_from_enum_def TableMetadata_from_V2_def
        TableMetadataV2_from_def TableMetadata_from_V3_def TableMetadataV3_from_def schemas_roundtrip
        snapshot_id_or_minus_one_def admissible_def tm_keyed_def keyed_roundtrip or_insert_def
        MAIN_BRANCH_def Let_def)
  have a: "apply_table_updates env tm [RemoveSnapshotRef ''main''] = Ok ?tm'"
    by (simp add: apply_table_updates_def apply_init_def)
  have c: "current_snapshot ?tm' None = Ok (tm_snapshots tm i)"
    using assms(4) by (simp add: current_snapshot_def ref_snapshot_id_def)
  show ?thesis
    by (rule exI [of _ ?tm'], rule exI [of _ tm'']) (use a c r in simp)
qed

theorem removed_main_comes_back_witness:
  "\<exists>tm' tm''. apply_table_updates sample_env (sample_table V3) [RemoveSnapshotRef ''main''] = Ok tm'
     \<and> tm_refs tm' ''main'' = None
     \<and> current_snapshot tm' None = Ok (tm_snapshots (sample_table V3) 7)
     \<and> rbind (TableMetadataEnum_from sample_orders tm') TableMetadata_from_enum = Ok tm''
     \<and> map_option sr_snapshot_id (tm_refs tm'' ''main'') = Some 7"
  by (rule removed_main_comes_back [OF tm_inv_sample sample_facts(1) sample_facts(4)])
    (simp_all add: sample_table_def)

section \<open>Views\<close>

lemma view_log_step: "apply_view_update env vm u = Ok vm' \<Longrightarrow> vm_version_log vm' = vm_version_log vm"
  by (cases u) (auto split: if_splits)

text \<open>
  Adding a view version and setting it as the current one makes it the current version.
  Finding: no list of view updates ever extends the version log, so it does not record the
  change of the current version.
\<close>

theorem view_version_commit:
  "(\<exists>vm'. apply_view_updates env vm [AddViewVersion v, SetCurrentViewVersion (vv_version_id v)] = Ok vm'
      \<and> view_current_version vm' None = Ok v)
   \<and> (\<forall>us vm'. apply_view_updates env vm us = Ok vm' \<longrightarrow> vm_version_log vm' = vm_version_log vm)"
proof (intro conjI allI impI)
  show "\<exists>vm'. apply_view_updates env vm [AddViewVersion v, SetCurrentViewVersion (vv_version_id v)] = Ok vm'
      \<and> view_current_version vm' None = Ok v"
    by (simp add: apply_view_updates_def view_current_version_def)
  show "vm_version_log vm' = vm_version_log vm" if "apply_view_updates env vm us = Ok vm'" for us vm'
    by (rule try_fold_inv [OF that [unfolded apply_view_updates_def],
          where I = "\<lambda>w. vm_version_log w = vm_version_log vm"]) (auto dest: view_log_step)
qed

theorem view_version_commit_witness:
  "\<exists>vm'. apply_view_updates sample_env sample_view [ViewSetLocation ''s3://w''] = Ok vm'
     \<and> vm_version_log vm' = vm_version_log sample_view"
proof -
  obtain vm' where vm': "apply_view_updates sample_env sample_view [ViewSetLocation ''s3://w''] = Ok vm'"
    by (simp add: apply_view_updates_def)
  with view_version_commit [of sample_env sample_view sample_version] show ?thesis by blast
qed

section \<open>Snapshots as requests for row ids\<close>

text \<open>
  Adding a V3 snapshot takes the row ids that the snapshot names; it may skip some.
\<close>

definition add_snapshot_request ::
  "env \<Rightarrow> table_metadata \<Rightarrow> snapshot \<Rightarrow> (table_metadata \<times> snapshot, error) outcome" where
  "add_snapshot_request env metadata snapshot =
     rbind (add_snapshot env snapshot metadata) (\<lambda>m. Ok (m, snapshot))"

definition snapshot_rows :: "snapshot \<Rightarrow> i64" where
  "snapshot_rows sn = (case sn_added_rows sn of Some n \<Rightarrow> n | None \<Rightarrow> 0)"

interpretation snapshot_ids: row_ids "add_snapshot_request env" tm_next_row_id
  "\<lambda>metadata _. tm_format_version metadata = V3" snapshot_rows sn_first_row_id
  by unfold_locales
    (auto simp: add_snapshot_request_def add_snapshot_def next_row_id_after_def snapshot_rows_def
      checked_add_i64_Some split: if_splits)

end
