(* ===== verification/Manifest.thy ===== *)
theory Manifest
  imports Values Row_Ids Table_Metadata
begin

text \<open>
  Manifest entries and data files (\<open>iceberg-rust-spec/src/spec/manifest.rs\<close>): their V1, V2
  and V3 forms, the decoding of bounds, promotion, and the inheritance of first row ids. A
  column map (\<open>AvroMap\<close>) is a map from field ids; the Avro codec is not modelled.
\<close>

section \<open>Data\<close>

datatype status = Existing | Added | Deleted

datatype content = Data | PositionDeletes | EqualityDeletes

datatype file_format = AvroFile | Orc | Parquet | Puffin

definition Content_try_from :: "string \<Rightarrow> (content, spec_error) outcome" where
  "Content_try_from s =
     (let u = map (\<lambda>c. if 97 \<le> (of_char c :: nat) \<and> (of_char c :: nat) \<le> 122
                       then char_of (of_char c - (32 :: nat)) else c) s
      in if u = ''DATA'' then Ok Data
         else if u = ''POSITION DELETES'' then Ok PositionDeletes
         else if u = ''EQUALITY DELETES'' then Ok EqualityDeletes
         else Err (SConversion ''string'' ''content''))"

definition Content_to_bytes :: "content \<Rightarrow> string" where
  "Content_to_bytes v =
     (case v of Data \<Rightarrow> ''DATA'' | PositionDeletes \<Rightarrow> ''POSITION DELETES''
        | EqualityDeletes \<Rightarrow> ''EQUALITY DELETES'')"

definition FileFormat_serialize :: "file_format \<Rightarrow> string" where
  "FileFormat_serialize f =
     (case f of AvroFile \<Rightarrow> ''AVRO'' | Orc \<Rightarrow> ''ORC'' | Parquet \<Rightarrow> ''PARQUET'' | Puffin \<Rightarrow> ''PUFFIN'')"

definition FileFormat_deserialize :: "string \<Rightarrow> (file_format, de_error) outcome" where
  "FileFormat_deserialize s =
     (if s = ''AVRO'' then Ok AvroFile
      else if s = ''ORC'' then Ok Orc
      else if s = ''PARQUET'' then Ok Parquet
      else if s = ''PUFFIN'' then Ok Puffin
      else Err (Custom ''Invalid data file format.''))"

record data_file =
  df_content :: content
  df_file_path :: string
  df_file_format :: file_format
  df_partition :: struct_value
  df_record_count :: i64
  df_file_size_in_bytes :: i64
  df_column_sizes :: "(i32 \<rightharpoonup> i64) option"
  df_value_counts :: "(i32 \<rightharpoonup> i64) option"
  df_null_value_counts :: "(i32 \<rightharpoonup> i64) option"
  df_nan_value_counts :: "(i32 \<rightharpoonup> i64) option"
  df_distinct_counts :: "(i32 \<rightharpoonup> i64) option"
  df_lower_bounds :: "(i32 \<rightharpoonup> ice_value) option"
  df_upper_bounds :: "(i32 \<rightharpoonup> ice_value) option"
  df_key_metadata :: "byte list option"
  df_split_offsets :: "i64 list option"
  df_equality_ids :: "i32 list option"
  df_sort_order_id :: "i32 option"
  df_first_row_id :: "i64 option"
  df_referenced_data_file :: "string option"
  df_content_offset :: "i64 option"
  df_content_size_in_bytes :: "i64 option"

record data_file_v3 =
  d3_content :: content
  d3_file_path :: string
  d3_file_format :: file_format
  d3_partition :: struct_value
  d3_record_count :: i64
  d3_file_size_in_bytes :: i64
  d3_column_sizes :: "(i32 \<rightharpoonup> i64) option"
  d3_value_counts :: "(i32 \<rightharpoonup> i64) option"
  d3_null_value_counts :: "(i32 \<rightharpoonup> i64) option"
  d3_nan_value_counts :: "(i32 \<rightharpoonup> i64) option"
  d3_lower_bounds :: "(i32 \<rightharpoonup> byte list) option"
  d3_upper_bounds :: "(i32 \<rightharpoonup> byte list) option"
  d3_key_metadata :: "byte list option"
  d3_split_offsets :: "i64 list option"
  d3_equality_ids :: "i32 list option"
  d3_sort_order_id :: "i32 option"
  d3_first_row_id :: "i64 option"
  d3_referenced_data_file :: "string option"
  d3_content_offset :: "i64 option"
  d3_content_size_in_bytes :: "i64 option"

record data_file_v2 =
  d2_content :: content
  d2_file_path :: string
  d2_file_format :: file_format
  d2_partition :: struct_value
  d2_record_count :: i64
  d2_file_size_in_bytes :: i64
  d2_column_sizes :: "(i32 \<rightharpoonup> i64) option"
  d2_value_counts :: "(i32 \<rightharpoonup> i64) option"
  d2_null_value_counts :: "(i32 \<rightharpoonup> i64) option"
  d2_nan_value_counts :: "(i32 \<rightharpoonup> i64) option"
  d2_distinct_counts :: "(i32 \<rightharpoonup> i64) option"
  d2_lower_bounds :: "(i32 \<rightharpoonup> byte list) option"
  d2_upper_bounds :: "(i32 \<rightharpoonup> byte list) option"
  d2_key_metadata :: "byte list option"
  d2_split_offsets :: "i64 list option"
  d2_equality_ids :: "i32 list option"
  d2_sort_order_id :: "i32 option"

record data_file_v1 =
  d1_file_path :: string
  d1_file_format :: file_format
  d1_partition :: struct_value
  d1_record_count :: i64
  d1_file_size_in_bytes :: i64
  d1_block_size_in_bytes :: i64
  d1_file_ordinal :: "i32 option"
  d1_sort_columns :: "i32 list option"
  d1_column_sizes :: "(i32 \<rightharpoonup> i64) option"
  d1_value_counts :: "(i32 \<rightharpoonup> i64) option"
  d1_null_value_counts :: "(i32 \<rightharpoonup> i64) option"
  d1_nan_value_counts :: "(i32 \<rightharpoonup> i64) option"
  d1_distinct_counts :: "(i32 \<rightharpoonup> i64) option"
  d1_lower_bounds :: "(i32 \<rightharpoonup> byte list) option"
  d1_upper_bounds :: "(i32 \<rightharpoonup> byte list) option"
  d1_key_metadata :: "byte list option"
  d1_split_offsets :: "i64 list option"
  d1_sort_order_id :: "i32 option"

record manifest_entry =
  me_format_version :: format_version
  me_status :: status
  me_snapshot_id :: "i64 option"
  me_sequence_number :: "i64 option"
  me_data_file :: data_file

record manifest_entry_v3 =
  e3_status :: status
  e3_snapshot_id :: "i64 option"
  e3_sequence_number :: "i64 option"
  e3_data_file :: data_file_v3

record manifest_entry_v2 =
  e2_status :: status
  e2_snapshot_id :: "i64 option"
  e2_sequence_number :: "i64 option"
  e2_data_file :: data_file_v2

record manifest_entry_v1 =
  e1_status :: status
  e1_snapshot_id :: i64
  e1_data_file :: data_file_v1

datatype manifest_entry_enum =
    EE_V3 manifest_entry_v3 | EE_V2 manifest_entry_v2 | EE_V1 manifest_entry_v1

text \<open>The orders in which the two bound maps of a file are traversed.\<close>

record bound_orders =
  bo_lower :: "i32 list"
  bo_upper :: "i32 list"

section \<open>Bounds\<close>

definition decode_bound :: "value_lib \<Rightarrow> byte list \<Rightarrow> ice_type \<Rightarrow> (ice_value, spec_error) outcome" where
  "decode_bound lib bs t =
     (if length bs = 4 \<and> t = Primitive PLong then Ok (VLongInt (sint_le bs))
      else if length bs = 4 \<and> t = Primitive PDouble
      then Ok (VDouble (vl_f64_from_f32 lib (word_of_int (uint_le bs))))
      else if length bs = 4 \<and> (t = Primitive PTimestamp \<or> t = Primitive PTimestampNs)
      then value_cast lib (VDate (sint_le bs)) t
      else try_from_bytes lib bs t)"

definition decode_bound_for_copy :: "value_lib \<Rightarrow> byte list \<Rightarrow> ice_type \<Rightarrow> (ice_value, spec_error) outcome" where
  "decode_bound_for_copy lib bs t =
     (if length bs = 4 \<and> t = Primitive PLong then try_from_bytes lib bs (Primitive PInt)
      else if length bs = 4 \<and> t = Primitive PDouble then try_from_bytes lib bs (Primitive PFloat)
      else if length bs = 4 \<and> (t = Primitive PTimestamp \<or> t = Primitive PTimestampNs)
      then try_from_bytes lib bs (Primitive PDate)
      else try_from_bytes lib bs t)"

text \<open>\<open>into_value_map\<close>: a field that is not in the schema is dropped.\<close>

definition into_value_map ::
  "value_lib \<Rightarrow> i32 list \<Rightarrow> struct_type \<Rightarrow> (i32 \<rightharpoonup> byte list) \<Rightarrow> (i32 \<rightharpoonup> ice_value, spec_error) outcome" where
  "into_value_map lib ks schema m =
     hm_try_filter_map ks (\<lambda>k v.
       rbind (StructType_get schema (i32_as_usize k)) (\<lambda>f.
       case f of
         None \<Rightarrow> Ok None
       | Some field \<Rightarrow> rbind (decode_bound lib v (ftype field)) (\<lambda>x. Ok (Some x)))) m"

definition bounds_to_bytes ::
  "value_lib \<Rightarrow> i32 list \<Rightarrow> (i32 \<rightharpoonup> ice_value) \<Rightarrow> (i32 \<rightharpoonup> byte list, spec_error) outcome" where
  "bounds_to_bytes lib ks m = hm_try_map ks (value_to_bytes lib) m"

section \<open>Writing: a data file in the forms of the format versions\<close>

text \<open>
  A map of bounds is written by \<open>bounds_to_bytes\<close>, which can only panic; the traversal orders
  of the two maps are arguments. The V3 form has no distinct counts, the V2 form no row id and
  no deletion vector, the V1 form no content and no equality ids.
\<close>

definition DataFileV3_from ::
  "value_lib \<Rightarrow> bound_orders \<Rightarrow> data_file \<Rightarrow> (data_file_v3, spec_error) outcome" where
  "DataFileV3_from lib os v =
     rbind (opt_try_map (bounds_to_bytes lib (bo_lower os)) (df_lower_bounds v)) (\<lambda>lo.
     rbind (opt_try_map (bounds_to_bytes lib (bo_upper os)) (df_upper_bounds v)) (\<lambda>up.
     Ok \<lparr>d3_content = df_content v,
         d3_file_path = df_file_path v,
         d3_file_format = df_file_format v,
         d3_partition = df_partition v,
         d3_record_count = df_record_count v,
         d3_file_size_in_bytes = df_file_size_in_bytes v,
         d3_column_sizes = df_column_sizes v,
         d3_value_counts = df_value_counts v,
         d3_null_value_counts = df_null_value_counts v,
         d3_nan_value_counts = df_nan_value_counts v,
         d3_lower_bounds = lo,
         d3_upper_bounds = up,
         d3_key_metadata = df_key_metadata v,
         d3_split_offsets = df_split_offsets v,
         d3_equality_ids = df_equality_ids v,
         d3_sort_order_id = df_sort_order_id v,
         d3_first_row_id = df_first_row_id v,
         d3_referenced_data_file = df_referenced_data_file v,
         d3_content_offset = df_content_offset v,
         d3_content_size_in_bytes = df_content_size_in_bytes v\<rparr>))"

definition DataFileV2_from ::
  "value_lib \<Rightarrow> bound_orders \<Rightarrow> data_file \<Rightarrow> (data_file_v2, spec_error) outcome" where
  "DataFileV2_from lib os v =
     rbind (opt_try_map (bounds_to_bytes lib (bo_lower os)) (df_lower_bounds v)) (\<lambda>lo.
     rbind (opt_try_map (bounds_to_bytes lib (bo_upper os)) (df_upper_bounds v)) (\<lambda>up.
     Ok \<lparr>d2_content = df_content v,
         d2_file_path = df_file_path v,
         d2_file_format = df_file_format v,
         d2_partition = df_partition v,
         d2_record_count = df_record_count v,
         d2_file_size_in_bytes = df_file_size_in_bytes v,
         d2_column_sizes = df_column_sizes v,
         d2_value_counts = df_value_counts v,
         d2_null_value_counts = df_null_value_counts v,
         d2_nan_value_counts = df_nan_value_counts v,
         d2_distinct_counts = df_distinct_counts v,
         d2_lower_bounds = lo,
         d2_upper_bounds = up,
         d2_key_metadata = df_key_metadata v,
         d2_split_offsets = df_split_offsets v,
         d2_equality_ids = df_equality_ids v,
         d2_sort_order_id = df_sort_order_id v\<rparr>))"

definition DataFileV1_from ::
  "value_lib \<Rightarrow> bound_orders \<Rightarrow> data_file \<Rightarrow> (data_file_v1, spec_error) outcome" where
  "DataFileV1_from lib os v =
     rbind (opt_try_map (bounds_to_bytes lib (bo_lower os)) (df_lower_bounds v)) (\<lambda>lo.
     rbind (opt_try_map (bounds_to_bytes lib (bo_upper os)) (df_upper_bounds v)) (\<lambda>up.
     Ok \<lparr>d1_file_path = df_file_path v,
         d1_file_format = df_file_format v,
         d1_partition = df_partition v,
         d1_record_count = df_record_count v,
         d1_file_size_in_bytes = df_file_size_in_bytes v,
         d1_block_size_in_bytes = 0,
         d1_file_ordinal = None,
         d1_sort_columns = None,
         d1_column_sizes = df_column_sizes v,
         d1_value_counts = df_value_counts v,
         d1_null_value_counts = df_null_value_counts v,
         d1_nan_value_counts = df_nan_value_counts v,
         d1_distinct_counts = df_distinct_counts v,
         d1_lower_bounds = lo,
         d1_upper_bounds = up,
         d1_key_metadata = df_key_metadata v,
         d1_split_offsets = df_split_offsets v,
         d1_sort_order_id = df_sort_order_id v\<rparr>))"

definition DataFileV2_from_V1 :: "data_file_v1 \<Rightarrow> data_file_v2" where
  "DataFileV2_from_V1 v =
     \<lparr>d2_content = Data,
      d2_file_path = d1_file_path v,
      d2_file_format = d1_file_format v,
      d2_partition = d1_partition v,
      d2_record_count = d1_record_count v,
      d2_file_size_in_bytes = d1_file_size_in_bytes v,
      d2_column_sizes = d1_column_sizes v,
      d2_value_counts = d1_value_counts v,
      d2_null_value_counts = d1_null_value_counts v,
      d2_nan_value_counts = d1_nan_value_counts v,
      d2_distinct_counts = d1_distinct_counts v,
      d2_lower_bounds = d1_lower_bounds v,
      d2_upper_bounds = d1_upper_bounds v,
      d2_key_metadata = d1_key_metadata v,
      d2_split_offsets = d1_split_offsets v,
      d2_equality_ids = None,
      d2_sort_order_id = d1_sort_order_id v\<rparr>"

section \<open>Reading\<close>

definition DataFile_try_from_v3 ::
  "value_lib \<Rightarrow> bound_orders \<Rightarrow> data_file_v3 \<Rightarrow> schema \<Rightarrow> partition_spec \<Rightarrow> (data_file, spec_error) outcome" where
  "DataFile_try_from_v3 lib os v schema spec =
     rbind (Struct_cast lib (d3_partition v) (sch_fields schema) (ps_fields spec)) (\<lambda>part.
     rbind (opt_try_map (into_value_map lib (bo_lower os) (sch_fields schema)) (d3_lower_bounds v)) (\<lambda>lo.
     rbind (opt_try_map (into_value_map lib (bo_upper os) (sch_fields schema)) (d3_upper_bounds v)) (\<lambda>up.
     Ok \<lparr>df_content = d3_content v,
         df_file_path = d3_file_path v,
         df_file_format = d3_file_format v,
         df_partition = part,
         df_record_count = d3_record_count v,
         df_file_size_in_bytes = d3_file_size_in_bytes v,
         df_column_sizes = d3_column_sizes v,
         df_value_counts = d3_value_counts v,
         df_null_value_counts = d3_null_value_counts v,
         df_nan_value_counts = d3_nan_value_counts v,
         df_distinct_counts = None,
         df_lower_bounds = lo,
         df_upper_bounds = up,
         df_key_metadata = d3_key_metadata v,
         df_split_offsets = d3_split_offsets v,
         df_equality_ids = d3_equality_ids v,
         df_sort_order_id = d3_sort_order_id v,
         df_first_row_id = d3_first_row_id v,
         df_referenced_data_file = d3_referenced_data_file v,
         df_content_offset = d3_content_offset v,
         df_content_size_in_bytes = d3_content_size_in_bytes v\<rparr>)))"

definition DataFile_try_from_v2 ::
  "value_lib \<Rightarrow> bound_orders \<Rightarrow> data_file_v2 \<Rightarrow> schema \<Rightarrow> partition_spec \<Rightarrow> (data_file, spec_error) outcome" where
  "DataFile_try_from_v2 lib os v schema spec =
     rbind (Struct_cast lib (d2_partition v) (sch_fields schema) (ps_fields spec)) (\<lambda>part.
     rbind (opt_try_map (into_value_map lib (bo_lower os) (sch_fields schema)) (d2_lower_bounds v)) (\<lambda>lo.
     rbind (opt_try_map (into_value_map lib (bo_upper os) (sch_fields schema)) (d2_upper_bounds v)) (\<lambda>up.
     Ok \<lparr>df_content = d2_content v,
         df_file_path = d2_file_path v,
         df_file_format = d2_file_format v,
         df_partition = part,
         df_record_count = d2_record_count v,
         df_file_size_in_bytes = d2_file_size_in_bytes v,
         df_column_sizes = d2_column_sizes v,
         df_value_counts = d2_value_counts v,
         df_null_value_counts = d2_null_value_counts v,
         df_nan_value_counts = d2_nan_value_counts v,
         df_distinct_counts = d2_distinct_counts v,
         df_lower_bounds = lo,
         df_upper_bounds = up,
         df_key_metadata = d2_key_metadata v,
         df_split_offsets = d2_split_offsets v,
         df_equality_ids = d2_equality_ids v,
         df_sort_order_id = d2_sort_order_id v,
         df_first_row_id = None,
         df_referenced_data_file = None,
         df_content_offset = None,
         df_content_size_in_bytes = None\<rparr>)))"

definition DataFile_try_from_v1 ::
  "value_lib \<Rightarrow> bound_orders \<Rightarrow> data_file_v1 \<Rightarrow> schema \<Rightarrow> partition_spec \<Rightarrow> (data_file, spec_error) outcome" where
  "DataFile_try_from_v1 lib os v schema spec =
     rbind (Struct_cast lib (d1_partition v) (sch_fields schema) (ps_fields spec)) (\<lambda>part.
     rbind (opt_try_map (into_value_map lib (bo_lower os) (sch_fields schema)) (d1_lower_bounds v)) (\<lambda>lo.
     rbind (opt_try_map (into_value_map lib (bo_upper os) (sch_fields schema)) (d1_upper_bounds v)) (\<lambda>up.
     Ok \<lparr>df_content = Data,
         df_file_path = d1_file_path v,
         df_file_format = d1_file_format v,
         df_partition = part,
         df_record_count = d1_record_count v,
         df_file_size_in_bytes = d1_file_size_in_bytes v,
         df_column_sizes = d1_column_sizes v,
         df_value_counts = d1_value_counts v,
         df_null_value_counts = d1_null_value_counts v,
         df_nan_value_counts = d1_nan_value_counts v,
         df_distinct_counts = d1_distinct_counts v,
         df_lower_bounds = lo,
         df_upper_bounds = up,
         df_key_metadata = d1_key_metadata v,
         df_split_offsets = d1_split_offsets v,
         df_equality_ids = None,
         df_sort_order_id = d1_sort_order_id v,
         df_first_row_id = None,
         df_referenced_data_file = None,
         df_content_offset = None,
         df_content_size_in_bytes = None\<rparr>)))"

section \<open>Manifest entries\<close>

definition ManifestEntry_try_from_v3 ::
  "value_lib \<Rightarrow> bound_orders \<Rightarrow> manifest_entry_v3 \<Rightarrow> schema \<Rightarrow> partition_spec \<Rightarrow> (manifest_entry, spec_error) outcome" where
  "ManifestEntry_try_from_v3 lib os v schema spec =
     rbind (DataFile_try_from_v3 lib os (e3_data_file v) schema spec) (\<lambda>f.
     Ok \<lparr>me_format_version = V3, me_status = e3_status v, me_snapshot_id = e3_snapshot_id v,
         me_sequence_number = e3_sequence_number v, me_data_file = f\<rparr>)"

definition ManifestEntry_try_from_v2 ::
  "value_lib \<Rightarrow> bound_orders \<Rightarrow> manifest_entry_v2 \<Rightarrow> schema \<Rightarrow> partition_spec \<Rightarrow> (manifest_entry, spec_error) outcome" where
  "ManifestEntry_try_from_v2 lib os v schema spec =
     rbind (DataFile_try_from_v2 lib os (e2_data_file v) schema spec) (\<lambda>f.
     Ok \<lparr>me_format_version = V2, me_status = e2_status v, me_snapshot_id = e2_snapshot_id v,
         me_sequence_number = e2_sequence_number v, me_data_file = f\<rparr>)"

text \<open>An entry read from a V1 manifest is marked as V2 and has no sequence number.\<close>

definition ManifestEntry_try_from_v1 ::
  "value_lib \<Rightarrow> bound_orders \<Rightarrow> manifest_entry_v1 \<Rightarrow> schema \<Rightarrow> partition_spec \<Rightarrow> (manifest_entry, spec_error) outcome" where
  "ManifestEntry_try_from_v1 lib os v schema spec =
     rbind (DataFile_try_from_v1 lib os (e1_data_file v) schema spec) (\<lambda>f.
     Ok \<lparr>me_format_version = V2, me_status = e1_status v, me_snapshot_id = Some (e1_snapshot_id v),
         me_sequence_number = None, me_data_file = f\<rparr>)"

definition ManifestEntryV3_from ::
  "value_lib \<Rightarrow> bound_orders \<Rightarrow> manifest_entry \<Rightarrow> (manifest_entry_v3, spec_error) outcome" where
  "ManifestEntryV3_from lib os v =
     rbind (DataFileV3_from lib os (me_data_file v)) (\<lambda>f.
     Ok \<lparr>e3_status = me_status v, e3_snapshot_id = me_snapshot_id v,
         e3_sequence_number = me_sequence_number v, e3_data_file = f\<rparr>)"

definition ManifestEntryV2_from ::
  "value_lib \<Rightarrow> bound_orders \<Rightarrow> manifest_entry \<Rightarrow> (manifest_entry_v2, spec_error) outcome" where
  "ManifestEntryV2_from lib os v =
     rbind (DataFileV2_from lib os (me_data_file v)) (\<lambda>f.
     Ok \<lparr>e2_status = me_status v, e2_snapshot_id = me_snapshot_id v,
         e2_sequence_number = me_sequence_number v, e2_data_file = f\<rparr>)"

definition ManifestEntryV1_from ::
  "value_lib \<Rightarrow> bound_orders \<Rightarrow> manifest_entry \<Rightarrow> (manifest_entry_v1, spec_error) outcome" where
  "ManifestEntryV1_from lib os v =
     rbind (DataFileV1_from lib os (me_data_file v)) (\<lambda>f.
     Ok \<lparr>e1_status = me_status v,
         e1_snapshot_id = (case me_snapshot_id v of Some i \<Rightarrow> i | None \<Rightarrow> 0),
         e1_data_file = f\<rparr>)"

definition ManifestEntryEnum_from ::
  "value_lib \<Rightarrow> bound_orders \<Rightarrow> manifest_entry \<Rightarrow> (manifest_entry_enum, spec_error) outcome" where
  "ManifestEntryEnum_from lib os v =
     (case me_format_version v of
        V3 \<Rightarrow> rbind (ManifestEntryV3_from lib os v) (\<lambda>e. Ok (EE_V3 e))
      | V2 \<Rightarrow> rbind (ManifestEntryV2_from lib os v) (\<lambda>e. Ok (EE_V2 e))
      | V1 \<Rightarrow> rbind (ManifestEntryV1_from lib os v) (\<lambda>e. Ok (EE_V1 e)))"

definition ManifestEntryV2_from_V1 :: "manifest_entry_v1 \<Rightarrow> manifest_entry_v2" where
  "ManifestEntryV2_from_V1 v =
     \<lparr>e2_status = e1_status v, e2_snapshot_id = Some (e1_snapshot_id v),
      e2_sequence_number = Some 0, e2_data_file = DataFileV2_from_V1 (e1_data_file v)\<rparr>"

section \<open>Inheritance of first row ids\<close>

datatype first_row_id_inheritance = Assign i64 | Clear | Preserve

definition for_committed_manifest :: "i64 option \<Rightarrow> first_row_id_inheritance" where
  "for_committed_manifest r = (case r of None \<Rightarrow> Clear | Some n \<Rightarrow> Assign n)"

definition try_for_committed_manifest ::
  "i64 option \<Rightarrow> (first_row_id_inheritance, spec_error) outcome" where
  "try_for_committed_manifest r =
     (if (case r of None \<Rightarrow> False | Some n \<Rightarrow> n < 0)
      then Err (SInvalidFormat ''manifest first row id must be non-negative'')
      else Ok (for_committed_manifest r))"

definition for_uncommitted_manifest :: "i64 option \<Rightarrow> first_row_id_inheritance" where
  "for_uncommitted_manifest r = (case r of None \<Rightarrow> Preserve | Some n \<Rightarrow> Assign n)"

text \<open>
  \<open>apply\<close> changes the inheritance state and the entry. The early return of the assigning mode
  leaves both as they are.
\<close>

definition set_first_row_id :: "i64 option \<Rightarrow> manifest_entry \<Rightarrow> manifest_entry" where
  "set_first_row_id r e = e\<lparr>me_data_file := (me_data_file e)\<lparr>df_first_row_id := r\<rparr>\<rparr>"

definition inherits_row_id :: "manifest_entry \<Rightarrow> bool" where
  "inherits_row_id e \<longleftrightarrow>
     \<not> (me_status e = Deleted \<or> df_content (me_data_file e) \<noteq> Data
        \<or> df_first_row_id (me_data_file e) \<noteq> None)"

definition FirstRowIdInheritance_apply ::
  "first_row_id_inheritance \<Rightarrow> manifest_entry
   \<Rightarrow> (first_row_id_inheritance \<times> manifest_entry, spec_error) outcome" where
  "FirstRowIdInheritance_apply mode entry =
     (case mode of
        Clear \<Rightarrow> Ok (Clear, set_first_row_id None entry)
      | Preserve \<Rightarrow> Ok (Preserve, entry)
      | Assign next_row_id \<Rightarrow>
          (if next_row_id < 0
           then Err (SInvalidFormat ''manifest first row id must be non-negative'')
           else if \<not> inherits_row_id entry then Ok (mode, entry)
           else if df_record_count (me_data_file entry) < 0
           then Err (SInvalidFormat ''data file record count must be non-negative'')
           else rbind (ok_or (SInvalidFormat ''first row id inheritance overflow'')
                  (checked_add_i64 next_row_id (df_record_count (me_data_file entry)))) (\<lambda>next.
                Ok (Assign next, set_first_row_id (Some next_row_id) entry))))"

text \<open>The reader of a manifest applies it to the entries in manifest order.\<close>

fun inherit_first_row_ids ::
  "first_row_id_inheritance \<Rightarrow> manifest_entry list
   \<Rightarrow> (first_row_id_inheritance \<times> manifest_entry list, spec_error) outcome" where
  "inherit_first_row_ids mode [] = Ok (mode, [])"
| "inherit_first_row_ids mode (e # es) =
     rbind (FirstRowIdInheritance_apply mode e) (\<lambda>(mode', e').
     rbind (inherit_first_row_ids mode' es) (\<lambda>(mode'', es'). Ok (mode'', e' # es')))"

section \<open>Promotion\<close>

text \<open>The value of a field of a struct, replaced in place.\<close>

definition Struct_set :: "struct_value \<Rightarrow> string \<Rightarrow> ice_value option \<Rightarrow> struct_value" where
  "Struct_set s name v =
     (case map_of (sv_lookup s) name of
        None \<Rightarrow> s
      | Some i \<Rightarrow> StructValue ((sv_fields s)[i := v]) (sv_lookup s))"

definition decimal_unchanged :: "ice_value \<Rightarrow> ice_type \<Rightarrow> bool" where
  "decimal_unchanged v t =
     (case (v, t) of
        (VDecimal d, Primitive (PDecimal _ scale)) \<Rightarrow> decimal_scale d = scale
      | _ \<Rightarrow> False)"

definition promote_partition_field ::
  "value_lib \<Rightarrow> struct_value \<Rightarrow> partition_field \<times> ice_type \<Rightarrow> (struct_value, spec_error) outcome" where
  "promote_partition_field lib s ft =
     (case Struct_get s (pf_name (fst ft)) of
        None \<Rightarrow> Err (SNotFound (''Partition field '' @ pf_name (fst ft)))
      | Some None \<Rightarrow> Ok s
      | Some (Some v) \<Rightarrow>
          rbind (value_datatype v) (\<lambda>source_type.
          if source_type \<noteq> snd ft \<and> \<not> decimal_unchanged v (snd ft)
          then rbind (promote_iceberg lib v source_type (snd ft)) (\<lambda>v'.
               Ok (Struct_set s (pf_name (fst ft)) (Some v')))
          else Ok s))"

definition promote_partition_to_types ::
  "value_lib \<Rightarrow> data_file \<Rightarrow> partition_spec \<Rightarrow> ice_type list \<Rightarrow> (data_file, spec_error) outcome" where
  "promote_partition_to_types lib f spec target_types =
     (if length (ps_fields spec) \<noteq> length target_types
      then Err (SInvalidFormat ''Partition type count mismatch'')
      else rbind (try_fold (promote_partition_field lib) (df_partition f)
                    (zip (ps_fields spec) target_types))
             (\<lambda>s. Ok (f\<lparr>df_partition := s\<rparr>)))"

lemma size_ftype: "size (ftype f) < size f"
  by (cases f) simp

text \<open>
  The type of a nested field: a search through the fields, in order, each searched through.
  \<open>first_field\<close> is the \<open>find_map\<close> over the fields of a struct.
\<close>

function (sequential) field_type_by_id :: "struct_type \<Rightarrow> i32 \<Rightarrow> (ice_type option, spec_error) outcome"
  and first_field :: "struct_field list \<Rightarrow> i32 \<Rightarrow> (ice_type option, spec_error) outcome"
  and nested_type_by_id :: "ice_type \<Rightarrow> i32 \<Rightarrow> (ice_type option, spec_error) outcome" where
  "field_type_by_id (StructType fs l) i =
     rbind (if i \<ge> 0 then StructType_get (StructType fs l) (i32_as_usize i) else Ok None) (\<lambda>f.
     case f of Some field \<Rightarrow> Ok (Some (ftype field)) | None \<Rightarrow> first_field fs i)"
| "first_field [] i = Ok None"
| "first_field (f # fs) i =
     rbind (nested_type_by_id (ftype f) i) (\<lambda>t.
     case t of Some t' \<Rightarrow> Ok (Some t') | None \<Rightarrow> first_field fs i)"
| "nested_type_by_id (Primitive p) i = Ok None"
| "nested_type_by_id (Struct s) i = field_type_by_id s i"
| "nested_type_by_id (List (ListType e r t)) i =
     (if e = i then Ok (Some t) else nested_type_by_id t i)"
| "nested_type_by_id (Map (MapType ki k vi r v)) i =
     (if ki = i then Ok (Some k)
      else if vi = i then Ok (Some v)
      else rbind (nested_type_by_id k i) (\<lambda>t.
           case t of Some t' \<Rightarrow> Ok (Some t') | None \<Rightarrow> nested_type_by_id v i))"
  by pat_completeness auto

termination
  by (relation "measure (\<lambda>x. case x of Inl (s, _) \<Rightarrow> size s
        | Inr (Inl (fs, _)) \<Rightarrow> size_list size fs | Inr (Inr (t, _)) \<Rightarrow> size t)")
     (auto intro: less_le_trans [OF size_ftype] simp: trans_less_add1 less_Suc_eq_le
        less_imp_le [OF size_ftype] trans_le_add1)

text \<open>
  \<open>promote_bounds_to_schema\<close> keeps, promotes or drops a bound; it does not fail. A hash map is
  filtered by \<open>retain\<close> in its own order, which only decides which panic comes first.
\<close>

definition promote_bound ::
  "value_lib \<Rightarrow> schema \<Rightarrow> i32 \<Rightarrow> ice_value \<Rightarrow> (ice_value option, spec_error) outcome" where
  "promote_bound lib schema field_id v =
     rbind (field_type_by_id (sch_fields schema) field_id) (\<lambda>ft.
     case ft of
       None \<Rightarrow> Ok (Some v)
     | Some field_type \<Rightarrow>
         rbind (value_datatype v) (\<lambda>source_type.
         if source_type = field_type \<or> decimal_unchanged v field_type then Ok (Some v)
         else case promote_iceberg lib v source_type field_type of
                Ok promoted \<Rightarrow> Ok (Some promoted)
              | Err _ \<Rightarrow> Ok None
              | Panic s \<Rightarrow> Panic s))"

definition retain_bounds ::
  "value_lib \<Rightarrow> schema \<Rightarrow> i32 list \<Rightarrow> (i32 \<rightharpoonup> ice_value) \<Rightarrow> (i32 \<rightharpoonup> ice_value, spec_error) outcome" where
  "retain_bounds lib schema ks m = hm_try_filter_map ks (promote_bound lib schema) m"

definition promote_bounds_to_schema ::
  "value_lib \<Rightarrow> bound_orders \<Rightarrow> data_file \<Rightarrow> schema \<Rightarrow> (data_file, spec_error) outcome" where
  "promote_bounds_to_schema lib os f schema =
     rbind (opt_try_map (retain_bounds lib schema (bo_lower os)) (df_lower_bounds f)) (\<lambda>lo.
     rbind (opt_try_map (retain_bounds lib schema (bo_upper os)) (df_upper_bounds f)) (\<lambda>up.
     Ok (f\<lparr>df_lower_bounds := lo, df_upper_bounds := up\<rparr>)))"

section \<open>Lemmas on the inheritance of row ids\<close>

text \<open>The rows of the entries that inherit their first row id.\<close>

definition assigned_rows :: "manifest_entry list \<Rightarrow> int" where
  "assigned_rows es = sum_list (map (\<lambda>e. df_record_count (me_data_file e)) (filter inherits_row_id es))"

lemma assigned_rows_simps [simp]:
  "assigned_rows [] = 0"
  "assigned_rows (e # es) =
     (if inherits_row_id e then df_record_count (me_data_file e) else 0) + assigned_rows es"
  by (simp_all add: assigned_rows_def)

lemma assigned_rows_nonneg:
  "\<forall>e\<in>set es. inherits_row_id e \<longrightarrow> 0 \<le> df_record_count (me_data_file e) \<Longrightarrow> 0 \<le> assigned_rows es"
  by (induction es) auto

text \<open>What the assigning mode makes of the entries, given the first id to hand out.\<close>

fun assigned_entries :: "i64 \<Rightarrow> manifest_entry list \<Rightarrow> manifest_entry list" where
  "assigned_entries n [] = []"
| "assigned_entries n (e # es) =
     (if inherits_row_id e
      then set_first_row_id (Some n) e # assigned_entries (n + df_record_count (me_data_file e)) es
      else e # assigned_entries n es)"

lemma assigned_entries_length [simp]: "length (assigned_entries n es) = length es"
  by (induction n es rule: assigned_entries.induct) auto

lemma assigned_entries_nth:
  "i < length es \<Longrightarrow> assigned_entries n es ! i =
     (if inherits_row_id (es ! i)
      then set_first_row_id (Some (n + assigned_rows (take i es))) (es ! i) else es ! i)"
proof (induction n es arbitrary: i rule: assigned_entries.induct)
  case (2 n e es)
  then show ?case by (cases i) (auto simp: algebra_simps)
qed simp

lemma apply_assign_Ok:
  "FirstRowIdInheritance_apply (Assign n) e = Ok (m, e') \<longleftrightarrow>
     0 \<le> n \<and>
     (if inherits_row_id e
      then 0 \<le> df_record_count (me_data_file e) \<and> in_i64 (n + df_record_count (me_data_file e))
           \<and> m = Assign (n + df_record_count (me_data_file e)) \<and> e' = set_first_row_id (Some n) e
      else m = Assign n \<and> e' = e)"
  by (auto simp: FirstRowIdInheritance_apply_def checked_add_i64_Some)

definition valid_counts :: "manifest_entry list \<Rightarrow> bool" where
  "valid_counts es \<longleftrightarrow> (\<forall>e\<in>set es. inherits_row_id e \<longrightarrow> 0 \<le> df_record_count (me_data_file e))"

lemma valid_counts_simps [simp]:
  "valid_counts []"
  "valid_counts (e # es) \<longleftrightarrow>
     (inherits_row_id e \<longrightarrow> 0 \<le> df_record_count (me_data_file e)) \<and> valid_counts es"
  by (auto simp: valid_counts_def)

lemma valid_counts_nonneg: "valid_counts es \<Longrightarrow> 0 \<le> assigned_rows es"
  by (induction es) auto

lemma inherit_assign_Ok:
  assumes "0 \<le> n" "n < 2 ^ 63"
  shows "inherit_first_row_ids (Assign n) es = Ok (m, es') \<longleftrightarrow>
     valid_counts es \<and> n + assigned_rows es < 2 ^ 63
     \<and> m = Assign (n + assigned_rows es) \<and> es' = assigned_entries n es"
  using assms
proof (induction es arbitrary: n es')
  case (Cons e es)
  show ?case
  proof (cases "inherits_row_id e")
    case True
    let ?c = "df_record_count (me_data_file e)"
    have "inherit_first_row_ids (Assign n) (e # es) = Ok (m, es') \<longleftrightarrow>
        0 \<le> ?c \<and> n + ?c < 2 ^ 63 \<and> (\<exists>t. inherit_first_row_ids (Assign (n + ?c)) es = Ok (m, t)
          \<and> es' = set_first_row_id (Some n) e # t)"
      using True Cons.prems by (auto simp: apply_assign_Ok in_i64_def)
    also have "\<dots> \<longleftrightarrow> 0 \<le> ?c \<and> n + ?c < 2 ^ 63 \<and> valid_counts es \<and> n + ?c + assigned_rows es < 2 ^ 63
        \<and> m = Assign (n + ?c + assigned_rows es)
        \<and> es' = set_first_row_id (Some n) e # assigned_entries (n + ?c) es"
      using Cons.prems by (auto simp: Cons.IH cong: conj_cong)
    also have "\<dots> \<longleftrightarrow> 0 \<le> ?c \<and> valid_counts es \<and> n + ?c + assigned_rows es < 2 ^ 63
        \<and> m = Assign (n + ?c + assigned_rows es)
        \<and> es' = set_first_row_id (Some n) e # assigned_entries (n + ?c) es"
      using valid_counts_nonneg [of es] by fastforce
    finally show ?thesis using True by (simp add: add.assoc)
  next
    case False
    have "inherit_first_row_ids (Assign n) (e # es) = Ok (m, es') \<longleftrightarrow>
        (\<exists>t. inherit_first_row_ids (Assign n) es = Ok (m, t) \<and> es' = e # t)"
      using False Cons.prems by (auto simp: apply_assign_Ok)
    then show ?thesis using False Cons.prems by (auto simp: Cons.IH)
  qed
qed auto

text \<open>
  A committed manifest with a first row id hands out consecutive, disjoint ranges. Every
  live data file without an id gets the manifest's id plus the rows handed out before it,
  every other entry is unchanged, and the ranges of two files do not overlap. Reading fails
  exactly when a count is negative or the ids leave the range of an i64.
\<close>

theorem first_row_ids_are_contiguous:
  assumes "0 \<le> n" "n < 2 ^ 63"
  shows "(inherit_first_row_ids (for_committed_manifest (Some n)) es = Ok (m, es') \<longleftrightarrow>
            valid_counts es \<and> n + assigned_rows es < 2 ^ 63
            \<and> m = Assign (n + assigned_rows es) \<and> es' = assigned_entries n es)
     \<and> (valid_counts es \<longrightarrow>
          length (assigned_entries n es) = length es
          \<and> (\<forall>i<length es. assigned_entries n es ! i =
               (if inherits_row_id (es ! i)
                then set_first_row_id (Some (n + assigned_rows (take i es))) (es ! i) else es ! i))
          \<and> (\<forall>j<length es. \<forall>i<j. inherits_row_id (es ! i) \<longrightarrow>
               n + assigned_rows (take i es) + df_record_count (me_data_file (es ! i))
                 \<le> n + assigned_rows (take j es)))"
proof -
  have mono: "n + assigned_rows (take i es) + df_record_count (me_data_file (es ! i))
      \<le> n + assigned_rows (take j es)"
    if v: "valid_counts es" and j: "j < length es" "i < j" and inh: "inherits_row_id (es ! i)" for i j
  proof -
    have "take j es = take i es @ es ! i # take (j - Suc i) (drop (Suc i) es)"
      using j by (metis (no_types, lifting) Cons_nth_drop_Suc Suc_diff_Suc add_diff_inverse_nat
          less_trans not_less_iff_gr_or_eq take_Suc_Cons take_add)
    moreover have "0 \<le> assigned_rows (take (j - Suc i) (drop (Suc i) es))"
      using v by (intro assigned_rows_nonneg) (auto simp: valid_counts_def dest: in_set_takeD in_set_dropD)
    ultimately show ?thesis using inh by (simp add: assigned_rows_def)
  qed
  show ?thesis
    using inherit_assign_Ok [OF assms, of es m es'] mono
    by (auto simp: for_committed_manifest_def assigned_entries_nth)
qed

section \<open>Lemmas on bounds\<close>

text \<open>A bound that has the type of a column, a decimal at least its scale.\<close>

definition has_type :: "ice_value \<Rightarrow> ice_type \<Rightarrow> bool" where
  "has_type v t \<longleftrightarrow> value_datatype v = Ok t \<or> decimal_unchanged v t"

lemma decimal_unchanged_True:
  assumes "decimal_unchanged v t"
  obtains d p where "v = VDecimal d" "t = Primitive (PDecimal p (decimal_scale d))"
  using assms unfolding decimal_unchanged_def
  by (cases v; cases t; (simp; fail)?; rename_tac q; case_tac q; auto)

lemma decimal_bytes_any_precision:
  "try_from_bytes lib bs (Primitive (PDecimal p s)) = try_from_bytes lib bs (Primitive (PDecimal q s))"
  by (simp add: try_from_bytes_def try_from_bytes_with_hint_def)

lemma decode_bound_has_type:
  assumes lib: "radix_spec (vl_to_radix_be lib)" and v: "wf_value v" "has_type v t"
  shows "\<exists>bs. value_to_bytes lib v = Ok bs \<and> decode_bound lib bs t = Ok v"
proof -
  obtain bs t' where b: "value_to_bytes lib v = Ok bs" "value_datatype v = Ok t'"
    "try_from_bytes lib bs t' = Ok v"
    using value_bytes_roundtrip_lemma [OF lib v(1)] by auto
  have "decode_bound lib bs t = try_from_bytes lib bs t"
    using v b(1) by (cases v) (auto simp: has_type_def decimal_unchanged_def value_datatype_def
        value_to_bytes_def decode_bound_def split: ice_type.splits primitive_type.splits)
  moreover have "try_from_bytes lib bs t = Ok v"
  proof (cases "value_datatype v = Ok t")
    case False
    then obtain d p where d: "v = VDecimal d" "t = Primitive (PDecimal p (decimal_scale d))"
      using v(2) by (auto simp: has_type_def elim: decimal_unchanged_True)
    then have "t' = Primitive (PDecimal 38 (decimal_scale d))"
      using b(2) by (simp add: value_datatype_def)
    with b(3) d(2) show ?thesis
      by (simp only: decimal_bytes_any_precision [of lib bs p "decimal_scale d" 38])
  qed (use b in simp)
  ultimately show ?thesis using b(1) by auto
qed

text \<open>Maps of bounds whose values have the types of the columns of a schema.\<close>

definition typed_bounds :: "struct_type \<Rightarrow> (i32 \<rightharpoonup> ice_value) \<Rightarrow> bool" where
  "typed_bounds st m \<longleftrightarrow>
     (\<forall>k v. m k = Some v \<longrightarrow> wf_value v \<and>
        (\<exists>f. (StructType_get st (i32_as_usize k) :: (struct_field option, spec_error) outcome) = Ok (Some f)
           \<and> has_type v (ftype f)))"

lemma bounds_roundtrip:
  assumes lib: "radix_spec (vl_to_radix_be lib)" and tr: "traversal ks m" "traversal ks' m"
    and ty: "typed_bounds st m"
  shows "rbind (bounds_to_bytes lib ks m) (into_value_map lib ks' st) = Ok m"
proof -
  define g where "g v = (case value_to_bytes lib v of Ok bs \<Rightarrow> bs | _ \<Rightarrow> [])" for v
  have g: "value_to_bytes lib v = Ok (g v)"
    "\<exists>f. (StructType_get st (i32_as_usize k) :: (struct_field option, spec_error) outcome) = Ok (Some f)
       \<and> decode_bound lib (g v) (ftype f) = Ok v" if "m k = Some v" for k v
    using ty that decode_bound_has_type [OF lib] unfolding typed_bounds_def g_def by fastforce+
  have 1: "bounds_to_bytes lib ks m = Ok (map_option g \<circ> m)"
    unfolding bounds_to_bytes_def by (rule hm_try_map_Ok [OF tr(1) g(1)])
  have "into_value_map lib ks' st (map_option g \<circ> m)
      = Ok (\<lambda>k. case (map_option g \<circ> m) k of None \<Rightarrow> None | Some _ \<Rightarrow> m k)"
    unfolding into_value_map_def
  proof (rule hm_try_filter_map_Ok)
    show "traversal ks' (map_option g \<circ> m)" using tr(2) by (auto simp: traversal_def dom_def)
    fix k b assume "(map_option g \<circ> m) k = Some b"
    then obtain v where "m k = Some v" "b = g v" by auto
    with g(2) [of k v] show "rbind (StructType_get st (i32_as_usize k)) (\<lambda>f.
        case f of None \<Rightarrow> Ok None
        | Some field \<Rightarrow> rbind (decode_bound lib b (ftype field)) (\<lambda>x. Ok (Some x))) = Ok (m k)"
      by auto
  qed
  moreover have "(\<lambda>k. case (map_option g \<circ> m) k of None \<Rightarrow> None | Some _ \<Rightarrow> m k) = m"
    by (auto simp: fun_eq_iff split: option.splits)
  ultimately show ?thesis using 1 by simp
qed

lemma opt_bounds_roundtrip:
  assumes lib: "radix_spec (vl_to_radix_be lib)"
    and m: "\<And>m. om = Some m \<Longrightarrow> traversal ks m \<and> traversal ks' m \<and> typed_bounds st m"
  shows "\<exists>b. opt_try_map (bounds_to_bytes lib ks) om = Ok b
    \<and> opt_try_map (into_value_map lib ks' st) b = Ok om"
proof (cases om)
  case (Some m)
  with bounds_roundtrip [OF lib, of ks m ks' st] assms(2) show ?thesis by auto
qed simp

section \<open>Lemmas on partition values\<close>

lemma fst_set_btree_insert: "fst ` set (btree_insert k v m) = insert k (fst ` set m)"
  by (induction k v m rule: btree_insert.induct) auto

lemma set_btree_insert: "k \<notin> fst ` set m \<Longrightarrow> set (btree_insert k v m) = insert (k, v) (set m)"
  by (induction k v m rule: btree_insert.induct) auto

text \<open>The lookup of a struct built from entries with distinct names: each name and its index.\<close>

lemma lookup_of_entries:
  assumes "distinct (map fst kvs)" "fst ` set kvs \<inter> fst ` set m = {}"
  shows "set (fold (\<lambda>(i, k, _). btree_insert k i) (enumerate n kvs) m)
    = set m \<union> (\<lambda>(i, k, _). (k, i)) ` set (enumerate n kvs)"
  using assms
proof (induction kvs arbitrary: n m)
  case (Cons kv kvs)
  obtain k v where [simp]: "kv = (k, v)" by (cases kv)
  have "fst ` set kvs \<inter> fst ` set (btree_insert k n m) = {}"
    using Cons.prems by (auto simp: fst_set_btree_insert)
  with Cons show ?case by (auto simp: set_btree_insert)
qed simp

lemma find_unique: "x \<in> set xs \<Longrightarrow> P x \<Longrightarrow> (\<And>y. y \<in> set xs \<Longrightarrow> P y \<Longrightarrow> y = x) \<Longrightarrow> find P xs = Some x"
  by (cases "find P xs") (metis find_None_iff, metis find_Some_iff nth_mem)

lemma Struct_name_of_index:
  assumes "distinct (map fst kvs)" "i < length kvs"
  shows "find (\<lambda>(_, v). v = i) (sv_lookup (Struct_from_iter kvs)) = Some (fst (kvs ! i), i)"
proof -
  have l: "set (sv_lookup (Struct_from_iter kvs)) = (\<lambda>(i, k, _). (k, i)) ` set (enumerate 0 kvs)"
    using lookup_of_entries [of kvs "[]" 0] assms(1) by (simp add: Struct_from_iter_def)
  have mem: "(i, kvs ! i) \<in> set (enumerate 0 kvs)"
    using assms(2) by (simp add: in_set_enumerate_eq)
  have m1: "(fst (kvs ! i), i) \<in> set (sv_lookup (Struct_from_iter kvs))"
    unfolding l using mem by (intro image_eqI [of _ _ "(i, kvs ! i)"]) (simp_all add: case_prod_beta)
  have m2: "y = (fst (kvs ! i), i)"
    if "y \<in> set (sv_lookup (Struct_from_iter kvs))" "(\<lambda>(_, v). v = i) y" for y
  proof -
    from that(1) obtain e where e: "e \<in> set (enumerate 0 kvs)" "y = (case e of (i, k, _) \<Rightarrow> (k, i))"
      unfolding l by blast
    obtain j k v where [simp]: "e = (j, k, v)" by (cases e)
    from e that(2) have "j = i" "kvs ! i = (k, v)" by (auto simp: in_set_enumerate_eq)
    with e show ?thesis by simp
  qed
  show ?thesis by (rule find_unique [OF m1 _ m2]) simp_all
qed

text \<open>
  A partition struct of a spec: its names are different and among the names of the spec, and
  a value has the type the transform of its field gives.
\<close>

definition partition_of_spec :: "struct_type \<Rightarrow> partition_field list \<Rightarrow> (string \<times> ice_value option) list \<Rightarrow> bool" where
  "partition_of_spec st spec kvs \<longleftrightarrow>
     distinct (map fst kvs) \<and> distinct (map pf_name spec)
     \<and> (\<exists>ty. (\<forall>pf\<in>set spec. \<exists>f.
            (StructType_get st (i32_as_usize (pf_source_id pf)) :: (struct_field option, spec_error) outcome) = Ok (Some f)
            \<and> tranform (ftype f) (pf_transform pf) = Ok (ty (pf_name pf)))
        \<and> (\<forall>(k, v)\<in>set kvs. k \<in> pf_name ` set spec
            \<and> (\<forall>x. v = Some x \<longrightarrow> value_datatype x = Ok (ty k))))"

lemma cast_field_own_type:
  assumes "value_datatype v = Ok t" shows "cast_field lib v t = Ok v"
proof -
  have "value_cast lib v t = Ok v" using assms by (simp add: value_cast_def)
  moreover have "promote_iceberg lib v t t = Ok v" by (simp add: promote_iceberg_def)
  moreover have "cast_field lib v t = value_cast lib v t"
    using assms by (cases v) (auto simp: cast_field_def value_datatype_def)
  ultimately show ?thesis by simp
qed

lemma Struct_cast_own_types:
  assumes "partition_of_spec st spec kvs"
  shows "Struct_cast lib (Struct_from_iter kvs) st spec = Ok (Struct_from_iter kvs)"
proof -
  obtain ty where ty: "distinct (map fst kvs)" "distinct (map pf_name spec)"
    "\<And>pf. pf \<in> set spec \<Longrightarrow> \<exists>f.
       (StructType_get st (i32_as_usize (pf_source_id pf)) :: (struct_field option, spec_error) outcome) = Ok (Some f)
       \<and> tranform (ftype f) (pf_transform pf) = Ok (ty (pf_name pf))"
    "\<And>k v. (k, v) \<in> set kvs \<Longrightarrow> k \<in> pf_name ` set spec \<and> (\<forall>x. v = Some x \<longrightarrow> value_datatype x = Ok (ty k))"
    using assms unfolding partition_of_spec_def by fast
  let ?s = "Struct_from_iter kvs"
  have f: "sv_fields ?s = map snd kvs" by (simp add: Struct_from_iter_def)
  have "try_map (\<lambda>pf.
             rbind (StructType_get st (i32_as_usize (pf_source_id pf))) (\<lambda>f.
             rbind (ok_or (SInvalidFormat (''partition spec references unknown column id ''
                      @ show_int (pf_source_id pf))) f) (\<lambda>field.
             rbind (tranform (ftype field) (pf_transform pf)) (\<lambda>t. Ok (pf_name pf, t))))) spec
      = Ok (map (\<lambda>pf. (pf_name pf, ty (pf_name pf))) spec)"
    using ty(3) by (intro try_map_Ok) fastforce
  moreover have types: "hm_from_iter (map (\<lambda>pf. (pf_name pf, ty (pf_name pf))) spec) k = Some (ty k)"
    if "k \<in> pf_name ` set spec" for k
    using ty(2) that
    by (subst hm_from_iter_distinct) (auto simp: comp_def map_of_eq_Some_iff)
  moreover have "try_map (\<lambda>(idx, field).
               rbind (ok_or (SInvalidFormat ''partition struct'')
                        (find (\<lambda>(_, v). v = idx) (sv_lookup ?s))) (\<lambda>(name, _).
               rbind (ok_or (SInvalidFormat ''partition_struct'')
                 (hm_from_iter (map (\<lambda>pf. (pf_name pf, ty (pf_name pf))) spec) name)) (\<lambda>t.
               case field of
                 None \<Rightarrow> Ok (name, None)
               | Some v \<Rightarrow> rbind (cast_field lib v t) (\<lambda>v'. Ok (name, Some v')))))
             (enumerate 0 (map snd kvs)) = Ok kvs"
    unfolding try_map_eq_Ok list_all2_conv_all_nth
  proof (intro conjI allI impI)
    fix i assume "i < length (enumerate 0 (map snd kvs))"
    then have i: "i < length kvs" by simp
    obtain k v where kv: "kvs ! i = (k, v)" by fastforce
    then have "(k, v) \<in> set kvs" using i by (metis nth_mem)
    with ty(4) have t: "k \<in> pf_name ` set spec" "\<And>x. v = Some x \<Longrightarrow> value_datatype x = Ok (ty k)" by auto
    have e: "enumerate 0 (map snd kvs) ! i = (i, v)" using i kv by (simp add: nth_enumerate_eq)
    show "(case enumerate 0 (map snd kvs) ! i of (idx, field) \<Rightarrow>
               rbind (ok_or (SInvalidFormat ''partition struct'')
                        (find (\<lambda>(_, v). v = idx) (sv_lookup ?s))) (\<lambda>(name, _).
               rbind (ok_or (SInvalidFormat ''partition_struct'')
                 (hm_from_iter (map (\<lambda>pf. (pf_name pf, ty (pf_name pf))) spec) name)) (\<lambda>t.
               case field of
                 None \<Rightarrow> Ok (name, None)
               | Some v \<Rightarrow> rbind (cast_field lib v t) (\<lambda>v'. Ok (name, Some v'))))) = Ok (kvs ! i)"
      using t types [OF t(1)] kv i unfolding e
      by (cases v) (simp_all add: Struct_name_of_index [OF ty(1) i] cast_field_own_type)
  qed simp
  ultimately show ?thesis
    by (simp add: Struct_cast_def f Let_def)
qed

section \<open>Properties of data files\<close>

text \<open>A file whose partition and bounds fit a schema and a spec.\<close>

definition typed_file :: "bound_orders \<Rightarrow> bound_orders \<Rightarrow> schema \<Rightarrow> partition_spec \<Rightarrow> data_file \<Rightarrow> bool" where
  "typed_file ws rs schema spec f \<longleftrightarrow>
     (\<exists>kvs. df_partition f = Struct_from_iter kvs
        \<and> partition_of_spec (sch_fields schema) (ps_fields spec) kvs)
     \<and> (\<forall>m. df_lower_bounds f = Some m \<longrightarrow>
          traversal (bo_lower ws) m \<and> traversal (bo_lower rs) m \<and> typed_bounds (sch_fields schema) m)
     \<and> (\<forall>m. df_upper_bounds f = Some m \<longrightarrow>
          traversal (bo_upper ws) m \<and> traversal (bo_upper rs) m \<and> typed_bounds (sch_fields schema) m)"

lemma typed_file_parts:
  assumes "radix_spec (vl_to_radix_be lib)" "typed_file ws rs schema spec f"
  obtains lo up where
    "Struct_cast lib (df_partition f) (sch_fields schema) (ps_fields spec) = Ok (df_partition f)"
    "opt_try_map (bounds_to_bytes lib (bo_lower ws)) (df_lower_bounds f) = Ok lo"
    "opt_try_map (into_value_map lib (bo_lower rs) (sch_fields schema)) lo = Ok (df_lower_bounds f)"
    "opt_try_map (bounds_to_bytes lib (bo_upper ws)) (df_upper_bounds f) = Ok up"
    "opt_try_map (into_value_map lib (bo_upper rs) (sch_fields schema)) up = Ok (df_upper_bounds f)"
proof -
  have "Struct_cast lib (df_partition f) (sch_fields schema) (ps_fields spec) = Ok (df_partition f)"
    using assms(2) by (auto simp: typed_file_def Struct_cast_own_types)
  moreover obtain lo where "opt_try_map (bounds_to_bytes lib (bo_lower ws)) (df_lower_bounds f) = Ok lo"
    "opt_try_map (into_value_map lib (bo_lower rs) (sch_fields schema)) lo = Ok (df_lower_bounds f)"
    using opt_bounds_roundtrip [OF assms(1), of "df_lower_bounds f" "bo_lower ws" "bo_lower rs" "sch_fields schema"]
      assms(2) by (auto simp: typed_file_def)
  moreover obtain up where "opt_try_map (bounds_to_bytes lib (bo_upper ws)) (df_upper_bounds f) = Ok up"
    "opt_try_map (into_value_map lib (bo_upper rs) (sch_fields schema)) up = Ok (df_upper_bounds f)"
    using opt_bounds_roundtrip [OF assms(1), of "df_upper_bounds f" "bo_upper ws" "bo_upper rs" "sch_fields schema"]
      assms(2) by (auto simp: typed_file_def)
  ultimately show thesis by (rule that)
qed

lemma data_file_roundtrip:
  assumes "radix_spec (vl_to_radix_be lib)" "typed_file ws rs schema spec f"
  shows "rbind (DataFileV3_from lib ws f) (\<lambda>d. DataFile_try_from_v3 lib rs d schema spec)
       = Ok (f\<lparr>df_distinct_counts := None\<rparr>)"
    and "rbind (DataFileV2_from lib ws f) (\<lambda>d. DataFile_try_from_v2 lib rs d schema spec)
       = Ok (f\<lparr>df_first_row_id := None, df_referenced_data_file := None, df_content_offset := None,
               df_content_size_in_bytes := None\<rparr>)"
    and "rbind (DataFileV1_from lib ws f) (\<lambda>d. DataFile_try_from_v1 lib rs d schema spec)
       = Ok (f\<lparr>df_content := Data, df_equality_ids := None, df_first_row_id := None,
               df_referenced_data_file := None, df_content_offset := None,
               df_content_size_in_bytes := None\<rparr>)"
  using typed_file_parts [OF assms]
  by (fastforce simp: DataFileV3_from_def DataFile_try_from_v3_def DataFileV2_from_def
      DataFile_try_from_v2_def DataFileV1_from_def DataFile_try_from_v1_def)+

text \<open>What reading an entry back makes of it, by the format version it was written in.\<close>

definition entry_read_back :: "manifest_entry \<Rightarrow> manifest_entry" where
  "entry_read_back e =
     (case me_format_version e of
        V3 \<Rightarrow> e\<lparr>me_data_file := (me_data_file e)\<lparr>df_distinct_counts := None\<rparr>\<rparr>
      | V2 \<Rightarrow> e\<lparr>me_data_file := (me_data_file e)\<lparr>df_first_row_id := None,
               df_referenced_data_file := None, df_content_offset := None,
               df_content_size_in_bytes := None\<rparr>\<rparr>
      | V1 \<Rightarrow> \<lparr>me_format_version = V2, me_status = me_status e,
               me_snapshot_id = Some (case me_snapshot_id e of Some i \<Rightarrow> i | None \<Rightarrow> 0),
               me_sequence_number = None,
               me_data_file = (me_data_file e)\<lparr>df_content := Data, df_equality_ids := None,
                 df_first_row_id := None, df_referenced_data_file := None, df_content_offset := None,
                 df_content_size_in_bytes := None\<rparr>\<rparr>)"

definition ManifestEntry_try_from_enum ::
  "value_lib \<Rightarrow> bound_orders \<Rightarrow> manifest_entry_enum \<Rightarrow> schema \<Rightarrow> partition_spec \<Rightarrow> (manifest_entry, spec_error) outcome" where
  "ManifestEntry_try_from_enum lib os v schema spec =
     (case v of
        EE_V3 e \<Rightarrow> ManifestEntry_try_from_v3 lib os e schema spec
      | EE_V2 e \<Rightarrow> ManifestEntry_try_from_v2 lib os e schema spec
      | EE_V1 e \<Rightarrow> ManifestEntry_try_from_v1 lib os e schema spec)"

lemma manifest_entry_roundtrip_lemma:
  assumes "radix_spec (vl_to_radix_be lib)" "typed_file ws rs schema spec (me_data_file e)"
  shows "rbind (ManifestEntryEnum_from lib ws e)
           (\<lambda>v. ManifestEntry_try_from_enum lib rs v schema spec) = Ok (entry_read_back e)"
  using data_file_roundtrip [OF assms]
  by (cases "me_format_version e")
    (auto simp: ManifestEntryEnum_from_def ManifestEntryV3_from_def ManifestEntryV2_from_def
      ManifestEntryV1_from_def ManifestEntry_try_from_enum_def ManifestEntry_try_from_v3_def
      ManifestEntry_try_from_v2_def ManifestEntry_try_from_v1_def entry_read_back_def)

text \<open>
  C39. A manifest entry whose partition and bounds have the types of the schema is read back
  from the form of its format version: V3 loses only the distinct counts, V2 only the V3
  fields, and V1 also the content, the equality ids and the sequence number, and its entry is
  marked V2. The bounds survive whatever the traversal orders of their maps are.
\<close>

theorem manifest_entry_roundtrip:
  assumes "radix_spec (vl_to_radix_be lib)" "typed_file ws rs schema spec (me_data_file e)"
  shows "rbind (ManifestEntryEnum_from lib ws e)
           (\<lambda>v. ManifestEntry_try_from_enum lib rs v schema spec) = Ok (entry_read_back e)"
  using assms by (rule manifest_entry_roundtrip_lemma)

text \<open>
  Reading a bound that was written before its column was widened (int to long, float to
  double, date to timestamp, a larger decimal precision) gives the value that the promotion
  of the bound gives.
\<close>

theorem old_bound_is_promoted:
  assumes "radix_spec (vl_to_radix_be lib)" "wf_value v"
    and "value_datatype v = Ok s" "value_to_bytes lib v = Ok bs"
    and "promote_iceberg lib v s t = Ok v'"
  shows "decode_bound lib bs t = Ok v'"
proof (cases "s = t")
  case True
  then show ?thesis
    using assms decode_bound_has_type [OF assms(1,2), of t] by (auto simp: has_type_def promote_iceberg_def)
next
  case False
  show ?thesis
  proof (cases v)
    case (VDecimal d)
    then obtain p where "t = Primitive (PDecimal p (decimal_scale d))" "v' = v"
      using assms(3,5) False
      by (auto simp: value_datatype_def promote_iceberg_def Let_def
          split: ice_type.splits primitive_type.splits if_splits)
    then show ?thesis
      using assms(4) VDecimal decode_bound_has_type [OF assms(1,2), of t]
      by (auto simp: has_type_def decimal_unchanged_def)
  next
    case (VFloat x)
    have "uint x mod 256 ^ 4 = uint x" using uint_lt2p [of x] by (intro mod_pos_pos_trivial) simp_all
    with VFloat assms(3-5) False show ?thesis
      by (auto simp: value_datatype_def value_to_bytes_def promote_iceberg_def Let_def decode_bound_def
          split: ice_type.splits primitive_type.splits)
  qed (use assms(2-5) False in \<open>auto simp: value_datatype_def value_to_bytes_def promote_iceberg_def
        Let_def decode_bound_def sint_le_i32 split: ice_type.splits primitive_type.splits if_splits\<close>)
qed

theorem old_bound_is_promoted_witness:
  "decode_bound sample_lib (to_le_bytes 4 (- 7)) (Primitive PLong) = Ok (VLongInt (- 7))"
  by (rule old_bound_is_promoted [OF sample_radix, of "VInt (- 7)" "Primitive PInt"])
    (simp_all add: in_i32_def value_datatype_def value_to_bytes_def promote_iceberg_def)

definition sample_schema :: schema where
  "sample_schema =
     \<lparr>sch_schema_id = 0, sch_identifier_field_ids = None,
      sch_fields = StructType_new
        [StructField 1 ''id'' True (Primitive PLong) None None None,
         StructField 2 ''region'' True (Primitive PString) None None None]\<rparr>"

definition sample_spec :: partition_spec where
  "sample_spec =
     \<lparr>ps_spec_id = 0,
      ps_fields = [\<lparr>pf_source_id = 2, pf_field_id = 1000, pf_name = ''region'', pf_transform = Identity\<rparr>]\<rparr>"

definition sample_file :: "i64 \<Rightarrow> data_file" where
  "sample_file n =
     \<lparr>df_content = Data, df_file_path = ''f'', df_file_format = Parquet,
      df_partition = Struct_from_iter [(''region'', Some (VString ''eu''))],
      df_record_count = n, df_file_size_in_bytes = 100, df_column_sizes = None,
      df_value_counts = None, df_null_value_counts = None, df_nan_value_counts = None,
      df_distinct_counts = None, df_lower_bounds = Some [1 \<mapsto> VLongInt 3],
      df_upper_bounds = Some [1 \<mapsto> VLongInt 9], df_key_metadata = None, df_split_offsets = None,
      df_equality_ids = None, df_sort_order_id = None, df_first_row_id = None,
      df_referenced_data_file = None, df_content_offset = None, df_content_size_in_bytes = None\<rparr>"

definition sample_entry :: "format_version \<Rightarrow> i64 \<Rightarrow> manifest_entry" where
  "sample_entry v n =
     \<lparr>me_format_version = v, me_status = Added, me_snapshot_id = Some 7, me_sequence_number = Some 1,
      me_data_file = sample_file n\<rparr>"

lemma sample_schema_get [simp]:
  "StructType_get (sch_fields sample_schema) (i32_as_usize 1)
     = Ok (Some (StructField 1 ''id'' True (Primitive PLong) None None None))"
  "StructType_get (sch_fields sample_schema) (i32_as_usize 2)
     = Ok (Some (StructField 2 ''region'' True (Primitive PString) None None None))"
  by (simp_all add: StructType_get_def sample_schema_def StructType_new_def in_i32_def hm_from_iter_def)

lemma sample_file_typed:
  "typed_file \<lparr>bo_lower = [1], bo_upper = [1]\<rparr> \<lparr>bo_lower = [1], bo_upper = [1]\<rparr>
     sample_schema sample_spec (sample_file n)"
proof -
  have "partition_of_spec (sch_fields sample_schema) (ps_fields sample_spec) [(''region'', Some (VString ''eu''))]"
    unfolding partition_of_spec_def
    by (intro conjI exI [of _ "\<lambda>_. Primitive PString"])
      (simp_all add: sample_spec_def tranform_def value_datatype_def)
  moreover have "typed_bounds (sch_fields sample_schema) [1 \<mapsto> VLongInt k]" if "in_i64 k" for k
    using that by (simp add: typed_bounds_def has_type_def value_datatype_def)
  ultimately show ?thesis
    unfolding typed_file_def
    by (intro conjI) (auto simp: sample_file_def traversal_def in_i64_def)
qed

theorem manifest_entry_roundtrip_witness:
  "rbind (ManifestEntryEnum_from sample_lib \<lparr>bo_lower = [1], bo_upper = [1]\<rparr> (sample_entry V3 5))
     (\<lambda>v. ManifestEntry_try_from_enum sample_lib \<lparr>bo_lower = [1], bo_upper = [1]\<rparr> v sample_schema sample_spec)
   = Ok (sample_entry V3 5)"
proof -
  have "typed_file \<lparr>bo_lower = [1], bo_upper = [1]\<rparr> \<lparr>bo_lower = [1], bo_upper = [1]\<rparr>
     sample_schema sample_spec (me_data_file (sample_entry V3 5))"
    by (simp add: sample_entry_def sample_file_typed)
  from manifest_entry_roundtrip [OF sample_radix this] show ?thesis
    by (simp add: entry_read_back_def sample_entry_def sample_file_def)
qed

theorem first_row_ids_are_contiguous_witness:
  "inherit_first_row_ids (for_committed_manifest (Some 100)) [sample_entry V3 5, sample_entry V3 8]
   = Ok (Assign 113, [set_first_row_id (Some 100) (sample_entry V3 5),
                      set_first_row_id (Some 105) (sample_entry V3 8)])"
  using first_row_ids_are_contiguous [of 100 "[sample_entry V3 5, sample_entry V3 8]" "Assign 113"
      "[set_first_row_id (Some 100) (sample_entry V3 5), set_first_row_id (Some 105) (sample_entry V3 8)]"]
  by (simp add: sample_entry_def sample_file_def inherits_row_id_def)

section \<open>Promotion of bounds\<close>

lemma promote_iceberg_type:
  assumes "value_datatype v = Ok s" "promote_iceberg lib v s t = Ok v'"
  shows "has_type v' t"
proof (cases "s = t")
  case True
  with assms show ?thesis by (simp add: promote_iceberg_def has_type_def)
next
  case False
  with assms show ?thesis
    by (cases v)
      (auto simp: value_datatype_def promote_iceberg_def Let_def has_type_def decimal_unchanged_def
        value_cast_def value_cast_other_def split: ice_type.splits primitive_type.splits if_splits)
qed

lemma promote_bound_type:
  assumes "promote_bound lib schema k v = Ok (Some v')"
    and "field_type_by_id (sch_fields schema) k = Ok (Some t)"
  shows "has_type v' t"
  using assms promote_iceberg_type [of v _ lib t]
  by (auto simp: promote_bound_def has_type_def split: if_splits outcome.splits)

lemma retain_bounds_type:
  assumes "traversal ks m" "retain_bounds lib schema ks m = Ok m'" "m' k = Some v'"
  shows "\<exists>v. m k = Some v \<and> promote_bound lib schema k v = Ok (Some v')"
  using hm_try_filter_map_eq_Ok [OF assms(1) assms(2) [unfolded retain_bounds_def]] assms(3)
  by (auto split: option.splits outcome.splits)



section \<open>Inheritance as a source of row ids\<close>

lemma inherit_is_give_all: "inherit_first_row_ids mode es = give_all FirstRowIdInheritance_apply mode es"
  by (induction es arbitrary: mode) auto

definition inheritance_next :: "first_row_id_inheritance \<Rightarrow> i64" where
  "inheritance_next mode = (case mode of Assign n \<Rightarrow> n | _ \<Rightarrow> 0)"

definition inheritance_needs :: "first_row_id_inheritance \<Rightarrow> manifest_entry \<Rightarrow> bool" where
  "inheritance_needs mode e \<longleftrightarrow> (case mode of Assign _ \<Rightarrow> inherits_row_id e | _ \<Rightarrow> False)"

interpretation entry_ids: contiguous_row_ids FirstRowIdInheritance_apply inheritance_next inheritance_needs
  "\<lambda>e. df_record_count (me_data_file e)" "\<lambda>e. df_first_row_id (me_data_file e)"
proof unfold_locales
  fix mode mode' e e' z
  assume r: "FirstRowIdInheritance_apply mode e = Ok (mode', e')"
  show "inheritance_needs mode' z = inheritance_needs mode z"
    using r by (cases mode) (auto simp: FirstRowIdInheritance_apply_def inheritance_needs_def split: if_splits)
  show "inheritance_needs mode e \<Longrightarrow> \<exists>a. df_first_row_id (me_data_file e') = Some a \<and> inheritance_next mode \<le> a
      \<and> 0 \<le> df_record_count (me_data_file e) \<and> inheritance_next mode' = a + df_record_count (me_data_file e)"
    using r by (cases mode) (auto simp: apply_assign_Ok inheritance_needs_def inheritance_next_def set_first_row_id_def)
  show "\<not> inheritance_needs mode e \<Longrightarrow> inheritance_next mode' = inheritance_next mode"
    using r by (cases mode) (auto simp: FirstRowIdInheritance_apply_def inheritance_needs_def inheritance_next_def split: if_splits)
  show "inheritance_needs mode e \<Longrightarrow> df_first_row_id (me_data_file e') = Some (inheritance_next mode)"
    using r by (cases mode) (auto simp: apply_assign_Ok inheritance_needs_def inheritance_next_def set_first_row_id_def)
qed

end
