(* ===== verification/Manifest_List.thy ===== *)
theory Manifest_List
  imports Manifest
begin

text \<open>
  Manifest list entries (\<open>iceberg-rust-spec/src/spec/manifest_list.rs\<close>): their V1, V2 and V3
  forms, the choice of the schema an entry's partition summaries are read with, and the
  decoder that caches the partition types. The Avro codec is a parameter.
\<close>

section \<open>Data\<close>

datatype ml_content = ContentData | ContentDeletes

record field_summary =
  fs_contains_null :: bool
  fs_contains_nan :: "bool option"
  fs_lower_bound :: "ice_value option"
  fs_upper_bound :: "ice_value option"

record field_summary_serde =
  fss_contains_null :: bool
  fss_contains_nan :: "bool option"
  fss_lower_bound :: "byte list option"
  fss_upper_bound :: "byte list option"

record manifest_list_entry =
  ml_format_version :: format_version
  ml_manifest_path :: string
  ml_manifest_length :: i64
  ml_partition_spec_id :: i32
  ml_content :: ml_content
  ml_sequence_number :: i64
  ml_min_sequence_number :: i64
  ml_added_snapshot_id :: i64
  ml_added_files_count :: "i32 option"
  ml_existing_files_count :: "i32 option"
  ml_deleted_files_count :: "i32 option"
  ml_added_rows_count :: "i64 option"
  ml_existing_rows_count :: "i64 option"
  ml_deleted_rows_count :: "i64 option"
  ml_partitions :: "field_summary list option"
  ml_key_metadata :: "byte list option"
  ml_first_row_id :: "i64 option"

record manifest_list_entry_v3 =
  l3_manifest_path :: string
  l3_manifest_length :: i64
  l3_partition_spec_id :: i32
  l3_content :: ml_content
  l3_sequence_number :: i64
  l3_min_sequence_number :: i64
  l3_added_snapshot_id :: i64
  l3_added_files_count :: i32
  l3_existing_files_count :: i32
  l3_deleted_files_count :: i32
  l3_added_rows_count :: i64
  l3_existing_rows_count :: i64
  l3_deleted_rows_count :: i64
  l3_partitions :: "field_summary_serde list option"
  l3_key_metadata :: "byte list option"
  l3_first_row_id :: "i64 option"

record manifest_list_entry_v2 =
  l2_manifest_path :: string
  l2_manifest_length :: i64
  l2_partition_spec_id :: i32
  l2_content :: ml_content
  l2_sequence_number :: i64
  l2_min_sequence_number :: i64
  l2_added_snapshot_id :: i64
  l2_added_files_count :: i32
  l2_existing_files_count :: i32
  l2_deleted_files_count :: i32
  l2_added_rows_count :: i64
  l2_existing_rows_count :: i64
  l2_deleted_rows_count :: i64
  l2_partitions :: "field_summary_serde list option"
  l2_key_metadata :: "byte list option"

record manifest_list_entry_v1 =
  l1_manifest_path :: string
  l1_manifest_length :: i64
  l1_partition_spec_id :: i32
  l1_added_snapshot_id :: i64
  l1_added_files_count :: "i32 option"
  l1_existing_files_count :: "i32 option"
  l1_deleted_files_count :: "i32 option"
  l1_added_rows_count :: "i64 option"
  l1_existing_rows_count :: "i64 option"
  l1_deleted_rows_count :: "i64 option"
  l1_partitions :: "field_summary_serde list option"
  l1_key_metadata :: "byte list option"

datatype manifest_list_entry_enum =
    LE_V3 manifest_list_entry_v3 | LE_V2 manifest_list_entry_v2 | LE_V1 manifest_list_entry_v1

section \<open>Writing\<close>

definition FieldSummarySerde_from ::
  "value_lib \<Rightarrow> field_summary \<Rightarrow> (field_summary_serde, spec_error) outcome" where
  "FieldSummarySerde_from lib v =
     rbind (opt_try_map (value_to_bytes lib) (fs_lower_bound v)) (\<lambda>lo.
     rbind (opt_try_map (value_to_bytes lib) (fs_upper_bound v)) (\<lambda>up.
     Ok \<lparr>fss_contains_null = fs_contains_null v, fss_contains_nan = fs_contains_nan v,
         fss_lower_bound = lo, fss_upper_bound = up\<rparr>))"

definition ManifestListEntryV3_from ::
  "value_lib \<Rightarrow> manifest_list_entry \<Rightarrow> (manifest_list_entry_v3, spec_error) outcome" where
  "ManifestListEntryV3_from lib v =
     rbind (unwrap (ml_added_files_count v)) (\<lambda>af.
     rbind (unwrap (ml_existing_files_count v)) (\<lambda>ef.
     rbind (unwrap (ml_deleted_files_count v)) (\<lambda>df.
     rbind (unwrap (ml_added_rows_count v)) (\<lambda>ar.
     rbind (unwrap (ml_existing_rows_count v)) (\<lambda>er.
     rbind (unwrap (ml_deleted_rows_count v)) (\<lambda>dr.
     rbind (opt_try_map (try_map (FieldSummarySerde_from lib)) (ml_partitions v)) (\<lambda>ps.
     Ok \<lparr>l3_manifest_path = ml_manifest_path v,
         l3_manifest_length = ml_manifest_length v,
         l3_partition_spec_id = ml_partition_spec_id v,
         l3_content = ml_content v,
         l3_sequence_number = ml_sequence_number v,
         l3_min_sequence_number = ml_min_sequence_number v,
         l3_added_snapshot_id = ml_added_snapshot_id v,
         l3_added_files_count = af,
         l3_existing_files_count = ef,
         l3_deleted_files_count = df,
         l3_added_rows_count = ar,
         l3_existing_rows_count = er,
         l3_deleted_rows_count = dr,
         l3_partitions = ps,
         l3_key_metadata = ml_key_metadata v,
         l3_first_row_id = ml_first_row_id v\<rparr>)))))))"

definition ManifestListEntryV2_from ::
  "value_lib \<Rightarrow> manifest_list_entry \<Rightarrow> (manifest_list_entry_v2, spec_error) outcome" where
  "ManifestListEntryV2_from lib v =
     rbind (unwrap (ml_added_files_count v)) (\<lambda>af.
     rbind (unwrap (ml_existing_files_count v)) (\<lambda>ef.
     rbind (unwrap (ml_deleted_files_count v)) (\<lambda>df.
     rbind (unwrap (ml_added_rows_count v)) (\<lambda>ar.
     rbind (unwrap (ml_existing_rows_count v)) (\<lambda>er.
     rbind (unwrap (ml_deleted_rows_count v)) (\<lambda>dr.
     rbind (opt_try_map (try_map (FieldSummarySerde_from lib)) (ml_partitions v)) (\<lambda>ps.
     Ok \<lparr>l2_manifest_path = ml_manifest_path v,
         l2_manifest_length = ml_manifest_length v,
         l2_partition_spec_id = ml_partition_spec_id v,
         l2_content = ml_content v,
         l2_sequence_number = ml_sequence_number v,
         l2_min_sequence_number = ml_min_sequence_number v,
         l2_added_snapshot_id = ml_added_snapshot_id v,
         l2_added_files_count = af,
         l2_existing_files_count = ef,
         l2_deleted_files_count = df,
         l2_added_rows_count = ar,
         l2_existing_rows_count = er,
         l2_deleted_rows_count = dr,
         l2_partitions = ps,
         l2_key_metadata = ml_key_metadata v\<rparr>)))))))"

definition ManifestListEntryV1_from ::
  "value_lib \<Rightarrow> manifest_list_entry \<Rightarrow> (manifest_list_entry_v1, spec_error) outcome" where
  "ManifestListEntryV1_from lib v =
     rbind (opt_try_map (try_map (FieldSummarySerde_from lib)) (ml_partitions v)) (\<lambda>ps.
     Ok \<lparr>l1_manifest_path = ml_manifest_path v,
         l1_manifest_length = ml_manifest_length v,
         l1_partition_spec_id = ml_partition_spec_id v,
         l1_added_snapshot_id = ml_added_snapshot_id v,
         l1_added_files_count = ml_added_files_count v,
         l1_existing_files_count = ml_existing_files_count v,
         l1_deleted_files_count = ml_deleted_files_count v,
         l1_added_rows_count = ml_added_rows_count v,
         l1_existing_rows_count = ml_existing_rows_count v,
         l1_deleted_rows_count = ml_deleted_rows_count v,
         l1_partitions = ps,
         l1_key_metadata = ml_key_metadata v\<rparr>)"

definition ManifestListEntryEnum_from ::
  "value_lib \<Rightarrow> manifest_list_entry \<Rightarrow> (manifest_list_entry_enum, spec_error) outcome" where
  "ManifestListEntryEnum_from lib v =
     (case ml_format_version v of
        V3 \<Rightarrow> rbind (ManifestListEntryV3_from lib v) (\<lambda>e. Ok (LE_V3 e))
      | V2 \<Rightarrow> rbind (ManifestListEntryV2_from lib v) (\<lambda>e. Ok (LE_V2 e))
      | V1 \<Rightarrow> rbind (ManifestListEntryV1_from lib v) (\<lambda>e. Ok (LE_V1 e)))"

section \<open>Reading partition summaries\<close>

definition decode_summary_bound ::
  "value_lib \<Rightarrow> byte list option \<Rightarrow> ice_type option \<Rightarrow> bool \<Rightarrow> (ice_value option, spec_error) outcome" where
  "decode_summary_bound lib bytes data_type promote =
     (case (bytes, data_type) of
        (Some bs, Some t) \<Rightarrow>
          if promote then rbind (decode_bound lib bs t) (\<lambda>v. Ok (Some v))
          else rbind (decode_bound_for_copy lib bs t) (\<lambda>v. Ok (Some v))
      | _ \<Rightarrow> Ok None)"

definition from_serde_with_mode ::
  "value_lib \<Rightarrow> field_summary_serde \<Rightarrow> ice_type option \<Rightarrow> bool \<Rightarrow> (field_summary, spec_error) outcome" where
  "from_serde_with_mode lib v data_type promote =
     rbind (decode_summary_bound lib (fss_lower_bound v) data_type promote) (\<lambda>lo.
     rbind (decode_summary_bound lib (fss_upper_bound v) data_type promote) (\<lambda>up.
     Ok \<lparr>fs_contains_null = fss_contains_null v, fs_contains_nan = fss_contains_nan v,
         fs_lower_bound = lo, fs_upper_bound = up\<rparr>))"

definition decode_partition_summaries ::
  "value_lib \<Rightarrow> field_summary_serde list option \<Rightarrow> ice_type option list \<Rightarrow> bool
   \<Rightarrow> (field_summary list option, spec_error) outcome" where
  "decode_partition_summaries lib partitions types promote =
     (case partitions of
        None \<Rightarrow> Ok None
      | Some summaries \<Rightarrow>
          if length summaries \<noteq> length types then Ok None
          else rbind (try_map (\<lambda>(summary, data_type). from_serde_with_mode lib summary data_type promote)
                        (zip summaries types))
                 (\<lambda>xs. Ok (Some xs)))"

definition try_from_v3_with_types ::
  "value_lib \<Rightarrow> manifest_list_entry_v3 \<Rightarrow> ice_type option list \<Rightarrow> bool \<Rightarrow> (manifest_list_entry, spec_error) outcome" where
  "try_from_v3_with_types lib v types promote =
     rbind (decode_partition_summaries lib (l3_partitions v) types promote) (\<lambda>ps.
     Ok \<lparr>ml_format_version = V3,
         ml_manifest_path = l3_manifest_path v,
         ml_manifest_length = l3_manifest_length v,
         ml_partition_spec_id = l3_partition_spec_id v,
         ml_content = l3_content v,
         ml_sequence_number = l3_sequence_number v,
         ml_min_sequence_number = l3_min_sequence_number v,
         ml_added_snapshot_id = l3_added_snapshot_id v,
         ml_added_files_count = Some (l3_added_files_count v),
         ml_existing_files_count = Some (l3_existing_files_count v),
         ml_deleted_files_count = Some (l3_deleted_files_count v),
         ml_added_rows_count = Some (l3_added_rows_count v),
         ml_existing_rows_count = Some (l3_existing_rows_count v),
         ml_deleted_rows_count = Some (l3_deleted_rows_count v),
         ml_partitions = ps,
         ml_key_metadata = l3_key_metadata v,
         ml_first_row_id = l3_first_row_id v\<rparr>)"

definition try_from_v2_with_types ::
  "value_lib \<Rightarrow> manifest_list_entry_v2 \<Rightarrow> ice_type option list \<Rightarrow> bool \<Rightarrow> (manifest_list_entry, spec_error) outcome" where
  "try_from_v2_with_types lib v types promote =
     rbind (decode_partition_summaries lib (l2_partitions v) types promote) (\<lambda>ps.
     Ok \<lparr>ml_format_version = V2,
         ml_manifest_path = l2_manifest_path v,
         ml_manifest_length = l2_manifest_length v,
         ml_partition_spec_id = l2_partition_spec_id v,
         ml_content = l2_content v,
         ml_sequence_number = l2_sequence_number v,
         ml_min_sequence_number = l2_min_sequence_number v,
         ml_added_snapshot_id = l2_added_snapshot_id v,
         ml_added_files_count = Some (l2_added_files_count v),
         ml_existing_files_count = Some (l2_existing_files_count v),
         ml_deleted_files_count = Some (l2_deleted_files_count v),
         ml_added_rows_count = Some (l2_added_rows_count v),
         ml_existing_rows_count = Some (l2_existing_rows_count v),
         ml_deleted_rows_count = Some (l2_deleted_rows_count v),
         ml_partitions = ps,
         ml_key_metadata = l2_key_metadata v,
         ml_first_row_id = None\<rparr>)"

definition try_from_v1_with_types ::
  "value_lib \<Rightarrow> manifest_list_entry_v1 \<Rightarrow> ice_type option list \<Rightarrow> bool \<Rightarrow> (manifest_list_entry, spec_error) outcome" where
  "try_from_v1_with_types lib v types promote =
     rbind (decode_partition_summaries lib (l1_partitions v) types promote) (\<lambda>ps.
     Ok \<lparr>ml_format_version = V1,
         ml_manifest_path = l1_manifest_path v,
         ml_manifest_length = l1_manifest_length v,
         ml_partition_spec_id = l1_partition_spec_id v,
         ml_content = ContentData,
         ml_sequence_number = 0,
         ml_min_sequence_number = 0,
         ml_added_snapshot_id = l1_added_snapshot_id v,
         ml_added_files_count = l1_added_files_count v,
         ml_existing_files_count = l1_existing_files_count v,
         ml_deleted_files_count = l1_deleted_files_count v,
         ml_added_rows_count = l1_added_rows_count v,
         ml_existing_rows_count = l1_existing_rows_count v,
         ml_deleted_rows_count = l1_deleted_rows_count v,
         ml_partitions = ps,
         ml_key_metadata = l1_key_metadata v,
         ml_first_row_id = None\<rparr>)"

section \<open>The schema of an entry\<close>

definition partition_field_types ::
  "table_metadata \<Rightarrow> i32 \<Rightarrow> schema \<Rightarrow> (ice_type option list, spec_error) outcome" where
  "partition_field_types tm spec_id schema =
     rbind (ok_or (SNotFound (''Partition spec with id '' @ show_int spec_id)) (tm_partition_specs tm spec_id))
       (\<lambda>spec. data_types_lenient spec (sch_fields schema))"

text \<open>\<open>Result::is_ok\<close>, and a filter by a condition that can panic.\<close>

definition is_ok :: "('a, 'e) outcome \<Rightarrow> (bool, 'e) outcome" where
  "is_ok m = (case m of Ok _ \<Rightarrow> Ok True | Err _ \<Rightarrow> Ok False | Panic s \<Rightarrow> Panic s)"

fun try_filter :: "('a \<Rightarrow> (bool, 'e) outcome) \<Rightarrow> 'a list \<Rightarrow> ('a list, 'e) outcome" where
  "try_filter p [] = Ok []"
| "try_filter p (x # xs) =
     rbind (p x) (\<lambda>b. rbind (try_filter p xs) (\<lambda>ys. Ok (if b then x # ys else ys)))"

text \<open>\<open>Iterator::max_by_key\<close>: the last of the greatest elements.\<close>

definition max_by_key :: "('a \<Rightarrow> int) \<Rightarrow> 'a list \<Rightarrow> 'a option" where
  "max_by_key f xs =
     (case xs of [] \<Rightarrow> None | y # ys \<Rightarrow> Some (foldl (\<lambda>a b. if f a \<le> f b then b else a) y ys))"

definition schema_has_types :: "partition_spec \<Rightarrow> schema \<Rightarrow> (bool, spec_error) outcome" where
  "schema_has_types spec schema = is_ok (data_types spec (sch_fields schema))"

text \<open>
  The schema of the snapshot that added the manifest if the partition spec can be read with
  it, else the current one, else the newest one that fits; the flag says whether one fits.
\<close>

definition historical_entry_schema ::
  "i32 list \<Rightarrow> table_metadata \<Rightarrow> i32 \<Rightarrow> i64 \<Rightarrow> (schema \<times> bool, spec_error) outcome" where
  "historical_entry_schema ks tm spec_id snapshot_id =
     rbind (ok_or (SNotFound (''Partition spec with id '' @ show_int spec_id)) (tm_partition_specs tm spec_id))
       (\<lambda>spec.
     rbind (case Option.bind (Option.bind (tm_snapshots tm snapshot_id) sn_schema_id) (tm_schemas tm) of
              None \<Rightarrow> Ok None
            | Some schema \<Rightarrow> rbind (schema_has_types spec schema) (\<lambda>b. Ok (if b then Some schema else None)))
       (\<lambda>own. case own of
          Some schema \<Rightarrow> Ok (schema, True)
        | None \<Rightarrow>
            rbind (current_schema tm) (\<lambda>current.
            rbind (schema_has_types spec current) (\<lambda>b.
            if b then Ok (current, True)
            else rbind (try_filter (\<lambda>(_, schema). schema_has_types spec schema) (hm_entries ks (tm_schemas tm)))
                   (\<lambda>cs. case max_by_key fst cs of
                      None \<Rightarrow> Ok (current, False)
                    | Some (_, schema) \<Rightarrow> Ok (schema, True))))))"

section \<open>The decoder\<close>

text \<open>\<open>apache_avro::from_value\<close> at the three entry types.\<close>

record 'a avro_reader =
  ar_v1 :: "'a \<Rightarrow> (manifest_list_entry_v1, spec_error) outcome"
  ar_v2 :: "'a \<Rightarrow> (manifest_list_entry_v2, spec_error) outcome"
  ar_v3 :: "'a \<Rightarrow> (manifest_list_entry_v3, spec_error) outcome"

record cached_partition_types =
  cp_fields :: "ice_type option list"
  cp_complete :: bool

record ml_decoder =
  md_table_metadata :: table_metadata
  md_schema :: "schema option"
  md_partition_types :: "i32 \<times> i32 \<rightharpoonup> cached_partition_types"

definition Decoder_new :: "table_metadata \<Rightarrow> ml_decoder" where
  "Decoder_new tm = \<lparr>md_table_metadata = tm, md_schema = None, md_partition_types = Map.empty\<rparr>"

definition Decoder_with_schema :: "table_metadata \<Rightarrow> schema \<Rightarrow> ml_decoder" where
  "Decoder_with_schema tm schema =
     \<lparr>md_table_metadata = tm, md_schema = Some schema, md_partition_types = Map.empty\<rparr>"

definition preferred_schema_id :: "ml_decoder \<Rightarrow> i64 \<Rightarrow> i32" where
  "preferred_schema_id d snapshot_id =
     (case md_schema d of
        None \<Rightarrow>
          (case Option.bind (tm_snapshots (md_table_metadata d) snapshot_id) sn_schema_id of
             Some i \<Rightarrow> i | None \<Rightarrow> tm_current_schema_id (md_table_metadata d))
      | Some schema \<Rightarrow> sch_schema_id schema)"

definition compute_partition_types ::
  "i32 list \<Rightarrow> ml_decoder \<Rightarrow> i32 \<Rightarrow> i64 \<Rightarrow> (cached_partition_types, spec_error) outcome" where
  "compute_partition_types ks d spec_id snapshot_id =
     rbind (case md_schema d of
              Some schema \<Rightarrow> Ok (schema, True)
            | None \<Rightarrow> historical_entry_schema ks (md_table_metadata d) spec_id snapshot_id)
       (\<lambda>(schema, has_partition_types).
     rbind (partition_field_types (md_table_metadata d) spec_id schema) (\<lambda>fs.
     Ok \<lparr>cp_fields = fs, cp_complete = has_partition_types\<rparr>))"

definition Decoder_partition_types ::
  "i32 list \<Rightarrow> ml_decoder \<Rightarrow> i32 \<Rightarrow> i64 \<Rightarrow> (cached_partition_types \<times> ml_decoder, spec_error) outcome" where
  "Decoder_partition_types ks d spec_id snapshot_id =
     (let key = (spec_id, preferred_schema_id d snapshot_id)
      in case md_partition_types d key of
           Some c \<Rightarrow> Ok (c, d)
         | None \<Rightarrow>
             rbind (compute_partition_types ks d spec_id snapshot_id) (\<lambda>c.
             Ok (c, d\<lparr>md_partition_types := (md_partition_types d)(key \<mapsto> c)\<rparr>)))"

definition drop_partitions :: "bool \<Rightarrow> manifest_list_entry \<Rightarrow> manifest_list_entry" where
  "drop_partitions has_types e = (if has_types then e else e\<lparr>ml_partitions := None\<rparr>)"

definition Decoder_decode ::
  "value_lib \<Rightarrow> i32 list \<Rightarrow> 'a avro_reader \<Rightarrow> ml_decoder \<Rightarrow> ('a, spec_error) outcome \<Rightarrow> format_version
   \<Rightarrow> (manifest_list_entry \<times> ml_decoder, spec_error) outcome" where
  "Decoder_decode lib ks ar d value' format_version =
     rbind value' (\<lambda>x.
     case format_version of
       V1 \<Rightarrow>
         rbind (ar_v1 ar x) (\<lambda>entry.
         rbind (Decoder_partition_types ks d (l1_partition_spec_id entry) (l1_added_snapshot_id entry)) (\<lambda>(c, d').
         rbind (try_from_v1_with_types lib entry (cp_fields c) (md_schema d \<noteq> None)) (\<lambda>e.
         Ok (drop_partitions (cp_complete c) e, d'))))
     | V2 \<Rightarrow>
         rbind (ar_v2 ar x) (\<lambda>entry.
         rbind (Decoder_partition_types ks d (l2_partition_spec_id entry) (l2_added_snapshot_id entry)) (\<lambda>(c, d').
         rbind (try_from_v2_with_types lib entry (cp_fields c) (md_schema d \<noteq> None)) (\<lambda>e.
         Ok (drop_partitions (cp_complete c) e, d'))))
     | V3 \<Rightarrow>
         rbind (ar_v3 ar x) (\<lambda>entry.
         rbind (Decoder_partition_types ks d (l3_partition_spec_id entry) (l3_added_snapshot_id entry)) (\<lambda>(c, d').
         rbind (try_from_v3_with_types lib entry (cp_fields c) (md_schema d \<noteq> None)) (\<lambda>e.
         Ok (drop_partitions (cp_complete c) e, d')))))"

text \<open>A whole list through one decoder.\<close>

fun decode_all ::
  "value_lib \<Rightarrow> i32 list \<Rightarrow> 'a avro_reader \<Rightarrow> format_version \<Rightarrow> ml_decoder \<Rightarrow> ('a, spec_error) outcome list
   \<Rightarrow> (manifest_list_entry list, spec_error) outcome" where
  "decode_all lib ks ar fv d [] = Ok []"
| "decode_all lib ks ar fv d (x # xs) =
     rbind (Decoder_decode lib ks ar d x fv) (\<lambda>(e, d').
     rbind (decode_all lib ks ar fv d' xs) (\<lambda>es. Ok (e # es)))"

text \<open>Reading one entry without a decoder, with the schema of its snapshot.\<close>

definition try_from_v3_with_schema ::
  "value_lib \<Rightarrow> manifest_list_entry_v3 \<Rightarrow> table_metadata \<Rightarrow> schema \<Rightarrow> (manifest_list_entry, spec_error) outcome" where
  "try_from_v3_with_schema lib v tm schema =
     rbind (partition_field_types tm (l3_partition_spec_id v) schema) (\<lambda>types.
     try_from_v3_with_types lib v types True)"

definition try_from_v2_with_schema ::
  "value_lib \<Rightarrow> manifest_list_entry_v2 \<Rightarrow> table_metadata \<Rightarrow> schema \<Rightarrow> (manifest_list_entry, spec_error) outcome" where
  "try_from_v2_with_schema lib v tm schema =
     rbind (partition_field_types tm (l2_partition_spec_id v) schema) (\<lambda>types.
     try_from_v2_with_types lib v types True)"

definition try_from_v1_with_schema ::
  "value_lib \<Rightarrow> manifest_list_entry_v1 \<Rightarrow> table_metadata \<Rightarrow> schema \<Rightarrow> (manifest_list_entry, spec_error) outcome" where
  "try_from_v1_with_schema lib v tm schema =
     rbind (partition_field_types tm (l1_partition_spec_id v) schema) (\<lambda>types.
     try_from_v1_with_types lib v types True)"

definition ManifestListEntry_try_from_v3 ::
  "value_lib \<Rightarrow> i32 list \<Rightarrow> manifest_list_entry_v3 \<Rightarrow> table_metadata \<Rightarrow> (manifest_list_entry, spec_error) outcome" where
  "ManifestListEntry_try_from_v3 lib ks v tm =
     rbind (historical_entry_schema ks tm (l3_partition_spec_id v) (l3_added_snapshot_id v)) (\<lambda>(schema, _).
     try_from_v3_with_schema lib v tm schema)"

definition ManifestListEntry_try_from_v2 ::
  "value_lib \<Rightarrow> i32 list \<Rightarrow> manifest_list_entry_v2 \<Rightarrow> table_metadata \<Rightarrow> (manifest_list_entry, spec_error) outcome" where
  "ManifestListEntry_try_from_v2 lib ks v tm =
     rbind (historical_entry_schema ks tm (l2_partition_spec_id v) (l2_added_snapshot_id v)) (\<lambda>(schema, _).
     try_from_v2_with_schema lib v tm schema)"

definition ManifestListEntry_try_from_v1 ::
  "value_lib \<Rightarrow> i32 list \<Rightarrow> manifest_list_entry_v1 \<Rightarrow> table_metadata \<Rightarrow> (manifest_list_entry, spec_error) outcome" where
  "ManifestListEntry_try_from_v1 lib ks v tm =
     rbind (historical_entry_schema ks tm (l1_partition_spec_id v) (l1_added_snapshot_id v)) (\<lambda>(schema, _).
     try_from_v1_with_schema lib v tm schema)"

definition ManifestListEntry_try_from_enum ::
  "value_lib \<Rightarrow> i32 list \<Rightarrow> manifest_list_entry_enum \<Rightarrow> table_metadata \<Rightarrow> (manifest_list_entry, spec_error) outcome" where
  "ManifestListEntry_try_from_enum lib ks v tm =
     (case v of
        LE_V3 e \<Rightarrow> ManifestListEntry_try_from_v3 lib ks e tm
      | LE_V2 e \<Rightarrow> ManifestListEntry_try_from_v2 lib ks e tm
      | LE_V1 e \<Rightarrow> ManifestListEntry_try_from_v1 lib ks e tm)"

definition avro_value_to_manifest_list_entry_for_format_version ::
  "value_lib \<Rightarrow> i32 list \<Rightarrow> 'a avro_reader \<Rightarrow> ('a, spec_error) outcome \<Rightarrow> table_metadata \<Rightarrow> format_version
   \<Rightarrow> (manifest_list_entry, spec_error) outcome" where
  "avro_value_to_manifest_list_entry_for_format_version lib ks ar value' tm format_version =
     rbind value' (\<lambda>x.
     case format_version of
       V1 \<Rightarrow>
         rbind (ar_v1 ar x) (\<lambda>entry.
         rbind (historical_entry_schema ks tm (l1_partition_spec_id entry) (l1_added_snapshot_id entry))
           (\<lambda>(schema, has_partition_types).
         rbind (try_from_v1_with_schema lib entry tm schema) (\<lambda>e.
         Ok (drop_partitions has_partition_types e))))
     | V2 \<Rightarrow>
         rbind (ar_v2 ar x) (\<lambda>entry.
         rbind (historical_entry_schema ks tm (l2_partition_spec_id entry) (l2_added_snapshot_id entry))
           (\<lambda>(schema, has_partition_types).
         rbind (try_from_v2_with_schema lib entry tm schema) (\<lambda>e.
         Ok (drop_partitions has_partition_types e))))
     | V3 \<Rightarrow>
         rbind (ar_v3 ar x) (\<lambda>entry.
         rbind (historical_entry_schema ks tm (l3_partition_spec_id entry) (l3_added_snapshot_id entry))
           (\<lambda>(schema, has_partition_types).
         rbind (try_from_v3_with_schema lib entry tm schema) (\<lambda>e.
         Ok (drop_partitions has_partition_types e)))))"

definition avro_value_to_manifest_list_entry ::
  "value_lib \<Rightarrow> i32 list \<Rightarrow> 'a avro_reader \<Rightarrow> ('a, spec_error) outcome \<Rightarrow> table_metadata
   \<Rightarrow> (manifest_list_entry, spec_error) outcome" where
  "avro_value_to_manifest_list_entry lib ks ar value' tm =
     avro_value_to_manifest_list_entry_for_format_version lib ks ar value' tm (tm_format_version tm)"

section \<open>The cache of the decoder\<close>

lemma historical_schema_of_current:
  assumes own: "Option.bind (tm_snapshots tm s) sn_schema_id = Some (tm_current_schema_id tm)"
    "Option.bind (tm_snapshots tm t) sn_schema_id = None"
  shows "historical_entry_schema ks tm spec_id s = historical_entry_schema ks tm spec_id t"
proof (cases "tm_partition_specs tm spec_id")
  case spec: (Some sp)
  show ?thesis
  proof (cases "tm_schemas tm (tm_current_schema_id tm)")
    case None
    then show ?thesis unfolding historical_entry_schema_def own by (simp add: spec)
  next
    case (Some sch)
    then have "current_schema tm = Ok sch" by (simp add: current_schema_def)
    with Some show ?thesis
      unfolding historical_entry_schema_def own
      by (cases "schema_has_types sp sch"; simp add: spec)
  qed
qed (simp add: historical_entry_schema_def)

lemma compute_partition_types_cong:
  assumes "preferred_schema_id d s1 = preferred_schema_id d s2"
  shows "compute_partition_types ks d spec_id s1 = compute_partition_types ks d spec_id s2"
proof (cases "md_schema d")
  case None
  let ?tm = "md_table_metadata d"
  let ?own = "\<lambda>s. Option.bind (tm_snapshots ?tm s) sn_schema_id"
  have same: "historical_entry_schema ks ?tm spec_id s = historical_entry_schema ks ?tm spec_id t"
    if "?own s = ?own t" for s t
    unfolding historical_entry_schema_def that ..
  have "historical_entry_schema ks ?tm spec_id s1 = historical_entry_schema ks ?tm spec_id s2"
  proof (cases "?own s1"; cases "?own s2")
    fix i assume o: "?own s1 = None" "?own s2 = Some i"
    then have "i = tm_current_schema_id ?tm" using assms None by (simp add: preferred_schema_id_def)
    with o show ?thesis using historical_schema_of_current [of ?tm s2 s1 ks spec_id] by simp
  next
    fix i assume o: "?own s1 = Some i" "?own s2 = None"
    then have "i = tm_current_schema_id ?tm" using assms None by (simp add: preferred_schema_id_def)
    with o show ?thesis using historical_schema_of_current [of ?tm s1 s2 ks spec_id] by simp
  next
    fix i j assume o: "?own s1 = Some i" "?own s2 = Some j"
    then have "i = j" using assms None by (simp add: preferred_schema_id_def)
    with o show ?thesis by (intro same) simp
  next
    assume "?own s1 = None" "?own s2 = None"
    then show ?thesis by (intro same) (simp only:)
  qed
  then show ?thesis using None by (simp add: compute_partition_types_def)
qed (simp add: compute_partition_types_def)

text \<open>Every cached entry is what would be computed for any snapshot with its key.\<close>

definition cache_ok :: "i32 list \<Rightarrow> ml_decoder \<Rightarrow> bool" where
  "cache_ok ks d \<longleftrightarrow>
     (\<forall>spec_id s c. md_partition_types d (spec_id, preferred_schema_id d s) = Some c \<longrightarrow>
        compute_partition_types ks d spec_id s = Ok c)"

definition same_table :: "ml_decoder \<Rightarrow> ml_decoder \<Rightarrow> bool" where
  "same_table d d' \<longleftrightarrow> md_table_metadata d = md_table_metadata d' \<and> md_schema d = md_schema d'"

lemma same_table_computes:
  assumes "same_table d d'"
  shows "preferred_schema_id d s = preferred_schema_id d' s"
    and "compute_partition_types ks d spec_id s = compute_partition_types ks d' spec_id s"
  using assms
  by (simp_all only: same_table_def preferred_schema_id_def compute_partition_types_def)

lemma partition_types_cached:
  assumes "cache_ok ks d"
  shows "case Decoder_partition_types ks d spec_id s of
      Ok (c, d') \<Rightarrow> compute_partition_types ks d spec_id s = Ok c \<and> cache_ok ks d' \<and> same_table d d'
    | Err e \<Rightarrow> compute_partition_types ks d spec_id s = Err e
    | Panic p \<Rightarrow> compute_partition_types ks d spec_id s = Panic p"
proof (cases "md_partition_types d (spec_id, preferred_schema_id d s)")
  case (Some c)
  then show ?thesis using assms by (simp add: Decoder_partition_types_def cache_ok_def same_table_def)
next
  case None
  show ?thesis
  proof (cases "compute_partition_types ks d spec_id s")
    case (Ok c)
    let ?d = "d\<lparr>md_partition_types := (md_partition_types d)((spec_id, preferred_schema_id d s) \<mapsto> c)\<rparr>"
    have st: "same_table d ?d" by (simp add: same_table_def)
    have "cache_ok ks ?d"
      unfolding cache_ok_def same_table_computes [OF st, symmetric]
    proof (intro allI impI)
      fix spec' s' c'
      assume m: "md_partition_types ?d (spec', preferred_schema_id d s') = Some c'"
      show "compute_partition_types ks d spec' s' = Ok c'"
      proof (cases "spec' = spec_id \<and> preferred_schema_id d s' = preferred_schema_id d s")
        case True
        with m Ok compute_partition_types_cong [of d s' s] show ?thesis by simp
      next
        case False
        with m assms show ?thesis by (simp add: cache_ok_def)
      qed
    qed
    with None Ok st show ?thesis by (simp add: Decoder_partition_types_def)
  qed (simp_all add: Decoder_partition_types_def None)
qed

text \<open>
  One step of the decoder, for the entry of a format version: with a good cache it gives what
  a decoder with an empty cache gives, and its cache stays good.
\<close>

lemma decode_step_cached:
  assumes c: "cache_ok ks d"
  shows "case rbind (Decoder_partition_types ks d spec_id s) (\<lambda>(c, d').
            rbind (f c) (\<lambda>e. Ok (drop_partitions (cp_complete c) e, d'))) of
      Ok (e, d') \<Rightarrow> cache_ok ks d' \<and> same_table d d'
        \<and> rbind (compute_partition_types ks d spec_id s) (\<lambda>c.
            rbind (f c) (\<lambda>e. Ok (drop_partitions (cp_complete c) e))) = Ok e
    | Err x \<Rightarrow> rbind (compute_partition_types ks d spec_id s) (\<lambda>c.
            rbind (f c) (\<lambda>e. Ok (drop_partitions (cp_complete c) e))) = Err x
    | Panic x \<Rightarrow> rbind (compute_partition_types ks d spec_id s) (\<lambda>c.
            rbind (f c) (\<lambda>e. Ok (drop_partitions (cp_complete c) e))) = Panic x"
proof (cases "Decoder_partition_types ks d spec_id s")
  case (Ok r)
  obtain c d' where r: "r = (c, d')" by fastforce
  show ?thesis
    using partition_types_cached [OF c, of spec_id s] Ok r by (cases "f c") auto
qed (use partition_types_cached [OF c, of spec_id s] in auto)

text \<open>What a decoder makes of one value when it computes the partition types anew.\<close>

definition decode_fresh ::
  "value_lib \<Rightarrow> i32 list \<Rightarrow> 'a avro_reader \<Rightarrow> ml_decoder \<Rightarrow> ('a, spec_error) outcome \<Rightarrow> format_version
   \<Rightarrow> (manifest_list_entry, spec_error) outcome" where
  "decode_fresh lib ks ar d value' fv =
     rbind value' (\<lambda>x.
     case fv of
       V1 \<Rightarrow> rbind (ar_v1 ar x) (\<lambda>entry.
         rbind (compute_partition_types ks d (l1_partition_spec_id entry) (l1_added_snapshot_id entry)) (\<lambda>c.
         rbind (try_from_v1_with_types lib entry (cp_fields c) (md_schema d \<noteq> None)) (\<lambda>e.
         Ok (drop_partitions (cp_complete c) e))))
     | V2 \<Rightarrow> rbind (ar_v2 ar x) (\<lambda>entry.
         rbind (compute_partition_types ks d (l2_partition_spec_id entry) (l2_added_snapshot_id entry)) (\<lambda>c.
         rbind (try_from_v2_with_types lib entry (cp_fields c) (md_schema d \<noteq> None)) (\<lambda>e.
         Ok (drop_partitions (cp_complete c) e))))
     | V3 \<Rightarrow> rbind (ar_v3 ar x) (\<lambda>entry.
         rbind (compute_partition_types ks d (l3_partition_spec_id entry) (l3_added_snapshot_id entry)) (\<lambda>c.
         rbind (try_from_v3_with_types lib entry (cp_fields c) (md_schema d \<noteq> None)) (\<lambda>e.
         Ok (drop_partitions (cp_complete c) e)))))"

lemma decode_fresh_same_table:
  "same_table d d' \<Longrightarrow> decode_fresh lib ks ar d x fv = decode_fresh lib ks ar d' x fv"
  unfolding decode_fresh_def using same_table_computes(2) [of d d' ks]
  by (simp only: same_table_def)

lemma decode_cached:
  assumes c: "cache_ok ks d"
  shows "case Decoder_decode lib ks ar d x fv of
      Ok (e, d') \<Rightarrow> cache_ok ks d' \<and> same_table d d' \<and> decode_fresh lib ks ar d x fv = Ok e
    | Err y \<Rightarrow> decode_fresh lib ks ar d x fv = Err y
    | Panic y \<Rightarrow> decode_fresh lib ks ar d x fv = Panic y"
proof (cases x)
  case (Ok v)
  show ?thesis
  proof (cases fv)
    case V1
    show ?thesis
    proof (cases "ar_v1 ar v")
      case e: (Ok entry)
      show ?thesis
        using decode_step_cached [OF c, of "l1_partition_spec_id entry" "l1_added_snapshot_id entry"
            "\<lambda>c. try_from_v1_with_types lib entry (cp_fields c) (md_schema d \<noteq> None)"]
        by (simp only: Decoder_decode_def decode_fresh_def Ok V1 e rbind.simps format_version.case)
    qed (simp_all add: Decoder_decode_def decode_fresh_def Ok V1)
  next
    case V2
    show ?thesis
    proof (cases "ar_v2 ar v")
      case e: (Ok entry)
      show ?thesis
        using decode_step_cached [OF c, of "l2_partition_spec_id entry" "l2_added_snapshot_id entry"
            "\<lambda>c. try_from_v2_with_types lib entry (cp_fields c) (md_schema d \<noteq> None)"]
        by (simp only: Decoder_decode_def decode_fresh_def Ok V2 e rbind.simps format_version.case)
    qed (simp_all add: Decoder_decode_def decode_fresh_def Ok V2)
  next
    case V3
    show ?thesis
    proof (cases "ar_v3 ar v")
      case e: (Ok entry)
      show ?thesis
        using decode_step_cached [OF c, of "l3_partition_spec_id entry" "l3_added_snapshot_id entry"
            "\<lambda>c. try_from_v3_with_types lib entry (cp_fields c) (md_schema d \<noteq> None)"]
        by (simp only: Decoder_decode_def decode_fresh_def Ok V3 e rbind.simps format_version.case)
    qed (simp_all add: Decoder_decode_def decode_fresh_def Ok V3)
  qed
qed (simp_all add: Decoder_decode_def decode_fresh_def)

lemma decode_all_fresh:
  assumes "cache_ok ks d" "same_table d0 d"
  shows "decode_all lib ks ar fv d xs = try_map (\<lambda>x. decode_fresh lib ks ar d0 x fv) xs"
  using assms
proof (induction xs arbitrary: d)
  case (Cons x xs)
  have same: "decode_fresh lib ks ar d x fv = decode_fresh lib ks ar d0 x fv"
    by (rule decode_fresh_same_table [OF Cons.prems(2), symmetric])
  show ?case
  proof (cases "Decoder_decode lib ks ar d x fv")
    case (Ok r)
    obtain e d' where r: "r = (e, d')" by fastforce
    have "cache_ok ks d'" "same_table d d'" "decode_fresh lib ks ar d0 x fv = Ok e"
      using decode_cached [OF Cons.prems(1), of lib ar x fv] Ok r same by auto
    with Cons.IH [of d'] Cons.prems(2) Ok r show ?thesis by (simp add: same_table_def)
  qed (use decode_cached [OF Cons.prems(1), of lib ar x fv] same in auto)
qed simp

text \<open>
  The cache of the decoder cannot be observed: a list of entries decoded through one
  decoder gives what a new decoder gives for each entry, errors and panics included, whether
  the decoder uses the schema of a scan or the schema of each entry's snapshot.
\<close>

theorem decoder_cache_transparent:
  "decode_all lib ks ar fv (Decoder_new tm) xs
     = try_map (\<lambda>x. rbind (Decoder_decode lib ks ar (Decoder_new tm) x fv) (\<lambda>(e, _). Ok e)) xs
   \<and> decode_all lib ks ar fv (Decoder_with_schema tm sch) xs
     = try_map (\<lambda>x. rbind (Decoder_decode lib ks ar (Decoder_with_schema tm sch) x fv) (\<lambda>(e, _). Ok e)) xs"
proof -
  have "decode_all lib ks ar fv d xs
      = try_map (\<lambda>x. rbind (Decoder_decode lib ks ar d x fv) (\<lambda>(e, _). Ok e)) xs"
    if "md_partition_types d = Map.empty" for d
  proof -
    have c: "cache_ok ks d" using that by (simp add: cache_ok_def)
    have "rbind (Decoder_decode lib ks ar d x fv) (\<lambda>(e, _). Ok e) = decode_fresh lib ks ar d x fv" for x
      using decode_cached [OF c, of lib ar x fv]
      by (cases "Decoder_decode lib ks ar d x fv") auto
    then show ?thesis using decode_all_fresh [OF c, of d] by (simp add: same_table_def)
  qed
  then show ?thesis by (simp add: Decoder_new_def Decoder_with_schema_def)
qed

section \<open>The schema of an entry\<close>

lemma foldl_max_by_key:
  "foldl (\<lambda>a b. if f a \<le> f b then b else a) x xs \<in> insert x (set xs)
   \<and> (\<forall>y\<in>insert x (set xs). (f y :: int) \<le> f (foldl (\<lambda>a b. if f a \<le> f b then b else a) x xs))"
proof (induction xs arbitrary: x)
  case (Cons z xs)
  from Cons.IH [of "if f x \<le> f z then z else x"] show ?case by (auto split: if_splits)
qed simp

lemma max_by_key_Some:
  "max_by_key f xs = Some x \<Longrightarrow> x \<in> set xs \<and> (\<forall>y\<in>set xs. f y \<le> f x)"
  unfolding max_by_key_def using foldl_max_by_key [of f] by (cases xs) auto

lemma max_by_key_None: "max_by_key f xs = None \<longleftrightarrow> xs = []"
  by (simp add: max_by_key_def split: list.split)

lemma try_filter_Ok:
  "try_filter p xs = Ok ys \<Longrightarrow> set ys = {x \<in> set xs. p x = Ok True} \<and> (\<forall>x\<in>set xs. \<exists>b. p x = Ok b)"
  by (induction xs arbitrary: ys) (auto split: if_splits)

lemma schema_has_types_iff:
  "schema_has_types spec s = Ok b \<Longrightarrow> b \<longleftrightarrow> (\<exists>ts. data_types spec (sch_fields s) = Ok ts)"
  by (auto simp: schema_has_types_def is_ok_def split: outcome.splits)

lemma try_filter_total:
  "\<forall>x\<in>set xs. \<exists>b. p x = Ok b \<Longrightarrow> \<exists>ys. try_filter p xs = Ok ys"
proof (induction xs)
  case (Cons x xs)
  then obtain b ys where "p x = Ok b" "try_filter p xs = Ok ys" by auto
  then show ?case by (cases b) auto
qed simp

lemma max_by_key_set:
  assumes "set xs = set ys" "inj_on f (set xs)"
  shows "max_by_key f xs = max_by_key f ys"
proof (cases "max_by_key f xs")
  case None
  then show ?thesis using assms(1) by (metis max_by_key_None set_empty)
next
  case (Some x)
  then have "max_by_key f ys \<noteq> None" using assms(1) by (metis max_by_key_None set_empty option.distinct(1))
  then obtain y where y: "max_by_key f ys = Some y" by auto
  have "f x = f y" "x \<in> set xs" "y \<in> set xs"
    using max_by_key_Some [OF Some] max_by_key_Some [OF y] assms(1) by (auto intro: antisym)
  with assms(2) Some y show ?thesis by (auto dest: inj_onD)
qed

text \<open>The search through all schemas, the last resort.\<close>

lemma filter_schemas:
  fixes p :: "schema \<Rightarrow> (bool, spec_error) outcome"
  assumes tr: "traversal ks m" "traversal ks' m"
    and cs: "try_filter (\<lambda>(_, s). p s) (hm_entries ks m) = Ok cs"
  shows "set cs = {(i, s). m i = Some s \<and> p s = Ok True}"
    and "\<And>i s. m i = Some s \<Longrightarrow> \<exists>b. p s = Ok b"
    and "\<exists>cs'. try_filter (\<lambda>(_, s). p s) (hm_entries ks' m) = Ok cs' \<and> max_by_key fst cs' = max_by_key fst cs"
proof -
  have entries: "set (hm_entries l m) = {(i, s). m i = Some s}" if "traversal l m" for l
    using that by (auto simp: hm_entries_traversal traversal_def image_iff dom_def)
  from try_filter_Ok [OF cs] entries [OF tr(1)]
  show set: "set cs = {(i, s). m i = Some s \<and> p s = Ok True}"
    and total: "\<And>i s. m i = Some s \<Longrightarrow> \<exists>b. p s = Ok b" by auto
  obtain cs' where cs': "try_filter (\<lambda>(_, s). p s) (hm_entries ks' m) = Ok cs'"
    using try_filter_total [of "hm_entries ks' m" "\<lambda>(_, s). p s"] entries [OF tr(2)] total by auto
  have "set cs' = set cs" using try_filter_Ok [OF cs'] entries [OF tr(2)] set by auto
  moreover have "inj_on fst (set cs')" unfolding \<open>set cs' = set cs\<close> set by (auto simp: inj_on_def)
  ultimately show "\<exists>cs'. try_filter (\<lambda>(_, s). p s) (hm_entries ks' m) = Ok cs' \<and> max_by_key fst cs' = max_by_key fst cs"
    using cs' max_by_key_set by blast
qed

text \<open>The three ways the choice can end.\<close>

lemma historical_cases:
  assumes spec: "tm_partition_specs tm spec_id = Some spec"
    and r: "historical_entry_schema ks tm spec_id snapshot_id = Ok (s, fits)"
  obtains (own) "s \<in> ran (tm_schemas tm)" "fits" "schema_has_types spec s = Ok True"
      "\<And>ks'. historical_entry_schema ks' tm spec_id snapshot_id = Ok (s, fits)"
    | (search) cs current where "current \<in> ran (tm_schemas tm)" "schema_has_types spec current = Ok False"
      "try_filter (\<lambda>(_, schema). schema_has_types spec schema) (hm_entries ks (tm_schemas tm)) = Ok cs"
      "(s, fits) = (case max_by_key fst cs of None \<Rightarrow> (current, False) | Some (_, schema) \<Rightarrow> (schema, True))"
      "\<And>ks' cs'. try_filter (\<lambda>(_, schema). schema_has_types spec schema) (hm_entries ks' (tm_schemas tm)) = Ok cs'
         \<Longrightarrow> max_by_key fst cs' = max_by_key fst cs
         \<Longrightarrow> historical_entry_schema ks' tm spec_id snapshot_id = Ok (s, fits)"
proof -
  define own where "own = (case Option.bind (Option.bind (tm_snapshots tm snapshot_id) sn_schema_id) (tm_schemas tm) of
              None \<Rightarrow> Ok None
            | Some schema \<Rightarrow> rbind (schema_has_types spec schema) (\<lambda>b. Ok (if b then Some schema else None)))"
  define search where "search l current =
     rbind (try_filter (\<lambda>(_, schema). schema_has_types spec schema) (hm_entries l (tm_schemas tm)))
       (\<lambda>cs. case max_by_key fst cs of None \<Rightarrow> Ok (current, False) | Some (_, schema) \<Rightarrow> Ok (schema, True))"
    for l current
  have h: "historical_entry_schema l tm spec_id snapshot_id = rbind own (\<lambda>o'. case o' of
      Some schema \<Rightarrow> Ok (schema, True)
    | None \<Rightarrow> rbind (current_schema tm) (\<lambda>current. rbind (schema_has_types spec current) (\<lambda>b.
        if b then Ok (current, True) else search l current)))" for l
    unfolding historical_entry_schema_def own_def search_def by (simp add: spec)
  have own_ran: "x \<in> ran (tm_schemas tm) \<and> schema_has_types spec x = Ok True" if "own = Ok (Some x)" for x
    using that unfolding own_def
    by (auto simp: bind_eq_Some_conv ran_def split: option.splits if_splits)
  from r [unfolded h] obtain o' where o': "own = Ok o'" by auto
  show thesis
  proof (cases o')
    case (Some x)
    then have "s = x" "fits" using r o' unfolding h by auto
    with own_ran [of x] Some o' show thesis by (intro that(1)) (auto simp: h)
  next
    case None
    then obtain current b where c: "current_schema tm = Ok current" "schema_has_types spec current = Ok b"
      "(if b then Ok (current, True) else search ks current) = Ok (s, fits)"
      using r o' unfolding h by auto
    then have ran: "current \<in> ran (tm_schemas tm)" by (auto simp: current_schema_def ran_def)
    show thesis
    proof (cases b)
      case True
      with c ran None o' show thesis by (intro that(1)) (auto simp: h)
    next
      case False
      with c obtain cs where cs:
        "try_filter (\<lambda>(_, schema). schema_has_types spec schema) (hm_entries ks (tm_schemas tm)) = Ok cs"
        by (auto simp: search_def)
      show thesis
        by (rule that(2) [OF ran _ cs])
          (use c False cs None o' in \<open>auto simp: h search_def split: option.splits\<close>)
    qed
  qed
qed

text \<open>
  The schema chosen for a manifest list entry is one of the table; the flag is true
  exactly when some schema of the table can type the partition spec, and then the chosen one
  can. The choice does not depend on the order in which the schemas are traversed.
\<close>

theorem historical_schema_types_the_spec:
  assumes tr: "traversal ks (tm_schemas tm)" and spec: "tm_partition_specs tm spec_id = Some spec"
    and r: "historical_entry_schema ks tm spec_id snapshot_id = Ok (s, fits)"
  shows "s \<in> ran (tm_schemas tm)
    \<and> (fits \<longrightarrow> (\<exists>ts. data_types spec (sch_fields s) = Ok ts))
    \<and> (fits \<longleftrightarrow> (\<exists>s'\<in>ran (tm_schemas tm). \<exists>ts. data_types spec (sch_fields s') = Ok ts))
    \<and> (traversal ks' (tm_schemas tm) \<longrightarrow>
         historical_entry_schema ks' tm spec_id snapshot_id = Ok (s, fits))"
  using spec r
proof (cases rule: historical_cases)
  case own
  then show ?thesis using schema_has_types_iff [OF own(3)] by blast
next
  case (search cs current)
  have fits: "set cs = {(i, s). tm_schemas tm i = Some s \<and> schema_has_types spec s = Ok True}"
    "\<And>i s. tm_schemas tm i = Some s \<Longrightarrow> \<exists>b. schema_has_types spec s = Ok b"
    using filter_schemas [OF tr tr search(3)] by auto
  have typed: "schema_has_types spec s' = Ok True \<longleftrightarrow> (\<exists>ts. data_types spec (sch_fields s') = Ok ts)"
    if "s' \<in> ran (tm_schemas tm)" for s'
    using that fits(2) schema_has_types_iff by (fastforce simp: ran_def)
  have order: "historical_entry_schema ks' tm spec_id snapshot_id = Ok (s, fits)"
    if "traversal ks' (tm_schemas tm)"
    using filter_schemas(3) [OF tr that search(3)] search(5) by blast
  show ?thesis
  proof (cases "max_by_key fst cs")
    case None
    have "cs = []" using None by (simp add: max_by_key_None)
    have "s = current" "\<not> fits" using search(4) None by simp_all
    have "\<not> (\<exists>ts. data_types spec (sch_fields s') = Ok ts)" if "s' \<in> ran (tm_schemas tm)" for s'
      using typed [OF that] fits(1) \<open>cs = []\<close> that by (auto simp: ran_def)
    then show ?thesis using search(1) order \<open>s = current\<close> \<open>\<not> fits\<close> by blast
  next
    case (Some x)
    then have "x \<in> set cs" "s = snd x" "fits"
      using search(4) max_by_key_Some [OF Some] by (auto split: prod.splits)
    then have "s \<in> ran (tm_schemas tm)" "schema_has_types spec s = Ok True"
      using fits(1) by (auto simp: ran_def)
    with typed \<open>fits\<close> order show ?thesis by blast
  qed
qed

theorem historical_schema_types_the_spec_witness:
  "\<exists>s fits. historical_entry_schema [0] (sample_table V2) 0 5 = Ok (s, fits) \<and> s \<in> ran (tm_schemas (sample_table V2))"
proof -
  obtain s fits where r: "historical_entry_schema [0] (sample_table V2) 0 5 = Ok (s, fits)"
    by (simp add: historical_entry_schema_def sample_table_def current_schema_def schema_has_types_def
        is_ok_def data_types_def sample_snapshot_def)
  have "traversal [0] (tm_schemas (sample_table V2))"
    by (simp add: traversal_def sample_table_def)
  moreover obtain spec where "tm_partition_specs (sample_table V2) 0 = Some spec"
    by (simp add: sample_table_def)
  ultimately show ?thesis
    using historical_schema_types_the_spec [OF _ _ r] r by blast
qed

section \<open>Round trip\<close>

text \<open>Bounds of summaries that have the types of the partition fields.\<close>

definition typed_summary :: "field_summary \<Rightarrow> ice_type option \<Rightarrow> bool" where
  "typed_summary fs t \<longleftrightarrow>
     (\<forall>v. fs_lower_bound fs = Some v \<or> fs_upper_bound fs = Some v \<longrightarrow>
        wf_value v \<and> (\<exists>t'. t = Some t' \<and> has_type v t'))"

definition typed_summaries :: "field_summary list option \<Rightarrow> ice_type option list \<Rightarrow> bool" where
  "typed_summaries ps types \<longleftrightarrow> (\<forall>fs. ps = Some fs \<longrightarrow> list_all2 typed_summary fs types)"

lemma decode_bound_for_copy_has_type:
  assumes lib: "radix_spec (vl_to_radix_be lib)" and v: "wf_value v" "has_type v t"
  shows "\<exists>bs. value_to_bytes lib v = Ok bs \<and> decode_bound lib bs t = Ok v
    \<and> decode_bound_for_copy lib bs t = Ok v"
proof -
  obtain bs where b: "value_to_bytes lib v = Ok bs" "decode_bound lib bs t = Ok v"
    using decode_bound_has_type [OF assms] by auto
  have "decode_bound_for_copy lib bs t = decode_bound lib bs t"
    using v b(1) by (cases v) (auto simp: has_type_def decimal_unchanged_def value_datatype_def
        value_to_bytes_def decode_bound_def decode_bound_for_copy_def
        split: ice_type.splits primitive_type.splits)
  with b show ?thesis by auto
qed

lemma summary_bound_roundtrip:
  assumes lib: "radix_spec (vl_to_radix_be lib)"
    and v: "\<And>v. o' = Some v \<Longrightarrow> wf_value v \<and> (\<exists>t'. t = Some t' \<and> has_type v t')"
  shows "\<exists>b. opt_try_map (value_to_bytes lib) o' = Ok b \<and> decode_summary_bound lib b t promote = Ok o'"
proof (cases o')
  case (Some x)
  then obtain t' where "wf_value x" "t = Some t'" "has_type x t'" using v by auto
  then show ?thesis
    using decode_bound_for_copy_has_type [OF lib, of x t'] Some
    by (auto simp: decode_summary_bound_def)
qed (simp add: decode_summary_bound_def split: option.split)

lemma summary_roundtrip:
  assumes lib: "radix_spec (vl_to_radix_be lib)" and ty: "typed_summary fs t"
  shows "\<exists>s. FieldSummarySerde_from lib fs = Ok s \<and> from_serde_with_mode lib s t promote = Ok fs"
proof -
  obtain lo where lo: "opt_try_map (value_to_bytes lib) (fs_lower_bound fs) = Ok lo"
    "decode_summary_bound lib lo t promote = Ok (fs_lower_bound fs)"
    using summary_bound_roundtrip [OF lib, of "fs_lower_bound fs" t promote] ty
    by (auto simp: typed_summary_def)
  obtain up where up: "opt_try_map (value_to_bytes lib) (fs_upper_bound fs) = Ok up"
    "decode_summary_bound lib up t promote = Ok (fs_upper_bound fs)"
    using summary_bound_roundtrip [OF lib, of "fs_upper_bound fs" t promote] ty
    by (auto simp: typed_summary_def)
  show ?thesis
    using lo up by (simp add: FieldSummarySerde_from_def from_serde_with_mode_def)
qed

lemma summaries_roundtrip:
  assumes lib: "radix_spec (vl_to_radix_be lib)" and ty: "typed_summaries ps types"
  shows "\<exists>b. opt_try_map (try_map (FieldSummarySerde_from lib)) ps = Ok b
    \<and> decode_partition_summaries lib b types promote = Ok ps"
proof (cases ps)
  case (Some fs)
  have "list_all2 typed_summary fs types" using ty Some by (simp add: typed_summaries_def)
  then have "\<exists>b. try_map (FieldSummarySerde_from lib) fs = Ok b \<and> length b = length types
    \<and> try_map (\<lambda>(summary, data_type). from_serde_with_mode lib summary data_type promote) (zip b types) = Ok fs"
  proof (induction rule: list_all2_induct)
    case (Cons x xs y ys)
    then obtain b where "try_map (FieldSummarySerde_from lib) xs = Ok b" "length b = length ys"
      "try_map (\<lambda>(summary, data_type). from_serde_with_mode lib summary data_type promote) (zip b ys) = Ok xs"
      by auto
    moreover obtain s where "FieldSummarySerde_from lib x = Ok s" "from_serde_with_mode lib s y promote = Ok x"
      using summary_roundtrip [OF lib Cons(1)] by auto
    ultimately show ?case by auto
  qed simp
  with Some show ?thesis by (auto simp: decode_partition_summaries_def)
qed (simp add: decode_partition_summaries_def)

text \<open>What the form of its format version keeps of an entry.\<close>

definition list_entry_read_back :: "manifest_list_entry \<Rightarrow> manifest_list_entry" where
  "list_entry_read_back e =
     (case ml_format_version e of
        V3 \<Rightarrow> e
      | V2 \<Rightarrow> e\<lparr>ml_first_row_id := None\<rparr>
      | V1 \<Rightarrow> e\<lparr>ml_content := ContentData, ml_sequence_number := 0, ml_min_sequence_number := 0,
               ml_first_row_id := None\<rparr>)"

definition counts_present :: "manifest_list_entry \<Rightarrow> bool" where
  "counts_present e \<longleftrightarrow>
     ml_added_files_count e \<noteq> None \<and> ml_existing_files_count e \<noteq> None \<and> ml_deleted_files_count e \<noteq> None
     \<and> ml_added_rows_count e \<noteq> None \<and> ml_existing_rows_count e \<noteq> None \<and> ml_deleted_rows_count e \<noteq> None"

definition try_from_enum_with_types ::
  "value_lib \<Rightarrow> manifest_list_entry_enum \<Rightarrow> ice_type option list \<Rightarrow> bool \<Rightarrow> (manifest_list_entry, spec_error) outcome" where
  "try_from_enum_with_types lib v types promote =
     (case v of
        LE_V3 e \<Rightarrow> try_from_v3_with_types lib e types promote
      | LE_V2 e \<Rightarrow> try_from_v2_with_types lib e types promote
      | LE_V1 e \<Rightarrow> try_from_v1_with_types lib e types promote)"

text \<open>
  A manifest list entry is written in the form of its format version and read back, for a
  scan or for a copy, up to the fields the version does not have. A V2 or V3 entry needs all
  six counts: without one of them the writer panics.
\<close>

theorem manifest_list_entry_roundtrip:
  assumes lib: "radix_spec (vl_to_radix_be lib)" and ty: "typed_summaries (ml_partitions e) types"
  shows "(if ml_format_version e = V1 \<or> counts_present e
     then rbind (ManifestListEntryEnum_from lib e) (\<lambda>v. try_from_enum_with_types lib v types promote)
            = Ok (list_entry_read_back e)
     else \<exists>m. ManifestListEntryEnum_from lib e = Panic m)"
proof -
  obtain ps where ps: "opt_try_map (try_map (FieldSummarySerde_from lib)) (ml_partitions e) = Ok ps"
    "decode_partition_summaries lib ps types promote = Ok (ml_partitions e)"
    using summaries_roundtrip [OF assms, of promote] by auto
  note defs = ManifestListEntryEnum_from_def ManifestListEntryV3_from_def ManifestListEntryV2_from_def
    ManifestListEntryV1_from_def try_from_enum_with_types_def try_from_v3_with_types_def
    try_from_v2_with_types_def try_from_v1_with_types_def list_entry_read_back_def counts_present_def
  show ?thesis
  proof (cases "ml_format_version e")
    case V1
    with ps show ?thesis by (simp add: defs)
  next
    case V2
    with ps show ?thesis
      by (cases "ml_added_files_count e"; cases "ml_existing_files_count e"; cases "ml_deleted_files_count e";
          cases "ml_added_rows_count e"; cases "ml_existing_rows_count e"; cases "ml_deleted_rows_count e";
          simp add: defs unwrap_def)
  next
    case V3
    with ps show ?thesis
      by (cases "ml_added_files_count e"; cases "ml_existing_files_count e"; cases "ml_deleted_files_count e";
          cases "ml_added_rows_count e"; cases "ml_existing_rows_count e"; cases "ml_deleted_rows_count e";
          simp add: defs unwrap_def)
  qed
qed

definition sample_list_entry :: "format_version \<Rightarrow> manifest_list_entry" where
  "sample_list_entry v =
     \<lparr>ml_format_version = v, ml_manifest_path = ''m'', ml_manifest_length = 10, ml_partition_spec_id = 0,
      ml_content = ContentData, ml_sequence_number = 3, ml_min_sequence_number = 2,
      ml_added_snapshot_id = 7, ml_added_files_count = Some 1, ml_existing_files_count = Some 0,
      ml_deleted_files_count = Some 0, ml_added_rows_count = Some 5, ml_existing_rows_count = Some 0,
      ml_deleted_rows_count = Some 0,
      ml_partitions = Some [\<lparr>fs_contains_null = False, fs_contains_nan = None,
        fs_lower_bound = Some (VString ''eu''), fs_upper_bound = Some (VString ''us'')\<rparr>],
      ml_key_metadata = None, ml_first_row_id = Some 100\<rparr>"

theorem manifest_list_entry_roundtrip_witness:
  "rbind (ManifestListEntryEnum_from sample_lib (sample_list_entry V3))
     (\<lambda>v. try_from_enum_with_types sample_lib v [Some (Primitive PString)] True) = Ok (sample_list_entry V3)
   \<and> (\<exists>m. ManifestListEntryEnum_from sample_lib ((sample_list_entry V2)\<lparr>ml_added_rows_count := None\<rparr>) = Panic m)"
proof -
  have ty: "typed_summaries (ml_partitions (sample_list_entry V3)) [Some (Primitive PString)]"
    "typed_summaries (ml_partitions ((sample_list_entry V2)\<lparr>ml_added_rows_count := None\<rparr>)) [Some (Primitive PString)]"
    by (auto simp: typed_summaries_def sample_list_entry_def typed_summary_def has_type_def
        value_datatype_def)
  from manifest_list_entry_roundtrip [OF sample_radix ty(1), of True]
    manifest_list_entry_roundtrip [OF sample_radix ty(2), of True]
  show ?thesis
    by (simp add: sample_list_entry_def list_entry_read_back_def counts_present_def)
qed

end
