(* ===== verification/Rectangle.thy ===== *)
theory Rectangle
  imports Manifest_List
begin

text \<open>
  Bounding boxes of partition values (\<open>iceberg-rust/src/util/mod.rs\<close>): corner vectors of
  values, expansion, and the comparison that weighs earlier columns more. An empty corner
  stands for an unbounded box.
\<close>

section \<open>The order of values as a type class\<close>

text \<open>
  Values are preordered: equal floating-point numbers can have different bits (0 and -0), so
  the order is not antisymmetric.
\<close>

instantiation ice_value :: preorder
begin

definition less_eq_ice_value :: "ice_value \<Rightarrow> ice_value \<Rightarrow> bool" where
  "less_eq_ice_value a b = value_le a b"

definition less_ice_value :: "ice_value \<Rightarrow> ice_value \<Rightarrow> bool" where
  "less_ice_value a b = value_less a b"

instance
proof
  fix x y z :: ice_value
  show "x < y \<longleftrightarrow> x \<le> y \<and> \<not> y \<le> x"
    unfolding less_eq_ice_value_def less_ice_value_def
    using not_value_less value_less_imp_le by blast
  show "x \<le> x" by (simp add: less_eq_ice_value_def value_le_refl)
  show "x \<le> y \<Longrightarrow> y \<le> z \<Longrightarrow> x \<le> z"
    unfolding less_eq_ice_value_def by (rule value_le_trans)
qed

end

lemma value_total: "(x :: ice_value) \<le> y \<or> y \<le> x"
  unfolding less_eq_ice_value_def by (rule value_le_total)

lemma value_not_less: "\<not> x < y \<longleftrightarrow> y \<le> (x :: ice_value)"
  using value_total [of x y] by (auto simp: less_le_not_le)

datatype ordering = Less | Equal | Greater

definition value_cmp :: "ice_value \<Rightarrow> ice_value \<Rightarrow> ordering" where
  "value_cmp a b = (if a < b then Less else if b < a then Greater else Equal)"

section \<open>Rectangles\<close>

record rectangle =
  r_min :: "ice_value list"
  r_max :: "ice_value list"

definition Rectangle_new :: "ice_value list \<Rightarrow> ice_value list \<Rightarrow> rectangle" where
  "Rectangle_new mn mx = \<lparr>r_min = mn, r_max = mx\<rparr>"

definition Rectangle_unbounded :: rectangle where
  "Rectangle_unbounded = Rectangle_new [] []"

text \<open>\<open>v[i]\<close> panics out of range.\<close>

definition index :: "'a list \<Rightarrow> nat \<Rightarrow> ('a, 'e) outcome" where
  "index xs i = (if i < length xs then Ok (xs ! i) else Panic ''index out of bounds'')"

text \<open>The body of the loop of \<open>expand\<close>, at one coordinate.\<close>

definition expand_at :: "rectangle \<Rightarrow> rectangle \<Rightarrow> nat \<Rightarrow> (rectangle, error) outcome" where
  "expand_at rect s i =
     rbind (index (r_min rect) i) (\<lambda>mn.
     rbind (index (r_min s) i) (\<lambda>smn.
     let s = (if mn < smn then s\<lparr>r_min := (r_min s)[i := mn]\<rparr> else s)
     in rbind (index (r_max rect) i) (\<lambda>mx.
        rbind (index (r_max s) i) (\<lambda>smx.
        Ok (if smx < mx then s\<lparr>r_max := (r_max s)[i := mx]\<rparr> else s)))))"

definition expand :: "rectangle \<Rightarrow> rectangle \<Rightarrow> (rectangle, error) outcome" where
  "expand s rect =
     (if r_min s = [] \<or> r_min rect = [] then Ok (s\<lparr>r_min := [], r_max := []\<rparr>)
      else try_fold (expand_at rect) s [0..<length (r_min s)])"

definition expand_with_node :: "rectangle \<Rightarrow> ice_value list \<Rightarrow> (rectangle, error) outcome" where
  "expand_with_node s node =
     try_fold (expand_at \<lparr>r_min = node, r_max = node\<rparr>) s [0..<length (r_min s)]"

text \<open>
  Two zipped iterators of fallible results: both are computed (a panic of the first one comes
  first), then the errors are looked at in order.
\<close>

definition both :: "('a, 'e) outcome \<Rightarrow> ('b, 'e) outcome \<Rightarrow> ('a \<times> 'b, 'e) outcome" where
  "both x y =
     (case x of
        Panic s \<Rightarrow> Panic s
      | Ok a \<Rightarrow> rbind y (\<lambda>b. Ok (a, b))
      | Err e \<Rightarrow> (case y of Panic s \<Rightarrow> Panic s | _ \<Rightarrow> Err e))"

fun cmp_distances ::
  "value_lib \<Rightarrow> ((ice_value \<times> ice_value) \<times> (ice_value \<times> ice_value)) list \<Rightarrow> (ordering, error) outcome" where
  "cmp_distances lib [] = Ok Equal"
| "cmp_distances lib (((mx, mn), (mx', mn')) # rest) =
     rbind (both (map_err Iceberg (try_sub lib mx mn)) (map_err Iceberg (try_sub lib mx' mn'))) (\<lambda>(own, other).
     if value_cmp own other = Equal then cmp_distances lib rest else Ok (value_cmp own other))"

definition Rectangle_cmp_with_priority ::
  "value_lib \<Rightarrow> rectangle \<Rightarrow> rectangle \<Rightarrow> (ordering, error) outcome" where
  "Rectangle_cmp_with_priority lib s other =
     (if r_min s = [] \<and> r_min other \<noteq> [] then Ok Greater
      else if r_min s \<noteq> [] \<and> r_min other = [] then Ok Less
      else cmp_distances lib (zip (zip (r_max s) (r_min s)) (zip (r_max other) (r_min other))))"

definition partition_struct_to_vec ::
  "struct_value \<Rightarrow> string list \<Rightarrow> (ice_value list option, error) outcome" where
  "partition_struct_to_vec s names =
     rbind (try_map (\<lambda>x. ok_or (InvalidFormat ''Partition struct'') (Struct_get s x)) names) (\<lambda>fs.
     Ok (those fs))"

definition summary_to_rectangle :: "field_summary list \<Rightarrow> rectangle" where
  "summary_to_rectangle summaries =
     (case those (map (\<lambda>s. case (fs_lower_bound s, fs_upper_bound s) of
                            (Some lower, Some upper) \<Rightarrow> Some (lower, upper) | _ \<Rightarrow> None) summaries) of
        None \<Rightarrow> Rectangle_unbounded
      | Some bs \<Rightarrow> Rectangle_new (map fst bs) (map snd bs))"

fun cmp_with_priority :: "ice_value list \<Rightarrow> ice_value list \<Rightarrow> ordering" where
  "cmp_with_priority (x # xs) (y # ys) =
     (if value_cmp x y = Equal then cmp_with_priority xs ys else value_cmp x y)"
| "cmp_with_priority _ _ = Equal"

definition try_sub_vec ::
  "value_lib \<Rightarrow> ice_value list \<Rightarrow> ice_value list \<Rightarrow> (ice_value list, error) outcome" where
  "try_sub_vec lib left right =
     try_map (\<lambda>i. rbind (index left i) (\<lambda>l. rbind (index right i) (\<lambda>r. map_err Iceberg (try_sub lib l r))))
       [0..<length left]"

section \<open>Lemmas on expansion\<close>

text \<open>What one coordinate becomes.\<close>

definition vmin :: "ice_value \<Rightarrow> ice_value \<Rightarrow> ice_value" where
  "vmin s x = (if x < s then x else s)"

definition vmax :: "ice_value \<Rightarrow> ice_value \<Rightarrow> ice_value" where
  "vmax s x = (if s < x then x else s)"

lemma vmin_le: "vmin s x \<le> s" "vmin s x \<le> x"
  by (auto simp: vmin_def value_not_less less_imp_le)

lemma vmax_ge: "s \<le> vmax s x" "x \<le> vmax s x"
  by (auto simp: vmax_def value_not_less less_imp_le)

text \<open>A box with as many lower as upper corners.\<close>

definition box :: "nat \<Rightarrow> rectangle \<Rightarrow> bool" where
  "box n r \<longleftrightarrow> length (r_min r) = n \<and> length (r_max r) = n"

lemma expand_at_box:
  assumes "box n s" "box n rect" "i < n"
  shows "expand_at rect s i = Ok (s\<lparr>r_min := (r_min s)[i := vmin (r_min s ! i) (r_min rect ! i)],
    r_max := (r_max s)[i := vmax (r_max s ! i) (r_max rect ! i)]\<rparr>)"
  using assms by (simp add: expand_at_def index_def box_def vmin_def vmax_def Let_def)

lemma map_upd_step:
  "k < n \<Longrightarrow> (map (\<lambda>i. if i < k then f i else g i) [0..<n])[k := f k]
     = map (\<lambda>i. if i < Suc k then f i else g i) [0..<n]"
  by (rule nth_equalityI) (auto simp: nth_list_update less_Suc_eq)

lemma expand_loop:
  assumes "box n s" "box n rect" "k \<le> n"
  shows "try_fold (expand_at rect) s [0..<k] = Ok (s\<lparr>
      r_min := map (\<lambda>i. if i < k then vmin (r_min s ! i) (r_min rect ! i) else r_min s ! i) [0..<n],
      r_max := map (\<lambda>i. if i < k then vmax (r_max s ! i) (r_max rect ! i) else r_max s ! i) [0..<n]\<rparr>)"
  using assms(3)
proof (induction k)
  case 0
  have "map (\<lambda>i. r_min s ! i) [0..<n] = r_min s" "map (\<lambda>i. r_max s ! i) [0..<n] = r_max s"
    using assms(1) by (auto simp: box_def intro: nth_equalityI)
  then show ?case by simp
next
  case (Suc k)
  let ?s = "s\<lparr>
      r_min := map (\<lambda>i. if i < k then vmin (r_min s ! i) (r_min rect ! i) else r_min s ! i) [0..<n],
      r_max := map (\<lambda>i. if i < k then vmax (r_max s ! i) (r_max rect ! i) else r_max s ! i) [0..<n]\<rparr>"
  have "box n ?s" by (simp add: box_def)
  from expand_at_box [OF this assms(2), of k] Suc
  have "expand_at rect ?s k = Ok (?s\<lparr>
      r_min := (map (\<lambda>i. if i < k then vmin (r_min s ! i) (r_min rect ! i) else r_min s ! i) [0..<n])
        [k := vmin (r_min s ! k) (r_min rect ! k)],
      r_max := (map (\<lambda>i. if i < k then vmax (r_max s ! i) (r_max rect ! i) else r_max s ! i) [0..<n])
        [k := vmax (r_max s ! k) (r_max rect ! k)]\<rparr>)"
    by simp
  then have "expand_at rect ?s k = Ok (s\<lparr>
      r_min := map (\<lambda>i. if i < Suc k then vmin (r_min s ! i) (r_min rect ! i) else r_min s ! i) [0..<n],
      r_max := map (\<lambda>i. if i < Suc k then vmax (r_max s ! i) (r_max rect ! i) else r_max s ! i) [0..<n]\<rparr>)"
    using Suc.prems
      map_upd_step [of k n "\<lambda>i. vmin (r_min s ! i) (r_min rect ! i)" "\<lambda>i. r_min s ! i"]
      map_upd_step [of k n "\<lambda>i. vmax (r_max s ! i) (r_max rect ! i)" "\<lambda>i. r_max s ! i"]
    by simp
  with Suc show ?case by (simp add: try_fold_append)
qed

lemma expand_boxes:
  assumes "box n s" "box n rect" "0 < n"
  shows "expand s rect = Ok (s\<lparr>r_min := map2 vmin (r_min s) (r_min rect), r_max := map2 vmax (r_max s) (r_max rect)\<rparr>)"
proof -
  have "map (\<lambda>i. if i < n then vmin (r_min s ! i) (r_min rect ! i) else r_min s ! i) [0..<n]
      = map2 vmin (r_min s) (r_min rect)"
    "map (\<lambda>i. if i < n then vmax (r_max s ! i) (r_max rect ! i) else r_max s ! i) [0..<n]
      = map2 vmax (r_max s) (r_max rect)"
    using assms(1,2) by (auto simp: box_def intro: nth_equalityI)
  with expand_loop [OF assms(1,2), of n] assms show ?thesis
    by (auto simp: expand_def box_def)
qed

text \<open>A point lies in a box; the unbounded box contains every point.\<close>

definition in_rectangle :: "ice_value list \<Rightarrow> rectangle \<Rightarrow> bool" where
  "in_rectangle p r \<longleftrightarrow>
     r_min r = [] \<or> (list_all2 (\<le>) (r_min r) p \<and> list_all2 (\<le>) p (r_max r))"

lemma in_expanded:
  assumes "box n s" "box n rect" "0 < n" "expand s rect = Ok r" "in_rectangle p s \<or> in_rectangle p rect"
  shows "in_rectangle p r"
proof -
  have r: "r_min r = map2 vmin (r_min s) (r_min rect)" "r_max r = map2 vmax (r_max s) (r_max rect)"
    using expand_boxes [OF assms(1-3)] assms(4) by auto
  have ne: "r_min s \<noteq> []" "r_min rect \<noteq> []" using assms(1-3) by (auto simp: box_def)
  have len: "length (r_min s) = n" "length (r_max s) = n" "length (r_min rect) = n" "length (r_max rect) = n"
    using assms(1,2) by (simp_all add: box_def)
  have p: "length p = n \<and> (\<forall>i<n. r_min s ! i \<le> p ! i \<and> p ! i \<le> r_max s ! i)
      \<or> length p = n \<and> (\<forall>i<n. r_min rect ! i \<le> p ! i \<and> p ! i \<le> r_max rect ! i)"
    using assms(5) ne by (simp add: in_rectangle_def list_all2_conv_all_nth len) blast
  then have "length p = n" by blast
  moreover have "vmin (r_min s ! i) (r_min rect ! i) \<le> p ! i \<and> p ! i \<le> vmax (r_max s ! i) (r_max rect ! i)"
    if "i < n" for i
    using p that vmin_le [where s = "r_min s ! i" and x = "r_min rect ! i"] vmax_ge [where s = "r_max s ! i" and x = "r_max rect ! i"]
    by (meson order_trans)
  ultimately show ?thesis
    by (simp add: in_rectangle_def r list_all2_conv_all_nth len)
qed

text \<open>
  Expanding a box by another box of the same dimension gives the smallest box that
  contains both: it contains every point of either, its corners are corners of one of them,
  and nothing panics. An unbounded side makes the result unbounded.
\<close>

theorem expand_is_the_bounding_box:
  assumes "box n s" "box n rect"
  shows "\<exists>r. expand s rect = Ok r \<and> box n r
     \<and> (\<forall>p. in_rectangle p s \<or> in_rectangle p rect \<longrightarrow> in_rectangle p r)
     \<and> (\<forall>i<n. r_min r ! i \<in> {r_min s ! i, r_min rect ! i} \<and> r_max r ! i \<in> {r_max s ! i, r_max rect ! i})
     \<and> expand s Rectangle_unbounded = Ok (s\<lparr>r_min := [], r_max := []\<rparr>)"
proof (cases "n = 0")
  case True
  with assms show ?thesis
    by (auto simp: expand_def box_def in_rectangle_def Rectangle_unbounded_def Rectangle_new_def)
next
  case False
  then obtain r where r: "expand s rect = Ok r"
    "r_min r = map2 vmin (r_min s) (r_min rect)" "r_max r = map2 vmax (r_max s) (r_max rect)"
    using expand_boxes [OF assms]
    by (intro that [of "s\<lparr>r_min := map2 vmin (r_min s) (r_min rect), r_max := map2 vmax (r_max s) (r_max rect)\<rparr>"]) simp_all
  have "expand s Rectangle_unbounded = Ok (s\<lparr>r_min := [], r_max := []\<rparr>)"
    by (simp add: expand_def Rectangle_unbounded_def Rectangle_new_def)
  moreover have "box n r" using r assms by (simp add: box_def)
  moreover have "\<forall>i<n. r_min r ! i \<in> {r_min s ! i, r_min rect ! i} \<and> r_max r ! i \<in> {r_max s ! i, r_max rect ! i}"
    using r assms by (simp add: box_def vmin_def vmax_def)
  ultimately show ?thesis
    using r(1) in_expanded [OF assms _ r(1)] False by blast
qed

theorem expand_is_the_bounding_box_witness:
  "\<exists>r. expand (Rectangle_new [VInt 2, VInt 0] [VInt 2, VInt 0]) (Rectangle_new [VInt 1, VInt 7] [VInt 3, VInt 9]) = Ok r
     \<and> in_rectangle [VInt 2, VInt 0] r"
proof -
  have b: "box 2 (Rectangle_new [VInt 2, VInt 0] [VInt 2, VInt 0])"
    "box 2 (Rectangle_new [VInt 1, VInt 7] [VInt 3, VInt 9])"
    by (simp_all add: box_def Rectangle_new_def)
  have "in_rectangle [VInt 2, VInt 0] (Rectangle_new [VInt 2, VInt 0] [VInt 2, VInt 0])"
    by (simp add: in_rectangle_def Rectangle_new_def less_eq_ice_value_def)
  with expand_is_the_bounding_box [OF b] show ?thesis by blast
qed

end
