(* ===== verification/Table_Io.thy ===== *)
theory Table_Io
  imports Commit Rectangle
begin

text \<open>
  What the table code needs from the outside: the object store, the Avro container format and
  the JSON texts in the metadata of a manifest. They are code of other packages and therefore
  fields of the record \<open>table_io\<close>: \<open>'v\<close> is the type of an Avro value, \<open>'b\<close> of the bytes of
  a file and \<open>'s\<close> of the object store. The theory also states the documented laws of these
  packages that some properties rely on, and gives an instance that satisfies them.
\<close>

section \<open>The parameters\<close>

text \<open>
  An Avro schema as far as the code looks at it: the names in the lookup table of a record,
  and its text.
\<close>

datatype avro_schema = AvroRecord "string list" string | AvroOther string

text \<open>
  An opened container file: its writer schema, its user metadata and its values; a value that
  cannot be read is the message of the error.
\<close>

record 'v avro_container =
  ac_schema :: avro_schema
  ac_user_metadata :: "string \<rightharpoonup> byte list"
  ac_values :: "('v, string) outcome list"

text \<open>A container file being written; user metadata and values are kept in their order.\<close>

record 'v avro_writer =
  aw_schema :: avro_schema
  aw_user_metadata :: "(string \<times> byte list) list"
  aw_values :: "'v list"

record ('v, 'b, 's) table_io =
  io_values :: value_lib
  io_strip_prefix :: "string \<Rightarrow> string"
  io_get :: "'s \<Rightarrow> string \<Rightarrow> ('b, error) outcome"
  io_put :: "'s \<Rightarrow> string \<Rightarrow> 'b \<Rightarrow> ('s, error) outcome"
  io_len :: "'b \<Rightarrow> nat"
  io_avro_read :: "'b \<Rightarrow> ('v avro_container, error) outcome"
  io_avro_write :: "'v avro_writer \<Rightarrow> ('b, error) outcome"
  io_parse_entry_schema :: "(string \<times> ice_type \<times> i32) list \<Rightarrow> format_version \<Rightarrow> (avro_schema, error) outcome"
  io_list_reader :: "'v avro_reader"
  io_list_value :: "avro_schema \<Rightarrow> manifest_list_entry_enum \<Rightarrow> ('v, error) outcome"
  io_entry_v1 :: "'v \<Rightarrow> (manifest_entry_v1, error) outcome"
  io_entry_v2 :: "'v \<Rightarrow> (manifest_entry_v2, error) outcome"
  io_entry_v3 :: "'v \<Rightarrow> (manifest_entry_v3, error) outcome"
  io_entry_value :: "avro_schema \<Rightarrow> manifest_entry_enum \<Rightarrow> ('v, error) outcome"
  io_schema_v1_json :: "schema_v1 \<Rightarrow> (byte list, error) outcome"
  io_schema_v2_json :: "schema_v2 \<Rightarrow> (byte list, error) outcome"
  io_fields_json :: "partition_field list \<Rightarrow> (byte list, error) outcome"
  io_i32_json :: "i32 \<Rightarrow> (byte list, error) outcome"
  io_parse_schema_v1 :: "byte list \<Rightarrow> (schema_v1, error) outcome"
  io_parse_schema_v2 :: "byte list \<Rightarrow> (schema_v2, error) outcome"
  io_parse_fields :: "byte list \<Rightarrow> (partition_field list, error) outcome"
  io_schema_order :: "i32 list"
  io_read_orders :: "'v \<Rightarrow> bound_orders"
  io_write_orders :: "data_file \<Rightarrow> bound_orders"

text \<open>
  \<open>io_schema_order\<close>, \<open>io_read_orders\<close> and \<open>io_write_orders\<close> are the orders in which the hash
  maps of schemas and of column bounds are traversed.
\<close>

definition AvroWriter_new :: "avro_schema \<Rightarrow> 'v avro_writer" where
  "AvroWriter_new schema = \<lparr>aw_schema = schema, aw_user_metadata = [], aw_values = []\<rparr>"

text \<open>Serialization of an entry into the form of its format version, and then into Avro.\<close>

definition append_list_entry ::
  "('v, 'b, 's) table_io \<Rightarrow> 'v avro_writer \<Rightarrow> manifest_list_entry \<Rightarrow> ('v avro_writer, error) outcome" where
  "append_list_entry io w e =
     rbind (map_err Iceberg (ManifestListEntryEnum_from (io_values io) e)) (\<lambda>en.
     rbind (io_list_value io (aw_schema w) en) (\<lambda>v.
     Ok (w\<lparr>aw_values := aw_values w @ [v]\<rparr>)))"

definition append_entry ::
  "('v, 'b, 's) table_io \<Rightarrow> 'v avro_writer \<Rightarrow> manifest_entry \<Rightarrow> ('v avro_writer, error) outcome" where
  "append_entry io w e =
     rbind (map_err Iceberg (ManifestEntryEnum_from (io_values io) (io_write_orders io (me_data_file e)) e)) (\<lambda>en.
     rbind (io_entry_value io (aw_schema w) en) (\<lambda>v.
     Ok (w\<lparr>aw_values := aw_values w @ [v]\<rparr>)))"

text \<open>\<open>object_store.get(&strip_prefix(path).into())\<close> and the same of \<open>put\<close>.\<close>

definition store_get :: "('v, 'b, 's) table_io \<Rightarrow> 's \<Rightarrow> string \<Rightarrow> ('b, error) outcome" where
  "store_get io st path = io_get io st (io_strip_prefix io path)"

definition store_put :: "('v, 'b, 's) table_io \<Rightarrow> 's \<Rightarrow> string \<Rightarrow> 'b \<Rightarrow> ('s, error) outcome" where
  "store_put io st path b = io_put io st (io_strip_prefix io path) b"

text \<open>\<open>String::from_utf8\<close> and \<open>str::parse::<i32>\<close>, with their errors.\<close>

definition string_from_utf8 :: "byte list \<Rightarrow> (string, error) outcome" where
  "string_from_utf8 bs =
     (if utf8_valid (map unat bs) then Ok (bytes_string bs) else Err (FromUTF8 ''utf8''))"

definition parse_i32 :: "string \<Rightarrow> (i32, error) outcome" where
  "parse_i32 s =
     (case parse_i64 s of
        Some x \<Rightarrow> if in_i32 x then Ok x else Err (ParseInt ''out of range'')
      | None \<Rightarrow> Err (ParseInt ''invalid''))"

section \<open>Avro schemas of the files\<close>

text \<open>
  The schemas of manifest lists: the lookup table of the record holds the names of its
  fields. V3 is V2 with one more field.
\<close>

definition manifest_list_fields_v1 :: "string list" where
  "manifest_list_fields_v1 =
     [''manifest_path'', ''manifest_length'', ''partition_spec_id'', ''added_snapshot_id'',
      ''added_files_count'', ''existing_files_count'', ''deleted_files_count'',
      ''added_rows_count'', ''existing_rows_count'', ''deleted_rows_count'', ''partitions'',
      ''key_metadata'']"

definition manifest_list_fields_v2 :: "string list" where
  "manifest_list_fields_v2 =
     [''manifest_path'', ''manifest_length'', ''partition_spec_id'', ''content'',
      ''sequence_number'', ''min_sequence_number'', ''added_snapshot_id'',
      ''added_files_count'', ''existing_files_count'', ''deleted_files_count'',
      ''added_rows_count'', ''existing_rows_count'', ''deleted_rows_count'', ''partitions'',
      ''key_metadata'']"

definition manifest_list_schema :: "format_version \<Rightarrow> avro_schema" where
  "manifest_list_schema v =
     (case v of
        V1 \<Rightarrow> AvroRecord manifest_list_fields_v1 ''manifest_file v1''
      | V2 \<Rightarrow> AvroRecord manifest_list_fields_v2 ''manifest_file v2''
      | V3 \<Rightarrow> AvroRecord (manifest_list_fields_v2 @ [''first_row_id'']) ''manifest_file v3'')"

text \<open>
  The fields of the partition struct of a manifest: names, Avro types and field ids. The text
  that the code assembles from them is parsed by the Avro library.
\<close>

definition avro_schema_datatype :: "ice_type \<Rightarrow> ice_type" where
  "avro_schema_datatype t =
     (case t of
        Primitive p \<Rightarrow>
          (case p of
             PDate \<Rightarrow> Primitive PInt
           | PTime \<Rightarrow> Primitive PLong
           | PTimestamp \<Rightarrow> Primitive PLong
           | PTimestamptz \<Rightarrow> Primitive PLong
           | PTimestampNs \<Rightarrow> Primitive PLong
           | PTimestamptzNs \<Rightarrow> Primitive PLong
           | _ \<Rightarrow> t)
      | _ \<Rightarrow> t)"

definition partition_value_schema ::
  "bound_partition_field list \<Rightarrow> ((string \<times> ice_type \<times> i32) list, spec_error) outcome" where
  "partition_value_schema spec =
     try_map (\<lambda>field.
       rbind (if bf_transform field = Void then Ok (bf_field_type field)
              else tranform (bf_field_type field) (bf_transform field)) (\<lambda>partition_type.
       Ok (bf_name field, avro_schema_datatype partition_type, bf_field_id field))) spec"

text \<open>\<open>ManifestEntry::schema(&partition_value_schema(&fields)?, &format_version)?\<close>.\<close>

definition entry_schema ::
  "('v, 'b, 's) table_io \<Rightarrow> bound_partition_field list \<Rightarrow> format_version \<Rightarrow> (avro_schema, error) outcome" where
  "entry_schema io fs v =
     rbind (map_err Iceberg (partition_value_schema fs)) (\<lambda>ps. io_parse_entry_schema io ps v)"

section \<open>Documented behaviour of the packages\<close>

text \<open>
  What is written is read back: a container file with its schema, metadata and values, an Avro
  value as the entry it was made from, and a JSON text as its value. A file of the object
  store is found under its path after \<open>put\<close>, and no other path changes.
\<close>

definition avro_laws :: "('v, 'b, 's) table_io \<Rightarrow> bool" where
  "avro_laws io \<longleftrightarrow>
     (\<forall>w b. io_avro_write io w = Ok b \<longrightarrow>
        io_avro_read io b = Ok \<lparr>ac_schema = aw_schema w, ac_user_metadata = map_of (aw_user_metadata w),
                                ac_values = map Ok (aw_values w)\<rparr>)
     \<and> (\<forall>s e v. io_list_value io s (LE_V3 e) = Ok v \<longrightarrow> ar_v3 (io_list_reader io) v = Ok e)
     \<and> (\<forall>s e v. io_list_value io s (LE_V2 e) = Ok v \<longrightarrow> ar_v2 (io_list_reader io) v = Ok e)
     \<and> (\<forall>s e v. io_list_value io s (LE_V1 e) = Ok v \<longrightarrow> ar_v1 (io_list_reader io) v = Ok e)
     \<and> (\<forall>s e v. io_entry_value io s (EE_V3 e) = Ok v \<longrightarrow> io_entry_v3 io v = Ok e)
     \<and> (\<forall>s e v. io_entry_value io s (EE_V2 e) = Ok v \<longrightarrow> io_entry_v2 io v = Ok e)
     \<and> (\<forall>s e v. io_entry_value io s (EE_V1 e) = Ok v \<longrightarrow> io_entry_v1 io v = Ok e)"

definition json_laws :: "('v, 'b, 's) table_io \<Rightarrow> bool" where
  "json_laws io \<longleftrightarrow>
     (\<forall>s t. io_schema_v1_json io s = Ok t \<longrightarrow> io_parse_schema_v1 io t = Ok s)
     \<and> (\<forall>s t. io_schema_v2_json io s = Ok t \<longrightarrow> io_parse_schema_v2 io t = Ok s)
     \<and> (\<forall>s t. io_fields_json io s = Ok t \<longrightarrow> io_parse_fields io t = Ok s)
     \<and> (\<forall>i t. io_i32_json io i = Ok t \<longrightarrow> t = string_bytes (show_int i))"

definition store_laws :: "('v, 'b, 's) table_io \<Rightarrow> bool" where
  "store_laws io \<longleftrightarrow>
     (\<forall>st st' p b. io_put io st p b = Ok st' \<longrightarrow>
        io_get io st' p = Ok b \<and> (\<forall>q. q \<noteq> p \<longrightarrow> io_get io st' q = io_get io st q))"

section \<open>An instance\<close>

text \<open>
  An instance that satisfies the laws, for the concrete inputs of the development: an Avro
  value is the entry it stands for, a file is the writer's state, the store is a map, and the
  JSON texts cover one schema and one partition spec.
\<close>

type_synonym sample_value = "manifest_list_entry_enum + manifest_entry_enum"

definition sample_list_reader :: "sample_value avro_reader" where
  "sample_list_reader =
     \<lparr>ar_v1 = (\<lambda>v. case v of Inl (LE_V1 e) \<Rightarrow> Ok e | _ \<Rightarrow> Err (SAvro ''v1'')),
      ar_v2 = (\<lambda>v. case v of Inl (LE_V2 e) \<Rightarrow> Ok e | _ \<Rightarrow> Err (SAvro ''v2'')),
      ar_v3 = (\<lambda>v. case v of Inl (LE_V3 e) \<Rightarrow> Ok e | _ \<Rightarrow> Err (SAvro ''v3''))\<rparr>"

definition sample_io :: "(sample_value, sample_value avro_writer, string \<rightharpoonup> sample_value avro_writer) table_io" where
  "sample_io =
     \<lparr>io_values = sample_lib,
      io_strip_prefix = (\<lambda>p. p),
      io_get = (\<lambda>st p. ok_or (ObjectStore p) (st p)),
      io_put = (\<lambda>st p b. Ok (st(p \<mapsto> b))),
      io_len = (\<lambda>b. length (aw_values b)),
      io_avro_read = (\<lambda>b. Ok \<lparr>ac_schema = aw_schema b, ac_user_metadata = map_of (aw_user_metadata b),
                               ac_values = map Ok (aw_values b)\<rparr>),
      io_avro_write = (\<lambda>w. Ok w),
      io_parse_entry_schema = (\<lambda>ps v. Ok (AvroRecord [''status'', ''snapshot_id'', ''data_file''] '''')),
      io_list_reader = sample_list_reader,
      io_list_value = (\<lambda>s e. Ok (Inl e)),
      io_entry_v1 = (\<lambda>v. case v of Inr (EE_V1 e) \<Rightarrow> Ok e | _ \<Rightarrow> Err (Avro ''v1'')),
      io_entry_v2 = (\<lambda>v. case v of Inr (EE_V2 e) \<Rightarrow> Ok e | _ \<Rightarrow> Err (Avro ''v2'')),
      io_entry_v3 = (\<lambda>v. case v of Inr (EE_V3 e) \<Rightarrow> Ok e | _ \<Rightarrow> Err (Avro ''v3'')),
      io_entry_value = (\<lambda>s e. Ok (Inr e)),
      io_schema_v1_json = (\<lambda>s. if s = SchemaV1_from sample_schema then Ok [1] else Err (JSONSerde ''schema'')),
      io_schema_v2_json = (\<lambda>s. if s = SchemaV2_from sample_schema then Ok [2] else Err (JSONSerde ''schema'')),
      io_fields_json = (\<lambda>fs. if fs = ps_fields sample_spec then Ok [3] else Err (JSONSerde ''fields'')),
      io_i32_json = (\<lambda>i. Ok (string_bytes (show_int i))),
      io_parse_schema_v1 = (\<lambda>_. Ok (SchemaV1_from sample_schema)),
      io_parse_schema_v2 = (\<lambda>_. Ok (SchemaV2_from sample_schema)),
      io_parse_fields = (\<lambda>_. Ok (ps_fields sample_spec)),
      io_schema_order = [0],
      io_read_orders = (\<lambda>_. \<lparr>bo_lower = [1], bo_upper = [1]\<rparr>),
      io_write_orders = (\<lambda>_. \<lparr>bo_lower = [1], bo_upper = [1]\<rparr>)\<rparr>"

lemma sample_io_laws: "avro_laws sample_io" "json_laws sample_io" "store_laws sample_io"
  by (auto simp: avro_laws_def json_laws_def store_laws_def sample_io_def sample_list_reader_def
      split: if_splits)

text \<open>The sample table, with a schema and a partition by region.\<close>

definition sample_part_table :: "format_version \<Rightarrow> table_metadata" where
  "sample_part_table v =
     (sample_table v)\<lparr>tm_schemas := [0 \<mapsto> sample_schema], tm_partition_specs := [0 \<mapsto> sample_spec]\<rparr>"

lemma sample_part_table_simps [simp]:
  "tm_format_version (sample_part_table v) = v"
  "current_schema (sample_part_table v) = Ok sample_schema"
  "default_partition_spec (sample_part_table v) = Ok sample_spec"
  "tm_partition_specs (sample_part_table v) = [0 \<mapsto> sample_spec]"
  "tm_schemas (sample_part_table v) = [0 \<mapsto> sample_schema]"
  "tm_default_spec_id (sample_part_table v) = 0"
  "tm_last_sequence_number (sample_part_table v) = 1"
  "tm_next_row_id (sample_part_table v) = 5"
  "tm_location (sample_part_table v) = ''s3://t''"
  by (simp_all add: sample_part_table_def sample_table_def current_schema_def default_partition_spec_def)

section \<open>Wrapping sums\<close>

lemma wrap32_add: "wrap32 (wrap32 a + b) = wrap32 (a + b)"
  by (simp add: wrap32_def algebra_simps mod_simps)

lemma wrap64_add: "wrap64 (wrap64 a + b) = wrap64 (a + b)"
  by (simp add: wrap64_def algebra_simps mod_simps)

end
