(* ===== verification/Manifest_Writer.thy ===== *)
theory Manifest_Writer
  imports Table_Io
begin

text \<open>
  Reading and writing of manifest files (\<open>iceberg-rust/src/table/manifest.rs\<close>): the reader
  with the metadata of its file, the writer with the manifest list entry it builds, the
  rewriting of an existing manifest with and without a filter, and the partition summaries.
\<close>

section \<open>The reader\<close>

type_synonym manifest_metadata = "schema \<times> partition_spec \<times> format_version"

record manifest_reader =
  mr_reader :: "(manifest_entry, error) outcome list"
  mr_metadata :: manifest_metadata

definition avro_value_to_manifest_entry ::
  "('v, 'b, 's) table_io \<Rightarrow> ('v, string) outcome \<times> manifest_metadata \<Rightarrow> (manifest_entry, error) outcome" where
  "avro_value_to_manifest_entry io value' =
     rbind (map_err Avro (fst value')) (\<lambda>entry.
     case snd value' of (schema, partition_spec, format_version) \<Rightarrow>
       (case format_version of
          V3 \<Rightarrow> rbind (io_entry_v3 io entry) (\<lambda>e.
               map_err Iceberg (ManifestEntry_try_from_v3 (io_values io) (io_read_orders io entry) e schema partition_spec))
        | V2 \<Rightarrow> rbind (io_entry_v2 io entry) (\<lambda>e.
               map_err Iceberg (ManifestEntry_try_from_v2 (io_values io) (io_read_orders io entry) e schema partition_spec))
        | V1 \<Rightarrow> rbind (io_entry_v1 io entry) (\<lambda>e.
               map_err Iceberg (ManifestEntry_try_from_v1 (io_values io) (io_read_orders io entry) e schema partition_spec))))"

definition metadata_format_version ::
  "(string \<rightharpoonup> byte list) \<Rightarrow> (format_version, error) outcome" where
  "metadata_format_version metadata =
     rbind (opt_try_map string_from_utf8 (metadata ''format-version'')) (\<lambda>s.
     let t = (case s of Some t \<Rightarrow> t | None \<Rightarrow> ''1'')
     in if t = ''1'' then Ok V1
        else if t = ''2'' then Ok V2
        else if t = ''3'' then Ok V3
        else Err (InvalidFormat ''format version''))"

definition metadata_schema ::
  "('v, 'b, 's) table_io \<Rightarrow> (string \<rightharpoonup> byte list) \<Rightarrow> format_version \<Rightarrow> (schema, error) outcome" where
  "metadata_schema io metadata format_version =
     rbind (ok_or (InvalidFormat ''manifest metadata'') (metadata ''schema'')) (\<lambda>bs.
     case format_version of
       V1 \<Rightarrow> rbind (io_parse_schema_v1 io bs) (\<lambda>s. map_err Iceberg (Schema_from_V1 s))
     | _ \<Rightarrow> rbind (io_parse_schema_v2 io bs) (\<lambda>s. map_err Iceberg (Schema_from_V2 s)))"

definition metadata_spec ::
  "('v, 'b, 's) table_io \<Rightarrow> (string \<rightharpoonup> byte list) \<Rightarrow> (partition_spec, error) outcome" where
  "metadata_spec io metadata =
     rbind (ok_or (InvalidFormat ''manifest metadata'') (metadata ''partition-spec'')) (\<lambda>bs.
     rbind (io_parse_fields io bs) (\<lambda>fs.
     rbind (opt_try_map string_from_utf8 (metadata ''partition-spec-id'')) (\<lambda>s.
     rbind (parse_i32 (case s of Some t \<Rightarrow> t | None \<Rightarrow> ''0'')) (\<lambda>spec_id.
     map_err Iceberg (PartitionSpecBuilder_build (Some spec_id) (Some fs))))))"

definition ManifestReader_new ::
  "('v, 'b, 's) table_io \<Rightarrow> 'b \<Rightarrow> (manifest_reader, error) outcome" where
  "ManifestReader_new io bytes =
     rbind (io_avro_read io bytes) (\<lambda>reader.
     rbind (metadata_format_version (ac_user_metadata reader)) (\<lambda>format_version.
     rbind (metadata_schema io (ac_user_metadata reader) format_version) (\<lambda>schema.
     rbind (metadata_spec io (ac_user_metadata reader)) (\<lambda>partition_spec.
     let metadata = (schema, partition_spec, format_version)
     in Ok \<lparr>mr_reader = map (\<lambda>v. avro_value_to_manifest_entry io (v, metadata)) (ac_values reader),
            mr_metadata = metadata\<rparr>))))"

section \<open>Partition summaries\<close>

text \<open>\<open>is_nan\<close> on the bits of a floating-point number.\<close>

definition is_nan_f32 :: "32 word \<Rightarrow> bool" where
  "is_nan_f32 x \<longleftrightarrow> uint x mod 2 ^ 31 > 2 ^ 31 - 2 ^ 23"

definition is_nan_f64 :: "64 word \<Rightarrow> bool" where
  "is_nan_f64 x \<longleftrightarrow> uint x mod 2 ^ 63 > 2 ^ 63 - 2 ^ 52"

definition value_is_nan :: "ice_value \<Rightarrow> bool" where
  "value_is_nan v = (case v of VFloat x \<Rightarrow> is_nan_f32 x | VDouble x \<Rightarrow> is_nan_f64 x | _ \<Rightarrow> False)"

text \<open>
  The arms of the two matches over the value and the current bound: they compare values of
  the same variant only. Of two fixed values only the bytes are compared and replaced.
\<close>

definition same_scalar :: "ice_value \<Rightarrow> ice_value \<Rightarrow> bool" where
  "same_scalar a b =
     (case (a, b) of
        (VBoolean _, VBoolean _) \<Rightarrow> True
      | (VInt _, VInt _) \<Rightarrow> True
      | (VLongInt _, VLongInt _) \<Rightarrow> True
      | (VFloat _, VFloat _) \<Rightarrow> True
      | (VDouble _, VDouble _) \<Rightarrow> True
      | (VDate _, VDate _) \<Rightarrow> True
      | (VTime _, VTime _) \<Rightarrow> True
      | (VTimestamp _, VTimestamp _) \<Rightarrow> True
      | (VTimestampTZ _, VTimestampTZ _) \<Rightarrow> True
      | (VTimestampNano _, VTimestampNano _) \<Rightarrow> True
      | (VTimestampTZNano _, VTimestampTZNano _) \<Rightarrow> True
      | (VString _, VString _) \<Rightarrow> True
      | (VUUID _, VUUID _) \<Rightarrow> True
      | (VBinary _, VBinary _) \<Rightarrow> True
      | (VDecimal _, VDecimal _) \<Rightarrow> True
      | _ \<Rightarrow> False)"

definition bound_less :: "ice_value \<Rightarrow> ice_value \<Rightarrow> bool" where
  "bound_less a b =
     (case (a, b) of
        (VFixed _ x, VFixed _ y) \<Rightarrow> VBinary x < VBinary y
      | _ \<Rightarrow> same_scalar a b \<and> a < b)"

definition replace_bound :: "ice_value \<Rightarrow> ice_value \<Rightarrow> ice_value" where
  "replace_bound current v =
     (case (current, v) of (VFixed n _, VFixed _ bs) \<Rightarrow> VFixed n bs | _ \<Rightarrow> v)"

definition update_lower :: "ice_value option \<Rightarrow> ice_value \<Rightarrow> ice_value option" where
  "update_lower bound v =
     (case bound of
        None \<Rightarrow> Some v
      | Some current \<Rightarrow> Some (if bound_less v current then replace_bound current v else current))"

definition update_upper :: "ice_value option \<Rightarrow> ice_value \<Rightarrow> ice_value option" where
  "update_upper bound v =
     (case bound of
        None \<Rightarrow> Some v
      | Some current \<Rightarrow> Some (if bound_less current v then replace_bound current v else current))"

text \<open>A floating-point column that has seen a number says that it has no NaN yet.\<close>

definition touch_nan :: "ice_value \<Rightarrow> bool option \<Rightarrow> bool option" where
  "touch_nan v n =
     (case v of
        VFloat _ \<Rightarrow> (case n of None \<Rightarrow> Some False | Some b \<Rightarrow> Some b)
      | VDouble _ \<Rightarrow> (case n of None \<Rightarrow> Some False | Some b \<Rightarrow> Some b)
      | _ \<Rightarrow> n)"

text \<open>The body of the loop of \<open>update_partitions\<close>.\<close>

definition update_summary :: "field_summary \<Rightarrow> ice_value option \<Rightarrow> field_summary" where
  "update_summary s value' =
     (case value' of
        None \<Rightarrow> s\<lparr>fs_contains_null := True\<rparr>
      | Some v \<Rightarrow>
          if value_is_nan v then s\<lparr>fs_contains_nan := Some True\<rparr>
          else s\<lparr>fs_contains_nan := touch_nan v (fs_contains_nan s),
                 fs_lower_bound := update_lower (fs_lower_bound s) v,
                 fs_upper_bound := update_upper (fs_upper_bound s) v\<rparr>)"

fun update_partitions ::
  "field_summary list \<Rightarrow> struct_value \<Rightarrow> partition_field list \<Rightarrow> (field_summary list, error) outcome" where
  "update_partitions (s # ss) partition_values (f # fs) =
     rbind (ok_or (InvalidFormat ''Partition field is missing'') (Struct_get partition_values (pf_name f))) (\<lambda>v.
     rbind (update_partitions ss partition_values fs) (\<lambda>ss'. Ok (update_summary s v # ss')))"
| "update_partitions ss partition_values fs = Ok ss"

definition FieldSummary_empty :: field_summary where
  "FieldSummary_empty =
     \<lparr>fs_contains_null = False, fs_contains_nan = None, fs_lower_bound = None, fs_upper_bound = None\<rparr>"

section \<open>The writer\<close>

record 'v manifest_writer =
  mw_table_metadata :: table_metadata
  mw_manifest :: manifest_list_entry
  mw_writer :: "'v avro_writer"

record filtered_manifest_stats =
  fms_removed_data_files :: i32
  fms_removed_records :: i64
  fms_removed_file_size_bytes :: i64
  fms_filtered_entries :: "manifest_entry list"

definition FilteredManifestStats_default :: filtered_manifest_stats where
  "FilteredManifestStats_default =
     \<lparr>fms_removed_data_files = 0, fms_removed_records = 0, fms_removed_file_size_bytes = 0,
      fms_filtered_entries = []\<rparr>"

definition FilteredManifestStats_append ::
  "filtered_manifest_stats \<Rightarrow> filtered_manifest_stats \<Rightarrow> filtered_manifest_stats" where
  "FilteredManifestStats_append s stats =
     \<lparr>fms_removed_data_files = wrap32 (fms_removed_data_files s + fms_removed_data_files stats),
      fms_removed_records = wrap64 (fms_removed_records s + fms_removed_records stats),
      fms_removed_file_size_bytes =
        wrap64 (fms_removed_file_size_bytes s + fms_removed_file_size_bytes stats),
      fms_filtered_entries = fms_filtered_entries s @ fms_filtered_entries stats\<rparr>"

text \<open>
  Rewriting materializes the first row ids that the files of the manifest inherit. The second
  component is the next inherited id.
\<close>

definition inherit_first_row_id ::
  "ml_content \<Rightarrow> i64 option \<Rightarrow> data_file \<Rightarrow> (i64 option \<times> data_file, error) outcome" where
  "inherit_first_row_id content next_row_id f =
     (if content \<noteq> ContentData \<or> df_first_row_id f \<noteq> None then Ok (next_row_id, f)
      else case next_row_id of
        None \<Rightarrow> Ok (next_row_id, f)
      | Some first_row_id \<Rightarrow>
          if first_row_id < 0 \<or> df_record_count f < 0
          then Err (InvalidFormat (''Invalid row lineage range for data file '' @ df_file_path f
                 @ '': first_row_id='' @ show_int first_row_id @ '', record_count='' @ show_int (df_record_count f)))
          else rbind (ok_or (InvalidFormat (''Row ID overflow while rewriting data file '' @ df_file_path f))
                  (checked_add_i64 first_row_id (df_record_count f))) (\<lambda>next.
               Ok (Some next, f\<lparr>df_first_row_id := Some first_row_id\<rparr>)))"

text \<open>
  The user metadata of a manifest. \<open>add_user_metadata\<close> fails only for the reserved keys of the
  Avro format, which the code does not use.
\<close>

definition format_version_text :: "format_version \<Rightarrow> byte list" where
  "format_version_text v = string_bytes (case v of V1 \<Rightarrow> ''1'' | V2 \<Rightarrow> ''2'' | V3 \<Rightarrow> ''3'')"

definition schema_text ::
  "('v, 'b, 's) table_io \<Rightarrow> format_version \<Rightarrow> schema \<Rightarrow> (byte list, error) outcome" where
  "schema_text io v s =
     (case v of V1 \<Rightarrow> io_schema_v1_json io (SchemaV1_from s) | _ \<Rightarrow> io_schema_v2_json io (SchemaV2_from s))"

definition content_text :: "ml_content \<Rightarrow> byte list" where
  "content_text c = string_bytes (case c of ContentData \<Rightarrow> ''data'' | ContentDeletes \<Rightarrow> ''deletes'')"

definition source_user_metadata ::
  "('v, 'b, 's) table_io \<Rightarrow> table_metadata \<Rightarrow> schema \<Rightarrow> partition_spec \<Rightarrow> ml_content
   \<Rightarrow> ((string \<times> byte list) list, error) outcome" where
  "source_user_metadata io tm write_schema write_spec content =
     rbind (schema_text io (tm_format_version tm) write_schema) (\<lambda>schema.
     rbind (io_i32_json io (sch_schema_id write_schema)) (\<lambda>schema_id.
     rbind (io_fields_json io (ps_fields write_spec)) (\<lambda>fs.
     rbind (io_i32_json io (ps_spec_id write_spec)) (\<lambda>spec_id.
     Ok [(''format-version'', format_version_text (tm_format_version tm)),
         (''schema'', schema), (''schema-id'', schema_id), (''partition-spec'', fs),
         (''partition-spec-id'', spec_id), (''content'', content_text content)]))))"

definition table_user_metadata ::
  "('v, 'b, 's) table_io \<Rightarrow> table_metadata \<Rightarrow> ml_content \<Rightarrow> ((string \<times> byte list) list, error) outcome" where
  "table_user_metadata io tm content =
     rbind (map_err Iceberg (current_schema tm)) (\<lambda>current.
     rbind (schema_text io (tm_format_version tm) current) (\<lambda>schema.
     rbind (io_i32_json io (sch_schema_id current)) (\<lambda>schema_id.
     rbind (ok_or (NotFound (''Partition spec with id '' @ show_int (tm_default_spec_id tm)))
       (tm_partition_specs tm (tm_default_spec_id tm))) (\<lambda>spec.
     rbind (io_fields_json io (ps_fields spec)) (\<lambda>fs.
     rbind (io_i32_json io (tm_default_spec_id tm)) (\<lambda>spec_id.
     Ok [(''format-version'', format_version_text (tm_format_version tm)),
         (''schema'', schema), (''schema-id'', schema_id), (''partition-spec'', fs),
         (''partition-spec-id'', spec_id), (''content'', content_text content)]))))))"

definition new_manifest_entry ::
  "table_metadata \<Rightarrow> string \<Rightarrow> i64 \<Rightarrow> ml_content \<Rightarrow> manifest_list_entry" where
  "new_manifest_entry tm manifest_location snapshot_id content =
     \<lparr>ml_format_version = tm_format_version tm,
      ml_manifest_path = manifest_location,
      ml_manifest_length = 0,
      ml_partition_spec_id = tm_default_spec_id tm,
      ml_content = content,
      ml_sequence_number = wrap64 (tm_last_sequence_number tm + 1),
      ml_min_sequence_number = wrap64 (tm_last_sequence_number tm + 1),
      ml_added_snapshot_id = snapshot_id,
      ml_added_files_count = Some 0,
      ml_existing_files_count = Some 0,
      ml_deleted_files_count = Some 0,
      ml_added_rows_count = Some 0,
      ml_existing_rows_count = Some 0,
      ml_deleted_rows_count = Some 0,
      ml_partitions = None,
      ml_key_metadata = None,
      ml_first_row_id = None\<rparr>"

definition ManifestWriter_new ::
  "('v, 'b, 's) table_io \<Rightarrow> string \<Rightarrow> i64 \<Rightarrow> avro_schema \<Rightarrow> table_metadata \<Rightarrow> ml_content
   \<Rightarrow> ('v manifest_writer, error) outcome" where
  "ManifestWriter_new io manifest_location snapshot_id schema tm content =
     rbind (table_user_metadata io tm content) (\<lambda>metadata.
     Ok \<lparr>mw_table_metadata = tm,
         mw_manifest = new_manifest_entry tm manifest_location snapshot_id content,
         mw_writer = (AvroWriter_new schema)\<lparr>aw_user_metadata := metadata\<rparr>\<rparr>)"

section \<open>Rewriting an existing manifest\<close>

text \<open>
  What an entry without a sequence number or snapshot id inherits from its manifest.
\<close>

definition inherit_from_manifest :: "i64 \<Rightarrow> i64 \<Rightarrow> manifest_entry \<Rightarrow> manifest_entry" where
  "inherit_from_manifest sequence_number' snapshot_id e =
     e\<lparr>me_sequence_number :=
         (case me_sequence_number e of None \<Rightarrow> Some sequence_number' | Some n \<Rightarrow> Some n),
       me_snapshot_id := (case me_snapshot_id e of None \<Rightarrow> Some snapshot_id | Some n \<Rightarrow> Some n)\<rparr>"

definition min_sequence :: "i64 option \<Rightarrow> i64 option \<Rightarrow> i64 option" where
  "min_sequence m s =
     (case s of
        None \<Rightarrow> m
      | Some n \<Rightarrow> Some (case m of None \<Rightarrow> n | Some x \<Rightarrow> min x n))"

record 'v existing_state =
  es_existing_files :: i32
  es_existing_rows :: i64
  es_min_live_sequence :: "i64 option"
  es_writer :: "'v avro_writer"

definition from_existing_step ::
  "('v, 'b, 's) table_io \<Rightarrow> table_metadata \<Rightarrow> manifest_list_entry \<Rightarrow> 'v existing_state
   \<Rightarrow> (manifest_entry, error) outcome \<Rightarrow> ('v existing_state, error) outcome" where
  "from_existing_step io tm manifest s x =
     rbind x (\<lambda>e.
     if me_status e = Deleted then Ok s
     else let e' = inherit_from_manifest (ml_sequence_number manifest) (ml_added_snapshot_id manifest)
                     (e\<lparr>me_format_version := tm_format_version tm, me_status := Existing\<rparr>)
          in rbind (append_entry io (es_writer s) e') (\<lambda>w.
             Ok \<lparr>es_existing_files = wrap32 (es_existing_files s + 1),
                 es_existing_rows = wrap64 (es_existing_rows s + df_record_count (me_data_file e')),
                 es_min_live_sequence = min_sequence (es_min_live_sequence s) (me_sequence_number e'),
                 es_writer = w\<rparr>))"

text \<open>The entry of a rewritten manifest, with the counts of what it keeps and deletes.\<close>

definition rewritten_manifest ::
  "table_metadata \<Rightarrow> i64 \<Rightarrow> i64 option \<Rightarrow> i32 \<Rightarrow> i64 \<Rightarrow> i32 \<Rightarrow> i64 \<Rightarrow> manifest_list_entry \<Rightarrow> manifest_list_entry" where
  "rewritten_manifest tm snapshot_id min_live existing_files existing_rows deleted_files deleted_rows manifest =
     manifest\<lparr>ml_sequence_number := wrap64 (tm_last_sequence_number tm + 1),
       ml_added_snapshot_id := snapshot_id,
       ml_min_sequence_number :=
         (case min_live of Some m \<Rightarrow> m | None \<Rightarrow> wrap64 (tm_last_sequence_number tm + 1)),
       ml_existing_files_count := Some existing_files,
       ml_existing_rows_count := Some existing_rows,
       ml_added_files_count := Some 0,
       ml_added_rows_count := Some 0,
       ml_deleted_files_count := Some deleted_files,
       ml_deleted_rows_count := Some deleted_rows\<rparr>"

definition ManifestWriter_from_existing ::
  "('v, 'b, 's) table_io \<Rightarrow> (manifest_entry, error) outcome list \<Rightarrow> manifest_list_entry \<Rightarrow> i64 \<Rightarrow> avro_schema
   \<Rightarrow> table_metadata \<Rightarrow> ('v manifest_writer, error) outcome" where
  "ManifestWriter_from_existing io manifest_reader manifest snapshot_id schema tm =
     rbind (table_user_metadata io tm (ml_content manifest)) (\<lambda>metadata.
     rbind (try_fold (from_existing_step io tm manifest)
              \<lparr>es_existing_files = 0, es_existing_rows = 0, es_min_live_sequence = None,
               es_writer = (AvroWriter_new schema)\<lparr>aw_user_metadata := metadata\<rparr>\<rparr>
              manifest_reader) (\<lambda>s.
     Ok \<lparr>mw_table_metadata = tm,
         mw_manifest = rewritten_manifest tm snapshot_id (es_min_live_sequence s) (es_existing_files s)
                         (es_existing_rows s) 0 0 manifest,
         mw_writer = es_writer s\<rparr>))"

text \<open>
  With a filter: a removed file is counted and becomes a tombstone. In a manifest of an old
  partition spec the tombstone is written to the manifest itself, else it is handed back.
\<close>

record 'v rewrite_state =
  rw_next_inherited_row_id :: "i64 option"
  rw_partitions :: "field_summary list"
  rw_existing_files :: i32
  rw_existing_rows :: i64
  rw_deleted_files :: i32
  rw_deleted_rows :: i64
  rw_min_live_sequence :: "i64 option"
  rw_filtered_stats :: filtered_manifest_stats
  rw_writer :: "'v avro_writer"

definition write_rewritten_entry ::
  "('v, 'b, 's) table_io \<Rightarrow> partition_spec \<Rightarrow> ice_type list \<Rightarrow> 'v rewrite_state \<Rightarrow> manifest_entry
   \<Rightarrow> ('v rewrite_state, error) outcome" where
  "write_rewritten_entry io write_spec partition_types s e =
     rbind (map_err Iceberg (promote_partition_to_types (io_values io) (me_data_file e) write_spec partition_types)) (\<lambda>f.
     rbind (update_partitions (rw_partitions s) (df_partition f) (ps_fields write_spec)) (\<lambda>ps.
     rbind (append_entry io (rw_writer s) (e\<lparr>me_data_file := f\<rparr>)) (\<lambda>w.
     Ok (s\<lparr>rw_partitions := ps, rw_writer := w\<rparr>))))"

definition count_removed :: "filtered_manifest_stats \<Rightarrow> data_file \<Rightarrow> filtered_manifest_stats" where
  "count_removed stats f =
     stats\<lparr>fms_removed_records :=
             (if df_content f = Data then wrap64 (fms_removed_records stats + df_record_count f)
              else fms_removed_records stats),
           fms_removed_file_size_bytes :=
             wrap64 (fms_removed_file_size_bytes stats + df_file_size_in_bytes f),
           fms_removed_data_files := wrap32 (fms_removed_data_files stats + 1)\<rparr>"

definition remove_entry ::
  "('v, 'b, 's) table_io \<Rightarrow> i64 \<Rightarrow> bool \<Rightarrow> partition_spec \<Rightarrow> ice_type list \<Rightarrow> 'v rewrite_state \<Rightarrow> manifest_entry
   \<Rightarrow> ('v rewrite_state, error) outcome" where
  "remove_entry io snapshot_id old_spec write_spec partition_types s entry =
     (let e = entry\<lparr>me_status := Deleted, me_snapshot_id := Some snapshot_id\<rparr>;
          s' = s\<lparr>rw_filtered_stats := count_removed (rw_filtered_stats s) (me_data_file entry)\<rparr>
      in if old_spec
         then write_rewritten_entry io write_spec partition_types
                (s'\<lparr>rw_deleted_files := wrap32 (rw_deleted_files s + 1),
                    rw_deleted_rows := wrap64 (rw_deleted_rows s + df_record_count (me_data_file e))\<rparr>) e
         else Ok (s'\<lparr>rw_filtered_stats := (rw_filtered_stats s')
                \<lparr>fms_filtered_entries := fms_filtered_entries (rw_filtered_stats s') @ [e]\<rparr>\<rparr>))"

definition keep_entry ::
  "('v, 'b, 's) table_io \<Rightarrow> partition_spec \<Rightarrow> ice_type list \<Rightarrow> 'v rewrite_state \<Rightarrow> manifest_entry
   \<Rightarrow> ('v rewrite_state, error) outcome" where
  "keep_entry io write_spec partition_types s e =
     write_rewritten_entry io write_spec partition_types
       (s\<lparr>rw_existing_files := wrap32 (rw_existing_files s + 1),
          rw_existing_rows := wrap64 (rw_existing_rows s + df_record_count (me_data_file e)),
          rw_min_live_sequence := min_sequence (rw_min_live_sequence s) (me_sequence_number e)\<rparr>)
       (e\<lparr>me_status := Existing\<rparr>)"

definition filter_step ::
  "('v, 'b, 's) table_io \<Rightarrow> table_metadata \<Rightarrow> manifest_list_entry \<Rightarrow> string set \<Rightarrow> i64 \<Rightarrow> bool \<Rightarrow> partition_spec
   \<Rightarrow> ice_type list \<Rightarrow> 'v rewrite_state \<Rightarrow> (manifest_entry, error) outcome \<Rightarrow> ('v rewrite_state, error) outcome" where
  "filter_step io tm manifest fltr snapshot_id old_spec write_spec partition_types s x =
     rbind x (\<lambda>e.
     if me_status e = Deleted then Ok s
     else rbind (inherit_first_row_id (ml_content manifest) (rw_next_inherited_row_id s) (me_data_file e)) (\<lambda>(next, f).
       let e' = inherit_from_manifest (ml_sequence_number manifest) (ml_added_snapshot_id manifest)
                  (e\<lparr>me_data_file := f, me_format_version := tm_format_version tm\<rparr>);
           s' = s\<lparr>rw_next_inherited_row_id := next\<rparr>
       in if df_file_path f \<in> fltr
          then remove_entry io snapshot_id old_spec write_spec partition_types s' e'
          else keep_entry io write_spec partition_types s' e'))"

definition write_target ::
  "table_metadata \<Rightarrow> (schema \<times> partition_spec) option \<Rightarrow> (schema \<times> partition_spec, error) outcome" where
  "write_target tm source_metadata =
     (case source_metadata of
        Some metadata \<Rightarrow> Ok metadata
      | None \<Rightarrow> rbind (map_err Iceberg (current_schema tm)) (\<lambda>s.
                rbind (map_err Iceberg (default_partition_spec tm)) (\<lambda>spec. Ok (s, spec))))"

definition rewrite_init :: "avro_schema \<Rightarrow> (string \<times> byte list) list \<Rightarrow> i64 option \<Rightarrow> nat \<Rightarrow> 'v rewrite_state" where
  "rewrite_init schema metadata first_row_id n =
     \<lparr>rw_next_inherited_row_id = first_row_id, rw_partitions = replicate n FieldSummary_empty,
      rw_existing_files = 0, rw_existing_rows = 0, rw_deleted_files = 0, rw_deleted_rows = 0,
      rw_min_live_sequence = None, rw_filtered_stats = FilteredManifestStats_default,
      rw_writer = (AvroWriter_new schema)\<lparr>aw_user_metadata := metadata\<rparr>\<rparr>"

definition ManifestWriter_from_existing_with_filter ::
  "('v, 'b, 's) table_io \<Rightarrow> manifest_reader \<Rightarrow> manifest_list_entry \<Rightarrow> string set \<Rightarrow> i64 \<Rightarrow> avro_schema
   \<Rightarrow> table_metadata \<Rightarrow> (schema \<times> partition_spec) option
   \<Rightarrow> ('v manifest_writer \<times> filtered_manifest_stats, error) outcome" where
  "ManifestWriter_from_existing_with_filter io reader manifest fltr snapshot_id schema tm source_metadata =
     (let old_spec = (ml_partition_spec_id manifest \<noteq> tm_default_spec_id tm)
      in if old_spec \<and> source_metadata = None
         then Err (NotSupported ''COW rewrite across partition-spec evolution'')
         else rbind (write_target tm source_metadata) (\<lambda>(write_schema, write_spec).
           if ps_spec_id write_spec \<noteq> ml_partition_spec_id manifest
             \<or> tm_partition_specs tm (ps_spec_id write_spec) \<noteq> Some write_spec
           then Err (InvalidFormat ''Manifest partition spec does not match table metadata'')
           else rbind (map_err Iceberg (data_types write_spec (sch_fields write_schema))) (\<lambda>partition_types.
             rbind (source_user_metadata io tm write_schema write_spec (ml_content manifest)) (\<lambda>metadata.
             rbind (try_fold (filter_step io tm manifest fltr snapshot_id old_spec write_spec partition_types)
                      (rewrite_init schema metadata (ml_first_row_id manifest) (length (ps_fields write_spec)))
                      (mr_reader reader)) (\<lambda>s.
             Ok (\<lparr>mw_table_metadata = tm,
                  mw_manifest = rewritten_manifest tm snapshot_id (rw_min_live_sequence s) (rw_existing_files s)
                    (rw_existing_rows s) (rw_deleted_files s) (rw_deleted_rows s)
                    (manifest\<lparr>ml_partitions := Some (rw_partitions s),
                              ml_partition_spec_id := ps_spec_id write_spec\<rparr>),
                  mw_writer = rw_writer s\<rparr>,
                 rw_filtered_stats s))))))"

section \<open>Appending to and finishing a manifest\<close>

text \<open>The rows of an entry, by what the manifest counts them as.\<close>

definition added_rows_of :: "manifest_entry \<Rightarrow> i64" where
  "added_rows_of e =
     (if df_content (me_data_file e) = Data \<and> me_status e = Added then df_record_count (me_data_file e) else 0)"

definition existing_rows_of :: "manifest_entry \<Rightarrow> i64" where
  "existing_rows_of e =
     (if df_content (me_data_file e) = Data \<and> me_status e = Existing then df_record_count (me_data_file e) else 0)"

definition deleted_rows_of :: "manifest_entry \<Rightarrow> i64" where
  "deleted_rows_of e =
     (case df_content (me_data_file e) of
        Data \<Rightarrow> if me_status e = Deleted then df_record_count (me_data_file e) else 0
      | EqualityDeletes \<Rightarrow> df_record_count (me_data_file e)
      | PositionDeletes \<Rightarrow> 0)"

definition bump32 :: "i32 option \<Rightarrow> i32 option" where
  "bump32 c = Some (case c of Some n \<Rightarrow> wrap32 (n + 1) | None \<Rightarrow> 1)"

definition bump64 :: "i64 \<Rightarrow> i64 option \<Rightarrow> i64 option" where
  "bump64 k c = Some (case c of Some n \<Rightarrow> wrap64 (n + k) | None \<Rightarrow> k)"

definition count_entry :: "manifest_entry \<Rightarrow> manifest_list_entry \<Rightarrow> manifest_list_entry" where
  "count_entry e m =
     (case me_status e of
        Added \<Rightarrow> m\<lparr>ml_added_files_count := bump32 (ml_added_files_count m)\<rparr>
      | Existing \<Rightarrow> m\<lparr>ml_existing_files_count := bump32 (ml_existing_files_count m)\<rparr>
      | Deleted \<Rightarrow> m\<lparr>ml_deleted_files_count := bump32 (ml_deleted_files_count m)\<rparr>)
     \<lparr>ml_added_rows_count := bump64 (added_rows_of e) (ml_added_rows_count m),
      ml_existing_rows_count := bump64 (existing_rows_of e) (ml_existing_rows_count m),
      ml_deleted_rows_count := bump64 (deleted_rows_of e) (ml_deleted_rows_count m)\<rparr>"

definition lower_min_sequence :: "i64 option \<Rightarrow> manifest_list_entry \<Rightarrow> manifest_list_entry" where
  "lower_min_sequence s m =
     (case s of
        Some n \<Rightarrow> if ml_min_sequence_number m > n then m\<lparr>ml_min_sequence_number := n\<rparr> else m
      | None \<Rightarrow> m)"

definition ManifestWriter_append ::
  "('v, 'b, 's) table_io \<Rightarrow> 'v manifest_writer \<Rightarrow> manifest_entry \<Rightarrow> ('v manifest_writer, error) outcome" where
  "ManifestWriter_append io w entry =
     rbind (case ml_partitions (mw_manifest w) of
              Some ps \<Rightarrow> Ok ps
            | None \<Rightarrow> rbind (map_err Iceberg (default_partition_spec (mw_table_metadata w))) (\<lambda>spec.
                      Ok (map (\<lambda>_. FieldSummary_empty) (ps_fields spec)))) (\<lambda>ps.
     rbind (map_err Iceberg (default_partition_spec (mw_table_metadata w))) (\<lambda>spec.
     rbind (update_partitions ps (df_partition (me_data_file entry)) (ps_fields spec)) (\<lambda>ps'.
     rbind (append_entry io (mw_writer w) entry) (\<lambda>aw.
     Ok (w\<lparr>mw_manifest := count_entry entry (lower_min_sequence (me_sequence_number entry)
              ((mw_manifest w)\<lparr>ml_partitions := Some ps'\<rparr>)),
           mw_writer := aw\<rparr>)))))"

text \<open>
  \<open>finish\<close> writes the file; \<open>finish_concurrently\<close> hands back the path and the bytes that a
  future will write.
\<close>

definition finished_manifest ::
  "('v, 'b, 's) table_io \<Rightarrow> 'v manifest_writer \<Rightarrow> (manifest_list_entry \<times> 'b, error) outcome" where
  "finished_manifest io w =
     rbind (io_avro_write io (mw_writer w)) (\<lambda>bytes.
     Ok ((mw_manifest w)\<lparr>ml_manifest_length := wrap64 (int (io_len io bytes))\<rparr>, bytes))"

definition ManifestWriter_finish ::
  "('v, 'b, 's) table_io \<Rightarrow> 's \<Rightarrow> 'v manifest_writer \<Rightarrow> (manifest_list_entry \<times> 's, error) outcome" where
  "ManifestWriter_finish io st w =
     rbind (finished_manifest io w) (\<lambda>(manifest, bytes).
     rbind (store_put io st (ml_manifest_path manifest) bytes) (\<lambda>st'.
     Ok (manifest, st')))"

definition ManifestWriter_finish_concurrently ::
  "('v, 'b, 's) table_io \<Rightarrow> 'v manifest_writer \<Rightarrow> (manifest_list_entry \<times> (string \<times> 'b), error) outcome" where
  "ManifestWriter_finish_concurrently io w =
     rbind (finished_manifest io w) (\<lambda>(manifest, bytes).
     Ok (manifest, (ml_manifest_path manifest, bytes)))"

section \<open>Lemmas on partition summaries\<close>

definition same_kind :: "ice_value \<Rightarrow> ice_value \<Rightarrow> bool" where
  "same_kind a b \<longleftrightarrow> same_scalar a b \<or> (\<exists>n x y. a = VFixed n x \<and> b = VFixed n y)"

lemma bound_less_same_kind: "same_kind a b \<Longrightarrow> bound_less a b \<longleftrightarrow> a < b"
  by (cases a; cases b) (auto simp: same_kind_def same_scalar_def bound_less_def
      less_ice_value_def value_less_def)

lemma replace_bound_same_kind: "same_kind a b \<Longrightarrow> replace_bound a b = b"
  by (cases a; cases b) (auto simp: same_kind_def same_scalar_def replace_bound_def)

lemma same_kind_sym: "same_kind a b \<Longrightarrow> same_kind b a"
  by (cases a; cases b) (auto simp: same_kind_def same_scalar_def)

text \<open>
  A summary of the values of one partition column: it tells of nulls and NaNs, its bounds hold
  for the other values, and they are among these values.
\<close>

definition covers :: "field_summary \<Rightarrow> ice_value option \<Rightarrow> bool" where
  "covers s v \<longleftrightarrow>
     (case v of
        None \<Rightarrow> fs_contains_null s
      | Some x \<Rightarrow>
          if value_is_nan x then fs_contains_nan s = Some True
          else \<exists>lo up. fs_lower_bound s = Some lo \<and> fs_upper_bound s = Some up \<and> lo \<le> x \<and> x \<le> up)"

definition summary_of :: "ice_value option list \<Rightarrow> field_summary \<Rightarrow> bool" where
  "summary_of vs s \<longleftrightarrow>
     (\<forall>v\<in>set vs. covers s v)
     \<and> (\<forall>b. fs_lower_bound s = Some b \<or> fs_upper_bound s = Some b \<longrightarrow> Some b \<in> set vs)
     \<and> (fs_lower_bound s = None \<longleftrightarrow> fs_upper_bound s = None)"

definition homogeneous :: "ice_value option list \<Rightarrow> bool" where
  "homogeneous vs \<longleftrightarrow> (\<forall>x y. Some x \<in> set vs \<longrightarrow> Some y \<in> set vs \<longrightarrow> same_kind x y)"

lemma touch_nan_True: "touch_nan x n = Some True \<longleftrightarrow> n = Some True"
  by (cases x; cases n) (auto simp: touch_nan_def)

lemma summary_of_empty: "summary_of [] FieldSummary_empty"
  by (simp add: summary_of_def FieldSummary_empty_def)

lemma update_summary_of:
  assumes "homogeneous (vs @ [v])" "summary_of vs s"
  shows "summary_of (vs @ [v]) (update_summary s v)"
proof (cases v)
  case None
  with assms(2) show ?thesis
    by (auto simp: summary_of_def update_summary_def covers_def split: option.splits)
next
  case (Some x)
  show ?thesis
  proof (cases "value_is_nan x")
    case True
    with Some assms(2) show ?thesis
      by (auto simp: summary_of_def update_summary_def covers_def split: option.splits)
  next
    case False
    have k: "same_kind x y" "same_kind y x" if "Some y \<in> set vs" for y
      using assms(1) that Some by (auto simp: homogeneous_def)
    show ?thesis
    proof (cases "fs_lower_bound s")
      case None
      with assms(2) have "fs_upper_bound s = None" by (simp add: summary_of_def)
      with None False Some assms(2) show ?thesis
        unfolding summary_of_def update_summary_def
        by (auto simp: covers_def update_lower_def update_upper_def touch_nan_True split: option.splits if_splits)
    next
      case (Some lo)
      with assms(2) obtain up where up: "fs_upper_bound s = Some up"
        by (cases "fs_upper_bound s") (auto simp: summary_of_def)
      have mem: "Some lo \<in> set vs" "Some up \<in> set vs"
        using assms(2) Some up by (auto simp: summary_of_def)
      have lower: "update_lower (Some lo) x = Some (if x < lo then x else lo)"
        using Some k [OF mem(1)] by (simp add: update_lower_def bound_less_same_kind replace_bound_same_kind)
      have upper: "update_upper (Some up) x = Some (if up < x then x else up)"
        using up k [OF mem(2)] by (simp add: update_upper_def bound_less_same_kind replace_bound_same_kind)
      have "covers (update_summary s v) w" if "w \<in> set (vs @ [v])" for w
      proof (cases "w \<in> set vs")
        case True
        then have "covers s w" using assms(2) by (simp add: summary_of_def)
        then show ?thesis
          using \<open>v = Some x\<close> False Some up
          by (auto simp: covers_def update_summary_def lower upper touch_nan_True intro: order_trans less_imp_le
              split: option.splits if_splits)
      next
        case False
        with that have "w = Some x" using \<open>v = Some x\<close> by simp
        then show ?thesis using \<open>\<not> value_is_nan x\<close> \<open>v = Some x\<close> Some up value_not_less
          by (auto simp: covers_def update_summary_def lower upper intro: order_trans less_imp_le)
      qed
      then show ?thesis
        using \<open>v = Some x\<close> False mem Some up by (auto simp: summary_of_def update_summary_def lower upper)
    qed
  qed
qed


lemma update_partitions_Ok:
  "update_partitions ss st fs = Ok ss' \<Longrightarrow> length ss = length fs \<Longrightarrow>
   length ss' = length fs \<and>
   (\<forall>i<length fs. \<exists>v. Struct_get st (pf_name (fs ! i)) = Some v \<and> ss' ! i = update_summary (ss ! i) v)"
proof (induction ss st fs arbitrary: ss' rule: update_partitions.induct)
  case (1 s ss st f fs)
  then show ?case by (auto simp: nth_Cons less_Suc_eq_0_disj split: nat.splits)
qed auto

text \<open>What one \<open>append\<close> does.\<close>

lemma ManifestWriter_append_Ok:
  assumes "ManifestWriter_append io w e = Ok w'"
  shows "\<exists>spec ps ps' aw. default_partition_spec (mw_table_metadata w) = Ok spec
    \<and> ps = (case ml_partitions (mw_manifest w) of Some ps \<Rightarrow> ps | None \<Rightarrow> map (\<lambda>_. FieldSummary_empty) (ps_fields spec))
    \<and> update_partitions ps (df_partition (me_data_file e)) (ps_fields spec) = Ok ps'
    \<and> append_entry io (mw_writer w) e = Ok aw
    \<and> w' = w\<lparr>mw_manifest := count_entry e (lower_min_sequence (me_sequence_number e)
              ((mw_manifest w)\<lparr>ml_partitions := Some ps'\<rparr>)), mw_writer := aw\<rparr>"
  using assms by (auto simp: ManifestWriter_append_def split: option.splits)

lemma lower_min_sequence_simps [simp]:
  "ml_partitions (lower_min_sequence s m) = ml_partitions m"
  "ml_added_files_count (lower_min_sequence s m) = ml_added_files_count m"
  "ml_existing_files_count (lower_min_sequence s m) = ml_existing_files_count m"
  "ml_deleted_files_count (lower_min_sequence s m) = ml_deleted_files_count m"
  "ml_added_rows_count (lower_min_sequence s m) = ml_added_rows_count m"
  "ml_existing_rows_count (lower_min_sequence s m) = ml_existing_rows_count m"
  "ml_deleted_rows_count (lower_min_sequence s m) = ml_deleted_rows_count m"
  "ml_content (lower_min_sequence s m) = ml_content m"
  "ml_first_row_id (lower_min_sequence s m) = ml_first_row_id m"
  "ml_manifest_path (lower_min_sequence s m) = ml_manifest_path m"
  by (simp_all add: lower_min_sequence_def split: option.split)

lemma count_entry_simps [simp]:
  "ml_partitions (count_entry e m) = ml_partitions m"
  "ml_min_sequence_number (count_entry e m) = ml_min_sequence_number m"
  "ml_content (count_entry e m) = ml_content m"
  "ml_first_row_id (count_entry e m) = ml_first_row_id m"
  "ml_manifest_path (count_entry e m) = ml_manifest_path m"
  "ml_added_rows_count (count_entry e m) = bump64 (added_rows_of e) (ml_added_rows_count m)"
  "ml_existing_rows_count (count_entry e m) = bump64 (existing_rows_of e) (ml_existing_rows_count m)"
  "ml_deleted_rows_count (count_entry e m) = bump64 (deleted_rows_of e) (ml_deleted_rows_count m)"
  "ml_added_files_count (count_entry e m) =
     (if me_status e = Added then bump32 (ml_added_files_count m) else ml_added_files_count m)"
  "ml_existing_files_count (count_entry e m) =
     (if me_status e = Existing then bump32 (ml_existing_files_count m) else ml_existing_files_count m)"
  "ml_deleted_files_count (count_entry e m) =
     (if me_status e = Deleted then bump32 (ml_deleted_files_count m) else ml_deleted_files_count m)"
  by (simp_all add: count_entry_def split: status.split)

definition column :: "partition_field \<Rightarrow> manifest_entry list \<Rightarrow> ice_value option list" where
  "column f es = map (\<lambda>e. the (Struct_get (df_partition (me_data_file e)) (pf_name f))) es"

lemma homogeneous_prefix: "homogeneous (vs @ ws) \<Longrightarrow> homogeneous vs"
  by (auto simp: homogeneous_def)

lemma append_table_metadata:
  "try_fold (ManifestWriter_append io) w es = Ok w' \<Longrightarrow> mw_table_metadata w' = mw_table_metadata w"
  by (induction es arbitrary: w) (auto dest!: ManifestWriter_append_Ok)

lemma appended_summaries:
  assumes "try_fold (ManifestWriter_append io) w es = Ok w'"
    and "ml_partitions (mw_manifest w) = None"
    and "default_partition_spec (mw_table_metadata w) = Ok spec"
    and "\<forall>f\<in>set (ps_fields spec). homogeneous (column f es)"
  shows "(if es = [] then ml_partitions (mw_manifest w') = None
     else \<exists>ps. ml_partitions (mw_manifest w') = Some ps \<and> length ps = length (ps_fields spec)
       \<and> (\<forall>i<length ps. summary_of (column (ps_fields spec ! i) es) (ps ! i)))"
  using assms(1,4)
proof (induction es arbitrary: w' rule: rev_induct)
  case Nil
  then show ?case using assms(2) by simp
next
  case (snoc e es)
  from snoc.prems(1) obtain v where v: "try_fold (ManifestWriter_append io) w es = Ok v"
    "ManifestWriter_append io v e = Ok w'"
    by (auto simp: try_fold_append)
  have hom: "\<forall>f\<in>set (ps_fields spec). homogeneous (column f es)"
    using snoc.prems(2) by (auto simp: column_def intro: homogeneous_prefix)
  note IH = snoc.IH [OF v(1) hom]
  have spec: "default_partition_spec (mw_table_metadata v) = Ok spec"
    using append_table_metadata [OF v(1)] assms(3) by simp
  define ps where "ps = (case ml_partitions (mw_manifest v) of Some ps \<Rightarrow> ps
    | None \<Rightarrow> map (\<lambda>_. FieldSummary_empty) (ps_fields spec))"
  have ps: "length ps = length (ps_fields spec)"
    "\<And>i. i < length ps \<Longrightarrow> summary_of (column (ps_fields spec ! i) es) (ps ! i)"
    using IH by (auto simp: ps_def column_def summary_of_empty split: if_splits)
  obtain ps' where ps': "update_partitions ps (df_partition (me_data_file e)) (ps_fields spec) = Ok ps'"
    "ml_partitions (mw_manifest w') = Some ps'"
    using ManifestWriter_append_Ok [OF v(2)] spec by (auto simp: ps_def)
  have "summary_of (column (ps_fields spec ! i) (es @ [e])) (ps' ! i)" if i: "i < length ps" for i
  proof -
    obtain x where x: "Struct_get (df_partition (me_data_file e)) (pf_name (ps_fields spec ! i)) = Some x"
      "ps' ! i = update_summary (ps ! i) x"
      using update_partitions_Ok [OF ps'(1) ps(1)] i ps(1) by auto
    have c: "column (ps_fields spec ! i) (es @ [e]) = column (ps_fields spec ! i) es @ [x]"
      using x(1) by (simp add: column_def)
    have "ps_fields spec ! i \<in> set (ps_fields spec)" using i ps(1) by simp
    then have "homogeneous (column (ps_fields spec ! i) es @ [x])"
      using snoc.prems(2) c by metis
    then show ?thesis using update_summary_of [OF _ ps(2) [OF i]] x(2) c by simp
  qed
  then show ?case
    using ps' ps(1) update_partitions_Ok [OF ps'(1) ps(1)] by simp
qed

section \<open>What a new manifest says of its entries\<close>

definition status_count :: "status \<Rightarrow> manifest_entry list \<Rightarrow> i32" where
  "status_count s es = int (length (filter (\<lambda>e. me_status e = s) es))"

lemma status_count_simps [simp]:
  "status_count s [] = 0"
  "status_count s (es @ [e]) = status_count s es + (if me_status e = s then 1 else 0)"
  by (simp_all add: status_count_def)

lemma manifest_counts:
  assumes "try_fold (ManifestWriter_append io) w es = Ok w'"
    and "ml_added_files_count (mw_manifest w) = Some 0" "ml_existing_files_count (mw_manifest w) = Some 0"
    "ml_deleted_files_count (mw_manifest w) = Some 0" "ml_added_rows_count (mw_manifest w) = Some 0"
    "ml_existing_rows_count (mw_manifest w) = Some 0" "ml_deleted_rows_count (mw_manifest w) = Some 0"
  shows "ml_added_files_count (mw_manifest w') = Some (wrap32 (status_count Added es))
    \<and> ml_existing_files_count (mw_manifest w') = Some (wrap32 (status_count Existing es))
    \<and> ml_deleted_files_count (mw_manifest w') = Some (wrap32 (status_count Deleted es))
    \<and> ml_added_rows_count (mw_manifest w') = Some (wrap64 (sum_list (map added_rows_of es)))
    \<and> ml_existing_rows_count (mw_manifest w') = Some (wrap64 (sum_list (map existing_rows_of es)))
    \<and> ml_deleted_rows_count (mw_manifest w') = Some (wrap64 (sum_list (map deleted_rows_of es)))
    \<and> length (aw_values (mw_writer w')) = length (aw_values (mw_writer w)) + length es"
  using assms(1)
proof (induction es arbitrary: w' rule: rev_induct)
  case Nil
  then show ?case using assms by (simp add: wrap32_def wrap64_def)
next
  case (snoc e es)
  from snoc.prems obtain v where v: "try_fold (ManifestWriter_append io) w es = Ok v"
    "ManifestWriter_append io v e = Ok w'"
    by (auto simp: try_fold_append)
  obtain ps' aw where w': "w' = v\<lparr>mw_manifest := count_entry e (lower_min_sequence (me_sequence_number e)
              ((mw_manifest v)\<lparr>ml_partitions := Some ps'\<rparr>)), mw_writer := aw\<rparr>"
    "append_entry io (mw_writer v) e = Ok aw"
    using ManifestWriter_append_Ok [OF v(2)] by auto
  have "length (aw_values aw) = Suc (length (aw_values (mw_writer v)))"
    using w'(2) by (auto simp: append_entry_def)
  then show ?case
    using snoc.IH [OF v(1)] w'(1)
    by (cases "me_status e") (simp_all add: bump32_def bump64_def wrap32_add wrap64_add)
qed


text \<open>
  A new manifest counts what is appended to it: files by their status, rows of data files
  by their status (equality deletes as deleted), up to the width of the counters, and it holds
  one value per entry.
\<close>

theorem manifest_counts_entries:
  assumes "ManifestWriter_new io location snapshot_id schema tm content = Ok w"
    and "try_fold (ManifestWriter_append io) w es = Ok w'"
  shows "ml_added_files_count (mw_manifest w') = Some (wrap32 (status_count Added es))
    \<and> ml_existing_files_count (mw_manifest w') = Some (wrap32 (status_count Existing es))
    \<and> ml_deleted_files_count (mw_manifest w') = Some (wrap32 (status_count Deleted es))
    \<and> ml_added_rows_count (mw_manifest w') = Some (wrap64 (sum_list (map added_rows_of es)))
    \<and> ml_existing_rows_count (mw_manifest w') = Some (wrap64 (sum_list (map existing_rows_of es)))
    \<and> ml_deleted_rows_count (mw_manifest w') = Some (wrap64 (sum_list (map deleted_rows_of es)))
    \<and> length (aw_values (mw_writer w')) = length es"
proof -
  have w: "w = \<lparr>mw_table_metadata = tm, mw_manifest = new_manifest_entry tm location snapshot_id content,
      mw_writer = (AvroWriter_new schema)\<lparr>aw_user_metadata := aw_user_metadata (mw_writer w)\<rparr>\<rparr>"
    using assms(1) by (auto simp: ManifestWriter_new_def)
  then have "length (aw_values (mw_writer w)) = 0"
    by (metis AvroWriter_new_def avro_writer.select_convs(3) avro_writer.update_convs(2) list.size(3) manifest_writer.select_convs(3))
  then show ?thesis
    using manifest_counts [OF assms(2)] arg_cong [OF w, of mw_manifest]
    by (simp add: new_manifest_entry_def)
qed

text \<open>
  C32. The partition summaries of a new manifest cover the partition values of its entries:
  a null or NaN is announced, every other value lies between the bounds, and the bounds are
  themselves partition values of the manifest. Scans that skip a manifest by its summaries
  skip no row they look for.
\<close>

theorem manifest_summaries_cover_values:
  assumes "ManifestWriter_new io location snapshot_id schema tm content = Ok w"
    and "try_fold (ManifestWriter_append io) w es = Ok w'" and "es \<noteq> []"
    and "default_partition_spec tm = Ok spec"
    and "\<forall>f\<in>set (ps_fields spec). homogeneous (column f es)"
  shows "\<exists>ps. ml_partitions (mw_manifest w') = Some ps \<and> length ps = length (ps_fields spec)
    \<and> (\<forall>i<length ps. summary_of (column (ps_fields spec ! i) es) (ps ! i))"
proof -
  have "ml_partitions (mw_manifest w) = None" "mw_table_metadata w = tm"
    using assms(1) by (auto simp: ManifestWriter_new_def new_manifest_entry_def)
  then show ?thesis
    using appended_summaries [OF assms(2) _ _ assms(5)] assms(3,4) by simp
qed

section \<open>A manifest is read back\<close>

lemma utf8_valid_ascii: "\<forall>n\<in>set ns. n < 128 \<Longrightarrow> utf8_valid ns"
  by (induction ns) auto

lemma digit_value_ascii: "digit_value c \<noteq> None \<Longrightarrow> of_char c < (128 :: nat)"
  by (auto simp: digit_value_def Let_def split: if_splits)

lemma show_int_ascii: "\<forall>n\<in>set (map of_char (show_int x) :: nat list). n < 128"
proof -
  have "\<forall>c\<in>set (show_nat n). of_char c < (128 :: nat)" for n
    using show_nat_digits [of n] digit_value_ascii by (auto simp: is_digit_string_def list_all_iff)
  then show ?thesis by (auto simp: show_int_def)
qed

lemma string_from_utf8_bytes:
  assumes "utf8_valid (map of_char s)" shows "string_from_utf8 (string_bytes s) = Ok s"
  using string_bytes_roundtrip [OF assms] by (auto simp: from_utf8_def string_from_utf8_def split: if_splits)

lemma string_from_utf8_show_int [simp]: "string_from_utf8 (string_bytes (show_int x)) = Ok (show_int x)"
  by (intro string_from_utf8_bytes utf8_valid_ascii show_int_ascii)

lemma parse_i32_show [simp]: "in_i32 x \<Longrightarrow> parse_i32 (show_int x) = Ok x"
proof -
  assume x: "in_i32 x"
  then have "in_i64 x" by (simp add: in_i32_def in_i64_def)
  with x show ?thesis by (simp add: parse_i32_def)
qed

lemma metadata_format_version_text:
  "m ''format-version'' = Some (format_version_text v) \<Longrightarrow> metadata_format_version m = Ok v"
proof -
  assume m: "m ''format-version'' = Some (format_version_text v)"
  have "string_from_utf8 (format_version_text v) = Ok (case v of V1 \<Rightarrow> ''1'' | V2 \<Rightarrow> ''2'' | V3 \<Rightarrow> ''3'')"
    unfolding format_version_text_def
    by (intro string_from_utf8_bytes utf8_valid_ascii) (simp split: format_version.split)
  with m show ?thesis
    by (cases v) (simp_all add: metadata_format_version_def Let_def)
qed

lemma metadata_schema_text:
  assumes "json_laws io" "schema_text io v sch = Ok t" "m ''schema'' = Some t"
  shows "metadata_schema io m v = Ok sch"
  using assms by (cases v) (auto simp: metadata_schema_def schema_text_def json_laws_def)

lemma metadata_spec_text:
  assumes "json_laws io" "in_i32 i" "io_fields_json io fs = Ok t" "io_i32_json io i = Ok u"
    "m ''partition-spec'' = Some t" "m ''partition-spec-id'' = Some u"
  shows "metadata_spec io m = Ok \<lparr>ps_spec_id = i, ps_fields = fs\<rparr>"
proof -
  have "io_parse_fields io t = Ok fs" "u = string_bytes (show_int i)"
    using assms(1,3,4) by (auto simp: json_laws_def)
  with assms(2,5,6) show ?thesis
    by (simp add: metadata_spec_def PartitionSpecBuilder_build_def)
qed

text \<open>The metadata that a writer puts into a manifest is what a reader takes from it.\<close>

lemma table_user_metadata_read:
  assumes json: "json_laws io" and meta: "table_user_metadata io tm content = Ok kvs"
    and sch: "current_schema tm = Ok sch" and spec: "tm_partition_specs tm (tm_default_spec_id tm) = Some spec"
    and ids: "ps_spec_id spec = tm_default_spec_id tm" "in_i32 (tm_default_spec_id tm)"
  shows "metadata_format_version (map_of kvs) = Ok (tm_format_version tm)
    \<and> metadata_schema io (map_of kvs) (tm_format_version tm) = Ok sch
    \<and> metadata_spec io (map_of kvs) = Ok spec"
proof -
  obtain t u f i where kvs: "schema_text io (tm_format_version tm) sch = Ok t"
    "io_i32_json io (sch_schema_id sch) = Ok u" "io_fields_json io (ps_fields spec) = Ok f"
    "io_i32_json io (tm_default_spec_id tm) = Ok i"
    "kvs = [(''format-version'', format_version_text (tm_format_version tm)),
         (''schema'', t), (''schema-id'', u), (''partition-spec'', f),
         (''partition-spec-id'', i), (''content'', content_text content)]"
    using meta sch spec by (auto simp: table_user_metadata_def)
  have "metadata_spec io (map_of kvs) = Ok \<lparr>ps_spec_id = tm_default_spec_id tm, ps_fields = ps_fields spec\<rparr>"
    by (rule metadata_spec_text [OF json ids(2) kvs(3,4)]) (simp_all add: kvs(5))
  moreover have "\<lparr>ps_spec_id = tm_default_spec_id tm, ps_fields = ps_fields spec\<rparr> = spec"
    using ids(1) by simp
  ultimately show ?thesis
    using metadata_format_version_text [of "map_of kvs"] metadata_schema_text [OF json kvs(1), of "map_of kvs"]
    by (simp add: kvs(5))
qed

definition entry_written ::
  "('v, 'b, 's) table_io \<Rightarrow> avro_schema \<Rightarrow> manifest_entry \<Rightarrow> 'v \<Rightarrow> bool" where
  "entry_written io s e v \<longleftrightarrow>
     (\<exists>en. ManifestEntryEnum_from (io_values io) (io_write_orders io (me_data_file e)) e = Ok en
        \<and> io_entry_value io s en = Ok v)"

lemma append_entry_Ok:
  "append_entry io w e = Ok w' \<longleftrightarrow>
   (\<exists>v. entry_written io (aw_schema w) e v \<and> w' = w\<lparr>aw_values := aw_values w @ [v]\<rparr>)"
  by (auto simp: append_entry_def entry_written_def)

lemma appended_values:
  "try_fold (ManifestWriter_append io) w es = Ok w' \<Longrightarrow>
   \<exists>vs. mw_writer w' = (mw_writer w)\<lparr>aw_values := aw_values (mw_writer w) @ vs\<rparr>
     \<and> list_all2 (entry_written io (aw_schema (mw_writer w))) es vs"
proof (induction es arbitrary: w)
  case (Cons e es)
  then obtain v where v: "ManifestWriter_append io w e = Ok v" "try_fold (ManifestWriter_append io) v es = Ok w'"
    by auto
  obtain x where x: "entry_written io (aw_schema (mw_writer w)) e x"
    "mw_writer v = (mw_writer w)\<lparr>aw_values := aw_values (mw_writer w) @ [x]\<rparr>"
    using ManifestWriter_append_Ok [OF v(1)] by (auto simp: append_entry_Ok)
  from Cons.IH [OF v(2)] x obtain vs where
    "mw_writer w' = (mw_writer w)\<lparr>aw_values := aw_values (mw_writer w) @ x # vs\<rparr>"
    "list_all2 (entry_written io (aw_schema (mw_writer w))) es vs"
    by auto
  with x(1) show ?case by (intro exI [of _ "x # vs"]) simp
qed simp

lemma entry_read:
  assumes laws: "avro_laws io" and radix: "radix_spec (vl_to_radix_be (io_values io))"
    and w: "entry_written io s e v" and fv: "me_format_version e = fv"
    and ty: "typed_file (io_write_orders io (me_data_file e)) (io_read_orders io v) sch spec (me_data_file e)"
  shows "avro_value_to_manifest_entry io (Ok v, sch, spec, fv) = Ok (entry_read_back e)"
proof -
  obtain en where en: "ManifestEntryEnum_from (io_values io) (io_write_orders io (me_data_file e)) e = Ok en"
    "io_entry_value io s en = Ok v"
    using w by (auto simp: entry_written_def)
  have read: "ManifestEntry_try_from_enum (io_values io) (io_read_orders io v) en sch spec = Ok (entry_read_back e)"
    using manifest_entry_roundtrip_lemma [OF radix ty] en(1) by simp
  have laws': "\<And>e v. io_entry_value io s (EE_V3 e) = Ok v \<Longrightarrow> io_entry_v3 io v = Ok e"
    "\<And>e v. io_entry_value io s (EE_V2 e) = Ok v \<Longrightarrow> io_entry_v2 io v = Ok e"
    "\<And>e v. io_entry_value io s (EE_V1 e) = Ok v \<Longrightarrow> io_entry_v1 io v = Ok e"
    using laws unfolding avro_laws_def by blast+
  show ?thesis
    using en read laws' fv
    by (cases fv) (auto simp: ManifestEntryEnum_from_def ManifestEntry_try_from_enum_def
        avro_value_to_manifest_entry_def)
qed

lemma new_writer_Ok:
  "ManifestWriter_new io location snapshot_id schema tm content = Ok w \<longleftrightarrow>
   (\<exists>kvs. table_user_metadata io tm content = Ok kvs
     \<and> w = \<lparr>mw_table_metadata = tm, mw_manifest = new_manifest_entry tm location snapshot_id content,
            mw_writer = (AvroWriter_new schema)\<lparr>aw_user_metadata := kvs\<rparr>\<rparr>)"
  by (auto simp: ManifestWriter_new_def)

lemma entries_read:
  assumes "list_all2 (entry_written io s) es vs" "avro_laws io" "radix_spec (vl_to_radix_be (io_values io))"
    and "\<forall>e\<in>set es. me_format_version e = fv"
    and "\<forall>e\<in>set es. \<forall>v. typed_file (io_write_orders io (me_data_file e)) (io_read_orders io v) sch spec (me_data_file e)"
  shows "map (\<lambda>v. avro_value_to_manifest_entry io (v, sch, spec, fv)) (map Ok vs) = map Ok (map entry_read_back es)"
  using assms(1,4,5)
proof (induction rule: list_all2_induct)
  case (Cons e es v vs)
  have "avro_value_to_manifest_entry io (Ok v, sch, spec, fv) = Ok (entry_read_back e)"
    using entry_read [OF assms(2,3) Cons(1)] Cons.prems by simp
  moreover have "map (\<lambda>v. avro_value_to_manifest_entry io (v, sch, spec, fv)) (map Ok vs) = map Ok (map entry_read_back es)"
    using Cons.IH Cons.prems by simp
  ultimately show ?case by simp
qed simp

lemma manifest_file_roundtrip_lemma:
  assumes laws: "avro_laws io" "json_laws io" "radix_spec (vl_to_radix_be (io_values io))"
    and new: "ManifestWriter_new io location snapshot_id schema tm content = Ok w"
    and app: "try_fold (ManifestWriter_append io) w es = Ok w'"
    and fin: "finished_manifest io w' = Ok (m, b)"
    and sch: "current_schema tm = Ok sch" and spec: "tm_partition_specs tm (tm_default_spec_id tm) = Some spec"
    and ids: "ps_spec_id spec = tm_default_spec_id tm" "in_i32 (tm_default_spec_id tm)"
    and fv: "\<forall>e\<in>set es. me_format_version e = tm_format_version tm"
    and ty: "\<forall>e\<in>set es. \<forall>v. typed_file (io_write_orders io (me_data_file e)) (io_read_orders io v) sch spec (me_data_file e)"
  shows "ManifestReader_new io b
    = Ok \<lparr>mr_reader = map Ok (map entry_read_back es), mr_metadata = (sch, spec, tm_format_version tm)\<rparr>"
proof -
  obtain kvs where kvs: "table_user_metadata io tm content = Ok kvs"
    "w = \<lparr>mw_table_metadata = tm, mw_manifest = new_manifest_entry tm location snapshot_id content,
          mw_writer = (AvroWriter_new schema)\<lparr>aw_user_metadata := kvs\<rparr>\<rparr>"
    using new by (auto simp: new_writer_Ok)
  obtain vs where vs: "mw_writer w' = \<lparr>aw_schema = schema, aw_user_metadata = kvs, aw_values = vs\<rparr>"
    "list_all2 (entry_written io schema) es vs"
    using appended_values [OF app] kvs(2) by (auto simp: AvroWriter_new_def)
  have "io_avro_write io (mw_writer w') = Ok b"
    using fin by (auto simp: finished_manifest_def)
  then have "io_avro_read io b = Ok \<lparr>ac_schema = schema, ac_user_metadata = map_of kvs, ac_values = map Ok vs\<rparr>"
    using laws(1) vs(1) by (auto simp: avro_laws_def)
  then show ?thesis
    using table_user_metadata_read [OF laws(2) kvs(1) sch spec ids] entries_read [OF vs(2) laws(1,3) fv ty]
    by (simp add: ManifestReader_new_def Let_def comp_def)
qed


section \<open>What a filtered rewrite does with the entries\<close>

lemma inherit_first_row_id_Ok:
  assumes "inherit_first_row_id c n f = Ok (n', f')"
  obtains r where "f' = f\<lparr>df_first_row_id := r\<rparr>"
proof -
  have "f' = f \<or> (\<exists>r. f' = f\<lparr>df_first_row_id := r\<rparr>)"
    using assms by (auto simp: inherit_first_row_id_def split: if_splits option.splits)
  moreover have "f = f\<lparr>df_first_row_id := df_first_row_id f\<rparr>" by simp
  ultimately show thesis using that by metis
qed

definition live :: "manifest_entry list \<Rightarrow> manifest_entry list" where
  "live es = filter (\<lambda>e. me_status e \<noteq> Deleted) es"

definition kept :: "string set \<Rightarrow> manifest_entry list \<Rightarrow> manifest_entry list" where
  "kept fltr es = filter (\<lambda>e. df_file_path (me_data_file e) \<notin> fltr) (live es)"

definition removed :: "string set \<Rightarrow> manifest_entry list \<Rightarrow> manifest_entry list" where
  "removed fltr es = filter (\<lambda>e. df_file_path (me_data_file e) \<in> fltr) (live es)"

definition rows :: "manifest_entry list \<Rightarrow> int" where
  "rows es = sum_list (map (\<lambda>e. df_record_count (me_data_file e)) es)"

text \<open>What is accounted for after a prefix of the entries.\<close>

definition rewrite_accounts :: "string set \<Rightarrow> i64 \<Rightarrow> bool \<Rightarrow> manifest_entry list \<Rightarrow> 'v rewrite_state \<Rightarrow> bool" where
  "rewrite_accounts fltr snapshot_id old_spec es s \<longleftrightarrow>
     rw_existing_files s = wrap32 (int (length (kept fltr es)))
     \<and> rw_existing_rows s = wrap64 (rows (kept fltr es))
     \<and> fms_removed_data_files (rw_filtered_stats s) = wrap32 (int (length (removed fltr es)))
     \<and> length (aw_values (rw_writer s)) = length (kept fltr es) + (if old_spec then length (removed fltr es) else 0)
     \<and> rw_deleted_files s = (if old_spec then wrap32 (int (length (removed fltr es))) else 0)
     \<and> rw_deleted_rows s = (if old_spec then wrap64 (rows (removed fltr es)) else 0)
     \<and> map (df_file_path \<circ> me_data_file) (fms_filtered_entries (rw_filtered_stats s))
       = (if old_spec then [] else map (df_file_path \<circ> me_data_file) (removed fltr es))
     \<and> (\<forall>e\<in>set (fms_filtered_entries (rw_filtered_stats s)). me_status e = Deleted \<and> me_snapshot_id e = Some snapshot_id)"

lemma write_rewritten_entry_Ok:
  assumes "write_rewritten_entry io spec ts s e = Ok s'"
  obtains ps w where "s' = s\<lparr>rw_partitions := ps, rw_writer := w\<rparr>"
    "length (aw_values w) = Suc (length (aw_values (rw_writer s)))"
proof -
  obtain ps f w where "append_entry io (rw_writer s) (e\<lparr>me_data_file := f\<rparr>) = Ok w"
    "s' = s\<lparr>rw_partitions := ps, rw_writer := w\<rparr>"
    using assms by (auto simp: write_rewritten_entry_def simp del: append_entry_Ok)
  then show thesis using that by (auto simp: append_entry_Ok)
qed

lemma keep_entry_Ok:
  assumes "keep_entry io spec ts s e = Ok s'"
  shows "rw_existing_files s' = wrap32 (rw_existing_files s + 1)
    \<and> rw_existing_rows s' = wrap64 (rw_existing_rows s + df_record_count (me_data_file e))
    \<and> rw_deleted_files s' = rw_deleted_files s \<and> rw_deleted_rows s' = rw_deleted_rows s
    \<and> rw_filtered_stats s' = rw_filtered_stats s
    \<and> length (aw_values (rw_writer s')) = Suc (length (aw_values (rw_writer s)))"
  using assms unfolding keep_entry_def by (rule write_rewritten_entry_Ok) simp

lemma remove_entry_Ok:
  assumes "remove_entry io snapshot_id old_spec spec ts s e = Ok s'"
  shows "rw_existing_files s' = rw_existing_files s \<and> rw_existing_rows s' = rw_existing_rows s
    \<and> rw_deleted_files s' = (if old_spec then wrap32 (rw_deleted_files s + 1) else rw_deleted_files s)
    \<and> rw_deleted_rows s' = (if old_spec then wrap64 (rw_deleted_rows s + df_record_count (me_data_file e)) else rw_deleted_rows s)
    \<and> fms_removed_data_files (rw_filtered_stats s') = wrap32 (fms_removed_data_files (rw_filtered_stats s) + 1)
    \<and> fms_filtered_entries (rw_filtered_stats s') = fms_filtered_entries (rw_filtered_stats s)
        @ (if old_spec then [] else [e\<lparr>me_status := Deleted, me_snapshot_id := Some snapshot_id\<rparr>])
    \<and> length (aw_values (rw_writer s')) = length (aw_values (rw_writer s)) + (if old_spec then 1 else 0)"
proof (cases old_spec)
  case True
  with assms show ?thesis
    unfolding remove_entry_def Let_def if_P [OF True]
    by (elim write_rewritten_entry_Ok) (simp add: count_removed_def)
next
  case False
  with assms show ?thesis
    by (auto simp: remove_entry_def Let_def count_removed_def)
qed

lemma inherit_from_manifest_simps [simp]:
  "me_data_file (inherit_from_manifest n i e) = me_data_file e"
  "me_status (inherit_from_manifest n i e) = me_status e"
  by (simp_all add: inherit_from_manifest_def)

lemma live_snoc:
  "kept fltr (es @ [e]) = kept fltr es
     @ (if me_status e \<noteq> Deleted \<and> df_file_path (me_data_file e) \<notin> fltr then [e] else [])"
  "removed fltr (es @ [e]) = removed fltr es
     @ (if me_status e \<noteq> Deleted \<and> df_file_path (me_data_file e) \<in> fltr then [e] else [])"
  by (simp_all add: kept_def removed_def live_def)

lemma rows_simps [simp]: "rows [] = 0" "rows (es @ [e]) = rows es + df_record_count (me_data_file e)"
  by (simp_all add: rows_def)

lemma filter_step_accounts:
  assumes st: "filter_step io tm manifest fltr snapshot_id old_spec spec ts s (Ok e) = Ok s'"
    and acc: "rewrite_accounts fltr snapshot_id old_spec es s"
  shows "rewrite_accounts fltr snapshot_id old_spec (es @ [e]) s'"
proof (cases "me_status e = Deleted")
  case True
  with st acc show ?thesis
    by (simp add: filter_step_def rewrite_accounts_def live_snoc)
next
  case live: False
  obtain n f where f: "inherit_first_row_id (ml_content manifest) (rw_next_inherited_row_id s) (me_data_file e) = Ok (n, f)"
    using st live by (auto simp: filter_step_def)
  define t where "t = s\<lparr>rw_next_inherited_row_id := n\<rparr>"
  define e' where "e' = inherit_from_manifest (ml_sequence_number manifest) (ml_added_snapshot_id manifest)
                  (e\<lparr>me_data_file := f, me_format_version := tm_format_version tm\<rparr>)"
  obtain r where "f = (me_data_file e)\<lparr>df_first_row_id := r\<rparr>"
    using f by (rule inherit_first_row_id_Ok)
  then have e': "df_file_path (me_data_file e') = df_file_path (me_data_file e)"
    "df_record_count (me_data_file e') = df_record_count (me_data_file e)" "df_file_path f = df_file_path (me_data_file e)"
    by (simp_all add: e'_def)
  have acc': "rewrite_accounts fltr snapshot_id old_spec es t"
    using acc by (simp add: rewrite_accounts_def t_def)
  show ?thesis
  proof (cases "df_file_path (me_data_file e) \<in> fltr")
    case True
    then have "remove_entry io snapshot_id old_spec spec ts t e' = Ok s'"
      using st live f e' by (simp add: filter_step_def t_def e'_def Let_def)
    from remove_entry_Ok [OF this] acc' live True e' show ?thesis
      by (simp add: rewrite_accounts_def live_snoc wrap32_add wrap64_add add.commute [of 1])
  next
    case False
    then have "keep_entry io spec ts t e' = Ok s'"
      using st live f e' by (simp add: filter_step_def t_def e'_def Let_def)
    from keep_entry_Ok [OF this] acc' live False e' show ?thesis
      by (simp add: rewrite_accounts_def live_snoc wrap32_add wrap64_add add.commute [of 1])
  qed
qed

lemma filter_fold_accounts:
  "try_fold (filter_step io tm manifest fltr snapshot_id old_spec spec ts) s (map Ok es) = Ok s' \<Longrightarrow>
   rewrite_accounts fltr snapshot_id old_spec [] s \<Longrightarrow> rewrite_accounts fltr snapshot_id old_spec es s'"
proof (induction es arbitrary: s' rule: rev_induct)
  case (snoc e es)
  then show ?case by (auto simp: try_fold_append intro: filter_step_accounts)
qed simp


section \<open>Concrete manifests\<close>

lemma sample_entry_encodes:
  "\<exists>en. ManifestEntryEnum_from sample_lib \<lparr>bo_lower = [1], bo_upper = [1]\<rparr> (sample_entry v n) = Ok en"
proof -
  have "typed_file \<lparr>bo_lower = [1], bo_upper = [1]\<rparr> \<lparr>bo_lower = [1], bo_upper = [1]\<rparr>
     sample_schema sample_spec (me_data_file (sample_entry v n))"
    by (simp add: sample_entry_def sample_file_typed)
  from manifest_entry_roundtrip_lemma [OF sample_radix this] show ?thesis by auto
qed

lemma sample_region [simp]:
  "Struct_get (df_partition (sample_file n)) ''region'' = Some (Some (VString ''eu''))"
  by (simp add: sample_file_def Struct_get_def Struct_from_iter_def)

lemma sample_io_simps [simp]:
  "io_values sample_io = sample_lib" "io_i32_json sample_io i = Ok (string_bytes (show_int i))"
  "io_schema_v2_json sample_io (SchemaV2_from sample_schema) = Ok [2]"
  "io_fields_json sample_io (ps_fields sample_spec) = Ok [3]"
  "io_entry_value sample_io s e = Ok (Inr e)" "io_list_value sample_io s l = Ok (Inl l)"
  "io_write_orders sample_io f = \<lparr>bo_lower = [1], bo_upper = [1]\<rparr>"
  "io_read_orders sample_io x = \<lparr>bo_lower = [1], bo_upper = [1]\<rparr>"
  "io_avro_write sample_io w = Ok w" "io_strip_prefix sample_io p = p"
  "io_put sample_io st p b = Ok (st(p \<mapsto> b))" "io_get sample_io st p = ok_or (ObjectStore p) (st p)"
  by (simp_all add: sample_io_def)

lemma sample_spec_fields [simp]:
  "ps_fields sample_spec = [\<lparr>pf_source_id = 2, pf_field_id = 1000, pf_name = ''region'', pf_transform = Identity\<rparr>]"
  "ps_spec_id sample_spec = 0"
  by (simp_all add: sample_spec_def)

lemma sample_fields_json [simp]:
  "io_fields_json sample_io [\<lparr>pf_source_id = 2, pf_field_id = 1000, pf_name = ''region'', pf_transform = Identity\<rparr>] = Ok [3]"
  using sample_io_simps(4) by simp

text \<open>A manifest of two added files.\<close>

lemma sample_manifest:
  obtains w w' m b where
    "ManifestWriter_new sample_io ''m'' 9 (AvroRecord [] '''') (sample_part_table V3) ContentData = Ok w"
    "try_fold (ManifestWriter_append sample_io) w [sample_entry V3 5, sample_entry V3 7] = Ok w'"
    "finished_manifest sample_io w' = Ok (m, b)"
proof -
  obtain e1 e2 where e: "ManifestEntryEnum_from sample_lib \<lparr>bo_lower = [1], bo_upper = [1]\<rparr> (sample_entry V3 5) = Ok e1"
    "ManifestEntryEnum_from sample_lib \<lparr>bo_lower = [1], bo_upper = [1]\<rparr> (sample_entry V3 7) = Ok e2"
    using sample_entry_encodes by blast
  obtain w where w: "ManifestWriter_new sample_io ''m'' 9 (AvroRecord [] '''') (sample_part_table V3) ContentData = Ok w"
    "mw_table_metadata w = sample_part_table V3" "ml_partitions (mw_manifest w) = None"
    by (auto simp: ManifestWriter_new_def table_user_metadata_def schema_text_def new_manifest_entry_def)
  have region: "Struct_get (df_partition (me_data_file (sample_entry V3 n))) ''region'' = Some (Some (VString ''eu''))" for n
    by (simp add: sample_entry_def)
  obtain v where v: "ManifestWriter_append sample_io w (sample_entry V3 5) = Ok v"
    "mw_table_metadata v = sample_part_table V3" "\<exists>s. ml_partitions (mw_manifest v) = Some [s]"
    using w e region by (auto simp: ManifestWriter_append_def append_entry_def)
  obtain w' where w': "ManifestWriter_append sample_io v (sample_entry V3 7) = Ok w'"
    using v e region by (auto simp: ManifestWriter_append_def append_entry_def)
  show thesis
    by (rule that [OF w(1)]) (use v(1) w' in \<open>auto simp: finished_manifest_def\<close>)
qed

theorem manifest_counts_entries_witness:
  "\<exists>w w'. ManifestWriter_new sample_io ''m'' 9 (AvroRecord [] '''') (sample_part_table V3) ContentData = Ok w
    \<and> try_fold (ManifestWriter_append sample_io) w [sample_entry V3 5, sample_entry V3 7] = Ok w'
    \<and> ml_added_files_count (mw_manifest w') = Some 2 \<and> ml_added_rows_count (mw_manifest w') = Some 12"
proof -
  obtain w w' where w: "ManifestWriter_new sample_io ''m'' 9 (AvroRecord [] '''') (sample_part_table V3) ContentData = Ok w"
    "try_fold (ManifestWriter_append sample_io) w [sample_entry V3 5, sample_entry V3 7] = Ok w'"
    by (rule sample_manifest)
  from manifest_counts_entries [OF this] w show ?thesis
    by (auto simp: sample_entry_def sample_file_def status_count_def added_rows_of_def wrap32_def wrap64_def)
qed

theorem manifest_summaries_cover_values_witness:
  "\<exists>w w' s. ManifestWriter_new sample_io ''m'' 9 (AvroRecord [] '''') (sample_part_table V3) ContentData = Ok w
    \<and> try_fold (ManifestWriter_append sample_io) w [sample_entry V3 5, sample_entry V3 7] = Ok w'
    \<and> ml_partitions (mw_manifest w') = Some [s] \<and> covers s (Some (VString ''eu''))"
proof -
  obtain w w' where w: "ManifestWriter_new sample_io ''m'' 9 (AvroRecord [] '''') (sample_part_table V3) ContentData = Ok w"
    "try_fold (ManifestWriter_append sample_io) w [sample_entry V3 5, sample_entry V3 7] = Ok w'"
    by (rule sample_manifest)
  have c: "column f [sample_entry V3 5, sample_entry V3 7] = [Some (VString ''eu''), Some (VString ''eu'')]"
    if "f \<in> set (ps_fields sample_spec)" for f
    using that by (auto simp: column_def sample_entry_def)
  have hom: "\<forall>f\<in>set (ps_fields sample_spec). homogeneous (column f [sample_entry V3 5, sample_entry V3 7])"
    using c by (auto simp: homogeneous_def same_kind_def same_scalar_def)
  obtain ps where "ml_partitions (mw_manifest w') = Some ps" "length ps = 1"
    "summary_of [Some (VString ''eu''), Some (VString ''eu'')] (ps ! 0)"
    using manifest_summaries_cover_values [OF w _ sample_part_table_simps(3) hom] c by auto
  with w show ?thesis by (auto simp: summary_of_def length_Suc_conv)
qed

lemma sample_manifest_read:
  obtains b where "ManifestReader_new sample_io b
    = Ok \<lparr>mr_reader = map Ok [sample_entry V3 5, sample_entry V3 7], mr_metadata = (sample_schema, sample_spec, V3)\<rparr>"
proof -
  obtain w w' m b where w: "ManifestWriter_new sample_io ''m'' 9 (AvroRecord [] '''') (sample_part_table V3) ContentData = Ok w"
    "try_fold (ManifestWriter_append sample_io) w [sample_entry V3 5, sample_entry V3 7] = Ok w'"
    "finished_manifest sample_io w' = Ok (m, b)"
    by (rule sample_manifest)
  have "ManifestReader_new sample_io b
     = Ok \<lparr>mr_reader = map Ok (map entry_read_back [sample_entry V3 5, sample_entry V3 7]),
           mr_metadata = (sample_schema, sample_spec, tm_format_version (sample_part_table V3))\<rparr>"
    by (rule manifest_file_roundtrip_lemma [OF sample_io_laws(1,2) _ w])
      (auto simp: sample_radix in_i32_def sample_entry_def sample_file_typed)
  then show thesis using that by (auto simp: entry_read_back_def sample_entry_def sample_file_def)
qed



end
