(* ===== verification/Manifest_Cache.thy ===== *)
theory Manifest_Cache
  imports Table_Io
begin

text \<open>
  The process-wide cache of manifest bytes (\<open>iceberg-rust/src/util/manifest_cache.rs\<close>): least
  recently used entries are evicted until the cached bytes fit the cap. The LRU map is a
  parameter; its documented behaviour is stated over a view, the list of its entries with the
  least recently used one first. The mutex is not modelled: the operations are the critical
  sections.
\<close>

section \<open>The LRU map\<close>

record ('c, 'b) lru =
  lru_get :: "'c \<Rightarrow> string \<Rightarrow> 'b option \<times> 'c"
  lru_put :: "'c \<Rightarrow> string \<Rightarrow> 'b \<Rightarrow> 'b option \<times> 'c"
  lru_pop :: "'c \<Rightarrow> (string \<times> 'b) option \<times> 'c"

text \<open>The entries without a key.\<close>

definition without :: "string \<Rightarrow> (string \<times> 'b) list \<Rightarrow> (string \<times> 'b) list" where
  "without k es = filter (\<lambda>e. fst e \<noteq> k) es"

definition lru_laws :: "('c, 'b) lru \<Rightarrow> ('c \<Rightarrow> (string \<times> 'b) list) \<Rightarrow> bool" where
  "lru_laws l view \<longleftrightarrow>
     (\<forall>c. distinct (map fst (view c)))
     \<and> (\<forall>c k. fst (lru_get l c k) = map_of (view c) k
          \<and> view (snd (lru_get l c k))
            = (case map_of (view c) k of None \<Rightarrow> view c | Some b \<Rightarrow> without k (view c) @ [(k, b)]))
     \<and> (\<forall>c k b. fst (lru_put l c k b) = map_of (view c) k
          \<and> view (snd (lru_put l c k b)) = without k (view c) @ [(k, b)])
     \<and> (\<forall>c. fst (lru_pop l c) = (case view c of [] \<Rightarrow> None | e # es \<Rightarrow> Some e)
          \<and> view (snd (lru_pop l c)) = (case view c of [] \<Rightarrow> [] | e # es \<Rightarrow> es))"

lemma lru_lawsD:
  assumes "lru_laws l view"
  shows "distinct (map fst (view c))" "fst (lru_get l c k) = map_of (view c) k"
    "view (snd (lru_put l c k b)) = without k (view c) @ [(k, b)]"
  using assms unfolding lru_laws_def by blast+

section \<open>The cache\<close>

record 'c byte_capped_cache =
  bc_entries :: 'c
  bc_total_bytes :: nat
  bc_cap_bytes :: nat

definition DEFAULT_CAP_MB :: nat where
  "DEFAULT_CAP_MB = 128"

text \<open>
  The value of \<open>ICEBERG_MANIFEST_CACHE_MB\<close>, if it is set and a number, gives the capacity; zero
  disables the cache. The argument is the parsed value; multiplication saturates at \<open>usize::MAX\<close>.
\<close>

definition CACHE :: "'c \<Rightarrow> nat option \<Rightarrow> 'c byte_capped_cache option" where
  "CACHE unbounded cap_mb =
     (let mb = (case cap_mb of Some n \<Rightarrow> n | None \<Rightarrow> DEFAULT_CAP_MB)
      in if mb = 0 then None
         else Some \<lparr>bc_entries = unbounded, bc_total_bytes = 0,
                    bc_cap_bytes = min (mb * (1024 * 1024)) (2 ^ 64 - 1)\<rparr>)"

definition cache_get ::
  "('c, 'b) lru \<Rightarrow> 'c byte_capped_cache option \<Rightarrow> string \<Rightarrow> 'b option \<times> 'c byte_capped_cache option" where
  "cache_get l cache path =
     (case cache of
        None \<Rightarrow> (None, None)
      | Some c \<Rightarrow> let (b, entries) = lru_get l (bc_entries c) path
                 in (b, Some (c\<lparr>bc_entries := entries\<rparr>)))"

text \<open>
  The loop that evicts. It is not structural: that it ends is a property of the LRU map.
\<close>

partial_function (option) evict ::
  "('c, 'b) lru \<Rightarrow> ('b \<Rightarrow> nat) \<Rightarrow> 'c byte_capped_cache \<Rightarrow> 'c byte_capped_cache option" where
  "evict l len c =
     (if bc_total_bytes c \<le> bc_cap_bytes c then Some c
      else case lru_pop l (bc_entries c) of
             (None, entries) \<Rightarrow> Some (c\<lparr>bc_entries := entries\<rparr>)
           | (Some (k, b), entries) \<Rightarrow>
               evict l len (c\<lparr>bc_entries := entries, bc_total_bytes := bc_total_bytes c - len b\<rparr>))"

definition cache_put ::
  "('c, 'b) lru \<Rightarrow> ('b \<Rightarrow> nat) \<Rightarrow> 'c byte_capped_cache option \<Rightarrow> string \<Rightarrow> 'b
   \<Rightarrow> 'c byte_capped_cache option option" where
  "cache_put l len cache path bytes =
     (case cache of
        None \<Rightarrow> Some None
      | Some c \<Rightarrow>
          if len bytes > bc_cap_bytes c then Some (Some c)
          else let (previous, entries) = lru_put l (bc_entries c) path bytes;
                   total = (case previous of Some p \<Rightarrow> bc_total_bytes c - len p | None \<Rightarrow> bc_total_bytes c)
               in map_option Some (evict l len (c\<lparr>bc_entries := entries, bc_total_bytes := total + len bytes\<rparr>)))"

section \<open>The cap holds\<close>

text \<open>The bytes of the entries, and the invariant of the cache.\<close>

definition bytes_of :: "('b \<Rightarrow> nat) \<Rightarrow> (string \<times> 'b) list \<Rightarrow> nat" where
  "bytes_of len es = sum_list (map (\<lambda>(_, b). len b) es)"

lemma bytes_of_simps [simp]:
  "bytes_of len [] = 0" "bytes_of len (e # es) = len (snd e) + bytes_of len es"
  "bytes_of len (es @ fs) = bytes_of len es + bytes_of len fs"
  by (auto simp: bytes_of_def split: prod.splits)

lemma without_Cons: "without k ((k', b) # es) = (if k' = k then without k es else (k', b) # without k es)"
  by (simp add: without_def)

lemma without_absent: "k \<notin> fst ` set es \<Longrightarrow> without k es = es"
  unfolding without_def by (intro filter_True ballI) (metis imageI)

lemma bytes_of_without:
  "distinct (map fst es) \<Longrightarrow>
   bytes_of len es = bytes_of len (without k es) + (case map_of es k of Some b \<Rightarrow> len b | None \<Rightarrow> 0)"
proof (induction es)
  case (Cons e es)
  obtain k' b where e: "e = (k', b)" by (cases e)
  show ?case
  proof (cases "k' = k")
    case True
    with Cons.prems e have "without k es = es" by (intro without_absent) simp
    with True e show ?thesis by (simp add: without_Cons)
  next
    case False
    with Cons e show ?thesis by (simp add: without_Cons)
  qed
qed (simp add: without_def)

definition accounted :: "('c \<Rightarrow> (string \<times> 'b) list) \<Rightarrow> ('b \<Rightarrow> nat) \<Rightarrow> 'c byte_capped_cache \<Rightarrow> bool" where
  "accounted view len c \<longleftrightarrow> bc_total_bytes c = bytes_of len (view (bc_entries c))"

definition cache_inv :: "('c \<Rightarrow> (string \<times> 'b) list) \<Rightarrow> ('b \<Rightarrow> nat) \<Rightarrow> 'c byte_capped_cache option \<Rightarrow> bool" where
  "cache_inv view len cache \<longleftrightarrow>
     (\<forall>c. cache = Some c \<longrightarrow> accounted view len c \<and> bc_total_bytes c \<le> bc_cap_bytes c)"

text \<open>Eviction ends; it removes a prefix of the entries, and no more than it must.\<close>

lemma evict_ends:
  assumes laws: "lru_laws l view" and acc: "accounted view len c"
  shows "\<exists>c' n. evict l len c = Some c' \<and> accounted view len c' \<and> bc_cap_bytes c' = bc_cap_bytes c
    \<and> bc_total_bytes c' \<le> bc_cap_bytes c \<and> view (bc_entries c') = drop n (view (bc_entries c))
    \<and> (\<forall>m<n. bc_cap_bytes c < bytes_of len (drop m (view (bc_entries c))))"
  using acc
proof (induction "view (bc_entries c)" arbitrary: c)
  case Nil
  have "bc_total_bytes c = 0" using Nil by (simp add: accounted_def)
  with Nil show ?case
    by (subst evict.simps) (auto intro!: exI [of _ 0] simp: accounted_def)
next
  case (Cons e es)
  show ?case
  proof (cases "bc_total_bytes c \<le> bc_cap_bytes c")
    case True
    with Cons show ?thesis
      by (subst evict.simps) (auto intro!: exI [of _ 0])
  next
    case False
    define d where "d = c\<lparr>bc_entries := snd (lru_pop l (bc_entries c)),
      bc_total_bytes := bc_total_bytes c - len (snd e)\<rparr>"
    have pop: "fst (lru_pop l (bc_entries c)) = Some e" "view (snd (lru_pop l (bc_entries c))) = es"
      using laws Cons.hyps(2) [symmetric] by (simp_all add: lru_laws_def)
    have "evict l len c = evict l len d"
      using False pop(1) by (subst evict.simps) (auto simp: d_def split: prod.splits option.splits)
    moreover have "accounted view len d" "es = view (bc_entries d)"
      using Cons.prems Cons.hyps(2) [symmetric] pop(2) by (auto simp: accounted_def d_def)
    ultimately obtain c' n where c': "evict l len c = Some c'" "accounted view len c'"
      "bc_cap_bytes c' = bc_cap_bytes d" "bc_total_bytes c' \<le> bc_cap_bytes d"
      "view (bc_entries c') = drop n es" "\<forall>m<n. bc_cap_bytes d < bytes_of len (drop m es)"
      using Cons.hyps(1) [of d] by auto
    have "bc_cap_bytes c < bytes_of len (e # es)"
      using False Cons.prems Cons.hyps(2) by (simp add: accounted_def del: bytes_of_simps)
    then have "\<forall>m<Suc n. bc_cap_bytes c < bytes_of len (drop m (e # es))"
      using c'(6) by (auto simp: less_Suc_eq_0_disj d_def)
    moreover have "view (bc_entries c') = drop (Suc n) (e # es)" using c'(5) by simp
    ultimately show ?thesis
      using c'(1-4) Cons.hyps(2) by (intro exI [of _ c'] exI [of _ "Suc n"]) (simp add: d_def)
  qed
qed

lemma get_keeps_bytes:
  assumes "lru_laws l view"
  shows "bytes_of len (view (snd (lru_get l c k))) = bytes_of len (view c)"
proof -
  have "distinct (map fst (view c))" "view (snd (lru_get l c k))
      = (case map_of (view c) k of None \<Rightarrow> view c | Some b \<Rightarrow> without k (view c) @ [(k, b)])"
    using assms by (simp_all add: lru_laws_def)
  then show ?thesis
    using bytes_of_without [of "view c" len k] by (auto split: option.splits)
qed

lemma put_bytes:
  assumes "lru_laws l view" "bc_total_bytes c = bytes_of len (view (bc_entries c))"
  shows "bytes_of len (view (snd (lru_put l (bc_entries c) k b)))
    = (case fst (lru_put l (bc_entries c) k b) of Some p \<Rightarrow> bc_total_bytes c - len p | None \<Rightarrow> bc_total_bytes c) + len b"
proof -
  have "distinct (map fst (view (bc_entries c)))" "view (snd (lru_put l (bc_entries c) k b)) = without k (view (bc_entries c)) @ [(k, b)]"
    "fst (lru_put l (bc_entries c) k b) = map_of (view (bc_entries c)) k"
    using assms by (simp_all add: lru_laws_def)
  then show ?thesis
    using bytes_of_without [of "view (bc_entries c)" len k] assms(2) by (auto split: option.splits)
qed

lemma map_of_last: "distinct (map fst es) \<Longrightarrow> n < length es \<Longrightarrow> last es = (k, b) \<Longrightarrow> map_of (drop n es) k = Some b"
proof -
  assume a: "distinct (map fst es)" "n < length es" "last es = (k, b)"
  then have "(k, b) \<in> set (drop n es)" by (metis drop_eq_Nil last_drop last_in_set not_le)
  moreover have "distinct (map fst (drop n es))" using a(1) by (simp add: drop_map distinct_drop flip: drop_map)
  ultimately show ?thesis by simp
qed

text \<open>
  C35. Putting a file into the cache ends. Afterwards the byte count is the sum of the cached
  files and within the cap, and a file that fits the cap is found under its path; looking it
  up keeps the cache within its cap.
\<close>

theorem cache_put_ends_within_cap:
  assumes laws: "lru_laws l view" and inv: "cache_inv view len cache"
  shows "\<exists>cache'. cache_put l len cache path bytes = Some cache' \<and> cache_inv view len cache'
    \<and> cache_inv view len (snd (cache_get l cache' p))
    \<and> (\<forall>c. cache = Some c \<and> len bytes \<le> bc_cap_bytes c \<longrightarrow> fst (cache_get l cache' path) = Some bytes)"
proof -
  have get: "cache_inv view len (snd (cache_get l d p))" if "cache_inv view len d" for d
    using that get_keeps_bytes [OF laws, of len]
    by (auto simp: cache_inv_def cache_get_def accounted_def split: option.split prod.split)
      (metis snd_conv)+
  show ?thesis
  proof (cases "\<exists>c. cache = Some c \<and> len bytes \<le> bc_cap_bytes c")
    case False
    with inv get [OF inv] show ?thesis
      by (cases cache) (auto simp: cache_put_def)
  next
    case True
    then obtain c where c: "cache = Some c" "len bytes \<le> bc_cap_bytes c" by blast
    define d where "d = c\<lparr>bc_entries := snd (lru_put l (bc_entries c) path bytes),
      bc_total_bytes := (case fst (lru_put l (bc_entries c) path bytes) of
         Some p \<Rightarrow> bc_total_bytes c - len p | None \<Rightarrow> bc_total_bytes c) + len bytes\<rparr>"
    have "accounted view len d"
      using put_bytes [OF laws, of c len path bytes] inv c(1) by (simp add: accounted_def cache_inv_def d_def)
    from evict_ends [OF laws this] obtain e n where e: "evict l len d = Some e" "accounted view len e"
      "bc_total_bytes e \<le> bc_cap_bytes d" "bc_cap_bytes e = bc_cap_bytes d"
      "view (bc_entries e) = drop n (view (bc_entries d))"
      "\<forall>m<n. bc_cap_bytes d < bytes_of len (drop m (view (bc_entries d)))"
      by auto
    have put: "cache_put l len cache path bytes = Some (Some e)"
      using c e(1) by (cases "lru_put l (bc_entries c) path bytes") (simp add: cache_put_def d_def)
    let ?v = "view (bc_entries d)"
    have v: "?v = without path (view (bc_entries c)) @ [(path, bytes)]"
      using lru_lawsD(3) [OF laws, of "bc_entries c" path bytes] by (simp add: d_def)
    have dist: "distinct (map fst ?v)" by (rule lru_lawsD(1) [OF laws])
    have "n < length ?v"
    proof (rule ccontr)
      assume "\<not> n < length ?v"
      then have "length ?v - 1 < n" using v by (cases "length ?v") auto
      then have "bc_cap_bytes d < bytes_of len (drop (length ?v - 1) ?v)" using e(6) by blast
      then show False using v c(2) by (simp add: d_def)
    qed
    then have "map_of (view (bc_entries e)) path = Some bytes"
      using map_of_last [OF dist, of n path bytes] v e(5) by simp
    then have "fst (cache_get l (Some e) path) = Some bytes"
      using lru_lawsD(2) [OF laws, of "bc_entries e" path]
      by (cases "lru_get l (bc_entries e) path") (simp add: cache_get_def)
    moreover have inv': "cache_inv view len (Some e)" using e by (simp add: cache_inv_def)
    ultimately show ?thesis using put get [OF inv'] by auto
  qed
qed

text \<open>An LRU map on lists, and a cache of two files of three bytes with a cap of five.\<close>

definition list_view :: "(string \<times> nat) list \<Rightarrow> (string \<times> nat) list" where
  "list_view c = (if distinct (map fst c) then c else [])"

definition sample_lru :: "((string \<times> nat) list, nat) lru" where
  "sample_lru =
     \<lparr>lru_get = (\<lambda>c k. (map_of (list_view c) k,
        case map_of (list_view c) k of None \<Rightarrow> list_view c | Some b \<Rightarrow> without k (list_view c) @ [(k, b)])),
      lru_put = (\<lambda>c k b. (map_of (list_view c) k, without k (list_view c) @ [(k, b)])),
      lru_pop = (\<lambda>c. case list_view c of [] \<Rightarrow> (None, []) | e # es \<Rightarrow> (Some e, es))\<rparr>"

lemma distinct_without: "distinct (map fst es) \<Longrightarrow> distinct (map fst (without k es @ [(k, b)]))"
  by (auto simp: without_def distinct_map inj_on_def)

lemma sample_lru_laws: "lru_laws sample_lru list_view"
proof -
  have d: "distinct (map fst (list_view c))" for c by (simp add: list_view_def)
  have v: "list_view es = es" if "distinct (map fst es)" for es using that by (simp add: list_view_def)
  have "list_view es = es" if "list_view c = e # es" for c e es
    using d [of c] that v by simp
  then show ?thesis
    using d v distinct_without [OF d]
    by (auto simp: lru_laws_def sample_lru_def split: option.split list.split)
qed

theorem cache_put_ends_within_cap_witness:
  "\<exists>c. cache_put sample_lru id (Some \<lparr>bc_entries = [(''a'', 3)], bc_total_bytes = 3, bc_cap_bytes = 5\<rparr>) ''b'' 3 = Some c
     \<and> fst (cache_get sample_lru c ''b'') = Some 3 \<and> cache_inv list_view id c"
proof -
  have "cache_inv list_view id (Some \<lparr>bc_entries = [(''a'', 3)], bc_total_bytes = 3, bc_cap_bytes = 5\<rparr>)"
    by (simp add: cache_inv_def accounted_def list_view_def)
  from cache_put_ends_within_cap [OF sample_lru_laws this, of "''b''" 3] show ?thesis by auto
qed

end
