(* ===== verification/Manifest_List_Io.thy ===== *)
theory Manifest_List_Io
  imports Manifest_Writer Manifest_Cache
begin

text \<open>
  Reading manifest lists and adding manifests to them
  (\<open>iceberg-rust/src/table/manifest_list.rs\<close>, first part): the format of a list and its
  reader, the completion of the counts of a V1 list, the bounds of a snapshot, which manifests
  may be rewritten, and \<open>append_manifest\<close> with the assignment of first row ids.
\<close>

section \<open>Which manifests may be rewritten\<close>

record manifest_rewrite_compatibility =
  mrc_current_spec_id :: i32
  mrc_compatible_schema_ids :: "i32 \<rightharpoonup> bool"
  mrc_partition_types :: "ice_type list"

definition Compatibility_new :: "table_metadata \<Rightarrow> (manifest_rewrite_compatibility, error) outcome" where
  "Compatibility_new metadata =
     rbind (map_err Iceberg (default_partition_spec metadata)) (\<lambda>spec.
     rbind (map_err Iceberg (current_schema metadata)) (\<lambda>schema.
     rbind (map_err Iceberg (data_types spec (sch_fields schema))) (\<lambda>partition_types.
     Ok \<lparr>mrc_current_spec_id = tm_default_spec_id metadata,
         mrc_compatible_schema_ids = Map.empty,
         mrc_partition_types = partition_types\<rparr>)))"

text \<open>Whether a schema gives the current spec the current partition types.\<close>

definition schema_compatible ::
  "manifest_rewrite_compatibility \<Rightarrow> table_metadata \<Rightarrow> schema \<Rightarrow> (bool, error) outcome" where
  "schema_compatible c metadata schema =
     (case tm_partition_specs metadata (mrc_current_spec_id c) of
        None \<Rightarrow> Ok False
      | Some spec \<Rightarrow>
          (case data_types spec (sch_fields schema) of
             Ok types \<Rightarrow> Ok (types = mrc_partition_types c)
           | Err _ \<Rightarrow> Ok False
           | Panic s \<Rightarrow> Panic s))"

definition Compatibility_allows ::
  "manifest_rewrite_compatibility \<Rightarrow> manifest_list_entry \<Rightarrow> table_metadata
   \<Rightarrow> (bool \<times> manifest_rewrite_compatibility, error) outcome" where
  "Compatibility_allows c manifest metadata =
     (if ml_partition_spec_id manifest \<noteq> mrc_current_spec_id c then Ok (False, c)
      else case Option.bind (tm_snapshots metadata (ml_added_snapshot_id manifest)) sn_schema_id of
        None \<Rightarrow> Ok (False, c)
      | Some schema_id \<Rightarrow>
          (case tm_schemas metadata schema_id of
             None \<Rightarrow> Ok (False, c)
           | Some schema \<Rightarrow>
               (case mrc_compatible_schema_ids c schema_id of
                  Some compatible \<Rightarrow> Ok (compatible, c)
                | None \<Rightarrow>
                    rbind (schema_compatible c metadata schema) (\<lambda>compatible.
                    Ok (compatible, c\<lparr>mrc_compatible_schema_ids :=
                          (mrc_compatible_schema_ids c)(schema_id \<mapsto> compatible)\<rparr>)))))"

section \<open>The reader of a manifest list\<close>

definition manifest_list_format_version ::
  "avro_schema \<Rightarrow> format_version \<Rightarrow> (format_version, error) outcome" where
  "manifest_list_format_version schema table_format_version =
     (case schema of
        AvroOther _ \<Rightarrow> Err (InvalidFormat ''manifest list writer schema must be a record'')
      | AvroRecord lookup _ \<Rightarrow>
          let detected = (if ''first_row_id'' \<in> set lookup then V3
                          else if ''content'' \<in> set lookup then V2 else V1)
          in if table_format_version = V2 \<and> detected = V3 then Ok V2 else Ok detected)"

record 'v manifest_list_reader =
  mlr_reader :: "('v, string) outcome list"
  mlr_decoder :: ml_decoder
  mlr_writer_format_version :: format_version

definition ListReader_new_with_decoder ::
  "('v, 'b, 's) table_io \<Rightarrow> 'b \<Rightarrow> table_metadata \<Rightarrow> schema option \<Rightarrow> ('v manifest_list_reader, error) outcome" where
  "ListReader_new_with_decoder io bytes tm schema =
     rbind (io_avro_read io bytes) (\<lambda>reader.
     rbind (manifest_list_format_version (ac_schema reader) (tm_format_version tm)) (\<lambda>v.
     Ok \<lparr>mlr_reader = ac_values reader,
         mlr_decoder = (case schema of None \<Rightarrow> Decoder_new tm | Some s \<Rightarrow> Decoder_with_schema tm s),
         mlr_writer_format_version = v\<rparr>))"

definition ListReader_new ::
  "('v, 'b, 's) table_io \<Rightarrow> 'b \<Rightarrow> table_metadata \<Rightarrow> ('v manifest_list_reader, error) outcome" where
  "ListReader_new io bytes tm = ListReader_new_with_decoder io bytes tm None"

definition ListReader_new_with_schema ::
  "('v, 'b, 's) table_io \<Rightarrow> 'b \<Rightarrow> table_metadata \<Rightarrow> schema \<Rightarrow> ('v manifest_list_reader, error) outcome" where
  "ListReader_new_with_schema io bytes tm schema = ListReader_new_with_decoder io bytes tm (Some schema)"

definition ListReader_next ::
  "('v, 'b, 's) table_io \<Rightarrow> 'v manifest_list_reader
   \<Rightarrow> (manifest_list_entry \<times> 'v manifest_list_reader, error) outcome option" where
  "ListReader_next io r =
     (case mlr_reader r of
        [] \<Rightarrow> None
      | value' # rest \<Rightarrow>
          Some (rbind (map_err Iceberg (Decoder_decode (io_values io) (io_schema_order io) (io_list_reader io)
                  (mlr_decoder r) (map_err SAvro value') (mlr_writer_format_version r))) (\<lambda>(e, d).
                Ok (e, r\<lparr>mlr_reader := rest, mlr_decoder := d\<rparr>))))"

text \<open>
  The items of the iterator. Every consumer stops at the first error, so nothing follows one.
\<close>

function (sequential) list_items ::
  "('v, 'b, 's) table_io \<Rightarrow> 'v manifest_list_reader \<Rightarrow> (manifest_list_entry, error) outcome list" where
  "list_items io r =
     (case ListReader_next io r of
        None \<Rightarrow> []
      | Some (Ok (e, r')) \<Rightarrow> Ok e # list_items io r'
      | Some (Err e) \<Rightarrow> [Err e]
      | Some (Panic s) \<Rightarrow> [Panic s])"
  by pat_completeness auto
termination
  by (relation "measure (\<lambda>(_, r). length (mlr_reader r))")
    (auto simp: ListReader_next_def split: list.splits)

declare list_items.simps [simp del]

text \<open>\<open>collect::<Result<Vec<_>, _>>()\<close> on the items of an iterator.\<close>

definition collect_items :: "('a, error) outcome list \<Rightarrow> ('a list, error) outcome" where
  "collect_items xs = try_map (\<lambda>x. x) xs"

section \<open>Completing the counts of a V1 list\<close>

text \<open>The counts of files and rows by status, as \<open>[added, existing, deleted]\<close>.\<close>

record status_counts =
  sc_files :: "i32 list"
  sc_rows :: "i64 list"

definition status_index :: "status \<Rightarrow> nat" where
  "status_index s = (case s of Added \<Rightarrow> 0 | Existing \<Rightarrow> 1 | Deleted \<Rightarrow> 2)"

definition count_manifest_entry ::
  "status_counts \<Rightarrow> (manifest_entry, error) outcome \<Rightarrow> (status_counts, error) outcome" where
  "count_manifest_entry c x =
     rbind x (\<lambda>e.
     if df_record_count (me_data_file e) < 0
     then Err (InvalidFormat ''data file record count must be non-negative'')
     else let i = status_index (me_status e)
          in rbind (ok_or (InvalidFormat ''manifest file count overflow'')
                 (checked_add_i32 (sc_files c ! i) 1)) (\<lambda>files.
             rbind (ok_or (InvalidFormat ''manifest row count overflow'')
                 (checked_add_i64 (sc_rows c ! i) (df_record_count (me_data_file e)))) (\<lambda>rs.
             Ok \<lparr>sc_files = (sc_files c)[i := files], sc_rows = (sc_rows c)[i := rs]\<rparr>)))"

definition hydrate_entry ::
  "('v, 'b, 's) table_io \<Rightarrow> 's \<Rightarrow> manifest_list_entry \<Rightarrow> (manifest_list_entry, error) outcome" where
  "hydrate_entry io st entry =
     (if counts_present entry then Ok entry
      else rbind (store_get io st (ml_manifest_path entry)) (\<lambda>bytes.
        rbind (ManifestReader_new io bytes) (\<lambda>reader.
        rbind (try_fold count_manifest_entry \<lparr>sc_files = [0, 0, 0], sc_rows = [0, 0, 0]\<rparr> (mr_reader reader)) (\<lambda>c.
        Ok (entry\<lparr>ml_added_files_count := Some (sc_files c ! 0),
                  ml_existing_files_count := Some (sc_files c ! 1),
                  ml_deleted_files_count := Some (sc_files c ! 2),
                  ml_added_rows_count := Some (sc_rows c ! 0),
                  ml_existing_rows_count := Some (sc_rows c ! 1),
                  ml_deleted_rows_count := Some (sc_rows c ! 2)\<rparr>)))))"

definition hydrate_v1_manifest_list_row_counts ::
  "('v, 'b, 's) table_io \<Rightarrow> 's \<Rightarrow> 'b \<Rightarrow> table_metadata \<Rightarrow> ('b option, error) outcome" where
  "hydrate_v1_manifest_list_row_counts io st bytes tm =
     rbind (io_avro_read io bytes) (\<lambda>reader.
     rbind (manifest_list_format_version (ac_schema reader) (tm_format_version tm)) (\<lambda>v.
     if v \<noteq> V1 then Ok None
     else rbind (ListReader_new io bytes tm) (\<lambda>r.
       rbind (collect_items (list_items io r)) (\<lambda>entries.
       if list_all counts_present entries then Ok None
       else rbind (try_map (hydrate_entry io st) entries) (\<lambda>entries'.
         rbind (try_fold (append_list_entry io) (AvroWriter_new (manifest_list_schema V1)) entries') (\<lambda>w.
         rbind (io_avro_write io w) (\<lambda>b. Ok (Some b))))))))"

section \<open>Assignment of first row ids\<close>

record row_id_assigner =
  ra_next_row_id :: i64

definition RowIdAssigner_new :: "i64 \<Rightarrow> row_id_assigner" where
  "RowIdAssigner_new next_row_id = \<lparr>ra_next_row_id = next_row_id\<rparr>"

definition required_non_negative_row_count ::
  "i64 option \<Rightarrow> string \<Rightarrow> string \<Rightarrow> (i64, error) outcome" where
  "required_non_negative_row_count row_count field manifest_path =
     rbind (ok_or (InvalidFormat (''manifest '' @ manifest_path @ '' is missing required '' @ field)) row_count) (\<lambda>n.
     if n < 0 then Err (InvalidFormat (''manifest '' @ manifest_path @ '' has negative '' @ field)) else Ok n)"

definition RowIdAssigner_assign ::
  "row_id_assigner \<Rightarrow> manifest_list_entry \<Rightarrow> (row_id_assigner \<times> manifest_list_entry, error) outcome" where
  "RowIdAssigner_assign a manifest =
     (if ml_content manifest = ContentDeletes then Ok (a, manifest\<lparr>ml_first_row_id := None\<rparr>)
      else if (case ml_first_row_id manifest of Some n \<Rightarrow> n < 0 | None \<Rightarrow> False)
      then Err (InvalidFormat (''manifest '' @ ml_manifest_path manifest @ '' has a negative first row id''))
      else if ml_first_row_id manifest \<noteq> None then Ok (a, manifest)
      else rbind (required_non_negative_row_count (ml_added_rows_count manifest) ''added_rows_count''
             (ml_manifest_path manifest)) (\<lambda>added_rows.
           rbind (required_non_negative_row_count (ml_existing_rows_count manifest) ''existing_rows_count''
             (ml_manifest_path manifest)) (\<lambda>existing_rows.
           rbind (ok_or (InvalidFormat ''next row id overflow'')
             (Option.bind (checked_add_i64 (ra_next_row_id a) added_rows) (\<lambda>next. checked_add_i64 next existing_rows))) (\<lambda>next.
           Ok (\<lparr>ra_next_row_id = next\<rparr>, manifest\<lparr>ml_first_row_id := Some (ra_next_row_id a)\<rparr>)))))"

section \<open>Appending a manifest to a list\<close>

text \<open>The six counts that a V2 list requires, with the names for the error.\<close>

definition v2_required_counts :: "manifest_list_entry \<Rightarrow> (string \<times> i64 option) list" where
  "v2_required_counts m =
     [(''added_files_count'', ml_added_files_count m),
      (''existing_files_count'', ml_existing_files_count m),
      (''deleted_files_count'', ml_deleted_files_count m),
      (''added_rows_count'', ml_added_rows_count m),
      (''existing_rows_count'', ml_existing_rows_count m),
      (''deleted_rows_count'', ml_deleted_rows_count m)]"

text \<open>
  The manifest as it is written, by the format version of the list. The assigner is the
  optional one of the caller; it comes back with its new state.
\<close>

definition prepare_manifest ::
  "format_version \<Rightarrow> row_id_assigner option \<Rightarrow> manifest_list_entry
   \<Rightarrow> (row_id_assigner option \<times> manifest_list_entry, error) outcome" where
  "prepare_manifest v assigner manifest =
     (case v of
        V3 \<Rightarrow>
          rbind (ok_or (InvalidFormat ''v3 manifest list requires row id assignment'') assigner) (\<lambda>a.
          rbind (RowIdAssigner_assign a (manifest\<lparr>ml_format_version := V3\<rparr>)) (\<lambda>(a', m).
          if ml_content m = ContentData \<and> ml_first_row_id m = None
          then Err (InvalidFormat (''v3 data manifest '' @ ml_manifest_path m @ '' has no first row id''))
          else Ok (Some a', m)))
      | V2 \<Rightarrow>
          rbind (try_map (\<lambda>(field, c). required_non_negative_row_count c field (ml_manifest_path manifest))
                   (v2_required_counts manifest)) (\<lambda>_.
          Ok (assigner, manifest\<lparr>ml_format_version := V2, ml_first_row_id := None\<rparr>))
      | V1 \<Rightarrow> Ok (assigner, manifest\<lparr>ml_format_version := V1, ml_first_row_id := None\<rparr>))"

type_synonym 'v list_sink = "'v avro_writer \<times> row_id_assigner option"

definition append_manifest ::
  "('v, 'b, 's) table_io \<Rightarrow> 'v list_sink \<Rightarrow> manifest_list_entry \<Rightarrow> ('v list_sink, error) outcome" where
  "append_manifest io sink manifest =
     rbind (manifest_list_format_version (aw_schema (fst sink)) V3) (\<lambda>v.
     rbind (prepare_manifest v (snd sink) manifest) (\<lambda>(assigner, m).
     rbind (append_list_entry io (fst sink) m) (\<lambda>w.
     Ok (w, assigner))))"

section \<open>The assigner as a source of row ids\<close>

definition takes_row_ids :: "manifest_list_entry \<Rightarrow> bool" where
  "takes_row_ids m \<longleftrightarrow> ml_content m = ContentData \<and> ml_first_row_id m = None"

definition count_or_zero :: "int option \<Rightarrow> int" where
  "count_or_zero c = (case c of Some n \<Rightarrow> n | None \<Rightarrow> 0)"

definition reserved_rows :: "manifest_list_entry \<Rightarrow> int" where
  "reserved_rows m = count_or_zero (ml_added_rows_count m) + count_or_zero (ml_existing_rows_count m)"

lemma required_count_Ok [simp]:
  "required_non_negative_row_count c f p = Ok n \<longleftrightarrow> c = Some n \<and> 0 \<le> n"
  by (cases c) (auto simp: required_non_negative_row_count_def)

lemma assign_Ok:
  "RowIdAssigner_assign a m = Ok (a', m') \<longleftrightarrow>
    (if takes_row_ids m
     then \<exists>x y. ml_added_rows_count m = Some x \<and> 0 \<le> x \<and> ml_existing_rows_count m = Some y \<and> 0 \<le> y
          \<and> in_i64 (ra_next_row_id a + x) \<and> in_i64 (ra_next_row_id a + x + y)
          \<and> a' = \<lparr>ra_next_row_id = ra_next_row_id a + x + y\<rparr>
          \<and> m' = m\<lparr>ml_first_row_id := Some (ra_next_row_id a)\<rparr>
     else a' = a \<and> m' = (if ml_content m = ContentDeletes then m\<lparr>ml_first_row_id := None\<rparr> else m)
          \<and> (ml_content m = ContentData \<longrightarrow> (\<exists>n. ml_first_row_id m = Some n \<and> 0 \<le> n)))"
  by (cases "ml_content m"; cases "ml_first_row_id m")
    (auto simp: RowIdAssigner_assign_def takes_row_ids_def checked_add_i64_Some bind_eq_Some_conv)

interpretation manifest_ids: contiguous_row_ids RowIdAssigner_assign ra_next_row_id "\<lambda>_. takes_row_ids"
  reserved_rows ml_first_row_id
  by unfold_locales (auto simp: assign_Ok reserved_rows_def count_or_zero_def split: if_splits)

text \<open>
  C28. Row ids of the manifests of a list. Data manifests without a first row id get
  consecutive ranges of their added and existing rows, from the next row id on: ranges of
  different manifests do not overlap, and the next row id ends past all of them.
\<close>

theorem manifest_row_ids_are_disjoint:
  assumes "give_all RowIdAssigner_assign a ms = Ok (a', ms')"
  shows "length ms' = length ms
    \<and> ra_next_row_id a' = ra_next_row_id a + sum_list (map reserved_rows (filter takes_row_ids ms))
    \<and> (\<forall>i<length ms. takes_row_ids (ms ! i) \<longrightarrow>
         (\<exists>n. ml_first_row_id (ms' ! i) = Some n \<and> ra_next_row_id a \<le> n
              \<and> n + reserved_rows (ms ! i) \<le> ra_next_row_id a'))
    \<and> (\<forall>j<length ms. \<forall>i<j. takes_row_ids (ms ! i) \<and> takes_row_ids (ms ! j) \<longrightarrow>
         (\<forall>m n. ml_first_row_id (ms' ! i) = Some m \<and> ml_first_row_id (ms' ! j) = Some n
            \<longrightarrow> m + reserved_rows (ms ! i) \<le> n))"
  using manifest_ids.all_next [OF assms] manifest_ids.all_mono [OF assms]
    manifest_ids.all_in_range [OF assms] manifest_ids.all_disjoint [OF assms]
  by fastforce

theorem manifest_row_ids_are_disjoint_witness:
  "\<exists>a ms. give_all RowIdAssigner_assign (RowIdAssigner_new 5)
       [(sample_list_entry V3)\<lparr>ml_first_row_id := None\<rparr>, (sample_list_entry V3)\<lparr>ml_first_row_id := None\<rparr>] = Ok (a, ms)
     \<and> ra_next_row_id a = 15"
proof -
  obtain a ms where r: "give_all RowIdAssigner_assign (RowIdAssigner_new 5)
       [(sample_list_entry V3)\<lparr>ml_first_row_id := None\<rparr>, (sample_list_entry V3)\<lparr>ml_first_row_id := None\<rparr>] = Ok (a, ms)"
    by (simp add: assign_Ok takes_row_ids_def sample_list_entry_def RowIdAssigner_new_def in_i64_def)
  from manifest_row_ids_are_disjoint [OF this] r show ?thesis
    by (auto simp: RowIdAssigner_new_def takes_row_ids_def sample_list_entry_def reserved_rows_def count_or_zero_def)
qed

text \<open>
  The rows that a manifest reserves cover the rows that its files inherit when it is read.
\<close>

definition data_rows :: "manifest_entry list \<Rightarrow> int" where
  "data_rows es = sum_list (map (\<lambda>e. added_rows_of e + existing_rows_of e) es)"

lemma data_rows_split: "data_rows es = sum_list (map added_rows_of es) + sum_list (map existing_rows_of es)"
  by (simp add: data_rows_def sum_list_addf)

lemma assigned_rows_le_data_rows:
  "\<forall>e\<in>set es. 0 \<le> df_record_count (me_data_file e) \<Longrightarrow> assigned_rows es \<le> data_rows es \<and> 0 \<le> data_rows es"
proof (induction es)
  case (Cons e es)
  then have "(if inherits_row_id e then df_record_count (me_data_file e) else 0)
      \<le> added_rows_of e + existing_rows_of e"
    by (cases "me_status e") (auto simp: inherits_row_id_def added_rows_of_def existing_rows_of_def)
  moreover have "0 \<le> added_rows_of e + existing_rows_of e"
    using Cons.prems by (auto simp: added_rows_of_def existing_rows_of_def)
  ultimately show ?case using Cons by (simp add: data_rows_def)
qed (simp add: data_rows_def)

lemma valid_counts_of_nonneg:
  "\<forall>e\<in>set es. 0 \<le> df_record_count (me_data_file e) \<Longrightarrow> valid_counts es"
  by (simp add: valid_counts_def)

lemma manifest_counts_rows:
  assumes "ManifestWriter_new io location snapshot_id schema tm content = Ok w"
    and "try_fold (ManifestWriter_append io) w es = Ok w'"
    and "\<forall>e\<in>set es. 0 \<le> df_record_count (me_data_file e)" "data_rows es < 2 ^ 63"
  shows "reserved_rows (mw_manifest w') = data_rows es"
    "ml_first_row_id (mw_manifest w') = None" "ml_content (mw_manifest w') = content"
proof -
  obtain kvs where w: "w = \<lparr>mw_table_metadata = tm, mw_manifest = new_manifest_entry tm location snapshot_id content,
            mw_writer = (AvroWriter_new schema)\<lparr>aw_user_metadata := kvs\<rparr>\<rparr>"
    using assms(1) by (auto simp: new_writer_Ok)
  have nn: "0 \<le> sum_list (map added_rows_of es)" "0 \<le> sum_list (map existing_rows_of es)"
    using assms(3) by (auto intro!: sum_list_nonneg simp: added_rows_of_def existing_rows_of_def)
  then have "in_i64 (sum_list (map added_rows_of es))" "in_i64 (sum_list (map existing_rows_of es))"
    using assms(4) by (auto simp: in_i64_def data_rows_split)
  then show "reserved_rows (mw_manifest w') = data_rows es"
    using manifest_counts [OF assms(2)] w
    by (simp add: new_manifest_entry_def reserved_rows_def count_or_zero_def data_rows_split)
  have "ml_first_row_id (mw_manifest w') = ml_first_row_id (mw_manifest w) \<and> ml_content (mw_manifest w') = ml_content (mw_manifest w)"
    using assms(2)
  proof (induction es arbitrary: w)
    case (Cons e es)
    then obtain v where v: "ManifestWriter_append io w e = Ok v" "try_fold (ManifestWriter_append io) v es = Ok w'"
      by auto
    with Cons.IH [OF v(2)] ManifestWriter_append_Ok [OF v(1)] show ?case by auto
  qed simp
  then show "ml_first_row_id (mw_manifest w') = None" "ml_content (mw_manifest w') = content"
    using w by (simp_all add: new_manifest_entry_def)
qed

text \<open>
  A new data manifest reserves the row ids of its files: once the assigner of the manifest
  list has given it a first row id, reading it succeeds and every file that inherits its ids
  gets a range inside the one reserved for the manifest, so files of different manifests
  never share a row id.
\<close>

theorem new_manifest_reserves_its_rows:
  assumes new: "ManifestWriter_new io location snapshot_id schema tm ContentData = Ok w"
    and app: "try_fold (ManifestWriter_append io) w es = Ok w'"
    and nn: "\<forall>e\<in>set es. 0 \<le> df_record_count (me_data_file e)" and small: "data_rows es < 2 ^ 63"
    and asn: "RowIdAssigner_assign a (mw_manifest w') = Ok (a', m)" and a: "0 \<le> ra_next_row_id a"
  shows "\<exists>es' k. inherit_first_row_ids (for_committed_manifest (ml_first_row_id m)) es = Ok (Assign k, es')
    \<and> ra_next_row_id a' = ra_next_row_id a + data_rows es
    \<and> k \<le> ra_next_row_id a'
    \<and> (\<forall>i<length es. inherits_row_id (es ! i) \<longrightarrow>
         (\<exists>n. df_first_row_id (me_data_file (es' ! i)) = Some n \<and> ra_next_row_id a \<le> n
              \<and> n + df_record_count (me_data_file (es ! i)) \<le> ra_next_row_id a'))"
proof -
  note m = manifest_counts_rows [OF new app nn small]
  let ?n = "ra_next_row_id a"
  have takes: "takes_row_ids (mw_manifest w')" using m by (simp add: takes_row_ids_def)
  have a': "ra_next_row_id a' = ?n + data_rows es" "ml_first_row_id m = Some ?n"
    using asn takes m(1) by (auto simp: assign_Ok reserved_rows_def count_or_zero_def)
  have lt: "?n + data_rows es < 2 ^ 63"
    using asn takes a'(1) by (auto simp: assign_Ok in_i64_def)
  have le: "assigned_rows es \<le> data_rows es" "0 \<le> data_rows es"
    using assigned_rows_le_data_rows [OF nn] by auto
  have inh: "inherit_first_row_ids (Assign ?n) es = Ok (Assign (?n + assigned_rows es), assigned_entries ?n es)"
    using inherit_assign_Ok [of ?n es] a lt le valid_counts_of_nonneg [OF nn] by simp
  then have give: "give_all FirstRowIdInheritance_apply (Assign ?n) es
      = Ok (Assign (?n + assigned_rows es), assigned_entries ?n es)"
    by (simp add: inherit_is_give_all)
  have "\<exists>n. df_first_row_id (me_data_file (assigned_entries ?n es ! i)) = Some n \<and> ?n \<le> n
      \<and> n + df_record_count (me_data_file (es ! i)) \<le> ra_next_row_id a'"
    if "i < length es" "inherits_row_id (es ! i)" for i
    using entry_ids.all_in_range [OF give that(1)] that(2) a'(1) le
    by (auto simp: inheritance_needs_def inheritance_next_def)
  with inh a' le show ?thesis
    by (intro exI [of _ "assigned_entries ?n es"] exI [of _ "?n + assigned_rows es"])
      (simp add: for_committed_manifest_def)
qed

theorem new_manifest_reserves_its_rows_witness:
  "\<exists>a' m. RowIdAssigner_assign (RowIdAssigner_new 5) m = Ok (a', m\<lparr>ml_first_row_id := Some 5\<rparr>)
     \<and> ra_next_row_id a' = 17
     \<and> (\<exists>es' k. inherit_first_row_ids (for_committed_manifest (Some 5)) [sample_entry V3 5, sample_entry V3 7] = Ok (Assign k, es') \<and> k \<le> 17)"
proof -
  obtain w w' where w: "ManifestWriter_new sample_io ''m'' 9 (AvroRecord [] '''') (sample_part_table V3) ContentData = Ok w"
    "try_fold (ManifestWriter_append sample_io) w [sample_entry V3 5, sample_entry V3 7] = Ok w'"
    by (rule sample_manifest)
  have small: "\<forall>e\<in>set [sample_entry V3 5, sample_entry V3 7]. 0 \<le> df_record_count (me_data_file e)"
    "data_rows [sample_entry V3 5, sample_entry V3 7] < 2 ^ 63"
    by (simp_all add: sample_entry_def sample_file_def data_rows_def added_rows_of_def existing_rows_of_def)
  have c: "ml_added_rows_count (mw_manifest w') = Some 12" "ml_existing_rows_count (mw_manifest w') = Some 0"
    using w(1) manifest_counts [OF w(2)]
    by (auto simp: new_writer_Ok new_manifest_entry_def sample_entry_def sample_file_def added_rows_of_def
        existing_rows_of_def wrap64_def)
  have asn: "RowIdAssigner_assign (RowIdAssigner_new 5) (mw_manifest w')
      = Ok (\<lparr>ra_next_row_id = 17\<rparr>, (mw_manifest w')\<lparr>ml_first_row_id := Some 5\<rparr>)"
    using manifest_counts_rows(2,3) [OF w small] c
    by (simp add: assign_Ok takes_row_ids_def RowIdAssigner_new_def in_i64_def)
  from new_manifest_reserves_its_rows [OF w small asn] asn show ?thesis
    by (fastforce simp: RowIdAssigner_new_def)
qed

section \<open>Appending without counts\<close>

lemma list_format_schema [simp]: "manifest_list_format_version (manifest_list_schema v) V3 = Ok v"
  by (cases v) (simp_all add: manifest_list_format_version_def manifest_list_schema_def
      manifest_list_fields_v1_def manifest_list_fields_v2_def Let_def)

lemma enum_from_missing_counts:
  assumes "ml_format_version m = V3" "\<not> counts_present m"
  shows "\<exists>s. ManifestListEntryEnum_from lib m = Panic s"
  using assms unfolding counts_present_def
  by (cases "ml_added_files_count m"; cases "ml_existing_files_count m"; cases "ml_deleted_files_count m";
      cases "ml_added_rows_count m"; cases "ml_existing_rows_count m"; cases "ml_deleted_rows_count m")
    (simp_all add: ManifestListEntryEnum_from_def ManifestListEntryV3_from_def unwrap_def)

lemma try_map_Err:
  "\<forall>x\<in>set xs. (\<exists>y. f x = Ok y) \<or> (\<exists>e. f x = Err e) \<Longrightarrow> (\<exists>ys. try_map f xs = Ok ys) \<or> (\<exists>e. try_map f xs = Err e)"
  by (induction xs) auto

lemma required_count_cases:
  "(\<exists>n. required_non_negative_row_count c f p = Ok n) \<or> (\<exists>e. required_non_negative_row_count c f p = Err e)"
  by (cases c) (auto simp: required_non_negative_row_count_def)

text \<open>
  A manifest without all of its six counts is refused by a V2 list with an error. A V3 list
  does not check them: if the rows can be assigned, the conversion of the entry panics.
\<close>

theorem missing_counts_panic_in_v3:
  assumes "\<not> counts_present m"
  shows "(aw_schema w = manifest_list_schema V2 \<longrightarrow> (\<exists>e. append_manifest io (w, a) m = Err e))
    \<and> (aw_schema w = manifest_list_schema V3 \<and> RowIdAssigner_assign r (m\<lparr>ml_format_version := V3\<rparr>) = Ok (r', m')
         \<longrightarrow> (\<exists>s. append_manifest io (w, Some r) m = Panic s))"
proof -
  let ?check = "try_map (\<lambda>(field, c). required_non_negative_row_count c field (ml_manifest_path m)) (v2_required_counts m)"
  have "?check \<noteq> Ok ys" for ys
    using assms by (auto simp: v2_required_counts_def counts_present_def)
  moreover have "(\<exists>ys. ?check = Ok ys) \<or> (\<exists>e. ?check = Err e)"
    by (rule try_map_Err) (use required_count_cases in \<open>simp del: required_count_Ok add: case_prod_beta\<close>)
  ultimately obtain e where "?check = Err e" by blast
  then have v2: "\<exists>e. append_manifest io (w, a) m = Err e" if "aw_schema w = manifest_list_schema V2"
    using that by (auto simp: append_manifest_def prepare_manifest_def)
  have v3: "\<exists>s. append_manifest io (w, Some r) m = Panic s"
    if *: "aw_schema w = manifest_list_schema V3" "RowIdAssigner_assign r (m\<lparr>ml_format_version := V3\<rparr>) = Ok (r', m')"
  proof -
    have "ml_format_version m' = V3" "\<not> counts_present m'" "ml_content m' = ContentData \<longrightarrow> ml_first_row_id m' \<noteq> None"
      using * assms by (auto simp: assign_Ok counts_present_def split: if_splits)
    with * obtain s where "ManifestListEntryEnum_from (io_values io) m' = Panic s"
      "prepare_manifest V3 (Some r) m = Ok (Some r', m')"
      using enum_from_missing_counts by (fastforce simp: prepare_manifest_def)
    with * show ?thesis
      by (simp add: append_manifest_def append_list_entry_def)
  qed
  from v2 v3 show ?thesis by blast
qed

theorem missing_counts_panic_in_v3_witness:
  "(\<exists>e. append_manifest sample_io (AvroWriter_new (manifest_list_schema V2), None)
       ((sample_list_entry V2)\<lparr>ml_added_files_count := None\<rparr>) = Err e)
   \<and> (\<exists>s. append_manifest sample_io (AvroWriter_new (manifest_list_schema V3), Some (RowIdAssigner_new 5))
       ((sample_list_entry V2)\<lparr>ml_added_files_count := None\<rparr>) = Panic s)"
proof -
  let ?m = "(sample_list_entry V2)\<lparr>ml_added_files_count := None\<rparr>"
  have c: "\<not> counts_present ?m" by (simp add: counts_present_def)
  have "RowIdAssigner_assign (RowIdAssigner_new 5) (?m\<lparr>ml_format_version := V3\<rparr>)
      = Ok (RowIdAssigner_new 5, ?m\<lparr>ml_format_version := V3\<rparr>)"
    by (simp add: assign_Ok takes_row_ids_def sample_list_entry_def)
  with missing_counts_panic_in_v3 [OF c, of "AvroWriter_new (manifest_list_schema V2)" sample_io None]
    missing_counts_panic_in_v3 [OF c, of "AvroWriter_new (manifest_list_schema V3)" sample_io None "RowIdAssigner_new 5"]
  show ?thesis by (simp add: AvroWriter_new_def)
qed

text \<open>
  Completing the counts of a V1 entry: the added, existing and deleted files and rows are
  those of the entries of the manifest, and they are present afterwards.
\<close>

definition rows_with :: "status \<Rightarrow> manifest_entry list \<Rightarrow> int" where
  "rows_with s es = sum_list (map (\<lambda>e. df_record_count (me_data_file e)) (filter (\<lambda>e. me_status e = s) es))"

lemma count_entries:
  "try_fold count_manifest_entry \<lparr>sc_files = [a, b, c], sc_rows = [x, y, z]\<rparr> (map Ok es) = Ok t \<Longrightarrow>
   t = \<lparr>sc_files = [a + status_count Added es, b + status_count Existing es, c + status_count Deleted es],
        sc_rows = [x + rows_with Added es, y + rows_with Existing es, z + rows_with Deleted es]\<rparr>"
proof (induction es arbitrary: a b c x y z)
  case Nil
  then show ?case by (simp add: rows_with_def)
next
  case (Cons e es)
  from Cons.prems obtain u where u: "count_manifest_entry \<lparr>sc_files = [a, b, c], sc_rows = [x, y, z]\<rparr> (Ok e) = Ok u"
    "try_fold count_manifest_entry u (map Ok es) = Ok t"
    by auto
  show ?case
  proof (cases "me_status e")
    case Added
    then have "u = \<lparr>sc_files = [a + 1, b, c], sc_rows = [x + df_record_count (me_data_file e), y, z]\<rparr>"
      using u(1) by (auto simp: count_manifest_entry_def status_index_def checked_add_i32_def
          checked_add_i64_def Let_def split: if_splits)
    with Cons.IH u(2) Added show ?thesis by (fastforce simp: rows_with_def status_count_def)
  next
    case Existing
    then have "u = \<lparr>sc_files = [a, b + 1, c], sc_rows = [x, y + df_record_count (me_data_file e), z]\<rparr>"
      using u(1) by (auto simp: count_manifest_entry_def status_index_def checked_add_i32_def
          checked_add_i64_def Let_def split: if_splits)
    with Cons.IH u(2) Existing show ?thesis by (fastforce simp: rows_with_def status_count_def)
  next
    case Deleted
    then have "u = \<lparr>sc_files = [a, b, c + 1], sc_rows = [x, y, z + df_record_count (me_data_file e)]\<rparr>"
      using u(1) by (auto simp: count_manifest_entry_def status_index_def checked_add_i32_def
          checked_add_i64_def Let_def split: if_splits)
    with Cons.IH u(2) Deleted show ?thesis by (fastforce simp: rows_with_def status_count_def)
  qed
qed

lemma hydrated_counts:
  assumes "hydrate_entry io st entry = Ok entry'" "\<not> counts_present entry"
    and "store_get io st (ml_manifest_path entry) = Ok b" "ManifestReader_new io b = Ok r" "mr_reader r = map Ok es"
  shows "counts_present entry' \<and> ml_added_files_count entry' = Some (status_count Added es)
    \<and> ml_existing_files_count entry' = Some (status_count Existing es)
    \<and> ml_deleted_files_count entry' = Some (status_count Deleted es)
    \<and> ml_added_rows_count entry' = Some (rows_with Added es)
    \<and> ml_existing_rows_count entry' = Some (rows_with Existing es)
    \<and> ml_deleted_rows_count entry' = Some (rows_with Deleted es)
    \<and> ml_manifest_path entry' = ml_manifest_path entry"
proof -
  obtain c where c: "try_fold count_manifest_entry \<lparr>sc_files = [0, 0, 0], sc_rows = [0, 0, 0]\<rparr> (map Ok es) = Ok c"
    "entry' = entry\<lparr>ml_added_files_count := Some (sc_files c ! 0),
                  ml_existing_files_count := Some (sc_files c ! 1),
                  ml_deleted_files_count := Some (sc_files c ! 2),
                  ml_added_rows_count := Some (sc_rows c ! 0),
                  ml_existing_rows_count := Some (sc_rows c ! 1),
                  ml_deleted_rows_count := Some (sc_rows c ! 2)\<rparr>"
    using assms by (auto simp: hydrate_entry_def)
  from count_entries [OF c(1)] c(2) show ?thesis
    by (simp add: counts_present_def)
qed

section \<open>The cache of compatible schemas\<close>

text \<open>
  What \<open>allows\<close> answers without its cache, and that the cache only holds such answers.
\<close>

definition allows_fresh :: "manifest_rewrite_compatibility \<Rightarrow> manifest_list_entry \<Rightarrow> table_metadata \<Rightarrow> (bool, error) outcome" where
  "allows_fresh c manifest metadata =
     rbind (Compatibility_allows (c\<lparr>mrc_compatible_schema_ids := Map.empty\<rparr>) manifest metadata) (\<lambda>(b, _). Ok b)"

definition compat_ok :: "table_metadata \<Rightarrow> manifest_rewrite_compatibility \<Rightarrow> bool" where
  "compat_ok metadata c \<longleftrightarrow>
     (\<forall>i b schema. mrc_compatible_schema_ids c i = Some b \<longrightarrow> tm_schemas metadata i = Some schema \<longrightarrow>
        schema_compatible c metadata schema = Ok b)"

lemma schema_compatible_cong:
  "schema_compatible (c\<lparr>mrc_compatible_schema_ids := m\<rparr>) metadata schema = schema_compatible c metadata schema"
  by (simp add: schema_compatible_def split: option.split outcome.split)

lemma allows_cached:
  assumes "compat_ok metadata c" "Compatibility_allows c m metadata = Ok (b, c')"
  shows "allows_fresh c m metadata = Ok b \<and> compat_ok metadata c'
    \<and> mrc_current_spec_id c' = mrc_current_spec_id c \<and> mrc_partition_types c' = mrc_partition_types c"
proof -
  note defs = Compatibility_allows_def allows_fresh_def
  show ?thesis
  proof (cases "ml_partition_spec_id m \<noteq> mrc_current_spec_id c")
    case True
    with assms show ?thesis by (simp add: defs)
  next
    case spec: False
    show ?thesis
    proof (cases "Option.bind (tm_snapshots metadata (ml_added_snapshot_id m)) sn_schema_id")
      case None
      with assms spec show ?thesis by (simp add: defs)
    next
      case (Some i)
      show ?thesis
      proof (cases "tm_schemas metadata i")
        case None
        with assms spec Some show ?thesis by (simp add: defs)
      next
        case schema: (Some schema)
        show ?thesis
        proof (cases "mrc_compatible_schema_ids c i")
          case None
          with assms spec Some schema show ?thesis
            by (auto simp: defs schema_compatible_cong compat_ok_def split: if_splits)
        next
          case cached: (Some v)
          with assms(1) schema have "schema_compatible c metadata schema = Ok v"
            by (auto simp: compat_ok_def)
          with assms spec Some schema cached show ?thesis
            by (simp add: defs schema_compatible_cong)
        qed
      qed
    qed
  qed
qed

end
