(* ===== verification/Manifest_Select.thy ===== *)
theory Manifest_Select
  imports Manifest_List_Io
begin

text \<open>
  The choice of the manifest that new files are added to, and the distribution of files over
  manifests (\<open>iceberg-rust/src/table/transaction/append.rs\<close>, \<open>overwrite.rs\<close> and the split
  count of \<open>operation.rs\<close>). The four selection loops send the manifests they do not select to
  a sink; what a sink promises is a locale, and that no manifest is lost is proved in it.
\<close>

section \<open>The number of splits\<close>

definition MIN_DATAFILES_PER_MANIFEST :: nat where
  "MIN_DATAFILES_PER_MANIFEST = 4"

text \<open>
  \<open>(n as f64).sqrt() as usize\<close>, which is the integer square root for all counts below
  \<open>2 ^ 52\<close>, and \<open>u32::ilog2\<close>.
\<close>

definition isqrt :: "nat \<Rightarrow> nat" where
  "isqrt n = length (takeWhile (\<lambda>k. k * k \<le> n) [1..<Suc n])"

fun ilog2 :: "nat \<Rightarrow> nat" where
  "ilog2 n = (if n < 2 then 0 else Suc (ilog2 (n div 2)))"

declare ilog2.simps [simp del]

definition compute_n_splits :: "nat \<Rightarrow> nat \<Rightarrow> nat \<Rightarrow> nat" where
  "compute_n_splits existing_file_count new_file_count selected_manifest_file_count =
     (let limit = MIN_DATAFILES_PER_MANIFEST + isqrt (existing_file_count + new_file_count);
          new_manifest_file_count = selected_manifest_file_count + new_file_count;
          x = new_manifest_file_count div limit
      in if x = 0 then 0 else ilog2 x + 1)"

section \<open>Splitting files by their partition values\<close>

text \<open>The two halves, each with its bounding box so far.\<close>

record split_state =
  sp_smaller :: "manifest_entry list"
  sp_larger :: "manifest_entry list"
  sp_smaller_rect :: "rectangle option"
  sp_larger_rect :: "rectangle option"

definition grow_rect :: "rectangle option \<Rightarrow> ice_value list \<Rightarrow> (rectangle option, error) outcome" where
  "grow_rect r position =
     (case r of
        None \<Rightarrow> Ok (Some (Rectangle_new position position))
      | Some rect \<Rightarrow> rbind (expand_with_node rect position) (\<lambda>rect'. Ok (Some rect')))"

definition split_step ::
  "value_lib \<Rightarrow> rectangle \<Rightarrow> string list \<Rightarrow> split_state \<Rightarrow> (manifest_entry, error) outcome \<Rightarrow> (split_state, error) outcome" where
  "split_step lib rect names s x =
     rbind x (\<lambda>e.
     rbind (partition_struct_to_vec (df_partition (me_data_file e)) names) (\<lambda>p.
     case p of
       None \<Rightarrow> Ok (s\<lparr>sp_smaller := sp_smaller s @ [e], sp_smaller_rect := Some Rectangle_unbounded\<rparr>)
     | Some position \<Rightarrow>
         rbind (try_sub_vec lib position (r_min rect)) (\<lambda>to_min.
         rbind (try_sub_vec lib (r_max rect) position) (\<lambda>to_max.
         if cmp_with_priority to_min to_max = Greater
         then rbind (grow_rect (sp_larger_rect s) position) (\<lambda>r.
              Ok (s\<lparr>sp_larger := sp_larger s @ [e], sp_larger_rect := r\<rparr>))
         else rbind (grow_rect (sp_smaller_rect s) position) (\<lambda>r.
              Ok (s\<lparr>sp_smaller := sp_smaller s @ [e], sp_smaller_rect := r\<rparr>))))))"

definition rect_or_empty :: "rectangle option \<Rightarrow> rectangle" where
  "rect_or_empty r = (case r of Some rect \<Rightarrow> rect | None \<Rightarrow> Rectangle_new [] [])"

definition split_datafiles_once ::
  "value_lib \<Rightarrow> (manifest_entry, error) outcome list \<Rightarrow> rectangle \<Rightarrow> string list
   \<Rightarrow> ((manifest_entry list \<times> rectangle) \<times> (manifest_entry list \<times> rectangle), error) outcome" where
  "split_datafiles_once lib files rect names =
     (if cmp_with_priority (r_min rect) (r_max rect) = Equal
      then rbind (collect_items files) (\<lambda>es.
           Ok ((take (length es div 2) es, Rectangle_new [] []),
               (drop (length es div 2) es, Rectangle_new [] [])))
      else rbind (try_fold (split_step lib rect names)
                    \<lparr>sp_smaller = [], sp_larger = [], sp_smaller_rect = None, sp_larger_rect = None\<rparr> files) (\<lambda>s.
           Ok ((sp_smaller s, rect_or_empty (sp_smaller_rect s)),
               (sp_larger s, rect_or_empty (sp_larger_rect s)))))"

text \<open>
  The recursion counts an unsigned 32-bit number down to one; from zero it would wrap around
  (every caller passes at least one).
\<close>

definition pred_u32 :: "nat \<Rightarrow> nat" where
  "pred_u32 n = (if n = 0 then 2 ^ 32 - 1 else n - 1)"

function (sequential) split_datafiles ::
  "value_lib \<Rightarrow> (manifest_entry, error) outcome list \<Rightarrow> rectangle \<Rightarrow> string list \<Rightarrow> nat
   \<Rightarrow> (manifest_entry list list, error) outcome" where
  "split_datafiles lib files rect names n_split =
     rbind (split_datafiles_once lib files rect names) (\<lambda>((smaller, smaller_rect), (larger, larger_rect)).
     if n_split = 1
     then Ok ((if smaller \<noteq> [] then [smaller] else []) @ (if larger \<noteq> [] then [larger] else []))
     else rbind (split_datafiles lib (map Ok smaller) smaller_rect names (pred_u32 n_split)) (\<lambda>ss.
          rbind (split_datafiles lib (map Ok larger) larger_rect names (pred_u32 n_split)) (\<lambda>ls.
          Ok (ss @ ls))))"
  by pat_completeness auto
termination
  by (relation "measure (\<lambda>(_, _, _, _, n). if n = 0 then 2 ^ 32 else n)") (auto simp: pred_u32_def)

declare split_datafiles.simps [simp del]

text \<open>The box around the partition values of the new files.\<close>

definition bounding_step ::
  "string list \<Rightarrow> rectangle option \<Rightarrow> data_file \<Rightarrow> (rectangle option, error) outcome" where
  "bounding_step names acc f =
     rbind (partition_struct_to_vec (df_partition f) names) (\<lambda>p.
     case p of
       None \<Rightarrow> Ok (Some Rectangle_unbounded)
     | Some node \<Rightarrow>
         (case acc of
            None \<Rightarrow> Ok (Some (Rectangle_new node node))
          | Some r \<Rightarrow> if r_min r = [] then Ok (Some r)
                      else rbind (expand_with_node r node) (\<lambda>r'. Ok (Some r'))))"

definition bounding_partition_values ::
  "data_file list \<Rightarrow> string list \<Rightarrow> (rectangle, error) outcome" where
  "bounding_partition_values files names =
     rbind (try_fold (bounding_step names) None files) (\<lambda>r.
     ok_or (NotFound ''Bounding partition values'') r)"

section \<open>Where the manifests go\<close>

text \<open>
  A sink takes manifests. \<open>holds w M\<close> says that the sink contains the manifests \<open>M\<close>; a
  manifest that is put adds itself and keeps all the others.
\<close>

locale manifest_sink =
  fixes put :: "'w \<Rightarrow> manifest_list_entry \<Rightarrow> ('w, error) outcome"
    and holds :: "'w \<Rightarrow> manifest_list_entry multiset \<Rightarrow> bool"
  assumes put_holds: "put w m = Ok w' \<Longrightarrow> holds w M \<Longrightarrow> holds w' (add_mset m M)"
begin

lemma puts_hold: "try_fold put w ms = Ok w' \<Longrightarrow> holds w M \<Longrightarrow> holds w' (M + mset ms)"
proof (induction ms arbitrary: w M)
  case (Cons m ms)
  then show ?case using put_holds by fastforce
qed simp

end

text \<open>
  A manifest is written if the value in the file is the one of the manifest, up to the format
  version and the first row id that \<open>append_manifest\<close> sets.
\<close>

definition manifest_written ::
  "('v, 'b, 's) table_io \<Rightarrow> manifest_list_entry \<Rightarrow> 'v \<Rightarrow> bool" where
  "manifest_written io m x \<longleftrightarrow>
     (\<exists>v r s en. ManifestListEntryEnum_from (io_values io) (m\<lparr>ml_format_version := v, ml_first_row_id := r\<rparr>) = Ok en
        \<and> io_list_value io s en = Ok x)"

definition list_holds ::
  "('v, 'b, 's) table_io \<Rightarrow> 'v list_sink \<Rightarrow> manifest_list_entry multiset \<Rightarrow> bool" where
  "list_holds io sink M \<longleftrightarrow> (\<exists>ms. mset ms = M \<and> list_all2 (manifest_written io) ms (aw_values (fst sink)))"

lemma prepare_manifest_Ok:
  "prepare_manifest v a m = Ok (a', m') \<Longrightarrow>
   \<exists>r. m' = m\<lparr>ml_format_version := v, ml_first_row_id := r\<rparr>"
proof (cases v)
  case V3
  assume "prepare_manifest v a m = Ok (a', m')"
  then obtain b b' where "RowIdAssigner_assign b (m\<lparr>ml_format_version := V3\<rparr>) = Ok (b', m')"
    using V3 by (auto simp: prepare_manifest_def split: if_splits)
  then show ?thesis
    using V3 by (cases m) (auto simp: assign_Ok split: if_splits)
qed (auto simp: prepare_manifest_def)

interpretation list_file: manifest_sink "append_manifest io" "list_holds io" for io
proof
  fix w m w' M
  assume "append_manifest io w m = Ok w'" "list_holds io w M"
  then obtain v a' m' ms en x where
    m': "prepare_manifest v (snd w) m = Ok (a', m')" "fst w' = (fst w)\<lparr>aw_values := aw_values (fst w) @ [x]\<rparr>"
      "ManifestListEntryEnum_from (io_values io) m' = Ok en" "io_list_value io (aw_schema (fst w)) en = Ok x"
    and ms: "mset ms = M" "list_all2 (manifest_written io) ms (aw_values (fst w))"
    by (auto simp: append_manifest_def append_list_entry_def list_holds_def)
  from prepare_manifest_Ok [OF m'(1)] m'(3,4) have "manifest_written io m x"
    by (auto simp: manifest_written_def)
  with ms m'(2) show "list_holds io w' (add_mset m M)"
    unfolding list_holds_def by (intro exI [of _ "ms @ [m]"]) (simp add: list_all2_appendI)
qed

text \<open>
  A sink that collects the manifests to overwrite and passes the others on; it is a sink again.
\<close>

definition put_or_collect ::
  "string set \<Rightarrow> ('w \<Rightarrow> manifest_list_entry \<Rightarrow> ('w, error) outcome) \<Rightarrow> 'w \<times> manifest_list_entry list
   \<Rightarrow> manifest_list_entry \<Rightarrow> ('w \<times> manifest_list_entry list, error) outcome" where
  "put_or_collect overwrites put s m =
     (if ml_manifest_path m \<in> overwrites then Ok (fst s, snd s @ [m])
      else rbind (put (fst s) m) (\<lambda>w. Ok (w, snd s)))"

definition collect_holds ::
  "string set \<Rightarrow> ('w \<Rightarrow> manifest_list_entry multiset \<Rightarrow> bool) \<Rightarrow> 'w \<times> manifest_list_entry list
   \<Rightarrow> manifest_list_entry multiset \<Rightarrow> bool" where
  "collect_holds overwrites holds s M \<longleftrightarrow>
     (\<exists>N. holds (fst s) N \<and> M = N + mset (snd s)
        \<and> (\<forall>m\<in>#N. ml_manifest_path m \<notin> overwrites) \<and> (\<forall>m\<in>set (snd s). ml_manifest_path m \<in> overwrites))"

lemma collect_put_holds:
  assumes put_holds: "\<And>w m w' M. put w m = Ok w' \<Longrightarrow> holds w M \<Longrightarrow> holds w' (add_mset m M)"
    and p: "put_or_collect overwrites put s m = Ok s'" and h: "collect_holds overwrites holds s M"
  shows "collect_holds overwrites holds s' (add_mset m M)"
proof -
  obtain N where N: "holds (fst s) N" "M = N + mset (snd s)"
    "\<forall>m\<in>#N. ml_manifest_path m \<notin> overwrites" "\<forall>m\<in>set (snd s). ml_manifest_path m \<in> overwrites"
    using h by (auto simp: collect_holds_def)
  show ?thesis
  proof (cases "ml_manifest_path m \<in> overwrites")
    case True
    with p N show ?thesis
      unfolding collect_holds_def by (intro exI [of _ N]) (auto simp: put_or_collect_def)
  next
    case False
    with p obtain w where w: "put (fst s) m = Ok w" "s' = (w, snd s)"
      by (auto simp: put_or_collect_def)
    from put_holds [OF w(1) N(1)] N False w(2) show ?thesis
      unfolding collect_holds_def by (intro exI [of _ "add_mset m N"]) auto
  qed
qed

interpretation collected_file: manifest_sink "put_or_collect overwrites (append_manifest io)"
  "collect_holds overwrites (list_holds io)" for overwrites io
  by unfold_locales
    (rule collect_put_holds [where put = "append_manifest io" and holds = "list_holds io"],
      rule list_file.put_holds, assumption+)

section \<open>The offers\<close>

text \<open>
  One round of a selection: the manifest is selected, or it goes to the sink, or it replaces
  the selected manifest, which goes to the sink. With a partition the smaller bounding box
  wins, without one the fewer added rows.
\<close>

definition offer_partitioned ::
  "value_lib \<Rightarrow> rectangle \<Rightarrow> ('w \<Rightarrow> manifest_list_entry \<Rightarrow> ('w, error) outcome) \<Rightarrow> manifest_list_entry
   \<Rightarrow> (rectangle \<times> manifest_list_entry) option \<Rightarrow> 'w
   \<Rightarrow> ((rectangle \<times> manifest_list_entry) option \<times> 'w, error) outcome" where
  "offer_partitioned lib bounding put manifest selected w =
     rbind (ok_or (NotFound (''Partition struct in manifest '' @ ml_manifest_path manifest)) (ml_partitions manifest)) (\<lambda>ps.
     rbind (expand (summary_to_rectangle ps) bounding) (\<lambda>bounds.
     case selected of
       None \<Rightarrow> Ok (Some (bounds, manifest), w)
     | Some (selected_bounds, selected_manifest) \<Rightarrow>
         rbind (Rectangle_cmp_with_priority lib selected_bounds bounds) (\<lambda>o'.
         if o' = Greater
         then rbind (put w selected_manifest) (\<lambda>w'. Ok (Some (bounds, manifest), w'))
         else rbind (put w manifest) (\<lambda>w'. Ok (selected, w')))))"

definition offer_unpartitioned ::
  "('w \<Rightarrow> manifest_list_entry \<Rightarrow> ('w, error) outcome) \<Rightarrow> manifest_list_entry
   \<Rightarrow> (i64 option \<times> manifest_list_entry) option \<Rightarrow> 'w
   \<Rightarrow> ((i64 option \<times> manifest_list_entry) option \<times> 'w, error) outcome" where
  "offer_unpartitioned put manifest selected w =
     (case selected of
        None \<Rightarrow> Ok (Some (ml_added_rows_count manifest, manifest), w)
      | Some (selected_row_count, selected_manifest) \<Rightarrow>
          (case ml_added_rows_count manifest of
             None \<Rightarrow> Ok (Some (None, manifest), w)
           | Some row_count \<Rightarrow>
               if (case selected_row_count of Some x \<Rightarrow> x > row_count | None \<Rightarrow> False)
               then rbind (put w selected_manifest) (\<lambda>w'. Ok (Some (Some row_count, manifest), w'))
               else rbind (put w manifest) (\<lambda>w'. Ok (selected, w'))))"

definition count_added_files :: "nat \<Rightarrow> manifest_list_entry \<Rightarrow> nat" where
  "count_added_files n manifest =
     (n + i32_as_usize (case ml_added_files_count manifest of Some c \<Rightarrow> c | None \<Rightarrow> 0)) mod 2 ^ 64"

section \<open>Selection for an append\<close>

record ('w, 'k) selection =
  sel_compatibility :: manifest_rewrite_compatibility
  sel_data_state :: "('k \<times> manifest_list_entry) option"
  sel_delete_state :: "('k \<times> manifest_list_entry) option"
  sel_file_count :: nat
  sel_sink :: 'w

definition select_step ::
  "table_metadata \<Rightarrow> ('w \<Rightarrow> manifest_list_entry \<Rightarrow> ('w, error) outcome)
   \<Rightarrow> (manifest_list_entry \<Rightarrow> ('k \<times> manifest_list_entry) option \<Rightarrow> 'w
        \<Rightarrow> (('k \<times> manifest_list_entry) option \<times> 'w, error) outcome)
   \<Rightarrow> ('w, 'k) selection \<Rightarrow> (manifest_list_entry, error) outcome \<Rightarrow> (('w, 'k) selection, error) outcome" where
  "select_step tm put offer s x =
     rbind x (\<lambda>manifest.
     rbind (Compatibility_allows (sel_compatibility s) manifest tm) (\<lambda>(allowed, compatibility).
     let s' = s\<lparr>sel_compatibility := compatibility, sel_file_count := count_added_files (sel_file_count s) manifest\<rparr>
     in if \<not> allowed then rbind (put (sel_sink s') manifest) (\<lambda>w. Ok (s'\<lparr>sel_sink := w\<rparr>))
        else case ml_content manifest of
               ContentData \<Rightarrow> rbind (offer manifest (sel_data_state s') (sel_sink s')) (\<lambda>(d, w).
                 Ok (s'\<lparr>sel_data_state := d, sel_sink := w\<rparr>))
             | ContentDeletes \<Rightarrow> rbind (offer manifest (sel_delete_state s') (sel_sink s')) (\<lambda>(d, w).
                 Ok (s'\<lparr>sel_delete_state := d, sel_sink := w\<rparr>))))"

record selected_manifest =
  sm_data_manifest :: "manifest_list_entry option"
  sm_delete_manifest :: "manifest_list_entry option"
  sm_file_count_all_entries :: nat

definition select_manifests ::
  "table_metadata \<Rightarrow> ('w \<Rightarrow> manifest_list_entry \<Rightarrow> ('w, error) outcome)
   \<Rightarrow> (manifest_list_entry \<Rightarrow> ('k \<times> manifest_list_entry) option \<Rightarrow> 'w
        \<Rightarrow> (('k \<times> manifest_list_entry) option \<times> 'w, error) outcome)
   \<Rightarrow> (manifest_list_entry, error) outcome list \<Rightarrow> 'w \<Rightarrow> (selected_manifest \<times> 'w, error) outcome" where
  "select_manifests tm put offer items w =
     rbind (Compatibility_new tm) (\<lambda>c.
     rbind (try_fold (select_step tm put offer)
              \<lparr>sel_compatibility = c, sel_data_state = None, sel_delete_state = None, sel_file_count = 0, sel_sink = w\<rparr>
              items) (\<lambda>s.
     Ok (\<lparr>sm_data_manifest = map_option snd (sel_data_state s),
          sm_delete_manifest = map_option snd (sel_delete_state s),
          sm_file_count_all_entries = sel_file_count s\<rparr>, sel_sink s)))"

definition select_manifest_partitioned ::
  "('v, 'b, 's) table_io \<Rightarrow> table_metadata \<Rightarrow> rectangle \<Rightarrow> (manifest_list_entry, error) outcome list \<Rightarrow> 'v list_sink
   \<Rightarrow> (selected_manifest \<times> 'v list_sink, error) outcome" where
  "select_manifest_partitioned io tm bounding =
     select_manifests tm (append_manifest io) (offer_partitioned (io_values io) bounding (append_manifest io))"

definition select_manifest_unpartitioned ::
  "('v, 'b, 's) table_io \<Rightarrow> table_metadata \<Rightarrow> (manifest_list_entry, error) outcome list \<Rightarrow> 'v list_sink
   \<Rightarrow> (selected_manifest \<times> 'v list_sink, error) outcome" where
  "select_manifest_unpartitioned io tm =
     select_manifests tm (append_manifest io) (offer_unpartitioned (append_manifest io))"

section \<open>Selection for an overwrite\<close>

record ('w, 'k) overwrite_selection =
  os_compatibility :: manifest_rewrite_compatibility
  os_state :: "('k \<times> manifest_list_entry) option"
  os_file_count :: nat
  os_sink :: 'w

definition overwrite_step ::
  "table_metadata \<Rightarrow> ('w \<Rightarrow> manifest_list_entry \<Rightarrow> ('w, error) outcome)
   \<Rightarrow> (manifest_list_entry \<Rightarrow> ('k \<times> manifest_list_entry) option \<Rightarrow> 'w
        \<Rightarrow> (('k \<times> manifest_list_entry) option \<times> 'w, error) outcome)
   \<Rightarrow> ('w, 'k) overwrite_selection \<Rightarrow> (manifest_list_entry, error) outcome
   \<Rightarrow> (('w, 'k) overwrite_selection, error) outcome" where
  "overwrite_step tm put offer s x =
     rbind x (\<lambda>manifest.
     rbind (Compatibility_allows (os_compatibility s) manifest tm) (\<lambda>(allowed, compatibility).
     let s' = s\<lparr>os_compatibility := compatibility, os_file_count := count_added_files (os_file_count s) manifest\<rparr>
     in if \<not> allowed then rbind (put (os_sink s') manifest) (\<lambda>w. Ok (s'\<lparr>os_sink := w\<rparr>))
        else rbind (offer manifest (os_state s') (os_sink s')) (\<lambda>(d, w). Ok (s'\<lparr>os_state := d, os_sink := w\<rparr>))))"

record overwrite_manifest =
  om_manifest :: "manifest_list_entry option"
  om_file_count_all_entries :: nat
  om_manifests_to_overwrite :: "manifest_list_entry list"

definition select_without_overwrites ::
  "table_metadata \<Rightarrow> ('w \<times> manifest_list_entry list \<Rightarrow> manifest_list_entry \<Rightarrow> ('w \<times> manifest_list_entry list, error) outcome)
   \<Rightarrow> (manifest_list_entry \<Rightarrow> ('k \<times> manifest_list_entry) option \<Rightarrow> 'w \<times> manifest_list_entry list
        \<Rightarrow> (('k \<times> manifest_list_entry) option \<times> ('w \<times> manifest_list_entry list), error) outcome)
   \<Rightarrow> (manifest_list_entry, error) outcome list \<Rightarrow> 'w \<Rightarrow> (overwrite_manifest \<times> 'w, error) outcome" where
  "select_without_overwrites tm put offer items w =
     rbind (Compatibility_new tm) (\<lambda>c.
     rbind (try_fold (overwrite_step tm put offer)
              \<lparr>os_compatibility = c, os_state = None, os_file_count = 0, os_sink = (w, [])\<rparr> items) (\<lambda>s.
     Ok (\<lparr>om_manifest = map_option snd (os_state s),
          om_file_count_all_entries = os_file_count s,
          om_manifests_to_overwrite = snd (os_sink s)\<rparr>, fst (os_sink s))))"

definition select_manifest_without_overwrites_partitioned ::
  "('v, 'b, 's) table_io \<Rightarrow> table_metadata \<Rightarrow> rectangle \<Rightarrow> string set \<Rightarrow> (manifest_list_entry, error) outcome list
   \<Rightarrow> 'v list_sink \<Rightarrow> (overwrite_manifest \<times> 'v list_sink, error) outcome" where
  "select_manifest_without_overwrites_partitioned io tm bounding overwrites =
     (let put = put_or_collect overwrites (append_manifest io)
      in select_without_overwrites tm put (offer_partitioned (io_values io) bounding put))"

definition select_manifest_without_overwrites_unpartitioned ::
  "('v, 'b, 's) table_io \<Rightarrow> table_metadata \<Rightarrow> string set \<Rightarrow> (manifest_list_entry, error) outcome list
   \<Rightarrow> 'v list_sink \<Rightarrow> (overwrite_manifest \<times> 'v list_sink, error) outcome" where
  "select_manifest_without_overwrites_unpartitioned io tm overwrites =
     (let put = put_or_collect overwrites (append_manifest io)
      in select_without_overwrites tm put (offer_unpartitioned put))"

text \<open>\<open>append_summary\<close> counts the data files of an append.\<close>

definition append_summary :: "data_file list \<Rightarrow> (string \<rightharpoonup> string) option" where
  "append_summary files =
     (if files = [] then None
      else let ds = filter (\<lambda>f. df_content f = Data) files
           in Some [''added-files-size'' \<mapsto>
                      show_int (wrap64 (sum_list (map df_file_size_in_bytes ds))),
                    ''added-records'' \<mapsto> show_int (wrap64 (sum_list (map df_record_count ds))),
                    ''added-data-files'' \<mapsto> show_nat (length ds)])"

section \<open>No manifest is lost\<close>

lemma collect_items_Ok: "collect_items xs = Ok ms \<longleftrightarrow> xs = map Ok ms"
proof -
  have "list_all2 (\<lambda>x y. x = Ok y) xs ms \<longleftrightarrow> xs = map Ok ms"
    by (auto simp: list_all2_conv_all_nth intro: nth_equalityI)
  then show ?thesis by (simp add: collect_items_def try_map_eq_Ok)
qed

fun chosen :: "('k \<times> manifest_list_entry) option \<Rightarrow> manifest_list_entry multiset" where
  "chosen None = {#}"
| "chosen (Some (k, m)) = {#m#}"

text \<open>
  An offer of a manifest with property \<open>P\<close> puts into the sink what it does not keep selected.
\<close>

definition offer_conserves ::
  "('w \<Rightarrow> manifest_list_entry multiset \<Rightarrow> bool) \<Rightarrow> (manifest_list_entry \<Rightarrow> bool)
   \<Rightarrow> (manifest_list_entry \<Rightarrow> ('k \<times> manifest_list_entry) option \<Rightarrow> 'w
        \<Rightarrow> (('k \<times> manifest_list_entry) option \<times> 'w, error) outcome) \<Rightarrow> bool" where
  "offer_conserves holds P offer \<longleftrightarrow>
     (\<forall>m sel w sel' w' M. P m \<longrightarrow> offer m sel w = Ok (sel', w') \<longrightarrow> holds w M \<longrightarrow>
        (\<exists>N. holds w' (M + N) \<and> N + chosen sel' = add_mset m (chosen sel)))"

context manifest_sink
begin

lemma put_one: "put w m = Ok w' \<Longrightarrow> holds w M \<Longrightarrow> holds w' (M + {#m#})"
  using put_holds by simp

lemma offer_partitioned_conserves:
  "offer_conserves holds (\<lambda>_. True) (offer_partitioned lib bounding put)"
  unfolding offer_conserves_def
proof (intro allI impI)
  fix m :: manifest_list_entry and sel :: "(rectangle \<times> manifest_list_entry) option" and w sel' w' M
  assume o': "offer_partitioned lib bounding put m sel w = Ok (sel', w')" and h: "holds w M"
  show "\<exists>N. holds w' (M + N) \<and> N + chosen sel' = add_mset m (chosen sel)"
  proof (cases sel)
    case None
    with o' h show ?thesis
      by (intro exI [of _ "{#}"]) (auto simp: offer_partitioned_def)
  next
    case (Some s)
    then obtain b sm where s: "sel = Some (b, sm)" by (cases s) auto
    from o' consider b' where "put w sm = Ok w'" "sel' = Some (b', m)"
      | "put w m = Ok w'" "sel' = sel"
      by (auto simp: offer_partitioned_def s split: if_splits)
    then show ?thesis
    proof cases
      case 1
      with put_one [OF 1(1) h] s show ?thesis by (intro exI [of _ "{#sm#}"]) auto
    next
      case 2
      with put_one [OF 2(1) h] s show ?thesis by (intro exI [of _ "{#m#}"]) auto
    qed
  qed
qed

lemma offer_unpartitioned_conserves:
  "offer_conserves holds (\<lambda>m. ml_added_rows_count m \<noteq> None) (offer_unpartitioned put)"
  unfolding offer_conserves_def
proof (intro allI impI)
  fix m :: manifest_list_entry and sel :: "(i64 option \<times> manifest_list_entry) option" and w sel' w' M
  assume c: "ml_added_rows_count m \<noteq> None" and o': "offer_unpartitioned put m sel w = Ok (sel', w')" and h: "holds w M"
  show "\<exists>N. holds w' (M + N) \<and> N + chosen sel' = add_mset m (chosen sel)"
  proof (cases sel)
    case None
    with o' h show ?thesis
      by (intro exI [of _ "{#}"]) (auto simp: offer_unpartitioned_def)
  next
    case (Some s)
    then obtain b sm where s: "sel = Some (b, sm)" by (cases s) auto
    from o' c consider b' where "put w sm = Ok w'" "sel' = Some (b', m)"
      | "put w m = Ok w'" "sel' = sel"
      by (auto simp: offer_unpartitioned_def s split: if_splits)
    then show ?thesis
    proof cases
      case 1
      with put_one [OF 1(1) h] s show ?thesis by (intro exI [of _ "{#sm#}"]) auto
    next
      case 2
      with put_one [OF 2(1) h] s show ?thesis by (intro exI [of _ "{#m#}"]) auto
    qed
  qed
qed

lemma select_step_conserves:
  assumes off: "offer_conserves holds P offer" and P: "P m"
    and st: "select_step tm put offer s (Ok m) = Ok s'" and h: "holds (sel_sink s) M"
  shows "\<exists>N. holds (sel_sink s') (M + N) \<and> N + chosen (sel_data_state s') + chosen (sel_delete_state s')
    = add_mset m (chosen (sel_data_state s) + chosen (sel_delete_state s))"
proof -
  obtain b c where "Compatibility_allows (sel_compatibility s) m tm = Ok (b, c)"
    using st by (auto simp: select_step_def)
  note st' = st [unfolded select_step_def rbind.simps this prod.case Let_def]
  show ?thesis
  proof (cases b)
    case False
    with st' h show ?thesis
      by (intro exI [of _ "{#m#}"]) (auto dest: put_one)
  next
    case True
    show ?thesis
    proof (cases "ml_content m")
      case ContentData
      with st' True obtain d w where o': "offer m (sel_data_state s) (sel_sink s) = Ok (d, w)"
        "sel_data_state s' = d" "sel_sink s' = w" "sel_delete_state s' = sel_delete_state s"
        by auto
      with off P h obtain N where "holds w (M + N)" "N + chosen d = add_mset m (chosen (sel_data_state s))"
        unfolding offer_conserves_def by blast
      with o' show ?thesis by (intro exI [of _ N]) (simp add: union_assoc)
    next
      case ContentDeletes
      with st' True obtain d w where o': "offer m (sel_delete_state s) (sel_sink s) = Ok (d, w)"
        "sel_delete_state s' = d" "sel_sink s' = w" "sel_data_state s' = sel_data_state s"
        by auto
      with off P h obtain N where "holds w (M + N)" "N + chosen d = add_mset m (chosen (sel_delete_state s))"
        unfolding offer_conserves_def by blast
      moreover have "N + chosen (sel_data_state s) + chosen d = chosen (sel_data_state s) + (N + chosen d)"
        by (simp add: union_ac)
      ultimately show ?thesis using o' by (intro exI [of _ N]) simp
    qed
  qed
qed

lemma selection_conserves:
  assumes off: "offer_conserves holds P offer"
  shows "try_fold (select_step tm put offer) s (map Ok ms) = Ok s' \<Longrightarrow> \<forall>m\<in>set ms. P m \<Longrightarrow> holds (sel_sink s) M \<Longrightarrow>
    \<exists>N. holds (sel_sink s') (M + N) \<and> N + chosen (sel_data_state s') + chosen (sel_delete_state s')
      = mset ms + chosen (sel_data_state s) + chosen (sel_delete_state s)"
proof (induction ms arbitrary: s M)
  case Nil
  then show ?case by (intro exI [of _ "{#}"]) simp
next
  case (Cons m ms)
  from Cons.prems(1) obtain t where t: "select_step tm put offer s (Ok m) = Ok t"
    "try_fold (select_step tm put offer) t (map Ok ms) = Ok s'"
    by auto
  from select_step_conserves [OF off _ t(1) Cons.prems(3)] Cons.prems(2) obtain N where
    N: "holds (sel_sink t) (M + N)" "N + chosen (sel_data_state t) + chosen (sel_delete_state t)
    = add_mset m (chosen (sel_data_state s) + chosen (sel_delete_state s))"
    by auto
  from Cons.IH [OF t(2) _ N(1)] Cons.prems(2) obtain K where
    K: "holds (sel_sink s') (M + N + K)" "K + chosen (sel_data_state s') + chosen (sel_delete_state s')
      = mset ms + chosen (sel_data_state t) + chosen (sel_delete_state t)"
    by auto
  have "N + K + chosen (sel_data_state s') + chosen (sel_delete_state s')
      = N + (mset ms + chosen (sel_data_state t) + chosen (sel_delete_state t))"
    unfolding K(2) [symmetric] by (simp add: union_ac)
  also have "\<dots> = mset ms + (N + chosen (sel_data_state t) + chosen (sel_delete_state t))"
    by (simp add: union_ac)
  finally have "N + K + chosen (sel_data_state s') + chosen (sel_delete_state s')
      = mset (m # ms) + chosen (sel_data_state s) + chosen (sel_delete_state s)"
    unfolding N(2) by (simp add: union_ac)
  then show ?case
    using K(1) by (intro exI [of _ "N + K"]) (simp add: union_assoc)
qed

lemma overwrite_selection_conserves:
  assumes off: "offer_conserves holds P offer"
  shows "try_fold (overwrite_step tm put offer) s (map Ok ms) = Ok s' \<Longrightarrow> \<forall>m\<in>set ms. P m \<Longrightarrow> holds (os_sink s) M \<Longrightarrow>
    \<exists>N. holds (os_sink s') (M + N) \<and> N + chosen (os_state s') = mset ms + chosen (os_state s)"
proof (induction ms arbitrary: s M)
  case Nil
  then show ?case by (intro exI [of _ "{#}"]) simp
next
  case (Cons m ms)
  from Cons.prems(1) obtain t where t: "overwrite_step tm put offer s (Ok m) = Ok t"
    "try_fold (overwrite_step tm put offer) t (map Ok ms) = Ok s'"
    by auto
  obtain b c where "Compatibility_allows (os_compatibility s) m tm = Ok (b, c)"
    using t(1) by (auto simp: overwrite_step_def)
  note st' = t(1) [unfolded overwrite_step_def rbind.simps this prod.case Let_def]
  have "\<exists>N. holds (os_sink t) (M + N) \<and> N + chosen (os_state t) = add_mset m (chosen (os_state s))"
  proof (cases b)
    case False
    with st' Cons.prems(3) show ?thesis
      by (intro exI [of _ "{#m#}"]) (auto dest: put_one)
  next
    case True
    with st' obtain d w where "offer m (os_state s) (os_sink s) = Ok (d, w)" "os_state t = d" "os_sink t = w"
      by auto
    with off Cons.prems(2,3) show ?thesis unfolding offer_conserves_def by auto
  qed
  then obtain N where N: "holds (os_sink t) (M + N)" "N + chosen (os_state t) = add_mset m (chosen (os_state s))"
    by blast
  from Cons.IH [OF t(2) _ N(1)] Cons.prems(2) obtain K where
    K: "holds (os_sink s') (M + N + K)" "K + chosen (os_state s') = mset ms + chosen (os_state t)"
    by auto
  have "N + K + chosen (os_state s') = N + (mset ms + chosen (os_state t))"
    unfolding K(2) [symmetric] by (simp add: union_ac)
  also have "\<dots> = mset ms + (N + chosen (os_state t))" by (simp add: union_ac)
  finally show ?case
    using K(1) N(2) by (intro exI [of _ "N + K"]) (simp add: union_ac)
qed

end

lemma select_manifests_Ok:
  "select_manifests tm put offer items w = Ok (sel, w') \<longleftrightarrow>
   (\<exists>c s. Compatibility_new tm = Ok c
     \<and> try_fold (select_step tm put offer)
         \<lparr>sel_compatibility = c, sel_data_state = None, sel_delete_state = None, sel_file_count = 0, sel_sink = w\<rparr> items = Ok s
     \<and> sel = \<lparr>sm_data_manifest = map_option snd (sel_data_state s),
              sm_delete_manifest = map_option snd (sel_delete_state s),
              sm_file_count_all_entries = sel_file_count s\<rparr> \<and> w' = sel_sink s)"
  by (auto simp: select_manifests_def)

fun option_mset :: "'a option \<Rightarrow> 'a multiset" where
  "option_mset None = {#}"
| "option_mset (Some x) = {#x#}"

lemma chosen_option_mset: "chosen s = option_mset (map_option snd s)"
  by (cases s) auto

lemma selection_result:
  assumes sel: "select_manifests tm put offer (map Ok ms) w = Ok (sel, w')"
    and cons: "\<And>s s' M. try_fold (select_step tm put offer) s (map Ok ms) = Ok s' \<Longrightarrow> holds (sel_sink s) M \<Longrightarrow>
      \<exists>N. holds (sel_sink s') (M + N) \<and> N + chosen (sel_data_state s') + chosen (sel_delete_state s')
        = mset ms + chosen (sel_data_state s) + chosen (sel_delete_state s)"
    and h: "holds w M"
  shows "\<exists>N. holds w' (M + N) \<and> N + option_mset (sm_data_manifest sel) + option_mset (sm_delete_manifest sel) = mset ms"
proof -
  obtain c s where s: "try_fold (select_step tm put offer)
         \<lparr>sel_compatibility = c, sel_data_state = None, sel_delete_state = None, sel_file_count = 0, sel_sink = w\<rparr>
         (map Ok ms) = Ok s"
    "sel = \<lparr>sm_data_manifest = map_option snd (sel_data_state s),
            sm_delete_manifest = map_option snd (sel_delete_state s),
            sm_file_count_all_entries = sel_file_count s\<rparr>" "w' = sel_sink s"
    using sel by (auto simp: select_manifests_Ok)
  from cons [OF s(1)] h show ?thesis
    by (auto simp: s(2,3) chosen_option_mset)
qed

lemma selection_keeps_every_manifest_lemma:
  assumes items: "collect_items items = Ok ms" and h: "list_holds io w M"
    and sel: "select_manifest_partitioned io tm bounding items w = Ok (sel, w')
      \<or> select_manifest_unpartitioned io tm items w = Ok (sel, w') \<and> (\<forall>m\<in>set ms. ml_added_rows_count m \<noteq> None)"
  shows "\<exists>N. list_holds io w' (M + N)
    \<and> N + option_mset (sm_data_manifest sel) + option_mset (sm_delete_manifest sel) = mset ms"
proof -
  have i: "items = map Ok ms" using items by (simp add: collect_items_Ok)
  from sel show ?thesis
  proof
    assume "select_manifest_partitioned io tm bounding items w = Ok (sel, w')"
    then show ?thesis
      unfolding select_manifest_partitioned_def i
      by (rule selection_result [where holds = "list_holds io"])
        (use list_file.selection_conserves [OF list_file.offer_partitioned_conserves] h in auto)
  next
    assume "select_manifest_unpartitioned io tm items w = Ok (sel, w') \<and> (\<forall>m\<in>set ms. ml_added_rows_count m \<noteq> None)"
    then have u: "select_manifests tm (append_manifest io) (offer_unpartitioned (append_manifest io)) (map Ok ms) w = Ok (sel, w')"
      and c: "\<forall>m\<in>set ms. ml_added_rows_count m \<noteq> None"
      by (simp_all add: select_manifest_unpartitioned_def i)
    show ?thesis
      by (rule selection_result [where holds = "list_holds io", OF u])
        (use list_file.selection_conserves [OF list_file.offer_unpartitioned_conserves _ c] h in auto)
  qed
qed

text \<open>
  C33. Selecting the manifest to add files to loses no manifest of the old list. Those of the
  old list that are not selected are written to the new one, once each, besides what it
  already held. In an unpartitioned table this needs the row counts to be present.
\<close>

theorem selection_keeps_every_manifest:
  assumes items: "collect_items items = Ok ms" and h: "list_holds io w M"
    and sel: "select_manifest_partitioned io tm bounding items w = Ok (sel, w')
      \<or> select_manifest_unpartitioned io tm items w = Ok (sel, w') \<and> (\<forall>m\<in>set ms. ml_added_rows_count m \<noteq> None)"
  shows "\<exists>N. list_holds io w' (M + N)
    \<and> N + option_mset (sm_data_manifest sel) + option_mset (sm_delete_manifest sel) = mset ms"
  using assms by (rule selection_keeps_every_manifest_lemma)

lemma overwrite_selection_keeps_every_manifest_lemma:
  assumes items: "collect_items items = Ok ms" and h: "list_holds io w {#}"
    and sel: "select_manifest_without_overwrites_partitioned io tm bounding overwrites items w = Ok (sel, w')
      \<or> select_manifest_without_overwrites_unpartitioned io tm overwrites items w = Ok (sel, w')
         \<and> (\<forall>m\<in>set ms. ml_added_rows_count m \<noteq> None)"
  shows "\<exists>N. list_holds io w' N
    \<and> N + mset (om_manifests_to_overwrite sel) + option_mset (om_manifest sel) = mset ms
    \<and> (\<forall>m\<in>#N. ml_manifest_path m \<notin> overwrites)
    \<and> (\<forall>m\<in>set (om_manifests_to_overwrite sel). ml_manifest_path m \<in> overwrites)"
proof -
  define put where "put = put_or_collect overwrites (append_manifest io)"
  have i: "items = map Ok ms" using items by (simp add: collect_items_Ok)
  have start: "collect_holds overwrites (list_holds io) (w, []) {#}"
    using h by (simp add: collect_holds_def)
  have res: ?thesis
    if r: "select_without_overwrites tm put offer (map Ok ms) w = Ok (sel, w')"
      and cons: "\<And>s s' M. try_fold (overwrite_step tm put offer) s (map Ok ms) = Ok s' \<Longrightarrow>
        collect_holds overwrites (list_holds io) (os_sink s) M \<Longrightarrow>
        \<exists>N. collect_holds overwrites (list_holds io) (os_sink s') (M + N) \<and> N + chosen (os_state s') = mset ms + chosen (os_state s)"
    for offer :: "manifest_list_entry \<Rightarrow> ('k \<times> manifest_list_entry) option \<Rightarrow> _"
  proof -
    obtain c s where s: "try_fold (overwrite_step tm put offer)
        \<lparr>os_compatibility = c, os_state = None, os_file_count = 0, os_sink = (w, [])\<rparr> (map Ok ms) = Ok s"
      "sel = \<lparr>om_manifest = map_option snd (os_state s), om_file_count_all_entries = os_file_count s,
              om_manifests_to_overwrite = snd (os_sink s)\<rparr>" "w' = fst (os_sink s)"
      using r by (auto simp: select_without_overwrites_def)
    from cons [OF s(1), of "{#}"] start obtain N where
      N: "collect_holds overwrites (list_holds io) (os_sink s) N" "N + chosen (os_state s) = mset ms"
      by auto
    from N(1) obtain K where "list_holds io w' K" "N = K + mset (snd (os_sink s))"
      "\<forall>m\<in>#K. ml_manifest_path m \<notin> overwrites" "\<forall>m\<in>set (snd (os_sink s)). ml_manifest_path m \<in> overwrites"
      by (auto simp: collect_holds_def s(3))
    with N(2) s(2) show ?thesis by (intro exI [of _ K]) (simp add: chosen_option_mset)
  qed
  from sel show ?thesis
  proof
    assume "select_manifest_without_overwrites_partitioned io tm bounding overwrites items w = Ok (sel, w')"
    then show ?thesis
      unfolding select_manifest_without_overwrites_partitioned_def Let_def i put_def [symmetric]
      by (rule res) (use collected_file.overwrite_selection_conserves [OF collected_file.offer_partitioned_conserves]
          in \<open>auto simp: put_def\<close>)
  next
    assume "select_manifest_without_overwrites_unpartitioned io tm overwrites items w = Ok (sel, w')
         \<and> (\<forall>m\<in>set ms. ml_added_rows_count m \<noteq> None)"
    then have u: "select_without_overwrites tm put (offer_unpartitioned put) (map Ok ms) w = Ok (sel, w')"
      and c: "\<forall>m\<in>set ms. ml_added_rows_count m \<noteq> None"
      by (simp_all add: select_manifest_without_overwrites_unpartitioned_def Let_def i put_def)
    show ?thesis
      by (rule res [OF u]) (use collected_file.overwrite_selection_conserves [OF collected_file.offer_unpartitioned_conserves _ c]
          in \<open>auto simp: put_def\<close>)
  qed
qed

text \<open>
  Preparing an overwrite loses no manifest either: each manifest of the old list is written
  to the new one, handed back to be rewritten, or selected. Those handed back are the ones
  named for overwriting, and none of these is written as it is.
\<close>

theorem overwrite_selection_keeps_every_manifest:
  assumes items: "collect_items items = Ok ms" and h: "list_holds io w {#}"
    and sel: "select_manifest_without_overwrites_partitioned io tm bounding overwrites items w = Ok (sel, w')
      \<or> select_manifest_without_overwrites_unpartitioned io tm overwrites items w = Ok (sel, w')
         \<and> (\<forall>m\<in>set ms. ml_added_rows_count m \<noteq> None)"
  shows "\<exists>N. list_holds io w' N
    \<and> N + mset (om_manifests_to_overwrite sel) + option_mset (om_manifest sel) = mset ms
    \<and> (\<forall>m\<in>#N. ml_manifest_path m \<notin> overwrites)
    \<and> (\<forall>m\<in>set (om_manifests_to_overwrite sel). ml_manifest_path m \<in> overwrites)"
  using assms by (rule overwrite_selection_keeps_every_manifest_lemma)

text \<open>
  A manifest without a row count replaces the selected one, which is not written: the files
  of the manifest selected before are gone from the new list.
\<close>

theorem manifest_without_row_count_drops_selected:
  assumes allowed: "Compatibility_new tm = Ok c"
      "Compatibility_allows c m tm = Ok (True, c')" "Compatibility_allows c' m' tm = Ok (True, c'')"
    and data: "ml_content m = ContentData" "ml_content m' = ContentData" and cnt: "ml_added_rows_count m' = None"
  shows "\<exists>n. select_manifest_unpartitioned io tm [Ok m, Ok m'] w
    = Ok (\<lparr>sm_data_manifest = Some m', sm_delete_manifest = None, sm_file_count_all_entries = n\<rparr>, w)"
  using assms
  by (simp add: select_manifest_unpartitioned_def select_manifests_def select_step_def Let_def
      offer_unpartitioned_def)

definition sample_list_table :: table_metadata where
  "sample_list_table =
     (sample_part_table V2)\<lparr>tm_snapshots := [7 \<mapsto> sample_snapshot\<lparr>sn_schema_id := Some 0\<rparr>]\<rparr>"

lemma sample_data_types: "data_types sample_spec (sch_fields sample_schema) = Ok [Primitive PString]"
  by (simp add: data_types_def tranform_def)

abbreviation sample_compat :: "(i32 \<rightharpoonup> bool) \<Rightarrow> manifest_rewrite_compatibility" where
  "sample_compat c \<equiv> \<lparr>mrc_current_spec_id = 0, mrc_compatible_schema_ids = c, mrc_partition_types = [Primitive PString]\<rparr>"

lemma sample_compatibility: "Compatibility_new sample_list_table = Ok (sample_compat Map.empty)"
  by (simp add: Compatibility_new_def sample_list_table_def current_schema_def default_partition_spec_def
      sample_part_table_def sample_table_def sample_data_types)

lemma sample_allows:
  assumes "ml_partition_spec_id m = 0" "ml_added_snapshot_id m = 7"
  shows "Compatibility_allows (sample_compat Map.empty) m sample_list_table = Ok (True, sample_compat [0 \<mapsto> True])"
    "Compatibility_allows (sample_compat [0 \<mapsto> True]) m sample_list_table = Ok (True, sample_compat [0 \<mapsto> True])"
  using assms
  by (simp_all add: Compatibility_allows_def schema_compatible_def sample_list_table_def
      sample_part_table_def sample_table_def sample_data_types)

theorem manifest_without_row_count_drops_selected_witness:
  "\<exists>n. select_manifest_unpartitioned sample_io sample_list_table
     [Ok (sample_list_entry V1), Ok ((sample_list_entry V1)\<lparr>ml_manifest_path := ''n'', ml_added_rows_count := None\<rparr>)]
     (AvroWriter_new (manifest_list_schema V2), None)
   = Ok (\<lparr>sm_data_manifest = Some ((sample_list_entry V1)\<lparr>ml_manifest_path := ''n'', ml_added_rows_count := None\<rparr>),
          sm_delete_manifest = None, sm_file_count_all_entries = n\<rparr>,
        (AvroWriter_new (manifest_list_schema V2), None))"
  by (rule manifest_without_row_count_drops_selected [OF sample_compatibility sample_allows(1) sample_allows(2)])
    (simp_all add: sample_list_entry_def)

text \<open>Entries without partitions appended to a V2 list, for the witnesses.\<close>

definition small_entry :: "int \<Rightarrow> manifest_list_entry" where
  "small_entry n = (sample_list_entry V1)\<lparr>ml_added_rows_count := Some n, ml_partitions := None\<rparr>"

lemma small_entry_simps [simp]:
  "ml_partition_spec_id (small_entry n) = 0" "ml_added_snapshot_id (small_entry n) = 7"
  "ml_content (small_entry n) = ContentData" "ml_added_rows_count (small_entry n) = Some n"
  "ml_manifest_path (small_entry n) = ''m''"
  by (simp_all add: small_entry_def sample_list_entry_def)

lemma append_small_entry:
  assumes "0 \<le> n"
  shows "\<exists>w. append_manifest sample_io (AvroWriter_new (manifest_list_schema V2), None) (small_entry n) = Ok w"
  using assms
  by (simp add: append_manifest_def prepare_manifest_def v2_required_counts_def small_entry_def sample_list_entry_def
      append_list_entry_def ManifestListEntryEnum_from_def ManifestListEntryV2_from_def sample_io_def AvroWriter_new_def)

lemma new_list_holds: "list_holds io (AvroWriter_new s, a) {#}"
  by (simp add: list_holds_def AvroWriter_new_def)

theorem selection_keeps_every_manifest_witness:
  "\<exists>sel w. select_manifest_unpartitioned sample_io sample_list_table [Ok (small_entry 9), Ok (small_entry 5)]
       (AvroWriter_new (manifest_list_schema V2), None) = Ok (sel, w)
    \<and> sm_data_manifest sel = Some (small_entry 5) \<and> list_holds sample_io w {#small_entry 9#}"
proof -
  let ?w = "(AvroWriter_new (manifest_list_schema V2), None) :: sample_value list_sink"
  obtain w where w: "append_manifest sample_io ?w (small_entry 9) = Ok w" using append_small_entry [of 9] by auto
  obtain n where r: "select_manifest_unpartitioned sample_io sample_list_table [Ok (small_entry 9), Ok (small_entry 5)] ?w
    = Ok (\<lparr>sm_data_manifest = Some (small_entry 5), sm_delete_manifest = None, sm_file_count_all_entries = n\<rparr>, w)"
    by (simp add: select_manifest_unpartitioned_def select_manifests_def select_step_def Let_def
        offer_unpartitioned_def sample_compatibility sample_allows w)
  have i: "collect_items [Ok (small_entry 9), Ok (small_entry 5)] = Ok [small_entry 9, small_entry 5]"
    by (simp add: collect_items_Ok)
  from selection_keeps_every_manifest [OF i new_list_holds disjI2, OF conjI [OF r]] obtain N where
    "list_holds sample_io w N" "N + {#small_entry 5#} = {#small_entry 9, small_entry 5#}"
    by auto
  then have "list_holds sample_io w {#small_entry 9#}" by (metis add_mset_add_single add_mset_commute add_right_cancel)
  with r show ?thesis by auto
qed

theorem overwrite_selection_keeps_every_manifest_witness:
  "\<exists>sel w. select_manifest_without_overwrites_unpartitioned sample_io sample_list_table {''n''}
       [Ok (small_entry 9), Ok (small_entry 5), Ok ((small_entry 7)\<lparr>ml_manifest_path := ''n''\<rparr>)]
       (AvroWriter_new (manifest_list_schema V2), None) = Ok (sel, w)
    \<and> om_manifest sel = Some (small_entry 5) \<and> om_manifests_to_overwrite sel = [(small_entry 7)\<lparr>ml_manifest_path := ''n''\<rparr>]
    \<and> list_holds sample_io w {#small_entry 9#}"
proof -
  let ?w = "(AvroWriter_new (manifest_list_schema V2), None) :: sample_value list_sink"
  let ?n = "(small_entry 7)\<lparr>ml_manifest_path := ''n''\<rparr>"
  obtain w where w: "append_manifest sample_io ?w (small_entry 9) = Ok w" using append_small_entry [of 9] by auto
  obtain n where r: "select_manifest_without_overwrites_unpartitioned sample_io sample_list_table {''n''}
      [Ok (small_entry 9), Ok (small_entry 5), Ok ?n] ?w
    = Ok (\<lparr>om_manifest = Some (small_entry 5), om_file_count_all_entries = n, om_manifests_to_overwrite = [?n]\<rparr>, w)"
    by (simp add: select_manifest_without_overwrites_unpartitioned_def select_without_overwrites_def overwrite_step_def
        Let_def offer_unpartitioned_def put_or_collect_def sample_compatibility sample_allows w)
  have i: "collect_items [Ok (small_entry 9), Ok (small_entry 5), Ok ?n] = Ok [small_entry 9, small_entry 5, ?n]"
    by (simp add: collect_items_Ok)
  from overwrite_selection_keeps_every_manifest [OF i new_list_holds disjI2, OF conjI [OF r]] obtain N where
    "list_holds sample_io w N" "N + {#?n#} + {#small_entry 5#} = {#small_entry 9, small_entry 5, ?n#}"
    by auto
  moreover from this(2) have "N + {#small_entry 5, ?n#} = {#small_entry 9#} + {#small_entry 5, ?n#}" by simp
  ultimately have "list_holds sample_io w {#small_entry 9#}" by (simp only: add_right_cancel)
  with r show ?thesis by auto
qed

section \<open>Splitting keeps every file\<close>

lemma split_step_keeps:
  "split_step lib rect names s (Ok e) = Ok s' \<Longrightarrow>
   mset (sp_smaller s') + mset (sp_larger s') = add_mset e (mset (sp_smaller s) + mset (sp_larger s))"
  by (auto simp: split_step_def split: option.splits if_splits)

lemma split_fold_keeps:
  "try_fold (split_step lib rect names) s (map Ok es) = Ok s' \<Longrightarrow>
   mset (sp_smaller s') + mset (sp_larger s') = mset (sp_smaller s) + mset (sp_larger s) + mset es"
proof (induction es arbitrary: s)
  case (Cons e es)
  then obtain t where t: "split_step lib rect names s (Ok e) = Ok t"
    "try_fold (split_step lib rect names) t (map Ok es) = Ok s'"
    by auto
  from Cons.IH [OF t(2)] split_step_keeps [OF t(1)] show ?case by simp
qed simp

lemma split_once_keeps:
  assumes "split_datafiles_once lib (map Ok es) rect names = Ok ((ss, sr), (ls, lr))"
  shows "mset ss + mset ls = mset es"
proof (cases "cmp_with_priority (r_min rect) (r_max rect) = Equal")
  case True
  have "mset (take n es) + mset (drop n es) = mset es" for n
    by (metis append_take_drop_id mset_append)
  moreover have "collect_items (map Ok es) = Ok es" by (simp add: collect_items_Ok)
  ultimately show ?thesis using assms True by (auto simp: split_datafiles_once_def)
next
  case False
  with assms obtain s where "try_fold (split_step lib rect names)
                    \<lparr>sp_smaller = [], sp_larger = [], sp_smaller_rect = None, sp_larger_rect = None\<rparr> (map Ok es) = Ok s"
    "ss = sp_smaller s" "ls = sp_larger s"
    by (auto simp: split_datafiles_once_def)
  from split_fold_keeps [OF this(1)] this(2,3) show ?thesis by simp
qed

lemma split_keeps:
  "split_datafiles lib (map Ok es) rect names n = Ok groups \<Longrightarrow>
   mset (concat groups) = mset es \<and> (\<forall>g\<in>set groups. g \<noteq> [])"
proof (induction lib "map Ok es :: (manifest_entry, error) outcome list" rect names n arbitrary: es groups rule: split_datafiles.induct)
  case (1 lib rect names n)
  from "1.prems" obtain ss sr ls lr where once: "split_datafiles_once lib (map Ok es) rect names = Ok ((ss, sr), (ls, lr))"
    and r: "(if n = 1 then Ok ((if ss \<noteq> [] then [ss] else []) @ (if ls \<noteq> [] then [ls] else []))
     else rbind (split_datafiles lib (map Ok ss) sr names (pred_u32 n)) (\<lambda>as.
          rbind (split_datafiles lib (map Ok ls) lr names (pred_u32 n)) (\<lambda>bs. Ok (as @ bs)))) = Ok groups"
    by (subst (asm) split_datafiles.simps) auto
  note keeps = split_once_keeps [OF once]
  show ?case
  proof (cases "n = 1")
    case True
    with r have "groups = (if ss \<noteq> [] then [ss] else []) @ (if ls \<noteq> [] then [ls] else [])" by simp
    with keeps show ?thesis by auto
  next
    case False
    with r obtain as bs where ab: "split_datafiles lib (map Ok ss) sr names (pred_u32 n) = Ok as"
      "split_datafiles lib (map Ok ls) lr names (pred_u32 n) = Ok bs" "groups = as @ bs"
      by auto
    have "mset (concat as) = mset ss \<and> (\<forall>g\<in>set as. g \<noteq> [])"
      by (rule "1.hyps"(1)) (use once False ab(1) in \<open>simp+\<close>)
    moreover have "mset (concat bs) = mset ls \<and> (\<forall>g\<in>set bs. g \<noteq> [])"
      by (rule "1.hyps"(2)) (use once False ab(1,2) in \<open>simp+\<close>)
    ultimately
    show ?thesis using ab(3) keeps by auto
  qed
qed

lemma split_count: "1 \<le> n \<Longrightarrow> n < 2 ^ 32 \<Longrightarrow> split_datafiles lib files rect names n = Ok groups \<Longrightarrow> length groups \<le> 2 ^ n"
proof (induction n arbitrary: files rect groups rule: nat_induct_at_least)
  case base
  then show ?case by (subst (asm) split_datafiles.simps) auto
next
  case (Suc n)
  from Suc.prems(2) obtain ss sr ls lr as bs where
    ab: "split_datafiles lib (map Ok ss) sr names n = Ok as" "split_datafiles lib (map Ok ls) lr names n = Ok bs"
      "groups = as @ bs"
    using Suc.hyps by (subst (asm) split_datafiles.simps) (auto simp: pred_u32_def split: if_splits)
  from Suc.IH [OF _ ab(1)] Suc.IH [OF _ ab(2)] Suc.prems(1) ab(3) show ?case by simp
qed

lemma split_unbounded: "1 \<le> n \<Longrightarrow> \<exists>groups. split_datafiles lib (map Ok es) (Rectangle_new [] []) names n = Ok groups"
proof (induction n arbitrary: es rule: nat_induct_at_least)
  case base
  have "collect_items (map Ok es) = Ok es" by (simp add: collect_items_Ok)
  then show ?case by (subst split_datafiles.simps) (simp add: split_datafiles_once_def Rectangle_new_def)
next
  case (Suc n)
  have c: "collect_items (map Ok es) = Ok es" by (simp add: collect_items_Ok)
  obtain as bs where "split_datafiles lib (map Ok (take (length es div 2) es)) (Rectangle_new [] []) names n = Ok as"
    "split_datafiles lib (map Ok (drop (length es div 2) es)) (Rectangle_new [] []) names n = Ok bs"
    using Suc.IH by blast
  with c Suc.hyps show ?case
    by (subst split_datafiles.simps) (simp add: split_datafiles_once_def Rectangle_new_def pred_u32_def)
qed

text \<open>
  Splitting distributes the files: every file is in exactly one group, no group is empty,
  and there are at most \<open>2 ^ n\<close> of them. Without bounds the recursion always succeeds.
\<close>

theorem split_keeps_every_file:
  assumes "1 \<le> n" "n < 2 ^ 32"
  shows "(split_datafiles lib (map Ok es) rect names n = Ok groups \<longrightarrow>
      mset (concat groups) = mset es \<and> (\<forall>g\<in>set groups. g \<noteq> []) \<and> length groups \<le> 2 ^ n)
    \<and> (\<exists>gs. split_datafiles lib (map Ok es) (Rectangle_new [] []) names n = Ok gs)"
  using split_keeps [of lib es rect names n groups] split_count [OF assms, of lib "map Ok es" rect names groups]
    split_unbounded [OF assms(1), of lib es names]
  by simp

theorem split_keeps_every_file_witness:
  "\<exists>gs. split_datafiles sample_lib [Ok (sample_entry V3 5), Ok (sample_entry V3 7)] (Rectangle_new [] []) [''region''] 2 = Ok gs
    \<and> mset (concat gs) = {#sample_entry V3 5, sample_entry V3 7#} \<and> length gs \<le> 4"
proof -
  let ?es = "[sample_entry V3 5, sample_entry V3 7]"
  have "\<exists>gs. split_datafiles sample_lib (map Ok ?es) (Rectangle_new [] []) [''region''] 2 = Ok gs"
    by (rule split_keeps_every_file [THEN conjunct2]) simp_all
  then obtain gs where g: "split_datafiles sample_lib (map Ok ?es) (Rectangle_new [] []) [''region''] 2 = Ok gs"
    by blast
  have "mset (concat gs) = mset ?es \<and> (\<forall>g\<in>set gs. g \<noteq> []) \<and> length gs \<le> 2 ^ 2"
    by (rule split_keeps_every_file [THEN conjunct1, rule_format, OF _ _ g]) simp_all
  with g show ?thesis by simp
qed

section \<open>How many splits\<close>

lemma takeWhile_squares: "takeWhile (\<lambda>k. k * k \<le> n) [1..<Suc n] = [1..<Suc (length (takeWhile (\<lambda>k. k * k \<le> n) [1..<Suc n]))]"
proof -
  let ?t = "takeWhile (\<lambda>k. k * k \<le> n) [1..<Suc n]"
  have "?t = take (length ?t) [1..<Suc n]" by (rule takeWhile_eq_take)
  moreover have "length ?t \<le> n"
    using length_takeWhile_le [of "\<lambda>k. k * k \<le> n" "[1..<Suc n]"] by (simp del: upt_Suc)
  ultimately show ?thesis by (simp add: take_upt del: upt_Suc)
qed

lemma isqrt_bounds: "isqrt n * isqrt n \<le> n" "n < Suc (isqrt n) * Suc (isqrt n)"
proof -
  let ?t = "takeWhile (\<lambda>k. k * k \<le> n) [1..<Suc n]"
  show "isqrt n * isqrt n \<le> n"
  proof (cases "isqrt n = 0")
    case False
    then have "isqrt n \<in> set [1..<Suc (length ?t)]"
      unfolding isqrt_def set_upt atLeastLessThan_iff by linarith
    then have "isqrt n \<in> set ?t" using takeWhile_squares by metis
    then show ?thesis by (auto dest: set_takeWhileD)
  qed simp
  show "n < Suc (isqrt n) * Suc (isqrt n)"
  proof (cases "length ?t < length [1..<Suc n]")
    case True
    then have "\<not> [1..<Suc n] ! length ?t * [1..<Suc n] ! length ?t \<le> n"
      by (rule nth_length_takeWhile)
    with True show ?thesis by (simp add: isqrt_def nth_upt del: upt_Suc)
  next
    case False
    then have "n \<le> isqrt n" by (simp add: isqrt_def del: upt_Suc)
    also have "isqrt n < Suc (isqrt n) * Suc (isqrt n)" by simp
    finally show ?thesis .
  qed
qed

lemma ilog2_bounds: "0 < x \<Longrightarrow> 2 ^ ilog2 x \<le> x \<and> x < 2 * 2 ^ ilog2 x"
proof (induction x rule: ilog2.induct)
  case (1 x)
  show ?case
  proof (cases "x < 2")
    case True
    with 1 show ?thesis by (subst (1 2) ilog2.simps) auto
  next
    case False
    with 1 have "2 ^ ilog2 (x div 2) \<le> x div 2" "x div 2 < 2 * 2 ^ ilog2 (x div 2)" by auto
    with False show ?thesis by (subst (1 2) ilog2.simps) auto
  qed
qed

text \<open>
  With \<open>limit\<close> the square root of the number of files, plus four: a manifest that stays
  below the limit is not split, and otherwise the number of splits is the least one that
  brings the average group below the limit.
\<close>

theorem n_splits_bounds_the_groups:
  "let limit = MIN_DATAFILES_PER_MANIFEST + isqrt (existing + new); k = compute_n_splits existing new selected in
     isqrt (existing + new) * isqrt (existing + new) \<le> existing + new
     \<and> existing + new < Suc (isqrt (existing + new)) * Suc (isqrt (existing + new))
     \<and> (k = 0 \<longleftrightarrow> selected + new < limit)
     \<and> (0 < k \<longrightarrow> 2 ^ (k - 1) * limit \<le> selected + new \<and> selected + new < 2 ^ k * limit)"
proof -
  define limit where "limit = MIN_DATAFILES_PER_MANIFEST + isqrt (existing + new)"
  define x where "x = (selected + new) div limit"
  have pos: "0 < limit" by (simp add: limit_def MIN_DATAFILES_PER_MANIFEST_def)
  have k: "compute_n_splits existing new selected = (if x = 0 then 0 else ilog2 x + 1)"
    by (simp add: compute_n_splits_def Let_def x_def limit_def)
  have zero: "x = 0 \<longleftrightarrow> selected + new < limit"
    using pos by (simp add: x_def div_eq_0_iff)
  have le: "2 ^ ilog2 x * limit \<le> selected + new" if "0 < x"
  proof -
    have "2 ^ ilog2 x * limit \<le> x * limit" using ilog2_bounds [OF that] by simp
    also have "\<dots> \<le> selected + new" by (simp add: x_def)
    finally show ?thesis .
  qed
  have less: "selected + new < 2 * 2 ^ ilog2 x * limit" if "0 < x"
  proof -
    have "selected + new < Suc x * limit"
      unfolding x_def by (metis pos dividend_less_div_times mult.commute mult_Suc_right)
    also have "\<dots> \<le> 2 * 2 ^ ilog2 x * limit"
      using ilog2_bounds [OF that] by (intro mult_right_mono) auto
    finally show ?thesis .
  qed
  show ?thesis
    unfolding Let_def limit_def [symmetric]
  proof (intro conjI impI)
    show "isqrt (existing + new) * isqrt (existing + new) \<le> existing + new"
      "existing + new < Suc (isqrt (existing + new)) * Suc (isqrt (existing + new))"
      by (rule isqrt_bounds)+
    show "compute_n_splits existing new selected = 0 \<longleftrightarrow> selected + new < limit"
      using k zero by simp
    assume "0 < compute_n_splits existing new selected"
    then have "0 < x" "compute_n_splits existing new selected = ilog2 x + 1" using k by (auto split: if_splits)
    then show "2 ^ (compute_n_splits existing new selected - 1) * limit \<le> selected + new"
      "selected + new < 2 ^ compute_n_splits existing new selected * limit"
      using le less by simp_all
  qed
qed

theorem n_splits_bounds_the_groups_witness:
  "0 < compute_n_splits 16 20 4
   \<and> 2 ^ (compute_n_splits 16 20 4 - 1) * 10 \<le> (4 + 20 :: nat) \<and> (4 + 20 :: nat) < 2 ^ compute_n_splits 16 20 4 * 10"
proof -
  have i: "isqrt 36 = 6" by code_simp
  have "compute_n_splits 16 20 4 \<noteq> 0"
    using n_splits_bounds_the_groups [of 16 20 4] by (simp add: i MIN_DATAFILES_PER_MANIFEST_def Let_def)
  then show ?thesis
    using n_splits_bounds_the_groups [of 16 20 4] by (simp add: i MIN_DATAFILES_PER_MANIFEST_def Let_def)
qed

end
