(* ===== verification/Manifest_List_Writer.thy ===== *)
theory Manifest_List_Writer
  imports Manifest_Select
begin

text \<open>
  The writer of a manifest list (\<open>iceberg-rust/src/table/manifest_list.rs\<close>): starting a list
  from nothing, from an existing one or without the manifests to overwrite, adding entries to a
  selected or a new manifest, splitting, filtering, and finishing the list.
\<close>

section \<open>The state\<close>

record 'v manifest_list_writer =
  mlw_table_metadata :: table_metadata
  mlw_sink :: "'v list_sink"
  mlw_selected_data_manifest :: "manifest_list_entry option"
  mlw_selected_delete_manifest :: "manifest_list_entry option"
  mlw_bounding_partition_values :: rectangle
  mlw_n_existing_files :: nat
  mlw_commit_uuid :: string
  mlw_manifest_count :: nat

text \<open>
  The sink holds the Avro writer and the row id assigner, which the code passes together. The
  random UUID of the commit is an argument.
\<close>

definition new_manifest_location :: "string \<Rightarrow> string \<Rightarrow> nat \<Rightarrow> string" where
  "new_manifest_location table_location commit_uuid i =
     table_location @ ''/metadata/'' @ commit_uuid @ ''-m'' @ show_nat i @ ''.avro''"

definition new_manifest_list_location :: "string \<Rightarrow> i64 \<Rightarrow> i64 \<Rightarrow> string \<Rightarrow> string" where
  "new_manifest_list_location table_location snapshot_id attempt commit_uuid =
     table_location @ ''/metadata/snap-'' @ show_int snapshot_id @ ''-'' @ show_int attempt @ ''-'' @ commit_uuid @ ''.avro''"

definition partition_column_names :: "table_metadata \<Rightarrow> (string list, error) outcome" where
  "partition_column_names tm =
     rbind (map_err Iceberg (current_partition_fields tm)) (\<lambda>fs. Ok (map bf_name fs))"

definition list_row_ids :: "table_metadata \<Rightarrow> row_id_assigner option" where
  "list_row_ids tm = (if tm_format_version tm = V3 then Some (RowIdAssigner_new (tm_next_row_id tm)) else None)"

definition ListWriter_new ::
  "('v, 'b, 's) table_io \<Rightarrow> string \<Rightarrow> data_file list \<Rightarrow> avro_schema \<Rightarrow> table_metadata
   \<Rightarrow> ('v manifest_list_writer, error) outcome" where
  "ListWriter_new io uuid files schema tm =
     rbind (partition_column_names tm) (\<lambda>names.
     rbind (bounding_partition_values files names) (\<lambda>bounding.
     Ok \<lparr>mlw_table_metadata = tm, mlw_sink = (AvroWriter_new schema, list_row_ids tm),
         mlw_selected_data_manifest = None, mlw_selected_delete_manifest = None,
         mlw_bounding_partition_values = bounding, mlw_n_existing_files = 0,
         mlw_commit_uuid = uuid, mlw_manifest_count = 0\<rparr>))"

section \<open>Starting from an existing list\<close>

text \<open>The running number of files of all manifests, in checked arithmetic.\<close>

definition list_file_count :: "nat \<Rightarrow> manifest_list_entry \<Rightarrow> (nat, error) outcome" where
  "list_file_count n manifest =
     rbind (ok_or (InvalidFormat ''manifest file count'')
       (checked_add_i32 (case ml_added_files_count manifest of Some c \<Rightarrow> c | None \<Rightarrow> 0)
          (case ml_existing_files_count manifest of Some c \<Rightarrow> c | None \<Rightarrow> 0))) (\<lambda>file_count.
     if file_count < 0 then Err (TryFromInt ''out of range integral type conversion attempted'')
     else ok_or (InvalidFormat ''manifest file count'')
       (if n + nat file_count < 2 ^ 64 then Some (n + nat file_count) else None))"

text \<open>
  The loop that keeps every manifest as it is: it is counted and put. \<open>put_or_collect\<close> is the
  variant that sets the manifests to overwrite aside.
\<close>

definition preserve_step ::
  "('w \<Rightarrow> manifest_list_entry \<Rightarrow> ('w, error) outcome) \<Rightarrow> nat \<times> 'w \<Rightarrow> (manifest_list_entry, error) outcome
   \<Rightarrow> (nat \<times> 'w, error) outcome" where
  "preserve_step put s x =
     rbind x (\<lambda>manifest.
     rbind (list_file_count (fst s) manifest) (\<lambda>n.
     rbind (put (snd s) manifest) (\<lambda>w. Ok (n, w))))"

definition ListWriter_from_existing ::
  "('v, 'b, 's) table_io \<Rightarrow> string \<Rightarrow> 'b \<Rightarrow> data_file list \<Rightarrow> avro_schema \<Rightarrow> table_metadata
   \<Rightarrow> ('v manifest_list_writer, error) outcome" where
  "ListWriter_from_existing io uuid bytes files schema tm =
     rbind (partition_column_names tm) (\<lambda>names.
     rbind (bounding_partition_values files names) (\<lambda>bounding.
     rbind (ListReader_new io bytes tm) (\<lambda>reader.
     if tm_format_version tm = V3
     then rbind (try_fold (preserve_step (append_manifest io)) (0, (AvroWriter_new schema, list_row_ids tm))
                   (list_items io reader)) (\<lambda>(n, sink).
          Ok \<lparr>mlw_table_metadata = tm, mlw_sink = sink,
              mlw_selected_data_manifest = None, mlw_selected_delete_manifest = None,
              mlw_bounding_partition_values = bounding, mlw_n_existing_files = n,
              mlw_commit_uuid = uuid, mlw_manifest_count = 0\<rparr>)
     else rbind (if names = [] then select_manifest_unpartitioned io tm (list_items io reader) (AvroWriter_new schema, None)
                 else select_manifest_partitioned io tm bounding (list_items io reader) (AvroWriter_new schema, None))
            (\<lambda>(sel, sink).
          Ok \<lparr>mlw_table_metadata = tm, mlw_sink = sink,
              mlw_selected_data_manifest = sm_data_manifest sel,
              mlw_selected_delete_manifest = sm_delete_manifest sel,
              mlw_bounding_partition_values = bounding, mlw_n_existing_files = sm_file_count_all_entries sel,
              mlw_commit_uuid = uuid, mlw_manifest_count = 0\<rparr>))))"

definition ListWriter_from_existing_without_overwrites ::
  "('v, 'b, 's) table_io \<Rightarrow> string \<Rightarrow> 'b \<Rightarrow> data_file list \<Rightarrow> string set \<Rightarrow> avro_schema \<Rightarrow> table_metadata
   \<Rightarrow> ('v manifest_list_writer \<times> manifest_list_entry list, error) outcome" where
  "ListWriter_from_existing_without_overwrites io uuid bytes files manifests_to_overwrite schema tm =
     rbind (partition_column_names tm) (\<lambda>names.
     rbind (bounding_partition_values files names) (\<lambda>bounding.
     rbind (ListReader_new io bytes tm) (\<lambda>reader.
     if tm_format_version tm = V3
     then rbind (try_fold (preserve_step (put_or_collect manifests_to_overwrite (append_manifest io)))
                   (0, ((AvroWriter_new schema, list_row_ids tm), [])) (list_items io reader)) (\<lambda>(n, (sink, manifests)).
          Ok (\<lparr>mlw_table_metadata = tm, mlw_sink = sink,
               mlw_selected_data_manifest = None, mlw_selected_delete_manifest = None,
               mlw_bounding_partition_values = bounding, mlw_n_existing_files = n,
               mlw_commit_uuid = uuid, mlw_manifest_count = 0\<rparr>, manifests))
     else rbind (if names = []
                 then select_manifest_without_overwrites_unpartitioned io tm manifests_to_overwrite
                        (list_items io reader) (AvroWriter_new schema, list_row_ids tm)
                 else select_manifest_without_overwrites_partitioned io tm bounding manifests_to_overwrite
                        (list_items io reader) (AvroWriter_new schema, list_row_ids tm)) (\<lambda>(sel, sink).
          Ok (\<lparr>mlw_table_metadata = tm, mlw_sink = sink,
               mlw_selected_data_manifest = om_manifest sel, mlw_selected_delete_manifest = None,
               mlw_bounding_partition_values = bounding, mlw_n_existing_files = om_file_count_all_entries sel,
               mlw_commit_uuid = uuid, mlw_manifest_count = 0\<rparr>, om_manifests_to_overwrite sel)))))"

definition ListWriter_from_existing_for_deletion ::
  "('v, 'b, 's) table_io \<Rightarrow> string \<Rightarrow> 'b \<Rightarrow> string set \<Rightarrow> avro_schema \<Rightarrow> table_metadata
   \<Rightarrow> ('v manifest_list_writer \<times> manifest_list_entry list, error) outcome" where
  "ListWriter_from_existing_for_deletion io uuid bytes manifests_to_overwrite schema tm =
     rbind (ListReader_new io bytes tm) (\<lambda>reader.
     rbind (try_fold (preserve_step (put_or_collect manifests_to_overwrite (append_manifest io)))
              (0, ((AvroWriter_new schema, list_row_ids tm), [])) (list_items io reader)) (\<lambda>(n, (sink, manifests)).
     Ok (\<lparr>mlw_table_metadata = tm, mlw_sink = sink,
          mlw_selected_data_manifest = None, mlw_selected_delete_manifest = None,
          mlw_bounding_partition_values = Rectangle_new [] [], mlw_n_existing_files = n,
          mlw_commit_uuid = uuid, mlw_manifest_count = 0\<rparr>, manifests)))"

section \<open>Adding entries\<close>

text \<open>\<open>x + y\<close> on \<open>i32\<close> wraps around before the cast to \<open>usize\<close>.\<close>

definition selected_manifest_of :: "ml_content \<Rightarrow> 'v manifest_list_writer \<Rightarrow> manifest_list_entry option" where
  "selected_manifest_of content w =
     (case content of ContentData \<Rightarrow> mlw_selected_data_manifest w | ContentDeletes \<Rightarrow> mlw_selected_delete_manifest w)"

definition ListWriter_n_splits :: "'v manifest_list_writer \<Rightarrow> nat \<Rightarrow> ml_content \<Rightarrow> nat" where
  "ListWriter_n_splits w n_data_files content =
     (let selected_count = Option.bind (selected_manifest_of content w) (\<lambda>m.
            case (ml_existing_files_count m, ml_added_files_count m) of
              (Some x, Some y) \<Rightarrow> Some (wrap32 (x + y))
            | (Some x, None) \<Rightarrow> Some x
            | (None, Some y) \<Rightarrow> Some y
            | (None, None) \<Rightarrow> None)
      in compute_n_splits (mlw_n_existing_files w) n_data_files
           (i32_as_usize (case selected_count of Some c \<Rightarrow> c | None \<Rightarrow> 0)))"

definition take_selected ::
  "ml_content \<Rightarrow> 'v manifest_list_writer \<Rightarrow> manifest_list_entry option \<times> 'v manifest_list_writer" where
  "take_selected content w =
     (case content of
        ContentData \<Rightarrow> (mlw_selected_data_manifest w, w\<lparr>mlw_selected_data_manifest := None\<rparr>)
      | ContentDeletes \<Rightarrow> (mlw_selected_delete_manifest w, w\<lparr>mlw_selected_delete_manifest := None\<rparr>))"

definition next_manifest_location :: "'v manifest_list_writer \<Rightarrow> string \<times> 'v manifest_list_writer" where
  "next_manifest_location w =
     (new_manifest_location (tm_location (mlw_table_metadata w)) (mlw_commit_uuid w) (mlw_manifest_count w),
      w\<lparr>mlw_manifest_count := mlw_manifest_count w + 1\<rparr>)"

definition append_new_manifest ::
  "('v, 'b, 's) table_io \<Rightarrow> 'v manifest_list_writer \<Rightarrow> manifest_list_entry \<Rightarrow> ('v manifest_list_writer, error) outcome" where
  "append_new_manifest io w manifest =
     rbind (append_manifest io (mlw_sink w) manifest) (\<lambda>sink. Ok (w\<lparr>mlw_sink := sink\<rparr>))"

text \<open>
  The bytes of the selected manifest, which a task prefetches: it is read when it is awaited,
  nothing else changes its file meanwhile.
\<close>

definition prefetch_manifest ::
  "('v, 'b, 's) table_io \<Rightarrow> 's \<Rightarrow> manifest_list_entry \<Rightarrow> ('b, error) outcome" where
  "prefetch_manifest io st selected = store_get io st (ml_manifest_path selected)"

definition append_entries ::
  "('v, 'b, 's) table_io \<Rightarrow> 'v manifest_writer \<Rightarrow> (manifest_entry, error) outcome list
   \<Rightarrow> ('v manifest_writer, error) outcome" where
  "append_entries io = try_fold (\<lambda>mw x. rbind x (ManifestWriter_append io mw))"

definition table_entry_schema :: "('v, 'b, 's) table_io \<Rightarrow> table_metadata \<Rightarrow> (avro_schema, error) outcome" where
  "table_entry_schema io tm =
     rbind (map_err Iceberg (current_partition_fields tm)) (\<lambda>fs. entry_schema io fs (tm_format_version tm))"

text \<open>The writer of the manifest: of the selected one, with or without a filter, or of a new one.\<close>

definition open_manifest ::
  "('v, 'b, 's) table_io \<Rightarrow> 's \<Rightarrow> manifest_list_entry option \<Rightarrow> string \<Rightarrow> string set option \<Rightarrow> i64 \<Rightarrow> avro_schema
   \<Rightarrow> table_metadata \<Rightarrow> ml_content \<Rightarrow> ('v manifest_writer \<times> filtered_manifest_stats option, error) outcome" where
  "open_manifest io st selected manifest_location fltr snapshot_id schema tm content =
     (case selected of
        Some manifest \<Rightarrow>
          rbind (prefetch_manifest io st manifest) (\<lambda>bytes.
          let manifest' = manifest\<lparr>ml_manifest_path := manifest_location\<rparr>
          in case fltr of
               Some f \<Rightarrow>
                 rbind (ManifestReader_new io bytes) (\<lambda>reader.
                 rbind (ManifestWriter_from_existing_with_filter io reader manifest' f snapshot_id schema tm None) (\<lambda>(mw, stats).
                 Ok (mw, Some stats)))
             | None \<Rightarrow>
                 rbind (ManifestReader_new io bytes) (\<lambda>reader.
                 rbind (ManifestWriter_from_existing io (mr_reader reader) manifest' snapshot_id schema tm) (\<lambda>mw.
                 Ok (mw, None))))
      | None \<Rightarrow>
          rbind (ManifestWriter_new io manifest_location snapshot_id schema tm content) (\<lambda>mw. Ok (mw, None)))"

text \<open>
  The future that writes a file is the pending pair of its path and bytes; awaiting it is
  \<open>write_pending\<close>.
\<close>

definition append_filtered_concurrently ::
  "('v, 'b, 's) table_io \<Rightarrow> 's \<Rightarrow> 'v manifest_list_writer \<Rightarrow> (manifest_entry, error) outcome list \<Rightarrow> i64
   \<Rightarrow> string set option \<Rightarrow> ml_content
   \<Rightarrow> ('v manifest_list_writer \<times> (string \<times> 'b) \<times> filtered_manifest_stats option, error) outcome" where
  "append_filtered_concurrently io st w files snapshot_id fltr content =
     (let (selected, w1) = take_selected content w
      in rbind (table_entry_schema io (mlw_table_metadata w1)) (\<lambda>schema.
         let (location, w2) = next_manifest_location w1
         in rbind (open_manifest io st selected location fltr snapshot_id schema (mlw_table_metadata w2) content) (\<lambda>(mw, stats).
            rbind (append_entries io mw files) (\<lambda>mw'.
            rbind (ManifestWriter_finish_concurrently io mw') (\<lambda>(manifest, pending).
            rbind (append_new_manifest io w2 manifest) (\<lambda>w3.
            Ok (w3, pending, stats)))))))"

definition write_pending ::
  "('v, 'b, 's) table_io \<Rightarrow> 's \<Rightarrow> (string \<times> 'b) list \<Rightarrow> ('s, error) outcome" where
  "write_pending io = try_fold (\<lambda>st (path, bytes). store_put io st path bytes)"

definition append_filtered ::
  "('v, 'b, 's) table_io \<Rightarrow> 's \<Rightarrow> 'v manifest_list_writer \<Rightarrow> (manifest_entry, error) outcome list \<Rightarrow> i64
   \<Rightarrow> string set option \<Rightarrow> ml_content
   \<Rightarrow> ('v manifest_list_writer \<times> filtered_manifest_stats option \<times> 's, error) outcome" where
  "append_filtered io st w files snapshot_id fltr content =
     rbind (append_filtered_concurrently io st w files snapshot_id fltr content) (\<lambda>(w', pending, stats).
     rbind (write_pending io st [pending]) (\<lambda>st'.
     Ok (w', stats, st')))"

definition append_concurrently ::
  "('v, 'b, 's) table_io \<Rightarrow> 's \<Rightarrow> 'v manifest_list_writer \<Rightarrow> (manifest_entry, error) outcome list \<Rightarrow> i64
   \<Rightarrow> ml_content \<Rightarrow> ('v manifest_list_writer \<times> (string \<times> 'b), error) outcome" where
  "append_concurrently io st w files snapshot_id content =
     rbind (append_filtered_concurrently io st w files snapshot_id None content) (\<lambda>(w', pending, _).
     Ok (w', pending))"

definition ListWriter_append ::
  "('v, 'b, 's) table_io \<Rightarrow> 's \<Rightarrow> 'v manifest_list_writer \<Rightarrow> (manifest_entry, error) outcome list \<Rightarrow> i64
   \<Rightarrow> ml_content \<Rightarrow> ('v manifest_list_writer \<times> 's, error) outcome" where
  "ListWriter_append io st w files snapshot_id content =
     rbind (append_filtered io st w files snapshot_id None content) (\<lambda>(w', _, st'). Ok (w', st'))"

section \<open>Adding entries to several manifests\<close>

text \<open>
  The live entries of the selected manifest, with what they inherit from it; an entry of a
  filtered file is counted and set aside as deleted. Errors of the reader stay in the list.
\<close>

fun keep_live ::
  "manifest_list_entry \<Rightarrow> string set option \<Rightarrow> filtered_manifest_stats \<Rightarrow> (manifest_entry, error) outcome list
   \<Rightarrow> (manifest_entry, error) outcome list \<times> filtered_manifest_stats" where
  "keep_live manifest fltr stats [] = ([], stats)"
| "keep_live manifest fltr stats (Ok entry # rest) =
     (let e = inherit_from_manifest (ml_sequence_number manifest) (ml_added_snapshot_id manifest) entry
      in if me_status entry = Deleted then keep_live manifest fltr stats rest
         else if (case fltr of Some f \<Rightarrow> df_file_path (me_data_file e) \<in> f | None \<Rightarrow> False)
         then keep_live manifest fltr
                (let s = count_removed stats (me_data_file e)
                 in s\<lparr>fms_filtered_entries := fms_filtered_entries s @ [e\<lparr>me_status := Deleted\<rparr>]\<rparr>) rest
         else (let (es, s) = keep_live manifest fltr stats rest in (Ok (e\<lparr>me_status := Existing\<rparr>) # es, s)))"
| "keep_live manifest fltr stats (x # rest) =
     (let (es, s) = keep_live manifest fltr stats rest in (x # es, s))"

definition write_split ::
  "('v, 'b, 's) table_io \<Rightarrow> i64 \<Rightarrow> avro_schema \<Rightarrow> ml_content
   \<Rightarrow> 'v manifest_list_writer \<times> manifest_list_entry list \<times> (string \<times> 'b) list \<Rightarrow> manifest_entry list
   \<Rightarrow> ('v manifest_list_writer \<times> manifest_list_entry list \<times> (string \<times> 'b) list, error) outcome" where
  "write_split io snapshot_id schema content s entries =
     (let (w, manifests, pending) = s; (location, w') = next_manifest_location w
      in rbind (ManifestWriter_new io location snapshot_id schema (mlw_table_metadata w') content) (\<lambda>mw.
         rbind (append_entries io mw (map Ok entries)) (\<lambda>mw'.
         rbind (ManifestWriter_finish_concurrently io mw') (\<lambda>(manifest, p).
         Ok (w', manifests @ [manifest], pending @ [p])))))"

text \<open>The box to split along: the one of the selected manifest, grown by that of the new files.\<close>

definition split_bounds ::
  "manifest_list_entry option \<Rightarrow> rectangle \<Rightarrow> (rectangle, error) outcome" where
  "split_bounds selected bounding =
     (case Option.bind selected ml_partitions of
        Some ps \<Rightarrow> expand (summary_to_rectangle ps) bounding
      | None \<Rightarrow> Ok bounding)"

definition append_multiple_filtered_concurrently ::
  "('v, 'b, 's) table_io \<Rightarrow> 's \<Rightarrow> 'v manifest_list_writer \<Rightarrow> (manifest_entry, error) outcome list \<Rightarrow> i64 \<Rightarrow> nat
   \<Rightarrow> string set option \<Rightarrow> ml_content
   \<Rightarrow> ('v manifest_list_writer \<times> (string \<times> 'b) list \<times> filtered_manifest_stats option, error) outcome" where
  "append_multiple_filtered_concurrently io st w files snapshot_id n_splits fltr content =
     rbind (partition_column_names (mlw_table_metadata w)) (\<lambda>names.
     rbind (table_entry_schema io (mlw_table_metadata w)) (\<lambda>schema.
     let (selected, w1) = take_selected content w
     in rbind (split_bounds selected (mlw_bounding_partition_values w1)) (\<lambda>bounds.
        rbind (case selected of
                 Some manifest \<Rightarrow>
                   rbind (prefetch_manifest io st manifest) (\<lambda>bytes.
                   rbind (ManifestReader_new io bytes) (\<lambda>reader.
                   Ok (keep_live manifest fltr FilteredManifestStats_default (mr_reader reader))))
               | None \<Rightarrow> Ok ([], FilteredManifestStats_default)) (\<lambda>(kept, stats).
        rbind (split_datafiles (io_values io) (files @ kept) bounds names n_splits) (\<lambda>splits.
        rbind (try_fold (write_split io snapshot_id schema content) (w1, [], []) splits) (\<lambda>(w2, manifests, pending).
        rbind (try_fold (append_new_manifest io) w2 manifests) (\<lambda>w3.
        Ok (w3, pending, map_option (\<lambda>_. stats) fltr))))))))"

definition append_multiple_filtered ::
  "('v, 'b, 's) table_io \<Rightarrow> 's \<Rightarrow> 'v manifest_list_writer \<Rightarrow> (manifest_entry, error) outcome list \<Rightarrow> i64 \<Rightarrow> nat
   \<Rightarrow> string set option \<Rightarrow> ml_content
   \<Rightarrow> ('v manifest_list_writer \<times> filtered_manifest_stats option \<times> 's, error) outcome" where
  "append_multiple_filtered io st w files snapshot_id n_splits fltr content =
     rbind (append_multiple_filtered_concurrently io st w files snapshot_id n_splits fltr content) (\<lambda>(w', pending, stats).
     rbind (write_pending io st pending) (\<lambda>st'.
     Ok (w', stats, st')))"

definition append_multiple_concurrently ::
  "('v, 'b, 's) table_io \<Rightarrow> 's \<Rightarrow> 'v manifest_list_writer \<Rightarrow> (manifest_entry, error) outcome list \<Rightarrow> i64 \<Rightarrow> nat
   \<Rightarrow> ml_content \<Rightarrow> ('v manifest_list_writer \<times> (string \<times> 'b) list, error) outcome" where
  "append_multiple_concurrently io st w files snapshot_id n_splits content =
     rbind (append_multiple_filtered_concurrently io st w files snapshot_id n_splits None content) (\<lambda>(w', pending, _).
     Ok (w', pending))"

section \<open>Finishing the list\<close>

definition append_selected ::
  "('v, 'b, 's) table_io \<Rightarrow> 'v list_sink \<Rightarrow> manifest_list_entry option \<Rightarrow> ('v list_sink, error) outcome" where
  "append_selected io sink selected =
     (case selected of Some manifest \<Rightarrow> append_manifest io sink manifest | None \<Rightarrow> Ok sink)"

definition ListWriter_finish ::
  "('v, 'b, 's) table_io \<Rightarrow> 's \<Rightarrow> 'v manifest_list_writer \<Rightarrow> i64 \<Rightarrow> (string \<times> i64 option \<times> 's, error) outcome" where
  "ListWriter_finish io st w snapshot_id =
     rbind (append_selected io (mlw_sink w) (mlw_selected_data_manifest w)) (\<lambda>s1.
     rbind (append_selected io s1 (mlw_selected_delete_manifest w)) (\<lambda>s2.
     let location = new_manifest_list_location (tm_location (mlw_table_metadata w)) snapshot_id 0 (mlw_commit_uuid w)
     in rbind (io_avro_write io (fst s2)) (\<lambda>bytes.
        rbind (store_put io st location bytes) (\<lambda>st'.
        Ok (location, map_option ra_next_row_id (snd s2), st')))))"

section \<open>Filtering the manifests to overwrite\<close>

text \<open>
  One of the futures: it rewrites a manifest without the files named for it. A manifest of an
  old partition spec keeps its own schema and spec.
\<close>

definition filter_manifest ::
  "('v, 'b, 's) table_io \<Rightarrow> 's \<Rightarrow> avro_schema \<Rightarrow> (string \<rightharpoonup> string list) \<Rightarrow> i64 \<Rightarrow> table_metadata \<Rightarrow> string
   \<Rightarrow> manifest_list_entry \<Rightarrow> (manifest_list_entry \<times> filtered_manifest_stats \<times> 's, error) outcome" where
  "filter_manifest io st manifest_schema data_files_to_filter snapshot_id tm manifest_location manifest =
     rbind (ok_or (NotFound ''Datafiles for manifest'') (data_files_to_filter (ml_manifest_path manifest))) (\<lambda>files.
     rbind (store_get io st (ml_manifest_path manifest)) (\<lambda>bytes.
     rbind (ManifestReader_new io bytes) (\<lambda>reader.
     let source = (if ml_partition_spec_id manifest \<noteq> tm_default_spec_id tm then Some (mr_metadata reader) else None)
     in rbind (opt_try_map (\<lambda>(source_schema, source_spec, _).
             rbind (map_err Iceberg (partition_fields source_spec source_schema)) (\<lambda>fs.
             entry_schema io fs (tm_format_version tm))) source) (\<lambda>old_spec_schema.
        rbind (ManifestWriter_from_existing_with_filter io reader (manifest\<lparr>ml_manifest_path := manifest_location\<rparr>)
                 (set files) snapshot_id (case old_spec_schema of Some s \<Rightarrow> s | None \<Rightarrow> manifest_schema) tm
                 (map_option (\<lambda>(schema, spec, _). (schema, spec)) source)) (\<lambda>(mw, stats).
        rbind (ManifestWriter_finish io st mw) (\<lambda>(new_manifest, st').
        Ok (new_manifest, stats, st')))))))"

definition has_files :: "manifest_list_entry \<Rightarrow> bool" where
  "has_files m \<longleftrightarrow>
     (\<exists>c\<in>{ml_added_files_count m, ml_existing_files_count m, ml_deleted_files_count m}.
        0 < (case c of Some n \<Rightarrow> n | None \<Rightarrow> 0))"

definition append_and_filter_step ::
  "('v, 'b, 's) table_io \<Rightarrow> avro_schema \<Rightarrow> (string \<rightharpoonup> string list) \<Rightarrow> i64
   \<Rightarrow> 'v manifest_list_writer \<times> filtered_manifest_stats \<times> 's \<Rightarrow> manifest_list_entry
   \<Rightarrow> ('v manifest_list_writer \<times> filtered_manifest_stats \<times> 's, error) outcome" where
  "append_and_filter_step io manifest_schema data_files_to_filter snapshot_id s manifest =
     (let (w, removed, st) = s; (location, w1) = next_manifest_location w
      in rbind (filter_manifest io st manifest_schema data_files_to_filter snapshot_id (mlw_table_metadata w) location
                  manifest) (\<lambda>(new_manifest, stats, st').
         rbind (if has_files new_manifest then append_new_manifest io w1 new_manifest else Ok w1) (\<lambda>w2.
         Ok (w2, FilteredManifestStats_append removed stats, st'))))"

text \<open>
  The futures run concurrently and their results are taken in order. They write different
  files, so that running them one after the other is one of their schedules.
\<close>

definition append_and_filter ::
  "('v, 'b, 's) table_io \<Rightarrow> 's \<Rightarrow> 'v manifest_list_writer \<Rightarrow> manifest_list_entry list \<Rightarrow> (string \<rightharpoonup> string list) \<Rightarrow> i64
   \<Rightarrow> ('v manifest_list_writer \<times> filtered_manifest_stats \<times> 's, error) outcome" where
  "append_and_filter io st w manifests_to_overwrite data_files_to_filter snapshot_id =
     rbind (table_entry_schema io (mlw_table_metadata w)) (\<lambda>schema.
     try_fold (append_and_filter_step io schema data_files_to_filter snapshot_id)
       (w, FilteredManifestStats_default, st) manifests_to_overwrite)"

section \<open>What the writer holds\<close>

text \<open>
  The manifests of the list to be: those written so far and those selected.
\<close>

definition writer_holds ::
  "('v, 'b, 's) table_io \<Rightarrow> 'v manifest_list_writer \<Rightarrow> manifest_list_entry multiset \<Rightarrow> bool" where
  "writer_holds io w M \<longleftrightarrow>
     (\<exists>N. list_holds io (mlw_sink w) N
        \<and> M = N + option_mset (mlw_selected_data_manifest w) + option_mset (mlw_selected_delete_manifest w))"

interpretation list_writer: manifest_sink "append_new_manifest io" "writer_holds io" for io
proof
  fix w m w' M
  assume "append_new_manifest io w m = Ok w'" "writer_holds io w M"
  then obtain s N where s: "append_manifest io (mlw_sink w) m = Ok s" "w' = w\<lparr>mlw_sink := s\<rparr>"
    and N: "list_holds io (mlw_sink w) N"
      "M = N + option_mset (mlw_selected_data_manifest w) + option_mset (mlw_selected_delete_manifest w)"
    by (auto simp: append_new_manifest_def writer_holds_def)
  from list_file.put_holds [OF s(1) N(1)] N(2) s(2) show "writer_holds io w' (add_mset m M)"
    unfolding writer_holds_def by (intro exI [of _ "add_mset m N"]) simp
qed

lemma take_selected_holds:
  assumes "take_selected content w = (selected, w')" "writer_holds io w M"
  shows "selected = selected_manifest_of content w
    \<and> (\<exists>M'. writer_holds io w' M' \<and> M = M' + option_mset selected)
    \<and> mlw_table_metadata w' = mlw_table_metadata w \<and> mlw_commit_uuid w' = mlw_commit_uuid w
    \<and> mlw_manifest_count w' = mlw_manifest_count w"
  using assms by (cases content) (auto simp: take_selected_def selected_manifest_of_def writer_holds_def)

lemma next_location_holds [simp]:
  "writer_holds io (w\<lparr>mlw_manifest_count := n\<rparr>) M \<longleftrightarrow> writer_holds io w M"
  by (simp add: writer_holds_def)

lemma new_writer_holds: 
  "list_holds io s N \<Longrightarrow>
   writer_holds io \<lparr>mlw_table_metadata = tm, mlw_sink = s, mlw_selected_data_manifest = d,
     mlw_selected_delete_manifest = e, mlw_bounding_partition_values = r, mlw_n_existing_files = n,
     mlw_commit_uuid = u, mlw_manifest_count = k\<rparr> (N + option_mset d + option_mset e)"
  by (auto simp: writer_holds_def)

lemma preserve_step_Ok:
  "preserve_step put s (Ok m) = Ok s' \<longleftrightarrow> (\<exists>k v. list_file_count (fst s) m = Ok k \<and> put (snd s) m = Ok v \<and> s' = (k, v))"
  by (auto simp: preserve_step_def)

context manifest_sink
begin

lemma preserve_holds:
  "try_fold (preserve_step put) (n, w) (map Ok ms) = Ok (n', w') \<Longrightarrow> holds w M \<Longrightarrow> holds w' (M + mset ms)"
proof (induction ms arbitrary: n w M)
  case (Cons m ms)
  then obtain k v where "put w m = Ok v" "try_fold (preserve_step put) (k, v) (map Ok ms) = Ok (n', w')"
    by (auto simp: preserve_step_Ok)
  from Cons.IH [OF this(2) put_holds [OF this(1) Cons.prems(2)]] show ?case by simp
qed simp

end

text \<open>A list started from an existing one holds all of its manifests.\<close>

lemma from_existing_holds:
  assumes w: "ListWriter_from_existing io uuid bytes files schema tm = Ok w"
    and r: "ListReader_new io bytes tm = Ok reader" "collect_items (list_items io reader) = Ok ms"
    and counts: "tm_format_version tm = V3 \<or> partition_column_names tm \<noteq> Ok [] \<or> (\<forall>m\<in>set ms. ml_added_rows_count m \<noteq> None)"
  shows "writer_holds io w (mset ms)"
proof -
  have items: "list_items io reader = map Ok ms" using r(2) by (simp add: collect_items_Ok)
  show ?thesis
  proof (cases "tm_format_version tm = V3")
    case True
    with w r(1) items obtain n sink where
      f: "try_fold (preserve_step (append_manifest io)) (0, (AvroWriter_new schema, list_row_ids tm)) (map Ok ms) = Ok (n, sink)"
      and s: "mlw_sink w = sink" "mlw_selected_data_manifest w = None" "mlw_selected_delete_manifest w = None"
      by (auto simp: ListWriter_from_existing_def)
    from list_file.preserve_holds [OF f new_list_holds] s show ?thesis by (auto simp: writer_holds_def)
  next
    case False
    with w r(1) obtain names bounding sel sink where
      n: "partition_column_names tm = Ok names" and
      s: "(if names = [] then select_manifest_unpartitioned io tm (list_items io reader) (AvroWriter_new schema, None)
                 else select_manifest_partitioned io tm bounding (list_items io reader) (AvroWriter_new schema, None)) = Ok (sel, sink)"
      "mlw_sink w = sink" "mlw_selected_data_manifest w = sm_data_manifest sel"
      "mlw_selected_delete_manifest w = sm_delete_manifest sel"
      by (auto simp: ListWriter_from_existing_def)
    have d: "select_manifest_partitioned io tm bounding (list_items io reader) (AvroWriter_new schema, None) = Ok (sel, sink)
      \<or> select_manifest_unpartitioned io tm (list_items io reader) (AvroWriter_new schema, None) = Ok (sel, sink)
         \<and> (\<forall>m\<in>set ms. ml_added_rows_count m \<noteq> None)"
      using s(1) n counts False by (auto split: if_splits)
    from selection_keeps_every_manifest_lemma [OF r(2) new_list_holds d] s(2-4) show ?thesis
      by (auto simp: writer_holds_def)
  qed
qed

section \<open>Adding entries and finishing\<close>

lemma finish_concurrently_Ok:
  "ManifestWriter_finish_concurrently io w = Ok (m, p) \<longleftrightarrow>
   (\<exists>b. io_avro_write io (mw_writer w) = Ok b \<and> p = (ml_manifest_path (mw_manifest w), b)
      \<and> m = (mw_manifest w)\<lparr>ml_manifest_length := wrap64 (int (io_len io b))\<rparr>)"
  by (auto simp: ManifestWriter_finish_concurrently_def finished_manifest_def)

text \<open>The path of a manifest does not change while entries are added.\<close>

lemma ManifestWriter_append_path:
  "ManifestWriter_append io w e = Ok w' \<Longrightarrow> ml_manifest_path (mw_manifest w') = ml_manifest_path (mw_manifest w)"
  by (drule ManifestWriter_append_Ok) auto

lemma append_entries_path:
  "append_entries io w xs = Ok w' \<Longrightarrow> ml_manifest_path (mw_manifest w') = ml_manifest_path (mw_manifest w)"
proof (induction xs arbitrary: w)
  case (Cons x xs)
  then obtain v where "rbind x (ManifestWriter_append io w) = Ok v" "append_entries io v xs = Ok w'"
    by (auto simp: append_entries_def)
  with Cons.IH ManifestWriter_append_path show ?case by fastforce
qed (simp add: append_entries_def)

lemma open_manifest_path:
  assumes "open_manifest io st selected location fltr sid schema tm content = Ok (mw, stats)"
  shows "ml_manifest_path (mw_manifest mw) = location"
proof (cases selected)
  case None
  with assms show ?thesis by (auto simp: open_manifest_def ManifestWriter_new_def new_manifest_entry_def)
next
  case (Some m)
  with assms show ?thesis
    by (cases fltr) (auto simp: open_manifest_def Let_def ManifestWriter_from_existing_def rewritten_manifest_def
        ManifestWriter_from_existing_with_filter_def split: if_splits)
qed

lemma append_filtered_concurrently_holds:
  assumes r: "append_filtered_concurrently io st w files sid fltr content = Ok (w', (path, b), stats)"
    and h: "writer_holds io w M"
  shows "path = fst (next_manifest_location w)
    \<and> (\<exists>m M'. ml_manifest_path m = path \<and> M = M' + option_mset (selected_manifest_of content w)
         \<and> writer_holds io w' (add_mset m M'))"
proof -
  obtain selected w1 where t: "take_selected content w = (selected, w1)" by force
  obtain location w2 where n: "next_manifest_location w1 = (location, w2)" by force
  from r obtain schema mw mw' manifest w3 where
    o: "open_manifest io st selected location fltr sid schema (mlw_table_metadata w2) content = Ok (mw, stats)"
    and e: "append_entries io mw files = Ok mw'"
    and f: "ManifestWriter_finish_concurrently io mw' = Ok (manifest, (path, b))"
    and a: "append_new_manifest io w2 manifest = Ok w'"
    by (auto simp: append_filtered_concurrently_def t n)
  from take_selected_holds [OF t h] obtain M' where M': "writer_holds io w1 M'" "M = M' + option_mset selected"
    and s: "selected = selected_manifest_of content w" "mlw_table_metadata w1 = mlw_table_metadata w"
      "mlw_commit_uuid w1 = mlw_commit_uuid w" "mlw_manifest_count w1 = mlw_manifest_count w"
    by auto
  from n M'(1) have "writer_holds io w2 M'" by (auto simp: next_manifest_location_def)
  from list_writer.put_holds [OF a this] have h': "writer_holds io w' (add_mset manifest M')" .
  have "ml_manifest_path manifest = path" "path = location"
    using f append_entries_path [OF e] open_manifest_path [OF o] by (auto simp: finish_concurrently_Ok)
  moreover have "location = fst (next_manifest_location w)"
    using n s by (auto simp: next_manifest_location_def)
  ultimately show ?thesis using M'(2) s(1) h' by blast
qed

text \<open>What the file of a manifest list holds.\<close>

definition list_file_holds ::
  "('v, 'b, 's) table_io \<Rightarrow> 's \<Rightarrow> string \<Rightarrow> manifest_list_entry multiset \<Rightarrow> bool" where
  "list_file_holds io st location M \<longleftrightarrow>
     (\<exists>c ms vs. rbind (store_get io st location) (io_avro_read io) = Ok c \<and> ac_values c = map Ok vs
        \<and> mset ms = M \<and> list_all2 (manifest_written io) ms vs)"

lemma append_selected_holds:
  "append_selected io s selected = Ok s' \<Longrightarrow> list_holds io s N \<Longrightarrow> list_holds io s' (N + option_mset selected)"
  by (cases selected) (auto simp: append_selected_def dest: list_file.put_holds)

lemma finish_holds:
  assumes laws: "avro_laws io" "store_laws io"
    and f: "ListWriter_finish io st w sid = Ok (location, next, st')" and h: "writer_holds io w M"
  shows "list_file_holds io st' location M
    \<and> location = new_manifest_list_location (tm_location (mlw_table_metadata w)) sid 0 (mlw_commit_uuid w)"
proof -
  from f obtain s1 s2 bytes where
    s: "append_selected io (mlw_sink w) (mlw_selected_data_manifest w) = Ok s1"
      "append_selected io s1 (mlw_selected_delete_manifest w) = Ok s2"
      "io_avro_write io (fst s2) = Ok bytes" "store_put io st location bytes = Ok st'"
      "location = new_manifest_list_location (tm_location (mlw_table_metadata w)) sid 0 (mlw_commit_uuid w)"
    by (auto simp: ListWriter_finish_def Let_def)
  from h obtain N where N: "list_holds io (mlw_sink w) N"
    "M = N + option_mset (mlw_selected_data_manifest w) + option_mset (mlw_selected_delete_manifest w)"
    by (auto simp: writer_holds_def)
  have "list_holds io s2 M"
    using append_selected_holds [OF s(2) append_selected_holds [OF s(1) N(1)]] N(2) by simp
  then obtain ms where ms: "mset ms = M" "list_all2 (manifest_written io) ms (aw_values (fst s2))"
    by (auto simp: list_holds_def)
  have "store_get io st' location = Ok bytes"
    using laws(2) s(4) by (auto simp: store_laws_def store_get_def store_put_def)
  moreover have "io_avro_read io bytes = Ok \<lparr>ac_schema = aw_schema (fst s2),
      ac_user_metadata = map_of (aw_user_metadata (fst s2)), ac_values = map Ok (aw_values (fst s2))\<rparr>"
    using laws(1) s(3) by (auto simp: avro_laws_def)
  ultimately show ?thesis using ms s(5) by (auto simp: list_file_holds_def)
qed


section \<open>Splitting the selected manifest\<close>

text \<open>An entry as it goes on: with what it inherits from its manifest, and its new status.\<close>

definition carried :: "manifest_list_entry \<Rightarrow> status \<Rightarrow> manifest_entry \<Rightarrow> manifest_entry" where
  "carried manifest status e =
     (inherit_from_manifest (ml_sequence_number manifest) (ml_added_snapshot_id manifest) e)\<lparr>me_status := status\<rparr>"

definition filtered_files :: "string set option \<Rightarrow> string set" where
  "filtered_files fltr = (case fltr of Some f \<Rightarrow> f | None \<Rightarrow> {})"

lemma kept_Cons:
  "kept f (e # es) = (if me_status e \<noteq> Deleted \<and> df_file_path (me_data_file e) \<notin> f then e # kept f es else kept f es)"
  "removed f (e # es) = (if me_status e \<noteq> Deleted \<and> df_file_path (me_data_file e) \<in> f then e # removed f es else removed f es)"
  by (simp_all add: kept_def removed_def live_def)

lemma kept_Nil: "kept f [] = []" "removed f [] = []"
  by (simp_all add: kept_def removed_def live_def)

lemma wrap32_Suc: "wrap32 (wrap32 (a + 1) + b) = wrap32 (a + (1 + b))"
  by (subst wrap32_add) (simp add: ac_simps)

lemma keep_live_entries:
  "keep_live manifest fltr stats (map Ok es)
   = (map Ok (map (carried manifest Existing) (kept (filtered_files fltr) es)), s) \<and>
   fms_filtered_entries s = fms_filtered_entries stats @ map (carried manifest Deleted) (removed (filtered_files fltr) es)
   \<and> fms_removed_data_files s = (if removed (filtered_files fltr) es = [] then fms_removed_data_files stats
        else wrap32 (fms_removed_data_files stats + int (length (removed (filtered_files fltr) es))))"
  if "s = snd (keep_live manifest fltr stats (map Ok es))"
  using that
proof (induction es arbitrary: stats s)
  case Nil
  then show ?case by (simp add: kept_Nil)
next
  case (Cons e es)
  have path: "df_file_path (me_data_file (inherit_from_manifest n i e)) = df_file_path (me_data_file e)" for n i
    by (simp add: inherit_from_manifest_def)
  consider (dead) "me_status e = Deleted"
    | (out) "me_status e \<noteq> Deleted" "df_file_path (me_data_file e) \<in> filtered_files fltr"
    | (keep) "me_status e \<noteq> Deleted" "df_file_path (me_data_file e) \<notin> filtered_files fltr"
    by blast
  then show ?case
  proof cases
    case dead
    with Cons.IH [of s stats] Cons.prems show ?thesis by (simp add: Let_def kept_Cons)
  next
    case out
    then obtain f where f: "fltr = Some f" "df_file_path (me_data_file e) \<in> f"
      by (auto simp: filtered_files_def split: option.splits)
    let ?c = "count_removed stats (me_data_file (inherit_from_manifest (ml_sequence_number manifest) (ml_added_snapshot_id manifest) e))"
    let ?stats = "?c\<lparr>fms_filtered_entries := fms_filtered_entries ?c @ [carried manifest Deleted e]\<rparr>"
    have k: "keep_live manifest fltr stats (map Ok (e # es)) = keep_live manifest fltr ?stats (map Ok es)"
      using out f by (simp add: Let_def path carried_def)
    have *: "fms_filtered_entries ?stats = fms_filtered_entries stats @ [carried manifest Deleted e]"
      "fms_removed_data_files ?stats = wrap32 (fms_removed_data_files stats + 1)"
      by (simp_all add: count_removed_def)
    have s: "s = snd (keep_live manifest fltr ?stats (map Ok es))" using Cons.prems k by simp
    from Cons.IH [OF s] show ?thesis
      unfolding k * using out by (simp add: kept_Cons wrap32_Suc)
  next
    case keep
    then have "\<not> (case fltr of Some f \<Rightarrow> df_file_path (me_data_file
        (inherit_from_manifest (ml_sequence_number manifest) (ml_added_snapshot_id manifest) e)) \<in> f | None \<Rightarrow> False)"
      by (auto simp: filtered_files_def path split: option.splits)
    with keep have k: "keep_live manifest fltr stats (map Ok (e # es))
      = (Ok (carried manifest Existing e) # fst (keep_live manifest fltr stats (map Ok es)),
         snd (keep_live manifest fltr stats (map Ok es)))"
      by (simp add: Let_def carried_def case_prod_beta)
    have s: "s = snd (keep_live manifest fltr stats (map Ok es))" using Cons.prems k by simp
    from Cons.IH [OF s] show ?thesis
      unfolding k using keep by (simp add: kept_Cons)
  qed
qed

text \<open>The manifests of the splits.\<close>

lemma write_split_Ok:
  assumes "write_split io sid schema content (w, ms, ps) entries = Ok (w', ms', ps')"
  shows "\<exists>m b mw mw'. ms' = ms @ [m] \<and> ps' = ps @ [(ml_manifest_path m, b)]
    \<and> w' = w\<lparr>mlw_manifest_count := mlw_manifest_count w + 1\<rparr>
    \<and> ml_manifest_path m = new_manifest_location (tm_location (mlw_table_metadata w)) (mlw_commit_uuid w) (mlw_manifest_count w)
    \<and> ManifestWriter_new io (ml_manifest_path m) sid schema (mlw_table_metadata w) content = Ok mw
    \<and> try_fold (ManifestWriter_append io) mw entries = Ok mw' \<and> finished_manifest io mw' = Ok (m, b)"
proof -
  let ?loc = "new_manifest_location (tm_location (mlw_table_metadata w)) (mlw_commit_uuid w) (mlw_manifest_count w)"
  obtain mw mw' m p where
    n: "ManifestWriter_new io ?loc sid schema (mlw_table_metadata w) content = Ok mw"
    and a: "append_entries io mw (map Ok entries) = Ok mw'"
    and f: "ManifestWriter_finish_concurrently io mw' = Ok (m, p)"
    and r: "w' = w\<lparr>mlw_manifest_count := mlw_manifest_count w + 1\<rparr>" "ms' = ms @ [m]" "ps' = ps @ [p]"
    using assms by (auto simp: write_split_def next_manifest_location_def)
  have "ml_manifest_path (mw_manifest mw) = ?loc"
    using n by (auto simp: ManifestWriter_new_def new_manifest_entry_def)
  with append_entries_path [OF a] f have m: "ml_manifest_path m = ?loc" "p = (?loc, snd p)"
    "finished_manifest io mw' = Ok (m, snd p)"
    by (auto simp: finish_concurrently_Ok finished_manifest_def)
  have "try_fold (\<lambda>mw x. rbind x (ManifestWriter_append io mw)) mw (map Ok entries) = try_fold (ManifestWriter_append io) mw entries" for mw
    by (induction entries arbitrary: mw) auto
  with a have "try_fold (ManifestWriter_append io) mw entries = Ok mw'" by (simp add: append_entries_def)
  with n m r show ?thesis by (metis (no_types))
qed

text \<open>Paths of consecutive manifests of one commit differ.\<close>

lemma show_nat_inj: "show_nat i = show_nat j \<longleftrightarrow> i = j"
  by (metis option.inject parse_digits_show)

lemma new_manifest_location_inj [simp]:
  "new_manifest_location l u i = new_manifest_location l u j \<longleftrightarrow> i = j"
  by (simp add: new_manifest_location_def show_nat_inj)

definition split_manifest ::
  "('v, 'b, 's) table_io \<Rightarrow> i64 \<Rightarrow> avro_schema \<Rightarrow> ml_content \<Rightarrow> table_metadata \<Rightarrow> manifest_entry list
   \<Rightarrow> manifest_list_entry \<Rightarrow> string \<times> 'b \<Rightarrow> bool" where
  "split_manifest io sid schema content tm entries m p \<longleftrightarrow>
     (\<exists>mw mw'. fst p = ml_manifest_path m \<and> ManifestWriter_new io (ml_manifest_path m) sid schema tm content = Ok mw
        \<and> try_fold (ManifestWriter_append io) mw entries = Ok mw' \<and> finished_manifest io mw' = Ok (m, snd p))"

lemma write_splits_Ok:
  "try_fold (write_split io sid schema content) (w, ms, ps) groups = Ok (w', ms', ps') \<Longrightarrow>
   \<exists>ns qs. ms' = ms @ ns \<and> ps' = ps @ qs \<and> length ns = length groups \<and> length qs = length groups
     \<and> w' = w\<lparr>mlw_manifest_count := mlw_manifest_count w + length groups\<rparr>
     \<and> map ml_manifest_path ns = map (new_manifest_location (tm_location (mlw_table_metadata w)) (mlw_commit_uuid w))
         [mlw_manifest_count w ..< mlw_manifest_count w + length groups]
     \<and> (\<forall>i<length groups. split_manifest io sid schema content (mlw_table_metadata w) (groups ! i) (ns ! i) (qs ! i))"
proof (induction groups arbitrary: w ms ps)
  case Nil
  then show ?case by simp
next
  case (Cons g groups)
  then obtain w1 ms1 ps1 where s: "write_split io sid schema content (w, ms, ps) g = Ok (w1, ms1, ps1)"
    "try_fold (write_split io sid schema content) (w1, ms1, ps1) groups = Ok (w', ms', ps')"
    by auto
  from write_split_Ok [OF s(1)] obtain m b where
    m: "ms1 = ms @ [m]" "ps1 = ps @ [(ml_manifest_path m, b)]"
      "w1 = w\<lparr>mlw_manifest_count := mlw_manifest_count w + 1\<rparr>"
      "ml_manifest_path m = new_manifest_location (tm_location (mlw_table_metadata w)) (mlw_commit_uuid w) (mlw_manifest_count w)"
      "split_manifest io sid schema content (mlw_table_metadata w) g m (ml_manifest_path m, b)"
    by (auto simp: split_manifest_def)
  from Cons.IH [OF s(2)] m(3) obtain ns qs where
    n: "ms' = ms1 @ ns" "ps' = ps1 @ qs" "length ns = length groups" "length qs = length groups"
      "w' = w\<lparr>mlw_manifest_count := mlw_manifest_count w + 1 + length groups\<rparr>"
      "map ml_manifest_path ns = map (new_manifest_location (tm_location (mlw_table_metadata w)) (mlw_commit_uuid w))
         [mlw_manifest_count w + 1 ..< mlw_manifest_count w + 1 + length groups]"
      "\<forall>i<length groups. split_manifest io sid schema content (mlw_table_metadata w) (groups ! i) (ns ! i) (qs ! i)"
    by auto
  have "[mlw_manifest_count w ..< mlw_manifest_count w + length (g # groups)]
      = mlw_manifest_count w # [mlw_manifest_count w + 1 ..< mlw_manifest_count w + 1 + length groups]"
    by (subst upt_conv_Cons) auto
  with m n show ?case
    by (intro exI [of _ "m # ns"] exI [of _ "(ml_manifest_path m, b) # qs"])
      (auto simp: nth_Cons split: nat.split)
qed

text \<open>
  C29. Rewriting the selected manifest into several ones: the new entries and the live entries
  of the selected manifest that are not filtered are divided among the groups, every group gets
  a manifest of its own under a path of its own, the selected manifest is not in the list any
  more, and the filtered entries come back as deleted.
\<close>

theorem split_rewrite_keeps_every_entry:
  assumes r: "append_multiple_filtered_concurrently io st w (map Ok new) sid n fltr content = Ok (w', pending, stats)"
    and sel: "selected_manifest_of content w = Some m0" "prefetch_manifest io st m0 = Ok bytes"
      "ManifestReader_new io bytes = Ok reader" "mr_reader reader = map Ok old"
    and n: "1 \<le> n" "n < 2 ^ 32" and h: "writer_holds io w M"
  shows "\<exists>groups ms schema M'.
    mset (concat groups) = mset new + mset (map (carried m0 Existing) (kept (filtered_files fltr) old))
    \<and> length groups \<le> 2 ^ n \<and> length ms = length groups \<and> length pending = length groups
    \<and> M = add_mset m0 M' \<and> writer_holds io w' (M' + mset ms) \<and> distinct (map ml_manifest_path ms)
    \<and> (\<forall>i<length groups. split_manifest io sid schema content (mlw_table_metadata w) (groups ! i) (ms ! i) (pending ! i))
    \<and> (\<forall>s. stats = Some s \<longrightarrow>
         fms_filtered_entries s = map (carried m0 Deleted) (removed (filtered_files fltr) old))"
proof -
  obtain w1 where t: "take_selected content w = (Some m0, w1)"
    using sel(1) by (cases content) (auto simp: take_selected_def selected_manifest_of_def)
  define s where "s = snd (keep_live m0 fltr FilteredManifestStats_default (map Ok old))"
  note live = keep_live_entries [OF s_def]
  let ?kept = "map (carried m0 Existing) (kept (filtered_files fltr) old)"
  from r sel(2-4) t live obtain names schema bounds groups w2 manifests where
    g: "split_datafiles (io_values io) (map Ok (new @ ?kept)) bounds names n = Ok groups"
    and f: "try_fold (write_split io sid schema content) (w1, [], []) groups = Ok (w2, manifests, pending)"
    and a: "try_fold (append_new_manifest io) w2 manifests = Ok w'"
    and st: "stats = map_option (\<lambda>_. s) fltr"
    by (auto simp: append_multiple_filtered_concurrently_def)
  from take_selected_holds [OF t h] obtain M' where M': "writer_holds io w1 M'" "M = add_mset m0 M'"
    and same: "mlw_table_metadata w1 = mlw_table_metadata w"
    by auto
  from write_splits_Ok [OF f] obtain
    l: "length manifests = length groups" "length pending = length groups"
      "w2 = w1\<lparr>mlw_manifest_count := mlw_manifest_count w1 + length groups\<rparr>"
    and p: "map ml_manifest_path manifests = map (new_manifest_location (tm_location (mlw_table_metadata w1)) (mlw_commit_uuid w1))
         [mlw_manifest_count w1 ..< mlw_manifest_count w1 + length groups]"
    and sp: "\<forall>i<length groups. split_manifest io sid schema content (mlw_table_metadata w1) (groups ! i) (manifests ! i) (pending ! i)"
    by auto
  have "writer_holds io w2 M'" using M'(1) l(3) by simp
  from list_writer.puts_hold [OF a this] have w': "writer_holds io w' (M' + mset manifests)" .
  have "distinct (map ml_manifest_path manifests)"
    unfolding p by (simp add: distinct_map inj_on_def)
  moreover have "mset (concat groups) = mset new + mset ?kept" "length groups \<le> 2 ^ n"
    using split_keeps [OF g] split_count [OF n g] by auto
  moreover have "fms_filtered_entries s = map (carried m0 Deleted) (removed (filtered_files fltr) old)"
    using live by (simp add: FilteredManifestStats_default_def)
  ultimately show ?thesis
    using l M'(2) w' sp same st
    by (intro exI [of _ groups] exI [of _ manifests] exI [of _ schema] exI [of _ M']) auto
qed

section \<open>Concrete lists\<close>

lemma sample_partition_fields:
  "\<exists>fs. current_partition_fields (sample_part_table v) = Ok fs \<and> map bf_name fs = [''region'']
     \<and> (\<exists>ps. partition_value_schema fs = Ok ps)"
  by (simp add: current_partition_fields_def partition_fields_def BoundPartitionField_new_def
      bf_name_def bf_transform_def partition_value_schema_def tranform_def)

lemma sample_column_names: "partition_column_names (sample_part_table v) = Ok [''region'']"
  using sample_partition_fields [of v] by (auto simp: partition_column_names_def)

lemma sample_table_schema: "\<exists>s. table_entry_schema sample_io (sample_part_table v) = Ok s"
  using sample_partition_fields [of v] by (auto simp: table_entry_schema_def entry_schema_def sample_io_def)

text \<open>A writer with an empty list.\<close>

definition sample_writer :: "manifest_list_entry option \<Rightarrow> sample_value manifest_list_writer" where
  "sample_writer selected =
     \<lparr>mlw_table_metadata = sample_part_table V3,
      mlw_sink = (AvroWriter_new (manifest_list_schema V3), Some (RowIdAssigner_new 5)),
      mlw_selected_data_manifest = selected, mlw_selected_delete_manifest = None,
      mlw_bounding_partition_values = Rectangle_new [] [], mlw_n_existing_files = 0,
      mlw_commit_uuid = ''uuid'', mlw_manifest_count = 0\<rparr>"

lemma sample_writer_simps [simp]:
  "mlw_table_metadata (sample_writer s) = sample_part_table V3"
  "mlw_selected_data_manifest (sample_writer s) = s" "mlw_selected_delete_manifest (sample_writer s) = None"
  "mlw_bounding_partition_values (sample_writer s) = Rectangle_new [] []"
  "mlw_sink (sample_writer s) = (AvroWriter_new (manifest_list_schema V3), Some (RowIdAssigner_new 5))"
  by (simp_all add: sample_writer_def)

lemma split_nothing: "split_datafiles lib [] (Rectangle_new [] []) names (Suc 0) = Ok []"
  by (subst split_datafiles.simps) (simp add: split_datafiles_once_def collect_items_def Rectangle_new_def)

theorem split_rewrite_keeps_every_entry_witness:
  "\<exists>b w' s. append_multiple_filtered_concurrently sample_io [''m'' \<mapsto> b]
       (sample_writer (Some ((sample_list_entry V3)\<lparr>ml_partitions := None\<rparr>))) [] 9 1 (Some {''f''}) ContentData = Ok (w', [], Some s)
     \<and> map me_status (fms_filtered_entries s) = [Deleted, Deleted] \<and> writer_holds sample_io w' {#}"
proof -
  obtain b where b: "ManifestReader_new sample_io b
    = Ok \<lparr>mr_reader = map Ok [sample_entry V3 5, sample_entry V3 7], mr_metadata = (sample_schema, sample_spec, V3)\<rparr>"
    by (rule sample_manifest_read)
  let ?m = "(sample_list_entry V3)\<lparr>ml_partitions := None\<rparr>"
  let ?es = "[sample_entry V3 5, sample_entry V3 7]"
  have pre: "prefetch_manifest sample_io [''m'' \<mapsto> b] ?m = Ok b"
    by (simp add: prefetch_manifest_def store_get_def sample_list_entry_def)
  obtain sc where sc: "table_entry_schema sample_io (sample_part_table V3) = Ok sc" using sample_table_schema by blast
  have "removed (filtered_files (Some {''f''})) ?es = ?es" "kept (filtered_files (Some {''f''})) ?es = []"
    by (simp_all add: removed_def kept_def live_def filtered_files_def sample_entry_def sample_file_def)
  with keep_live_entries [OF refl, of ?m "Some {''f''}" FilteredManifestStats_default ?es] obtain s where
    k: "keep_live ?m (Some {''f''}) FilteredManifestStats_default (map Ok ?es) = ([], s)"
    by (metis list.map(1))
  define w1 where "w1 = (sample_writer (Some ?m))\<lparr>mlw_selected_data_manifest := None\<rparr>"
  have r: "append_multiple_filtered_concurrently sample_io [''m'' \<mapsto> b] (sample_writer (Some ?m)) (map Ok []) 9 1
      (Some {''f''}) ContentData = Ok (w1, [], Some s)"
    using k by (simp add: append_multiple_filtered_concurrently_def sample_column_names sc take_selected_def
        split_bounds_def pre b split_nothing w1_def del: keep_live.simps)
  have h: "writer_holds sample_io (sample_writer (Some ?m)) {#?m#}"
    using new_list_holds [of sample_io] by (auto simp: writer_holds_def)
  from split_rewrite_keeps_every_entry [OF r _ pre b _ _ _ h, of ?es] obtain M' where
    "add_mset ?m {#} = add_mset ?m M'" "writer_holds sample_io w1 M'"
    "fms_filtered_entries s = map (carried ?m Deleted) (removed (filtered_files (Some {''f''})) ?es)"
    by (auto simp: selected_manifest_of_def)
  moreover note \<open>removed (filtered_files (Some {''f''})) ?es = ?es\<close>
  ultimately show ?thesis
    using r by (intro exI [of _ b] exI [of _ w1] exI [of _ s]) (simp add: carried_def)
qed


end
