(* ===== verification/Operation.thy ===== *)
theory Operation
  imports Manifest_List_Writer Commit
begin

text \<open>
  The operations of a transaction (\<open>iceberg-rust/src/table/transaction/operation.rs\<close>): each
  reads the table metadata, may write manifests and a manifest list, and yields the requirement
  and the updates of a commit. The summary of the new snapshot is computed here too.
\<close>

section \<open>Operations\<close>

record sequence_group =
  sg_delete_files :: "data_file list"
  sg_data_files :: "data_file list"

datatype table_operation =
    OpAddSchema schema
  | OpSetDefaultSpec i32
  | OpUpdateProperties "(string \<times> string) list"
  | OpSetSnapshotRef "string \<times> snapshot_reference"
  | OpReplaceSortOrder sort_order
  | OpAppend "string option" "data_file list" "data_file list" "(string \<rightharpoonup> string) option"
  | OpAppendSequenceGroups "string option" "sequence_group list"
  | OpReplace "string option" "data_file list" "(string \<rightharpoonup> string) option"
  | OpOverwrite "string option" "data_file list" "string \<rightharpoonup> string list" "(string \<rightharpoonup> string) option"
  | OpTruncate "string option"
  | OpExpireSnapshots "i64 option" "nat option" bool bool bool

text \<open>
  What an execution draws from its surroundings: the random bytes of the snapshot id, the UUID
  of the commit, the clock, and the order in which the hash map of snapshots is traversed.
\<close>

record op_env =
  oe_random :: "64 word"
  oe_uuid :: string
  oe_now_ms :: i64
  oe_snapshot_order :: "i64 list"

type_synonym 's op_result = "(table_requirement option \<times> table_update list) \<times> 's"

section \<open>The summary of a snapshot\<close>

definition summary_i64 :: "(string \<rightharpoonup> string) option \<Rightarrow> string \<Rightarrow> i64" where
  "summary_i64 other key =
     (case Option.bind (Option.bind other (\<lambda>m. m key)) parse_i64 of Some n \<Rightarrow> n | None \<Rightarrow> 0)"

definition data_records :: "data_file list \<Rightarrow> i64" where
  "data_records files =
     foldl (\<lambda>n f. if df_content f = Data then wrap64 (n + df_record_count f) else n) 0 files"

definition files_size :: "data_file list \<Rightarrow> i64" where
  "files_size files = foldl (\<lambda>n f. wrap64 (n + df_file_size_in_bytes f)) 0 files"

definition update_snapshot_summary ::
  "summary option \<Rightarrow> data_file list \<Rightarrow> data_file list \<Rightarrow> (string \<rightharpoonup> string)" where
  "update_snapshot_summary old_summary data_files delete_files =
     (let old = map_option su_other old_summary;
          added_data_files = wrap64 (int (length data_files));
          added_records = data_records data_files;
          added_delete_files = wrap64 (int (length delete_files));
          added_files_size = wrap64 (files_size data_files + files_size delete_files)
      in [''total-records'' \<mapsto> show_int (wrap64 (summary_i64 old ''total-records'' + added_records)),
          ''total-data-files'' \<mapsto> show_int (wrap64 (summary_i64 old ''total-data-files'' + added_data_files)),
          ''total-delete-files'' \<mapsto> show_int (wrap64 (summary_i64 old ''total-delete-files'' + added_delete_files)),
          ''total-file-size-bytes'' \<mapsto> show_int (wrap64 (summary_i64 old ''total-file-size-bytes'' + added_files_size)),
          ''added-records'' \<mapsto> show_int added_records,
          ''added-data-files'' \<mapsto> show_int added_data_files,
          ''added-files-size-bytes'' \<mapsto> show_int added_files_size])"

definition subtract_from_summary ::
  "string \<Rightarrow> i64 \<Rightarrow> bool \<Rightarrow> (string \<rightharpoonup> string) \<Rightarrow> (string \<rightharpoonup> string)" where
  "subtract_from_summary key delta add summary =
     (if delta = 0 then summary
      else let current = summary_i64 (Some summary) key
           in summary(key \<mapsto> show_int (if add then wrap64 (current + delta) else max (wrap64 (current - delta)) 0)))"

definition update_snapshot_summary_by_filtered_stats ::
  "(string \<rightharpoonup> string) \<Rightarrow> filtered_manifest_stats \<Rightarrow> (string \<rightharpoonup> string)" where
  "update_snapshot_summary_by_filtered_stats summary stats =
     subtract_from_summary ''total-file-size-bytes'' (fms_removed_file_size_bytes stats) False
     (subtract_from_summary ''total-data-files'' (fms_removed_data_files stats) False
     (subtract_from_summary ''deleted-records'' (fms_removed_records stats) True
     (subtract_from_summary ''deleted-data-files'' (fms_removed_data_files stats) True
     (subtract_from_summary ''total-records'' (fms_removed_records stats) False summary))))"

definition extend_summary :: "(string \<rightharpoonup> string) \<Rightarrow> (string \<rightharpoonup> string) option \<Rightarrow> (string \<rightharpoonup> string)" where
  "extend_summary summary additional = summary ++ (case additional of Some m \<Rightarrow> m | None \<Rightarrow> Map.empty)"

section \<open>The new snapshot\<close>

definition apply_v3_row_lineage ::
  "snapshot_builder \<Rightarrow> table_metadata \<Rightarrow> i64 option \<Rightarrow> (snapshot_builder, error) outcome" where
  "apply_v3_row_lineage b tm next_row_id =
     (case next_row_id of
        None \<Rightarrow> Ok b
      | Some next \<Rightarrow>
          rbind (ok_or (InvalidFormat ''next row id moved backwards'') (checked_sub_i64 next (tm_next_row_id tm))) (\<lambda>added_rows.
          Ok (b\<lparr>snb_first_row_id := Some (tm_next_row_id tm), snb_added_rows := Some added_rows\<rparr>)))"

definition new_snapshot ::
  "op_env \<Rightarrow> table_metadata \<Rightarrow> i64 \<Rightarrow> i64 \<Rightarrow> string \<Rightarrow> operation_kind \<Rightarrow> (string \<rightharpoonup> string) \<Rightarrow> i64 option \<Rightarrow> i64 option
   \<Rightarrow> (snapshot, error) outcome" where
  "new_snapshot env tm snapshot_id sequence_number' manifest_list kind summary parent next_row_id =
     rbind (map_err Iceberg (current_schema tm)) (\<lambda>schema.
     rbind (apply_v3_row_lineage
              \<lparr>snb_snapshot_id = Some snapshot_id, snb_parent_snapshot_id = parent,
               snb_sequence_number = Some sequence_number', snb_timestamp_ms = None,
               snb_manifest_list = Some manifest_list,
               snb_summary = Some \<lparr>su_operation = kind, su_other = summary\<rparr>,
               snb_schema_id = Some (sch_schema_id schema), snb_first_row_id = None, snb_added_rows = None\<rparr>
              tm next_row_id) (\<lambda>b.
     map_err Iceberg (SnapshotBuilder_build (oe_random env) (oe_now_ms env) b)))"

definition ref_or_main :: "string option \<Rightarrow> string" where
  "ref_or_main branch = (case branch of Some b \<Rightarrow> b | None \<Rightarrow> ''main'')"

text \<open>The requirement and updates of every operation that adds a snapshot.\<close>

definition commit_of_snapshot ::
  "string option \<Rightarrow> snapshot option \<Rightarrow> i64 \<Rightarrow> snapshot \<Rightarrow> table_requirement option \<times> table_update list" where
  "commit_of_snapshot branch old snapshot_id snapshot =
     (Some (AssertRefSnapshotId (ref_or_main branch) (map_option sn_snapshot_id old)),
      [AddSnapshot snapshot,
       SetSnapshotRef (ref_or_main branch)
         \<lparr>sr_snapshot_id = snapshot_id, sr_retention = SnapshotRetention_default\<rparr>])"

definition old_snapshot_of :: "table_metadata \<Rightarrow> string option \<Rightarrow> (snapshot option, error) outcome" where
  "old_snapshot_of tm branch = map_err Iceberg (current_snapshot tm branch)"

section \<open>Truncate\<close>

definition execute_truncate ::
  "('v, 'b, 's) table_io \<Rightarrow> op_env \<Rightarrow> 's \<Rightarrow> table_metadata \<Rightarrow> string option \<Rightarrow> ('s op_result, error) outcome" where
  "execute_truncate io env st tm branch =
     rbind (old_snapshot_of tm branch) (\<lambda>old_snapshot.
     let snapshot_id = generate_snapshot_id (oe_random env);
         location = new_manifest_list_location (tm_location tm) snapshot_id 0 (oe_uuid env)
     in rbind (io_avro_write io (AvroWriter_new (manifest_list_schema (tm_format_version tm)))) (\<lambda>bytes.
        rbind (store_put io st location bytes) (\<lambda>st'.
        rbind (new_snapshot env tm snapshot_id (wrap64 (tm_last_sequence_number tm + 1)) location Overwrite
                 ((update_snapshot_summary None [] [])(''iceberg-rust.metadata-only-truncate'' \<mapsto> ''true''))
                 (map_option sn_snapshot_id old_snapshot)
                 (if tm_format_version tm = V3 then Some (tm_next_row_id tm) else None)) (\<lambda>snapshot.
        Ok (commit_of_snapshot branch old_snapshot snapshot_id snapshot, st')))))"

section \<open>Append\<close>

text \<open>The writer of the new list: from the list of the old snapshot, or from nothing.\<close>

definition open_list ::
  "('v, 'b, 's) table_io \<Rightarrow> op_env \<Rightarrow> 's \<Rightarrow> table_metadata \<Rightarrow> data_file list \<Rightarrow> snapshot option
   \<Rightarrow> ('v manifest_list_writer, error) outcome" where
  "open_list io env st tm files old_snapshot =
     (let schema = manifest_list_schema (tm_format_version tm)
      in case old_snapshot of
           Some snapshot \<Rightarrow>
             rbind (store_get io st (sn_manifest_list snapshot)) (\<lambda>bytes.
             rbind (if tm_format_version tm \<noteq> V1 then hydrate_v1_manifest_list_row_counts io st bytes tm else Ok None) (\<lambda>hydrated.
             ListWriter_from_existing io (oe_uuid env) (case hydrated of Some b \<Rightarrow> b | None \<Rightarrow> bytes) files schema tm))
         | None \<Rightarrow> ListWriter_new io (oe_uuid env) files schema tm)"

definition added_entry :: "table_metadata \<Rightarrow> i64 option \<Rightarrow> i64 option \<Rightarrow> data_file \<Rightarrow> manifest_entry" where
  "added_entry tm snapshot_id sequence_number' f =
     \<lparr>me_format_version = tm_format_version tm, me_status = Added, me_snapshot_id = snapshot_id,
      me_sequence_number = sequence_number', me_data_file = f\<rparr>"

definition operation_of_counts :: "nat \<Rightarrow> nat \<Rightarrow> operation_kind" where
  "operation_of_counts n_data_files n_delete_files =
     (if n_delete_files = 0 then Append else if n_data_files = 0 then Delete else Overwrite)"

text \<open>One content of an append: to one manifest or to several, whose files are written later.\<close>

definition append_content ::
  "('v, 'b, 's) table_io \<Rightarrow> 's \<Rightarrow> table_metadata \<Rightarrow> i64 \<Rightarrow> 'v manifest_list_writer \<times> (string \<times> 'b) list
   \<Rightarrow> ml_content \<times> data_file list \<Rightarrow> ('v manifest_list_writer \<times> (string \<times> 'b) list, error) outcome" where
  "append_content io st tm snapshot_id s cf =
     (let (w, pending) = s; (content, files) = cf;
          entries = map (\<lambda>f. Ok (added_entry tm None None f)) files;
          n_splits = ListWriter_n_splits w (length files) content
      in if files = [] then Ok s
         else if n_splits = 0
         then rbind (append_concurrently io st w entries snapshot_id content) (\<lambda>(w', p). Ok (w', pending @ [p]))
         else rbind (append_multiple_concurrently io st w entries snapshot_id n_splits content) (\<lambda>(w', ps).
              Ok (w', pending @ ps)))"

definition execute_append ::
  "('v, 'b, 's) table_io \<Rightarrow> op_env \<Rightarrow> 's \<Rightarrow> table_metadata \<Rightarrow> string option \<Rightarrow> data_file list \<Rightarrow> data_file list
   \<Rightarrow> (string \<rightharpoonup> string) option \<Rightarrow> ('s op_result, error) outcome" where
  "execute_append io env st tm branch data_files delete_files additional_summary =
     rbind (old_snapshot_of tm branch) (\<lambda>old_snapshot.
     if data_files = [] \<and> delete_files = [] then Ok ((None, []), st)
     else let snapshot_id = generate_snapshot_id (oe_random env)
       in rbind (open_list io env st tm (delete_files @ data_files) old_snapshot) (\<lambda>w.
          rbind (try_fold (append_content io st tm snapshot_id) (w, [])
                   [(ContentData, data_files), (ContentDeletes, delete_files)]) (\<lambda>(w', pending).
          rbind (write_pending io st pending) (\<lambda>st'.
          rbind (ListWriter_finish io st' w' snapshot_id) (\<lambda>(location, next_row_id, st'').
          rbind (new_snapshot env tm snapshot_id (wrap64 (tm_last_sequence_number tm + 1)) location
                   (operation_of_counts (length data_files) (length delete_files))
                   (extend_summary (update_snapshot_summary (map_option sn_summary old_snapshot) data_files delete_files)
                      additional_summary)
                   (map_option sn_snapshot_id old_snapshot) next_row_id) (\<lambda>snapshot.
          Ok (commit_of_snapshot branch old_snapshot snapshot_id snapshot, st'')))))))"

section \<open>Append of sequence groups\<close>

text \<open>
  The groups get consecutive sequence numbers after the last one of the table; the files of a
  group are written before the next group.
\<close>

definition append_group_content ::
  "('v, 'b, 's) table_io \<Rightarrow> table_metadata \<Rightarrow> i64 \<Rightarrow> i64 \<Rightarrow> 'v manifest_list_writer \<times> 's \<Rightarrow> ml_content \<times> data_file list
   \<Rightarrow> ('v manifest_list_writer \<times> 's, error) outcome" where
  "append_group_content io tm snapshot_id dsn_offset s cf =
     (if snd cf = [] then Ok s
      else ListWriter_append io (snd s) (fst s)
             (map (\<lambda>f. Ok (added_entry tm None (Some (wrap64 (tm_last_sequence_number tm + dsn_offset))) f)) (snd cf))
             snapshot_id (fst cf))"

definition append_group ::
  "('v, 'b, 's) table_io \<Rightarrow> table_metadata \<Rightarrow> i64 \<Rightarrow> i64 \<times> ('v manifest_list_writer \<times> 's) \<Rightarrow> sequence_group
   \<Rightarrow> (i64 \<times> ('v manifest_list_writer \<times> 's), error) outcome" where
  "append_group io tm snapshot_id s g =
     (let dsn_offset = wrap64 (fst s + 1)
      in rbind (try_fold (append_group_content io tm snapshot_id dsn_offset) (snd s)
                  [(ContentData, sg_data_files g), (ContentDeletes, sg_delete_files g)]) (\<lambda>s'.
         Ok (dsn_offset, s')))"

definition execute_append_groups ::
  "('v, 'b, 's) table_io \<Rightarrow> op_env \<Rightarrow> 's \<Rightarrow> table_metadata \<Rightarrow> string option \<Rightarrow> sequence_group list
   \<Rightarrow> ('s op_result, error) outcome" where
  "execute_append_groups io env st tm branch groups =
     rbind (old_snapshot_of tm branch) (\<lambda>old_snapshot.
     let n_data_files = sum_list (map (length \<circ> sg_data_files) groups);
         n_delete_files = sum_list (map (length \<circ> sg_delete_files) groups);
         all_files = concat (map (\<lambda>g. sg_delete_files g @ sg_data_files g) groups);
         snapshot_id = generate_snapshot_id (oe_random env)
     in if n_data_files + n_delete_files = 0 then Ok ((None, []), st)
        else rbind (open_list io env st tm all_files old_snapshot) (\<lambda>w.
             rbind (try_fold (append_group io tm snapshot_id) (0, (w, st)) groups) (\<lambda>(dsn_offset, (w', st')).
             rbind (ListWriter_finish io st' w' snapshot_id) (\<lambda>(location, next_row_id, st'').
             rbind (new_snapshot env tm snapshot_id (wrap64 (tm_last_sequence_number tm + dsn_offset)) location
                      (operation_of_counts n_data_files n_delete_files)
                      (extend_summary
                         (update_snapshot_summary (map_option sn_summary old_snapshot)
                            (filter (\<lambda>f. df_content f = Data) all_files) (filter (\<lambda>f. df_content f \<noteq> Data) all_files))
                         (append_summary all_files))
                      (map_option sn_snapshot_id old_snapshot) next_row_id) (\<lambda>snapshot.
             Ok (commit_of_snapshot branch old_snapshot snapshot_id snapshot, st''))))))"

section \<open>Replace\<close>

text \<open>
  One new manifest of a replacement: its location counts the manifests written so far; the list
  takes its entry directly.
\<close>

definition write_replacement ::
  "('v, 'b, 's) table_io \<Rightarrow> op_env \<Rightarrow> table_metadata \<Rightarrow> i64 \<Rightarrow> avro_schema \<Rightarrow> nat \<times> 'v avro_writer \<times> 's
   \<Rightarrow> (manifest_entry, error) outcome list \<Rightarrow> (nat \<times> 'v avro_writer \<times> 's, error) outcome" where
  "write_replacement io env tm snapshot_id manifest_schema s entries =
     (let (i, w, st) = s
      in rbind (ManifestWriter_new io (new_manifest_location (tm_location tm) (oe_uuid env) i) snapshot_id manifest_schema
                  tm ContentData) (\<lambda>mw.
         rbind (append_entries io mw entries) (\<lambda>mw'.
         rbind (ManifestWriter_finish io st mw') (\<lambda>(manifest, st').
         rbind (append_list_entry io w manifest) (\<lambda>w'.
         Ok (i + 1, w', st'))))))"

definition execute_replace ::
  "('v, 'b, 's) table_io \<Rightarrow> op_env \<Rightarrow> 's \<Rightarrow> table_metadata \<Rightarrow> string option \<Rightarrow> data_file list
   \<Rightarrow> (string \<rightharpoonup> string) option \<Rightarrow> ('s op_result, error) outcome" where
  "execute_replace io env st tm branch files additional_summary =
     rbind (map_err Iceberg (current_partition_fields tm)) (\<lambda>fs.
     rbind (old_snapshot_of tm branch) (\<lambda>old_snapshot.
     rbind (map_err Iceberg (current_schema tm)) (\<lambda>schema.
     let names = map bf_name fs;
         n_splits = compute_n_splits 0 (length files) 0;
         snapshot_id = generate_snapshot_id (oe_random env);
         sequence_number' = wrap64 (tm_last_sequence_number tm + 1);
         entries = map (added_entry tm (Some snapshot_id) (Some sequence_number')) files;
         location = new_manifest_list_location (tm_location tm) snapshot_id 0 (oe_uuid env)
     in rbind (entry_schema io fs (tm_format_version tm)) (\<lambda>manifest_schema.
        rbind (if n_splits = 0 then Ok [map Ok entries]
               else rbind (bounding_partition_values files names) (\<lambda>bounding.
                    rbind (split_datafiles (io_values io) (map Ok entries) bounding names n_splits) (\<lambda>splits.
                    Ok (map (map Ok) splits)))) (\<lambda>groups.
        rbind (try_fold (write_replacement io env tm snapshot_id manifest_schema)
                 (0, AvroWriter_new (manifest_list_schema (tm_format_version tm)), st) groups) (\<lambda>(_, w, st').
        rbind (io_avro_write io w) (\<lambda>bytes.
        rbind (store_put io st' location bytes) (\<lambda>st''.
        rbind (new_snapshot env tm snapshot_id sequence_number' location Overwrite
                 (extend_summary
                    (update_snapshot_summary None (filter (\<lambda>f. df_content f = Data) files)
                       (filter (\<lambda>f. df_content f \<noteq> Data) files)) additional_summary)
                 None None) (\<lambda>snapshot.
        Ok (commit_of_snapshot branch old_snapshot snapshot_id snapshot, st''))))))))))"

section \<open>Overwrite\<close>

definition list_paths :: "('v, 'b, 's) table_io \<Rightarrow> 'b \<Rightarrow> table_metadata \<Rightarrow> (string set, error) outcome" where
  "list_paths io bytes tm =
     rbind (ListReader_new io bytes tm) (\<lambda>reader.
     rbind (collect_items (list_items io reader)) (\<lambda>ms.
     Ok (set (map ml_manifest_path ms))))"

text \<open>
  The list without the manifests to overwrite. The message of the error names the missing
  manifests, in the order of a hash set; here it does not.
\<close>

definition open_overwrite ::
  "('v, 'b, 's) table_io \<Rightarrow> op_env \<Rightarrow> 's \<Rightarrow> table_metadata \<Rightarrow> data_file list \<Rightarrow> string set \<Rightarrow> snapshot
   \<Rightarrow> ('v manifest_list_writer \<times> manifest_list_entry list, error) outcome" where
  "open_overwrite io env st tm data_files overwrites old_snapshot =
     rbind (store_get io st (sn_manifest_list old_snapshot)) (\<lambda>raw.
     rbind (if tm_format_version tm \<noteq> V1 then hydrate_v1_manifest_list_row_counts io st raw tm else Ok None) (\<lambda>hydrated.
     let bytes = (case hydrated of Some b \<Rightarrow> b | None \<Rightarrow> raw); schema = manifest_list_schema (tm_format_version tm)
     in rbind (list_paths io bytes tm) (\<lambda>paths.
        if \<not> overwrites \<subseteq> paths
        then Err (NotFound ''Manifests to overwrite do not exist in current snapshot'')
        else if data_files = [] then ListWriter_from_existing_for_deletion io (oe_uuid env) bytes overwrites schema tm
        else ListWriter_from_existing_without_overwrites io (oe_uuid env) bytes data_files overwrites schema tm)))"

text \<open>The new files of an overwrite, and what is removed from the selected manifest on the way.\<close>

definition overwrite_files ::
  "('v, 'b, 's) table_io \<Rightarrow> 's \<Rightarrow> table_metadata \<Rightarrow> i64 \<Rightarrow> 'v manifest_list_writer \<Rightarrow> data_file list
   \<Rightarrow> (string \<rightharpoonup> string list) \<Rightarrow> ('v manifest_list_writer \<times> filtered_manifest_stats option \<times> 's, error) outcome" where
  "overwrite_files io st tm snapshot_id w data_files files_to_overwrite =
     (let n_splits = ListWriter_n_splits w (length data_files) ContentData;
          entries = map (\<lambda>f. Ok (added_entry tm None None f)) data_files;
          fltr = map_option set (Option.bind (mlw_selected_data_manifest w) (files_to_overwrite \<circ> ml_manifest_path))
      in if data_files = [] then Ok (w, None, st)
         else if n_splits = 0 then append_filtered io st w entries snapshot_id fltr ContentData
         else append_multiple_filtered io st w entries snapshot_id n_splits fltr ContentData)"

text \<open>The removed entries, written with the current partition types as tombstones of the snapshot.\<close>

definition append_tombstones ::
  "('v, 'b, 's) table_io \<Rightarrow> 's \<Rightarrow> table_metadata \<Rightarrow> i64 \<Rightarrow> 'v manifest_list_writer \<Rightarrow> manifest_entry list
   \<Rightarrow> ('v manifest_list_writer \<times> 's, error) outcome" where
  "append_tombstones io st tm snapshot_id w filtered_entries =
     (if filtered_entries = [] then Ok (w, st)
      else rbind (map_err Iceberg (default_partition_spec tm)) (\<lambda>spec.
           rbind (map_err Iceberg (current_schema tm)) (\<lambda>schema.
           rbind (map_err Iceberg (data_types spec (sch_fields schema))) (\<lambda>types.
           rbind (try_map (\<lambda>e. rbind (map_err Iceberg (promote_partition_to_types (io_values io) (me_data_file e) spec types)) (\<lambda>f.
                    Ok (e\<lparr>me_data_file := f\<rparr>))) filtered_entries) (\<lambda>es.
           let n_splits = ListWriter_n_splits w (length es) ContentData
           in if n_splits = 0 then ListWriter_append io st w (map Ok es) snapshot_id ContentData
              else rbind (append_multiple_concurrently io st w (map Ok es) snapshot_id n_splits ContentData) (\<lambda>(w', pending).
                   rbind (write_pending io st pending) (\<lambda>st'.
                   Ok (w', st'))))))))"

definition execute_overwrite ::
  "('v, 'b, 's) table_io \<Rightarrow> op_env \<Rightarrow> 's \<Rightarrow> table_metadata \<Rightarrow> string option \<Rightarrow> data_file list
   \<Rightarrow> (string \<rightharpoonup> string list) \<Rightarrow> (string \<rightharpoonup> string) option \<Rightarrow> ('s op_result, error) outcome" where
  "execute_overwrite io env st tm branch data_files files_to_overwrite additional_summary =
     rbind (old_snapshot_of tm branch) (\<lambda>old.
     rbind (ok_or (InvalidFormat ''Snapshot to overwrite'') old) (\<lambda>old_snapshot.
     if data_files = [] \<and> hm_is_empty files_to_overwrite then Ok ((None, []), st)
     else let snapshot_id = generate_snapshot_id (oe_random env)
       in rbind (open_overwrite io env st tm data_files (dom files_to_overwrite) old_snapshot) (\<lambda>(w, manifests).
          rbind (append_and_filter io st w manifests files_to_overwrite snapshot_id) (\<lambda>(w1, stats, st1).
          rbind (overwrite_files io st1 tm snapshot_id w1 data_files files_to_overwrite) (\<lambda>(w2, selected_stats, st2).
          let all_stats = (case selected_stats of Some s \<Rightarrow> FilteredManifestStats_append stats s | None \<Rightarrow> stats)
          in rbind (append_tombstones io st2 tm snapshot_id w2 (fms_filtered_entries all_stats)) (\<lambda>(w3, st3).
             rbind (ListWriter_finish io st3 w3 snapshot_id) (\<lambda>(location, next_row_id, st4).
             rbind (new_snapshot env tm snapshot_id (wrap64 (tm_last_sequence_number tm + 1)) location Overwrite
                      (update_snapshot_summary_by_filtered_stats
                         (extend_summary (update_snapshot_summary (Some (sn_summary old_snapshot)) data_files [])
                            additional_summary) all_stats)
                      (Some (sn_snapshot_id old_snapshot)) next_row_id) (\<lambda>snapshot.
             Ok (commit_of_snapshot branch (Some old_snapshot) snapshot_id snapshot, st4)))))))))"

section \<open>Metadata operations\<close>

definition execute_replace_sort_order ::
  "table_metadata \<Rightarrow> sort_order \<Rightarrow> (table_requirement option \<times> table_update list, error) outcome" where
  "execute_replace_sort_order tm order =
     (if so_order_id order = DEFAULT_SORT_ORDER_ID \<and> so_fields order \<noteq> []
      then Err (InvalidFormat (''sort order with fields uses order id '' @ show_int DEFAULT_SORT_ORDER_ID
             @ '', which is reserved for the unsorted order''))
      else rbind (map_err Iceberg (current_schema tm)) (\<lambda>schema.
           rbind (try_map (\<lambda>f. if list_ex (\<lambda>sf. fid sf = so_source_id f) (st_fields (sch_fields schema)) then Ok ()
                    else Err (NotFound (''Sort order field references non-existent schema field ID ''
                           @ show_int (so_source_id f)))) (so_fields order)) (\<lambda>_.
           Ok (Some (AssertDefaultSortOrderId (tm_default_sort_order_id tm)),
               [AddSortOrder order, SetDefaultSortOrder (so_order_id order)]))))"

text \<open>
  The snapshots from the newest to the oldest; ties keep the order of the hash map.
\<close>

definition newest_first :: "op_env \<Rightarrow> table_metadata \<Rightarrow> snapshot list" where
  "newest_first env tm =
     sort_key (\<lambda>s. - sn_timestamp_ms s) (List.map_filter (tm_snapshots tm) (oe_snapshot_order env))"

definition retained ::
  "table_metadata \<Rightarrow> i64 option \<Rightarrow> nat option \<Rightarrow> bool \<Rightarrow> nat \<times> snapshot \<Rightarrow> bool" where
  "retained tm older_than retain_last retain_ref_snapshots is =
     (let (i, s) = is;
          first = Some (sn_snapshot_id s) = tm_current_snapshot_id tm
            \<or> (retain_ref_snapshots \<and> (\<exists>r\<in>ran (tm_refs tm). sr_snapshot_id r = sn_snapshot_id s))
            \<or> (case retain_last of Some n \<Rightarrow> i < n | None \<Rightarrow> False)
      in first \<or> (case older_than of Some threshold \<Rightarrow> threshold \<le> sn_timestamp_ms s | None \<Rightarrow> False))"

definition execute_expire_snapshots ::
  "op_env \<Rightarrow> table_metadata \<Rightarrow> i64 option \<Rightarrow> nat option \<Rightarrow> bool \<Rightarrow> bool
   \<Rightarrow> (table_requirement option \<times> table_update list, error) outcome" where
  "execute_expire_snapshots env tm older_than retain_last retain_ref_snapshots dry_run =
     (if older_than = None \<and> retain_last = None
      then Err (InvalidFormat ''Must specify either older_than or retain_last for snapshot expiration'')
      else let expired = map (sn_snapshot_id \<circ> snd)
                 (filter (\<lambda>is. \<not> retained tm older_than retain_last retain_ref_snapshots is)
                   (List.enumerate 0 (newest_first env tm)))
           in if dry_run \<or> expired = [] then Ok (None, [])
              else Ok (None, [RemoveSnapshots expired]))"

section \<open>Execution\<close>

definition execute ::
  "('v, 'b, 's) table_io \<Rightarrow> op_env \<Rightarrow> 's \<Rightarrow> table_metadata \<Rightarrow> table_operation \<Rightarrow> ('s op_result, error) outcome" where
  "execute io env st tm op =
     (let pure = (\<lambda>r. rbind r (\<lambda>x. Ok (x, st)))
      in if tm_format_version tm = V3 \<and> (case op of OpReplace _ _ _ \<Rightarrow> True | _ \<Rightarrow> False)
         then Err (NotSupported ''Iceberg v3 manifest rewrites with row lineage'')
         else case op of
           OpTruncate branch \<Rightarrow> execute_truncate io env st tm branch
         | OpAppendSequenceGroups branch groups \<Rightarrow> execute_append_groups io env st tm branch groups
         | OpAppend branch data_files delete_files additional \<Rightarrow>
             execute_append io env st tm branch data_files delete_files additional
         | OpReplace branch files additional \<Rightarrow> execute_replace io env st tm branch files additional
         | OpOverwrite branch data_files files_to_overwrite additional \<Rightarrow>
             execute_overwrite io env st tm branch data_files files_to_overwrite additional
         | OpUpdateProperties entries \<Rightarrow> Ok ((None, [SetProperties (map_of (rev entries))]), st)
         | OpSetSnapshotRef (key, value') \<Rightarrow>
             Ok ((Some (AssertRefSnapshotId key (map_option sr_snapshot_id (tm_refs tm key))), [SetSnapshotRef key value']), st)
         | OpAddSchema schema \<Rightarrow> Ok ((None, [AddSchema schema (StructType_max_field_id (sch_fields schema))]), st)
         | OpSetDefaultSpec spec_id \<Rightarrow> Ok ((None, [SetDefaultSpec spec_id]), st)
         | OpReplaceSortOrder order \<Rightarrow> pure (execute_replace_sort_order tm order)
         | OpExpireSnapshots older_than retain_last _ retain_ref_snapshots dry_run \<Rightarrow>
             pure (execute_expire_snapshots env tm older_than retain_last retain_ref_snapshots dry_run))"

section \<open>Row ids of a list in format version 3\<close>

text \<open>
  The rows that the manifests of a list take, and a sink that has given exactly these from \<open>n\<close> on.
\<close>

definition rows_taken :: "manifest_list_entry multiset \<Rightarrow> int" where
  "rows_taken M = sum_mset (image_mset (\<lambda>m. if takes_row_ids m then reserved_rows m else 0) M)"

lemma rows_taken_simps [simp]:
  "rows_taken {#} = 0"
  "rows_taken (add_mset m M) = (if takes_row_ids m then reserved_rows m else 0) + rows_taken M"
  "rows_taken (M + N) = rows_taken M + rows_taken N"
  by (simp_all add: rows_taken_def)

definition row_accounts :: "int \<Rightarrow> 'v list_sink \<Rightarrow> manifest_list_entry multiset \<Rightarrow> bool" where
  "row_accounts n s M \<longleftrightarrow>
     manifest_list_format_version (aw_schema (fst s)) V3 = Ok V3
     \<and> (\<exists>a. snd s = Some a \<and> ra_next_row_id a = n + rows_taken M \<and> n \<le> ra_next_row_id a
          \<and> (in_i64 n \<longrightarrow> in_i64 (ra_next_row_id a)))"

lemma append_manifest_rows:
  assumes "append_manifest io s m = Ok s'" "row_accounts n s M"
  shows "row_accounts n s' (add_mset m M)"
proof -
  from assms(2) obtain a where a: "manifest_list_format_version (aw_schema (fst s)) V3 = Ok V3"
    "snd s = Some a" "ra_next_row_id a = n + rows_taken M" "n \<le> ra_next_row_id a"
      "in_i64 n \<longrightarrow> in_i64 (ra_next_row_id a)"
    by (auto simp: row_accounts_def)
  with assms(1) obtain a' m' w where p: "RowIdAssigner_assign a (m\<lparr>ml_format_version := V3\<rparr>) = Ok (a', m')"
    "append_list_entry io (fst s) m' = Ok w" "s' = (w, Some a')"
    by (auto simp: append_manifest_def prepare_manifest_def split: if_splits)
  have "aw_schema w = aw_schema (fst s)" using p(2) by (auto simp: append_list_entry_def)
  moreover have "takes_row_ids (m\<lparr>ml_format_version := V3\<rparr>) = takes_row_ids m"
    "reserved_rows (m\<lparr>ml_format_version := V3\<rparr>) = reserved_rows m"
    by (simp_all add: takes_row_ids_def reserved_rows_def)
  moreover have "ra_next_row_id a' = ra_next_row_id a + (if takes_row_ids m then reserved_rows m else 0)"
    "ra_next_row_id a \<le> ra_next_row_id a'" "in_i64 (ra_next_row_id a) \<Longrightarrow> in_i64 (ra_next_row_id a')"
    using p(1) by (auto simp: assign_Ok takes_row_ids_def reserved_rows_def count_or_zero_def split: if_splits)
  ultimately show ?thesis using a p(3) by (auto simp: row_accounts_def)
qed

interpretation row_file: manifest_sink "append_manifest io" "row_accounts n" for io n
  by unfold_locales (rule append_manifest_rows)

text \<open>
  A writer of a V3 list: it selects no manifest, and its assigner accounts for its manifests.
\<close>

definition v3_writer :: "int \<Rightarrow> table_metadata \<Rightarrow> 'v manifest_list_writer \<Rightarrow> manifest_list_entry multiset \<Rightarrow> bool" where
  "v3_writer n tm w M \<longleftrightarrow>
     mlw_table_metadata w = tm \<and> mlw_selected_data_manifest w = None \<and> mlw_selected_delete_manifest w = None
     \<and> row_accounts n (mlw_sink w) M"

interpretation row_writer: manifest_sink "append_new_manifest io" "v3_writer n tm" for io n tm
  by unfold_locales (auto simp: append_new_manifest_def v3_writer_def dest: append_manifest_rows)

lemma v3_writer_count [simp]: "v3_writer n tm (w\<lparr>mlw_manifest_count := k\<rparr>) M \<longleftrightarrow> v3_writer n tm w M"
  by (simp add: v3_writer_def)

lemma v3_take_selected:
  "v3_writer n tm w M \<Longrightarrow> take_selected content w = (None, w)"
  by (cases content) (auto simp: v3_writer_def take_selected_def)

lemma v3_start: "tm_format_version tm = V3 \<Longrightarrow>
  row_accounts (tm_next_row_id tm) (AvroWriter_new (manifest_list_schema V3), list_row_ids tm) {#}"
  by (simp add: row_accounts_def list_row_ids_def AvroWriter_new_def RowIdAssigner_new_def)

lemma ListWriter_new_rows:
  assumes "ListWriter_new io uuid files (manifest_list_schema V3) tm = Ok w" "tm_format_version tm = V3"
  shows "v3_writer (tm_next_row_id tm) tm w {#}"
  using assms v3_start by (auto simp: ListWriter_new_def v3_writer_def)

lemma from_existing_rows:
  assumes "ListWriter_from_existing io uuid bytes files (manifest_list_schema V3) tm = Ok w" "tm_format_version tm = V3"
    and "ListReader_new io bytes tm = Ok reader" "list_items io reader = map Ok ms"
  shows "v3_writer (tm_next_row_id tm) tm w (mset ms)"
proof -
  from assms obtain k sink where
    f: "try_fold (preserve_step (append_manifest io)) (0, (AvroWriter_new (manifest_list_schema V3), list_row_ids tm))
      (map Ok ms) = Ok (k, sink)"
    and w: "mlw_table_metadata w = tm" "mlw_sink w = sink" "mlw_selected_data_manifest w = None" "mlw_selected_delete_manifest w = None"
    by (auto simp: ListWriter_from_existing_def)
  from row_file.preserve_holds [OF f v3_start [OF assms(2)]] w show ?thesis by (simp add: v3_writer_def)
qed

text \<open>A manifest as the writer makes it from entries.\<close>

definition manifest_of :: "ml_content \<Rightarrow> manifest_entry list \<Rightarrow> manifest_list_entry \<Rightarrow> bool" where
  "manifest_of content es m \<longleftrightarrow>
     ml_content m = content \<and> ml_first_row_id m = None
     \<and> ml_added_rows_count m = Some (wrap64 (sum_list (map added_rows_of es)))
     \<and> ml_existing_rows_count m = Some (wrap64 (sum_list (map existing_rows_of es)))"

lemma ManifestWriter_append_frame:
  "ManifestWriter_append io w e = Ok w' \<Longrightarrow>
   ml_content (mw_manifest w') = ml_content (mw_manifest w) \<and> ml_first_row_id (mw_manifest w') = ml_first_row_id (mw_manifest w)"
  by (drule ManifestWriter_append_Ok) auto

lemma appends_frame:
  "try_fold (ManifestWriter_append io) w es = Ok w' \<Longrightarrow>
   ml_content (mw_manifest w') = ml_content (mw_manifest w) \<and> ml_first_row_id (mw_manifest w') = ml_first_row_id (mw_manifest w)"
  by (rule try_fold_inv [where I = "\<lambda>v. ml_content (mw_manifest v) = ml_content (mw_manifest w)
        \<and> ml_first_row_id (mw_manifest v) = ml_first_row_id (mw_manifest w)"])
    (auto dest: ManifestWriter_append_frame)

lemma append_entries_Ok: "append_entries io mw (map Ok es) = try_fold (ManifestWriter_append io) mw es"
  unfolding append_entries_def by (induction es arbitrary: mw) auto

lemma new_manifest_of:
  assumes "ManifestWriter_new io location sid schema tm content = Ok mw"
    and "try_fold (ManifestWriter_append io) mw es = Ok mw'" and "finished_manifest io mw' = Ok (m, b)"
  shows "manifest_of content es m"
proof -
  from assms(1) have new: "mw_manifest mw = new_manifest_entry tm location sid content"
    by (auto simp: ManifestWriter_new_def)
  from assms(3) have m: "m = (mw_manifest mw')\<lparr>ml_manifest_length := wrap64 (int (io_len io b))\<rparr>"
    by (auto simp: finished_manifest_def)
  show ?thesis
    using appends_frame [OF assms(2)] manifest_counts [OF assms(2)] new m
    by (simp add: manifest_of_def new_manifest_entry_def)
qed

lemma append_new_rows:
  assumes r: "append_filtered_concurrently io st w (map Ok es) sid None content = Ok (w', p, stats)"
    and w: "v3_writer n tm w M"
  shows "\<exists>m. manifest_of content es m \<and> v3_writer n tm w' (add_mset m M)"
proof -
  obtain location w2 where l: "next_manifest_location w = (location, w2)" by force
  from r obtain schema mw mw' manifest where
    o: "ManifestWriter_new io location sid schema (mlw_table_metadata w2) content = Ok mw"
    and e: "try_fold (ManifestWriter_append io) mw es = Ok mw'"
    and f: "ManifestWriter_finish_concurrently io mw' = Ok (manifest, p)"
    and a: "append_new_manifest io w2 manifest = Ok w'"
    by (auto simp: append_filtered_concurrently_def v3_take_selected [OF w] l open_manifest_def append_entries_Ok)
  have "v3_writer n tm w2 M" using w l by (auto simp: next_manifest_location_def)
  from row_writer.put_holds [OF a this] new_manifest_of [OF o e, of manifest "snd p"] f show ?thesis
    by (auto simp: finish_concurrently_Ok finished_manifest_def)
qed

lemma append_new_rows_split:
  assumes r: "append_multiple_filtered_concurrently io st w (map Ok es) sid k None content = Ok (w', ps, stats)"
    and w: "v3_writer n tm w M"
  shows "\<exists>groups ms. mset (concat groups) = mset es \<and> list_all2 (manifest_of content) groups ms
    \<and> v3_writer n tm w' (M + mset ms)"
proof -
  from r obtain names schema bounds groups w2 manifests where
    g: "split_datafiles (io_values io) (map Ok es) bounds names k = Ok groups"
    and f: "try_fold (write_split io sid schema content) (w, [], []) groups = Ok (w2, manifests, ps)"
    and a: "try_fold (append_new_manifest io) w2 manifests = Ok w'"
    by (auto simp: append_multiple_filtered_concurrently_def v3_take_selected [OF w])
  from write_splits_Ok [OF f] have
    l: "length manifests = length groups" "w2 = w\<lparr>mlw_manifest_count := mlw_manifest_count w + length groups\<rparr>"
    and sp: "\<forall>i<length groups. split_manifest io sid schema content (mlw_table_metadata w) (groups ! i) (manifests ! i) (ps ! i)"
    by auto
  have "list_all2 (manifest_of content) groups manifests"
    using l(1) sp by (auto simp: list_all2_conv_all_nth split_manifest_def intro: new_manifest_of)
  moreover have "v3_writer n tm w' (M + mset manifests)"
    using row_writer.puts_hold [OF a, of n tm M] w l(2) by simp
  moreover have "mset (concat groups) = mset es" using split_keeps [OF g] by simp
  ultimately show ?thesis by blast
qed

section \<open>The rows of an append\<close>

definition file_rows :: "data_file list \<Rightarrow> int" where
  "file_rows files = sum_list (map (\<lambda>f. if df_content f = Data then df_record_count f else 0) files)"

definition entry_rows :: "manifest_entry list \<Rightarrow> int" where
  "entry_rows es = sum_list (map added_rows_of es)"

lemma entry_rows_simps [simp]:
  "entry_rows [] = 0" "entry_rows (e # es) = added_rows_of e + entry_rows es"
  "entry_rows (es @ es') = entry_rows es + entry_rows es'"
  by (simp_all add: entry_rows_def)

lemma entry_rows_added: "entry_rows (map (added_entry tm i n) files) = file_rows files"
  by (induction files) (auto simp: entry_rows_def file_rows_def added_entry_def added_rows_of_def)

lemma entry_rows_mset: "mset es = mset es' \<Longrightarrow> entry_rows es = entry_rows es'"
  unfolding entry_rows_def by (metis mset_map sum_mset_sum_list)

definition only_added :: "manifest_entry list \<Rightarrow> bool" where
  "only_added es \<longleftrightarrow> (\<forall>e\<in>set es. me_status e = Added \<and> 0 \<le> added_rows_of e)"

lemma only_added_rows: "only_added es \<Longrightarrow> 0 \<le> entry_rows es"
  by (induction es) (auto simp: only_added_def)

lemma manifest_of_rows:
  assumes "manifest_of content es m" "only_added es" "in_i64 (entry_rows es)"
  shows "(if takes_row_ids m then reserved_rows m else 0) = (if content = ContentData then entry_rows es else 0)"
proof -
  have "sum_list (map existing_rows_of es) = 0"
    using assms(2) by (induction es) (auto simp: only_added_def existing_rows_of_def)
  moreover have "wrap64 0 = 0" by (simp add: wrap64_def)
  ultimately show ?thesis
    using assms by (auto simp: manifest_of_def takes_row_ids_def reserved_rows_def count_or_zero_def entry_rows_def)
qed

lemma manifests_of_rows:
  "list_all2 (manifest_of content) groups ms \<Longrightarrow> only_added (concat groups) \<Longrightarrow> in_i64 (entry_rows (concat groups)) \<Longrightarrow>
   rows_taken (mset ms) = (if content = ContentData then entry_rows (concat groups) else 0)"
proof (induction rule: list_all2_induct)
  case (Cons g groups m ms)
  then have "0 \<le> entry_rows g" "0 \<le> entry_rows (concat groups)"
    by (auto intro!: only_added_rows simp: only_added_def)
  with Cons.prems have "in_i64 (entry_rows g)" "in_i64 (entry_rows (concat groups))" "only_added g" "only_added (concat groups)"
    by (auto simp: in_i64_def only_added_def)
  with Cons manifest_of_rows show ?case by auto
qed simp

lemma added_entries_only_added:
  "\<forall>f\<in>set files. 0 \<le> df_record_count f \<Longrightarrow> only_added (map (added_entry tm i n) files)"
  by (auto simp: only_added_def added_entry_def added_rows_of_def)

text \<open>What one content of an append adds: manifests of its files, in groups.\<close>

lemma append_content_manifests:
  assumes r: "append_content io st tm sid (w, ps) (content, files) = Ok (w', ps')" and w: "v3_writer n tm w M"
  shows "\<exists>groups ms. mset (concat groups) = mset (map (added_entry tm None None) files)
    \<and> list_all2 (manifest_of content) groups ms \<and> v3_writer n tm w' (M + mset ms)"
proof (cases "files = []")
  case True
  with r w show ?thesis by (intro exI [of _ "[]"] conjI) (simp_all add: append_content_def)
next
  case False
  let ?es = "map (added_entry tm None None) files"
  have m: "map (\<lambda>f. Ok (added_entry tm None None f)) files = map Ok ?es" by simp
  show ?thesis
  proof (cases "ListWriter_n_splits w (length files) content = 0")
    case True
    with False r obtain p stats where "append_filtered_concurrently io st w (map Ok ?es) sid None content = Ok (w', p, stats)"
      by (auto simp: append_content_def append_concurrently_def Let_def m simp del: map_map)
    from append_new_rows [OF this w] obtain x where "manifest_of content ?es x" "v3_writer n tm w' (add_mset x M)" by blast
    then show ?thesis by (intro exI [of _ "[?es]"] exI [of _ "[x]"]) simp
  next
    case split: False
    with False r obtain q stats where
      "append_multiple_filtered_concurrently io st w (map Ok ?es) sid (ListWriter_n_splits w (length files) content) None content
        = Ok (w', q, stats)"
      by (auto simp: append_content_def append_multiple_concurrently_def Let_def m simp del: map_map)
    from append_new_rows_split [OF this w] show ?thesis by blast
  qed
qed

lemma append_content_rows:
  assumes r: "append_content io st tm sid (w, ps) (content, files) = Ok (w', ps')" and w: "v3_writer n tm w M"
    and f: "\<forall>f\<in>set files. 0 \<le> df_record_count f" "in_i64 (file_rows files)"
  shows "\<exists>N. v3_writer n tm w' (M + N) \<and> rows_taken N = (if content = ContentData then file_rows files else 0)"
proof -
  from append_content_manifests [OF r w] obtain groups ms where
    g: "mset (concat groups) = mset (map (added_entry tm None None) files)" "list_all2 (manifest_of content) groups ms"
      "v3_writer n tm w' (M + mset ms)"
    by blast
  have c: "entry_rows (concat groups) = file_rows files" "only_added (concat groups)"
    using entry_rows_mset [OF g(1)] entry_rows_added added_entries_only_added [OF f(1), of tm None None] mset_eq_setD [OF g(1)]
    by (auto simp: only_added_def)
  from manifests_of_rows [OF g(2) c(2)] c(1) f(2) g(3) show ?thesis
    by (intro exI [of _ "mset ms"]) simp
qed

lemma finish_rows:
  assumes "ListWriter_finish io st w sid = Ok (location, nxt, st')" "v3_writer n tm w M"
  shows "nxt = Some (n + rows_taken M) \<and> n \<le> n + rows_taken M \<and> (in_i64 n \<longrightarrow> in_i64 (n + rows_taken M))"
  using assms by (auto simp: ListWriter_finish_def v3_writer_def append_selected_def row_accounts_def Let_def)

text \<open>The manifests of a snapshot, as an append reads them.\<close>

definition manifests_of_snapshot ::
  "('v, 'b, 's) table_io \<Rightarrow> 's \<Rightarrow> table_metadata \<Rightarrow> snapshot option \<Rightarrow> (manifest_list_entry list, error) outcome" where
  "manifests_of_snapshot io st tm old =
     (case old of
        None \<Rightarrow> Ok []
      | Some snapshot \<Rightarrow>
          rbind (store_get io st (sn_manifest_list snapshot)) (\<lambda>bytes.
          rbind (if tm_format_version tm \<noteq> V1 then hydrate_v1_manifest_list_row_counts io st bytes tm else Ok None) (\<lambda>hydrated.
          rbind (ListReader_new io (case hydrated of Some b \<Rightarrow> b | None \<Rightarrow> bytes) tm) (\<lambda>reader.
          collect_items (list_items io reader)))))"

lemma open_list_rows:
  assumes o: "open_list io env st tm files old = Ok w" and v: "tm_format_version tm = V3"
    and ms: "manifests_of_snapshot io st tm old = Ok ms"
  shows "v3_writer (tm_next_row_id tm) tm w (mset ms)"
proof (cases old)
  case None
  with assms show ?thesis by (auto simp: open_list_def manifests_of_snapshot_def dest: ListWriter_new_rows)
next
  case (Some snapshot)
  with ms v obtain bytes hydrated reader where
    b: "store_get io st (sn_manifest_list snapshot) = Ok bytes" "hydrate_v1_manifest_list_row_counts io st bytes tm = Ok hydrated"
      "ListReader_new io (case hydrated of Some b \<Rightarrow> b | None \<Rightarrow> bytes) tm = Ok reader"
      "list_items io reader = map Ok ms"
    by (auto simp: manifests_of_snapshot_def collect_items_Ok)
  with o v Some have "ListWriter_from_existing io (oe_uuid env) (case hydrated of Some b \<Rightarrow> b | None \<Rightarrow> bytes) files
      (manifest_list_schema V3) tm = Ok w"
    by (simp add: open_list_def)
  from from_existing_rows [OF this v b(3,4)] show ?thesis .
qed

lemma new_snapshot_Ok:
  assumes "new_snapshot env tm sid seq location kind summary parent nxt = Ok s"
  shows "sn_snapshot_id s = sid \<and> sn_sequence_number s = seq \<and> sn_parent_snapshot_id s = parent
    \<and> sn_manifest_list s = location \<and> sn_timestamp_ms s = oe_now_ms env
    \<and> sn_summary s = \<lparr>su_operation = kind, su_other = summary\<rparr>
    \<and> (case nxt of
         Some k \<Rightarrow> in_i64 (k - tm_next_row_id tm) \<and> sn_first_row_id s = Some (tm_next_row_id tm)
                  \<and> sn_added_rows s = Some (k - tm_next_row_id tm)
       | None \<Rightarrow> sn_first_row_id s = None \<and> sn_added_rows s = None)"
  using assms
  by (cases nxt) (auto simp: new_snapshot_def apply_v3_row_lineage_def SnapshotBuilder_build_def checked_sub_i64_def
      split: if_splits)

text \<open>What an append that adds files does.\<close>

lemma execute_append_Ok:
  assumes r: "execute_append io env st tm branch data_files delete_files additional = Ok ((req, us), st')"
    and some: "data_files \<noteq> [] \<or> delete_files \<noteq> []"
  obtains old s w w' ps st1 location nxt where
    "old_snapshot_of tm branch = Ok old"
    "open_list io env st tm (delete_files @ data_files) old = Ok w"
    "try_fold (append_content io st tm (generate_snapshot_id (oe_random env))) (w, [])
       [(ContentData, data_files), (ContentDeletes, delete_files)] = Ok (w', ps)"
    "ListWriter_finish io st1 w' (generate_snapshot_id (oe_random env)) = Ok (location, nxt, st')"
    "new_snapshot env tm (generate_snapshot_id (oe_random env)) (wrap64 (tm_last_sequence_number tm + 1)) location
       (operation_of_counts (length data_files) (length delete_files))
       (extend_summary (update_snapshot_summary (map_option sn_summary old) data_files delete_files) additional)
       (map_option sn_snapshot_id old) nxt = Ok s"
    "(req, us) = commit_of_snapshot branch old (generate_snapshot_id (oe_random env)) s"
proof -
  let ?sid = "generate_snapshot_id (oe_random env)"
  let ?contents = "[(ContentData, data_files), (ContentDeletes, delete_files)]"
  from r some obtain old where o: "old_snapshot_of tm branch = Ok old" by (auto simp: execute_append_def)
  with r some obtain w w' ps st1 location nxt s where
    f: "open_list io env st tm (delete_files @ data_files) old = Ok w"
      "try_fold (append_content io st tm ?sid) (w, []) ?contents = Ok (w', ps)"
      "ListWriter_finish io st1 w' ?sid = Ok (location, nxt, st')"
      "new_snapshot env tm ?sid (wrap64 (tm_last_sequence_number tm + 1)) location
       (operation_of_counts (length data_files) (length delete_files))
       (extend_summary (update_snapshot_summary (map_option sn_summary old) data_files delete_files) additional)
       (map_option sn_snapshot_id old) nxt = Ok s"
      "(req, us) = commit_of_snapshot branch old ?sid s"
    by (auto simp: execute_append_def Let_def simp del: try_fold.simps)
  show thesis by (rule that [OF o f])
qed


section \<open>Committing an append\<close>

lemma preserve_items:
  "try_fold (preserve_step put) s items = Ok s' \<Longrightarrow> \<exists>ms. items = map Ok ms"
proof (induction items arbitrary: s)
  case (Cons x items)
  then obtain t where t: "preserve_step put s x = Ok t" "try_fold (preserve_step put) t items = Ok s'"
    by auto
  from t(1) obtain m where x: "x = Ok m" by (cases x) (auto simp: preserve_step_def)
  from Cons.IH [OF t(2)] obtain ms where "items = map Ok ms" by blast
  with x show ?case by (intro exI [of _ "m # ms"]) simp
qed simp

lemma open_list_reads:
  assumes o: "open_list io env st tm files old = Ok w" and v: "tm_format_version tm = V3"
  shows "\<exists>ms. manifests_of_snapshot io st tm old = Ok ms"
proof (cases old)
  case None
  then show ?thesis by (simp add: manifests_of_snapshot_def)
next
  case (Some snapshot)
  with o v obtain bytes hydrated where
    b: "store_get io st (sn_manifest_list snapshot) = Ok bytes" "hydrate_v1_manifest_list_row_counts io st bytes tm = Ok hydrated"
      "ListWriter_from_existing io (oe_uuid env) (case hydrated of Some b \<Rightarrow> b | None \<Rightarrow> bytes) files (manifest_list_schema V3) tm = Ok w"
    by (auto simp: open_list_def)
  from b(3) v obtain reader k sink where
    r: "ListReader_new io (case hydrated of Some b \<Rightarrow> b | None \<Rightarrow> bytes) tm = Ok reader"
      "try_fold (preserve_step (append_manifest io)) (0, (AvroWriter_new (manifest_list_schema V3), list_row_ids tm))
        (list_items io reader) = Ok (k, sink)"
    by (auto simp: ListWriter_from_existing_def)
  from preserve_items [OF r(2)] obtain ms where "list_items io reader = map Ok ms" by blast
  with b r(1) v Some show ?thesis
    by (intro exI [of _ ms]) (simp add: manifests_of_snapshot_def collect_items_Ok)
qed

text \<open>
  C26. What an append hands to the catalog can be committed: on the table it was made for, the
  requirement holds, the updates apply, the invariant of the metadata is kept, and the branch
  then has the new snapshot.
\<close>

theorem append_commits:
  assumes r: "execute_append io env st tm branch data_files delete_files additional = Ok ((req, us), st')"
    and some: "data_files \<noteq> [] \<or> delete_files \<noteq> []" and inv: "tm_inv tm"
    and old: "old_snapshot_of tm branch = Ok old"
      "map_option sr_snapshot_id (tm_refs tm (ref_or_main branch)) = map_option sn_snapshot_id old"
    and range: "in_i64 (tm_last_sequence_number tm + 1)" "in_i64 (tm_next_row_id tm)" "0 \<le> tm_next_row_id tm"
  shows "\<exists>c tm' s. req = Some c \<and> check_table_requirements [c] tm \<and> apply_table_updates cenv tm us = Ok tm' \<and> tm_inv tm'
    \<and> current_snapshot tm' branch = Ok (Some s) \<and> sn_parent_snapshot_id s = map_option sn_snapshot_id old"
proof -
  let ?sid = "generate_snapshot_id (oe_random env)"
  from execute_append_Ok [OF r some] old(1) obtain s w w' ps st1 location nxt where
    w: "open_list io env st tm (delete_files @ data_files) old = Ok w"
      "try_fold (append_content io st tm ?sid) (w, []) [(ContentData, data_files), (ContentDeletes, delete_files)] = Ok (w', ps)"
      "ListWriter_finish io st1 w' ?sid = Ok (location, nxt, st')"
    and s: "new_snapshot env tm ?sid (wrap64 (tm_last_sequence_number tm + 1)) location
       (operation_of_counts (length data_files) (length delete_files))
       (extend_summary (update_snapshot_summary (map_option sn_summary old) data_files delete_files) additional)
       (map_option sn_snapshot_id old) nxt = Ok s"
      "(req, us) = commit_of_snapshot branch old ?sid s"
    by (metis (no_types, lifting) outcome.inject(1))
  note sn = new_snapshot_Ok [OF s(1)]
  have "\<exists>k. next_row_id_after tm s = Ok k"
  proof (cases "tm_format_version tm = V3")
    case True
    from open_list_reads [OF w(1) True] obtain ms where ms: "manifests_of_snapshot io st tm old = Ok ms" by blast
    from w(2) obtain w1 p1 where c: "append_content io st tm ?sid (w, []) (ContentData, data_files) = Ok (w1, p1)"
      "append_content io st tm ?sid (w1, p1) (ContentDeletes, delete_files) = Ok (w', ps)"
      by auto
    from append_content_manifests [OF c(1) open_list_rows [OF w(1) True ms]] obtain N where
      "v3_writer (tm_next_row_id tm) tm w1 N" by blast
    from append_content_manifests [OF c(2) this] obtain N' where "v3_writer (tm_next_row_id tm) tm w' N'" by blast
    from finish_rows [OF w(3) this] sn range True show ?thesis
      by (auto simp: next_row_id_after_Ok)
  qed (simp add: next_row_id_after_Ok)
  then obtain k where k: "next_row_id_after tm s = Ok k" by blast
  have us: "us = [AddSnapshot s, SetSnapshotRef (ref_or_main branch) \<lparr>sr_snapshot_id = ?sid, sr_retention = SnapshotRetention_default\<rparr>]"
    "req = Some (AssertRefSnapshotId (ref_or_main branch) (map_option sn_snapshot_id old))"
    using s(2) by (simp_all add: commit_of_snapshot_def)
  obtain tm' where tm': "apply_table_updates cenv tm us = Ok tm'"
    and cur: "current_snapshot tm' branch = Ok (Some s)"
    using k sn range(1)
    by (auto simp: us apply_table_updates_def apply_init_def add_snapshot_Ok set_snapshot_ref_def current_snapshot_def
        ref_snapshot_id_def ref_or_main_def split: option.splits)
  have "check_table_requirements [AssertRefSnapshotId (ref_or_main branch) (map_option sn_snapshot_id old)] tm"
    using old(2) by (simp add: check_table_requirements_def table_requirement_holds_def)
  with us(2) tm' cur sn apply_updates_inv [OF inv tm'] show ?thesis by blast
qed

section \<open>A concrete append\<close>

text \<open>The sample table with its main snapshot, whose manifest list is empty.\<close>

definition sample_store :: "string \<rightharpoonup> sample_value avro_writer" where
  "sample_store = [''ml'' \<mapsto> AvroWriter_new (manifest_list_schema V3)]"

definition sample_op_env :: op_env where
  "sample_op_env = \<lparr>oe_random = 9, oe_uuid = ''uuid'', oe_now_ms = 200, oe_snapshot_order = [7]\<rparr>"

lemma sample_snapshot_id: "generate_snapshot_id (oe_random sample_op_env) = 9"
  by (simp add: sample_op_env_def generate_snapshot_id_def wrap64_def)

lemma sample_old_snapshot: "old_snapshot_of (sample_part_table V3) None = Ok (Some sample_snapshot)"
  by (simp add: old_snapshot_of_def current_snapshot_def ref_snapshot_id_def sample_part_table_def sample_table_def)

lemma sample_open_list:
  obtains w where "open_list sample_io sample_op_env sample_store (sample_part_table V3) [sample_file 5] (Some sample_snapshot) = Ok w"
    "mlw_table_metadata w = sample_part_table V3" "mlw_selected_data_manifest w = None" "mlw_selected_delete_manifest w = None"
    "mlw_n_existing_files w = 0" "mlw_sink w = (AvroWriter_new (manifest_list_schema V3), Some (RowIdAssigner_new 5))"
    "manifests_of_snapshot sample_io sample_store (sample_part_table V3) (Some sample_snapshot) = Ok []"
proof -
  let ?tm = "sample_part_table V3" and ?s = "manifest_list_schema V3"
  let ?bytes = "AvroWriter_new ?s :: sample_value avro_writer"
  have read: "io_avro_read sample_io ?bytes = Ok \<lparr>ac_schema = ?s, ac_user_metadata = Map.empty, ac_values = []\<rparr>"
    by (simp add: sample_io_def AvroWriter_new_def)
  obtain reader where r: "ListReader_new sample_io ?bytes ?tm = Ok reader" "mlr_reader reader = []"
    by (simp add: ListReader_new_def ListReader_new_with_decoder_def read)
  then have items: "list_items sample_io reader = []"
    by (subst list_items.simps) (simp add: ListReader_next_def)
  obtain bounding where bo: "bounding_partition_values [sample_file 5] [''region''] = Ok bounding"
    by (simp add: bounding_partition_values_def bounding_step_def partition_struct_to_vec_def)
  have h: "hydrate_v1_manifest_list_row_counts sample_io sample_store ?bytes ?tm = Ok None"
    by (simp add: hydrate_v1_manifest_list_row_counts_def read)
  have g: "store_get sample_io sample_store (sn_manifest_list sample_snapshot) = Ok ?bytes"
    by (simp add: store_get_def sample_store_def sample_snapshot_def)
  obtain w where w: "open_list sample_io sample_op_env sample_store ?tm [sample_file 5] (Some sample_snapshot) = Ok w"
    "w = \<lparr>mlw_table_metadata = ?tm, mlw_sink = (AvroWriter_new ?s, Some (RowIdAssigner_new 5)),
         mlw_selected_data_manifest = None, mlw_selected_delete_manifest = None,
         mlw_bounding_partition_values = bounding, mlw_n_existing_files = 0,
         mlw_commit_uuid = ''uuid'', mlw_manifest_count = 0\<rparr>"
    by (simp add: open_list_def g h ListWriter_from_existing_def sample_column_names bo r(1) items list_row_ids_def
        sample_op_env_def)
  have "manifests_of_snapshot sample_io sample_store ?tm (Some sample_snapshot) = Ok []"
    by (simp add: manifests_of_snapshot_def g h r(1) items collect_items_def)
  with w show thesis by (intro that [OF w(1)]) simp_all
qed

text \<open>One file appended to a V3 list.\<close>

lemma sample_summary_encodes:
  "\<exists>s. FieldSummarySerde_from sample_lib (update_summary FieldSummary_empty (Some (VString ''eu''))) = Ok s"
proof -
  have "typed_summary (update_summary FieldSummary_empty (Some (VString ''eu''))) (Some (Primitive PString))"
    by (auto simp: typed_summary_def update_summary_def FieldSummary_empty_def has_type_def value_datatype_def
        update_lower_def update_upper_def value_is_nan_def)
  from summary_roundtrip [OF sample_radix this, of True] show ?thesis by blast
qed

lemma sample_added_encodes:
  "\<exists>en. ManifestEntryEnum_from sample_lib \<lparr>bo_lower = [1], bo_upper = [1]\<rparr>
     (added_entry (sample_part_table V3) None None (sample_file 5)) = Ok en"
proof -
  have "typed_file \<lparr>bo_lower = [1], bo_upper = [1]\<rparr> \<lparr>bo_lower = [1], bo_upper = [1]\<rparr>
     sample_schema sample_spec (me_data_file (added_entry (sample_part_table V3) None None (sample_file 5)))"
    by (simp add: added_entry_def sample_file_typed)
  from manifest_entry_roundtrip_lemma [OF sample_radix this] show ?thesis by auto
qed

lemma sample_append_content:
  assumes w: "mlw_table_metadata w = sample_part_table V3" "mlw_selected_data_manifest w = None"
    "mlw_selected_delete_manifest w = None" "mlw_n_existing_files w = 0"
    "mlw_sink w = (AvroWriter_new (manifest_list_schema V3), Some (RowIdAssigner_new 5))"
  obtains w' ps where
    "append_content sample_io st (sample_part_table V3) 9 (w, []) (ContentData, [sample_file 5]) = Ok (w', ps)"
    "mlw_table_metadata w' = sample_part_table V3" "mlw_selected_data_manifest w' = None" "mlw_selected_delete_manifest w' = None"
proof -
  let ?tm = "sample_part_table V3"
  let ?e = "added_entry ?tm None None (sample_file 5)"
  obtain sc where sc: "table_entry_schema sample_io ?tm = Ok sc" using sample_table_schema by blast
  obtain en where en: "ManifestEntryEnum_from sample_lib \<lparr>bo_lower = [1], bo_upper = [1]\<rparr> ?e = Ok en"
    using sample_added_encodes by blast
  obtain sm where sm: "FieldSummarySerde_from sample_lib (update_summary FieldSummary_empty (Some (VString ''eu''))) = Ok sm"
    using sample_summary_encodes by blast
  have fl: "me_data_file ?e = sample_file 5" "me_status ?e = Added" "me_sequence_number ?e = None" by (simp_all add: added_entry_def)
  have sf: "df_content (sample_file 5) = Data" "df_record_count (sample_file 5) = 5" by (simp_all add: sample_file_def)
  have rows: "added_rows_of ?e = 5" "existing_rows_of ?e = 0" "deleted_rows_of ?e = 0"
    using sf by (simp_all add: fl added_rows_of_def existing_rows_of_def deleted_rows_of_def)
  obtain location w2 where l: "next_manifest_location w = (location, w2)" "w2 = w\<lparr>mlw_manifest_count := mlw_manifest_count w + 1\<rparr>"
    by (simp add: next_manifest_location_def)
  obtain mw where mw: "ManifestWriter_new sample_io location 9 sc ?tm ContentData = Ok mw"
    "mw_table_metadata mw = ?tm" "mw_manifest mw = new_manifest_entry ?tm location 9 ContentData"
    by (auto simp: ManifestWriter_new_def table_user_metadata_def schema_text_def)
  have region: "Struct_get (df_partition (me_data_file ?e)) ''region'' = Some (Some (VString ''eu''))" by (simp add: fl)
  obtain mw' where mw': "ManifestWriter_append sample_io mw ?e = Ok mw'"
    "mw_manifest mw' = count_entry ?e ((new_manifest_entry ?tm location 9 ContentData)
        \<lparr>ml_partitions := Some [update_summary FieldSummary_empty (Some (VString ''eu''))]\<rparr>)"
    using mw(2,3) en region by (auto simp: ManifestWriter_append_def append_entry_def new_manifest_entry_def fl lower_min_sequence_def)
  obtain m where m: "ManifestWriter_finish_concurrently sample_io mw' = Ok (m, (location, mw_writer mw'))"
    "m = (mw_manifest mw')\<lparr>ml_manifest_length := wrap64 (int (io_len sample_io (mw_writer mw')))\<rparr>"
    by (simp add: finish_concurrently_Ok mw'(2) new_manifest_entry_def)
  obtain sink where sink: "append_manifest sample_io (mlw_sink w) m = Ok sink"
    unfolding w(5) m(2) mw'(2)
    by (simp add: append_manifest_def prepare_manifest_def assign_Ok takes_row_ids_def new_manifest_entry_def rows fl
        bump32_def bump64_def append_list_entry_def ManifestListEntryEnum_from_def ManifestListEntryV3_from_def unwrap_def sm
        AvroWriter_new_def RowIdAssigner_new_def in_i64_def wrap32_def wrap64_def)
  have n: "ListWriter_n_splits w 1 ContentData = 0"
    by (simp add: ListWriter_n_splits_def selected_manifest_of_def w(2,4) compute_n_splits_def MIN_DATAFILES_PER_MANIFEST_def
        i32_as_usize_def)
  have t: "take_selected ContentData w = (None, w\<lparr>mlw_selected_data_manifest := None\<rparr>)"
    by (simp add: take_selected_def w(2))
  have same: "w\<lparr>mlw_selected_data_manifest := None\<rparr> = w" using w(2) by (cases w) simp
  have "append_content sample_io st ?tm 9 (w, []) (ContentData, [sample_file 5])
      = Ok (w2\<lparr>mlw_sink := sink\<rparr>, [(location, mw_writer mw')])"
    using n mw' m sink l w
    by (simp add: append_content_def append_concurrently_def append_filtered_concurrently_def t same sc l(1) open_manifest_def
        mw(1) append_entries_def append_new_manifest_def)
  then show thesis by (rule that) (simp_all add: l(2) w)
qed

lemma sample_append:
  obtains us st' where "execute_append sample_io sample_op_env sample_store (sample_part_table V3) None [sample_file 5] [] None
    = Ok ((Some (AssertRefSnapshotId ''main'' (Some 7)), us), st')"
proof -
  let ?tm = "sample_part_table V3"
  obtain w where w: "open_list sample_io sample_op_env sample_store ?tm [sample_file 5] (Some sample_snapshot) = Ok w"
    "mlw_table_metadata w = ?tm" "mlw_selected_data_manifest w = None" "mlw_selected_delete_manifest w = None"
    "mlw_n_existing_files w = 0" "mlw_sink w = (AvroWriter_new (manifest_list_schema V3), Some (RowIdAssigner_new 5))"
    by (rule sample_open_list)
  obtain w' ps where a: "append_content sample_io sample_store ?tm 9 (w, []) (ContentData, [sample_file 5]) = Ok (w', ps)"
    "mlw_table_metadata w' = ?tm" "mlw_selected_data_manifest w' = None" "mlw_selected_delete_manifest w' = None"
    by (rule sample_append_content [OF w(2-6)])
  have "\<exists>st1. write_pending sample_io st0 ps = Ok st1" for st0
    by (induction ps arbitrary: st0) (auto simp: write_pending_def store_put_def)
  then obtain st1 where p: "write_pending sample_io sample_store ps = Ok st1" by blast
  obtain location nxt st' where f: "ListWriter_finish sample_io st1 w' 9 = Ok (location, nxt, st')"
    by (simp add: ListWriter_finish_def a append_selected_def store_put_def Let_def)
  have "v3_writer 5 ?tm w {#}"
    using w by (simp add: v3_writer_def row_accounts_def AvroWriter_new_def RowIdAssigner_new_def)
  from append_content_rows [OF a(1) this] obtain N where "v3_writer 5 ?tm w' N" "rows_taken N = 5"
    by (auto simp: file_rows_def sample_file_def in_i64_def)
  from finish_rows [OF f this(1)] this(2) have nxt: "nxt = Some 10" by simp
  have seven: "sn_snapshot_id sample_snapshot = 7" by (simp add: sample_snapshot_def)
  have empty: "append_content sample_io sample_store ?tm 9 (w', ps) (ContentDeletes, []) = Ok (w', ps)"
    by (simp add: append_content_def)
  have "\<exists>s. new_snapshot sample_op_env ?tm 9 n location k summary parent (Some 10) = Ok s" for n k summary parent
    by (simp add: new_snapshot_def apply_v3_row_lineage_def checked_sub_i64_def in_i64_def SnapshotBuilder_build_def)
  then obtain s where s: "new_snapshot sample_op_env ?tm 9 (wrap64 (tm_last_sequence_number ?tm + 1)) location (operation_of_counts 1 0)
      (extend_summary (update_snapshot_summary (Some (sn_summary sample_snapshot)) [sample_file 5] []) None)
      (Some 7) (Some 10) = Ok s"
    by blast
  have "execute_append sample_io sample_op_env sample_store ?tm None [sample_file 5] [] None
      = Ok (commit_of_snapshot None (Some sample_snapshot) 9 s, st')"
    using s by (simp add: execute_append_def sample_old_snapshot sample_snapshot_id w(1) a(1) empty p f nxt seven)
  then show thesis by (rule that [OF trans]) (simp add: commit_of_snapshot_def ref_or_main_def seven)
qed


theorem append_commits_witness:
  "\<exists>c us st' tm' s. execute_append sample_io sample_op_env sample_store (sample_part_table V3) None [sample_file 5] [] None
      = Ok ((Some c, us), st')
    \<and> apply_table_updates sample_env (sample_part_table V3) us = Ok tm' \<and> tm_inv tm' \<and> current_snapshot tm' None = Ok (Some s)
    \<and> sn_parent_snapshot_id s = Some 7"
proof -
  obtain us st' where a: "execute_append sample_io sample_op_env sample_store (sample_part_table V3) None [sample_file 5] [] None
    = Ok ((Some (AssertRefSnapshotId ''main'' (Some 7)), us), st')"
    by (rule sample_append)
  have inv: "tm_inv (sample_part_table V3)"
    using tm_inv_sample [of V3] by (auto simp: tm_inv_defs sample_part_table_def keyed_def sample_schema_def sample_spec_def)
  have ref: "map_option sr_snapshot_id (tm_refs (sample_part_table V3) (ref_or_main None)) = map_option sn_snapshot_id (Some sample_snapshot)"
    by (simp add: sample_part_table_def sample_table_def ref_or_main_def sample_snapshot_def)
  from append_commits [OF a _ inv sample_old_snapshot ref, of sample_env] a show ?thesis
    by (auto simp: in_i64_def sample_snapshot_def)
qed

end
