(* ===== verification/Operation_Expiry.thy ===== *)
theory Operation_Expiry
  imports Operation
begin

text \<open>
  Properties of the operations of \<open>Operation\<close> that write no files: the totals in the summary
  of a snapshot after an overwrite, and what the expiry of snapshots removes.
\<close>

section \<open>The totals of the summary\<close>

lemma summary_i64_show [simp]:
  "in_i64 x \<Longrightarrow> summary_i64 (Some (m(k \<mapsto> show_int x))) k = x"
  by (simp add: summary_i64_def)

lemma summary_i64_other [simp]:
  "k \<noteq> j \<Longrightarrow> summary_i64 (Some (m(j \<mapsto> v))) k = summary_i64 (Some m) k"
  by (simp add: summary_i64_def)

lemma in_i64_max0 [simp]: "in_i64 x \<Longrightarrow> in_i64 (max x 0)"
  by (auto simp: in_i64_def max_def)

lemma subtract_from_summary_same:
  "in_i64 (summary_i64 (Some m) k) \<Longrightarrow> summary_i64 (Some (subtract_from_summary k d False m)) k
     = (if d = 0 then summary_i64 (Some m) k else max (wrap64 (summary_i64 (Some m) k - d)) 0)"
  "summary_i64 (Some (subtract_from_summary k d True m)) k
     = (if d = 0 then summary_i64 (Some m) k else wrap64 (summary_i64 (Some m) k + d))"
  by (simp_all add: subtract_from_summary_def Let_def)

lemma subtract_from_summary_other:
  "k \<noteq> j \<Longrightarrow> summary_i64 (Some (subtract_from_summary j d add m)) k = summary_i64 (Some m) k"
  by (simp add: subtract_from_summary_def Let_def)

lemma in_i64_0 [simp]: "in_i64 0"
  by (simp add: in_i64_def)

lemma parse_unsigned_less: "parse_unsigned b s = Some n \<Longrightarrow> n < b"
  by (auto simp: parse_unsigned_def Let_def split: option.splits if_splits list.splits)

lemma parse_i64_range: "parse_i64 s = Some x \<Longrightarrow> in_i64 x"
  by (cases "s \<noteq> [] \<and> hd s = CHR ''-''")
    (auto simp: parse_i64_def in_i64_def dest!: parse_unsigned_less split: option.splits if_splits)

lemma in_i64_summary [simp]: "in_i64 (summary_i64 m k)"
  by (cases "Option.bind (Option.bind m (\<lambda>m. m k)) parse_i64")
    (auto simp: summary_i64_def bind_eq_Some_conv in_i64_0 dest: parse_i64_range)

lemma summary_i64_empty [simp]: "summary_i64 (Some Map.empty) k = 0"
  by (simp add: summary_i64_def)

lemma files_size_range [simp]: "in_i64 (files_size files)"
proof -
  have "in_i64 (foldl (\<lambda>n f. wrap64 (n + df_file_size_in_bytes f)) n files)" if "in_i64 n" for n
    using that by (induction files arbitrary: n) auto
  then show ?thesis by (simp add: files_size_def in_i64_0)
qed

lemma files_size_Nil [simp]: "files_size [] = 0"
  by (simp add: files_size_def)

lemma data_records_range [simp]: "in_i64 (data_records files)"
proof -
  have "in_i64 (foldl (\<lambda>n f. if df_content f = Data then wrap64 (n + df_record_count f) else n) n files)" if "in_i64 n" for n
    using that by (induction files arbitrary: n) auto
  then show ?thesis by (simp add: data_records_def in_i64_def)
qed

text \<open>
  The totals of a summary: an overwrite adds what the new files bring to the totals of the
  old snapshot and subtracts what it removed, never below zero, and reports what it removed.
  The number of delete files stays.
\<close>

theorem overwrite_summary_totals:
  assumes "in_i64 (int (length files))"
  shows "let old = Some (su_other (sn_summary s)); sm = update_snapshot_summary_by_filtered_stats
          (update_snapshot_summary (Some (sn_summary s)) files []) stats;
        less = (\<lambda>x d. if d = 0 then x else max (wrap64 (x - d)) 0)
      in summary_i64 (Some sm) ''total-records''
           = less (wrap64 (summary_i64 old ''total-records'' + data_records files)) (fms_removed_records stats)
       \<and> summary_i64 (Some sm) ''total-data-files''
           = less (wrap64 (summary_i64 old ''total-data-files'' + int (length files))) (fms_removed_data_files stats)
       \<and> summary_i64 (Some sm) ''total-file-size-bytes''
           = less (wrap64 (summary_i64 old ''total-file-size-bytes'' + files_size files)) (fms_removed_file_size_bytes stats)
       \<and> summary_i64 (Some sm) ''total-delete-files'' = summary_i64 old ''total-delete-files''
       \<and> summary_i64 (Some sm) ''deleted-records'' = wrap64 (fms_removed_records stats)
       \<and> summary_i64 (Some sm) ''deleted-data-files'' = wrap64 (fms_removed_data_files stats)
       \<and> summary_i64 (Some sm) ''added-records'' = data_records files"
  using assms
  by (simp add: Let_def update_snapshot_summary_by_filtered_stats_def update_snapshot_summary_def
      subtract_from_summary_same subtract_from_summary_other)

theorem overwrite_summary_totals_witness:
  "summary_i64 (Some (update_snapshot_summary_by_filtered_stats
      (update_snapshot_summary (Some \<lparr>su_operation = Append, su_other = [''total-records'' \<mapsto> show_int 20]\<rparr>) [sample_file 5] [])
      \<lparr>fms_removed_data_files = 1, fms_removed_records = 7, fms_removed_file_size_bytes = 100, fms_filtered_entries = []\<rparr>))
    ''total-records'' = 18"
proof -
  let ?s = "sample_snapshot\<lparr>sn_summary := \<lparr>su_operation = Append, su_other = [''total-records'' \<mapsto> show_int 20]\<rparr>\<rparr>"
  let ?stats = "\<lparr>fms_removed_data_files = 1, fms_removed_records = 7, fms_removed_file_size_bytes = 100, fms_filtered_entries = []\<rparr>"
  have "summary_i64 (Some [''total-records'' \<mapsto> show_int 20]) ''total-records'' = 20"
    by (rule summary_i64_show) (simp add: in_i64_def)
  moreover have "data_records [sample_file 5] = 5"
    by (simp add: data_records_def sample_file_def wrap64_def)
  ultimately show ?thesis
    using overwrite_summary_totals [of "[sample_file 5]" ?s ?stats]
    by (simp add: in_i64_def Let_def wrap64_def)
qed

section \<open>Expiry\<close>

text \<open>What protects a snapshot, given its position from the newest.\<close>

lemma retained_iff:
  "retained tm older_than retain_last retain_refs (i, s) \<longleftrightarrow>
     tm_current_snapshot_id tm = Some (sn_snapshot_id s)
     \<or> (retain_refs \<and> (\<exists>r\<in>ran (tm_refs tm). sr_snapshot_id r = sn_snapshot_id s))
     \<or> (\<exists>n. retain_last = Some n \<and> i < n) \<or> (\<exists>t. older_than = Some t \<and> t \<le> sn_timestamp_ms s)"
  by (auto simp: retained_def Let_def split: option.split)

definition expired_ids :: "op_env \<Rightarrow> table_metadata \<Rightarrow> i64 option \<Rightarrow> nat option \<Rightarrow> bool \<Rightarrow> i64 list" where
  "expired_ids env tm older_than retain_last retain_refs =
     map (sn_snapshot_id \<circ> snd) (filter (\<lambda>is. \<not> retained tm older_than retain_last retain_refs is)
       (List.enumerate 0 (newest_first env tm)))"

lemma expire_updates:
  assumes "execute_expire_snapshots env tm older_than retain_last retain_refs False = Ok (req, us)"
  shows "us = (if expired_ids env tm older_than retain_last retain_refs = [] then []
      else [RemoveSnapshots (expired_ids env tm older_than retain_last retain_refs)])"
  using assms unfolding execute_expire_snapshots_def expired_ids_def Let_def by (auto split: if_splits)

lemma applied_expiry:
  assumes "execute_expire_snapshots env tm older_than retain_last retain_refs False = Ok (req, us)"
    and "apply_table_updates cenv tm us = Ok tm'"
  shows "tm_snapshots tm' = remove_keys (expired_ids env tm older_than retain_last retain_refs) (tm_snapshots tm)
    \<and> tm_refs tm' = tm_refs tm \<and> tm_current_snapshot_id tm' = tm_current_snapshot_id tm"
  using assms(2) expire_updates [OF assms(1)]
  by (cases "expired_ids env tm older_than retain_last retain_refs = []")
    (auto simp: apply_table_updates_def apply_init_def remove_snapshots_def Let_def remove_keys_def)

lemma newest_first_set:
  assumes "set (oe_snapshot_order env) = dom (tm_snapshots tm)"
  shows "set (newest_first env tm) = ran (tm_snapshots tm)"
  using assms by (force simp: newest_first_def List.map_filter_def ran_def dom_def image_iff)

lemma newest_first_distinct:
  assumes "tm_keyed tm" "distinct (oe_snapshot_order env)"
  shows "distinct (map sn_snapshot_id (newest_first env tm))"
proof -
  have k: "tm_snapshots tm i = Some s \<Longrightarrow> sn_snapshot_id s = i" for i s
    using assms(1) by (auto simp: tm_keyed_def keyed_def)
  have "map sn_snapshot_id (List.map_filter (tm_snapshots tm) is) = filter (\<lambda>i. tm_snapshots tm i \<noteq> None) is" for "is"
    by (induction "is") (auto simp: map_filter_simps k split: option.split)
  then have "distinct (map sn_snapshot_id (List.map_filter (tm_snapshots tm) (oe_snapshot_order env)))"
    using assms(2) by simp
  moreover have "mset (map sn_snapshot_id (newest_first env tm))
      = mset (map sn_snapshot_id (List.map_filter (tm_snapshots tm) (oe_snapshot_order env)))"
    by (simp add: newest_first_def)
  ultimately show ?thesis by (metis mset_eq_imp_distinct_iff)
qed


text \<open>
  Without retaining references, an expiry leaves a reference to a removed snapshot behind.
  The branch then looks like one without data: no old snapshot is found for it.
\<close>

theorem expired_branch_looks_empty:
  assumes r: "execute_expire_snapshots env tm (Some t) None False False = Ok (req, us)"
    and a: "apply_table_updates cenv tm us = Ok tm'" and keyed: "tm_keyed tm"
    and order: "set (oe_snapshot_order env) = dom (tm_snapshots tm)"
    and branch: "tm_refs tm b = Some ref" "tm_snapshots tm (sr_snapshot_id ref) = Some s"
      "tm_current_snapshot_id tm \<noteq> Some (sr_snapshot_id ref)" "sn_timestamp_ms s < t"
  shows "tm_refs tm' b = Some ref \<and> old_snapshot_of tm (Some b) = Ok (Some s) \<and> old_snapshot_of tm' (Some b) = Ok None"
proof -
  have key: "sn_snapshot_id s = sr_snapshot_id ref"
    using keyed branch(2) by (auto simp: tm_keyed_def keyed_def)
  have "s \<in> set (newest_first env tm)" using newest_first_set [OF order] branch(2) by (auto simp: ran_def)
  then obtain k where "k < length (newest_first env tm)" "newest_first env tm ! k = s" by (auto simp: in_set_conv_nth)
  moreover have "\<not> retained tm (Some t) None False (k, s)" for k
    using branch key by (simp add: retained_iff)
  ultimately have "sr_snapshot_id ref \<in> set (expired_ids env tm (Some t) None False)"
    using key by (force simp: expired_ids_def in_set_enumerate_eq image_iff)
  with applied_expiry [OF r a] branch show ?thesis
    by (simp add: old_snapshot_of_def current_snapshot_def ref_snapshot_id_def remove_keys_apply)
qed

text \<open>A table with an older snapshot, on a branch of its own.\<close>

definition sample_branch_table :: table_metadata where
  "sample_branch_table =
     (sample_table V1)\<lparr>tm_snapshots := [7 \<mapsto> sample_snapshot, 8 \<mapsto> sample_snapshot\<lparr>sn_snapshot_id := 8, sn_timestamp_ms := 50\<rparr>],
       tm_refs := (tm_refs (sample_table V1))(''dev'' \<mapsto> \<lparr>sr_snapshot_id = 8, sr_retention = SnapshotRetention_default\<rparr>)\<rparr>"

lemma sample_branch_inv: "tm_inv sample_branch_table"
proof -
  have base: "tm_keyed (sample_table V1)" "log_live (sample_table V1)" "main_is_current (sample_table V1)"
    using tm_inv_sample [of V1] by (simp_all add: tm_inv_def)
  have s: "sn_snapshot_id sample_snapshot = 7" "tm_format_version (sample_table V1) = V1"
    by (simp_all add: sample_snapshot_def sample_table_def)
  have "tm_keyed sample_branch_table"
    using base(1) s(1) by (auto simp: tm_keyed_def keyed_def sample_branch_table_def split: if_splits)
  moreover have "log_live sample_branch_table" "main_is_current sample_branch_table"
    using base(2,3) by (auto simp: log_live_def main_is_current_def sample_branch_table_def sample_table_def)
  ultimately show ?thesis
    by (simp add: tm_inv_def seq_ok_def lineage_ok_def sample_branch_table_def s(2))
qed

lemma sample_expiry:
  "execute_expire_snapshots (sample_op_env\<lparr>oe_snapshot_order := [7, 8]\<rparr>) sample_branch_table (Some 90) None False False
     = Ok (None, [RemoveSnapshots [8]])"
  by (simp add: execute_expire_snapshots_def newest_first_def retained_def sample_branch_table_def sample_table_def
      sample_snapshot_def map_filter_simps)

lemma sample_expiry_applied:
  "\<exists>tm'. apply_table_updates sample_env sample_branch_table [RemoveSnapshots [8]] = Ok tm'"
  by (simp add: apply_table_updates_def)

lemma sample_order:
  "distinct (oe_snapshot_order (sample_op_env\<lparr>oe_snapshot_order := [7, 8]\<rparr>))"
  "set (oe_snapshot_order (sample_op_env\<lparr>oe_snapshot_order := [7, 8]\<rparr>)) = dom (tm_snapshots sample_branch_table)"
  by (auto simp: sample_branch_table_def)


theorem expired_branch_looks_empty_witness:
  "\<exists>tm'. apply_table_updates sample_env sample_branch_table [RemoveSnapshots [8]] = Ok tm'
     \<and> tm_refs tm' ''dev'' \<noteq> None \<and> old_snapshot_of tm' (Some ''dev'') = Ok None"
proof -
  obtain tm' where a: "apply_table_updates sample_env sample_branch_table [RemoveSnapshots [8]] = Ok tm'"
    using sample_expiry_applied by blast
  have keyed: "tm_keyed sample_branch_table" using sample_branch_inv by (simp add: tm_inv_def)
  from expired_branch_looks_empty [OF sample_expiry a keyed sample_order(2), of "''dev''"] a show ?thesis
    by (auto simp: sample_branch_table_def sample_table_def sample_snapshot_def)
qed

end
