(* ===== verification/Table_Scan.thy ===== *)
theory Table_Scan
  imports Operation
begin

text \<open>
  Reading a table (\<open>iceberg-rust/src/table/mod.rs\<close>, and \<open>read_snapshot\<close> and the bounds of a
  snapshot in \<open>table/manifest_list.rs\<close>): the manifests and data files of a snapshot or of a range
  of snapshots. Manifest lists and manifests are read through the cache of manifest bytes; the
  theory shows that the cache cannot be observed while the files are immutable.
\<close>

section \<open>Reading through the cache\<close>

text \<open>
  A scan passes on the state \<open>'k\<close> of the cache, also when it fails. It is \<open>None\<close> if it does not
  return: the eviction loop of the cache depends on the LRU map, which is a parameter.
\<close>

type_synonym ('a, 'k) scan = "'k \<Rightarrow> (('a, error) outcome \<times> 'k) option"

definition sreturn :: "('a, error) outcome \<Rightarrow> ('a, 'k) scan" where
  "sreturn r k = Some (r, k)"

definition sbind :: "('a, 'k) scan \<Rightarrow> ('a \<Rightarrow> ('b, 'k) scan) \<Rightarrow> ('b, 'k) scan" where
  "sbind m f k =
     (case m k of
        None \<Rightarrow> None
      | Some (r, k') \<Rightarrow>
          (case r of Ok a \<Rightarrow> f a k' | Err e \<Rightarrow> Some (Err e, k') | Panic s \<Rightarrow> Some (Panic s, k')))"

text \<open>All scans of a list, in order; the failure of one does not stop the others.\<close>

primrec sall :: "('x \<Rightarrow> ('a, 'k) scan) \<Rightarrow> 'x list \<Rightarrow> (('a, error) outcome list, 'k) scan" where
  "sall f [] k = Some (Ok [], k)"
| "sall f (x # xs) k =
     (case f x k of
        None \<Rightarrow> None
      | Some (r, k') \<Rightarrow> sbind (sall f xs) (\<lambda>rs. sreturn (Ok (r # rs))) k')"

primrec sfold :: "('acc \<Rightarrow> 'x \<Rightarrow> ('acc, 'k) scan) \<Rightarrow> 'acc \<Rightarrow> 'x list \<Rightarrow> ('acc, 'k) scan" where
  "sfold f acc [] = sreturn (Ok acc)"
| "sfold f acc (x # xs) = sbind (f acc x) (\<lambda>acc'. sfold f acc' xs)"

definition cached_read ::
  "('c, 'b) lru \<Rightarrow> ('v, 'b, 's) table_io \<Rightarrow> 's \<Rightarrow> string \<Rightarrow> ('b, 'c byte_capped_cache option) scan" where
  "cached_read l io st uri k =
     (case cache_get l k uri of
        (Some bytes, k') \<Rightarrow> Some (Ok bytes, k')
      | (None, k') \<Rightarrow>
          (case store_get io st uri of
             Ok bytes \<Rightarrow> map_option (Pair (Ok bytes)) (cache_put l (io_len io) k' uri bytes)
           | Err e \<Rightarrow> Some (Err e, k')
           | Panic s \<Rightarrow> Some (Panic s, k')))"

text \<open>The same without a cache.\<close>

definition direct_read :: "('v, 'b, 's) table_io \<Rightarrow> 's \<Rightarrow> string \<Rightarrow> ('b, unit) scan" where
  "direct_read io st uri = sreturn (store_get io st uri)"

section \<open>The manifests of a snapshot\<close>

text \<open>The manifest list is decoded entry by entry; an entry that cannot be read is an error item.\<close>

definition read_snapshot ::
  "('v, 'b, 's) table_io \<Rightarrow> (string \<Rightarrow> ('b, 'k) scan) \<Rightarrow> snapshot \<Rightarrow> table_metadata
   \<Rightarrow> ((manifest_list_entry, error) outcome list, 'k) scan" where
  "read_snapshot io read snapshot tm =
     sbind (read (sn_manifest_list snapshot)) (\<lambda>bytes.
     sreturn (
       rbind (map_err Iceberg (schema_of tm (sn_snapshot_id snapshot))) (\<lambda>schema.
       rbind (ListReader_new_with_schema io bytes tm schema) (\<lambda>reader.
       Ok (list_items io reader)))))"

record 's table =
  tb_identifier :: table_identifier
  tb_object_store :: 's
  tb_metadata :: table_metadata

definition Table_new :: "table_identifier \<Rightarrow> 's \<Rightarrow> table_metadata \<Rightarrow> ('s table, error) outcome" where
  "Table_new i st tm = Ok \<lparr>tb_identifier = i, tb_object_store = st, tb_metadata = tm\<rparr>"

definition Table_current_schema :: "'s table \<Rightarrow> (schema, error) outcome" where
  "Table_current_schema t = map_err Iceberg (current_schema (tb_metadata t))"

definition into_metadata :: "'s table \<Rightarrow> table_metadata" where
  "into_metadata t = tb_metadata t"

text \<open>The snapshot to read: the given one if the table has it, else the current one.\<close>

definition end_snapshot :: "table_metadata \<Rightarrow> i64 option \<Rightarrow> (snapshot option, error) outcome" where
  "end_snapshot tm end' =
     (case Option.bind end' (tm_snapshots tm) of
        Some snapshot \<Rightarrow> Ok (Some snapshot)
      | None \<Rightarrow> map_err Iceberg (current_snapshot tm None))"

definition start_sequence_number :: "table_metadata \<Rightarrow> i64 option \<Rightarrow> i64 option" where
  "start_sequence_number tm start =
     Option.bind (Option.bind start (tm_snapshots tm)) (\<lambda>snapshot.
       if sn_sequence_number snapshot = 0 then None else Some (sn_sequence_number snapshot))"

definition newer_than :: "i64 option \<Rightarrow> (manifest_list_entry, error) outcome \<Rightarrow> bool" where
  "newer_than start item =
     (case (start, item) of (Some n, Ok m) \<Rightarrow> n < ml_sequence_number m | _ \<Rightarrow> True)"

definition Table_manifests ::
  "('v, 'b, 's) table_io \<Rightarrow> (string \<Rightarrow> ('b, 'k) scan) \<Rightarrow> table_metadata \<Rightarrow> i64 option \<Rightarrow> i64 option
   \<Rightarrow> (manifest_list_entry list, 'k) scan" where
  "Table_manifests io read tm start end' =
     sbind (sreturn (end_snapshot tm end')) (\<lambda>s.
     case s of
       None \<Rightarrow> sreturn (Ok [])
     | Some snapshot \<Rightarrow>
         sbind (read_snapshot io read snapshot tm) (\<lambda>items.
         sreturn (collect_items (filter (newer_than (start_sequence_number tm start)) items))))"

section \<open>The manifests that a range of snapshots changed\<close>

text \<open>
  The walk from the end snapshot to the start snapshot. It is not bounded by the metadata: on a
  cycle of parents it does not end.
\<close>

partial_function (option) parent_walk ::
  "table_metadata \<Rightarrow> i64 option \<Rightarrow> i64 \<Rightarrow> i64 list \<Rightarrow> (i64 list, error) outcome option" where
  "parent_walk tm start current ids =
     (if Some current = start then Some (Ok ids)
      else case tm_snapshots tm current of
        None \<Rightarrow> Some (Err (NotFound (''snapshot '' @ show_int current)))
      | Some snapshot \<Rightarrow>
          (case sn_parent_snapshot_id snapshot of
             Some parent \<Rightarrow> parent_walk tm start parent (ids @ [current])
           | None \<Rightarrow>
               if start = None then Some (Ok (ids @ [current]))
               else Some (Err (InvalidFormat ''change scan start snapshot is not an ancestor of the end snapshot''))))"

definition walk_end :: "table_metadata \<Rightarrow> i64 option \<Rightarrow> (i64 option, error) outcome" where
  "walk_end tm end' =
     (case end' of
        Some i \<Rightarrow> if tm_snapshots tm i = None then Err (NotFound (''snapshot '' @ show_int i)) else Ok (Some i)
      | None \<Rightarrow> rbind (map_err Iceberg (current_snapshot tm None)) (\<lambda>s. Ok (map_option sn_snapshot_id s)))"

text \<open>A manifest that the snapshot wrote and that is not known to add or delete nothing.\<close>

definition changed_by :: "snapshot \<Rightarrow> manifest_list_entry \<Rightarrow> bool" where
  "changed_by snapshot m \<longleftrightarrow>
     ml_sequence_number m = sn_sequence_number snapshot
     \<and> (ml_added_files_count m \<noteq> Some 0 \<or> ml_deleted_files_count m \<noteq> Some 0)"

definition change_step ::
  "('v, 'b, 's) table_io \<Rightarrow> (string \<Rightarrow> ('b, 'k) scan) \<Rightarrow> table_metadata \<Rightarrow> manifest_list_entry list \<Rightarrow> i64
   \<Rightarrow> (manifest_list_entry list, 'k) scan" where
  "change_step io read tm manifests i =
     (case tm_snapshots tm i of
        None \<Rightarrow> sreturn (Err (NotFound (''snapshot '' @ show_int i)))
      | Some snapshot \<Rightarrow>
          sbind (read_snapshot io read snapshot tm) (\<lambda>items.
          sbind (sreturn (collect_items items)) (\<lambda>ms.
          sreturn (Ok (manifests @ filter (changed_by snapshot) ms)))))"

definition Table_change_manifests ::
  "('v, 'b, 's) table_io \<Rightarrow> (string \<Rightarrow> ('b, 'k) scan) \<Rightarrow> table_metadata \<Rightarrow> i64 option \<Rightarrow> i64 option
   \<Rightarrow> (manifest_list_entry list, 'k) scan" where
  "Table_change_manifests io read tm start end' =
     sbind (sreturn (walk_end tm end')) (\<lambda>e.
     case e of
       None \<Rightarrow> sreturn (Ok [])
     | Some current \<Rightarrow>
         sbind (\<lambda>k. map_option (\<lambda>r. (r, k)) (parent_walk tm start current [])) (\<lambda>ids.
         sfold (change_step io read tm) [] (rev ids)))"

section \<open>Data files\<close>

definition in_sequence_range :: "i64 option \<times> i64 option \<Rightarrow> i64 \<Rightarrow> bool" where
  "in_sequence_range seq_range n =
     (case seq_range of
        (Some start, Some end') \<Rightarrow> start < n \<and> n \<le> end'
      | (Some start, None) \<Rightarrow> start < n
      | (None, Some end') \<Rightarrow> n \<le> end'
      | (None, None) \<Rightarrow> True)"

text \<open>
  An entry inherits its first row id, snapshot id and sequence number from the manifest, and is
  kept if its sequence number is in the range. The first component is the inheritance state.
\<close>

definition scan_step ::
  "manifest_list_entry \<Rightarrow> i64 option \<times> i64 option \<Rightarrow> first_row_id_inheritance \<times> (string \<times> manifest_entry) list
   \<Rightarrow> (manifest_entry, error) outcome
   \<Rightarrow> (first_row_id_inheritance \<times> (string \<times> manifest_entry) list, error) outcome" where
  "scan_step manifest seq_range s x =
     rbind x (\<lambda>e.
     rbind (map_err Iceberg (FirstRowIdInheritance_apply (fst s) e)) (\<lambda>(mode, e').
     let e'' = inherit_from_manifest (ml_sequence_number manifest) (ml_added_snapshot_id manifest) e'
     in Ok (mode,
          if (case me_sequence_number e'' of Some n \<Rightarrow> in_sequence_range seq_range n | None \<Rightarrow> True)
          then snd s @ [(ml_manifest_path manifest, e'')] else snd s)))"

definition scan_manifest ::
  "('v, 'b, 's) table_io \<Rightarrow> (string \<Rightarrow> ('b, 'k) scan) \<Rightarrow> i64 option \<times> i64 option \<Rightarrow> manifest_list_entry
   \<Rightarrow> ((string \<times> manifest_entry) list, 'k) scan" where
  "scan_manifest io read seq_range manifest =
     sbind (read (ml_manifest_path manifest)) (\<lambda>bytes.
     sreturn (
       rbind (map_err Iceberg (try_for_committed_manifest (ml_first_row_id manifest))) (\<lambda>mode.
       rbind (ManifestReader_new io bytes) (\<lambda>reader.
       rbind (try_fold (scan_step manifest seq_range) (mode, []) (mr_reader reader)) (\<lambda>s.
       Ok (snd s))))))"

text \<open>
  The stream of data files has one part per selected manifest, in their order (\<open>buffered\<close>
  keeps it): its entries or its error.
\<close>

definition datafiles ::
  "('v, 'b, 's) table_io \<Rightarrow> (string \<Rightarrow> ('b, 'k) scan) \<Rightarrow> manifest_list_entry list \<Rightarrow> bool list option
   \<Rightarrow> i64 option \<times> i64 option \<Rightarrow> (((string \<times> manifest_entry) list, error) outcome list, 'k) scan" where
  "datafiles io read manifests fltr seq_range =
     (case fltr of
        Some predicate \<Rightarrow>
          if length predicate \<noteq> length manifests
          then sreturn (Err (InvalidFormat (''manifest filter length '' @ show_nat (length predicate)
                 @ '' does not match manifest count '' @ show_nat (length manifests))))
          else sall (scan_manifest io read seq_range) (map fst (filter snd (zip manifests predicate)))
      | None \<Rightarrow> sall (scan_manifest io read seq_range) manifests)"

text \<open>The items of the stream, and the consumer that stops at the first hit or error.\<close>

definition stream_items :: "('a list, error) outcome list \<Rightarrow> ('a, error) outcome list" where
  "stream_items parts =
     concat (map (\<lambda>p. case p of Ok xs \<Rightarrow> map Ok xs | Err e \<Rightarrow> [Err e] | Panic s \<Rightarrow> [Panic s]) parts)"

fun try_any :: "('a \<Rightarrow> bool) \<Rightarrow> ('a, error) outcome list \<Rightarrow> (bool, error) outcome" where
  "try_any p [] = Ok False"
| "try_any p (x # xs) = rbind x (\<lambda>a. if p a then Ok True else try_any p xs)"

definition datafiles_contains_delete ::
  "('v, 'b, 's) table_io \<Rightarrow> (string \<Rightarrow> ('b, 'k) scan) \<Rightarrow> table_metadata \<Rightarrow> i64 option \<Rightarrow> i64 option
   \<Rightarrow> (bool, 'k) scan" where
  "datafiles_contains_delete io read tm start end' =
     sbind (Table_manifests io read tm start end') (\<lambda>manifests.
     sbind (datafiles io read manifests None (None, None)) (\<lambda>parts.
     sreturn (try_any (\<lambda>(_, e). df_content (me_data_file e) \<noteq> Data) (stream_items parts))))"

section \<open>Deleting the files of a table\<close>

text \<open>
  The paths are used as they are in the metadata. The deletions of each kind run in any order;
  here they run in the order of the stream and of the hash map of snapshots, \<open>order\<close>.
\<close>

definition delete_all_table_files ::
  "('v, 'b, 's) table_io \<Rightarrow> (string \<Rightarrow> ('b, 'k) scan) \<Rightarrow> ('s \<Rightarrow> string \<Rightarrow> ('s, error) outcome) \<Rightarrow> i64 list
   \<Rightarrow> 's \<Rightarrow> table_metadata \<Rightarrow> ('s, 'k) scan" where
  "delete_all_table_files io read delete order st tm =
     sbind (sreturn (map_err Iceberg (current_snapshot tm None))) (\<lambda>s.
     case s of
       None \<Rightarrow> sreturn (Ok st)
     | Some snapshot \<Rightarrow>
         sbind (read_snapshot io read snapshot tm) (\<lambda>items.
         sbind (sreturn (collect_items items)) (\<lambda>manifests.
         sbind (datafiles io read manifests None (None, None)) (\<lambda>parts.
         sreturn (
           rbind (try_fold (\<lambda>st' x. rbind x (\<lambda>(_, e). delete st' (df_file_path (me_data_file e)))) st (stream_items parts)) (\<lambda>st1.
           rbind (try_fold (\<lambda>st' m. delete st' (ml_manifest_path m)) st1 manifests) (\<lambda>st2.
           try_fold (\<lambda>st' s'. delete st' (sn_manifest_list s')) st2 (hm_values order (tm_snapshots tm)))))))))"

section \<open>Bounds of a snapshot\<close>

text \<open>These read the manifest list from the store, not through the cache.\<close>

definition list_of_snapshot ::
  "('v, 'b, 's) table_io \<Rightarrow> 's \<Rightarrow> snapshot \<Rightarrow> table_metadata
   \<Rightarrow> ((manifest_list_entry, error) outcome list, error) outcome" where
  "list_of_snapshot io st snapshot tm =
     rbind (store_get io st (sn_manifest_list snapshot)) (\<lambda>bytes.
     rbind (map_err Iceberg (schema_of tm (sn_snapshot_id snapshot))) (\<lambda>schema.
     rbind (ListReader_new_with_schema io bytes tm schema) (\<lambda>reader.
     Ok (list_items io reader))))"

definition partition_bounds_step ::
  "rectangle option \<Rightarrow> (manifest_list_entry, error) outcome \<Rightarrow> (rectangle option, error) outcome" where
  "partition_bounds_step acc x =
     rbind x (\<lambda>m.
     case ml_partitions m of
       None \<Rightarrow> Ok acc
     | Some ps \<Rightarrow>
         (case acc of
            None \<Rightarrow> Ok (Some (summary_to_rectangle ps))
          | Some r \<Rightarrow> rbind (expand r (summary_to_rectangle ps)) (\<lambda>r'. Ok (Some r'))))"

definition snapshot_partition_bounds ::
  "('v, 'b, 's) table_io \<Rightarrow> 's \<Rightarrow> snapshot \<Rightarrow> table_metadata \<Rightarrow> (rectangle option, error) outcome" where
  "snapshot_partition_bounds io st snapshot tm =
     rbind (list_of_snapshot io st snapshot tm) (try_fold partition_bounds_step None)"

record partition_bounds_with_nulls =
  pb_bounds :: rectangle
  pb_contains_null :: "bool list"

definition add_bounds ::
  "partition_bounds_with_nulls option \<Rightarrow> field_summary list \<Rightarrow> (partition_bounds_with_nulls option, error) outcome" where
  "add_bounds acc ps =
     (case acc of
        None \<Rightarrow> Ok (Some \<lparr>pb_bounds = summary_to_rectangle ps, pb_contains_null = map fs_contains_null ps\<rparr>)
      | Some r \<Rightarrow>
          if length (pb_contains_null r) \<noteq> length ps then Ok None
          else rbind (expand (pb_bounds r) (summary_to_rectangle ps)) (\<lambda>bounds.
               Ok (Some \<lparr>pb_bounds = bounds,
                         pb_contains_null = map2 (\<or>) (pb_contains_null r) (map fs_contains_null ps)\<rparr>)))"

fun bounds_with_nulls ::
  "i32 \<Rightarrow> partition_bounds_with_nulls option \<Rightarrow> (manifest_list_entry, error) outcome list
   \<Rightarrow> (partition_bounds_with_nulls option, error) outcome" where
  "bounds_with_nulls spec_id acc [] = Ok acc"
| "bounds_with_nulls spec_id acc (x # xs) =
     rbind x (\<lambda>m.
     if ml_partition_spec_id m \<noteq> spec_id then Ok None
     else case ml_partitions m of
       None \<Rightarrow> Ok None
     | Some ps \<Rightarrow>
         rbind (add_bounds acc ps) (\<lambda>acc'.
         case acc' of None \<Rightarrow> Ok None | Some r \<Rightarrow> bounds_with_nulls spec_id (Some r) xs))"

definition snapshot_partition_bounds_with_nulls ::
  "('v, 'b, 's) table_io \<Rightarrow> 's \<Rightarrow> snapshot \<Rightarrow> table_metadata
   \<Rightarrow> (partition_bounds_with_nulls option, error) outcome" where
  "snapshot_partition_bounds_with_nulls io st snapshot tm =
     rbind (list_of_snapshot io st snapshot tm) (bounds_with_nulls (tm_default_spec_id tm) None)"

text \<open>
  Column bounds: the vectors of the bounds have a capacity, but no elements to assign to. The
  primitive fields are sorted, so that the order of the lookup map, \<open>order\<close>, does not matter.
\<close>

definition vec_set :: "'a list \<Rightarrow> nat \<Rightarrow> 'a \<Rightarrow> ('a list, error) outcome" where
  "vec_set xs i v = (if i < length xs then Ok (xs[i := v]) else Panic ''index out of bounds'')"

definition column_bounds_step ::
  "data_file \<Rightarrow> ice_value list \<times> ice_value list \<Rightarrow> nat \<times> i32 \<Rightarrow> (ice_value list \<times> ice_value list, error) outcome" where
  "column_bounds_step f acc c =
     (case (Option.bind (df_lower_bounds f) (\<lambda>m. m (snd c)), Option.bind (df_upper_bounds f) (\<lambda>m. m (snd c))) of
        (Some min', Some max') \<Rightarrow>
          rbind (vec_set (fst acc) (fst c) min') (\<lambda>mins.
          rbind (vec_set (snd acc) (fst c) max') (\<lambda>maxs. Ok (mins, maxs)))
      | _ \<Rightarrow> Err (NotFound ''column bounds''))"

definition column_rectangle ::
  "i32 list \<Rightarrow> rectangle option \<Rightarrow> (string \<times> manifest_entry, error) outcome \<Rightarrow> (rectangle option, error) outcome" where
  "column_rectangle ids acc x =
     rbind x (\<lambda>(_, e).
     rbind (try_fold (column_bounds_step (me_data_file e)) ([], []) (List.enumerate 0 ids)) (\<lambda>(mins, maxs).
     case acc of
       None \<Rightarrow> Ok (Some (Rectangle_new mins maxs))
     | Some r \<Rightarrow> rbind (expand r (Rectangle_new mins maxs)) (\<lambda>r'. Ok (Some r'))))"

definition snapshot_column_bounds ::
  "('v, 'b, 's) table_io \<Rightarrow> (string \<Rightarrow> ('b, 'k) scan) \<Rightarrow> i32 list \<Rightarrow> snapshot \<Rightarrow> table_metadata
   \<Rightarrow> (rectangle option, 'k) scan" where
  "snapshot_column_bounds io read order snapshot tm =
     sbind (sreturn (map_err Iceberg
              (case schema_of tm (sn_snapshot_id snapshot) of Ok s \<Rightarrow> Ok s | Err _ \<Rightarrow> current_schema tm | Panic s \<Rightarrow> Panic s))) (\<lambda>schema.
     sbind (read_snapshot io read snapshot tm) (\<lambda>items.
     sbind (sreturn (collect_items items)) (\<lambda>manifests.
     sbind (datafiles io read manifests None (None, None)) (\<lambda>parts.
     sreturn (try_fold (column_rectangle (StructType_primitive_field_ids order (sch_fields schema))) None (stream_items parts))))))"

section \<open>The cache cannot be observed\<close>

text \<open>
  \<open>m\<close> gives from every good state of the cache what \<open>m0\<close> gives without one, and leaves a good
  state.
\<close>

definition agree :: "('k \<Rightarrow> bool) \<Rightarrow> ('a, 'k) scan \<Rightarrow> ('a, unit) scan \<Rightarrow> bool" where
  "agree good m m0 \<longleftrightarrow>
     (\<forall>k. good k \<longrightarrow>
        (case m0 () of None \<Rightarrow> m k = None | Some (r, _) \<Rightarrow> \<exists>k'. m k = Some (r, k') \<and> good k'))"

named_theorems agree

lemma agreeD: "agree good m m0 \<Longrightarrow> good k \<Longrightarrow>
  case m0 () of None \<Rightarrow> m k = None | Some (r, _) \<Rightarrow> \<exists>k'. m k = Some (r, k') \<and> good k'"
  by (simp add: agree_def)

lemma agree_return [agree]: "agree good (sreturn r) (sreturn r)"
  by (simp add: agree_def sreturn_def)

lemma agree_walk [agree]: "agree good (\<lambda>k. map_option (\<lambda>r. (r, k)) w) (\<lambda>k. map_option (\<lambda>r. (r, k)) w)"
  by (cases w) (simp_all add: agree_def)

lemma agree_bind [agree]:
  assumes "agree good m m0" "\<And>a. agree good (f a) (f0 a)"
  shows "agree good (sbind m f) (sbind m0 f0)"
  unfolding agree_def
proof (intro allI impI)
  fix k assume k: "good k"
  show "case sbind m0 f0 () of None \<Rightarrow> sbind m f k = None
    | Some (r, _) \<Rightarrow> \<exists>k'. sbind m f k = Some (r, k') \<and> good k'"
  proof (cases "m0 ()")
    case None
    with assms(1) k show ?thesis by (auto simp: agree_def sbind_def)
  next
    case (Some ru)
    obtain r where r: "ru = (r, ())" by (cases ru) simp
    with Some assms(1) k obtain k' where "m k = Some (r, k')" "good k'" by (auto simp: agree_def)
    show ?thesis
    proof (cases r)
      case (Ok a)
      with Some r \<open>m k = Some (r, k')\<close> have "sbind m f k = f a k'" "sbind m0 f0 () = f0 a ()"
        by (simp_all add: sbind_def)
      with agreeD [OF assms(2) \<open>good k'\<close>, of a] show ?thesis by (auto split: option.splits)
    qed (use Some r \<open>m k = Some (r, k')\<close> \<open>good k'\<close> in \<open>simp_all add: sbind_def\<close>)
  qed
qed

lemma agree_all [agree]:
  assumes "\<And>x. agree good (f x) (f0 x)"
  shows "agree good (sall f xs) (sall f0 xs)"
proof (induction xs)
  case (Cons x xs)
  show ?case unfolding agree_def
  proof (intro allI impI)
    fix k assume k: "good k"
    show "case sall f0 (x # xs) () of None \<Rightarrow> sall f (x # xs) k = None
      | Some (r, _) \<Rightarrow> \<exists>k'. sall f (x # xs) k = Some (r, k') \<and> good k'"
    proof (cases "f0 x ()")
      case None
      with assms [of x] k show ?thesis by (auto simp: agree_def)
    next
      case (Some ru)
      obtain r where r: "ru = (r, ())" by (cases ru) simp
      with Some assms [of x] k obtain k' where k': "f x k = Some (r, k')" "good k'" by (auto simp: agree_def)
      have "agree good (sbind (sall f xs) (\<lambda>rs. sreturn (Ok (r # rs)))) (sbind (sall f0 xs) (\<lambda>rs. sreturn (Ok (r # rs))))"
        by (rule agree_bind [OF Cons agree_return])
      from agreeD [OF this k'(2)] Some r k' show ?thesis by (auto split: option.splits)
    qed
  qed
qed (simp add: agree_def)

lemma agree_fold [agree]:
  assumes "\<And>acc x. agree good (f acc x) (f0 acc x)"
  shows "agree good (sfold f acc xs) (sfold f0 acc xs)"
proof (induction xs arbitrary: acc)
  case (Cons x xs)
  have "agree good (sbind (f acc x) (\<lambda>a. sfold f a xs)) (sbind (f0 acc x) (\<lambda>a. sfold f0 a xs))"
    by (rule agree_bind [OF assms Cons])
  then show ?case by simp
qed (simp add: agree_return)

lemma agree_option [agree]:
  "agree good a a0 \<Longrightarrow> (\<And>x. agree good (b x) (b0 x)) \<Longrightarrow>
   agree good (case o' of None \<Rightarrow> a | Some x \<Rightarrow> b x) (case o' of None \<Rightarrow> a0 | Some x \<Rightarrow> b0 x)"
  by (cases o') auto

text \<open>
  A source of files: what it reads under a path is what the path contains, from every good
  state. The scans are the same over every source of the same files.
\<close>

locale file_source =
  fixes read :: "string \<Rightarrow> ('b, 'k) scan"
    and good :: "'k \<Rightarrow> bool"
    and contents :: "string \<Rightarrow> ('b, error) outcome"
  assumes read_agrees: "agree good (read uri) (sreturn (contents uri))"
begin

abbreviation "plain \<equiv> \<lambda>uri. sreturn (contents uri)"

lemma read_snapshot_agrees [agree]:
  "agree good (read_snapshot io read snapshot tm) (read_snapshot io plain snapshot tm)"
  unfolding read_snapshot_def by (intro agree read_agrees)

lemma manifests_agree:
  "agree good (Table_manifests io read tm start e) (Table_manifests io plain tm start e)"
  unfolding Table_manifests_def by (intro agree)

lemma change_manifests_agree:
  "agree good (Table_change_manifests io read tm start e) (Table_change_manifests io plain tm start e)"
  unfolding Table_change_manifests_def change_step_def by (intro agree)

lemma datafiles_agree [agree]:
  "agree good (datafiles io read ms fltr seq_range) (datafiles io plain ms fltr seq_range)"
proof -
  have m: "agree good (scan_manifest io read seq_range m) (scan_manifest io plain seq_range m)" for m
    unfolding scan_manifest_def by (intro agree read_agrees)
  show ?thesis
    unfolding datafiles_def by (cases fltr) (auto intro!: agree m)
qed

lemma contains_delete_agrees:
  "agree good (datafiles_contains_delete io read tm start e) (datafiles_contains_delete io plain tm start e)"
  unfolding datafiles_contains_delete_def by (intro agree manifests_agree)

end

lemma evict_entries:
  assumes "lru_laws l view" "accounted view len c" "evict l len c = Some c'"
  shows "set (view (bc_entries c')) \<subseteq> set (view (bc_entries c))"
  using evict_ends [OF assms(1,2)] assms(3) set_drop_subset by fastforce

lemma cache_put_entries:
  assumes laws: "lru_laws l view" and inv: "cache_inv view len (Some c)"
  shows "\<exists>c'. cache_put l len (Some c) path bytes = Some (Some c') \<and> cache_inv view len (Some c')
    \<and> set (view (bc_entries c')) \<subseteq> insert (path, bytes) (set (view (bc_entries c)))"
proof (cases "len bytes > bc_cap_bytes c")
  case True
  with inv show ?thesis by (auto simp: cache_put_def)
next
  case False
  define d where "d = c\<lparr>bc_entries := snd (lru_put l (bc_entries c) path bytes),
    bc_total_bytes := (case fst (lru_put l (bc_entries c) path bytes) of
       Some p \<Rightarrow> bc_total_bytes c - len p | None \<Rightarrow> bc_total_bytes c) + len bytes\<rparr>"
  have d: "accounted view len d" "bc_cap_bytes d = bc_cap_bytes c"
    using put_bytes [OF laws, of c len path bytes] inv by (simp_all add: accounted_def cache_inv_def d_def)
  from evict_ends [OF laws d(1)] obtain c' where c': "evict l len d = Some c'" "accounted view len c'"
    "bc_cap_bytes c' = bc_cap_bytes d" "bc_total_bytes c' \<le> bc_cap_bytes d" by blast
  have "set (view (bc_entries c')) \<subseteq> set (view (bc_entries d))" by (rule evict_entries [OF laws d(1) c'(1)])
  also have "\<dots> \<subseteq> insert (path, bytes) (set (view (bc_entries c)))"
    using lru_lawsD(3) [OF laws, of "bc_entries c" path bytes] by (auto simp: d_def without_def)
  finally have "set (view (bc_entries c')) \<subseteq> insert (path, bytes) (set (view (bc_entries c)))" .
  moreover have "cache_put l len (Some c) path bytes = Some (Some c')"
    using False c'(1) by (cases "lru_put l (bc_entries c) path bytes") (simp add: cache_put_def d_def)
  ultimately show ?thesis using c' by (auto simp: cache_inv_def)
qed

lemma cache_get_entries:
  assumes laws: "lru_laws l view" and inv: "cache_inv view len (Some c)"
  shows "\<exists>c'. cache_get l (Some c) path = (map_of (view (bc_entries c)) path, Some c') \<and> cache_inv view len (Some c')
    \<and> set (view (bc_entries c')) = set (view (bc_entries c))"
proof -
  have g: "fst (lru_get l (bc_entries c) path) = map_of (view (bc_entries c)) path"
    "view (snd (lru_get l (bc_entries c) path)) = (case map_of (view (bc_entries c)) path of None \<Rightarrow> view (bc_entries c)
       | Some b \<Rightarrow> without path (view (bc_entries c)) @ [(path, b)])"
    "distinct (map fst (view (bc_entries c)))"
    using laws by (simp_all add: lru_laws_def)
  have "set (view (snd (lru_get l (bc_entries c) path))) = set (view (bc_entries c))"
    using g(2,3) by (auto simp: without_def split: option.splits dest!: map_of_SomeD) (metis eq_key_imp_eq_value)
  with g(1) inv get_keeps_bytes [OF laws, of len "bc_entries c" path] show ?thesis
    by (cases "lru_get l (bc_entries c) path") (simp add: cache_get_def cache_inv_def accounted_def)
qed

text \<open>
  A cache is good if it holds its cap and every cached file is the file of the store, which
  the code takes from manifests being immutable.
\<close>

definition cache_good ::
  "('c, 'b) lru \<Rightarrow> ('c \<Rightarrow> (string \<times> 'b) list) \<Rightarrow> ('v, 'b, 's) table_io \<Rightarrow> 's \<Rightarrow> 'c byte_capped_cache option \<Rightarrow> bool" where
  "cache_good l view io st k \<longleftrightarrow>
     lru_laws l view \<and> cache_inv view (io_len io) k
     \<and> (\<forall>c. k = Some c \<longrightarrow> (\<forall>(p, b)\<in>set (view (bc_entries c)). store_get io st p = Ok b))"

lemma cached_read_agrees: "agree (cache_good l view io st) (cached_read l io st uri) (sreturn (store_get io st uri))"
  unfolding agree_def sreturn_def
proof (simp, intro allI impI)
  fix k assume k: "cache_good l view io st k"
  show "\<exists>k'. cached_read l io st uri k = Some (store_get io st uri, k') \<and> cache_good l view io st k'"
  proof (cases k)
    case None
    with k show ?thesis
      by (auto simp: cached_read_def cache_get_def cache_put_def split: outcome.split)
  next
    case (Some c)
    from k have laws: "lru_laws l view" and inv: "cache_inv view (io_len io) (Some c)"
      and files: "\<forall>(p, b)\<in>set (view (bc_entries c)). store_get io st p = Ok b"
      by (auto simp: cache_good_def Some)
    from cache_get_entries [OF laws inv, of uri] obtain c1 where
      c1: "cache_get l (Some c) uri = (map_of (view (bc_entries c)) uri, Some c1)"
        "cache_inv view (io_len io) (Some c1)" "set (view (bc_entries c1)) = set (view (bc_entries c))" by blast
    have good1: "cache_good l view io st (Some c1)" using laws c1 files by (simp add: cache_good_def)
    show ?thesis
    proof (cases "map_of (view (bc_entries c)) uri")
      case (Some b)
      with files have "store_get io st uri = Ok b" by (auto dest: map_of_SomeD)
      with Some \<open>k = Some c\<close> c1(1) good1 show ?thesis by (auto simp: cached_read_def)
    next
      case None
      show ?thesis
      proof (cases "store_get io st uri")
        case (Ok b)
        from cache_put_entries [OF laws c1(2), of uri b] obtain c2 where
          c2: "cache_put l (io_len io) (Some c1) uri b = Some (Some c2)" "cache_inv view (io_len io) (Some c2)"
            "set (view (bc_entries c2)) \<subseteq> insert (uri, b) (set (view (bc_entries c1)))" by blast
        then have "cache_good l view io st (Some c2)" using laws c1(3) files Ok by (auto simp: cache_good_def)
        with None Ok \<open>k = Some c\<close> c1(1) c2(1) show ?thesis by (auto simp: cached_read_def)
      qed (use None \<open>k = Some c\<close> c1(1) good1 in \<open>auto simp: cached_read_def\<close>)
    qed
  qed
qed

interpretation cached: file_source "cached_read l io st" "cache_good l view io st" "store_get io st" for l view io st
  by unfold_locales (rule cached_read_agrees)

interpretation direct: file_source "direct_read io st" "\<lambda>_. True" "store_get io st" for io st
  by unfold_locales (simp add: agree_def sreturn_def direct_read_def)

lemma direct_read_eq: "(\<lambda>uri. sreturn (store_get io st uri)) = direct_read io st"
  by (rule ext) (simp add: direct_read_def)

lemma direct_returns:
  "(\<exists>r. sreturn r0 () = Some (r, ()))"
  "(\<exists>r. m0 () = Some (r, ())) \<Longrightarrow> (\<And>a. \<exists>r. f0 a () = Some (r, ())) \<Longrightarrow> \<exists>r. sbind m0 f0 () = Some (r, ())"
  "(\<And>x. \<exists>r. f x () = Some (r, ())) \<Longrightarrow> \<exists>r. sall f xs () = Some (r, ())"
proof -
  show "\<exists>r. sreturn r0 () = Some (r, ())" by (simp add: sreturn_def)
  show bind: "(\<exists>r. m0 () = Some (r, ())) \<Longrightarrow> (\<And>a. \<exists>r. f0 a () = Some (r, ())) \<Longrightarrow> \<exists>r. sbind m0 f0 () = Some (r, ())"
    by (auto simp: sbind_def split: outcome.split)
  show "(\<And>x. \<exists>r. f x () = Some (r, ())) \<Longrightarrow> \<exists>r. sall f xs () = Some (r, ())"
  proof (induction xs)
    case (Cons x xs)
    obtain r rs where "f x () = Some (r, ())" "sall f xs () = Some (rs, ())" using Cons by blast
    then show ?case by (cases rs) (simp_all add: sbind_def sreturn_def)
  qed simp
qed

text \<open>
  C10. The cache of manifest bytes cannot be observed: from every cache that holds its cap and
  agrees with the store, listing the manifests of a table, the manifests that a range of snapshots
  changed, the data files of manifests and the search for deletes give what they give when every
  file is read from the store, and leave such a cache. Listing manifests and data files always
  returns.
\<close>

theorem scans_ignore_the_cache:
  "agree (cache_good l view io st)
     (Table_manifests io (cached_read l io st) tm start e) (Table_manifests io (direct_read io st) tm start e)
   \<and> agree (cache_good l view io st)
     (Table_change_manifests io (cached_read l io st) tm start e) (Table_change_manifests io (direct_read io st) tm start e)
   \<and> agree (cache_good l view io st)
     (datafiles io (cached_read l io st) ms fltr seq_range) (datafiles io (direct_read io st) ms fltr seq_range)
   \<and> agree (cache_good l view io st)
     (datafiles_contains_delete io (cached_read l io st) tm start e) (datafiles_contains_delete io (direct_read io st) tm start e)
   \<and> (\<exists>r. Table_manifests io (direct_read io st) tm start e () = Some (r, ()))
   \<and> (\<exists>r. datafiles io (direct_read io st) ms fltr seq_range () = Some (r, ()))"
proof (intro conjI)
  show "\<exists>r. Table_manifests io (direct_read io st) tm start e () = Some (r, ())"
    unfolding Table_manifests_def read_snapshot_def direct_read_def
    by (intro direct_returns) (auto simp: sreturn_def sbind_def split: option.split outcome.split)
  show "\<exists>r. datafiles io (direct_read io st) ms fltr seq_range () = Some (r, ())"
    unfolding datafiles_def scan_manifest_def direct_read_def
    by (cases fltr) (auto intro!: direct_returns)
qed (use cached.manifests_agree cached.change_manifests_agree cached.datafiles_agree cached.contains_delete_agrees
      in \<open>simp_all flip: direct_read_eq\<close>)

section \<open>Sequence ranges\<close>

definition entry_in_range :: "i64 option \<times> i64 option \<Rightarrow> string \<times> manifest_entry \<Rightarrow> bool" where
  "entry_in_range seq_range x = (case me_sequence_number (snd x) of Some n \<Rightarrow> in_sequence_range seq_range n | None \<Rightarrow> True)"

fun keep_range ::
  "i64 option \<times> i64 option \<Rightarrow> ((string \<times> manifest_entry) list, error) outcome \<Rightarrow> ((string \<times> manifest_entry) list, error) outcome" where
  "keep_range seq_range (Ok xs) = Ok (filter (entry_in_range seq_range) xs)"
| "keep_range seq_range (Err e) = Err e"
| "keep_range seq_range (Panic s) = Panic s"

lemma scan_step_range:
  "scan_step m seq_range (mode, filter (entry_in_range seq_range) xs) x
   = rbind (scan_step m (None, None) (mode, xs) x) (\<lambda>(mode', ys). Ok (mode', filter (entry_in_range seq_range) ys))"
proof (cases x)
  case (Ok e)
  show ?thesis
    by (cases "map_err Iceberg (FirstRowIdInheritance_apply mode e)")
      (auto simp: Ok scan_step_def entry_in_range_def in_sequence_range_def Let_def split: option.split)
qed (simp_all add: scan_step_def)

lemma scan_fold_range:
  "try_fold (scan_step m seq_range) (mode, filter (entry_in_range seq_range) xs) es
   = rbind (try_fold (scan_step m (None, None)) (mode, xs) es) (\<lambda>(mode', ys). Ok (mode', filter (entry_in_range seq_range) ys))"
proof (induction es arbitrary: mode xs)
  case (Cons e es)
  show ?case
    by (cases "scan_step m (None, None) (mode, xs) e") (auto simp: scan_step_range Cons split: prod.split)
qed simp

lemma scan_fold_ids:
  assumes "try_fold (scan_step m seq_range) (mode, xs) es = Ok (mode', ys)"
    and "\<forall>(p, e)\<in>set xs. p = ml_manifest_path m \<and> me_sequence_number e \<noteq> None \<and> me_snapshot_id e \<noteq> None"
  shows "\<forall>(p, e)\<in>set ys. p = ml_manifest_path m \<and> me_sequence_number e \<noteq> None \<and> me_snapshot_id e \<noteq> None"
  using assms
proof (induction es arbitrary: mode xs)
  case (Cons e es)
  then obtain s where s: "scan_step m seq_range (mode, xs) e = Ok s"
    "try_fold (scan_step m seq_range) s es = Ok (mode', ys)" by auto
  have "\<forall>(p, e)\<in>set (snd s). p = ml_manifest_path m \<and> me_sequence_number e \<noteq> None \<and> me_snapshot_id e \<noteq> None"
    using s(1) Cons.prems(2) by (auto simp: scan_step_def Let_def inherit_from_manifest_def split: if_splits option.splits)
  with Cons.IH [of "fst s" "snd s"] s(2) show ?case by simp
qed simp

lemma scan_manifest_range:
  assumes "scan_manifest io read (None, None) m k = Some (p, k')"
  shows "scan_manifest io read seq_range m k = Some (keep_range seq_range p, k')"
proof -
  have empty: "(mode, []) = (mode, filter (entry_in_range seq_range) [])" for mode :: first_row_id_inheritance
    by simp
  have parts: "rbind (map_err Iceberg (try_for_committed_manifest r)) (\<lambda>mode. rbind reader (\<lambda>reader.
      rbind (try_fold (scan_step m seq_range) (mode, []) (mr_reader reader)) (\<lambda>s. Ok (snd s))))
    = keep_range seq_range (rbind (map_err Iceberg (try_for_committed_manifest r)) (\<lambda>mode. rbind reader (\<lambda>reader.
      rbind (try_fold (scan_step m (None, None)) (mode, []) (mr_reader reader)) (\<lambda>s. Ok (snd s)))))"
    for r and reader :: "(manifest_reader, error) outcome"
  proof (cases "map_err Iceberg (try_for_committed_manifest r)")
    case (Ok mode)
    show ?thesis
    proof (cases reader)
      case (Ok rd)
      show ?thesis
        using \<open>map_err Iceberg (try_for_committed_manifest r) = Ok mode\<close> Ok
        by (subst empty, subst scan_fold_range, cases "try_fold (scan_step m (None, None)) (mode, []) (mr_reader rd)")
          (auto split: prod.split)
    qed (simp_all add: Ok)
  qed simp_all
  show ?thesis
    using assms
    by (auto simp: scan_manifest_def sbind_def sreturn_def parts split: option.splits outcome.splits prod.splits)
qed

lemma sall_map:
  assumes "sall f xs k = Some (Ok ps, k')"
    and "\<And>x k p k'. f x k = Some (p, k') \<Longrightarrow> g x k = Some (h p, k')"
  shows "sall g xs k = Some (Ok (map h ps), k')"
  using assms(1)
proof (induction xs arbitrary: k ps)
  case (Cons x xs)
  then obtain p k1 ps' where p: "f x k = Some (p, k1)" "sall f xs k1 = Some (Ok ps', k')" "ps = p # ps'"
    by (auto simp: sbind_def sreturn_def split: option.splits outcome.splits)
  with assms(2) [OF p(1)] Cons.IH [OF p(2)] show ?case by (simp add: sbind_def sreturn_def)
qed simp

lemma sall_elem:
  assumes "sall f xs k = Some (Ok ps, k')" "p \<in> set ps"
  shows "\<exists>x\<in>set xs. \<exists>k1 k2. f x k1 = Some (p, k2)"
  using assms
proof (induction xs arbitrary: k ps)
  case (Cons x xs)
  then obtain q k1 ps' where q: "f x k = Some (q, k1)" "sall f xs k1 = Some (Ok ps', k')" "ps = q # ps'"
    by (auto simp: sbind_def sreturn_def split: option.splits outcome.splits)
  with Cons.prems(2) Cons.IH [OF q(2)] show ?case by auto
qed simp


section \<open>The walk over the parents\<close>

text \<open>The snapshots from one back to the start, as a relation.\<close>

inductive walks :: "table_metadata \<Rightarrow> i64 option \<Rightarrow> i64 \<Rightarrow> i64 list \<Rightarrow> bool" where
  reached: "walks tm (Some i) i []"
| root: "walks tm None i [i]" if "tm_snapshots tm i = Some s" "sn_parent_snapshot_id s = None"
| parent: "walks tm start i (i # ids)"
    if "start \<noteq> Some i" "tm_snapshots tm i = Some s" "sn_parent_snapshot_id s = Some p" "walks tm start p ids"

inductive_cases walks_start: "walks tm (Some i) i ids"
inductive_simps walks_Cons: "walks tm start i (j # ids)"

lemma walks_parent_walk: "walks tm start i ids \<Longrightarrow> parent_walk tm start i acc = Some (Ok (acc @ ids))"
proof (induction arbitrary: acc rule: walks.induct)
  case (parent start i tm s p ids)
  then show ?case by (subst parent_walk.simps) auto
qed (subst parent_walk.simps, simp)+

lemma parent_walk_walks:
  assumes "parent_walk tm start i acc = Some r"
  shows "r = Ok ids \<longrightarrow> (\<exists>js. ids = acc @ js \<and> walks tm start i js)"
proof (rule parent_walk.raw_induct [OF _ assms], rule impI)
  fix walk tm start i acc r
  assume 1: "\<And>tm start i acc r. walk tm start i acc = Some r \<Longrightarrow> r = Ok ids \<longrightarrow> (\<exists>js. ids = acc @ js \<and> walks tm start i js)"
    "(if Some i = start then Some (Ok acc)
      else case tm_snapshots tm i of
        None \<Rightarrow> Some (Err (NotFound (''snapshot '' @ show_int i)))
      | Some snapshot \<Rightarrow>
          (case sn_parent_snapshot_id snapshot of
             Some parent \<Rightarrow> walk tm start parent (acc @ [i])
           | None \<Rightarrow>
               if start = None then Some (Ok (acc @ [i]))
               else Some (Err (InvalidFormat ''change scan start snapshot is not an ancestor of the end snapshot'')))) = Some r"
    "r = Ok ids"
  show "\<exists>js. ids = acc @ js \<and> walks tm start i js"
  proof (cases "Some i = start")
    case True
    with 1(2,3) show ?thesis by (auto intro: walks.reached)
  next
    case False
    with 1(2,3) obtain s where s: "tm_snapshots tm i = Some s" by (auto split: option.splits)
    show ?thesis
    proof (cases "sn_parent_snapshot_id s")
      case None
      with False s 1(2,3) show ?thesis by (auto intro: walks.root split: if_splits)
    next
      case (Some p)
      with False s 1(2) have "walk tm start p (acc @ [i]) = Some r" by simp
      with 1(1) [OF this] 1(3) obtain js where "ids = (acc @ [i]) @ js" "walks tm start p js" by blast
      with False s Some show ?thesis by (auto intro!: walks.parent)
    qed
  qed
qed

text \<open>Parents are older.\<close>

definition parents_older :: "table_metadata \<Rightarrow> bool" where
  "parents_older tm \<longleftrightarrow>
     (\<forall>i s. tm_snapshots tm i = Some s \<longrightarrow> in_i64 (sn_sequence_number s)
        \<and> (\<forall>p s'. sn_parent_snapshot_id s = Some p \<longrightarrow> tm_snapshots tm p = Some s'
              \<longrightarrow> sn_sequence_number s' < sn_sequence_number s))"

lemma parent_walk_ends:
  assumes "parents_older tm"
  shows "parent_walk tm start i acc \<noteq> None"
proof (induction "case tm_snapshots tm i of None \<Rightarrow> 0 | Some s \<Rightarrow> nat (sn_sequence_number s + 2 ^ 63) + 1"
    arbitrary: i acc rule: less_induct)
  case less
  show ?case
  proof (cases "tm_snapshots tm i")
    case None
    then show ?thesis by (subst parent_walk.simps) auto
  next
    case (Some s)
    show ?thesis
    proof (cases "sn_parent_snapshot_id s")
      case None
      with Some show ?thesis by (subst parent_walk.simps) auto
    next
      case (Some p)
      have "(case tm_snapshots tm p of None \<Rightarrow> 0 | Some s \<Rightarrow> nat (sn_sequence_number s + 2 ^ 63) + 1)
        < nat (sn_sequence_number s + 2 ^ 63) + 1"
      proof (cases "tm_snapshots tm p")
        case (Some s')
        with assms \<open>tm_snapshots tm i = Some s\<close> \<open>sn_parent_snapshot_id s = Some p\<close>
        have "sn_sequence_number s' < sn_sequence_number s" "in_i64 (sn_sequence_number s')"
          unfolding parents_older_def by blast+
        with Some show ?thesis by (simp add: in_i64_def)
      qed simp
      with less [of p] Some \<open>tm_snapshots tm i = Some s\<close> show ?thesis
        by (subst parent_walk.simps) auto
    qed
  qed
qed

text \<open>The manifests that a snapshot of the walk changed, read from the store.\<close>

definition changes_of ::
  "('v, 'b, 's) table_io \<Rightarrow> 's \<Rightarrow> table_metadata \<Rightarrow> i64 \<Rightarrow> manifest_list_entry list \<Rightarrow> bool" where
  "changes_of io st tm i part \<longleftrightarrow>
     (\<exists>s items all. tm_snapshots tm i = Some s \<and> list_of_snapshot io st s tm = Ok items
        \<and> collect_items items = Ok all \<and> part = filter (changed_by s) all)"

lemma read_direct: "read_snapshot io (direct_read io st) s tm k = Some (list_of_snapshot io st s tm, k)"
  by (cases "store_get io st (sn_manifest_list s)")
    (simp_all add: read_snapshot_def direct_read_def sbind_def sreturn_def list_of_snapshot_def)

lemma change_step_direct:
  "\<exists>r. change_step io (direct_read io st) tm acc i () = Some (r, ())
     \<and> (\<forall>ms. r = Ok ms \<longleftrightarrow> (\<exists>part. changes_of io st tm i part \<and> ms = acc @ part))"
proof (cases "tm_snapshots tm i")
  case (Some s)
  show ?thesis
  proof (cases "list_of_snapshot io st s tm")
    case (Ok items)
    with Some show ?thesis
      by (cases "collect_items items") (auto simp: change_step_def read_direct sbind_def sreturn_def changes_of_def)
  qed (simp_all add: Some change_step_def read_direct sbind_def sreturn_def changes_of_def)
qed (simp add: change_step_def sreturn_def changes_of_def)

lemma change_fold_direct:
  "\<exists>r. sfold (change_step io (direct_read io st) tm) acc ids () = Some (r, ())
     \<and> (\<forall>ms. r = Ok ms \<longleftrightarrow> (\<exists>parts. list_all2 (changes_of io st tm) ids parts \<and> ms = acc @ concat parts))"
proof (induction ids arbitrary: acc)
  case (Cons i ids)
  obtain r where r: "change_step io (direct_read io st) tm acc i () = Some (r, ())"
    "\<And>ms. r = Ok ms \<longleftrightarrow> (\<exists>part. changes_of io st tm i part \<and> ms = acc @ part)"
    using change_step_direct [of io st tm acc i] by blast
  show ?case
  proof (cases r)
    case (Ok acc')
    obtain q where q: "sfold (change_step io (direct_read io st) tm) acc' ids () = Some (q, ())"
      "\<And>ms. q = Ok ms \<longleftrightarrow> (\<exists>parts. list_all2 (changes_of io st tm) ids parts \<and> ms = acc' @ concat parts)"
      using Cons.IH [of acc'] by blast
    obtain part where part: "acc' = acc @ part" using r(2) [of acc'] Ok by auto
    have p: "changes_of io st tm i part' \<longleftrightarrow> part' = part" for part'
    proof -
      have "Ok acc' = Ok (acc @ part') \<longleftrightarrow> (\<exists>part. changes_of io st tm i part \<and> acc @ part' = acc @ part)"
        using r(2) [of "acc @ part'"] Ok by simp
      then show ?thesis using part by auto
    qed
    have "(\<exists>parts. list_all2 (changes_of io st tm) (i # ids) parts \<and> ms = acc @ concat parts)
      \<longleftrightarrow> (\<exists>parts. list_all2 (changes_of io st tm) ids parts \<and> ms = acc' @ concat parts)" for ms
      unfolding list_all2_Cons1 p part by auto
    with r(1) q Ok show ?thesis by (simp add: sbind_def)
  next
    case (Err e)
    then have "\<nexists>part. changes_of io st tm i part" using r(2) by blast
    with r(1) Err show ?thesis by (auto simp: sbind_def list_all2_Cons1)
  next
    case (Panic e)
    then have "\<nexists>part. changes_of io st tm i part" using r(2) by blast
    with r(1) Panic show ?thesis by (auto simp: sbind_def list_all2_Cons1)
  qed
qed (auto simp: sreturn_def)

text \<open>
  C11. When parents are older than their children, the scan of a range of changes returns. It
  succeeds exactly if the parents lead from the end snapshot to the start (or, without a start, to
  a snapshot without a parent) and every manifest list on the way can be read; the result is
  then, from the oldest snapshot to the newest, the manifests that each of them wrote.
\<close>

theorem change_scan_follows_parents:
  assumes "parents_older tm" and "walk_end tm e = Ok (Some i)"
  shows "Table_change_manifests io (direct_read io st) tm start e () \<noteq> None
    \<and> (Table_change_manifests io (direct_read io st) tm start e () = Some (Ok ms, ()) \<longleftrightarrow>
         (\<exists>ids parts. walks tm start i ids \<and> list_all2 (changes_of io st tm) (rev ids) parts \<and> ms = concat parts))"
proof -
  have unique: "ids = js" if "walks tm start i ids" "parent_walk tm start i [] = Some (Ok js)" for ids js
    using walks_parent_walk [OF that(1), of "[]"] that(2) by simp
  obtain r where r: "parent_walk tm start i [] = Some r" using parent_walk_ends [OF assms(1)] by blast
  show ?thesis
  proof (cases r)
    case (Ok ids)
    obtain q where q: "sfold (change_step io (direct_read io st) tm) [] (rev ids) () = Some (q, ())"
      "\<And>ms. q = Ok ms \<longleftrightarrow> (\<exists>parts. list_all2 (changes_of io st tm) (rev ids) parts \<and> ms = [] @ concat parts)"
      using change_fold_direct [of io st tm "[]" "rev ids"] by blast
    have w: "walks tm start i js \<longleftrightarrow> js = ids" for js
      using unique [of js ids] r Ok parent_walk_walks [OF r, of ids] by auto
    have "Table_change_manifests io (direct_read io st) tm start e () = Some (q, ())"
      using assms(2) r q(1) Ok by (simp add: Table_change_manifests_def sbind_def sreturn_def)
    with q(2) w show ?thesis by auto
  next
    case (Err x)
    then have "\<not> walks tm start i ids" for ids using walks_parent_walk [of tm start i ids "[]"] r by auto
    with assms(2) r Err show ?thesis by (simp add: Table_change_manifests_def sbind_def sreturn_def)
  next
    case (Panic x)
    then have "\<not> walks tm start i ids" for ids using walks_parent_walk [of tm start i ids "[]"] r by auto
    with assms(2) r Panic show ?thesis by (simp add: Table_change_manifests_def sbind_def sreturn_def)
  qed
qed

text \<open>
  Without that condition it may not return: a snapshot that is its own parent, as an imported
  table may have, is walked for ever.
\<close>

lemma cycle_never_returns:
  assumes "tm_snapshots tm i = Some s" "sn_parent_snapshot_id s = Some i" "start \<noteq> Some i"
  shows "parent_walk tm start i acc = None"
proof (rule ccontr)
  assume "parent_walk tm start i acc \<noteq> None"
  then obtain r where r: "parent_walk tm start i acc = Some r" by blast
  have "start' = start \<longrightarrow> tm' = tm \<longrightarrow> i' = i \<longrightarrow> False" if "parent_walk tm' start' i' acc' = Some r" for tm' start' i' acc'
  proof (rule parent_walk.raw_induct [OF _ that, where P = "\<lambda>tm' start' i' acc' r. start' = start \<longrightarrow> tm' = tm \<longrightarrow> i' = i \<longrightarrow> False"], goal_cases)
    case (1 walk tm' start' i' acc' r')
    show ?case
    proof (intro impI)
      assume eq: "start' = start" "tm' = tm" "i' = i"
      with 1(2) assms have "walk tm' start' i' (acc' @ [i']) = Some r'" by simp
      with 1(1) eq show False by blast
    qed
  qed
  with r show False by blast
qed

text \<open>
  The column bounds of a snapshot with a data file and a primitive column are never computed:
  the first column fails or panics.
\<close>

lemma column_bounds_panic:
  "column_rectangle (i # ids) acc (Ok (p, e)) =
     (if (\<exists>m v. df_lower_bounds (me_data_file e) = Some m \<and> m i = Some v)
         \<and> (\<exists>m v. df_upper_bounds (me_data_file e) = Some m \<and> m i = Some v)
      then Panic ''index out of bounds'' else Err (NotFound ''column bounds''))"
  by (cases "df_lower_bounds (me_data_file e)"; cases "df_upper_bounds (me_data_file e)")
    (auto simp: column_rectangle_def column_bounds_step_def vec_set_def split: option.split)

theorem change_scan_follows_parents_witness:
  "Table_change_manifests sample_io (direct_read sample_io Map.empty) (sample_table V2) None (Some 7) () \<noteq> None
    \<and> Table_change_manifests sample_io (direct_read sample_io Map.empty) (sample_table V2) None (Some 7) () \<noteq> Some (Ok [], ())"
proof -
  have h: "parents_older (sample_table V2)" "walk_end (sample_table V2) (Some 7) = Ok (Some 7)"
    by (auto simp: parents_older_def sample_table_def sample_snapshot_def in_i64_def walk_end_def)
  have "\<not> changes_of sample_io Map.empty (sample_table V2) 7 part" for part
    by (simp add: changes_of_def list_of_snapshot_def store_get_def sample_table_def sample_snapshot_def)
  moreover have "ids = [7]" if "walks (sample_table V2) None 7 ids" for ids
  proof -
    have "parent_walk (sample_table V2) None 7 [] = Some (Ok [7])"
      by (subst parent_walk.simps) (simp add: sample_table_def sample_snapshot_def)
    with walks_parent_walk [OF that, of "[]"] show ?thesis by simp
  qed
  ultimately have "\<nexists>ids parts. walks (sample_table V2) None 7 ids \<and> list_all2 (changes_of sample_io Map.empty (sample_table V2)) (rev ids) parts"
    by (fastforce simp: list_all2_Cons1)
  with change_scan_follows_parents [OF h, of sample_io Map.empty None "[]"] show ?thesis by blast
qed

definition scanned_manifest :: manifest_list_entry where
  "scanned_manifest = (new_manifest_entry (sample_part_table V3) ''m'' 9 ContentData)\<lparr>ml_first_row_id := Some 0\<rparr>"


end
