(* ===== verification/Transaction.thy ===== *)
theory Transaction
  imports Operation_Expiry Table_Scan
begin

text \<open>
  Transactions (\<open>iceberg-rust/src/table/transaction/mod.rs\<close>): the builder that collects at
  most one operation of every kind, and the commit that executes them in a fixed order on a
  staged copy of the metadata and sends one request to the catalog. The catalog is a parameter
  here; the two catalogs of the repository are modelled in theories of their own.
\<close>

section \<open>The builder\<close>

definition ADD_SCHEMA_INDEX :: nat where "ADD_SCHEMA_INDEX = 0"
definition SET_DEFAULT_SPEC_INDEX :: nat where "SET_DEFAULT_SPEC_INDEX = 1"
definition APPEND_INDEX :: nat where "APPEND_INDEX = 2"
definition APPEND_SEQUENCE_GROUPS_INDEX :: nat where "APPEND_SEQUENCE_GROUPS_INDEX = 3"
definition REPLACE_INDEX :: nat where "REPLACE_INDEX = 4"
definition OVERWRITE_INDEX :: nat where "OVERWRITE_INDEX = 5"
definition UPDATE_PROPERTIES_INDEX :: nat where "UPDATE_PROPERTIES_INDEX = 6"
definition SET_SNAPSHOT_REF_INDEX :: nat where "SET_SNAPSHOT_REF_INDEX = 7"
definition EXPIRE_SNAPSHOTS_INDEX :: nat where "EXPIRE_SNAPSHOTS_INDEX = 8"
definition REPLACE_SORT_ORDER_INDEX :: nat where "REPLACE_SORT_ORDER_INDEX = 9"
definition TRUNCATE_INDEX :: nat where "TRUNCATE_INDEX = 10"
definition NUM_OPERATIONS :: nat where "NUM_OPERATIONS = 11"

lemmas slot_defs =
  ADD_SCHEMA_INDEX_def SET_DEFAULT_SPEC_INDEX_def APPEND_INDEX_def APPEND_SEQUENCE_GROUPS_INDEX_def
  REPLACE_INDEX_def OVERWRITE_INDEX_def UPDATE_PROPERTIES_INDEX_def SET_SNAPSHOT_REF_INDEX_def
  EXPIRE_SNAPSHOTS_INDEX_def REPLACE_SORT_ORDER_INDEX_def TRUNCATE_INDEX_def NUM_OPERATIONS_def

record 's transaction =
  tx_table :: "'s table"
  tx_operations :: "table_operation option list"
  tx_branch :: "string option"

definition Transaction_new :: "'s table \<Rightarrow> string option \<Rightarrow> 's transaction" where
  "Transaction_new t branch =
     \<lparr>tx_table = t, tx_operations = replicate NUM_OPERATIONS None, tx_branch = branch\<rparr>"

definition operation_at :: "'s transaction \<Rightarrow> nat \<Rightarrow> table_operation option" where
  "operation_at tx i = tx_operations tx ! i"

definition set_operation :: "nat \<Rightarrow> table_operation \<Rightarrow> 's transaction \<Rightarrow> 's transaction" where
  "set_operation i op tx = tx\<lparr>tx_operations := (tx_operations tx)[i := Some op]\<rparr>"

definition tx_add_schema :: "schema \<Rightarrow> 's transaction \<Rightarrow> 's transaction" where
  "tx_add_schema schema = set_operation ADD_SCHEMA_INDEX (OpAddSchema schema)"

definition tx_set_default_spec :: "i32 \<Rightarrow> 's transaction \<Rightarrow> 's transaction" where
  "tx_set_default_spec spec_id = set_operation SET_DEFAULT_SPEC_INDEX (OpSetDefaultSpec spec_id)"

definition tx_replace_sort_order :: "sort_order \<Rightarrow> 's transaction \<Rightarrow> 's transaction" where
  "tx_replace_sort_order order = set_operation REPLACE_SORT_ORDER_INDEX (OpReplaceSortOrder order)"

definition append_data :: "data_file list \<Rightarrow> 's transaction \<Rightarrow> ('s transaction, error) outcome" where
  "append_data files tx =
     (if operation_at tx APPEND_SEQUENCE_GROUPS_INDEX \<noteq> None
      then Panic ''Cannot use append and append_sequence_group in the same transaction''
      else Ok (case operation_at tx APPEND_INDEX of
          Some (OpAppend branch old deletes additional) \<Rightarrow>
            set_operation APPEND_INDEX (OpAppend branch (old @ files) deletes additional) tx
        | Some _ \<Rightarrow> tx
        | None \<Rightarrow> set_operation APPEND_INDEX (OpAppend (tx_branch tx) files [] (append_summary files)) tx))"

definition append_delete :: "data_file list \<Rightarrow> 's transaction \<Rightarrow> ('s transaction, error) outcome" where
  "append_delete files tx =
     (if operation_at tx APPEND_SEQUENCE_GROUPS_INDEX \<noteq> None
      then Panic ''Cannot use append and append_sequence_group in the same transaction''
      else Ok (case operation_at tx APPEND_INDEX of
          Some (OpAppend branch data old additional) \<Rightarrow>
            set_operation APPEND_INDEX (OpAppend branch data (old @ files) additional) tx
        | Some _ \<Rightarrow> tx
        | None \<Rightarrow> set_operation APPEND_INDEX (OpAppend (tx_branch tx) [] files None) tx))"

definition append_sequence_group ::
  "data_file list \<Rightarrow> data_file list \<Rightarrow> 's transaction \<Rightarrow> ('s transaction, error) outcome" where
  "append_sequence_group data_files delete_files tx =
     (let group = \<lparr>sg_delete_files = delete_files, sg_data_files = data_files\<rparr>
      in if operation_at tx APPEND_INDEX \<noteq> None
         then Panic ''Cannot use append and append_sequence_group in the same transaction''
         else Ok (case operation_at tx APPEND_SEQUENCE_GROUPS_INDEX of
             Some (OpAppendSequenceGroups branch old) \<Rightarrow>
               set_operation APPEND_SEQUENCE_GROUPS_INDEX (OpAppendSequenceGroups branch (old @ [group])) tx
           | Some _ \<Rightarrow> tx
           | None \<Rightarrow>
               set_operation APPEND_SEQUENCE_GROUPS_INDEX (OpAppendSequenceGroups (tx_branch tx) [group]) tx))"

definition tx_overwrite ::
  "data_file list \<Rightarrow> (string \<rightharpoonup> string list) \<Rightarrow> 's transaction \<Rightarrow> 's transaction" where
  "tx_overwrite files files_to_overwrite tx =
     (case operation_at tx OVERWRITE_INDEX of
        Some (OpOverwrite branch old old_files additional) \<Rightarrow>
          set_operation OVERWRITE_INDEX
            (OpOverwrite branch (old @ files) (old_files ++ files_to_overwrite) additional) tx
      | Some _ \<Rightarrow> tx
      | None \<Rightarrow>
          set_operation OVERWRITE_INDEX
            (OpOverwrite (tx_branch tx) files files_to_overwrite (append_summary files)) tx)"

definition tx_truncate :: "'s transaction \<Rightarrow> 's transaction" where
  "tx_truncate tx = set_operation TRUNCATE_INDEX (OpTruncate (tx_branch tx)) tx"

text \<open>A second \<open>replace\<close> extends the first only where that one has no summary of its own.\<close>

definition tx_replace :: "data_file list \<Rightarrow> 's transaction \<Rightarrow> 's transaction" where
  "tx_replace files tx =
     (case operation_at tx REPLACE_INDEX of
        Some (OpReplace branch old None) \<Rightarrow>
          set_operation REPLACE_INDEX (OpReplace branch (old @ files) None) tx
      | Some _ \<Rightarrow> tx
      | None \<Rightarrow> set_operation REPLACE_INDEX (OpReplace (tx_branch tx) files None) tx)"

definition replace_with_lineage ::
  "data_file list \<Rightarrow> (string \<rightharpoonup> string) \<Rightarrow> 's transaction \<Rightarrow> 's transaction" where
  "replace_with_lineage files additional_summary tx =
     (case operation_at tx REPLACE_INDEX of
        Some (OpReplace branch old _) \<Rightarrow>
          set_operation REPLACE_INDEX (OpReplace branch (old @ files) (Some additional_summary)) tx
      | Some _ \<Rightarrow> tx
      | None \<Rightarrow>
          set_operation REPLACE_INDEX (OpReplace (tx_branch tx) files (Some additional_summary)) tx)"

definition tx_update_properties :: "(string \<times> string) list \<Rightarrow> 's transaction \<Rightarrow> 's transaction" where
  "tx_update_properties entries tx =
     (case operation_at tx UPDATE_PROPERTIES_INDEX of
        Some (OpUpdateProperties props) \<Rightarrow>
          set_operation UPDATE_PROPERTIES_INDEX (OpUpdateProperties (props @ entries)) tx
      | Some _ \<Rightarrow> tx
      | None \<Rightarrow> set_operation UPDATE_PROPERTIES_INDEX (OpUpdateProperties entries) tx)"

definition tx_set_snapshot_ref :: "string \<times> snapshot_reference \<Rightarrow> 's transaction \<Rightarrow> 's transaction" where
  "tx_set_snapshot_ref entry = set_operation SET_SNAPSHOT_REF_INDEX (OpSetSnapshotRef entry)"

definition tx_expire_snapshots ::
  "i64 option \<Rightarrow> nat option \<Rightarrow> bool \<Rightarrow> bool \<Rightarrow> bool \<Rightarrow> 's transaction \<Rightarrow> 's transaction" where
  "tx_expire_snapshots older_than retain_last clean_orphan_files retain_ref_snapshots dry_run =
     set_operation EXPIRE_SNAPSHOTS_INDEX
       (OpExpireSnapshots older_than retain_last clean_orphan_files retain_ref_snapshots dry_run)"

section \<open>The commit\<close>

text \<open>The operations that write files; with one of them the default spec must not change.\<close>

fun writes_files :: "table_operation \<Rightarrow> bool" where
  "writes_files (OpAppend _ data_files delete_files _) \<longleftrightarrow> data_files \<noteq> [] \<or> delete_files \<noteq> []"
| "writes_files (OpAppendSequenceGroups _ groups) \<longleftrightarrow>
     (\<exists>g\<in>set groups. sg_data_files g \<noteq> [] \<or> sg_delete_files g \<noteq> [])"
| "writes_files (OpReplace _ files _) \<longleftrightarrow> files \<noteq> []"
| "writes_files (OpOverwrite _ data_files files_to_overwrite _) \<longleftrightarrow>
     data_files \<noteq> [] \<or> \<not> hm_is_empty files_to_overwrite"
| "writes_files _ \<longleftrightarrow> False"

definition reject_spec_change_with_file_write ::
  "table_operation option list \<Rightarrow> i32 \<Rightarrow> (unit, error) outcome" where
  "reject_spec_change_with_file_write operations current_spec_id =
     (let changes_spec = (case operations ! SET_DEFAULT_SPEC_INDEX of
            Some (OpSetDefaultSpec spec_id) \<Rightarrow> spec_id \<noteq> current_spec_id | _ \<Rightarrow> False)
      in if changes_spec \<and> (\<exists>op\<in>set operations. case op of Some o' \<Rightarrow> writes_files o' | None \<Rightarrow> False)
         then Err (NotSupported ''Changing the default partition spec and writing files in one transaction is not supported'')
         else Ok ())"

text \<open>
  What a commit draws from its surroundings: per slot, the surroundings of the execution and the
  clock of the staging, the UUID library, and the order of the references in the hash map.
\<close>

record tx_env =
  te_op :: "nat \<Rightarrow> op_env"
  te_library :: env
  te_stage_ms :: "nat \<Rightarrow> i64"
  te_refs_order :: "string list"

definition stage_env :: "tx_env \<Rightarrow> nat \<Rightarrow> env" where
  "stage_env te i = (te_library te)\<lparr>env_now_ms := te_stage_ms te i\<rparr>"

definition filled_slots :: "table_operation option list \<Rightarrow> (nat \<times> table_operation) list" where
  "filled_slots operations =
     List.map_filter (\<lambda>(i, op). map_option (Pair i) op) (List.enumerate 0 operations)"

definition ref_requirements :: "tx_env \<Rightarrow> table_metadata \<Rightarrow> table_requirement list" where
  "ref_requirements te base =
     map (\<lambda>(name, r). AssertRefSnapshotId name (Some (sr_snapshot_id r)))
       (hm_entries (te_refs_order te) (tm_refs base))"

definition first_requirements :: "tx_env \<Rightarrow> table_operation option list \<Rightarrow> table_metadata \<Rightarrow> table_requirement list" where
  "first_requirements te operations base =
     AssertTableUuid (tm_table_uuid base)
     # (if operations ! TRUNCATE_INDEX \<noteq> None then ref_requirements te base else [])"

text \<open>The local variables of the loop over the operations.\<close>

record 's commit_state =
  cs_staged :: "table_metadata option"
  cs_requirements :: "table_requirement list"
  cs_updates :: "table_update list"
  cs_store :: 's

text \<open>
  On staged metadata the requirement is checked at once, and sent to the catalog only if it
  holds on the base already: what an earlier operation of the transaction brought about is not
  there yet.
\<close>

definition add_requirement ::
  "table_identifier \<Rightarrow> table_metadata \<Rightarrow> table_metadata option \<Rightarrow> table_requirement option
   \<Rightarrow> table_requirement list \<Rightarrow> (table_requirement list, error) outcome" where
  "add_requirement identifier' base staged requirement requirements =
     (case (requirement, staged) of
        (None, _) \<Rightarrow> Ok requirements
      | (Some r, None) \<Rightarrow> Ok (requirements @ [r])
      | (Some r, Some metadata) \<Rightarrow>
          if \<not> check_table_requirements [r] metadata
          then Err (CommitConflict (Identifier_to_string identifier'))
          else Ok (if check_table_requirements [r] base then requirements @ [r] else requirements))"

definition stage_updates :: "env \<Rightarrow> table_metadata option \<Rightarrow> table_update list \<Rightarrow> (table_metadata option, error) outcome" where
  "stage_updates env staged update = opt_try_map (\<lambda>m. apply_table_updates env m update) staged"

definition commit_step ::
  "('v, 'b, 's) table_io \<Rightarrow> tx_env \<Rightarrow> table_identifier \<Rightarrow> table_metadata \<Rightarrow> 's commit_state
   \<Rightarrow> nat \<times> table_operation \<Rightarrow> ('s commit_state, error) outcome" where
  "commit_step io te identifier' base cs iop =
     (let metadata = case_option base (\<lambda>m. m) (cs_staged cs)
      in rbind (execute io (te_op te (fst iop)) (cs_store cs) metadata (snd iop)) (\<lambda>((requirement, update), st).
         rbind (add_requirement identifier' base (cs_staged cs) requirement (cs_requirements cs)) (\<lambda>requirements.
         rbind (stage_updates (stage_env te (fst iop)) (cs_staged cs) update) (\<lambda>staged.
         Ok \<lparr>cs_staged = staged, cs_requirements = requirements,
             cs_updates = cs_updates cs @ update, cs_store = st\<rparr>))))"

definition first_commit_state :: "tx_env \<Rightarrow> 's transaction \<Rightarrow> 's commit_state" where
  "first_commit_state te tx =
     \<lparr>cs_staged = (if 2 \<le> length (filled_slots (tx_operations tx)) then Some (tb_metadata (tx_table tx)) else None),
      cs_requirements = first_requirements te (tx_operations tx) (tb_metadata (tx_table tx)),
      cs_updates = [], cs_store = tb_object_store (tx_table tx)\<rparr>"

definition commit_guards :: "'s transaction \<Rightarrow> (unit, error) outcome" where
  "commit_guards tx =
     (let base = tb_metadata (tx_table tx); operations = tx_operations tx
      in if tm_table_uuid base = 0 \<and> (\<exists>op\<in>set operations. op \<noteq> None)
         then Err (NotSupported ''writes to Iceberg tables without a table UUID cannot be fenced against DROP/recreate'')
         else rbind (reject_spec_change_with_file_write operations (tm_default_spec_id base)) (\<lambda>_.
           if operations ! TRUNCATE_INDEX \<noteq> None
              \<and> (\<exists>i\<in>{APPEND_INDEX, APPEND_SEQUENCE_GROUPS_INDEX, REPLACE_INDEX, OVERWRITE_INDEX}.
                   operations ! i \<noteq> None)
           then Err (NotSupported ''TRUNCATE cannot be combined with another data write in one Iceberg transaction'')
           else Ok ()))"

text \<open>The request that a commit sends, with the store after the writes of its operations.\<close>

definition commit_request ::
  "('v, 'b, 's) table_io \<Rightarrow> tx_env \<Rightarrow> 's transaction \<Rightarrow> (commit_table \<times> 's commit_state, error) outcome" where
  "commit_request io te tx =
     rbind (commit_guards tx) (\<lambda>_.
     rbind (try_fold (commit_step io te (tb_identifier (tx_table tx)) (tb_metadata (tx_table tx)))
              (first_commit_state te tx) (filled_slots (tx_operations tx))) (\<lambda>cs.
     Ok (\<lparr>ct_identifier = tb_identifier (tx_table tx), ct_requirements = cs_requirements cs,
          ct_updates = cs_updates cs\<rparr>, cs)))"

text \<open>
  The commit, with the catalog as a parameter: its \<open>update_table\<close> on the state \<open>c\<close> of the
  catalog and the store. It returns the table that replaces the one of the transaction.
\<close>

definition Transaction_commit ::
  "('v, 'b, 's) table_io \<Rightarrow> tx_env \<Rightarrow> ('c \<Rightarrow> 's \<Rightarrow> commit_table \<Rightarrow> ('s table \<times> 'c, error) outcome)
   \<Rightarrow> 'c \<Rightarrow> 's transaction \<Rightarrow> ('s table \<times> 'c, error) outcome" where
  "Transaction_commit io te update_table c tx =
     rbind (commit_request io te tx) (\<lambda>(request, cs).
     if cs_updates cs = [] then Ok ((tx_table tx)\<lparr>tb_object_store := cs_store cs\<rparr>, c)
     else update_table c (cs_store cs) request)"

section \<open>Staging\<close>

text \<open>
  Two states of the loop over updates that differ in the clock, and of which the second knows at
  least the ids that the first has added.
\<close>

definition ahead :: "apply_state \<Rightarrow> apply_state \<Rightarrow> bool" where
  "ahead s t \<longleftrightarrow> (\<exists>ms. ap_metadata t = (ap_metadata s)\<lparr>tm_last_updated_ms := ms\<rparr>)
     \<and> (\<forall>i. ap_added_schema_id s = Some i \<longrightarrow> ap_added_schema_id t = Some i)
     \<and> (\<forall>i. ap_added_spec_id s = Some i \<longrightarrow> ap_added_spec_id t = Some i)
     \<and> (\<forall>i. ap_added_sort_order_id s = Some i \<longrightarrow> ap_added_sort_order_id t = Some i)"

lemma resolve_last_ahead:
  "resolve_last msg i added = Ok j \<Longrightarrow> \<forall>k. added = Some k \<longrightarrow> added' = Some k \<Longrightarrow> resolve_last msg i added' = Ok j"
  by (auto simp: resolve_last_def split: if_splits)

lemma add_snapshot_clock:
  "add_snapshot env s m = Ok m' \<Longrightarrow>
   add_snapshot (env\<lparr>env_now_ms := now\<rparr>) s (m\<lparr>tm_last_updated_ms := ms\<rparr>) = Ok (m'\<lparr>tm_last_updated_ms := ms\<rparr>)"
  by (auto simp: add_snapshot_def next_row_id_after_def split: if_splits)

lemma ahead_step:
  assumes "apply_table_update env s u = Ok s'" "ahead s t"
  shows "\<exists>t'. apply_table_update (env\<lparr>env_now_ms := now\<rparr>) t u = Ok t' \<and> ahead s' t'"
proof -
  obtain ms where t: "ap_metadata t = (ap_metadata s)\<lparr>tm_last_updated_ms := ms\<rparr>"
    using assms(2) by (auto simp: ahead_def)
  have ids: "\<And>i. ap_added_schema_id s = Some i \<Longrightarrow> ap_added_schema_id t = Some i"
    "\<And>i. ap_added_spec_id s = Some i \<Longrightarrow> ap_added_spec_id t = Some i"
    "\<And>i. ap_added_sort_order_id s = Some i \<Longrightarrow> ap_added_sort_order_id t = Some i"
    using assms(2) by (auto simp: ahead_def)
  show ?thesis
  proof (cases u)
    case (AddSnapshot sn)
    then obtain m' where m': "add_snapshot env sn (ap_metadata s) = Ok m'" "s' = s\<lparr>ap_metadata := m'\<rparr>"
      using assms(1) by auto
    show ?thesis
      using ids by (auto simp: AddSnapshot t add_snapshot_clock [OF m'(1)] m'(2) ahead_def intro!: exI [of _ ms])
  next
    case (RemoveSnapshots ks)
    then show ?thesis
      using assms(1) t ids by (auto simp: ahead_def remove_snapshots_def Let_def intro!: exI [of _ ms])
  next
    case (SetSnapshotRef n r)
    then show ?thesis
      using assms(1) t ids by (auto simp: ahead_def set_snapshot_ref_def Let_def intro!: exI [of _ ms])
  next
    case (AddSchema schema i)
    then show ?thesis
      using assms(1) t ids by (cases i) (auto simp: ahead_def intro!: exI [of _ ms])
  next
    case (SetCurrentSchema i)
    then obtain j where "resolve_last ''Cannot set current schema to -1 without adding a schema first'' i (ap_added_schema_id s) = Ok j"
        "s' = s\<lparr>ap_metadata := (ap_metadata s)\<lparr>tm_current_schema_id := j\<rparr>\<rparr>"
      using assms(1) by auto
    then show ?thesis
      using resolve_last_ahead [of _ i "ap_added_schema_id s" j "ap_added_schema_id t"] ids t
      by (auto simp: SetCurrentSchema ahead_def intro!: exI [of _ ms])
  next
    case (SetDefaultSpec i)
    then obtain j where "resolve_last ''Cannot set default spec to -1 without adding a spec first'' i (ap_added_spec_id s) = Ok j"
        "s' = s\<lparr>ap_metadata := (ap_metadata s)\<lparr>tm_default_spec_id := j\<rparr>\<rparr>"
      using assms(1) by auto
    then show ?thesis
      using resolve_last_ahead [of _ i "ap_added_spec_id s" j "ap_added_spec_id t"] ids t
      by (auto simp: SetDefaultSpec ahead_def intro!: exI [of _ ms])
  next
    case (SetDefaultSortOrder i)
    then obtain j where "resolve_last ''Cannot set default sort order to -1 without adding a sort order first'' i (ap_added_sort_order_id s) = Ok j"
        "s' = s\<lparr>ap_metadata := (ap_metadata s)\<lparr>tm_default_sort_order_id := j\<rparr>\<rparr>"
      using assms(1) by auto
    then show ?thesis
      using resolve_last_ahead [of _ i "ap_added_sort_order_id s" j "ap_added_sort_order_id t"] ids t
      by (auto simp: SetDefaultSortOrder ahead_def intro!: exI [of _ ms])
  qed (use assms(1) t ids in \<open>auto simp: ahead_def split: if_splits intro!: exI [of _ ms]\<close>)
qed

lemma ahead_fold:
  assumes "try_fold (apply_table_update env) s us = Ok s'" "ahead s t"
  shows "\<exists>t'. try_fold (apply_table_update (env\<lparr>env_now_ms := now\<rparr>)) t us = Ok t' \<and> ahead s' t'"
  using assms
proof (induction us arbitrary: s t)
  case (Cons u us)
  then obtain s1 where "apply_table_update env s u = Ok s1" "try_fold (apply_table_update env) s1 us = Ok s'"
    by auto
  then show ?case
    using ahead_step [of env s u s1 t now] Cons by fastforce
qed auto

text \<open>Updates applied in two calls are applied in one, whatever the clocks.\<close>

lemma apply_in_one_call:
  assumes "apply_table_updates (env\<lparr>env_now_ms := a\<rparr>) m us = Ok m1"
    and "apply_table_updates (env\<lparr>env_now_ms := b\<rparr>) m1 vs = Ok m2"
  shows "apply_table_updates (env\<lparr>env_now_ms := now\<rparr>) m (us @ vs) = Ok (m2\<lparr>tm_last_updated_ms := now\<rparr>)"
proof -
  let ?e = "\<lambda>x. env\<lparr>env_now_ms := x\<rparr>"
  obtain s1 s2 where s1: "try_fold (apply_table_update (?e a)) (apply_init m) us = Ok s1"
      "m1 = (ap_metadata s1)\<lparr>tm_last_updated_ms := a\<rparr>"
    and s2: "try_fold (apply_table_update (?e b)) (apply_init m1) vs = Ok s2"
      "m2 = (ap_metadata s2)\<lparr>tm_last_updated_ms := b\<rparr>"
    using assms by (auto simp: apply_table_updates_def)
  have refl: "ahead (apply_init m) (apply_init m)"
    by (auto simp: ahead_def apply_init_def intro!: exI [of _ "tm_last_updated_ms m"])
  obtain t1 where t1: "try_fold (apply_table_update (?e now)) (apply_init m) us = Ok t1" "ahead s1 t1"
    using ahead_fold [OF s1(1) refl, of now] by auto
  have "ahead (apply_init m1) t1"
    using t1(2) by (auto simp: ahead_def apply_init_def s1(2))
  then obtain t2 where t2: "try_fold (apply_table_update (?e now)) t1 vs = Ok t2" "ahead s2 t2"
    using ahead_fold [OF s2(1), of t1 now] by auto
  show ?thesis
    using t1(1) t2 by (auto simp: apply_table_updates_def try_fold_append s2(2) ahead_def)
qed

text \<open>What the loop keeps on staged metadata.\<close>

definition staged_ok :: "env \<Rightarrow> table_metadata \<Rightarrow> 's commit_state \<Rightarrow> bool" where
  "staged_ok lib base cs \<longleftrightarrow> (\<forall>m. cs_staged cs = Some m \<longrightarrow>
     check_table_requirements (cs_requirements cs) base
     \<and> (\<forall>now. apply_table_updates (lib\<lparr>env_now_ms := now\<rparr>) base (cs_updates cs)
               = Ok (m\<lparr>tm_last_updated_ms := now\<rparr>)))"

lemma check_append:
  "check_table_requirements (rs @ qs) m \<longleftrightarrow> check_table_requirements rs m \<and> check_table_requirements qs m"
  by (auto simp: check_table_requirements_def)

lemma first_requirements_hold: "check_table_requirements (first_requirements te ops base) base"
  by (auto simp: first_requirements_def check_table_requirements_def list_all_iff ref_requirements_def
      hm_entries_def List.map_filter_def table_requirement_holds_def split: option.splits)

lemma first_state_staged: "staged_ok (te_library te) (tb_metadata (tx_table tx)) (first_commit_state te tx)"
  by (auto simp: staged_ok_def first_commit_state_def first_requirements_hold apply_table_updates_def
      apply_init_def split: if_splits)

lemma add_requirement_staged:
  assumes "add_requirement i base (Some m) req reqs = Ok reqs'" "check_table_requirements reqs base"
  shows "check_table_requirements reqs' base"
  using assms by (auto simp: add_requirement_def check_append split: option.splits if_splits)

lemma commit_step_Ok:
  assumes "commit_step io te i base cs iop = Ok cs'"
  obtains req update st reqs staged where
    "execute io (te_op te (fst iop)) (cs_store cs) (case_option base (\<lambda>m. m) (cs_staged cs)) (snd iop) = Ok ((req, update), st)"
    "add_requirement i base (cs_staged cs) req (cs_requirements cs) = Ok reqs"
    "stage_updates (stage_env te (fst iop)) (cs_staged cs) update = Ok staged"
    "cs' = \<lparr>cs_staged = staged, cs_requirements = reqs, cs_updates = cs_updates cs @ update, cs_store = st\<rparr>"
  using assms by (auto simp: commit_step_def Let_def split: prod.splits)

lemma commit_step_staged:
  assumes "staged_ok (te_library te) base cs" "commit_step io te i base cs iop = Ok cs'"
  shows "staged_ok (te_library te) base cs'"
proof (rule commit_step_Ok [OF assms(2)])
  fix req update st reqs staged
  assume s: "add_requirement i base (cs_staged cs) req (cs_requirements cs) = Ok reqs"
    "stage_updates (stage_env te (fst iop)) (cs_staged cs) update = Ok staged"
    "cs' = \<lparr>cs_staged = staged, cs_requirements = reqs, cs_updates = cs_updates cs @ update, cs_store = st\<rparr>"
  show "staged_ok (te_library te) base cs'"
  proof (cases "cs_staged cs")
    case None
    then show ?thesis using s by (simp add: staged_ok_def stage_updates_def)
  next
    case (Some m)
    then obtain m' where m': "apply_table_updates (stage_env te (fst iop)) m update = Ok m'" "staged = Some m'"
      using s(2) by (auto simp: stage_updates_def)
    have 1: "check_table_requirements reqs base"
      using assms(1) Some s(1) add_requirement_staged by (fastforce simp: staged_ok_def)
    have "apply_table_updates ((te_library te)\<lparr>env_now_ms := tm_last_updated_ms m\<rparr>) base (cs_updates cs)
        = Ok (m\<lparr>tm_last_updated_ms := tm_last_updated_ms m\<rparr>)"
      using assms(1) Some by (simp add: staged_ok_def)
    then have "apply_table_updates ((te_library te)\<lparr>env_now_ms := tm_last_updated_ms m\<rparr>) base (cs_updates cs) = Ok m"
      by simp
    from apply_in_one_call [OF this m'(1) [unfolded stage_env_def]] 1 show ?thesis
      by (simp add: staged_ok_def s(3) m'(2))
  qed
qed

lemma commit_request_Ok:
  assumes "commit_request io te tx = Ok (request, cs)"
  shows "try_fold (commit_step io te (tb_identifier (tx_table tx)) (tb_metadata (tx_table tx)))
           (first_commit_state te tx) (filled_slots (tx_operations tx)) = Ok cs"
    "request = \<lparr>ct_identifier = tb_identifier (tx_table tx), ct_requirements = cs_requirements cs,
          ct_updates = cs_updates cs\<rparr>"
    "commit_guards tx = Ok ()"
  using assms by (auto simp: commit_request_def)

text \<open>
  C5. A transaction of several operations commits what it staged: every requirement it sends
  holds on the metadata it started from, and the updates it sends, applied by the catalog in one
  call to that metadata, give the metadata on which the operations were executed one after the
  other, up to the time of the update.
\<close>

theorem transaction_commits_what_it_staged:
  assumes "commit_request io te tx = Ok (request, cs)" "cs_staged cs = Some staged"
  shows "check_table_requirements (ct_requirements request) (tb_metadata (tx_table tx))
     \<and> (\<forall>now. apply_table_updates ((te_library te)\<lparr>env_now_ms := now\<rparr>) (tb_metadata (tx_table tx)) (ct_updates request)
               = Ok (staged\<lparr>tm_last_updated_ms := now\<rparr>))"
proof -
  have "staged_ok (te_library te) (tb_metadata (tx_table tx)) cs"
    using commit_request_Ok(1) [OF assms(1)]
    by (rule try_fold_inv [where I = "staged_ok (te_library te) (tb_metadata (tx_table tx))"])
      (blast intro: first_state_staged commit_step_staged)+
  then show ?thesis
    using assms(2) commit_request_Ok(2) [OF assms(1)] by (simp add: staged_ok_def)
qed

section \<open>Fencing\<close>

text \<open>An operation that moves a reference returns a requirement on that reference, and none removes one.\<close>

definition fenced_result :: "table_requirement option \<times> table_update list \<Rightarrow> bool" where
  "fenced_result ru \<longleftrightarrow>
     (\<forall>n r. SetSnapshotRef n r \<in> set (snd ru) \<longrightarrow> (\<exists>i. fst ru = Some (AssertRefSnapshotId n i)))
     \<and> (\<forall>n. RemoveSnapshotRef n \<notin> set (snd ru))"

lemma fenced_simps [simp]:
  "fenced_result (req, [])"
  "fenced_result (commit_of_snapshot branch old i snapshot)"
  "fenced_result (None, [SetProperties p])"
  "fenced_result (Some (AssertRefSnapshotId n cur), [SetSnapshotRef n r])"
  "fenced_result (None, [AddSchema s j])"
  "fenced_result (None, [SetDefaultSpec k])"
  "fenced_result (req, [AddSortOrder order, SetDefaultSortOrder k])"
  "fenced_result (None, [RemoveSnapshots ids])"
  by (auto simp: fenced_result_def commit_of_snapshot_def)

lemma execute_truncate_fenced: "execute_truncate io env st tm branch = Ok (ru, st') \<Longrightarrow> fenced_result ru"
  by (auto simp: execute_truncate_def Let_def)

lemma execute_append_fenced:
  "execute_append io env st tm branch ds es additional = Ok (ru, st') \<Longrightarrow> fenced_result ru"
  by (auto simp: execute_append_def Let_def split: if_splits prod.splits)

lemma execute_append_groups_fenced:
  "execute_append_groups io env st tm branch groups = Ok (ru, st') \<Longrightarrow> fenced_result ru"
  by (auto simp: execute_append_groups_def Let_def split: if_splits prod.splits)

lemma execute_replace_fenced:
  "execute_replace io env st tm branch fs additional = Ok (ru, st') \<Longrightarrow> fenced_result ru"
  by (auto simp: execute_replace_def Let_def split: prod.splits)

lemma execute_overwrite_fenced:
  "execute_overwrite io env st tm branch ds fs additional = Ok (ru, st') \<Longrightarrow> fenced_result ru"
  by (auto simp: execute_overwrite_def Let_def split: if_splits prod.splits)

lemma metadata_operations_fenced:
  "execute_replace_sort_order tm order = Ok ru \<Longrightarrow> fenced_result ru"
  "execute_expire_snapshots env tm a b c d = Ok ru \<Longrightarrow> fenced_result ru"
  by (auto simp: execute_replace_sort_order_def execute_expire_snapshots_def Let_def split: if_splits)

lemmas operations_fenced =
  execute_truncate_fenced execute_append_fenced execute_append_groups_fenced execute_replace_fenced
  execute_overwrite_fenced metadata_operations_fenced

lemma execute_fenced: "execute io env st tm op = Ok (ru, st') \<Longrightarrow> fenced_result ru"
  by (cases op) (auto simp: execute_def Let_def split: if_splits prod.splits dest: operations_fenced)

text \<open>
  What the loop keeps: a reference that was moved is named by a requirement, and a staged copy
  has the references of the base but for the moved ones.
\<close>

definition moved :: "'s commit_state \<Rightarrow> string \<Rightarrow> bool" where
  "moved cs n \<longleftrightarrow> (\<exists>r. SetSnapshotRef n r \<in> set (cs_updates cs))"

definition fenced_state :: "table_metadata \<Rightarrow> 's commit_state \<Rightarrow> bool" where
  "fenced_state base cs \<longleftrightarrow>
     (\<forall>n. moved cs n \<longrightarrow> (\<exists>i. AssertRefSnapshotId n i \<in> set (cs_requirements cs)))
     \<and> (\<forall>m n. cs_staged cs = Some m \<longrightarrow> \<not> moved cs n \<longrightarrow> tm_refs m n = tm_refs base n)"

lemma first_state_fenced: "fenced_state (tb_metadata (tx_table tx)) (first_commit_state te tx)"
  by (simp add: fenced_state_def first_commit_state_def moved_def split: if_splits)

lemma ref_effect_other:
  "\<forall>r. SetSnapshotRef n r \<notin> set us \<Longrightarrow> RemoveSnapshotRef n \<notin> set us \<Longrightarrow> fold (ref_effect n) us x = x"
proof (induction us arbitrary: x)
  case (Cons u us)
  then show ?case by (cases u) auto
qed simp

lemma add_requirement_keeps:
  "add_requirement i base staged req reqs = Ok reqs' \<Longrightarrow> set reqs \<subseteq> set reqs'"
  by (auto simp: add_requirement_def split: option.splits if_splits)

lemma add_requirement_fences:
  assumes "add_requirement i base staged (Some (AssertRefSnapshotId n k)) reqs = Ok reqs'"
    and "\<forall>m. staged = Some m \<longrightarrow> tm_refs m n = tm_refs base n"
  shows "AssertRefSnapshotId n k \<in> set reqs'"
  using assms
  by (auto simp: add_requirement_def check_table_requirements_def table_requirement_holds_def
      split: option.splits if_splits)

lemma commit_step_fenced:
  assumes inv: "fenced_state base cs" and step: "commit_step io te i base cs iop = Ok cs'"
  shows "fenced_state base cs'"
proof (rule commit_step_Ok [OF step])
  fix req update st reqs staged
  assume e: "execute io (te_op te (fst iop)) (cs_store cs) (case_option base (\<lambda>m. m) (cs_staged cs)) (snd iop) = Ok ((req, update), st)"
    and r: "add_requirement i base (cs_staged cs) req (cs_requirements cs) = Ok reqs"
    and u: "stage_updates (stage_env te (fst iop)) (cs_staged cs) update = Ok staged"
    and cs': "cs' = \<lparr>cs_staged = staged, cs_requirements = reqs, cs_updates = cs_updates cs @ update, cs_store = st\<rparr>"
  have f: "fenced_result (req, update)"
    by (rule execute_fenced [OF e])
  have moved': "moved cs' n \<longleftrightarrow> moved cs n \<or> (\<exists>x. SetSnapshotRef n x \<in> set update)" for n
    by (auto simp: moved_def cs')
  have 1: "\<exists>k. AssertRefSnapshotId n k \<in> set reqs" if mv: "moved cs' n" for n
  proof (cases "moved cs n")
    case True
    then show ?thesis
      using inv add_requirement_keeps [OF r] by (fastforce simp: fenced_state_def)
  next
    case False
    then obtain k where "req = Some (AssertRefSnapshotId n k)"
      using f moved' mv by (auto simp: fenced_result_def)
    then show ?thesis
      using add_requirement_fences [of i base "cs_staged cs" n k] r inv False
      by (auto simp: fenced_state_def)
  qed
  have 2: "tm_refs m' n = tm_refs base n" if m': "staged = Some m'" and n: "\<not> moved cs' n" for m' n
  proof -
    obtain m where m: "cs_staged cs = Some m" "apply_table_updates (stage_env te (fst iop)) m update = Ok m'"
      using u m' by (cases "cs_staged cs") (auto simp: stage_updates_def)
    have "tm_refs m' n = tm_refs m n"
      using f n unfolding refs_after [OF m(2)] moved'
      by (intro ref_effect_other) (auto simp: fenced_result_def)
    then show ?thesis
      using inv m(1) n by (auto simp: fenced_state_def moved')
  qed
  show ?thesis
    using 1 2 by (simp add: fenced_state_def cs')
qed

lemma requirements_grow:
  assumes "try_fold (commit_step io te i base) cs iops = Ok cs'"
  shows "set (cs_requirements cs) \<subseteq> set (cs_requirements cs')"
  using assms
proof (induction iops arbitrary: cs)
  case (Cons iop iops)
  then obtain cs1 where 1: "commit_step io te i base cs iop = Ok cs1" "try_fold (commit_step io te i base) cs1 iops = Ok cs'"
    by auto
  have "set (cs_requirements cs) \<subseteq> set (cs_requirements cs1)"
    by (rule commit_step_Ok [OF 1(1)]) (auto dest: add_requirement_keeps)
  then show ?case
    using Cons.IH [OF 1(2)] by blast
qed simp

lemma required_reference:
  "check_table_requirements reqs m \<Longrightarrow> AssertRefSnapshotId n k \<in> set reqs \<Longrightarrow>
   map_option sr_snapshot_id (tm_refs m n) = k"
  by (auto simp: check_table_requirements_def list_all_iff table_requirement_holds_def dest: bspec)

text \<open>
  C4. A committed transaction is fenced: where the metadata that the catalog has at commit time
  satisfies the requirements of the request, and so does the metadata the transaction was built
  on, the table is the same one (its UUID has not changed), every reference that the transaction
  moves still names the snapshot it named when the transaction began, and for a truncation this
  is so for every reference the table had.
\<close>

theorem committed_transaction_is_fenced:
  assumes "commit_request io te tx = Ok (request, cs)"
    and "traversal (te_refs_order te) (tm_refs (tb_metadata (tx_table tx)))"
    and "check_table_requirements (ct_requirements request) (tb_metadata (tx_table tx))"
    and "check_table_requirements (ct_requirements request) current"
  shows "tm_table_uuid current = tm_table_uuid (tb_metadata (tx_table tx))
     \<and> (\<forall>n r. SetSnapshotRef n r \<in> set (ct_updates request)
            \<or> tx_operations tx ! TRUNCATE_INDEX \<noteq> None \<and> tm_refs (tb_metadata (tx_table tx)) n = Some r
          \<longrightarrow> map_option sr_snapshot_id (tm_refs current n)
            = map_option sr_snapshot_id (tm_refs (tb_metadata (tx_table tx)) n))"
proof -
  define base where "base = tb_metadata (tx_table tx)"
  note fold = commit_request_Ok(1) [OF assms(1), folded base_def]
  have req: "ct_requirements request = cs_requirements cs" "ct_updates request = cs_updates cs"
    by (simp_all add: commit_request_Ok(2) [OF assms(1)])
  have "fenced_state base cs"
    using fold by (rule try_fold_inv [where I = "fenced_state base"])
      (auto simp: base_def intro: first_state_fenced commit_step_fenced)
  then have 1: "\<exists>k. AssertRefSnapshotId n k \<in> set (ct_requirements request)"
    if "SetSnapshotRef n r \<in> set (ct_updates request)" for n r
    using that by (auto simp: fenced_state_def moved_def req)
  have first: "set (first_requirements te (tx_operations tx) base) \<subseteq> set (ct_requirements request)"
    using requirements_grow [OF fold] by (simp add: first_commit_state_def req base_def)
  have 2: "AssertRefSnapshotId n (Some (sr_snapshot_id r)) \<in> set (ct_requirements request)"
    if "tx_operations tx ! TRUNCATE_INDEX \<noteq> None" "tm_refs base n = Some r" for n r
    using that assms(2) first
    by (force simp: first_requirements_def ref_requirements_def base_def [symmetric] hm_entries_traversal traversal_def dom_def)
  have 3: "AssertTableUuid (tm_table_uuid base) \<in> set (ct_requirements request)"
    using first by (auto simp: first_requirements_def)
  have "tm_table_uuid current = tm_table_uuid base"
    using assms(4) 3 by (auto simp: check_table_requirements_def list_all_iff table_requirement_holds_def dest: bspec)
  moreover have "map_option sr_snapshot_id (tm_refs current n) = map_option sr_snapshot_id (tm_refs base n)"
    if "AssertRefSnapshotId n k \<in> set (ct_requirements request)" for n k
    using required_reference [OF assms(4) that] required_reference [OF assms(3) that] by (simp add: base_def)
  ultimately show ?thesis
    using 1 2 unfolding base_def by blast
qed

section \<open>Builders called twice\<close>

text \<open>
  Findings: of an operation given twice, the second call is not combined with the first in
  three cases. A \<open>replace\<close> after \<open>replace_with_lineage\<close> drops its files; the file list of a
  second \<open>overwrite\<close> replaces the first one for the same manifest; and a second \<open>append_data\<close>
  adds its files, but not their number to the summary of the first call, which wins over the
  computed one.
\<close>

theorem second_calls_are_not_combined:
  "tx_replace gs (replace_with_lineage fs m (Transaction_new t branch))
     = replace_with_lineage fs m (Transaction_new t branch)
   \<and> operation_at (tx_overwrite gs [p \<mapsto> qs] (tx_overwrite fs [p \<mapsto> ps] (Transaction_new t branch))) OVERWRITE_INDEX
     = Some (OpOverwrite branch (fs @ gs) [p \<mapsto> qs] (append_summary fs))
   \<and> rbind (append_data (f # fs) (Transaction_new t branch)) (append_data gs)
     = Ok (set_operation APPEND_INDEX (OpAppend branch (f # fs @ gs) [] (append_summary (f # fs))) (Transaction_new t branch))
   \<and> extend_summary (update_snapshot_summary old (f # fs @ gs) []) (append_summary (f # fs)) ''added-records''
     = Some (show_int (wrap64 (sum_list (map df_record_count (filter (\<lambda>f. df_content f = Data) (f # fs))))))"
  by (simp add: tx_replace_def replace_with_lineage_def tx_overwrite_def append_data_def Transaction_new_def
      operation_at_def set_operation_def slot_defs numeral_eq_Suc extend_summary_def append_summary_def Let_def)


section \<open>Witnesses\<close>

text \<open>A transaction that sets a property and moves the main branch back to its own snapshot.\<close>

definition sample_tx_env :: tx_env where
  "sample_tx_env = \<lparr>te_op = \<lambda>_. sample_op_env, te_library = sample_env, te_stage_ms = \<lambda>_. 5,
     te_refs_order = [''main'']\<rparr>"

definition sample_main :: snapshot_reference where
  "sample_main = \<lparr>sr_snapshot_id = 7, sr_retention = SnapshotRetention_default\<rparr>"

definition sample_transaction :: "(string \<rightharpoonup> sample_value avro_writer) transaction" where
  "sample_transaction =
     tx_set_snapshot_ref (''main'', sample_main) (tx_update_properties [(''k'', ''v'')]
       (Transaction_new \<lparr>tb_identifier = Identifier_new [''ns''] ''t'', tb_object_store = Map.empty,
          tb_metadata = sample_table V3\<rparr> None))"

lemma sample_library: "te_library sample_tx_env = sample_env" "te_refs_order sample_tx_env = [''main'']"
  by (simp_all add: sample_tx_env_def)

lemma sample_slots:
  "tx_operations sample_transaction
   = [None, None, None, None, None, None, Some (OpUpdateProperties [(''k'', ''v'')]),
      Some (OpSetSnapshotRef (''main'', sample_main)), None, None, None]"
  by (simp add: sample_transaction_def tx_set_snapshot_ref_def tx_update_properties_def Transaction_new_def
      operation_at_def set_operation_def slot_defs numeral_eq_Suc)

lemma sample_transaction_table: "tb_metadata (tx_table sample_transaction) = sample_table V3"
  by (simp add: sample_transaction_def tx_set_snapshot_ref_def tx_update_properties_def Transaction_new_def
      operation_at_def set_operation_def slot_defs)

lemma sample_request:
  "\<exists>staged. commit_request sample_io sample_tx_env sample_transaction
     = Ok (\<lparr>ct_identifier = tb_identifier (tx_table sample_transaction),
            ct_requirements = [AssertTableUuid (tm_table_uuid (sample_table V3)), AssertRefSnapshotId ''main'' (Some 7)],
            ct_updates = [SetProperties [''k'' \<mapsto> ''v''], SetSnapshotRef ''main'' sample_main]\<rparr>,
          \<lparr>cs_staged = Some staged,
           cs_requirements = [AssertTableUuid (tm_table_uuid (sample_table V3)), AssertRefSnapshotId ''main'' (Some 7)],
           cs_updates = [SetProperties [''k'' \<mapsto> ''v''], SetSnapshotRef ''main'' sample_main],
           cs_store = tb_object_store (tx_table sample_transaction)\<rparr>)"
  by (simp add: commit_request_def commit_guards_def sample_slots sample_transaction_table first_commit_state_def
      filled_slots_def List.map_filter_def first_requirements_def slot_defs reject_spec_change_with_file_write_def
      commit_step_def execute_def add_requirement_def stage_updates_def check_table_requirements_def
      table_requirement_holds_def apply_table_updates_def apply_init_def set_snapshot_ref_def numeral_eq_Suc
      sample_table_def sample_snapshot_def sample_main_def)


theorem transaction_commits_what_it_staged_witness:
  "\<exists>request cs staged. commit_request sample_io sample_tx_env sample_transaction = Ok (request, cs)
     \<and> cs_staged cs = Some staged \<and> length (ct_updates request) = 2
     \<and> check_table_requirements (ct_requirements request) (sample_table V3)
     \<and> apply_table_updates (sample_env\<lparr>env_now_ms := 9\<rparr>) (sample_table V3) (ct_updates request)
         = Ok (staged\<lparr>tm_last_updated_ms := 9\<rparr>)"
proof -
  obtain request cs staged where r: "commit_request sample_io sample_tx_env sample_transaction = Ok (request, cs)"
      "cs_staged cs = Some staged" "length (ct_updates request) = 2"
    using sample_request by auto
  show ?thesis
    using transaction_commits_what_it_staged [OF r(1,2)] r
    by (intro exI [of _ request] exI [of _ cs] exI [of _ staged])
      (simp add: sample_transaction_table sample_library)
qed

theorem committed_transaction_is_fenced_witness:
  "\<exists>request cs. commit_request sample_io sample_tx_env sample_transaction = Ok (request, cs)
     \<and> tm_table_uuid ((sample_table V3)\<lparr>tm_last_column_id := 4\<rparr>) = tm_table_uuid (sample_table V3)
     \<and> (\<forall>n r. SetSnapshotRef n r \<in> set (ct_updates request)
            \<or> tx_operations sample_transaction ! TRUNCATE_INDEX \<noteq> None \<and> tm_refs (sample_table V3) n = Some r
          \<longrightarrow> map_option sr_snapshot_id (tm_refs ((sample_table V3)\<lparr>tm_last_column_id := 4\<rparr>) n)
            = map_option sr_snapshot_id (tm_refs (sample_table V3) n))"
proof -
  obtain request cs where r: "commit_request sample_io sample_tx_env sample_transaction = Ok (request, cs)"
      "ct_requirements request = [AssertTableUuid (tm_table_uuid (sample_table V3)), AssertRefSnapshotId ''main'' (Some 7)]"
    using sample_request by fastforce
  show ?thesis
    using committed_transaction_is_fenced [OF r(1), of "(sample_table V3)\<lparr>tm_last_column_id := 4\<rparr>"]
    by (intro exI [of _ request] exI [of _ cs])
      (simp add: r sample_transaction_table sample_library traversal_def check_table_requirements_def
        table_requirement_holds_def sample_table_def)
qed

end
