(* ===== verification/Metadata_Store.thy ===== *)
theory Metadata_Store
  imports Commit
begin

text \<open>
  Metadata files in an object store: the enum of table, view and materialized-view metadata
  (\<open>iceberg-rust-spec/src/spec/tabular.rs\<close>, \<open>materialized_view_metadata.rs\<close>), the buckets of
  locations (\<open>iceberg-rust/src/object_store/mod.rs\<close>), and reading and writing a metadata file
  and its version hint (\<open>iceberg-rust/src/object_store/store.rs\<close>).
\<close>

section \<open>Tabular metadata\<close>

type_synonym plain_view_metadata = "unit option view_metadata"
type_synonym materialized_view_metadata = "table_identifier view_metadata"

datatype tabular_metadata =
    TabularTable table_metadata
  | TabularView plain_view_metadata
  | TabularMaterializedView materialized_view_metadata

definition tabular_uuid :: "tabular_metadata \<Rightarrow> uuid" where
  "tabular_uuid m = (case m of TabularTable t \<Rightarrow> tm_table_uuid t | TabularView v \<Rightarrow> vm_view_uuid v
     | TabularMaterializedView v \<Rightarrow> vm_view_uuid v)"

definition tabular_location :: "tabular_metadata \<Rightarrow> string" where
  "tabular_location m = (case m of TabularTable t \<Rightarrow> tm_location t | TabularView v \<Rightarrow> vm_location v
     | TabularMaterializedView v \<Rightarrow> vm_location v)"

definition tabular_properties :: "tabular_metadata \<Rightarrow> (string \<rightharpoonup> string)" where
  "tabular_properties m = (case m of TabularTable t \<Rightarrow> tm_properties t | TabularView v \<Rightarrow> vm_properties v
     | TabularMaterializedView v \<Rightarrow> vm_properties v)"

definition tabular_sequence_number :: "tabular_metadata \<Rightarrow> i64" where
  "tabular_sequence_number m = (case m of TabularTable t \<Rightarrow> tm_last_sequence_number t
     | TabularView v \<Rightarrow> vm_current_version_id v | TabularMaterializedView v \<Rightarrow> vm_current_version_id v)"

definition tabular_current_schema :: "tabular_metadata \<Rightarrow> string option \<Rightarrow> (schema, spec_error) outcome" where
  "tabular_current_schema m branch = (case m of TabularTable t \<Rightarrow> current_schema t
     | TabularView v \<Rightarrow> view_current_schema v branch | TabularMaterializedView v \<Rightarrow> view_current_schema v branch)"

definition tabular_metadata_location :: "string \<Rightarrow> tabular_metadata \<Rightarrow> string" where
  "tabular_metadata_location transaction_uuid m =
     new_metadata_location transaction_uuid (tabular_location m) (tabular_sequence_number m) (tabular_properties m)"

section \<open>Refresh states of materialized views\<close>

record source_table =
  srt_name :: string
  srt_namespace :: namespace
  srt_catalog :: "string option"
  srt_uuid :: uuid
  srt_snapshot_id :: i64
  srt_ref :: "string option"

record source_view =
  srv_name :: string
  srv_namespace :: namespace
  srv_catalog :: "string option"
  srv_uuid :: uuid
  srv_version_id :: i64

datatype source_state = SourceTable source_table | SourceView source_view

record refresh_state =
  rf_refresh_version_id :: i64
  rf_source_states :: "full_identifier \<rightharpoonup> source_state"
  rf_refresh_start_timestamp_ms :: i64

definition SourceTable_new ::
  "string option \<Rightarrow> string list \<Rightarrow> string \<Rightarrow> uuid \<Rightarrow> i64 \<Rightarrow> string option \<Rightarrow> source_table" where
  "SourceTable_new catalog ns name uuid snapshot_id r =
     \<lparr>srt_name = name, srt_namespace = ns, srt_catalog = catalog, srt_uuid = uuid,
      srt_snapshot_id = snapshot_id, srt_ref = r\<rparr>"

definition SourceState_snapshot_id :: "source_state \<Rightarrow> i64 option" where
  "SourceState_snapshot_id s = (case s of SourceTable t \<Rightarrow> Some (srt_snapshot_id t) | SourceView _ \<Rightarrow> None)"

definition source_identifier :: "source_state \<Rightarrow> full_identifier" where
  "source_identifier s = (case s of
     SourceTable t \<Rightarrow> FullIdentifier_new (srt_catalog t) (srt_namespace t) (srt_name t)
   | SourceView v \<Rightarrow> FullIdentifier_new (srv_catalog v) (srv_namespace v) (srv_name v))"

definition SourceStates_from :: "source_state list \<Rightarrow> (full_identifier \<rightharpoonup> source_state)" where
  "SourceStates_from states = hm_from_iter (map (\<lambda>x. (source_identifier x, x)) states)"

definition SourceStates_into :: "full_identifier list \<Rightarrow> (full_identifier \<rightharpoonup> source_state) \<Rightarrow> source_state list" where
  "SourceStates_into order states = hm_values order states"

lemma source_states_roundtrip:
  assumes "traversal order states" "\<And>k s. states k = Some s \<Longrightarrow> source_identifier s = k"
  shows "SourceStates_from (SourceStates_into order states) = states"
  unfolding SourceStates_from_def SourceStates_into_def by (rule hm_from_values [OF assms])

section \<open>Buckets\<close>

datatype endpoint = DFS | Blob
datatype bucket = S3 string | GCS string | Azure string string endpoint | LocalStore

definition endpoint_display :: "endpoint \<Rightarrow> string" where
  "endpoint_display e = (case e of DFS \<Rightarrow> ''dfs'' | Blob \<Rightarrow> ''blob'')"

definition bucket_display :: "bucket \<Rightarrow> string" where
  "bucket_display b = (case b of
     S3 s \<Rightarrow> ''s3://'' @ s
   | GCS s \<Rightarrow> ''gs://'' @ s
   | Azure account container endpoint \<Rightarrow>
       ''abfss://'' @ container @ ''@'' @ account @ ''.'' @ endpoint_display endpoint @ ''.core.windows.net''
   | LocalStore \<Rightarrow> [])"

text \<open>The first part of \<open>str::split\<close> on a text, \<open>str::contains\<close>, and the second part of a split on a byte.\<close>

fun before_str :: "string \<Rightarrow> string \<Rightarrow> string" where
  "before_str pat [] = []"
| "before_str pat (c # cs) = (if starts_with pat (c # cs) then [] else c # before_str pat cs)"

fun contains_str :: "string \<Rightarrow> string \<Rightarrow> bool" where
  "contains_str pat [] = starts_with pat []"
| "contains_str pat (c # cs) = (starts_with pat (c # cs) \<or> contains_str pat cs)"

definition first_part :: "char \<Rightarrow> string \<Rightarrow> string" where
  "first_part c s = hd (split_on c s)"

definition second_part :: "char \<Rightarrow> string \<Rightarrow> string option" where
  "second_part c s = (case split_on c s of _ # p # _ \<Rightarrow> Some p | _ \<Rightarrow> None)"

definition after_prefix :: "string \<Rightarrow> string" where
  "after_prefix path = trim_start_matches (before_str ''://'' path @ ''://'') path"

definition starts_with_any :: "string list \<Rightarrow> string \<Rightarrow> bool" where
  "starts_with_any pats s = list_ex (\<lambda>p. starts_with p s) pats"

definition abfs_bucket :: "string \<Rightarrow> string \<Rightarrow> (bucket, error) outcome" where
  "abfs_bucket path remainder =
     (if CHR ''@'' \<in> set remainder
      then rbind (ok_or (NotFound (''Account in path '' @ path))
                    (map_option (first_part (CHR ''.'')) (second_part (CHR ''@'') remainder))) (\<lambda>account.
           Ok (Azure account (first_part (CHR ''@'') remainder) DFS))
      else Ok (Azure [] (first_part (CHR ''/'') remainder) DFS))"

definition https_bucket :: "string \<Rightarrow> bucket" where
  "https_bucket path =
     (let remainder = trim_start_matches ''https://'' path
      in Azure (first_part (CHR ''.'') remainder)
           (case second_part (CHR ''/'') remainder of Some c \<Rightarrow> c | None \<Rightarrow> [])
           (if contains_str ''blob.'' remainder then Blob else DFS))"

definition Bucket_from_path :: "string \<Rightarrow> (bucket, error) outcome" where
  "Bucket_from_path path =
     (if starts_with_any [''s3://'', ''s3a://''] path then Ok (S3 (first_part (CHR ''/'') (after_prefix path)))
      else if starts_with_any [''gcs://'', ''gs://''] path then Ok (GCS (first_part (CHR ''/'') (after_prefix path)))
      else if starts_with_any [''az://'', ''adl://'', ''azure://''] path
      then Ok (Azure [] (first_part (CHR ''/'') (after_prefix path)) DFS)
      else if starts_with_any [''abfs://'', ''abfss://''] path then abfs_bucket path (after_prefix path)
      else if starts_with ''https://'' path
           \<and> list_ex (\<lambda>h. contains_str h path)
               [''dfs.core.windows.net'', ''blob.core.windows.net'', ''dfs.fabric.microsoft.com'', ''blob.fabric.microsoft.com'']
      then Ok (https_bucket path)
      else Ok LocalStore)"

section \<open>Reading and writing metadata files\<close>

text \<open>
  The libraries and the object store: \<open>Url::parse(path).path()\<close>, JSON and gzip, the builder's
  connection to a bucket, and the operations on a path in a bucket. The state of the store is a
  value \<open>'s\<close>, the bytes of a file a \<open>'b\<close>.
\<close>

datatype store_builder = AzureBuilder | S3Builder | GcsBuilder | FilesystemBuilder | MemoryBuilder

record ('b, 's) meta_io =
  mi_url_path :: "string \<Rightarrow> string option"
  mi_to_json :: "tabular_metadata \<Rightarrow> ('b, error) outcome"
  mi_from_json :: "'b \<Rightarrow> (tabular_metadata, error) outcome"
  mi_gzip :: "'b \<Rightarrow> ('b, error) outcome"
  mi_gunzip :: "'b \<Rightarrow> ('b, error) outcome"
  mi_text :: "string \<Rightarrow> 'b"
  mi_connect :: "bucket \<Rightarrow> (unit, error) outcome"
  mi_get :: "bucket \<Rightarrow> 's \<Rightarrow> string \<Rightarrow> ('b, error) outcome"
  mi_put :: "bucket \<Rightarrow> 's \<Rightarrow> string \<Rightarrow> 'b \<Rightarrow> ('s, error) outcome"
  mi_delete :: "bucket \<Rightarrow> 's \<Rightarrow> string \<Rightarrow> ('s, error) outcome"
  mi_copy_if_not_exists :: "bucket \<Rightarrow> 's \<Rightarrow> string \<Rightarrow> string \<Rightarrow> ('s, error) outcome"

definition builder_build :: "('b, 's) meta_io \<Rightarrow> store_builder \<Rightarrow> bucket \<Rightarrow> (bucket, error) outcome" where
  "builder_build io builder bucket =
     (case (bucket, builder) of
        (Azure _ _ _, AzureBuilder) \<Rightarrow> rbind (mi_connect io bucket) (\<lambda>_. Ok bucket)
      | (S3 _, S3Builder) \<Rightarrow> rbind (mi_connect io bucket) (\<lambda>_. Ok bucket)
      | (GCS _, GcsBuilder) \<Rightarrow> rbind (mi_connect io bucket) (\<lambda>_. Ok bucket)
      | (LocalStore, FilesystemBuilder) \<Rightarrow> Ok bucket
      | (LocalStore, MemoryBuilder) \<Rightarrow> Ok bucket
      | _ \<Rightarrow> Err (NotSupported ''Object store protocol''))"

definition strip_prefix :: "(string \<Rightarrow> string option) \<Rightarrow> string \<Rightarrow> string" where
  "strip_prefix url_path path = (case url_path path of Some p \<Rightarrow> p | None \<Rightarrow> path)"

definition ends_with :: "string \<Rightarrow> string \<Rightarrow> bool" where
  "ends_with pat s = starts_with (rev pat) (rev s)"

definition serialize_metadata :: "('b, 's) meta_io \<Rightarrow> string \<Rightarrow> tabular_metadata \<Rightarrow> ('b, error) outcome" where
  "serialize_metadata io location metadata =
     rbind (mi_to_json io metadata) (\<lambda>json.
     if \<not> ends_with ''.gz.metadata.json'' location then Ok json else mi_gzip io json)"

definition parse_metadata :: "('b, 's) meta_io \<Rightarrow> string \<Rightarrow> 'b \<Rightarrow> (tabular_metadata, error) outcome" where
  "parse_metadata io location bytes =
     (if ends_with ''.gz.metadata.json'' location
      then rbind (mi_gunzip io bytes) (mi_from_json io)
      else mi_from_json io bytes)"

definition get_metadata :: "('b, 's) meta_io \<Rightarrow> bucket \<Rightarrow> 's \<Rightarrow> string \<Rightarrow> (tabular_metadata, error) outcome" where
  "get_metadata io store st location =
     rbind (mi_get io store st (strip_prefix (mi_url_path io) location)) (parse_metadata io location)"

definition put_metadata ::
  "('b, 's) meta_io \<Rightarrow> bucket \<Rightarrow> 's \<Rightarrow> string \<Rightarrow> tabular_metadata \<Rightarrow> ('s, error) outcome" where
  "put_metadata io store st location metadata =
     rbind (serialize_metadata io location metadata) (mi_put io store st (strip_prefix (mi_url_path io) location))"

text \<open>\<open>get_tabular_metadata\<close> takes the location as the path and the bytes as plain JSON.\<close>

definition get_tabular_metadata :: "('b, 's) meta_io \<Rightarrow> bucket \<Rightarrow> 's \<Rightarrow> string \<Rightarrow> (tabular_metadata, error) outcome" where
  "get_tabular_metadata io store st metadata_location =
     rbind (mi_get io store st metadata_location) (mi_from_json io)"

section \<open>The version hint\<close>

text \<open>\<open>Path::parent\<close> and \<open>Path::join\<close>, on paths without a \<open>.\<close> component.\<close>

definition path_parent :: "string \<Rightarrow> string option" where
  "path_parent p =
     (let t = trim_end_matches ''/'' p
      in if t = [] then None
         else let d = rev (dropWhile (\<lambda>c. c \<noteq> CHR ''/'') (rev t)); q = trim_end_matches ''/'' d
              in Some (if q = [] \<and> d \<noteq> [] then ''/'' else q))"

definition path_join :: "string \<Rightarrow> string \<Rightarrow> string" where
  "path_join d f = (if d = [] then f else if ends_with ''/'' d then d @ f else d @ ''/'' @ f)"

definition version_hint_path :: "string \<Rightarrow> string option" where
  "version_hint_path original = map_option (\<lambda>d. path_join d ''version-hint.text'') (path_parent original)"

text \<open>
  The two regular expressions. \<open>hint_suffix\<close> is \<open>.(?:gz.)?metadata.json\<close> up to the end, where a
  dot stands for any character but a line break.
\<close>

definition any_char :: "char \<Rightarrow> bool" where
  "any_char c \<longleftrightarrow> c \<noteq> CHR 10"

definition hint_json :: "string \<Rightarrow> bool" where
  "hint_json s \<longleftrightarrow> length s = 13 \<and> take 8 s = ''metadata'' \<and> any_char (s ! 8) \<and> drop 9 s = ''json''"

definition hint_suffix :: "string \<Rightarrow> bool" where
  "hint_suffix s \<longleftrightarrow> s \<noteq> [] \<and> any_char (hd s)
     \<and> (hint_json (tl s)
        \<or> take 2 (tl s) = ''gz'' \<and> length (tl s) = 16 \<and> any_char (tl s ! 2) \<and> hint_json (drop 3 (tl s)))"

definition is_digit :: "char \<Rightarrow> bool" where
  "is_digit c \<longleftrightarrow> digit_value c \<noteq> None"

definition is_hex :: "char \<Rightarrow> bool" where
  "is_hex c \<longleftrightarrow> is_digit c \<or> (let k = (of_char c :: nat) in 97 \<le> k \<and> k \<le> 102)"

fun matches_groups :: "nat list \<Rightarrow> string \<Rightarrow> bool" where
  "matches_groups [] s \<longleftrightarrow> s = []"
| "matches_groups [n] s \<longleftrightarrow> length s = n \<and> list_all is_hex s"
| "matches_groups (n # m # ns) s \<longleftrightarrow>
     n < length s \<and> list_all is_hex (take n s) \<and> s ! n = CHR ''-'' \<and> matches_groups (m # ns) (drop (Suc n) s)"

definition metastore_version :: "string \<Rightarrow> string option" where
  "metastore_version s =
     (if list_all is_digit (take 5 s) \<and> matches_groups [5, 8, 4, 4, 4, 12] (take 42 s) \<and> hint_suffix (drop 42 s)
      then Some (take 42 s) else None)"

text \<open>The digits are taken greedily, and given back one by one where the rest does not match.\<close>

definition filesystem_version :: "string \<Rightarrow> string option" where
  "filesystem_version s =
     (case s of
        c # r \<Rightarrow> if c \<noteq> CHR ''v'' then None
          else map_option (\<lambda>n. take n r)
                 (find (\<lambda>n. hint_suffix (drop n r)) (rev [1..<Suc (length (takeWhile is_digit r))]))
      | [] \<Rightarrow> None)"

definition version_hint_content :: "string \<Rightarrow> string" where
  "version_hint_content original =
     (let filename = last (split_on (CHR ''/'') original)
      in case metastore_version filename of
           Some v \<Rightarrow> v
         | None \<Rightarrow> (case filesystem_version filename of Some v \<Rightarrow> v | None \<Rightarrow> original))"

definition put_version_hint :: "('b, 's) meta_io \<Rightarrow> bucket \<Rightarrow> 's \<Rightarrow> string \<Rightarrow> ('s, error) outcome" where
  "put_version_hint io store st location =
     rbind (ok_or (InvalidFormat (''Path for version-hint for '' @ location))
              (version_hint_path (strip_prefix (mi_url_path io) location))) (\<lambda>path.
     mi_put io store st path (mi_text io (version_hint_content location)))"

text \<open>A failed hint is ignored (\<open>.await.ok()\<close>): the store is as the failed call left it.\<close>

definition try_version_hint :: "('b, 's) meta_io \<Rightarrow> bucket \<Rightarrow> 's \<Rightarrow> string \<Rightarrow> ('s, error) outcome" where
  "try_version_hint io store st location =
     (case put_version_hint io store st location of Ok st' \<Rightarrow> Ok st' | Err _ \<Rightarrow> Ok st | Panic msg \<Rightarrow> Panic msg)"

section \<open>Facts on buckets and hints\<close>

lemma before_str_append:
  assumes "\<And>c. c \<in> set a \<Longrightarrow> c \<noteq> hd pat" "pat \<noteq> []"
  shows "before_str pat (a @ pat @ s) = a"
  using assms(1)
proof (induction a)
  case Nil
  obtain x ps where "pat = x # ps" using assms(2) by (cases pat) auto
  then show ?case using starts_with_append [of pat s] by simp
next
  case (Cons x a)
  then have "\<not> starts_with pat ((x # a) @ pat @ s)"
    using assms(2) by (cases pat) (auto simp: starts_with_def)
  with Cons show ?case by simp
qed

lemma split_on_append_ex: "\<exists>qs. qs \<noteq> [] \<and> split_on c (a @ c # s) = qs @ split_on c s"
proof (induction a)
  case Nil
  then show ?case by (auto intro: exI [of _ "[[]]"])
next
  case (Cons x a)
  then obtain q qs where q: "split_on c (a @ c # s) = (q # qs) @ split_on c s"
    by (metis neq_Nil_conv)
  show ?case
  proof (cases "x = c")
    case True
    then show ?thesis using q by (auto intro!: exI [of _ "[] # q # qs"])
  next
    case False
    then show ?thesis using q by (auto intro!: exI [of _ "(x # q) # qs"])
  qed
qed

lemma last_split_on: "c \<notin> set s \<Longrightarrow> last (split_on c (a @ c # s)) = s"
  using split_on_append_ex [of c a s] by (auto simp: split_on_no_sep)

lemma first_part_append [simp]: "c \<notin> set p \<Longrightarrow> first_part c (p @ c # s) = p"
  by (simp add: first_part_def split_on_append)

lemma second_part_append [simp]: "c \<notin> set p \<Longrightarrow> c \<notin> set q \<Longrightarrow> second_part c (p @ c # q) = Some q"
  by (simp add: second_part_def split_on_append split_on_no_sep)

lemma after_prefix_scheme:
  assumes "CHR '':'' \<notin> set scheme" "CHR ''/'' \<notin> set scheme" "CHR '':'' \<notin> set n" "CHR ''/'' \<notin> set n"
  shows "after_prefix (scheme @ ''://'' @ n @ ''/'' @ p) = n @ ''/'' @ p"
proof -
  have 1: "before_str ''://'' (scheme @ ''://'' @ n @ ''/'' @ p) = scheme"
    using assms(1) by (intro before_str_append) auto
  have "\<not> starts_with (scheme @ ''://'') (n @ ''/'' @ p)"
  proof
    assume "starts_with (scheme @ ''://'') (n @ ''/'' @ p)"
    then obtain r where r: "n @ ''/'' @ p = scheme @ ''://'' @ r"
      by (auto simp: starts_with_iff)
    have "takeWhile (\<lambda>c. c \<noteq> CHR ''/'') (n @ ''/'' @ p) = n"
      using assms(4) by (induction n) auto
    moreover have "CHR '':'' \<in> set (takeWhile (\<lambda>c. c \<noteq> CHR ''/'') (scheme @ ''://'' @ r))"
      using assms(2) by (induction scheme) auto
    ultimately show False using assms(3) r by metis
  qed
  then show ?thesis
    unfolding after_prefix_def 1 using trim_start_append [of "scheme @ ''://''" "n @ ''/'' @ p"]
    by (simp add: trim_start_none)
qed

text \<open>Names without the characters that separate the parts of a location.\<close>

definition plain_name :: "string \<Rightarrow> bool" where
  "plain_name n \<longleftrightarrow> CHR '':'' \<notin> set n \<and> CHR ''/'' \<notin> set n \<and> CHR ''@'' \<notin> set n \<and> CHR ''.'' \<notin> set n"

fun plain_bucket :: "bucket \<Rightarrow> bool" where
  "plain_bucket (S3 n) \<longleftrightarrow> CHR '':'' \<notin> set n \<and> CHR ''/'' \<notin> set n"
| "plain_bucket (GCS n) \<longleftrightarrow> CHR '':'' \<notin> set n \<and> CHR ''/'' \<notin> set n"
| "plain_bucket (Azure account container _) \<longleftrightarrow> plain_name account \<and> plain_name container"
| "plain_bucket LocalStore \<longleftrightarrow> False"

text \<open>What a bucket is read back as: every Azure endpoint of an \<open>abfss\<close> location is \<open>dfs\<close>.\<close>

fun read_back_bucket :: "bucket \<Rightarrow> bucket" where
  "read_back_bucket (Azure account container _) = Azure account container DFS"
| "read_back_bucket b = b"

lemma starts_with_step [simp]:
  "starts_with [] s" "starts_with (a # p) (b # s) \<longleftrightarrow> a = b \<and> starts_with p s" "\<not> starts_with (a # p) []"
  by (auto simp: starts_with_def)

text \<open>
  The bucket of a location in a bucket is that bucket: the printed form of an S3, Google or
  Azure bucket, followed by a path without \<open>@\<close>, is parsed as the bucket, but that a Blob
  endpoint becomes a DFS endpoint.
\<close>

theorem bucket_of_location:
  assumes "plain_bucket b" "CHR ''@'' \<notin> set path"
  shows "Bucket_from_path (bucket_display b @ ''/'' @ path) = Ok (read_back_bucket b)"
proof (cases b)
  case (S3 n)
  have "after_prefix (''s3'' @ ''://'' @ n @ ''/'' @ path) = n @ ''/'' @ path"
    using assms S3 by (intro after_prefix_scheme) auto
  then show ?thesis
    using assms S3 by (simp add: Bucket_from_path_def bucket_display_def starts_with_any_def)
next
  case (GCS n)
  have "after_prefix (''gs'' @ ''://'' @ n @ ''/'' @ path) = n @ ''/'' @ path"
    using assms GCS by (intro after_prefix_scheme) auto
  then show ?thesis
    using assms GCS by (simp add: Bucket_from_path_def bucket_display_def starts_with_any_def)
next
  case (Azure account container endpoint)
  let ?host = "container @ ''@'' @ account @ ''.'' @ endpoint_display endpoint @ ''.core.windows.net''"
  have plain: "CHR '':'' \<notin> set ?host" "CHR ''/'' \<notin> set ?host"
    using assms(1) Azure by (auto simp: plain_name_def endpoint_display_def split: endpoint.splits)
  have p: "after_prefix (''abfss'' @ ''://'' @ ?host @ ''/'' @ path) = ?host @ ''/'' @ path"
    using plain by (intro after_prefix_scheme) auto
  have q: "abfs_bucket loc (?host @ ''/'' @ path) = Ok (Azure account container DFS)" for loc
  proof -
    let ?rest = "endpoint_display endpoint @ ''.core.windows.net'' @ ''/'' @ path"
    have "CHR ''@'' \<notin> set (account @ CHR ''.'' # ?rest)"
      using assms Azure by (auto simp: plain_name_def endpoint_display_def split: endpoint.splits)
    then have "second_part (CHR ''@'') (container @ CHR ''@'' # account @ CHR ''.'' # ?rest) = Some (account @ CHR ''.'' # ?rest)"
      using assms Azure by (intro second_part_append) (auto simp: plain_name_def)
    moreover have "first_part (CHR ''@'') (container @ CHR ''@'' # account @ CHR ''.'' # ?rest) = container"
      using assms Azure by (intro first_part_append) (simp add: plain_name_def)
    moreover have "first_part (CHR ''.'') (account @ CHR ''.'' # ?rest) = account"
      using assms Azure by (intro first_part_append) (simp add: plain_name_def)
    ultimately show ?thesis
      by (simp add: abfs_bucket_def)
  qed
  show ?thesis
    using p q by (simp add: Azure Bucket_from_path_def bucket_display_def starts_with_any_def)
qed (use assms in simp)

theorem bucket_of_location_witness:
  "Bucket_from_path (bucket_display (Azure ''acc'' ''box'' Blob) @ ''/'' @ ''t/m.json'') = Ok (Azure ''acc'' ''box'' DFS)"
  using bucket_of_location [of "Azure ''acc'' ''box'' Blob" "''t/m.json''"] by (simp add: plain_name_def)

section \<open>Round trip of a metadata file\<close>

text \<open>What the libraries promise: JSON and gzip can be undone, and a file holds what was put there.\<close>

definition meta_laws :: "('b, 's) meta_io \<Rightarrow> bool" where
  "meta_laws io \<longleftrightarrow>
     (\<forall>m b. mi_to_json io m = Ok b \<longrightarrow> mi_from_json io b = Ok m)
     \<and> (\<forall>b z. mi_gzip io b = Ok z \<longrightarrow> mi_gunzip io z = Ok b)
     \<and> (\<forall>store st path b st'. mi_put io store st path b = Ok st' \<longrightarrow>
          mi_get io store st' path = Ok b
          \<and> (\<forall>path'. path' \<noteq> path \<longrightarrow> mi_get io store st' path' = mi_get io store st path'))"

lemma metadata_file_roundtrip:
  assumes "meta_laws io" "put_metadata io store st location m = Ok st'"
  shows "get_metadata io store st' location = Ok m"
  using assms
  by (auto simp: meta_laws_def put_metadata_def get_metadata_def serialize_metadata_def parse_metadata_def
      split: if_splits)

section \<open>The version in the hint\<close>

definition uuid_text :: "string \<Rightarrow> bool" where
  "uuid_text u \<longleftrightarrow> matches_groups [8, 4, 4, 4, 12] u"

lemma matches_groups_chars: "matches_groups ns s \<Longrightarrow> \<forall>c\<in>set s. is_hex c \<or> c = CHR ''-''"
proof (induction ns s rule: matches_groups.induct)
  case (3 n m ns s)
  have "s = take n s @ s ! n # drop (Suc n) s"
    using 3(2) by (intro id_take_nth_drop) simp
  moreover have "\<forall>c\<in>set (take n s). is_hex c" "s ! n = CHR ''-''" "\<forall>c\<in>set (drop (Suc n) s). is_hex c \<or> c = CHR ''-''"
    using 3 by (auto simp: list_all_iff)
  ultimately show ?case
    by (metis UnE set_append set_ConsD)
qed (auto simp: list_all_iff)

lemma matches_groups_length: "matches_groups ns s \<Longrightarrow> length s = sum_list ns + (length ns - 1)"
  by (induction ns s rule: matches_groups.induct) auto

lemma matches_groups_Cons:
  "length a = n \<Longrightarrow> list_all is_hex a \<Longrightarrow> matches_groups (m # ns) s \<Longrightarrow> matches_groups (n # m # ns) (a @ CHR ''-'' # s)"
  by (simp add: nth_append)

lemma length_show_nat: "n < 10 ^ k \<Longrightarrow> 0 < k \<Longrightarrow> length (show_nat n) \<le> k"
proof (induction k arbitrary: n)
  case (Suc k)
  show ?case
  proof (cases "n < 10")
    case True
    then show ?thesis by (subst show_nat.simps) simp
  next
    case False
    then have "0 < k" "n div 10 < 10 ^ k"
      using Suc.prems by (cases k; auto)+
    then show ?thesis
      using Suc.IH [of "n div 10"] False by (subst show_nat.simps) simp
  qed
qed simp

lemma show_pad5_digits:
  assumes "0 \<le> v" "v < 100000"
  shows "length (show_pad5 v) = 5" "list_all is_digit (show_pad5 v)"
proof -
  have "length (show_nat (nat v)) \<le> 5"
    using assms by (intro length_show_nat) auto
  then show "length (show_pad5 v) = 5"
    using assms(1) by (simp add: show_pad5_def pad_left_def)
  have "list_all is_digit (show_nat (nat v))"
    using show_nat_digits [of "nat v"] by (simp add: is_digit_string_def list_all_iff is_digit_def)
  moreover have "is_digit (CHR ''0'')"
    by (simp add: is_digit_def digit_value_def)
  ultimately show "list_all is_digit (show_pad5 v)"
    using assms(1) by (auto simp: show_pad5_def pad_left_def list_all_iff)
qed

lemma is_digit_hex: "is_digit c \<Longrightarrow> is_hex c"
  by (simp add: is_hex_def)

lemma hint_suffixes: "hint_suffix ''.metadata.json''" "hint_suffix ''.gz.metadata.json''"
  by (simp_all add: hint_suffix_def hint_json_def any_char_def)

lemma slash_not_hex: "\<not> is_hex (CHR ''/'')"
  by (simp add: is_hex_def is_digit_def digit_value_def)

lemma metastore_version_of_name:
  assumes "uuid_text u" "0 \<le> v" "v < 100000" "hint_suffix suffix"
  shows "metastore_version (show_pad5 v @ ''-'' @ u @ suffix) = Some (show_pad5 v @ ''-'' @ u)"
proof -
  have len: "length u = 36"
    using matches_groups_length assms(1) by (fastforce simp: uuid_text_def)
  have t: "take 42 (show_pad5 v @ ''-'' @ u @ suffix) = show_pad5 v @ CHR ''-'' # u"
    "drop 42 (show_pad5 v @ ''-'' @ u @ suffix) = suffix"
    using show_pad5_digits [OF assms(2,3)] len by simp_all
  have "matches_groups [5, 8, 4, 4, 4, 12] (show_pad5 v @ CHR ''-'' # u)"
    using assms(1) show_pad5_digits [OF assms(2,3)]
    by (intro matches_groups_Cons) (auto simp: uuid_text_def list_all_iff is_digit_hex)
  moreover have "list_all is_digit (take 5 (show_pad5 v @ ''-'' @ u @ suffix))"
    using show_pad5_digits [OF assms(2,3)] by simp
  ultimately show ?thesis
    unfolding metastore_version_def t using assms(4) by simp
qed

lemma filesystem_version_of_name: "filesystem_version (''v'' @ show_nat n @ ''.metadata.json'') = Some (show_nat n)"
proof -
  have "takeWhile is_digit (show_nat n @ ''.metadata.json'') = show_nat n"
    using show_nat_digits [of n] by (subst takeWhile_append2) (auto simp: is_digit_string_def is_digit_def digit_value_def)
  moreover obtain k where "length (show_nat n) = Suc k"
    using show_nat_nonempty [of n] by (cases "length (show_nat n)") auto
  ultimately show ?thesis
    by (simp add: filesystem_version_def hint_suffixes)
qed

lemma not_metastore_name: "metastore_version (CHR ''v'' # s) = None"
  by (simp add: metastore_version_def is_digit_def digit_value_def)

text \<open>
  The version hint of a metadata file that a commit writes names that file: below version
  100000 it is the version and UUID of \<open>new_metadata_location\<close>, gzipped or not, and for the
  names of the file catalog it is the number of the version. Finding: from version 100000 on the
  pattern of five digits does not match, and the hint is the whole location.
\<close>

theorem version_hint_names_the_version:
  assumes "uuid_text u" "0 \<le> v" "v < 100000"
  shows "version_hint_content (new_metadata_location u location v properties) = show_pad5 v @ ''-'' @ u
    \<and> version_hint_content (location @ ''/metadata/v'' @ show_nat n @ ''.metadata.json'') = show_nat n
    \<and> version_hint_content (''t/metadata/100000-'' @ ''3f569e94-5601-48f3-9199-8d71df4ea7b0'' @ ''.metadata.json'')
      = ''t/metadata/100000-3f569e94-5601-48f3-9199-8d71df4ea7b0.metadata.json''"
proof (intro conjI)
  define suffix where "suffix = (if metadata_is_gzipped properties then ''.gz.metadata.json'' else ''.metadata.json'')"
  have loc: "new_metadata_location u location v properties
      = (location @ ''/metadata'') @ CHR ''/'' # show_pad5 v @ ''-'' @ u @ suffix"
    by (simp add: new_metadata_location_def suffix_def)
  have s: "hint_suffix suffix" "CHR ''/'' \<notin> set suffix"
    by (simp_all add: suffix_def hint_suffixes)
  have "CHR ''/'' \<notin> set u" "CHR ''/'' \<notin> set (show_pad5 v)"
    using matches_groups_chars [OF assms(1) [unfolded uuid_text_def]] show_pad5_digits(2) [OF assms(2,3)]
      slash_not_hex is_digit_hex [of "CHR ''/''"]
    by (auto simp: list_all_iff)
  then have "last (split_on (CHR ''/'') ((location @ ''/metadata'') @ CHR ''/'' # show_pad5 v @ ''-'' @ u @ suffix))
      = show_pad5 v @ ''-'' @ u @ suffix"
    using s by (intro last_split_on) auto
  then show "version_hint_content (new_metadata_location u location v properties) = show_pad5 v @ ''-'' @ u"
    using metastore_version_of_name [OF assms s(1)] by (simp add: version_hint_content_def loc)
  have "last (split_on (CHR ''/'') ((location @ ''/metadata'') @ CHR ''/'' # ''v'' @ show_nat n @ ''.metadata.json''))
      = ''v'' @ show_nat n @ ''.metadata.json''"
    by (intro last_split_on) auto
  then show "version_hint_content (location @ ''/metadata/v'' @ show_nat n @ ''.metadata.json'') = show_nat n"
    using filesystem_version_of_name [of n] not_metastore_name by (simp add: version_hint_content_def)
qed code_simp

theorem version_hint_names_the_version_witness:
  "version_hint_content (new_metadata_location ''3f569e94-5601-48f3-9199-8d71df4ea7b0'' ''s3://t'' 4 Map.empty)
     = show_pad5 4 @ ''-'' @ ''3f569e94-5601-48f3-9199-8d71df4ea7b0''"
proof -
  have "uuid_text ''3f569e94-5601-48f3-9199-8d71df4ea7b0''" by code_simp
  from version_hint_names_the_version [OF this, of 4] show ?thesis by simp
qed

end
