(* ===== verification/Catalog_Api.thy ===== *)
theory Catalog_Api
  imports Transaction Metadata_Store
begin

text \<open>
  What the catalogs share: the builders that create tables, views and materialized views
  (\<open>iceberg-rust/src/catalog/create.rs\<close>), and the entities that a catalog returns
  (\<open>view/mod.rs\<close>, \<open>materialized_view/mod.rs\<close>, \<open>catalog/tabular.rs\<close>).
\<close>

section \<open>Creating a table\<close>

record create_table =
  ctb_name :: string
  ctb_location :: "string option"
  ctb_schema :: schema
  ctb_partition_spec :: "partition_spec option"
  ctb_write_order :: "sort_order option"
  ctb_stage_create :: "bool option"
  ctb_properties :: "(string \<rightharpoonup> string) option"

text \<open>The builder: the fields that are required are optional here.\<close>

record create_table_builder =
  ctbb_name :: "string option"
  ctbb_location :: "string option"
  ctbb_schema :: "schema option"
  ctbb_partition_spec :: "partition_spec option"
  ctbb_write_order :: "sort_order option"
  ctbb_stage_create :: "bool option"
  ctbb_properties :: "(string \<rightharpoonup> string) option"

definition schema_has_field :: "schema \<Rightarrow> i32 \<Rightarrow> bool" where
  "schema_has_field s i = list_ex (\<lambda>f. fid f = i) (st_fields (sch_fields s))"

definition validate_partition_field :: "schema \<Rightarrow> string \<Rightarrow> partition_field \<Rightarrow> (unit, error) outcome" where
  "validate_partition_field s name field =
     (if schema_has_field s (pf_source_id field) then Ok ()
      else Err (NotFound (''Partition field '' @ [CHR 0x27] @ pf_name field @ [CHR 0x27]
             @ '' references non-existent schema field ID '' @ show_int (pf_source_id field)
             @ '' in table '' @ [CHR 0x27] @ name @ [CHR 0x27])))"

definition validate_sort_field :: "schema \<Rightarrow> string \<Rightarrow> sort_field \<Rightarrow> (unit, error) outcome" where
  "validate_sort_field s name field =
     (if schema_has_field s (so_source_id field) then Ok ()
      else Err (NotFound (''Sort order field references non-existent schema field ID ''
             @ show_int (so_source_id field) @ '' in table '' @ [CHR 0x27] @ name @ [CHR 0x27])))"

definition validate_sort_order :: "schema \<Rightarrow> string \<Rightarrow> sort_order \<Rightarrow> (unit, error) outcome" where
  "validate_sort_order s name order =
     (if so_order_id order = DEFAULT_SORT_ORDER_ID \<and> so_fields order \<noteq> []
      then Err (InvalidFormat (''Sort order for table '' @ [CHR 0x27] @ name @ [CHR 0x27]
             @ '' has fields but uses order id '' @ show_int DEFAULT_SORT_ORDER_ID
             @ '', which is reserved for the unsorted order''))
      else rbind (try_map (validate_sort_field s name) (so_fields order)) (\<lambda>_. Ok ()))"

definition CreateTableBuilder_validate :: "create_table_builder \<Rightarrow> (unit, error) outcome" where
  "CreateTableBuilder_validate b =
     rbind (ok_or (NotFound ''Table name is required'') (ctbb_name b)) (\<lambda>name.
     rbind (ok_or (NotFound ''Table schema is required'') (ctbb_schema b)) (\<lambda>s.
     if \<not> distinct (map fid (st_fields (sch_fields s)))
     then Err (InvalidFormat (''Schema for table '' @ [CHR 0x27] @ name @ [CHR 0x27] @ '' contains duplicate field IDs''))
     else rbind (case ctbb_partition_spec b of
            Some spec \<Rightarrow> rbind (try_map (validate_partition_field s name) (ps_fields spec)) (\<lambda>_. Ok ())
          | None \<Rightarrow> Ok ()) (\<lambda>_.
          case ctbb_write_order b of Some order \<Rightarrow> validate_sort_order s name order | None \<Rightarrow> Ok ())))"

text \<open>The generated \<open>create\<close>: validation, and the required fields.\<close>

definition CreateTableBuilder_create :: "create_table_builder \<Rightarrow> (create_table, error) outcome" where
  "CreateTableBuilder_create b =
     rbind (CreateTableBuilder_validate b) (\<lambda>_.
     rbind (ok_or (DeriveBuilder ''name'') (ctbb_name b)) (\<lambda>name.
     rbind (ok_or (DeriveBuilder ''schema'') (ctbb_schema b)) (\<lambda>s.
     Ok \<lparr>ctb_name = name, ctb_location = ctbb_location b, ctb_schema = s,
         ctb_partition_spec = ctbb_partition_spec b, ctb_write_order = ctbb_write_order b,
         ctb_stage_create = ctbb_stage_create b, ctb_properties = ctbb_properties b\<rparr>)))"

definition CreateTableBuilder_build ::
  "create_table_builder \<Rightarrow> string list \<Rightarrow> (table_identifier \<Rightarrow> create_table \<Rightarrow> ('t, error) outcome) \<Rightarrow> ('t, error) outcome" where
  "CreateTableBuilder_build b ns catalog_create =
     rbind (ok_or (NotFound ''Name to create table'') (ctbb_name b)) (\<lambda>name.
     rbind (CreateTableBuilder_create b) (catalog_create (Identifier_new ns name)))"

text \<open>What a conversion draws from its surroundings: a fresh UUID and the clock.\<close>

record create_env =
  cre_uuid :: uuid
  cre_now_ms :: i64

definition requested_format_version :: "(string \<rightharpoonup> string) option \<Rightarrow> (format_version, error) outcome" where
  "requested_format_version properties =
     (case Option.bind properties (\<lambda>m. m ''format-version'') of
        None \<Rightarrow> Ok V2
      | Some version \<Rightarrow>
          rbind (ok_or (ParseInt version) (parse_unsigned (2 ^ 8) version)) (\<lambda>n.
          map_err Iceberg (FormatVersion_try_from_u8 n)))"

definition unsorted :: sort_order where
  "unsorted = \<lparr>so_order_id = 0, so_fields = []\<rparr>"

definition unpartitioned :: partition_spec where
  "unpartitioned = \<lparr>ps_spec_id = 0, ps_fields = []\<rparr>"

definition TableMetadata_from_create :: "create_env \<Rightarrow> create_table \<Rightarrow> (table_metadata, error) outcome" where
  "TableMetadata_from_create env c =
     rbind (requested_format_version (ctb_properties c)) (\<lambda>version.
     let spec = case_option unpartitioned (\<lambda>x. x) (ctb_partition_spec c);
         order = case_option unsorted (\<lambda>x. x) (ctb_write_order c)
     in rbind (ok_or (NotFound (''Location for table '' @ ctb_name c)) (ctb_location c)) (\<lambda>location.
        Ok \<lparr>tm_format_version = version, tm_table_uuid = cre_uuid env, tm_location = location,
            tm_last_sequence_number = 0, tm_last_updated_ms = cre_now_ms env,
            tm_last_column_id = case_option 0 (\<lambda>x. x) (StructType_max_field_id (sch_fields (ctb_schema c))),
            tm_schemas = [DEFAULT_SCHEMA_ID \<mapsto> ctb_schema c], tm_current_schema_id = DEFAULT_SCHEMA_ID,
            tm_partition_specs = [DEFAULT_PARTITION_SPEC_ID \<mapsto> spec],
            tm_default_spec_id = DEFAULT_PARTITION_SPEC_ID,
            tm_last_partition_id = case_option 0 (\<lambda>x. x)
              (Option.bind (ctb_partition_spec c) (\<lambda>x. iter_max (map pf_field_id (ps_fields x)))),
            tm_properties = case_option Map.empty (\<lambda>x. x) (ctb_properties c),
            tm_current_snapshot_id = None, tm_snapshots = Map.empty, tm_snapshot_log = [], tm_metadata_log = [],
            tm_sort_orders = [so_order_id order \<mapsto> order], tm_default_sort_order_id = so_order_id order,
            tm_refs = Map.empty, tm_next_row_id = 0\<rparr>))"

section \<open>Creating views\<close>

definition DEFAULT_VERSION_ID :: i64 where
  "DEFAULT_VERSION_ID = 0"

record 't create_view =
  cvw_name :: string
  cvw_location :: "string option"
  cvw_schema :: schema
  cvw_view_version :: "'t view_version"
  cvw_properties :: "string \<rightharpoonup> string"

record 't create_view_builder =
  cvwb_name :: "string option"
  cvwb_location :: "string option"
  cvwb_schema :: "schema option"
  cvwb_view_version :: "'t view_version option"
  cvwb_properties :: "string \<rightharpoonup> string"

text \<open>A version without a namespace or a catalog gets those of the creation.\<close>

definition fill_version :: "string list \<Rightarrow> string \<Rightarrow> 't view_version \<Rightarrow> 't view_version" where
  "fill_version ns catalog_name version =
     (let v = (if vv_default_namespace version = [] then version\<lparr>vv_default_namespace := ns\<rparr> else version)
      in if vv_default_catalog v = None \<and> catalog_name \<noteq> [] then v\<lparr>vv_default_catalog := Some catalog_name\<rparr> else v)"

definition CreateViewBuilder_create :: "'t create_view_builder \<Rightarrow> ('t create_view, error) outcome" where
  "CreateViewBuilder_create b =
     rbind (ok_or (DeriveBuilder ''name'') (cvwb_name b)) (\<lambda>name.
     rbind (ok_or (DeriveBuilder ''schema'') (cvwb_schema b)) (\<lambda>s.
     rbind (ok_or (DeriveBuilder ''view_version'') (cvwb_view_version b)) (\<lambda>version.
     Ok \<lparr>cvw_name = name, cvw_location = cvwb_location b, cvw_schema = s, cvw_view_version = version,
         cvw_properties = cvwb_properties b\<rparr>)))"

definition CreateViewBuilder_build ::
  "'t create_view_builder \<Rightarrow> string list \<Rightarrow> string \<Rightarrow> (table_identifier \<Rightarrow> 't create_view \<Rightarrow> ('w, error) outcome)
   \<Rightarrow> ('w, error) outcome" where
  "CreateViewBuilder_build b ns catalog_name catalog_create =
     rbind (ok_or (NotFound ''Name to create view'') (cvwb_name b)) (\<lambda>name.
     rbind (CreateViewBuilder_create
              (b\<lparr>cvwb_view_version := map_option (fill_version ns catalog_name) (cvwb_view_version b)\<rparr>))
       (catalog_create (Identifier_new ns name)))"

text \<open>The message names the kind of view.\<close>

definition ViewMetadata_from_create ::
  "string \<Rightarrow> create_env \<Rightarrow> 't create_view \<Rightarrow> ('t view_metadata, error) outcome" where
  "ViewMetadata_from_create kind env c =
     rbind (ok_or (NotFound (''Location for '' @ kind @ '' '' @ cvw_name c)) (cvw_location c)) (\<lambda>location.
     Ok \<lparr>vm_view_uuid = cre_uuid env, vm_format_version = ViewV1, vm_location = location,
         vm_current_version_id = DEFAULT_VERSION_ID, vm_versions = [DEFAULT_VERSION_ID \<mapsto> cvw_view_version c],
         vm_version_log = [], vm_schemas = [DEFAULT_SCHEMA_ID \<mapsto> cvw_schema c],
         vm_properties = cvw_properties c\<rparr>)"

section \<open>Creating materialized views\<close>

record create_materialized_view =
  cmv_name :: string
  cmv_location :: "string option"
  cmv_schema :: schema
  cmv_view_version :: "table_identifier view_version"
  cmv_properties :: "string \<rightharpoonup> string"
  cmv_partition_spec :: "partition_spec option"
  cmv_write_order :: "sort_order option"
  cmv_stage_create :: "bool option"
  cmv_table_properties :: "(string \<rightharpoonup> string) option"

definition STORAGE_TABLE_POSTFIX :: string where
  "STORAGE_TABLE_POSTFIX = ''__storage''"

text \<open>What \<open>build\<close> does to the created value: the default names and the storage table.\<close>

definition with_storage_table ::
  "table_identifier \<Rightarrow> create_materialized_view \<Rightarrow> create_materialized_view" where
  "with_storage_table identifier' c =
     c\<lparr>cmv_view_version := (cmv_view_version c)\<lparr>vv_storage_table :=
         Identifier_new (id_namespace identifier') (id_name identifier' @ STORAGE_TABLE_POSTFIX)\<rparr>\<rparr>"

definition CreateMaterializedViewBuilder_build ::
  "create_materialized_view \<Rightarrow> string list \<Rightarrow> string
   \<Rightarrow> (table_identifier \<Rightarrow> create_materialized_view \<Rightarrow> ('w, error) outcome) \<Rightarrow> ('w, error) outcome" where
  "CreateMaterializedViewBuilder_build c ns catalog_name catalog_create =
     (let identifier' = Identifier_new ns (cmv_name c);
          filled = c\<lparr>cmv_view_version := fill_version ns catalog_name (cmv_view_version c)\<rparr>
      in catalog_create identifier' (with_storage_table identifier' filled))"

definition create_parts :: "create_materialized_view \<Rightarrow> table_identifier create_view \<times> create_table" where
  "create_parts c =
     (\<lparr>cvw_name = cmv_name c, cvw_location = cmv_location c, cvw_schema = cmv_schema c,
       cvw_view_version = cmv_view_version c, cvw_properties = cmv_properties c\<rparr>,
      \<lparr>ctb_name = id_name (vv_storage_table (cmv_view_version c)), ctb_location = cmv_location c,
       ctb_schema = cmv_schema c, ctb_partition_spec = cmv_partition_spec c,
       ctb_write_order = cmv_write_order c, ctb_stage_create = cmv_stage_create c,
       ctb_properties = cmv_table_properties c\<rparr>)"

section \<open>A created table and its file\<close>

lemma traversal_single: "traversal ks [k \<mapsto> v] \<longleftrightarrow> ks = [k]"
  by (auto simp: traversal_def) (metis distinct.simps(2) insertI1 list.exhaust list.set(2) set_empty2 singletonD
      insert_iff list.set_intros(1) subset_singletonD subset_insertI insert_not_empty)

lemma hm_values_single: "traversal ks [k \<mapsto> v] \<Longrightarrow> hm_values ks [k \<mapsto> v] = [v]"
  by (simp add: traversal_single hm_values_def List.map_filter_def)

lemma TableMetadata_from_create_Ok:
  assumes "TableMetadata_from_create env c = Ok tm"
  shows "tm_schemas tm = [0 \<mapsto> ctb_schema c]" "tm_current_schema_id tm = 0" "tm_default_spec_id tm = 0"
    "tm_partition_specs tm = [0 \<mapsto> case_option unpartitioned (\<lambda>x. x) (ctb_partition_spec c)]"
    "tm_sort_orders tm = [tm_default_sort_order_id tm \<mapsto> case_option unsorted (\<lambda>x. x) (ctb_write_order c)]"
    "tm_default_sort_order_id tm = so_order_id (case_option unsorted (\<lambda>x. x) (ctb_write_order c))"
    "tm_snapshots tm = Map.empty" "tm_snapshot_log tm = []" "tm_refs tm = Map.empty"
    "tm_current_snapshot_id tm = None" "tm_next_row_id tm = 0" "tm_metadata_log tm = []"
  using assms
  by (auto simp: TableMetadata_from_create_def Let_def DEFAULT_SCHEMA_ID_def DEFAULT_PARTITION_SPEC_ID_def)

lemma created_table_inv:
  assumes "TableMetadata_from_create env c = Ok tm" "sch_schema_id (ctb_schema c) = 0"
    "ps_spec_id (case_option unpartitioned (\<lambda>x. x) (ctb_partition_spec c)) = 0"
  shows "tm_inv tm"
  using assms(2,3) TableMetadata_from_create_Ok [OF assms(1)]
  by (simp add: tm_inv_defs keyed_def)


definition sample_create :: create_table where
  "sample_create =
     \<lparr>ctb_name = ''t'', ctb_location = Some ''s3://t'', ctb_schema = Schema_from_struct_type (StructType_new []) 0 None,
      ctb_partition_spec = Some \<lparr>ps_spec_id = 1, ps_fields = []\<rparr>, ctb_write_order = None, ctb_stage_create = None,
      ctb_properties = None\<rparr>"


section \<open>The entities of a catalog\<close>

record 't view =
  vw_identifier :: table_identifier
  vw_metadata :: "'t view_metadata"

type_synonym materialized_view = "table_identifier view"

definition View_new :: "table_identifier \<Rightarrow> 't view_metadata \<Rightarrow> ('t view, error) outcome" where
  "View_new i m = Ok \<lparr>vw_identifier = i, vw_metadata = m\<rparr>"

definition View_current_schema :: "'t view \<Rightarrow> string option \<Rightarrow> (schema, error) outcome" where
  "View_current_schema v branch = map_err Iceberg (view_current_schema (vw_metadata v) branch)"

datatype 's tabular =
    TabTable "'s table"
  | TabView "unit option view"
  | TabMaterializedView materialized_view

definition Tabular_identifier :: "'s tabular \<Rightarrow> table_identifier" where
  "Tabular_identifier t = (case t of TabTable x \<Rightarrow> tb_identifier x | TabView v \<Rightarrow> vw_identifier v
     | TabMaterializedView v \<Rightarrow> vw_identifier v)"

definition Tabular_metadata :: "'s tabular \<Rightarrow> tabular_metadata" where
  "Tabular_metadata t = (case t of TabTable x \<Rightarrow> TabularTable (tb_metadata x) | TabView v \<Rightarrow> TabularView (vw_metadata v)
     | TabMaterializedView v \<Rightarrow> TabularMaterializedView (vw_metadata v))"

text \<open>The entity of loaded metadata, of the kind of the metadata.\<close>

definition tabular_of :: "table_identifier \<Rightarrow> 's \<Rightarrow> tabular_metadata \<Rightarrow> ('s tabular, error) outcome" where
  "tabular_of i st m = (case m of
     TabularTable t \<Rightarrow> rbind (Table_new i st t) (\<lambda>x. Ok (TabTable x))
   | TabularView v \<Rightarrow> rbind (View_new i v) (\<lambda>x. Ok (TabView x))
   | TabularMaterializedView v \<Rightarrow> rbind (View_new i v) (\<lambda>x. Ok (TabMaterializedView x)))"

lemma tabular_of_metadata: "tabular_of i st m = Ok t \<Longrightarrow> Tabular_metadata t = m \<and> Tabular_identifier t = i"
  by (auto simp: tabular_of_def Table_new_def View_new_def Tabular_metadata_def Tabular_identifier_def
      split: tabular_metadata.splits)

text \<open>A reload keeps the kind of the entity.\<close>

definition Tabular_reload ::
  "(table_identifier \<Rightarrow> ('s tabular, error) outcome) \<Rightarrow> 's tabular \<Rightarrow> ('s tabular, error) outcome" where
  "Tabular_reload load t =
     rbind (load (Tabular_identifier t)) (\<lambda>new.
     case (t, new) of
       (TabTable _, TabTable _) \<Rightarrow> Ok new
     | (TabView _, TabView _) \<Rightarrow> Ok new
     | (TabMaterializedView _, TabMaterializedView _) \<Rightarrow> Ok new
     | _ \<Rightarrow> Err (InvalidFormat ''Tabular type from catalog response''))"

definition MaterializedView_storage_table ::
  "(table_identifier \<Rightarrow> ('s tabular, error) outcome) \<Rightarrow> materialized_view \<Rightarrow> ('s table, error) outcome" where
  "MaterializedView_storage_table load v =
     rbind (map_err Iceberg (view_current_version (vw_metadata v) None)) (\<lambda>version.
     rbind (load (vv_storage_table version)) (\<lambda>t.
     case t of TabTable x \<Rightarrow> Ok x | _ \<Rightarrow> Err (InvalidFormat ''storage table'')))"

section \<open>The field ids of a view\<close>

definition ARROW_FIELD_IDS_PROPERTY :: string where
  "ARROW_FIELD_IDS_PROPERTY = ''datafusion-iceberg.arrow-field-ids''"

definition encode_arrow_field_ids :: "i32 list \<Rightarrow> (i32 \<rightharpoonup> i32) \<Rightarrow> string" where
  "encode_arrow_field_ids order mapping =
     join_with '','' (map (\<lambda>(k, v). show_int k @ '':'' @ show_int v) (sort_key fst (hm_entries order mapping)))"

text \<open>An entry that cannot be parsed empties the whole result.\<close>

fun parse_id_entries :: "string list \<Rightarrow> (i32 \<rightharpoonup> i32) \<Rightarrow> (i32 \<rightharpoonup> i32)" where
  "parse_id_entries [] out = out"
| "parse_id_entries (entry # entries) out =
     (case split_once (CHR '':'') entry of
        None \<Rightarrow> Map.empty
      | Some (a, b) \<Rightarrow>
          (case (ok (parse_i32 a), ok (parse_i32 b)) of
             (Some k, Some v) \<Rightarrow> parse_id_entries entries (out(k \<mapsto> v))
           | _ \<Rightarrow> Map.empty))"

definition parse_arrow_field_ids :: "string option \<Rightarrow> (i32 \<rightharpoonup> i32)" where
  "parse_arrow_field_ids value =
     (case value of
        None \<Rightarrow> Map.empty
      | Some raw \<Rightarrow> parse_id_entries (filter (\<lambda>s. s \<noteq> []) (split_on (CHR '','') raw)) Map.empty)"

definition View_arrow_field_ids :: "'t view \<Rightarrow> (i32 \<rightharpoonup> i32)" where
  "View_arrow_field_ids v = parse_arrow_field_ids (vm_properties (vw_metadata v) ARROW_FIELD_IDS_PROPERTY)"

lemma show_int_chars: "digit_value c = None \<Longrightarrow> c \<noteq> CHR ''-'' \<Longrightarrow> c \<notin> set (show_int x)"
  by (auto simp: show_int_def dest: digits_not)

lemma show_int_plain: "CHR '':'' \<notin> set (show_int x)" "CHR '','' \<notin> set (show_int x)"
  by (rule show_int_chars; simp add: digit_value_def)+

lemma parse_i32_of_show: "in_i32 x \<Longrightarrow> parse_i32 (show_int x) = Ok x"
  by (simp add: parse_i32_def in_i32_def in_i64_def)

lemma parse_id_entries_map:
  assumes "\<forall>(k, v)\<in>set kvs. in_i32 k \<and> in_i32 v"
  shows "parse_id_entries (map (\<lambda>(k, v). show_int k @ '':'' @ show_int v) kvs) out = out ++ map_of (rev kvs)"
  using assms
proof (induction kvs arbitrary: out)
  case (Cons kv kvs)
  obtain k v where [simp]: "kv = (k, v)" by (cases kv)
  have "split_once (CHR '':'') (show_int k @ CHR '':'' # show_int v) = Some (show_int k, show_int v)"
    by (rule split_once_append) (rule show_int_plain)
  then show ?case
    using Cons by (simp add: parse_i32_of_show map_add_assoc map_of_append [symmetric] del: map_of_append)
      (simp add: fun_eq_iff map_add_def split: option.split)
qed simp

text \<open>
  The field ids of a view are read back from the property that encodes them, for every
  traversal order of the map.
\<close>

theorem arrow_field_ids_roundtrip:
  assumes "traversal order mapping" "\<forall>k v. mapping k = Some v \<longrightarrow> in_i32 k \<and> in_i32 v"
  shows "parse_arrow_field_ids (Some (encode_arrow_field_ids order mapping)) = mapping"
proof -
  define kvs where "kvs = sort_key fst (hm_entries order mapping)"
  define texts where "texts = map (\<lambda>(k, v). show_int k @ '':'' @ show_int v) kvs"
  have es: "hm_entries order mapping = map (\<lambda>k. (k, the (mapping k))) order"
    by (rule hm_entries_traversal [OF assms(1)])
  have set: "set kvs = {(k, v). mapping k = Some v}"
    using assms(1) by (auto simp: kvs_def es traversal_def dom_def)
  have "distinct (map fst kvs)"
  proof -
    have "distinct (map fst (hm_entries order mapping))"
      using assms(1) by (simp add: es traversal_def comp_def)
    then show ?thesis
      by (simp add: kvs_def distinct_map inj_on_def)
  qed
  then have "distinct (map fst (rev kvs))"
    by (simp flip: rev_map)
  then have "map_of (rev kvs) k = Some v \<longleftrightarrow> mapping k = Some v" for k v
    by (simp add: set)
  then have of: "map_of (rev kvs) = mapping"
    by (intro ext) (metis option.exhaust)
  have plain: "CHR '','' \<notin> set t \<and> t \<noteq> []" if "t \<in> set texts" for t
    using that show_int_plain by (auto simp: texts_def)
  have "filter (\<lambda>s. s \<noteq> []) (split_on (CHR '','') (join_with '','' texts)) = texts"
  proof (cases "texts = []")
    case False
    then show ?thesis
      using plain by (simp add: split_join filter_id_conv)
  qed simp
  moreover have "parse_id_entries texts Map.empty = mapping"
    unfolding texts_def using parse_id_entries_map [of kvs Map.empty] assms(2) set of by auto
  ultimately show ?thesis
    by (simp add: parse_arrow_field_ids_def encode_arrow_field_ids_def flip: kvs_def) (simp add: texts_def)
qed

theorem arrow_field_ids_roundtrip_witness:
  "parse_arrow_field_ids (Some (encode_arrow_field_ids [2, 1] [1 \<mapsto> 1, 2 \<mapsto> 3])) = [1 \<mapsto> 1, 2 \<mapsto> 3]"
  by (rule arrow_field_ids_roundtrip) (auto simp: traversal_def in_i32_def split: if_splits)

text \<open>A store that keeps what is put into it, for the examples.\<close>

definition sample_meta_io :: "(tabular_metadata option, string \<rightharpoonup> tabular_metadata option) meta_io" where
  "sample_meta_io = \<lparr>mi_url_path = (\<lambda>s. None), mi_to_json = (\<lambda>m. Ok (Some m)),
     mi_from_json = (\<lambda>b. ok_or (JSONSerde ''json'') b), mi_gzip = Ok, mi_gunzip = Ok, mi_text = (\<lambda>t. None),
     mi_connect = (\<lambda>b. Ok ()), mi_get = (\<lambda>b st p. ok_or CatalogNotFound (st p)),
     mi_put = (\<lambda>b st p x. Ok (st(p \<mapsto> x))), mi_delete = (\<lambda>b st p. Ok (st(p := None))),
     mi_copy_if_not_exists = (\<lambda>b st p q. if st q = None then Ok (st(q := st p)) else Err (CommitConflict q))\<rparr>"

end
