(* ===== verification/View_Transaction.thy ===== *)
theory View_Transaction
  imports Catalog_Api
begin

text \<open>
  Transactions on views (\<open>iceberg-rust/src/view/transaction/\<close>) and on materialized views
  (\<open>iceberg-rust/src/materialized_view/\<close>): the operations, the builders and the commits. The
  catalog is a parameter.
\<close>

section \<open>Operations on a view\<close>

datatype view_tx_operation =
    UpdateRepresentations "view_representation list" struct_type "string option"
  | UpdateViewProperties "(string \<times> string) list"

definition upsert_representation ::
  "view_representation list \<Rightarrow> view_representation \<Rightarrow> view_representation list" where
  "upsert_representation current new =
     (let updated = list_ex (\<lambda>r. dialect r = dialect new) current;
          representations = map (\<lambda>r. if dialect r = dialect new then new else r) current
      in if updated then representations else representations @ [new])"

definition upsert_representations ::
  "view_representation list \<Rightarrow> view_representation list \<Rightarrow> view_representation list" where
  "upsert_representations current new = foldl upsert_representation current new"

text \<open>The clock in microseconds, and the orders in which the hash maps of versions and schemas are traversed.\<close>

record view_env =
  vte_now_us :: i64
  vte_versions :: "i64 list"
  vte_schemas :: "i32 list"

definition next_version_id :: "view_env \<Rightarrow> 't view_metadata \<Rightarrow> i64" where
  "next_version_id env vm =
     wrap64 (case_option 0 (\<lambda>m. m) (iter_max (filter (\<lambda>k. vm_versions vm k \<noteq> None) (vte_versions env))) + 1)"

definition next_schema_id :: "view_env \<Rightarrow> 't view_metadata \<Rightarrow> i32" where
  "next_schema_id env vm =
     wrap32 (case_option 0 (\<lambda>m. m) (iter_max (filter (\<lambda>k. vm_schemas vm k \<noteq> None) (vte_schemas env))) + 1)"

definition schema_changed :: "'t view_metadata \<Rightarrow> string option \<Rightarrow> struct_type \<Rightarrow> bool" where
  "schema_changed vm branch new =
     (case view_current_schema vm branch of Ok s \<Rightarrow> new \<noteq> sch_fields s | _ \<Rightarrow> True)"

definition updated_version ::
  "view_env \<Rightarrow> 't view_metadata \<Rightarrow> i32 \<Rightarrow> view_representation list \<Rightarrow> 't view_version \<Rightarrow> 't view_version" where
  "updated_version env vm schema_id representations version =
     \<lparr>vv_version_id = next_version_id env vm, vv_schema_id = schema_id, vv_timestamp_ms = vte_now_us env,
      vv_summary = \<lparr>vsu_operation = ReplaceView, vsu_engine_name = None, vsu_engine_version = None\<rparr>,
      vv_representations = upsert_representations (vv_representations version) representations,
      vv_default_catalog = vv_default_catalog version, vv_default_namespace = vv_default_namespace version,
      vv_storage_table = vv_storage_table version\<rparr>"

definition execute_update_representations ::
  "view_env \<Rightarrow> 't view_metadata \<Rightarrow> view_representation list \<Rightarrow> struct_type \<Rightarrow> string option
   \<Rightarrow> (view_requirement option \<times> 't view_update list, error) outcome" where
  "execute_update_representations env vm representations columns branch =
     (let changed = schema_changed vm branch columns; version_id = next_version_id env vm
      in rbind (map_err Iceberg (view_current_version vm branch)) (\<lambda>version.
         rbind (if changed then Ok (next_schema_id env vm)
                else rbind (unwrap (ok (view_current_schema vm branch))) (\<lambda>s. Ok (sch_schema_id s))) (\<lambda>schema_id.
         let last_column_id = case_option 0 (\<lambda>m. m) (iter_max (map StructField_max_field_id (st_fields columns)));
             add_schema = (if changed
                           then [ViewAddSchema (Schema_from_struct_type columns schema_id None) (Some last_column_id)]
                           else [])
         in Ok (Some (AssertViewUuid (vm_view_uuid vm)),
                add_schema @
                [AddViewVersion (updated_version env vm schema_id representations version),
                 SetCurrentViewVersion version_id,
                 ViewSetProperties [REF_PREFIX @ ref_or_main branch \<mapsto> show_int version_id]]))))"

definition execute_view_operation ::
  "view_env \<Rightarrow> 't view_metadata \<Rightarrow> view_tx_operation
   \<Rightarrow> (view_requirement option \<times> 't view_update list, error) outcome" where
  "execute_view_operation env vm op =
     (case op of
        UpdateRepresentations representations columns branch \<Rightarrow>
          execute_update_representations env vm representations columns branch
      | UpdateViewProperties entries \<Rightarrow> Ok (None, [ViewSetProperties (hm_from_iter entries)]))"

section \<open>Transactions on a view\<close>

record 't view_transaction =
  vx_view :: "'t view"
  vx_operations :: "view_tx_operation list"
  vx_branch :: "string option"

definition ViewTransaction_new :: "'t view \<Rightarrow> string option \<Rightarrow> 't view_transaction" where
  "ViewTransaction_new v branch = \<lparr>vx_view = v, vx_operations = [], vx_branch = branch\<rparr>"

definition vx_update_representations ::
  "view_representation list \<Rightarrow> struct_type \<Rightarrow> 't view_transaction \<Rightarrow> 't view_transaction" where
  "vx_update_representations representations columns tx =
     tx\<lparr>vx_operations := vx_operations tx @ [UpdateRepresentations representations columns (vx_branch tx)]\<rparr>"

definition vx_update_properties :: "(string \<times> string) list \<Rightarrow> 't view_transaction \<Rightarrow> 't view_transaction" where
  "vx_update_properties entries tx = tx\<lparr>vx_operations := vx_operations tx @ [UpdateViewProperties entries]\<rparr>"

text \<open>
  The loop of the commit: every operation is executed on the metadata of the view as it was when
  the transaction began. Its environment gives each operation its own clock.
\<close>

definition view_commit_step ::
  "(nat \<Rightarrow> view_env) \<Rightarrow> 't view_metadata \<Rightarrow> view_requirement list \<times> 't view_update list
   \<Rightarrow> nat \<times> view_tx_operation \<Rightarrow> (view_requirement list \<times> 't view_update list, error) outcome" where
  "view_commit_step envs vm acc iop =
     rbind (execute_view_operation (envs (fst iop)) vm (snd iop)) (\<lambda>(requirement, update).
     Ok (fst acc @ (case requirement of Some r \<Rightarrow> [r] | None \<Rightarrow> []), snd acc @ update))"

definition view_commit_parts ::
  "(nat \<Rightarrow> view_env) \<Rightarrow> 't view_metadata \<Rightarrow> view_tx_operation list
   \<Rightarrow> (view_requirement list \<times> 't view_update list, error) outcome" where
  "view_commit_parts envs vm operations = try_fold (view_commit_step envs vm) ([], []) (List.enumerate 0 operations)"

definition ViewTransaction_commit ::
  "(nat \<Rightarrow> view_env) \<Rightarrow> ('c \<Rightarrow> 't commit_view \<Rightarrow> ('t view \<times> 'c, error) outcome) \<Rightarrow> 'c \<Rightarrow> 't view_transaction
   \<Rightarrow> ('t view \<times> 'c, error) outcome" where
  "ViewTransaction_commit envs update_view c tx =
     rbind (view_commit_parts envs (vw_metadata (vx_view tx)) (vx_operations tx)) (\<lambda>(requirements, updates).
     update_view c \<lparr>cv_identifier = vw_identifier (vx_view tx), cv_requirements = requirements, cv_updates = updates\<rparr>)"

section \<open>Materialized views\<close>

record mv_transaction =
  mx_view :: materialized_view
  mx_view_operations :: "view_tx_operation list"
  mx_storage_operations :: "table_operation option list"
  mx_branch :: "string option"

definition MvTransaction_new :: "materialized_view \<Rightarrow> string option \<Rightarrow> mv_transaction" where
  "MvTransaction_new v branch =
     \<lparr>mx_view = v, mx_view_operations = [], mx_storage_operations = replicate 6 None, mx_branch = branch\<rparr>"

definition mx_update_representations ::
  "view_representation list \<Rightarrow> struct_type \<Rightarrow> mv_transaction \<Rightarrow> mv_transaction" where
  "mx_update_representations representations columns tx =
     tx\<lparr>mx_view_operations := mx_view_operations tx @ [UpdateRepresentations representations columns (mx_branch tx)]\<rparr>"

definition mx_update_properties :: "(string \<times> string) list \<Rightarrow> mv_transaction \<Rightarrow> mv_transaction" where
  "mx_update_properties entries tx = tx\<lparr>mx_view_operations := mx_view_operations tx @ [UpdateViewProperties entries]\<rparr>"

definition REFRESH_STATE :: string where
  "REFRESH_STATE = ''refresh-state''"

definition set_storage_operation :: "nat \<Rightarrow> table_operation \<Rightarrow> mv_transaction \<Rightarrow> mv_transaction" where
  "set_storage_operation i op tx = tx\<lparr>mx_storage_operations := (mx_storage_operations tx)[i := Some op]\<rparr>"

text \<open>The JSON text of a refresh state is a parameter.\<close>

definition full_refresh ::
  "(refresh_state \<Rightarrow> (string, error) outcome) \<Rightarrow> data_file list \<Rightarrow> refresh_state \<Rightarrow> mv_transaction
   \<Rightarrow> (mv_transaction, error) outcome" where
  "full_refresh to_json files state tx =
     rbind (to_json state) (\<lambda>text.
     Ok (case mx_storage_operations tx ! REPLACE_INDEX of
         Some (OpReplace branch old _) \<Rightarrow>
           set_storage_operation REPLACE_INDEX (OpReplace branch (old @ files) (Some [REFRESH_STATE \<mapsto> text])) tx
       | Some _ \<Rightarrow> tx
       | None \<Rightarrow>
           set_storage_operation REPLACE_INDEX (OpReplace (mx_branch tx) files (Some [REFRESH_STATE \<mapsto> text])) tx))"

definition mx_append ::
  "(refresh_state \<Rightarrow> (string, error) outcome) \<Rightarrow> data_file list \<Rightarrow> refresh_state \<Rightarrow> mv_transaction
   \<Rightarrow> (mv_transaction, error) outcome" where
  "mx_append to_json files state tx =
     rbind (to_json state) (\<lambda>text.
     Ok (case mx_storage_operations tx ! APPEND_INDEX of
         Some (OpAppend branch old deletes _) \<Rightarrow>
           set_storage_operation APPEND_INDEX (OpAppend branch (old @ files) deletes (Some [REFRESH_STATE \<mapsto> text])) tx
       | Some _ \<Rightarrow> tx
       | None \<Rightarrow>
           set_storage_operation APPEND_INDEX (OpAppend (mx_branch tx) files [] (Some [REFRESH_STATE \<mapsto> text])) tx))"

definition mx_delete ::
  "(refresh_state \<Rightarrow> (string, error) outcome) \<Rightarrow> data_file list \<Rightarrow> refresh_state \<Rightarrow> mv_transaction
   \<Rightarrow> (mv_transaction, error) outcome" where
  "mx_delete to_json files state tx =
     rbind (to_json state) (\<lambda>text.
     Ok (case mx_storage_operations tx ! APPEND_INDEX of
         Some (OpAppend branch data old _) \<Rightarrow>
           set_storage_operation APPEND_INDEX (OpAppend branch data (old @ files) (Some [REFRESH_STATE \<mapsto> text])) tx
       | Some _ \<Rightarrow> tx
       | None \<Rightarrow>
           set_storage_operation APPEND_INDEX (OpAppend (mx_branch tx) [] files (Some [REFRESH_STATE \<mapsto> text])) tx))"

text \<open>The refresh state that the snapshot of the storage table names, if it is the one of the version.\<close>

definition StorageTable_refresh_state ::
  "(string \<Rightarrow> (refresh_state, error) outcome) \<Rightarrow> 's table \<Rightarrow> i64 \<Rightarrow> string option \<Rightarrow> (refresh_state option, error) outcome" where
  "StorageTable_refresh_state of_json t version_id branch =
     rbind (map_err Iceberg (current_snapshot (tb_metadata t) branch)) (\<lambda>snapshot.
     rbind (opt_try_map of_json (Option.bind snapshot (\<lambda>s. su_other (sn_summary s) REFRESH_STATE))) (\<lambda>state.
     Ok (case state of
         Some r \<Rightarrow> if version_id = rf_refresh_version_id r then Some r else None
       | None \<Rightarrow> None)))"

text \<open>The operations on the storage table all run on the metadata that was loaded.\<close>

definition storage_step ::
  "('v, 'b, 's) table_io \<Rightarrow> (nat \<Rightarrow> op_env) \<Rightarrow> table_metadata
   \<Rightarrow> (table_requirement list \<times> table_update list) \<times> 's \<Rightarrow> nat \<times> table_operation
   \<Rightarrow> ((table_requirement list \<times> table_update list) \<times> 's, error) outcome" where
  "storage_step io envs tm acc iop =
     rbind (execute io (envs (fst iop)) (snd acc) tm (snd iop)) (\<lambda>((requirement, update), st).
     Ok ((fst (fst acc) @ (case requirement of Some r \<Rightarrow> [r] | None \<Rightarrow> []), snd (fst acc) @ update), st))"

definition is_replace :: "table_operation \<Rightarrow> bool" where
  "is_replace op = (case op of OpReplace _ _ _ \<Rightarrow> True | _ \<Rightarrow> False)"

record ('c, 's) mv_catalog =
  mc_load :: "'c \<Rightarrow> table_identifier \<Rightarrow> ('s tabular, error) outcome"
  mc_update_table :: "'c \<Rightarrow> 's \<Rightarrow> commit_table \<Rightarrow> ('s table \<times> 'c, error) outcome"
  mc_update_materialized_view ::
    "'c \<Rightarrow> table_identifier commit_view \<Rightarrow> (materialized_view \<times> 'c, error) outcome"

text \<open>
  First the commit of the storage table, then the one of the view, then, after a replacement, the
  deletion of the files of the old table.
\<close>

definition MvTransaction_commit ::
  "('v, 'b, 's) table_io \<Rightarrow> (nat \<Rightarrow> op_env) \<Rightarrow> (nat \<Rightarrow> view_env) \<Rightarrow> ('c, 's) mv_catalog
   \<Rightarrow> ('s \<Rightarrow> table_metadata \<Rightarrow> ('s, 'k) scan) \<Rightarrow> 'c \<Rightarrow> mv_transaction \<Rightarrow> (materialized_view \<times> 's \<times> 'c, 'k) scan" where
  "MvTransaction_commit io op_envs view_envs catalog delete_files c tx =
     sbind (sreturn (MaterializedView_storage_table (mc_load catalog c) (mx_view tx))) (\<lambda>storage_table.
     let tm = tb_metadata storage_table; ops = filled_slots (mx_storage_operations tx)
     in sbind (sreturn (try_fold (storage_step io op_envs tm) (([], []), tb_object_store storage_table) ops)) (\<lambda>((requirements, updates), st).
        sbind (sreturn (mc_update_table catalog c st
                 \<lparr>ct_identifier = tb_identifier storage_table, ct_requirements = requirements, ct_updates = updates\<rparr>)) (\<lambda>(new_table, c1).
        sbind (sreturn (view_commit_parts view_envs (vw_metadata (mx_view tx)) (mx_view_operations tx))) (\<lambda>(view_requirements, view_updates).
        sbind (sreturn (mc_update_materialized_view catalog c1
                 \<lparr>cv_identifier = vw_identifier (mx_view tx), cv_requirements = view_requirements, cv_updates = view_updates\<rparr>)) (\<lambda>(new_view, c2).
        sbind (if list_ex (is_replace \<circ> snd) ops then delete_files (tb_object_store new_table) tm
               else sreturn (Ok (tb_object_store new_table))) (\<lambda>st'.
        sreturn (Ok (new_view, st', c2))))))))"

section \<open>Representations by dialect\<close>

definition representation_in :: "string \<Rightarrow> view_representation list \<Rightarrow> view_representation option" where
  "representation_in d rs = find (\<lambda>r. dialect r = d) rs"

lemma find_append: "find P (xs @ ys) = (case find P xs of Some x \<Rightarrow> Some x | None \<Rightarrow> find P ys)"
  by (induction xs) auto

lemma find_replaced:
  "find (\<lambda>r. dialect r = d) (map (\<lambda>r. if dialect r = dialect new then new else r) rs)
   = (if d = dialect new then (if list_ex (\<lambda>r. dialect r = d) rs then Some new else None)
      else find (\<lambda>r. dialect r = d) rs)"
  by (induction rs) auto

lemma find_absent: "\<not> list_ex P rs \<Longrightarrow> find P rs = None"
  by (induction rs) auto

lemma representation_in_upsert:
  "representation_in d (upsert_representation rs new) = (if dialect new = d then Some new else representation_in d rs)"
  by (auto simp: representation_in_def upsert_representation_def find_replaced find_append find_absent Let_def
      split: option.split if_splits)

lemma dialects_upsert:
  "map dialect (upsert_representation rs new)
   = map dialect rs @ (if dialect new \<in> dialect ` set rs then [] else [dialect new])"
proof -
  have "list_ex (\<lambda>r. dialect r = dialect new) rs \<longleftrightarrow> dialect new \<in> dialect ` set rs"
    unfolding list_ex_iff image_iff by metis
  then show ?thesis
    by (simp add: upsert_representation_def Let_def)
qed

text \<open>
  Upserting representations gives every dialect the last of the new representations in it, or
  else the one it had; the dialects that were there stay in their order, before the new ones, and
  none occurs twice if none did.
\<close>

theorem upsert_by_dialect:
  "representation_in d (upsert_representations rs news)
     = (case representation_in d (rev news) of Some r \<Rightarrow> Some r | None \<Rightarrow> representation_in d rs)
   \<and> (\<exists>ds. map dialect (upsert_representations rs news) = map dialect rs @ ds \<and> set ds \<subseteq> dialect ` set news)
   \<and> distinct (map dialect (upsert_representations rs news)) = distinct (map dialect rs)"
proof (induction news rule: rev_induct)
  case Nil
  then show ?case by (simp add: upsert_representations_def representation_in_def)
next
  case (snoc new news)
  let ?rs = "upsert_representations rs news"
  have step: "upsert_representations rs (news @ [new]) = upsert_representation ?rs new"
    by (simp add: upsert_representations_def)
  have 1: "representation_in d (rev (news @ [new])) = (if dialect new = d then Some new else representation_in d (rev news))"
    by (simp add: representation_in_def)
  obtain ds where ds: "map dialect ?rs = map dialect rs @ ds" "set ds \<subseteq> dialect ` set news"
    using snoc.IH by blast
  have 2: "\<exists>ds. map dialect (upsert_representation ?rs new) = map dialect rs @ ds \<and> set ds \<subseteq> dialect ` set (news @ [new])"
    unfolding dialects_upsert ds(1) using ds(2) by auto
  have 3: "distinct (map dialect (upsert_representation ?rs new)) = distinct (map dialect ?rs)"
    unfolding dialects_upsert by auto
  show ?case
    unfolding step 1 representation_in_upsert using snoc.IH 2 3 by simp
qed

section \<open>The effect of an update\<close>

lemma view_set_version:
  "apply_view_updates env vm [AddViewVersion v, SetCurrentViewVersion i, ViewSetProperties ps]
   = Ok (vm\<lparr>vm_versions := (vm_versions vm)(vv_version_id v \<mapsto> v), vm_current_version_id := i,
            vm_properties := vm_properties vm ++ ps\<rparr>)"
  by (simp add: apply_view_updates_def)

lemma apply_view_append:
  "apply_view_updates env vm (us @ vs) = rbind (apply_view_updates env vm us) (\<lambda>vm'. apply_view_updates env vm' vs)"
  by (simp add: apply_view_updates_def try_fold_append)

lemma execute_update_Ok:
  assumes "execute_update_representations env vm rs columns branch = Ok (req, us)"
  obtains version schema_id pre where
    "view_current_version vm branch = Ok version"
    "us = pre @ [AddViewVersion (updated_version env vm schema_id rs version), SetCurrentViewVersion (next_version_id env vm),
       ViewSetProperties [REF_PREFIX @ ref_or_main branch \<mapsto> show_int (next_version_id env vm)]]"
    "schema_changed vm branch columns \<and> schema_id = next_schema_id env vm
       \<and> pre = [ViewAddSchema (Schema_from_struct_type columns schema_id None)
                  (Some (case_option 0 (\<lambda>m. m) (iter_max (map StructField_max_field_id (st_fields columns)))))]
     \<or> (\<exists>s. view_current_schema vm branch = Ok s \<and> sch_fields s = columns \<and> schema_id = sch_schema_id s \<and> pre = [])"
  using assms
  by (auto simp: execute_update_representations_def Let_def schema_changed_def split: if_splits outcome.splits)

lemma iter_max_None: "iter_max xs = None \<longleftrightarrow> xs = []"
  by (cases xs) auto

lemma iter_max_Some: "iter_max xs = Some m \<Longrightarrow> m \<in> set xs \<and> (\<forall>x\<in>set xs. x \<le> m)"
proof (induction xs arbitrary: m)
  case (Cons x xs)
  then show ?case by (cases "iter_max xs") (auto simp: iter_max_None max_def split: if_splits)
qed simp

lemma next_version_id_new:
  assumes "traversal (vte_versions env) (vm_versions vm)" "\<forall>k\<in>dom (vm_versions vm). in_i64 k \<and> k < 2 ^ 63 - 1"
  shows "vm_versions vm (next_version_id env vm) = None" "in_i64 (next_version_id env vm)"
proof -
  have f: "filter (\<lambda>k. vm_versions vm k \<noteq> None) (vte_versions env) = vte_versions env"
    using assms(1) by (auto simp: filter_id_conv traversal_def)
  define m where "m = case_option 0 (\<lambda>m. m) (iter_max (vte_versions env))"
  have m: "in_i64 m" "m < 2 ^ 63 - 1" "\<forall>k\<in>dom (vm_versions vm). k \<le> m"
    using iter_max_Some [of "vte_versions env"] iter_max_None [of "vte_versions env"] assms
    by (auto simp: m_def traversal_def in_i64_def split: option.splits)
  then have id: "next_version_id env vm = m + 1" "in_i64 (m + 1)"
    unfolding next_version_id_def f m_def [symmetric]
    using m(1,2) by (simp_all add: in_i64_def wrap64_id)
  show "vm_versions vm (next_version_id env vm) = None"
  proof (rule ccontr)
    assume "vm_versions vm (next_version_id env vm) \<noteq> None"
    then have "next_version_id env vm \<le> m" using m(3) by auto
    then show False by (simp add: id)
  qed
  show "in_i64 (next_version_id env vm)" using id by simp
qed

text \<open>
  C37. An update of the representations of a view, once applied, keeps every version the view had
  and adds one, with the new representations upserted and a schema of the given columns. Readers
  of the branch see it, and, finding, so do readers without a branch, whatever the branch of the
  update: the current version of the view is always moved.
\<close>

theorem view_update_becomes_current:
  assumes "execute_update_representations env vm rs columns branch = Ok (req, us)"
    and "traversal (vte_versions env) (vm_versions vm)" "\<forall>k\<in>dom (vm_versions vm). in_i64 k \<and> k < 2 ^ 63 - 1"
    and "keyed sch_schema_id (vm_schemas vm)"
  shows "\<exists>vm' old new. apply_view_updates aenv vm us = Ok vm'
     \<and> view_current_version vm branch = Ok old
     \<and> view_current_version vm' (Some (ref_or_main branch)) = Ok new
     \<and> view_current_version vm' None = Ok new
     \<and> vv_representations new = upsert_representations (vv_representations old) rs
     \<and> vv_storage_table new = vv_storage_table old
     \<and> (\<exists>s. view_current_schema vm' None = Ok s \<and> sch_fields s = columns)
     \<and> vm_versions vm \<subseteq>\<^sub>m vm_versions vm'"
proof (rule execute_update_Ok [OF assms(1)])
  fix old schema_id pre
  let ?id = "next_version_id env vm" and ?new = "updated_version env vm schema_id rs old"
  assume old: "view_current_version vm branch = Ok old"
    and us: "us = pre @ [AddViewVersion ?new, SetCurrentViewVersion ?id,
       ViewSetProperties [REF_PREFIX @ ref_or_main branch \<mapsto> show_int ?id]]"
    and pre: "schema_changed vm branch columns \<and> schema_id = next_schema_id env vm
       \<and> pre = [ViewAddSchema (Schema_from_struct_type columns schema_id None)
                  (Some (case_option 0 (\<lambda>m. m) (iter_max (map StructField_max_field_id (st_fields columns)))))]
     \<or> (\<exists>s. view_current_schema vm branch = Ok s \<and> sch_fields s = columns \<and> schema_id = sch_schema_id s \<and> pre = [])"
  have "\<exists>vm1 s. apply_view_updates aenv vm pre = Ok vm1 \<and> vm_versions vm1 = vm_versions vm
      \<and> vm_properties vm1 = vm_properties vm \<and> vm_schemas vm1 schema_id = Some s \<and> sch_fields s = columns"
    using pre assms(4)
    by (auto simp: apply_view_updates_def Schema_from_struct_type_def view_current_schema_def keyed_def)
  then obtain vm1 s where vm1: "apply_view_updates aenv vm pre = Ok vm1" "vm_versions vm1 = vm_versions vm"
      "vm_properties vm1 = vm_properties vm" "vm_schemas vm1 schema_id = Some s" "sch_fields s = columns"
    by blast
  have id: "vm_versions vm ?id = None" "parse_i64 (show_int ?id) = Some ?id"
    using next_version_id_new [OF assms(2,3)] by simp_all
  define vm' where "vm' = vm1\<lparr>vm_versions := (vm_versions vm1)(?id \<mapsto> ?new), vm_current_version_id := ?id,
     vm_properties := vm_properties vm1 ++ [REF_PREFIX @ ref_or_main branch \<mapsto> show_int ?id]\<rparr>"
  have "apply_view_updates aenv vm us = Ok vm'"
    unfolding us apply_view_append vm1(1) by (simp add: view_set_version vm'_def updated_version_def)
  moreover have "view_current_version vm' (Some (ref_or_main branch)) = Ok ?new" "view_current_version vm' None = Ok ?new"
    by (simp_all add: view_current_version_def vm'_def id(2))
  moreover have "view_current_schema vm' None = Ok s"
    using vm1(4) by (simp add: view_current_schema_def view_current_version_def vm'_def updated_version_def)
  moreover have "vm_versions vm \<subseteq>\<^sub>m vm_versions vm'"
    using id(1) by (auto simp: vm'_def vm1(2) map_le_def)
  ultimately show ?thesis
    using old vm1(5) by (intro exI [of _ vm'] exI [of _ old] exI [of _ ?new]) (auto simp: updated_version_def)
qed

text \<open>
  Finding: of two updates of the representations in one transaction, the first one is lost.
  Both are executed on the view as it was when the transaction began; the version that is current
  after the commit has the representations of the old version and of the second update only.
\<close>

theorem second_view_update_overwrites:
  assumes "view_commit_parts envs vm [UpdateRepresentations rs columns branch, UpdateRepresentations rs' columns branch]
       = Ok (requirements, updates)"
    and "apply_view_updates aenv vm updates = Ok vm'"
  shows "\<exists>old new. view_current_version vm branch = Ok old \<and> view_current_version vm' None = Ok new
     \<and> vv_representations new = upsert_representations (vv_representations old) rs'"
proof -
  obtain req1 us1 req2 us2 where e: "execute_update_representations (envs 0) vm rs columns branch = Ok (req1, us1)"
      "execute_update_representations (envs 1) vm rs' columns branch = Ok (req2, us2)" "updates = us1 @ us2"
    using assms(1) by (auto simp: view_commit_parts_def view_commit_step_def execute_view_operation_def)
  show ?thesis
  proof (rule execute_update_Ok [OF e(2)])
    fix old schema_id pre
    let ?id = "next_version_id (envs 1) vm" and ?new = "updated_version (envs 1) vm schema_id rs' old"
    assume old: "view_current_version vm branch = Ok old"
      and us2: "us2 = pre @ [AddViewVersion ?new, SetCurrentViewVersion ?id,
         ViewSetProperties [REF_PREFIX @ ref_or_main branch \<mapsto> show_int ?id]]"
    obtain vm1 where "apply_view_updates aenv vm1 [AddViewVersion ?new, SetCurrentViewVersion ?id,
         ViewSetProperties [REF_PREFIX @ ref_or_main branch \<mapsto> show_int ?id]] = Ok vm'"
      using assms(2) by (auto simp: e(3) us2 apply_view_append append_assoc [symmetric] simp del: append_assoc)
    then have "view_current_version vm' None = Ok ?new"
      by (auto simp: view_set_version view_current_version_def updated_version_def)
    then show ?thesis
      using old by (auto simp: updated_version_def)
  qed
qed


definition sample_view_env :: view_env where
  "sample_view_env = \<lparr>vte_now_us = 9, vte_versions = [1], vte_schemas = [0]\<rparr>"

lemma sample_view_reads:
  "view_current_version sample_view (Some ''dev'') = Ok sample_version"
  "view_current_schema sample_view (Some ''dev'') = Ok (Schema_from_struct_type (StructType_new []) 0 None)"
  "\<not> schema_changed sample_view (Some ''dev'') (StructType_new [])"
  by (simp_all add: schema_changed_def view_current_version_def view_current_schema_def sample_view_def sample_version_def
      REF_PREFIX_def parse_i64_def parse_unsigned_def digit_value_def Schema_from_struct_type_def)

lemma sample_view_update:
  "\<exists>req us. execute_update_representations sample_view_env sample_view rs (StructType_new []) (Some ''dev'') = Ok (req, us)
     \<and> (\<exists>vm'. apply_view_updates sample_env vm us = Ok vm')"
  by (simp add: execute_update_representations_def sample_view_reads Let_def apply_view_updates_def)

theorem view_update_becomes_current_witness:
  "\<exists>req us vm' new. execute_update_representations sample_view_env sample_view [Sql ''SELECT 2'' ''ansi''] (StructType_new [])
       (Some ''dev'') = Ok (req, us)
     \<and> apply_view_updates sample_env sample_view us = Ok vm' \<and> view_current_version vm' None = Ok new
     \<and> vm_versions sample_view \<subseteq>\<^sub>m vm_versions vm'"
proof -
  obtain req us where e: "execute_update_representations sample_view_env sample_view [Sql ''SELECT 2'' ''ansi''] (StructType_new [])
       (Some ''dev'') = Ok (req, us)"
    using sample_view_update by blast
  have "traversal (vte_versions sample_view_env) (vm_versions sample_view)"
    "\<forall>k\<in>dom (vm_versions sample_view). in_i64 k \<and> k < 2 ^ 63 - 1" "keyed sch_schema_id (vm_schemas sample_view)"
    by (simp_all add: sample_view_env_def sample_view_def traversal_def in_i64_def keyed_def Schema_from_struct_type_def)
  from view_update_becomes_current [OF e this, of sample_env] e show ?thesis by blast
qed

theorem second_view_update_overwrites_witness:
  "\<exists>requirements updates vm' new.
     view_commit_parts (\<lambda>_. sample_view_env) sample_view
       [UpdateRepresentations [Sql ''SELECT 2'' ''ansi''] (StructType_new []) (Some ''dev''),
        UpdateRepresentations [Sql ''SELECT 3'' ''trino''] (StructType_new []) (Some ''dev'')] = Ok (requirements, updates)
     \<and> apply_view_updates sample_env sample_view updates = Ok vm' \<and> view_current_version vm' None = Ok new
     \<and> map sql (vv_representations new) = [''SELECT 1'', ''SELECT 3'']"
proof -
  obtain requirements updates vm' where p: "view_commit_parts (\<lambda>_. sample_view_env) sample_view
       [UpdateRepresentations [Sql ''SELECT 2'' ''ansi''] (StructType_new []) (Some ''dev''),
        UpdateRepresentations [Sql ''SELECT 3'' ''trino''] (StructType_new []) (Some ''dev'')] = Ok (requirements, updates)"
      "apply_view_updates sample_env sample_view updates = Ok vm'"
    by (simp add: view_commit_parts_def view_commit_step_def execute_view_operation_def apply_view_updates_def
        execute_update_representations_def sample_view_reads Let_def)
  obtain old new where "view_current_version sample_view (Some ''dev'') = Ok old" "view_current_version vm' None = Ok new"
      "vv_representations new = upsert_representations (vv_representations old) [Sql ''SELECT 3'' ''trino'']"
    using second_view_update_overwrites [OF p] by blast
  then have "map sql (vv_representations new) = [''SELECT 1'', ''SELECT 3'']"
    by (auto simp: sample_view_reads sample_version_def upsert_representations_def upsert_representation_def
        ViewRepresentation_sql_def)
  then show ?thesis
    using p \<open>view_current_version vm' None = Ok new\<close>
    by (intro exI [of _ requirements] exI [of _ updates] exI [of _ vm'] exI [of _ new]) simp
qed

end
