(* ===== verification/Pointer_Store.thy ===== *)
theory Pointer_Store
  imports Errors
begin

text \<open>
  The interface that the catalogs have in common: for every entity a pointer to its current
  metadata, which moves only by a compare-and-swap. The clients' facts are proved here once; the
  catalogs interpret the locale on their own operations.
\<close>

text \<open>An operation on a state, which may fail after it has changed the state.\<close>

type_synonym ('a, 'w) op = "'w \<Rightarrow> ('a, error) outcome \<times> 'w"

definition qlift :: "('a, error) outcome \<Rightarrow> ('a, 'w) op" where
  "qlift r = (\<lambda>s. (r, s))"

definition qbind :: "('a, 'w) op \<Rightarrow> ('a \<Rightarrow> ('b, 'w) op) \<Rightarrow> ('b, 'w) op" where
  "qbind m f = (\<lambda>s. case m s of
     (Ok x, s') \<Rightarrow> f x s' | (Err e, s') \<Rightarrow> (Err e, s') | (Panic p, s') \<Rightarrow> (Panic p, s'))"

lemma qbind_Ok_iff: "qbind m f s = (Ok y, s') \<longleftrightarrow> (\<exists>x s1. m s = (Ok x, s1) \<and> f x s1 = (Ok y, s'))"
  by (auto simp: qbind_def split: prod.splits outcome.splits)

text \<open>
  Operations that leave a part of the state, that leave it when they fail, and that cannot fail.
  An operation that takes effect at one point is a sequence of the first, one of the second, and
  then only the third.
\<close>

definition leaves :: "('w \<Rightarrow> 'x) \<Rightarrow> ('a, 'w) op \<Rightarrow> bool" where
  "leaves g m \<longleftrightarrow> (\<forall>s. g (snd (m s)) = g s)"

definition undoes :: "('w \<Rightarrow> 'x) \<Rightarrow> ('a, 'w) op \<Rightarrow> bool" where
  "undoes g m \<longleftrightarrow> (\<forall>s. (\<exists>x. fst (m s) = Ok x) \<or> g (snd (m s)) = g s)"

definition succeeds :: "('a, 'w) op \<Rightarrow> bool" where
  "succeeds m \<longleftrightarrow> (\<forall>s. \<exists>x. fst (m s) = Ok x)"

lemma leaves_qbind: "leaves g m \<Longrightarrow> (\<And>x. leaves g (f x)) \<Longrightarrow> leaves g (qbind m f)"
  unfolding leaves_def qbind_def by (auto split: prod.splits outcome.splits) (metis snd_conv)+

lemma succeeds_qbind: "succeeds m \<Longrightarrow> (\<And>x. succeeds (f x)) \<Longrightarrow> succeeds (qbind m f)"
  unfolding succeeds_def qbind_def by (auto split: prod.splits outcome.splits) (metis fst_conv outcome.distinct)+

lemma undoes_before: "leaves g m \<Longrightarrow> (\<And>x. undoes g (f x)) \<Longrightarrow> undoes g (qbind m f)"
  unfolding undoes_def leaves_def qbind_def
  by (auto split: prod.splits outcome.splits) (metis fst_conv snd_conv)+

lemma undoes_after: "undoes g m \<Longrightarrow> (\<And>x. succeeds (f x)) \<Longrightarrow> undoes g (qbind m f)"
  unfolding undoes_def succeeds_def qbind_def
  by (auto split: prod.splits outcome.splits) (metis fst_conv snd_conv outcome.distinct)+

lemma undoes_leaves: "leaves g m \<Longrightarrow> undoes g m"
  by (simp add: leaves_def undoes_def)

lemma undoes_failure: "undoes g m \<Longrightarrow> m s = (r, s') \<Longrightarrow> (\<And>x. r \<noteq> Ok x) \<Longrightarrow> g s' = g s"
  by (auto simp: undoes_def dest: spec [of _ s])

text \<open>Attempts to move pointers, those that succeed, and the chain they make for one key.\<close>

fun attempts ::
  "('k \<Rightarrow> 'p \<Rightarrow> 'p \<Rightarrow> 'w \<Rightarrow> 'w option) \<Rightarrow> 'w \<Rightarrow> ('k \<times> 'p \<times> 'p) list \<Rightarrow> 'w \<times> ('k \<times> 'p \<times> 'p) list" where
  "attempts swap w [] = (w, [])"
| "attempts swap w ((k, old, new) # rest) =
     (case swap k old new w of
        None \<Rightarrow> attempts swap w rest
      | Some w' \<Rightarrow> (case attempts swap w' rest of (w'', won) \<Rightarrow> (w'', (k, old, new) # won)))"

fun chain :: "'k \<Rightarrow> 'p option \<Rightarrow> ('k \<times> 'p \<times> 'p) list \<Rightarrow> 'p option \<Rightarrow> bool" where
  "chain k at [] to \<longleftrightarrow> at = to"
| "chain k at ((k', old, new) # rest) to \<longleftrightarrow>
     (if k' = k then at = Some old \<and> chain k (Some new) rest to else chain k at rest to)"

locale pointer_store =
  fixes good :: "'w \<Rightarrow> bool"
    and current :: "'w \<Rightarrow> 'k \<Rightarrow> 'p option"
    and swap :: "'k \<Rightarrow> 'p \<Rightarrow> 'p \<Rightarrow> 'w \<Rightarrow> 'w option"
  assumes swap_good: "good w \<Longrightarrow> swap k old new w = Some w' \<Longrightarrow> good w'"
    and swap_from_current: "good w \<Longrightarrow> swap k old new w = Some w' \<Longrightarrow> current w k = Some old"
    and swap_result: "good w \<Longrightarrow> swap k old new w = Some w' \<Longrightarrow> current w' = (current w)(k := Some new)"
begin

lemma stale_swap_fails: "good w \<Longrightarrow> current w k \<noteq> Some old \<Longrightarrow> swap k old new w = None"
  using swap_from_current by (metis not_None_eq)

text \<open>Of two swaps from the same pointer, the second fails after the first.\<close>

lemma second_swap_fails:
  assumes "good w" "swap k old new w = Some w'" "new \<noteq> old"
  shows "swap k old new' w' = None"
  using stale_swap_fails [OF swap_good [OF assms(1,2)], of k old new'] swap_result [OF assms(1,2)] assms(3)
  by simp

text \<open>The successful attempts on a key form a chain from the first pointer to the last.\<close>

lemma attempts_chain:
  "good w \<Longrightarrow> attempts swap w as = (w', won) \<Longrightarrow> chain k (current w k) won (current w' k) \<and> good w'"
proof (induction as arbitrary: w w' won)
  case (Cons a rest)
  obtain k0 old new where a: "a = (k0, old, new)" by (cases a)
  show ?case
  proof (cases "swap k0 old new w")
    case None
    then show ?thesis using Cons a by simp
  next
    case (Some w1)
    obtain w2 won2 where rest: "attempts swap w1 rest = (w2, won2)" by (cases "attempts swap w1 rest")
    have "chain k (current w1 k) won2 (current w2 k) \<and> good w2"
      using Cons.IH [OF swap_good [OF Cons.prems(1) Some] rest] .
    moreover have "w' = w2" "won = (k0, old, new) # won2"
      using Cons.prems(2) a Some rest by auto
    ultimately show ?thesis
      using swap_result [OF Cons.prems(1) Some] swap_from_current [OF Cons.prems(1) Some] by auto
  qed
qed simp

end

text \<open>
  Runs of a labelled step relation, and the forward simulation of one system by another under an
  invariant: every run of the detailed system is a run of the abstract one, with the same labels.
\<close>

inductive run :: "('w \<Rightarrow> 'e \<Rightarrow> 'w \<Rightarrow> bool) \<Rightarrow> 'w \<Rightarrow> 'e list \<Rightarrow> 'w \<Rightarrow> bool" for step where
  run_none [intro]: "run step w [] w"
| run_step [intro]: "step w e w' \<Longrightarrow> run step w' es w'' \<Longrightarrow> run step w (e # es) w''"

inductive_simps run_Nil [simp]: "run step w [] w'"
inductive_simps run_Cons: "run step w (e # es) w'"

locale simulation =
  fixes ok :: "'w \<Rightarrow> bool"
    and step :: "'w \<Rightarrow> 'e \<Rightarrow> 'w \<Rightarrow> bool"
    and spec :: "'a \<Rightarrow> 'e \<Rightarrow> 'a \<Rightarrow> bool"
    and abs :: "'w \<Rightarrow> 'a"
  assumes step_ok: "ok w \<Longrightarrow> step w e w' \<Longrightarrow> ok w'"
    and step_spec: "ok w \<Longrightarrow> step w e w' \<Longrightarrow> spec (abs w) e (abs w')"
begin

lemma run_ok: "run step w es w' \<Longrightarrow> ok w \<Longrightarrow> ok w'"
  by (induction rule: run.induct) (auto dest: step_ok)

lemma run_spec: "run step w es w' \<Longrightarrow> ok w \<Longrightarrow> run spec (abs w) es (abs w')"
  by (induction rule: run.induct) (auto dest: step_ok step_spec)

end

end
