(* ===== verification/Sql_Catalog.thy ===== *)
theory Sql_Catalog
  imports Catalog_Api Pointer_Store
begin

text \<open>
  The catalog on a SQL database (\<open>catalogs/iceberg-sql-catalog/src/lib.rs\<close>). The three tables
  of the database are lists of rows, with the primary keys the source declares; a statement reads
  or changes them as a whole, and a transaction that fails leaves them as they were. Failures of
  the database itself, and the retries after a deadlock, are not modelled.
\<close>

section \<open>The database\<close>

record table_row =
  row_catalog_name :: string
  row_table_namespace :: string
  row_table_name :: string
  row_metadata_location :: string
  row_previous_metadata_location :: "string option"

record property_row =
  prop_catalog_name :: string
  prop_namespace :: string
  prop_key :: string
  prop_value :: string

record namespace_row =
  nsr_catalog_name :: string
  nsr_namespace :: string
  nsr_legacy_marker :: string

record sql_db =
  db_tables :: "table_row list"
  db_properties :: "property_row list"
  db_namespaces :: "namespace_row list"

type_synonym row_key = "string \<times> string \<times> string"

definition key_of_row :: "table_row \<Rightarrow> row_key" where
  "key_of_row r = (row_catalog_name r, row_table_namespace r, row_table_name r)"

text \<open>The catalog: its name and the builder of its object stores.\<close>

record sql_catalog =
  sc_name :: string
  sc_object_store :: store_builder

definition row_key :: "sql_catalog \<Rightarrow> table_identifier \<Rightarrow> row_key" where
  "row_key cat i = (sc_name cat, Namespace_to_string (id_namespace i), id_name i)"

text \<open>What an operation of one client reads and changes: the database, the object store and its cache.\<close>

record 's sql_state =
  sq_db :: sql_db
  sq_store :: 's
  sq_cache :: "table_identifier \<rightharpoonup> string \<times> tabular_metadata"

type_synonym ('a, 's) sql = "('a, 's sql_state) op"

definition qdb :: "(sql_db \<Rightarrow> 'a) \<Rightarrow> ('a, 's) sql" where
  "qdb f = (\<lambda>s. (Ok (f (sq_db s)), s))"

text \<open>A transaction on the database, and an operation on the object store.\<close>

definition db_transaction :: "(sql_db \<Rightarrow> ('a \<times> sql_db, error) outcome) \<Rightarrow> ('a, 's) sql" where
  "db_transaction tx = (\<lambda>s. case tx (sq_db s) of
     Ok (x, db) \<Rightarrow> (Ok x, s\<lparr>sq_db := db\<rparr>) | Err e \<Rightarrow> (Err e, s) | Panic p \<Rightarrow> (Panic p, s))"

definition on_store :: "('s \<Rightarrow> ('s, error) outcome) \<Rightarrow> (unit, 's) sql" where
  "on_store f = (\<lambda>s. case f (sq_store s) of
     Ok st \<Rightarrow> (Ok (), s\<lparr>sq_store := st\<rparr>) | Err e \<Rightarrow> (Err e, s) | Panic p \<Rightarrow> (Panic p, s))"

definition cache_insert :: "table_identifier \<Rightarrow> string \<times> tabular_metadata \<Rightarrow> (unit, 's) sql" where
  "cache_insert i entry = (\<lambda>s. (Ok (), s\<lparr>sq_cache := (sq_cache s)(i \<mapsto> entry)\<rparr>))"

definition cache_remove :: "table_identifier \<Rightarrow> (unit, 's) sql" where
  "cache_remove i = (\<lambda>s. (Ok (), s\<lparr>sq_cache := (sq_cache s)(i := None)\<rparr>))"

section \<open>Rows of tables\<close>

definition find_row :: "row_key \<Rightarrow> sql_db \<Rightarrow> table_row option" where
  "find_row k db = find (\<lambda>r. key_of_row r = k) (db_tables db)"

definition row_location :: "row_key \<Rightarrow> sql_db \<Rightarrow> string option" where
  "row_location k db = map_option row_metadata_location (find_row k db)"

definition insert_row :: "row_key \<Rightarrow> string \<Rightarrow> sql_db \<Rightarrow> (sql_db, error) outcome" where
  "insert_row k location db =
     (if find_row k db \<noteq> None then Err (External ''UNIQUE constraint failed'')
      else Ok (db\<lparr>db_tables := db_tables db @
        [\<lparr>row_catalog_name = fst k, row_table_namespace = fst (snd k), row_table_name = snd (snd k),
          row_metadata_location = location, row_previous_metadata_location = None\<rparr>]\<rparr>))"

definition insert_tabular_reference :: "sql_catalog \<Rightarrow> table_identifier \<Rightarrow> string \<Rightarrow> (unit, 's) sql" where
  "insert_tabular_reference cat i location =
     db_transaction (\<lambda>db. rbind (insert_row (row_key cat i) location db) (\<lambda>db'. Ok ((), db')))"

definition delete_row :: "row_key \<Rightarrow> sql_db \<Rightarrow> sql_db" where
  "delete_row k db = db\<lparr>db_tables := filter (\<lambda>r. key_of_row r \<noteq> k) (db_tables db)\<rparr>"

definition delete_tabular_reference :: "sql_catalog \<Rightarrow> table_identifier \<Rightarrow> (unit, 's) sql" where
  "delete_tabular_reference cat i = db_transaction (\<lambda>db. Ok ((), delete_row (row_key cat i) db))"

text \<open>The conditional update, and the number of rows it matched.\<close>

definition is_hit :: "row_key \<Rightarrow> string \<Rightarrow> table_row \<Rightarrow> bool" where
  "is_hit k previous r \<longleftrightarrow> key_of_row r = k \<and> row_metadata_location r = previous"

definition moved_row :: "row_key \<Rightarrow> string \<Rightarrow> string \<Rightarrow> table_row \<Rightarrow> table_row" where
  "moved_row k previous new r =
     (if is_hit k previous r
      then r\<lparr>row_metadata_location := new, row_previous_metadata_location := Some previous\<rparr> else r)"

definition swap_row :: "row_key \<Rightarrow> string \<Rightarrow> string \<Rightarrow> sql_db \<Rightarrow> nat \<times> sql_db" where
  "swap_row k previous new db =
     (length (filter (is_hit k previous) (db_tables db)),
      db\<lparr>db_tables := map (moved_row k previous new) (db_tables db)\<rparr>)"

definition swap_metadata_location :: "sql_catalog \<Rightarrow> table_identifier \<Rightarrow> string \<Rightarrow> string \<Rightarrow> (unit, 's) sql" where
  "swap_metadata_location cat i previous new =
     qbind (db_transaction (\<lambda>db. Ok (swap_row (row_key cat i) previous new db))) (\<lambda>rows_affected.
     if rows_affected = 0
     then qbind (cache_remove i) (\<lambda>_. qlift (Err (CommitConflict (Identifier_to_string i))))
     else qlift (Ok ()))"

section \<open>Namespaces\<close>

datatype namespace_state = Current | Legacy | Missing

definition has_namespace_row :: "string \<Rightarrow> string \<Rightarrow> sql_db \<Rightarrow> bool" where
  "has_namespace_row c n db = list_ex (\<lambda>r. nsr_catalog_name r = c \<and> nsr_namespace r = n) (db_namespaces db)"

definition is_property_of :: "string \<Rightarrow> string \<Rightarrow> property_row \<Rightarrow> bool" where
  "is_property_of c n p \<longleftrightarrow> prop_catalog_name p = c \<and> prop_namespace p = n"

definition lock_namespace_for_mutation :: "string \<Rightarrow> string \<Rightarrow> sql_db \<Rightarrow> namespace_state" where
  "lock_namespace_for_mutation c n db =
     (if has_namespace_row c n db then Current
      else if list_ex (is_property_of c n) (db_properties db) then Legacy else Missing)"

definition db_namespace_exists :: "string \<Rightarrow> string \<Rightarrow> sql_db \<Rightarrow> bool" where
  "db_namespace_exists c n db \<longleftrightarrow> has_namespace_row c n db \<or> list_ex (is_property_of c n) (db_properties db)"

definition append_namespace :: "string \<Rightarrow> string \<Rightarrow> string \<Rightarrow> sql_db \<Rightarrow> sql_db" where
  "append_namespace c n marker db =
     db\<lparr>db_namespaces := db_namespaces db @
          [\<lparr>nsr_catalog_name = c, nsr_namespace = n, nsr_legacy_marker = marker\<rparr>]\<rparr>"

definition insert_namespace :: "string \<Rightarrow> string \<Rightarrow> sql_db \<Rightarrow> (sql_db, error) outcome" where
  "insert_namespace c n db =
     (if has_namespace_row c n db then Err (CommitConflict n) else Ok (append_namespace c n ''0'' db))"

text \<open>\<open>on conflict do nothing\<close>.\<close>

definition insert_identity :: "string \<Rightarrow> string \<Rightarrow> string \<Rightarrow> sql_db \<Rightarrow> sql_db" where
  "insert_identity c n marker db = (if has_namespace_row c n db then db else append_namespace c n marker db)"

definition delete_property :: "string \<Rightarrow> string \<Rightarrow> string \<Rightarrow> sql_db \<Rightarrow> sql_db" where
  "delete_property c n key db =
     db\<lparr>db_properties := filter (\<lambda>p. \<not> (is_property_of c n p \<and> prop_key p = key)) (db_properties db)\<rparr>"

definition insert_property :: "string \<Rightarrow> string \<Rightarrow> sql_db \<Rightarrow> string \<times> string \<Rightarrow> (sql_db, error) outcome" where
  "insert_property c n db kv =
     (if list_ex (\<lambda>p. is_property_of c n p \<and> prop_key p = fst kv) (db_properties db)
      then Err (External ''UNIQUE constraint failed'')
      else Ok (db\<lparr>db_properties := db_properties db @
             [\<lparr>prop_catalog_name = c, prop_namespace = n, prop_key = fst kv, prop_value = snd kv\<rparr>]\<rparr>))"

text \<open>\<open>order\<close> is the order in which the hash map of properties is traversed.\<close>

definition create_namespace ::
  "sql_catalog \<Rightarrow> string list \<Rightarrow> namespace \<Rightarrow> (string \<rightharpoonup> string) option \<Rightarrow> (string \<rightharpoonup> string, 's) sql" where
  "create_namespace cat order ns properties =
     (let n = Namespace_to_string ns; props = case_option Map.empty (\<lambda>m. m) properties
      in qbind (qdb (db_namespace_exists (sc_name cat) n)) (\<lambda>exists.
         if exists then qlift (Err (CommitConflict n))
         else db_transaction (\<lambda>db.
           rbind (insert_namespace (sc_name cat) n db) (\<lambda>db1.
           rbind (try_fold (insert_property (sc_name cat) n) db1 (hm_entries order props)) (\<lambda>db2.
           Ok (props, db2))))))"

definition drop_namespace :: "sql_catalog \<Rightarrow> namespace \<Rightarrow> (unit, 's) sql" where
  "drop_namespace cat ns =
     (let c = sc_name cat; n = Namespace_to_string ns
      in db_transaction (\<lambda>db.
        if lock_namespace_for_mutation c n db = Missing then Ok ((), db)
        else Ok ((), db\<lparr>db_properties := filter (\<lambda>p. \<not> is_property_of c n p) (db_properties db),
                       db_namespaces := filter (\<lambda>r. \<not> (nsr_catalog_name r = c \<and> nsr_namespace r = n)) (db_namespaces db)\<rparr>)))"

definition namespace_marker :: "string \<Rightarrow> string \<Rightarrow> sql_db \<Rightarrow> string option" where
  "namespace_marker c n db =
     map_option nsr_legacy_marker (find (\<lambda>r. nsr_catalog_name r = c \<and> nsr_namespace r = n) (db_namespaces db))"

definition db_load_namespace :: "string \<Rightarrow> string \<Rightarrow> sql_db \<Rightarrow> (string \<rightharpoonup> string)" where
  "db_load_namespace c n db =
     hm_from_iter (map (\<lambda>p. (prop_key p, prop_value p))
       (filter (\<lambda>p. is_property_of c n p \<and> \<not> (prop_key p = ''exists'' \<and> namespace_marker c n db \<noteq> Some ''0''))
         (db_properties db)))"

definition load_namespace :: "sql_catalog \<Rightarrow> namespace \<Rightarrow> (string \<rightharpoonup> string, 's) sql" where
  "load_namespace cat ns = qdb (db_load_namespace (sc_name cat) (Namespace_to_string ns))"

text \<open>
  A namespace of an older catalog has only properties; it is given a row first, whose marker says
  whether its property \<open>exists\<close> was the mark of its existence.
\<close>

definition promote_legacy :: "string \<Rightarrow> string \<Rightarrow> sql_db \<Rightarrow> (sql_db, error) outcome" where
  "promote_legacy c n db =
     (case lock_namespace_for_mutation c n db of
        Current \<Rightarrow> Ok db
      | Legacy \<Rightarrow> Ok (insert_identity c n
          (if list_ex (\<lambda>p. is_property_of c n p \<and> prop_key p = ''exists'') (db_properties db) then ''1'' else ''0'') db)
      | Missing \<Rightarrow> Err CatalogNotFound)"

definition set_property :: "string \<Rightarrow> string \<Rightarrow> sql_db \<Rightarrow> string \<times> string \<Rightarrow> (sql_db, error) outcome" where
  "set_property c n db kv = insert_property c n (delete_property c n (fst kv) db) kv"

definition clear_marker :: "string \<Rightarrow> string \<Rightarrow> sql_db \<Rightarrow> sql_db" where
  "clear_marker c n db =
     db\<lparr>db_namespaces := map (\<lambda>r. if nsr_catalog_name r = c \<and> nsr_namespace r = n then r\<lparr>nsr_legacy_marker := ''0''\<rparr> else r)
          (db_namespaces db)\<rparr>"

definition update_namespace_tx ::
  "string \<Rightarrow> string \<Rightarrow> string list \<Rightarrow> (string \<rightharpoonup> string) option \<Rightarrow> string list option \<Rightarrow> sql_db \<Rightarrow> (unit \<times> sql_db, error) outcome" where
  "update_namespace_tx c n order updates removals db =
     (let removed = case_option [] (\<lambda>ks. ks) removals; added = case_option Map.empty (\<lambda>m. m) updates;
          touches_exists = ''exists'' \<in> set removed \<or> added ''exists'' \<noteq> None
      in rbind (promote_legacy c n db) (\<lambda>db1.
         rbind (try_fold (set_property c n) (foldl (\<lambda>d key. delete_property c n key d) db1 removed)
                  (hm_entries order added)) (\<lambda>db2.
         Ok ((), if touches_exists then clear_marker c n db2 else db2))))"

definition update_namespace ::
  "sql_catalog \<Rightarrow> string list \<Rightarrow> namespace \<Rightarrow> (string \<rightharpoonup> string) option \<Rightarrow> string list option \<Rightarrow> (unit, 's) sql" where
  "update_namespace cat order ns updates removals =
     db_transaction (update_namespace_tx (sc_name cat) (Namespace_to_string ns) order updates removals)"

definition namespace_exists :: "sql_catalog \<Rightarrow> namespace \<Rightarrow> (bool, 's) sql" where
  "namespace_exists cat ns = qdb (db_namespace_exists (sc_name cat) (Namespace_to_string ns))"


text \<open>\<open>select .. union select ..\<close> gives every name once; the names are split at the separator.\<close>

definition list_namespaces :: "sql_catalog \<Rightarrow> (namespace list, 's) sql" where
  "list_namespaces cat =
     qbind (qdb (\<lambda>db. remdups
       (map nsr_namespace (filter (\<lambda>r. nsr_catalog_name r = sc_name cat) (db_namespaces db))
        @ map prop_namespace (filter (\<lambda>p. prop_catalog_name p = sc_name cat) (db_properties db))))) (\<lambda>names.
     qlift (map_err (\<lambda>_. External ''decode'')
       (try_map (\<lambda>n. Namespace_try_new (split_on SEPARATOR n)) names)))"

section \<open>Listing and loading\<close>

definition rows_in :: "string \<Rightarrow> string \<Rightarrow> sql_db \<Rightarrow> table_row list" where
  "rows_in c n db = filter (\<lambda>r. row_catalog_name r = c \<and> row_table_namespace r = n) (db_tables db)"

definition list_tabulars :: "(string list \<Rightarrow> string) \<Rightarrow> sql_catalog \<Rightarrow> namespace \<Rightarrow> (table_identifier list, 's) sql" where
  "list_tabulars dbg cat ns =
     qbind (qdb (rows_in (sc_name cat) (Namespace_to_string ns))) (\<lambda>rows.
     qlift (map_err (\<lambda>_. External ''decode'')
       (try_map (\<lambda>r. Identifier_parse dbg (row_table_namespace r @ ''.'' @ row_table_name r) None) rows)))"

definition tabular_exists :: "sql_catalog \<Rightarrow> table_identifier \<Rightarrow> (bool, 's) sql" where
  "tabular_exists cat i = qdb (\<lambda>db. find_row (row_key cat i) db \<noteq> None)"

definition drop_table :: "sql_catalog \<Rightarrow> table_identifier \<Rightarrow> (unit, 's) sql" where
  "drop_table = delete_tabular_reference"

definition drop_view :: "sql_catalog \<Rightarrow> table_identifier \<Rightarrow> (unit, 's) sql" where
  "drop_view = delete_tabular_reference"

definition drop_materialized_view :: "sql_catalog \<Rightarrow> table_identifier \<Rightarrow> (unit, 's) sql" where
  "drop_materialized_view = delete_tabular_reference"

text \<open>\<open>default_object_store\<close> unwraps: a location of another protocol than the builder's panics.\<close>

definition default_object_store :: "('b, 's) meta_io \<Rightarrow> sql_catalog \<Rightarrow> bucket \<Rightarrow> (bucket, error) outcome" where
  "default_object_store io cat bucket = unwrap (ok (builder_build io (sc_object_store cat) bucket))"

definition store_of :: "('b, 's) meta_io \<Rightarrow> sql_catalog \<Rightarrow> string \<Rightarrow> (bucket, error) outcome" where
  "store_of io cat location = rbind (Bucket_from_path location) (default_object_store io cat)"

text \<open>The bytes are read as plain JSON, whatever the name of the file.\<close>

definition read_plain :: "('b, 's) meta_io \<Rightarrow> bucket \<Rightarrow> string \<Rightarrow> 's \<Rightarrow> (tabular_metadata, error) outcome" where
  "read_plain io store path st = rbind (mi_get io store st path) (mi_from_json io)"

definition load_tabular ::
  "('b, 's) meta_io \<Rightarrow> sql_catalog \<Rightarrow> table_identifier \<Rightarrow> ('s tabular, 's) sql" where
  "load_tabular io cat i =
     qbind (qdb (row_location (row_key cat i))) (\<lambda>location.
     qbind (qlift (ok_or CatalogNotFound location)) (\<lambda>path.
     qbind (qlift (store_of io cat path)) (\<lambda>store.
     qbind (\<lambda>s. (read_plain io store (strip_prefix (mi_url_path io) path) (sq_store s), s)) (\<lambda>metadata.
     qbind (cache_insert i (path, metadata)) (\<lambda>_.
     (\<lambda>s. (tabular_of i (sq_store s) metadata, s)))))))"

section \<open>Creating\<close>

text \<open>Write the metadata file and, if possible, the hint.\<close>

definition write_metadata ::
  "('b, 's) meta_io \<Rightarrow> bucket \<Rightarrow> string \<Rightarrow> tabular_metadata \<Rightarrow> (unit, 's) sql" where
  "write_metadata io store location metadata =
     qbind (on_store (\<lambda>st. put_metadata io store st location metadata)) (\<lambda>_.
     on_store (\<lambda>st. try_version_hint io store st location))"

definition create_tabular ::
  "('b, 's) meta_io \<Rightarrow> sql_catalog \<Rightarrow> string \<Rightarrow> table_identifier \<Rightarrow> tabular_metadata \<Rightarrow> (unit, 's) sql" where
  "create_tabular io cat transaction_uuid i metadata =
     qbind (qlift (store_of io cat (tabular_location metadata))) (\<lambda>store.
     let location = tabular_metadata_location transaction_uuid metadata
     in qbind (write_metadata io store location metadata) (\<lambda>_.
        qbind (insert_tabular_reference cat i location) (\<lambda>_.
        cache_insert i (location, metadata))))"

definition create_table ::
  "('b, 's) meta_io \<Rightarrow> create_env \<Rightarrow> string \<Rightarrow> sql_catalog \<Rightarrow> table_identifier \<Rightarrow> create_table \<Rightarrow> ('s table, 's) sql" where
  "create_table io env transaction_uuid cat i c =
     qbind (qlift (TableMetadata_from_create env c)) (\<lambda>metadata.
     qbind (create_tabular io cat transaction_uuid i (TabularTable metadata)) (\<lambda>_.
     (\<lambda>s. (Table_new i (sq_store s) metadata, s))))"

definition create_view ::
  "('b, 's) meta_io \<Rightarrow> create_env \<Rightarrow> string \<Rightarrow> sql_catalog \<Rightarrow> table_identifier \<Rightarrow> unit option create_view
   \<Rightarrow> (unit option view, 's) sql" where
  "create_view io env transaction_uuid cat i c =
     qbind (qlift (ViewMetadata_from_create ''view'' env c)) (\<lambda>metadata.
     qbind (create_tabular io cat transaction_uuid i (TabularView metadata)) (\<lambda>_.
     qlift (View_new i metadata)))"

text \<open>The view and its storage table are inserted in one transaction; only the view is cached.\<close>

definition create_materialized_view ::
  "('b, 's) meta_io \<Rightarrow> create_env \<times> create_env \<Rightarrow> string \<times> string \<Rightarrow> sql_catalog \<Rightarrow> table_identifier
   \<Rightarrow> create_materialized_view \<Rightarrow> (materialized_view, 's) sql" where
  "create_materialized_view io envs uuids cat i c =
     qbind (qlift (ViewMetadata_from_create ''materialized view'' (fst envs) (fst (create_parts c)))) (\<lambda>metadata.
     qbind (qlift (TableMetadata_from_create (snd envs) (snd (create_parts c)))) (\<lambda>table_metadata.
     qbind (qlift (store_of io cat (vm_location metadata))) (\<lambda>store.
     let location = tabular_metadata_location (fst uuids) (TabularMaterializedView metadata);
         table_location = tabular_metadata_location (snd uuids) (TabularTable table_metadata)
     in qbind (qlift (map_err Iceberg (view_current_version metadata None))) (\<lambda>version.
        qbind (write_metadata io store location (TabularMaterializedView metadata)) (\<lambda>_.
        qbind (on_store (\<lambda>st. put_metadata io store st table_location (TabularTable table_metadata))) (\<lambda>_.
        qbind (db_transaction (\<lambda>db.
                 rbind (insert_row (row_key cat i) location db) (\<lambda>db1.
                 rbind (insert_row (row_key cat (vv_storage_table version)) table_location db1) (\<lambda>db2.
                 Ok ((), db2))))) (\<lambda>_.
        qbind (cache_insert i (location, TabularMaterializedView metadata)) (\<lambda>_.
        qlift (View_new i metadata)))))))))"


section \<open>Committing\<close>

text \<open>
  The metadata log: the superseded file is recorded with the time it was written, and the oldest
  entries beyond the configured number are cut off.
\<close>

definition previous_versions_max :: "(string \<rightharpoonup> string) \<Rightarrow> nat" where
  "previous_versions_max properties =
     (case Option.bind (properties ''write.metadata.previous-versions-max'') parse_u64 of Some n \<Rightarrow> n | None \<Rightarrow> 100)"

definition delete_after_commit :: "(string \<rightharpoonup> string) \<Rightarrow> bool" where
  "delete_after_commit properties =
     (case properties ''write.metadata.delete-after-commit.enabled'' of Some v \<Rightarrow> v = ''true'' | None \<Rightarrow> False)"

definition log_previous :: "string \<Rightarrow> i64 \<Rightarrow> table_metadata \<Rightarrow> table_metadata \<times> string list" where
  "log_previous previous_location previous_ms tm =
     (let log = tm_metadata_log tm @ [\<lparr>mlg_metadata_file = previous_location, mlg_timestamp_ms = previous_ms\<rparr>];
          expired = length log - previous_versions_max (tm_properties tm)
      in (tm\<lparr>tm_metadata_log := drop expired log\<rparr>, map mlg_metadata_file (take expired log)))"

text \<open>The new metadata of a commit on a cached entry, with the files that leave the log.\<close>

definition prepare_table ::
  "env \<Rightarrow> string \<times> tabular_metadata \<Rightarrow> commit_table \<Rightarrow> (table_metadata \<times> string list, error) outcome" where
  "prepare_table env entry commit =
     (case snd entry of
        TabularTable metadata \<Rightarrow>
          if \<not> check_table_requirements (ct_requirements commit) metadata
          then Err (InvalidFormat ''Table requirements not valid'')
          else rbind (apply_table_updates env metadata (ct_updates commit)) (\<lambda>new.
               Ok (log_previous (fst entry) (tm_last_updated_ms metadata) new))
      | _ \<Rightarrow> Err (InvalidFormat ''Table update on entity that is not a table''))"

text \<open>A commit on a table that is not in the cache: indexing the requirements may panic.\<close>

definition cached_entry ::
  "table_identifier \<Rightarrow> (string \<times> tabular_metadata, error) outcome \<Rightarrow> (string \<times> tabular_metadata, 's) sql" where
  "cached_entry i missing = (\<lambda>s. case sq_cache s i of Some entry \<Rightarrow> (Ok entry, s) | None \<Rightarrow> (missing, s))"

definition no_entry_for :: "commit_table \<Rightarrow> (string \<times> tabular_metadata, error) outcome" where
  "no_entry_for commit =
     (if ct_requirements commit = [] then Panic ''index out of bounds'' else Err (InvalidFormat ''Create table assertion''))"

definition delete_quietly :: "('b, 's) meta_io \<Rightarrow> bucket \<Rightarrow> string \<Rightarrow> 's \<Rightarrow> 's" where
  "delete_quietly io store path st =
     (case mi_delete io store st (strip_prefix (mi_url_path io) path) of Ok st' \<Rightarrow> st' | _ \<Rightarrow> st)"

definition delete_expired :: "('b, 's) meta_io \<Rightarrow> bucket \<Rightarrow> bool \<Rightarrow> string list \<Rightarrow> (unit, 's) sql" where
  "delete_expired io store enabled paths =
     (if enabled then (\<lambda>s. (Ok (), s\<lparr>sq_store := fold (delete_quietly io store) paths (sq_store s)\<rparr>)) else qlift (Ok ()))"

definition update_table ::
  "('b, 's) meta_io \<Rightarrow> env \<Rightarrow> string \<Rightarrow> sql_catalog \<Rightarrow> commit_table \<Rightarrow> ('s table, 's) sql" where
  "update_table io env transaction_uuid cat commit =
     (let i = ct_identifier commit
      in qbind (cached_entry i (no_entry_for commit)) (\<lambda>entry.
         qbind (qlift (store_of io cat (fst entry))) (\<lambda>store.
         qbind (qlift (prepare_table env entry commit)) (\<lambda>(metadata, expired).
         let location = tabular_metadata_location transaction_uuid (TabularTable metadata)
         in qbind (write_metadata io store location (TabularTable metadata)) (\<lambda>_.
            qbind (swap_metadata_location cat i (fst entry) location) (\<lambda>_.
            qbind (delete_expired io store (delete_after_commit (tm_properties metadata)) expired) (\<lambda>_.
            qbind (cache_insert i (location, TabularTable metadata)) (\<lambda>_.
            (\<lambda>s. (Table_new i (sq_store s) metadata, s))))))))))"

text \<open>
  The updates of the two kinds of view share their steps. \<open>as_view\<close> and \<open>of_view\<close> select the kind,
  and \<open>messages\<close> are the texts of its errors.
\<close>

definition prepare_view ::
  "env \<Rightarrow> (tabular_metadata \<Rightarrow> 't view_metadata option) \<Rightarrow> string \<times> string \<Rightarrow> tabular_metadata \<Rightarrow> 't commit_view
   \<Rightarrow> ('t view_metadata, error) outcome" where
  "prepare_view env as_view messages metadata commit =
     (case as_view metadata of
        None \<Rightarrow> Err (InvalidFormat (fst messages))
      | Some vm \<Rightarrow>
          if \<not> check_view_requirements (cv_requirements commit) vm then Err (InvalidFormat (snd messages))
          else apply_view_updates env vm (cv_updates commit))"

definition update_some_view ::
  "('b, 's) meta_io \<Rightarrow> env \<Rightarrow> string \<Rightarrow> (tabular_metadata \<Rightarrow> 't view_metadata option) \<Rightarrow> ('t view_metadata \<Rightarrow> tabular_metadata)
   \<Rightarrow> string \<times> string \<Rightarrow> sql_catalog \<Rightarrow> 't commit_view \<Rightarrow> ('t view, 's) sql" where
  "update_some_view io env transaction_uuid as_view of_view messages cat commit =
     (let i = cv_identifier commit
      in qbind (cached_entry i (Err (InvalidFormat ''Create table assertion''))) (\<lambda>entry.
         qbind (qlift (store_of io cat (fst entry))) (\<lambda>store.
         qbind (qlift (prepare_view env as_view messages (snd entry) commit)) (\<lambda>metadata.
         let location = tabular_metadata_location transaction_uuid (of_view metadata)
         in qbind (write_metadata io store location (of_view metadata)) (\<lambda>_.
            qbind (swap_metadata_location cat i (fst entry) location) (\<lambda>_.
            qbind (cache_insert i (location, of_view metadata)) (\<lambda>_.
            qlift (View_new i metadata))))))))"

definition as_plain_view :: "tabular_metadata \<Rightarrow> plain_view_metadata option" where
  "as_plain_view m = (case m of TabularView v \<Rightarrow> Some v | _ \<Rightarrow> None)"

definition as_materialized_view :: "tabular_metadata \<Rightarrow> materialized_view_metadata option" where
  "as_materialized_view m = (case m of TabularMaterializedView v \<Rightarrow> Some v | _ \<Rightarrow> None)"

definition VIEW_MESSAGES :: "string \<times> string" where
  "VIEW_MESSAGES = (''View update on entity that is not a view'', ''View requirements not valid'')"

definition MATERIALIZED_VIEW_MESSAGES :: "string \<times> string" where
  "MATERIALIZED_VIEW_MESSAGES =
     (''Materialized view update on entity that is not a materialized view'', ''Materialized view requirements not valid'')"

definition update_view ::
  "('b, 's) meta_io \<Rightarrow> env \<Rightarrow> string \<Rightarrow> sql_catalog \<Rightarrow> unit option commit_view \<Rightarrow> (unit option view, 's) sql" where
  "update_view io env transaction_uuid =
     update_some_view io env transaction_uuid as_plain_view TabularView
       VIEW_MESSAGES"

definition update_materialized_view ::
  "('b, 's) meta_io \<Rightarrow> env \<Rightarrow> string \<Rightarrow> sql_catalog \<Rightarrow> table_identifier commit_view \<Rightarrow> (materialized_view, 's) sql" where
  "update_materialized_view io env transaction_uuid =
     update_some_view io env transaction_uuid as_materialized_view TabularMaterializedView
       MATERIALIZED_VIEW_MESSAGES"

text \<open>\<open>register_table\<close> reads the location as the path, without stripping its prefix.\<close>

definition register_table ::
  "('b, 's) meta_io \<Rightarrow> sql_catalog \<Rightarrow> table_identifier \<Rightarrow> string \<Rightarrow> ('s table, 's) sql" where
  "register_table io cat i location =
     qbind (qlift (store_of io cat location)) (\<lambda>store.
     qbind (\<lambda>s. (read_plain io store location (sq_store s), s)) (\<lambda>m.
     qbind (qlift (case m of TabularTable t \<Rightarrow> Ok t | _ \<Rightarrow> Err (JSONSerde ''table metadata''))) (\<lambda>metadata.
     qbind (insert_tabular_reference cat i location) (\<lambda>_.
     qbind (cache_insert i (location, TabularTable metadata)) (\<lambda>_.
     (\<lambda>s. (Table_new i (sq_store s) metadata, s)))))))"

section \<open>Catalog lists\<close>

definition duplicate :: "sql_catalog \<Rightarrow> string \<Rightarrow> sql_catalog" where
  "duplicate cat name = cat\<lparr>sc_name := name\<rparr>"

definition catalog_of_list :: "store_builder \<Rightarrow> string \<Rightarrow> sql_catalog option" where
  "catalog_of_list builder name = Some \<lparr>sc_name = name, sc_object_store = builder\<rparr>"

definition list_catalogs :: "sql_db \<Rightarrow> string list" where
  "list_catalogs db = remdups (map row_catalog_name (db_tables db))"

section \<open>The rows as pointers\<close>

text \<open>The primary key of the table rows.\<close>

definition rows_keyed :: "sql_db \<Rightarrow> bool" where
  "rows_keyed db \<longleftrightarrow> distinct (map key_of_row (db_tables db))"

definition sql_swap :: "row_key \<Rightarrow> string \<Rightarrow> string \<Rightarrow> sql_db \<Rightarrow> sql_db option" where
  "sql_swap k old new db = (case swap_row k old new db of (n, db') \<Rightarrow> if n = 0 then None else Some db')"

lemma key_of_moved_row [simp]: "key_of_row (moved_row k old new r) = key_of_row r"
  by (simp add: key_of_row_def moved_row_def)

lemma rows_keyed_find:
  assumes "distinct (map key_of_row rs)" "r \<in> set rs"
  shows "find (\<lambda>r'. key_of_row r' = key_of_row r) rs = Some r"
  using assms by (induction rs) auto

lemma find_key_Some: "find (\<lambda>r. key_of_row r = k) rs = Some r \<Longrightarrow> key_of_row r = k \<and> r \<in> set rs"
  by (induction rs) (auto split: if_splits)

lemma find_map_key:
  assumes "\<And>r. key_of_row (f r) = key_of_row r"
  shows "find (\<lambda>r. key_of_row r = k) (map f rs) = map_option f (find (\<lambda>r. key_of_row r = k) rs)"
  by (induction rs) (auto simp: assms)

lemma row_location_iff:
  assumes "rows_keyed db"
  shows "row_location k db = Some l \<longleftrightarrow> (\<exists>r\<in>set (db_tables db). key_of_row r = k \<and> row_metadata_location r = l)"
proof
  assume "row_location k db = Some l"
  then show "\<exists>r\<in>set (db_tables db). key_of_row r = k \<and> row_metadata_location r = l"
    using find_key_Some [of k "db_tables db"] by (auto simp: row_location_def find_row_def)
next
  assume "\<exists>r\<in>set (db_tables db). key_of_row r = k \<and> row_metadata_location r = l"
  then obtain r where "r \<in> set (db_tables db)" "key_of_row r = k" "row_metadata_location r = l" by blast
  then show "row_location k db = Some l"
    using rows_keyed_find [of "db_tables db" r] assms by (simp add: row_location_def find_row_def rows_keyed_def)
qed

lemma key_of_moved_rows [simp]: "key_of_row \<circ> moved_row k old new = key_of_row"
  by (simp add: fun_eq_iff)

lemma swap_row_keyed: "rows_keyed (snd (swap_row k old new db)) = rows_keyed db"
  by (simp add: rows_keyed_def swap_row_def)

lemma swap_row_hits:
  assumes "rows_keyed db"
  shows "fst (swap_row k old new db) \<noteq> 0 \<longleftrightarrow> row_location k db = Some old"
  using row_location_iff [OF assms, of k old] by (auto simp: swap_row_def filter_empty_conv is_hit_def)

lemma swap_row_location:
  assumes "row_location k db = Some old"
  shows "row_location k' (snd (swap_row k old new db)) = (if k' = k then Some new else row_location k' db)"
proof -
  have "find_row k' (snd (swap_row k old new db)) = map_option (moved_row k old new) (find_row k' db)"
    by (simp add: find_row_def swap_row_def find_map_key)
  moreover have "key_of_row r = k' \<and> row_location k' db = Some (row_metadata_location r)"
    if "find_row k' db = Some r" for r
    using that find_key_Some [of k' "db_tables db" r] by (simp add: row_location_def find_row_def)
  ultimately show ?thesis
    using assms by (cases "find_row k' db") (auto simp: row_location_def moved_row_def is_hit_def)
qed

interpretation sql_pointers: pointer_store rows_keyed "\<lambda>db k. row_location k db" sql_swap
proof unfold_locales
  fix db db' k old new
  assume "rows_keyed db" "sql_swap k old new db = Some db'"
  then have "row_location k db = Some old" "db' = snd (swap_row k old new db)"
    using swap_row_hits [of db k old new] by (auto simp: sql_swap_def split: prod.splits if_splits)
  then show "rows_keyed db'" "row_location k db = Some old"
    "(\<lambda>k. row_location k db') = (\<lambda>k. row_location k db)(k := Some new)"
    using \<open>rows_keyed db\<close> swap_row_keyed swap_row_location by (auto simp: fun_eq_iff)
qed

text \<open>
  The conditional updates of the SQL catalog are serial. Whatever updates of metadata locations
  are attempted on a database whose rows have distinct keys, in whatever order, those that change
  a row of one table form a chain: the first replaces the location the table had, every later one
  replaces the location its predecessor wrote, and the last is the location the table has.
\<close>

theorem sql_swaps_are_serial:
  assumes "rows_keyed db" and "attempts sql_swap db commits = (db', won)"
  shows "chain k (row_location k db) won (row_location k db') \<and> rows_keyed db'"
  by (rule sql_pointers.attempts_chain [OF assms])

definition two_writers :: "row_key \<Rightarrow> (row_key \<times> string \<times> string) list" where
  "two_writers k = [(k, ''v0'', ''v1''), (k, ''v0'', ''v1b''), (k, ''v1'', ''v2'')]"

definition one_table_db :: sql_db where
  "one_table_db = \<lparr>db_tables = [\<lparr>row_catalog_name = ''c'', row_table_namespace = ''n'', row_table_name = ''t'',
     row_metadata_location = ''v0'', row_previous_metadata_location = None\<rparr>], db_properties = [], db_namespaces = []\<rparr>"

lemma two_writers_run:
  "snd (attempts sql_swap one_table_db (two_writers (''c'', ''n'', ''t''))) =
     [((''c'', ''n'', ''t''), ''v0'', ''v1''), ((''c'', ''n'', ''t''), ''v1'', ''v2'')]"
  by (simp add: two_writers_def one_table_db_def sql_swap_def swap_row_def moved_row_def is_hit_def key_of_row_def)

theorem sql_swaps_are_serial_witness:
  "\<exists>db'. chain (''c'', ''n'', ''t'') (Some ''v0'')
     [((''c'', ''n'', ''t''), ''v0'', ''v1''), ((''c'', ''n'', ''t''), ''v1'', ''v2'')]
     (row_location (''c'', ''n'', ''t'') db')"
proof -
  have "rows_keyed one_table_db" "row_location (''c'', ''n'', ''t'') one_table_db = Some ''v0''"
    by (simp_all add: rows_keyed_def one_table_db_def row_location_def find_row_def key_of_row_def)
  then show ?thesis
    using sql_swaps_are_serial [of one_table_db "two_writers (''c'', ''n'', ''t'')" _ _ "(''c'', ''n'', ''t'')"]
      two_writers_run by (metis prod.collapse)
qed

section \<open>A commit as a whole\<close>

named_theorems sql_rules

lemma leaves_db_ops [sql_rules]:
  "leaves sq_db (qlift r)" "leaves sq_db (qdb f)" "leaves sq_db (on_store g)" "leaves sq_db (cache_insert i e)"
  "leaves sq_db (cache_remove i)" "leaves sq_db (cached_entry i missing)" "leaves sq_db (delete_expired io store b ps)"
  by (auto simp: leaves_def qlift_def qdb_def on_store_def cache_insert_def cache_remove_def cached_entry_def
      delete_expired_def split: outcome.splits option.splits)

lemma succeeds_ops [sql_rules]:
  "succeeds (qlift (Ok x))" "succeeds (cache_insert i e)" "succeeds (delete_expired io store b ps)"
  "succeeds (\<lambda>s. (Ok (h s), s))"
  by (auto simp: succeeds_def qlift_def cache_insert_def delete_expired_def)

lemma swap_row_miss: "swap_row k old new db = (0, db') \<Longrightarrow> db' = db"
proof -
  assume miss: "swap_row k old new db = (0, db')"
  then have "map (moved_row k old new) (db_tables db) = db_tables db"
    by (auto simp: swap_row_def filter_empty_conv moved_row_def intro!: map_idI)
  then show "db' = db" using miss by (simp add: swap_row_def)
qed

lemma undoes_swap [sql_rules]: "undoes sq_db (swap_metadata_location cat i old new)"
  by (auto simp: undoes_def swap_metadata_location_def qbind_def db_transaction_def cache_remove_def
      qlift_def dest: swap_row_miss split: prod.splits outcome.splits)

lemma leaves_db_write [sql_rules]: "leaves sq_db (write_metadata io store location metadata)"
  unfolding write_metadata_def by (intro leaves_qbind sql_rules)

lemma undoes_update_table: "undoes sq_db (update_table io env uuid cat commit)"
  unfolding update_table_def Let_def split_def Table_new_def
  by ((rule undoes_before, rule sql_rules) | (rule undoes_after, rule sql_rules) | rule succeeds_qbind sql_rules)+

lemma undoes_update_some_view: "undoes sq_db (update_some_view io env uuid as_view of_view messages cat commit)"
  unfolding update_some_view_def Let_def View_new_def
  by ((rule undoes_before, rule sql_rules) | (rule undoes_after, rule sql_rules) | rule succeeds_qbind sql_rules)+

text \<open>A successful swap found the location it was told and put the new one in its place.\<close>

lemma swap_metadata_location_Ok:
  assumes "rows_keyed (sq_db s)" "swap_metadata_location cat i old new s = (Ok u, s')"
  shows "row_location (row_key cat i) (sq_db s) = Some old"
    and "(\<lambda>k. row_location k (sq_db s')) = (\<lambda>k. row_location k (sq_db s))(row_key cat i \<mapsto> new)"
    and "sq_cache s' = sq_cache s"
proof -
  have "sql_swap (row_key cat i) old new (sq_db s) = Some (sq_db s') \<and> sq_cache s' = sq_cache s"
    using assms(2)
    by (auto simp: swap_metadata_location_def qbind_def db_transaction_def qlift_def sql_swap_def
        cache_remove_def split: prod.splits if_splits)
  then show "row_location (row_key cat i) (sq_db s) = Some old"
    "(\<lambda>k. row_location k (sq_db s')) = (\<lambda>k. row_location k (sq_db s))(row_key cat i \<mapsto> new)"
    "sq_cache s' = sq_cache s"
    using sql_pointers.swap_from_current sql_pointers.swap_result assms(1) by blast+
qed

lemma write_metadata_Ok:
  assumes "write_metadata io store location metadata s = (Ok u, s')"
  shows "sq_db s' = sq_db s" "sq_cache s' = sq_cache s"
  using assms by (auto simp: write_metadata_def qbind_Ok_iff on_store_def split: outcome.splits)

lemma delete_expired_Ok:
  assumes "delete_expired io store b paths s = (Ok u, s')"
  shows "sq_db s' = sq_db s" "sq_cache s' = sq_cache s"
  using assms by (auto simp: delete_expired_def qlift_def split: if_splits)

text \<open>
  C7. A table commit through the SQL catalog changes the database entirely or not at all. If it
  succeeds, its metadata was prepared from the cached entry, whose location was still the location
  in the table's row; exactly that row now has the new location, and the cache has the new entry.
  If it fails or panics anywhere, the database is as it was.
\<close>

theorem update_table_is_all_or_nothing:
  assumes "rows_keyed (sq_db s)" and "update_table io env uuid cat commit s = (r, s')"
  shows "case r of
      Ok t \<Rightarrow> \<exists>entry metadata expired.
        sq_cache s (ct_identifier commit) = Some entry \<and> prepare_table env entry commit = Ok (metadata, expired) \<and>
        row_location (row_key cat (ct_identifier commit)) (sq_db s) = Some (fst entry) \<and>
        (\<lambda>k. row_location k (sq_db s')) = (\<lambda>k. row_location k (sq_db s))
          (row_key cat (ct_identifier commit) \<mapsto> tabular_metadata_location uuid (TabularTable metadata)) \<and>
        sq_cache s' = (sq_cache s)
          (ct_identifier commit \<mapsto> (tabular_metadata_location uuid (TabularTable metadata), TabularTable metadata))
    | _ \<Rightarrow> sq_db s' = sq_db s"
proof (cases r)
  case (Ok t)
  let ?i = "ct_identifier commit"
  from assms(2) Ok obtain entry store metadata expired s1 s2 s3 u v w where
    entry: "sq_cache s ?i = Some entry" and prepared: "prepare_table env entry commit = Ok (metadata, expired)"
    and wrote: "write_metadata io store (tabular_metadata_location uuid (TabularTable metadata)) (TabularTable metadata) s = (Ok u, s1)"
    and swap: "swap_metadata_location cat ?i (fst entry) (tabular_metadata_location uuid (TabularTable metadata)) s1 = (Ok v, s2)"
    and expire: "delete_expired io store (delete_after_commit (tm_properties metadata)) expired s2 = (Ok w, s3)"
    and s': "s' = s3\<lparr>sq_cache := (sq_cache s3)(?i \<mapsto> (tabular_metadata_location uuid (TabularTable metadata), TabularTable metadata))\<rparr>"
    unfolding update_table_def Let_def qbind_Ok_iff
    by (auto simp: cached_entry_def no_entry_for_def qlift_def cache_insert_def qbind_Ok_iff split: option.splits if_splits)
  note w = write_metadata_Ok [OF wrote] and e = delete_expired_Ok [OF expire]
  have "rows_keyed (sq_db s1)" using assms(1) w(1) by simp
  note sw = swap_metadata_location_Ok [OF this swap]
  show ?thesis using entry prepared sw s' by (simp add: Ok w e)
next
  case (Err x)
  then show ?thesis using undoes_failure [OF undoes_update_table assms(2)] by simp
next
  case (Panic x)
  then show ?thesis using undoes_failure [OF undoes_update_table assms(2)] by simp
qed

text \<open>A commit of one table on a store that keeps what is put into it.\<close>

definition sample_catalog :: sql_catalog where
  "sample_catalog = \<lparr>sc_name = ''c'', sc_object_store = MemoryBuilder\<rparr>"

definition sample_identifier :: table_identifier where
  "sample_identifier = \<lparr>id_namespace = [''n''], id_name = ''t''\<rparr>"

lemma sample_key: "row_key sample_catalog sample_identifier = (''c'', ''n'', ''t'')"
  by (simp add: row_key_def sample_catalog_def sample_identifier_def Namespace_to_string_def)

lemma sample_writes:
  "\<exists>s'. write_metadata sample_meta_io store location metadata s = (Ok (), s') \<and> sq_db s' = sq_db s \<and> sq_cache s' = sq_cache s"
  by (auto simp: write_metadata_def qbind_def on_store_def put_metadata_def serialize_metadata_def try_version_hint_def
      put_version_hint_def sample_meta_io_def ok_or_def split: outcome.splits option.splits)

definition sample_commit :: commit_table where
  "sample_commit = \<lparr>ct_identifier = sample_identifier, ct_requirements = [],
     ct_updates = [SetProperties [''k'' \<mapsto> ''x'']]\<rparr>"

definition sample_sql_state :: "(string \<rightharpoonup> tabular_metadata option) sql_state" where
  "sample_sql_state = \<lparr>sq_db = one_table_db, sq_store = Map.empty,
     sq_cache = [sample_identifier \<mapsto> (''v0'', TabularTable (sample_table V3))]\<rparr>"

lemma sample_swap:
  assumes "sq_db s = one_table_db"
  shows "\<exists>s'. swap_metadata_location sample_catalog sample_identifier ''v0'' new s = (Ok (), s') \<and> sq_cache s' = sq_cache s"
  using assms by (simp add: swap_metadata_location_def qbind_def db_transaction_def swap_row_def is_hit_def
      one_table_db_def sample_key key_of_row_def qlift_def)

lemma sample_store: "store_of sample_meta_io sample_catalog ''v0'' = Ok LocalStore"
  by (simp add: store_of_def Bucket_from_path_def starts_with_any_def default_object_store_def builder_build_def
      sample_catalog_def starts_with_def)

lemma sample_prepared: "\<exists>r. prepare_table sample_env (''v0'', TabularTable (sample_table V3)) sample_commit = Ok r"
  by (simp add: sample_commit_def prepare_table_def check_table_requirements_def
      apply_table_updates_def apply_init_def log_previous_def Let_def)

theorem update_table_is_all_or_nothing_witness:
  "\<exists>t s' metadata. update_table sample_meta_io sample_env ''u'' sample_catalog sample_commit sample_sql_state = (Ok t, s') \<and>
     row_location (''c'', ''n'', ''t'') (sq_db s') = Some (tabular_metadata_location ''u'' (TabularTable metadata))"
proof -
  obtain metadata expired where prepared:
    "prepare_table sample_env (''v0'', TabularTable (sample_table V3)) sample_commit = Ok (metadata, expired)"
    using sample_prepared by fastforce
  let ?l = "tabular_metadata_location ''u'' (TabularTable metadata)"
  obtain s1 where s1: "write_metadata sample_meta_io LocalStore ?l (TabularTable metadata) sample_sql_state = (Ok (), s1)"
    "sq_db s1 = one_table_db" using sample_writes by (metis sample_sql_state_def sql_state.select_convs(1))
  obtain s2 where s2: "swap_metadata_location sample_catalog sample_identifier ''v0'' ?l s1 = (Ok (), s2)"
    using sample_swap [OF s1(2)] by blast
  have "\<exists>t s'. update_table sample_meta_io sample_env ''u'' sample_catalog sample_commit sample_sql_state = (Ok t, s')"
    using prepared s1(1) s2
    by (simp add: update_table_def Let_def qbind_def cached_entry_def sample_sql_state_def sample_commit_def
        sample_store qlift_def delete_expired_def cache_insert_def Table_new_def)
  then obtain t s' where run: "update_table sample_meta_io sample_env ''u'' sample_catalog sample_commit sample_sql_state = (Ok t, s')"
    by blast
  have "rows_keyed (sq_db sample_sql_state)" by (simp add: sample_sql_state_def rows_keyed_def one_table_db_def)
  from update_table_is_all_or_nothing [OF this run] show ?thesis
    using run by (auto simp: sample_commit_def sample_key dest!: fun_cong [where x = "(''c'', ''n'', ''t'')"])
qed

end
