(* ===== verification/Sql_Concurrency.thy ===== *)
theory Sql_Concurrency
  imports Sql_Catalog
begin

text \<open>
  Concurrent clients of the SQL catalog. Each operation of \<^theory_text>\<open>Sql_Catalog\<close> is cut at the
  points where the source awaits: a load of an entry into a cache, the preparation of a commit on a
  cached entry (its metadata is computed and its file written), and the conditional update of the
  row with its effect on the cache. Other clients may take any steps in between.
\<close>

section \<open>The detailed system\<close>

datatype change =
  TableChange env commit_table
| ViewChange env "unit option commit_view"
| MaterializedViewChange env "table_identifier commit_view"

fun change_identifier :: "change \<Rightarrow> table_identifier" where
  "change_identifier (TableChange e c) = ct_identifier c"
| "change_identifier (ViewChange e c) = cv_identifier c"
| "change_identifier (MaterializedViewChange e c) = cv_identifier c"

definition ok_metadata :: "('a \<Rightarrow> tabular_metadata) \<Rightarrow> ('a, error) outcome \<Rightarrow> tabular_metadata option" where
  "ok_metadata f r = (case r of Ok x \<Rightarrow> Some (f x) | _ \<Rightarrow> None)"

text \<open>The metadata that a commit computes from the entry it found in the cache.\<close>

fun prepare_change :: "change \<Rightarrow> string \<times> tabular_metadata \<Rightarrow> tabular_metadata option" where
  "prepare_change (TableChange e c) entry = ok_metadata (TabularTable \<circ> fst) (prepare_table e entry c)"
| "prepare_change (ViewChange e c) entry =
     ok_metadata TabularView (prepare_view e as_plain_view VIEW_MESSAGES (snd entry) c)"
| "prepare_change (MaterializedViewChange e c) entry =
     ok_metadata TabularMaterializedView (prepare_view e as_materialized_view MATERIALIZED_VIEW_MESSAGES (snd entry) c)"

record pending =
  pe_client :: nat
  pe_change :: change
  pe_base :: "string \<times> tabular_metadata"
  pe_location :: string
  pe_metadata :: tabular_metadata

text \<open>
  The database, what has been written at every location, the cache of every client, and the
  commits between their preparation and their update.
\<close>

record sql_world =
  wd_db :: sql_db
  wd_files :: "string \<rightharpoonup> tabular_metadata"
  wd_cache :: "nat \<Rightarrow> table_identifier \<rightharpoonup> string \<times> tabular_metadata"
  wd_pending :: "nat \<rightharpoonup> pending"

datatype sql_event =
  Loaded nat table_identifier string
| Prepared nat nat change string
| Committed nat change string
| Conflicted nat change string
| Abandoned nat
| Created nat "(table_identifier \<times> string \<times> tabular_metadata) list"
| Registered table_identifier string
| Dropped table_identifier

definition set_cache :: "nat \<Rightarrow> table_identifier \<Rightarrow> (string \<times> tabular_metadata) option \<Rightarrow> sql_world \<Rightarrow> sql_world" where
  "set_cache c i entry w = w\<lparr>wd_cache := (wd_cache w)(c := (wd_cache w c)(i := entry))\<rparr>"

definition settle :: "nat \<Rightarrow> sql_world \<Rightarrow> sql_world" where
  "settle t w = w\<lparr>wd_pending := (wd_pending w)(t := None)\<rparr>"

definition pending_key :: "sql_catalog \<Rightarrow> pending \<Rightarrow> row_key" where
  "pending_key cat p = row_key cat (change_identifier (pe_change p))"

definition swap_pending :: "sql_catalog \<Rightarrow> pending \<Rightarrow> sql_db \<Rightarrow> sql_db option" where
  "swap_pending cat p = sql_swap (pending_key cat p) (fst (pe_base p)) (pe_location p)"

definition insert_entries ::
  "sql_catalog \<Rightarrow> (table_identifier \<times> string \<times> tabular_metadata) list \<Rightarrow> sql_db \<Rightarrow> (sql_db, error) outcome" where
  "insert_entries cat es db = try_fold (\<lambda>d e. insert_row (row_key cat (fst e)) (fst (snd e)) d) db es"

inductive sql_step :: "sql_catalog \<Rightarrow> sql_world \<Rightarrow> sql_event \<Rightarrow> sql_world \<Rightarrow> bool" for cat where
  load: "wd_files w l = Some m \<Longrightarrow> sql_step cat w (Loaded c i l) (set_cache c i (Some (l, m)) w)"
| prepare: "wd_pending w t = None \<Longrightarrow> wd_cache w c (change_identifier ch) = Some base \<Longrightarrow>
    prepare_change ch base = Some m \<Longrightarrow> wd_files w l = None \<Longrightarrow>
    sql_step cat w (Prepared t c ch l)
      (w\<lparr>wd_files := (wd_files w)(l \<mapsto> m),
         wd_pending := (wd_pending w)(t \<mapsto> \<lparr>pe_client = c, pe_change = ch, pe_base = base, pe_location = l, pe_metadata = m\<rparr>)\<rparr>)"
| commit: "wd_pending w t = Some p \<Longrightarrow> swap_pending cat p (wd_db w) = Some db \<Longrightarrow>
    sql_step cat w (Committed t (pe_change p) (pe_location p))
      (set_cache (pe_client p) (change_identifier (pe_change p)) (Some (pe_location p, pe_metadata p)) (settle t (w\<lparr>wd_db := db\<rparr>)))"
| conflict: "wd_pending w t = Some p \<Longrightarrow> swap_pending cat p (wd_db w) = None \<Longrightarrow>
    sql_step cat w (Conflicted t (pe_change p) (fst (pe_base p)))
      (set_cache (pe_client p) (change_identifier (pe_change p)) None (settle t w))"
| abandon: "sql_step cat w (Abandoned t) (settle t w)"
| create: "insert_entries cat es (wd_db w) = Ok db \<Longrightarrow> distinct (map (fst \<circ> snd) es) \<Longrightarrow>
    \<forall>e\<in>set es. wd_files w (fst (snd e)) = None \<Longrightarrow> es \<noteq> [] \<Longrightarrow>
    sql_step cat w (Created c es)
      (set_cache c (fst (hd es)) (Some (snd (hd es)))
        (w\<lparr>wd_db := db, wd_files := wd_files w ++ map_of (map snd es)\<rparr>))"
| register: "wd_files w l = Some (TabularTable m) \<Longrightarrow> insert_row (row_key cat i) l (wd_db w) = Ok db \<Longrightarrow>
    sql_step cat w (Registered i l) (w\<lparr>wd_db := db\<rparr>)"
| drop: "sql_step cat w (Dropped i) (w\<lparr>wd_db := delete_row (row_key cat i) (wd_db w)\<rparr>)"

inductive_cases sql_stepE: "sql_step cat w e w'"

section \<open>The abstract system\<close>

text \<open>
  Every entity has a current location and metadata. A commit takes effect at once, on the metadata
  current at that moment; a conflict is reported only to a commit whose base is not current.
\<close>

type_synonym entities = "row_key \<rightharpoonup> string \<times> tabular_metadata"

fun invisible :: "sql_event \<Rightarrow> bool" where
  "invisible (Loaded c i l) = True"
| "invisible (Prepared t c ch l) = True"
| "invisible (Abandoned t) = True"
| "invisible e = False"

definition new_entities :: "sql_catalog \<Rightarrow> (table_identifier \<times> string \<times> tabular_metadata) list \<Rightarrow> entities" where
  "new_entities cat es = map_of (map (\<lambda>e. (row_key cat (fst e), snd e)) es)"

inductive catalog_step :: "sql_catalog \<Rightarrow> entities \<Rightarrow> sql_event \<Rightarrow> entities \<Rightarrow> bool" for cat where
  atomic_commit: "E (row_key cat (change_identifier ch)) = Some entry \<Longrightarrow> prepare_change ch entry = Some m \<Longrightarrow>
    catalog_step cat E (Committed t ch l) (E(row_key cat (change_identifier ch) \<mapsto> (l, m)))"
| stale: "map_option fst (E (row_key cat (change_identifier ch))) \<noteq> Some l \<Longrightarrow> catalog_step cat E (Conflicted t ch l) E"
| created: "distinct (map (row_key cat \<circ> fst) es) \<Longrightarrow> \<forall>e\<in>set es. E (row_key cat (fst e)) = None \<Longrightarrow>
    catalog_step cat E (Created c es) (E ++ new_entities cat es)"
| registered: "E (row_key cat i) = None \<Longrightarrow>
    catalog_step cat E (Registered i l) (E(row_key cat i \<mapsto> (l, TabularTable m)))"
| dropped: "catalog_step cat E (Dropped i) (E(row_key cat i := None))"
| unseen: "invisible e \<Longrightarrow> catalog_step cat E e E"

section \<open>The rows under the operations\<close>

lemma find_filter_key:
  "find (\<lambda>r. key_of_row r = k') (filter (\<lambda>r. key_of_row r \<noteq> k) rs) =
     (if k' = k then None else find (\<lambda>r. key_of_row r = k') rs)"
  by (induction rs) auto

lemma find_row_append: "find P (xs @ ys) = (case find P xs of None \<Rightarrow> find P ys | Some x \<Rightarrow> Some x)"
  by (induction xs) auto

lemma row_location_delete [simp]:
  "row_location k' (delete_row k db) = (if k' = k then None else row_location k' db)"
  by (simp add: row_location_def find_row_def delete_row_def find_filter_key)

lemma rows_keyed_delete [simp]: "rows_keyed db \<Longrightarrow> rows_keyed (delete_row k db)"
  unfolding rows_keyed_def delete_row_def by (auto simp: distinct_map intro: inj_on_subset)

lemma insert_row_Ok:
  assumes "insert_row k l db = Ok db'"
  shows "row_location k db = None" and "row_location k' db' = (if k' = k then Some l else row_location k' db)"
    and "rows_keyed db \<Longrightarrow> rows_keyed db'"
proof -
  let ?r = "\<lparr>row_catalog_name = fst k, row_table_namespace = fst (snd k), row_table_name = snd (snd k),
          row_metadata_location = l, row_previous_metadata_location = None\<rparr>"
  have key: "key_of_row ?r = k" by (simp add: key_of_row_def)
  have none: "find_row k db = None" and db': "db' = db\<lparr>db_tables := db_tables db @ [?r]\<rparr>"
    using assms by (auto simp: insert_row_def split: if_splits)
  show "row_location k db = None" using none by (simp add: row_location_def)
  show "row_location k' db' = (if k' = k then Some l else row_location k' db)"
    using none key by (auto simp: db' row_location_def find_row_def find_row_append split: option.splits)
  show "rows_keyed db \<Longrightarrow> rows_keyed db'"
    using none key by (auto simp: rows_keyed_def db' find_row_def find_None_iff)
qed

lemma insert_entries_Cons:
  "insert_entries cat (e # es) db = Ok db' \<longleftrightarrow>
     (\<exists>d. insert_row (row_key cat (fst e)) (fst (snd e)) db = Ok d \<and> insert_entries cat es d = Ok db')"
  by (simp add: insert_entries_def)

lemma new_entities_Cons:
  "new_entities cat (e # es) k = (if k = row_key cat (fst e) then Some (snd e) else new_entities cat es k)"
  by (simp add: new_entities_def)

lemma new_entities_None: "new_entities cat es k = None \<longleftrightarrow> (\<forall>e\<in>set es. row_key cat (fst e) \<noteq> k)"
  by (force simp: new_entities_def map_of_eq_None_iff)

lemma insert_entries_Ok:
  assumes "insert_entries cat es db = Ok db'"
  shows "distinct (map (row_key cat \<circ> fst) es)" (is "?distinct es")
    and "\<forall>e\<in>set es. row_location (row_key cat (fst e)) db = None" (is "?new db es")
    and "row_location k db' = (case new_entities cat es k of None \<Rightarrow> row_location k db | Some e \<Rightarrow> Some (fst e))"
      (is "?result db es k")
    and "rows_keyed db \<Longrightarrow> rows_keyed db'"
proof -
  have "?distinct es \<and> ?new db es \<and> (\<forall>k. ?result db es k) \<and> (rows_keyed db \<longrightarrow> rows_keyed db')"
    using assms
  proof (induction es arbitrary: db)
    case (Cons e es)
    let ?k = "row_key cat (fst e)"
    from Cons.prems obtain d where first: "insert_row ?k (fst (snd e)) db = Ok d"
      and rest: "insert_entries cat es d = Ok db'"
      unfolding insert_entries_Cons by blast
    note d = insert_row_Ok [OF first] and IH = Cons.IH [OF rest]
    have other: "\<forall>e'\<in>set es. row_key cat (fst e') \<noteq> ?k" using IH d(2) by (metis option.distinct(1))
    then have "new_entities cat es ?k = None" by (simp add: new_entities_None)
    then have "?result db (e # es) k" for k
      using spec [OF conjunct1 [OF conjunct2 [OF conjunct2 [OF IH]]], of k] d(2) [of k] \<open>new_entities cat es ?k = None\<close>
      by (cases "k = ?k") (simp_all add: new_entities_Cons cong: option.case_cong)
    moreover have "?new db (e # es)" using IH other d(1,2) by simp
    moreover have "?distinct (e # es)" using IH other by auto
    ultimately show ?case using IH d(3) by blast
  qed (simp add: insert_entries_def new_entities_def)
  then show "?distinct es" "?new db es" "?result db es k" "rows_keyed db \<Longrightarrow> rows_keyed db'" by blast+
qed

section \<open>The simulation\<close>

text \<open>Rows, caches and pending commits agree with what has been written.\<close>

definition written :: "sql_world \<Rightarrow> string \<times> tabular_metadata \<Rightarrow> bool" where
  "written w entry \<longleftrightarrow> wd_files w (fst entry) = Some (snd entry)"

definition pending_ok :: "sql_world \<Rightarrow> pending \<Rightarrow> bool" where
  "pending_ok w p \<longleftrightarrow> written w (pe_base p) \<and> written w (pe_location p, pe_metadata p) \<and>
     prepare_change (pe_change p) (pe_base p) = Some (pe_metadata p)"

definition world_ok :: "sql_world \<Rightarrow> bool" where
  "world_ok w \<longleftrightarrow> rows_keyed (wd_db w) \<and>
     (\<forall>k l. row_location k (wd_db w) = Some l \<longrightarrow> l \<in> dom (wd_files w)) \<and>
     (\<forall>c i entry. wd_cache w c i = Some entry \<longrightarrow> written w entry) \<and>
     (\<forall>t p. wd_pending w t = Some p \<longrightarrow> pending_ok w p)"

definition entities :: "sql_world \<Rightarrow> entities" where
  "entities w k = Option.bind (row_location k (wd_db w)) (\<lambda>l. map_option (Pair l) (wd_files w l))"

lemma world_okD:
  assumes "world_ok w"
  shows "rows_keyed (wd_db w)"
    and "row_location k (wd_db w) = Some l \<Longrightarrow> \<exists>m. wd_files w l = Some m"
    and "wd_cache w c i = Some entry \<Longrightarrow> written w entry"
    and "wd_pending w t = Some p \<Longrightarrow> pending_ok w p"
  using assms unfolding world_ok_def dom_def by blast+

text \<open>Settling a commit and changing a cache leave the rows and the files.\<close>

lemma world_simps [simp]:
  "wd_db (set_cache c i e w) = wd_db w" "wd_files (set_cache c i e w) = wd_files w"
  "wd_pending (set_cache c i e w) = wd_pending w" "wd_db (settle t w) = wd_db w"
  "wd_files (settle t w) = wd_files w" "wd_cache (settle t w) = wd_cache w"
  "entities (set_cache c i e w) = entities w" "entities (settle t w) = entities w"
  "written (set_cache c i e w) = written w" "written (settle t w) = written w"
  "pending_ok (set_cache c i e w) = pending_ok w" "pending_ok (settle t w) = pending_ok w"
  by (auto simp: set_cache_def settle_def entities_def written_def pending_ok_def fun_eq_iff)

lemma world_ok_set_cache: "world_ok w \<Longrightarrow> (\<And>entry. e = Some entry \<Longrightarrow> written w entry) \<Longrightarrow> world_ok (set_cache c i e w)"
  unfolding world_ok_def by (simp del: split_paired_All) (simp add: set_cache_def del: split_paired_All)

lemma world_ok_settle: "world_ok w \<Longrightarrow> world_ok (settle t w)"
  unfolding world_ok_def by (simp del: split_paired_All) (simp add: settle_def del: split_paired_All)

lemma world_ok_db:
  "world_ok w \<Longrightarrow> rows_keyed db \<Longrightarrow> (\<And>k l. row_location k db = Some l \<Longrightarrow> l \<in> dom (wd_files w)) \<Longrightarrow> world_ok (w\<lparr>wd_db := db\<rparr>)"
  by (simp add: world_ok_def written_def pending_ok_def)

lemma world_ok_pending:
  assumes "world_ok w" "pending_ok w p"
  shows "world_ok (w\<lparr>wd_pending := (wd_pending w)(t \<mapsto> p)\<rparr>)"
  using assms unfolding world_ok_def pending_ok_def written_def by (simp del: split_paired_All)

text \<open>Writing at new locations keeps what was written.\<close>

lemma written_more: "wd_files w \<subseteq>\<^sub>m F \<Longrightarrow> written w entry \<Longrightarrow> written (w\<lparr>wd_files := F\<rparr>) entry"
  by (auto simp: written_def map_le_def dom_def)

lemma world_ok_files:
  assumes "world_ok w" "wd_files w \<subseteq>\<^sub>m F"
  shows "world_ok (w\<lparr>wd_files := F\<rparr>)" "entities (w\<lparr>wd_files := F\<rparr>) = entities w"
proof -
  have "dom (wd_files w) \<subseteq> dom F" using assms(2) by (rule map_le_implies_dom_le)
  then show "world_ok (w\<lparr>wd_files := F\<rparr>)"
    using assms(1) written_more [OF assms(2)] unfolding world_ok_def pending_ok_def
    by (simp del: split_paired_All) blast
  have "F l = wd_files w l" if "row_location k (wd_db w) = Some l" for k l
    using world_okD(2) [OF assms(1) that] assms(2) by (auto simp: map_le_def dom_def)
  then show "entities (w\<lparr>wd_files := F\<rparr>) = entities w"
    by (simp add: entities_def fun_eq_iff split: bind_split del: split_paired_All)
qed

lemma entities_base:
  assumes "written w base" "row_location k (wd_db w) = Some (fst base)"
  shows "entities w k = Some base"
  using assms by (simp add: entities_def written_def)

lemma entities_location: "world_ok w \<Longrightarrow> map_option fst (entities w k) = row_location k (wd_db w)"
  using world_okD(2) [of w k] by (cases "row_location k (wd_db w)") (auto simp: entities_def)

lemma swap_pending_Some:
  assumes "world_ok w" "wd_pending w t = Some p" "swap_pending cat p (wd_db w) = Some db"
  shows "rows_keyed db"
    and "row_location k db = (if k = pending_key cat p then Some (pe_location p) else row_location k (wd_db w))"
    and "entities w (pending_key cat p) = Some (pe_base p)"
proof -
  note swap = assms(3) [unfolded swap_pending_def] and keyed = world_okD(1) [OF assms(1)]
  show "rows_keyed db" by (rule sql_pointers.swap_good [OF keyed swap])
  show "row_location k db = (if k = pending_key cat p then Some (pe_location p) else row_location k (wd_db w))"
    using fun_cong [OF sql_pointers.swap_result [OF keyed swap], of k] by (simp add: fun_upd_apply)
  show "entities w (pending_key cat p) = Some (pe_base p)"
    using sql_pointers.swap_from_current [OF keyed swap] world_okD(4) [OF assms(1,2)]
    by (simp add: entities_base pending_ok_def)
qed

lemma swap_pending_None:
  assumes "world_ok w" "swap_pending cat p (wd_db w) = None"
  shows "row_location (pending_key cat p) (wd_db w) \<noteq> Some (fst (pe_base p))"
  using assms(2) swap_row_hits [OF world_okD(1) [OF assms(1)], of "pending_key cat p" "fst (pe_base p)" "pe_location p"]
  by (auto simp: swap_pending_def sql_swap_def split: prod.splits if_splits)

lemma step_prepare:
  fixes t :: nat
  assumes "world_ok w" "wd_cache w c (change_identifier ch) = Some base"
    and "prepare_change ch base = Some m" "wd_files w l = None"
  defines "w' \<equiv> w\<lparr>wd_files := (wd_files w)(l \<mapsto> m), wd_pending := (wd_pending w)(t \<mapsto>
      \<lparr>pe_client = c, pe_change = ch, pe_base = base, pe_location = l, pe_metadata = m\<rparr>)\<rparr>"
  shows "world_ok w'" "entities w' = entities w"
proof -
  let ?w1 = "w\<lparr>wd_files := (wd_files w)(l \<mapsto> m)\<rparr>"
  have le: "wd_files w \<subseteq>\<^sub>m (wd_files w)(l \<mapsto> m)" using assms(4) by (auto simp: map_le_def)
  have "pending_ok ?w1 \<lparr>pe_client = c, pe_change = ch, pe_base = base, pe_location = l, pe_metadata = m\<rparr>"
    using written_more [OF le world_okD(3) [OF assms(1,2)]] assms(3)
    by (simp add: pending_ok_def) (simp add: written_def)
  from world_ok_pending [OF world_ok_files(1) [OF assms(1) le] this, of t] show "world_ok w'"
    by (simp add: w'_def)
  show "entities w' = entities w"
    using world_ok_files(2) [OF assms(1) le] by (simp add: w'_def entities_def fun_eq_iff)
qed

lemma step_commit:
  assumes "world_ok w" "wd_pending w t = Some p" "swap_pending cat p (wd_db w) = Some db"
  shows "world_ok (w\<lparr>wd_db := db\<rparr>)"
    and "entities (w\<lparr>wd_db := db\<rparr>) = (entities w)(pending_key cat p \<mapsto> (pe_location p, pe_metadata p))"
proof -
  note row = swap_pending_Some [OF assms] and p = world_okD(4) [OF assms(1,2)]
  have content: "wd_files w (pe_location p) = Some (pe_metadata p)" using p by (simp add: pending_ok_def written_def)
  show "world_ok (w\<lparr>wd_db := db\<rparr>)"
    using row content world_okD(2) [OF assms(1)] by (intro world_ok_db assms(1)) (auto split: if_splits)
  show "entities (w\<lparr>wd_db := db\<rparr>) = (entities w)(pending_key cat p \<mapsto> (pe_location p, pe_metadata p))"
    by (simp add: entities_def fun_eq_iff row(2) content del: split_paired_All)
qed

lemma step_create:
  assumes "world_ok w" "insert_entries cat es (wd_db w) = Ok db" "distinct (map (fst \<circ> snd) es)"
    and "\<forall>e\<in>set es. wd_files w (fst (snd e)) = None"
  defines "F \<equiv> wd_files w ++ map_of (map snd es)"
  shows "world_ok (w\<lparr>wd_db := db, wd_files := F\<rparr>)"
    and "entities (w\<lparr>wd_db := db, wd_files := F\<rparr>) = entities w ++ new_entities cat es"
    and "e \<in> set es \<Longrightarrow> F (fst (snd e)) = Some (snd (snd e))"
proof -
  note rows = insert_entries_Ok [OF assms(2)]
  have dist: "distinct (map fst (map snd es))" using assms(3) by simp
  show content: "F (fst (snd e)) = Some (snd (snd e))" if "e \<in> set es" for e
    unfolding F_def using map_of_is_SomeI [OF dist, of "fst (snd e)" "snd (snd e)"] that by (auto simp: map_add_Some_iff)
  have "wd_files w l = None" if "l \<in> dom (map_of (map snd es))" for l
    using that assms(4) unfolding dom_map_of_conv_image_fst by auto
  then have le: "wd_files w \<subseteq>\<^sub>m F"
    unfolding F_def map_le_def by (metis domD domIff map_add_dom_app_simps(3) option.distinct(1))
  have new: "\<exists>e'\<in>set es. snd e' = e" if "new_entities cat es k = Some e" for k e
    using that by (auto simp: new_entities_def dest!: map_of_SomeD)
  note w1 = world_ok_files [OF assms(1) le]
  have "l \<in> dom F" if "row_location k db = Some l" for k l
    using that rows(3) [of k] new [of k] content world_okD(2) [OF w1(1), of k l]
    by (fastforce split: option.splits)
  then have "world_ok ((w\<lparr>wd_files := F\<rparr>)\<lparr>wd_db := db\<rparr>)"
    using rows(4) world_okD(1) [OF assms(1)] by (intro world_ok_db w1(1)) auto
  moreover have "(w\<lparr>wd_files := F\<rparr>)\<lparr>wd_db := db\<rparr> = w\<lparr>wd_db := db, wd_files := F\<rparr>" by (cases w) simp
  ultimately show "world_ok (w\<lparr>wd_db := db, wd_files := F\<rparr>)" by simp
  have "entities (w\<lparr>wd_db := db, wd_files := F\<rparr>) k = (entities w ++ new_entities cat es) k" for k
  proof (cases "new_entities cat es k")
    case None
    then show ?thesis
      using fun_cong [OF w1(2), of k] rows(3) [of k] by (simp add: entities_def map_add_def)
  next
    case (Some e)
    then show ?thesis using content new [OF Some] rows(3) [of k] by (auto simp: entities_def map_add_def)
  qed
  then show "entities (w\<lparr>wd_db := db, wd_files := F\<rparr>) = entities w ++ new_entities cat es" by blast
qed

lemma step_insert:
  assumes "world_ok w" "wd_files w l = Some m" "insert_row k l (wd_db w) = Ok db"
  shows "world_ok (w\<lparr>wd_db := db\<rparr>)" "entities (w\<lparr>wd_db := db\<rparr>) = (entities w)(k \<mapsto> (l, m))" "entities w k = None"
proof -
  note row = insert_row_Ok [OF assms(3)]
  show "world_ok (w\<lparr>wd_db := db\<rparr>)"
    using row assms(2) world_okD(1,2) [OF assms(1)] by (intro world_ok_db assms(1)) (auto split: if_splits)
  show "entities (w\<lparr>wd_db := db\<rparr>) = (entities w)(k \<mapsto> (l, m))"
    by (simp add: entities_def fun_eq_iff row(2) assms(2) del: split_paired_All)
  show "entities w k = None" using row(1) by (simp add: entities_def)
qed

lemma step_drop:
  assumes "world_ok w"
  shows "world_ok (w\<lparr>wd_db := delete_row k (wd_db w)\<rparr>)"
    and "entities (w\<lparr>wd_db := delete_row k (wd_db w)\<rparr>) = (entities w)(k := None)"
  using world_okD(1,2) [OF assms]
  by (auto intro!: world_ok_db assms simp: entities_def fun_eq_iff split: if_splits simp del: split_paired_All)

lemma sql_step_ok: "sql_step cat w e w' \<Longrightarrow> world_ok w \<Longrightarrow> world_ok w'"
proof (induction rule: sql_step.induct)
  case (load w l m c i)
  then show ?case by (intro world_ok_set_cache) (auto simp: written_def)
next
  case (commit w t p db)
  note w1 = world_ok_settle [OF step_commit(1) [OF commit(3,1,2)], of t]
  have "written w (pe_location p, pe_metadata p)" using world_okD(4) [OF commit(3,1)] by (simp add: pending_ok_def)
  then show ?case by (intro world_ok_set_cache w1) (auto simp: written_def)
next
  case (create es w db c)
  note w1 = step_create [OF create(5,1,2,3)]
  show ?case using w1(3) [of "hd es"] create(4) by (intro world_ok_set_cache w1(1)) (auto simp: written_def)
qed (auto intro: world_ok_set_cache world_ok_settle step_prepare(1) step_insert(1) step_drop(1))

lemma sql_step_spec: "sql_step cat w e w' \<Longrightarrow> world_ok w \<Longrightarrow> catalog_step cat (entities w) e (entities w')"
proof (induction rule: sql_step.induct)
  case (prepare w t c ch base m l)
  then show ?case using step_prepare(2) [OF prepare(5,2,3,4)] by (simp add: catalog_step.unseen)
next
  case (commit w t p db)
  have "prepare_change (pe_change p) (pe_base p) = Some (pe_metadata p)"
    using world_okD(4) [OF commit(3,1)] by (simp add: pending_ok_def)
  then show ?case
    using swap_pending_Some(3) [OF commit(3,1,2)]
    unfolding world_simps step_commit(2) [OF commit(3,1,2)] pending_key_def by (rule catalog_step.atomic_commit [rotated])
next
  case (conflict w t p)
  then show ?case
    using swap_pending_None [OF conflict(3,2)] entities_location [OF conflict(3)]
    by (simp add: pending_key_def catalog_step.stale)
next
  case (create es w db c)
  have "\<forall>e\<in>set es. entities w (row_key cat (fst e)) = None"
    using insert_entries_Ok(2) [OF create(1)] by (simp add: entities_def)
  then show ?case
    using step_create(2) [OF create(5,1,2,3)] insert_entries_Ok(1) [OF create(1)] by (simp add: catalog_step.created)
next
  case (register w l m i db)
  show ?case
    unfolding step_insert(2) [OF register(3,1,2)] using step_insert(3) [OF register(3,1,2)]
    by (rule catalog_step.registered)
next
  case (drop w i)
  show ?case unfolding step_drop(2) [OF drop] by (rule catalog_step.dropped)
qed (simp_all add: catalog_step.unseen)

interpretation sql_clients: simulation world_ok "sql_step cat" "catalog_step cat" entities for cat
  by unfold_locales (auto intro: sql_step_ok sql_step_spec)

text \<open>
  C6. Concurrent commits through the SQL catalog are atomic. Any interleaving of the loads,
  preparations, row updates, creations, registrations and drops of any number of clients, from a
  database and caches that agree with the files, is a run of the abstract catalog: every successful
  commit checked its requirements on, and applied its updates to, the metadata current at the
  moment of its row update, however old the cache was that it started from; no commit is lost; and
  a conflict is reported only when the pointer had moved.
\<close>

theorem sql_catalog_refines_atomic_commits:
  assumes "world_ok w" and "run (sql_step cat) w events w'"
  shows "run (catalog_step cat) (entities w) events (entities w') \<and> world_ok w'"
  using sql_clients.run_spec [OF assms(2,1)] sql_clients.run_ok [OF assms(2,1)] by blast

text \<open>Two clients change the same table from the same metadata; the second learns of the conflict.\<close>

definition sample_change :: "string \<Rightarrow> change" where
  "sample_change v = TableChange sample_env \<lparr>ct_identifier = sample_identifier, ct_requirements = [],
     ct_updates = [SetProperties [''k'' \<mapsto> v]]\<rparr>"

definition sample_world :: sql_world where
  "sample_world = \<lparr>wd_db = one_table_db, wd_files = [''v0'' \<mapsto> TabularTable (sample_table V3)],
     wd_cache = (\<lambda>c. [sample_identifier \<mapsto> (''v0'', TabularTable (sample_table V3))]), wd_pending = Map.empty\<rparr>"

lemma sample_prepare: "\<exists>m. prepare_change (sample_change v) (''v0'', TabularTable (sample_table V3)) = Some m"
  by (simp add: sample_change_def ok_metadata_def prepare_table_def check_table_requirements_def
      apply_table_updates_def apply_init_def log_previous_def Let_def)

lemma sample_world_ok: "world_ok sample_world"
proof -
  have "row_location k one_table_db = Some l \<Longrightarrow> l = ''v0''" for k l
    by (auto simp: one_table_db_def row_location_def find_row_def split: if_splits)
  then show ?thesis
    by (auto simp: world_ok_def sample_world_def written_def rows_keyed_def one_table_db_def split: if_splits)
qed

theorem sql_catalog_refines_atomic_commits_witness:
  "\<exists>w'. run (catalog_step sample_catalog) (entities sample_world)
     [Prepared 0 0 (sample_change ''x'') ''a'', Prepared 1 1 (sample_change ''y'') ''b'',
      Committed 0 (sample_change ''x'') ''a'', Conflicted 1 (sample_change ''y'') ''v0''] (entities w') \<and>
     map_option fst (entities w' (''c'', ''n'', ''t'')) = Some ''a''"
proof -
  let ?base = "(''v0'', TabularTable (sample_table V3))" and ?step = "sql_step sample_catalog"
  obtain m n where m: "prepare_change (sample_change ''x'') ?base = Some m"
    and n: "prepare_change (sample_change ''y'') ?base = Some n" using sample_prepare by blast
  let ?p = "\<lparr>pe_client = 0, pe_change = sample_change ''x'', pe_base = ?base, pe_location = ''a'', pe_metadata = m\<rparr>"
  let ?q = "\<lparr>pe_client = 1, pe_change = sample_change ''y'', pe_base = ?base, pe_location = ''b'', pe_metadata = n\<rparr>"
  have change: "change_identifier (sample_change v) = sample_identifier" for v by (simp add: sample_change_def)
  obtain w1 where w1: "?step sample_world (Prepared 0 0 (sample_change ''x'') ''a'') w1"
    "w1 = sample_world\<lparr>wd_files := (wd_files sample_world)(''a'' \<mapsto> m), wd_pending := (wd_pending sample_world)(0 \<mapsto> ?p)\<rparr>"
    using prepare [of sample_world 0 0 "sample_change ''x''" ?base m "''a''" sample_catalog] m change
    by (simp add: sample_world_def)
  obtain w2 where w2: "?step w1 (Prepared 1 1 (sample_change ''y'') ''b'') w2"
    "w2 = w1\<lparr>wd_files := (wd_files w1)(''b'' \<mapsto> n), wd_pending := (wd_pending w1)(1 \<mapsto> ?q)\<rparr>"
    using prepare [of w1 1 1 "sample_change ''y''" ?base n "''b''" sample_catalog] n change w1(2)
    by (simp add: sample_world_def)
  have pending: "wd_pending w2 0 = Some ?p" "wd_pending w2 1 = Some ?q" "wd_db w2 = one_table_db"
    using w1(2) w2(2) by (simp_all add: sample_world_def)
  obtain db where db: "swap_pending sample_catalog ?p one_table_db = Some db"
    by (simp add: swap_pending_def pending_key_def change sample_key sql_swap_def swap_row_def is_hit_def
        one_table_db_def key_of_row_def)
  obtain w3 where w3: "?step w2 (Committed 0 (sample_change ''x'') ''a'') w3" "wd_db w3 = db" "wd_pending w3 1 = Some ?q"
    using commit [of w2 0 ?p sample_catalog db] db pending by (simp add: settle_def set_cache_def)
  have "rows_keyed one_table_db" using sample_world_ok by (simp add: world_ok_def sample_world_def)
  then have "swap_pending sample_catalog ?q db = None"
    using sql_pointers.second_swap_fails [OF _ db [unfolded swap_pending_def], of "''b''"]
    by (simp add: swap_pending_def pending_key_def change)
  then obtain w4 where w4: "?step w3 (Conflicted 1 (sample_change ''y'') ''v0'') w4" "wd_db w4 = db"
    using conflict [of w3 1 ?q sample_catalog] w3 by simp
  have "run ?step sample_world
     [Prepared 0 0 (sample_change ''x'') ''a'', Prepared 1 1 (sample_change ''y'') ''b'',
      Committed 0 (sample_change ''x'') ''a'', Conflicted 1 (sample_change ''y'') ''v0''] w4"
    using w1(1) w2(1) w3(1) w4(1) by blast
  note refined = sql_catalog_refines_atomic_commits [OF sample_world_ok this]
  have "map_option fst (entities w4 (''c'', ''n'', ''t'')) = Some ''a''"
    using entities_location [of w4 "(''c'', ''n'', ''t'')"] refined w4(2)
      fun_cong [OF sql_pointers.swap_result [OF \<open>rows_keyed one_table_db\<close> db [unfolded swap_pending_def]],
        of "(''c'', ''n'', ''t'')"]
    by (simp add: pending_key_def change sample_key)
  with refined show ?thesis by blast
qed

end
