(* ===== verification/File_Catalog.thy ===== *)
theory File_Catalog
  imports Catalog_Api Pointer_Store
begin

text \<open>
  The catalog on a file system (\<open>catalogs/iceberg-file-catalog/src/lib.rs\<close>). An entity is the
  directory \<open>root/namespace/name\<close>; its current metadata is the file \<open>metadata/v<n>.metadata.json\<close> with
  the highest \<open>n\<close>, and a commit creates the next one, if it does not exist.
\<close>

section \<open>The catalog and its state\<close>

record file_catalog =
  fc_path :: string
  fc_object_store :: store_builder

record 's file_state =
  fs_store :: 's
  fs_cache :: "table_identifier \<rightharpoonup> string \<times> tabular_metadata"
  fs_renamed :: "(table_identifier \<times> table_identifier) list"

type_synonym ('a, 's) fop = "('a, 's file_state) op"

text \<open>
  The map of renamed tables, from a table to where its files are, is a list in the order of the
  hash map's traversal. Listing is the object store's: all paths under a prefix, or its immediate
  directories.
\<close>

record 's listing =
  li_list :: "bucket \<Rightarrow> 's \<Rightarrow> string \<Rightarrow> (string list, error) outcome"
  li_prefixes :: "bucket \<Rightarrow> 's \<Rightarrow> string \<Rightarrow> (string list, error) outcome"

definition fread :: "('s file_state \<Rightarrow> ('a, error) outcome) \<Rightarrow> ('a, 's) fop" where
  "fread f = (\<lambda>s. (f s, s))"

definition fstore :: "('s \<Rightarrow> ('s, error) outcome) \<Rightarrow> (unit, 's) fop" where
  "fstore f = (\<lambda>s. case f (fs_store s) of
     Ok st \<Rightarrow> (Ok (), s\<lparr>fs_store := st\<rparr>) | Err e \<Rightarrow> (Err e, s) | Panic p \<Rightarrow> (Panic p, s))"

definition fs_cache_insert :: "table_identifier \<Rightarrow> string \<times> tabular_metadata \<Rightarrow> (unit, 's) fop" where
  "fs_cache_insert i entry = (\<lambda>s. (Ok (), s\<lparr>fs_cache := (fs_cache s)(i \<mapsto> entry)\<rparr>))"

definition first_level :: "namespace \<Rightarrow> (string, error) outcome" where
  "first_level ns = (case ns of n # _ \<Rightarrow> Ok n | [] \<Rightarrow> Panic ''index out of bounds'')"

definition root_store :: "('b, 's) meta_io \<Rightarrow> file_catalog \<Rightarrow> (bucket, error) outcome" where
  "root_store io cat = rbind (Bucket_from_path (fc_path cat)) (builder_build io (fc_object_store cat))"

definition fc_default_object_store :: "('b, 's) meta_io \<Rightarrow> file_catalog \<Rightarrow> bucket \<Rightarrow> (bucket, error) outcome" where
  "fc_default_object_store io cat bucket = unwrap (ok (builder_build io (fc_object_store cat) bucket))"

section \<open>Paths and names\<close>

definition fc_root :: "file_catalog \<Rightarrow> string" where
  "fc_root cat = trim_end_matches ''/'' (fc_path cat)"

definition fc_name :: "file_catalog \<Rightarrow> string" where
  "fc_name cat = last (split_on (CHR ''/'') (fc_root cat))"

definition namespace_path :: "file_catalog \<Rightarrow> string \<Rightarrow> string" where
  "namespace_path cat ns = fc_root cat @ ''/'' @ ns"

definition tabular_path :: "file_catalog \<Rightarrow> string \<Rightarrow> string \<Rightarrow> string" where
  "tabular_path cat ns name = fc_root cat @ ''/'' @ ns @ ''/'' @ name"

definition identifier_path :: "file_catalog \<Rightarrow> table_identifier \<Rightarrow> (string, error) outcome" where
  "identifier_path cat i = rbind (first_level (id_namespace i)) (\<lambda>ns. Ok (tabular_path cat ns (id_name i)))"

definition relative_to :: "('b, 's) meta_io \<Rightarrow> string \<Rightarrow> string \<Rightarrow> string" where
  "relative_to io root_path path =
     (let p = trim_start_matches ''/'' (strip_prefix (mi_url_path io) path);
          root = trim_start_matches ''/'' (strip_prefix (mi_url_path io) root_path)
      in trim_start_matches ''/'' (case str_strip_prefix root p of Some q \<Rightarrow> q | None \<Rightarrow> p))"

definition relative_to_root :: "('b, 's) meta_io \<Rightarrow> file_catalog \<Rightarrow> string \<Rightarrow> string" where
  "relative_to_root io cat = relative_to io (fc_path cat)"

definition path_identifier :: "('b, 's) meta_io \<Rightarrow> file_catalog \<Rightarrow> string \<Rightarrow> (table_identifier, error) outcome" where
  "path_identifier io cat path =
     (case split_on (CHR ''/'') (relative_to_root io cat path) of
        ns # name # _ \<Rightarrow> Ok (Identifier_new [ns] name)
      | _ \<Rightarrow> Panic ''index out of bounds'')"

definition path_namespace :: "('b, 's) meta_io \<Rightarrow> file_catalog \<Rightarrow> string \<Rightarrow> (namespace, error) outcome" where
  "path_namespace io cat path =
     map_err Iceberg (Namespace_try_new [hd (split_on (CHR ''/'') (relative_to_root io cat path))])"

section \<open>Versions\<close>

text \<open>\<open>parse::<u64>() + 1\<close> wraps at 64 bits, as in a release build.\<close>

definition parse_version :: "string \<Rightarrow> (nat, error) outcome" where
  "parse_version path =
     ok_or (ParseInt ''version'')
       (parse_u64 (trim_end_matches ''.gz'' (trim_end_matches ''.metadata.json''
         (trim_start_matches ''v'' (last (split_on (CHR ''/'') path))))))"

definition new_filesystem_metadata_location :: "string \<Rightarrow> string \<Rightarrow> bool \<Rightarrow> (string, error) outcome" where
  "new_filesystem_metadata_location location previous gzipped =
     rbind (parse_version previous) (\<lambda>n.
     Ok (location @ ''/metadata/v'' @ show_nat ((n + 1) mod 2 ^ 64) @ ''.''
         @ (if gzipped then ''gz.metadata.json'' else ''metadata.json'')))"

text \<open>The files of a directory that are versions, and the number in the name of one.\<close>

definition version_prefix :: "('b, 's) meta_io \<Rightarrow> string \<Rightarrow> string" where
  "version_prefix io path = trim_start_matches ''/'' (strip_prefix (mi_url_path io) path @ ''/v'')"

definition is_version_file :: "('b, 's) meta_io \<Rightarrow> string \<Rightarrow> string \<Rightarrow> bool" where
  "is_version_file io path x \<longleftrightarrow> ends_with ''metadata.json'' x \<and> starts_with (version_prefix io path) x"

definition file_version :: "('b, 's) meta_io \<Rightarrow> string \<Rightarrow> string \<Rightarrow> nat option" where
  "file_version io path x =
     parse_u64 (trim_end_matches ''.gz'' (trim_end_matches ''.metadata.json'' (trim_end_matches ''/''
       (trim_start_matches (version_prefix io path) x))))"

text \<open>
  The last file after a stable sort by version. The comparison unwraps the version of both its
  arguments, so a name without one panics, but not when it is alone.
\<close>

definition sort_versions :: "('b, 's) meta_io \<Rightarrow> string \<Rightarrow> string list \<Rightarrow> (string list, error) outcome" where
  "sort_versions io path files =
     (if length files < 2 then Ok files
      else if list_ex (\<lambda>x. file_version io path x = None) files then Panic ''called unwrap on an Err value''
      else Ok (sort_key (\<lambda>x. the (file_version io path x)) files))"

definition newest_file :: "('b, 's) meta_io \<Rightarrow> string \<Rightarrow> string list \<Rightarrow> (string, error) outcome" where
  "newest_file io path listed =
     rbind (sort_versions io path (filter (is_version_file io path) listed)) (\<lambda>files.
     if files = [] then Err CatalogNotFound else Ok (last files))"

text \<open>A renamed table is where its source was; the source is gone.\<close>

definition physical_identifier ::
  "(table_identifier \<times> table_identifier) list \<Rightarrow> table_identifier \<Rightarrow> (table_identifier, error) outcome" where
  "physical_identifier renamed i =
     (if list_ex (\<lambda>r. snd r = i) renamed \<and> map_of renamed i = None then Err CatalogNotFound
      else Ok (case map_of renamed i of Some source \<Rightarrow> source | None \<Rightarrow> i))"

definition fc_metadata_location ::
  "('b, 's) meta_io \<Rightarrow> 's listing \<Rightarrow> file_catalog \<Rightarrow> table_identifier \<Rightarrow> 's file_state \<Rightarrow> (string, error) outcome" where
  "fc_metadata_location io li cat i s =
     rbind (physical_identifier (fs_renamed s) i) (\<lambda>physical.
     rbind (root_store io cat) (\<lambda>store.
     rbind (identifier_path cat physical) (\<lambda>dir.
     rbind (li_list li store (fs_store s) (strip_prefix (mi_url_path io) (dir @ ''/metadata''))) (\<lambda>listed.
     newest_file io (dir @ ''/metadata'') listed))))"

section \<open>Namespaces and listing\<close>

definition fc_create_namespace :: "namespace \<Rightarrow> (string \<rightharpoonup> string) option \<Rightarrow> (string \<rightharpoonup> string, error) outcome" where
  "fc_create_namespace ns properties = Ok Map.empty"

fun delete_paths :: "('b, 's) meta_io \<Rightarrow> bucket \<Rightarrow> string list \<Rightarrow> (unit, 's) fop" where
  "delete_paths io store [] = qlift (Ok ())"
| "delete_paths io store (p # ps) = qbind (fstore (\<lambda>st. mi_delete io store st p)) (\<lambda>_. delete_paths io store ps)"

definition delete_under :: "('b, 's) meta_io \<Rightarrow> 's listing \<Rightarrow> bucket \<Rightarrow> string \<Rightarrow> (unit, 's) fop" where
  "delete_under io li store path =
     qbind (fread (\<lambda>s. li_list li store (fs_store s) (strip_prefix (mi_url_path io) path))) (delete_paths io store)"

definition fc_drop_namespace :: "('b, 's) meta_io \<Rightarrow> 's listing \<Rightarrow> file_catalog \<Rightarrow> namespace \<Rightarrow> (unit, 's) fop" where
  "fc_drop_namespace io li cat ns =
     qbind (qlift (root_store io cat)) (\<lambda>store.
     qbind (qlift (first_level ns)) (\<lambda>target.
     qbind (delete_under io li store (namespace_path cat target)) (\<lambda>_.
     (\<lambda>s. (Ok (), s\<lparr>fs_cache := (\<lambda>i. if take 1 (id_namespace i) = [target] then None else fs_cache s i)\<rparr>)))))"

definition fc_list_namespaces ::
  "('b, 's) meta_io \<Rightarrow> 's listing \<Rightarrow> file_catalog \<Rightarrow> 's file_state \<Rightarrow> (namespace list, error) outcome" where
  "fc_list_namespaces io li cat s =
     rbind (root_store io cat) (\<lambda>store.
     rbind (li_prefixes li store (fs_store s)
              (strip_prefix (mi_url_path io) (trim_start_matches ''/'' (fc_path cat)))) (\<lambda>dirs.
     try_map (path_namespace io cat) dirs))"

definition fc_namespace_exists ::
  "('b, 's) meta_io \<Rightarrow> 's listing \<Rightarrow> file_catalog \<Rightarrow> namespace \<Rightarrow> 's file_state \<Rightarrow> (bool, error) outcome" where
  "fc_namespace_exists io li cat ns s =
     rbind (first_level ns) (\<lambda>target.
     rbind (fc_list_namespaces io li cat s) (\<lambda>found. Ok (list_ex (\<lambda>n. take 1 n = [target]) found)))"

definition fc_load_namespace ::
  "('b, 's) meta_io \<Rightarrow> 's listing \<Rightarrow> file_catalog \<Rightarrow> namespace \<Rightarrow> 's file_state \<Rightarrow> (string \<rightharpoonup> string, error) outcome" where
  "fc_load_namespace io li cat ns s =
     rbind (fc_namespace_exists io li cat ns s) (\<lambda>exists. if exists then Ok Map.empty else Err CatalogNotFound)"

definition fc_update_namespace ::
  "namespace \<Rightarrow> (string \<rightharpoonup> string) option \<Rightarrow> string list option \<Rightarrow> (unit, error) outcome" where
  "fc_update_namespace ns updates removals = Ok ()"

text \<open>
  A listing: the entities that have files, after the renamings, and those in the cache
  (\<open>cached\<close> are its keys), sorted by their texts.
\<close>

definition apply_renaming :: "namespace \<Rightarrow> table_identifier list \<Rightarrow> table_identifier \<times> table_identifier \<Rightarrow> table_identifier list" where
  "apply_renaming ns ids r =
     (let kept = if fst r \<noteq> snd r then filter (\<lambda>i. i \<noteq> snd r) ids else ids
      in if id_namespace (fst r) = ns then fst r # kept else kept)"

definition string_key :: "string \<Rightarrow> nat list" where
  "string_key s = map of_char s"

definition fc_list_tabulars ::
  "('b, 's) meta_io \<Rightarrow> 's listing \<Rightarrow> table_identifier list \<Rightarrow> file_catalog \<Rightarrow> namespace \<Rightarrow> 's file_state
   \<Rightarrow> (table_identifier list, error) outcome" where
  "fc_list_tabulars io li cached cat ns s =
     rbind (root_store io cat) (\<lambda>store.
     rbind (first_level ns) (\<lambda>target.
     rbind (li_list li store (fs_store s) (strip_prefix (mi_url_path io) (namespace_path cat target))) (\<lambda>paths.
     rbind (try_map (path_identifier io cat) paths) (\<lambda>ids.
     let present = foldl (apply_renaming ns) ids (fs_renamed s);
         cached_here = filter (\<lambda>i. fs_cache s i \<noteq> None \<and> id_namespace i = ns) cached
     in Ok (sort_key (\<lambda>i. string_key (Identifier_to_string i)) (remdups (present @ cached_here)))))))"

definition fc_tabular_exists ::
  "('b, 's) meta_io \<Rightarrow> 's listing \<Rightarrow> file_catalog \<Rightarrow> table_identifier \<Rightarrow> 's file_state \<Rightarrow> (bool, error) outcome" where
  "fc_tabular_exists io li cat i s =
     (case fc_metadata_location io li cat i s of Ok l \<Rightarrow> Ok True | Err e \<Rightarrow> Ok False | Panic p \<Rightarrow> Panic p)"

section \<open>Loading, renaming and dropping\<close>

definition read_metadata :: "('b, 's) meta_io \<Rightarrow> bucket \<Rightarrow> string \<Rightarrow> 's \<Rightarrow> (tabular_metadata, error) outcome" where
  "read_metadata io store location st =
     rbind (map_err (\<lambda>_. CatalogNotFound) (mi_get io store st (strip_prefix (mi_url_path io) location))) (mi_from_json io)"

definition fc_load_tabular ::
  "('b, 's) meta_io \<Rightarrow> 's listing \<Rightarrow> file_catalog \<Rightarrow> table_identifier \<Rightarrow> ('s tabular, 's) fop" where
  "fc_load_tabular io li cat i =
     qbind (qlift (root_store io cat)) (\<lambda>store.
     qbind (fread (fc_metadata_location io li cat i)) (\<lambda>location.
     qbind (fread (\<lambda>s. read_metadata io store location (fs_store s))) (\<lambda>metadata.
     qbind (fs_cache_insert i (location, metadata)) (\<lambda>_.
     fread (\<lambda>s. tabular_of i (fs_store s) metadata)))))"

definition fc_drop_tabular :: "('b, 's) meta_io \<Rightarrow> 's listing \<Rightarrow> file_catalog \<Rightarrow> table_identifier \<Rightarrow> (unit, 's) fop" where
  "fc_drop_tabular io li cat i =
     qbind (qlift (root_store io cat)) (\<lambda>store.
     qbind (fread (\<lambda>s. identifier_path cat (case map_of (fs_renamed s) i of Some source \<Rightarrow> source | None \<Rightarrow> i))) (\<lambda>dir.
     qbind (delete_under io li store dir) (\<lambda>_.
     (\<lambda>s. (Ok (), s\<lparr>fs_cache := (fs_cache s)(i := None), fs_renamed := filter (\<lambda>r. fst r \<noteq> i) (fs_renamed s)\<rparr>)))))"

definition fc_drop_table :: "('b, 's) meta_io \<Rightarrow> 's listing \<Rightarrow> file_catalog \<Rightarrow> table_identifier \<Rightarrow> (unit, 's) fop" where
  "fc_drop_table = fc_drop_tabular"

definition fc_drop_view :: "('b, 's) meta_io \<Rightarrow> 's listing \<Rightarrow> file_catalog \<Rightarrow> table_identifier \<Rightarrow> (unit, 's) fop" where
  "fc_drop_view = fc_drop_tabular"

text \<open>The storage table of a materialized view is found in the cache only.\<close>

definition cached_storage_table :: "table_identifier \<Rightarrow> 's file_state \<Rightarrow> (table_identifier option, error) outcome" where
  "cached_storage_table i s =
     (case fs_cache s i of
        Some (_, TabularMaterializedView m) \<Rightarrow>
          rbind (map_err Iceberg (view_current_version m None)) (\<lambda>version. Ok (Some (vv_storage_table version)))
      | _ \<Rightarrow> Ok None)"

definition fc_drop_materialized_view ::
  "('b, 's) meta_io \<Rightarrow> 's listing \<Rightarrow> file_catalog \<Rightarrow> table_identifier \<Rightarrow> (unit, 's) fop" where
  "fc_drop_materialized_view io li cat i =
     qbind (fread (cached_storage_table i)) (\<lambda>storage_table.
     qbind (case storage_table of Some t \<Rightarrow> fc_drop_tabular io li cat t | None \<Rightarrow> qlift (Ok ())) (\<lambda>_.
     fc_drop_tabular io li cat i))"

text \<open>A table may be renamed in a catalog in memory: its files stay where they are.\<close>

definition metadata_for_rename ::
  "('b, 's) meta_io \<Rightarrow> file_catalog \<Rightarrow> table_identifier \<Rightarrow> string \<Rightarrow> 's file_state \<Rightarrow> (tabular_metadata, error) outcome" where
  "metadata_for_rename io cat source location s =
     (case fs_cache s source of
        Some (_, m) \<Rightarrow> Ok m
      | None \<Rightarrow> rbind (root_store io cat) (\<lambda>store. read_metadata io store location (fs_store s)))"

definition move_identity ::
  "table_identifier \<Rightarrow> table_identifier \<Rightarrow> string \<times> tabular_metadata \<Rightarrow> (unit, 's) fop" where
  "move_identity source destination entry = (\<lambda>s. (Ok (),
     s\<lparr>fs_cache := ((fs_cache s)(source := None))(destination \<mapsto> entry),
       fs_renamed := (destination, case map_of (fs_renamed s) source of Some p \<Rightarrow> p | None \<Rightarrow> source)
         # filter (\<lambda>r. fst r \<noteq> source \<and> fst r \<noteq> destination) (fs_renamed s)\<rparr>))"

definition fc_rename_table ::
  "('b, 's) meta_io \<Rightarrow> 's listing \<Rightarrow> file_catalog \<Rightarrow> table_identifier \<Rightarrow> table_identifier \<Rightarrow> (unit, 's) fop" where
  "fc_rename_table io li cat source destination =
     (if fc_object_store cat \<noteq> MemoryBuilder then qlift (Err (NotSupported ''rename table in persistent file catalogs''))
      else if source = destination then qlift (Ok ())
      else qbind (fread (fc_tabular_exists io li cat destination)) (\<lambda>exists.
           if exists then qlift (Err (InvalidFormat (''Destination table '' @ Identifier_to_string destination @ '' already exists'')))
           else qbind (fread (fc_metadata_location io li cat source)) (\<lambda>location.
                qbind (fread (metadata_for_rename io cat source location)) (\<lambda>metadata.
                case metadata of
                  TabularTable _ \<Rightarrow> move_identity source destination (location, metadata)
                | _ \<Rightarrow> qlift (Err (InvalidFormat (''Source '' @ Identifier_to_string source @ '' is not a table'')))))))"

section \<open>Creating\<close>

text \<open>A name is free unless it is found; a failing search counts as free.\<close>

definition check_free ::
  "('b, 's) meta_io \<Rightarrow> 's listing \<Rightarrow> file_catalog \<Rightarrow> table_identifier \<Rightarrow> string \<Rightarrow> (unit, 's) fop" where
  "check_free io li cat i kind =
     qbind (fread (fc_tabular_exists io li cat i)) (\<lambda>exists.
     qlift (if exists then Err (InvalidFormat (kind @ '' already exists. Path'')) else Ok ()))"

definition first_version :: "tabular_metadata \<Rightarrow> string" where
  "first_version metadata = tabular_location metadata @ ''/metadata/v0.metadata.json''"

definition fc_write_metadata ::
  "('b, 's) meta_io \<Rightarrow> bucket \<Rightarrow> string \<Rightarrow> tabular_metadata \<Rightarrow> (unit, 's) fop" where
  "fc_write_metadata io store location metadata =
     qbind (fstore (\<lambda>st. put_metadata io store st location metadata)) (\<lambda>_.
     fstore (\<lambda>st. try_version_hint io store st location))"

definition store_for :: "('b, 's) meta_io \<Rightarrow> file_catalog \<Rightarrow> string \<Rightarrow> (bucket, error) outcome" where
  "store_for io cat location = rbind (Bucket_from_path location) (fc_default_object_store io cat)"

definition fc_create_tabular ::
  "('b, 's) meta_io \<Rightarrow> file_catalog \<Rightarrow> table_identifier \<Rightarrow> tabular_metadata \<Rightarrow> (unit, 's) fop" where
  "fc_create_tabular io cat i metadata =
     qbind (qlift (store_for io cat (tabular_location metadata))) (\<lambda>store.
     qbind (fc_write_metadata io store (first_version metadata) metadata) (\<lambda>_.
     fs_cache_insert i (first_version metadata, metadata)))"

definition fc_create_table ::
  "('b, 's) meta_io \<Rightarrow> 's listing \<Rightarrow> create_env \<Rightarrow> file_catalog \<Rightarrow> table_identifier \<Rightarrow> create_table \<Rightarrow> ('s table, 's) fop" where
  "fc_create_table io li env cat i c =
     qbind (check_free io li cat i ''Table'') (\<lambda>_.
     qbind (qlift (identifier_path cat i)) (\<lambda>dir.
     qbind (qlift (TableMetadata_from_create env (c\<lparr>ctb_location := Some dir\<rparr>))) (\<lambda>metadata.
     qbind (fc_create_tabular io cat i (TabularTable metadata)) (\<lambda>_.
     fread (\<lambda>s. Table_new i (fs_store s) metadata)))))"

definition fc_create_view ::
  "('b, 's) meta_io \<Rightarrow> 's listing \<Rightarrow> create_env \<Rightarrow> file_catalog \<Rightarrow> table_identifier \<Rightarrow> unit option create_view
   \<Rightarrow> (unit option view, 's) fop" where
  "fc_create_view io li env cat i c =
     qbind (check_free io li cat i ''View'') (\<lambda>_.
     qbind (qlift (identifier_path cat i)) (\<lambda>dir.
     qbind (qlift (ViewMetadata_from_create ''view'' env (c\<lparr>cvw_location := Some dir\<rparr>))) (\<lambda>metadata.
     qbind (fc_create_tabular io cat i (TabularView metadata)) (\<lambda>_.
     qlift (View_new i metadata)))))"

text \<open>The storage table of a materialized view is written beside it; only the view is cached.\<close>

definition fc_create_materialized_view ::
  "('b, 's) meta_io \<Rightarrow> 's listing \<Rightarrow> create_env \<times> create_env \<Rightarrow> file_catalog \<Rightarrow> table_identifier
   \<Rightarrow> create_materialized_view \<Rightarrow> (materialized_view, 's) fop" where
  "fc_create_materialized_view io li envs cat i c =
     qbind (check_free io li cat i ''View'') (\<lambda>_.
     qbind (qlift (identifier_path cat i)) (\<lambda>dir.
     qbind (qlift (ViewMetadata_from_create ''materialized view'' (fst envs)
                     ((fst (create_parts c))\<lparr>cvw_location := Some dir\<rparr>))) (\<lambda>metadata.
     qbind (qlift (map_err Iceberg (view_current_version metadata None))) (\<lambda>version.
     qbind (qlift (identifier_path cat (vv_storage_table version))) (\<lambda>table_dir.
     qbind (qlift (TableMetadata_from_create (snd envs) ((snd (create_parts c))\<lparr>ctb_location := Some table_dir\<rparr>))) (\<lambda>table_metadata.
     qbind (qlift (store_for io cat (vm_location metadata))) (\<lambda>store.
     let view = TabularMaterializedView metadata; storage_table = TabularTable table_metadata
     in qbind (fc_write_metadata io store (first_version view) view) (\<lambda>_.
        qbind (fstore (\<lambda>st. put_metadata io store st (first_version storage_table) storage_table)) (\<lambda>_.
        qbind (fs_cache_insert i (first_version view, view)) (\<lambda>_.
        qlift (View_new i metadata)))))))))))"

section \<open>Committing\<close>

text \<open>
  The new metadata is written to a temporary file and copied to the name of the next version,
  unless that exists. \<open>ALREADY_EXISTS\<close> is the error of a copy to an existing file.
\<close>

definition ALREADY_EXISTS :: error where
  "ALREADY_EXISTS = ObjectStore ''AlreadyExists''"

definition copy_metadata ::
  "('b, 's) meta_io \<Rightarrow> (error \<Rightarrow> error) \<Rightarrow> bucket \<Rightarrow> string \<Rightarrow> string \<Rightarrow> (unit, 's) fop" where
  "copy_metadata io on_error store from to =
     fstore (\<lambda>st. map_err on_error
       (mi_copy_if_not_exists io store st (strip_prefix (mi_url_path io) from) (strip_prefix (mi_url_path io) to)))"

definition commit_metadata ::
  "('b, 's) meta_io \<Rightarrow> (error \<Rightarrow> error) \<Rightarrow> string \<Rightarrow> bucket \<Rightarrow> table_identifier \<Rightarrow> string \<Rightarrow> tabular_metadata \<Rightarrow> (unit, 's) fop" where
  "commit_metadata io on_error transaction_uuid store i previous metadata =
     (let temporary = tabular_metadata_location transaction_uuid metadata
      in qbind (fstore (\<lambda>st. put_metadata io store st temporary metadata)) (\<lambda>_.
         qbind (qlift (new_filesystem_metadata_location (tabular_location metadata) previous
                         (ends_with ''.gz.metadata.json'' temporary))) (\<lambda>location.
         qbind (copy_metadata io on_error store temporary location) (\<lambda>_.
         qbind (fstore (\<lambda>st. try_version_hint io store st location)) (\<lambda>_.
         fs_cache_insert i (location, metadata))))))"

definition fs_cached_entry ::
  "table_identifier \<Rightarrow> (string \<times> tabular_metadata, error) outcome \<Rightarrow> (string \<times> tabular_metadata, 's) fop" where
  "fs_cached_entry i missing = fread (\<lambda>s. case fs_cache s i of Some entry \<Rightarrow> Ok entry | None \<Rightarrow> missing)"

definition fc_no_entry_for :: "commit_table \<Rightarrow> (string \<times> tabular_metadata, error) outcome" where
  "fc_no_entry_for commit =
     (if ct_requirements commit = [] then Panic ''index out of bounds'' else Err (InvalidFormat ''Create table assertion''))"

definition fc_prepare_table :: "env \<Rightarrow> tabular_metadata \<Rightarrow> commit_table \<Rightarrow> (table_metadata, error) outcome" where
  "fc_prepare_table env m commit =
     (case m of
        TabularTable metadata \<Rightarrow>
          if \<not> check_table_requirements (ct_requirements commit) metadata
          then Err (CommitConflict (Identifier_to_string (ct_identifier commit)))
          else apply_table_updates env metadata (ct_updates commit)
      | _ \<Rightarrow> Err (InvalidFormat ''Table update on entity that is not a table''))"

definition conflict_if_exists :: "table_identifier \<Rightarrow> error \<Rightarrow> error" where
  "conflict_if_exists i e = (if e = ALREADY_EXISTS then CommitConflict (Identifier_to_string i) else e)"

definition fc_update_table ::
  "('b, 's) meta_io \<Rightarrow> env \<Rightarrow> string \<Rightarrow> file_catalog \<Rightarrow> commit_table \<Rightarrow> ('s table, 's) fop" where
  "fc_update_table io env transaction_uuid cat commit =
     (let i = ct_identifier commit
      in qbind (qlift (root_store io cat)) (\<lambda>store.
         qbind (fs_cached_entry i (fc_no_entry_for commit)) (\<lambda>entry.
         qbind (qlift (fc_prepare_table env (snd entry) commit)) (\<lambda>metadata.
         qbind (commit_metadata io (conflict_if_exists i) transaction_uuid store i (fst entry) (TabularTable metadata)) (\<lambda>_.
         fread (\<lambda>s. Table_new i (fs_store s) metadata))))))"

text \<open>A view that is there already is an error of the object store, not a conflict.\<close>

definition fc_prepare_view ::
  "env \<Rightarrow> (tabular_metadata \<Rightarrow> 't view_metadata option) \<Rightarrow> string \<times> string \<Rightarrow> tabular_metadata \<Rightarrow> 't commit_view
   \<Rightarrow> ('t view_metadata, error) outcome" where
  "fc_prepare_view env as_view messages metadata commit =
     (case as_view metadata of
        None \<Rightarrow> Err (InvalidFormat (fst messages))
      | Some vm \<Rightarrow>
          if \<not> check_view_requirements (cv_requirements commit) vm then Err (InvalidFormat (snd messages))
          else apply_view_updates env vm (cv_updates commit))"

definition fc_update_some_view ::
  "('b, 's) meta_io \<Rightarrow> env \<Rightarrow> string \<Rightarrow> (tabular_metadata \<Rightarrow> 't view_metadata option) \<Rightarrow> ('t view_metadata \<Rightarrow> tabular_metadata)
   \<Rightarrow> string \<times> string \<Rightarrow> file_catalog \<Rightarrow> 't commit_view \<Rightarrow> ('t view, 's) fop" where
  "fc_update_some_view io env transaction_uuid as_view of_view messages cat commit =
     (let i = cv_identifier commit
      in qbind (qlift (root_store io cat)) (\<lambda>store.
         qbind (fs_cached_entry i (Err (InvalidFormat ''Create table assertion''))) (\<lambda>entry.
         qbind (qlift (fc_prepare_view env as_view messages (snd entry) commit)) (\<lambda>metadata.
         qbind (commit_metadata io (\<lambda>e. e) transaction_uuid store i (fst entry) (of_view metadata)) (\<lambda>_.
         qlift (View_new i metadata))))))"

definition fc_update_view ::
  "('b, 's) meta_io \<Rightarrow> env \<Rightarrow> string \<Rightarrow> file_catalog \<Rightarrow> unit option commit_view \<Rightarrow> (unit option view, 's) fop" where
  "fc_update_view io env transaction_uuid =
     fc_update_some_view io env transaction_uuid
       (\<lambda>m. case m of TabularView v \<Rightarrow> Some v | _ \<Rightarrow> None) TabularView
       (''View update on entity that is not a view'', ''View requirements not valid'')"

definition fc_update_materialized_view ::
  "('b, 's) meta_io \<Rightarrow> env \<Rightarrow> string \<Rightarrow> file_catalog \<Rightarrow> table_identifier commit_view \<Rightarrow> (materialized_view, 's) fop" where
  "fc_update_materialized_view io env transaction_uuid =
     fc_update_some_view io env transaction_uuid
       (\<lambda>m. case m of TabularMaterializedView v \<Rightarrow> Some v | _ \<Rightarrow> None) TabularMaterializedView
       (''Materialized view update on entity that is not a materialized view'', ''Materialized view requirements not valid'')"

definition fc_register_table :: "table_identifier \<Rightarrow> string \<Rightarrow> ('s table, error) outcome" where
  "fc_register_table i location = Panic ''not implemented''"

section \<open>Lists of catalogs\<close>

definition parse_catalog :: "('b, 's) meta_io \<Rightarrow> string \<Rightarrow> string \<Rightarrow> string" where
  "parse_catalog io list_path path = hd (split_on (CHR ''/'') (relative_to io list_path path))"

definition fc_catalog_of_list :: "string \<Rightarrow> store_builder \<Rightarrow> string \<Rightarrow> file_catalog option" where
  "fc_catalog_of_list path builder name = Some \<lparr>fc_path = path @ ''/'' @ name, fc_object_store = builder\<rparr>"

definition fc_list_catalogs ::
  "('b, 's) meta_io \<Rightarrow> 's listing \<Rightarrow> string \<Rightarrow> store_builder \<Rightarrow> 's \<Rightarrow> (string list, error) outcome" where
  "fc_list_catalogs io li path builder st =
     rbind (unwrap (ok (Bucket_from_path path))) (\<lambda>bucket.
     rbind (unwrap (ok (builder_build io builder bucket))) (\<lambda>store.
     rbind (unwrap (ok (li_prefixes li store st (strip_prefix (mi_url_path io) path)))) (\<lambda>dirs.
     Ok (map (parse_catalog io path) dirs))))"

section \<open>Version names\<close>

definition name_suffix :: "bool \<Rightarrow> string" where
  "name_suffix gzipped = (if gzipped then ''.gz.metadata.json'' else ''.metadata.json'')"

definition version_name :: "('b, 's) meta_io \<Rightarrow> string \<Rightarrow> nat \<times> bool \<Rightarrow> string" where
  "version_name io path v = version_prefix io path @ show_nat (fst v) @ name_suffix (snd v)"

definition version_path :: "string \<Rightarrow> nat \<times> bool \<Rightarrow> string" where
  "version_path location v = location @ ''/metadata/v'' @ show_nat (fst v) @ name_suffix (snd v)"

lemma trim_end_once:
  assumes "pat \<noteq> []" "\<not> ends_with pat s"
  shows "trim_end_matches pat (s @ pat) = s"
  using assms trim_start_append [of "rev pat" "rev s"] trim_start_none [of "rev pat" "rev s"]
  by (simp add: trim_end_matches_def ends_with_def)

lemma trim_end_none: "\<not> ends_with pat s \<Longrightarrow> trim_end_matches pat s = s"
  by (simp add: trim_end_matches_def ends_with_def trim_start_none)

lemma digits_not_ends:
  assumes "\<not> is_digit_string [c]" shows "\<not> ends_with (pat @ [c]) (show_nat n)"
proof
  assume "ends_with (pat @ [c]) (show_nat n)"
  then have "c \<in> set (show_nat n)"
    using show_nat_nonempty [of n] by (cases "rev (show_nat n)") (auto simp: ends_with_def)
  then show False using assms show_nat_digits [of n] by (auto simp: is_digit_string_def)
qed

lemma trim_suffix:
  "trim_end_matches ''.gz'' (trim_end_matches ''.metadata.json'' (show_nat n @ name_suffix g)) = show_nat n"
proof -
  have digits: "\<not> ends_with ''.metadata.json'' (show_nat n)" "\<not> ends_with ''.gz'' (show_nat n)"
    using digits_not_ends [of "CHR ''n''" "''.metadata.jso''" n] digits_not_ends [of "CHR ''z''" "''.g''" n]
    by (simp_all add: is_digit_string_def digit_value_def)
  have "\<not> ends_with ''.metadata.json'' (show_nat n @ ''.gz'')"
    by (simp add: ends_with_def)
  then have "trim_end_matches ''.metadata.json'' ((show_nat n @ ''.gz'') @ ''.metadata.json'') = show_nat n @ ''.gz''"
    by (intro trim_end_once) simp_all
  then show ?thesis
    using digits trim_end_once [of "''.metadata.json''" "show_nat n"] trim_end_once [of "''.gz''" "show_nat n"]
    by (cases g) (simp_all add: name_suffix_def trim_end_none)
qed

lemma no_char_in_name:
  assumes "digit_value c = None" "c \<notin> set ''.gz.metadata.json''"
  shows "c \<notin> set (show_nat n @ name_suffix g)"
  using assms show_nat_digits [of n] by (cases g) (auto simp: is_digit_string_def name_suffix_def)

lemma no_slash_or_v:
  "CHR ''/'' \<notin> set (show_nat n @ name_suffix g)" "CHR ''v'' \<notin> set (show_nat n @ name_suffix g)"
  by (rule no_char_in_name; simp add: digit_value_def)+

lemma starts_with_head: "starts_with pat s \<Longrightarrow> c \<in> set pat \<Longrightarrow> c \<in> set s"
  by (metis append_take_drop_id in_set_conv_decomp starts_with_def Un_iff set_append)

lemma starts_no_v: "\<not> starts_with (CHR ''v'' # pat) (show_nat n @ name_suffix g)"
  using starts_with_head [of "CHR ''v'' # pat" "show_nat n @ name_suffix g" "CHR ''v''"] no_slash_or_v(2) [of n g]
  by auto

lemma parse_version_path:
  assumes "n < 2 ^ 64"
  shows "parse_version (version_path location (n, g)) = Ok n"
proof -
  have "CHR ''/'' \<notin> set (''v'' @ show_nat n @ name_suffix g)" using no_slash_or_v by simp
  then have "last (split_on (CHR ''/'') (version_path location (n, g))) = ''v'' @ show_nat n @ name_suffix g"
    using last_split_on [of "CHR ''/''" "''v'' @ show_nat n @ name_suffix g" "location @ ''/metadata''"]
    by (simp add: version_path_def)
  moreover have "trim_start_matches ''v'' (''v'' @ show_nat n @ name_suffix g) = show_nat n @ name_suffix g"
    using starts_no_v by (subst trim_start_append) (simp_all add: trim_start_none)
  ultimately show ?thesis
    using assms by (simp add: parse_version_def trim_suffix parse_u64_def parse_unsigned_show)
qed

lemma next_version_path:
  assumes "Suc n < 2 ^ 64"
  shows "new_filesystem_metadata_location location (version_path dir (n, g)) g' = Ok (version_path location (Suc n, g'))"
  using assms parse_version_path [of n dir g]
  by (cases g') (simp_all add: new_filesystem_metadata_location_def version_path_def name_suffix_def)

lemma version_prefix_v:
  "CHR ''v'' \<in> set (version_prefix io path)"
proof -
  have "CHR ''v'' \<in> set (trim_start_matches ''/'' (s @ ''/v''))" for s :: string
  proof (induction s)
    case Nil
    show ?case using trim_start_append [of "''/''" "''v''"] by (simp add: trim_start_none)
  next
    case (Cons c s)
    then show ?case
      using trim_start_append [of "''/''" "s @ ''/v''"]
      by (cases "c = CHR ''/''") (simp_all add: trim_start_none)
  qed
  then show ?thesis by (simp add: version_prefix_def)
qed

lemma file_version_name:
  assumes "fst v < 2 ^ 64"
  shows "file_version io path (version_name io path v) = Some (fst v)"
proof -
  let ?s = "show_nat (fst v) @ name_suffix (snd v)"
  have "\<not> starts_with (version_prefix io path) ?s"
    using starts_with_head [OF _ version_prefix_v] no_slash_or_v(2) by blast
  then have "trim_start_matches (version_prefix io path) (version_name io path v) = ?s"
    using version_prefix_v [of io path] trim_start_append [of "version_prefix io path" ?s]
    by (cases "version_prefix io path") (auto simp: version_name_def trim_start_none)
  moreover have "\<not> ends_with ''/'' ?s"
    using starts_with_head [of "''/''" "rev ?s" "CHR ''/''"] no_slash_or_v(1) [of "fst v" "snd v"]
    by (auto simp: ends_with_def)
  ultimately show ?thesis
    using assms by (simp add: file_version_def trim_end_none trim_suffix parse_u64_def parse_unsigned_show)
qed

lemma last_sort_key_max:
  fixes f :: "'a \<Rightarrow> nat"
  assumes "xs \<noteq> []"
  shows "last (sort_key f xs) \<in> set xs" "\<forall>x\<in>set xs. f x \<le> f (last (sort_key f xs))"
proof -
  have ne: "sort_key f xs \<noteq> []" using assms by (metis length_0_conv length_sort)
  show "last (sort_key f xs) \<in> set xs" using last_in_set [OF ne] by simp
  obtain ys y where ys: "sort_key f xs = ys @ [y]" using ne by (metis rev_exhaust)
  have "sorted (map f (ys @ [y]))" using sorted_sort_key [of f xs] ys by simp
  then have "\<forall>x\<in>set (ys @ [y]). f x \<le> f y" by (auto simp: sorted_append)
  then have "\<forall>x\<in>set xs. f x \<le> f y" using arg_cong [OF ys, of set] by simp
  then show "\<forall>x\<in>set xs. f x \<le> f (last (sort_key f xs))" unfolding ys by simp
qed

lemma sort_versions_last:
  assumes "xs \<noteq> []" "\<forall>x\<in>set xs. file_version io path x = Some (ver x)"
  shows "\<exists>ys. sort_versions io path xs = Ok ys \<and> ys \<noteq> [] \<and> last ys \<in> set xs \<and> (\<forall>x\<in>set xs. ver x \<le> ver (last ys))"
proof (cases "length xs < 2")
  case True
  then obtain x where "xs = [x]" using assms(1) by (cases xs; cases "tl xs") auto
  then show ?thesis by (simp add: sort_versions_def)
next
  case False
  let ?ys = "sort_key (\<lambda>x. the (file_version io path x)) xs"
  have "?ys \<noteq> []" using assms(1) by (metis length_0_conv length_sort)
  moreover have "sort_versions io path xs = Ok ?ys"
    using False assms(2) by (simp add: sort_versions_def list_ex_iff)
  moreover have "last ?ys \<in> set xs" "\<forall>x\<in>set xs. ver x \<le> ver (last ?ys)"
    using last_sort_key_max [OF assms(1), of "\<lambda>x. the (file_version io path x)"] assms(2) by simp_all
  ultimately show ?thesis by blast
qed

text \<open>
  The current metadata of an entity is its highest version. Whatever the order in which the
  store lists the directory, and whatever else is in it, if the files that look like versions are
  versions below 2^64, plain or compressed, then one with the greatest number is found; there is no
  panic, and the order is that of the numbers and not of the texts.
\<close>

theorem newest_file_is_the_highest_version:
  assumes "set (filter (is_version_file io path) listed) = version_name io path ` set vs"
    and "vs \<noteq> []" and "\<forall>v\<in>set vs. fst v < 2 ^ 64"
  shows "\<exists>v\<in>set vs. newest_file io path listed = Ok (version_name io path v) \<and> (\<forall>v'\<in>set vs. fst v' \<le> fst v)"
proof -
  let ?files = "filter (is_version_file io path) listed"
  have files: "\<exists>v\<in>set vs. x = version_name io path v \<and> file_version io path x = Some (fst v)" if "x \<in> set ?files" for x
    using that [unfolded assms(1)] assms(3) file_version_name by blast
  have ne: "?files \<noteq> []" using assms(1,2) by (metis image_is_empty set_empty)
  let ?ver = "\<lambda>x. the (file_version io path x)"
  have "\<forall>x\<in>set ?files. file_version io path x = Some (?ver x)" using files by (metis option.sel)
  from sort_versions_last [OF ne this] obtain f where
    f: "sort_versions io path ?files = Ok f" "f \<noteq> []" "last f \<in> set ?files" "\<forall>x\<in>set ?files. ?ver x \<le> ?ver (last f)"
    by blast
  obtain v where v: "v \<in> set vs" "last f = version_name io path v" "file_version io path (last f) = Some (fst v)"
    using files [OF f(3)] by blast
  have "fst v' \<le> fst v" if "v' \<in> set vs" for v'
  proof -
    have "version_name io path v' \<in> set ?files" unfolding assms(1) using that by blast
    then show ?thesis using f(4) v(3) file_version_name [of v' io path] assms(3) that by (metis option.sel)
  qed
  then show ?thesis using v(1,2) f(1,2) by (auto simp: newest_file_def simp del: filter.simps)
qed

theorem newest_file_is_the_highest_version_witness:
  "\<exists>v. newest_file sample_meta_io ''w/n/t/metadata''
     [''w/n/t/metadata/v10.metadata.json'', ''w/n/t/metadata/v2.metadata.json'', ''w/n/t/metadata/v9.gz.metadata.json'',
      ''w/n/t/metadata/version-hint.text''] = Ok (version_name sample_meta_io ''w/n/t/metadata'' v) \<and> fst v = 10"
proof -
  let ?vs = "[(10, False), (2, False), (9, True)]"
  have "set (filter (is_version_file sample_meta_io ''w/n/t/metadata'')
     [''w/n/t/metadata/v10.metadata.json'', ''w/n/t/metadata/v2.metadata.json'', ''w/n/t/metadata/v9.gz.metadata.json'',
      ''w/n/t/metadata/version-hint.text'']) = version_name sample_meta_io ''w/n/t/metadata'' ` set ?vs"
    by code_simp
  from newest_file_is_the_highest_version [OF this] show ?thesis by auto
qed

section \<open>Versions as pointers\<close>

lemma show_nat_eq [simp]: "show_nat m = show_nat n \<longleftrightarrow> m = n"
  by (metis parse_digits_show option.inject)

lemma version_path_eq [simp]:
  "version_path k (m, False) = version_path k' (n, False) \<longleftrightarrow> k = k' \<and> m = n"
proof
  assume eq: "version_path k (m, False) = version_path k' (n, False)"
  have last: "last (split_on (CHR ''/'') (version_path k (n, False))) = ''v'' @ show_nat n @ name_suffix False" for k n
    using last_split_on [of "CHR ''/''" "''v'' @ show_nat n @ name_suffix False" "k @ ''/metadata''"] no_slash_or_v(1) [of n False]
    by (simp add: version_path_def)
  have "show_nat m = show_nat n" using last [of k m] last [of k' n] eq by simp
  then show "k = k' \<and> m = n" using eq by (simp add: version_path_def)
qed simp

text \<open>
  The paths that exist, the versions of a table among them (a commit with the property of
  compression unset), and the commit that creates the next one.
\<close>

definition versions :: "string list \<Rightarrow> string \<Rightarrow> nat set" where
  "versions paths location = {n. version_path location (n, False) \<in> set paths}"

definition no_gaps :: "string list \<Rightarrow> bool" where
  "no_gaps paths \<longleftrightarrow> (\<forall>location n. Suc n \<in> versions paths location \<longrightarrow> n \<in> versions paths location)"

definition latest :: "string list \<Rightarrow> string \<Rightarrow> nat option" where
  "latest paths location = (if versions paths location = {} then None else Some (Max (versions paths location)))"

definition create_version :: "string \<Rightarrow> string \<Rightarrow> string list \<Rightarrow> string list option" where
  "create_version location previous paths =
     (case new_filesystem_metadata_location location previous False of
        Ok p \<Rightarrow> if p \<in> set paths then None else Some (p # paths)
      | _ \<Rightarrow> None)"

definition next_version :: "string \<Rightarrow> nat \<Rightarrow> nat \<Rightarrow> string list \<Rightarrow> string list option" where
  "next_version location old new paths =
     (if old \<in> versions paths location \<and> new = Suc old \<and> new < 2 ^ 64
      then create_version location (version_path location (old, False)) paths else None)"

lemma finite_versions: "finite (versions paths location)"
proof -
  have "(\<lambda>n. version_path location (n, False)) ` versions paths location \<subseteq> set paths" by (auto simp: versions_def)
  then show ?thesis by (meson List.finite_set finite_subset finite_imageD inj_onI version_path_eq)
qed

lemma versions_closed:
  assumes "no_gaps paths" "n \<in> versions paths l" "m \<le> n"
  shows "m \<in> versions paths l"
  using assms(3,2) by (induction rule: inc_induct) (use assms(1) in \<open>auto simp: no_gaps_def\<close>)

lemma next_version_Some:
  assumes "next_version l old new paths = Some paths'"
  shows "old \<in> versions paths l" "new = Suc old" "new \<notin> versions paths l" "paths' = version_path l (new, False) # paths"
  using assms by (auto simp: next_version_def create_version_def next_version_path versions_def split: if_splits)

lemma versions_next:
  "versions (version_path l (n, False) # paths) l' = (if l' = l then insert n (versions paths l') else versions paths l')"
  by (auto simp: versions_def)

lemma latest_Max:
  assumes "old \<in> versions paths l" "\<And>n. n \<in> versions paths l \<Longrightarrow> n \<le> old"
  shows "latest paths l = Some old"
proof -
  have "Max (versions paths l) = old" using assms finite_versions by (intro Max_eqI) auto
  then show ?thesis using assms(1) by (auto simp: latest_def)
qed

interpretation file_versions: pointer_store no_gaps latest next_version
proof unfold_locales
  fix paths paths' :: "string list" and l old new
  assume gaps: "no_gaps paths" and step: "next_version l old new paths = Some paths'"
  note new = next_version_Some [OF step]
  have top: "n \<le> old" if "n \<in> versions paths l" for n
    using versions_closed [OF gaps that, of "Suc old"] new(2,3) by (meson not_less_eq_eq)
  show "no_gaps paths'"
    using gaps new(1,2) by (auto simp: no_gaps_def new(4) versions_next)
  show "latest paths l = Some old" using latest_Max [OF new(1) top] .
  have "latest paths' l = Some new"
    using top new(2) by (intro latest_Max) (auto simp: new(4) versions_next dest: top)
  moreover have "latest paths' l' = latest paths l'" if "l' \<noteq> l" for l'
    using that by (simp add: latest_def new(4) versions_next)
  ultimately show "latest paths' = (latest paths)(l \<mapsto> new)" by (auto simp: fun_eq_iff)
qed



section \<open>A commit as a whole\<close>

named_theorems file_rules

lemma leaves_cache_ops [file_rules]:
  "leaves fs_cache (qlift r)" "leaves fs_cache (fread f)" "leaves fs_cache (fstore g)"
  "leaves fs_cache (fs_cached_entry i missing)" "leaves fs_cache (copy_metadata io h store a b)"
  by (auto simp: leaves_def qlift_def fread_def fstore_def fs_cached_entry_def copy_metadata_def split: outcome.splits)

lemma file_ops_succeed [file_rules]: "succeeds (fs_cache_insert i e)" "succeeds (fread (\<lambda>s. Ok (h s)))"
  by (simp_all add: succeeds_def fs_cache_insert_def fread_def)

lemma undoes_cache_insert [file_rules]: "undoes fs_cache (fs_cache_insert i e)"
  by (simp add: undoes_def fs_cache_insert_def)

lemma undoes_commit_metadata [file_rules]: "undoes fs_cache (commit_metadata io h uuid store i previous m)"
  unfolding commit_metadata_def Let_def
  by ((rule undoes_before, rule file_rules) | rule file_rules)+

lemma undoes_fc_update_table: "undoes fs_cache (fc_update_table io env uuid cat commit)"
  unfolding fc_update_table_def Let_def Table_new_def
  by ((rule undoes_before, rule file_rules) | (rule undoes_after, rule file_rules) | rule file_rules)+

lemma fstore_Ok: "fstore f s = (Ok u, s') \<longleftrightarrow> (\<exists>st. f (fs_store s) = Ok st \<and> s' = s\<lparr>fs_store := st\<rparr>)"
  by (auto simp: fstore_def split: outcome.splits)

lemma fread_Ok: "fread f s = (Ok x, s') \<longleftrightarrow> f s = Ok x \<and> s' = s"
  by (auto simp: fread_def)

lemma commit_metadata_Ok:
  assumes "commit_metadata io h uuid store i previous m s = (Ok u, s')"
  shows "\<exists>st st' location. new_filesystem_metadata_location (tabular_location m) previous
      (ends_with ''.gz.metadata.json'' (tabular_metadata_location uuid m)) = Ok location \<and>
    put_metadata io store (fs_store s) (tabular_metadata_location uuid m) m = Ok st \<and>
    map_err h (mi_copy_if_not_exists io store st (strip_prefix (mi_url_path io) (tabular_metadata_location uuid m))
      (strip_prefix (mi_url_path io) location)) = Ok st' \<and>
    fs_cache s' = (fs_cache s)(i \<mapsto> (location, m))"
  using assms
  by (fastforce simp: commit_metadata_def Let_def qbind_Ok_iff fstore_Ok copy_metadata_def fs_cache_insert_def qlift_def)

lemma map_err_Ok: "map_err h r = Ok x \<longleftrightarrow> r = Ok x"
  by (cases r) auto


text \<open>A commit that unsets nothing and one that turns compression on, from the same cached entry.\<close>

definition sample_file_catalog :: file_catalog where
  "sample_file_catalog = \<lparr>fc_path = ''/w'', fc_object_store = MemoryBuilder\<rparr>"

definition sample_file_identifier :: table_identifier where
  "sample_file_identifier = \<lparr>id_namespace = [''n''], id_name = ''t''\<rparr>"

definition property_commit :: "string \<Rightarrow> string \<Rightarrow> commit_table" where
  "property_commit k v = \<lparr>ct_identifier = sample_file_identifier, ct_requirements = [],
     ct_updates = [SetProperties [k \<mapsto> v]]\<rparr>"

definition sample_file_state ::
  "(string \<rightharpoonup> tabular_metadata option) \<Rightarrow> (string \<rightharpoonup> tabular_metadata option) file_state" where
  "sample_file_state st = \<lparr>fs_store = st,
     fs_cache = [sample_file_identifier \<mapsto> (version_path ''/w/n/t'' (4, False), TabularTable (sample_table V3))], fs_renamed = []\<rparr>"

lemma sample_hint:
  "\<exists>st'. try_version_hint sample_meta_io store st location = Ok st' \<and>
     (\<forall>p. st' p \<noteq> None \<longrightarrow> st p \<noteq> None \<or> Some p = version_hint_path location)"
  by (auto simp: try_version_hint_def put_version_hint_def sample_meta_io_def ok_or_def strip_prefix_def
      split: outcome.splits option.splits)

lemma sample_commit_metadata:
  assumes "new_filesystem_metadata_location (tabular_location m) previous
      (ends_with ''.gz.metadata.json'' (tabular_metadata_location uuid m)) = Ok location"
    and "fs_store s location = None" "location \<noteq> tabular_metadata_location uuid m"
  shows "\<exists>s'. commit_metadata sample_meta_io h uuid store i previous m s = (Ok (), s') \<and>
    (\<forall>p. fs_store s' p \<noteq> None \<longrightarrow> fs_store s p \<noteq> None \<or> p = tabular_metadata_location uuid m \<or> p = location
      \<or> Some p = version_hint_path location)"
proof -
  let ?t = "tabular_metadata_location uuid m"
  let ?st = "(fs_store s)(?t \<mapsto> Some m, location \<mapsto> Some m)"
  obtain st' where st': "try_version_hint sample_meta_io store ?st location = Ok st'"
    "\<forall>p. st' p \<noteq> None \<longrightarrow> ?st p \<noteq> None \<or> Some p = version_hint_path location"
    using sample_hint [of store ?st location] by blast
  have put: "put_metadata sample_meta_io store (fs_store s) ?t m = Ok ((fs_store s)(?t \<mapsto> Some m))"
    by (simp add: put_metadata_def serialize_metadata_def sample_meta_io_def strip_prefix_def)
  have "map_err h (mi_copy_if_not_exists sample_meta_io store ((fs_store s)(?t \<mapsto> Some m))
      (strip_prefix (mi_url_path sample_meta_io) ?t) (strip_prefix (mi_url_path sample_meta_io) location)) = Ok ?st"
    using assms(2,3) by (simp add: sample_meta_io_def strip_prefix_def)
  then have "commit_metadata sample_meta_io h uuid store i previous m s
      = (Ok (), s\<lparr>fs_store := st', fs_cache := (fs_cache s)(i \<mapsto> (location, m))\<rparr>)"
    using put assms(1) st'(1)
    by (simp add: commit_metadata_def Let_def qbind_def fstore_def qlift_def copy_metadata_def fs_cache_insert_def)
  moreover have "fs_store s p \<noteq> None \<or> p = ?t \<or> p = location \<or> Some p = version_hint_path location" if "st' p \<noteq> None" for p
    using spec [OF st'(2), of p] that by (cases "p = ?t"; cases "p = location") simp_all
  ultimately show ?thesis by simp
qed

lemma sample_root: "root_store sample_meta_io sample_file_catalog = Ok LocalStore"
  by (simp add: root_store_def sample_file_catalog_def Bucket_from_path_def starts_with_any_def builder_build_def)

definition with_property :: "string \<Rightarrow> string \<Rightarrow> table_metadata" where
  "with_property k v = (sample_table V3)\<lparr>tm_properties := [k \<mapsto> v], tm_last_updated_ms := 200\<rparr>"

lemma sample_property_commit:
  "fc_prepare_table sample_env (TabularTable (sample_table V3)) (property_commit k v) = Ok (with_property k v)"
  by (simp add: fc_prepare_table_def property_commit_def check_table_requirements_def apply_table_updates_def
      apply_init_def sample_env_def with_property_def) (simp add: sample_table_def)

lemma sample_paths:
  "version_path ''s3://t'' (5, False) = ''s3://t/metadata/v5.metadata.json''"
  "version_path ''s3://t'' (5, True) = ''s3://t/metadata/v5.gz.metadata.json''"
  by code_simp+

lemma sample_locations:
  "tabular_metadata_location ''a'' (TabularTable (with_property ''k'' ''v'')) = ''s3://t/metadata/00001-a.metadata.json''"
  "tabular_metadata_location ''b'' (TabularTable (with_property WRITE_METADATA_COMPRESSION_CODEC ''gzip''))
     = ''s3://t/metadata/00001-b.gz.metadata.json''"
  "tabular_location (TabularTable (with_property k v)) = ''s3://t''"
  "new_filesystem_metadata_location ''s3://t'' (version_path ''/w/n/t'' (4, False)) False = Ok ''s3://t/metadata/v5.metadata.json''"
  "new_filesystem_metadata_location ''s3://t'' (version_path ''/w/n/t'' (4, False)) True = Ok ''s3://t/metadata/v5.gz.metadata.json''"
  "version_hint_path ''s3://t/metadata/v5.metadata.json'' = Some ''s3://t/metadata/version-hint.text''"
  "\<not> ends_with ''.gz.metadata.json'' ''s3://t/metadata/00001-a.metadata.json''"
  "ends_with ''.gz.metadata.json'' ''s3://t/metadata/00001-b.gz.metadata.json''"
  subgoal by (simp add: tabular_metadata_location_def tabular_location_def tabular_sequence_number_def
      tabular_properties_def with_property_def sample_table_def) code_simp
  subgoal by (simp add: tabular_metadata_location_def tabular_location_def tabular_sequence_number_def
      tabular_properties_def with_property_def sample_table_def) code_simp
  subgoal by (simp add: tabular_location_def with_property_def sample_table_def)
  subgoal using next_version_path [of 4 "''s3://t''" "''/w/n/t''" False False] by (simp add: sample_paths)
  subgoal using next_version_path [of 4 "''s3://t''" "''/w/n/t''" False True] by (simp add: sample_paths)
  subgoal by code_simp
  subgoal by code_simp
  by code_simp

lemma sample_update:
  assumes "commit_metadata sample_meta_io (conflict_if_exists sample_file_identifier) uuid LocalStore sample_file_identifier
      (version_path ''/w/n/t'' (4, False)) (TabularTable (with_property k v)) (sample_file_state st) = (Ok (), s')"
  shows "\<exists>t. fc_update_table sample_meta_io sample_env uuid sample_file_catalog (property_commit k v) (sample_file_state st)
      = (Ok t, s') \<and> tm_properties (tb_metadata t) = [k \<mapsto> v]"
proof -
  have i: "ct_identifier (property_commit k v) = sample_file_identifier" by (simp add: property_commit_def)
  have entry: "fs_cached_entry sample_file_identifier missing (sample_file_state st)
      = (Ok (version_path ''/w/n/t'' (4, False), TabularTable (sample_table V3)), sample_file_state st)" for missing
    by (simp add: fs_cached_entry_def fread_def sample_file_state_def)
  show ?thesis
    unfolding fc_update_table_def Let_def i qbind_def qlift_def sample_root entry
    using assms sample_property_commit [of k v]
    by (simp add: entry fread_def Table_new_def) (simp add: with_property_def)
qed

lemma sample_first_commit:
  "\<exists>s1. commit_metadata sample_meta_io (conflict_if_exists sample_file_identifier) ''a'' LocalStore sample_file_identifier
      (version_path ''/w/n/t'' (4, False)) (TabularTable (with_property ''k'' ''v'')) (sample_file_state Map.empty) = (Ok (), s1)
    \<and> fs_store s1 ''s3://t/metadata/v5.gz.metadata.json'' = None"
proof -
  let ?v = "version_path ''/w/n/t'' (4, False)" and ?i = sample_file_identifier
  let ?A = "TabularTable (with_property ''k'' ''v'')"
  have la: "new_filesystem_metadata_location (tabular_location ?A) ?v
      (ends_with ''.gz.metadata.json'' (tabular_metadata_location ''a'' ?A)) = Ok ''s3://t/metadata/v5.metadata.json''"
    unfolding sample_locations using sample_locations(4,7) by simp_all
  have ta: "''s3://t/metadata/v5.metadata.json'' \<noteq> tabular_metadata_location ''a'' ?A"
    unfolding sample_locations by simp_all
  have none: "fs_store (sample_file_state Map.empty) p = None" for p by (simp add: sample_file_state_def)
  from sample_commit_metadata [OF la none ta, of "conflict_if_exists ?i" LocalStore ?i]
  obtain s1 where A: "commit_metadata sample_meta_io (conflict_if_exists ?i) ''a'' LocalStore ?i ?v ?A
      (sample_file_state Map.empty) = (Ok (), s1)"
    and paths: "\<forall>p. fs_store s1 p \<noteq> None \<longrightarrow> fs_store (sample_file_state Map.empty) p \<noteq> None
      \<or> p = tabular_metadata_location ''a'' ?A \<or> p = ''s3://t/metadata/v5.metadata.json''
      \<or> Some p = version_hint_path ''s3://t/metadata/v5.metadata.json''"
    by (elim exE conjE)
  have "fs_store s1 ''s3://t/metadata/v5.gz.metadata.json'' = None"
    using spec [OF paths, of "''s3://t/metadata/v5.gz.metadata.json''"] by (simp add: none sample_locations)
  then show ?thesis using A by blast
qed


text \<open>
  Two commits through the file catalog from the same version can both succeed. Client A sets a
  property; client B, whose cache holds the same version 4 of the table, turns on compression and
  so creates \<open>v5.gz.metadata.json\<close> beside A's \<open>v5.metadata.json\<close>. Neither sees a conflict, and the
  metadata of B does not have the property that A set.
\<close>

theorem mixed_encodings_lose_an_update:
  "\<exists>t s1 u s2.
     fc_update_table sample_meta_io sample_env ''a'' sample_file_catalog (property_commit ''k'' ''v'')
       (sample_file_state Map.empty) = (Ok t, s1) \<and> tm_properties (tb_metadata t) ''k'' = Some ''v'' \<and>
     fc_update_table sample_meta_io sample_env ''b'' sample_file_catalog
       (property_commit WRITE_METADATA_COMPRESSION_CODEC ''gzip'') (sample_file_state (fs_store s1)) = (Ok u, s2) \<and>
     tm_properties (tb_metadata u) ''k'' = None"
proof -
  let ?v = "version_path ''/w/n/t'' (4, False)" and ?i = sample_file_identifier
  let ?B = "TabularTable (with_property WRITE_METADATA_COMPRESSION_CODEC ''gzip'')"
  obtain s1 where A: "commit_metadata sample_meta_io (conflict_if_exists ?i) ''a'' LocalStore ?i ?v
      (TabularTable (with_property ''k'' ''v'')) (sample_file_state Map.empty) = (Ok (), s1)"
    and none: "fs_store (sample_file_state (fs_store s1)) ''s3://t/metadata/v5.gz.metadata.json'' = None"
    using sample_first_commit by (auto simp: sample_file_state_def)
  have lb: "new_filesystem_metadata_location (tabular_location ?B) ?v
      (ends_with ''.gz.metadata.json'' (tabular_metadata_location ''b'' ?B)) = Ok ''s3://t/metadata/v5.gz.metadata.json''"
    unfolding sample_locations using sample_locations(5,8) by simp_all
  have tb: "''s3://t/metadata/v5.gz.metadata.json'' \<noteq> tabular_metadata_location ''b'' ?B"
    unfolding sample_locations by simp_all
  from sample_commit_metadata [OF lb none tb, of "conflict_if_exists ?i" LocalStore ?i]
  obtain s2 where B: "commit_metadata sample_meta_io (conflict_if_exists ?i) ''b'' LocalStore ?i ?v ?B
      (sample_file_state (fs_store s1)) = (Ok (), s2)"
    by (elim exE conjE)
  show ?thesis
    using sample_update [OF A] sample_update [OF B] by (auto simp: WRITE_METADATA_COMPRESSION_CODEC_def)
qed

end
