(* ===== verification/Predicates.thy ===== *)
theory Predicates
  imports Arrow_Transform Errors
begin

text \<open>
  Predicates on partitions (\<open>datafusion_iceberg/src/pruning_statistics.rs\<close>): the predicate of a
  query over the columns of a table becomes one over its partition fields, by which manifests and
  data files are left out. Expressions and scalars are those of DataFusion as far as the source
  looks at them; their evaluation is DataFusion's, and the locale below names what the
  transformation relies on.
\<close>

section \<open>Scalars and expressions\<close>

datatype scalar =
    SvBoolean "bool option"
  | SvInt16 "int option"
  | SvInt32 "i32 option"
  | SvInt64 "i64 option"
  | SvFloat32 "32 word option"
  | SvFloat64 "64 word option"
  | SvDate32 "i32 option"
  | SvDate64 "i64 option"
  | SvTime64Microsecond "i64 option"
  | SvTimestampMicrosecond "i64 option" "string option"
  | SvTimestampNanosecond "i64 option" "string option"
  | SvUtf8 "string option"
  | SvBinary "byte list option"
  | SvDecimal128 "int option" nat int
  | SvOther string bool

definition is_null :: "scalar \<Rightarrow> bool" where
  "is_null s =
     (case s of
        SvBoolean x \<Rightarrow> x = None | SvInt16 x \<Rightarrow> x = None | SvInt32 x \<Rightarrow> x = None | SvInt64 x \<Rightarrow> x = None
      | SvFloat32 x \<Rightarrow> x = None | SvFloat64 x \<Rightarrow> x = None | SvDate32 x \<Rightarrow> x = None | SvDate64 x \<Rightarrow> x = None
      | SvTime64Microsecond x \<Rightarrow> x = None | SvTimestampMicrosecond x tz \<Rightarrow> x = None
      | SvTimestampNanosecond x tz \<Rightarrow> x = None | SvUtf8 x \<Rightarrow> x = None | SvBinary x \<Rightarrow> x = None
      | SvDecimal128 x p sc \<Rightarrow> x = None | SvOther _ null \<Rightarrow> null)"

datatype operator = OpEq | OpNotEq | OpLt | OpLtEq | OpGt | OpGtEq | OpAnd | OpOr | OpPlus | OpOther string

text \<open>A column is its relation, if it is qualified, and its name.\<close>

type_synonym column = "string option \<times> string"

datatype expr =
    Column column
  | Literal scalar
  | BinaryExpr expr operator expr
  | IsNull expr
  | IsNotNull expr
  | Cast expr arrow_type
  | ScalarFunction string "expr list"
  | OtherExpr string "expr list"

fun column_refs :: "expr \<Rightarrow> column list" where
  "column_refs (Column c) = [c]"
| "column_refs (Literal v) = []"
| "column_refs (BinaryExpr l op r) = column_refs l @ column_refs r"
| "column_refs (IsNull e) = column_refs e"
| "column_refs (IsNotNull e) = column_refs e"
| "column_refs (Cast e t) = column_refs e"
| "column_refs (ScalarFunction f es) = concat (map column_refs es)"
| "column_refs (OtherExpr f es) = concat (map column_refs es)"

section \<open>Conversions of scalars\<close>

datatype df_error = IcebergError error | IcebergSpecError spec_error | OtherDfError string

definition null_error :: error where
  "null_error = InvalidFormat ''Value can't be null when converting to iceberg value''"

definition scalarvalue_to_value :: "scalar \<Rightarrow> (ice_value, error) outcome" where
  "scalarvalue_to_value scalar =
     (let refuse = Err (NotSupported ''Transforming to iceberg value'');
          known = (\<lambda>f x. rbind (ok_or null_error x) (\<lambda>v. Ok (f v)))
      in case scalar of
        SvBoolean x \<Rightarrow> rbind (ok_or null_error x) (\<lambda>v. Ok (VBoolean v))
      | SvInt32 x \<Rightarrow> known VInt x
      | SvInt64 x \<Rightarrow> known VLongInt x
      | SvDate32 x \<Rightarrow> known VDate x
      | SvTime64Microsecond x \<Rightarrow> known VTime x
      | SvTimestampMicrosecond x tz \<Rightarrow>
          if tz = Some ''UTC'' then known VTimestampTZ x else if tz = None then known VTimestamp x else refuse
      | SvTimestampNanosecond x tz \<Rightarrow>
          if tz = Some ''UTC'' then known VTimestampTZNano x else if tz = None then known VTimestampNano x else refuse
      | _ \<Rightarrow> refuse)"

definition value_to_scalarvalue :: "ice_value \<Rightarrow> (scalar, error) outcome" where
  "value_to_scalarvalue v =
     (case v of
        VBoolean x \<Rightarrow> Ok (SvBoolean (Some x))
      | VInt x \<Rightarrow> Ok (SvInt32 (Some x))
      | VLongInt x \<Rightarrow> Ok (SvInt64 (Some x))
      | VDate x \<Rightarrow> Ok (SvDate32 (Some x))
      | VTime x \<Rightarrow> Ok (SvTime64Microsecond (Some x))
      | VTimestamp x \<Rightarrow> Ok (SvTimestampMicrosecond (Some x) None)
      | VTimestampTZ x \<Rightarrow> Ok (SvTimestampMicrosecond (Some x) (Some ''UTC''))
      | VTimestampNano x \<Rightarrow> Ok (SvTimestampNanosecond (Some x) None)
      | VTimestampTZNano x \<Rightarrow> Ok (SvTimestampNanosecond (Some x) (Some ''UTC''))
      | _ \<Rightarrow> Err (NotSupported ''Transforming to iceberg value''))"

section \<open>The function \<open>date_transform\<close>\<close>

datatype columnar_value = ColumnarArray arrow_array | ColumnarScalar scalar

definition invoke_transform :: "string \<Rightarrow> (transform, df_error) outcome" where
  "invoke_transform name =
     (if name = ''year'' then Ok Year else if name = ''month'' then Ok Month
      else if name = ''day'' then Ok Day else if name = ''hour'' then Ok Hour
      else Err (IcebergError (InvalidFormat ''Partition transform'')))"

definition invoke_with_args ::
  "arrow_lib \<Rightarrow> value_lib \<Rightarrow> columnar_value list \<Rightarrow> (columnar_value, df_error) outcome" where
  "invoke_with_args al lib args =
     (if length args < 2 then Panic ''index out of bounds''
      else case args ! 0 of
        ColumnarScalar (SvUtf8 (Some name)) \<Rightarrow>
          rbind (invoke_transform name) (\<lambda>tr.
          case args ! 1 of
            ColumnarArray array \<Rightarrow>
              rbind (map_err IcebergError (transform_arrow al array tr)) (\<lambda>a. Ok (ColumnarArray a))
          | ColumnarScalar scalar \<Rightarrow>
              rbind (map_err IcebergError (scalarvalue_to_value scalar)) (\<lambda>v.
              rbind (map_err IcebergSpecError (value_transform lib v tr)) (\<lambda>w.
              rbind (map_err IcebergError (value_to_scalarvalue w)) (\<lambda>s.
              Ok (ColumnarScalar s)))))
      | _ \<Rightarrow> Err (IcebergError (InvalidFormat ''Partition transform'')))"

section \<open>Literals\<close>

definition fold_cast_literal ::
  "(scalar \<Rightarrow> arrow_type \<Rightarrow> scalar option) \<Rightarrow> expr \<Rightarrow> ice_type \<Rightarrow> expr option" where
  "fold_cast_literal cast_to e source_type =
     (case e of
        Literal v \<Rightarrow> Some (Literal v)
      | Cast (Literal v) data_type \<Rightarrow>
          Option.bind (cast_to v data_type) (\<lambda>value.
          case value of
            SvTimestampNanosecond nanos tz \<Rightarrow>
              if nanos \<noteq> None \<and> tz = None \<and> source_type = Primitive PTimestamp \<and> the nanos mod 1000 = 0
              then Some (Literal (SvTimestampMicrosecond (Some (the nanos div 1000)) None))
              else if source_type \<noteq> Primitive PTimestampNs \<and> source_type \<noteq> Primitive PTimestamptzNs then None
              else Some (Literal value)
          | _ \<Rightarrow> Some (Literal value))
      | _ \<Rightarrow> None)"

definition literal_matches_source :: "scalar \<Rightarrow> bound_partition_field \<Rightarrow> bool" where
  "literal_matches_source v field =
     (case v of
        SvInt32 (Some x) \<Rightarrow> bf_field_type field = Primitive PInt
      | SvInt64 (Some x) \<Rightarrow> bf_field_type field = Primitive PLong
      | SvDate32 (Some x) \<Rightarrow> bf_field_type field = Primitive PDate
      | SvTime64Microsecond (Some x) \<Rightarrow> bf_field_type field = Primitive PTime
      | SvUtf8 (Some x) \<Rightarrow> bf_field_type field = Primitive PString
      | SvTimestampMicrosecond (Some x) tz \<Rightarrow>
          bf_field_type field = Primitive PTimestamp \<and> tz = None
          \<or> bf_field_type field = Primitive PTimestamptz \<and> tz = Some ''UTC''
      | SvTimestampNanosecond (Some x) tz \<Rightarrow>
          bf_field_type field = Primitive PTimestampNs \<and> tz = None
          \<or> bf_field_type field = Primitive PTimestamptzNs \<and> tz = Some ''UTC''
      | _ \<Rightarrow> False)"

definition date_transform :: "string \<Rightarrow> expr \<Rightarrow> expr" where
  "date_transform name e = ScalarFunction ''date_transform'' [Literal (SvUtf8 (Some name)), e]"

definition int32_literal :: "int \<Rightarrow> expr option" where
  "int32_literal x = (if in_i32 x then Some (Literal (SvInt32 (Some x))) else None)"

definition in_i16 :: "int \<Rightarrow> bool" where
  "in_i16 x \<longleftrightarrow> - (2 ^ 15) \<le> x \<and> x < 2 ^ 15"

text \<open>\<open>value.checked_sub(value.rem_euclid(width))\<close>, for a width that is positive.\<close>

definition truncate_down :: "(int \<Rightarrow> bool) \<Rightarrow> int \<Rightarrow> nat \<Rightarrow> int option" where
  "truncate_down in_type x width = (let y = x - x mod int width in if in_type y then Some y else None)"

definition transform_literal :: "expr \<Rightarrow> transform \<Rightarrow> expr option" where
  "transform_literal e tr =
     (case e of
        Literal v \<Rightarrow>
          if is_null v then None
          else (case tr of
            Year \<Rightarrow> Some (date_transform ''year'' e)
          | Month \<Rightarrow> Some (date_transform ''month'' e)
          | Day \<Rightarrow>
              (case v of
                 SvTimestampMicrosecond (Some micros) tz \<Rightarrow>
                   if micros < 0 then int32_literal (micros div 86400000000) else Some (date_transform ''day'' e)
               | SvTimestampNanosecond (Some nanos) tz \<Rightarrow>
                   if nanos < 0 then int32_literal (nanos div 86400000000000) else Some (date_transform ''day'' e)
               | _ \<Rightarrow> Some (date_transform ''day'' e))
          | Hour \<Rightarrow>
              (case v of
                 SvTimestampMicrosecond (Some micros) tz \<Rightarrow>
                   if micros < 0 then int32_literal (micros div 3600000000) else Some (date_transform ''hour'' e)
               | SvTimestampNanosecond (Some nanos) tz \<Rightarrow>
                   if nanos < 0 then int32_literal (nanos div 3600000000000) else Some (date_transform ''hour'' e)
               | _ \<Rightarrow> Some (date_transform ''hour'' e))
          | Identity \<Rightarrow> Some e
          | Truncate width \<Rightarrow>
              if width = 0 then None
              else (case v of
                 SvInt16 (Some x) \<Rightarrow>
                   if width < 2 ^ 15
                   then map_option (\<lambda>y. Literal (SvInt16 (Some y))) (truncate_down in_i16 x width) else None
               | SvInt32 (Some x) \<Rightarrow>
                   if width < 2 ^ 31
                   then map_option (\<lambda>y. Literal (SvInt32 (Some y))) (truncate_down in_i32 x width) else None
               | SvInt64 (Some x) \<Rightarrow> map_option (\<lambda>y. Literal (SvInt64 (Some y))) (truncate_down in_i64 x width)
               | _ \<Rightarrow> None)
          | _ \<Rightarrow> None)
      | _ \<Rightarrow> None)"

section \<open>Predicates\<close>

definition partition_comparison :: "expr \<Rightarrow> operator \<Rightarrow> expr \<Rightarrow> expr" where
  "partition_comparison column op literal = BinaryExpr column op literal"

definition HOUR_ID_MODULUS :: i64 where
  "HOUR_ID_MODULUS = 2 ^ 32"

text \<open>
  The hours that an operator admits, both ends included; the hour after the one of a negative
  timestamp is where older writers put it.
\<close>

definition hour_interval :: "operator \<Rightarrow> i64 \<Rightarrow> i64 \<Rightarrow> (i64 \<times> i64) option" where
  "hour_interval op timestamp units_per_hour =
     (let hour = timestamp div units_per_hour;
          upper = checked_add_i64 hour (if timestamp < 0 then 1 else 0)
      in case op of
        OpEq \<Rightarrow> map_option (\<lambda>u. (hour, u)) upper
      | OpLt \<Rightarrow> map_option (\<lambda>u. (- (2 ^ 63) div units_per_hour, u)) upper
      | OpLtEq \<Rightarrow> map_option (\<lambda>u. (- (2 ^ 63) div units_per_hour, u)) upper
      | OpGt \<Rightarrow> Some (hour, (2 ^ 63 - 1) div units_per_hour)
      | OpGtEq \<Rightarrow> Some (hour, (2 ^ 63 - 1) div units_per_hour)
      | _ \<Rightarrow> None)"

definition wrapped_id :: "i64 \<Rightarrow> i32 option" where
  "wrapped_id hour =
     (let signed = (hour - - (2 ^ 31)) mod HOUR_ID_MODULUS + - (2 ^ 31)
      in if in_i32 signed then Some signed else None)"

definition hour_check :: "column \<Rightarrow> i32 \<Rightarrow> i32 \<Rightarrow> expr" where
  "hour_check c lower upper =
     (let literal = (\<lambda>x. Literal (SvInt32 (Some x)))
      in if lower = upper then partition_comparison (Column c) OpEq (literal lower)
      else BinaryExpr (partition_comparison (Column c) OpGtEq (literal lower))
             (if lower < upper then OpAnd else OpOr)
             (partition_comparison (Column c) OpLtEq (literal upper)))"

definition project_hour_predicate ::
  "column \<Rightarrow> string \<Rightarrow> operator \<Rightarrow> i64 \<Rightarrow> i64 \<Rightarrow> expr option" where
  "project_hour_predicate source_column partition_name op timestamp units_per_hour =
     Option.bind (hour_interval op timestamp units_per_hour) (\<lambda>(lower, upper).
     Option.bind (checked_sub_i64 upper lower) (\<lambda>width.
     if width \<ge> HOUR_ID_MODULUS - 1 then None
     else Option.bind (wrapped_id lower) (\<lambda>lower.
          Option.bind (wrapped_id upper) (\<lambda>upper.
          Some (hour_check (fst source_column, partition_name) lower upper)))))"

definition flip_operator :: "operator \<Rightarrow> operator option" where
  "flip_operator op =
     (case op of
        OpLt \<Rightarrow> Some OpGt | OpLtEq \<Rightarrow> Some OpGtEq | OpGt \<Rightarrow> Some OpLt | OpGtEq \<Rightarrow> Some OpLtEq
      | OpEq \<Rightarrow> Some OpEq | OpNotEq \<Rightarrow> Some OpNotEq | _ \<Rightarrow> None)"

definition project_operator :: "transform \<Rightarrow> operator \<Rightarrow> operator option" where
  "project_operator tr op =
     (let ordered = (case op of
            OpEq \<Rightarrow> Some OpEq | OpLtEq \<Rightarrow> Some OpLtEq | OpGtEq \<Rightarrow> Some OpGtEq
          | OpLt \<Rightarrow> Some OpLtEq | OpGt \<Rightarrow> Some OpGtEq | _ \<Rightarrow> None)
      in case tr of
        Identity \<Rightarrow> Some op
      | Bucket _ \<Rightarrow> None
      | Year \<Rightarrow> ordered | Month \<Rightarrow> ordered | Day \<Rightarrow> ordered | Hour \<Rightarrow> ordered
      | Truncate _ \<Rightarrow> ordered
      | Void \<Rightarrow> None)"

definition legacy_comparison :: "expr \<Rightarrow> operator \<Rightarrow> expr \<Rightarrow> expr option" where
  "legacy_comparison column op literal =
     (let legacy = BinaryExpr literal OpPlus (Literal (SvInt32 (Some 1)))
      in case op of
        OpEq \<Rightarrow> Some (BinaryExpr (partition_comparison column OpGtEq literal) OpAnd
                  (partition_comparison column OpLtEq legacy))
      | OpLtEq \<Rightarrow> Some (partition_comparison column op legacy)
      | OpGtEq \<Rightarrow> Some (partition_comparison column op literal)
      | _ \<Rightarrow> None)"

definition project_comparison ::
  "column \<Rightarrow> bound_partition_field \<Rightarrow> operator \<Rightarrow> expr \<Rightarrow> expr option" where
  "project_comparison c field op literal =
     Option.bind (project_operator (bf_transform field) op) (\<lambda>op'.
     Option.bind (transform_literal literal (bf_transform field)) (\<lambda>literal'.
     let column = Column (fst c, bf_name field);
         legacy_negative_day = (bf_transform field = Day \<and>
           (case literal of Literal (SvTimestampMicrosecond (Some x) _) \<Rightarrow> x < 0 | _ \<Rightarrow> False))
     in if bf_transform field = Month \<or> legacy_negative_day then legacy_comparison column op' literal'
        else Some (partition_comparison column op' literal')))"

definition project_hour :: "column \<Rightarrow> bound_partition_field \<Rightarrow> operator \<Rightarrow> expr \<Rightarrow> expr option" where
  "project_hour c field op literal =
     (case literal of
        Literal (SvTimestampMicrosecond (Some x) _) \<Rightarrow> project_hour_predicate c (bf_name field) op x 3600000000
      | Literal (SvTimestampNanosecond (Some x) _) \<Rightarrow> project_hour_predicate c (bf_name field) op x 3600000000000
      | _ \<Rightarrow> None)"

definition source_field :: "bound_partition_field list \<Rightarrow> string \<Rightarrow> bound_partition_field option" where
  "source_field pfs name = find (\<lambda>field. bf_source_name field = name) pfs"

text \<open>A comparison of a column and another expression; \<open>column_on_left\<close> tells their order.\<close>

definition transform_comparison ::
  "(scalar \<Rightarrow> arrow_type \<Rightarrow> scalar option) \<Rightarrow> bound_partition_field list \<Rightarrow> column \<Rightarrow> expr \<Rightarrow> bool \<Rightarrow> operator
     \<Rightarrow> expr option" where
  "transform_comparison cast_to pfs c other column_on_left op =
     Option.bind (source_field pfs (snd c)) (\<lambda>field.
     Option.bind (fold_cast_literal cast_to other (bf_field_type field)) (\<lambda>literal.
     if bf_transform field \<noteq> Identity
        \<and> \<not> (case literal of Literal v \<Rightarrow> literal_matches_source v field | _ \<Rightarrow> False) then None
     else Option.bind (if column_on_left then Some op else flip_operator op) (\<lambda>op.
       if bf_transform field = Hour then project_hour c field op literal
       else project_comparison c field op literal)))"

definition null_check_transform :: "transform \<Rightarrow> bool" where
  "null_check_transform tr = (tr \<noteq> Void)"

definition transform_null_check ::
  "(expr \<Rightarrow> expr) \<Rightarrow> bound_partition_field list \<Rightarrow> column \<Rightarrow> expr option" where
  "transform_null_check check pfs c =
     Option.bind (source_field pfs (snd c)) (\<lambda>field.
     if null_check_transform (bf_transform field) then Some (check (Column (fst c, bf_name field))) else None)"

definition identity_column :: "bound_partition_field list \<Rightarrow> column \<Rightarrow> bool" where
  "identity_column pfs c =
     list_ex (\<lambda>field. bf_source_name field = snd c \<and> bf_name field = snd c \<and> bf_transform field = Identity) pfs"

definition transform_atom ::
  "(scalar \<Rightarrow> arrow_type \<Rightarrow> scalar option) \<Rightarrow> expr \<Rightarrow> bound_partition_field list \<Rightarrow> expr option" where
  "transform_atom cast_to e pfs =
     (if list_all (identity_column pfs) (column_refs e) then Some e
      else case e of
        IsNull (Column c) \<Rightarrow> transform_null_check IsNull pfs c
      | IsNotNull (Column c) \<Rightarrow> transform_null_check IsNotNull pfs c
      | BinaryExpr left op right \<Rightarrow>
          (case left of
             Column c \<Rightarrow> transform_comparison cast_to pfs c right True op
           | _ \<Rightarrow>
             (case right of
                Column c \<Rightarrow> transform_comparison cast_to pfs c left False op
              | _ \<Rightarrow> None))
      | _ \<Rightarrow> None)"

fun transform_predicate ::
  "(scalar \<Rightarrow> arrow_type \<Rightarrow> scalar option) \<Rightarrow> expr \<Rightarrow> bound_partition_field list \<Rightarrow> expr option" where
  "transform_predicate cast_to (BinaryExpr left op right) pfs =
     (if op = OpAnd \<or> op = OpOr then
        (case (transform_predicate cast_to left pfs, transform_predicate cast_to right pfs) of
           (Some l, Some r) \<Rightarrow> Some (BinaryExpr l op r)
         | (Some l, None) \<Rightarrow> if op = OpAnd then Some l else None
         | (None, r) \<Rightarrow> if op = OpAnd then r else None)
      else transform_atom cast_to (BinaryExpr left op right) pfs)"
| "transform_predicate cast_to e pfs = transform_atom cast_to e pfs"

section \<open>Evaluation\<close>

text \<open>
  A row is a scalar for every column; a partition is a row whose columns are the partition fields.
  The value of a scalar that is compared as an integer is paired with the null of its type.
\<close>

type_synonym row = "string \<Rightarrow> scalar"

definition order_key :: "scalar \<Rightarrow> (scalar \<times> int) option" where
  "order_key s =
     (case s of
        SvInt16 x \<Rightarrow> map_option (Pair (SvInt16 None)) x
      | SvInt32 x \<Rightarrow> map_option (Pair (SvInt32 None)) x
      | SvInt64 x \<Rightarrow> map_option (Pair (SvInt64 None)) x
      | SvDate32 x \<Rightarrow> map_option (Pair (SvDate32 None)) x
      | SvTime64Microsecond x \<Rightarrow> map_option (Pair (SvTime64Microsecond None)) x
      | SvTimestampMicrosecond x tz \<Rightarrow> map_option (Pair (SvTimestampMicrosecond None tz)) x
      | SvTimestampNanosecond x tz \<Rightarrow> map_option (Pair (SvTimestampNanosecond None tz)) x
      | _ \<Rightarrow> None)"

fun compare_int :: "operator \<Rightarrow> int \<Rightarrow> int \<Rightarrow> bool option" where
  "compare_int OpEq a b = Some (a = b)"
| "compare_int OpNotEq a b = Some (a \<noteq> b)"
| "compare_int OpLt a b = Some (a < b)"
| "compare_int OpLtEq a b = Some (a \<le> b)"
| "compare_int OpGt a b = Some (a > b)"
| "compare_int OpGtEq a b = Some (a \<ge> b)"
| "compare_int _ a b = None"

definition true_scalar :: scalar where "true_scalar = SvBoolean (Some True)"

definition wf_scalar :: "scalar \<Rightarrow> bool" where
  "wf_scalar s =
     (case s of
        SvInt32 x \<Rightarrow> pred_option in_i32 x | SvInt64 x \<Rightarrow> pred_option in_i64 x | SvDate32 x \<Rightarrow> pred_option in_i32 x
      | SvTime64Microsecond x \<Rightarrow> pred_option in_i64 x | SvTimestampMicrosecond x tz \<Rightarrow> pred_option in_i64 x
      | SvTimestampNanosecond x tz \<Rightarrow> pred_option in_i64 x | _ \<Rightarrow> True)"

fun literals :: "expr \<Rightarrow> scalar list" where
  "literals (Column c) = []"
| "literals (Literal v) = [v]"
| "literals (BinaryExpr l op r) = literals l @ literals r"
| "literals (IsNull e) = literals e"
| "literals (IsNotNull e) = literals e"
| "literals (Cast e t) = literals e"
| "literals (ScalarFunction f es) = concat (map literals es)"
| "literals (OtherExpr f es) = concat (map literals es)"

text \<open>
  What the transformation expects of an evaluator: \<open>eval\<close> has no value where the evaluation fails.
  A predicate accepts a row when it is true of it and rejects it when it is false or null. The
  columns of an expression decide its value; a conjunction or disjunction treats acceptance and
  rejection as in the logic of three values; the functions it calls are \<open>date_transform\<close>.
\<close>

locale evaluator =
  fixes eval :: "row \<Rightarrow> expr \<Rightarrow> scalar option"
    and binop :: "operator \<Rightarrow> scalar \<Rightarrow> scalar \<Rightarrow> scalar option"
    and cast_to :: "scalar \<Rightarrow> arrow_type \<Rightarrow> scalar option"
    and al :: arrow_lib
    and lib :: value_lib
  assumes eval_column: "eval r (Column c) = Some (r (snd c))"
    and eval_literal: "eval r (Literal v) = Some v"
    and eval_refs: "(\<And>c. c \<in> set (column_refs e) \<Longrightarrow> r (snd c) = r' (snd c)) \<Longrightarrow> eval r e = eval r' e"
    and eval_IsNull: "eval r (IsNull e) = map_option (\<lambda>s. SvBoolean (Some (is_null s))) (eval r e)"
    and eval_IsNotNull: "eval r (IsNotNull e) = map_option (\<lambda>s. SvBoolean (Some (\<not> is_null s))) (eval r e)"
    and eval_binop: "op \<noteq> OpAnd \<Longrightarrow> op \<noteq> OpOr \<Longrightarrow>
      eval r (BinaryExpr a op b) = Option.bind (eval r a) (\<lambda>x. Option.bind (eval r b) (binop op x))"
    and eval_Cast: "eval r (Cast (Literal v) t) = cast_to v t"
    and cast_to_wf: "cast_to v t = Some w \<Longrightarrow> wf_scalar v \<Longrightarrow> wf_scalar w"
    and eval_date_transform: "eval r (date_transform name e) = Option.bind (eval r e) (\<lambda>s.
      case invoke_with_args al lib [ColumnarScalar (SvUtf8 (Some name)), ColumnarScalar s] of
        Ok (ColumnarScalar w) \<Rightarrow> Some w | _ \<Rightarrow> None)"
    and accept_and: "eval r (BinaryExpr a OpAnd b) = Some true_scalar \<Longrightarrow>
      eval r a = Some true_scalar \<and> eval r b = Some true_scalar"
    and accept_or: "eval r (BinaryExpr a OpOr b) = Some true_scalar \<Longrightarrow>
      eval r a = Some true_scalar \<or> eval r b = Some true_scalar"
    and keep_and: "eval r a \<in> {None, Some true_scalar} \<Longrightarrow> eval r b \<in> {None, Some true_scalar} \<Longrightarrow>
      eval r (BinaryExpr a OpAnd b) \<in> {None, Some true_scalar}"
    and keep_or: "eval r a \<in> {None, Some true_scalar} \<or> eval r b \<in> {None, Some true_scalar} \<Longrightarrow>
      eval r (BinaryExpr a OpOr b) \<in> {None, Some true_scalar}"
    and binop_flip: "flip_operator op = Some op' \<Longrightarrow> binop op x y = binop op' y x"
    and binop_order: "order_key x = Some (k, i) \<Longrightarrow> order_key y = Some (k, j) \<Longrightarrow> compare_int op i j = Some verdict \<Longrightarrow>
      binop op x y = Some (SvBoolean (Some verdict))"
    and binop_null: "is_null x \<Longrightarrow> compare_int op 0 0 \<noteq> None \<Longrightarrow> binop op x y \<noteq> Some true_scalar"
    and binop_plus: "in_i32 (i + j) \<Longrightarrow>
      binop OpPlus (SvInt32 (Some i)) (SvInt32 (Some j)) = Some (SvInt32 (Some (i + j)))"
    and binop_nanos: "nanos mod 1000 = 0 \<Longrightarrow>
      binop op (SvTimestampMicrosecond micros None) (SvTimestampNanosecond (Some nanos) None) = Some true_scalar \<Longrightarrow>
      binop op (SvTimestampMicrosecond micros None) (SvTimestampMicrosecond (Some (nanos div 1000)) None) = Some true_scalar"

section \<open>Partition values\<close>

definition null_of_type :: "ice_type \<Rightarrow> scalar option" where
  "null_of_type t =
     (case t of
        Primitive PInt \<Rightarrow> Some (SvInt32 None)
      | Primitive PLong \<Rightarrow> Some (SvInt64 None)
      | Primitive PDate \<Rightarrow> Some (SvDate32 None)
      | Primitive PTime \<Rightarrow> Some (SvTime64Microsecond None)
      | Primitive PTimestamp \<Rightarrow> Some (SvTimestampMicrosecond None None)
      | Primitive PTimestamptz \<Rightarrow> Some (SvTimestampMicrosecond None (Some ''UTC''))
      | Primitive PTimestampNs \<Rightarrow> Some (SvTimestampNanosecond None None)
      | Primitive PTimestamptzNs \<Rightarrow> Some (SvTimestampNanosecond None (Some ''UTC''))
      | _ \<Rightarrow> None)"

text \<open>The scalars of a column: those of its type, when it is compared as an integer.\<close>

definition scalar_of_type :: "ice_type \<Rightarrow> scalar \<Rightarrow> bool" where
  "scalar_of_type t s \<longleftrightarrow> wf_scalar s \<and>
     (case null_of_type t of
        Some k \<Rightarrow> s = k \<or> (case order_key s of Some (k', x) \<Rightarrow> k' = k | None \<Rightarrow> False)
      | None \<Rightarrow> order_key s = None)"

definition transform_scalar :: "value_lib \<Rightarrow> transform \<Rightarrow> scalar \<Rightarrow> scalar option" where
  "transform_scalar lib tr s =
     Option.bind (ok (scalarvalue_to_value s)) (\<lambda>v.
     Option.bind (ok (value_transform lib v tr)) (\<lambda>w. ok (value_to_scalarvalue w)))"

text \<open>
  The ids that older writers record beside the transformed value \<open>q\<close>: days and hours before 1970
  that are truncated towards zero, months that count from 1.
\<close>

definition legacy_id :: "transform \<Rightarrow> scalar \<Rightarrow> scalar \<Rightarrow> scalar option" where
  "legacy_id tr s q =
     (case (tr, s) of
        (Day, SvTimestampMicrosecond (Some x) tz) \<Rightarrow>
          if x < 0 then Some (SvInt32 (Some (- ((- x) div 86400000000)))) else None
      | (Hour, SvTimestampMicrosecond (Some x) tz) \<Rightarrow>
          if x < 0 then Some (SvInt32 (Some (wrap32 (- ((- x) div 3600000000))))) else None
      | (Hour, SvTimestampNanosecond (Some x) tz) \<Rightarrow>
          if x < 0 then Some (SvInt32 (Some (wrap32 (- ((- x) div 3600000000000))))) else None
      | (Month, _) \<Rightarrow> (case q of SvInt32 (Some m) \<Rightarrow> Some (SvInt32 (Some (m + 1))) | _ \<Rightarrow> None)
      | _ \<Rightarrow> None)"

text \<open>
  A writer records \<open>p\<close> for the value \<open>s\<close> of the source column. Integers near the minimum of their
  type are left out of \<open>Truncate\<close>: there the truncation wraps.
\<close>

definition truncation_fits :: "transform \<Rightarrow> scalar \<Rightarrow> bool" where
  "truncation_fits tr s =
     (case (tr, s) of
        (Truncate w, SvInt32 (Some x)) \<Rightarrow> in_i32 (x - x mod int w)
      | (Truncate w, SvInt64 (Some x)) \<Rightarrow> in_i64 (x - x mod int w)
      | _ \<Rightarrow> True)"

definition recorded :: "value_lib \<Rightarrow> transform \<Rightarrow> scalar \<Rightarrow> scalar \<Rightarrow> bool" where
  "recorded lib tr s p \<longleftrightarrow>
     (tr \<noteq> Void \<longrightarrow> is_null p = is_null s) \<and>
     (tr = Identity \<longrightarrow> p = s) \<and>
     (\<not> is_null s \<and> tr \<notin> {Identity, Void} \<longrightarrow>
        truncation_fits tr s \<and>
        (case transform_scalar lib tr s of
           Some q \<Rightarrow> p = q \<or> legacy_id tr s q = Some p
         | None \<Rightarrow> (case tr of Bucket _ \<Rightarrow> True | Truncate _ \<Rightarrow> order_key s = None | _ \<Rightarrow> False)))"

definition partition_of :: "value_lib \<Rightarrow> bound_partition_field list \<Rightarrow> row \<Rightarrow> row \<Rightarrow> bool" where
  "partition_of lib pfs row part \<longleftrightarrow>
     (\<forall>f \<in> set pfs. scalar_of_type (bf_field_type f) (row (bf_source_name f))
        \<and> recorded lib (bf_transform f) (row (bf_source_name f)) (part (bf_name f)))"

text \<open>
  The year and the month, from 0, that chrono has for a value of the type \<open>k\<close>. Its dates follow
  their order, its years are those of the proleptic calendar within its range, and a datetime keeps
  the microseconds it comes from.
\<close>

definition date_parts :: "value_lib \<Rightarrow> scalar \<Rightarrow> int \<Rightarrow> (int \<times> int) option" where
  "date_parts lib k x =
     (case k of
        SvDate32 _ \<Rightarrow> map_option (\<lambda>d. (nd_year d, nd_month0 d)) (vl_date_from_timestamp lib (x * 86400))
      | SvTimestampMicrosecond _ _ \<Rightarrow> map_option (\<lambda>d. (dt_year d, dt_month0 d)) (vl_datetime_from_micros lib x)
      | SvTimestampNanosecond _ _ \<Rightarrow> Some (dt_year (vl_datetime_from_nanos lib x), dt_month0 (vl_datetime_from_nanos lib x))
      | _ \<Rightarrow> None)"

definition ordered_parts :: "(int \<Rightarrow> (int \<times> int) option) \<Rightarrow> bool" where
  "ordered_parts f \<longleftrightarrow>
     (\<forall>x y d e. x \<le> y \<longrightarrow> f x = Some d \<longrightarrow> f y = Some e \<longrightarrow> fst d \<le> fst e \<and> (fst d = fst e \<longrightarrow> snd d \<le> snd e)) \<and>
     (\<forall>x d. f x = Some d \<longrightarrow> \<bar>fst d\<bar> \<le> 300000 \<and> 0 \<le> snd d \<and> snd d \<le> 11)"

definition ordered_dates :: "value_lib \<Rightarrow> bool" where
  "ordered_dates lib \<longleftrightarrow> (\<forall>k. ordered_parts (date_parts lib k))
     \<and> (\<forall>x d. vl_datetime_from_micros lib x = Some d \<longrightarrow> dt_timestamp_micros d = x)"

lemma date_parts_mono:
  assumes "ordered_dates lib" "x \<le> y" "date_parts lib k x = Some d" "date_parts lib k y = Some e"
  shows "fst d \<le> fst e" "12 * fst d + snd d \<le> 12 * fst e + snd e" "\<bar>fst d\<bar> \<le> 300000" "0 \<le> snd d" "snd d \<le> 11"
proof -
  have m: "fst d \<le> fst e" "fst d = fst e \<longrightarrow> snd d \<le> snd e" "0 \<le> snd e" "\<bar>fst d\<bar> \<le> 300000" "0 \<le> snd d" "snd d \<le> 11"
    using assms unfolding ordered_dates_def ordered_parts_def by blast+
  then show "fst d \<le> fst e" "\<bar>fst d\<bar> \<le> 300000" "0 \<le> snd d" "snd d \<le> 11" by simp_all
  show "12 * fst d + snd d \<le> 12 * fst e + snd e"
    using m by (cases "fst d = fst e") auto
qed

section \<open>The transforms follow the order\<close>

lemma ok_eq_Some [simp]: "ok r = Some v \<longleftrightarrow> r = Ok v"
  by (cases r) auto

definition unit_of :: "scalar \<Rightarrow> i64 \<Rightarrow> i64" where
  "unit_of k micros = (case k of SvTimestampNanosecond _ _ \<Rightarrow> 1000 * micros | _ \<Rightarrow> micros)"

lemma scalar_transform_Year:
  assumes "order_key s = Some (k, x)" "transform_scalar lib Year s = Some q"
  shows "\<exists>d. date_parts lib k x = Some d \<and> q = SvInt32 (Some (fst d - 1970))"
  using assms
  by (cases s) (auto simp: order_key_def transform_scalar_def scalarvalue_to_value_def value_transform_def
      value_to_scalarvalue_def date_parts_def days_to_date_def micros_to_datetime_def date_to_years_def
      YEARS_BEFORE_UNIX_EPOCH_def bind_eq_Some_conv split: if_splits)


lemma scalar_transform_Month:
  assumes "order_key s = Some (k, x)" "transform_scalar lib Month s = Some q"
  shows "\<exists>d. date_parts lib k x = Some d \<and> q = SvInt32 (Some (12 * fst d + snd d - 23640))"
  using assms
  by (cases s) (auto simp: order_key_def transform_scalar_def scalarvalue_to_value_def value_transform_def
      value_to_scalarvalue_def date_parts_def days_to_date_def micros_to_datetime_def date_to_months_def
      datetime_to_months_def YEARS_BEFORE_UNIX_EPOCH_def bind_eq_Some_conv split: if_splits)

text \<open>Days of a date are the date itself.\<close>

definition day_of :: "scalar \<Rightarrow> int \<Rightarrow> int" where
  "day_of k x = (case k of SvDate32 _ \<Rightarrow> x | _ \<Rightarrow> wrap32 (x div unit_of k 86400000000))"

lemma scalar_transform_Day:
  assumes "ordered_dates lib" "order_key s = Some (k, x)" "transform_scalar lib Day s = Some q"
  shows "q = SvInt32 (Some (day_of k x))"
  using assms
  by (cases s) (auto simp: order_key_def transform_scalar_def scalarvalue_to_value_def value_transform_def
      value_to_scalarvalue_def micros_to_datetime_def datetime_to_days_def day_of_def unit_of_def ordered_dates_def
      bind_eq_Some_conv split: if_splits)

lemma scalar_transform_Hour:
  assumes "ordered_dates lib" "order_key s = Some (k, x)" "transform_scalar lib Hour s = Some q"
  shows "q = SvInt32 (Some (wrap32 (x div unit_of k 3600000000)))"
  using assms
  by (cases s) (auto simp: order_key_def transform_scalar_def scalarvalue_to_value_def value_transform_def
      value_to_scalarvalue_def micros_to_datetime_def datetime_to_hours_def unit_of_def ordered_dates_def
      bind_eq_Some_conv split: if_splits)

lemma scalar_transform_Truncate:
  assumes "0 < w" "order_key s = Some (k, x)" "truncation_fits (Truncate w) s" "transform_scalar lib (Truncate w) s = Some q"
    and "\<exists>i. s = SvInt32 i \<Longrightarrow> w < 2 ^ 31"
  shows "order_key q = Some (k, x - x mod int w)"
proof (cases s)
  case (SvInt32 i)
  then have "w < 2 ^ 31" using assms(5) by simp
  then have "wrap32 (int w) = int w" by (intro wrap32_id) (simp add: in_i32_def)
  then show ?thesis using assms SvInt32
    by (auto simp: order_key_def transform_scalar_def scalarvalue_to_value_def value_transform_def rem_euclid_def
        value_to_scalarvalue_def truncation_fits_def bind_eq_Some_conv split: if_splits)
next
  case (SvInt64 i)
  then show ?thesis using assms
    by (auto simp: order_key_def transform_scalar_def scalarvalue_to_value_def value_transform_def rem_euclid_def
        value_to_scalarvalue_def truncation_fits_def bind_eq_Some_conv split: if_splits)
qed (use assms in \<open>auto simp: order_key_def transform_scalar_def scalarvalue_to_value_def value_transform_def
    bind_eq_Some_conv split: if_splits\<close>)

lemma truncation_mono:
  assumes "0 < w" "x \<le> y"
  shows "x - x mod int w \<le> y - y mod int w"
proof -
  have "x div int w \<le> y div int w" using assms by (intro zdiv_mono1) auto
  then have "int w * (x div int w) \<le> int w * (y div int w)" by (simp add: mult_left_mono)
  then show ?thesis by (simp add: minus_mod_eq_mult_div)
qed

text \<open>Days fit their 32 bits, so they follow the order, and a truncated day is at most one above.\<close>

lemma day_of_exact:
  assumes "case k of SvDate32 _ \<Rightarrow> True | _ \<Rightarrow> in_i64 x"
  shows "day_of k x = (case k of SvDate32 _ \<Rightarrow> x | _ \<Rightarrow> x div unit_of k 86400000000)"
proof -
  have "in_i32 (x div 86400000000)" "in_i32 (x div 86400000000000)" if "in_i64 x"
    using that by (auto simp: in_i32_def in_i64_def)
  then show ?thesis using assms by (cases k) (auto simp: day_of_def unit_of_def)
qed

lemma day_of_mono:
  assumes "case k of SvDate32 _ \<Rightarrow> True | _ \<Rightarrow> in_i64 x" "case k of SvDate32 _ \<Rightarrow> True | _ \<Rightarrow> in_i64 y" "x \<le> y"
  shows "day_of k x \<le> day_of k y"
  using assms day_of_exact [of x k] day_of_exact [of y k] zdiv_mono1 [of x y "unit_of k 86400000000"]
  by (cases k) (auto simp: unit_of_def)

lemma truncated_quotient:
  fixes x u :: int
  assumes "0 < u"
  shows "x div u \<le> - ((- x) div u)" "- ((- x) div u) \<le> x div u + 1" "x < 0 \<Longrightarrow> - ((- x) div u) \<le> 0"
proof -
  have r: "0 \<le> x mod u" "x mod u < u" "0 \<le> (- x) mod u" "(- x) mod u < u" using assms by simp_all
  have "x = u * (x div u) + x mod u" "- x = u * ((- x) div u) + (- x) mod u" by (simp_all add: mult_div_mod_eq)
  then have e: "u * (x div u + (- x) div u) = - (x mod u + (- x) mod u)" by (simp add: algebra_simps)
  have "u * (x div u + (- x) div u) \<le> u * 0" using e r by linarith
  then have "x div u + (- x) div u \<le> 0" using assms by (simp only: mult_le_cancel_left_pos)
  then show "x div u \<le> - ((- x) div u)" by simp
  have "u * (- 2) < u * (x div u + (- x) div u)" using e r by linarith
  then have "- 2 < x div u + (- x) div u" using assms by (simp only: mult_less_cancel_left_pos)
  then show "- ((- x) div u) \<le> x div u + 1" by simp
  show "- ((- x) div u) \<le> 0" if "x < 0" using that assms pos_imp_zdiv_nonneg_iff [of u "- x"] by simp
qed

section \<open>Hours on the circle of 32 bits\<close>

lemma wrapped_id_wrap32: "wrapped_id h = Some (wrap32 h)"
proof -
  have "wrapped_id h = (if in_i32 (wrap32 h) then Some (wrap32 h) else None)"
    by (simp add: wrapped_id_def HOUR_ID_MODULUS_def wrap32_def Let_def)
  then show ?thesis by simp
qed

definition between_ids :: "i32 \<Rightarrow> i32 \<Rightarrow> i32 \<Rightarrow> bool" where
  "between_ids lower upper x \<longleftrightarrow>
     (if lower = upper then x = lower
      else if lower < upper then lower \<le> x \<and> x \<le> upper else lower \<le> x \<or> x \<le> upper)"

lemma mod_add_offset:
  fixes A d M :: int
  assumes "0 \<le> A" "A < M" "0 \<le> d" "d < M"
  shows "(A + d) mod M = (if A + d < M then A + d else A + d - M)"
proof (cases "A + d < M")
  case False
  then have "(A + d - M) mod M = A + d - M" using assms by (intro mod_pos_pos_trivial) auto
  then show ?thesis using False by (simp add: minus_mod_self2)
qed (use assms in \<open>simp add: mod_pos_pos_trivial\<close>)

lemma between_wrapped_ids:
  assumes "lower \<le> h" "h \<le> upper" "upper - lower < 2 ^ 32 - 1"
  shows "between_ids (wrap32 lower) (wrap32 upper) (wrap32 h)"
proof -
  define M :: int where "M = 2 ^ 32"
  define A where "A = (lower + 2 ^ 31) mod M"
  have w: "wrap32 x = (A + (x - lower)) mod M - 2 ^ 31" for x
  proof -
    have "(A + (x - lower)) mod M = (lower + 2 ^ 31 + (x - lower)) mod M"
      unfolding A_def by (rule mod_add_left_eq)
    then show ?thesis by (simp add: wrap32_def M_def add.commute)
  qed
  have A: "0 \<le> A" "A < M" by (simp_all add: A_def M_def)
  have M: "2 ^ 32 - 1 \<le> M" by (simp add: M_def)
  have u: "(A + (x - lower)) mod M = (if A + (x - lower) < M then A + (x - lower) else A + (x - lower) - M)"
    if "lower \<le> x" "x \<le> upper" for x
    by (rule mod_add_offset [OF A]) (use that assms(3) M in linarith)+
  have "wrap32 lower = A - 2 ^ 31" using w [of lower] A by simp
  moreover have "wrap32 upper = (if A + (upper - lower) < M then A + (upper - lower) else A + (upper - lower) - M) - 2 ^ 31"
    using w [of upper] u [of upper] assms by simp
  moreover have "wrap32 h = (if A + (h - lower) < M then A + (h - lower) else A + (h - lower) - M) - 2 ^ 31"
    using w [of h] u [of h] assms by simp
  ultimately show ?thesis
    using assms M unfolding between_ids_def by (auto split: if_splits)
qed

lemma hour_interval_covers:
  assumes "hour_interval op b u = Some (lower, upper)" "compare_int op a b = Some True" "0 < u" "in_i64 a"
  shows "lower \<le> a div u \<and> a div u \<le> upper" (is ?floor)
    and "a < 0 \<Longrightarrow> lower \<le> - ((- a) div u) \<and> - ((- a) div u) \<le> upper" (is "_ \<Longrightarrow> ?truncated")
proof -
  have m: "x div u \<le> y div u" if "x \<le> y" for x y using zdiv_mono1 that assms(3) by blast
  note t = truncated_quotient [OF assms(3), of a]
  have b: "0 \<le> b div u" if "0 \<le> b" using that assms(3) by (simp add: pos_imp_zdiv_nonneg_iff)
  have "- (2 ^ 63) div u \<le> a div u" "a div u \<le> (2 ^ 63 - 1) div u"
    using assms(4) by (auto intro!: m simp: in_i64_def)
  moreover have "0 \<le> (2 ^ 63 - 1) div u" using assms(3) by (simp add: pos_imp_zdiv_nonneg_iff)
  moreover have "a < b \<or> a \<le> b \<Longrightarrow> a div u \<le> b div u" "b < a \<or> b \<le> a \<Longrightarrow> b div u \<le> a div u" by (auto intro: m)
  ultimately have "?floor \<and> (a < 0 \<longrightarrow> ?truncated)"
    using assms(1,2) t b by (cases op) (auto simp: hour_interval_def Let_def checked_add_i64_def split: if_splits)
  then show ?floor "a < 0 \<Longrightarrow> ?truncated" by simp_all
qed

section \<open>Soundness\<close>

context evaluator
begin

text \<open>An expression keeps a partition when it does not evaluate to false or null.\<close>

definition keeps :: "row \<Rightarrow> expr \<Rightarrow> bool" where
  "keeps r e \<longleftrightarrow> eval r e \<in> {None, Some true_scalar}"

lemma keeps_and: "keeps r a \<Longrightarrow> keeps r b \<Longrightarrow> keeps r (BinaryExpr a OpAnd b)"
  unfolding keeps_def by (rule keep_and)

lemma keeps_or: "keeps r a \<or> keeps r b \<Longrightarrow> keeps r (BinaryExpr a OpOr b)"
  unfolding keeps_def by (rule keep_or)

lemma keeps_comparison:
  assumes "order_key (r n) = Some (k, i)" "op \<noteq> OpAnd" "op \<noteq> OpOr"
    "\<And>s. eval r e = Some s \<Longrightarrow> \<exists>j. order_key s = Some (k, j) \<and> compare_int op i j = Some True"
  shows "keeps r (partition_comparison (Column (rel, n)) op e)"
proof (cases "eval r e")
  case None
  then show ?thesis by (simp add: keeps_def partition_comparison_def eval_binop [OF assms(2,3)] eval_column)
next
  case (Some s)
  then obtain j where "order_key s = Some (k, j)" "compare_int op i j = Some True" using assms(4) by blast
  then have "binop op (r n) s = Some true_scalar" using binop_order [OF assms(1)] by (simp add: true_scalar_def)
  then show ?thesis using Some by (simp add: keeps_def partition_comparison_def eval_binop [OF assms(2,3)] eval_column)
qed

lemma keeps_failure: "eval r e = None \<Longrightarrow> op \<noteq> OpAnd \<Longrightarrow> op \<noteq> OpOr \<Longrightarrow> keeps r (partition_comparison x op e)"
  by (cases "eval r x") (simp_all add: keeps_def partition_comparison_def eval_binop)

lemma keeps_hour_check:
  assumes "r n = SvInt32 (Some h)" "between_ids lower upper h"
  shows "keeps r (hour_check (rel, n) lower upper)"
proof -
  have k: "keeps r (partition_comparison (Column (rel, n)) op (Literal (SvInt32 (Some x))))"
    if "compare_int op h x = Some True" for op x
    by (rule keeps_comparison) (use that assms(1) in \<open>auto simp: eval_literal order_key_def\<close>)
  show ?thesis
    using assms(2) k [of OpEq lower] k [of OpGtEq lower] k [of OpLtEq upper]
    unfolding hour_check_def between_ids_def Let_def by (auto intro!: keeps_and keeps_or split: if_splits)
qed


lemma date_transform_literal:
  assumes "eval r (date_transform name (Literal v)) = Some q" "invoke_transform name = Ok tr"
  shows "transform_scalar lib tr v = Some q"
  using assms
  by (auto simp: eval_date_transform eval_literal invoke_with_args_def transform_scalar_def
      split: outcome.splits columnar_value.splits)

text \<open>What the literal of a partition predicate evaluates to.\<close>

lemma literal_Year:
  assumes "transform_literal (Literal v) Year = Some e" "eval r e = Some q" "order_key v = Some (k, y)"
  shows "\<exists>d. date_parts lib k y = Some d \<and> q = SvInt32 (Some (fst d - 1970))"
  using assms date_transform_literal [of r "''year''" v q Year] scalar_transform_Year [OF assms(3)]
  by (auto simp: transform_literal_def invoke_transform_def split: if_splits)

lemma literal_Month:
  assumes "transform_literal (Literal v) Month = Some e" "eval r e = Some q" "order_key v = Some (k, y)"
  shows "\<exists>d. date_parts lib k y = Some d \<and> q = SvInt32 (Some (12 * fst d + snd d - 23640))"
  using assms date_transform_literal [of r "''month''" v q Month] scalar_transform_Month [OF assms(3)]
  by (auto simp: transform_literal_def invoke_transform_def split: if_splits)

lemma literal_Day:
  assumes "ordered_dates lib" "transform_literal (Literal v) Day = Some e" "eval r e = Some q" "order_key v = Some (k, y)"
  shows "q = SvInt32 (Some (day_of k y))"
proof (cases "e = date_transform ''day'' (Literal v)")
  case True
  then show ?thesis
    using date_transform_literal [of r "''day''" v q Day] scalar_transform_Day [OF assms(1,4)] assms(3)
    by (simp add: invoke_transform_def)
next
  case False
  then show ?thesis using assms(2,3,4)
    by (cases v) (auto simp: transform_literal_def int32_literal_def eval_literal order_key_def day_of_def unit_of_def
        split: if_splits)
qed

lemma literal_Truncate:
  assumes "transform_literal (Literal v) (Truncate w) = Some e" "eval r e = Some q" "order_key v = Some (k, y)"
  shows "order_key q = Some (k, y - y mod int w)" "0 < w" "\<exists>i. k = SvInt32 i \<Longrightarrow> w < 2 ^ 31"
  using assms
  by (cases v; auto simp: transform_literal_def truncate_down_def eval_literal order_key_def Let_def split: if_splits)+


lemma keeps_legacy:
  assumes "legacy_comparison (Column (rel, n)) op e = Some e'" "r n = SvInt32 (Some p)" "m \<le> p" "p \<le> m + 1"
    and lit: "\<And>q. eval r e = Some q \<Longrightarrow> \<exists>j. q = SvInt32 (Some j) \<and> in_i32 (j + 1) \<and> compare_int op m j = Some True"
  shows "keeps r e'"
proof -
  let ?e1 = "BinaryExpr e OpPlus (Literal (SvInt32 (Some 1)))"
  have e1: "\<exists>j. eval r e = Some (SvInt32 (Some j)) \<and> q = SvInt32 (Some (j + 1)) \<and> compare_int op m j = Some True"
    if q: "eval r ?e1 = Some q" for q
  proof -
    obtain v where v: "eval r e = Some v" "binop OpPlus v (SvInt32 (Some 1)) = Some q"
      using q eval_binop [of OpPlus r e] by (auto simp: eval_literal bind_eq_Some_conv)
    then obtain j where "v = SvInt32 (Some j)" "in_i32 (j + 1)" "compare_int op m j = Some True" using lit by blast
    then show ?thesis using v binop_plus by auto
  qed
  have p: "order_key (r n) = Some (SvInt32 None, p)" using assms(2) by (simp add: order_key_def)
  have ge: "keeps r (partition_comparison (Column (rel, n)) OpGtEq e)" if "op = OpEq \<or> op = OpGtEq"
    by (rule keeps_comparison [where r = r and n = n, OF p]) (use that lit assms(3) in \<open>fastforce simp: order_key_def\<close>)+
  have le: "keeps r (partition_comparison (Column (rel, n)) OpLtEq ?e1)" if "op = OpEq \<or> op = OpLtEq"
    by (rule keeps_comparison [where r = r and n = n, OF p]) (use that e1 assms(4) in \<open>fastforce simp: order_key_def\<close>)+
  show ?thesis
    using assms(1) ge le by (cases op) (auto simp: legacy_comparison_def Let_def intro: keeps_and)
qed

end

lemma order_key_not_null: "order_key s = Some x \<Longrightarrow> \<not> is_null s"
  by (cases s) (auto simp: order_key_def is_null_def)

text \<open>The operator of a partition predicate is true of ids that follow the order of the values.\<close>

lemma project_operator_sound:
  assumes "project_operator tr op = Some op'" "tr \<noteq> Identity" "compare_int op a b = Some True"
    "a \<le> b \<Longrightarrow> x \<le> y" "b \<le> a \<Longrightarrow> y \<le> x"
  shows "compare_int op' x y = Some True" "op' \<noteq> OpAnd" "op' \<noteq> OpOr"
  using assms by (cases op; cases tr; auto simp: project_operator_def)+

lemma recorded_key:
  assumes "recorded lib tr s p" "order_key s = Some (k, a)" "tr \<notin> {Identity, Void}"
    "\<And>w. tr \<noteq> Bucket w"
  shows "truncation_fits tr s \<and> (\<exists>q. transform_scalar lib tr s = Some q \<and> (p = q \<or> Some p = legacy_id tr s q))"
  using assms order_key_not_null [OF assms(2)]
  by (auto simp: recorded_def split: option.splits transform.splits)

lemma wf_scalar_key:
  assumes "wf_scalar s" "order_key s = Some (k, a)"
  shows "case k of SvDate32 _ \<Rightarrow> True | SvInt16 _ \<Rightarrow> True | SvInt32 _ \<Rightarrow> in_i32 a | _ \<Rightarrow> in_i64 a"
    and "(\<exists>i. s = SvInt32 i) \<longleftrightarrow> (\<exists>i. k = SvInt32 i)"
  using assms by (cases s; auto simp: wf_scalar_def order_key_def)+

text \<open>The types that have dates.\<close>

definition is_date_key :: "scalar \<Rightarrow> bool" where
  "is_date_key k =
     (case k of SvDate32 _ \<Rightarrow> True | SvTimestampMicrosecond _ _ \<Rightarrow> True | SvTimestampNanosecond _ _ \<Rightarrow> True | _ \<Rightarrow> False)"

lemma transform_date_key:
  assumes "order_key s = Some (k, a)" "transform_scalar lib tr s = Some q" "tr \<in> {Year, Month, Day, Hour}"
  shows "is_date_key k"
  using assms
  by (cases s) (auto simp: order_key_def is_date_key_def transform_scalar_def scalarvalue_to_value_def value_transform_def
      bind_eq_Some_conv split: if_splits)

lemma wf_date_key:
  assumes "is_date_key k" "wf_scalar s" "order_key s = Some (k, a)"
  shows "case k of SvDate32 _ \<Rightarrow> True | _ \<Rightarrow> in_i64 a"
  using assms by (cases s) (auto simp: wf_scalar_def order_key_def is_date_key_def)

context evaluator
begin

text \<open>A comparison with a field whose transform follows the order, other than \<open>Hour\<close>.\<close>

lemma project_comparison_sound:
  assumes "ordered_dates lib" "project_comparison c field op (Literal v) = Some e'" "bf_transform field \<notin> {Identity, Hour}"
    and keys: "order_key s = Some (k, a)" "order_key v = Some (k, b)" "wf_scalar s" "wf_scalar v"
    and rec: "compare_int op a b = Some True" "recorded lib (bf_transform field) s (part (bf_name field))"
  shows "keeps part e'"
proof -
  let ?tr = "bf_transform field" and ?p = "part (bf_name field)" and ?col = "Column (fst c, bf_name field)"
  obtain op' e where p: "project_operator ?tr op = Some op'" "transform_literal (Literal v) ?tr = Some e"
    and e': "if ?tr = Month \<or> ?tr = Day \<and> (case v of SvTimestampMicrosecond (Some x) _ \<Rightarrow> x < 0 | _ \<Rightarrow> False)
      then legacy_comparison ?col op' e = Some e' else e' = partition_comparison ?col op' e"
    using assms(2) by (auto simp: project_comparison_def bind_eq_Some_conv Let_def split: if_splits)
  have tr: "?tr \<notin> {Identity, Void}" "\<And>w. ?tr \<noteq> Bucket w" using p(1) assms(3) by (auto simp: project_operator_def)
  obtain q where q: "transform_scalar lib ?tr s = Some q" "?p = q \<or> Some ?p = legacy_id ?tr s q" "truncation_fits ?tr s"
    using recorded_key [OF rec(2) keys(1) tr] by blast
  note sound = project_operator_sound [OF p(1) _ rec(1)]
  have ids: "keeps part (partition_comparison ?col op' e)"
    if "?p = SvInt32 (Some x)" "op' \<noteq> OpAnd" "op' \<noteq> OpOr"
      "\<And>r. eval part e = Some r \<Longrightarrow> \<exists>y. r = SvInt32 (Some y) \<and> compare_int op' x y = Some True" for x
    by (rule keeps_comparison [where r = part and n = "bf_name field" and k = "SvInt32 None" and i = x])
       (use that in \<open>fastforce simp: order_key_def\<close>)+
  show ?thesis
  proof (cases ?tr)
    case Year
    obtain d where d: "date_parts lib k a = Some d" "q = SvInt32 (Some (fst d - 1970))"
      using scalar_transform_Year [OF keys(1) q(1) [unfolded Year]] by blast
    have lit: "\<exists>y. r = SvInt32 (Some y) \<and> compare_int op' (fst d - 1970) y = Some True" if r: "eval part e = Some r" for r
    proof -
      obtain d' where d': "date_parts lib k b = Some d'" "r = SvInt32 (Some (fst d' - 1970))"
        using literal_Year [OF p(2) [unfolded Year] r keys(2)] by blast
      then show ?thesis
        using sound [of "fst d - 1970" "fst d' - 1970"] date_parts_mono(1) [OF assms(1)] d(1) Year by auto
    qed
    have "?p = SvInt32 (Some (fst d - 1970))" using q(2) d(2) Year by (simp add: legacy_id_def)
    then show ?thesis using ids lit e' Year sound(2,3) [of 0 0] by auto
  next
    case Month
    define m where "m = (\<lambda>d :: int \<times> int. 12 * fst d + snd d - 23640)"
    obtain d where d: "date_parts lib k a = Some d" "q = SvInt32 (Some (m d))"
      using scalar_transform_Month [OF keys(1) q(1) [unfolded Month]] by (auto simp: m_def)
    have lit: "\<exists>y. r = SvInt32 (Some y) \<and> in_i32 (y + 1) \<and> compare_int op' (m d) y = Some True" if r: "eval part e = Some r" for r
    proof -
      obtain d' where d': "date_parts lib k b = Some d'" "r = SvInt32 (Some (m d'))"
        using literal_Month [OF p(2) [unfolded Month] r keys(2)] by (auto simp: m_def)
      have "in_i32 (m d' + 1)"
        using date_parts_mono(3,4,5) [OF assms(1) order_refl d'(1) d'(1)] by (auto simp: m_def in_i32_def)
      then show ?thesis
        using sound [of "m d" "m d'"] date_parts_mono(2) [OF assms(1)] d(1) d' Month by (auto simp: m_def)
    qed
    have l: "legacy_comparison ?col op' e = Some e'" using e' Month by simp
    obtain x where "?p = SvInt32 (Some x)" "m d \<le> x" "x \<le> m d + 1"
      using q(2) d(2) Month by (auto simp: legacy_id_def)
    then show ?thesis using keeps_legacy [OF l] lit by blast
  next
    case Day
    have lit: "r = SvInt32 (Some (day_of k b))" if "eval part e = Some r" for r
      using literal_Day [OF assms(1) _ that keys(2)] p(2) Day by simp
    have qd: "q = SvInt32 (Some (day_of k a))" using scalar_transform_Day [OF assms(1) keys(1)] q(1) Day by simp
    have k: "is_date_key k" using transform_date_key [OF keys(1) q(1)] Day by simp
    have le: "day_of k a \<le> day_of k b" if "a \<le> b" using day_of_mono k keys that wf_date_key by metis
    have ge: "day_of k b \<le> day_of k a" if "b \<le> a" using day_of_mono k keys that wf_date_key by metis
    note cmp = sound [of "day_of k a" "day_of k b", OF _ le ge]
    have lit1: "in_i32 (day_of k b + 1)" if "v = SvTimestampMicrosecond (Some x) tz" "x < 0" for x tz
      using that keys(2,4) by (auto simp: order_key_def day_of_def unit_of_def wf_scalar_def in_i64_def in_i32_def wrap32_def)
    obtain x where x: "?p = SvInt32 (Some x)" "day_of k a \<le> x" "x \<le> day_of k a + 1"
      and neg: "x \<noteq> day_of k a \<Longrightarrow> a < 0 \<and> x \<le> 0 \<and> (\<exists>tz. k = SvTimestampMicrosecond None tz)"
    proof (cases "?p = q")
      case True
      then show ?thesis using that [of "day_of k a"] qd by simp
    next
      case False
      then have l: "Some ?p = legacy_id Day s q" using q(2) Day by simp
      then obtain tz where s: "s = SvTimestampMicrosecond (Some a) tz" "k = SvTimestampMicrosecond None tz" "a < 0"
        using keys(1) by (auto simp: legacy_id_def order_key_def split: scalar.splits option.splits if_splits)
      then have "in_i64 a" using keys(3) by (simp add: wf_scalar_def)
      then have "day_of k a = a div 86400000000" using day_of_exact [of a k] s(2) by (simp add: unit_of_def)
      then show ?thesis
        using that [of "- ((- a) div 86400000000)"] truncated_quotient [of 86400000000 a] l s by (auto simp: legacy_id_def)
    qed
    show ?thesis
    proof (cases "case v of SvTimestampMicrosecond (Some x) _ \<Rightarrow> x < 0 | _ \<Rightarrow> False")
      case True
      then have l: "legacy_comparison ?col op' e = Some e'" using e' Day by simp
      show ?thesis
        by (rule keeps_legacy [where r = part and n = "bf_name field", OF l x]) (use lit lit1 True cmp(1) Day in \<open>auto split: scalar.splits option.splits\<close>)
    next
      case False
      have "compare_int op' x (day_of k b) = Some True"
      proof (cases "x = day_of k a")
        case True
        then show ?thesis using cmp(1) Day by simp
      next
        case xn: False
        then obtain tz where n: "a < 0" "x \<le> 0" "k = SvTimestampMicrosecond None tz" using neg by blast
        then have v: "v = SvTimestampMicrosecond (Some b) tz" using keys(2) by (cases v) (auto simp: order_key_def)
        then have "0 \<le> b" using False by simp
        then have "0 \<le> day_of k b" using keys(4) v day_of_exact [of b k] n(3)
          by (simp add: unit_of_def wf_scalar_def pos_imp_zdiv_nonneg_iff)
        then show ?thesis using sound(1) [of x "day_of k b"] n \<open>0 \<le> b\<close> Day by simp
      qed
      then show ?thesis using ids [OF x(1)] lit e' Day False cmp(2,3) by auto
    qed
  next
    case (Truncate w)
    note w = literal_Truncate(2,3) [OF p(2) [unfolded Truncate]]
    have "order_key ?p = Some (k, a - a mod int w)" if "eval part e = Some r" for r
    proof -
      have "order_key q = Some (k, a - a mod int w)"
        by (rule scalar_transform_Truncate [OF w(1) [OF that keys(2)] keys(1)])
           (use q Truncate w(2) [OF that keys(2)] wf_scalar_key(2) [OF keys(3,1)] in auto)
      then show ?thesis using q(2) Truncate by (simp add: legacy_id_def)
    qed
    then have "keeps part (partition_comparison ?col op' e)"
      using literal_Truncate [OF p(2) [unfolded Truncate] _ keys(2)]
        sound [of "a - a mod int w" "b - b mod int w"] sound(2,3) [of 0 0] truncation_mono [of w] Truncate
      by (cases "eval part e") (auto intro: keeps_failure keeps_comparison [where r = part and n = "bf_name field"])
    then show ?thesis using e' Truncate by simp
  qed (use tr assms(3) in simp_all)
qed


lemma project_hour_predicate_sound:
  assumes "project_hour_predicate c n op b u = Some e'" "compare_int op a b = Some True" "0 < u" "in_i64 a"
    "r n = SvInt32 (Some h)" "h = wrap32 (a div u) \<or> a < 0 \<and> h = wrap32 (- ((- a) div u))"
  shows "keeps r e'"
proof -
  obtain lower upper where i: "hour_interval op b u = Some (lower, upper)"
    and e': "upper - lower < 2 ^ 32 - 1" "e' = hour_check (fst c, n) (wrap32 lower) (wrap32 upper)"
    using assms(1) by (auto simp: project_hour_predicate_def bind_eq_Some_conv wrapped_id_wrap32 HOUR_ID_MODULUS_def
        checked_sub_i64_def split: if_splits)
  from assms(6) have "between_ids (wrap32 lower) (wrap32 upper) h"
    using between_wrapped_ids [OF _ _ e'(1)] hour_interval_covers [OF i assms(2,3,4)] by blast
  then show ?thesis unfolding e'(2) using keeps_hour_check assms(5) by blast
qed

lemma project_hour_sound:
  assumes "ordered_dates lib" "project_hour c field op (Literal v) = Some e'" "bf_transform field = Hour"
    and keys: "order_key s = Some (k, a)" "order_key v = Some (k, b)" "wf_scalar s"
    and rec: "compare_int op a b = Some True" "recorded lib Hour s (part (bf_name field))"
  shows "keeps part e'"
proof -
  obtain q where q: "transform_scalar lib Hour s = Some q"
    "part (bf_name field) = q \<or> Some (part (bf_name field)) = legacy_id Hour s q"
    using recorded_key [OF rec(2) keys(1)] by auto
  have k: "is_date_key k" using transform_date_key [OF keys(1) q(1)] by simp
  have u: "project_hour_predicate c (bf_name field) op b (unit_of k 3600000000) = Some e'"
    and d: "\<not> (\<exists>x. k = SvDate32 x)" using assms(2) keys(2)
    by (cases v; auto simp: project_hour_def order_key_def unit_of_def split: option.splits)+
  have qh: "q = SvInt32 (Some (wrap32 (a div unit_of k 3600000000)))"
    by (rule scalar_transform_Hour [OF assms(1) keys(1) q(1)])
  then obtain h where h: "part (bf_name field) = SvInt32 (Some h)"
    "h = wrap32 (a div unit_of k 3600000000) \<or> a < 0 \<and> h = wrap32 (- ((- a) div unit_of k 3600000000))"
    using q(2) keys(1) by (auto simp: legacy_id_def order_key_def unit_of_def split: scalar.splits option.splits if_splits)
  have "in_i64 a" using wf_date_key [OF k keys(3,1)] d k by (cases k) (auto simp: is_date_key_def)
  moreover have "0 < unit_of k 3600000000" by (cases k) (simp_all add: unit_of_def)
  ultimately show ?thesis using project_hour_predicate_sound [OF u rec(1)] h by blast
qed

text \<open>What an accepted comparison says of the literal after folding and flipping.\<close>

lemma fold_cast_literal_sound:
  assumes "fold_cast_literal cast_to e t = Some l" "\<And>v. v \<in> set (literals e) \<Longrightarrow> wf_scalar v" "scalar_of_type t s"
    "eval r e = Some w" "binop op s w = Some true_scalar"
  shows "\<exists>v. l = Literal v \<and> wf_scalar v \<and> binop op s v = Some true_scalar"
proof -
  consider v where "e = Literal v" "l = Literal v"
    | v dt nanos where "e = Cast (Literal v) dt" "cast_to v dt = Some (SvTimestampNanosecond (Some nanos) None)"
        "t = Primitive PTimestamp" "nanos mod 1000 = 0" "l = Literal (SvTimestampMicrosecond (Some (nanos div 1000)) None)"
    | v dt w' where "e = Cast (Literal v) dt" "cast_to v dt = Some w'" "l = Literal w'"
  proof (cases e)
    case (Literal v)
    then show ?thesis using that(1) assms(1) by (simp add: fold_cast_literal_def)
  next
    case (Cast x dt)
    then obtain v where v: "x = Literal v" using assms(1) by (cases x) (simp_all add: fold_cast_literal_def)
    then obtain w' where "cast_to v dt = Some w'" using assms(1) Cast by (auto simp: fold_cast_literal_def bind_eq_Some_conv)
    then show ?thesis using that(2,3) assms(1) Cast v
      by (cases w') (auto simp: fold_cast_literal_def split: if_splits)
  qed (use assms(1) in \<open>simp_all add: fold_cast_literal_def\<close>)
  then show ?thesis
  proof cases
    case 1
    then show ?thesis using assms(2,4,5) by (simp add: eval_literal)
  next
    case 2
    then have w: "w = SvTimestampNanosecond (Some nanos) None" using assms(4) by (simp add: eval_Cast)
    have "\<exists>x. s = SvTimestampMicrosecond x None"
      using assms(3) 2(3) by (cases s) (auto simp: scalar_of_type_def null_of_type_def order_key_def split: option.splits)
    then have b: "binop op s (SvTimestampMicrosecond (Some (nanos div 1000)) None) = Some true_scalar"
      using binop_nanos [OF 2(4)] assms(5) w by blast
    have "wf_scalar (SvTimestampNanosecond (Some nanos) None)" using cast_to_wf [OF 2(2)] assms(2) 2(1) by simp
    then have "wf_scalar (SvTimestampMicrosecond (Some (nanos div 1000)) None)" by (auto simp: wf_scalar_def in_i64_def)
    then show ?thesis using b 2(5) by blast
  next
    case 3
    then show ?thesis using assms(2,4,5) cast_to_wf [OF 3(2)] by (simp add: eval_Cast)
  qed
qed

end

text \<open>A non-null literal of the source type has the key of the values of the column.\<close>

lemma literal_key:
  assumes "literal_matches_source v field" "scalar_of_type (bf_field_type field) s" "\<not> is_null s" "\<exists>k b. order_key v = Some (k, b)"
  shows "\<exists>k a b. order_key s = Some (k, a) \<and> order_key v = Some (k, b)"
  using assms
  by (cases v) (auto simp: literal_matches_source_def scalar_of_type_def null_of_type_def order_key_def is_null_def
      split: option.splits)

lemma literal_without_key:
  assumes "literal_matches_source v field" "order_key v = None"
  shows "\<exists>x. v = SvUtf8 (Some x) \<and> bf_field_type field = Primitive PString"
  using assms by (cases v) (auto simp: literal_matches_source_def order_key_def split: option.splits)

lemma transform_scalar_key:
  "transform_scalar lib tr s = Some q \<Longrightarrow> tr \<in> {Year, Month, Day, Hour} \<Longrightarrow> order_key s \<noteq> None"
  by (cases s) (auto simp: order_key_def transform_scalar_def scalarvalue_to_value_def value_transform_def
      bind_eq_Some_conv split: if_splits)

lemma compare_int_total: "compare_int op i j \<noteq> None \<Longrightarrow> \<exists>t. compare_int op a b = Some t"
  by (cases op) auto

lemma project_operator_compares:
  "project_operator tr op = Some op' \<Longrightarrow> tr \<noteq> Identity \<Longrightarrow> compare_int op 0 0 \<noteq> None"
  by (cases op; cases tr; simp add: project_operator_def)

lemma project_hour_compares: "project_hour c field op l = Some e' \<Longrightarrow> compare_int op 0 0 \<noteq> None"
  by (cases op) (auto simp: project_hour_def project_hour_predicate_def hour_interval_def Let_def
      split: expr.splits scalar.splits option.splits)

lemma flip_operator_logical: "flip_operator op = Some op' \<Longrightarrow> op' \<noteq> OpAnd \<and> op' \<noteq> OpOr"
  by (cases op) (auto simp: flip_operator_def)

lemma source_field_Some:
  "source_field pfs n = Some field \<Longrightarrow> field \<in> set pfs \<and> bf_source_name field = n"
  by (auto simp: source_field_def find_Some_iff)

context evaluator
begin

lemma ordered_comparison_keys:
  assumes "binop op s v = Some true_scalar" "compare_int op 0 0 \<noteq> None" "literal_matches_source v field"
    "scalar_of_type (bf_field_type field) s" "order_key v \<noteq> None"
  shows "\<exists>k a b. order_key s = Some (k, a) \<and> order_key v = Some (k, b) \<and> compare_int op a b = Some True"
proof -
  have "\<not> is_null s" using binop_null assms(1,2) by blast
  then obtain k a b where k: "order_key s = Some (k, a)" "order_key v = Some (k, b)"
    using literal_key [OF assms(3,4)] assms(5) by fastforce
  obtain t where "compare_int op a b = Some t" using compare_int_total [OF assms(2)] by blast
  then show ?thesis using binop_order [OF k] assms(1) k by (auto simp: true_scalar_def)
qed

lemma transform_comparison_sound:
  assumes "ordered_dates lib" "partition_of lib pfs row part" "transform_comparison cast_to pfs c other left op = Some e'"
    "\<And>v. v \<in> set (literals other) \<Longrightarrow> wf_scalar v" "op \<noteq> OpAnd" "op \<noteq> OpOr"
    "eval row (if left then BinaryExpr (Column c) op other else BinaryExpr other op (Column c)) = Some true_scalar"
  shows "keeps part e'"
proof -
  obtain field l op' where f: "source_field pfs (snd c) = Some field" "fold_cast_literal cast_to other (bf_field_type field) = Some l"
    and m: "bf_transform field = Identity \<or> (\<exists>v. l = Literal v \<and> literal_matches_source v field)"
    and op': "(if left then Some op else flip_operator op) = Some op'"
    and e': "(if bf_transform field = Hour then project_hour c field op' l else project_comparison c field op' l) = Some e'"
    using assms(3) by (auto simp: transform_comparison_def bind_eq_Some_conv split: if_splits expr.splits)
  define s where "s = row (snd c)"
  have field: "scalar_of_type (bf_field_type field) s" "recorded lib (bf_transform field) s (part (bf_name field))"
    using assms(2) source_field_Some [OF f(1)] by (auto simp: partition_of_def s_def)
  obtain w where w: "eval row other = Some w" "binop op' s w = Some true_scalar"
    using assms(5,6,7) op' binop_flip
    by (cases left) (fastforce simp: eval_binop eval_column s_def bind_eq_Some_conv)+
  obtain v where v: "l = Literal v" "wf_scalar v" "binop op' s v = Some true_scalar"
    using fold_cast_literal_sound [OF f(2) assms(4) field(1) w] by blast
  have op'': "op' \<noteq> OpAnd" "op' \<noteq> OpOr" using op' assms(5,6) flip_operator_logical by (auto split: if_splits)
  have wf: "wf_scalar s" using field(1) by (simp add: scalar_of_type_def)
  consider (identity) "bf_transform field = Identity" | (hour) "bf_transform field = Hour"
    | (other) "bf_transform field \<notin> {Identity, Hour}" by blast
  then show ?thesis
  proof cases
    case identity
    then have "part (bf_name field) = s" using field(2) by (simp add: recorded_def)
    moreover have "e' = partition_comparison (Column (fst c, bf_name field)) op' (Literal v)"
      using e' identity v(1) by (auto simp: project_comparison_def project_operator_def transform_literal_def bind_eq_Some_conv
          Let_def split: if_splits)
    ultimately show ?thesis using v(3) op''
      by (simp add: keeps_def partition_comparison_def eval_binop eval_column eval_literal)
  next
    case hour
    then have lm: "literal_matches_source v field" and p: "project_hour c field op' (Literal v) = Some e'"
      using m v(1) e' by auto
    have "order_key v \<noteq> None" using p by (cases v) (auto simp: project_hour_def order_key_def split: option.splits)
    then obtain k a b where k: "order_key s = Some (k, a)" "order_key v = Some (k, b)" "compare_int op' a b = Some True"
      using ordered_comparison_keys [OF v(3) project_hour_compares [OF p] lm field(1)] by blast
    show ?thesis
      by (rule project_hour_sound [OF assms(1) _ hour k(1,2) wf k(3)]) (use e' v(1) hour field(2) in auto)
  next
    case other
    then have lm: "literal_matches_source v field" and p: "project_comparison c field op' (Literal v) = Some e'"
      using m v(1) e' by auto
    obtain o' where po: "project_operator (bf_transform field) op' = Some o'" "transform_literal (Literal v) (bf_transform field) \<noteq> None"
      using p by (auto simp: project_comparison_def bind_eq_Some_conv)
    then have cmp: "compare_int op' 0 0 \<noteq> None" using project_operator_compares other by blast
    have "order_key v \<noteq> None"
    proof
      assume n: "order_key v = None"
      obtain x where x: "v = SvUtf8 (Some x)" "bf_field_type field = Primitive PString" using literal_without_key [OF lm n] by blast
      then have "order_key s = None" using field(1) by (simp add: scalar_of_type_def null_of_type_def)
      moreover have "\<not> is_null s" using binop_null cmp v(3) by blast
      moreover have "\<And>w. bf_transform field \<noteq> Truncate w" "bf_transform field \<in> {Year, Month, Day}"
        using po other x by (cases "bf_transform field"; auto simp: transform_literal_def project_operator_def split: if_splits)+
      ultimately show False using field(2) other transform_scalar_key [of lib "bf_transform field" s]
        by (auto simp: recorded_def split: option.splits)
    qed
    then obtain k a b where k: "order_key s = Some (k, a)" "order_key v = Some (k, b)" "compare_int op' a b = Some True"
      using ordered_comparison_keys [OF v(3) cmp lm field(1)] by blast
    show ?thesis by (rule project_comparison_sound [where part = part, OF assms(1) p other k(1,2) wf v(2) k(3) field(2)])
  qed
qed

lemma transform_null_check_sound:
  assumes "partition_of lib pfs row part" "transform_null_check check pfs c = Some e'" "check = IsNull \<or> check = IsNotNull"
    "eval row (check (Column c)) = Some true_scalar"
  shows "keeps part e'"
proof -
  obtain field where f: "source_field pfs (snd c) = Some field" "bf_transform field \<noteq> Void"
    "e' = check (Column (fst c, bf_name field))"
    using assms(2) by (auto simp: transform_null_check_def null_check_transform_def bind_eq_Some_conv split: if_splits)
  then have "is_null (part (bf_name field)) = is_null (row (snd c))"
    using assms(1) source_field_Some [OF f(1)] by (auto simp: partition_of_def recorded_def)
  then show ?thesis
    using assms(3,4) f(3) by (auto simp: keeps_def eval_IsNull eval_IsNotNull eval_column)
qed

lemma transform_atom_sound:
  assumes "ordered_dates lib" "partition_of lib pfs row part" "transform_atom cast_to e pfs = Some e'"
    "\<And>v. v \<in> set (literals e) \<Longrightarrow> wf_scalar v" "eval row e = Some true_scalar"
    "\<And>l r. e \<noteq> BinaryExpr l OpAnd r" "\<And>l r. e \<noteq> BinaryExpr l OpOr r"
  shows "keeps part e'"
proof (cases "list_all (identity_column pfs) (column_refs e)")
  case True
  have "eval part e = eval row e"
  proof (rule eval_refs)
    fix c assume "c \<in> set (column_refs e)"
    then obtain f where "f \<in> set pfs" "bf_source_name f = snd c" "bf_name f = snd c" "bf_transform f = Identity"
      using True by (auto simp: list_all_iff identity_column_def list_ex_iff)
    then show "part (snd c) = row (snd c)" using assms(2) by (force simp: partition_of_def recorded_def)
  qed
  then show ?thesis using assms(3,5) True by (simp add: transform_atom_def keeps_def)
next
  case False
  then have a: "(case e of
      IsNull (Column c) \<Rightarrow> transform_null_check IsNull pfs c
    | IsNotNull (Column c) \<Rightarrow> transform_null_check IsNotNull pfs c
    | BinaryExpr left op right \<Rightarrow>
        (case left of Column c \<Rightarrow> transform_comparison cast_to pfs c right True op
         | _ \<Rightarrow> (case right of Column c \<Rightarrow> transform_comparison cast_to pfs c left False op | _ \<Rightarrow> None))
    | _ \<Rightarrow> None) = Some e'"
    using assms(3) by (simp add: transform_atom_def)
  note tc = transform_comparison_sound [OF assms(1,2)]
  show ?thesis
  proof (cases e)
    case (BinaryExpr l op r)
    then have op: "op \<noteq> OpAnd" "op \<noteq> OpOr" using assms(6,7) by auto
    show ?thesis
    proof (cases "\<exists>c. l = Column c")
      case True
      then obtain c where l: "l = Column c" by blast
      show ?thesis
        by (rule tc [of c r True op, OF _ _ op]) (use a BinaryExpr l assms(4,5) in auto)
    next
      case False
      then obtain c where r: "r = Column c" "transform_comparison cast_to pfs c l False op = Some e'"
        using a BinaryExpr by (cases l; cases r) auto
      show ?thesis
        by (rule tc [OF r(2) _ op]) (use BinaryExpr r(1) assms(4,5) in auto)
    qed
  next
    case (IsNull x)
    then obtain c where "x = Column c" using a by (cases x) auto
    then show ?thesis using transform_null_check_sound [OF assms(2), of IsNull c] a IsNull assms(5) by simp
  next
    case (IsNotNull x)
    then obtain c where "x = Column c" using a by (cases x) auto
    then show ?thesis using transform_null_check_sound [OF assms(2), of IsNotNull c] a IsNotNull assms(5) by simp
  qed (use a in simp_all)
qed

lemma transform_unary_sound:
  assumes "transform_predicate cast_to e pfs = Some e'" "ordered_dates lib" "partition_of lib pfs row part"
    "\<And>l op r. e \<noteq> BinaryExpr l op r" "\<And>v. v \<in> set (literals e) \<Longrightarrow> wf_scalar v" "eval row e = Some true_scalar"
  shows "keeps part e'"
proof -
  have "transform_atom cast_to e pfs = Some e'" using assms(1,4) by (cases e) auto
  then show ?thesis using assms(4,5,6) by (intro transform_atom_sound [OF assms(2,3)]) auto
qed

lemma transform_predicate_keeps:
  assumes "ordered_dates lib" "partition_of lib pfs row part"
  shows "transform_predicate cast_to e pfs = Some e' \<Longrightarrow> (\<And>v. v \<in> set (literals e) \<Longrightarrow> wf_scalar v) \<Longrightarrow>
    eval row e = Some true_scalar \<Longrightarrow> keeps part e'"
proof (induction e arbitrary: e')
  case (BinaryExpr l op r)
  note atom = transform_atom_sound [OF assms, of "BinaryExpr l op r"]
  consider "op = OpAnd" | "op = OpOr" | "op \<noteq> OpAnd" "op \<noteq> OpOr" by blast
  then show ?case
  proof cases
    case 1
    then have "eval row l = Some true_scalar" "eval row r = Some true_scalar" using accept_and BinaryExpr.prems(3) by blast+
    then show ?thesis using 1 BinaryExpr.prems(1,2) BinaryExpr.IH
      by (auto split: option.splits intro: keeps_and)
  next
    case 2
    then have "eval row l = Some true_scalar \<or> eval row r = Some true_scalar" using accept_or BinaryExpr.prems(3) by blast
    then show ?thesis using 2 BinaryExpr.prems(1,2) BinaryExpr.IH
      by (auto split: option.splits intro!: keeps_or)
  next
    case 3
    then show ?thesis using atom BinaryExpr.prems by auto
  qed
qed (erule transform_unary_sound [OF _ assms]; simp)+

end

section \<open>A reference evaluator\<close>

text \<open>
  The evaluation of SQL for this fragment: comparisons of integers of one type and of
  microseconds with nanoseconds; null where an operand is null; casts to wider types.
\<close>

definition widen :: "scalar \<times> int \<Rightarrow> scalar \<times> int" where
  "widen x = (case x of
     (SvTimestampMicrosecond _ None, i) \<Rightarrow> (SvTimestampNanosecond None None, 1000 * i) | _ \<Rightarrow> x)"

definition sql_compare :: "operator \<Rightarrow> scalar \<Rightarrow> scalar \<Rightarrow> scalar option" where
  "sql_compare op x y =
     (if is_null x \<or> is_null y then Some (SvBoolean None)
      else case (map_option widen (order_key x), map_option widen (order_key y)) of
        (Some (k, i), Some (k', j)) \<Rightarrow>
          if k = k' then map_option (\<lambda>t. SvBoolean (Some t)) (compare_int op i j) else None
      | _ \<Rightarrow> None)"

definition sql_plus :: "scalar \<Rightarrow> scalar \<Rightarrow> scalar option" where
  "sql_plus x y =
     (case (x, y) of
        (SvInt32 (Some i), SvInt32 (Some j)) \<Rightarrow> if in_i32 (i + j) then Some (SvInt32 (Some (i + j))) else None
      | _ \<Rightarrow> None)"

definition sql_binop :: "operator \<Rightarrow> scalar \<Rightarrow> scalar \<Rightarrow> scalar option" where
  "sql_binop op x y = (if op = OpPlus then sql_plus x y else sql_compare op x y)"

definition and3 :: "scalar \<Rightarrow> scalar \<Rightarrow> scalar option" where
  "and3 x y =
     (case (x, y) of
        (SvBoolean a, SvBoolean b) \<Rightarrow>
          Some (SvBoolean (if a = Some False \<or> b = Some False then Some False
                           else if a = None \<or> b = None then None else Some True))
      | _ \<Rightarrow> None)"

definition or3 :: "scalar \<Rightarrow> scalar \<Rightarrow> scalar option" where
  "or3 x y =
     (case (x, y) of
        (SvBoolean a, SvBoolean b) \<Rightarrow>
          Some (SvBoolean (if a = Some True \<or> b = Some True then Some True
                           else if a = None \<or> b = None then None else Some False))
      | _ \<Rightarrow> None)"

definition sql_cast :: "scalar \<Rightarrow> arrow_type \<Rightarrow> scalar option" where
  "sql_cast v t =
     (case (v, t) of
        (SvInt32 x, AInt64) \<Rightarrow> if pred_option in_i64 x then Some (SvInt64 x) else None
      | (SvTimestampMicrosecond x tz, ATimestamp Nanosecond tz') \<Rightarrow>
          if tz = tz' \<and> pred_option (\<lambda>i. in_i64 (1000 * i)) x
          then Some (SvTimestampNanosecond (map_option (\<lambda>i. 1000 * i) x) tz) else None
      | _ \<Rightarrow> None)"

fun sql_eval :: "arrow_lib \<Rightarrow> value_lib \<Rightarrow> row \<Rightarrow> expr \<Rightarrow> scalar option" where
  "sql_eval al lib r (Column c) = Some (r (snd c))"
| "sql_eval al lib r (Literal v) = Some v"
| "sql_eval al lib r (BinaryExpr a op b) =
     Option.bind (sql_eval al lib r a) (\<lambda>x. Option.bind (sql_eval al lib r b)
       (if op = OpAnd then and3 x else if op = OpOr then or3 x else sql_binop op x))"
| "sql_eval al lib r (IsNull e) = map_option (\<lambda>s. SvBoolean (Some (is_null s))) (sql_eval al lib r e)"
| "sql_eval al lib r (IsNotNull e) = map_option (\<lambda>s. SvBoolean (Some (\<not> is_null s))) (sql_eval al lib r e)"
| "sql_eval al lib r (Cast e t) = Option.bind (sql_eval al lib r e) (\<lambda>v. sql_cast v t)"
| "sql_eval al lib r (ScalarFunction f es) =
     (case map (sql_eval al lib r) es of
        [Some a, Some b] \<Rightarrow>
          if f \<noteq> ''date_transform'' then None
          else (case invoke_with_args al lib [ColumnarScalar a, ColumnarScalar b] of
            Ok (ColumnarScalar w) \<Rightarrow> Some w | _ \<Rightarrow> None)
      | _ \<Rightarrow> None)"
| "sql_eval al lib r (OtherExpr f es) = None"

lemma sql_eval_refs:
  "\<forall>c \<in> set (column_refs e). r (snd c) = r' (snd c) \<Longrightarrow> sql_eval al lib r e = sql_eval al lib r' e"
proof (induction e)
  case (ScalarFunction f es)
  have "map (sql_eval al lib r) es = map (sql_eval al lib r') es"
  proof (rule map_cong [OF refl])
    fix e assume "e \<in> set es"
    then show "sql_eval al lib r e = sql_eval al lib r' e" using ScalarFunction by auto
  qed
  then show ?case by (simp only: sql_eval.simps)
qed (simp_all add: ball_Un)

lemma compare_int_flip: "flip_operator op = Some op' \<Longrightarrow> compare_int op i j = compare_int op' j i"
  by (cases op) (auto simp: flip_operator_def)

lemma compare_int_scale: "(0 :: int) < u \<Longrightarrow> compare_int op (u * i) (u * j) = compare_int op i j"
  by (cases op) auto

lemma sql_binop_flip:
  assumes "flip_operator op = Some op'"
  shows "sql_binop op x y = sql_binop op' y x"
proof -
  have "op \<noteq> OpPlus" "op' \<noteq> OpPlus" using assms by (cases op; auto simp: flip_operator_def)+
  then show ?thesis using compare_int_flip [OF assms]
    by (auto simp: sql_binop_def sql_compare_def split: option.splits prod.splits)
qed

lemma sql_binop_order:
  assumes "order_key x = Some (k, i)" "order_key y = Some (k, j)" "compare_int op i j = Some verdict"
  shows "sql_binop op x y = Some (SvBoolean (Some verdict))"
proof -
  have "op \<noteq> OpPlus" using assms(3) by (cases op) auto
  moreover have "\<exists>k' u. 0 < u \<and> widen (k, i) = (k', u * i) \<and> widen (k, j) = (k', u * j)"
  proof (cases "k = SvTimestampMicrosecond None None")
    case True
    then show ?thesis by (intro exI [of _ "SvTimestampNanosecond None None"] exI [of _ 1000]) (simp add: widen_def)
  next
    case False
    then have "widen (k, i) = (k, 1 * i)" "widen (k, j) = (k, 1 * j)"
      using assms(1) by (cases x; auto simp: widen_def order_key_def split: option.splits)+
    then show ?thesis using zero_less_one by blast
  qed
  ultimately show ?thesis
    using assms order_key_not_null [OF assms(1)] order_key_not_null [OF assms(2)] compare_int_scale [of _ op i j]
    by (auto simp: sql_binop_def sql_compare_def)
qed

lemma sql_binop_nanos:
  assumes "nanos mod 1000 = 0" "sql_binop op (SvTimestampMicrosecond x None) (SvTimestampNanosecond (Some nanos) None) = Some true_scalar"
  shows "sql_binop op (SvTimestampMicrosecond x None) (SvTimestampMicrosecond (Some (nanos div 1000)) None) = Some true_scalar"
proof -
  have "1000 * (nanos div 1000) = nanos" using assms(1) by auto
  then show ?thesis using assms(2)
    by (cases x) (auto simp: sql_binop_def sql_compare_def sql_plus_def order_key_def is_null_def widen_def split: if_splits)
qed

lemma sql_cast_wf: "sql_cast v t = Some w \<Longrightarrow> wf_scalar v \<Longrightarrow> wf_scalar w"
  by (cases v) (auto simp: sql_cast_def wf_scalar_def option.pred_map comp_def
      split: arrow_type.splits time_unit.splits if_splits)

lemma and3_true: "and3 x y = Some true_scalar \<longleftrightarrow> x = true_scalar \<and> y = true_scalar"
  by (cases x; cases y; auto simp: and3_def true_scalar_def split: if_splits)

lemma or3_true: "or3 x y = Some true_scalar \<Longrightarrow> x = true_scalar \<or> y = true_scalar"
  by (cases x; cases y; auto simp: or3_def true_scalar_def split: if_splits)

lemma or3_with_true: "or3 true_scalar y \<in> {None, Some true_scalar}" "or3 y true_scalar \<in> {None, Some true_scalar}"
  by (cases y; simp add: or3_def true_scalar_def)+

interpretation sql: evaluator "sql_eval al lib" sql_binop sql_cast al lib for al lib
proof (unfold_locales, goal_cases)
  case (3 e r r')
  then show ?case using sql_eval_refs by blast
next
  case (8 v t w)
  then show ?case by (rule sql_cast_wf)
next
  case (9 r name e)
  then show ?case by (auto simp: date_transform_def split: bind_splits)
next
  case (10 r a b)
  then show ?case by (auto simp: and3_true bind_eq_Some_conv)
next
  case (11 r a b)
  then show ?case by (auto simp: bind_eq_Some_conv dest: or3_true)
next
  case (12 r a b)
  then show ?case using and3_true by (auto split: bind_splits)
next
  case (13 r a b)
  then show ?case using or3_with_true by (cases "sql_eval al lib r a"; cases "sql_eval al lib r b") auto
next
  case (14 op op' x y)
  then show ?case by (rule sql_binop_flip)
next
  case (15 x k i y j op verdict)
  then show ?case by (rule sql_binop_order)
next
  case (16 x op y)
  then show ?case by (cases op) (auto simp: sql_binop_def sql_compare_def true_scalar_def)
next
  case (18 nanos op micros)
  then show ?case by (rule sql_binop_nanos)
qed (simp_all add: sql_binop_def sql_plus_def)

section \<open>Partition predicates are sound\<close>

text \<open>
  C14. A partition of which a row satisfies the predicate of a query is not excluded by the predicate on
  the partition fields: evaluated on its partition values this is true, or fails. The partition
  values may be those of older writers.
\<close>

theorem partition_predicate_is_sound:
  assumes "evaluator eval binop cast_to al lib" "ordered_dates lib" "partition_of lib pfs row part"
    "\<forall>v \<in> set (literals e). wf_scalar v" "transform_predicate cast_to e pfs = Some e'"
    "eval row e = Some true_scalar"
  shows "eval part e' \<in> {None, Some true_scalar}"
  using evaluator.transform_predicate_keeps [OF assms(1,2,3,5)] assms(4,6)
  unfolding evaluator.keeps_def [OF assms(1)] by blast

definition sample_field :: "ice_type \<Rightarrow> transform \<Rightarrow> bound_partition_field" where
  "sample_field t tr = BoundPartitionField_new (PartitionField_new 1 1000 ''part'' tr)
     (StructField 1 ''source'' False t None None None)"

lemma sample_dates: "ordered_dates sample_lib"
  by (auto simp: ordered_dates_def ordered_parts_def date_parts_def sample_lib_def split: scalar.splits)

theorem partition_predicate_is_sound_witness:
  "\<exists>e'. transform_predicate sql_cast
      (BinaryExpr (Column (None, ''source'')) OpGtEq (Literal (SvTimestampMicrosecond (Some (- 1)) None)))
      [sample_field (Primitive PTimestamp) Day] = Some e'
    \<and> sql_eval sample_arrow sample_lib (\<lambda>_. SvInt32 (Some 0)) e' \<in> {None, Some true_scalar}"
proof -
  let ?e = "BinaryExpr (Column (None, ''source'')) OpGtEq (Literal (SvTimestampMicrosecond (Some (- 1)) None))"
  let ?pfs = "[sample_field (Primitive PTimestamp) Day]" and ?row = "\<lambda>_ :: string. SvTimestampMicrosecond (Some (- 1)) None"
  have e': "transform_predicate sql_cast ?e ?pfs = Some (partition_comparison (Column (None, ''part'')) OpGtEq (Literal (SvInt32 (Some (- 1)))))"
    by (simp add: transform_atom_def identity_column_def transform_comparison_def source_field_def project_comparison_def
        project_operator_def transform_literal_def literal_matches_source_def fold_cast_literal_def int32_literal_def
        legacy_comparison_def sample_field_def BoundPartitionField_new_def PartitionField_new_def bf_source_name_def
        bf_field_type_def bf_transform_def bf_name_def is_null_def in_i32_def Let_def)
  have "partition_of sample_lib ?pfs ?row (\<lambda>_. SvInt32 (Some 0))"
    by (simp add: partition_of_def recorded_def scalar_of_type_def null_of_type_def wf_scalar_def order_key_def in_i64_def
        transform_scalar_def scalarvalue_to_value_def value_transform_def micros_to_datetime_def sample_lib_def
        value_to_scalarvalue_def legacy_id_def truncation_fits_def is_null_def sample_field_def bf_field_type_def
        bf_transform_def BoundPartitionField_new_def PartitionField_new_def)
  moreover have "sql_eval sample_arrow sample_lib ?row ?e = Some true_scalar"
    by (simp add: sql_binop_def sql_compare_def widen_def order_key_def is_null_def true_scalar_def)
  ultimately show ?thesis
    using partition_predicate_is_sound [OF sql.evaluator_axioms sample_dates _ _ e'] e' by (auto simp: wf_scalar_def in_i64_def)
qed

text \<open>
  The hypothesis on \<open>Truncate\<close> is needed: the least integer is recorded under a width of ten as the
  greatest multiple that its wrap gives, and a predicate that it satisfies excludes its partition.
\<close>

lemma wrapped_truncation_is_excluded:
  "let e = BinaryExpr (Column (None, ''source'')) OpLt (Literal (SvInt32 (Some 0)));
       e' = partition_comparison (Column (None, ''part'')) OpLtEq (Literal (SvInt32 (Some 0)));
       s = SvInt32 (Some (- (2 ^ 31))); p = SvInt32 (Some (2 ^ 31 - 2))
   in transform_scalar sample_lib (Truncate 10) s = Some p
      \<and> transform_predicate sql_cast e [sample_field (Primitive PInt) (Truncate 10)] = Some e'
      \<and> sql_eval sample_arrow sample_lib (\<lambda>_. s) e = Some true_scalar
      \<and> sql_eval sample_arrow sample_lib (\<lambda>_. p) e' = Some (SvBoolean (Some False))"
  by (simp add: transform_scalar_def scalarvalue_to_value_def value_transform_def rem_euclid_def wrap32_def
      value_to_scalarvalue_def partition_comparison_def transform_atom_def identity_column_def transform_comparison_def
      source_field_def project_comparison_def project_operator_def transform_literal_def literal_matches_source_def
      fold_cast_literal_def truncate_down_def in_i32_def sample_field_def BoundPartitionField_new_def PartitionField_new_def
      bf_source_name_def bf_field_type_def bf_transform_def bf_name_def is_null_def sql_binop_def sql_compare_def
      order_key_def widen_def true_scalar_def Let_def)

end
