(* ===== verification/Partition_Batch.thy ===== *)
theory Partition_Batch
  imports Arrow_Transform
begin

text \<open>
  Splitting a record batch by partition (\<open>arrow/partition.rs\<close>): with one boolean mask for each
  combination of distinct values when there are few, with an index of the rows otherwise. The
  iteration order of a hash set or map is the parameter \<open>order\<close>. A group is its partition values
  and the indexes of its rows; the batch of a group takes these rows.
\<close>

section \<open>Batches\<close>

record record_batch =
  rb_columns :: "(string \<times> arrow_array) list"
  rb_num_rows :: nat

definition column_by_name :: "record_batch \<Rightarrow> string \<Rightarrow> arrow_array option" where
  "column_by_name b name = map_option snd (find (\<lambda>(n, a). n = name) (rb_columns b))"

fun take_rows :: "nat list \<Rightarrow> arrow_array \<Rightarrow> arrow_array" where
  "take_rows is (PrimitiveArray t xs) = PrimitiveArray t (map (\<lambda>i. xs ! i) is)"
| "take_rows is (StringArray xs) = StringArray (map (\<lambda>i. xs ! i) is)"
| "take_rows is (OpaqueArray t n) = OpaqueArray t (length is)"

definition take_batch :: "record_batch \<Rightarrow> nat list \<Rightarrow> record_batch" where
  "take_batch b is = \<lparr>rb_columns = map (\<lambda>(n, a). (n, take_rows is a)) (rb_columns b), rb_num_rows = length is\<rparr>"

definition MAX_BITMAP_COMPARISONS :: nat where
  "MAX_BITMAP_COMPARISONS = 1000000"

text \<open>\<open>saturating_mul\<close> on \<open>usize\<close>.\<close>

definition saturating_mul :: "nat \<Rightarrow> nat \<Rightarrow> nat" where
  "saturating_mul a b = min (a * b) (2 ^ 64 - 1)"

section \<open>Distinct values\<close>

datatype distinct_values =
    DistinctInts "i32 list"
  | DistinctLongs "i64 list"
  | DistinctTimestamps "i64 list" "string option"
  | DistinctTimestampNanos "i64 list" "string option"
  | DistinctStrings "string list"

fun distinct_len :: "distinct_values \<Rightarrow> nat" where
  "distinct_len (DistinctInts xs) = length xs"
| "distinct_len (DistinctLongs xs) = length xs"
| "distinct_len (DistinctTimestamps xs tz) = length xs"
| "distinct_len (DistinctTimestampNanos xs tz) = length xs"
| "distinct_len (DistinctStrings xs) = length xs"

definition insert_once :: "'a \<Rightarrow> 'a list \<Rightarrow> 'a list" where
  "insert_once x s = (if x \<in> set s then s else s @ [x])"

text \<open>
  The first value and every value that differs from the one before it, inserted into a set. The
  array has no nulls here.
\<close>

definition distinct_of :: "'a list \<Rightarrow> 'a list" where
  "distinct_of xs =
     (case xs of
        [] \<Rightarrow> []
      | [first] \<Rightarrow> [first]
      | first # rest \<Rightarrow>
          fold insert_once (map snd (filter (\<lambda>(a, b). a \<noteq> b) (zip (butlast xs) rest))) [first])"

definition non_null :: "'a option list \<Rightarrow> 'a list" where
  "non_null xs = List.map_filter (\<lambda>x. x) xs"

definition distinct_values :: "arrow_array \<Rightarrow> (distinct_values, error) outcome" where
  "distinct_values a =
     (case a of
        PrimitiveArray t xs \<Rightarrow>
          (case t of
             AInt32 \<Rightarrow> Ok (DistinctInts (distinct_of (non_null xs)))
           | AInt64 \<Rightarrow> Ok (DistinctLongs (distinct_of (non_null xs)))
           | ATimestamp Microsecond tz \<Rightarrow> Ok (DistinctTimestamps (distinct_of (non_null xs)) tz)
           | ATimestamp Nanosecond tz \<Rightarrow> Ok (DistinctTimestampNanos (distinct_of (non_null xs)) tz)
           | _ \<Rightarrow> Err (ArrowError ''Datatype not supported for transform.''))
      | StringArray xs \<Rightarrow> Ok (DistinctStrings (distinct_of (non_null xs)))
      | OpaqueArray t n \<Rightarrow> Err (ArrowError ''Datatype not supported for transform.''))"

definition null_count :: "arrow_array \<Rightarrow> nat" where
  "null_count a = length (filter (\<lambda>x. x = None) (array_values a))"

definition candidate_groups :: "(distinct_values \<times> arrow_array) list \<Rightarrow> nat" where
  "candidate_groups cols =
     fold (\<lambda>(d, a) product. saturating_mul product (distinct_len d + (if null_count a > 0 then 1 else 0))) cols 1"

section \<open>Groups by masks\<close>

text \<open>The comparison of a scalar with an array; null where the array is.\<close>

definition eq_scalar :: "ice_value \<Rightarrow> arrow_array \<Rightarrow> bool option list" where
  "eq_scalar v a = map (map_option (\<lambda>y. y = v)) (array_values a)"

definition is_null_mask :: "arrow_array \<Rightarrow> bool option list" where
  "is_null_mask a = map (\<lambda>x. Some (x = None)) (array_values a)"

definition and_mask :: "bool option list \<Rightarrow> bool option list \<Rightarrow> (bool option list, error) outcome" where
  "and_mask xs ys =
     (if length xs \<noteq> length ys then Err compute_error
      else Ok (map (\<lambda>(x, y). Option.bind x (\<lambda>a. map_option (\<lambda>b. a \<and> b) y)) (zip xs ys)))"

definition true_count :: "bool option list \<Rightarrow> nat" where
  "true_count m = length (filter (\<lambda>x. x = Some True) m)"

fun distinct_partition_values :: "distinct_values \<Rightarrow> ice_value list" where
  "distinct_partition_values (DistinctInts xs) = map VInt xs"
| "distinct_partition_values (DistinctLongs xs) = map VLongInt xs"
| "distinct_partition_values (DistinctTimestamps xs tz) = map (if tz = None then VTimestamp else VTimestampTZ) xs"
| "distinct_partition_values (DistinctTimestampNanos xs tz) =
     map (if tz = None then VTimestampNano else VTimestampTZNano) xs"
| "distinct_partition_values (DistinctStrings xs) = map VString xs"

type_synonym partition_tuple = "ice_value option list"

definition column_predicates ::
  "(ice_value list \<Rightarrow> ice_value list) \<Rightarrow> distinct_values \<times> arrow_array \<Rightarrow> (ice_value option \<times> bool option list) list" where
  "column_predicates order col =
     (case col of (d, a) \<Rightarrow>
        map (\<lambda>v. (Some v, eq_scalar v a)) (order (distinct_partition_values d))
        @ (if null_count a \<noteq> 0 then [(None, is_null_mask a)] else []))"

definition combine ::
  "(partition_tuple \<times> bool option list) list \<Rightarrow> (ice_value option \<times> bool option list) list
     \<Rightarrow> ((partition_tuple \<times> bool option list) list, error) outcome" where
  "combine acc predicates =
     rbind (try_map (\<lambda>((vs, x), (v, y)). rbind (and_mask x y) (\<lambda>m. Ok (vs @ [v], m)))
              (concat (map (\<lambda>x. map (Pair x) predicates) acc)))
       (\<lambda>groups. Ok (filter (\<lambda>(vs, m). true_count m \<noteq> 0) groups))"

definition mask_groups ::
  "(ice_value list \<Rightarrow> ice_value list) \<Rightarrow> nat \<Rightarrow> (distinct_values \<times> arrow_array) list
     \<Rightarrow> ((partition_tuple \<times> bool option list) list, error) outcome" where
  "mask_groups order n cols =
     try_fold (\<lambda>acc col. combine acc (column_predicates order col)) [([], replicate n (Some True))] cols"

definition mask_rows :: "bool option list \<Rightarrow> nat list" where
  "mask_rows m = filter (\<lambda>i. m ! i = Some True) [0..<length m]"

section \<open>Groups by an index\<close>

fun push_row :: "'k \<Rightarrow> nat \<Rightarrow> ('k \<times> nat \<times> nat list) list \<Rightarrow> ('k \<times> nat \<times> nat list) list" where
  "push_row k i [] = [(k, i, [i])]"
| "push_row k i ((k', first, is) # gs) =
     (if k' = k then (k', first, is @ [i]) # gs else (k', first, is) # push_row k i gs)"

text \<open>The key of a row is what \<open>RowConverter\<close> makes of it: equal for rows of equal values.\<close>

definition tuple_of_row :: "arrow_array list \<Rightarrow> nat \<Rightarrow> partition_tuple" where
  "tuple_of_row cols i = map (\<lambda>a. array_values a ! i) cols"

definition index_rows ::
  "arrow_array list \<Rightarrow> nat \<Rightarrow> ((partition_tuple \<times> nat \<times> nat list) list, error) outcome" where
  "index_rows cols n =
     try_fold (\<lambda>gs i. if i < 2 ^ 32 then Ok (push_row (tuple_of_row cols i) i gs)
       else Err (ArrowError ''Record batch exceeds u32 row-index range'')) [] [0..<n]"

definition partition_value_at :: "arrow_array \<Rightarrow> nat \<Rightarrow> (ice_value option, error) outcome" where
  "partition_value_at a i =
     (case a of
        PrimitiveArray t xs \<Rightarrow>
          if xs ! i = None then Ok None
          else (case t of
             AInt32 \<Rightarrow> Ok (map_option VInt (xs ! i))
           | AInt64 \<Rightarrow> Ok (map_option VLongInt (xs ! i))
           | ATimestamp Microsecond tz \<Rightarrow> Ok (map_option (if tz = None then VTimestamp else VTimestampTZ) (xs ! i))
           | ATimestamp Nanosecond tz \<Rightarrow> Ok (map_option (if tz = None then VTimestampNano else VTimestampTZNano) (xs ! i))
           | _ \<Rightarrow> Err (ArrowError ''Datatype not supported for partitioning''))
      | StringArray xs \<Rightarrow> Ok (map_option VString (xs ! i))
      | OpaqueArray t n \<Rightarrow> Err (ArrowError ''Datatype not supported for partitioning''))"

text \<open>The order of the values of the map of groups.\<close>

definition partition_record_batch_indexed ::
  "((nat \<times> nat list) list \<Rightarrow> (nat \<times> nat list) list) \<Rightarrow> arrow_array list \<Rightarrow> nat
     \<Rightarrow> ((partition_tuple \<times> nat list) list, error) outcome" where
  "partition_record_batch_indexed order_groups cols n =
     rbind (index_rows cols n) (\<lambda>gs.
     try_map (\<lambda>(first, is). rbind (try_map (\<lambda>a. partition_value_at a first) cols) (\<lambda>vs. Ok (vs, is)))
       (order_groups (map snd gs)))"

section \<open>Partitioning\<close>

definition partition_columns ::
  "arrow_lib \<Rightarrow> record_batch \<Rightarrow> bound_partition_field list \<Rightarrow> (arrow_array list, error) outcome" where
  "partition_columns al b pfs =
     try_map (\<lambda>field. rbind (ok_or (ArrowError ''Column doesn't exist'') (column_by_name b (bf_source_name field)))
       (\<lambda>a. transform_arrow al a (bf_transform field))) pfs"

definition partition_groups ::
  "(ice_value list \<Rightarrow> ice_value list) \<Rightarrow> ((nat \<times> nat list) list \<Rightarrow> (nat \<times> nat list) list) \<Rightarrow> arrow_array list \<Rightarrow> nat
     \<Rightarrow> ((partition_tuple \<times> nat list) list, error) outcome" where
  "partition_groups order order_groups cols n =
     rbind (try_map distinct_values cols) (\<lambda>ds.
     let candidates = candidate_groups (zip ds cols)
     in if candidates > 16 \<and> saturating_mul candidates n > MAX_BITMAP_COMPARISONS
        then partition_record_batch_indexed order_groups cols n
        else rbind (mask_groups order n (zip ds cols)) (\<lambda>gs.
             Ok (map (\<lambda>(vs, m). (vs, mask_rows m)) gs)))"

definition partition_record_batch ::
  "arrow_lib \<Rightarrow> (ice_value list \<Rightarrow> ice_value list) \<Rightarrow> ((nat \<times> nat list) list \<Rightarrow> (nat \<times> nat list) list)
     \<Rightarrow> record_batch \<Rightarrow> bound_partition_field list \<Rightarrow> ((partition_tuple \<times> record_batch) list, error) outcome" where
  "partition_record_batch al order order_groups b pfs =
     rbind (partition_columns al b pfs) (\<lambda>cols.
     rbind (partition_groups order order_groups cols (rb_num_rows b)) (\<lambda>gs.
     Ok (map (\<lambda>(vs, is). (vs, take_batch b is)) gs)))"

section \<open>Distinct values are the values\<close>

lemma insert_once_simps [simp]:
  "set (insert_once x s) = insert x (set s)" "distinct (insert_once x s) \<longleftrightarrow> distinct s"
  by (auto simp: insert_once_def)

lemma fold_insert_once:
  "set (fold insert_once xs s) = set s \<union> set xs" "distinct s \<Longrightarrow> distinct (fold insert_once xs s)"
  by (induction xs arbitrary: s) auto

lemma changes_cover:
  "insert x (snd ` {p \<in> set (zip (butlast (x # xs)) xs). fst p \<noteq> snd p}) = set (x # xs)"
proof (induction xs arbitrary: x)
  case (Cons y ys)
  define S where "S = {p \<in> set (zip (butlast (y # ys)) ys). fst p \<noteq> snd p}"
  have "{p \<in> set (zip (butlast (x # y # ys)) (y # ys)). fst p \<noteq> snd p} = (if x = y then S else insert (x, y) S)"
    by (auto simp: S_def)
  moreover have "insert y (snd ` S) = set (y # ys)" using Cons [of y] by (simp add: S_def)
  ultimately show ?case by (cases "x = y") (simp_all only: simp_thms if_True if_False image_insert snd_conv list.set(2) insert_absorb2)
qed simp

lemma distinct_of_spec: "set (distinct_of xs) = set xs \<and> distinct (distinct_of xs)"
proof -
  consider "xs = []" | x where "xs = [x]" | x y ys where "xs = x # y # ys" by (metis neq_Nil_conv)
  then show ?thesis
  proof cases
    case (3 x y ys)
    obtain c where c: "c = map snd (filter (\<lambda>(a, b). a \<noteq> b) (zip (butlast xs) (y # ys)))" by blast
    have "set c = snd ` {p \<in> set (zip (butlast (x # y # ys)) (y # ys)). fst p \<noteq> snd p}"
      unfolding c 3 by (auto simp: image_iff)
    then have "insert x (set c) = set xs" using changes_cover [of x "y # ys"] by (simp add: 3)
    moreover have "distinct_of xs = fold insert_once c [x]"
      unfolding c 3 by (simp add: distinct_of_def)
    ultimately show ?thesis using fold_insert_once(1) [of c "[x]"] fold_insert_once(2) [of "[x]" c] by simp
  qed (simp_all add: distinct_of_def)
qed

lemma non_null_simps [simp]:
  "non_null [] = []" "non_null (x # xs) = (case x of None \<Rightarrow> non_null xs | Some v \<Rightarrow> v # non_null xs)"
  by (simp_all add: non_null_def List.map_filter_def split: option.splits)

lemma distinct_map_injective: "distinct xs \<Longrightarrow> inj f \<Longrightarrow> distinct (map f xs)"
  by (simp add: distinct_map inj_on_def inj_def)

lemma set_map_option: "{v. Some v \<in> set (map (map_option f) xs)} = f ` set (non_null xs)"
proof (induction xs)
  case (Cons x xs)
  then show ?case by (cases x) auto
qed simp

text \<open>The arrays that can be partitioned: their slots are values by an injective constructor.\<close>

lemma distinct_values_cases:
  assumes "distinct_values a = Ok d"
  obtains (ints) xs :: "int option list" and f where "inj f" "array_values a = map (map_option f) xs"
      "distinct_partition_values d = map f (distinct_of (non_null xs))"
      "\<And>i. partition_value_at a i = Ok (map_option f (xs ! i))"
    | (strings) xs :: "string option list" and f where "inj f" "array_values a = map (map_option f) xs"
      "distinct_partition_values d = map f (distinct_of (non_null xs))"
      "\<And>i. partition_value_at a i = Ok (map_option f (xs ! i))"
proof (cases a)
  case (PrimitiveArray t xs)
  have slots: "array_values a = map (map_option f) xs" if "\<And>x. slot_value t x = Some (f x)" for f
    using that by (auto simp: PrimitiveArray split: bind_split)
  have at: "partition_value_at a i = Ok (map_option f (xs ! i))"
    if "\<And>x. xs ! i = Some x \<Longrightarrow> partition_value_at a i = Ok (Some (f x))" for f i
    using that by (cases "xs ! i") (simp_all add: PrimitiveArray partition_value_at_def)
  note simps = distinct_values_def partition_value_at_def inj_def
  consider "t = AInt32" | "t = AInt64" | tz where "t = ATimestamp Microsecond tz" | tz where "t = ATimestamp Nanosecond tz"
    using assms by (auto simp: PrimitiveArray distinct_values_def split: arrow_type.splits time_unit.splits)
  then show thesis
  proof cases
    case 1
    show thesis by (rule ints [of VInt, OF _ slots _ at]) (use assms PrimitiveArray 1 in \<open>auto simp: simps\<close>)
  next
    case 2
    show thesis by (rule ints [of VLongInt, OF _ slots _ at]) (use assms PrimitiveArray 2 in \<open>auto simp: simps\<close>)
  next
    case (3 tz)
    show thesis
      by (rule ints [of "if tz = None then VTimestamp else VTimestampTZ", OF _ slots _ at])
         (use assms PrimitiveArray 3 in \<open>auto simp: simps\<close>)
  next
    case (4 tz)
    show thesis
      by (rule ints [of "if tz = None then VTimestampNano else VTimestampTZNano", OF _ slots _ at])
         (use assms PrimitiveArray 4 in \<open>auto simp: simps\<close>)
  qed
next
  case (StringArray xs)
  then show thesis
    using assms strings [of VString xs] by (auto simp: distinct_values_def partition_value_at_def inj_def)
qed (use assms in \<open>simp add: distinct_values_def\<close>)

lemma distinct_values_spec:
  assumes "distinct_values a = Ok d"
  shows "set (distinct_partition_values d) = {v. Some v \<in> set (array_values a)}"
    and "distinct (distinct_partition_values d)"
proof -
  note spec = set_map_option distinct_of_spec distinct_map_injective
  have "set (distinct_partition_values d) = {v. Some v \<in> set (array_values a)} \<and> distinct (distinct_partition_values d)"
    using assms
  proof (cases rule: distinct_values_cases)
    case (ints xs f)
    then show ?thesis unfolding ints(2,3) spec(1)
      using distinct_of_spec [of "non_null xs"] distinct_map_injective [OF _ ints(1)] by simp
  next
    case (strings xs f)
    then show ?thesis unfolding strings(2,3) spec(1)
      using distinct_of_spec [of "non_null xs"] distinct_map_injective [OF _ strings(1)] by simp
  qed
  then show "set (distinct_partition_values d) = {v. Some v \<in> set (array_values a)}"
    "distinct (distinct_partition_values d)" by simp_all
qed

lemma partition_value_at_spec:
  assumes "distinct_values a = Ok d" "i < length (array_values a)"
  shows "partition_value_at a i = Ok (array_values a ! i)"
  using assms(1) assms(2) by (cases rule: distinct_values_cases) simp_all

section \<open>Masks find the groups\<close>

text \<open>
  The groups of the first \<open>n\<close> rows by their key: what both ways have to compute, up to the order.
\<close>

definition group_of :: "(nat \<Rightarrow> 'k) \<Rightarrow> nat \<Rightarrow> 'k \<Rightarrow> nat list" where
  "group_of key n k = filter (\<lambda>i. key i = k) [0..<n]"

definition groups_by :: "(nat \<Rightarrow> 'k) \<Rightarrow> nat \<Rightarrow> ('k \<times> nat list) set" where
  "groups_by key n = (\<lambda>i. (key i, group_of key n (key i))) ` {..<n}"

definition masks_ok :: "nat \<Rightarrow> (nat \<Rightarrow> 'k) \<Rightarrow> ('k \<times> bool option list) list \<Rightarrow> bool" where
  "masks_ok n key gs \<longleftrightarrow>
     distinct (map fst gs) \<and> fst ` set gs = key ` {..<n} \<and>
     (\<forall>(k, m) \<in> set gs. length m = n \<and> (\<forall>i < n. m ! i = Some True \<longleftrightarrow> key i = k))"

lemma masks_ok_groups:
  assumes "masks_ok n key gs"
  shows "distinct (map fst (map (\<lambda>(k, m). (k, mask_rows m)) gs))"
    and "set (map (\<lambda>(k, m). (k, mask_rows m)) gs) = groups_by key n"
proof -
  have "mask_rows m = group_of key n k" if "(k, m) \<in> set gs" for k m
    using assms that by (auto simp: masks_ok_def mask_rows_def group_of_def intro!: filter_cong)
  then have e: "map (\<lambda>(k, m). (k, mask_rows m)) gs = map (\<lambda>x. (fst x, group_of key n (fst x))) gs" by auto
  show "distinct (map fst (map (\<lambda>(k, m). (k, mask_rows m)) gs))"
    using assms by (simp add: e comp_def masks_ok_def)
  have "set (map (\<lambda>x. (fst x, group_of key n (fst x))) gs) = (\<lambda>k. (k, group_of key n k)) ` (fst ` set gs)"
    by (simp add: image_image)
  also have "\<dots> = (\<lambda>k. (k, group_of key n k)) ` (key ` {..<n})" using assms by (simp only: masks_ok_def)
  finally show "set (map (\<lambda>(k, m). (k, mask_rows m)) gs) = groups_by key n"
    by (simp add: e groups_by_def image_image)
qed

definition predicates_ok :: "nat \<Rightarrow> (nat \<Rightarrow> 'v) \<Rightarrow> ('v \<times> bool option list) list \<Rightarrow> bool" where
  "predicates_ok n val ps \<longleftrightarrow>
     distinct (map fst ps) \<and> val ` {..<n} \<subseteq> fst ` set ps \<and>
     (\<forall>(v, m) \<in> set ps. length m = n \<and> (\<forall>i < n. m ! i = Some True \<longleftrightarrow> val i = v))"

lemma column_predicates_ok:
  assumes "distinct_values a = Ok d" "\<And>xs. set (order xs) = set xs" "\<And>xs. distinct xs \<Longrightarrow> distinct (order xs)"
  shows "predicates_ok (length (array_values a)) (\<lambda>i. array_values a ! i) (column_predicates order (d, a))"
proof -
  let ?vs = "array_values a"
  note spec = distinct_values_spec [OF assms(1)]
  have m: "length (eq_scalar v a) = length ?vs" "i < length ?vs \<Longrightarrow> eq_scalar v a ! i = Some True \<longleftrightarrow> ?vs ! i = Some v" for v i
    by (auto simp: eq_scalar_def)
  have n: "length (is_null_mask a) = length ?vs" "i < length ?vs \<Longrightarrow> is_null_mask a ! i = Some True \<longleftrightarrow> ?vs ! i = None" for i
    by (auto simp: is_null_mask_def)
  have nc: "null_count a \<noteq> 0 \<longleftrightarrow> None \<in> set ?vs" by (auto simp: null_count_def filter_empty_conv)
  have f: "map fst (column_predicates order (d, a)) = map Some (order (distinct_partition_values d)) @ (if None \<in> set ?vs then [None] else [])"
    using nc by (simp add: column_predicates_def comp_def)
  have "distinct (map fst (column_predicates order (d, a)))"
    unfolding f using assms(3) spec(2) by (auto simp: distinct_map)
  moreover have "(\<lambda>i. ?vs ! i) ` {..<length ?vs} \<subseteq> set (map fst (column_predicates order (d, a)))"
  proof
    fix x assume "x \<in> (\<lambda>i. ?vs ! i) ` {..<length ?vs}"
    then have x: "x \<in> set ?vs" by auto
    show "x \<in> set (map fst (column_predicates order (d, a)))"
      unfolding f by (cases x) (use x assms(2) spec(1) in auto)
  qed
  moreover have "\<forall>(v, m) \<in> set (column_predicates order (d, a)).
      length m = length ?vs \<and> (\<forall>i < length ?vs. m ! i = Some True \<longleftrightarrow> ?vs ! i = v)"
    using m n by (auto simp: column_predicates_def split: if_splits)
  ultimately show ?thesis unfolding predicates_ok_def list.set_map by blast
qed

lemma product_map: "List.product (map f xs) (map g ys) = map (\<lambda>(x, y). (f x, g y)) (List.product xs ys)"
  by (induction xs) (simp_all add: comp_def)

lemma distinct_map_fst_filter: "distinct (map fst xs) \<Longrightarrow> distinct (map fst (filter P xs))"
  by (induction xs) auto

lemma concat_Pair: "concat (map (\<lambda>x. map (Pair x) ys) xs) = List.product xs ys"
  by (induction xs) auto

lemma combine_ok:
  assumes "masks_ok n key acc" "predicates_ok n val ps"
  shows "\<exists>gs. combine acc ps = Ok gs \<and> masks_ok n (\<lambda>i. key i @ [val i]) gs"
proof -
  define m where "m = (\<lambda>x y. map (\<lambda>(x, y). Option.bind x (\<lambda>a. map_option (\<lambda>b. a \<and> b) y)) (zip x y) :: bool option list)"
  define g where "g = (\<lambda>((vs :: partition_tuple, x), (v, y)). (vs @ [v], m x y))"
  have mt: "m x y ! i = Some True \<longleftrightarrow> x ! i = Some True \<and> y ! i = Some True" "length (m x y) = n"
    if "length x = n" "length y = n" "i < n" for x y i
    using that by (auto simp: m_def bind_eq_Some_conv)
  have ml: "length (m x y) = n" if "length x = n" "length y = n" for x y using that by (simp add: m_def)
  have ok: "(\<lambda>((vs, x), (v, y)). rbind (and_mask x y) (\<lambda>m. Ok (vs @ [v], m))) p = Ok (g p)"
    if "p \<in> set (List.product acc ps)" for p
    using that assms by (fastforce simp: masks_ok_def predicates_ok_def and_mask_def g_def m_def)
  have "try_map (\<lambda>((vs, x), (v, y)). rbind (and_mask x y) (\<lambda>m. Ok (vs @ [v], m))) (List.product acc ps) = Ok (map g (List.product acc ps))"
    by (rule try_map_Ok, rule ok)
  then have c: "combine acc ps = Ok (filter (\<lambda>(vs, m). true_count m \<noteq> 0) (map g (List.product acc ps)))"
    by (simp add: combine_def concat_Pair)
  let ?ps = "map g (List.product acc ps)"
  let ?gs = "filter (\<lambda>(vs, m). true_count m \<noteq> 0) ?ps"
  have "map fst ?ps = map (\<lambda>(vs, v). vs @ [v]) (List.product (map fst acc) (map fst ps))"
    unfolding product_map by (simp add: g_def case_prod_beta)
  moreover have "distinct (List.product (map fst acc) (map fst ps))"
    using assms by (intro distinct_product) (simp_all add: masks_ok_def predicates_ok_def)
  ultimately have "distinct (map fst ?ps)" by (auto simp: distinct_map inj_on_def)
  then have d: "distinct (map fst ?gs)" by (rule distinct_map_fst_filter)
  have in_ps: "\<exists>vs x v y. (vs, x) \<in> set acc \<and> (v, y) \<in> set ps \<and> k = vs @ [v] \<and> mk = m x y" if "(k, mk) \<in> set ?ps" for k mk
    using that by (force simp: g_def)
  have mem: "length mk = n \<and> (\<forall>i < n. mk ! i = Some True \<longleftrightarrow> key i @ [val i] = k)" if km: "(k, mk) \<in> set ?ps" for k mk
    using in_ps [OF km] assms mt ml by (fastforce simp: masks_ok_def predicates_ok_def)
  have tc: "true_count mk \<noteq> 0 \<longleftrightarrow> (\<exists>i < n. mk ! i = Some True)" if "length mk = n" for mk
    using that by (auto simp: true_count_def filter_empty_conv in_set_conv_nth)
  have "fst ` set ?gs = (\<lambda>i. key i @ [val i]) ` {..<n}"
  proof (intro equalityI subsetI)
    fix k assume "k \<in> fst ` set ?gs"
    then obtain p where "p \<in> set ?gs" "k = fst p" by blast
    then have p: "(k, snd p) \<in> set ?ps" "true_count (snd p) \<noteq> 0" by (simp_all add: case_prod_beta del: list.set_map)
    then obtain i where "i < n" "snd p ! i = Some True" using mem [OF p(1)] tc by blast
    then show "k \<in> (\<lambda>i. key i @ [val i]) ` {..<n}" using mem [OF p(1)] by blast
  next
    fix k assume "k \<in> (\<lambda>i. key i @ [val i]) ` {..<n}"
    then obtain i where i: "i < n" "k = key i @ [val i]" by blast
    have "key i \<in> fst ` set acc" "val i \<in> fst ` set ps"
      using assms i(1) by (simp_all add: masks_ok_def predicates_ok_def image_subset_iff)
    then obtain x y where "(key i, x) \<in> set acc" "(val i, y) \<in> set ps" by auto
    then have k: "(k, m x y) \<in> set ?ps" using i(2) by (force simp: g_def)
    then have "true_count (m x y) \<noteq> 0" using mem [OF k] tc i by blast
    then have "(k, m x y) \<in> set ?gs" using k by (simp del: list.set_map)
    then show "k \<in> fst ` set ?gs" by (rule image_eqI [rotated]) simp
  qed
  then show ?thesis unfolding c masks_ok_def using mem d by auto
qed


lemma masks_ok_start: "0 < n \<Longrightarrow> masks_ok n (tuple_of_row []) [([], replicate n (Some True))]"
  by (auto simp: masks_ok_def tuple_of_row_def)

lemma tuple_of_row_snoc: "tuple_of_row (cs @ [a]) = (\<lambda>i. tuple_of_row cs i @ [array_values a ! i])"
  by (simp add: tuple_of_row_def fun_eq_iff)

lemma mask_groups_ok:
  assumes "0 < n" "list_all2 (\<lambda>a d. distinct_values a = Ok d) cols ds" "\<forall>a \<in> set cols. length (array_values a) = n"
    "\<And>xs. set (order xs) = set xs" "\<And>xs. distinct xs \<Longrightarrow> distinct (order xs)"
  shows "\<exists>gs. mask_groups order n (zip ds cols) = Ok gs \<and> masks_ok n (tuple_of_row cols) gs"
  using assms(2,3)
proof (induction cols arbitrary: ds rule: rev_induct)
  case Nil
  then show ?case using masks_ok_start [OF assms(1)] by (simp add: mask_groups_def)
next
  case (snoc a cols)
  then obtain ds' d where ds: "ds = ds' @ [d]" "list_all2 (\<lambda>a d. distinct_values a = Ok d) cols ds'" "distinct_values a = Ok d"
    by (auto simp: list_all2_append1 list_all2_Cons1)
  obtain gs where gs: "mask_groups order n (zip ds' cols) = Ok gs" "masks_ok n (tuple_of_row cols) gs"
    using snoc.IH [OF ds(2)] snoc.prems(2) by auto
  have "predicates_ok n (\<lambda>i. array_values a ! i) (column_predicates order (d, a))"
    using column_predicates_ok [OF ds(3) assms(4,5)] snoc.prems(2) by simp
  from combine_ok [OF gs(2) this] obtain gs' where "combine gs (column_predicates order (d, a)) = Ok gs'"
    "masks_ok n (tuple_of_row (cols @ [a])) gs'" by (auto simp: tuple_of_row_snoc)
  moreover have "length ds' = length cols" using ds(2) by (simp add: list_all2_lengthD)
  ultimately show ?case using gs(1) by (simp add: mask_groups_def ds(1) try_fold_append)
qed

section \<open>The index finds the groups\<close>

definition entry_ok :: "(nat \<Rightarrow> 'k) \<Rightarrow> nat \<Rightarrow> 'k \<Rightarrow> (nat \<times> nat list) option \<Rightarrow> bool" where
  "entry_ok key n k e \<longleftrightarrow>
     (case e of None \<Rightarrow> group_of key n k = [] | Some (first, is) \<Rightarrow> is = group_of key n k \<and> first \<in> set is)"

definition index_ok :: "(nat \<Rightarrow> 'k) \<Rightarrow> nat \<Rightarrow> ('k \<times> nat \<times> nat list) list \<Rightarrow> bool" where
  "index_ok key n gs \<longleftrightarrow> distinct (map fst gs) \<and> (\<forall>k. entry_ok key n k (map_of gs k))"

lemma group_of_Suc: "group_of key (Suc n) k = group_of key n k @ (if key n = k then [n] else [])"
  by (simp add: group_of_def)

lemma push_row_fst: "fst ` set (push_row k i gs) = insert k (fst ` set gs)"
  by (induction k i gs rule: push_row.induct) auto

lemma push_row_distinct: "distinct (map fst gs) \<Longrightarrow> distinct (map fst (push_row k i gs))"
  by (induction k i gs rule: push_row.induct) (auto simp: push_row_fst)

lemma push_row_map_of:
  "map_of (push_row k i gs) = (map_of gs)(k \<mapsto> (case map_of gs k of None \<Rightarrow> (i, [i]) | Some (first, is) \<Rightarrow> (first, is @ [i])))"
  by (induction k i gs rule: push_row.induct) (auto simp: fun_eq_iff)

lemma entry_ok_step:
  assumes "entry_ok key n k e"
  shows "entry_ok key (Suc n) k
    (if k = key n then Some (case e of None \<Rightarrow> (n, [n]) | Some (first, is) \<Rightarrow> (first, is @ [n])) else e)"
  using assms by (auto simp: entry_ok_def group_of_Suc split: option.splits)

lemma push_row_ok:
  assumes "index_ok key n gs"
  shows "index_ok key (Suc n) (push_row (key n) n gs)"
proof -
  have "entry_ok key (Suc n) k (map_of (push_row (key n) n gs) k)" for k
  proof -
    have "map_of (push_row (key n) n gs) k = (if k = key n
        then Some (case map_of gs k of None \<Rightarrow> (n, [n]) | Some (first, is) \<Rightarrow> (first, is @ [n])) else map_of gs k)"
      by (simp add: push_row_map_of)
    moreover have "entry_ok key n k (map_of gs k)" using assms by (simp add: index_ok_def)
    ultimately show ?thesis by (simp only: entry_ok_step)
  qed
  then show ?thesis using assms by (simp add: index_ok_def push_row_distinct)
qed

lemma index_rows_ok: "index_rows cols n = Ok gs \<Longrightarrow> index_ok (tuple_of_row cols) n gs"
proof (induction n arbitrary: gs)
  case 0
  then show ?case by (simp add: index_rows_def index_ok_def entry_ok_def group_of_def)
next
  case (Suc n)
  then obtain gs' where "index_rows cols n = Ok gs'" "gs = push_row (tuple_of_row cols n) n gs'"
    by (auto simp: index_rows_def try_fold_append split: if_splits)
  then show ?case using Suc.IH push_row_ok by blast
qed

text \<open>The first row of a group has its key, so the values read there are the key.\<close>

lemma index_ok_groups:
  assumes "index_ok key n gs"
  shows "(k, first, is) \<in> set gs \<Longrightarrow> is = group_of key n k \<and> first < n \<and> key first = k"
    and "set (map (\<lambda>(k, first, is). (k, is)) gs) = groups_by key n"
proof -
  have m: "is = group_of key n k \<and> first < n \<and> key first = k" if "(k, first, is) \<in> set gs" for k first "is"
  proof -
    have "map_of gs k = Some (first, is)" using assms that by (simp add: index_ok_def)
    moreover have "entry_ok key n k (map_of gs k)" using assms by (simp add: index_ok_def)
    ultimately show ?thesis by (auto simp: entry_ok_def group_of_def)
  qed
  then show "(k, first, is) \<in> set gs \<Longrightarrow> is = group_of key n k \<and> first < n \<and> key first = k" .
  show "set (map (\<lambda>(k, first, is). (k, is)) gs) = groups_by key n"
  proof (intro equalityI subsetI)
    fix x assume "x \<in> set (map (\<lambda>(k, first, is). (k, is)) gs)"
    then obtain k first "is" where x: "(k, first, is) \<in> set gs" "x = (k, is)" by auto
    then show "x \<in> groups_by key n" using m [OF x(1)] by (auto simp: groups_by_def intro!: image_eqI [where x = first])
  next
    fix x assume "x \<in> groups_by key n"
    then obtain i where i: "i < n" "x = (key i, group_of key n (key i))" by (auto simp: groups_by_def)
    then have "group_of key n (key i) \<noteq> []" by (auto simp: group_of_def filter_empty_conv)
    then obtain first "is" where f: "map_of gs (key i) = Some (first, is)"
      using assms by (cases "map_of gs (key i)") (auto simp: index_ok_def entry_ok_def dest!: spec [of _ "key i"])
    then have "(key i, first, is) \<in> set gs" by (rule map_of_SomeD)
    then show "x \<in> set (map (\<lambda>(k, first, is). (k, is)) gs)" unfolding set_map using m [of "key i" first "is"] i(2) by (intro image_eqI [where x = "(key i, first, is)"]) auto
  qed
qed


section \<open>Both ways\<close>

lemma indexed_groups:
  assumes "partition_record_batch_indexed order_groups cols n = Ok gs" "list_all2 (\<lambda>a d. distinct_values a = Ok d) cols ds"
    "\<forall>a \<in> set cols. length (array_values a) = n" "\<And>xs. mset (order_groups xs) = mset xs"
  shows "distinct (map fst gs) \<and> set gs = groups_by (tuple_of_row cols) n"
proof -
  let ?key = "tuple_of_row cols"
  obtain idx where idx: "index_rows cols n = Ok idx"
    and gs: "try_map (\<lambda>(first, is). rbind (try_map (\<lambda>a. partition_value_at a first) cols) (\<lambda>vs. Ok (vs, is)))
      (order_groups (map snd idx)) = Ok gs"
    using assms(1) by (auto simp: partition_record_batch_indexed_def)
  note ok = index_rows_ok [OF idx]
  have key: "try_map (\<lambda>a. partition_value_at a first) cols = Ok (?key first)" if "first < n" for first
    unfolding tuple_of_row_def
  proof (rule try_map_Ok)
    fix a assume "a \<in> set cols"
    moreover from this obtain d where "distinct_values a = Ok d" using assms(2) by (auto simp: list_all2_conv_all_nth in_set_conv_nth)
    ultimately show "partition_value_at a first = Ok (array_values a ! first)"
      using partition_value_at_spec [of a d first] assms(3) that by simp
  qed
  have "try_map (\<lambda>(first, is). rbind (try_map (\<lambda>a. partition_value_at a first) cols) (\<lambda>vs. Ok (vs, is)))
      (order_groups (map snd idx)) = Ok (map (\<lambda>(first, is). (?key first, is)) (order_groups (map snd idx)))"
  proof (rule try_map_Ok)
    fix p assume "p \<in> set (order_groups (map snd idx))"
    then have "p \<in> set (map snd idx)" using assms(4) by (metis set_mset_mset)
    then obtain k where "(k, fst p, snd p) \<in> set idx" by auto
    then have "fst p < n" using index_ok_groups(1) [OF ok] by blast
    then show "(\<lambda>(first, is). rbind (try_map (\<lambda>a. partition_value_at a first) cols) (\<lambda>vs. Ok (vs, is))) p =
        Ok ((\<lambda>(first, is). (?key first, is)) p)" using key by (simp add: case_prod_beta)
  qed
  then have "gs = map (\<lambda>(first, is). (?key first, is)) (order_groups (map snd idx))" using gs by simp
  then have m: "mset gs = mset (map (\<lambda>(first, is). (?key first, is)) (map snd idx))" by (simp only: mset_map assms(4))
  moreover have "map (\<lambda>(first, is). (?key first, is)) (map snd idx) = map (\<lambda>(k, first, is). (k, is)) idx"
    using index_ok_groups(1) [OF ok] by auto
  ultimately have m: "mset gs = mset (map (\<lambda>(k, first, is). (k, is)) idx)" by (simp only:)
  then have "set gs = groups_by ?key n" using index_ok_groups(2) [OF ok] by (metis set_mset_mset)
  moreover have "mset (map fst gs) = mset (map fst idx)" using m by (simp add: image_mset.compositionality comp_def case_prod_beta)
  then have "distinct (map fst gs)" using ok by (metis index_ok_def mset_eq_imp_distinct_iff)
  ultimately show ?thesis by simp
qed

lemma partition_groups_spec:
  assumes "partition_groups order order_groups cols n = Ok gs" "0 < n" "\<forall>a \<in> set cols. length (array_values a) = n"
    "\<And>xs. mset (order xs) = mset xs" "\<And>xs. mset (order_groups xs) = mset xs"
  shows "distinct (map fst gs) \<and> set gs = groups_by (tuple_of_row cols) n"
proof -
  obtain ds where ds: "try_map distinct_values cols = Ok ds"
    and gs: "(if candidate_groups (zip ds cols) > 16 \<and> saturating_mul (candidate_groups (zip ds cols)) n > MAX_BITMAP_COMPARISONS
        then partition_record_batch_indexed order_groups cols n
        else rbind (mask_groups order n (zip ds cols)) (\<lambda>gs. Ok (map (\<lambda>(vs, m). (vs, mask_rows m)) gs))) = Ok gs"
    using assms(1) by (auto simp: partition_groups_def Let_def)
  have d: "list_all2 (\<lambda>a d. distinct_values a = Ok d) cols ds" using ds by (simp add: try_map_eq_Ok)
  have o: "set (order xs) = set xs" "distinct xs \<Longrightarrow> distinct (order xs)" for xs
    using assms(4) by (metis set_mset_mset, metis mset_eq_imp_distinct_iff)
  show ?thesis
  proof (cases "candidate_groups (zip ds cols) > 16 \<and> saturating_mul (candidate_groups (zip ds cols)) n > MAX_BITMAP_COMPARISONS")
    case True
    then have "partition_record_batch_indexed order_groups cols n = Ok gs" using gs by simp
    then show ?thesis by (rule indexed_groups [OF _ d assms(3,5)])
  next
    case False
    obtain ms where ms: "mask_groups order n (zip ds cols) = Ok ms" "masks_ok n (tuple_of_row cols) ms"
      using mask_groups_ok [OF assms(2) d assms(3) o] by blast
    moreover have "gs = map (\<lambda>(vs, m). (vs, mask_rows m)) ms" using gs False calculation(1) by auto
    ultimately show ?thesis using masks_ok_groups by blast
  qed
qed


text \<open>The transform of an array has its length.\<close>

lemma unary_length: "unary f xs = Ok ys \<Longrightarrow> length ys = length xs"
  unfolding unary_def by (rule try_map_length)

lemma date_part_of_length: "date_part_of al t part xs = Ok ys \<Longrightarrow> length ys = length xs"
  by (drule date_part_of_Ok) simp

lemma array_values_length [simp]: "length (array_values a) = array_length a"
  by (cases a) simp_all

lemma years_of_length: "years_of al t xs = Ok b \<Longrightarrow> array_length b = length xs"
  by (drule years_of_Ok) simp

lemma months_of_length: "months_of al t xs = Ok b \<Longrightarrow> array_length b = length xs"
  by (drule months_of_Ok) simp

lemma int32_array_length: "int32_array (unary f xs) = Ok b \<Longrightarrow> array_length b = length xs"
  by (auto simp: int32_array_def unary_length)

lemma unary_array_length: "rbind (unary f xs) (\<lambda>ys. Ok (PrimitiveArray t ys)) = Ok b \<Longrightarrow> array_length b = length xs"
  by (auto simp: unary_length)

lemmas transform_lengths = years_of_length months_of_length int32_array_length unary_array_length

lemma transform_primitive_length:
  assumes "transform_primitive al t xs tr = Ok b"
  shows "array_length b = length xs"
proof (cases tr)
  case Identity
  then show ?thesis using assms by (auto simp: transform_primitive_def)
next
  case (Bucket m)
  then show ?thesis using assms
    by (auto simp: transform_primitive_def buckets_of_def dest: transform_lengths split: arrow_type.splits time_unit.splits)
qed (use assms in \<open>auto simp del: rbind_eq_Ok simp: transform_primitive_def int32_array_def [symmetric]
    dest!: transform_lengths split: arrow_type.splits time_unit.splits\<close>)

lemma transform_arrow_length:
  assumes "transform_arrow al a tr = Ok b"
  shows "array_length b = array_length a"
proof -
  have "transform_typed al a tr = Ok b"
    using assms by (auto simp: transform_arrow_def split: transform.splits if_splits)
  then show ?thesis
    by (cases a) (auto simp: transform_typed_def transform_primitive_length split: transform.splits if_splits)
qed

definition wf_batch :: "record_batch \<Rightarrow> bool" where
  "wf_batch b \<longleftrightarrow> list_all (\<lambda>(name, a). array_length a = rb_num_rows b) (rb_columns b)"

text \<open>
  C18. Partitioning a batch puts every row into exactly one group, the one of its partition values: the
  groups are those of the keys of the rows, each once, with all its rows in their order, whichever
  of the two ways is taken and in whatever order sets and maps are iterated.
\<close>

theorem partitioning_groups_rows_by_key:
  assumes "partition_record_batch al order order_groups b pfs = Ok parts" "wf_batch b" "0 < rb_num_rows b"
    "\<And>xs. mset (order xs) = mset xs" "\<And>xs. mset (order_groups xs) = mset xs"
  shows "\<exists>cols gs. partition_columns al b pfs = Ok cols
    \<and> parts = map (\<lambda>(vs, is). (vs, take_batch b is)) gs
    \<and> distinct (map fst gs)
    \<and> set gs = (\<lambda>i. (tuple_of_row cols i, filter (\<lambda>j. tuple_of_row cols j = tuple_of_row cols i) [0..<rb_num_rows b])) ` {..<rb_num_rows b}"
proof -
  obtain cols gs where c: "partition_columns al b pfs = Ok cols"
    and g: "partition_groups order order_groups cols (rb_num_rows b) = Ok gs"
    and p: "parts = map (\<lambda>(vs, is). (vs, take_batch b is)) gs"
    using assms(1) by (auto simp: partition_record_batch_def)
  have "length (array_values a) = rb_num_rows b" if "a \<in> set cols" for a
  proof -
    from c that obtain field x where f: "column_by_name b (bf_source_name field) = Some x"
      "transform_arrow al x (bf_transform field) = Ok a"
      by (fastforce simp: partition_columns_def try_map_eq_Ok list_all2_conv_all_nth in_set_conv_nth)
    then have "(bf_source_name field, x) \<in> set (rb_columns b)"
      by (auto simp: column_by_name_def find_Some_iff) (metis nth_mem)
    then have "array_length x = rb_num_rows b" using assms(2) by (auto simp: wf_batch_def list_all_iff)
    then show ?thesis using transform_arrow_length [OF f(2)] by simp
  qed
  then have "distinct (map fst gs) \<and> set gs = groups_by (tuple_of_row cols) (rb_num_rows b)"
    by (intro partition_groups_spec [OF g assms(3) _ assms(4,5)]) blast
  then show ?thesis using c p unfolding groups_by_def group_of_def by blast
qed

definition sample_batch :: record_batch where
  "sample_batch = \<lparr>rb_columns = [(''source'', PrimitiveArray AInt32 [Some 17, None, Some 12])], rb_num_rows = 3\<rparr>"

definition sample_partition :: "bound_partition_field list" where
  "sample_partition =
     [BoundPartitionField_new (PartitionField_new 1 1000 ''part'' (Truncate 10))
        (StructField 1 ''source'' False (Primitive PInt) None None None)]"

lemma sample_columns:
  "partition_columns sample_arrow sample_batch sample_partition = Ok [PrimitiveArray AInt32 [Some 10, None, Some 10]]"
  by (simp add: partition_columns_def sample_partition_def sample_batch_def column_by_name_def bf_source_name_def
      bf_transform_def BoundPartitionField_new_def PartitionField_new_def transform_arrow_def transform_typed_def
      transform_primitive_def unary_def truncate_at_def rem_euclid_def wrap32_def)

lemma sample_rows [simp]: "rb_num_rows sample_batch = 3"
  by (simp add: sample_batch_def)

theorem partitioning_groups_rows_by_key_witness:
  "\<exists>parts. partition_record_batch sample_arrow (\<lambda>xs. xs) rev sample_batch sample_partition = Ok parts
    \<and> ([Some (VInt 10)], \<lparr>rb_columns = [(''source'', PrimitiveArray AInt32 [Some 17, Some 12])], rb_num_rows = 2\<rparr>) \<in> set parts"
proof -
  let ?a = "PrimitiveArray AInt32 [Some 10, None, Some 10]"
  obtain ms where ms: "mask_groups (\<lambda>xs. xs) 3 (zip [DistinctInts [10]] [?a]) = Ok ms"
    using mask_groups_ok [of 3 "[?a]" "[DistinctInts [10]]" "\<lambda>xs. xs"] by (auto simp: distinct_values_def distinct_of_def)
  obtain parts where p: "partition_record_batch sample_arrow (\<lambda>xs. xs) rev sample_batch sample_partition = Ok parts"
  proof -
    have "candidate_groups (zip [DistinctInts [10]] [?a]) = 2"
      by (simp add: candidate_groups_def saturating_mul_def null_count_def)
    then have "partition_groups (\<lambda>xs. xs) rev [?a] 3 = Ok (map (\<lambda>(vs, m). (vs, mask_rows m)) ms)"
      using ms by (simp add: partition_groups_def distinct_values_def distinct_of_def)
    then show ?thesis using that by (simp add: partition_record_batch_def sample_columns sample_rows)
  qed
  have "wf_batch sample_batch" "0 < rb_num_rows sample_batch" by (simp_all add: wf_batch_def sample_batch_def)
  from partitioning_groups_rows_by_key [OF p this] obtain gs
    where gs: "parts = map (\<lambda>(vs, is). (vs, take_batch sample_batch is)) gs"
      "set gs = (\<lambda>i. (tuple_of_row [?a] i, filter (\<lambda>j. tuple_of_row [?a] j = tuple_of_row [?a] i) [0..<3])) ` {..<3}"
    by (auto simp: sample_columns)
  have "tuple_of_row [?a] 0 = [Some (VInt 10)]" "filter (\<lambda>j. tuple_of_row [?a] j = tuple_of_row [?a] 0) [0..<3] = [0, 2]"
    by (simp_all add: tuple_of_row_def upt_rec)
  then have "([Some (VInt 10)], [0, 2]) \<in> set gs" unfolding gs(2) by (intro image_eqI [where x = 0]) simp_all
  then have "([Some (VInt 10)], take_batch sample_batch [0, 2]) \<in> set parts" unfolding gs(1) by force
  moreover have "take_batch sample_batch [0, 2] =
      \<lparr>rb_columns = [(''source'', PrimitiveArray AInt32 [Some 17, Some 12])], rb_num_rows = 2\<rparr>"
    by (simp add: take_batch_def sample_batch_def)
  ultimately show ?thesis using p by auto
qed

end
