(* ===== verification/Puffin.thy ===== *)
theory Puffin
  imports Partition_Batch
begin

text \<open>
  Puffin files (\<open>iceberg-rust-spec/src/spec/puffin.rs\<close>), the deletion vectors that they hold
  (\<open>deletion_vector.rs\<close>) and the filter that applies them to record batches
  (\<open>datafusion_iceberg/src/deletion_vector_filter.rs\<close>). The JSON and Zstandard codecs, the
  roaring bitmaps and the checksum are parameters.
\<close>

section \<open>Files\<close>

definition PUFFIN_MAGIC :: "byte list" where "PUFFIN_MAGIC = [0x50, 0x46, 0x41, 0x31]"
definition FOOTER_STRUCT_LENGTH :: nat where "FOOTER_STRUCT_LENGTH = 4 + 4 + 4"

datatype puffin_codec = Lz4 | Zstd

record blob_metadata =
  bm_type :: string
  bm_fields :: "i32 list"
  bm_snapshot_id :: i64
  bm_sequence_number :: i64
  bm_offset :: i64
  bm_length :: i64
  bm_codec :: "puffin_codec option"
  bm_properties :: "string \<rightharpoonup> string"

record puffin_metadata =
  pf_blobs :: "blob_metadata list"
  pf_properties :: "string \<rightharpoonup> string"

record puffin_lib =
  pl_to_json :: "puffin_metadata \<Rightarrow> (byte list, spec_error) outcome"
  pl_from_json :: "byte list \<Rightarrow> (puffin_metadata, spec_error) outcome"
  pl_encode :: "byte list \<Rightarrow> (byte list, spec_error) outcome"
  pl_decode :: "byte list \<Rightarrow> (byte list, spec_error) outcome"

text \<open>\<open>&xs[a..b]\<close>.\<close>

definition byte_slice :: "nat \<Rightarrow> nat \<Rightarrow> byte list \<Rightarrow> (byte list, spec_error) outcome" where
  "byte_slice a b xs =
     (if a \<le> b \<and> b \<le> length xs then Ok (take (b - a) (drop a xs)) else Panic ''slice index out of range'')"

definition usize_of_i64 :: "string \<Rightarrow> i64 \<Rightarrow> (nat, spec_error) outcome" where
  "usize_of_i64 message x = (if x < 0 then Err (SInvalidFormat message) else Ok (nat x))"

definition read_from :: "puffin_lib \<Rightarrow> blob_metadata \<Rightarrow> byte list \<Rightarrow> (byte list, spec_error) outcome" where
  "read_from lib b file_bytes =
     rbind (usize_of_i64 ''blob offset is negative'' (bm_offset b)) (\<lambda>offset.
     rbind (usize_of_i64 ''blob length is negative'' (bm_length b)) (\<lambda>len.
     if offset + len \<ge> 2 ^ 64 then Err (SInvalidFormat ''blob offset + length overflows'')
     else if offset + len > length file_bytes then Err (SInvalidFormat ''blob extends past end of Puffin file'')
     else rbind (byte_slice offset (offset + len) file_bytes) (\<lambda>bytes.
       case bm_codec b of
         None \<Rightarrow> Ok bytes
       | Some Zstd \<Rightarrow> pl_decode lib bytes
       | Some Lz4 \<Rightarrow> Err (SNotSupported ''LZ4-compressed Puffin blob''))))"

definition checked_sub :: "string \<Rightarrow> nat \<Rightarrow> nat \<Rightarrow> (nat, spec_error) outcome" where
  "checked_sub message a b = (if b \<le> a then Ok (a - b) else Err (SInvalidFormat message))"

definition read_footer :: "puffin_lib \<Rightarrow> byte list \<Rightarrow> (puffin_metadata, spec_error) outcome" where
  "read_footer lib bytes =
     (let len = length bytes
      in if len < length PUFFIN_MAGIC + length PUFFIN_MAGIC + FOOTER_STRUCT_LENGTH
         then Err (SInvalidFormat ''Puffin file too short'')
         else rbind (byte_slice 0 4 bytes) (\<lambda>start_magic.
         if start_magic \<noteq> PUFFIN_MAGIC then Err (SInvalidFormat ''Puffin start magic'')
         else rbind (byte_slice (len - 4) len bytes) (\<lambda>end_magic.
         if end_magic \<noteq> PUFFIN_MAGIC then Err (SInvalidFormat ''Puffin end magic'')
         else rbind (byte_slice (len - 8) (len - 4) bytes) (\<lambda>flags.
         if bit (flags ! 0) 0 then Err (SNotSupported ''LZ4-compressed Puffin footer payload'')
         else rbind (rbind (byte_slice (len - 12) (len - 8) bytes) (array_of 4)) (\<lambda>size_bytes.
         if sint_le size_bytes < 0 then Err (SInvalidFormat ''Puffin footer payload size is negative'')
         else rbind (checked_sub ''Puffin payload size out of range'' (len - FOOTER_STRUCT_LENGTH) (nat (sint_le size_bytes)))
           (\<lambda>payload_start.
         rbind (checked_sub ''Puffin footer magic out of range'' payload_start (length PUFFIN_MAGIC)) (\<lambda>footer_magic_start.
         rbind (byte_slice footer_magic_start payload_start bytes) (\<lambda>footer_magic.
         if footer_magic \<noteq> PUFFIN_MAGIC then Err (SInvalidFormat ''Puffin footer start magic'')
         else rbind (byte_slice payload_start (len - FOOTER_STRUCT_LENGTH) bytes) (pl_from_json lib)))))))))"

record blob =
  bl_type :: string
  bl_fields :: "i32 list"
  bl_snapshot_id :: i64
  bl_sequence_number :: i64
  bl_codec :: "puffin_codec option"
  bl_properties :: "string \<rightharpoonup> string"
  bl_payload :: "byte list"

record puffin_writer =
  pw_bytes :: "byte list"
  pw_blobs :: "blob_metadata list"
  pw_properties :: "string \<rightharpoonup> string"

definition PuffinWriter_new :: puffin_writer where
  "PuffinWriter_new = \<lparr>pw_bytes = PUFFIN_MAGIC, pw_blobs = [], pw_properties = Map.empty\<rparr>"

definition puffin_set_property :: "string \<Rightarrow> string \<Rightarrow> puffin_writer \<Rightarrow> puffin_writer" where
  "puffin_set_property k v w = w\<lparr>pw_properties := (pw_properties w)(k \<mapsto> v)\<rparr>"

definition i64_of_usize :: "string \<Rightarrow> nat \<Rightarrow> (i64, spec_error) outcome" where
  "i64_of_usize message n = (if n < 2 ^ 63 then Ok (int n) else Err (SInvalidFormat message))"

definition write_blob :: "puffin_lib \<Rightarrow> puffin_writer \<Rightarrow> blob \<Rightarrow> (puffin_writer, spec_error) outcome" where
  "write_blob lib w b =
     rbind (case bl_codec b of
              None \<Rightarrow> Ok (bl_payload b)
            | Some Zstd \<Rightarrow> pl_encode lib (bl_payload b)
            | Some Lz4 \<Rightarrow> Err (SNotSupported ''LZ4-compressed Puffin blob'')) (\<lambda>written.
     rbind (i64_of_usize ''Puffin file offset overflows i64'' (length (pw_bytes w))) (\<lambda>offset.
     rbind (i64_of_usize ''Puffin blob length overflows i64'' (length written)) (\<lambda>len.
     Ok (w\<lparr>pw_bytes := pw_bytes w @ written,
           pw_blobs := pw_blobs w @
             [\<lparr>bm_type = bl_type b, bm_fields = bl_fields b, bm_snapshot_id = bl_snapshot_id b,
               bm_sequence_number = bl_sequence_number b, bm_offset = offset, bm_length = len,
               bm_codec = bl_codec b, bm_properties = bl_properties b\<rparr>]\<rparr>))))"

definition finish :: "puffin_lib \<Rightarrow> puffin_writer \<Rightarrow> (byte list, spec_error) outcome" where
  "finish lib w =
     rbind (pl_to_json lib \<lparr>pf_blobs = pw_blobs w, pf_properties = pw_properties w\<rparr>) (\<lambda>payload.
     if length payload \<ge> 2 ^ 31 then Err (SInvalidFormat ''Puffin footer payload too large'')
     else Ok (pw_bytes w @ PUFFIN_MAGIC @ payload @ to_le_bytes 4 (int (length payload)) @ replicate 4 0 @ PUFFIN_MAGIC))"

section \<open>Deletion vectors\<close>

definition DV_MAGIC :: "byte list" where "DV_MAGIC = [0xD1, 0xD3, 0x39, 0x64]"
definition LENGTH_BYTES :: nat where "LENGTH_BYTES = 4"
definition MAGIC_BYTES :: nat where "MAGIC_BYTES = length DV_MAGIC"
definition CRC_BYTES :: nat where "CRC_BYTES = 4"
definition MIN_BLOB_BYTES :: nat where "MIN_BLOB_BYTES = LENGTH_BYTES + MAGIC_BYTES + CRC_BYTES"

text \<open>
  A set of 64-bit positions as the roaring library keeps it: one bitmap of the low 32 bits for
  each value of the high 32 bits.
\<close>

type_synonym treemap = "(nat \<times> nat set) list"

record roaring_lib =
  rl_deserialize :: "byte list \<Rightarrow> (nat set \<times> byte list, spec_error) outcome"
  rl_crc32 :: "byte list \<Rightarrow> int"

definition treemap_contains :: "treemap \<Rightarrow> nat \<Rightarrow> bool" where
  "treemap_contains m p = (case map_of m (p div 2 ^ 32) of Some s \<Rightarrow> p mod 2 ^ 32 \<in> s | None \<Rightarrow> False)"

definition read_uint_le :: "nat \<Rightarrow> byte list \<Rightarrow> (nat \<times> byte list, spec_error) outcome" where
  "read_uint_le n input =
     (if length input < n then Err (SIO ''failed to fill whole buffer'')
      else Ok (nat (uint_le (take n input)), drop n input))"

text \<open>The loop over the bitmaps; \<open>previous\<close> is the last key.\<close>

fun read_bitmaps ::
  "roaring_lib \<Rightarrow> nat \<Rightarrow> nat option \<Rightarrow> byte list \<Rightarrow> (treemap \<times> byte list, spec_error) outcome" where
  "read_bitmaps lib 0 previous input = Ok ([], input)"
| "read_bitmaps lib (Suc n) previous input =
     rbind (read_uint_le 4 input) (\<lambda>(key, input).
     if (case previous of Some k \<Rightarrow> key \<le> k | None \<Rightarrow> False)
     then Err (SInvalidFormat ''deletion-vector-v1 roaring keys are not strictly ordered'')
     else rbind (rl_deserialize lib input) (\<lambda>(bitmap, input).
          rbind (read_bitmaps lib n (Some key) input) (\<lambda>(bitmaps, input). Ok ((key, bitmap) # bitmaps, input))))"

definition decode_roaring_directory :: "roaring_lib \<Rightarrow> byte list \<Rightarrow> (treemap, spec_error) outcome" where
  "decode_roaring_directory lib input =
     rbind (read_uint_le 8 input) (\<lambda>(bitmap_count, input).
     if bitmap_count > 2 ^ 32 - 1
     then Err (SInvalidFormat ''deletion-vector-v1 roaring bitmap count exceeds the 32-bit key space'')
     else rbind (read_bitmaps lib bitmap_count None input) (\<lambda>(bitmaps, input).
          if input \<noteq> [] then Err (SInvalidFormat ''deletion-vector-v1 roaring payload has trailing bytes'')
          else Ok bitmaps))"

definition DeletionVector_decode :: "roaring_lib \<Rightarrow> byte list \<Rightarrow> (treemap, spec_error) outcome" where
  "DeletionVector_decode lib blob =
     (if length blob < MIN_BLOB_BYTES then Err (SInvalidFormat ''deletion-vector-v1 blob is shorter than the minimum'')
      else rbind (byte_slice LENGTH_BYTES (length blob - CRC_BYTES) blob) (\<lambda>body.
           rbind (rbind (byte_slice 0 LENGTH_BYTES blob) (array_of 4)) (\<lambda>len_bytes.
           if nat (uint_le (rev len_bytes)) \<noteq> length body
           then Err (SInvalidFormat ''deletion-vector-v1 length prefix'')
           else rbind (rbind (byte_slice (length blob - CRC_BYTES) (length blob) blob) (array_of 4)) (\<lambda>crc_bytes.
           if uint_le (rev crc_bytes) \<noteq> rl_crc32 lib body then Err (SInvalidFormat ''deletion-vector-v1 CRC mismatch'')
           else rbind (byte_slice 0 MAGIC_BYTES body) (\<lambda>magic.
           if magic \<noteq> DV_MAGIC then Err (SInvalidFormat ''deletion-vector-v1 magic mismatch'')
           else rbind (byte_slice MAGIC_BYTES (length body) body) (decode_roaring_directory lib))))))"

definition DeletionVector_len :: "treemap \<Rightarrow> nat" where
  "DeletionVector_len m = sum_list (map (\<lambda>(k, s). card s) m)"

definition DeletionVector_is_empty :: "treemap \<Rightarrow> bool" where
  "DeletionVector_is_empty m \<longleftrightarrow> list_all (\<lambda>(k, s). s = {}) m"

fun treemap_insert :: "nat \<Rightarrow> nat set \<Rightarrow> treemap \<Rightarrow> treemap" where
  "treemap_insert k s [] = [(k, s)]"
| "treemap_insert k s ((k', t) # m) =
     (if k = k' then (k, t \<union> s) # m else if k < k' then (k, s) # (k', t) # m else (k', t) # treemap_insert k s m)"

definition DeletionVector_bitor :: "treemap \<Rightarrow> treemap \<Rightarrow> treemap" where
  "DeletionVector_bitor a b = fold (\<lambda>(k, s). treemap_insert k s) b a"

section \<open>The filter of a batch\<close>

datatype exec_error = Execution string | Internal string | External string | NotImplemented string

record dv_predicate =
  dp_file_path :: "record_batch \<Rightarrow> (arrow_array, exec_error) outcome"
  dp_row_position :: "record_batch \<Rightarrow> (arrow_array, exec_error) outcome"
  dp_vectors :: "string \<rightharpoonup> treemap"

datatype columnar_bools = BoolArray "bool list" | BoolScalar bool

text \<open>The path of the first row decides for the batch.\<close>

definition keep_position :: "treemap \<Rightarrow> int option \<Rightarrow> (bool, exec_error) outcome" where
  "keep_position vector position =
     (case position of
        None \<Rightarrow> Err (Execution ''Iceberg deletion-vector row position cannot be null'')
      | Some p \<Rightarrow>
          if p < 0 then Err (Execution ''Iceberg deletion-vector row position cannot be negative'')
          else Ok (\<not> treemap_contains vector (nat p)))"

definition dv_evaluate :: "dv_predicate \<Rightarrow> record_batch \<Rightarrow> (columnar_bools, exec_error) outcome" where
  "dv_evaluate p batch =
     (if rb_num_rows batch = 0 then Ok (BoolArray [])
      else rbind (dp_file_path p batch) (\<lambda>paths.
        case paths of
          StringArray xs \<Rightarrow>
            (case xs ! 0 of
               None \<Rightarrow> Err (Execution ''Iceberg deletion-vector file path cannot be null'')
             | Some path \<Rightarrow>
                 (case dp_vectors p path of
                    None \<Rightarrow> Ok (BoolScalar True)
                  | Some vector \<Rightarrow>
                      rbind (dp_row_position p batch) (\<lambda>positions.
                      case positions of
                        PrimitiveArray AInt64 ys \<Rightarrow> rbind (try_map (keep_position vector) ys) (\<lambda>ks. Ok (BoolArray ks))
                      | _ \<Rightarrow> Err (Execution ''Iceberg deletion-vector row position must be Int64''))))
        | _ \<Rightarrow> Err (Execution ''Iceberg deletion-vector file path must be Utf8'')))"

definition with_new_children ::
  "dv_predicate \<Rightarrow> (record_batch \<Rightarrow> (arrow_array, exec_error) outcome) list \<Rightarrow> (dv_predicate, exec_error) outcome" where
  "with_new_children p children =
     (case children of
        [a, b] \<Rightarrow> Ok (p\<lparr>dp_file_path := a, dp_row_position := b\<rparr>)
      | _ \<Rightarrow> Err (Internal ''Iceberg deletion-vector predicate requires 2 children''))"

section \<open>Files are read back\<close>

lemma byte_slice_append: "byte_slice a b xs = Ok ys \<Longrightarrow> byte_slice a b (xs @ zs) = Ok ys"
  by (auto simp: byte_slice_def split: if_splits)

lemma byte_slice_at:
  assumes "xs = p @ ys @ q" "a = length p" "b = length p + length ys"
  shows "byte_slice a b xs = Ok ys"
  using assms by (simp add: byte_slice_def)

lemma read_from_append:
  assumes "read_from lib b bytes = Ok p"
  shows "read_from lib b (bytes @ rest) = Ok p"
  using assms by (auto simp: read_from_def usize_of_i64_def byte_slice_append split: if_splits)

definition describes :: "blob_metadata \<Rightarrow> blob \<Rightarrow> bool" where
  "describes m b \<longleftrightarrow> bm_type m = bl_type b \<and> bm_fields m = bl_fields b \<and> bm_snapshot_id m = bl_snapshot_id b
     \<and> bm_sequence_number m = bl_sequence_number b \<and> bm_codec m = bl_codec b \<and> bm_properties m = bl_properties b"

definition writer_has :: "puffin_lib \<Rightarrow> puffin_writer \<Rightarrow> blob list \<Rightarrow> bool" where
  "writer_has lib w bs \<longleftrightarrow> take 4 (pw_bytes w) = PUFFIN_MAGIC
     \<and> list_all2 (\<lambda>m b. describes m b \<and> read_from lib m (pw_bytes w) = Ok (bl_payload b)) (pw_blobs w) bs"

definition codec_inverts :: "puffin_lib \<Rightarrow> bool" where
  "codec_inverts lib \<longleftrightarrow> (\<forall>p c. pl_encode lib p = Ok c \<longrightarrow> pl_decode lib c = Ok p)"

lemma write_blob_has:
  assumes "write_blob lib w b = Ok w'" "writer_has lib w bs" "codec_inverts lib"
  shows "writer_has lib w' (bs @ [b]) \<and> pw_properties w' = pw_properties w"
proof -
  obtain c where c: "(case bl_codec b of None \<Rightarrow> Ok (bl_payload b) | Some Zstd \<Rightarrow> pl_encode lib (bl_payload b)
        | Some Lz4 \<Rightarrow> Err (SNotSupported ''LZ4-compressed Puffin blob'')) = Ok c"
      "length (pw_bytes w) < 2 ^ 63" "length c < 2 ^ 63"
      "w' = w\<lparr>pw_bytes := pw_bytes w @ c, pw_blobs := pw_blobs w @
             [\<lparr>bm_type = bl_type b, bm_fields = bl_fields b, bm_snapshot_id = bl_snapshot_id b,
               bm_sequence_number = bl_sequence_number b, bm_offset = int (length (pw_bytes w)), bm_length = int (length c),
               bm_codec = bl_codec b, bm_properties = bl_properties b\<rparr>]\<rparr>"
    using assms(1) by (auto simp: write_blob_def i64_of_usize_def split: if_splits)
  let ?m = "\<lparr>bm_type = bl_type b, bm_fields = bl_fields b, bm_snapshot_id = bl_snapshot_id b,
               bm_sequence_number = bl_sequence_number b, bm_offset = int (length (pw_bytes w)), bm_length = int (length c),
               bm_codec = bl_codec b, bm_properties = bl_properties b\<rparr>"
  have "length (pw_bytes w) + length c < 2 ^ 64" using c(2,3) by simp
  then have "read_from lib ?m (pw_bytes w @ c) = Ok (bl_payload b)"
    using c(1) assms(3)
    by (auto simp: read_from_def usize_of_i64_def byte_slice_def codec_inverts_def split: option.splits puffin_codec.splits)
  moreover have "list_all2 (\<lambda>m b. describes m b \<and> read_from lib m (pw_bytes w @ c) = Ok (bl_payload b)) (pw_blobs w) bs"
    using assms(2) unfolding writer_has_def by (elim conjE list_all2_mono) (simp add: read_from_append)
  moreover have "take 4 (pw_bytes w @ c) = PUFFIN_MAGIC"
  proof -
    have "length (take 4 (pw_bytes w)) = 4" using assms(2) by (simp add: writer_has_def PUFFIN_MAGIC_def)
    then show ?thesis using assms(2) by (simp add: writer_has_def)
  qed
  ultimately show ?thesis by (simp add: writer_has_def c(4) describes_def list_all2_appendI)
qed

lemma write_blobs_have:
  "try_fold (write_blob lib) w bs = Ok w' \<Longrightarrow> writer_has lib w as \<Longrightarrow> codec_inverts lib \<Longrightarrow>
     writer_has lib w' (as @ bs) \<and> pw_properties w' = pw_properties w"
proof (induction bs arbitrary: w as)
  case (Cons b bs)
  then obtain w1 where w1: "write_blob lib w b = Ok w1" "try_fold (write_blob lib) w1 bs = Ok w'" by auto
  from write_blob_has [OF w1(1) Cons.prems(2,3)] have "writer_has lib w1 (as @ [b])" "pw_properties w1 = pw_properties w" by auto
  with Cons.IH [OF w1(2) _ Cons.prems(3)] show ?case by fastforce
qed simp

lemma footer_of_finish:
  assumes "take 4 pre = PUFFIN_MAGIC" "length payload < 2 ^ 31"
  shows "read_footer lib (pre @ PUFFIN_MAGIC @ payload @ to_le_bytes 4 (int (length payload)) @ replicate 4 0 @ PUFFIN_MAGIC)
    = pl_from_json lib payload"
proof -
  define size where "size = to_le_bytes 4 (int (length payload))"
  define bytes where "bytes = pre @ PUFFIN_MAGIC @ payload @ size @ replicate 4 0 @ PUFFIN_MAGIC"
  have m: "length PUFFIN_MAGIC = 4" by (simp add: PUFFIN_MAGIC_def)
  have s: "length size = 4" by (simp add: size_def)
  have p: "4 \<le> length pre" using arg_cong [OF assms(1), of length] m by (simp add: min_def split: if_splits)
  have len: "length bytes = length pre + 4 + length payload + 12" by (simp add: bytes_def m s)
  have "byte_slice 0 4 bytes = Ok PUFFIN_MAGIC"
    using assms(1) p by (simp add: bytes_def byte_slice_def)
  moreover have "byte_slice (length bytes - 4) (length bytes) bytes = Ok PUFFIN_MAGIC"
    by (rule byte_slice_at [of _ "pre @ PUFFIN_MAGIC @ payload @ size @ replicate 4 0" _ "[]"]) (simp_all add: bytes_def m s)
  moreover have "byte_slice (length bytes - 8) (length bytes - 4) bytes = Ok (replicate 4 0)"
    by (rule byte_slice_at [of _ "pre @ PUFFIN_MAGIC @ payload @ size" _ "PUFFIN_MAGIC"]) (simp_all add: bytes_def m s)
  moreover have "byte_slice (length bytes - 12) (length bytes - 8) bytes = Ok size"
    by (rule byte_slice_at [of _ "pre @ PUFFIN_MAGIC @ payload" _ "replicate 4 0 @ PUFFIN_MAGIC"]) (simp_all add: bytes_def m s)
  moreover have "byte_slice (length pre) (length pre + 4) bytes = Ok PUFFIN_MAGIC"
    by (rule byte_slice_at [of _ pre _ "payload @ size @ replicate 4 0 @ PUFFIN_MAGIC"]) (simp_all add: bytes_def m)
  moreover have "byte_slice (length pre + 4) (length pre + 4 + length payload) bytes = Ok payload"
    by (rule byte_slice_at [of _ "pre @ PUFFIN_MAGIC" _ "size @ replicate 4 0 @ PUFFIN_MAGIC"]) (simp_all add: bytes_def m s)
  moreover have "sint_le size = int (length payload)"
    unfolding size_def by (rule sint_le_to_le_bytes) (use assms(2) in simp_all)
  moreover have "\<not> length bytes < length PUFFIN_MAGIC + length PUFFIN_MAGIC + FOOTER_STRUCT_LENGTH"
    "length bytes - FOOTER_STRUCT_LENGTH = length pre + 4 + length payload"
    using p by (simp_all add: len m FOOTER_STRUCT_LENGTH_def)
  ultimately have "read_footer lib bytes = pl_from_json lib payload"
    using s m by (simp add: read_footer_def checked_sub_def array_of_def Let_def del: rbind_eq_Ok)
  then show ?thesis by (simp add: bytes_def size_def)
qed

text \<open>
  C23. A Puffin file is read back: the footer of the finished file gives the metadata of the blobs
  in their order and the properties of the file, and every blob is read back through its metadata
  with its payload, compressed or not.
\<close>

theorem puffin_file_roundtrip:
  assumes "try_fold (write_blob lib) (PuffinWriter_new\<lparr>pw_properties := props\<rparr>) bs = Ok w" "finish lib w = Ok bytes"
    "codec_inverts lib" "\<And>m js. pl_to_json lib m = Ok js \<Longrightarrow> pl_from_json lib js = Ok m"
  shows "\<exists>m. read_footer lib bytes = Ok m \<and> pf_properties m = props
    \<and> list_all2 (\<lambda>b bl. describes b bl \<and> read_from lib b bytes = Ok (bl_payload bl)) (pf_blobs m) bs"
proof -
  have "writer_has lib (PuffinWriter_new\<lparr>pw_properties := props\<rparr>) []"
    by (simp add: writer_has_def PuffinWriter_new_def PUFFIN_MAGIC_def)
  from write_blobs_have [OF assms(1) this assms(3)]
  have w: "writer_has lib w bs" "pw_properties w = props" by (simp_all add: PuffinWriter_new_def)
  obtain payload where p: "pl_to_json lib \<lparr>pf_blobs = pw_blobs w, pf_properties = pw_properties w\<rparr> = Ok payload"
      "length payload < 2 ^ 31"
      "bytes = pw_bytes w @ PUFFIN_MAGIC @ payload @ to_le_bytes 4 (int (length payload)) @ replicate 4 0 @ PUFFIN_MAGIC"
    using assms(2) by (auto simp: finish_def split: if_splits)
  have "read_footer lib bytes = Ok \<lparr>pf_blobs = pw_blobs w, pf_properties = pw_properties w\<rparr>"
    unfolding p(3) using footer_of_finish [OF _ p(2), of "pw_bytes w" lib] w(1) assms(4) [OF p(1)]
    by (simp add: writer_has_def)
  moreover have "list_all2 (\<lambda>b bl. describes b bl \<and> read_from lib b bytes = Ok (bl_payload bl)) (pw_blobs w) bs"
    using w(1) unfolding writer_has_def p(3) by (elim conjE list_all2_mono) (simp add: read_from_append)
  ultimately show ?thesis using w(2) by simp
qed

text \<open>A file with one compressed and one plain blob; compression reverses the bytes.\<close>

definition sample_blobs :: "blob list" where
  "sample_blobs =
     [\<lparr>bl_type = ''a'', bl_fields = [1], bl_snapshot_id = 7, bl_sequence_number = 3, bl_codec = Some Zstd,
       bl_properties = Map.empty, bl_payload = [1, 2, 3]\<rparr>,
      \<lparr>bl_type = ''b'', bl_fields = [], bl_snapshot_id = -1, bl_sequence_number = -1, bl_codec = None,
       bl_properties = Map.empty, bl_payload = [4]\<rparr>]"

definition sample_metadata :: puffin_metadata where
  "sample_metadata =
     \<lparr>pf_blobs =
        [\<lparr>bm_type = ''a'', bm_fields = [1], bm_snapshot_id = 7, bm_sequence_number = 3, bm_offset = 4, bm_length = 3,
          bm_codec = Some Zstd, bm_properties = Map.empty\<rparr>,
         \<lparr>bm_type = ''b'', bm_fields = [], bm_snapshot_id = -1, bm_sequence_number = -1, bm_offset = 7, bm_length = 1,
          bm_codec = None, bm_properties = Map.empty\<rparr>],
      pf_properties = Map.empty\<rparr>"

definition sample_puffin :: puffin_lib where
  "sample_puffin =
     \<lparr>pl_to_json = (\<lambda>m. if m = sample_metadata then Ok [9] else Err (SJSONSerde ''other'')),
      pl_from_json = (\<lambda>bs. if bs = [9] then Ok sample_metadata else Err (SJSONSerde ''other'')),
      pl_encode = (\<lambda>bs. Ok (rev bs)), pl_decode = (\<lambda>bs. Ok (rev bs))\<rparr>"

theorem puffin_file_roundtrip_witness:
  "\<exists>bytes m. read_footer sample_puffin bytes = Ok m
     \<and> list_all2 (\<lambda>b bl. describes b bl \<and> read_from sample_puffin b bytes = Ok (bl_payload bl)) (pf_blobs m) sample_blobs"
proof -
  obtain w where w: "try_fold (write_blob sample_puffin) (PuffinWriter_new\<lparr>pw_properties := Map.empty\<rparr>) sample_blobs = Ok w"
      "pw_blobs w = pf_blobs sample_metadata" "pw_properties w = Map.empty"
    by (simp add: sample_blobs_def write_blob_def PuffinWriter_new_def sample_puffin_def PUFFIN_MAGIC_def
        i64_of_usize_def sample_metadata_def)
  have "\<lparr>pf_blobs = pw_blobs w, pf_properties = pw_properties w\<rparr> = sample_metadata"
    by (simp add: w(2,3)) (simp add: sample_metadata_def)
  then obtain bytes where "finish sample_puffin w = Ok bytes" by (simp add: finish_def sample_puffin_def)
  moreover have "codec_inverts sample_puffin" by (auto simp: codec_inverts_def sample_puffin_def)
  moreover have "pl_to_json sample_puffin m = Ok js \<Longrightarrow> pl_from_json sample_puffin js = Ok m" for m js
    by (simp add: sample_puffin_def split: if_splits)
  ultimately show ?thesis using puffin_file_roundtrip [OF w(1)] by blast
qed

section \<open>Deletion vectors are read back\<close>

text \<open>The wire form, given the bytes of a bitmap.\<close>

definition dv_directory :: "(nat set \<Rightarrow> byte list) \<Rightarrow> treemap \<Rightarrow> byte list" where
  "dv_directory ser m = concat (map (\<lambda>(k, s). to_le_bytes 4 (int k) @ ser s) m)"

definition dv_body :: "(nat set \<Rightarrow> byte list) \<Rightarrow> treemap \<Rightarrow> byte list" where
  "dv_body ser m = DV_MAGIC @ to_le_bytes 8 (int (length m)) @ dv_directory ser m"

definition dv_blob :: "roaring_lib \<Rightarrow> (nat set \<Rightarrow> byte list) \<Rightarrow> treemap \<Rightarrow> byte list" where
  "dv_blob lib ser m =
     (let body = dv_body ser m
      in to_be_bytes 4 (int (length body)) @ body @ to_be_bytes 4 (rl_crc32 lib body))"

lemma read_uint_le_bytes: "int x < 256 ^ n \<Longrightarrow> read_uint_le n (to_le_bytes n (int x) @ rest) = Ok (x, rest)"
  by (simp add: read_uint_le_def)

lemma read_bitmaps_directory:
  assumes "\<And>s rest. s \<in> snd ` set m \<Longrightarrow> rl_deserialize lib (ser s @ rest) = Ok (s, rest)"
    "\<forall>k \<in> fst ` set m. k < 2 ^ 32" "sorted_wrt (<) (map fst m)" "\<forall>k \<in> fst ` set m. \<forall>p. previous = Some p \<longrightarrow> p < k"
  shows "read_bitmaps lib (length m) previous (dv_directory ser m) = Ok (m, [])"
  using assms
proof (induction m arbitrary: previous)
  case (Cons e m)
  obtain k s where e: "e = (k, s)" by (cases e)
  have "read_uint_le 4 (to_le_bytes 4 (int k) @ ser s @ dv_directory ser m) = Ok (k, ser s @ dv_directory ser m)"
    using Cons.prems(2) by (intro read_uint_le_bytes) (simp add: e)
  moreover have "rl_deserialize lib (ser s @ dv_directory ser m) = Ok (s, dv_directory ser m)"
    using Cons.prems(1) e by simp
  moreover have "read_bitmaps lib (length m) (Some k) (dv_directory ser m) = Ok (m, [])"
    using Cons.prems e by (intro Cons.IH) auto
  moreover have "\<not> (case previous of Some p \<Rightarrow> k \<le> p | None \<Rightarrow> False)"
    using Cons.prems(4) e by (auto split: option.splits)
  moreover have "dv_directory ser (e # m) = to_le_bytes 4 (int k) @ ser s @ dv_directory ser m"
    by (simp add: dv_directory_def e)
  ultimately show ?case by (simp add: e)
qed (simp add: dv_directory_def)

lemma length_dv_directory: "4 * length m \<le> length (dv_directory ser m)"
  by (induction m) (auto simp: dv_directory_def)

lemma decode_dv_blob:
  assumes "sorted_wrt (<) (map fst m)" "\<forall>k \<in> fst ` set m. k < 2 ^ 32"
    "\<And>s rest. s \<in> snd ` set m \<Longrightarrow> rl_deserialize lib (ser s @ rest) = Ok (s, rest)"
    "0 \<le> rl_crc32 lib (dv_body ser m)" "rl_crc32 lib (dv_body ser m) < 2 ^ 32" "length (dv_body ser m) < 2 ^ 32"
  shows "DeletionVector_decode lib (dv_blob lib ser m) = Ok m"
proof -
  define body where "body = dv_body ser m"
  define crc where "crc = to_be_bytes 4 (rl_crc32 lib body)"
  define len where "len = to_be_bytes 4 (int (length body))"
  define b where "b = len @ body @ crc"
  have l: "length len = 4" "length crc = 4" by (simp_all add: len_def crc_def to_be_bytes_def)
  have magic: "length DV_MAGIC = 4" by (simp add: DV_MAGIC_def)
  have size: "12 + 4 * length m \<le> length body"
    using length_dv_directory [of m ser] by (simp add: body_def dv_body_def magic)
  have "byte_slice LENGTH_BYTES (length b - CRC_BYTES) b = Ok body"
    by (rule byte_slice_at [of _ len _ crc]) (simp_all add: b_def l LENGTH_BYTES_def CRC_BYTES_def)
  moreover have "byte_slice 0 LENGTH_BYTES b = Ok len"
    by (rule byte_slice_at [of _ "[]" _ "body @ crc"]) (simp_all add: b_def l LENGTH_BYTES_def)
  moreover have "byte_slice (length b - CRC_BYTES) (length b) b = Ok crc"
    by (rule byte_slice_at [of _ "len @ body" _ "[]"]) (simp_all add: b_def l CRC_BYTES_def)
  moreover have "byte_slice 0 MAGIC_BYTES body = Ok DV_MAGIC"
    by (rule byte_slice_at [of _ "[]" _ "to_le_bytes 8 (int (length m)) @ dv_directory ser m"])
      (simp_all add: body_def dv_body_def MAGIC_BYTES_def)
  moreover have "byte_slice MAGIC_BYTES (length body) body = Ok (to_le_bytes 8 (int (length m)) @ dv_directory ser m)"
    by (rule byte_slice_at [of _ DV_MAGIC _ "[]"]) (simp_all add: body_def dv_body_def MAGIC_BYTES_def)
  moreover have "nat (uint_le (rev len)) = length body"
    using assms(6) by (simp add: len_def to_be_bytes_def body_def)
  moreover have "uint_le (rev crc) = rl_crc32 lib body"
    using assms(4,5) by (simp add: crc_def to_be_bytes_def body_def)
  moreover have "decode_roaring_directory lib (to_le_bytes 8 (int (length m)) @ dv_directory ser m) = Ok m"
  proof -
    have small: "length m < 2 ^ 32" using size assms(6) by (simp add: body_def)
    then have "read_uint_le 8 (to_le_bytes 8 (int (length m)) @ dv_directory ser m) = Ok (length m, dv_directory ser m)"
      by (intro read_uint_le_bytes) simp
    with small read_bitmaps_directory [OF assms(3,2,1), of None] show ?thesis
      by (simp add: decode_roaring_directory_def)
  qed
  moreover have "\<not> length b < MIN_BLOB_BYTES"
    using size l by (simp add: b_def MIN_BLOB_BYTES_def LENGTH_BYTES_def MAGIC_BYTES_def CRC_BYTES_def magic)
  ultimately have "DeletionVector_decode lib b = Ok m"
    using l by (simp add: DeletionVector_decode_def array_of_def)
  then show ?thesis by (simp add: dv_blob_def b_def body_def len_def crc_def Let_def)
qed

text \<open>
  C21. A deletion vector is read back from its wire form: a blob with the length and the checksum
  of its body, the magic number, and a directory with the bitmaps of ascending keys decodes to
  these bitmaps.
\<close>

theorem deletion_vector_roundtrip:
  assumes "sorted_wrt (<) (map fst m)" "\<forall>k \<in> fst ` set m. k < 2 ^ 32"
    "\<And>s rest. s \<in> snd ` set m \<Longrightarrow> rl_deserialize lib (ser s @ rest) = Ok (s, rest)"
    "0 \<le> rl_crc32 lib (dv_body ser m)" "rl_crc32 lib (dv_body ser m) < 2 ^ 32" "length (dv_body ser m) < 2 ^ 32"
  shows "DeletionVector_decode lib (dv_blob lib ser m) = Ok m"
  using assms by (rule decode_dv_blob)

text \<open>Bitmaps of one position, one byte each.\<close>

definition sample_roaring :: roaring_lib where
  "sample_roaring =
     \<lparr>rl_deserialize = (\<lambda>bs. case bs of [] \<Rightarrow> Err (SIO ''empty'') | b # rest \<Rightarrow> Ok ({unat b}, rest)),
      rl_crc32 = (\<lambda>bs. int (length bs))\<rparr>"

definition sample_ser :: "nat set \<Rightarrow> byte list" where
  "sample_ser s = (if s = {5} then [5] else [6])"

theorem deletion_vector_roundtrip_witness:
  "DeletionVector_decode sample_roaring (dv_blob sample_roaring sample_ser [(0, {5}), (2, {6})]) = Ok [(0, {5}), (2, {6})]"
proof (rule deletion_vector_roundtrip)
  have len: "length (dv_body sample_ser [(0, {5}), (2, {6})]) = 22"
    by (simp add: dv_body_def dv_directory_def sample_ser_def DV_MAGIC_def)
  show "0 \<le> rl_crc32 sample_roaring (dv_body sample_ser [(0, {5}), (2, {6})])"
    "rl_crc32 sample_roaring (dv_body sample_ser [(0, {5}), (2, {6})]) < 2 ^ 32"
    "length (dv_body sample_ser [(0, {5}), (2, {6})]) < 2 ^ 32"
    by (simp_all add: sample_roaring_def len)
  show "rl_deserialize sample_roaring (sample_ser s @ rest) = Ok (s, rest)" if "s \<in> snd ` set [(0, {5}), (2, {6})]" for s rest
    using that by (auto simp: sample_roaring_def sample_ser_def)
qed simp_all

section \<open>Bad input is refused\<close>

lemma byte_slice_Ok: "a \<le> b \<Longrightarrow> b \<le> length xs \<Longrightarrow> \<exists>ys. byte_slice a b xs = Ok ys \<and> length ys = b - a"
  by (simp add: byte_slice_def)

definition no_panic :: "('a, 'e) outcome \<Rightarrow> bool" where
  "no_panic r \<longleftrightarrow> (case r of Panic _ \<Rightarrow> False | _ \<Rightarrow> True)"

lemma no_panic_simps [simp]:
  "no_panic (Ok x)" "no_panic (Err e)" "\<not> no_panic (Panic s)"
  by (simp_all add: no_panic_def)

lemma no_panic_rbind: "no_panic m \<Longrightarrow> (\<And>x. m = Ok x \<Longrightarrow> no_panic (f x)) \<Longrightarrow> no_panic (rbind m f)"
  by (cases m) auto

lemma no_panic_parts [simp]:
  "no_panic (array_of n bs)" "no_panic (checked_sub message i j)" "no_panic (usize_of_i64 message x)"
  "no_panic (read_uint_le n bs)" "no_panic (byte_slice i j bs) \<longleftrightarrow> i \<le> j \<and> j \<le> length bs"
  by (simp_all add: array_of_def checked_sub_def usize_of_i64_def read_uint_le_def byte_slice_def)

lemma read_footer_no_panic:
  assumes "\<And>js. no_panic (pl_from_json lib js)"
  shows "no_panic (read_footer lib bytes)"
  unfolding read_footer_def Let_def
  by (auto intro!: no_panic_rbind diff_le_mono2 assms simp: checked_sub_def FOOTER_STRUCT_LENGTH_def PUFFIN_MAGIC_def split: if_splits)

lemma read_from_no_panic:
  assumes "\<And>c. no_panic (pl_decode lib c)"
  shows "no_panic (read_from lib b bytes)"
  unfolding read_from_def
  by (auto intro!: no_panic_rbind assms split: option.split puffin_codec.split)

lemma read_bitmaps_no_panic:
  assumes "\<And>bs. no_panic (rl_deserialize lib bs)"
  shows "no_panic (read_bitmaps lib n previous bs)"
proof (induction n arbitrary: previous bs)
  case (Suc n)
  then show ?case by (auto intro!: no_panic_rbind assms split: prod.split)
qed simp

lemma decode_no_panic:
  assumes "\<And>bs. no_panic (rl_deserialize lib bs)"
  shows "no_panic (DeletionVector_decode lib b)"
  unfolding DeletionVector_decode_def decode_roaring_directory_def
  by (auto intro!: no_panic_rbind read_bitmaps_no_panic assms
      simp: MIN_BLOB_BYTES_def LENGTH_BYTES_def CRC_BYTES_def MAGIC_BYTES_def byte_slice_def
      split: if_splits prod.split)

lemma read_bitmaps_sorted:
  "read_bitmaps lib n previous bs = Ok (m, rest) \<Longrightarrow>
     sorted_wrt (<) (map fst m) \<and> length m = n \<and> (\<forall>k \<in> fst ` set m. \<forall>p. previous = Some p \<longrightarrow> p < k)"
proof (induction n arbitrary: previous bs m)
  case (Suc n)
  then obtain k s m' bs1 bs2 where "m = (k, s) # m'" "read_bitmaps lib n (Some k) bs2 = Ok (m', rest)"
      "\<not> (case previous of Some p \<Rightarrow> k \<le> p | None \<Rightarrow> False)"
    by (auto split: if_splits prod.splits)
  with Suc.IH [of "Some k" bs2 m'] show ?case by (fastforce split: option.splits)
qed simp

lemma accepted_vector:
  assumes "DeletionVector_decode roaring bytes = Ok m"
  shows "let body = take (length bytes - 8) (drop 4 bytes)
          in 12 \<le> length bytes \<and> uint_le (rev (take 4 bytes)) = int (length body)
             \<and> uint_le (rev (drop (length bytes - 4) bytes)) = rl_crc32 roaring body
             \<and> take 4 body = DV_MAGIC \<and> sorted_wrt (<) (map fst m)"
proof -
  define body where "body = take (length bytes - 8) (drop 4 bytes)"
  have magic: "MAGIC_BYTES = 4" by (simp add: MAGIC_BYTES_def DV_MAGIC_def)
  have len: "12 \<le> length bytes"
    using assms by (simp add: DeletionVector_decode_def MIN_BLOB_BYTES_def LENGTH_BYTES_def CRC_BYTES_def magic split: if_splits)
  have slices: "byte_slice LENGTH_BYTES (length bytes - CRC_BYTES) bytes = Ok body"
    "byte_slice 0 LENGTH_BYTES bytes = Ok (take 4 bytes)"
    "byte_slice (length bytes - CRC_BYTES) (length bytes) bytes = Ok (drop (length bytes - 4) bytes)"
    using len by (simp_all add: byte_slice_def body_def LENGTH_BYTES_def CRC_BYTES_def)
  have all: "nat (uint_le (rev (take 4 bytes))) = length body"
    "uint_le (rev (drop (length bytes - 4) bytes)) = rl_crc32 roaring body"
    "byte_slice 0 4 body = Ok DV_MAGIC" "\<exists>rest. decode_roaring_directory roaring rest = Ok m"
    using assms len by (auto simp: DeletionVector_decode_def slices array_of_def magic split: if_splits)
  have "sorted_wrt (<) (map fst m)"
    using all(4) by (auto simp: decode_roaring_directory_def dest: read_bitmaps_sorted split: if_splits prod.splits)
  moreover have "take 4 body = DV_MAGIC" using all(3) by (simp add: byte_slice_def split: if_splits)
  moreover have "uint_le (rev (take 4 bytes)) = int (length body)"
    using all(1) uint_le_bounds [of "rev (take 4 bytes)"] by linarith
  ultimately show ?thesis using len all(2) by (simp add: body_def [symmetric] Let_def)
qed

text \<open>
  C22. No bytes make the readers of Puffin footers, blobs and deletion vectors panic, when the
  libraries they call do not: every index is in range. A deletion vector that is accepted has the
  declared length, the checksum of its body, the magic number and strictly ascending keys.
\<close>

theorem bad_puffin_bytes_are_refused:
  assumes "\<And>js. no_panic (pl_from_json lib js)" "\<And>c. no_panic (pl_decode lib c)"
    "\<And>bs. no_panic (rl_deserialize roaring bs)"
  shows "no_panic (read_footer lib bytes) \<and> no_panic (read_from lib b bytes) \<and> no_panic (DeletionVector_decode roaring bytes)
    \<and> (\<forall>m. DeletionVector_decode roaring bytes = Ok m \<longrightarrow>
         (let body = take (length bytes - 8) (drop 4 bytes)
          in 12 \<le> length bytes \<and> uint_le (rev (take 4 bytes)) = int (length body)
             \<and> uint_le (rev (drop (length bytes - 4) bytes)) = rl_crc32 roaring body
             \<and> take 4 body = DV_MAGIC \<and> sorted_wrt (<) (map fst m)))"
proof -
  have "let body = take (length bytes - 8) (drop 4 bytes)
          in 12 \<le> length bytes \<and> uint_le (rev (take 4 bytes)) = int (length body)
             \<and> uint_le (rev (drop (length bytes - 4) bytes)) = rl_crc32 roaring body
             \<and> take 4 body = DV_MAGIC \<and> sorted_wrt (<) (map fst m)"
    if "DeletionVector_decode roaring bytes = Ok m" for m
    using that by (rule accepted_vector)
  then show ?thesis
    using read_footer_no_panic [OF assms(1)] read_from_no_panic [OF assms(2)] decode_no_panic [OF assms(3)] by blast
qed

theorem bad_puffin_bytes_are_refused_witness:
  "no_panic (read_footer sample_puffin [1, 2, 3]) \<and> no_panic (DeletionVector_decode sample_roaring [1, 2, 3])"
  using bad_puffin_bytes_are_refused [of sample_puffin sample_roaring "[1, 2, 3]"]
  by (simp add: sample_puffin_def sample_roaring_def no_panic_def split: list.split)

section \<open>Deleted rows\<close>

lemma treemap_insert_spec:
  assumes "sorted_wrt (<) (map fst m)"
  shows "map_of (treemap_insert k s m) = (map_of m)(k \<mapsto> (case map_of m k of None \<Rightarrow> s | Some t \<Rightarrow> t \<union> s))"
    "sorted_wrt (<) (map fst (treemap_insert k s m))" "fst ` set (treemap_insert k s m) = insert k (fst ` set m)"
proof -
  have absent: "map_of m k = None" if "\<forall>x \<in> fst ` set m. k < x" for m :: treemap
    using that by (auto simp: map_of_eq_None_iff)
  have "map_of (treemap_insert k s m) = (map_of m)(k \<mapsto> (case map_of m k of None \<Rightarrow> s | Some t \<Rightarrow> t \<union> s))
      \<and> sorted_wrt (<) (map fst (treemap_insert k s m)) \<and> fst ` set (treemap_insert k s m) = insert k (fst ` set m)"
    using assms
  proof (induction m)
    case (Cons e m)
    obtain k' t where e: "e = (k', t)" by (cases e)
    consider "k = k'" | "k < k'" | "k' < k" by linarith
    then show ?case
    proof cases
      case 2
      then have "map_of m k = None" using Cons.prems by (intro absent) (auto simp: e)
      then show ?thesis using 2 Cons.prems by (auto simp: e)
    qed (use Cons in \<open>auto simp: e fun_upd_twist\<close>)
  qed simp
  then show "map_of (treemap_insert k s m) = (map_of m)(k \<mapsto> (case map_of m k of None \<Rightarrow> s | Some t \<Rightarrow> t \<union> s))"
    "sorted_wrt (<) (map fst (treemap_insert k s m))" "fst ` set (treemap_insert k s m) = insert k (fst ` set m)" by blast+
qed

lemma bitor_spec:
  "sorted_wrt (<) (map fst a) \<Longrightarrow> sorted_wrt (<) (map fst b) \<Longrightarrow>
     sorted_wrt (<) (map fst (DeletionVector_bitor a b))
     \<and> (treemap_contains (DeletionVector_bitor a b) p \<longleftrightarrow> treemap_contains a p \<or> treemap_contains b p)"
proof (induction b arbitrary: a)
  case (Cons e b)
  obtain k s where e: "e = (k, s)" by (cases e)
  note ins = treemap_insert_spec [OF Cons.prems(1), of k s]
  have "map_of b k = None" using Cons.prems(2) by (auto simp: e map_of_eq_None_iff)
  then have "treemap_contains (treemap_insert k s a) p \<or> treemap_contains b p \<longleftrightarrow>
      treemap_contains a p \<or> treemap_contains (e # b) p"
    by (auto simp: treemap_contains_def ins(1) e split: option.splits)
  with Cons.IH [OF ins(2)] Cons.prems(2) show ?case
    by (simp add: DeletionVector_bitor_def e)
qed (simp add: DeletionVector_bitor_def treemap_contains_def)

definition row_kept :: "columnar_bools \<Rightarrow> nat \<Rightarrow> bool" where
  "row_kept keep i = (case keep of BoolArray bs \<Rightarrow> bs ! i | BoolScalar b \<Rightarrow> b)"

lemma try_map_keep:
  "try_map (keep_position v) (map (\<lambda>x. Some (int x)) xs) = Ok (map (\<lambda>x. \<not> treemap_contains v x) xs)"
  by (induction xs) (simp_all add: keep_position_def)

text \<open>
  C20. A scan keeps exactly the rows that the deletion vectors of their file leave: in a batch of
  rows of one file, the filter succeeds and keeps a row if and only if no vector for the file
  that was read contains its position, where two vectors of a file are combined by union.
\<close>

theorem deleted_rows_are_filtered:
  assumes "dp_file_path p batch = Ok (StringArray (replicate (rb_num_rows batch) (Some path)))"
    "dp_row_position p batch = Ok (PrimitiveArray AInt64 (map (\<lambda>x. Some (int x)) positions))"
    "length positions = rb_num_rows batch" "dp_vectors p path = Some (DeletionVector_bitor a b)"
    "DeletionVector_decode lib blob_a = Ok a" "DeletionVector_decode lib blob_b = Ok b"
  shows "\<exists>keep. dv_evaluate p batch = Ok keep \<and>
    (\<forall>i < rb_num_rows batch. row_kept keep i \<longleftrightarrow> \<not> treemap_contains a (positions ! i) \<and> \<not> treemap_contains b (positions ! i))"
proof (cases "rb_num_rows batch = 0")
  case True
  then show ?thesis by (simp add: dv_evaluate_def)
next
  case False
  have "sorted_wrt (<) (map fst a)" "sorted_wrt (<) (map fst b)"
    using accepted_vector [OF assms(5)] accepted_vector [OF assms(6)] by (simp_all add: Let_def)
  note union = bitor_spec [OF this]
  have "dv_evaluate p batch = Ok (BoolArray (map (\<lambda>x. \<not> treemap_contains (DeletionVector_bitor a b) x) positions))"
    using False assms(1,2,4) by (simp add: dv_evaluate_def try_map_keep)
  then show ?thesis using assms(3) union by (simp add: row_kept_def)
qed

definition sample_rows_batch :: record_batch where
  "sample_rows_batch = \<lparr>rb_columns = [], rb_num_rows = 3\<rparr>"

definition sample_filter :: dv_predicate where
  "sample_filter =
     \<lparr>dp_file_path = (\<lambda>b. Ok (StringArray (replicate 3 (Some ''f'')))),
      dp_row_position = (\<lambda>b. Ok (PrimitiveArray AInt64 [Some 4, Some 5, Some 6])),
      dp_vectors = [''f'' \<mapsto> DeletionVector_bitor [(0, {5})] [(0, {6})]]\<rparr>"

theorem deleted_rows_are_filtered_witness:
  "\<exists>keep. dv_evaluate sample_filter sample_rows_batch = Ok keep
     \<and> row_kept keep 0 \<and> \<not> row_kept keep 1 \<and> \<not> row_kept keep 2"
proof -
  have one: "DeletionVector_decode sample_roaring (dv_blob sample_roaring sample_ser [(0, {n})]) = Ok [(0, {n})]"
    if "n = 5 \<or> n = 6" for n
  proof (rule decode_dv_blob)
    have len: "length (dv_body sample_ser [(0, {n})]) = 17"
      by (simp add: dv_body_def dv_directory_def sample_ser_def DV_MAGIC_def)
    show "0 \<le> rl_crc32 sample_roaring (dv_body sample_ser [(0, {n})])"
      "rl_crc32 sample_roaring (dv_body sample_ser [(0, {n})]) < 2 ^ 32" "length (dv_body sample_ser [(0, {n})]) < 2 ^ 32"
      by (simp_all add: sample_roaring_def len)
    show "rl_deserialize sample_roaring (sample_ser s @ rest) = Ok (s, rest)" if "s \<in> snd ` set [(0, {n})]" for s rest
      using that \<open>n = 5 \<or> n = 6\<close> by (auto simp: sample_roaring_def sample_ser_def)
  qed simp_all
  have "\<exists>keep. dv_evaluate sample_filter sample_rows_batch = Ok keep \<and>
      (\<forall>i < rb_num_rows sample_rows_batch. row_kept keep i \<longleftrightarrow>
         \<not> treemap_contains [(0, {5})] ([4, 5, 6] ! i) \<and> \<not> treemap_contains [(0, {6})] ([4, 5, 6] ! i))"
    by (rule deleted_rows_are_filtered [where path = "''f''", OF _ _ _ _ one one])
      (simp_all add: sample_filter_def sample_rows_batch_def)
  then obtain keep where k: "dv_evaluate sample_filter sample_rows_batch = Ok keep"
      "\<And>i. i < 3 \<Longrightarrow> row_kept keep i \<longleftrightarrow>
         \<not> treemap_contains [(0, {5})] ([4, 5, 6] ! i) \<and> \<not> treemap_contains [(0, {6})] ([4, 5, 6] ! i)"
    by (auto simp: sample_rows_batch_def)
  then show ?thesis using k(2) [of 0] k(2) [of 1] k(2) [of 2] by (simp add: treemap_contains_def)
qed

end

