(* ===== verification/Delete_Scan.thy ===== *)
theory Delete_Scan
  imports Puffin Manifest_List
begin

text \<open>
  How a scan applies delete files (\<open>datafusion_iceberg/src/table/mod.rs\<close>): which delete files
  go with which data files, the plan of joins for each partition, and the deletion vectors. Plans
  are run by the semantics that DataFusion documents for their operators, on the rows of the files;
  predicates that are pushed into a scan and the other columns of a plan are not modelled.
\<close>

section \<open>Grouping\<close>

type_synonym content_file = "string \<times> manifest_entry"
type_synonym partition_key = "i32 \<times> struct_value"

record delete_index =
  di_equality :: "content_file list"
  di_position :: "content_file list"

definition delete_index_new :: delete_index where
  "delete_index_new = \<lparr>di_equality = [], di_position = []\<rparr>"

text \<open>A hash map as the list of its entries; \<open>entry(k).or_default()\<close>, then a change in place.\<close>

fun entry_modify :: "'v \<Rightarrow> ('v \<Rightarrow> 'v) \<Rightarrow> 'k \<Rightarrow> ('k \<times> 'v) list \<Rightarrow> ('k \<times> 'v) list" where
  "entry_modify d f k [] = [(k, f d)]"
| "entry_modify d f k ((k', v) # m) = (if k = k' then (k, f v) # m else (k', v) # entry_modify d f k m)"

definition scan_manifest_status :: "status \<Rightarrow> content \<Rightarrow> bool \<Rightarrow> bool" where
  "scan_manifest_status s c scan_changed_data_files \<longleftrightarrow>
     (if scan_changed_data_files then c = Data \<and> (s = Added \<or> s = Deleted) else s \<noteq> Deleted)"

definition scan_manifest_entry :: "manifest_entry \<Rightarrow> bool \<Rightarrow> bool" where
  "scan_manifest_entry e changed \<longleftrightarrow> scan_manifest_status (me_status e) (df_content (me_data_file e)) changed"

definition prepare_changed_data_files :: "content_file list \<Rightarrow> bool \<Rightarrow> content_file list" where
  "prepare_changed_data_files files changed =
     (if \<not> changed then files
      else filter (\<lambda>(_, e). df_content (me_data_file e) = Data \<and> (me_status e = Added \<or> me_status e = Deleted)) files)"

definition has_historical_data_manifests :: "manifest_list_entry list \<Rightarrow> i32 \<Rightarrow> bool \<Rightarrow> bool" where
  "has_historical_data_manifests manifests current_spec_id changed \<longleftrightarrow>
     list_ex (\<lambda>m. ml_content m = ContentData \<and> ml_partition_spec_id m \<noteq> current_spec_id
       \<and> (ml_added_files_count m \<noteq> Some 0 \<or> ml_existing_files_count m \<noteq> Some 0
          \<or> (changed \<and> ml_deleted_files_count m \<noteq> Some 0))) manifests"

record file_groups =
  fg_data :: "(partition_key \<times> content_file list) list"
  fg_deletes :: "(partition_key \<times> delete_index) list"
  fg_global :: "content_file list"

definition file_groups_new :: file_groups where
  "file_groups_new = \<lparr>fg_data = [], fg_deletes = [], fg_global = []\<rparr>"

definition spec_of ::
  "(string \<rightharpoonup> i32) \<Rightarrow> (i32 \<rightharpoonup> partition_spec) \<Rightarrow> content_file \<Rightarrow> (i32 \<times> partition_spec, exec_error) outcome" where
  "spec_of spec_ids specs f =
     rbind (ok_or (Execution (''Missing partition spec for manifest '' @ fst f)) (spec_ids (fst f))) (\<lambda>i.
     rbind (ok_or (Execution ''Unknown partition spec'') (specs i)) (\<lambda>spec. Ok (i, spec)))"

definition group_step ::
  "(string \<rightharpoonup> i32) \<Rightarrow> (i32 \<rightharpoonup> partition_spec) \<Rightarrow> bool \<Rightarrow> file_groups \<Rightarrow> content_file \<Rightarrow> (file_groups, exec_error) outcome" where
  "group_step spec_ids specs changed g f =
     (if \<not> scan_manifest_entry (snd f) changed then Ok g
      else rbind (spec_of spec_ids specs f) (\<lambda>(i, spec).
        let partition = (i, df_partition (me_data_file (snd f)))
        in case df_content (me_data_file (snd f)) of
             Data \<Rightarrow> Ok (g\<lparr>fg_data := entry_modify [] (\<lambda>fs. fs @ [f]) partition (fg_data g)\<rparr>)
           | EqualityDeletes \<Rightarrow>
               if ps_fields spec = [] then Ok (g\<lparr>fg_global := fg_global g @ [f]\<rparr>)
               else Ok (g\<lparr>fg_deletes := entry_modify delete_index_new (\<lambda>x. x\<lparr>di_equality := di_equality x @ [f]\<rparr>)
                          partition (fg_deletes g)\<rparr>)
           | PositionDeletes \<Rightarrow>
               Ok (g\<lparr>fg_deletes := entry_modify delete_index_new (\<lambda>x. x\<lparr>di_position := di_position x @ [f]\<rparr>)
                     partition (fg_deletes g)\<rparr>)))"

definition MAX_GLOBAL_DELETE_APPLICATIONS :: nat where "MAX_GLOBAL_DELETE_APPLICATIONS = 1024"
definition MAX_GLOBAL_DELETE_SCAN_GROUPS :: nat where "MAX_GLOBAL_DELETE_SCAN_GROUPS = 32"

definition group_count :: "nat \<Rightarrow> nat \<Rightarrow> nat" where
  "group_count n_groups n_global =
     min (min n_groups MAX_GLOBAL_DELETE_SCAN_GROUPS) (max (MAX_GLOBAL_DELETE_APPLICATIONS div n_global) 1)"

text \<open>The files of the groups from \<open>n\<close> on are dealt out to the first \<open>n\<close>.\<close>

definition deal :: "nat \<Rightarrow> ('k \<times> 'a list) list \<Rightarrow> ('k \<times> 'a list) list" where
  "deal n gs =
     fold (\<lambda>(index, files) acc. acc[index mod n := (fst (acc ! (index mod n)), snd (acc ! (index mod n)) @ files)])
       (enumerate n (map snd (drop n gs))) (take n gs)"

text \<open>\<open>order\<close> is the order in which the map of groups is drained.\<close>

definition coalesce ::
  "((partition_key \<times> content_file list) list \<Rightarrow> (partition_key \<times> content_file list) list) \<Rightarrow> file_groups \<Rightarrow> file_groups" where
  "coalesce order g =
     (if fg_global g \<noteq> [] \<and> fg_deletes g = [] \<and> length (fg_data g) > 1
      then g\<lparr>fg_data := deal (group_count (length (fg_data g)) (length (fg_global g))) (order (fg_data g))\<rparr>
      else g)"

definition add_global :: "file_groups \<Rightarrow> (partition_key \<times> delete_index) list" where
  "add_global g =
     (if fg_global g = [] then fg_deletes g
      else fold (\<lambda>k. entry_modify delete_index_new (\<lambda>x. x\<lparr>di_equality := di_equality x @ fg_global g\<rparr>) k)
             (map fst (fg_data g)) (fg_deletes g))"

definition group_content_files ::
  "((partition_key \<times> content_file list) list \<Rightarrow> (partition_key \<times> content_file list) list)
     \<Rightarrow> (string \<rightharpoonup> i32) \<Rightarrow> (i32 \<rightharpoonup> partition_spec) \<Rightarrow> bool \<Rightarrow> content_file list
     \<Rightarrow> ((partition_key \<times> content_file list) list \<times> (partition_key \<times> delete_index) list, exec_error) outcome" where
  "group_content_files order spec_ids specs changed files =
     rbind (try_fold (group_step spec_ids specs changed) file_groups_new files) (\<lambda>g.
     let g = g\<lparr>fg_deletes := filter (\<lambda>(k, _). k \<in> fst ` set (fg_data g)) (fg_deletes g)\<rparr>;
         g = coalesce order g
     in if length (fg_data g) > 1
           \<and> (length (fg_global g) * length (fg_data g) \<ge> 2 ^ 64
              \<or> length (fg_global g) * length (fg_data g) > MAX_GLOBAL_DELETE_APPLICATIONS)
        then Err (NotImplemented ''More than 1024 global equality-delete applications in one scan'')
        else Ok (fg_data g, add_global g))"

section \<open>Deletion vectors of a scan\<close>

text \<open>\<open>get_range\<close> reads bytes of the object with the path of the file.\<close>

record scan_env =
  se_roaring :: roaring_lib
  se_get_range :: "string \<Rightarrow> nat \<Rightarrow> nat \<Rightarrow> (byte list, exec_error) outcome"
  se_order :: "(string \<times> treemap) list \<Rightarrow> (string \<times> treemap) list"

definition u64_of_i64 :: "string \<Rightarrow> i64 \<Rightarrow> (nat, exec_error) outcome" where
  "u64_of_i64 message x = (if x < 0 then Err (Execution message) else Ok (nat x))"

definition load_vector :: "scan_env \<Rightarrow> content_file \<Rightarrow> (string \<times> treemap, exec_error) outcome" where
  "load_vector env f =
     (let df = me_data_file (snd f) in
      rbind (ok_or (Execution ''Deletion vector has no content offset'') (df_content_offset df)) (\<lambda>o'.
      rbind (u64_of_i64 ''Deletion vector has a negative content offset'' o') (\<lambda>offset.
      rbind (ok_or (Execution ''Deletion vector has no content size'') (df_content_size_in_bytes df)) (\<lambda>s'.
      rbind (u64_of_i64 ''Deletion vector has a negative content size'' s') (\<lambda>size.
      if offset + size \<ge> 2 ^ 64 then Err (Execution ''Deletion vector byte range overflows'')
      else rbind (se_get_range env (df_file_path df) offset (offset + size)) (\<lambda>bytes.
      rbind (map_err (\<lambda>_. External ''decode'') (DeletionVector_decode (se_roaring env) bytes)) (\<lambda>vector.
      rbind (u64_of_i64 ''Deletion vector has a negative record count'' (df_record_count df)) (\<lambda>expected.
      if DeletionVector_len vector \<noteq> expected then Err (Execution ''Deletion vector has the wrong number of positions'')
      else rbind (ok_or (Execution ''Deletion vector has no referenced data file'') (df_referenced_data_file df)) (\<lambda>r.
           Ok (r, vector))))))))))"

definition merge_vector :: "(string \<rightharpoonup> treemap) \<Rightarrow> string \<times> treemap \<Rightarrow> (string \<rightharpoonup> treemap)" where
  "merge_vector m e =
     (case e of (path, vector) \<Rightarrow>
        m(path \<mapsto> (case m path of Some v \<Rightarrow> DeletionVector_bitor v vector | None \<Rightarrow> vector)))"

text \<open>The vectors are merged in the order in which the reads end.\<close>

definition load_deletion_vectors :: "scan_env \<Rightarrow> content_file list \<Rightarrow> (string \<rightharpoonup> treemap, exec_error) outcome" where
  "load_deletion_vectors env files =
     rbind (try_map (load_vector env) files) (\<lambda>vectors.
     Ok (foldl merge_vector Map.empty (se_order env vectors)))"

section \<open>Plans\<close>

datatype plan =
    ScanData "nat option" "content_file list"
  | UnionPlan plan plan
  | EqualityAntiJoin "nat option" "i32 list" content_file plan
  | VectorFilter "string \<rightharpoonup> treemap" plan
  | PositionAntiJoin "content_file list" plan

definition sort_by_sequence :: "content_file list \<Rightarrow> (content_file list, exec_error) outcome" where
  "sort_by_sequence fs =
     (if length fs \<ge> 2 \<and> list_ex (\<lambda>f. me_sequence_number (snd f) = None) fs
      then Panic ''called Option::unwrap() on a None value''
      else Ok (sort_key (\<lambda>f. the (me_sequence_number (snd f))) fs))"

text \<open>\<open>next_if\<close> on the data files: those older than the delete file.\<close>

fun older_files :: "content_file \<Rightarrow> content_file list \<Rightarrow> (content_file list \<times> content_file list, exec_error) outcome" where
  "older_files d [] = Ok ([], [])"
| "older_files d (f # fs) =
     rbind (unwrap (me_sequence_number (snd f))) (\<lambda>s.
     rbind (unwrap (me_sequence_number (snd d))) (\<lambda>t.
     if s < t then rbind (older_files d fs) (\<lambda>(xs, rest). Ok (f # xs, rest)) else Ok ([], f # fs)))"

definition union_with :: "plan option \<Rightarrow> plan \<Rightarrow> plan" where
  "union_with acc p = (case acc of Some q \<Rightarrow> UnionPlan q p | None \<Rightarrow> p)"

definition equality_step ::
  "nat option \<Rightarrow> plan option \<times> content_file list \<Rightarrow> content_file \<Rightarrow> (plan option \<times> content_file list, exec_error) outcome" where
  "equality_step limit st d =
     (case st of (acc, data_files) \<Rightarrow>
        rbind (older_files d data_files) (\<lambda>(older, rest).
        rbind (unwrap (df_equality_ids (me_data_file (snd d)))) (\<lambda>ids.
        Ok (Some (EqualityAntiJoin limit ids d (union_with acc (ScanData limit older))), rest))))"

datatype position_kind = ParquetDeletes | Vector string

definition position_kind :: "content_file \<Rightarrow> (position_kind, exec_error) outcome" where
  "position_kind f =
     (let df = me_data_file (snd f) in
      case (df_content_offset df, df_content_size_in_bytes df, df_referenced_data_file df) of
        (None, None, None) \<Rightarrow> Ok ParquetDeletes
      | (Some _, Some _, Some r) \<Rightarrow>
          if df_file_format df \<noteq> Puffin then Err (Execution ''Iceberg deletion vector must use PUFFIN file format'')
          else Ok (Vector r)
      | _ \<Rightarrow> Err (Execution ''Iceberg deletion vector must set its pointer together''))"

definition position_scan :: "content_file \<Rightarrow> (unit, exec_error) outcome" where
  "position_scan f =
     (if df_file_size_in_bytes (me_data_file (snd f)) < 0 then Err (Execution ''Position delete file has a negative size'')
      else rbind (ok_or (Execution ''Position delete file has no sequence number'') (me_sequence_number (snd f))) (\<lambda>_. Ok ()))"

definition apply_position_deletes ::
  "scan_env \<Rightarrow> content_file list \<Rightarrow> string list \<Rightarrow> plan \<Rightarrow> (plan, exec_error) outcome" where
  "apply_position_deletes env delete_files active p =
     rbind (try_map (\<lambda>f. rbind (position_kind f) (\<lambda>k. Ok (f, k))) delete_files) (\<lambda>kinds.
     let parquet_files = map fst (filter (\<lambda>(f, k). k = ParquetDeletes) kinds);
         vector_files = map fst (filter (\<lambda>(f, k). case k of Vector r \<Rightarrow> r \<in> set active | ParquetDeletes \<Rightarrow> False) kinds)
     in rbind (if vector_files = [] then Ok p
               else rbind (load_deletion_vectors env vector_files) (\<lambda>vectors. Ok (VectorFilter vectors p))) (\<lambda>p.
        if parquet_files = [] then Ok p
        else rbind (try_map position_scan parquet_files) (\<lambda>_. Ok (PositionAntiJoin parquet_files p))))"

definition partition_plan ::
  "scan_env \<Rightarrow> nat option \<Rightarrow> delete_index \<Rightarrow> content_file list \<Rightarrow> (plan, exec_error) outcome" where
  "partition_plan env limit deletes data_files =
     rbind (sort_by_sequence (di_equality deletes)) (\<lambda>equality.
     rbind (sort_by_sequence data_files) (\<lambda>data_files.
     rbind (try_fold (equality_step limit) (None, data_files) equality) (\<lambda>(acc, rest).
     let acc = (if rest = [] then acc else Some (union_with acc (ScanData limit rest)))
     in rbind (ok_or (External ''Delete plan'') acc) (\<lambda>p.
        if di_position deletes = [] then Ok p
        else apply_position_deletes env (di_position deletes) (map (\<lambda>f. df_file_path (me_data_file (snd f))) data_files) p))))"

text \<open>
  The plans of the partitions with delete files, then the scan of the other files; the files that
  attest the sort order are scanned apart. \<open>regroup\<close> is a rearrangement by statistics.
\<close>

definition remaining_plans ::
  "nat option \<Rightarrow> i32 option \<Rightarrow> (content_file list \<Rightarrow> content_file list) \<Rightarrow> content_file list \<Rightarrow> plan list" where
  "remaining_plans limit declared regroup files =
     (let is_attested = (\<lambda>f. declared \<noteq> None \<and> df_sort_order_id (me_data_file (snd f)) = declared);
          unattested = filter (\<lambda>f. \<not> is_attested f) files; attested = filter is_attested files
      in (if unattested = [] then [] else [ScanData limit unattested])
         @ (if attested = [] then [] else [ScanData limit (regroup attested)]))"

definition scan_plans ::
  "scan_env \<Rightarrow> nat option \<Rightarrow> i32 option \<Rightarrow> (content_file list \<Rightarrow> content_file list)
     \<Rightarrow> (partition_key \<times> content_file list) list \<Rightarrow> (partition_key \<times> delete_index) list \<Rightarrow> (plan list, exec_error) outcome" where
  "scan_plans env limit declared regroup data deletes =
     rbind (try_map (\<lambda>(k, d). partition_plan env limit d (case map_of data k of Some fs \<Rightarrow> fs | None \<Rightarrow> [])) deletes) (\<lambda>plans.
     Ok (plans @ remaining_plans limit declared regroup
           (concat (map snd (filter (\<lambda>(k, fs). k \<notin> fst ` set deletes) data)))))"

section \<open>Running a plan\<close>

text \<open>A row with the columns that the delete files are joined on.\<close>

record scan_row =
  sr_path :: string
  sr_position :: nat
  sr_sequence :: i64
  sr_values :: "i32 \<Rightarrow> ice_value option"

text \<open>What the files hold: rows of data and equality delete files, positions of position delete files.\<close>

record file_contents =
  fc_rows :: "string \<Rightarrow> (i32 \<Rightarrow> ice_value option) list"
  fc_positions :: "string \<Rightarrow> (string \<times> int) list"

definition rows_of :: "file_contents \<Rightarrow> content_file \<Rightarrow> scan_row list" where
  "rows_of c f =
     (let path = df_file_path (me_data_file (snd f)) in
      map (\<lambda>(i, v). \<lparr>sr_path = path, sr_position = i, sr_sequence = the (me_sequence_number (snd f)), sr_values = v\<rparr>)
        (enumerate 0 (fc_rows c path)))"

definition limited :: "nat option \<Rightarrow> 'a list \<Rightarrow> 'a list" where
  "limited limit xs = (case limit of None \<Rightarrow> xs | Some n \<Rightarrow> take n xs)"

text \<open>The join on equality of all columns, where a null equals nothing.\<close>

definition equality_matches :: "i32 list \<Rightarrow> (i32 \<Rightarrow> ice_value option) \<Rightarrow> scan_row \<Rightarrow> bool" where
  "equality_matches ids x r \<longleftrightarrow> list_all (\<lambda>i. x i \<noteq> None \<and> x i = sr_values r i) ids"

definition position_matches :: "file_contents \<Rightarrow> content_file \<Rightarrow> scan_row \<Rightarrow> bool" where
  "position_matches c d r \<longleftrightarrow>
     the (me_sequence_number (snd d)) \<ge> sr_sequence r
     \<and> (sr_path r, int (sr_position r)) \<in> set (fc_positions c (df_file_path (me_data_file (snd d))))"

fun run_plan :: "file_contents \<Rightarrow> plan \<Rightarrow> scan_row list" where
  "run_plan c (ScanData limit fs) = limited limit (concat (map (rows_of c) fs))"
| "run_plan c (UnionPlan p q) = run_plan c p @ run_plan c q"
| "run_plan c (EqualityAntiJoin limit ids d p) =
     filter (\<lambda>r. \<not> list_ex (\<lambda>x. equality_matches ids x r) (limited limit (fc_rows c (df_file_path (me_data_file (snd d)))))) (run_plan c p)"
| "run_plan c (VectorFilter vectors p) =
     filter (\<lambda>r. \<not> (case vectors (sr_path r) of Some v \<Rightarrow> treemap_contains v (sr_position r) | None \<Rightarrow> False)) (run_plan c p)"
| "run_plan c (PositionAntiJoin ds p) = filter (\<lambda>r. \<not> list_ex (\<lambda>d. position_matches c d r) ds) (run_plan c p)"

section \<open>Which rows are deleted\<close>

text \<open>
  The rules of the table format: an equality delete file deletes the rows of older data files
  that equal one of its rows, a position delete file the rows it names in files that are not
  newer, and a deletion vector the rows of the file that it references.
\<close>

definition equality_deletes :: "file_contents \<Rightarrow> content_file \<Rightarrow> scan_row \<Rightarrow> bool" where
  "equality_deletes c d r \<longleftrightarrow>
     list_ex (\<lambda>x. equality_matches (the (df_equality_ids (me_data_file (snd d)))) x r)
       (fc_rows c (df_file_path (me_data_file (snd d))))"

definition position_deletes :: "scan_env \<Rightarrow> file_contents \<Rightarrow> content_file \<Rightarrow> scan_row \<Rightarrow> bool" where
  "position_deletes env c d r \<longleftrightarrow>
     (case position_kind d of
        Ok ParquetDeletes \<Rightarrow> position_matches c d r
      | Ok (Vector path) \<Rightarrow>
          path = sr_path r \<and> (case load_vector env d of Ok (_, v) \<Rightarrow> treemap_contains v (sr_position r) | _ \<Rightarrow> False)
      | _ \<Rightarrow> False)"

definition deletes_row :: "scan_env \<Rightarrow> file_contents \<Rightarrow> content_file \<Rightarrow> scan_row \<Rightarrow> bool" where
  "deletes_row env c d r \<longleftrightarrow>
     (case df_content (me_data_file (snd d)) of
        Data \<Rightarrow> False
      | EqualityDeletes \<Rightarrow> sr_sequence r < the (me_sequence_number (snd d)) \<and> equality_deletes c d r
      | PositionDeletes \<Rightarrow> position_deletes env c d r)"

section \<open>Equality deletes\<close>

abbreviation sequence_of :: "content_file \<Rightarrow> i64" where
  "sequence_of f \<equiv> the (me_sequence_number (snd f))"

abbreviation rows_of_files :: "file_contents \<Rightarrow> content_file list \<Rightarrow> scan_row list" where
  "rows_of_files c fs \<equiv> concat (map (rows_of c) fs)"

definition run_opt :: "file_contents \<Rightarrow> plan option \<Rightarrow> scan_row list" where
  "run_opt c p = (case p of Some p \<Rightarrow> run_plan c p | None \<Rightarrow> [])"

lemma rows_of_sequence: "r \<in> set (rows_of c f) \<Longrightarrow> sr_sequence r = sequence_of f"
  by (auto simp: rows_of_def Let_def)

lemma rows_of_path: "r \<in> set (rows_of c f) \<Longrightarrow> sr_path r = df_file_path (me_data_file (snd f))"
  by (auto simp: rows_of_def Let_def)

lemma older_files_split:
  "older_files d fs = Ok (xs, rest) \<Longrightarrow>
     fs = xs @ rest \<and> (\<forall>f \<in> set xs. sequence_of f < sequence_of d)
     \<and> (rest \<noteq> [] \<longrightarrow> \<not> sequence_of (hd rest) < sequence_of d)"
proof (induction fs arbitrary: xs)
  case (Cons f fs)
  then obtain s t where st: "me_sequence_number (snd f) = Some s" "me_sequence_number (snd d) = Some t"
    by (auto simp: unwrap_def split: option.splits)
  show ?case
  proof (cases "s < t")
    case True
    then obtain ys where "older_files d fs = Ok (ys, rest)" "xs = f # ys" using Cons.prems st by (auto simp: unwrap_def)
    with Cons.IH True st show ?thesis by auto
  next
    case False
    then show ?thesis using Cons.prems st by (auto simp: unwrap_def)
  qed
qed simp

lemma equality_fold_rows:
  "try_fold (equality_step None) (acc, data_files) ds = Ok (acc', rest) \<Longrightarrow>
     sorted (map sequence_of ds) \<Longrightarrow> sorted (map sequence_of data_files) \<Longrightarrow>
     mset (run_opt c acc' @ rows_of_files c rest) =
       filter_mset (\<lambda>r. \<not> (\<exists>d \<in> set ds. equality_deletes c d r)) (mset (run_opt c acc))
       + filter_mset (\<lambda>r. \<not> (\<exists>d \<in> set ds. sr_sequence r < sequence_of d \<and> equality_deletes c d r)) (mset (rows_of_files c data_files))"
proof (induction ds arbitrary: acc data_files)
  case (Cons d ds)
  obtain older rest1 ids where s: "older_files d data_files = Ok (older, rest1)"
      "df_equality_ids (me_data_file (snd d)) = Some ids"
      "try_fold (equality_step None)
         (Some (EqualityAntiJoin None ids d (union_with acc (ScanData None older))), rest1) ds = Ok (acc', rest)"
  proof -
    obtain st where st: "equality_step None (acc, data_files) d = Ok st" "try_fold (equality_step None) st ds = Ok (acc', rest)"
      using Cons.prems(1) by auto
    then show thesis using that by (auto simp: equality_step_def unwrap_def split: option.splits)
  qed
  note split = older_files_split [OF s(1)]
  have newer: "sequence_of d \<le> sequence_of f" if "f \<in> set rest1" for f
    using split Cons.prems(3) that by (cases rest1) (auto simp: sorted_append)
  have run: "run_opt c (Some (EqualityAntiJoin None ids d (union_with acc (ScanData None older))))
      = filter (\<lambda>r. \<not> equality_deletes c d r) (run_opt c acc @ rows_of_files c older)"
    by (simp add: run_opt_def union_with_def limited_def equality_deletes_def s(2) split: option.split)
  have old: "filter_mset (\<lambda>r. \<not> (\<exists>e \<in> set (d # ds). sr_sequence r < sequence_of e \<and> equality_deletes c e r)) (mset (rows_of_files c older))
      = filter_mset (\<lambda>r. \<not> (\<exists>e \<in> set (d # ds). equality_deletes c e r)) (mset (rows_of_files c older))"
  proof (rule filter_mset_cong)
    fix r assume "r \<in># mset (rows_of_files c older)"
    then have "sr_sequence r < sequence_of d" using split rows_of_sequence by fastforce
    then have "\<forall>e \<in> set (d # ds). sr_sequence r < sequence_of e" using Cons.prems(2) by fastforce
    then show "(\<not> (\<exists>e \<in> set (d # ds). sr_sequence r < sequence_of e \<and> equality_deletes c e r))
        \<longleftrightarrow> (\<not> (\<exists>e \<in> set (d # ds). equality_deletes c e r))" by blast
  qed simp
  have new: "filter_mset (\<lambda>r. \<not> (\<exists>e \<in> set (d # ds). sr_sequence r < sequence_of e \<and> equality_deletes c e r)) (mset (rows_of_files c rest1))
      = filter_mset (\<lambda>r. \<not> (\<exists>e \<in> set ds. sr_sequence r < sequence_of e \<and> equality_deletes c e r)) (mset (rows_of_files c rest1))"
  proof (rule filter_mset_cong)
    fix r assume "r \<in># mset (rows_of_files c rest1)"
    then have "sequence_of d \<le> sr_sequence r" using newer rows_of_sequence by fastforce
    then show "(\<not> (\<exists>e \<in> set (d # ds). sr_sequence r < sequence_of e \<and> equality_deletes c e r))
        \<longleftrightarrow> (\<not> (\<exists>e \<in> set ds. sr_sequence r < sequence_of e \<and> equality_deletes c e r))" by auto
  qed simp
  have "sorted (map sequence_of rest1)" using split Cons.prems(3) by (auto simp: sorted_append)
  from Cons.IH [OF s(3) _ this] Cons.prems(2)
  have "mset (run_opt c acc' @ rows_of_files c rest) =
      filter_mset (\<lambda>r. \<not> (\<exists>e \<in> set ds. equality_deletes c e r)) (filter_mset (\<lambda>r. \<not> equality_deletes c d r) (mset (run_opt c acc) + mset (rows_of_files c older)))
      + filter_mset (\<lambda>r. \<not> (\<exists>e \<in> set ds. sr_sequence r < sequence_of e \<and> equality_deletes c e r)) (mset (rows_of_files c rest1))"
    by (simp add: run)
  moreover have "filter_mset (\<lambda>r. \<not> (\<exists>e \<in> set ds. equality_deletes c e r)) (filter_mset (\<lambda>r. \<not> equality_deletes c d r) M)
      = filter_mset (\<lambda>r. \<not> (\<exists>e \<in> set (d # ds). equality_deletes c e r)) M" for M
    by (auto simp: filter_filter_mset intro!: filter_mset_cong)
  moreover have "mset (rows_of_files c data_files) = mset (rows_of_files c older) + mset (rows_of_files c rest1)" using split by simp
  ultimately show ?case using old new by (simp only: filter_union_mset add.assoc)
qed (simp add: run_opt_def)

section \<open>Position deletes\<close>

lemma load_vector_sorted: "load_vector env f = Ok (path, v) \<Longrightarrow> sorted_wrt (<) (map fst v)"
  by (auto simp: load_vector_def Let_def split: if_splits dest!: accepted_vector)

lemma load_vector_path: "load_vector env f = Ok (path, v) \<Longrightarrow> df_referenced_data_file (me_data_file (snd f)) = Some path"
  by (auto simp: load_vector_def Let_def ok_or_def split: if_splits option.splits)

lemma try_map_set: "try_map f xs = Ok ys \<Longrightarrow> e \<in> set ys \<longleftrightarrow> (\<exists>x \<in> set xs. f x = Ok e)"
  by (induction xs arbitrary: ys) auto

definition in_vectors :: "(string \<rightharpoonup> treemap) \<Rightarrow> string \<Rightarrow> nat \<Rightarrow> bool" where
  "in_vectors m path n \<longleftrightarrow> (case m path of Some v \<Rightarrow> treemap_contains v n | None \<Rightarrow> False)"

lemma merge_vectors:
  "\<forall>(p, v) \<in> set vs. sorted_wrt (<) (map fst v) \<Longrightarrow> \<forall>p v. m p = Some v \<longrightarrow> sorted_wrt (<) (map fst v) \<Longrightarrow>
     in_vectors (foldl merge_vector m vs) path n \<longleftrightarrow> in_vectors m path n \<or> (\<exists>v. (path, v) \<in> set vs \<and> treemap_contains v n)"
proof (induction vs arbitrary: m)
  case (Cons e vs)
  obtain p v where e: "e = (p, v)" by (cases e)
  have sorted: "\<forall>q w. merge_vector m e q = Some w \<longrightarrow> sorted_wrt (<) (map fst w)"
    using Cons.prems bitor_spec by (auto simp: merge_vector_def e split: option.splits if_splits)
  have "in_vectors (merge_vector m e) path n \<longleftrightarrow> in_vectors m path n \<or> path = p \<and> treemap_contains v n"
    using Cons.prems bitor_spec by (auto simp: merge_vector_def e in_vectors_def split: option.splits)
  with Cons.IH [OF _ sorted] Cons.prems(1) show ?case by (auto simp: e)
qed simp

lemma load_deletion_vectors_spec:
  assumes "load_deletion_vectors env fs = Ok m" "\<And>xs. mset (se_order env xs) = mset xs"
  shows "in_vectors m path n \<longleftrightarrow> (\<exists>f \<in> set fs. \<exists>v. load_vector env f = Ok (path, v) \<and> treemap_contains v n)"
proof -
  obtain vs where vs: "try_map (load_vector env) fs = Ok vs" "m = foldl merge_vector Map.empty (se_order env vs)"
    using assms(1) by (auto simp: load_deletion_vectors_def)
  have in_vs: "e \<in> set vs \<longleftrightarrow> (\<exists>f \<in> set fs. load_vector env f = Ok e)" for e
    using vs(1) by (rule try_map_set)
  have same: "set (se_order env vs) = set vs" using assms(2) by (metis set_mset_mset)
  have "\<forall>(p, v) \<in> set (se_order env vs). sorted_wrt (<) (map fst v)"
    using in_vs load_vector_sorted by (auto simp: same)
  from merge_vectors [OF this] show ?thesis using in_vs by (auto simp: vs(2) same in_vectors_def)
qed

lemma position_plan_rows:
  assumes "apply_position_deletes env ds active p = Ok q" "\<And>xs. mset (se_order env xs) = mset xs"
    "\<forall>r \<in> set (run_plan c p). sr_path r \<in> set active"
  shows "run_plan c q = filter (\<lambda>r. \<not> (\<exists>d \<in> set ds. position_deletes env c d r)) (run_plan c p)"
proof -
  obtain kinds where kinds: "try_map (\<lambda>f. rbind (position_kind f) (\<lambda>k. Ok (f, k))) ds = Ok kinds"
    using assms(1) by (auto simp: apply_position_deletes_def)
  define parquet where "parquet = map fst (filter (\<lambda>(f, k). k = ParquetDeletes) kinds)"
  define vector where "vector = map fst (filter (\<lambda>(f, k). case k of Vector r \<Rightarrow> r \<in> set active | ParquetDeletes \<Rightarrow> False) kinds)"
  have in_kinds: "(f, k) \<in> set kinds \<longleftrightarrow> f \<in> set ds \<and> position_kind f = Ok k" for f k
    using try_map_set [OF kinds, of "(f, k)"] by auto
  have par: "f \<in> set parquet \<longleftrightarrow> f \<in> set ds \<and> position_kind f = Ok ParquetDeletes" for f
    by (cases f) (auto simp: parquet_def in_kinds image_iff)
  have vec: "f \<in> set vector \<longleftrightarrow> f \<in> set ds \<and> (\<exists>r \<in> set active. position_kind f = Ok (Vector r))" for f
  proof -
    have "(case k of Vector r \<Rightarrow> r \<in> set active | ParquetDeletes \<Rightarrow> False) \<longleftrightarrow> (\<exists>r \<in> set active. k = Vector r)" for k
      by (cases k) auto
    then show ?thesis by (cases f) (auto simp: vector_def in_kinds image_iff)
  qed
  obtain p1 where p1: "(if vector = [] then Ok p else rbind (load_deletion_vectors env vector) (\<lambda>vectors. Ok (VectorFilter vectors p))) = Ok p1"
      "(if parquet = [] then Ok p1 else rbind (try_map position_scan parquet) (\<lambda>_. Ok (PositionAntiJoin parquet p1))) = Ok q"
    using assms(1) unfolding apply_position_deletes_def kinds rbind.simps Let_def vector_def [symmetric] parquet_def [symmetric]
    by (simp only: rbind_eq_Ok) blast
  have path: "position_kind f = Ok (Vector r) \<Longrightarrow> df_referenced_data_file (me_data_file (snd f)) = Some r" for f r
    by (auto simp: position_kind_def Let_def split: option.splits if_splits)
  have first: "run_plan c p1 = filter (\<lambda>r. \<not> (\<exists>d \<in> set vector. position_deletes env c d r)) (run_plan c p)"
  proof (cases "vector = []")
    case True
    then show ?thesis using p1(1) by simp
  next
    case False
    then obtain m where m: "load_deletion_vectors env vector = Ok m" "p1 = VectorFilter m p" using p1(1) by auto
    have "in_vectors m (sr_path r) (sr_position r) \<longleftrightarrow> (\<exists>d \<in> set vector. position_deletes env c d r)" for r
      unfolding load_deletion_vectors_spec [OF m(1) assms(2)]
    proof (intro bex_cong refl iffI)
      fix f assume f: "f \<in> set vector"
      then obtain q where q: "position_kind f = Ok (Vector q)" using vec by blast
      { assume "\<exists>v. load_vector env f = Ok (sr_path r, v) \<and> treemap_contains v (sr_position r)"
        then show "position_deletes env c f r"
          using q path load_vector_path by (fastforce simp: position_deletes_def) }
      { assume "position_deletes env c f r"
        then show "\<exists>v. load_vector env f = Ok (sr_path r, v) \<and> treemap_contains v (sr_position r)"
          using q path [OF q] load_vector_path [of env f]
          by (auto simp: position_deletes_def split: outcome.splits) }
    qed
    then show ?thesis by (simp add: m(2) in_vectors_def cong: filter_cong)
  qed
  have second: "run_plan c q = filter (\<lambda>r. \<not> (\<exists>d \<in> set parquet. position_matches c d r)) (run_plan c p1)"
    using p1(2) by (auto simp: list_ex_iff split: if_splits)
  show ?thesis
    unfolding second first filter_filter
  proof (rule filter_cong [OF refl])
    fix r assume "r \<in> set (run_plan c p)"
    then have here: "sr_path r \<in> set active" using assms(3) by blast
    have "(\<exists>d \<in> set ds. position_deletes env c d r) \<longleftrightarrow>
        (\<exists>d \<in> set vector. position_deletes env c d r) \<or> (\<exists>d \<in> set parquet. position_matches c d r)"
    proof (intro iffI)
      assume "\<exists>d \<in> set ds. position_deletes env c d r"
      then obtain d where d: "d \<in> set ds" "position_deletes env c d r" by blast
      then consider "position_kind d = Ok ParquetDeletes" "position_matches c d r"
        | "position_kind d = Ok (Vector (sr_path r))"
        by (auto simp: position_deletes_def split: outcome.splits position_kind.splits)
      then show "(\<exists>d \<in> set vector. position_deletes env c d r) \<or> (\<exists>d \<in> set parquet. position_matches c d r)"
        using d par [of d] vec [of d] here by cases blast+
    next
      assume "(\<exists>d \<in> set vector. position_deletes env c d r) \<or> (\<exists>d \<in> set parquet. position_matches c d r)"
      then obtain d where "d \<in> set vector \<and> position_deletes env c d r \<or> d \<in> set parquet \<and> position_matches c d r" by blast
      then show "\<exists>d \<in> set ds. position_deletes env c d r"
        using par [of d] vec [of d] by (intro bexI [of _ d]) (auto simp: position_deletes_def)
    qed
    then show "(\<not> (\<exists>d \<in> set vector. position_deletes env c d r) \<and> \<not> (\<exists>d \<in> set parquet. position_matches c d r))
        \<longleftrightarrow> (\<not> (\<exists>d \<in> set ds. position_deletes env c d r))" by blast
  qed
qed

section \<open>The plan of a partition\<close>

definition index_ok :: "delete_index \<Rightarrow> bool" where
  "index_ok x \<longleftrightarrow> (\<forall>d \<in> set (di_equality x). df_content (me_data_file (snd d)) = EqualityDeletes)
     \<and> (\<forall>d \<in> set (di_position x). df_content (me_data_file (snd d)) = PositionDeletes)"

lemma partition_plan_rows:
  assumes "partition_plan env None deletes data_files = Ok p" "\<And>xs. mset (se_order env xs) = mset xs" "index_ok deletes"
  shows "mset (run_plan c p) =
    filter_mset (\<lambda>r. \<not> (\<exists>d \<in> set (di_equality deletes) \<union> set (di_position deletes). deletes_row env c d r)) (mset (rows_of_files c data_files))"
proof -
  obtain acc rest q where plan:
      "try_fold (equality_step None) (None, sort_key sequence_of data_files) (sort_key sequence_of (di_equality deletes)) = Ok (acc, rest)"
      "(if rest = [] then acc else Some (union_with acc (ScanData None rest))) = Some q"
      "(if di_position deletes = [] then Ok q else apply_position_deletes env (di_position deletes)
          (map (\<lambda>f. df_file_path (me_data_file (snd f))) (sort_key sequence_of data_files)) q) = Ok p"
    using assms(1)
    by (auto simp: partition_plan_def sort_by_sequence_def Let_def ok_or_def split: if_splits option.splits)
  have "mset (run_plan c q) = mset (run_opt c acc @ rows_of_files c rest)"
    using plan(2) by (auto simp: run_opt_def union_with_def limited_def split: if_splits option.splits)
  also have "\<dots> = filter_mset (\<lambda>r. \<not> (\<exists>d \<in> set (sort_key sequence_of (di_equality deletes)). sr_sequence r < sequence_of d \<and> equality_deletes c d r))
      (mset (rows_of_files c (sort_key sequence_of data_files)))"
    using equality_fold_rows [OF plan(1), of c] by (simp add: run_opt_def)
  also have "mset (rows_of_files c (sort_key sequence_of data_files)) = mset (rows_of_files c data_files)"
    by (simp add: mset_concat flip: sum_mset_sum_list)
  finally have equality: "mset (run_plan c q) =
      filter_mset (\<lambda>r. \<not> (\<exists>d \<in> set (di_equality deletes). deletes_row env c d r)) (mset (rows_of_files c data_files))"
    using assms(3) by (simp add: deletes_row_def index_ok_def cong: filter_mset_cong)
  have active: "sr_path r \<in> (\<lambda>f. df_file_path (me_data_file (snd f))) ` set data_files" if "r \<in> set (run_plan c q)" for r
  proof -
    have "r \<in># filter_mset (\<lambda>r. \<not> (\<exists>d \<in> set (di_equality deletes). deletes_row env c d r)) (mset (rows_of_files c data_files))"
      using that unfolding equality [symmetric] by simp
    then obtain f where "f \<in> set data_files" "r \<in> set (rows_of c f)" by auto
    then show ?thesis using rows_of_path by (auto simp: image_iff)
  qed
  have "run_plan c p = filter (\<lambda>r. \<not> (\<exists>d \<in> set (di_position deletes). position_deletes env c d r)) (run_plan c q)"
  proof (cases "di_position deletes = []")
    case False
    then have "apply_position_deletes env (di_position deletes)
          (map (\<lambda>f. df_file_path (me_data_file (snd f))) (sort_key sequence_of data_files)) q = Ok p" using plan(3) by simp
    from position_plan_rows [OF this assms(2)] active show ?thesis by simp
  qed (use plan(3) in simp)
  then have "mset (run_plan c p) = filter_mset (\<lambda>r. \<not> (\<exists>d \<in> set (di_position deletes). position_deletes env c d r)) (mset (run_plan c q))"
    by simp
  also have "\<dots> = filter_mset (\<lambda>r. \<not> (\<exists>d \<in> set (di_position deletes). deletes_row env c d r)) (mset (run_plan c q))"
    using assms(3) by (simp add: deletes_row_def index_ok_def cong: filter_mset_cong)
  finally show ?thesis unfolding equality filter_filter_mset by (auto intro: filter_mset_cong)
qed

section \<open>Which delete files go with a data file\<close>

definition content_of :: "content_file \<Rightarrow> content" where
  "content_of f = df_content (me_data_file (snd f))"

definition key_of :: "(string \<rightharpoonup> i32) \<Rightarrow> content_file \<Rightarrow> partition_key" where
  "key_of spec_ids f = (the (spec_ids (fst f)), df_partition (me_data_file (snd f)))"

definition spec_is_global :: "(string \<rightharpoonup> i32) \<Rightarrow> (i32 \<rightharpoonup> partition_spec) \<Rightarrow> content_file \<Rightarrow> bool" where
  "spec_is_global spec_ids specs f \<longleftrightarrow> ps_fields (the (specs (the (spec_ids (fst f))))) = []"

text \<open>
  An equality delete file of an unpartitioned spec applies to every data file, another delete
  file to the data files of its spec and partition.
\<close>

definition applies :: "(string \<rightharpoonup> i32) \<Rightarrow> (i32 \<rightharpoonup> partition_spec) \<Rightarrow> content_file \<Rightarrow> content_file \<Rightarrow> bool" where
  "applies spec_ids specs d f \<longleftrightarrow>
     content_of d \<noteq> Data
     \<and> (content_of d = EqualityDeletes \<and> spec_is_global spec_ids specs d \<or> key_of spec_ids d = key_of spec_ids f)"

definition at_key :: "'v \<Rightarrow> ('k \<times> 'v) list \<Rightarrow> 'k \<Rightarrow> 'v" where
  "at_key d m k = (case map_of m k of Some v \<Rightarrow> v | None \<Rightarrow> d)"

lemma entry_modify_spec:
  "at_key d (entry_modify d f k m) k' = (if k' = k then f (at_key d m k) else at_key d m k')"
  "fst ` set (entry_modify d f k m) = insert k (fst ` set m)"
  "distinct (map fst m) \<Longrightarrow> distinct (map fst (entry_modify d f k m))"
proof -
  show keys: "fst ` set (entry_modify d f k m) = insert k (fst ` set m)" for m
  proof (induction m)
    case (Cons e m)
    then show ?case by (cases e) (simp add: insert_commute)
  qed simp
  show "at_key d (entry_modify d f k m) k' = (if k' = k then f (at_key d m k) else at_key d m k')"
    by (induction m) (auto simp: at_key_def)
  show "distinct (map fst m) \<Longrightarrow> distinct (map fst (entry_modify d f k m))"
  proof (induction m)
    case (Cons e m)
    then show ?case using keys [of m] by (cases e) (auto split: if_splits)
  qed simp
qed

lemma entry_modify_append:
  "mset (concat (map snd (entry_modify [] (\<lambda>fs. fs @ [f]) k m))) = add_mset f (mset (concat (map snd m)))"
  by (induction m) auto

lemma at_key_Some: "distinct (map fst m) \<Longrightarrow> (k, v) \<in> set m \<Longrightarrow> at_key d m k = v"
  by (simp add: at_key_def)

definition groups_of :: "(string \<rightharpoonup> i32) \<Rightarrow> (i32 \<rightharpoonup> partition_spec) \<Rightarrow> content_file list \<Rightarrow> file_groups \<Rightarrow> bool" where
  "groups_of spec_ids specs live g \<longleftrightarrow>
     distinct (map fst (fg_data g)) \<and> distinct (map fst (fg_deletes g))
     \<and> mset (concat (map snd (fg_data g))) = mset (filter (\<lambda>f. content_of f = Data) live)
     \<and> (\<forall>k. set (at_key [] (fg_data g) k) = {f \<in> set live. content_of f = Data \<and> key_of spec_ids f = k})
     \<and> (\<forall>f \<in> set live. content_of f = Data \<longrightarrow> key_of spec_ids f \<in> fst ` set (fg_data g))
     \<and> (\<forall>k. set (di_equality (at_key delete_index_new (fg_deletes g) k)) =
           {d \<in> set live. content_of d = EqualityDeletes \<and> \<not> spec_is_global spec_ids specs d \<and> key_of spec_ids d = k})
     \<and> (\<forall>k. set (di_position (at_key delete_index_new (fg_deletes g) k)) =
           {d \<in> set live. content_of d = PositionDeletes \<and> key_of spec_ids d = k})
     \<and> set (fg_global g) = {d \<in> set live. content_of d = EqualityDeletes \<and> spec_is_global spec_ids specs d}"

lemma group_step_groups:
  assumes "group_step spec_ids specs changed g f = Ok g'" "groups_of spec_ids specs live g"
  shows "groups_of spec_ids specs (live @ (if scan_manifest_entry (snd f) changed then [f] else [])) g'"
proof (cases "scan_manifest_entry (snd f) changed")
  case True
  then obtain i spec where spec: "spec_of spec_ids specs f = Ok (i, spec)"
    using assms(1) by (auto simp: group_step_def)
  then have "spec_ids (fst f) = Some i" "specs i = Some spec"
    by (auto simp: spec_of_def ok_or_def split: option.splits)
  then have key: "(i, df_partition (me_data_file (snd f))) = key_of spec_ids f"
    "ps_fields spec = [] \<longleftrightarrow> spec_is_global spec_ids specs f"
    by (simp_all add: key_of_def spec_is_global_def)
  show ?thesis
  proof (cases "content_of f")
    case Data
    then have "g' = g\<lparr>fg_data := entry_modify [] (\<lambda>fs. fs @ [f]) (key_of spec_ids f) (fg_data g)\<rparr>"
      using assms(1) True spec key by (simp add: group_step_def content_of_def Let_def)
    then show ?thesis
      using assms(2) True Data by (auto simp: groups_of_def entry_modify_spec entry_modify_append simp del: split_paired_All split_paired_Ex)
  next
    case PositionDeletes
    then have "g' = g\<lparr>fg_deletes := entry_modify delete_index_new (\<lambda>x. x\<lparr>di_position := di_position x @ [f]\<rparr>)
        (key_of spec_ids f) (fg_deletes g)\<rparr>"
      using assms(1) True spec key by (simp add: group_step_def content_of_def Let_def)
    then show ?thesis
      using assms(2) True PositionDeletes by (auto simp: groups_of_def entry_modify_spec simp del: split_paired_All split_paired_Ex)
  next
    case EqualityDeletes
    then have "g' = (if spec_is_global spec_ids specs f then g\<lparr>fg_global := fg_global g @ [f]\<rparr>
        else g\<lparr>fg_deletes := entry_modify delete_index_new (\<lambda>x. x\<lparr>di_equality := di_equality x @ [f]\<rparr>)
          (key_of spec_ids f) (fg_deletes g)\<rparr>)"
      using assms(1) True spec key by (simp add: group_step_def content_of_def Let_def split: if_splits)
    then show ?thesis
      using assms(2) True EqualityDeletes by (auto simp: groups_of_def entry_modify_spec simp del: split_paired_All split_paired_Ex)
  qed
qed (use assms in \<open>simp add: group_step_def\<close>)

lemma group_fold_groups:
  "try_fold (group_step spec_ids specs changed) g fs = Ok g' \<Longrightarrow> groups_of spec_ids specs live g \<Longrightarrow>
     groups_of spec_ids specs (live @ filter (\<lambda>f. scan_manifest_entry (snd f) changed) fs) g'"
proof (induction fs arbitrary: g live)
  case (Cons f fs)
  then obtain g1 where g1: "group_step spec_ids specs changed g f = Ok g1"
      "try_fold (group_step spec_ids specs changed) g1 fs = Ok g'" by auto
  from Cons.IH [OF g1(2) group_step_groups [OF g1(1) Cons.prems(2)]] show ?case by (simp split: if_splits)
qed simp

text \<open>Dealing out keeps the files and the first keys.\<close>

lemma mset_append_at:
  "j < length acc \<Longrightarrow> mset (concat (map snd (acc[j := (fst (acc ! j), snd (acc ! j) @ fs)]))) = mset (concat (map snd acc)) + mset fs"
proof (induction acc arbitrary: j)
  case (Cons a acc)
  then show ?case by (cases j) auto
qed simp

lemma deal_fold:
  "n > 0 \<Longrightarrow> length acc = n \<Longrightarrow>
     (let acc' = fold (\<lambda>(index, files) acc. acc[index mod n := (fst (acc ! (index mod n)), snd (acc ! (index mod n)) @ files)]) es acc
      in map fst acc' = map fst acc \<and> mset (concat (map snd acc')) = mset (concat (map snd acc)) + mset (concat (map snd es)))"
proof (induction es arbitrary: acc)
  case (Cons e es)
  obtain i files where e: "e = (i, files)" by (cases e)
  have i: "i mod n < length acc" using Cons.prems by simp
  let ?acc = "acc[i mod n := (fst (acc ! (i mod n)), snd (acc ! (i mod n)) @ files)]"
  have "map fst ?acc = map fst acc" using i by (simp add: map_update list_update_same_conv)
  moreover have "mset (concat (map snd ?acc)) = mset (concat (map snd acc)) + mset files" by (rule mset_append_at [OF i])
  ultimately show ?case using Cons.IH [of ?acc] Cons.prems by (simp add: e Let_def)
qed simp

lemma deal_spec:
  assumes "0 < n"  "n \<le> length gs"
  shows "map fst (deal n gs) = take n (map fst gs)" "mset (concat (map snd (deal n gs))) = mset (concat (map snd gs))"
proof -
  have "mset (concat (map snd gs)) = mset (concat (map snd (take n gs))) + mset (concat (map snd (drop n gs)))"
    by (metis append_take_drop_id concat_append map_append mset_append)
  moreover have "length (take n gs) = n" using assms(2) by simp
  ultimately show "map fst (deal n gs) = take n (map fst gs)" "mset (concat (map snd (deal n gs))) = mset (concat (map snd gs))"
    using deal_fold [OF assms(1), of "take n gs" "enumerate n (map snd (drop n gs))"]
    by (simp_all add: deal_def Let_def take_map)
qed

lemma add_global_fold:
  "distinct ks \<Longrightarrow> distinct (map fst m) \<Longrightarrow>
     (let m' = fold (\<lambda>k. entry_modify delete_index_new (\<lambda>x. x\<lparr>di_equality := di_equality x @ gs\<rparr>) k) ks m
      in distinct (map fst m') \<and> fst ` set m' = set ks \<union> fst ` set m
         \<and> (\<forall>k. at_key delete_index_new m' k =
              (if k \<in> set ks then (at_key delete_index_new m k)\<lparr>di_equality := di_equality (at_key delete_index_new m k) @ gs\<rparr>
               else at_key delete_index_new m k)))"
proof (induction ks arbitrary: m)
  case (Cons k ks)
  let ?m = "entry_modify delete_index_new (\<lambda>x. x\<lparr>di_equality := di_equality x @ gs\<rparr>) k m"
  from Cons.IH [of ?m] Cons.prems show ?case
    by (simp add: Let_def entry_modify_spec del: split_paired_All)
qed simp

lemma add_global_spec:
  assumes "distinct (map fst (fg_data g))" "distinct (map fst (fg_deletes g))" "fst ` set (fg_deletes g) \<subseteq> fst ` set (fg_data g)"
  shows "distinct (map fst (add_global g))" "fst ` set (add_global g) \<subseteq> fst ` set (fg_data g)"
    "k \<in> fst ` set (fg_data g) \<Longrightarrow> di_position (at_key delete_index_new (add_global g) k) = di_position (at_key delete_index_new (fg_deletes g) k)"
    "k \<in> fst ` set (fg_data g) \<Longrightarrow> di_equality (at_key delete_index_new (add_global g) k) =
       di_equality (at_key delete_index_new (fg_deletes g) k) @ fg_global g"
  using assms add_global_fold [OF assms(1,2), of "fg_global g"]
  by (auto simp: add_global_def Let_def simp del: split_paired_All)

lemma at_key_filter: "k \<in> K \<Longrightarrow> at_key d (filter (\<lambda>(k, _). k \<in> K) m) k = at_key d m k"
  by (induction m) (auto simp: at_key_def)

definition deletes_at :: "(partition_key \<times> delete_index) list \<Rightarrow> partition_key \<Rightarrow> delete_index" where
  "deletes_at X k = at_key delete_index_new X k"

lemma coalesce_deletes:
  "fg_deletes (coalesce order g) = fg_deletes g" "fg_global (coalesce order g) = fg_global g"
  "fg_deletes g \<noteq> [] \<Longrightarrow> coalesce order g = g"
  by (simp_all add: coalesce_def)

lemma coalesce_data:
  assumes "distinct (map fst (fg_data g))" "\<And>gs. mset (order gs) = mset gs"
  shows "distinct (map fst (fg_data (coalesce order g)))"
    "mset (concat (map snd (fg_data (coalesce order g)))) = mset (concat (map snd (fg_data g)))"
proof -
  let ?n = "group_count (length (fg_data g)) (length (fg_global g))"
  have order: "distinct (map fst (order (fg_data g)))" "length (order (fg_data g)) = length (fg_data g)"
    using assms by (metis mset_map mset_eq_imp_distinct_iff, metis size_mset)
  have same: "mset (concat (map snd (order (fg_data g)))) = mset (concat (map snd (fg_data g)))"
    using assms(2) [of "fg_data g"] by (metis mset_concat mset_map sum_mset_sum_list)
  have n: "0 < ?n \<and> ?n \<le> length (order (fg_data g))" if "length (fg_data g) > 1"
    using that order(2) by (auto simp: group_count_def MAX_GLOBAL_DELETE_SCAN_GROUPS_def)
  show "distinct (map fst (fg_data (coalesce order g)))"
    "mset (concat (map snd (fg_data (coalesce order g)))) = mset (concat (map snd (fg_data g)))"
    using deal_spec [of ?n "order (fg_data g)"] n order(1) same assms(1) by (auto simp: coalesce_def)
qed

text \<open>What is in the groups before the partitions without data files are dropped.\<close>

lemma groups_ofD:
  assumes "groups_of spec_ids specs live g"
  shows "distinct (map fst (fg_data g))" "distinct (map fst (fg_deletes g))"
    "mset (concat (map snd (fg_data g))) = mset (filter (\<lambda>f. content_of f = Data) live)"
    "set (at_key [] (fg_data g) k) = {f \<in> set live. content_of f = Data \<and> key_of spec_ids f = k}"
    "f \<in> set live \<Longrightarrow> content_of f = Data \<Longrightarrow> key_of spec_ids f \<in> fst ` set (fg_data g)"
    "index_ok (at_key delete_index_new (fg_deletes g) k)"
    "\<forall>d \<in> set (fg_global g). content_of d = EqualityDeletes"
    "set (di_equality (at_key delete_index_new (fg_deletes g) (key_of spec_ids f))) \<union> set (fg_global g)
       \<union> set (di_position (at_key delete_index_new (fg_deletes g) (key_of spec_ids f))) = {d \<in> set live. applies spec_ids specs d f}"
proof -
  note inv = assms [unfolded groups_of_def]
  show "distinct (map fst (fg_data g))" "distinct (map fst (fg_deletes g))"
    "mset (concat (map snd (fg_data g))) = mset (filter (\<lambda>f. content_of f = Data) live)"
    "set (at_key [] (fg_data g) k) = {f \<in> set live. content_of f = Data \<and> key_of spec_ids f = k}"
    "f \<in> set live \<Longrightarrow> content_of f = Data \<Longrightarrow> key_of spec_ids f \<in> fst ` set (fg_data g)"
    "\<forall>d \<in> set (fg_global g). content_of d = EqualityDeletes"
    using inv by blast+
  have eq: "\<And>k. set (di_equality (at_key delete_index_new (fg_deletes g) k)) =
        {d \<in> set live. content_of d = EqualityDeletes \<and> \<not> spec_is_global spec_ids specs d \<and> key_of spec_ids d = k}"
    and pos: "\<And>k. set (di_position (at_key delete_index_new (fg_deletes g) k)) =
        {d \<in> set live. content_of d = PositionDeletes \<and> key_of spec_ids d = k}"
    and glob: "set (fg_global g) = {d \<in> set live. content_of d = EqualityDeletes \<and> spec_is_global spec_ids specs d}"
    using inv by blast+
  show "index_ok (at_key delete_index_new (fg_deletes g) k)"
    unfolding index_ok_def eq pos by (simp add: content_of_def)
  have "applies spec_ids specs d f \<longleftrightarrow>
      content_of d = EqualityDeletes \<and> \<not> spec_is_global spec_ids specs d \<and> key_of spec_ids d = key_of spec_ids f
      \<or> content_of d = EqualityDeletes \<and> spec_is_global spec_ids specs d
      \<or> content_of d = PositionDeletes \<and> key_of spec_ids d = key_of spec_ids f" for d
    by (cases "content_of d") (auto simp: applies_def)
  then show "set (di_equality (at_key delete_index_new (fg_deletes g) (key_of spec_ids f))) \<union> set (fg_global g)
       \<union> set (di_position (at_key delete_index_new (fg_deletes g) (key_of spec_ids f))) = {d \<in> set live. applies spec_ids specs d f}"
    unfolding eq pos glob by blast
qed

lemma group_content_files_spec:
  assumes "group_content_files order spec_ids specs changed files = Ok (D, X)" "\<And>gs. mset (order gs) = mset gs"
  defines "live \<equiv> filter (\<lambda>f. scan_manifest_entry (snd f) changed) files"
  shows "distinct (map fst D)" "distinct (map fst X)" "fst ` set X \<subseteq> fst ` set D"
    "mset (concat (map snd D)) = mset (filter (\<lambda>f. content_of f = Data) live)"
    "(k, fs) \<in> set D \<Longrightarrow> index_ok (deletes_at X k)"
    "(k, fs) \<in> set D \<Longrightarrow> f \<in> set fs \<Longrightarrow>
       set (di_equality (deletes_at X k)) \<union> set (di_position (deletes_at X k)) = {d \<in> set live. applies spec_ids specs d f}"
proof -
  obtain g where g: "try_fold (group_step spec_ids specs changed) file_groups_new files = Ok g"
    using assms(1) by (auto simp: group_content_files_def)
  have "groups_of spec_ids specs [] file_groups_new"
    by (simp add: groups_of_def file_groups_new_def at_key_def delete_index_new_def)
  from group_fold_groups [OF g this] have "groups_of spec_ids specs live g" by (simp add: live_def)
  note inv = groups_ofD [OF this]
  define h where "h = g\<lparr>fg_deletes := filter (\<lambda>(k, _). k \<in> fst ` set (fg_data g)) (fg_deletes g)\<rparr>"
  have h: "fg_data h = fg_data g" "fg_global h = fg_global g" "distinct (map fst (fg_deletes h))"
      "fst ` set (fg_deletes h) \<subseteq> fst ` set (fg_data h)"
    using inv(2) by (simp_all add: h_def distinct_map) (auto intro: inj_on_subset, force)
  have at_h: "at_key delete_index_new (fg_deletes h) k = at_key delete_index_new (fg_deletes g) k" if "k \<in> fst ` set (fg_data g)" for k
    using at_key_filter [OF that] by (simp add: h_def)
  have D: "D = fg_data (coalesce order h)" "X = add_global (coalesce order h)"
    using assms(1) g by (auto simp: group_content_files_def h_def Let_def split: if_splits)
  note data = coalesce_data [OF _ assms(2), of h, unfolded h(1), OF inv(1)]
  have "fst ` set (fg_deletes (coalesce order h)) \<subseteq> fst ` set (fg_data (coalesce order h))"
    using h(4) by (cases "fg_deletes h = []") (simp_all add: coalesce_deletes)
  note glo = add_global_spec [OF data(1) _ this, unfolded coalesce_deletes, OF h(3)]
  show "distinct (map fst D)" "distinct (map fst X)" "fst ` set X \<subseteq> fst ` set D"
    using data(1) glo(1,2) by (simp_all add: D)
  show all: "mset (concat (map snd D)) = mset (filter (\<lambda>f. content_of f = Data) live)"
    using data(2) inv(3) by (simp add: D)
  have idx: "di_position (deletes_at X k) = di_position (at_key delete_index_new (fg_deletes h) k)"
    "di_equality (deletes_at X k) = di_equality (at_key delete_index_new (fg_deletes h) k) @ fg_global g" if "(k, fs) \<in> set D" for k fs
    using glo(3,4) [of k] that h(2) by (force simp: D deletes_at_def)+
  have none: "at_key delete_index_new (fg_deletes h) k = delete_index_new" if "fg_deletes h = []" for k
    using that by (simp add: at_key_def)
  have kept: "coalesce order h = h" if "fg_deletes h \<noteq> []" using that by (rule coalesce_deletes(3))
  show "index_ok (deletes_at X k)" if "(k, fs) \<in> set D"
  proof -
    have "index_ok (at_key delete_index_new (fg_deletes h) k)"
    proof (cases "fg_deletes h = []")
      case False
      have "k \<in> fst ` set (fg_data g)" using that kept [OF False] h(1) by (force simp: D)
      from at_h [OF this] inv(6) [of k] show ?thesis by simp
    qed (simp add: at_key_def index_ok_def delete_index_new_def)
    then show ?thesis using idx [OF that] inv(7) by (auto simp: index_ok_def content_of_def)
  qed
  show "set (di_equality (deletes_at X k)) \<union> set (di_position (deletes_at X k)) = {d \<in> set live. applies spec_ids specs d f}"
    if kf: "(k, fs) \<in> set D" "f \<in> set fs"
  proof -
    have "f \<in># mset (concat (map snd D))" using kf by force
    then have f: "f \<in> set live" "content_of f = Data" unfolding all by auto
    note key = inv(5) [OF f]
    have "at_key delete_index_new (fg_deletes h) k = at_key delete_index_new (fg_deletes g) (key_of spec_ids f)"
    proof (cases "fg_deletes h = []")
      case False
      have "at_key [] (fg_data g) k = fs" using kf(1) kept [OF False] h(1) at_key_Some [OF inv(1)] by (simp add: D)
      then have "f \<in> {f \<in> set live. content_of f = Data \<and> key_of spec_ids f = k}" using kf(2) inv(4) [of k] by simp
      then have "k = key_of spec_ids f" by simp
      then show ?thesis using at_h [OF key] by simp
    qed (use none at_h [OF key] in simp)
    then show ?thesis using idx [OF kf(1)] inv(8) [of f] by (simp add: Un_assoc)
  qed
qed

section \<open>The scan\<close>

definition kept_rows ::
  "scan_env \<Rightarrow> file_contents \<Rightarrow> (string \<rightharpoonup> i32) \<Rightarrow> (i32 \<rightharpoonup> partition_spec) \<Rightarrow> content_file list \<Rightarrow> content_file \<Rightarrow> scan_row multiset" where
  "kept_rows env c spec_ids specs live f =
     filter_mset (\<lambda>r. \<not> (\<exists>d \<in> set live. applies spec_ids specs d f \<and> deletes_row env c d r)) (mset (rows_of c f))"

lemma filter_rows_in: "filter_mset P (mset (rows_of_files c fs)) = (\<Sum>f\<leftarrow>fs. filter_mset P (mset (rows_of c f)))"
  by (induction fs) simp_all

lemma group_rows:
  assumes "group_content_files order spec_ids specs changed files = Ok (D, X)" "\<And>gs. mset (order gs) = mset gs" "(k, fs) \<in> set D"
  defines "live \<equiv> filter (\<lambda>f. scan_manifest_entry (snd f) changed) files"
  shows "filter_mset (\<lambda>r. \<not> (\<exists>d \<in> set (di_equality (deletes_at X k)) \<union> set (di_position (deletes_at X k)). deletes_row env c d r)) (mset (rows_of_files c fs))
    = (\<Sum>f\<leftarrow>fs. kept_rows env c spec_ids specs live f)"
proof -
  have "map (\<lambda>f. filter_mset (\<lambda>r. \<not> (\<exists>d \<in> set (di_equality (deletes_at X k)) \<union> set (di_position (deletes_at X k)). deletes_row env c d r)) (mset (rows_of c f))) fs
      = map (kept_rows env c spec_ids specs live) fs"
  proof (rule map_cong [OF refl])
    fix f assume "f \<in> set fs"
    have "set (di_equality (deletes_at X k)) \<union> set (di_position (deletes_at X k)) = {d \<in> set live. applies spec_ids specs d f}"
      using group_content_files_spec(6) [OF assms(1,2,3) \<open>f \<in> set fs\<close>] by (simp add: live_def)
    then show "filter_mset (\<lambda>r. \<not> (\<exists>d \<in> set (di_equality (deletes_at X k)) \<union> set (di_position (deletes_at X k)). deletes_row env c d r)) (mset (rows_of c f))
        = kept_rows env c spec_ids specs live f"
      by (auto simp: kept_rows_def intro: filter_mset_cong)
  qed
  then show ?thesis by (simp only: filter_rows_in)
qed

lemma sum_by_keys:
  assumes "distinct (map fst D)" "distinct (map fst X)" "fst ` set X \<subseteq> fst ` set D"
  shows "(\<Sum>e\<leftarrow>X. G (fst e) (at_key [] D (fst e))) + (\<Sum>e\<leftarrow>filter (\<lambda>e. fst e \<notin> fst ` set X) D. G (fst e) (snd e))
    = (\<Sum>e\<leftarrow>D. G (fst e) (snd e) :: 'b :: comm_monoid_add)"
proof -
  let ?K = "filter (\<lambda>e. fst e \<in> fst ` set X) D"
  have "mset (map fst X) = mset (map fst ?K)"
  proof (rule set_eq_iff_mset_eq_distinct [THEN iffD1])
    show "distinct (map fst ?K)" using assms(1) by (auto simp: distinct_map intro: inj_on_subset)
    show "set (map fst X) = set (map fst ?K)" using assms(3) by (force simp: image_iff)
  qed (rule assms(2))
  then have "(\<Sum>k\<in>#mset (map fst X). G k (at_key [] D k)) = (\<Sum>k\<in>#mset (map fst ?K). G k (at_key [] D k))" by simp
  then have "(\<Sum>e\<leftarrow>X. G (fst e) (at_key [] D (fst e))) = (\<Sum>e\<leftarrow>?K. G (fst e) (at_key [] D (fst e)))"
    by (simp add: sum_mset_sum_list comp_def flip: mset_map)
  also have "\<dots> = (\<Sum>e\<leftarrow>?K. G (fst e) (snd e))"
  proof -
    have "at_key [] D (fst e) = snd e" if "e \<in> set D" for e
      using at_key_Some [OF assms(1), of "fst e" "snd e"] that by simp
    then show ?thesis by (intro arg_cong [where f = sum_list] map_cong refl) simp
  qed
  finally have keyed: "(\<Sum>e\<leftarrow>X. G (fst e) (at_key [] D (fst e))) = (\<Sum>e\<leftarrow>?K. G (fst e) (snd e))" .
  have "(\<Sum>e\<leftarrow>filter P D. h e) + (\<Sum>e\<leftarrow>filter (\<lambda>e. \<not> P e) D. h e) = (\<Sum>e\<leftarrow>D. h e)" for P and h :: "_ \<Rightarrow> 'b"
    by (induction D) (auto simp: ac_simps)
  then show ?thesis unfolding keyed .
qed

lemma run_remaining:
  assumes "\<And>xs. mset (regroup xs) = mset xs"
  shows "mset (concat (map (run_plan c) (remaining_plans None declared regroup fs))) = (\<Sum>f\<leftarrow>fs. mset (rows_of c f))"
proof -
  have part: "mset (concat (map (run_plan c) (if xs = [] then [] else [ScanData None ys]))) = (\<Sum>f\<in>#mset xs. mset (rows_of c f))"
    if "mset ys = mset xs" for xs ys
  proof -
    have "mset (rows_of_files c ys) = (\<Sum>f\<in>#mset ys. mset (rows_of c f))"
      by (simp add: mset_concat sum_mset_sum_list comp_def flip: mset_map)
    then show ?thesis using that by (simp add: limited_def)
  qed
  define P :: "content_file \<Rightarrow> bool"
    where "P = (\<lambda>f. declared \<noteq> None \<and> df_sort_order_id (me_data_file (snd f)) = declared)"
  have "mset (concat (map (run_plan c) (remaining_plans None declared regroup fs))) =
      (\<Sum>f\<in>#mset (filter (\<lambda>f. \<not> P f) fs). mset (rows_of c f)) + (\<Sum>f\<in>#mset (filter P fs). mset (rows_of c f))"
    using part [of "filter (\<lambda>f. \<not> P f) fs" "filter (\<lambda>f. \<not> P f) fs"] part [OF assms, of "filter P fs"]
    by (simp only: remaining_plans_def Let_def P_def map_append concat_append mset_append refl simp_thms)
  also have "\<dots> = (\<Sum>f\<leftarrow>fs. mset (rows_of c f))" by (induction fs) (simp_all add: ac_simps)
  finally show ?thesis .
qed

lemma try_map_rows:
  "try_map f xs = Ok ys \<Longrightarrow> (\<And>x y. x \<in> set xs \<Longrightarrow> f x = Ok y \<Longrightarrow> mset (h y) = G x) \<Longrightarrow>
     mset (concat (map h ys)) = (\<Sum>x\<leftarrow>xs. G x)"
  by (induction xs arbitrary: ys) auto

lemma no_deletes_keep_rows:
  assumes "group_content_files order spec_ids specs changed files = Ok (D, X)" "\<And>gs. mset (order gs) = mset gs"
    "(k, fs) \<in> set D" "k \<notin> fst ` set X" "f \<in> set fs"
  shows "kept_rows env c spec_ids specs (filter (\<lambda>f. scan_manifest_entry (snd f) changed) files) f = mset (rows_of c f)"
proof -
  have "deletes_at X k = delete_index_new"
    using assms(4) by (auto simp: deletes_at_def at_key_def map_of_eq_None_iff [THEN iffD2])
  then have "{d \<in> set (filter (\<lambda>f. scan_manifest_entry (snd f) changed) files). applies spec_ids specs d f} = {}"
    using group_content_files_spec(6) [OF assms(1,2,3,5)] by (simp add: delete_index_new_def)
  then have "\<not> (\<exists>d \<in> set (filter (\<lambda>f. scan_manifest_entry (snd f) changed) files). applies spec_ids specs d f \<and> deletes_row env c d r)" for r
    by blast
  then show ?thesis by (simp add: kept_rows_def filter_mset_eq_conv)
qed

lemma scan_rows_lemma:
  assumes "group_content_files order spec_ids specs changed files = Ok (D, X)"
    "scan_plans env None declared regroup D X = Ok plans"
    "\<And>gs. mset (order gs) = mset gs" "\<And>vs. mset (se_order env vs) = mset vs" "\<And>fs. mset (regroup fs) = mset fs"
  defines "live \<equiv> filter (\<lambda>f. scan_manifest_entry (snd f) changed) files"
  shows "mset (concat (map (run_plan c) plans)) = (\<Sum>f\<leftarrow>filter (\<lambda>f. content_of f = Data) live. kept_rows env c spec_ids specs live f)"
proof -
  note grouped = group_content_files_spec [OF assms(1,3)]
  define G where "G = (\<lambda>(k :: partition_key) fs. \<Sum>f\<leftarrow>fs. kept_rows env c spec_ids specs live f)"
  obtain ps where ps: "try_map (\<lambda>(k, d). partition_plan env None d (case map_of D k of Some fs \<Rightarrow> fs | None \<Rightarrow> [])) X = Ok ps"
      "plans = ps @ remaining_plans None declared regroup (concat (map snd (filter (\<lambda>e. fst e \<notin> fst ` set X) D)))"
    using assms(2) by (auto simp: scan_plans_def case_prod_unfold)
  have "mset (concat (map (run_plan c) ps)) = (\<Sum>e\<leftarrow>X. G (fst e) (at_key [] D (fst e)))"
  proof (rule try_map_rows [OF ps(1)])
    fix e p
    assume e: "e \<in> set X" "(case e of (k, d) \<Rightarrow> partition_plan env None d (case map_of D k of Some fs \<Rightarrow> fs | None \<Rightarrow> [])) = Ok p"
    obtain k d where kd: "e = (k, d)" by (cases e)
    have "k \<in> fst ` set D" using e(1) grouped(3) by (force simp: kd)
    then obtain fs where fs: "(k, fs) \<in> set D" by auto
    have d: "d = deletes_at X k" using at_key_Some [OF grouped(2), of k d] e(1) by (simp add: kd deletes_at_def)
    have at: "at_key [] D k = fs" by (rule at_key_Some [OF grouped(1) fs])
    have "partition_plan env None (deletes_at X k) fs = Ok p" using e(2) at by (simp add: kd d at_key_def)
    from partition_plan_rows [OF this assms(4) grouped(5) [OF fs]]
    show "mset (run_plan c p) = G (fst e) (at_key [] D (fst e))"
      using group_rows [OF assms(1,3) fs, of env c] by (simp add: kd at G_def live_def)
  qed
  moreover have "mset (concat (map (run_plan c) (remaining_plans None declared regroup (concat (map snd (filter (\<lambda>e. fst e \<notin> fst ` set X) D))))))
      = (\<Sum>e\<leftarrow>filter (\<lambda>e. fst e \<notin> fst ` set X) D. G (fst e) (snd e))"
  proof -
    have "(\<Sum>f\<leftarrow>concat (map snd (filter (\<lambda>e. fst e \<notin> fst ` set X) D)). mset (rows_of c f))
        = (\<Sum>e\<leftarrow>filter (\<lambda>e. fst e \<notin> fst ` set X) D. \<Sum>f\<leftarrow>snd e. mset (rows_of c f))"
      by (induction D) simp_all
    also have "\<dots> = (\<Sum>e\<leftarrow>filter (\<lambda>e. fst e \<notin> fst ` set X) D. G (fst e) (snd e))"
      using no_deletes_keep_rows [OF assms(1,3), of _ _ _ env c]
      by (intro arg_cong [where f = sum_list] map_cong refl) (auto simp: G_def live_def intro!: arg_cong [where f = sum_list] map_cong)
    finally show ?thesis unfolding run_remaining [OF assms(5)] .
  qed
  ultimately have "mset (concat (map (run_plan c) plans)) = (\<Sum>e\<leftarrow>D. G (fst e) (snd e))"
    using sum_by_keys [OF grouped(1,2,3), of G] by (simp add: ps(2))
  also have "\<dots> = (\<Sum>f\<leftarrow>concat (map snd D). kept_rows env c spec_ids specs live f)"
    by (induction D) (simp_all add: G_def)
  also have "\<dots> = (\<Sum>f\<leftarrow>filter (\<lambda>f. content_of f = Data) live. kept_rows env c spec_ids specs live f)"
    unfolding sum_mset_sum_list [symmetric] mset_map grouped(4) [folded live_def] ..
  finally show ?thesis .
qed

text \<open>
  C13. A scan without a limit reads exactly the rows that are not deleted: if the files are grouped
  and the plans are built, then the plans together return, with multiplicity, the rows of the live
  data files that no applicable live delete file deletes. Neither the order in which the groups are
  drained or the vectors are loaded, nor the dealing out of small groups or the split by sort order
  adds, drops or repeats a row.
\<close>

theorem scan_reads_the_undeleted_rows:
  assumes "group_content_files order spec_ids specs changed files = Ok (D, X)"
    "scan_plans env None declared regroup D X = Ok plans"
    "\<And>gs. mset (order gs) = mset gs" "\<And>vs. mset (se_order env vs) = mset vs" "\<And>fs. mset (regroup fs) = mset fs"
  shows "mset (concat (map (run_plan c) plans)) =
    (\<Sum>f\<leftarrow>filter (\<lambda>f. content_of f = Data \<and> scan_manifest_entry (snd f) changed) files.
       kept_rows env c spec_ids specs (filter (\<lambda>f. scan_manifest_entry (snd f) changed) files) f)"
  using scan_rows_lemma [OF assms] by (simp add: conj_commute)

text \<open>Three rows, of which an equality delete removes the first and a position delete the last.\<close>

definition sample_content :: "content \<Rightarrow> string \<Rightarrow> i64 \<Rightarrow> content_file" where
  "sample_content content path sequence =
     (''m'', \<lparr>me_format_version = V2, me_status = Added, me_snapshot_id = None, me_sequence_number = Some sequence,
        me_data_file =
          \<lparr>df_content = content, df_file_path = path, df_file_format = Parquet,
           df_partition = StructValue [] [], df_record_count = 3, df_file_size_in_bytes = 10,
           df_column_sizes = None, df_value_counts = None, df_null_value_counts = None,
           df_nan_value_counts = None, df_distinct_counts = None, df_lower_bounds = None,
           df_upper_bounds = None, df_key_metadata = None, df_split_offsets = None,
           df_equality_ids = (if content = EqualityDeletes then Some [1] else None),
           df_sort_order_id = None, df_first_row_id = None, df_referenced_data_file = None,
           df_content_offset = None, df_content_size_in_bytes = None\<rparr>\<rparr>)"

definition sample_contents :: file_contents where
  "sample_contents =
     \<lparr>fc_rows = (\<lambda>p. if p = ''a'' then [[1 \<mapsto> VInt 7], [1 \<mapsto> VInt 8], [1 \<mapsto> VInt 9]] else [[1 \<mapsto> VInt 7]]),
      fc_positions = (\<lambda>p. [(''a'', 2)])\<rparr>"

definition sample_env :: scan_env where
  "sample_env = \<lparr>se_roaring = sample_roaring, se_get_range = (\<lambda>p a b. Ok []), se_order = (\<lambda>vs. vs)\<rparr>"

definition sample_files :: "content_file list" where
  "sample_files = [sample_content Data ''a'' 1, sample_content EqualityDeletes ''e'' 2, sample_content PositionDeletes ''p'' 2]"

lemma sample_groups:
  "group_content_files (\<lambda>gs. gs) [''m'' \<mapsto> 0] [0 \<mapsto> \<lparr>ps_spec_id = 0, ps_fields = []\<rparr>] False sample_files
     = Ok ([((0, StructValue [] []), [sample_content Data ''a'' 1])],
           [((0, StructValue [] []),
             \<lparr>di_equality = [sample_content EqualityDeletes ''e'' 2], di_position = [sample_content PositionDeletes ''p'' 2]\<rparr>)])"
  by (simp add: group_content_files_def sample_files_def group_step_def scan_manifest_entry_def scan_manifest_status_def
      sample_content_def spec_of_def ok_or_def file_groups_new_def delete_index_new_def coalesce_def add_global_def
      MAX_GLOBAL_DELETE_APPLICATIONS_def Let_def)

definition sample_plan :: "nat option \<Rightarrow> plan" where
  "sample_plan limit =
     PositionAntiJoin [sample_content PositionDeletes ''p'' 2]
       (EqualityAntiJoin limit [1] (sample_content EqualityDeletes ''e'' 2) (ScanData limit [sample_content Data ''a'' 1]))"

lemma sample_scan:
  "scan_plans sample_env limit None (\<lambda>fs. fs) [((0, StructValue [] []), [sample_content Data ''a'' 1])]
     [((0, StructValue [] []),
       \<lparr>di_equality = [sample_content EqualityDeletes ''e'' 2], di_position = [sample_content PositionDeletes ''p'' 2]\<rparr>)]
   = Ok [sample_plan limit]"
  by (simp add: scan_plans_def partition_plan_def sort_by_sequence_def equality_step_def unwrap_def union_with_def
      apply_position_deletes_def position_kind_def position_scan_def ok_or_def remaining_plans_def sample_content_def
      sample_plan_def Let_def)

lemma sample_run:
  "run_plan sample_contents (sample_plan None) =
     [\<lparr>sr_path = ''a'', sr_position = 1, sr_sequence = 1, sr_values = [1 \<mapsto> VInt 8]\<rparr>]"
  by (simp add: sample_plan_def sample_content_def sample_contents_def rows_of_def limited_def equality_matches_def
      position_matches_def Let_def eval_nat_numeral)

theorem scan_reads_the_undeleted_rows_witness:
  "(\<Sum>f\<leftarrow>filter (\<lambda>f. content_of f = Data \<and> scan_manifest_entry (snd f) False) sample_files.
       kept_rows sample_env sample_contents [''m'' \<mapsto> 0] [0 \<mapsto> \<lparr>ps_spec_id = 0, ps_fields = []\<rparr>]
         (filter (\<lambda>f. scan_manifest_entry (snd f) False) sample_files) f)
     = {#\<lparr>sr_path = ''a'', sr_position = 1, sr_sequence = 1, sr_values = [1 \<mapsto> VInt 8]\<rparr>#}"
  using scan_reads_the_undeleted_rows [OF sample_groups sample_scan [of None], of sample_contents]
  by (simp add: sample_run sample_env_def)

text \<open>
  A limit is also put on the scans below the joins. With \<open>LIMIT 1\<close> the delete file is read up to
  its first row only, so that the row its second row deletes comes back.
\<close>

definition two_deletes :: file_contents where
  "two_deletes =
     \<lparr>fc_rows = (\<lambda>p. if p = ''a'' then [[1 \<mapsto> VInt 8]] else [[1 \<mapsto> VInt 7], [1 \<mapsto> VInt 8]]), fc_positions = (\<lambda>p. [])\<rparr>"

lemma limit_revives_deleted_rows:
  "group_content_files (\<lambda>gs. gs) [''m'' \<mapsto> 0] [0 \<mapsto> \<lparr>ps_spec_id = 0, ps_fields = []\<rparr>] False sample_files = Ok (D, X)
     \<Longrightarrow> (\<exists>p. scan_plans sample_env (Some 1) None (\<lambda>fs. fs) D X = Ok [p] \<and> length (run_plan two_deletes p) = 1)
       \<and> (\<exists>p. scan_plans sample_env None None (\<lambda>fs. fs) D X = Ok [p] \<and> run_plan two_deletes p = [])"
  by (simp add: sample_groups, elim conjE, hypsubst_thin, unfold sample_scan)
    (simp add: sample_plan_def sample_content_def two_deletes_def rows_of_def limited_def equality_matches_def position_matches_def Let_def)

end
