(* ===== verification/Metrics.thy ===== *)
theory Metrics
  imports Rectangle
begin

text \<open>
  Metrics of data files (\<open>iceberg-rust/src/file_format/metrics.rs\<close>): the modes that table
  properties choose, and the bounds that a mode shortens. A character is its code point; the bytes
  of a string are its UTF-8.
\<close>

section \<open>Modes\<close>

definition DEFAULT_TRUNCATE_LENGTH :: nat where "DEFAULT_TRUNCATE_LENGTH = 16"
definition DEFAULT_MAX_INFERRED_COLUMN_DEFAULTS :: nat where "DEFAULT_MAX_INFERRED_COLUMN_DEFAULTS = 100"
definition WRITE_METADATA_METRICS_DEFAULT :: string where
  "WRITE_METADATA_METRICS_DEFAULT = ''write.metadata.metrics.default''"
definition WRITE_METADATA_METRICS_COLUMN_PREFIX :: string where
  "WRITE_METADATA_METRICS_COLUMN_PREFIX = ''write.metadata.metrics.column.''"
definition WRITE_METADATA_METRICS_MAX_INFERRED_COLUMN_DEFAULTS :: string where
  "WRITE_METADATA_METRICS_MAX_INFERRED_COLUMN_DEFAULTS = ''write.metadata.metrics.max-inferred-column-defaults''"

datatype metrics_mode = NoMetrics | Counts | TruncateTo nat | FullMetrics

definition MetricsMode_parse :: "string \<Rightarrow> metrics_mode option" where
  "MetricsMode_parse v =
     (let value = to_ascii_lowercase (str_trim v)
      in if value = ''none'' then Some NoMetrics
         else if value = ''counts'' then Some Counts
         else if value = ''full'' then Some FullMetrics
         else Option.bind (str_strip_prefix ''truncate('' value) (\<lambda>rest.
              Option.bind (str_strip_suffix '')'' rest) (\<lambda>digits.
              Option.bind (parse_u64 (str_trim digits)) (\<lambda>n.
              if n > 0 then Some (TruncateTo n) else None))))"

definition records_counts :: "metrics_mode \<Rightarrow> bool" where
  "records_counts m \<longleftrightarrow> m \<noteq> NoMetrics"

definition records_bounds :: "metrics_mode \<Rightarrow> bool" where
  "records_bounds m \<longleftrightarrow> (case m of TruncateTo _ \<Rightarrow> True | FullMetrics \<Rightarrow> True | _ \<Rightarrow> False)"

record metrics_config =
  mc_default_mode :: metrics_mode
  mc_column_modes :: "string \<rightharpoonup> metrics_mode"
  mc_max_inferred_column_defaults :: nat

definition MetricsConfig_default :: metrics_config where
  "MetricsConfig_default =
     \<lparr>mc_default_mode = TruncateTo DEFAULT_TRUNCATE_LENGTH, mc_column_modes = Map.empty,
      mc_max_inferred_column_defaults = DEFAULT_MAX_INFERRED_COLUMN_DEFAULTS\<rparr>"

definition or_default :: "'a \<Rightarrow> 'a option \<Rightarrow> 'a" where
  "or_default d x = (case x of Some y \<Rightarrow> y | None \<Rightarrow> d)"

text \<open>A column has the mode of the one property that names it; no two keys name the same column.\<close>

definition from_table_properties :: "(string \<rightharpoonup> string) \<Rightarrow> metrics_config" where
  "from_table_properties props =
     \<lparr>mc_default_mode = or_default (TruncateTo DEFAULT_TRUNCATE_LENGTH)
        (Option.bind (props WRITE_METADATA_METRICS_DEFAULT) MetricsMode_parse),
      mc_column_modes = (\<lambda>c. Option.bind (props (WRITE_METADATA_METRICS_COLUMN_PREFIX @ c)) MetricsMode_parse),
      mc_max_inferred_column_defaults = or_default DEFAULT_MAX_INFERRED_COLUMN_DEFAULTS
        (Option.bind (props WRITE_METADATA_METRICS_MAX_INFERRED_COLUMN_DEFAULTS) parse_u64)\<rparr>"

definition mode_for :: "metrics_config \<Rightarrow> string \<Rightarrow> nat option \<Rightarrow> metrics_mode" where
  "mode_for config column_name top_level_index =
     (case mc_column_modes config column_name of
        Some mode \<Rightarrow> mode
      | None \<Rightarrow>
          (case top_level_index of
             Some i \<Rightarrow> if i \<ge> mc_max_inferred_column_defaults config then NoMetrics else mc_default_mode config
           | None \<Rightarrow> mc_default_mode config))"

section \<open>Characters\<close>

definition utf8_encode :: "nat \<Rightarrow> nat list" where
  "utf8_encode c =
     (if c < 128 then [c]
      else if c < 2048 then [192 + c div 64, 128 + c mod 64]
      else if c < 65536 then [224 + c div 4096, 128 + (c div 64) mod 64, 128 + c mod 64]
      else [240 + c div 262144, 128 + (c div 4096) mod 64, 128 + (c div 64) mod 64, 128 + c mod 64])"

fun utf8_decode :: "nat list \<Rightarrow> nat list" where
  "utf8_decode [] = []"
| "utf8_decode (a # bs) =
     (if a < 128 then a # utf8_decode bs
      else case bs of
        [] \<Rightarrow> []
      | b # cs \<Rightarrow>
          if a \<le> 223 then ((a - 192) * 64 + (b - 128)) # utf8_decode cs
          else case cs of
            [] \<Rightarrow> []
          | c # ds \<Rightarrow>
              if a \<le> 239 then ((a - 224) * 4096 + (b - 128) * 64 + (c - 128)) # utf8_decode ds
              else case ds of
                [] \<Rightarrow> []
              | d # es \<Rightarrow> ((a - 240) * 262144 + (b - 128) * 4096 + (c - 128) * 64 + (d - 128)) # utf8_decode es)"

definition string_chars :: "string \<Rightarrow> nat list" where
  "string_chars s = utf8_decode (map of_char s)"

definition chars_string :: "nat list \<Rightarrow> string" where
  "chars_string cs = map char_of (concat (map utf8_encode cs))"

text \<open>The next scalar value; the surrogates are not characters.\<close>

definition is_scalar_value :: "nat \<Rightarrow> bool" where
  "is_scalar_value c \<longleftrightarrow> c < 1114112 \<and> \<not> (55296 \<le> c \<and> c \<le> 57343)"

definition next_char :: "nat \<Rightarrow> nat option" where
  "next_char c =
     (let code = (if 55296 \<le> c + 1 \<and> c + 1 \<le> 57343 then 57344 else c + 1)
      in if is_scalar_value code then Some code else None)"

section \<open>Bounds\<close>

definition truncate_lower_bound :: "ice_value \<Rightarrow> nat \<Rightarrow> ice_value" where
  "truncate_lower_bound v n =
     (case v of
        VString s \<Rightarrow> VString (chars_string (take n (string_chars s)))
      | VBinary bs \<Rightarrow> VBinary (take n bs)
      | _ \<Rightarrow> v)"

text \<open>The loops pop from the end: the list is reversed here.\<close>

fun increment_chars :: "nat list \<Rightarrow> nat list option" where
  "increment_chars [] = None"
| "increment_chars (c # rest) =
     (case next_char c of Some c' \<Rightarrow> Some (rev (c' # rest)) | None \<Rightarrow> increment_chars rest)"

fun increment_bytes :: "byte list \<Rightarrow> byte list option" where
  "increment_bytes [] = None"
| "increment_bytes (c # rest) = (if c \<noteq> 255 then Some (rev ((c + 1) # rest)) else increment_bytes rest)"

definition truncate_upper_bound :: "ice_value \<Rightarrow> nat \<Rightarrow> ice_value option" where
  "truncate_upper_bound v n =
     (case v of
        VString s \<Rightarrow>
          if length (string_chars s) \<le> n then Some (VString s)
          else map_option (\<lambda>cs. VString (chars_string cs)) (increment_chars (rev (take n (string_chars s))))
      | VBinary bs \<Rightarrow>
          if length bs \<le> n then Some (VBinary bs)
          else map_option VBinary (increment_bytes (rev (take n bs)))
      | _ \<Rightarrow> Some v)"

section \<open>UTF-8 keeps the order of characters\<close>

text \<open>One list is below another when they differ, at a position both have.\<close>

fun below :: "nat list \<Rightarrow> nat list \<Rightarrow> bool" where
  "below (x # xs) (y # ys) \<longleftrightarrow> x < y \<or> x = y \<and> below xs ys"
| "below _ _ \<longleftrightarrow> False"

lemma below_append [simp]: "below (p @ xs) (p @ ys) = below xs ys"
  by (induction p) auto

lemma below_extend: "below xs ys \<Longrightarrow> below (xs @ us) (ys @ vs)"
  by (induction xs ys rule: below.induct) auto

text \<open>The digits of a number to the base 64.\<close>

lemma base64_2:
  fixes c d :: nat
  assumes "c < d"
  shows "c div 64 < d div 64 \<or> c div 64 = d div 64 \<and> c mod 64 < d mod 64"
proof -
  have "c div 64 \<le> d div 64" using assms by (simp add: div_le_mono)
  moreover have "c mod 64 < d mod 64" if "c div 64 = d div 64"
    using assms that mult_div_mod_eq [of 64 c] mult_div_mod_eq [of 64 d] by linarith
  ultimately show ?thesis by linarith
qed

lemma base64_3:
  fixes c d :: nat
  assumes "c < d"
  shows "c div 4096 < d div 4096 \<or> c div 4096 = d div 4096 \<and>
    ((c div 64) mod 64 < (d div 64) mod 64 \<or> (c div 64) mod 64 = (d div 64) mod 64 \<and> c mod 64 < d mod 64)"
  using base64_2 [OF assms] base64_2 [of "c div 64" "d div 64"] by (auto simp: div_mult2_eq [of _ 64 64, simplified])

lemma base64_4:
  fixes c d :: nat
  assumes "c < d"
  shows "c div 262144 < d div 262144 \<or> c div 262144 = d div 262144 \<and>
    ((c div 4096) mod 64 < (d div 4096) mod 64 \<or> (c div 4096) mod 64 = (d div 4096) mod 64 \<and>
      ((c div 64) mod 64 < (d div 64) mod 64 \<or> (c div 64) mod 64 = (d div 64) mod 64 \<and> c mod 64 < d mod 64))"
  using base64_3 [OF assms] base64_2 [of "c div 4096" "d div 4096"]
  by (auto simp: div_mult2_eq [of _ 4096 64, simplified])

lemma utf8_encode_mono:
  assumes "c < d" "d < 1114112"
  shows "below (utf8_encode c) (utf8_encode d)"
proof -
  have lead: "c < 2048 \<Longrightarrow> c div 64 < 32" "c < 65536 \<Longrightarrow> c div 4096 < 16" for c :: nat by simp_all
  consider "d < 128" | "c < 128" "128 \<le> d" | "128 \<le> c" "d < 2048"
    | "128 \<le> c" "c < 2048" "2048 \<le> d" | "2048 \<le> c" "d < 65536" | "2048 \<le> c" "c < 65536" "65536 \<le> d" | "65536 \<le> c"
    using assms by linarith
  then show ?thesis
  proof cases
    case 3
    then show ?thesis using assms base64_2 [OF assms(1)] by (simp add: utf8_encode_def)
  next
    case 5
    then show ?thesis using assms base64_3 [OF assms(1)] by (simp add: utf8_encode_def)
  next
    case 7
    then show ?thesis using assms base64_4 [OF assms(1)] by (simp add: utf8_encode_def)
  qed (use assms lead [of c] in \<open>auto simp: utf8_encode_def\<close>)
qed

section \<open>Decoding and encoding\<close>

lemma base64_digit:
  fixes x y :: nat
  assumes "y < 64"
  shows "(x * 64 + y) div 64 = x" "(x * 64 + y) mod 64 = y"
  using assms by auto

lemma continuation:
  assumes "cont b"
  obtains y where "b = 128 + y" "y < 64"
proof -
  have "b = 128 + (b - 128)" "b - 128 < 64" using assms by (auto simp: cont_def)
  then show thesis by (rule that)
qed

lemma encode_2:
  assumes "194 \<le> a" "a \<le> 223" "cont b"
  shows "utf8_encode ((a - 192) * 64 + (b - 128)) = [a, b]"
    "is_scalar_value ((a - 192) * 64 + (b - 128))"
proof -
  obtain x where x: "a = 194 + x" using assms(1) le_Suc_ex by blast
  obtain y where y: "b = 128 + y" "y < 64" using assms(3) by (rule continuation)
  have "((2 + x) * 64 + y) div 64 = 2 + x" "((2 + x) * 64 + y) mod 64 = y" by (rule base64_digit [OF y(2)])+
  moreover have "x \<le> 29" using assms(2) x by simp
  ultimately show "utf8_encode ((a - 192) * 64 + (b - 128)) = [a, b]" "is_scalar_value ((a - 192) * 64 + (b - 128))"
    using y(2) by (simp_all add: x y(1) utf8_encode_def is_scalar_value_def)
qed

lemma encode_3:
  assumes "224 \<le> a" "a \<le> 239" "a = 224 \<longrightarrow> 160 \<le> b" "a = 237 \<longrightarrow> b \<le> 159" "cont b" "cont c"
  shows "utf8_encode ((a - 224) * 4096 + (b - 128) * 64 + (c - 128)) = [a, b, c]"
    "is_scalar_value ((a - 224) * 4096 + (b - 128) * 64 + (c - 128))"
proof -
  obtain x where x: "a = 224 + x" using assms(1) le_Suc_ex by blast
  obtain y where y: "b = 128 + y" "y < 64" using assms(5) by (rule continuation)
  obtain z where z: "c = 128 + z" "z < 64" using assms(6) by (rule continuation)
  define n where "n = (x * 64 + y) * 64 + z"
  have n: "n div 64 = x * 64 + y" "n mod 64 = z" "(x * 64 + y) div 64 = x" "(x * 64 + y) mod 64 = y"
    unfolding n_def by (rule base64_digit [OF z(2)] base64_digit [OF y(2)])+
  then have top: "n div 4096 = x" using div_mult2_eq [of n 64 64] by simp
  have arg: "(a - 224) * 4096 + (b - 128) * 64 + (c - 128) = n" by (simp add: n_def x y(1) z(1))
  have "x < 16" using assms(2) x by simp
  have small: "2048 \<le> n \<and> n < 65536 \<and> \<not> (55296 \<le> n \<and> n \<le> 57343)"
  proof -
    have "x = 0 \<Longrightarrow> 32 \<le> y" "x = 13 \<Longrightarrow> y \<le> 31" using assms(3,4) x y(1) by auto
    moreover have "x = 0 \<or> 1 \<le> x \<and> x \<le> 12 \<or> x = 13 \<or> 14 \<le> x" by linarith
    ultimately consider "x = 0" "32 \<le> y" | "1 \<le> x" "x \<le> 12" | "x = 13" "y \<le> 31" | "14 \<le> x" by blast
    then show ?thesis using \<open>x < 16\<close> y(2) z(2) unfolding n_def by cases simp_all
  qed
  show "utf8_encode ((a - 224) * 4096 + (b - 128) * 64 + (c - 128)) = [a, b, c]"
    unfolding arg using small n top by (simp add: utf8_encode_def x y(1) z(1))
  show "is_scalar_value ((a - 224) * 4096 + (b - 128) * 64 + (c - 128))"
    unfolding arg using small by (simp add: is_scalar_value_def)
qed

lemma encode_4:
  assumes "240 \<le> a" "a \<le> 244" "a = 240 \<longrightarrow> 144 \<le> b" "a = 244 \<longrightarrow> b \<le> 143" "cont b" "cont c" "cont d"
  shows "utf8_encode ((a - 240) * 262144 + (b - 128) * 4096 + (c - 128) * 64 + (d - 128)) = [a, b, c, d]"
    "is_scalar_value ((a - 240) * 262144 + (b - 128) * 4096 + (c - 128) * 64 + (d - 128))"
proof -
  obtain w where w: "a = 240 + w" using assms(1) le_Suc_ex by blast
  obtain x where x: "b = 128 + x" "x < 64" using assms(5) by (rule continuation)
  obtain y where y: "c = 128 + y" "y < 64" using assms(6) by (rule continuation)
  obtain z where z: "d = 128 + z" "z < 64" using assms(7) by (rule continuation)
  define n where "n = ((w * 64 + x) * 64 + y) * 64 + z"
  have n: "n div 64 = (w * 64 + x) * 64 + y" "n mod 64 = z" "((w * 64 + x) * 64 + y) div 64 = w * 64 + x"
      "((w * 64 + x) * 64 + y) mod 64 = y" "(w * 64 + x) div 64 = w" "(w * 64 + x) mod 64 = x"
    unfolding n_def by (rule base64_digit [OF z(2)] base64_digit [OF y(2)] base64_digit [OF x(2)])+
  then have top: "n div 4096 = w * 64 + x" "n div 262144 = w"
    using div_mult2_eq [of n 64 64] div_mult2_eq [of n 4096 64] by simp_all
  have arg: "(a - 240) * 262144 + (b - 128) * 4096 + (c - 128) * 64 + (d - 128) = n"
    by (simp add: n_def w x(1) y(1) z(1))
  have "w \<le> 4" using assms(2) w by simp
  have small: "65536 \<le> n \<and> n < 1114112"
  proof -
    have "w = 0 \<Longrightarrow> 16 \<le> x" "w = 4 \<Longrightarrow> x \<le> 15" using assms(3,4) w x(1) by auto
    moreover have "w = 0 \<or> 1 \<le> w \<and> w \<le> 3 \<or> w = 4" using \<open>w \<le> 4\<close> by linarith
    ultimately consider "w = 0" "16 \<le> x" | "1 \<le> w" "w \<le> 3" | "w = 4" "x \<le> 15" by blast
    then show ?thesis using x(2) y(2) z(2) unfolding n_def by cases simp_all
  qed
  show "utf8_encode ((a - 240) * 262144 + (b - 128) * 4096 + (c - 128) * 64 + (d - 128)) = [a, b, c, d]"
    unfolding arg using small n top by (simp add: utf8_encode_def w x(1) y(1) z(1))
  show "is_scalar_value ((a - 240) * 262144 + (b - 128) * 4096 + (c - 128) * 64 + (d - 128))"
    unfolding arg using small by (simp add: is_scalar_value_def)
qed

text \<open>The four forms of a sequence that begins with a byte.\<close>

lemma utf8_valid_cases:
  assumes "utf8_valid (a # bs)"
  obtains (one) "a < 128" "utf8_valid bs"
    | (two) b cs where "bs = b # cs" "194 \<le> a" "a \<le> 223" "cont b" "utf8_valid cs"
    | (three) b c cs where "bs = b # c # cs" "224 \<le> a" "a \<le> 239" "a = 224 \<longrightarrow> 160 \<le> b" "a = 237 \<longrightarrow> b \<le> 159"
        "cont b" "cont c" "utf8_valid cs"
    | (four) b c d cs where "bs = b # c # d # cs" "240 \<le> a" "a \<le> 244" "a = 240 \<longrightarrow> 144 \<le> b"
        "a = 244 \<longrightarrow> b \<le> 143" "cont b" "cont c" "cont d" "utf8_valid cs"
proof (cases "a < 128")
  case True
  then show thesis using assms one by simp
next
  case a: False
  then obtain b bs2 where b: "bs = b # bs2" using assms by (cases bs) auto
  show thesis
  proof (cases "194 \<le> a \<and> a \<le> 223")
    case True
    then show thesis using assms a b two by simp
  next
    case a2: False
    then obtain c bs3 where c: "bs2 = c # bs3" using assms a b by (cases bs2) auto
    show thesis
    proof (cases "224 \<le> a \<and> a \<le> 239")
      case True
      then show thesis using assms a b c a2 three by simp
    next
      case a3: False
      then obtain d bs4 where "bs3 = d # bs4" using assms a b c a2 by (cases bs3) auto
      then show thesis using assms a b c a2 a3 four by simp
    qed
  qed
qed

lemma utf8_decode_encode:
  "utf8_valid bs \<Longrightarrow> concat (map utf8_encode (utf8_decode bs)) = bs \<and> (\<forall>c \<in> set (utf8_decode bs). is_scalar_value c)"
proof (induction bs rule: length_induct)
  case (1 bs)
  show ?case
  proof (cases bs)
    case (Cons a rest)
    with 1(2) have "utf8_valid (a # rest)" by simp
    then show ?thesis
    proof (cases rule: utf8_valid_cases)
      case one
      then have "utf8_encode a = [a]" "is_scalar_value a" by (simp_all add: utf8_encode_def is_scalar_value_def)
      with 1(1) [rule_format, of rest] one show ?thesis by (simp add: Cons)
    next
      case (two b cs)
      with 1(1) [rule_format, of cs] encode_2 [OF two(2,3,4)] show ?thesis by (simp add: Cons)
    next
      case (three b c cs)
      with 1(1) [rule_format, of cs] encode_3 [OF three(2-7)] show ?thesis by (simp add: Cons)
    next
      case (four b c d cs)
      with 1(1) [rule_format, of cs] encode_4 [OF four(2-8)] show ?thesis by (simp add: Cons)
    qed
qed simp
qed

section \<open>Truncated bounds bound\<close>

lemma bytes_enc_below: "below xs ys \<Longrightarrow> bytes_enc xs < bytes_enc ys"
  by (induction xs ys rule: below.induct) (auto simp: bytes_enc_def)

lemma bytes_enc_prefix: "bytes_enc xs \<le> bytes_enc (xs @ ys)"
proof (induction xs)
  case Nil
  then show ?case by (cases ys) (simp_all add: bytes_enc_def)
next
  case (Cons x xs)
  then show ?case by (simp add: bytes_enc_def)
qed

lemma next_char_greater: "next_char c = Some d \<Longrightarrow> c < d \<and> d < 1114112"
  by (auto simp: next_char_def is_scalar_value_def Let_def split: if_splits)

lemma increment_chars_Some:
  "increment_chars cs = Some ds \<Longrightarrow>
     \<exists>p c d q. rev cs = p @ c # q \<and> ds = p @ [d] \<and> c < d \<and> d < 1114112 \<and> length ds \<le> length cs"
proof (induction cs)
  case (Cons c cs)
  show ?case
  proof (cases "next_char c")
    case None
    with Cons obtain p e d q where "rev cs = p @ e # q" "ds = p @ [d]" "e < d" "d < 1114112" "length ds \<le> length cs" by auto
    then show ?thesis by (intro exI [of _ p] exI [of _ e] exI [of _ d] exI [of _ "q @ [c]"]) simp
  next
    case (Some d)
    with Cons next_char_greater [OF Some] show ?thesis by auto
  qed
qed simp

lemma increment_bytes_Some:
  "increment_bytes bs = Some ds \<Longrightarrow>
     \<exists>p c d q. rev bs = p @ c # q \<and> ds = p @ [d] \<and> unat c < unat d \<and> length ds \<le> length bs"
proof (induction bs)
  case (Cons c bs)
  show ?case
  proof (cases "c = 255")
    case True
    with Cons obtain p e d q where "rev bs = p @ e # q" "ds = p @ [d]" "unat e < unat d" "length ds \<le> length bs" by auto
    then show ?thesis by (intro exI [of _ p] exI [of _ e] exI [of _ d] exI [of _ "q @ [c]"]) simp
  next
    case False
    then have "unat c < unat (c + 1)" by unat_arith (auto simp: not_less)
    with Cons False show ?thesis by auto
  qed
qed simp

lemma chars_below:
  assumes "c < d" "d < 1114112"
  shows "below (concat (map utf8_encode (p @ c # q))) (concat (map utf8_encode (p @ [d])))"
  using below_extend [OF utf8_encode_mono [OF assms], of "concat (map utf8_encode q)" "[]"] by simp

definition text_valid :: "ice_value \<Rightarrow> bool" where
  "text_valid v = (case v of VString s \<Rightarrow> utf8_valid (map of_char s) | _ \<Rightarrow> True)"

lemma chars_string_bytes:
  "\<forall>c \<in> set cs. c < 1114112 \<Longrightarrow> map of_char (chars_string cs) = concat (map utf8_encode cs)"
proof (induction cs)
  case (Cons c cs)
  have "\<forall>b \<in> set (utf8_encode c). b < 256" using Cons.prems by (auto simp: utf8_encode_def)
  then have "map (of_char \<circ> char_of) (utf8_encode c) = utf8_encode c"
    by (intro map_idI) simp
  with Cons show ?case by (simp add: chars_string_def)
qed (simp add: chars_string_def)

lemma string_chars_valid:
  assumes "utf8_valid (map of_char s)"
  shows "concat (map utf8_encode (string_chars s)) = map of_char s" "\<forall>c \<in> set (string_chars s). c < 1114112"
  using utf8_decode_encode [OF assms] by (auto simp: string_chars_def is_scalar_value_def)

lemma lower_string_bound:
  assumes "utf8_valid (map of_char s)"
  shows "value_le (VString (chars_string (take n (string_chars s)))) (VString s)"
proof -
  have "\<forall>c \<in> set (take n (string_chars s)). c < 1114112" using string_chars_valid(2) [OF assms] in_set_takeD by fast
  moreover have "map of_char s = concat (map utf8_encode (take n (string_chars s))) @ concat (map utf8_encode (drop n (string_chars s)))"
    unfolding string_chars_valid(1) [OF assms, symmetric] by (metis append_take_drop_id concat_append map_append)
  ultimately show ?thesis
    by (simp add: value_le_def chars_string_bytes bytes_enc_prefix)
qed

lemma upper_string_bound:
  assumes "utf8_valid (map of_char s)" "increment_chars (rev (take n (string_chars s))) = Some ds"
  shows "value_le (VString s) (VString (chars_string ds))" "length ds \<le> n"
proof -
  obtain p c d q where p: "take n (string_chars s) = p @ c # q" "ds = p @ [d]" "c < d" "d < 1114112"
      "length ds \<le> length (take n (string_chars s))"
    using increment_chars_Some [OF assms(2)] by auto
  have s: "string_chars s = p @ c # (q @ drop n (string_chars s))"
    using append_take_drop_id [of n "string_chars s"] p(1) by simp
  have "\<forall>x \<in> set ds. x < 1114112"
  proof -
    have "set p \<subseteq> set (string_chars s)" by (subst s) auto
    then show ?thesis using string_chars_valid(2) [OF assms(1)] p(2,4) by auto
  qed
  then have "map of_char (chars_string ds) = concat (map utf8_encode ds)" by (rule chars_string_bytes)
  moreover have "below (map of_char s) (concat (map utf8_encode ds))"
    using chars_below [OF p(3,4), of p "q @ drop n (string_chars s)"] s string_chars_valid(1) [OF assms(1)]
    by (simp only: p(2))
  ultimately have "bytes_enc (map of_char s) < bytes_enc (map of_char (chars_string ds))"
    using bytes_enc_below by simp
  then show "value_le (VString s) (VString (chars_string ds))" by (simp add: value_le_def)
  show "length ds \<le> n" using p(5) by simp
qed

lemma upper_bytes_bound:
  assumes "increment_bytes (rev (take n bs)) = Some ds"
  shows "value_le (VBinary bs) (VBinary ds)" "length ds \<le> n"
proof -
  obtain p c d q where p: "take n bs = p @ c # q" "ds = p @ [d]" "unat c < unat d" "length ds \<le> length (take n bs)"
    using increment_bytes_Some [OF assms] by auto
  have "bs = p @ c # (q @ drop n bs)" using append_take_drop_id [of n bs] p(1) by simp
  then have "map unat bs = map unat p @ unat c # (map unat q @ map unat (drop n bs))"
    by (metis map_append list.simps(9))
  moreover have "map unat ds = map unat p @ [unat d]" using p(2) by simp
  ultimately have "below (map unat bs) (map unat ds)" using p(3) by simp
  then show "value_le (VBinary bs) (VBinary ds)" using bytes_enc_below [of "map unat bs" "map unat ds"]
    by (simp add: value_le_def)
  show "length ds \<le> n" using p(4) by simp
qed

definition size_at_most :: "nat \<Rightarrow> ice_value \<Rightarrow> bool" where
  "size_at_most n v \<longleftrightarrow>
     (case v of
        VString s \<Rightarrow> (\<exists>cs. s = chars_string cs \<and> length cs \<le> n)
      | VBinary bs \<Rightarrow> length bs \<le> n
      | _ \<Rightarrow> True)"

lemma upper_bound_truncated:
  assumes "truncate_upper_bound v n = Some u" "text_valid v"
  shows "value_le v u \<and> size_at_most n u"
proof (cases v)
  case (VString s)
  then have valid: "utf8_valid (map of_char s)" using assms(2) by (simp add: text_valid_def)
  show ?thesis
  proof (cases "length (string_chars s) \<le> n")
    case True
    have "map char_of (concat (map utf8_encode (string_chars s))) = s"
      unfolding string_chars_valid(1) [OF valid] by (simp add: comp_def)
    then have "chars_string (string_chars s) = s" by (simp add: chars_string_def)
    then show ?thesis using True VString assms(1)
      by (auto simp: truncate_upper_bound_def value_le_def size_at_most_def intro!: exI [of _ "string_chars s"])
  next
    case False
    then obtain ds where "increment_chars (rev (take n (string_chars s))) = Some ds" "u = VString (chars_string ds)"
      using VString assms(1) by (auto simp: truncate_upper_bound_def)
    with upper_string_bound [OF valid this(1)] show ?thesis
      using VString by (auto simp: size_at_most_def)
  qed
next
  case (VBinary bs)
  then show ?thesis using assms(1) upper_bytes_bound [of n bs]
    by (cases "length bs \<le> n") (auto simp: truncate_upper_bound_def value_le_def size_at_most_def)
qed (use assms(1) in \<open>simp_all add: truncate_upper_bound_def value_le_def size_at_most_def, auto simp: size_at_most_def\<close>)

text \<open>
  C24. The metrics mode \<open>truncate(n)\<close> keeps at most \<open>n\<close> characters of a string and \<open>n\<close> bytes of
  binary data, and the truncated bounds still bound: in the order of values (that of the UTF-8
  bytes), every value between the bounds of a column is between the truncated ones. There may be
  no truncated upper bound; then the entry keeps none.
\<close>

theorem truncated_bounds_still_bound:
  assumes "text_valid lower" "text_valid upper" "value_le lower x" "value_le x upper"
  shows "value_le (truncate_lower_bound lower n) x \<and> size_at_most n (truncate_lower_bound lower n)
    \<and> (case truncate_upper_bound upper n of None \<Rightarrow> True | Some u \<Rightarrow> value_le x u \<and> size_at_most n u)"
proof -
  have "value_le (truncate_lower_bound lower n) lower"
  proof (cases lower)
    case (VString s)
    then show ?thesis using assms(1) lower_string_bound by (simp add: truncate_lower_bound_def text_valid_def)
  next
    case (VBinary bs)
    have "map unat bs = map unat (take n bs) @ map unat (drop n bs)"
      by (metis append_take_drop_id map_append)
    then show ?thesis using VBinary bytes_enc_prefix [of "map unat (take n bs)" "map unat (drop n bs)"]
      by (simp add: truncate_lower_bound_def value_le_def)
  qed (simp_all add: truncate_lower_bound_def value_le_def)
  then have "value_le (truncate_lower_bound lower n) x"
    using assms(3) unfolding value_le_def by (rule order_trans)
  moreover have "size_at_most n (truncate_lower_bound lower n)"
    by (cases lower) (auto simp: size_at_most_def truncate_lower_bound_def intro!: exI [of _ "take n (string_chars s)" for s])
  moreover have "case truncate_upper_bound upper n of None \<Rightarrow> True | Some u \<Rightarrow> value_le x u \<and> size_at_most n u"
  proof (cases "truncate_upper_bound upper n")
    case (Some u)
    have "value_le upper u \<and> size_at_most n u" using upper_bound_truncated [OF Some assms(2)] .
    then show ?thesis using Some assms(4) unfolding value_le_def by auto
  qed simp
  ultimately show ?thesis by blast
qed

text \<open>The values from \<open>ab\<close> to \<open>b\<close>, cut to one character.\<close>

theorem truncated_bounds_still_bound_witness:
  "truncate_lower_bound (VString ''ab'') 1 = VString ''a''
     \<and> truncate_upper_bound (VString ''az'') 1 = Some (VString ''b'')
     \<and> value_le (VString ''a'') (VString ''ac'') \<and> value_le (VString ''ac'') (VString ''b'')"
proof -
  have chars: "char_of (97 :: nat) = CHR ''a''" "char_of (98 :: nat) = CHR ''b''" by code_simp+
  have "truncate_lower_bound (VString ''ab'') 1 = VString ''a''" "truncate_upper_bound (VString ''az'') 1 = Some (VString ''b'')"
    by (simp_all add: truncate_lower_bound_def truncate_upper_bound_def string_chars_def chars_string_def utf8_encode_def next_char_def is_scalar_value_def chars)
  moreover have "text_valid (VString ''ab'')" "text_valid (VString ''az'')" by (simp_all add: text_valid_def)
  moreover have "value_le (VString ''ab'') (VString ''ac'')" "value_le (VString ''ac'') (VString ''az'')"
    by (simp_all add: value_le_def bytes_enc_def)
  ultimately show ?thesis using truncated_bounds_still_bound [of "VString ''ab''" "VString ''az''" "VString ''ac''" 1] by simp
qed

end
