(* ===== verification/Parquet_File.thy ===== *)
theory Parquet_File
  imports Metrics Table_Io
begin

text \<open>
  Data files from Parquet metadata (\<open>iceberg-rust/src/file_format/parquet.rs\<close>). The metadata are
  what the accessors of the \<open>parquet\<close> crate return; the arithmetic of \<open>f64\<close> in the estimate of
  distinct counts is a parameter.
\<close>

section \<open>Parquet metadata\<close>

record column_statistics =
  cs_null_count :: "int option"
  cs_distinct_count :: "int option"
  cs_min_bytes :: "byte list option"
  cs_max_bytes :: "byte list option"

datatype physical_type = PhysInt32 | PhysInt64 | PhysByteArray | PhysOther

record column_chunk =
  cc_field_id :: "i32 option"
  cc_column_name :: string
  cc_path :: "string list"
  cc_physical_type :: physical_type
  cc_compressed_size :: i64
  cc_statistics :: "column_statistics option"

record row_group =
  rg_num_rows :: i64
  rg_columns :: "column_chunk list"

record parquet_metadata =
  pm_key_values :: "(string \<times> string option) list option"
  pm_num_rows :: i64
  pm_row_groups :: "row_group list"

definition ICEBERG_SORT_ORDER_ID_META_KEY :: string where
  "ICEBERG_SORT_ORDER_ID_META_KEY = ''iceberg.sort-order-id''"

definition WRITE_METADATA_METRICS_DISTINCT_COUNTS_ENABLED :: string where
  "WRITE_METADATA_METRICS_DISTINCT_COUNTS_ENABLED = ''write.metadata.metrics.distinct-counts.enabled''"

definition attested_sort_order_id :: "parquet_metadata \<Rightarrow> i32 option" where
  "attested_sort_order_id m =
     Option.bind (pm_key_values m) (\<lambda>kvs.
     Option.bind (find (\<lambda>kv. fst kv = ICEBERG_SORT_ORDER_ID_META_KEY) kvs) (\<lambda>kv.
     Option.bind (snd kv) (\<lambda>s. ok (parse_i32 s))))"

definition ROW_ID_FIELD_ID :: i32 where "ROW_ID_FIELD_ID = 2147483647 - 107"
definition LAST_UPDATED_SEQUENCE_NUMBER_FIELD_ID :: i32 where
  "LAST_UPDATED_SEQUENCE_NUMBER_FIELD_ID = 2147483647 - 108"

definition is_row_lineage_field_id :: "i32 \<Rightarrow> bool" where
  "is_row_lineage_field_id i \<longleftrightarrow> i = ROW_ID_FIELD_ID \<or> i = LAST_UPDATED_SEQUENCE_NUMBER_FIELD_ID"

section \<open>Distinct counts\<close>

record 'f f64_lib =
  fl_of_int :: "int \<Rightarrow> 'f"
  fl_sub :: "'f \<Rightarrow> 'f \<Rightarrow> 'f"
  fl_mul :: "'f \<Rightarrow> 'f \<Rightarrow> 'f"
  fl_div :: "'f \<Rightarrow> 'f \<Rightarrow> 'f"
  fl_add :: "'f \<Rightarrow> 'f \<Rightarrow> 'f"
  fl_max :: "'f \<Rightarrow> 'f \<Rightarrow> 'f"
  fl_less :: "'f \<Rightarrow> 'f \<Rightarrow> bool"
  fl_powf :: "'f \<Rightarrow> 'f \<Rightarrow> 'f"
  fl_round_as_i64 :: "'f \<Rightarrow> i64"

text \<open>\<open>T\<close> is \<open>i32\<close> or \<open>i64\<close>: \<open>w\<close> wraps to its width.\<close>

definition range_overlap :: "(int \<Rightarrow> int) \<Rightarrow> int \<times> int \<Rightarrow> int \<times> int \<Rightarrow> int" where
  "range_overlap w old_range new_range =
     w (min (snd old_range) (snd new_range) - max (fst old_range) (fst new_range))"

definition estimate_distinct_count ::
  "'f f64_lib \<Rightarrow> (int \<Rightarrow> int) \<Rightarrow> int \<times> int \<Rightarrow> int \<times> int \<Rightarrow> i64 \<Rightarrow> i64 \<Rightarrow> i64" where
  "estimate_distinct_count fl w old_range new_range old_distinct_count new_distinct_count =
     (let zero = fl_of_int fl 0; one = fl_of_int fl 1;
          new_range_size = fl_of_int fl (w (snd new_range - fst new_range));
          current_range_size = fl_of_int fl (w (snd old_range - fst old_range));
          overlap = range_overlap w old_range new_range;
          overlap_size = (if overlap \<ge> 0 then fl_of_int fl overlap else zero);
          n2 = fl_of_int fl new_distinct_count; n1 = fl_of_int fl old_distinct_count;
          outside_overlap = fl_max fl (fl_mul fl (fl_div fl (fl_sub fl new_range_size overlap_size) new_range_size) n2) zero;
          n2_overlap = fl_max fl (fl_mul fl (fl_div fl overlap_size new_range_size) n2) zero;
          expected_n1_in_overlap = fl_max fl (fl_mul fl (fl_div fl overlap_size current_range_size) n1) zero;
          new_in_overlap = (if fl_less fl zero overlap_size
            then fl_mul fl n2_overlap (fl_powf fl (fl_div fl (fl_sub fl overlap_size one) overlap_size) expected_n1_in_overlap)
            else zero)
      in fl_round_as_i64 fl (fl_add fl outside_overlap new_in_overlap))"

section \<open>Statistics of a file\<close>

text \<open>The last two components are those of a row group.\<close>

record file_stats =
  fs_column_sizes :: "i32 \<rightharpoonup> i64"
  fs_value_counts :: "i32 \<rightharpoonup> i64"
  fs_null_counts :: "i32 \<rightharpoonup> i64"
  fs_distinct :: "(i32 \<rightharpoonup> i64) option"
  fs_lower :: "i32 \<rightharpoonup> ice_value"
  fs_upper :: "i32 \<rightharpoonup> ice_value"
  fs_modes :: "i32 \<rightharpoonup> metrics_mode"
  fs_partition :: struct_value
  fs_counted :: "i32 set"
  fs_variant_nulls :: "i32 \<rightharpoonup> i64"

text \<open>\<open>entry(k).and_modify(f).or_insert(d)\<close>.\<close>

definition upsert :: "('v \<Rightarrow> 'v) \<Rightarrow> 'v \<Rightarrow> 'k \<Rightarrow> ('k \<rightharpoonup> 'v) \<Rightarrow> ('k \<rightharpoonup> 'v)" where
  "upsert f d k m = m(k \<mapsto> (case m k of Some v \<Rightarrow> f v | None \<Rightarrow> d))"

definition is_variant_type :: "ice_type \<Rightarrow> bool" where
  "is_variant_type t \<longleftrightarrow> t = Primitive PVariant"

definition is_container_type :: "ice_type \<Rightarrow> bool" where
  "is_container_type t \<longleftrightarrow> (case t of Primitive _ \<Rightarrow> False | _ \<Rightarrow> True)"

definition is_plain_primitive :: "ice_type \<Rightarrow> bool" where
  "is_plain_primitive t \<longleftrightarrow> (case t of Primitive p \<Rightarrow> p \<noteq> PVariant | _ \<Rightarrow> False)"

definition column_path :: "column_chunk \<Rightarrow> string" where
  "column_path c = join_with ''.'' (cc_path c)"

definition column_id_and_type :: "schema \<Rightarrow> column_chunk \<Rightarrow> (i32 \<times> ice_type, error) outcome" where
  "column_id_and_type schema c =
     rbind (ok_or (SchemaError (cc_column_name c) '''') (StructType_get_name (sch_fields schema) (column_path c))) (\<lambda>f.
     rbind (StructType_get (sch_fields schema) (i32_as_usize (fid f))) (\<lambda>g.
     rbind (ok_or (SchemaError (cc_column_name c) '''') g) (\<lambda>g. Ok (fid f, ftype g))))"

text \<open>Two top-level columns with one name have the index of the last.\<close>

definition top_level_index :: "schema \<Rightarrow> column_chunk \<Rightarrow> nat option" where
  "top_level_index schema c =
     map_of (rev (map (\<lambda>(i, f). (fname f, i)) (enumerate 0 (st_fields (sch_fields schema)))))
       (hd (split_on (CHR ''.'') (column_path c)))"

definition hint_of :: "physical_type \<Rightarrow> physical_type_hint option" where
  "hint_of t =
     (case t of PhysInt32 \<Rightarrow> Some NativeLittleEndian | PhysInt64 \<Rightarrow> Some NativeLittleEndian
      | PhysByteArray \<Rightarrow> Some ByteArray | PhysOther \<Rightarrow> None)"

definition stat_value :: "value_lib \<Rightarrow> ice_type \<Rightarrow> physical_type \<Rightarrow> byte list \<Rightarrow> (ice_value, error) outcome" where
  "stat_value vl t ph bs = map_err Iceberg (try_from_bytes_with_hint vl bs t (hint_of ph))"

subsection \<open>Counts\<close>

definition count_values :: "metrics_mode \<Rightarrow> ice_type \<Rightarrow> i32 \<Rightarrow> i64 \<Rightarrow> i64 \<Rightarrow> file_stats \<Rightarrow> file_stats" where
  "count_values mode t i compressed_size num_rows st =
     (let st = st\<lparr>fs_modes := (fs_modes st)(i \<mapsto> mode),
                  fs_column_sizes := upsert (\<lambda>x. wrap64 (x + compressed_size)) compressed_size i (fs_column_sizes st)\<rparr>;
          multi_leaf = is_variant_type t \<or> is_container_type t
      in if records_counts mode \<and> (multi_leaf \<longrightarrow> i \<notin> fs_counted st)
         then st\<lparr>fs_counted := (if multi_leaf then insert i (fs_counted st) else fs_counted st),
                 fs_value_counts := upsert (\<lambda>x. wrap64 (x + num_rows)) num_rows i (fs_value_counts st)\<rparr>
         else st)"

definition count_nulls :: "metrics_mode \<Rightarrow> ice_type \<Rightarrow> i32 \<Rightarrow> column_statistics \<Rightarrow> file_stats \<Rightarrow> file_stats" where
  "count_nulls mode t i cs st =
     (case cs_null_count cs of
        None \<Rightarrow> st
      | Some n \<Rightarrow>
          if \<not> records_counts mode then st
          else if is_variant_type t
          then st\<lparr>fs_variant_nulls := upsert (\<lambda>x. max x (wrap64 n)) (wrap64 n) i (fs_variant_nulls st)\<rparr>
          else if \<not> is_container_type t
          then st\<lparr>fs_null_counts := upsert (\<lambda>x. wrap64 (x + wrap64 n)) (wrap64 n) i (fs_null_counts st)\<rparr>
          else st)"

definition merge_distinct ::
  "'f f64_lib \<Rightarrow> i32 \<Rightarrow> i64 \<Rightarrow> ice_value \<Rightarrow> ice_value \<Rightarrow> file_stats \<Rightarrow> (i32 \<rightharpoonup> i64) \<Rightarrow> (i32 \<rightharpoonup> i64)" where
  "merge_distinct fl i n lo hi st counts =
     (case (lo, hi, fs_lower st i, fs_upper st i) of
        (VInt a, VInt b, Some (VInt c), Some (VInt d)) \<Rightarrow>
          upsert (\<lambda>x. wrap64 (x + estimate_distinct_count fl wrap32 (c, d) (a, b) x n)) n i counts
      | (VLongInt a, VLongInt b, Some (VLongInt c), Some (VLongInt d)) \<Rightarrow>
          upsert (\<lambda>x. wrap64 (x + estimate_distinct_count fl wrap64 (c, d) (a, b) x n)) n i counts
      | (_, _, None, None) \<Rightarrow> upsert (\<lambda>x. x) n i counts
      | _ \<Rightarrow> counts)"

definition count_distinct ::
  "value_lib \<Rightarrow> 'f f64_lib \<Rightarrow> metrics_mode \<Rightarrow> ice_type \<Rightarrow> physical_type \<Rightarrow> i32 \<Rightarrow> column_statistics \<Rightarrow> file_stats
     \<Rightarrow> (file_stats, error) outcome" where
  "count_distinct vl fl mode t ph i cs st =
     (case (fs_distinct st, cs_distinct_count cs, cs_min_bytes cs, cs_max_bytes cs) of
        (Some counts, Some n, Some min_bytes, Some max_bytes) \<Rightarrow>
          if records_counts mode \<and> is_plain_primitive t
          then rbind (stat_value vl t ph min_bytes) (\<lambda>lo.
               rbind (stat_value vl t ph max_bytes) (\<lambda>hi.
               Ok (st\<lparr>fs_distinct := Some (merge_distinct fl i (wrap64 n) lo hi st counts)\<rparr>)))
          else Ok st
      | _ \<Rightarrow> Ok st)"

subsection \<open>Bounds\<close>

text \<open>Only these types are compared; of other values the first bound stays.\<close>

definition lower_replaced :: "ice_value \<Rightarrow> ice_value \<Rightarrow> bool" where
  "lower_replaced current new =
     (case (current, new) of
        (VInt a, VInt b) \<Rightarrow> a > b
      | (VLongInt a, VLongInt b) \<Rightarrow> a > b
      | (VFloat a, VFloat b) \<Rightarrow> float_key 32 23 (uint a) > float_key 32 23 (uint b)
      | (VDouble a, VDouble b) \<Rightarrow> float_key 64 52 (uint a) > float_key 64 52 (uint b)
      | (VDate a, VDate b) \<Rightarrow> a > b
      | (VTime a, VTime b) \<Rightarrow> a > b
      | (VTimestamp a, VTimestamp b) \<Rightarrow> a > b
      | (VTimestampTZ a, VTimestampTZ b) \<Rightarrow> a > b
      | (VTimestampNano a, VTimestampNano b) \<Rightarrow> a > b
      | (VTimestampTZNano a, VTimestampTZNano b) \<Rightarrow> a > b
      | _ \<Rightarrow> False)"

definition upper_replaced :: "ice_value \<Rightarrow> ice_value \<Rightarrow> bool" where
  "upper_replaced current new =
     (case (current, new) of
        (VInt a, VInt b) \<Rightarrow> a < b
      | (VLongInt a, VLongInt b) \<Rightarrow> a < b
      | (VFloat a, VFloat b) \<Rightarrow> float_key 32 23 (uint a) < float_key 32 23 (uint b)
      | (VDouble a, VDouble b) \<Rightarrow> float_key 64 52 (uint a) < float_key 64 52 (uint b)
      | (VDate a, VDate b) \<Rightarrow> a < b
      | (VTime a, VTime b) \<Rightarrow> a < b
      | (VTimestamp a, VTimestamp b) \<Rightarrow> a < b
      | (VTimestampTZ a, VTimestampTZ b) \<Rightarrow> a < b
      | (VTimestampNano a, VTimestampNano b) \<Rightarrow> a < b
      | (VTimestampTZNano a, VTimestampTZNano b) \<Rightarrow> a < b
      | _ \<Rightarrow> False)"

definition merge_bound ::
  "(ice_value \<Rightarrow> ice_value \<Rightarrow> bool) \<Rightarrow> i32 \<Rightarrow> ice_value \<Rightarrow> (i32 \<rightharpoonup> ice_value) \<Rightarrow> (i32 \<rightharpoonup> ice_value)" where
  "merge_bound replaced i new bounds = upsert (\<lambda>current. if replaced current new then new else current) new i bounds"

definition merge_lower ::
  "value_lib \<Rightarrow> metrics_mode \<Rightarrow> ice_type \<Rightarrow> physical_type \<Rightarrow> i32 \<Rightarrow> column_statistics \<Rightarrow> file_stats
     \<Rightarrow> (file_stats, error) outcome" where
  "merge_lower vl mode t ph i cs st =
     (case cs_min_bytes cs of
        Some bs \<Rightarrow>
          if records_bounds mode \<and> is_plain_primitive t
          then rbind (stat_value vl t ph bs) (\<lambda>new. Ok (st\<lparr>fs_lower := merge_bound lower_replaced i new (fs_lower st)\<rparr>))
          else Ok st
      | None \<Rightarrow> Ok st)"

definition merge_upper ::
  "value_lib \<Rightarrow> metrics_mode \<Rightarrow> ice_type \<Rightarrow> physical_type \<Rightarrow> i32 \<Rightarrow> column_statistics \<Rightarrow> file_stats
     \<Rightarrow> (file_stats, error) outcome" where
  "merge_upper vl mode t ph i cs st =
     (case cs_max_bytes cs of
        Some bs \<Rightarrow>
          if records_bounds mode \<and> is_plain_primitive t
          then rbind (stat_value vl t ph bs) (\<lambda>new. Ok (st\<lparr>fs_upper := merge_bound upper_replaced i new (fs_upper st)\<rparr>))
          else Ok st
      | None \<Rightarrow> Ok st)"

subsection \<open>Partition values\<close>

text \<open>
  The partition fields by the name of their source column: a column with two partition fields
  keeps the last.
\<close>

definition partition_fields_by_source :: "bound_partition_field list \<Rightarrow> string \<rightharpoonup> partition_field" where
  "partition_fields_by_source pfs = map_of (rev (map (\<lambda>b. (bf_source_name b, bf_partition_field b)) pfs))"

definition infer_value ::
  "value_lib \<Rightarrow> partition_field \<Rightarrow> ice_type \<Rightarrow> physical_type \<Rightarrow> byte list \<Rightarrow> (ice_value, error) outcome" where
  "infer_value vl pf t ph bs =
     rbind (stat_value vl t ph bs) (\<lambda>v. map_err Iceberg (value_transform vl v (pf_transform pf)))"

text \<open>Values are equal when neither is less: so are the zeros of a float type.\<close>

definition infer_partition ::
  "value_lib \<Rightarrow> bound_partition_field list \<Rightarrow> column_chunk \<Rightarrow> ice_type \<Rightarrow> column_statistics \<Rightarrow> file_stats
     \<Rightarrow> (file_stats, error) outcome" where
  "infer_partition vl pfs c t cs st =
     (case partition_fields_by_source pfs (cc_column_name c) of
        None \<Rightarrow> Ok st
      | Some pf \<Rightarrow>
          (case (Struct_get (fs_partition st) (pf_name pf), cs_min_bytes cs, cs_max_bytes cs) of
             (Some None, Some min_bytes, Some max_bytes) \<Rightarrow>
               rbind (infer_value vl pf t (cc_physical_type c) min_bytes) (\<lambda>lo.
               rbind (infer_value vl pf t (cc_physical_type c) max_bytes) (\<lambda>hi.
               if value_le lo hi \<and> value_le hi lo then Ok (st\<lparr>fs_partition := Struct_set (fs_partition st) (pf_name pf) (Some lo)\<rparr>)
               else Err (InvalidFormat ''Partition value of data file'')))
           | _ \<Rightarrow> Ok st))"

section \<open>The loops\<close>

definition column_step ::
  "value_lib \<Rightarrow> 'f f64_lib \<Rightarrow> metrics_config \<Rightarrow> schema \<Rightarrow> bound_partition_field list option \<Rightarrow> i64
     \<Rightarrow> file_stats \<Rightarrow> column_chunk \<Rightarrow> (file_stats, error) outcome" where
  "column_step vl fl config schema inferred num_rows st c =
     (if (case cc_field_id c of Some i \<Rightarrow> is_row_lineage_field_id i | None \<Rightarrow> False) then Ok st
      else rbind (column_id_and_type schema c) (\<lambda>(i, t).
        let mode = mode_for config (column_path c) (top_level_index schema c);
            st = count_values mode t i (cc_compressed_size c) num_rows st
        in case cc_statistics c of
             None \<Rightarrow> Ok st
           | Some cs \<Rightarrow>
               rbind (count_distinct vl fl mode t (cc_physical_type c) i cs (count_nulls mode t i cs st)) (\<lambda>st.
               rbind (merge_lower vl mode t (cc_physical_type c) i cs st) (\<lambda>st.
               rbind (merge_upper vl mode t (cc_physical_type c) i cs st) (\<lambda>st.
               case inferred of None \<Rightarrow> Ok st | Some pfs \<Rightarrow> infer_partition vl pfs c t cs st)))))"

definition add_variant_nulls :: "file_stats \<Rightarrow> file_stats" where
  "add_variant_nulls st =
     st\<lparr>fs_null_counts := (\<lambda>i. case fs_variant_nulls st i of
          None \<Rightarrow> fs_null_counts st i
        | Some n \<Rightarrow> Some (case fs_null_counts st i of Some x \<Rightarrow> wrap64 (x + n) | None \<Rightarrow> n))\<rparr>"

definition row_group_step ::
  "value_lib \<Rightarrow> 'f f64_lib \<Rightarrow> metrics_config \<Rightarrow> schema \<Rightarrow> bound_partition_field list option
     \<Rightarrow> file_stats \<Rightarrow> row_group \<Rightarrow> (file_stats, error) outcome" where
  "row_group_step vl fl config schema inferred st g =
     rbind (try_fold (column_step vl fl config schema inferred (rg_num_rows g))
              (st\<lparr>fs_counted := {}, fs_variant_nulls := Map.empty\<rparr>) (rg_columns g)) (\<lambda>st.
     Ok (add_variant_nulls st))"

definition truncate_lower_bounds :: "(i32 \<rightharpoonup> metrics_mode) \<Rightarrow> (i32 \<rightharpoonup> ice_value) \<Rightarrow> (i32 \<rightharpoonup> ice_value)" where
  "truncate_lower_bounds modes bounds =
     (\<lambda>i. map_option (\<lambda>v. case modes i of Some (TruncateTo n) \<Rightarrow> truncate_lower_bound v n | _ \<Rightarrow> v) (bounds i))"

definition truncate_upper_bounds :: "(i32 \<rightharpoonup> metrics_mode) \<Rightarrow> (i32 \<rightharpoonup> ice_value) \<Rightarrow> (i32 \<rightharpoonup> ice_value)" where
  "truncate_upper_bounds modes bounds =
     (\<lambda>i. Option.bind (bounds i)
        (\<lambda>v. case modes i of Some (TruncateTo n) \<Rightarrow> truncate_upper_bound v n | _ \<Rightarrow> Some v))"

definition initial_partition ::
  "bound_partition_field list \<Rightarrow> ice_value option list option \<Rightarrow> (struct_value, error) outcome" where
  "initial_partition pfs partition_values =
     (case partition_values of
        Some vs \<Rightarrow>
          if length vs \<noteq> length pfs then Err (InvalidFormat ''Partition value count'')
          else Ok (Struct_from_iter (zip (map bf_name pfs) vs))
      | None \<Rightarrow> Ok (Struct_from_iter (map (\<lambda>f. (bf_name f, None)) pfs)))"

definition file_stats_new :: "(string \<rightharpoonup> string) \<Rightarrow> struct_value \<Rightarrow> file_stats" where
  "file_stats_new props p =
     \<lparr>fs_column_sizes = Map.empty, fs_value_counts = Map.empty, fs_null_counts = Map.empty,
      fs_distinct = (if props WRITE_METADATA_METRICS_DISTINCT_COUNTS_ENABLED = Some ''true'' then Some Map.empty else None),
      fs_lower = Map.empty, fs_upper = Map.empty, fs_modes = Map.empty, fs_partition = p,
      fs_counted = {}, fs_variant_nulls = Map.empty\<rparr>"

definition build_datafile ::
  "string \<Rightarrow> int \<Rightarrow> parquet_metadata \<Rightarrow> i32 list option \<Rightarrow> file_stats \<Rightarrow> data_file" where
  "build_datafile location file_size m equality_ids st =
     \<lparr>df_content = (if equality_ids = None then Data else EqualityDeletes),
      df_file_path = location, df_file_format = Parquet, df_partition = fs_partition st,
      df_record_count = pm_num_rows m, df_file_size_in_bytes = wrap64 file_size,
      df_column_sizes = Some (fs_column_sizes st), df_value_counts = Some (fs_value_counts st),
      df_null_value_counts = Some (fs_null_counts st), df_nan_value_counts = None,
      df_distinct_counts = fs_distinct st,
      df_lower_bounds = Some (truncate_lower_bounds (fs_modes st) (fs_lower st)),
      df_upper_bounds = Some (truncate_upper_bounds (fs_modes st) (fs_upper st)),
      df_key_metadata = None, df_split_offsets = None, df_equality_ids = equality_ids,
      df_sort_order_id = attested_sort_order_id m, df_first_row_id = None, df_referenced_data_file = None,
      df_content_offset = None, df_content_size_in_bytes = None\<rparr>"

definition parquet_to_datafile_impl ::
  "value_lib \<Rightarrow> 'f f64_lib \<Rightarrow> string \<Rightarrow> int \<Rightarrow> parquet_metadata \<Rightarrow> schema \<Rightarrow> bound_partition_field list
     \<Rightarrow> i32 list option \<Rightarrow> (string \<rightharpoonup> string) \<Rightarrow> ice_value option list option \<Rightarrow> (data_file, error) outcome" where
  "parquet_to_datafile_impl vl fl location file_size m schema pfs equality_ids props partition_values =
     rbind (initial_partition pfs partition_values) (\<lambda>p.
     rbind (try_fold (row_group_step vl fl (from_table_properties props) schema
              (if partition_values = None then Some pfs else None)) (file_stats_new props p) (pm_row_groups m)) (\<lambda>st.
     Ok (build_datafile location file_size m equality_ids st)))"

definition parquet_to_datafile ::
  "value_lib \<Rightarrow> 'f f64_lib \<Rightarrow> string \<Rightarrow> int \<Rightarrow> parquet_metadata \<Rightarrow> schema \<Rightarrow> bound_partition_field list
     \<Rightarrow> i32 list option \<Rightarrow> (string \<rightharpoonup> string) \<Rightarrow> (data_file, error) outcome" where
  "parquet_to_datafile vl fl location file_size m schema pfs equality_ids props =
     parquet_to_datafile_impl vl fl location file_size m schema pfs equality_ids props None"

definition parquet_to_datafile_with_partition ::
  "value_lib \<Rightarrow> 'f f64_lib \<Rightarrow> string \<Rightarrow> int \<Rightarrow> parquet_metadata \<Rightarrow> schema \<Rightarrow> bound_partition_field list
     \<Rightarrow> i32 list option \<Rightarrow> (string \<rightharpoonup> string) \<Rightarrow> ice_value option list \<Rightarrow> (data_file, error) outcome" where
  "parquet_to_datafile_with_partition vl fl location file_size m schema pfs equality_ids props partition_values =
     parquet_to_datafile_impl vl fl location file_size m schema pfs equality_ids props (Some partition_values)"


section \<open>Types of bounds\<close>

fun ordered_type :: "ice_type \<Rightarrow> bool" where
  "ordered_type (Primitive p) \<longleftrightarrow>
     p \<in> {PInt, PLong, PFloat, PDouble, PDate, PTime, PTimestamp, PTimestamptz, PTimestampNs, PTimestamptzNs}"
| "ordered_type _ \<longleftrightarrow> False"

fun value_fits :: "ice_type \<Rightarrow> ice_value \<Rightarrow> bool" where
  "value_fits (Primitive p) v \<longleftrightarrow>
     (case v of
        VInt _ \<Rightarrow> p = PInt | VLongInt _ \<Rightarrow> p = PLong | VFloat _ \<Rightarrow> p = PFloat | VDouble _ \<Rightarrow> p = PDouble
      | VDate _ \<Rightarrow> p = PDate | VTime _ \<Rightarrow> p = PTime | VTimestamp _ \<Rightarrow> p = PTimestamp
      | VTimestampTZ _ \<Rightarrow> p = PTimestamptz | VTimestampNano _ \<Rightarrow> p = PTimestampNs
      | VTimestampTZNano _ \<Rightarrow> p = PTimestamptzNs | _ \<Rightarrow> False)"
| "value_fits _ v \<longleftrightarrow> False"

lemma ordered_type_plain: "ordered_type t \<Longrightarrow> is_plain_primitive t"
  by (cases t) (auto simp: is_plain_primitive_def)

lemma stat_value_fits:
  assumes "stat_value vl t ph bs = Ok v" "ordered_type t"
  shows "value_fits t v"
proof (cases t)
  case (Primitive p)
  then show ?thesis using assms
    by (auto simp: stat_value_def try_from_bytes_with_hint_def split: outcome.splits if_splits)
qed (use assms in auto)

lemma lower_replaced_less:
  "value_fits t a \<Longrightarrow> value_fits t b \<Longrightarrow> lower_replaced a b \<longleftrightarrow> \<not> value_le a b"
  by (cases t; cases a; cases b) (auto simp: lower_replaced_def value_le_def not_le)

lemma upper_replaced_less:
  "value_fits t a \<Longrightarrow> value_fits t b \<Longrightarrow> upper_replaced a b \<longleftrightarrow> \<not> value_le b a"
  by (cases t; cases a; cases b) (auto simp: upper_replaced_def value_le_def not_le)

lemma truncate_fits:
  "value_fits t v \<Longrightarrow> truncate_lower_bound v n = v \<and> truncate_upper_bound v n = Some v"
  by (cases t; cases v) (simp_all add: truncate_lower_bound_def truncate_upper_bound_def)


section \<open>Merging bounds\<close>

text \<open>A comparison of bounds, in one direction or the other.\<close>

locale merged_bound =
  fixes replaced :: "ice_value \<Rightarrow> ice_value \<Rightarrow> bool"
    and le :: "ice_value \<Rightarrow> ice_value \<Rightarrow> bool"
  assumes replaced: "value_fits t a \<Longrightarrow> value_fits t b \<Longrightarrow> replaced a b \<longleftrightarrow> \<not> le a b"
    and total: "le a b \<or> le b a"
    and trans: "le a b \<Longrightarrow> le b c \<Longrightarrow> le a c"
begin

definition covers :: "(i32 \<rightharpoonup> ice_value) \<Rightarrow> i32 \<Rightarrow> ice_value \<Rightarrow> bool" where
  "covers bounds i x \<longleftrightarrow> (\<exists>l. bounds i = Some l \<and> le l x)"

lemma refl: "le a a"
  using total by blast

lemma merge_cases:
  assumes "\<And>v. bounds i = Some v \<Longrightarrow> value_fits t v" "value_fits t new"
  obtains v where "merge_bound replaced i new bounds = bounds(i \<mapsto> v)" "value_fits t v" "le v new"
    "\<And>old. bounds i = Some old \<Longrightarrow> le v old"
proof (cases "bounds i")
  case None
  then show thesis using that [of new] assms(2) refl by (simp add: merge_bound_def upsert_def)
next
  case (Some old)
  then have "replaced old new \<longleftrightarrow> \<not> le old new" using assms replaced by blast
  then show thesis
    using that [of "if replaced old new then new else old"] Some assms refl total [of old new]
    by (auto simp: merge_bound_def upsert_def)
qed

lemma merge_covers:
  assumes "\<And>v. bounds i = Some v \<Longrightarrow> value_fits t v" "value_fits t new"
  shows "covers (merge_bound replaced i new bounds) i new"
    "covers bounds j x \<Longrightarrow> covers (merge_bound replaced i new bounds) j x"
    "merge_bound replaced i new bounds j = Some w \<Longrightarrow> bounds j = Some w \<or> j = i \<and> value_fits t w"
proof -
  obtain v where v: "merge_bound replaced i new bounds = bounds(i \<mapsto> v)" "value_fits t v" "le v new"
      "\<And>old. bounds i = Some old \<Longrightarrow> le v old"
    using merge_cases [of bounds i t new] assms by metis
  show "covers (merge_bound replaced i new bounds) i new" by (simp add: covers_def v(1,3))
  show "covers (merge_bound replaced i new bounds) j x" if "covers bounds j x"
    using that v(4) trans by (auto simp: covers_def v(1))
  show "bounds j = Some w \<or> j = i \<and> value_fits t w" if "merge_bound replaced i new bounds j = Some w"
    using that v(2) by (simp add: v(1) split: if_splits)
qed

end

interpretation lowers: merged_bound lower_replaced value_le
  by unfold_locales (auto simp: lower_replaced_less value_le_def)

interpretation uppers: merged_bound upper_replaced "\<lambda>a b. value_le b a"
  by unfold_locales (auto simp: upper_replaced_less value_le_def)

section \<open>What the steps do to the bounds\<close>

definition recorded :: "metrics_mode \<Rightarrow> ice_type \<Rightarrow> column_chunk \<Rightarrow> (column_statistics \<Rightarrow> byte list option) \<Rightarrow> byte list option" where
  "recorded mode t c get =
     Option.bind (cc_statistics c) (\<lambda>cs. if records_bounds mode \<and> is_plain_primitive t then get cs else None)"

lemma count_frame [simp]:
  "fs_lower (count_values mode t i n r st) = fs_lower st" "fs_upper (count_values mode t i n r st) = fs_upper st"
  "fs_lower (count_nulls mode t i cs st) = fs_lower st" "fs_upper (count_nulls mode t i cs st) = fs_upper st"
  by (auto simp: count_values_def count_nulls_def Let_def split: option.splits)

lemma count_distinct_frame:
  "count_distinct vl fl mode t ph i cs st = Ok st' \<Longrightarrow> fs_lower st' = fs_lower st \<and> fs_upper st' = fs_upper st"
  by (auto simp: count_distinct_def split: option.splits if_splits bind_splits)

lemma infer_partition_frame:
  "infer_partition vl pfs c t cs st = Ok st' \<Longrightarrow> fs_lower st' = fs_lower st \<and> fs_upper st' = fs_upper st"
  by (auto simp: infer_partition_def split: option.splits if_splits bind_splits)

definition is_lineage_column :: "column_chunk \<Rightarrow> bool" where
  "is_lineage_column c \<longleftrightarrow> (case cc_field_id c of Some i \<Rightarrow> is_row_lineage_field_id i | None \<Rightarrow> False)"

definition column_mode :: "metrics_config \<Rightarrow> schema \<Rightarrow> column_chunk \<Rightarrow> metrics_mode" where
  "column_mode config schema c = mode_for config (column_path c) (top_level_index schema c)"

definition bound_step ::
  "(ice_value \<Rightarrow> ice_value \<Rightarrow> bool) \<Rightarrow> value_lib \<Rightarrow> ice_type \<Rightarrow> physical_type \<Rightarrow> i32 \<Rightarrow> byte list option
     \<Rightarrow> (i32 \<rightharpoonup> ice_value) \<Rightarrow> (i32 \<rightharpoonup> ice_value) \<Rightarrow> bool" where
  "bound_step replaced vl t ph i bytes bounds bounds' \<longleftrightarrow>
     (case bytes of
        None \<Rightarrow> bounds' = bounds
      | Some bs \<Rightarrow> \<exists>new. stat_value vl t ph bs = Ok new \<and> bounds' = merge_bound replaced i new bounds)"

lemma merge_lower_step:
  "merge_lower vl mode t ph i cs st = Ok st' \<Longrightarrow>
     fs_upper st' = fs_upper st \<and>
     bound_step lower_replaced vl t ph i (if records_bounds mode \<and> is_plain_primitive t then cs_min_bytes cs else None)
       (fs_lower st) (fs_lower st')"
  by (auto simp: merge_lower_def bound_step_def split: option.splits if_splits)

lemma merge_upper_step:
  "merge_upper vl mode t ph i cs st = Ok st' \<Longrightarrow>
     fs_lower st' = fs_lower st \<and>
     bound_step upper_replaced vl t ph i (if records_bounds mode \<and> is_plain_primitive t then cs_max_bytes cs else None)
       (fs_upper st) (fs_upper st')"
  by (auto simp: merge_upper_def bound_step_def split: option.splits if_splits)

lemma column_step_bounds:
  assumes "column_step vl fl config schema inferred n st c = Ok st'" "\<not> is_lineage_column c"
  obtains i t where "column_id_and_type schema c = Ok (i, t)"
    "bound_step lower_replaced vl t (cc_physical_type c) i (recorded (column_mode config schema c) t c cs_min_bytes)
       (fs_lower st) (fs_lower st')"
    "bound_step upper_replaced vl t (cc_physical_type c) i (recorded (column_mode config schema c) t c cs_max_bytes)
       (fs_upper st) (fs_upper st')"
proof -
  obtain i t where it: "column_id_and_type schema c = Ok (i, t)"
    using assms by (auto simp: column_step_def is_lineage_column_def split: if_splits option.splits)
  define mode where "mode = column_mode config schema c"
  show thesis
  proof (cases "cc_statistics c")
    case None
    then have "st' = count_values mode t i (cc_compressed_size c) n st"
      using assms it
      by (auto simp: column_step_def is_lineage_column_def mode_def column_mode_def Let_def split: if_splits option.splits)
    then show thesis using that [OF it] None by (simp add: recorded_def bound_step_def)
  next
    case (Some cs)
    then obtain s1 s2 s3 where s:
        "count_distinct vl fl mode t (cc_physical_type c) i cs
           (count_nulls mode t i cs (count_values mode t i (cc_compressed_size c) n st)) = Ok s1"
        "merge_lower vl mode t (cc_physical_type c) i cs s1 = Ok s2"
        "merge_upper vl mode t (cc_physical_type c) i cs s2 = Ok s3"
        "(case inferred of None \<Rightarrow> Ok s3 | Some pfs \<Rightarrow> infer_partition vl pfs c t cs s3) = Ok st'"
      using assms it
      by (auto simp: column_step_def is_lineage_column_def mode_def column_mode_def Let_def split: if_splits option.splits)
    have "fs_lower st' = fs_lower s3 \<and> fs_upper st' = fs_upper s3"
      using s(4) infer_partition_frame by (auto split: option.splits)
    then show thesis
      using that [OF it] merge_lower_step [OF s(2)] merge_upper_step [OF s(3)] count_distinct_frame [OF s(1)] Some
      by (simp add: recorded_def mode_def)
  qed
qed

section \<open>Bounds cover the row groups\<close>

lemma column_type_unique:
  "column_id_and_type schema c = Ok (i, t) \<Longrightarrow> column_id_and_type schema d = Ok (i, u) \<Longrightarrow> t = u"
  by (auto simp: column_id_and_type_def)

definition bounds_fit :: "schema \<Rightarrow> (i32 \<rightharpoonup> ice_value) \<Rightarrow> bool" where
  "bounds_fit schema bounds \<longleftrightarrow>
     (\<forall>c i t v. column_id_and_type schema c = Ok (i, t) \<longrightarrow> ordered_type t \<longrightarrow> bounds i = Some v \<longrightarrow> value_fits t v)"

context merged_bound
begin

lemma step_effect:
  assumes "bounds_fit schema bounds" "column_id_and_type schema c = Ok (i, t)"
    "bound_step replaced vl t ph i bytes bounds bounds'"
  shows "bounds_fit schema bounds'"
    "column_id_and_type schema d = Ok (j, u) \<Longrightarrow> ordered_type u \<Longrightarrow> covers bounds j x \<Longrightarrow> covers bounds' j x"
    "bytes = Some bs \<Longrightarrow> ordered_type t \<Longrightarrow> \<exists>new. stat_value vl t ph bs = Ok new \<and> covers bounds' i new"
proof -
  have other: "bounds' j = bounds j" if "j \<noteq> i" for j
    using assms(3) that by (auto simp: bound_step_def merge_bound_def upsert_def split: option.splits)
  have merged: "\<exists>new. bounds' = merge_bound replaced i new bounds \<and> value_fits t new \<and> stat_value vl t ph bs = Ok new"
    if "bytes = Some bs" "ordered_type t" for bs
    using assms(3) that stat_value_fits by (auto simp: bound_step_def)
  have fits: "value_fits t v" if "ordered_type t" "bounds i = Some v" for v
    using assms(1,2) that by (auto simp: bounds_fit_def)
  have same: "bounds' = bounds" if "bytes = None" using assms(3) that by (simp add: bound_step_def)
  show "bounds_fit schema bounds'"
    unfolding bounds_fit_def
  proof (intro allI impI)
    fix d j u v assume d: "column_id_and_type schema d = Ok (j, u)" "ordered_type u" "bounds' j = Some v"
    show "value_fits u v"
    proof (cases "j = i \<and> bytes \<noteq> None")
      case True
      then have "u = t" using column_type_unique d(1) assms(2) by blast
      then obtain new where "bounds' = merge_bound replaced i new bounds" "value_fits t new"
        using True merged d(2) by blast
      with merge_covers(3) [of bounds i t new j v] fits d(2,3) \<open>u = t\<close> True show ?thesis by auto
    next
      case False
      then have "bounds j = Some v" using d(3) other same by (cases "j = i") auto
      then show ?thesis using assms(1) d(1,2) by (auto simp: bounds_fit_def)
    qed
  qed
  show "covers bounds' j x" if d: "column_id_and_type schema d = Ok (j, u)" "ordered_type u" "covers bounds j x"
  proof (cases "j = i \<and> bytes \<noteq> None")
    case True
    then have "u = t" using column_type_unique d(1) assms(2) by blast
    then obtain new where "bounds' = merge_bound replaced i new bounds" "value_fits t new"
      using True merged d(2) by blast
    with merge_covers(2) [of bounds i t new j x] fits d(2,3) \<open>u = t\<close> show ?thesis by auto
  next
    case False
    then have "bounds' j = bounds j" using other same by (cases "j = i") auto
    then show ?thesis using d(3) by (simp add: covers_def)
  qed
  show "\<exists>new. stat_value vl t ph bs = Ok new \<and> covers bounds' i new" if "bytes = Some bs" "ordered_type t"
    using merged [OF that] merge_covers(1) [of bounds i t] fits [OF that(2)] by auto
qed

end

text \<open>The statistics of a column are covered.\<close>

definition column_covered ::
  "value_lib \<Rightarrow> metrics_config \<Rightarrow> schema \<Rightarrow> file_stats \<Rightarrow> column_chunk \<Rightarrow> bool" where
  "column_covered vl config schema st c \<longleftrightarrow>
     (\<forall>i t bs. \<not> is_lineage_column c \<longrightarrow> column_id_and_type schema c = Ok (i, t) \<longrightarrow> ordered_type t \<longrightarrow>
        (recorded (column_mode config schema c) t c cs_min_bytes = Some bs \<longrightarrow>
           (\<exists>v. stat_value vl t (cc_physical_type c) bs = Ok v \<and> lowers.covers (fs_lower st) i v)) \<and>
        (recorded (column_mode config schema c) t c cs_max_bytes = Some bs \<longrightarrow>
           (\<exists>v. stat_value vl t (cc_physical_type c) bs = Ok v \<and> uppers.covers (fs_upper st) i v)))"

definition stats_fit :: "schema \<Rightarrow> file_stats \<Rightarrow> bool" where
  "stats_fit schema st \<longleftrightarrow> bounds_fit schema (fs_lower st) \<and> bounds_fit schema (fs_upper st)"

lemma column_step_covers:
  assumes "column_step vl fl config schema inferred n st c = Ok st'" "stats_fit schema st"
  shows "stats_fit schema st'" "column_covered vl config schema st' c"
    "column_covered vl config schema st d \<Longrightarrow> column_covered vl config schema st' d"
proof -
  have "stats_fit schema st' \<and> column_covered vl config schema st' c \<and>
      (column_covered vl config schema st d \<longrightarrow> column_covered vl config schema st' d)"
  proof (cases "is_lineage_column c")
    case True
    then have "st' = st" using assms(1) by (simp add: column_step_def is_lineage_column_def)
    then show ?thesis using True assms(2) by (simp add: column_covered_def)
  next
    case False
    obtain i t where s: "column_id_and_type schema c = Ok (i, t)"
      "bound_step lower_replaced vl t (cc_physical_type c) i (recorded (column_mode config schema c) t c cs_min_bytes)
         (fs_lower st) (fs_lower st')"
      "bound_step upper_replaced vl t (cc_physical_type c) i (recorded (column_mode config schema c) t c cs_max_bytes)
         (fs_upper st) (fs_upper st')"
      using column_step_bounds [OF assms(1) False] .
    have fit: "bounds_fit schema (fs_lower st)" "bounds_fit schema (fs_upper st)"
      using assms(2) by (simp_all add: stats_fit_def)
    note low = lowers.step_effect [OF fit(1) s(1,2)]
    note up = uppers.step_effect [OF fit(2) s(1,3)]
    have "stats_fit schema st'" using low(1) up(1) by (simp add: stats_fit_def)
    moreover have "column_covered vl config schema st' c"
      using low(3) up(3) s(1) by (auto simp: column_covered_def)
    moreover have "column_covered vl config schema st' d" if "column_covered vl config schema st d"
      unfolding column_covered_def
      using that [unfolded column_covered_def] low(2) up(2) by blast
    ultimately show ?thesis by blast
  qed
  then show "stats_fit schema st'" "column_covered vl config schema st' c"
    "column_covered vl config schema st d \<Longrightarrow> column_covered vl config schema st' d" by blast+
qed

lemma columns_covered:
  "try_fold (column_step vl fl config schema inferred n) st cs = Ok st' \<Longrightarrow> stats_fit schema st \<Longrightarrow>
     stats_fit schema st' \<and> (\<forall>c. c \<in> set cs \<or> column_covered vl config schema st c \<longrightarrow> column_covered vl config schema st' c)"
proof (induction cs arbitrary: st)
  case (Cons c cs)
  then obtain s where s: "column_step vl fl config schema inferred n st c = Ok s"
      "try_fold (column_step vl fl config schema inferred n) s cs = Ok st'" by auto
  note step = column_step_covers [OF s(1) Cons.prems(2)]
  show ?case using Cons.IH [OF s(2) step(1)] step(2,3) by auto
qed simp

lemma row_groups_covered:
  "try_fold (row_group_step vl fl config schema inferred) st gs = Ok st' \<Longrightarrow> stats_fit schema st \<Longrightarrow>
     stats_fit schema st' \<and> (\<forall>c. c \<in> (\<Union>g \<in> set gs. set (rg_columns g)) \<or> column_covered vl config schema st c
       \<longrightarrow> column_covered vl config schema st' c)"
proof (induction gs arbitrary: st)
  case (Cons g gs)
  then obtain s where s: "row_group_step vl fl config schema inferred st g = Ok s"
      "try_fold (row_group_step vl fl config schema inferred) s gs = Ok st'" by auto
  then obtain s1 where s1: "try_fold (column_step vl fl config schema inferred (rg_num_rows g))
      (st\<lparr>fs_counted := {}, fs_variant_nulls := Map.empty\<rparr>) (rg_columns g) = Ok s1" "s = add_variant_nulls s1"
    by (auto simp: row_group_step_def)
  have "stats_fit schema (st\<lparr>fs_counted := {}, fs_variant_nulls := Map.empty\<rparr>)"
    using Cons.prems(2) by (simp add: stats_fit_def)
  with columns_covered [OF s1(1)] have 1: "stats_fit schema s"
    "\<And>c. c \<in> set (rg_columns g) \<or> column_covered vl config schema st c \<Longrightarrow> column_covered vl config schema s c"
    by (auto simp: s1(2) stats_fit_def add_variant_nulls_def column_covered_def)
  show ?case using Cons.IH [OF s(2) 1(1)] 1(2) by auto
qed simp

text \<open>
  C19. The bounds of a data file cover the statistics of every row group: for a column of a
  numeric, date, time or timestamp type whose mode records bounds, the lower bound is at most
  the least value that any row group states and the upper bound at least the greatest one.
\<close>

theorem datafile_bounds_cover_row_groups:
  assumes "parquet_to_datafile_impl vl fl location file_size m schema pfs equality_ids props partition_values = Ok df"
    "g \<in> set (pm_row_groups m)" "c \<in> set (rg_columns g)" "cc_statistics c = Some cs" "\<not> is_lineage_column c"
    "column_id_and_type schema c = Ok (i, t)" "ordered_type t"
    "records_bounds (column_mode (from_table_properties props) schema c)"
  shows "(\<forall>bs. cs_min_bytes cs = Some bs \<longrightarrow>
        (\<exists>v l. stat_value vl t (cc_physical_type c) bs = Ok v \<and> the (df_lower_bounds df) i = Some l \<and> value_le l v))
    \<and> (\<forall>bs. cs_max_bytes cs = Some bs \<longrightarrow>
        (\<exists>v u. stat_value vl t (cc_physical_type c) bs = Ok v \<and> the (df_upper_bounds df) i = Some u \<and> value_le v u))"
proof -
  obtain p st inferred where st: "try_fold (row_group_step vl fl (from_table_properties props) schema inferred)
        (file_stats_new props p) (pm_row_groups m) = Ok st"
      "df = build_datafile location file_size m equality_ids st"
    using assms(1) by (auto simp: parquet_to_datafile_impl_def)
  have "stats_fit schema (file_stats_new props p)"
    by (simp add: stats_fit_def bounds_fit_def file_stats_new_def)
  with row_groups_covered [OF st(1)] assms(2,3)
  have fit: "stats_fit schema st" and cov: "column_covered vl (from_table_properties props) schema st c" by auto
  have same: "the (df_lower_bounds df) i = fs_lower st i" "the (df_upper_bounds df) i = fs_upper st i"
  proof -
    have "value_fits t v" if "fs_lower st i = Some v \<or> fs_upper st i = Some v" for v
      using fit that assms(6,7) by (auto simp: stats_fit_def bounds_fit_def)
    then have cut: "fs_lower st i = Some v \<Longrightarrow> truncate_lower_bound v n = v"
        "fs_upper st i = Some v \<Longrightarrow> truncate_upper_bound v n = Some v" for v n
      using truncate_fits by blast+
    show "the (df_lower_bounds df) i = fs_lower st i"
      by (cases "fs_lower st i")
        (simp_all add: st(2) build_datafile_def truncate_lower_bounds_def cut split: option.split metrics_mode.split)
    show "the (df_upper_bounds df) i = fs_upper st i"
      by (cases "fs_upper st i")
        (simp_all add: st(2) build_datafile_def truncate_upper_bounds_def cut split: option.split metrics_mode.split)
  qed
  have rec: "recorded (column_mode (from_table_properties props) schema c) t c get = get cs" for get
    using assms(4,7,8) by (simp add: recorded_def ordered_type_plain)
  show ?thesis
    using cov assms(5-7) by (auto simp: column_covered_def rec same lowers.covers_def uppers.covers_def)
qed

text \<open>Two row groups of an \<open>int\<close> column.\<close>

definition sample_columns_schema :: "ice_type \<Rightarrow> schema" where
  "sample_columns_schema t =
     \<lparr>sch_schema_id = 0, sch_identifier_field_ids = None,
      sch_fields = StructType_new [StructField 1 ''x'' True t None None None]\<rparr>"

definition sample_chunk :: "byte list \<Rightarrow> byte list \<Rightarrow> column_chunk" where
  "sample_chunk lo hi =
     \<lparr>cc_field_id = Some 1, cc_column_name = ''x'', cc_path = [''x''], cc_physical_type = PhysInt32,
      cc_compressed_size = 10, cc_statistics =
        Some \<lparr>cs_null_count = Some 0, cs_distinct_count = None, cs_min_bytes = Some lo, cs_max_bytes = Some hi\<rparr>\<rparr>"

definition sample_footer :: "(byte list \<times> byte list) list \<Rightarrow> parquet_metadata" where
  "sample_footer groups =
     \<lparr>pm_key_values = None, pm_num_rows = 3 * int (length groups),
      pm_row_groups = map (\<lambda>(lo, hi). \<lparr>rg_num_rows = 3, rg_columns = [sample_chunk lo hi]\<rparr>) groups\<rparr>"

lemma sample_column:
  "column_id_and_type (sample_columns_schema t) (sample_chunk lo hi) = Ok (1, t)"
  "column_mode (from_table_properties Map.empty) (sample_columns_schema t) (sample_chunk lo hi) = TruncateTo 16"
  by (simp_all add: column_id_and_type_def sample_columns_schema_def sample_chunk_def column_path_def
      StructType_get_name_def StructType_get_new in_i32_def column_mode_def mode_for_def
      from_table_properties_def or_default_def top_level_index_def DEFAULT_TRUNCATE_LENGTH_def
      DEFAULT_MAX_INFERRED_COLUMN_DEFAULTS_def)

definition sample_f64 :: "int f64_lib" where
  "sample_f64 =
     \<lparr>fl_of_int = (\<lambda>x. x), fl_sub = (-), fl_mul = (*), fl_div = (div), fl_add = (+), fl_max = max, fl_less = (<),
      fl_powf = (\<lambda>x y. x ^ nat y), fl_round_as_i64 = wrap64\<rparr>"

lemma sample_chunk_simps [simp]:
  "cc_field_id (sample_chunk lo hi) = Some 1" "cc_physical_type (sample_chunk lo hi) = PhysInt32"
  "cc_compressed_size (sample_chunk lo hi) = 10" "is_lineage_column (sample_chunk lo hi) = False"
  "cc_statistics (sample_chunk lo hi) =
     Some \<lparr>cs_null_count = Some 0, cs_distinct_count = None, cs_min_bytes = Some lo, cs_max_bytes = Some hi\<rparr>"
  "is_row_lineage_field_id 1 = False"
  by (simp_all add: sample_chunk_def is_lineage_column_def is_row_lineage_field_id_def ROW_ID_FIELD_ID_def
      LAST_UPDATED_SEQUENCE_NUMBER_FIELD_ID_def)

text \<open>What a row group with one such column does to the bounds.\<close>

lemma sample_group_step:
  assumes "stat_value vl t PhysInt32 lo = Ok a" "stat_value vl t PhysInt32 hi = Ok b" "is_plain_primitive t"
  obtains st' where
    "row_group_step vl fl (from_table_properties Map.empty) (sample_columns_schema t) None st
       \<lparr>rg_num_rows = 3, rg_columns = [sample_chunk lo hi]\<rparr> = Ok st'"
    "fs_lower st' = merge_bound lower_replaced 1 a (fs_lower st)"
    "fs_upper st' = merge_bound upper_replaced 1 b (fs_upper st)" "fs_modes st' 1 = Some (TruncateTo 16)"
proof -
  have "mode_for (from_table_properties Map.empty) (column_path (sample_chunk lo hi))
      (top_level_index (sample_columns_schema t) (sample_chunk lo hi)) = TruncateTo 16"
    using sample_column(2) by (simp add: column_mode_def)
  moreover have "\<not> is_variant_type t" "\<not> is_container_type t"
    using assms(3) by (auto simp: is_variant_type_def is_container_type_def is_plain_primitive_def split: ice_type.splits)
  ultimately show thesis
    using assms
    by (intro that)
      (auto simp: row_group_step_def column_step_def sample_column(1) count_values_def count_nulls_def
        count_distinct_def merge_lower_def merge_upper_def add_variant_nulls_def records_counts_def records_bounds_def
        Let_def split: option.split)
qed

lemma sample_datafile:
  assumes "stat_value vl t PhysInt32 lo = Ok a" "stat_value vl t PhysInt32 hi = Ok b"
    "stat_value vl t PhysInt32 lo' = Ok a'" "stat_value vl t PhysInt32 hi' = Ok b'" "is_plain_primitive t"
  obtains df where
    "parquet_to_datafile_impl vl fl location n (sample_footer [(lo, hi), (lo', hi')]) (sample_columns_schema t) []
       None Map.empty (Some []) = Ok df"
    "the (df_lower_bounds df) 1 = Some (truncate_lower_bound (if lower_replaced a a' then a' else a) 16)"
    "the (df_upper_bounds df) 1 = truncate_upper_bound (if upper_replaced b b' then b' else b) 16"
proof -
  define st where "st = file_stats_new Map.empty (Struct_from_iter [])"
  obtain s1 where s1: "row_group_step vl fl (from_table_properties Map.empty) (sample_columns_schema t) None st
       \<lparr>rg_num_rows = 3, rg_columns = [sample_chunk lo hi]\<rparr> = Ok s1"
    "fs_lower s1 = merge_bound lower_replaced 1 a (fs_lower st)"
    "fs_upper s1 = merge_bound upper_replaced 1 b (fs_upper st)"
    using sample_group_step [OF assms(1,2,5)] .
  obtain s2 where s2: "row_group_step vl fl (from_table_properties Map.empty) (sample_columns_schema t) None s1
       \<lparr>rg_num_rows = 3, rg_columns = [sample_chunk lo' hi']\<rparr> = Ok s2"
    "fs_lower s2 = merge_bound lower_replaced 1 a' (fs_lower s1)"
    "fs_upper s2 = merge_bound upper_replaced 1 b' (fs_upper s1)" "fs_modes s2 1 = Some (TruncateTo 16)"
    using sample_group_step [OF assms(3-5)] .
  show thesis
    by (rule that [of "build_datafile location n (sample_footer [(lo, hi), (lo', hi')]) None s2"])
      (use s1 s2 in \<open>simp_all add: parquet_to_datafile_impl_def initial_partition_def sample_footer_def st_def
        build_datafile_def truncate_lower_bounds_def truncate_upper_bounds_def merge_bound_def upsert_def file_stats_new_def\<close>)
qed

text \<open>
  The bounds of text are those of the first row group: here the second one holds \<open>''a''\<close>, below
  the lower bound of the file.
\<close>

lemma text_bounds_miss_row_groups:
  "\<exists>df. parquet_to_datafile_impl sample_lib sample_f64 ''f'' 100 (sample_footer [([109], [122]), ([97], [98])])
       (sample_columns_schema (Primitive PString)) [] None Map.empty (Some []) = Ok df
     \<and> the (df_lower_bounds df) 1 = Some (VString ''m'')
     \<and> stat_value sample_lib (Primitive PString) PhysInt32 [97] = Ok (VString ''a'')
     \<and> \<not> value_le (VString ''m'') (VString ''a'')"
proof -
  have s: "stat_value sample_lib (Primitive PString) PhysInt32 [109] = Ok (VString ''m'')"
    "stat_value sample_lib (Primitive PString) PhysInt32 [122] = Ok (VString ''z'')"
    "stat_value sample_lib (Primitive PString) PhysInt32 [97] = Ok (VString ''a'')"
    "stat_value sample_lib (Primitive PString) PhysInt32 [98] = Ok (VString ''b'')"
    by code_simp+
  moreover have "is_plain_primitive (Primitive PString)" by (simp add: is_plain_primitive_def)
  ultimately obtain df where
    "parquet_to_datafile_impl sample_lib sample_f64 ''f'' 100 (sample_footer [([109], [122]), ([97], [98])])
       (sample_columns_schema (Primitive PString)) [] None Map.empty (Some []) = Ok df"
    "the (df_lower_bounds df) 1 = Some (truncate_lower_bound (VString ''m'') 16)"
    by (rule sample_datafile) (simp add: lower_replaced_def)
  moreover have "truncate_lower_bound (VString ''m'') 16 = VString ''m''"
    by code_simp
  moreover have "\<not> value_le (VString ''m'') (VString ''a'')" by (simp add: value_le_def bytes_enc_def)
  ultimately show ?thesis using s(3) by auto
qed

theorem datafile_bounds_cover_row_groups_witness:
  "\<exists>df l u. parquet_to_datafile_impl sample_lib sample_f64 ''f'' 100 (sample_footer [([5, 0, 0, 0], [9, 0, 0, 0]), ([2, 0, 0, 0], [3, 0, 0, 0])])
       (sample_columns_schema (Primitive PInt)) [] None Map.empty (Some []) = Ok df
     \<and> the (df_lower_bounds df) 1 = Some l \<and> value_le l (VInt 2) \<and> the (df_upper_bounds df) 1 = Some u \<and> value_le (VInt 3) u"
proof -
  have s: "stat_value sample_lib (Primitive PInt) PhysInt32 [5, 0, 0, 0] = Ok (VInt 5)"
    "stat_value sample_lib (Primitive PInt) PhysInt32 [9, 0, 0, 0] = Ok (VInt 9)"
    "stat_value sample_lib (Primitive PInt) PhysInt32 [2, 0, 0, 0] = Ok (VInt 2)"
    "stat_value sample_lib (Primitive PInt) PhysInt32 [3, 0, 0, 0] = Ok (VInt 3)"
    by code_simp+
  have "is_plain_primitive (Primitive PInt)" by (simp add: is_plain_primitive_def)
  from sample_datafile [OF s this] obtain df where df:
    "parquet_to_datafile_impl sample_lib sample_f64 ''f'' 100 (sample_footer [([5, 0, 0, 0], [9, 0, 0, 0]), ([2, 0, 0, 0], [3, 0, 0, 0])])
       (sample_columns_schema (Primitive PInt)) [] None Map.empty (Some []) = Ok df" .
  have "\<lparr>rg_num_rows = 3, rg_columns = [sample_chunk [2, 0, 0, 0] [3, 0, 0, 0]]\<rparr>
      \<in> set (pm_row_groups (sample_footer [([5, 0, 0, 0], [9, 0, 0, 0]), ([2, 0, 0, 0], [3, 0, 0, 0])]))"
    by (simp add: sample_footer_def)
  note covered = datafile_bounds_cover_row_groups [OF df this, of "sample_chunk [2, 0, 0, 0] [3, 0, 0, 0]", OF _ sample_chunk_simps(5) _ sample_column(1)]
  have "(\<exists>l. the (df_lower_bounds df) 1 = Some l \<and> value_le l (VInt 2)) \<and> (\<exists>u. the (df_upper_bounds df) 1 = Some u \<and> value_le (VInt 3) u)"
    using covered by (simp add: sample_column records_bounds_def s)
  then show ?thesis using df by blast
qed

end
