(* ===== verification/Spec2Isabelle.thy ===== *)
theory Spec2Isabelle
  imports Arrow_Schema View_Transaction Sql_Concurrency File_Catalog Predicates Delete_Scan Parquet_File
begin

text \<open>
  \<^bold>\<open>A verification development for iceberg-rust.\<close> The repository is a library for Apache Iceberg tables:
  the crate \<open>iceberg-rust-spec\<close> has the data of the table format and their serial forms,
  \<open>iceberg-rust\<close> reads tables and commits changes to them, the crates under \<open>catalogs\<close> keep the pointer to
  the current metadata of each table, and \<open>datafusion_iceberg\<close> plans queries. A change goes through
  them as follows. A transaction collects operations; each operation writes manifests and a manifest
  list and yields updates and requirements; the transaction stages them on its copy of the metadata;
  the catalog checks the requirements against the current metadata, applies the updates, writes a new
  metadata file and swings its pointer by a compare-and-swap. A scan reads the manifest list of a
  snapshot, prunes manifests and files with predicates on partitions, and removes the rows that
  delete files and deletion vectors delete.

  \<^bold>\<open>Conventions.\<close> A \<open>Result\<close> is an \<open>outcome\<close> (\<open>Ok\<close>, \<open>Err\<close>, or \<open>Panic\<close> for an \<open>unwrap\<close>, an overflowing
  index or another panic). The integers i32 and i64 are \<open>int\<close> with explicit wrap-around, checked operations return
  an option, \<open>usize\<close> and \<open>u64\<close> are \<open>nat\<close>; hashes and UUIDs are words. A string is the list of its UTF-8 bytes. A
  hash map is a partial map, and where the code iterates over it the order is a parameter. Code of
  other packages (Avro, JSON, object stores, Parquet accessors, roaring bitmaps, compression, f64
  arithmetic, dates, Murmur hash) is a field of a record argument: \<open>value_lib\<close>, \<open>table_io\<close>,
  \<open>roaring_lib\<close> and their kin. What a theorem needs of such code it assumes by name, and its witness
  instantiates the record. The text of error messages is shortened.

  \<^bold>\<open>Shared theories.\<close> \<open>Prelude\<close> has outcomes, their monad, \<open>try_map\<close> and \<open>try_fold\<close>, checked arithmetic and
  facts about lists and maps; \<open>Rust_String\<close>, \<open>Bytes\<close> and \<open>Errors\<close> have what the sources use of the standard
  library and the error enums.

  \<^bold>\<open>Data of the format\<close> (\<open>iceberg-rust-spec/src\<close>).
  \<^item> \<open>Iceberg_Types\<close>, \<open>Partition_Spec\<close>, \<open>Schema_Sort\<close>: types.rs, partition.rs, schema.rs, sort.rs.
  \<^item> \<open>Snapshot\<close>, \<open>Table_Metadata\<close>, \<open>View_Metadata\<close>, \<open>Identifier\<close>: snapshot.rs, table_metadata.rs, view_metadata.rs,
    identifier.rs and namespace.rs, with the V1, V2 and V3 forms and the round trip of table metadata.
  \<^item> \<open>Values\<close>: values.rs and decimal.rs. \<open>Manifest\<close>, \<open>Manifest_List\<close>: manifest.rs and manifest_list.rs, with the
    promotion of old bounds and the round trip of entries.
  \<^item> \<open>Puffin\<close>: puffin.rs, deletion_vector.rs, and the row filter of \<open>datafusion_iceberg\<close>. Files and vectors are read back,
    and no bytes make the readers panic.
  \<^item> \<open>Arrow_Schema\<close>: arrow/schema.rs. Types survive Arrow, and field ids are assigned without clashes.

  \<^bold>\<open>Writing\<close> (\<open>iceberg-rust/src\<close>).
  \<^item> \<open>Row_Ids\<close> is the interface of the four places that hand out row ids, the locales \<open>row_ids\<close> and \<open>contiguous_row_ids\<close>;
    they are interpreted in \<open>Commit\<close>, \<open>Manifest\<close> and \<open>Manifest_List_Io\<close>.
  \<^item> \<open>Rectangle\<close> (util/mod.rs), \<open>Metrics\<close> (file_format/metrics.rs), \<open>Parquet_File\<close> (file_format/parquet.rs): bounds of
    partitions and columns. The locale \<open>merged_bound\<close> is interpreted for lower and upper bounds.
  \<^item> \<open>Arrow_Transform\<close> and \<open>Partition_Batch\<close>: arrow/transform.rs and arrow/partition.rs. The transforms of arrays agree
    with those of values, and a batch is split by partition key.
  \<^item> \<open>Table_Io\<close> has the outside world of a table; \<open>Manifest_Writer\<close> (table/manifest.rs), \<open>Manifest_List_Io\<close> and
    \<open>Manifest_List_Writer\<close> (table/manifest_list.rs), \<open>Manifest_Select\<close> (append.rs, overwrite.rs) write manifests and
    their lists. The locale \<open>manifest_sink\<close> states what a place that takes manifests owes; five
    interpretations cover files, collected lists and writers with row accounts.
  \<^item> \<open>Operation\<close> and \<open>Operation_Expiry\<close>: table/transaction/operation.rs. \<open>Commit\<close>: catalog/commit.rs.
    \<open>Transaction\<close>: table/transaction/mod.rs, which commits exactly what it staged.
  \<^item> \<open>Catalog_Api\<close>, \<open>Metadata_Store\<close>, \<open>View_Transaction\<close>: creation, entities, metadata files and transactions on views
    and materialized views.

  \<^bold>\<open>Catalogs\<close> (\<open>catalogs\<close>). The locale \<open>pointer_store\<close> of \<open>Pointer_Store\<close> is the compare-and-swap on the pointer to
  an entity's metadata; \<open>Sql_Catalog\<close> and \<open>File_Catalog\<close> interpret it on their own operations. \<open>Sql_Concurrency\<close> cuts the
  operations of the SQL catalog into steps, runs clients as an inductive step relation, and refines
  it to atomic commits through the locale \<open>simulation\<close>.

  \<^bold>\<open>Reading.\<close>
  \<^item> \<open>Table_Scan\<close> (table/mod.rs) and \<open>Manifest_Cache\<close> (util/manifest_cache.rs): manifests are read through a cache or
    directly, two interpretations of the locale \<open>file_source\<close>, with the same results.
  \<^item> \<open>Predicates\<close> (datafusion_iceberg/src/pruning_statistics.rs): the predicate on partition values admits every partition
    that holds a matching row; the locale \<open>evaluator\<close> is what the proof needs of SQL evaluation.
  \<^item> \<open>Delete_Scan\<close> (datafusion_iceberg/src/table/mod.rs): which delete files apply to which data files, the plan of
    joins, and that the plans together read exactly the rows that are not deleted.

  \<^bold>\<open>Loops.\<close> Recursion is structural or has a measure. Two loops may run forever, \<open>evict\<close> (on a map that does not
  shrink) and \<open>parent_walk\<close> (on snapshots whose parents form a cycle); they are partial functions into
  option, and that they return is proved where it is claimed. The search \<open>next_free\<close> ends because its
  addition is checked. No definition has fuel.

  \<^bold>\<open>Not modelled.\<close>
  \<^item> The catalogs of REST, Glue and S3 Tables: almost every step of theirs is a call of a generated or vendor client,
    whose code is not in the repository or is generated from an API description.
  \<^item> Asynchronous streams and channels: the Parquet writer (arrow/write.rs), reading of record batches (arrow/read.rs), and
    the caches of Parquet metadata and pages. Futures that the modelled code awaits run in order.
  \<^item> The parts of \<open>datafusion_iceberg\<close> that build DataFusion's own objects: the table provider but for the grouping of files and
    the joins with deletes, the planner, the adapters of schemas, the row-lineage columns, the
    statistics of a plan, and the catalog mirror.
  \<^item> Avro schema texts, the framing of JSON objects by serde, logging, URL parsing and the configuration of stores.
\<close>

end
